(* ===== verification/Prelude.thy ===== *)
theory Prelude
  imports Main
begin

text \<open>
  Shared vocabulary of the development: result values for the Go functions that return an
  \<open>error\<close>, list arithmetic in the shape the code loops over slices, and the contracts
  (locales) every stateful component states its invariant through: \<open>machine_inv\<close>, a
  step function that keeps an invariant, \<open>machine_guarded\<close>, one that keeps it as long as its
  environment does, and \<open>machine_mono\<close>, one whose observed value never moves down. Each component interprets them on its own step function, and reads
  the fact about whole runs off the interpretation.
\<close>

section \<open>Hint collections\<close>

named_theorems go_time \<open>equations of the Go time operations\<close>
named_theorems handler \<open>definitions of the handlers a component is built from\<close>

section \<open>Results\<close>

text \<open>
  A Go function returning \<open>(T, error)\<close> is modelled by a value of \<open>'e + 'a\<close>:
  \<open>Inl e\<close> is the error return, \<open>Inr v\<close> the value.
\<close>

type_synonym ('e, 'a) result = "'e + 'a"

definition is_ok :: "('e, 'a) result \<Rightarrow> bool" where
  "is_ok r = (case r of Inl _ \<Rightarrow> False | Inr _ \<Rightarrow> True)"

lemma is_ok_simps [simp]: "is_ok (Inl e) = False" "is_ok (Inr v) = True"
  by (simp_all add: is_ok_def)

lemma is_ok_iff: "is_ok r \<longleftrightarrow> (\<exists>v. r = Inr v)"
  by (cases r) simp_all

section \<open>Machines and their runs\<close>

text \<open>A run folds the step over the events in order.\<close>

primrec run_events :: "('s \<Rightarrow> 'e \<Rightarrow> 's) \<Rightarrow> 's \<Rightarrow> 'e list \<Rightarrow> 's" where
  "run_events step s [] = s"
| "run_events step s (e # es) = run_events step (step s e) es"

lemma run_events_append [simp]:
  "run_events step s (es @ es') = run_events step (run_events step s es) es'"
  by (induction es arbitrary: s) simp_all

locale machine_inv =
  fixes step :: "'s \<Rightarrow> 'e \<Rightarrow> 's"
    and inv :: "'s \<Rightarrow> bool"
  assumes step_inv: "inv s \<Longrightarrow> inv (step s e)"
begin

lemma run_inv: "inv s \<Longrightarrow> inv (run_events step s es)"
  by (induction es arbitrary: s) (simp_all add: step_inv)

end

text \<open>
  A machine that keeps its invariant as long as what its environment does is allowed: \<open>run_allowed\<close>
  says so of a whole run, event by event in the state where it happens.
\<close>

fun run_allowed :: "('s \<Rightarrow> 'e \<Rightarrow> bool) \<Rightarrow> ('s \<Rightarrow> 'e \<Rightarrow> 's) \<Rightarrow> 's \<Rightarrow> 'e list \<Rightarrow> bool" where
  "run_allowed ok step s [] = True"
| "run_allowed ok step s (e # es) = (ok s e \<and> run_allowed ok step (step s e) es)"

locale machine_guarded =
  fixes step :: "'s \<Rightarrow> 'e \<Rightarrow> 's"
    and ok :: "'s \<Rightarrow> 'e \<Rightarrow> bool"
    and inv :: "'s \<Rightarrow> bool"
  assumes guarded_step: "inv s \<Longrightarrow> ok s e \<Longrightarrow> inv (step s e)"
begin

lemma guarded_run: "inv s \<Longrightarrow> run_allowed ok step s es \<Longrightarrow> inv (run_events step s es)"
  by (induction es arbitrary: s) (simp_all add: guarded_step)

end

text \<open>
  A machine whose observation \<open>obs\<close> only moves up in a preorder \<open>le\<close>, as long as the
  invariant holds.
\<close>

locale machine_mono = machine_inv step inv
  for step :: "'s \<Rightarrow> 'e \<Rightarrow> 's" and inv :: "'s \<Rightarrow> bool" +
  fixes obs :: "'s \<Rightarrow> 'v"
    and le :: "'v \<Rightarrow> 'v \<Rightarrow> bool"
  assumes le_refl: "le v v"
    and le_trans: "le u v \<Longrightarrow> le v w \<Longrightarrow> le u w"
    and step_mono: "inv s \<Longrightarrow> le (obs s) (obs (step s e))"
begin

lemma run_mono: "inv s \<Longrightarrow> le (obs s) (obs (run_events step s es))"
proof (induction es arbitrary: s)
  case Nil
  show ?case by (simp add: le_refl)
next
  case (Cons e es)
  have "le (obs s) (obs (step s e))" using Cons.prems by (rule step_mono)
  moreover have "le (obs (step s e)) (obs (run_events step (step s e) es))"
    using Cons.IH step_inv [OF Cons.prems] by blast
  ultimately show ?case by (simp add: le_trans [of "obs s"])
qed

end

section \<open>Slices\<close>

text \<open>
  \<open>zip_with f a b\<close> is Go's \<open>for k := range a { out[k] = f(a[k], b[k]) }\<close>: it runs over
  \<open>a\<close> and panics, here \<open>None\<close>, when \<open>b\<close> is shorter.
\<close>

fun zip_with :: "('a \<Rightarrow> 'b \<Rightarrow> 'c) \<Rightarrow> 'a list \<Rightarrow> 'b list \<Rightarrow> 'c list option" where
  "zip_with f [] bs = Some []"
| "zip_with f (a # as) [] = None"
| "zip_with f (a # as) (b # bs) = map_option ((#) (f a b)) (zip_with f as bs)"

lemma zip_with_same_length:
  "length as = length bs \<Longrightarrow> zip_with f as bs = Some (map2 f as bs)"
  by (induction as bs rule: list_induct2) simp_all

lemma zip_with_length: "zip_with f as bs = Some cs \<Longrightarrow> length cs = length as"
  by (induction f as bs arbitrary: cs rule: zip_with.induct) auto

lemma zip_with_None: "zip_with f as bs = None \<longleftrightarrow> length bs < length as"
  by (induction f as bs rule: zip_with.induct) auto

text \<open>Pointwise order on slices of one length.\<close>

definition le_each :: "int list \<Rightarrow> int list \<Rightarrow> bool" where
  "le_each as bs = list_all2 (\<le>) as bs"

lemma le_each_refl [simp]: "le_each as as"
  by (simp add: le_each_def list_all2_refl)

lemma le_each_trans: "le_each as bs \<Longrightarrow> le_each bs cs \<Longrightarrow> le_each as cs"
  unfolding le_each_def by (rule list_all2_trans) auto

lemma le_each_length: "le_each as bs \<Longrightarrow> length as = length bs"
  by (simp add: le_each_def list_all2_lengthD)

lemma le_each_simps [simp]:
  "le_each [] bs = (bs = [])"
  "le_each (a # as) bs = (\<exists>b bs'. bs = b # bs' \<and> a \<le> b \<and> le_each as bs')"
  by (auto simp: le_each_def list_all2_Cons1)

lemma le_each_max1: "length as = length bs \<Longrightarrow> le_each as (map2 max as bs)"
  by (induction as bs rule: list_induct2) auto

lemma le_each_max2: "length as = length bs \<Longrightarrow> le_each bs (map2 max as bs)"
  by (induction as bs rule: list_induct2) auto

lemma le_each_plus:
  "le_each as bs \<Longrightarrow> le_each cs ds \<Longrightarrow> le_each (map2 (+) as cs) (map2 (+) bs ds)"
proof (induction as arbitrary: bs cs ds)
  case Nil
  then show ?case by simp
next
  case (Cons a as)
  then show ?case by (cases cs) auto
qed

lemma sum_list_le_each: "le_each as bs \<Longrightarrow> sum_list as \<le> sum_list bs"
  by (induction as arbitrary: bs) fastforce+

section \<open>Separators\<close>

text \<open>What stands before the first separator is determined by the joined text.\<close>

lemma split_at_sep:
  "as @ x # ts = bs @ x # us \<Longrightarrow> x \<notin> set as \<Longrightarrow> x \<notin> set bs \<Longrightarrow> as = bs \<and> ts = us"
proof (induction as arbitrary: bs)
  case Nil
  then show ?case by (cases bs) auto
next
  case (Cons a as)
  then show ?case by (cases bs) auto
qed

section \<open>Rows by key\<close>

lemma distinct_filter_key: "distinct (map f xs) \<Longrightarrow> length (filter (\<lambda>x. f x = k) xs) \<le> 1"
proof (induction xs)
  case (Cons a as)
  show ?case
  proof (cases "f a = k")
    case True
    with Cons.prems have "k \<notin> f ` set as" by simp
    then have "filter (\<lambda>x. f x = k) as = []" unfolding filter_empty_conv by blast
    with True show ?thesis by simp
  qed (use Cons in simp)
qed simp

end
