(* ===== verification/Go_Time.thy ===== *)
theory Go_Time
  imports Prelude
begin

text \<open>
  What the code uses of Go's \<open>time\<close> package. An instant (\<open>time.Time\<close>, whose location
  only affects printing and calendar reads, all of which go through UTC here) is the
  number of nanoseconds since the Unix epoch; \<open>zero_time\<close> is Go's zero value, 1 January
  of year 1. Calendar reads (\<open>Year\<close>, \<open>Month\<close>, \<open>Day\<close>) and \<open>time.Date\<close> with its
  normalization of months and days out of range are written for the proleptic Gregorian
  calendar over all of \<open>int\<close>.
\<close>

type_synonym time = int
type_synonym duration = int

definition second :: duration where [go_time]: "second = 1000000000"
definition minute :: duration where [go_time]: "minute = 60 * second"
definition hour :: duration where [go_time]: "hour = 60 * minute"
definition day_ns :: duration where [go_time]: "day_ns = 24 * hour"

lemma day_ns_val: "day_ns = 86400000000000"
  by (simp add: go_time)

lemma day_ns_pos [simp]: "0 < day_ns" "0 \<le> day_ns" "day_ns \<noteq> 0"
  by (simp_all add: day_ns_val)

lemma hour_val: "hour = 3600000000000"
  by (simp add: go_time)

definition zero_time :: time where
  "zero_time = - 62135596800 * second"

definition is_zero_time :: "time \<Rightarrow> bool" where
  "is_zero_time t = (t = zero_time)"

text \<open>A time read back from Postgres, which keeps whole microseconds.\<close>

definition truncate_us :: "time \<Rightarrow> time" where
  "truncate_us t = t - (t - zero_time) mod 1000"

text \<open>\<open>Time.Sub\<close> saturates at the bounds of an int64 of nanoseconds.\<close>

definition time_sub :: "time \<Rightarrow> time \<Rightarrow> duration" where
  "time_sub a b = max (- (2 ^ 63)) (min (2 ^ 63 - 1) (a - b))"

lemma time_sub_ge: "0 \<le> d \<Longrightarrow> d \<le> 2 ^ 63 - 1 \<Longrightarrow> (d \<le> time_sub a b) = (d \<le> a - b)"
  by (auto simp: time_sub_def)

lemma time_sub_less: "0 \<le> d \<Longrightarrow> d \<le> 2 ^ 63 - 1 \<Longrightarrow> (time_sub a b < d) = (a - b < d)"
  by (auto simp: time_sub_def)

section \<open>The calendar\<close>

definition leap :: "int \<Rightarrow> bool" where
  "leap y = (y mod 4 = 0 \<and> (y mod 100 \<noteq> 0 \<or> y mod 400 = 0))"

text \<open>Days from 1 January of year 1 to 1 January of year \<open>y\<close>.\<close>

definition days_before_year :: "int \<Rightarrow> int" where
  "days_before_year y = 365 * (y - 1) + (y - 1) div 4 - (y - 1) div 100 + (y - 1) div 400"

definition days_before_month :: "int \<Rightarrow> int \<Rightarrow> int" where
  "days_before_month y m =
     (if m \<le> 1 then 0 else if m = 2 then 31
      else (if m = 3 then 59 else if m = 4 then 90 else if m = 5 then 120
            else if m = 6 then 151 else if m = 7 then 181 else if m = 8 then 212
            else if m = 9 then 243 else if m = 10 then 273 else if m = 11 then 304
            else if m = 12 then 334 else 365) + (if leap y then 1 else 0))"

definition month_len :: "int \<Rightarrow> int \<Rightarrow> int" where
  "month_len y m = days_before_month y (m + 1) - days_before_month y m"

text \<open>Days since the epoch of the date; month and day may be out of range.\<close>

definition civil_days :: "int \<Rightarrow> int \<Rightarrow> int \<Rightarrow> int" where
  "civil_days y m d =
     (let y' = y + (m - 1) div 12; m' = (m - 1) mod 12 + 1
      in days_before_year y' + days_before_month y' m' + (d - 1) - 719162)"

text \<open>\<open>time.Date(y, m, d, 0, 0, 0, 0, time.UTC)\<close>.\<close>

definition go_date :: "int \<Rightarrow> int \<Rightarrow> int \<Rightarrow> time" where
  "go_date y m d = civil_days y m d * day_ns"

text \<open>The UTC day an instant falls on, and its calendar reads.\<close>

definition day_number :: "time \<Rightarrow> int" where
  "day_number t = t div day_ns"

definition year_of_day :: "int \<Rightarrow> int" where
  "year_of_day n =
     (let k = n + 719162;
          a = k div 146097; r = k mod 146097;
          b = min (r div 36524) 3; s = r - 36524 * b;
          c = s div 1461; u = s mod 1461;
          d = min (u div 365) 3
      in 400 * a + 100 * b + 4 * c + d + 1)"

definition year_day :: "int \<Rightarrow> int" where
  "year_day n = n + 719162 - days_before_year (year_of_day n)"

definition month_of_year_day :: "int \<Rightarrow> int \<Rightarrow> int" where
  "month_of_year_day y k =
     (if k < days_before_month y 2 then 1 else if k < days_before_month y 3 then 2
      else if k < days_before_month y 4 then 3 else if k < days_before_month y 5 then 4
      else if k < days_before_month y 6 then 5 else if k < days_before_month y 7 then 6
      else if k < days_before_month y 8 then 7 else if k < days_before_month y 9 then 8
      else if k < days_before_month y 10 then 9 else if k < days_before_month y 11 then 10
      else if k < days_before_month y 12 then 11 else 12)"

definition month_of_day :: "int \<Rightarrow> int" where
  "month_of_day n = month_of_year_day (year_of_day n) (year_day n)"

definition mday_of_day :: "int \<Rightarrow> int" where
  "mday_of_day n = year_day n - days_before_month (year_of_day n) (month_of_day n) + 1"

definition time_year :: "time \<Rightarrow> int" where
  "time_year t = year_of_day (day_number t)"

definition time_month :: "time \<Rightarrow> int" where
  "time_month t = month_of_day (day_number t)"

definition time_day :: "time \<Rightarrow> int" where
  "time_day t = mday_of_day (day_number t)"

text \<open>\<open>AddDate(dy, dm, dd)\<close> on a UTC time: \<open>time.Date\<close> over the shifted fields, with the
  clock of the day kept.\<close>

definition add_date :: "time \<Rightarrow> int \<Rightarrow> int \<Rightarrow> int \<Rightarrow> time" where
  "add_date t dy dm dd =
     go_date (time_year t + dy) (time_month t + dm) (time_day t + dd) + t mod day_ns"

section \<open>Laws of the calendar\<close>

lemma div_step: "1 < (k::int) \<Longrightarrow> y div k = (y - 1) div k + (if y mod k = 0 then 1 else 0)"
proof -
  assume k: "1 < k"
  have split: "y = k * (y div k) + y mod k" by simp
  show ?thesis
  proof (cases "y mod k = 0")
    case True
    then have "y - 1 = k * (y div k - 1) + (k - 1)" using split by (simp add: algebra_simps)
    then have "(y - 1) div k = y div k - 1" using k by (intro int_div_pos_eq [of _ _ _ "k - 1"]) auto
    with True show ?thesis by simp
  next
    case False
    have "0 \<le> y mod k" "y mod k < k" using k by simp_all
    with False have "0 \<le> y mod k - 1" "y mod k - 1 < k" by linarith+
    moreover have "y - 1 = k * (y div k) + (y mod k - 1)" using split by (simp add: algebra_simps)
    ultimately have "(y - 1) div k = y div k" by (intro int_div_pos_eq)
    with False show ?thesis by simp
  qed
qed

lemma leap_count:
  assumes "C \<Longrightarrow> B" "B \<Longrightarrow> A"
  shows "365 * y + (p + (if A then 1 else 0)) - (q + (if B then 1 else 0)) + (r + (if C then 1 else 0))
    = 365 * (y - 1) + p - q + r + (if A \<and> (\<not> B \<or> C) then 366 else (365::int))"
  using assms by (cases A; cases B; cases C) (simp_all add: right_diff_distrib)

lemma days_before_year_step:
  "days_before_year (y + 1) = days_before_year y + (if leap y then 366 else 365)"
proof -
  have m: "y mod 400 = 0 \<Longrightarrow> y mod 100 = 0" "y mod 100 = 0 \<Longrightarrow> y mod 4 = 0"
    unfolding mod_eq_0_iff_dvd by (rule dvd_trans [rotated], assumption, simp)+
  have e: "y div 4 = (y - 1) div 4 + (if y mod 4 = 0 then 1 else 0)"
    "y div 100 = (y - 1) div 100 + (if y mod 100 = 0 then 1 else 0)"
    "y div 400 = (y - 1) div 400 + (if y mod 400 = 0 then 1 else 0)"
    by (rule div_step, simp)+
  have "days_before_year (y + 1) = 365 * y + y div 4 - y div 100 + y div 400"
    unfolding days_before_year_def by (simp only: add_diff_cancel_right')
  also have "\<dots> = 365 * (y - 1) + (y - 1) div 4 - (y - 1) div 100 + (y - 1) div 400
      + (if leap y then 366 else 365)"
    unfolding e leap_def by (rule leap_count [OF m])
  finally show ?thesis unfolding days_before_year_def [of y] .
qed

lemma days_before_year_add: "days_before_year y + 365 * int n \<le> days_before_year (y + int n)"
proof (induction n)
  case 0
  show ?case by simp
next
  case (Suc n)
  moreover have "days_before_year (y + int (Suc n)) = days_before_year (y + int n + 1)"
    by (simp add: ac_simps)
  ultimately show ?case using days_before_year_step [of "y + int n"] by (simp split: if_splits)
qed

lemma days_before_year_mono: "x \<le> y \<Longrightarrow> days_before_year x \<le> days_before_year y"
  using days_before_year_add [of x "nat (y - x)"] by simp

lemma days_before_year_strict: "x < y \<Longrightarrow> days_before_year x < days_before_year y"
  using days_before_year_add [of x "nat (y - x)"] by simp

lemma div_capped_at_3:
  assumes "0 < m" "0 \<le> r" "r \<le> 4 * (m::int)"
  defines "b \<equiv> min (r div m) 3"
  shows "0 \<le> b" "b \<le> 3" "m * b \<le> r" "r \<le> m * b + m" "b < 3 \<Longrightarrow> r < m * b + m"
proof -
  have r: "m * (r div m) \<le> r" "r < m * (r div m) + m" "0 \<le> r div m"
    using assms by (simp_all add: pos_imp_zdiv_nonneg_iff minus_mod_eq_mult_div [symmetric])
  have *: "m * b \<le> r \<and> r \<le> m * b + m \<and> (b < 3 \<longrightarrow> r < m * b + m)"
  proof (cases "r div m \<le> 3")
    case True
    then have "b = r div m" by (simp add: b_def)
    with r show ?thesis by simp
  next
    case False
    then have "b = 3" by (simp add: b_def)
    moreover have "m * 3 \<le> m * (r div m)" using False assms(1) by (intro mult_left_mono) simp_all
    then have "m * 3 \<le> r" using r(1) by (rule order_trans)
    ultimately show ?thesis using assms(3) by simp
  qed
  then show "m * b \<le> r" "r \<le> m * b + m" "b < 3 \<Longrightarrow> r < m * b + m" by simp_all
  show "0 \<le> b" "b \<le> 3" using r by (simp_all add: b_def)
qed

text \<open>Every day lies in exactly the year the reading finds.\<close>

lemma year_of_day_bounds:
  "days_before_year (year_of_day n) \<le> n + 719162"
  "n + 719162 < days_before_year (year_of_day n + 1)"
proof -
  define k where "k = n + 719162"
  define a r where "a = k div 146097" and "r = k mod 146097"
  define b s where "b = min (r div 36524) 3" and "s = r - 36524 * b"
  define c u where "c = s div 1461" and "u = s mod 1461"
  define d where "d = min (u div 365) 3"
  have y: "year_of_day n = 400 * a + 100 * b + 4 * c + d + 1"
    unfolding d_def u_def c_def s_def b_def r_def a_def k_def year_of_day_def Let_def by (rule refl)
  have k: "k = 146097 * a + r" "0 \<le> r" "r < 146097" by (simp_all add: a_def r_def)
  note capped = div_capped_at_3 [of 36524 r, folded b_def] div_capped_at_3 [of 365 u, folded d_def]
  have b: "0 \<le> b" "b \<le> 3" "0 \<le> s" "s \<le> 36524" "b < 3 \<Longrightarrow> s < 36524"
    using capped(1-5) k(2,3) unfolding s_def by linarith+
  have c: "s = 1461 * c + u" "0 \<le> u" "u < 1461" "0 \<le> c" "c \<le> 24"
    using b by (simp_all add: c_def u_def)
  have d: "0 \<le> d" "d \<le> 3" "365 * d \<le> u" "d < 3 \<Longrightarrow> u < 365 * (d + 1)"
    using capped(6-10) c(2,3) by (simp_all add: distrib_left)
  have q4: "(400 * a + 100 * b + 4 * c + d) div 4 = 100 * a + 25 * b + c" using d by (intro int_div_pos_eq [of _ _ _ d]) auto
  have q100: "(400 * a + 100 * b + 4 * c + d) div 100 = 4 * a + b"
    using c d by (intro int_div_pos_eq [of _ _ _ "4 * c + d"]) auto
  have q400: "(400 * a + 100 * b + 4 * c + d) div 400 = a"
    using b c d by (intro int_div_pos_eq [of _ _ _ "100 * b + 4 * c + d"]) auto
  have start: "days_before_year (year_of_day n) = 146097 * a + 36524 * b + 1461 * c + 365 * d"
    unfolding y days_before_year_def using q4 q100 q400 by simp
  have rest: "k = 146097 * a + 36524 * b + 1461 * c + u" using k c by (simp add: s_def)
  show "days_before_year (year_of_day n) \<le> n + 719162"
    using start rest d unfolding k_def by linarith
  have leapy: "leap (year_of_day n)" if "d = 3" "c < 24 \<or> b = 3"
  proof -
    have four: "year_of_day n = 4 * (100 * a + 25 * b + c + 1)" using y that by simp
    have hund: "year_of_day n = 100 * (4 * a + b) + (4 * c + 4)" using y that by simp
    show ?thesis
    proof (cases "c < 24")
      case True
      have "year_of_day n mod 100 = 4 * c + 4" using hund True c by (intro int_mod_pos_eq [of _ _ "4 * a + b"]) auto
      then show ?thesis using four c by (simp add: leap_def)
    next
      case False
      with that c b have "c = 24" "b = 3" by auto
      then have "year_of_day n = 400 * (a + 1)" using y that by simp
      then show ?thesis by (simp add: leap_def)
    qed
  qed
  have "u < 365 * d + (if leap (year_of_day n) then 366 else 365)"
  proof (cases "d < 3")
    case True
    with d show ?thesis by auto
  next
    case False
    then have d3: "d = 3" using d by simp
    show ?thesis
    proof (cases "c < 24 \<or> b = 3")
      case True
      with leapy d3 c show ?thesis by simp
    next
      case False
      with b c have "s < 36524" "c = 24" by auto
      with c d3 show ?thesis by auto
    qed
  qed
  then show "n + 719162 < days_before_year (year_of_day n + 1)"
    using start rest days_before_year_step [of "year_of_day n"] unfolding k_def by (simp split: if_splits)
qed

lemma year_of_day_unique:
  assumes "days_before_year y \<le> n + 719162" "n + 719162 < days_before_year (y + 1)"
  shows "year_of_day n = y"
proof (rule ccontr)
  assume "year_of_day n \<noteq> y"
  then consider "year_of_day n + 1 \<le> y" | "y + 1 \<le> year_of_day n" by linarith
  then show False
  proof cases
    case 1
    then show False using assms(1) year_of_day_bounds(2) [of n] days_before_year_mono [OF 1] by linarith
  next
    case 2
    then show False using assms(2) year_of_day_bounds(1) [of n] days_before_year_mono [OF 2] by linarith
  qed
qed


text \<open>Inside a year, the month table is read back.\<close>

lemmas month_tables = days_before_month_def month_of_year_day_def month_len_def

lemma month_range: "1 \<le> month_of_year_day y k" "month_of_year_day y k \<le> 12"
  by (simp_all add: month_of_year_day_def)

lemma month_cases:
  assumes "1 \<le> m" "m \<le> (12::int)"
  obtains "m = 1" | "m = 2" | "m = 3" | "m = 4" | "m = 5" | "m = 6" | "m = 7" | "m = 8"
    | "m = 9" | "m = 10" | "m = 11" | "m = 12"
proof -
  have "m = 1 \<or> m = 2 \<or> m = 3 \<or> m = 4 \<or> m = 5 \<or> m = 6 \<or> m = 7 \<or> m = 8
      \<or> m = 9 \<or> m = 10 \<or> m = 11 \<or> m = 12"
    using assms by presburger
  then show thesis using that by blast
qed

lemma month_len_range: "1 \<le> m \<Longrightarrow> m \<le> 12 \<Longrightarrow> 28 \<le> month_len y m \<and> month_len y m \<le> 31"
  by (erule month_cases) (simp_all add: month_tables)

lemma month_of_year_day_eq:
  assumes "1 \<le> m" "m \<le> 12" "0 \<le> k" "k < month_len y m"
  shows "month_of_year_day y (days_before_month y m + k) = m"
  using assms by (elim month_cases) (auto simp: month_tables)

lemma days_before_month_next: "days_before_month y m + month_len y m = days_before_month y (m + 1)"
  by (simp add: month_len_def)

lemma month_of_year_day_bounds:
  assumes "0 \<le> k" "k < (if leap y then 366 else 365)"
  shows "days_before_month y (month_of_year_day y k) \<le> k"
    "k < days_before_month y (month_of_year_day y k) + month_len y (month_of_year_day y k)"
proof -
  have ends: "days_before_month y 1 \<le> k" "k < days_before_month y 13"
    using assms by (simp_all add: days_before_month_def split: if_splits)
  show "days_before_month y (month_of_year_day y k) \<le> k"
    using ends by (simp add: month_of_year_day_def)
  show "k < days_before_month y (month_of_year_day y k) + month_len y (month_of_year_day y k)"
    unfolding days_before_month_next using ends by (simp add: month_of_year_day_def)
qed

lemma days_before_month_range:
  assumes "1 \<le> m" "m \<le> 12"
  shows "0 \<le> days_before_month y m"
    "days_before_month y m + month_len y m \<le> (if leap y then 366 else 365)"
  using assms by (auto simp: month_tables elim: month_cases)

lemma year_day_range: "0 \<le> year_day n" "year_day n < (if leap (year_of_day n) then 366 else 365)"
  using year_of_day_bounds [of n] days_before_year_step [of "year_of_day n"]
  by (auto simp: year_day_def)

text \<open>A date in range is read back as it was written.\<close>

lemma civil_days_in_range:
  "1 \<le> m \<Longrightarrow> m \<le> 12 \<Longrightarrow>
    civil_days y m d = days_before_year y + days_before_month y m + (d - 1) - 719162"
  by (simp add: civil_days_def)

lemma civil_reads:
  assumes "1 \<le> m" "m \<le> 12" "1 \<le> d" "d \<le> month_len y m"
  shows "year_of_day (civil_days y m d) = y" "month_of_day (civil_days y m d) = m"
    "mday_of_day (civil_days y m d) = d"
proof -
  have n: "civil_days y m d + 719162 = days_before_year y + days_before_month y m + (d - 1)"
    using assms by (simp add: civil_days_in_range)
  show y: "year_of_day (civil_days y m d) = y"
    using n assms days_before_month_range [of m y] days_before_year_step [of y]
    by (intro year_of_day_unique) (auto split: if_splits)
  then have k: "year_day (civil_days y m d) = days_before_month y m + (d - 1)"
    using n by (simp add: year_day_def)
  show m: "month_of_day (civil_days y m d) = m"
    using assms month_of_year_day_eq [of m "d - 1" y] by (simp add: month_of_day_def y k)
  show "mday_of_day (civil_days y m d) = d" by (simp add: mday_of_day_def y k m)
qed

text \<open>Conversely every day is the date of its own reads.\<close>

lemma civil_of_reads: "civil_days (year_of_day n) (month_of_day n) (mday_of_day n) = n"
  by (simp add: civil_days_in_range month_of_day_def month_range mday_of_day_def year_day_def)

lemma mday_range: "1 \<le> mday_of_day n" "mday_of_day n \<le> month_len (year_of_day n) (month_of_day n)"
  using month_of_year_day_bounds [OF year_day_range [of n]] by (simp_all add: mday_of_day_def month_of_day_def)

section \<open>Months by index\<close>

text \<open>
  Month \<open>i\<close> counts from January of year 0, so that moving by months is addition. The
  calendar below is only ever used through these laws.
\<close>

definition month_start :: "int \<Rightarrow> int" where
  "month_start i = civil_days (i div 12) (i mod 12 + 1) 1"

definition month_days :: "int \<Rightarrow> int" where
  "month_days i = month_len (i div 12) (i mod 12 + 1)"

definition month_index :: "int \<Rightarrow> int" where
  "month_index n = 12 * year_of_day n + month_of_day n - 1"

lemma civil_days_month: "civil_days y m d = month_start (12 * y + m - 1) + (d - 1)"
proof -
  have "(12 * y + m - 1) div 12 = y + (m - 1) div 12" "(12 * y + m - 1) mod 12 = (m - 1) mod 12"
    by (simp_all add: add_diff_eq [symmetric])
  then show ?thesis by (simp add: month_start_def civil_days_def Let_def)
qed

lemma month_days_range: "28 \<le> month_days i \<and> month_days i \<le> 31"
  unfolding month_days_def by (rule month_len_range) (simp_all add: add.commute [of _ 1] zmod_le_nonneg_dividend)


lemma month_start_eq:
  "month_start i = days_before_year (i div 12) + days_before_month (i div 12) (i mod 12 + 1) - 719162"
proof -
  have "0 \<le> i mod 12" "i mod 12 < 12" by simp_all
  then have "1 \<le> i mod 12 + 1" "i mod 12 + 1 \<le> 12" by linarith+
  from civil_days_in_range [OF this] show ?thesis by (simp add: month_start_def)
qed

lemma div_mod_12_next:
  assumes "i = 12 * q + r" "0 \<le> r" "r < (12::int)"
  shows "(i + 1) div 12 = (if r = 11 then q + 1 else q)" "(i + 1) mod 12 = (if r = 11 then 0 else r + 1)"
proof -
  have "i + 1 = 12 * (if r = 11 then q + 1 else q) + (if r = 11 then 0 else r + 1)"
    using assms by simp
  moreover have "0 \<le> (if r = 11 then 0 else r + 1)" "(if r = 11 then 0 else r + 1) < 12"
    using assms by simp_all
  ultimately show "(i + 1) div 12 = (if r = 11 then q + 1 else q)"
    "(i + 1) mod 12 = (if r = 11 then 0 else r + 1)"
    by (rule int_div_pos_eq, rule int_mod_pos_eq)
qed

lemma month_start_next: "month_start (i + 1) = month_start i + month_days i"
proof -
  have "i = 12 * (i div 12) + i mod 12" "0 \<le> i mod 12" "i mod 12 < 12" by simp_all
  note next_month = div_mod_12_next [OF this]
  show ?thesis
  proof (cases "i mod 12 = 11")
    case True
    then show ?thesis
      using days_before_year_step [of "i div 12"]
      unfolding month_start_eq month_days_def month_len_def next_month
      by (simp add: days_before_month_def)
  next
    case False
    then show ?thesis unfolding month_start_eq month_days_def month_len_def next_month by simp
  qed
qed

lemma month_start_add: "month_start i + 28 * int n \<le> month_start (i + int n)"
proof (induction n)
  case 0
  show ?case by simp
next
  case (Suc n)
  moreover have "month_start (i + int (Suc n)) = month_start (i + int n + 1)" by (simp add: ac_simps)
  ultimately show ?case
    using month_start_next [of "i + int n"] month_days_range [of "i + int n"] by simp
qed

lemma month_start_mono: "i \<le> j \<Longrightarrow> month_start i \<le> month_start j"
  using month_start_add [of i "nat (j - i)"] by simp

lemma month_start_strict: "i < j \<Longrightarrow> month_start i < month_start j"
  using month_start_add [of i "nat (j - i)"] by simp

lemma month_index_div: "month_index n div 12 = year_of_day n" "month_index n mod 12 + 1 = month_of_day n"
proof -
  have r: "0 \<le> month_of_day n - 1" "month_of_day n - 1 < 12"
    using month_range [of "year_of_day n" "year_day n"] by (simp_all add: month_of_day_def)
  show "month_index n div 12 = year_of_day n"
    using r by (intro int_div_pos_eq [of _ _ _ "month_of_day n - 1"]) (auto simp: month_index_def)
  have "month_index n mod 12 = month_of_day n - 1"
    using r by (intro int_mod_pos_eq [of _ _ "year_of_day n"]) (auto simp: month_index_def)
  then show "month_index n mod 12 + 1 = month_of_day n" by simp
qed

lemma day_in_month:
  "n = month_start (month_index n) + (mday_of_day n - 1)"
  "month_start (month_index n) \<le> n" "n < month_start (month_index n + 1)"
proof -
  have r: "1 \<le> mday_of_day n" "mday_of_day n \<le> month_days (month_index n)"
    using mday_range [of n] by (simp_all add: month_days_def month_index_div)
  show *: "n = month_start (month_index n) + (mday_of_day n - 1)"
    using civil_of_reads [of n] civil_days_month [of "year_of_day n" "month_of_day n" "mday_of_day n"]
    by (simp add: month_index_def)
  show "month_start (month_index n) \<le> n" "n < month_start (month_index n + 1)"
    using * r month_start_next [of "month_index n"] by linarith+
qed

lemma month_index_unique:
  assumes "month_start i \<le> n" "n < month_start (i + 1)"
  shows "month_index n = i"
proof (rule ccontr)
  assume "month_index n \<noteq> i"
  then consider "month_index n + 1 \<le> i" | "i + 1 \<le> month_index n" by linarith
  then show False
  proof cases
    case 1
    then show False using assms(1) day_in_month(3) [of n] month_start_mono [OF 1] by linarith
  next
    case 2
    then show False using assms(2) day_in_month(2) [of n] month_start_mono [OF 2] by linarith
  qed
qed

lemma month_index_start [simp]: "month_index (month_start i) = i"
  using month_start_next [of i] month_days_range [of i] by (intro month_index_unique) linarith+

lemma mday_of_month_day:
  "1 \<le> d \<Longrightarrow> d \<le> month_days i \<Longrightarrow>
    month_index (month_start i + (d - 1)) = i \<and> mday_of_day (month_start i + (d - 1)) = d"
proof -
  assume d: "1 \<le> d" "d \<le> month_days i"
  then have i: "month_index (month_start i + (d - 1)) = i"
    using month_start_next [of i] by (intro month_index_unique) linarith+
  moreover have "mday_of_day (month_start i + (d - 1)) = d"
    using day_in_month(1) [of "month_start i + (d - 1)"] i by simp
  ultimately show ?thesis ..
qed

section \<open>Instants and days\<close>

lemma days_le: "m \<le> n \<Longrightarrow> m * day_ns \<le> n * day_ns"
  by (rule mult_right_mono) simp_all

lemma day_number_bounds: "day_number t * day_ns \<le> t" "t < (day_number t + 1) * day_ns"
proof -
  have "t = day_number t * day_ns + t mod day_ns" by (simp add: day_number_def)
  moreover have "0 \<le> t mod day_ns" "t mod day_ns < day_ns" by simp_all
  ultimately show "day_number t * day_ns \<le> t" "t < (day_number t + 1) * day_ns"
    unfolding distrib_right mult_1 by linarith+
qed

lemma day_number_mult [simp]: "day_number (n * day_ns) = n"
  by (simp add: day_number_def)

lemma go_date_month: "go_date y m d = (month_start (12 * y + m - 1) + (d - 1)) * day_ns"
  by (simp add: go_date_def civil_days_month)

lemma go_date_today: "go_date (time_year t) (time_month t) (time_day t) = day_number t * day_ns"
  by (simp add: go_date_def time_year_def time_month_def time_day_def civil_of_reads)

lemma add_date_days: "add_date t 0 0 k = t + k * day_ns"
proof -
  have "civil_days (time_year t) (time_month t) (time_day t + k) = day_number t + k"
    using civil_of_reads [of "day_number t"]
    by (simp add: civil_days_def Let_def time_year_def time_month_def time_day_def)
  then show ?thesis
    by (simp add: add_date_def go_date_def day_number_def algebra_simps flip: mult.commute [of day_ns])
qed


lemma date_reads:
  assumes "1 \<le> m" "m \<le> 12" "1 \<le> d" "d \<le> month_len y m"
  shows "time_year (go_date y m d) = y" "time_month (go_date y m d) = m" "time_day (go_date y m d) = d"
  using civil_reads [OF assms] by (simp_all add: time_year_def time_month_def time_day_def go_date_def)

lemma go_date_cmp:
  "go_date y m d < go_date y' m' d' \<longleftrightarrow> civil_days y m d < civil_days y' m' d'"
  "go_date y m d \<le> go_date y' m' d' \<longleftrightarrow> civil_days y m d \<le> civil_days y' m' d'"
  "go_date y m d = go_date y' m' d' \<longleftrightarrow> civil_days y m d = civil_days y' m' d'"
  by (simp_all add: go_date_def)

text \<open>The equations that evaluate the calendar on numerals.\<close>

lemmas civil_eval = civil_days_def days_before_year_def days_before_month_def leap_def

lemmas date_eval = go_date_def civil_eval day_ns_val hour_val go_time

lemmas calendar_eval = date_eval
  time_year_def time_month_def time_day_def day_number_def year_of_day_def year_day_def
  month_of_day_def month_of_year_day_def mday_of_day_def add_date_def

end
