(* ===== verification/Cron.thy ===== *)
theory Cron
  imports Prelude Go_Time
begin

text \<open>
  \<open>internal/app/cron\<close>: the advisory lock a scheduled pass runs under and the
  \<open>cron_state\<close> table its sub-tasks keep their cadence in. A lock is held for the length
  of the pass, so two passes of one job do not interleave: a pass is modelled as one
  state transformer, handed to \<open>with_lock\<close>.
\<close>

section \<open>Jobs\<close>

datatype cron_job = JobUsage | JobBillingReconcile | JobPurge | JobBillingMeter | JobRetention | JobExpiredTokens

definition lock_key_namespace :: int where
  "lock_key_namespace = 0x7075670000000000"

fun job_key :: "cron_job \<Rightarrow> int" where
  "job_key JobUsage = lock_key_namespace + 1"
| "job_key JobBillingReconcile = lock_key_namespace + 2"
| "job_key JobPurge = lock_key_namespace + 3"
| "job_key JobBillingMeter = lock_key_namespace + 4"
| "job_key JobRetention = lock_key_namespace + 5"
| "job_key JobExpiredTokens = lock_key_namespace + 6"

fun job_name :: "cron_job \<Rightarrow> string" where
  "job_name JobUsage = ''usage''"
| "job_name JobBillingReconcile = ''billing_reconcile''"
| "job_name JobPurge = ''purge''"
| "job_name JobBillingMeter = ''billing_meter''"
| "job_name JobRetention = ''retention''"
| "job_name JobExpiredTokens = ''expired_tokens''"

section \<open>Task state\<close>

type_synonym cron_state = "string \<Rightarrow> time option"

definition state_key :: "cron_job \<Rightarrow> string \<Rightarrow> string" where
  "state_key job task = job_name job @ ''.'' @ task"

definition last_run :: "cron_state \<Rightarrow> cron_job \<Rightarrow> string \<Rightarrow> time" where
  "last_run st job task = (case st (state_key job task) of None \<Rightarrow> zero_time | Some t \<Rightarrow> t)"

definition mark_run :: "cron_state \<Rightarrow> cron_job \<Rightarrow> string \<Rightarrow> time \<Rightarrow> cron_state" where
  "mark_run st job task at = st(state_key job task \<mapsto> at)"

lemma last_run_mark_run [simp]: "last_run (mark_run st job task at) job task = at"
  by (simp add: last_run_def mark_run_def)

text \<open>No job name has a dot, so the task stamps of two jobs are kept apart.\<close>

lemma job_name_no_dot: "CHR ''.'' \<notin> set (job_name job)"
  by (cases job) simp_all

lemma job_name_inj: "job_name j = job_name k \<Longrightarrow> j = k"
  by (cases j; cases k) simp_all

lemma state_key_inj: "state_key j t = state_key k u \<longleftrightarrow> j = k \<and> t = u"
  using split_at_sep [OF _ job_name_no_dot job_name_no_dot, of j t k u] job_name_inj [of j k]
  by (auto simp: state_key_def)

lemma last_run_other [simp]:
  "j \<noteq> k \<or> t \<noteq> u \<Longrightarrow> last_run (mark_run st j t at) k u = last_run st k u"
  by (auto simp: last_run_def mark_run_def state_key_inj)

section \<open>The pass lock\<close>

text \<open>
  Errors are the list \<open>errors.Join\<close> builds, \<open>[]\<close> for nil, and \<open>errors.Is\<close> is membership.
  \<open>held\<close> says another session holds the job's advisory lock.
\<close>

datatype lock_call = LockBegin | LockTimeout | LockTry | LockRollback

datatype 'e pass_error = LockFault lock_call | ErrLockHeld | InPass 'e

definition with_lock :: "(lock_call \<Rightarrow> bool) \<Rightarrow> bool \<Rightarrow> ('s \<Rightarrow> 's \<times> 'e list) \<Rightarrow> 's \<Rightarrow> 's \<times> 'e pass_error list" where
  "with_lock flt held fn s =
     (if flt LockBegin then (s, [LockFault LockBegin])
      else let (s', errs) =
             (if flt LockTimeout then (s, [LockFault LockTimeout])
              else if flt LockTry then (s, [LockFault LockTry])
              else if held then (s, [ErrLockHeld])
              else let (s', errs) = fn s in (s', map InPass errs))
           in (s', errs @ (if flt LockRollback then [LockFault LockRollback] else [])))"

text \<open>The disposition of \<open>Run\<close>: a held lock exits zero, like a pass with no error.\<close>

definition exits_zero :: "'e pass_error list \<Rightarrow> bool" where
  "exits_zero errs = (errs = [] \<or> ErrLockHeld \<in> set errs)"

lemma with_lock_held: "held \<Longrightarrow> fst (with_lock flt held fn s) = s"
  by (simp add: with_lock_def Let_def)

lemma with_lock_state: "fst (with_lock flt held fn s) = s \<or> fst (with_lock flt held fn s) = fst (fn s)"
  by (auto simp: with_lock_def Let_def split: prod.splits)

lemma with_lock_clean:
  "with_lock flt held fn s = (s', []) \<longleftrightarrow> \<not> flt LockBegin \<and> \<not> flt LockTimeout \<and> \<not> flt LockTry \<and> \<not> flt LockRollback
    \<and> \<not> held \<and> fn s = (s', [])"
  by (auto simp: with_lock_def Let_def split: prod.splits if_splits)

end
