(* ===== verification/Usage_Period.thy ===== *)
theory Usage_Period
  imports Go_Time
begin

text \<open>
  Quota windows: the calendar part of \<open>internal/core/usage/usage.go\<close> and the window
  arithmetic of \<open>metering.go\<close>. An org's window starts every month on its anchor day,
  clamped to short months. The theory ends with the contract \<open>period_partition\<close> the
  entitlement side relies on (the window shown is the window summed), interpreted on
  \<open>period_for\<close>.
\<close>

section \<open>The code\<close>

definition anchor_day :: "time \<Rightarrow> int \<Rightarrow> int" where
  "anchor_day org_create_time override =
     (if override \<ge> 1 \<and> override \<le> 31 then override else time_day org_create_time)"

definition days_in :: "int \<Rightarrow> int \<Rightarrow> int" where
  "days_in year month = time_day (go_date year (month + 1) 0)"

definition shift_month :: "int \<Rightarrow> int \<Rightarrow> int \<Rightarrow> int \<times> int" where
  "shift_month year month delta =
     (let t = add_date (go_date year month 1) 0 delta 0 in (time_year t, time_month t))"

definition anchored :: "int \<Rightarrow> int \<Rightarrow> int \<Rightarrow> time" where
  "anchored year month anchor =
     (let a = (if anchor < 1 then 1 else anchor);
          last = days_in year month;
          a' = (if a > last then last else a)
      in go_date year month a')"

definition period_for :: "time \<Rightarrow> int \<Rightarrow> time \<times> time" where
  "period_for now anchor =
     (let start0 = anchored (time_year now) (time_month now) anchor;
          start = (if now < start0
                   then (let (y, m) = shift_month (time_year now) (time_month now) (-1)
                         in anchored y m anchor)
                   else start0);
          (y, m) = shift_month (time_year start) (time_month start) 1
      in (start, anchored y m anchor))"

definition floor_day_utc :: "time \<Rightarrow> time" where
  "floor_day_utc t = go_date (time_year t) (time_month t) (time_day t)"

definition floor_month_utc :: "time \<Rightarrow> time" where
  "floor_month_utc t = go_date (time_year t) (time_month t) 1"

definition ceil_day_utc :: "time \<Rightarrow> time" where
  "ceil_day_utc t = (let day = floor_day_utc t in if day = t then day else add_date day 0 0 1)"

record org_period =
  op_org :: string
  op_start :: time
  op_end :: time

fun earliest_from :: "time \<Rightarrow> org_period list \<Rightarrow> time" where
  "earliest_from earliest [] = earliest"
| "earliest_from earliest (p # ps) =
     earliest_from (if is_zero_time earliest \<or> op_start p < earliest then op_start p else earliest) ps"

definition earliest_period_start :: "org_period list \<Rightarrow> time" where
  "earliest_period_start periods = earliest_from zero_time periods"

definition full_recompute_from :: "time \<Rightarrow> int \<Rightarrow> org_period list \<Rightarrow> time" where
  "full_recompute_from now rescan_days periods =
     (let from0 = floor_day_utc (add_date now 0 0 (- rescan_days));
          month_start = floor_month_utc now;
          from1 = (if month_start < from0 then month_start else from0);
          earliest = earliest_period_start periods
      in if \<not> is_zero_time earliest \<and> earliest < from1 then earliest else from1)"

definition meter_from :: "time \<Rightarrow> int \<Rightarrow> bool \<Rightarrow> org_period list \<Rightarrow> time" where
  "meter_from now rescan_days full windows =
     (if full then full_recompute_from now rescan_days windows
      else floor_day_utc (add_date now 0 0 (- rescan_days)))"

section \<open>Day boundaries\<close>

lemma floor_day_eq: "floor_day_utc t = day_number t * day_ns"
  by (simp add: floor_day_utc_def go_date_today)

lemma floor_day_le: "floor_day_utc t \<le> t" "t < floor_day_utc t + day_ns"
  using day_number_bounds [of t] by (simp_all add: floor_day_eq distrib_right)

lemma day_number_floor [simp]: "day_number (floor_day_utc t) = day_number t"
  unfolding floor_day_eq by (rule day_number_mult)

lemma ceil_day_eq:
  "ceil_day_utc t = (if floor_day_utc t = t then t else (day_number t + 1) * day_ns)"
  unfolding ceil_day_utc_def Let_def add_date_days by (simp add: floor_day_eq distrib_right)

lemma ceil_day_ge: "t \<le> ceil_day_utc t" "ceil_day_utc t < t + day_ns"
  using day_number_bounds [of t] floor_day_le [of t] unfolding ceil_day_eq floor_day_eq distrib_right by auto

lemma day_number_mono: "s \<le> t \<Longrightarrow> day_number s \<le> day_number t"
  by (simp add: day_number_def zdiv_mono1)

text \<open>A midnight is its own floor and its own ceiling.\<close>

lemma midnight_fixed [simp]:
  "floor_day_utc (n * day_ns) = n * day_ns" "ceil_day_utc (n * day_ns) = n * day_ns"
  unfolding ceil_day_eq floor_day_eq day_number_mult by simp_all

section \<open>Anchors by month index\<close>

definition anchored_day :: "int \<Rightarrow> int \<Rightarrow> int" where
  "anchored_day i anchor = month_start i + min (max 1 anchor) (month_days i) - 1"

lemma day_of_go_date:
  "1 \<le> d \<Longrightarrow> d \<le> month_days (12 * y + m - 1) \<Longrightarrow> time_day (go_date y m d) = d"
  using mday_of_month_day [of d "12 * y + m - 1"] unfolding go_date_month time_day_def day_number_mult by simp

lemma days_in_eq: "days_in y m = month_days (12 * y + m - 1)"
proof -
  let ?i = "12 * y + m - 1"
  have "go_date y (m + 1) 0 = go_date y m (month_days ?i)"
    unfolding go_date_month using month_start_next [of ?i] by (simp add: algebra_simps)
  then show ?thesis
    unfolding days_in_def using month_days_range [of ?i] by (simp add: day_of_go_date)
qed

lemma anchored_eq: "anchored y m a = anchored_day (12 * y + m - 1) a * day_ns"
  unfolding anchored_def Let_def days_in_eq go_date_month anchored_day_def by (simp add: min_def max_def)

lemma index_of_reads: "12 * time_year t + time_month t - 1 = month_index (day_number t)"
  by (simp add: time_year_def time_month_def month_index_def)

lemma shift_month_index:
  assumes "shift_month y m k = (y', m')"
  shows "12 * y' + m' - 1 = 12 * y + m - 1 + k"
proof -
  let ?i = "12 * y + m - 1"
  define t where "t = add_date (go_date y m 1) 0 k 0"
  have n: "day_number (go_date y m 1) = month_start ?i"
    unfolding go_date_month day_number_mult by simp
  have reads: "12 * time_year (go_date y m 1) + time_month (go_date y m 1) - 1 = ?i"
    "time_day (go_date y m 1) = 1"
    using month_days_range [of ?i] unfolding index_of_reads n by (simp_all add: day_of_go_date)
  have clock: "go_date y m 1 mod day_ns = 0" by (simp add: go_date_def)
  define Y M where "Y = time_year (go_date y m 1)" and "M = time_month (go_date y m 1)"
  have idx: "12 * Y + (M + k) - 1 = ?i + k"
    using reads(1) unfolding Y_def M_def by linarith
  have t: "t = go_date Y (M + k) 1"
    unfolding t_def add_date_def clock reads(2) Y_def M_def by simp
  have "t = month_start (?i + k) * day_ns"
    unfolding t go_date_month idx by simp
  then have "12 * time_year t + time_month t - 1 = ?i + k"
    unfolding index_of_reads by simp
  moreover have "y' = time_year t" "m' = time_month t"
    using assms by (simp_all add: shift_month_def Let_def t_def)
  ultimately show ?thesis by simp
qed

text \<open>Closed forms on dates in range, to evaluate windows by.\<close>

lemma month_days_in_range: "1 \<le> m \<Longrightarrow> m \<le> 12 \<Longrightarrow> month_days (12 * y + m - 1) = month_len y m"
proof -
  assume m: "1 \<le> m" "m \<le> 12"
  then have "(12 * y + m - 1) div 12 = y" by (intro int_div_pos_eq [of _ _ _ "m - 1"]) auto
  moreover have "(12 * y + m - 1) mod 12 = m - 1" using m by (intro int_mod_pos_eq [of _ _ y]) auto
  ultimately show ?thesis by (simp add: month_days_def)
qed

lemma anchored_clamp:
  "1 \<le> m \<Longrightarrow> m \<le> 12 \<Longrightarrow> anchored y m a = go_date y m (min (max 1 a) (month_len y m))"
  unfolding anchored_def Let_def days_in_eq by (simp add: month_days_in_range min_def max_def)

lemma shift_month_next:
  "1 \<le> m \<Longrightarrow> m \<le> 12 \<Longrightarrow> shift_month y m 1 = (if m = 12 then (y + 1, 1) else (y, m + 1))"
  "1 \<le> m \<Longrightarrow> m \<le> 12 \<Longrightarrow> shift_month y m (- 1) = (if m = 1 then (y - 1, 12) else (y, m - 1))"
proof -
  assume m: "1 \<le> m" "m \<le> 12"
  have len: "1 \<le> month_len y' m'" if "1 \<le> m'" "m' \<le> 12" for y' m'
    using month_len_range [OF that, of y'] by simp
  have year: "go_date y 13 1 = go_date (y + 1) 1 1" "go_date y 0 1 = go_date (y - 1) 12 1"
    by (simp_all add: go_date_month)
  have "go_date y m 1 mod day_ns = 0" by (simp add: go_date_def)
  then have add: "add_date (go_date y m 1) 0 k 0 = go_date y (m + k) 1" for k
    using m len by (simp add: add_date_def date_reads)
  show "shift_month y m 1 = (if m = 12 then (y + 1, 1) else (y, m + 1))"
    using m len year by (auto simp: shift_month_def add date_reads)
  show "shift_month y m (- 1) = (if m = 1 then (y - 1, 12) else (y, m - 1))"
    using m len year by (auto simp: shift_month_def add date_reads)
qed

lemmas window_eval = period_for_def anchored_clamp shift_month_next date_reads month_len_def go_date_cmp civil_eval

lemma anchored_day_bounds:
  "month_start i \<le> anchored_day i a" "anchored_day i a < month_start (i + 1)"
  using month_days_range [of i] month_start_next [of i] by (auto simp: anchored_day_def)

lemma anchored_day_index: "month_index (anchored_day i a) = i"
  by (rule month_index_unique) (rule anchored_day_bounds)+

lemma anchored_day_strict: "i < j \<Longrightarrow> anchored_day i a < anchored_day j a"
  using anchored_day_bounds(2) [of i a] anchored_day_bounds(1) [of j a] month_start_mono [of "i + 1" j]
  by linarith

lemma period_for_index:
  obtains i where "period_for now a = (anchored_day i a * day_ns, anchored_day (i + 1) a * day_ns)"
    "anchored_day i a * day_ns \<le> now" "now < anchored_day (i + 1) a * day_ns"
proof -
  let ?j = "month_index (day_number now)"
  define i where "i = (if now < anchored_day ?j a * day_ns then ?j - 1 else ?j)"
  have prev_idx: "12 * y + m - 1 = ?j - 1" if "shift_month (time_year now) (time_month now) (- 1) = (y, m)" for y m
    using shift_month_index [OF that] index_of_reads [of now] by linarith
  have start: "(if now < anchored (time_year now) (time_month now) a
      then (let (y, m) = shift_month (time_year now) (time_month now) (-1) in anchored y m a)
      else anchored (time_year now) (time_month now) a) = anchored_day i a * day_ns"
    using prev_idx unfolding anchored_eq index_of_reads i_def by (auto split: prod.splits)
  have next_idx: "12 * y + m - 1 = i + 1"
    if "shift_month (time_year (anchored_day i a * day_ns)) (time_month (anchored_day i a * day_ns)) 1 = (y, m)" for y m
    using shift_month_index [OF that] unfolding index_of_reads day_number_mult anchored_day_index by linarith
  have res: "period_for now a = (anchored_day i a * day_ns, anchored_day (i + 1) a * day_ns)"
    unfolding period_for_def Let_def [where s = "anchored _ _ _"] start using next_idx
    by (auto simp: anchored_eq Let_def add.commute [of 1 i] split: prod.splits)
  have n: "day_number now * day_ns \<le> now" "now < (day_number now + 1) * day_ns"
    by (rule day_number_bounds)+
  have month: "month_start ?j \<le> day_number now" "day_number now + 1 \<le> month_start (?j + 1)"
    using day_in_month(2,3) [of "day_number now"] by simp_all
  have lo: "anchored_day i a * day_ns \<le> now"
  proof (cases "now < anchored_day ?j a * day_ns")
    case True
    then have "anchored_day i a \<le> day_number now"
      using anchored_day_bounds(2) [of "?j - 1" a] month(1) by (simp add: i_def)
    then show ?thesis using n(1) days_le order_trans by blast
  qed (simp add: i_def)
  have hi: "now < anchored_day (i + 1) a * day_ns"
  proof (cases "now < anchored_day ?j a * day_ns")
    case False
    then have "day_number now + 1 \<le> anchored_day (i + 1) a"
      using anchored_day_bounds(1) [of "?j + 1" a] month(2) by (simp add: i_def)
    then show ?thesis using n(2) days_le less_le_trans by blast
  qed (simp add: i_def)
  from res lo hi show thesis by (rule that)
qed


section \<open>The window contract\<close>

text \<open>
  What everyone that shows or sums a window relies on: it holds the instant it was asked
  for, and every instant inside it has the same window.
\<close>

locale period_partition =
  fixes window :: "time \<Rightarrow> time \<times> time"
  assumes window_contains: "fst (window t) \<le> t \<and> t < snd (window t)"
    and window_stable: "fst (window t) \<le> u \<Longrightarrow> u < snd (window t) \<Longrightarrow> window u = window t"
begin

lemma window_idem: "window (fst (window t)) = window t"
  using window_contains [of t] by (intro window_stable) linarith+

text \<open>Windows that overlap are one window, so an instant is summed in exactly one.\<close>

lemma windows_disjoint:
  assumes "window t \<noteq> window u" shows "snd (window t) \<le> fst (window u) \<or> snd (window u) \<le> fst (window t)"
proof (rule ccontr)
  define v where "v = max (fst (window t)) (fst (window u))"
  assume "\<not> ?thesis"
  then have "snd (window t) > fst (window u)" "snd (window u) > fst (window t)" by auto
  moreover have "fst (window t) < snd (window t)" "fst (window u) < snd (window u)"
    using window_contains [of t] window_contains [of u] by linarith+
  ultimately have "window v = window t" "window v = window u"
    by (intro window_stable; simp add: v_def)+
  with assms show False by simp
qed

lemma ordered_windows: "t \<le> u \<Longrightarrow> fst (window t) \<le> fst (window u)"
  using windows_disjoint [of t u] window_contains [of t] window_contains [of u]
  by (cases "window t = window u") auto

end

lemma anchored_day_mono: "i \<le> j \<Longrightarrow> anchored_day i a \<le> anchored_day j a"
  using anchored_day_strict [of i j a] by (cases "i = j") auto

lemma anchored_window_unique:
  assumes "anchored_day i a * day_ns \<le> u" "u < anchored_day (i + 1) a * day_ns"
    "anchored_day j a * day_ns \<le> u" "u < anchored_day (j + 1) a * day_ns"
  shows "i = j"
proof (rule ccontr)
  assume "i \<noteq> j"
  then consider "i + 1 \<le> j" | "j + 1 \<le> i" by linarith
  then show False
  proof cases
    case 1
    then show False using assms(2,3) days_le [OF anchored_day_mono [OF 1, of a]] by linarith
  next
    case 2
    then show False using assms(1,4) days_le [OF anchored_day_mono [OF 2, of a]] by linarith
  qed
qed

interpretation quota: period_partition "\<lambda>now. period_for now a"
proof (unfold_locales, goal_cases)
  case (1 t)
  show ?case by (rule period_for_index [of t a]) simp
next
  case (2 t u)
  show ?case
  proof (rule period_for_index [of t a], rule period_for_index [of u a])
    fix i j
    assume i: "period_for t a = (anchored_day i a * day_ns, anchored_day (i + 1) a * day_ns)"
      and j: "period_for u a = (anchored_day j a * day_ns, anchored_day (j + 1) a * day_ns)"
        "anchored_day j a * day_ns \<le> u" "u < anchored_day (j + 1) a * day_ns"
    with 2 have "i = j" by (intro anchored_window_unique) simp_all
    with i j show ?thesis by simp
  qed
qed

section \<open>Properties\<close>

text \<open>
  C1. A quota window holds the instant it was resolved for, both its bounds are UTC
  midnights, it is between 28 and 31 days long, the next window starts where it ends, and
  every instant inside it resolves to the same window: an event falls in exactly one.
\<close>

theorem period_for_partition:
  assumes "period_for now a = (s, e)"
  shows "s \<le> now \<and> now < e \<and> floor_day_utc s = s \<and> floor_day_utc e = e
    \<and> 28 * day_ns \<le> e - s \<and> e - s \<le> 31 * day_ns \<and> fst (period_for e a) = e
    \<and> (\<forall>u. s \<le> u \<and> u < e \<longrightarrow> period_for u a = (s, e))"
proof -
  obtain i where i: "period_for now a = (anchored_day i a * day_ns, anchored_day (i + 1) a * day_ns)"
    and now: "anchored_day i a * day_ns \<le> now" "now < anchored_day (i + 1) a * day_ns"
    by (rule period_for_index)
  obtain j where j: "period_for e a = (anchored_day j a * day_ns, anchored_day (j + 1) a * day_ns)"
    and e: "anchored_day j a * day_ns \<le> e" "e < anchored_day (j + 1) a * day_ns"
    by (rule period_for_index)
  have se: "s = anchored_day i a * day_ns" "e = anchored_day (i + 1) a * day_ns"
    using i assms by simp_all
  have "i + 1 = j"
    using e anchored_day_strict [of "i + 1" "i + 1 + 1" a]
    by (intro anchored_window_unique [of "i + 1" a e j]) (simp_all add: se)
  then have next_start: "fst (period_for e a) = e" using j se by simp
  have "28 \<le> anchored_day (i + 1) a - anchored_day i a" "anchored_day (i + 1) a - anchored_day i a \<le> 31"
    using month_days_range [of i] month_days_range [of "i + 1"] month_start_next [of i]
    by (auto simp: anchored_day_def)
  then have "28 * day_ns \<le> e - s \<and> e - s \<le> 31 * day_ns"
    unfolding se left_diff_distrib [symmetric] by simp
  with now next_start quota.window_stable [of now a] assms show ?thesis by (simp add: se)
qed

theorem period_for_partition_witness:
  "period_for (go_date 2026 2 10) 31 = (go_date 2026 1 31, go_date 2026 2 28)
    \<and> period_for (go_date 2026 2 27) 31 = (go_date 2026 1 31, go_date 2026 2 28)"
proof -
  have p: "period_for (go_date 2026 2 10) 31 = (go_date 2026 1 31, go_date 2026 2 28)"
    by (simp add: window_eval)
  have "go_date 2026 1 31 \<le> go_date 2026 2 27 \<and> go_date 2026 2 27 < go_date 2026 2 28"
    by (simp add: go_date_cmp civil_eval)
  with p period_for_partition [OF p] show ?thesis by blast
qed

lemma earliest_from_lower:
  "zero_time < e \<Longrightarrow> (\<forall>p\<in>set ps. zero_time < op_start p) \<Longrightarrow>
    zero_time < earliest_from e ps \<and> earliest_from e ps \<le> e
    \<and> (\<forall>p\<in>set ps. earliest_from e ps \<le> op_start p)"
proof (induction ps arbitrary: e)
  case Nil
  then show ?case by simp
next
  case (Cons p ps)
  from Cons.prems have p: "zero_time < op_start p" and ps: "\<forall>q\<in>set ps. zero_time < op_start q" by simp_all
  show ?case
    using p Cons.IH [OF p ps] Cons.IH [OF Cons.prems(1) ps] by (simp add: is_zero_time_def)
qed

lemma earliest_period_start_lower:
  assumes "ps \<noteq> []" "\<forall>p\<in>set ps. zero_time < op_start p"
  shows "zero_time < earliest_period_start ps \<and> (\<forall>p\<in>set ps. earliest_period_start ps \<le> op_start p)"
proof (cases ps)
  case (Cons p qs)
  then show ?thesis
    using assms earliest_from_lower [of "op_start p" qs]
    by (simp add: earliest_period_start_def is_zero_time_def)
qed (use assms in simp)

text \<open>
  The full pass's lower bound reaches back to the start of every org's current period, to
  the start of the calendar month and to the trailing window: no period is re-summed over
  days the pass did not read.
\<close>

theorem full_recompute_covers:
  assumes "\<forall>p\<in>set ps. zero_time < op_start p"
  shows "(\<forall>p\<in>set ps. full_recompute_from now k ps \<le> op_start p)
    \<and> full_recompute_from now k ps \<le> floor_month_utc now
    \<and> full_recompute_from now k ps \<le> floor_day_utc (add_date now 0 0 (- k))"
proof (cases "ps = []")
  case True
  then show ?thesis by (simp add: full_recompute_from_def Let_def)
next
  case False
  from earliest_period_start_lower [OF False assms] show ?thesis
    by (auto simp: full_recompute_from_def Let_def is_zero_time_def)
qed

theorem full_recompute_covers_witness:
  "full_recompute_from (go_date 2026 3 10) 2
     [\<lparr>op_org = ''o'', op_start = go_date 2026 2 15, op_end = go_date 2026 3 15\<rparr>] \<le> go_date 2026 2 15"
proof -
  have "zero_time < go_date 2026 2 15" by (simp add: zero_time_def date_eval)
  then show ?thesis
    using full_recompute_covers [of "[\<lparr>op_org = ''o'', op_start = go_date 2026 2 15, op_end = go_date 2026 3 15\<rparr>]"
      "go_date 2026 3 10" 2] by simp
qed

end
