(* ===== verification/Usage_Store.thy ===== *)
theory Usage_Store
  imports Cron Usage_Period "HOL-Library.List_Lexorder" "HOL-Library.Char_ord"
begin

text \<open>
  The metered counts of \<open>internal/core/usage\<close>: the day cells (\<open>usage_daily\<close>), the summed
  periods (\<open>usage_periods\<close>) and the operations \<open>metering.go\<close> and \<open>usage.go\<close> run over
  them, with the statements of \<open>schema/postgres/queries\<close> they issue. A table is the list
  of its rows; a SQL \<open>date\<close> is a day number. \<open>now()\<close> of the database is a parameter.
\<close>

section \<open>Tables\<close>

record daily_usage =
  du_project :: string
  du_day :: time
  du_count :: int

record usage_cell =
  uc_project :: string
  uc_day :: int
  uc_count :: int
  uc_org :: string

record usage_period =
  up_org :: string
  up_start :: time
  up_end :: time
  up_count :: int
  up_computed_at :: time

record project_row =
  pr_id :: string
  pr_org :: string
  pr_live :: bool

text \<open>\<open>orgs\<close> left-joined with the anchor override (\<open>None\<close> for SQL's NULL).\<close>

record org_row =
  or_id :: string
  or_create_time :: time
  or_anchor :: "int option"

record usage_db =
  ub_orgs :: "org_row list"
  ub_projects :: "project_row list"
  ub_cells :: "usage_cell list"
  ub_periods :: "usage_period list"
  ub_cron :: cron_state

definition project_of :: "usage_db \<Rightarrow> string \<Rightarrow> project_row option" where
  "project_of db p = List.find (\<lambda>r. pr_id r = p) (ub_projects db)"

definition live_project :: "usage_db \<Rightarrow> string \<Rightarrow> bool" where
  "live_project db p = (case project_of db p of None \<Rightarrow> False | Some r \<Rightarrow> pr_live r)"

definition cell_at :: "usage_cell list \<Rightarrow> string \<Rightarrow> int \<Rightarrow> usage_cell option" where
  "cell_at cells p d = List.find (\<lambda>c. uc_project c = p \<and> uc_day c = d) cells"

section \<open>Statements\<close>

text \<open>\<open>NewDate\<close>: the UTC day of the instant.\<close>

definition new_date :: "time \<Rightarrow> int" where
  "new_date t = day_number t"

text \<open>The upsert on (project, day); its \<open>is distinct from\<close> gate only saves a write.\<close>

fun put_cell :: "usage_cell \<Rightarrow> usage_cell list \<Rightarrow> usage_cell list" where
  "put_cell c [] = [c]"
| "put_cell c (x # xs) =
     (if uc_project x = uc_project c \<and> uc_day x = uc_day c then c # xs else x # put_cell c xs)"

definition upsert_usage_daily :: "usage_db \<Rightarrow> daily_usage \<Rightarrow> usage_db" where
  "upsert_usage_daily db u =
     (case project_of db (du_project u) of
        None \<Rightarrow> db
      | Some p \<Rightarrow>
          if \<not> pr_live p then db
          else (let c = \<lparr>uc_project = du_project u, uc_day = new_date (du_day u),
                         uc_count = du_count u, uc_org = pr_org p\<rparr>
                in case cell_at (ub_cells db) (uc_project c) (uc_day c) of
                     Some x \<Rightarrow> if uc_count x = uc_count c then db
                               else db\<lparr>ub_cells := put_cell c (ub_cells db)\<rparr>
                   | None \<Rightarrow> db\<lparr>ub_cells := put_cell c (ub_cells db)\<rparr>))"

definition in_days :: "int \<Rightarrow> int \<Rightarrow> usage_cell \<Rightarrow> bool" where
  "in_days from_day to_day c = (from_day \<le> uc_day c \<and> uc_day c < to_day)"

definition count_usage_daily_in_range :: "usage_db \<Rightarrow> int \<Rightarrow> int \<Rightarrow> nat" where
  "count_usage_daily_in_range db from_day to_day =
     length (filter (\<lambda>c. in_days from_day to_day c \<and> live_project db (uc_project c)) (ub_cells db))"

definition count_known_project_ids :: "usage_db \<Rightarrow> string list \<Rightarrow> nat" where
  "count_known_project_ids db ids = length (filter (\<lambda>r. pr_id r \<in> set ids) (ub_projects db))"

definition unmetered :: "usage_db \<Rightarrow> (string \<times> int) list \<Rightarrow> int \<Rightarrow> int \<Rightarrow> usage_cell \<Rightarrow> bool" where
  "unmetered db kept from_day to_day c =
     (in_days from_day to_day c \<and> live_project db (uc_project c) \<and> (uc_project c, uc_day c) \<notin> set kept)"

definition sum_org_days :: "usage_cell list \<Rightarrow> string \<Rightarrow> int \<Rightarrow> int \<Rightarrow> int" where
  "sum_org_days cells org from_day to_day =
     sum_list (map uc_count (filter (\<lambda>c. uc_org c = org \<and> in_days from_day to_day c) cells))"

fun put_period :: "usage_period \<Rightarrow> usage_period list \<Rightarrow> usage_period list" where
  "put_period r [] = [r]"
| "put_period r (x # xs) =
     (if up_org x = up_org r \<and> up_start x = up_start r then r # xs else x # put_period r xs)"

section \<open>Operations of the service\<close>

datatype usage_error =
    ErrNoMeteringConn | UsageOrgNotFound | DbError | ClickHouseError | CtxCancelled
  | ChunkFailed nat nat nat \<comment> \<open>first cell of the chunk, cells unwritten, cells in all\<close>
  | Unrefreshed nat nat \<comment> \<open>orgs failed, orgs in all\<close>
  | NoOrgs nat \<comment> \<open>cells metered\<close>

text \<open>
  \<open>meter\<close>: ClickHouse is a parameter, \<open>None\<close> for a service built without it. A
  \<open>toDate\<close> comes back as a calendar day, which is re-stamped as UTC midnight.
\<close>

type_synonym clickhouse = "string \<Rightarrow> time \<Rightarrow> time \<Rightarrow> (usage_error, daily_usage list) result"

definition restamp :: "daily_usage \<Rightarrow> daily_usage" where
  "restamp u = u\<lparr>du_day := go_date (time_year (du_day u)) (time_month (du_day u)) (time_day (du_day u))\<rparr>"

definition usage_meter :: "clickhouse option \<Rightarrow> string \<Rightarrow> time \<Rightarrow> time \<Rightarrow> (usage_error, daily_usage list) result" where
  "usage_meter ch project from to =
     (case ch of
        None \<Rightarrow> Inl ErrNoMeteringConn
      | Some query \<Rightarrow>
          (case query project from to of Inl e \<Rightarrow> Inl e | Inr rows \<Rightarrow> Inr (map restamp rows)))"

definition meter_window :: "clickhouse option \<Rightarrow> time \<Rightarrow> time \<Rightarrow> (usage_error, daily_usage list) result" where
  "meter_window ch from to = usage_meter ch '''' from to"

definition meter_project :: "clickhouse option \<Rightarrow> string \<Rightarrow> time \<Rightarrow> time \<Rightarrow> (usage_error, daily_usage list) result" where
  "meter_project ch project from to = usage_meter ch project from to"

definition usage_batch_chunk :: nat where
  "usage_batch_chunk = 1000"

text \<open>
  \<open>RecordDailyUsage\<close>: one transaction per chunk; \<open>fails k\<close> says the chunk starting at
  cell \<open>k\<close> fails, which rolls it back and stops the loop.
\<close>

function record_from :: "(nat \<Rightarrow> bool) \<Rightarrow> nat \<Rightarrow> nat \<Rightarrow> daily_usage list \<Rightarrow> usage_db \<Rightarrow> usage_db \<times> usage_error option" where
  "record_from fails start n us db =
     (if us = [] then (db, None)
      else if fails start then (db, Some (ChunkFailed start (n - start) n))
      else record_from fails (start + usage_batch_chunk) n (drop usage_batch_chunk us)
             (foldl upsert_usage_daily db (take usage_batch_chunk us)))"
  by pat_completeness auto
termination
  by (relation "measure (\<lambda>(fails, start, n, us, db). length us)") (auto simp: usage_batch_chunk_def)

declare record_from.simps [simp del]

definition record_daily_usage :: "(nat \<Rightarrow> bool) \<Rightarrow> daily_usage list \<Rightarrow> usage_db \<Rightarrow> usage_db \<times> usage_error option" where
  "record_daily_usage fails us db = record_from fails 0 (length us) us db"

text \<open>\<open>FreezeDailyUsageInTx\<close>: the last count of a project being deleted, live or not.\<close>

definition freeze_daily_usage :: "usage_db \<Rightarrow> string \<Rightarrow> string \<Rightarrow> daily_usage list \<Rightarrow> usage_db" where
  "freeze_daily_usage db org project us =
     (if us = [] then db
      else db\<lparr>ub_cells := foldl (\<lambda>cells u.
                put_cell \<lparr>uc_project = project, uc_day = new_date (du_day u), uc_count = du_count u,
                          uc_org = (case cell_at cells project (new_date (du_day u)) of
                                      Some x \<Rightarrow> uc_org x | None \<Rightarrow> org)\<rparr> cells) (ub_cells db) us\<rparr>)"

definition count_stored_days :: "usage_db \<Rightarrow> time \<Rightarrow> time \<Rightarrow> nat" where
  "count_stored_days db from to =
     count_usage_daily_in_range db (new_date (floor_day_utc from)) (new_date (ceil_day_utc to))"

definition count_known_projects :: "usage_db \<Rightarrow> string list \<Rightarrow> nat" where
  "count_known_projects db ids = (if ids = [] then 0 else count_known_project_ids db ids)"

fun project_ids_from :: "string list \<Rightarrow> daily_usage list \<Rightarrow> string list" where
  "project_ids_from seen [] = []"
| "project_ids_from seen (u # us) =
     (if du_project u \<in> set seen then project_ids_from seen us
      else du_project u # project_ids_from (du_project u # seen) us)"

definition project_ids :: "daily_usage list \<Rightarrow> string list" where
  "project_ids us = project_ids_from [] us"

text \<open>\<open>DeleteUnmeteredDays\<close>: the new tables and the rows dropped.\<close>

definition delete_unmetered_days :: "usage_db \<Rightarrow> daily_usage list \<Rightarrow> time \<Rightarrow> time \<Rightarrow> usage_db \<times> nat" where
  "delete_unmetered_days db us from to =
     (if us = [] then (db, 0)
      else (let kept = map (\<lambda>u. (du_project u, new_date (du_day u))) us;
                gone = unmetered db kept (new_date (floor_day_utc from)) (new_date (ceil_day_utc to))
            in (db\<lparr>ub_cells := filter (\<lambda>c. \<not> gone c) (ub_cells db)\<rparr>, length (filter gone (ub_cells db)))))"

definition refresh_period_usage :: "usage_db \<Rightarrow> time \<Rightarrow> string \<Rightarrow> time \<Rightarrow> time \<Rightarrow> usage_db" where
  "refresh_period_usage db db_now org start end' =
     db\<lparr>ub_periods := put_period
          \<lparr>up_org = org, up_start = start, up_end = end',
           up_count = sum_org_days (ub_cells db) org (new_date (ceil_day_utc start)) (new_date (ceil_day_utc end')),
           up_computed_at = db_now\<rparr> (ub_periods db)\<rparr>"

definition prune_usage :: "usage_db \<Rightarrow> time \<Rightarrow> usage_db \<times> nat" where
  "prune_usage db older_than =
     (let gone = (\<lambda>c. uc_day c < new_date (ceil_day_utc older_than))
      in (db\<lparr>ub_cells := filter (\<lambda>c. \<not> gone c) (ub_cells db)\<rparr>, length (filter gone (ub_cells db))))"

definition org_anchor :: "org_row \<Rightarrow> int" where
  "org_anchor r = anchor_day (or_create_time r) (case or_anchor r of None \<Rightarrow> 0 | Some d \<Rightarrow> d)"

definition org_periods :: "usage_db \<Rightarrow> time \<Rightarrow> org_period list" where
  "org_periods db now =
     map (\<lambda>r. let (start, end') = period_for now (org_anchor r)
              in \<lparr>op_org = or_id r, op_start = start, op_end = end'\<rparr>)
       (sort_key or_id (ub_orgs db))"

definition get_org_period :: "usage_db \<Rightarrow> string \<Rightarrow> time \<Rightarrow> (usage_error, time \<times> time) result" where
  "get_org_period db org now =
     (case List.find (\<lambda>r. or_id r = org) (ub_orgs db) of
        None \<Rightarrow> Inl UsageOrgNotFound
      | Some r \<Rightarrow> Inr (period_for now (org_anchor r)))"

text \<open>The dashboard's reads. \<open>Counted\<close> tells a summed period from one not reached yet.\<close>

record period_usage =
  pu_count :: int
  pu_computed_at :: time
  pu_counted :: bool

definition period_not_reached :: "usage_db \<Rightarrow> string \<Rightarrow> period_usage" where
  "period_not_reached db org =
     (case map up_computed_at (filter (\<lambda>r. up_org r = org) (ub_periods db)) of
        [] \<Rightarrow> \<lparr>pu_count = 0, pu_computed_at = zero_time, pu_counted = False\<rparr>
      | s # ss \<Rightarrow> \<lparr>pu_count = 0, pu_computed_at = foldl max s ss, pu_counted = False\<rparr>)"

definition get_period_usage :: "usage_db \<Rightarrow> string \<Rightarrow> time \<Rightarrow> period_usage" where
  "get_period_usage db org start =
     (case List.find (\<lambda>r. up_org r = org \<and> up_start r = start) (ub_periods db) of
        None \<Rightarrow> period_not_reached db org
      | Some r \<Rightarrow> \<lparr>pu_count = up_count r, pu_computed_at = up_computed_at r, pu_counted = True\<rparr>)"

definition max_daily_rows :: nat where
  "max_daily_rows = 10000"

definition list_daily_usage :: "usage_db \<Rightarrow> string \<Rightarrow> time \<Rightarrow> time \<Rightarrow> daily_usage list" where
  "list_daily_usage db org from to =
     map (\<lambda>c. \<lparr>du_project = uc_project c, du_day = uc_day c * day_ns, du_count = uc_count c\<rparr>)
       (take max_daily_rows
         (sort_key uc_day (sort_key uc_project
           (filter (\<lambda>c. uc_org c = org \<and> in_days (new_date (floor_day_utc from)) (new_date (ceil_day_utc to)) c)
             (ub_cells db)))))"

section \<open>Laws of the statements\<close>

text \<open>
  The two tables are maps by primary key: a contract of a table with an upsert, which the
  cells (by project and day) and the periods (by org and start) both meet.
\<close>

locale keyed_table =
  fixes key :: "'r \<Rightarrow> 'k"
    and put :: "'r \<Rightarrow> 'r list \<Rightarrow> 'r list"
  assumes put_Nil: "put r [] = [r]"
    and put_Cons: "put r (x # xs) = (if key x = key r then r # xs else x # put r xs)"
begin

definition lookup :: "'r list \<Rightarrow> 'k \<Rightarrow> 'r option" where
  "lookup rs k = List.find (\<lambda>r. key r = k) rs"

lemma lookup_put: "lookup (put r rs) k = (if k = key r then Some r else lookup rs k)"
  by (induction rs) (auto simp: lookup_def put_Nil put_Cons)

lemma set_put: "x \<in> set (put r rs) \<Longrightarrow> x = r \<or> x \<in> set rs"
  by (induction rs) (auto simp: put_Nil put_Cons split: if_splits)

lemma keys_put: "set (map key (put r rs)) = insert (key r) (set (map key rs))"
  by (induction rs) (auto simp: put_Nil put_Cons)

lemma distinct_put: "distinct (map key rs) \<Longrightarrow> distinct (map key (put r rs))"
proof (induction rs)
  case (Cons x xs)
  then show ?case using keys_put [of r xs] by (auto simp: put_Cons)
qed (simp add: put_Nil)

lemma lookup_filter: "lookup (filter (\<lambda>r. P (key r)) rs) k = (if P k then lookup rs k else None)"
  by (induction rs) (auto simp: lookup_def)

lemma lookup_key: "lookup rs k = Some r \<Longrightarrow> key r = k \<and> r \<in> set rs"
  by (auto simp: lookup_def find_Some_iff)

end

definition cell_key :: "usage_cell \<Rightarrow> string \<times> int" where
  "cell_key c = (uc_project c, uc_day c)"

definition period_key :: "usage_period \<Rightarrow> string \<times> time" where
  "period_key r = (up_org r, up_start r)"

interpretation cells: keyed_table cell_key put_cell
  by unfold_locales (auto simp: cell_key_def)

interpretation periods: keyed_table period_key put_period
  by unfold_locales (auto simp: period_key_def)

lemma cell_at_lookup: "cell_at cs p d = cells.lookup cs (p, d)"
  by (simp add: cell_at_def cells.lookup_def cell_key_def)

lemma period_lookup: "List.find (\<lambda>r. up_org r = g \<and> up_start r = t) rs = periods.lookup rs (g, t)"
  by (simp add: periods.lookup_def period_key_def)

lemma upsert_frame [simp]:
  "ub_orgs (upsert_usage_daily db u) = ub_orgs db" "ub_projects (upsert_usage_daily db u) = ub_projects db"
  "ub_periods (upsert_usage_daily db u) = ub_periods db" "ub_cron (upsert_usage_daily db u) = ub_cron db"
  by (simp_all add: upsert_usage_daily_def Let_def split: option.splits)

lemma upserts_frame [simp]:
  "ub_orgs (foldl upsert_usage_daily db us) = ub_orgs db"
  "ub_projects (foldl upsert_usage_daily db us) = ub_projects db"
  "ub_periods (foldl upsert_usage_daily db us) = ub_periods db"
  "ub_cron (foldl upsert_usage_daily db us) = ub_cron db"
  by (induction us arbitrary: db) simp_all

lemma live_upserts [simp]: "live_project (foldl upsert_usage_daily db us) p = live_project db p"
  by (simp add: live_project_def project_of_def)

lemma upsert_count:
  "map_option uc_count (cell_at (ub_cells (upsert_usage_daily db u)) p d) =
     (if p = du_project u \<and> d = new_date (du_day u) \<and> live_project db p then Some (du_count u)
      else map_option uc_count (cell_at (ub_cells db) p d))"
  by (auto simp: upsert_usage_daily_def live_project_def Let_def cell_at_lookup cells.lookup_put cell_key_def
      split: option.splits)

text \<open>After a batch the cell of a live project holds the last count reported for its day.\<close>

definition reported :: "daily_usage list \<Rightarrow> (string \<times> int) \<Rightarrow> int option" where
  "reported us = map_of (rev (map (\<lambda>u. ((du_project u, new_date (du_day u)), du_count u)) us))"

lemma reported_snoc: "reported (us @ [u]) k =
    (if k = (du_project u, new_date (du_day u)) then Some (du_count u) else reported us k)"
  by (simp add: reported_def)

lemma reported_None: "reported us k = None \<longleftrightarrow> k \<notin> set (map (\<lambda>u. (du_project u, new_date (du_day u))) us)"
  by (auto simp: reported_def map_of_eq_None_iff image_iff)

lemma upserts_count:
  "map_option uc_count (cell_at (ub_cells (foldl upsert_usage_daily db us)) p d) =
     (if live_project db p \<and> reported us (p, d) \<noteq> None then reported us (p, d)
      else map_option uc_count (cell_at (ub_cells db) p d))"
proof (induction us rule: rev_induct)
  case Nil
  show ?case by (simp add: reported_def)
next
  case (snoc u us)
  then show ?case by (auto simp: upsert_count reported_snoc)
qed

lemma unknown_upserts: "(\<And>u. u \<in> set us \<Longrightarrow> project_of db (du_project u) = None) \<Longrightarrow>
    foldl upsert_usage_daily db us = db"
  by (induction us) (simp_all add: upsert_usage_daily_def)

lemma record_from_ok: "record_from fails k n us db = (db', None) \<Longrightarrow> db' = foldl upsert_usage_daily db us"
proof (induction fails k n us db rule: record_from.induct)
  case (1 fails start n us db)
  show ?case
  proof (cases "us = [] \<or> fails start")
    case True
    then show ?thesis using "1.prems" by (auto simp: record_from.simps [of fails start] split: if_splits)
  next
    case False
    then have "db' = foldl upsert_usage_daily (foldl upsert_usage_daily db (take usage_batch_chunk us))
        (drop usage_batch_chunk us)"
      using "1.prems" by (intro "1.IH") (simp_all add: record_from.simps [of fails start])
    then show ?thesis by (simp only: foldl_append [symmetric] append_take_drop_id)
  qed
qed

lemma record_ok: "record_daily_usage fails us db = (db', None) \<Longrightarrow> db' = foldl upsert_usage_daily db us"
  unfolding record_daily_usage_def by (rule record_from_ok)

text \<open>A failed batch leaves a whole number of chunks written, in order.\<close>

lemma record_from_prefix:
  "usage_batch_chunk dvd k \<Longrightarrow> n = k + length us \<Longrightarrow> record_from fails k n us db = (db', Some e) \<Longrightarrow>
    \<exists>m. e = ChunkFailed m (n - m) n \<and> k \<le> m \<and> m < n \<and> usage_batch_chunk dvd m \<and> fails m
      \<and> db' = foldl upsert_usage_daily db (take (m - k) us)"
proof (induction fails k n us db rule: record_from.induct)
  case (1 fails k n us db)
  show ?case
  proof (cases "us = [] \<or> fails k")
    case True
    then show ?thesis using "1.prems" by (auto simp: record_from.simps [of fails k] split: if_splits)
  next
    case False
    define c where "c = usage_batch_chunk"
    from False "1.prems"(3) have rest: "record_from fails (k + c) n (drop c us)
        (foldl upsert_usage_daily db (take c us)) = (db', Some e)"
      by (simp add: record_from.simps [of fails k] c_def)
    have ne: "drop c us \<noteq> []"
      using rest by (auto simp: record_from.simps [of fails "k + c"])
    have "\<exists>m. e = ChunkFailed m (n - m) n \<and> k + c \<le> m \<and> m < n \<and> c dvd m \<and> fails m
        \<and> db' = foldl upsert_usage_daily (foldl upsert_usage_daily db (take c us)) (take (m - (k + c)) (drop c us))"
      using "1.IH" False "1.prems"(1,2) rest ne unfolding c_def by simp
    then obtain m where m: "e = ChunkFailed m (n - m) n" "k + c \<le> m" "m < n" "c dvd m" "fails m"
        "db' = foldl upsert_usage_daily db (take c us @ take (m - (k + c)) (drop c us))"
      by (auto simp: foldl_append)
    have "take c us @ take (m - (k + c)) (drop c us) = take (m - k) us"
      using m(2) take_add [of c "m - (k + c)" us] by simp
    with m show ?thesis unfolding c_def by (intro exI [of _ m]) simp
  qed
qed

lemma record_fault_state:
  "\<exists>m. fst (record_daily_usage fails us db) = foldl upsert_usage_daily db (take m us)"
proof (cases "record_daily_usage fails us db")
  case (Pair db' r)
  show ?thesis
  proof (cases r)
    case None
    then show ?thesis using Pair record_ok [of fails us db db'] by (intro exI [of _ "length us"]) simp
  next
    case (Some e)
    then show ?thesis
      using Pair record_from_prefix [of 0 "length us" us fails db db' e] by (auto simp: record_daily_usage_def)
  qed
qed

lemma new_date_mult [simp]: "new_date (n * day_ns) = n"
  by (simp add: new_date_def)

lemma refresh_frame [simp]:
  "ub_orgs (refresh_period_usage db w g s e) = ub_orgs db" "ub_cells (refresh_period_usage db w g s e) = ub_cells db"
  "ub_projects (refresh_period_usage db w g s e) = ub_projects db" "ub_cron (refresh_period_usage db w g s e) = ub_cron db"
  by (simp_all add: refresh_period_usage_def)

lemma get_refreshed:
  "get_period_usage (refresh_period_usage db w g s e) g' s' =
     (if g' = g \<and> s' = s
      then \<lparr>pu_count = sum_org_days (ub_cells db) g (new_date (ceil_day_utc s)) (new_date (ceil_day_utc e)),
            pu_computed_at = w, pu_counted = True\<rparr>
      else get_period_usage (refresh_period_usage db w g s e) g' s')"
  by (auto simp: get_period_usage_def refresh_period_usage_def period_lookup periods.lookup_put period_key_def)

lemma period_row_kept:
  "(g', s') \<noteq> (g, s) \<Longrightarrow> periods.lookup (ub_periods (refresh_period_usage db w g s e)) (g', s')
     = periods.lookup (ub_periods db) (g', s')"
  by (auto simp: refresh_period_usage_def periods.lookup_put period_key_def)

lemma delete_unmetered_frame [simp]:
  "ub_orgs (fst (delete_unmetered_days db us f t)) = ub_orgs db"
  "ub_projects (fst (delete_unmetered_days db us f t)) = ub_projects db"
  "ub_periods (fst (delete_unmetered_days db us f t)) = ub_periods db"
  "ub_cron (fst (delete_unmetered_days db us f t)) = ub_cron db"
  by (simp_all add: delete_unmetered_days_def Let_def)

lemma delete_unmetered_cell:
  assumes "us \<noteq> []"
  shows "cell_at (ub_cells (fst (delete_unmetered_days db us f t))) p d =
     (if new_date (floor_day_utc f) \<le> d \<and> d < new_date (ceil_day_utc t) \<and> live_project db p
         \<and> reported us (p, d) = None
      then None else cell_at (ub_cells db) p d)"
proof -
  define P where "P k = (\<not> (new_date (floor_day_utc f) \<le> snd k \<and> snd k < new_date (ceil_day_utc t)
      \<and> live_project db (fst k) \<and> reported us k = None))" for k
  have "ub_cells (fst (delete_unmetered_days db us f t)) = filter (\<lambda>c. P (cell_key c)) (ub_cells db)"
    using assms by (simp add: delete_unmetered_days_def Let_def unmetered_def in_days_def cell_key_def
        reported_None conj_assoc P_def)
  then show ?thesis by (simp add: cell_at_lookup cells.lookup_filter [of P]) (auto simp: P_def)
qed

end
