(* ===== verification/Usage_Pass.thy ===== *)
theory Usage_Pass
  imports Usage_Store
begin

text \<open>
  One metering pass, \<open>internal/app/cron/usage/usage.go\<close>: the trailing or full recompute,
  the two reads it does not trust, the reconcile, the re-sum of every org's period, and
  the daily prune. Every call that can fail asks \<open>flt\<close>; a cancelled context is one of them.
\<close>

section \<open>The code\<close>

definition retention_span :: duration where
  "retention_span = 390 * 24 * hour"

definition full_recompute_interval :: duration where
  "full_recompute_interval = 24 * hour"

definition prune_interval :: duration where
  "prune_interval = 24 * hour"

definition default_rescan_days :: int where
  "default_rescan_days = 2"

definition max_rescan_days :: int where
  "max_rescan_days = retention_span div (24 * hour)"

definition rescan_days :: "int \<Rightarrow> int" where
  "rescan_days configured =
     (if configured > max_rescan_days then max_rescan_days
      else if configured > 0 then configured
      else default_rescan_days)"

definition task_full_recompute :: string where
  "task_full_recompute = ''full_recompute''"

definition task_prune :: string where
  "task_prune = ''prune''"

datatype pass_call =
    CallOrgPeriods | CallLastFull | CallRecord nat | CallCountStored | CallCountKnown
  | CallDeleteCtx | CallDelete | CallMarkFull | CallRefreshCtx nat | CallRefresh nat
  | CallLastPrune | CallPrune | CallMarkPrune

text \<open>
  The loop over the work list: the tables, how many orgs failed, and whether the context
  ended, which returns at once. \<open>db_now\<close> is the database's clock.
\<close>

fun refresh_all :: "(pass_call \<Rightarrow> bool) \<Rightarrow> time \<Rightarrow> nat \<Rightarrow> org_period list \<Rightarrow> usage_db \<Rightarrow> nat
    \<Rightarrow> usage_db \<times> nat \<times> bool" where
  "refresh_all flt db_now k [] db failed = (db, failed, False)"
| "refresh_all flt db_now k (w # ws) db failed =
     (if flt (CallRefreshCtx k) then (db, failed, True)
      else if flt (CallRefresh k) then refresh_all flt db_now (k + 1) ws db (failed + 1)
      else refresh_all flt db_now (k + 1) ws
             (refresh_period_usage db db_now (op_org w) (op_start w) (op_end w)) failed)"

text \<open>The tail of \<open>meter\<close>, from the work list on; the value says \<open>j.unrefreshed\<close>.\<close>

definition meter_refresh :: "(pass_call \<Rightarrow> bool) \<Rightarrow> time \<Rightarrow> org_period list \<Rightarrow> daily_usage list \<Rightarrow> usage_db
    \<Rightarrow> usage_db \<times> (usage_error, bool) result" where
  "meter_refresh flt db_now windows us db =
     (if windows = [] \<and> us \<noteq> [] then (db, Inl (NoOrgs (length us)))
      else let (db', failed, cancelled) = refresh_all flt db_now 0 windows db 0
           in if cancelled then (db', Inl CtxCancelled)
              else if failed > 0 then (db', Inl (Unrefreshed failed (length windows)))
              else (db', Inr (windows = [])))"

definition meter_mark :: "(pass_call \<Rightarrow> bool) \<Rightarrow> time \<Rightarrow> time \<Rightarrow> bool \<Rightarrow> org_period list \<Rightarrow> daily_usage list \<Rightarrow> usage_db
    \<Rightarrow> usage_db \<times> (usage_error, bool) result" where
  "meter_mark flt now db_now full windows us db =
     (if full \<and> us \<noteq> []
      then (if flt CallMarkFull then (db, Inl DbError)
            else meter_refresh flt db_now windows us
                   (db\<lparr>ub_cron := mark_run (ub_cron db) JobUsage task_full_recompute now\<rparr>))
      else meter_refresh flt db_now windows us db)"

text \<open>\<open>meter\<close>, after the work list and the last full run are read.\<close>

definition meter_window_pass :: "(pass_call \<Rightarrow> bool) \<Rightarrow> clickhouse option \<Rightarrow> time \<Rightarrow> time \<Rightarrow> bool \<Rightarrow> time
    \<Rightarrow> org_period list \<Rightarrow> usage_db \<Rightarrow> usage_db \<times> (usage_error, bool) result" where
  "meter_window_pass flt ch now db_now full from windows db =
     (case meter_window ch from now of
        Inl e \<Rightarrow> (db, Inl e)
      | Inr us \<Rightarrow>
          (case record_daily_usage (\<lambda>k. flt (CallRecord k)) us db of
             (db1, Some e) \<Rightarrow> (db1, Inl e)
           | (db1, None) \<Rightarrow>
               if us = [] then
                 (if flt CallCountStored then (db1, Inl DbError)
                  else if count_stored_days db1 from now > 0 then (db1, Inr True)
                  else meter_mark flt now db_now full windows us db1)
               else if flt CallCountKnown then (db1, Inl DbError)
               else if count_known_projects db1 (project_ids us) = 0 then (db1, Inr True)
               else if flt CallDeleteCtx then (db1, Inl CtxCancelled)
               else if flt CallDelete then (db1, Inl DbError)
               else meter_mark flt now db_now full windows us
                      (fst (delete_unmetered_days db1 us from now))))"

definition full_due :: "usage_db \<Rightarrow> time \<Rightarrow> bool" where
  "full_due db now = (time_sub now (last_run (ub_cron db) JobUsage task_full_recompute) \<ge> full_recompute_interval)"

definition pass_from :: "usage_db \<Rightarrow> time \<Rightarrow> int \<Rightarrow> time" where
  "pass_from db now rescan = meter_from now rescan (full_due db now) (org_periods db now)"

definition meter_pass :: "(pass_call \<Rightarrow> bool) \<Rightarrow> clickhouse option \<Rightarrow> time \<Rightarrow> time \<Rightarrow> int \<Rightarrow> usage_db
    \<Rightarrow> usage_db \<times> (usage_error, bool) result" where
  "meter_pass flt ch now db_now rescan db =
     (if flt CallOrgPeriods then (db, Inl DbError)
      else let windows = org_periods db now
           in if flt CallLastFull then (db, Inl DbError)
              else meter_window_pass flt ch now db_now (full_due db now) (pass_from db now rescan) windows db)"

definition prune_pass :: "(pass_call \<Rightarrow> bool) \<Rightarrow> time \<Rightarrow> usage_db \<Rightarrow> usage_db \<times> usage_error option" where
  "prune_pass flt now db =
     (if flt CallLastPrune then (db, Some DbError)
      else if time_sub now (last_run (ub_cron db) JobUsage task_prune) < prune_interval then (db, None)
      else if flt CallPrune then (db, Some DbError)
      else let db1 = fst (prune_usage db (now - retention_span))
           in if flt CallMarkPrune then (db1, Some DbError)
              else (db1\<lparr>ub_cron := mark_run (ub_cron db1) JobUsage task_prune now\<rparr>, None))"

text \<open>\<open>run\<close>: both halves, whatever the first returned.\<close>

definition usage_run :: "(pass_call \<Rightarrow> bool) \<Rightarrow> clickhouse option \<Rightarrow> time \<Rightarrow> time \<Rightarrow> int \<Rightarrow> usage_db
    \<Rightarrow> usage_db \<times> usage_error list" where
  "usage_run flt ch now db_now rescan db =
     (let (db1, m) = meter_pass flt ch now db_now rescan db;
          (db2, p) = prune_pass flt now db1
      in (db2, (case m of Inl e \<Rightarrow> [e] | Inr _ \<Rightarrow> []) @ (case p of None \<Rightarrow> [] | Some e \<Rightarrow> [e])))"

text \<open>\<open>Run\<close>, from the lock on.\<close>

definition usage_job :: "(lock_call \<Rightarrow> bool) \<Rightarrow> bool \<Rightarrow> (pass_call \<Rightarrow> bool) \<Rightarrow> clickhouse option \<Rightarrow> time \<Rightarrow> time
    \<Rightarrow> int \<Rightarrow> usage_db \<Rightarrow> usage_db \<times> usage_error pass_error list" where
  "usage_job lflt held flt ch now db_now configured db =
     with_lock lflt held (usage_run flt ch now db_now (rescan_days configured)) db"

section \<open>The refresh loop\<close>

abbreviation refresh_windows :: "time \<Rightarrow> usage_db \<Rightarrow> org_period list \<Rightarrow> usage_db" where
  "refresh_windows w \<equiv> foldl (\<lambda>d p. refresh_period_usage d w (op_org p) (op_start p) (op_end p))"

lemma refresh_all_frame:
  "refresh_all flt w k ws db f = (db', f', c) \<Longrightarrow>
     ub_cells db' = ub_cells db \<and> ub_orgs db' = ub_orgs db \<and> ub_projects db' = ub_projects db
     \<and> ub_cron db' = ub_cron db \<and> f \<le> f'"
proof (induction flt w k ws db f rule: refresh_all.induct)
  case (2 flt w k win ws db f)
  then show ?case by (auto split: if_splits)
qed simp

lemma refresh_all_done:
  "refresh_all flt w k ws db f = (db', f, False) \<Longrightarrow>
     db' = refresh_windows w db ws"
proof (induction flt w k ws db f rule: refresh_all.induct)
  case (2 flt w k win ws db f)
  then show ?case
    using refresh_all_frame [of flt w "k + 1" ws db "f + 1" db' f False] by (auto split: if_splits)
qed simp

lemma foldl_refresh_cells [simp]:
  "ub_cells (refresh_windows w db ws) = ub_cells db"
  by (induction ws arbitrary: db) simp_all

lemma meter_refresh_ok:
  assumes "meter_refresh flt w ws us db = (db', Inr b)"
  shows "db' = refresh_windows w db ws
    \<and> ub_cells db' = ub_cells db \<and> b = (ws = [])"
proof -
  obtain d f c where r: "refresh_all flt w 0 ws db 0 = (d, f, c)" by (cases "refresh_all flt w 0 ws db 0")
  with assms have "d = db'" "f = 0" "c = False" "b = (ws = [])"
    by (auto simp: meter_refresh_def split: if_splits)
  with r refresh_all_done [of flt w 0 ws db 0 db'] refresh_all_frame [OF r] show ?thesis by simp
qed

lemma meter_mark_ok:
  assumes "meter_mark flt now w full ws us db = (db', Inr b)"
  shows "\<exists>db1. ub_cells db1 = ub_cells db \<and> ub_periods db1 = ub_periods db \<and>
    db' = refresh_windows w db1 ws
    \<and> ub_cells db' = ub_cells db \<and> b = (ws = [])"
proof (cases "full \<and> us \<noteq> []")
  case True
  with assms have "meter_refresh flt w ws us
      (db\<lparr>ub_cron := mark_run (ub_cron db) JobUsage task_full_recompute now\<rparr>) = (db', Inr b)"
    by (auto simp: meter_mark_def split: if_splits)
  from meter_refresh_ok [OF this] show ?thesis
    by (intro exI [of _ "db\<lparr>ub_cron := mark_run (ub_cron db) JobUsage task_full_recompute now\<rparr>"]) simp
next
  case False
  with assms have "meter_refresh flt w ws us db = (db', Inr b)"
    by (auto simp: meter_mark_def split: if_splits)
  from meter_refresh_ok [OF this] show ?thesis by (intro exI [of _ db]) simp
qed

lemma foldl_refresh_lookup:
  "k \<notin> set (map (\<lambda>p. (op_org p, op_start p)) ws) \<Longrightarrow>
     periods.lookup (ub_periods (refresh_windows w db ws)) k
       = periods.lookup (ub_periods db) k"
proof (induction ws arbitrary: db)
  case (Cons p ws)
  then show ?case using period_row_kept [of "fst k" "snd k" "op_org p" "op_start p"] by auto
qed simp

lemma foldl_refreshed:
  "distinct (map op_org ws) \<Longrightarrow> p \<in> set ws \<Longrightarrow>
     get_period_usage (refresh_windows w db ws)
       (op_org p) (op_start p)
       = \<lparr>pu_count = sum_org_days (ub_cells db) (op_org p)
            (new_date (ceil_day_utc (op_start p))) (new_date (ceil_day_utc (op_end p))),
          pu_computed_at = w, pu_counted = True\<rparr>"
proof (induction ws arbitrary: db)
  case (Cons q ws)
  show ?case
  proof (cases "p = q")
    case True
    with Cons.prems have "(op_org p, op_start p) \<notin> set (map (\<lambda>p. (op_org p, op_start p)) ws)" by auto
    from foldl_refresh_lookup [OF this] True show ?thesis
      by (simp add: get_period_usage_def period_lookup refresh_period_usage_def periods.lookup_put period_key_def)
  next
    case False
    with Cons show ?thesis by simp
  qed
qed simp

section \<open>The pass\<close>

text \<open>What a pass that ends well did, when ClickHouse returned cells.\<close>

lemma meter_window_pass_cells:
  assumes "meter_window_pass flt ch now w full from ws db = (db', Inr False)"
    and "meter_window ch from now = Inr us" "us \<noteq> []"
  shows "ub_cells db' = ub_cells (fst (delete_unmetered_days (foldl upsert_usage_daily db us) us from now))"
proof -
  obtain db1 r where rec: "record_daily_usage (\<lambda>k. flt (CallRecord k)) us db = (db1, r)"
    by (cases "record_daily_usage (\<lambda>k. flt (CallRecord k)) us db")
  with assms have "r = None" by (cases r) (simp_all add: meter_window_pass_def)
  with rec have db1: "db1 = foldl upsert_usage_daily db us" using record_ok by blast
  have "meter_mark flt now w full ws us (fst (delete_unmetered_days db1 us from now)) = (db', Inr False)"
    using assms rec \<open>r = None\<close> by (auto simp: meter_window_pass_def split: if_splits)
  from meter_mark_ok [OF this] db1 show ?thesis by auto
qed

lemma meter_window_pass_refreshed:
  assumes "meter_window_pass flt ch now w full from ws db = (db', Inr False)"
  shows "\<exists>db1. ub_cells db' = ub_cells db1
    \<and> db' = refresh_windows w db1 ws"
proof -
  obtain us where us: "meter_window ch from now = Inr us"
    using assms by (cases "meter_window ch from now") (simp_all add: meter_window_pass_def)
  obtain db1 r where rec: "record_daily_usage (\<lambda>k. flt (CallRecord k)) us db = (db1, r)"
    by (cases "record_daily_usage (\<lambda>k. flt (CallRecord k)) us db")
  have "r = None" using assms us rec by (cases r) (simp_all add: meter_window_pass_def)
  then have "\<exists>d. meter_mark flt now w full ws us d = (db', Inr False)"
    using assms us rec by (auto simp: meter_window_pass_def split: if_splits)
  then obtain d where "meter_mark flt now w full ws us d = (db', Inr False)" ..
  from meter_mark_ok [OF this] obtain db1 where
    "ub_cells db1 = ub_cells d" "db' = refresh_windows w db1 ws" by blast
  then show ?thesis by (intro exI [of _ db1]) simp
qed

lemma meter_pass_window:
  "meter_pass flt ch now w rescan db = (db', Inr b) \<Longrightarrow>
     meter_window_pass flt ch now w (full_due db now) (pass_from db now rescan) (org_periods db now) db = (db', Inr b)"
  by (auto simp: meter_pass_def Let_def split: if_splits)

lemma no_known_projects:
  "count_known_projects db (project_ids us) = 0 \<Longrightarrow> u \<in> set us \<Longrightarrow> project_of db (du_project u) = None"
proof -
  have ids: "set (project_ids_from seen us) = du_project ` set us - set seen" for seen
    by (induction us arbitrary: seen) auto
  assume "count_known_projects db (project_ids us) = 0" "u \<in> set us"
  moreover from this have "project_ids us \<noteq> []" using ids [of "[]"] by (auto simp: project_ids_def)
  ultimately show ?thesis
    using ids [of "[]"] by (auto simp: count_known_projects_def count_known_project_ids_def project_ids_def
        project_of_def find_None_iff filter_empty_conv)
qed

lemma record_unknown:
  assumes "\<And>u. u \<in> set us \<Longrightarrow> project_of db (du_project u) = None"
  shows "fst (record_daily_usage fails us db) = db"
proof -
  obtain m where m: "fst (record_daily_usage fails us db) = foldl upsert_usage_daily db (take m us)"
    using record_fault_state by blast
  show ?thesis unfolding m by (rule unknown_upserts) (use assms in \<open>auto dest: in_set_takeD\<close>)
qed

lemma record_nothing [simp]: "record_daily_usage fails [] db = (db, None)"
  by (simp add: record_daily_usage_def record_from.simps [of fails])

text \<open>A pass without faults, on a trusted non-empty read, meters.\<close>

lemma record_total: "record_daily_usage (\<lambda>k. False) us db = (foldl upsert_usage_daily db us, None)"
proof (cases "record_daily_usage (\<lambda>k. False) us db")
  case (Pair db' r)
  show ?thesis
  proof (cases r)
    case None
    with Pair record_ok show ?thesis by simp
  next
    case (Some e)
    with Pair record_from_prefix [of 0 "length us" us "\<lambda>k. False" db db' e] show ?thesis
      by (simp add: record_daily_usage_def)
  qed
qed

lemma refresh_all_total: "refresh_all (\<lambda>c. False) w k ws db f = (refresh_windows w db ws, f, False)"
  by (induction ws arbitrary: k db) simp_all

lemma healthy_pass:
  assumes "meter_window ch (pass_from db now rescan) now = Inr us" "us \<noteq> []"
    and "count_known_projects db (project_ids us) \<noteq> 0" "ub_orgs db \<noteq> []"
  shows "snd (meter_pass (\<lambda>c. False) ch now w rescan db) = Inr False"
proof -
  have known: "count_known_projects (foldl upsert_usage_daily db us) ids = count_known_projects db ids" for ids
    by (simp add: count_known_projects_def count_known_project_ids_def)
  have "set (org_periods db now) \<noteq> {}" using assms(4) by (simp add: org_periods_def)
  then have "org_periods db now \<noteq> []" by auto
  then show ?thesis
    using assms(1-3) by (simp add: meter_pass_def Let_def meter_window_pass_def record_total known
        meter_mark_def meter_refresh_def refresh_all_total)
qed

lemma pass_from_le: "pass_from db now k \<le> floor_day_utc (add_date now 0 0 (- k))"
  by (simp add: pass_from_def meter_from_def full_recompute_from_def Let_def)

text \<open>A small deployment the properties are instantiated on.\<close>

definition demo_usage :: usage_db where
  "demo_usage = \<lparr>ub_orgs = [\<lparr>or_id = ''o'', or_create_time = go_date 2026 1 5, or_anchor = None\<rparr>],
     ub_projects = [\<lparr>pr_id = ''p'', pr_org = ''o'', pr_live = True\<rparr>],
     ub_cells = [\<lparr>uc_project = ''p'', uc_day = 19998, uc_count = 9, uc_org = ''o''\<rparr>],
     ub_periods = [], ub_cron = (\<lambda>k. None)\<rparr>"

definition demo_clickhouse :: "clickhouse option" where
  "demo_clickhouse = Some (\<lambda>p f t. Inr [\<lparr>du_project = ''p'', du_day = 19999 * day_ns, du_count = 7\<rparr>])"

lemma demo_window:
  "meter_window demo_clickhouse f t = Inr [\<lparr>du_project = ''p'', du_day = 19999 * day_ns, du_count = 7\<rparr>]"
  using go_date_today [of "19999 * day_ns"]
  by (simp add: meter_window_def usage_meter_def demo_clickhouse_def restamp_def)

lemma demo_projects_known: "count_known_projects demo_usage
    (project_ids [\<lparr>du_project = ''p'', du_day = 19999 * day_ns, du_count = 7\<rparr>]) \<noteq> 0"
  by (simp add: demo_usage_def count_known_projects_def count_known_project_ids_def project_ids_def)

lemma demo_meters: "snd (meter_pass (\<lambda>c. False) demo_clickhouse now w k demo_usage) = Inr False"
  by (rule healthy_pass [OF demo_window _ demo_projects_known]) (simp_all add: demo_usage_def)

section \<open>Properties\<close>

text \<open>
  A metering pass whose read cannot be trusted changes nothing: ClickHouse returned no
  cell while live projects have days stored in the window, or only cells of projects
  Postgres does not know. No count, period or stamp moves, whatever call fails.
\<close>

theorem untrusted_read_changes_nothing:
  assumes "meter_window ch (pass_from db now rescan) now = Inr us"
    and "us = [] \<and> 0 < count_stored_days db (pass_from db now rescan) now
      \<or> us \<noteq> [] \<and> count_known_projects db (project_ids us) = 0"
  shows "fst (meter_pass flt ch now w rescan db) = db \<and> snd (meter_pass flt ch now w rescan db) \<noteq> Inr False"
proof -
  have "meter_window_pass flt ch now w (full_due db now) (pass_from db now rescan) (org_periods db now) db = (db, r) \<Longrightarrow> r \<noteq> Inr False \<Longrightarrow> ?thesis" for r
    by (simp add: meter_pass_def Let_def)
  moreover have "\<exists>r. r \<noteq> Inr False \<and> meter_window_pass flt ch now w (full_due db now) (pass_from db now rescan) (org_periods db now) db = (db, r)"
  proof (cases "us = []")
    case True
    with assms show ?thesis by (auto simp: meter_window_pass_def)
  next
    case False
    obtain r where "record_daily_usage (\<lambda>k. flt (CallRecord k)) us db = (db, r)"
      using record_unknown [of us db "\<lambda>k. flt (CallRecord k)"] no_known_projects assms(2) False by (metis prod.collapse)
    with False assms show ?thesis by (cases r) (auto simp: meter_window_pass_def)
  qed
  ultimately show ?thesis by blast
qed

theorem untrusted_read_changes_nothing_witness:
  "meter_pass (\<lambda>c. False) demo_clickhouse (20000 * day_ns) 5 2 (demo_usage\<lparr>ub_projects := []\<rparr>)
     = (demo_usage\<lparr>ub_projects := []\<rparr>, Inr True)"
proof -
  let ?db = "demo_usage\<lparr>ub_projects := []\<rparr>"
  have "fst (meter_pass (\<lambda>c. False) demo_clickhouse (20000 * day_ns) 5 2 ?db) = ?db"
    using untrusted_read_changes_nothing [OF demo_window, of ?db]
    by (simp add: demo_usage_def count_known_projects_def count_known_project_ids_def)
  moreover have "snd (meter_pass (\<lambda>c. False) demo_clickhouse (20000 * day_ns) 5 2 ?db) = Inr True"
    by (simp add: meter_pass_def Let_def meter_window_pass_def demo_window record_total demo_usage_def
        count_known_projects_def count_known_project_ids_def upsert_usage_daily_def project_of_def)
  ultimately show ?thesis by (simp add: prod_eq_iff)
qed

text \<open>
  After a pass that metered, the stored cell of every live project and every day of the
  window is exactly what ClickHouse reported: the reported count, or no cell at all.
\<close>

theorem metered_cells_are_reported:
  assumes "meter_pass flt ch now w rescan db = (db', Inr False)"
    and "meter_window ch (pass_from db now rescan) now = Inr us" "us \<noteq> []"
    and "live_project db p" "new_date (floor_day_utc (pass_from db now rescan)) \<le> d" "d < new_date (ceil_day_utc now)"
  shows "map_option uc_count (cell_at (ub_cells db') p d) = reported us (p, d)"
proof -
  from meter_window_pass_cells [OF meter_pass_window [OF assms(1)] assms(2,3)] show ?thesis
    using assms(3-6) by (simp add: delete_unmetered_cell upserts_count)
qed

theorem metered_cells_are_reported_witness:
  "let db' = fst (meter_pass (\<lambda>c. False) demo_clickhouse (20000 * day_ns) 5 2 demo_usage)
   in map_option uc_count (cell_at (ub_cells db') ''p'' 19999) = Some 7
      \<and> cell_at (ub_cells db') ''p'' 19998 = None"
proof -
  let ?db' = "fst (meter_pass (\<lambda>c. False) demo_clickhouse (20000 * day_ns) 5 2 demo_usage)"
  have pass: "meter_pass (\<lambda>c. False) demo_clickhouse (20000 * day_ns) 5 2 demo_usage = (?db', Inr False)"
    using demo_meters [of "20000 * day_ns" 5 2] by (simp add: prod_eq_iff)
  have live: "live_project demo_usage ''p''" by (simp add: demo_usage_def live_project_def project_of_def)
  have two_days: "add_date (20000 * day_ns) 0 0 (- 2) = 19998 * day_ns"
    unfolding add_date_days by simp
  have "floor_day_utc (pass_from demo_usage (20000 * day_ns) 2) \<le> 19998 * day_ns"
    using pass_from_le [of demo_usage "20000 * day_ns" 2] floor_day_le(1)
    unfolding two_days midnight_fixed by (rule order_trans [rotated])
  then have from_le: "new_date (floor_day_utc (pass_from demo_usage (20000 * day_ns) 2)) \<le> 19998"
    using day_number_mono [of "floor_day_utc (pass_from demo_usage (20000 * day_ns) 2)" "19998 * day_ns"]
    by (simp add: new_date_def)
  note cells = metered_cells_are_reported [OF pass demo_window _ live]
  show ?thesis
    using cells [of 19999] cells [of 19998] from_le by (simp add: reported_def)
qed

lemma org_period_keys: "map op_org (org_periods db now) = map or_id (sort_key or_id (ub_orgs db))"
  by (simp add: org_periods_def o_def split: prod.splits)

text \<open>
  A pass that metered leaves every org's current period summed: the stored total is the
  sum of the org's day cells inside the window, stamped with the database's clock, even for
  an org with no event.
\<close>

theorem refreshed_period_is_sum:
  assumes "meter_pass flt ch now w rescan db = (db', Inr False)"
    and "distinct (map or_id (ub_orgs db))" "r \<in> set (ub_orgs db)"
    and "period_for now (org_anchor r) = (s, e)"
  shows "get_period_usage db' (or_id r) s =
    \<lparr>pu_count = sum_org_days (ub_cells db') (or_id r) (new_date s) (new_date e),
     pu_computed_at = w, pu_counted = True\<rparr>"
proof -
  from meter_window_pass_refreshed [OF meter_pass_window [OF assms(1)]] obtain db1 where
    db1: "ub_cells db' = ub_cells db1" "db' = refresh_windows w db1 (org_periods db now)" by auto
  have "\<lparr>op_org = or_id r, op_start = s, op_end = e\<rparr> \<in> set (org_periods db now)"
    using assms(3,4) by (force simp: org_periods_def)
  moreover have "distinct (map op_org (org_periods db now))"
    using assms(2) by (simp add: org_period_keys distinct_map)
  moreover have "ceil_day_utc s = s" "ceil_day_utc e = e"
  proof -
    obtain i where "period_for now (org_anchor r)
        = (anchored_day i (org_anchor r) * day_ns, anchored_day (i + 1) (org_anchor r) * day_ns)"
      by (rule period_for_index)
    with assms(4) show "ceil_day_utc s = s" "ceil_day_utc e = e" by auto
  qed
  ultimately show ?thesis
    using foldl_refreshed [of "org_periods db now" "\<lparr>op_org = or_id r, op_start = s, op_end = e\<rparr>" w db1] db1 by simp
qed

theorem refreshed_period_is_sum_witness:
  "let db' = fst (meter_pass (\<lambda>c. False) demo_clickhouse (go_date 2026 3 10) 5 2 demo_usage)
   in get_period_usage db' ''o'' (go_date 2026 3 5) =
        \<lparr>pu_count = sum_org_days (ub_cells db') ''o'' (new_date (go_date 2026 3 5)) (new_date (go_date 2026 4 5)),
         pu_computed_at = 5, pu_counted = True\<rparr>"
proof -
  let ?now = "go_date 2026 3 10"
  let ?db' = "fst (meter_pass (\<lambda>c. False) demo_clickhouse ?now 5 2 demo_usage)"
  let ?r = "\<lparr>or_id = ''o'', or_create_time = go_date 2026 1 5, or_anchor = None\<rparr>"
  have pass: "meter_pass (\<lambda>c. False) demo_clickhouse ?now 5 2 demo_usage = (?db', Inr False)"
    using demo_meters [of ?now 5 2] by (simp add: prod_eq_iff)
  have "org_anchor ?r = 5" using date_reads [of 1 5 2026] by (simp add: org_anchor_def anchor_day_def month_len_def days_before_month_def)
  then have window: "period_for ?now (org_anchor ?r) = (go_date 2026 3 5, go_date 2026 4 5)"
    by (simp add: window_eval)
  have "distinct (map or_id (ub_orgs demo_usage))" "?r \<in> set (ub_orgs demo_usage)"
    by (simp_all add: demo_usage_def)
  from refreshed_period_is_sum [OF pass this window] show ?thesis by simp
qed

text \<open>
  A batch of cells is written whole or up to the chunk that failed: with no error every
  cell is upserted in order, and with one the first chunks of 1000 are, the failing chunk
  and everything after it are not.
\<close>

theorem record_daily_usage_atomic_chunks:
  "(\<forall>db'. record_daily_usage fails us db = (db', None) \<longrightarrow> db' = foldl upsert_usage_daily db us)
   \<and> (\<forall>db' e. record_daily_usage fails us db = (db', Some e) \<longrightarrow>
        (\<exists>m. e = ChunkFailed m (length us - m) (length us) \<and> m < length us \<and> 1000 dvd m \<and> fails m
           \<and> db' = foldl upsert_usage_daily db (take m us)))"
proof (intro conjI allI impI)
  fix db' e assume "record_daily_usage fails us db = (db', Some e)"
  then show "\<exists>m. e = ChunkFailed m (length us - m) (length us) \<and> m < length us \<and> 1000 dvd m \<and> fails m
      \<and> db' = foldl upsert_usage_daily db (take m us)"
    using record_from_prefix [of 0 "length us" us fails db db' e]
    by (auto simp: record_daily_usage_def usage_batch_chunk_def)
qed (rule record_ok)

theorem record_daily_usage_atomic_chunks_witness:
  "record_daily_usage (\<lambda>k. True) [\<lparr>du_project = ''p'', du_day = 0, du_count = 1\<rparr>] demo_usage
     = (demo_usage, Some (ChunkFailed 0 1 1))"
proof -
  let ?us = "[\<lparr>du_project = ''p'', du_day = 0, du_count = 1\<rparr>]"
  obtain db' r where r: "record_daily_usage (\<lambda>k. True) ?us demo_usage = (db', r)"
    by (cases "record_daily_usage (\<lambda>k. True) ?us demo_usage")
  show ?thesis
  proof (cases r)
    case None
    with r show ?thesis by (simp add: record_daily_usage_def record_from.simps)
  next
    case (Some e)
    with r record_daily_usage_atomic_chunks [of "\<lambda>k. True" ?us demo_usage] show ?thesis by auto
  qed
qed

text \<open>
  Pruning is bounded by the retention span: a pass, with whatever faults, never drops a
  cell of the last 390 days, never touches a stored period, and when it is not due it does
  nothing at all.
\<close>

theorem prune_keeps_retention:
  "(\<forall>p d. now - 390 * day_ns \<le> d * day_ns \<longrightarrow>
      cell_at (ub_cells (fst (prune_pass flt now db))) p d = cell_at (ub_cells db) p d)
   \<and> ub_periods (fst (prune_pass flt now db)) = ub_periods db
   \<and> (time_sub now (last_run (ub_cron db) JobUsage task_prune) < 24 * hour \<longrightarrow> fst (prune_pass flt now db) = db)"
proof -
  have kept: "cell_at (ub_cells (fst (prune_usage db (now - retention_span)))) p d = cell_at (ub_cells db) p d"
    if "now - 390 * day_ns \<le> d * day_ns" for p d
  proof -
    have span: "now - retention_span = now - 390 * day_ns" by (simp add: retention_span_def day_ns_def)
    have "\<not> d < new_date (ceil_day_utc (now - retention_span))"
    proof
      assume "d < new_date (ceil_day_utc (now - retention_span))"
      then have "(d + 1) * day_ns \<le> new_date (ceil_day_utc (now - 390 * day_ns)) * day_ns"
        unfolding span by (intro days_le) simp
      moreover have "new_date (ceil_day_utc (now - 390 * day_ns)) * day_ns \<le> ceil_day_utc (now - 390 * day_ns)"
        using day_number_bounds by (simp add: new_date_def)
      ultimately show False
        using ceil_day_ge [of "now - 390 * day_ns"] that by (simp add: distrib_right)
    qed
    then show ?thesis
      using cells.lookup_filter [of "\<lambda>k. \<not> snd k < new_date (ceil_day_utc (now - retention_span))" "ub_cells db" "(p, d)"]
      by (simp add: prune_usage_def Let_def cell_at_lookup cell_key_def)
  qed
  show ?thesis
    using kept by (auto simp: prune_pass_def Let_def prune_usage_def prune_interval_def)
qed

theorem prune_keeps_retention_witness:
  "cell_at (ub_cells (fst (prune_pass (\<lambda>c. False) (20000 * day_ns) demo_usage))) ''p'' 19998
     = cell_at (ub_cells demo_usage) ''p'' 19998"
proof -
  have "20000 * day_ns - 390 * day_ns \<le> 19998 * day_ns" by simp
  with prune_keeps_retention [of "20000 * day_ns" "\<lambda>c. False" demo_usage] show ?thesis by blast
qed

end
