(* ===== verification/Go_String.thy ===== *)
theory Go_String
  imports Prelude
begin

text \<open>
  The Go string functions the code uses. A string is its bytes, as characters. White space
  is trimmed as \<open>strings.TrimSpace\<close> does it: the UTF-8 encodings of the Unicode white
  space, at either end. Letter case is mapped rune by rune; the tables beyond ASCII are the
  argument \<open>uni\<close> of the functions that use them.
\<close>

section \<open>White space\<close>

definition ws_seqs :: "string list" where
  "ws_seqs =
     [[CHR 0x09], [CHR 0x0A], [CHR 0x0B], [CHR 0x0C], [CHR 0x0D], [CHR 0x20],
      [CHR 0xC2, CHR 0x85], [CHR 0xC2, CHR 0xA0], [CHR 0xE1, CHR 0x9A, CHR 0x80],
      [CHR 0xE2, CHR 0x80, CHR 0x80], [CHR 0xE2, CHR 0x80, CHR 0x81], [CHR 0xE2, CHR 0x80, CHR 0x82],
      [CHR 0xE2, CHR 0x80, CHR 0x83], [CHR 0xE2, CHR 0x80, CHR 0x84], [CHR 0xE2, CHR 0x80, CHR 0x85],
      [CHR 0xE2, CHR 0x80, CHR 0x86], [CHR 0xE2, CHR 0x80, CHR 0x87], [CHR 0xE2, CHR 0x80, CHR 0x88],
      [CHR 0xE2, CHR 0x80, CHR 0x89], [CHR 0xE2, CHR 0x80, CHR 0x8A], [CHR 0xE2, CHR 0x80, CHR 0xA8],
      [CHR 0xE2, CHR 0x80, CHR 0xA9], [CHR 0xE2, CHR 0x80, CHR 0xAF], [CHR 0xE2, CHR 0x81, CHR 0x9F],
      [CHR 0xE3, CHR 0x80, CHR 0x80]]"

definition starts_with :: "string \<Rightarrow> string \<Rightarrow> bool" where
  "starts_with s p = (take (length p) s = p)"

text \<open>Both sides drop one white space rune at a time; \<open>seqs\<close> are read from the end on the right.\<close>

definition ws_prefix :: "string list \<Rightarrow> string \<Rightarrow> string option" where
  "ws_prefix seqs s = List.find (\<lambda>w. w \<noteq> [] \<and> starts_with s w) seqs"

function drop_ws :: "string list \<Rightarrow> string \<Rightarrow> string" where
  "drop_ws seqs s = (case ws_prefix seqs s of None \<Rightarrow> s | Some w \<Rightarrow> drop_ws seqs (drop (length w) s))"
  by pat_completeness auto
termination
proof (relation "measure (\<lambda>(seqs, s). length s)", goal_cases)
  case (2 seqs s w)
  then have "w \<noteq> []" "take (length w) s = w"
    by (auto simp: ws_prefix_def find_Some_iff starts_with_def)
  then show ?case by (cases s) auto
qed simp

declare drop_ws.simps [simp del]

definition trim_space :: "string \<Rightarrow> string" where
  "trim_space s = rev (drop_ws (map rev ws_seqs) (rev (drop_ws ws_seqs s)))"

text \<open>Trimming leaves no white space at the left end, and nothing to trim is the identity.\<close>

lemma drop_ws_fixed: "ws_prefix seqs (drop_ws seqs s) = None"
proof (induction seqs s rule: drop_ws.induct)
  case (1 seqs s)
  then show ?case
    by (cases "ws_prefix seqs s") (simp_all add: drop_ws.simps [of seqs s])
qed

lemma drop_ws_same: "ws_prefix seqs s = None \<Longrightarrow> drop_ws seqs s = s"
  by (simp add: drop_ws.simps [of seqs s])

lemma drop_ws_idem [simp]: "drop_ws seqs (drop_ws seqs s) = drop_ws seqs s"
  by (simp add: drop_ws_same drop_ws_fixed)

lemma drop_ws_Nil [simp]: "drop_ws seqs [] = []"
  by (rule drop_ws_same) (auto simp: ws_prefix_def find_None_iff starts_with_def)

lemma trim_space_Nil [simp]: "trim_space [] = []"
  by (simp add: trim_space_def)

lemma ws_prefix_first:
  assumes "hd s \<notin> set (map hd seqs)" shows "ws_prefix seqs s = None"
proof -
  have "\<not> (w \<noteq> [] \<and> starts_with s w)" if "w \<in> set seqs" for w
  proof
    assume w: "w \<noteq> [] \<and> starts_with s w"
    then have "hd s = hd w" by (cases w; cases s) (auto simp: starts_with_def)
    with assms that show False by auto
  qed
  then show ?thesis by (auto simp: ws_prefix_def find_None_iff)
qed

text \<open>A string that begins and ends with a plain ASCII character is left alone.\<close>

lemma trim_space_plain:
  assumes "hd s \<notin> set (map hd ws_seqs)" "hd (rev s) \<notin> set (map hd (map rev ws_seqs))"
  shows "trim_space s = s"
  unfolding trim_space_def drop_ws_same [OF ws_prefix_first [OF assms(1)]]
    drop_ws_same [OF ws_prefix_first [OF assms(2)]] by simp

lemma plain_ends:
  "set (map hd ws_seqs) = {CHR 0x09, CHR 0x0A, CHR 0x0B, CHR 0x0C, CHR 0x0D, CHR 0x20, CHR 0xC2, CHR 0xE1, CHR 0xE2, CHR 0xE3}"
  "set (map hd (map rev ws_seqs)) \<inter> {c. (of_char c :: nat) < 128}
     = {CHR 0x09, CHR 0x0A, CHR 0x0B, CHR 0x0C, CHR 0x0D, CHR 0x20}"
  by (auto simp: ws_seqs_def)

lemma trim_space_word:
  assumes "s \<noteq> []" "32 < (of_char (hd s) :: nat)" "of_char (hd s) < (128 :: nat)"
    "32 < (of_char (last s) :: nat)" "of_char (last s) < (128 :: nat)"
  shows "trim_space s = s"
proof (rule trim_space_plain)
  show "hd s \<notin> set (map hd ws_seqs)" unfolding plain_ends using assms(2,3) by auto
  have "last s \<notin> set (map hd (map rev ws_seqs)) \<inter> {c. (of_char c :: nat) < 128}"
    unfolding plain_ends using assms(4,5) by auto
  with assms(1,5) show "hd (rev s) \<notin> set (map hd (map rev ws_seqs))" by (simp add: hd_rev)
qed

section \<open>Runes\<close>

definition cont :: "char \<Rightarrow> bool" where
  "cont c = (128 \<le> (of_char c :: nat) \<and> of_char c < (192 :: nat))"

definition rune_error :: nat where
  "rune_error = 0xFFFD"

text \<open>\<open>utf8.DecodeRuneInString\<close>: the first rune and its width, \<open>(RuneError, 1)\<close> for a byte no encoding starts.\<close>

definition decode_rune :: "char \<Rightarrow> string \<Rightarrow> nat \<times> nat" where
  "decode_rune c s =
     (let b = of_char c :: nat; at = (\<lambda>k. of_char (s ! k) :: nat) in
      if b < 0x80 then (b, 1)
      else if 0xC2 \<le> b \<and> b \<le> 0xDF \<and> length s \<ge> 1 \<and> cont (s ! 0)
        then ((b - 0xC0) * 64 + (at 0 - 0x80), 2)
      else if 0xE0 \<le> b \<and> b \<le> 0xEF \<and> length s \<ge> 2 \<and> cont (s ! 0) \<and> cont (s ! 1)
          \<and> (b = 0xE0 \<longrightarrow> at 0 \<ge> 0xA0) \<and> (b = 0xED \<longrightarrow> at 0 \<le> 0x9F)
        then ((b - 0xE0) * 4096 + (at 0 - 0x80) * 64 + (at 1 - 0x80), 3)
      else if 0xF0 \<le> b \<and> b \<le> 0xF4 \<and> length s \<ge> 3 \<and> cont (s ! 0) \<and> cont (s ! 1) \<and> cont (s ! 2)
          \<and> (b = 0xF0 \<longrightarrow> at 0 \<ge> 0x90) \<and> (b = 0xF4 \<longrightarrow> at 0 \<le> 0x8F)
        then ((b - 0xF0) * 262144 + (at 0 - 0x80) * 4096 + (at 1 - 0x80) * 64 + (at 2 - 0x80), 4)
      else (rune_error, 1))"

lemma decode_rune_width: "1 \<le> snd (decode_rune c s)" "snd (decode_rune c s) \<le> 1 + length s"
  by (auto simp: decode_rune_def Let_def)

function runes :: "string \<Rightarrow> nat list" where
  "runes [] = []"
| "runes (c # s) = fst (decode_rune c s) # runes (drop (snd (decode_rune c s) - 1) s)"
  by pat_completeness auto
termination
  by (relation "measure length") (auto simp: le_imp_less_Suc)

definition rune_count :: "string \<Rightarrow> nat" where
  "rune_count s = length (runes s)"

definition encode_rune :: "nat \<Rightarrow> string" where
  "encode_rune r =
     (if r < 0x80 then [char_of r]
      else if r < 0x800 then [char_of (0xC0 + r div 64), char_of (0x80 + r mod 64)]
      else if r < 0x10000 \<and> \<not> (0xD800 \<le> r \<and> r \<le> 0xDFFF) then
        [char_of (0xE0 + r div 4096), char_of (0x80 + r div 64 mod 64), char_of (0x80 + r mod 64)]
      else if 0x10000 \<le> r \<and> r \<le> 0x10FFFF then
        [char_of (0xF0 + r div 262144), char_of (0x80 + r div 4096 mod 64),
         char_of (0x80 + r div 64 mod 64), char_of (0x80 + r mod 64)]
      else [CHR 0xEF, CHR 0xBF, CHR 0xBD])"

definition lower_rune :: "(nat \<Rightarrow> nat) \<Rightarrow> nat \<Rightarrow> nat" where
  "lower_rune uni r = (if r < 128 then (if 65 \<le> r \<and> r \<le> 90 then r + 32 else r) else uni r)"

definition upper_rune :: "(nat \<Rightarrow> nat) \<Rightarrow> nat \<Rightarrow> nat" where
  "upper_rune uni r = (if r < 128 then (if 97 \<le> r \<and> r \<le> 122 then r - 32 else r) else uni r)"

definition map_runes :: "(nat \<Rightarrow> nat) \<Rightarrow> string \<Rightarrow> string" where
  "map_runes f s = concat (map (encode_rune \<circ> f) (runes s))"

definition to_lower :: "(nat \<Rightarrow> nat) \<Rightarrow> string \<Rightarrow> string" where
  "to_lower uni s = map_runes (lower_rune uni) s"

definition to_upper :: "(nat \<Rightarrow> nat) \<Rightarrow> string \<Rightarrow> string" where
  "to_upper uni s = map_runes (upper_rune uni) s"

text \<open>On ASCII text a rune is a byte.\<close>

definition ascii :: "string \<Rightarrow> bool" where
  "ascii s = list_all (\<lambda>c. (of_char c :: nat) < 128) s"

lemma runes_ascii: "ascii s \<Longrightarrow> runes s = map of_char s"
  by (induction s) (simp_all add: ascii_def decode_rune_def)

lemma rune_count_ascii: "ascii s \<Longrightarrow> rune_count s = length s"
  by (simp add: rune_count_def runes_ascii)

lemma to_lower_ascii: "ascii s \<Longrightarrow> to_lower uni s
    = map (\<lambda>c. if 65 \<le> (of_char c :: nat) \<and> of_char c \<le> (90 :: nat) then char_of (of_char c + 32 :: nat) else c) s"
  by (induction s) (auto simp: to_lower_def map_runes_def runes_ascii lower_rune_def encode_rune_def ascii_def decode_rune_def)

lemma to_upper_ascii: "ascii s \<Longrightarrow> to_upper uni s
    = map (\<lambda>c. if 97 \<le> (of_char c :: nat) \<and> of_char c \<le> (122 :: nat) then char_of (of_char c - 32 :: nat) else c) s"
  by (induction s) (auto simp: to_upper_def map_runes_def runes_ascii upper_rune_def encode_rune_def ascii_def decode_rune_def)

lemma rune_count_le: "rune_count s \<le> length s"
  unfolding rune_count_def
proof (induction s rule: runes.induct)
  case (2 c s)
  have "length (drop (snd (decode_rune c s) - 1) s) \<le> length s" by simp
  with 2 show ?case using le_trans by fastforce
qed simp

text \<open>A rune below 128 is one byte, so text of such runes is ASCII.\<close>

lemma decode_rune_small: "fst (decode_rune c s) < 128 \<Longrightarrow> (of_char c :: nat) < 128"
proof (rule ccontr)
  assume small: "fst (decode_rune c s) < 128" and big: "\<not> (of_char c :: nat) < 128"
  let ?b = "of_char c :: nat"
  have two: "128 \<le> (?b - 0xC0) * 64 + n" if "0xC2 \<le> ?b" for n using that by simp
  have three: "128 \<le> (?b - 0xE0) * 4096 + (a - 0x80) * 64 + n" if "0xE0 \<le> ?b" "?b = 0xE0 \<longrightarrow> a \<ge> 0xA0" for a n
    using that by (cases "?b = 0xE0") simp_all
  have four: "128 \<le> (?b - 0xF0) * 262144 + (a - 0x80) * 4096 + m + n" if "0xF0 \<le> ?b" "?b = 0xF0 \<longrightarrow> a \<ge> 0x90" for a m n
    using that by (cases "?b = 0xF0") simp_all
  have "128 \<le> fst (decode_rune c s)"
    unfolding decode_rune_def Let_def using big two three four by (simp add: rune_error_def)
  with small show False by simp
qed

lemma decode_rune_ascii: "(of_char c :: nat) < 128 \<Longrightarrow> decode_rune c s = (of_char c, 1)"
  by (simp add: decode_rune_def)

lemma ascii_of_runes: "\<not> list_ex (\<lambda>r. 128 \<le> r) (runes s) \<Longrightarrow> ascii s"
proof (induction s rule: runes.induct)
  case (2 c s)
  then have c: "(of_char c :: nat) < 128" using decode_rune_small [of c s] by simp
  with 2 show ?case by (simp add: decode_rune_ascii ascii_def)
qed (simp add: ascii_def)

text \<open>\<open>utf8.ValidString\<close>: no byte decodes to an error of width one.\<close>

function valid_utf8 :: "string \<Rightarrow> bool" where
  "valid_utf8 [] = True"
| "valid_utf8 (c # s) = (decode_rune c s \<noteq> (rune_error, 1) \<and> valid_utf8 (drop (snd (decode_rune c s) - 1) s))"
  by pat_completeness auto
termination
  by (relation "measure length") (auto simp: le_imp_less_Suc)

lemma valid_utf8_ascii: "ascii s \<Longrightarrow> valid_utf8 s"
  by (induction s) (simp_all add: ascii_def decode_rune_def rune_error_def)

text \<open>Evaluation reads the top bit of a byte before it decodes.\<close>

lemma of_char_digit7: "(of_char c :: nat) < 128 \<longleftrightarrow> \<not> digit7 c"
  by (cases c) (auto simp: of_char_def)

lemma valid_utf8_code [code]:
  "valid_utf8 [] = True"
  "valid_utf8 (c # s) = (if digit7 c then decode_rune c s \<noteq> (rune_error, 1) \<and> valid_utf8 (drop (snd (decode_rune c s) - 1) s) else valid_utf8 s)"
proof -
  show "valid_utf8 (c # s) = (if digit7 c then decode_rune c s \<noteq> (rune_error, 1) \<and> valid_utf8 (drop (snd (decode_rune c s) - 1) s) else valid_utf8 s)"
    using of_char_digit7 [of c] by (cases "digit7 c") (simp_all add: decode_rune_ascii rune_error_def)
qed simp

end
