(* ===== verification/Provider.thy ===== *)
theory Provider
  imports Go_Time Go_String
begin

text \<open>
  The billing vocabulary, \<open>internal/core/billing/provider.go\<close>: subscription states as
  words (a word pug does not know is kept verbatim and is never live), a delivery, the event
  it normalizes to, and the wiring of a provider. The provider's own answers are arguments
  of the operations that use them.
\<close>

section \<open>Subscription states\<close>

type_synonym sub_status = string

definition SubStatusActive :: sub_status where "SubStatusActive = ''active''"
definition SubStatusPastDue :: sub_status where "SubStatusPastDue = ''past_due''"
definition SubStatusPaused :: sub_status where "SubStatusPaused = ''paused''"
definition SubStatusCancelled :: sub_status where "SubStatusCancelled = ''cancelled''"
definition SubStatusExpired :: sub_status where "SubStatusExpired = ''expired''"
definition SubStatusFailed :: sub_status where "SubStatusFailed = ''failed''"

lemmas sub_status_defs = SubStatusActive_def SubStatusPastDue_def SubStatusPaused_def
  SubStatusCancelled_def SubStatusExpired_def SubStatusFailed_def

definition live :: "sub_status \<Rightarrow> bool" where
  "live s = (if s = SubStatusActive \<or> s = SubStatusPastDue then True
             else if s \<in> {SubStatusPaused, SubStatusCancelled, SubStatusExpired, SubStatusFailed} then False
             else False)"

definition all_sub_statuses :: "sub_status list" where
  "all_sub_statuses = [SubStatusActive, SubStatusPastDue, SubStatusPaused,
     SubStatusCancelled, SubStatusExpired, SubStatusFailed]"

definition parse_sub_status :: "string \<Rightarrow> sub_status option" where
  "parse_sub_status v = (if v \<in> {SubStatusActive, SubStatusPastDue, SubStatusPaused, SubStatusCancelled,
                               SubStatusExpired, SubStatusFailed}
                         then Some v else None)"

lemma live_iff: "live s \<longleftrightarrow> s = ''active'' \<or> s = ''past_due''"
  by (auto simp: live_def sub_status_defs)

lemma live_parses: "live s \<Longrightarrow> parse_sub_status s = Some s"
  by (auto simp: live_iff parse_sub_status_def sub_status_defs)

lemma parse_iff: "parse_sub_status v = Some s \<longleftrightarrow> s = v \<and> v \<in> set all_sub_statuses"
  by (auto simp: parse_sub_status_def all_sub_statuses_def)

section \<open>Deliveries and events\<close>

definition USD :: string where
  "USD = ''USD''"

record delivery =
  dl_webhook_id :: string
  dl_event_type :: string
  dl_payload :: string
  dl_delivered_at :: time

record sub_event =
  ev_sub :: string
  ev_customer :: string
  ev_product :: string
  ev_org :: string
  ev_ref :: string
  ev_status :: sub_status
  ev_provider_status :: string
  ev_price :: int
  ev_currency :: string
  ev_start :: time
  ev_end :: time
  ev_grace :: time
  ev_grace_known :: bool
  ev_grace_issue :: string

definition zero_event :: sub_event where
  "zero_event = \<lparr>ev_sub = [], ev_customer = [], ev_product = [], ev_org = [], ev_ref = [], ev_status = [],
     ev_provider_status = [], ev_price = 0, ev_currency = [], ev_start = zero_time, ev_end = zero_time,
     ev_grace = zero_time, ev_grace_known = False, ev_grace_issue = []\<rparr>"

definition event_is_zero :: "sub_event \<Rightarrow> bool" where
  "event_is_zero e = (ev_sub e = [])"

section \<open>Wiring\<close>

text \<open>\<open>billing.Config\<close>, and \<open>Payments\<close> with what the model needs of it; \<open>None\<close> is the nil wiring.\<close>

record billing_config =
  cfg_enabled :: bool
  cfg_retention_days :: int

record payments =
  pay_name :: string
  pay_products :: "(string \<times> string) list"
  pay_return_url :: string
  pay_meters :: bool

definition configured :: "payments option \<Rightarrow> bool" where
  "configured p = (p \<noteq> None)"

end
