(* ===== verification/Dodo_Normalize.thy ===== *)
theory Dodo_Normalize
  imports Provider
begin

text \<open>
  \<open>internal/deps/dodo/normalize.go\<close>: one provider's payload mapped onto the vocabulary.
  The payload is a JSON tree, decoded as \<open>encoding/json\<close> decodes it into the code's
  structs: entries in order, keys matched up to case, a wrong type an error. The text parser
  of JSON and of RFC 3339 times are arguments.
\<close>

section \<open>Decoding\<close>

datatype json =
    JNull | JBool bool | JInt int | JReal string | JStr string | JArr "json list"
  | JObj "(string \<times> json) list"

datatype normalize_error =
    BadEnvelope | BadPayload | NoSubscriptionId

definition fold_rune :: "nat \<Rightarrow> nat" where
  "fold_rune r = (if 65 \<le> r \<and> r \<le> 90 then r + 32 else if r = 0x17F then 115 else if r = 0x212A then 107 else r)"

definition key_eq :: "string \<Rightarrow> string \<Rightarrow> bool" where
  "key_eq k name = (map fold_rune (runes k) = map fold_rune (runes name))"

text \<open>
  \<open>metadata.UnmarshalJSON\<close> keeps the string values; a later entry wins, and a value that is
  not a string reads like a missing key, as the empty string.
\<close>

fun metadata_of :: "json \<Rightarrow> (string \<times> string) list option" where
  "metadata_of (JObj kvs) =
     Some (map (\<lambda>(k, v). (k, case v of JStr s \<Rightarrow> s | _ \<Rightarrow> [])) (rev kvs))"
| "metadata_of JNull = Some []"
| "metadata_of _ = None"

definition meta :: "(string \<times> string) list \<Rightarrow> string \<Rightarrow> string" where
  "meta m k = (case map_of m k of None \<Rightarrow> [] | Some v \<Rightarrow> v)"

text \<open>\<open>presentJSON\<close>: \<open>None\<close> for a key that was not sent.\<close>

type_synonym present_json = "json option"

record sub_payload =
  sp_currency :: string
  sp_customer_id :: string
  sp_metadata :: "(string \<times> string) list"
  sp_next :: "time option"
  sp_grace :: present_json
  sp_previous :: "time option"
  sp_product :: string
  sp_amount :: int
  sp_status :: string
  sp_sub :: string

definition empty_payload :: sub_payload where
  "empty_payload = \<lparr>sp_currency = [], sp_customer_id = [], sp_metadata = [], sp_next = None, sp_grace = None,
     sp_previous = None, sp_product = [], sp_amount = 0, sp_status = [], sp_sub = []\<rparr>"

text \<open>Decoding into a field: null leaves a string or number alone and empties a pointer.\<close>

fun into_string :: "json \<Rightarrow> string \<Rightarrow> string option" where
  "into_string (JStr s) old = Some s"
| "into_string JNull old = Some old"
| "into_string _ old = None"

fun into_int64 :: "json \<Rightarrow> int \<Rightarrow> int option" where
  "into_int64 (JInt i) old = (if - (2 ^ 63) \<le> i \<and> i < 2 ^ 63 then Some i else None)"
| "into_int64 JNull old = Some old"
| "into_int64 _ old = None"

fun into_time_ptr :: "(string \<Rightarrow> time option) \<Rightarrow> json \<Rightarrow> time option option" where
  "into_time_ptr rfc (JStr s) = map_option Some (rfc s)"
| "into_time_ptr rfc JNull = Some None"
| "into_time_ptr rfc _ = None"

fun into_customer :: "json \<Rightarrow> string \<Rightarrow> string option" where
  "into_customer (JObj kvs) old =
     fold (\<lambda>(k, v) acc. case acc of None \<Rightarrow> None
            | Some c \<Rightarrow> if key_eq k ''customer_id'' then into_string v c else Some c) kvs (Some old)"
| "into_customer JNull old = Some old"
| "into_customer _ old = None"

definition decode_entry :: "(string \<Rightarrow> time option) \<Rightarrow> string \<times> json \<Rightarrow> sub_payload \<Rightarrow> sub_payload option" where
  "decode_entry rfc kv p =
     (let (k, v) = kv in
      if key_eq k ''currency'' then map_option (\<lambda>x. p\<lparr>sp_currency := x\<rparr>) (into_string v (sp_currency p))
      else if key_eq k ''customer'' then map_option (\<lambda>x. p\<lparr>sp_customer_id := x\<rparr>) (into_customer v (sp_customer_id p))
      else if key_eq k ''metadata'' then map_option (\<lambda>x. p\<lparr>sp_metadata := x\<rparr>) (metadata_of v)
      else if key_eq k ''next_billing_date'' then map_option (\<lambda>x. p\<lparr>sp_next := x\<rparr>) (into_time_ptr rfc v)
      else if key_eq k ''past_due_ends_at'' then Some (p\<lparr>sp_grace := Some v\<rparr>)
      else if key_eq k ''previous_billing_date'' then map_option (\<lambda>x. p\<lparr>sp_previous := x\<rparr>) (into_time_ptr rfc v)
      else if key_eq k ''product_id'' then map_option (\<lambda>x. p\<lparr>sp_product := x\<rparr>) (into_string v (sp_product p))
      else if key_eq k ''recurring_pre_tax_amount'' then map_option (\<lambda>x. p\<lparr>sp_amount := x\<rparr>) (into_int64 v (sp_amount p))
      else if key_eq k ''status'' then map_option (\<lambda>x. p\<lparr>sp_status := x\<rparr>) (into_string v (sp_status p))
      else if key_eq k ''subscription_id'' then map_option (\<lambda>x. p\<lparr>sp_sub := x\<rparr>) (into_string v (sp_sub p))
      else Some p)"

fun decode_payload :: "(string \<Rightarrow> time option) \<Rightarrow> json \<Rightarrow> sub_payload option" where
  "decode_payload rfc (JObj kvs) =
     fold (\<lambda>kv acc. case acc of None \<Rightarrow> None | Some p \<Rightarrow> decode_entry rfc kv p) kvs (Some empty_payload)"
| "decode_payload rfc JNull = Some empty_payload"
| "decode_payload rfc _ = None"

text \<open>
  \<open>decodeEnvelope\<close>: the envelope's type and its raw data, \<open>None\<close> for no data, which
  fails to decode as a payload.
\<close>

record envelope =
  env_type :: string
  env_data :: "json option"

fun decode_envelope :: "json \<Rightarrow> envelope option" where
  "decode_envelope (JObj kvs) =
     fold (\<lambda>(k, v) acc. case acc of None \<Rightarrow> None
            | Some e \<Rightarrow> if key_eq k ''data'' then Some (e\<lparr>env_data := Some v\<rparr>)
                        else if key_eq k ''type'' then map_option (\<lambda>x. e\<lparr>env_type := x\<rparr>) (into_string v (env_type e))
                        else Some e) kvs (Some \<lparr>env_type = [], env_data = None\<rparr>)"
| "decode_envelope JNull = Some \<lparr>env_type = [], env_data = None\<rparr>"
| "decode_envelope _ = None"

section \<open>Normalizing\<close>

definition grace_deadline_slack :: duration where
  "grace_deadline_slack = hour"

definition grace_deadline_horizon :: duration where
  "grace_deadline_horizon = 366 * 24 * hour"

definition status_from_dodo :: "(nat \<Rightarrow> nat) \<Rightarrow> string \<Rightarrow> sub_status" where
  "status_from_dodo uni status =
     (let raw = to_lower uni (trim_space status) in
      if raw = ''active'' then SubStatusActive
      else if raw = ''on_hold'' \<or> raw = ''past_due'' then SubStatusPastDue
      else if raw = ''paused'' then SubStatusPaused
      else if raw = ''cancelled'' then SubStatusCancelled
      else if raw = ''expired'' then SubStatusExpired
      else if raw = ''failed'' then SubStatusFailed
      else raw)"

definition in_grace_window :: "(nat \<Rightarrow> nat) \<Rightarrow> string \<Rightarrow> bool" where
  "in_grace_window uni status = (to_lower uni (trim_space status) = ''past_due'')"

text \<open>The deadline, or the reason none can be believed; \<open>[]\<close> is no reason.\<close>

definition grace_deadline :: "(string \<Rightarrow> time option) \<Rightarrow> present_json \<Rightarrow> time \<Rightarrow> time \<times> string" where
  "grace_deadline rfc field sent =
     (case field of
        None \<Rightarrow> (zero_time, ''no past_due_ends_at inside a grace window'')
      | Some JNull \<Rightarrow> (zero_time, ''a null past_due_ends_at inside a grace window'')
      | Some (JStr s) \<Rightarrow>
          (case rfc s of
             None \<Rightarrow> (zero_time, ''past_due_ends_at does not parse'')
           | Some at \<Rightarrow>
               if at < sent - grace_deadline_slack \<or> at > sent + grace_deadline_horizon
               then (zero_time, ''past_due_ends_at cannot end a window'')
               else (at, []))
      | Some _ \<Rightarrow> (zero_time, ''past_due_ends_at does not parse''))"

definition event_from_subscription :: "(nat \<Rightarrow> nat) \<Rightarrow> sub_payload \<Rightarrow> sub_event" where
  "event_from_subscription uni p =
     \<lparr>ev_sub = sp_sub p, ev_customer = sp_customer_id p, ev_product = sp_product p,
      ev_org = meta (sp_metadata p) ''org_id'', ev_ref = meta (sp_metadata p) ''checkout_ref'',
      ev_status = status_from_dodo uni (sp_status p), ev_provider_status = sp_status p,
      ev_price = sp_amount p, ev_currency = to_upper uni (trim_space (sp_currency p)),
      ev_start = (case sp_previous p of None \<Rightarrow> zero_time | Some t \<Rightarrow> t),
      ev_end = (case sp_next p of None \<Rightarrow> zero_time | Some t \<Rightarrow> t),
      ev_grace = zero_time, ev_grace_known = (\<not> in_grace_window uni (sp_status p)), ev_grace_issue = []\<rparr>"

definition normalize :: "(string \<Rightarrow> json option) \<Rightarrow> (string \<Rightarrow> time option) \<Rightarrow> (nat \<Rightarrow> nat) \<Rightarrow> delivery
    \<Rightarrow> (normalize_error, sub_event) result" where
  "normalize parse rfc uni d =
     (if \<not> starts_with (dl_event_type d) ''subscription.'' then Inr zero_event
      else case Option.bind (parse (dl_payload d)) decode_envelope of
        None \<Rightarrow> Inl BadEnvelope
      | Some env \<Rightarrow>
          (case Option.bind (env_data env) (decode_payload rfc) of
             None \<Rightarrow> Inl BadPayload
           | Some payload \<Rightarrow>
               (let event = event_from_subscription uni payload in
                if event_is_zero event then Inl NoSubscriptionId
                else if in_grace_window uni (sp_status payload) then
                  (let (at, issue) = grace_deadline rfc (sp_grace payload) (dl_delivered_at d)
                   in Inr (event\<lparr>ev_grace := at, ev_grace_issue := issue, ev_grace_known := (issue = [])\<rparr>))
                else if sp_grace payload \<noteq> None \<and> sp_grace payload \<noteq> Some JNull then
                  Inr (event\<lparr>ev_grace_issue := ''past_due_ends_at sent outside a grace window, in '' @ sp_status payload\<rparr>)
                else Inr event)))"

section \<open>Properties\<close>

lemma live_status_from_dodo:
  "live (status_from_dodo uni w) \<longleftrightarrow> to_lower uni (trim_space w) \<in> {''active'', ''on_hold'', ''past_due''}"
  by (auto simp: status_from_dodo_def Let_def live_iff sub_status_defs)

lemma grace_deadline_believed:
  "grace_deadline rfc field sent = (at, []) \<Longrightarrow>
     \<exists>w. field = Some (JStr w) \<and> rfc w = Some at \<and> sent - hour \<le> at \<and> at \<le> sent + 366 * day_ns"
  by (auto simp: grace_deadline_def grace_deadline_slack_def grace_deadline_horizon_def day_ns_def
      split: option.splits json.splits if_splits)

lemma grace_deadline_refused: "issue \<noteq> [] \<Longrightarrow> grace_deadline rfc field sent = (at, issue) \<Longrightarrow> at = zero_time"
  by (auto simp: grace_deadline_def split: option.splits json.splits if_splits)

text \<open>
  A normalized delivery never claims more than the provider said: its state is live only
  for one of the three words that spell one, a grace deadline is stored only inside the
  provider's own past_due and within an hour before to a year after the delivery, and
  outside that window the event says there is none.
\<close>

theorem normalize_never_overstates:
  assumes "normalize parse rfc uni d = Inr e" "\<not> event_is_zero e"
  shows "(live (ev_status e) \<longrightarrow>
        to_lower uni (trim_space (ev_provider_status e)) \<in> {''active'', ''on_hold'', ''past_due''})
     \<and> (ev_grace e \<noteq> zero_time \<longrightarrow> in_grace_window uni (ev_provider_status e) \<and> ev_grace_known e
          \<and> dl_delivered_at d - hour \<le> ev_grace e \<and> ev_grace e \<le> dl_delivered_at d + 366 * day_ns)
     \<and> (\<not> in_grace_window uni (ev_provider_status e) \<longrightarrow> ev_grace_known e \<and> ev_grace e = zero_time)
     \<and> starts_with (dl_event_type d) ''subscription.''"
proof -
  obtain env p where prefix: "starts_with (dl_event_type d) ''subscription.''"
    and env: "Option.bind (parse (dl_payload d)) decode_envelope = Some env"
    and pay: "Option.bind (env_data env) (decode_payload rfc) = Some p"
    using assms by (auto simp: normalize_def event_is_zero_def zero_event_def split: if_splits option.splits)
  define ev0 where "ev0 = event_from_subscription uni p"
  have ev0: "ev_status ev0 = status_from_dodo uni (ev_provider_status ev0)" "ev_grace ev0 = zero_time"
    "ev_grace_known ev0 = (\<not> in_grace_window uni (ev_provider_status ev0))" "ev_provider_status ev0 = sp_status p"
    by (simp_all add: ev0_def event_from_subscription_def)
  obtain at issue where g: "grace_deadline rfc (sp_grace p) (dl_delivered_at d) = (at, issue)"
    by (cases "grace_deadline rfc (sp_grace p) (dl_delivered_at d)")
  define issue' where "issue' = ''past_due_ends_at sent outside a grace window, in '' @ sp_status p"
  define e' where "e' = (if in_grace_window uni (sp_status p)
             then ev0\<lparr>ev_grace := at, ev_grace_issue := issue, ev_grace_known := (issue = [])\<rparr>
             else if sp_grace p \<noteq> None \<and> sp_grace p \<noteq> Some JNull then ev0\<lparr>ev_grace_issue := issue'\<rparr>
             else ev0)"
  have "normalize parse rfc uni d = (if event_is_zero ev0 then Inl NoSubscriptionId else Inr e')"
    unfolding normalize_def e'_def issue'_def using prefix env pay g by (simp add: ev0_def)
  with assms(1) have "e = e'" by (simp split: if_splits)
  then show ?thesis
    using prefix ev0 g grace_deadline_believed [of rfc "sp_grace p" "dl_delivered_at d" at]
      grace_deadline_refused [of issue rfc "sp_grace p" "dl_delivered_at d" at]
    by (auto simp: e'_def live_status_from_dodo split: if_splits)
qed

lemma key_eq_refl [simp]: "key_eq k k"
  by (simp add: key_eq_def)

lemma key_eq_ascii_length: "length k \<noteq> length n \<Longrightarrow> ascii k \<Longrightarrow> ascii n \<Longrightarrow> \<not> key_eq k n"
  by (auto simp: key_eq_def runes_ascii dest: map_eq_imp_length_eq)

theorem normalize_never_overstates_witness:
  "\<exists>e. normalize (\<lambda>t. Some (JObj [(''data'', JObj [(''subscription_id'', JStr ''s''), (''status'', JStr ''active'')])]))
        (\<lambda>t. None) id \<lparr>dl_webhook_id = ''w'', dl_event_type = ''subscription.active'', dl_payload = [], dl_delivered_at = 0\<rparr>
      = Inr e \<and> live (ev_status e) \<and> ev_grace_known e"
proof -
  let ?d = "\<lparr>dl_webhook_id = ''w'', dl_event_type = ''subscription.active'', dl_payload = [], dl_delivered_at = 0\<rparr>"
  let ?parse = "\<lambda>t. Some (JObj [(''data'', JObj [(''subscription_id'', JStr ''s''), (''status'', JStr ''active'')])])"
  define p where "p = empty_payload\<lparr>sp_sub := ''s'', sp_status := ''active''\<rparr>"
  have w: "to_lower id (trim_space ''active'') = ''active''"
    by (subst trim_space_word) (simp_all add: to_lower_ascii ascii_def)
  have payload: "decode_payload (\<lambda>t. None) (JObj [(''subscription_id'', JStr ''s''), (''status'', JStr ''active'')]) = Some p"
    by (simp add: decode_entry_def key_eq_ascii_length ascii_def p_def empty_payload_def)
  have n: "normalize ?parse (\<lambda>t. None) id ?d = Inr (event_from_subscription id p)"
    using w payload by (simp add: normalize_def starts_with_def event_is_zero_def event_from_subscription_def
        in_grace_window_def p_def empty_payload_def)
  have "live (ev_status (event_from_subscription id p))" "\<not> event_is_zero (event_from_subscription id p)"
    and out: "\<not> in_grace_window id (ev_provider_status (event_from_subscription id p))"
    using w by (simp_all add: event_from_subscription_def p_def live_status_from_dodo event_is_zero_def in_grace_window_def)
  with n normalize_never_overstates [OF n] show ?thesis by blast
qed

end
