(* ===== verification/Plans.thy ===== *)
theory Plans
  imports Provider
begin

text \<open>
  The usage-plan catalog, \<open>internal/core/billing/entitlement/plans.go\<close>. The functions take
  the catalog as an argument, so what is proved of them holds after a reprice too; the
  catalog of this commit is \<open>catalog\<close>. A panic is \<open>None\<close>.
\<close>

record plan =
  pl_slug :: string
  pl_name :: string
  pl_free :: int
  pl_tiers :: "int list"
  pl_retention :: int
  pl_retired :: bool

definition plan_tiers :: "plan \<Rightarrow> nat" where
  "plan_tiers p = length (pl_tiers p) + 1"

definition on_sale :: "plan \<Rightarrow> bool" where
  "on_sale p = (\<not> pl_retired p)"

definition slug_free :: string where "slug_free = ''free''"
definition slug_custom :: string where "slug_custom = ''custom''"
definition slug_usage :: string where "slug_usage = ''usage-2026-10''"
definition free_display_name :: string where "free_display_name = ''Free''"
definition custom_display_name :: string where "custom_display_name = ''Custom''"

lemmas slug_defs = slug_free_def slug_custom_def slug_usage_def

definition retention_year_days :: int where
  "retention_year_days = 365"

definition free_retention_days :: int where
  "free_retention_days = retention_year_days"

definition catalog :: "plan list" where
  "catalog = [\<lparr>pl_slug = slug_usage, pl_name = ''Pay as you go'', pl_free = 100000,
     pl_tiers = [2000000, 15000000, 50000000, 100000000, 250000000],
     pl_retention = 5 * retention_year_days, pl_retired = False\<rparr>]"

fun plan_by_slug :: "plan list \<Rightarrow> string \<Rightarrow> plan option" where
  "plan_by_slug [] slug = None"
| "plan_by_slug (p # ps) slug = (if pl_slug p = slug then Some p else plan_by_slug ps slug)"

text \<open>\<open>CurrentPlan\<close> walks the catalog backwards; with nothing on sale it panics.\<close>

definition current_plan :: "plan list \<Rightarrow> plan option" where
  "current_plan cat = List.find on_sale (rev cat)"

definition tiers_for :: "plan list \<Rightarrow> string \<Rightarrow> int list option" where
  "tiers_for cat slug = map_option pl_tiers (plan_by_slug cat slug)"

datatype catalog_error = ReservedSlug string | DuplicateSlug string | BadAllowance string | BadBounds string | NothingOnSale

fun rising :: "int \<Rightarrow> int list \<Rightarrow> bool" where
  "rising prev [] = True"
| "rising prev (b # bs) = (if b \<le> prev then False else rising b bs)"

fun validate_from :: "string list \<Rightarrow> bool \<Rightarrow> plan list \<Rightarrow> catalog_error option" where
  "validate_from seen sale [] = (if sale then None else Some NothingOnSale)"
| "validate_from seen sale (p # ps) =
     (if pl_slug p = [] \<or> pl_slug p = slug_free \<or> pl_slug p = slug_custom then Some (ReservedSlug (pl_slug p))
      else if pl_slug p \<in> set seen then Some (DuplicateSlug (pl_slug p))
      else if pl_free p < 0 \<or> pl_retention p \<le> 0 then Some (BadAllowance (pl_slug p))
      else if \<not> rising (pl_free p) (pl_tiers p) then Some (BadBounds (pl_slug p))
      else validate_from (pl_slug p # seen) (sale \<or> on_sale p) ps)"

definition validate_catalog :: "plan list \<Rightarrow> catalog_error option" where
  "validate_catalog plans = validate_from [] False plans"

section \<open>What a validated catalog guarantees\<close>

lemma rising_iff: "rising prev bs \<longleftrightarrow> sorted_wrt (<) (prev # bs)"
proof (induction prev bs rule: rising.induct)
  case (2 prev b bs)
  then show ?case by (auto dest: less_trans)
qed simp

lemma validate_plans:
  "validate_from seen sale ps = None \<Longrightarrow> p \<in> set ps \<Longrightarrow>
     pl_slug p \<notin> {[], slug_free, slug_custom} \<and> pl_slug p \<notin> set seen \<and> 0 \<le> pl_free p \<and> 0 < pl_retention p
     \<and> sorted_wrt (<) (pl_free p # pl_tiers p)"
proof (induction seen sale ps rule: validate_from.induct)
  case (2 seen sale q ps)
  then show ?case unfolding rising_iff [symmetric] by (auto split: if_splits)
qed simp

lemma validate_distinct: "validate_from seen sale ps = None \<Longrightarrow> distinct (map pl_slug ps)"
proof (induction seen sale ps rule: validate_from.induct)
  case (2 seen sale q ps)
  then have rest: "validate_from (pl_slug q # seen) (sale \<or> on_sale q) ps = None" "distinct (map pl_slug ps)"
    by (auto split: if_splits)
  with validate_plans [OF rest(1)] show ?case by fastforce
qed simp

lemma validate_sale: "validate_from seen sale ps = None \<Longrightarrow> sale \<or> (\<exists>p\<in>set ps. on_sale p)"
proof (induction seen sale ps rule: validate_from.induct)
  case (2 seen sale q ps)
  then show ?case by (auto split: if_splits)
qed (simp split: if_splits)

lemma plan_by_slug_mem: "plan_by_slug cat s = Some p \<Longrightarrow> p \<in> set cat \<and> pl_slug p = s"
  by (induction cat s rule: plan_by_slug.induct) (auto split: if_splits)

lemma plan_by_slug_self:
  "validate_catalog cat = None \<Longrightarrow> p \<in> set cat \<Longrightarrow> plan_by_slug cat (pl_slug p) = Some p"
proof -
  have "distinct (map pl_slug ps) \<Longrightarrow> p \<in> set ps \<Longrightarrow> plan_by_slug ps (pl_slug p) = Some p" for ps
    by (induction ps) auto
  then show "validate_catalog cat = None \<Longrightarrow> p \<in> set cat \<Longrightarrow> plan_by_slug cat (pl_slug p) = Some p"
    by (simp add: validate_catalog_def validate_distinct)
qed

lemma plan_by_slug_states:
  assumes "validate_catalog cat = None"
  shows "plan_by_slug cat slug_free = None" "plan_by_slug cat slug_custom = None" "plan_by_slug cat [] = None"
  using assms plan_by_slug_mem [of cat] validate_plans [of "[]" False cat]
  by (auto simp: validate_catalog_def) (metis option.exhaust)+

lemma plan_by_slug_ok:
  "validate_catalog cat = None \<Longrightarrow> plan_by_slug cat s = Some p \<Longrightarrow> 0 \<le> pl_free p \<and> 0 < pl_retention p
     \<and> s \<noteq> slug_free \<and> s \<noteq> slug_custom \<and> s \<noteq> []"
  using plan_by_slug_mem [of cat s p] validate_plans [of "[]" False cat p] by (auto simp: validate_catalog_def)

lemma current_plan_some:
  assumes "validate_catalog cat = None"
  shows "\<exists>p. current_plan cat = Some p \<and> p \<in> set cat \<and> on_sale p"
proof -
  have "List.find on_sale (rev cat) \<noteq> None"
    using validate_sale [of "[]" False cat] assms by (auto simp: validate_catalog_def find_None_iff)
  then obtain p where "List.find on_sale (rev cat) = Some p" by blast
  then show ?thesis using nth_mem [of _ "rev cat"] by (auto simp: current_plan_def find_Some_iff)
qed

lemma current_plan_slug:
  "validate_catalog cat = None \<Longrightarrow> current_plan cat = Some p \<Longrightarrow>
     pl_slug p \<noteq> [] \<and> pl_slug p \<noteq> slug_free \<and> pl_slug p \<noteq> slug_custom \<and> plan_by_slug cat (pl_slug p) = Some p"
  using current_plan_some [of cat] validate_plans [of "[]" False cat p] plan_by_slug_self [of cat p]
  by (auto simp: validate_catalog_def)

lemma catalog_valid: "validate_catalog catalog = None"
  by (simp add: validate_catalog_def catalog_def slug_defs on_sale_def retention_year_days_def)

end
