(* ===== verification/Entitlement.thy ===== *)
theory Entitlement
  imports Plans Usage_Period
begin

text \<open>
  What an org may send: \<open>internal/core/billing/entitlement/resolve.go\<close> and the reading half
  of \<open>subscription.go\<close>. \<open>resolve\<close> is a pure function of the org's creation time, its
  stored record, its live subscription, the clock and the billing switch; \<open>None\<close> is the
  panic of a catalog with nothing on sale.
\<close>

section \<open>The code\<close>

datatype ent_status = StatusActive | StatusFree

definition all_statuses :: "ent_status list" where
  "all_statuses = [StatusActive, StatusFree]"

record ent_record =
  er_present :: bool
  er_anchor_day :: int
  er_contract_ends :: time
  er_display_name :: string
  er_note :: string
  er_plan :: string
  er_product :: string
  er_base_plan :: string
  er_events :: int
  er_retention :: int

definition empty_record :: ent_record where
  "empty_record = \<lparr>er_present = False, er_anchor_day = 0, er_contract_ends = zero_time, er_display_name = [],
     er_note = [], er_plan = [], er_product = [], er_base_plan = [], er_events = 0, er_retention = 0\<rparr>"

record subscription =
  sb_plan :: string
  sb_status :: sub_status
  sb_price :: int
  sb_currency :: string
  sb_customer :: string
  sb_sub :: string
  sb_start :: time
  sb_end :: time
  sb_grace :: time

record entitlement =
  en_slug :: string
  en_name :: string
  en_status :: ent_status
  en_events :: "int option"
  en_retention :: "int option"
  en_tiers :: "int list option"
  en_tier_plan :: string
  en_contract_ends :: time
  en_start :: time
  en_end :: time
  en_enabled :: bool
  en_sub_status :: sub_status
  en_sub_start :: time
  en_sub_end :: time
  en_customer :: string
  en_sub :: string
  en_grace :: time

text \<open>The zero \<open>Entitlement\<close> with its window and switch filled in.\<close>

definition blank_entitlement :: "time \<Rightarrow> time \<Rightarrow> bool \<Rightarrow> entitlement" where
  "blank_entitlement start end' enabled =
     \<lparr>en_slug = [], en_name = [], en_status = StatusFree, en_events = None, en_retention = None, en_tiers = None,
      en_tier_plan = [], en_contract_ends = zero_time, en_start = start, en_end = end', en_enabled = enabled,
      en_sub_status = [], en_sub_start = zero_time, en_sub_end = zero_time, en_customer = [], en_sub = [],
      en_grace = zero_time\<rparr>"

definition from_plan :: "entitlement \<Rightarrow> string \<Rightarrow> string \<Rightarrow> plan \<Rightarrow> ent_status \<Rightarrow> entitlement" where
  "from_plan ent slug name p status =
     ent\<lparr>en_slug := slug, en_name := name, en_status := status, en_events := Some (pl_free p),
         en_retention := Some (pl_retention p), en_tiers := Some (pl_tiers p), en_tier_plan := pl_slug p\<rparr>"

text \<open>The entitlement and whether a plan was resolved.\<close>

definition resolve_plan :: "plan list \<Rightarrow> entitlement \<Rightarrow> ent_record \<Rightarrow> subscription option \<Rightarrow> (entitlement \<times> bool) option" where
  "resolve_plan cat ent rec sub =
     (case sub of
        None \<Rightarrow>
          (case current_plan cat of
             None \<Rightarrow> None
           | Some p \<Rightarrow> Some ((from_plan ent slug_free free_display_name p StatusFree)
               \<lparr>en_tiers := None, en_tier_plan := [], en_retention := Some free_retention_days\<rparr>, True))
      | Some s \<Rightarrow>
          if sb_plan s = slug_custom then
            (case plan_by_slug cat (er_base_plan rec) of
               Some p \<Rightarrow> Some (from_plan ent slug_custom custom_display_name p StatusActive, True)
             | None \<Rightarrow> Some (ent\<lparr>en_slug := slug_custom, en_name := custom_display_name, en_status := StatusActive\<rparr>, False))
          else
            (case plan_by_slug cat (sb_plan s) of
               Some p \<Rightarrow> Some (from_plan ent (pl_slug p) (pl_name p) p StatusActive, True)
             | None \<Rightarrow> Some (ent\<lparr>en_slug := sb_plan s, en_name := sb_plan s, en_status := StatusActive\<rparr>, False)))"

definition contract_lapsed :: "ent_record \<Rightarrow> time \<Rightarrow> bool" where
  "contract_lapsed rec now = (\<not> is_zero_time (er_contract_ends rec) \<and> \<not> now < er_contract_ends rec)"

definition apply_overrides :: "entitlement \<Rightarrow> ent_record \<Rightarrow> subscription option \<Rightarrow> time \<Rightarrow> entitlement" where
  "apply_overrides ent rec sub now =
     (let live_deal = (case sub of None \<Rightarrow> False | Some s \<Rightarrow> sb_plan s = slug_custom) in
      if \<not> er_present rec then ent
      else if er_plan rec = slug_custom \<and> \<not> live_deal then ent
      else if contract_lapsed rec now \<and> \<not> live_deal then ent
      else let ent1 = (if er_events rec > 0 then ent\<lparr>en_events := Some (er_events rec)\<rparr> else ent)
           in if er_display_name rec \<noteq> [] then ent1\<lparr>en_name := er_display_name rec\<rparr> else ent1)"

definition retention_days :: "ent_record \<Rightarrow> int option \<Rightarrow> billing_config \<Rightarrow> int option" where
  "retention_days rec plan_days cfg =
     (if er_retention rec > 0 then Some (er_retention rec)
      else if cfg_enabled cfg then plan_days
      else if cfg_retention_days cfg > 0 then Some (cfg_retention_days cfg)
      else None)"

definition with_subscription :: "entitlement \<Rightarrow> subscription \<Rightarrow> entitlement" where
  "with_subscription ent s =
     (let ent1 = ent\<lparr>en_sub_status := sb_status s, en_sub_start := sb_start s, en_sub_end := sb_end s,
                     en_customer := sb_customer s, en_sub := sb_sub s\<rparr>
      in if sb_status s = SubStatusPastDue then ent1\<lparr>en_grace := sb_grace s\<rparr> else ent1)"

definition resolve :: "plan list \<Rightarrow> time \<Rightarrow> ent_record \<Rightarrow> subscription option \<Rightarrow> time \<Rightarrow> billing_config \<Rightarrow> entitlement option" where
  "resolve cat org_create_time rec0 sub0 now cfg =
     (let rec = (if \<not> er_present rec0 then empty_record else rec0);
          sub = (case sub0 of Some s \<Rightarrow> if \<not> live (sb_status s) then None else Some s | None \<Rightarrow> None);
          (start, end') = period_for now (anchor_day org_create_time (er_anchor_day rec));
          ent = blank_entitlement start end' (cfg_enabled cfg)
      in if \<not> cfg_enabled cfg then
           Some (ent\<lparr>en_slug := slug_free, en_name := free_display_name, en_status := StatusFree,
                     en_retention := retention_days rec None cfg\<rparr>)
         else let ent1 = (case sub of None \<Rightarrow> ent | Some s \<Rightarrow> with_subscription ent s)
              in case resolve_plan cat ent1 rec sub of
                   None \<Rightarrow> None
                 | Some (ent2, resolved) \<Rightarrow>
                     (let ent3 = ent2\<lparr>en_contract_ends := er_contract_ends rec\<rparr>;
                          ent4 = (if resolved then apply_overrides ent3 rec sub now else ent3)
                      in Some (ent4\<lparr>en_retention := retention_days rec (en_retention ent4) cfg\<rparr>)))"

text \<open>The last day a deal runs, as an instant; \<open>(y, m, d)\<close> is its date in the operator's zone.\<close>

definition contract_end_exclusive :: "int \<Rightarrow> int \<Rightarrow> int \<Rightarrow> time" where
  "contract_end_exclusive y m d = go_date y m (d + 1)"

section \<open>Laws\<close>

lemma from_plan_fields [simp]:
  "en_slug (from_plan e sl n p st) = sl" "en_name (from_plan e sl n p st) = n"
  "en_status (from_plan e sl n p st) = st" "en_events (from_plan e sl n p st) = Some (pl_free p)"
  "en_tiers (from_plan e sl n p st) = Some (pl_tiers p)" "en_tier_plan (from_plan e sl n p st) = pl_slug p"
  "en_retention (from_plan e sl n p st) = Some (pl_retention p)"
  "en_grace (from_plan e sl n p st) = en_grace e" "en_sub (from_plan e sl n p st) = en_sub e"
  "en_sub_status (from_plan e sl n p st) = en_sub_status e" "en_start (from_plan e sl n p st) = en_start e"
  "en_end (from_plan e sl n p st) = en_end e" "en_customer (from_plan e sl n p st) = en_customer e"
  by (simp_all add: from_plan_def)

text \<open>When the row's allowance and name are the org's.\<close>

definition overrides_held :: "ent_record \<Rightarrow> subscription option \<Rightarrow> time \<Rightarrow> bool" where
  "overrides_held rec sub now =
     (er_present rec \<and> ((\<exists>s. sub = Some s \<and> sb_plan s = slug_custom)
        \<or> er_plan rec \<noteq> slug_custom \<and> (is_zero_time (er_contract_ends rec) \<or> now < er_contract_ends rec)))"

lemma apply_overrides_fields:
  "en_events (apply_overrides e rec sub now) =
     (if overrides_held rec sub now \<and> er_events rec > 0 then Some (er_events rec) else en_events e)"
  "en_name (apply_overrides e rec sub now) =
     (if overrides_held rec sub now \<and> er_display_name rec \<noteq> [] then er_display_name rec else en_name e)"
  by (auto simp: apply_overrides_def overrides_held_def contract_lapsed_def Let_def split: option.splits)

lemma apply_overrides_frame [simp]:
  "en_slug (apply_overrides e rec sub now) = en_slug e" "en_status (apply_overrides e rec sub now) = en_status e"
  "en_tiers (apply_overrides e rec sub now) = en_tiers e" "en_tier_plan (apply_overrides e rec sub now) = en_tier_plan e"
  "en_retention (apply_overrides e rec sub now) = en_retention e" "en_grace (apply_overrides e rec sub now) = en_grace e"
  "en_sub (apply_overrides e rec sub now) = en_sub e" "en_start (apply_overrides e rec sub now) = en_start e"
  "en_sub_status (apply_overrides e rec sub now) = en_sub_status e" "en_end (apply_overrides e rec sub now) = en_end e"
  "en_contract_ends (apply_overrides e rec sub now) = en_contract_ends e"
  "en_customer (apply_overrides e rec sub now) = en_customer e"
  by (simp_all add: apply_overrides_def Let_def)

lemma with_subscription_fields [simp]:
  "en_sub_status (with_subscription e s) = sb_status s" "en_sub (with_subscription e s) = sb_sub s"
  "en_events (with_subscription e s) = en_events e" "en_tiers (with_subscription e s) = en_tiers e"
  "en_start (with_subscription e s) = en_start e" "en_end (with_subscription e s) = en_end e"
  "en_tier_plan (with_subscription e s) = en_tier_plan e" "en_retention (with_subscription e s) = en_retention e"
  "en_customer (with_subscription e s) = sb_customer s"
  "en_grace (with_subscription e s) = (if sb_status s = SubStatusPastDue then sb_grace s else en_grace e)"
  by (simp_all add: with_subscription_def Let_def)

lemma blank_fields [simp]:
  "en_events (blank_entitlement s e b) = None" "en_tiers (blank_entitlement s e b) = None"
  "en_tier_plan (blank_entitlement s e b) = []" "en_grace (blank_entitlement s e b) = zero_time"
  "en_sub (blank_entitlement s e b) = []" "en_sub_status (blank_entitlement s e b) = []"
  "en_start (blank_entitlement s e b) = s" "en_end (blank_entitlement s e b) = e"
  "en_retention (blank_entitlement s e b) = None" "en_customer (blank_entitlement s e b) = []"
  by (simp_all add: blank_entitlement_def)

text \<open>An absent row counts as the empty one.\<close>

definition effective :: "ent_record \<Rightarrow> ent_record" where
  "effective rec = (if er_present rec then rec else empty_record)"

definition live_sub :: "subscription option \<Rightarrow> subscription option" where
  "live_sub sub = (case sub of Some s \<Rightarrow> if live (sb_status s) then Some s else None | None \<Rightarrow> None)"

lemma resolve_on:
  assumes "cfg_enabled cfg" "period_for now (anchor_day t (er_anchor_day (effective rec))) = (s, e)"
  shows "resolve cat t rec sub now cfg =
    map_option (\<lambda>(ent, resolved).
        (let ent' = (if resolved then apply_overrides (ent\<lparr>en_contract_ends := er_contract_ends (effective rec)\<rparr>)
                                        (effective rec) (live_sub sub) now
                     else ent\<lparr>en_contract_ends := er_contract_ends (effective rec)\<rparr>)
         in ent'\<lparr>en_retention := retention_days (effective rec) (en_retention ent') cfg\<rparr>))
      (resolve_plan cat (case live_sub sub of None \<Rightarrow> blank_entitlement s e True
                         | Some x \<Rightarrow> with_subscription (blank_entitlement s e True) x) (effective rec) (live_sub sub))"
proof -
  have sub: "(case sub of Some s \<Rightarrow> if \<not> live (sb_status s) then None else Some s | None \<Rightarrow> None) = live_sub sub"
    by (simp add: live_sub_def split: option.splits)
  have rec: "(if \<not> er_present rec then empty_record else rec) = effective rec"
    by (simp add: effective_def)
  show ?thesis
    using assms unfolding resolve_def sub rec Let_def
    by (auto split: option.splits prod.splits)
qed

lemma resolve_plan_total:
  "validate_catalog cat = None \<Longrightarrow> \<exists>r. resolve_plan cat ent rec sub = Some r"
  using current_plan_some [of cat] by (auto simp: resolve_plan_def split: option.splits)

lemma resolve_window:
  assumes "validate_catalog cat = None"
  shows "\<exists>ent. resolve cat t rec sub now cfg = Some ent
    \<and> (en_start ent, en_end ent) = period_for now (anchor_day t (if er_present rec then er_anchor_day rec else 0))"
proof -
  obtain s e where w: "period_for now (anchor_day t (er_anchor_day (effective rec))) = (s, e)"
    by (cases "period_for now (anchor_day t (er_anchor_day (effective rec)))")
  have anchor: "er_anchor_day (effective rec) = (if er_present rec then er_anchor_day rec else 0)"
    by (simp add: effective_def empty_record_def)
  show ?thesis
  proof (cases "cfg_enabled cfg")
    case True
    obtain ent b where "resolve_plan cat (case live_sub sub of None \<Rightarrow> blank_entitlement s e True
        | Some x \<Rightarrow> with_subscription (blank_entitlement s e True) x) (effective rec) (live_sub sub) = Some (ent, b)"
      using resolve_plan_total [OF assms] by (metis surj_pair)
    moreover from this have "en_start ent = s \<and> en_end ent = e"
      by (auto simp: resolve_plan_def split: option.splits if_splits)
    ultimately show ?thesis
      using w by (auto simp: resolve_on [OF True w] Let_def simp flip: anchor)
  next
    case False
    then show ?thesis
      using w by (auto simp: resolve_def Let_def effective_def empty_record_def split: prod.splits)
  qed
qed

section \<open>Properties\<close>

text \<open>
  C2. \<open>Resolve\<close> never panics on a catalog the wiring accepted, and the window it reports is
  the metering window of the org's anchor, whatever the plan, the subscription or the switch.
\<close>

theorem resolve_total_with_window:
  assumes "validate_catalog cat = None"
  shows "\<exists>ent. resolve cat t rec sub now cfg = Some ent
    \<and> (en_start ent, en_end ent) = period_for now (anchor_day t (if er_present rec then er_anchor_day rec else 0))"
  using assms by (rule resolve_window)

theorem resolve_total_with_window_witness:
  "\<exists>ent. resolve catalog 0 empty_record None 5 \<lparr>cfg_enabled = True, cfg_retention_days = 0\<rparr> = Some ent"
  using resolve_total_with_window [OF catalog_valid] by blast

text \<open>
  A live subscription outranks the stored row: the org holds the subscription's plan, a
  deal the plan pinned on its row, with that plan's allowance and tiers. The row's own
  allowance replaces the plan's only under the deal's own subscription or while an unexpired
  grant that is not a deal runs; a plan the catalog does not know gives no allowance and no
  tiers.
\<close>

theorem live_subscription_outranks_row:
  assumes "cfg_enabled cfg" "live (sb_status s)" "er_present rec"
    and "resolve cat t rec (Some s) now cfg = Some ent"
    and "held = plan_by_slug cat (if sb_plan s = slug_custom then er_base_plan rec else sb_plan s)"
  shows "en_status ent = StatusActive \<and> en_slug ent = sb_plan s \<and> en_tiers ent = map_option pl_tiers held
    \<and> en_tier_plan ent = (case held of None \<Rightarrow> [] | Some p \<Rightarrow> pl_slug p)
    \<and> en_events ent = (case held of None \<Rightarrow> None
        | Some p \<Rightarrow> Some (if overrides_held rec (Some s) now \<and> er_events rec > 0 then er_events rec else pl_free p))"
proof -
  obtain w e where w: "period_for now (anchor_day t (er_anchor_day (effective rec))) = (w, e)"
    by (cases "period_for now (anchor_day t (er_anchor_day (effective rec)))")
  have eff: "effective rec = rec" "live_sub (Some s) = Some s"
    using assms(2,3) by (simp_all add: effective_def live_sub_def)
  show ?thesis
  proof (cases held)
    case None
    with assms(4,5) show ?thesis
      by (auto simp: resolve_on [OF assms(1) w] eff resolve_plan_def Let_def split: if_splits)
  next
    case (Some p)
    with assms(4,5) have "pl_slug p = sb_plan s \<or> sb_plan s = slug_custom"
      using plan_by_slug_mem by (auto split: if_splits)
    with Some assms(4,5) show ?thesis
      by (auto simp: resolve_on [OF assms(1) w] eff resolve_plan_def apply_overrides_fields Let_def split: if_splits)
  qed
qed

definition demo_record :: ent_record where
  "demo_record = empty_record\<lparr>er_present := True, er_plan := slug_custom, er_product := ''prod'',
     er_base_plan := slug_usage, er_events := 5000000\<rparr>"

definition demo_sub :: subscription where
  "demo_sub = \<lparr>sb_plan = slug_custom, sb_status = ''active'', sb_price = 0, sb_currency = USD, sb_customer = ''c'',
     sb_sub = ''s'', sb_start = 0, sb_end = 0, sb_grace = 0\<rparr>"

definition billing_on :: billing_config where
  "billing_on = \<lparr>cfg_enabled = True, cfg_retention_days = 0\<rparr>"

theorem live_subscription_outranks_row_witness:
  "\<exists>ent. resolve catalog 0 demo_record (Some demo_sub) 5 billing_on = Some ent
     \<and> en_slug ent = slug_custom \<and> en_tier_plan ent = slug_usage \<and> en_events ent = Some 5000000"
proof -
  obtain w e where w: "period_for 5 (anchor_day 0 (er_anchor_day (effective demo_record))) = (w, e)"
    by (cases "period_for 5 (anchor_day 0 (er_anchor_day (effective demo_record)))")
  have on: "cfg_enabled billing_on" by (simp add: billing_on_def)
  obtain p where p: "plan_by_slug catalog slug_usage = Some p" "pl_slug p = slug_usage"
    by (simp add: catalog_def)
  have live: "live (sb_status demo_sub)" by (simp add: demo_sub_def live_iff)
  have present: "er_present demo_record" by (simp add: demo_record_def)
  obtain r where "resolve_plan catalog (with_subscription (blank_entitlement w e True) demo_sub) demo_record (Some demo_sub) = Some r"
    using resolve_plan_total [OF catalog_valid] by blast
  then obtain ent where ent: "resolve catalog 0 demo_record (Some demo_sub) 5 billing_on = Some ent"
    using live present by (auto simp: resolve_on [OF on w] effective_def live_sub_def)
  note live_subscription_outranks_row [OF on live present ent refl]
  with ent p show ?thesis
    by (auto simp: demo_sub_def demo_record_def overrides_held_def empty_record_def)
qed

text \<open>
  With no live subscription an org is on free, whatever plan its row or a dead
  subscription names: nothing splits its usage, and its allowance is the current plan's
  unless an unexpired grant on its row replaces it. A staged deal's numbers do not count.
\<close>

theorem no_subscription_is_free:
  assumes "cfg_enabled cfg" "\<forall>s. sub = Some s \<longrightarrow> \<not> live (sb_status s)" "current_plan cat = Some p"
  shows "\<exists>ent. resolve cat t rec sub now cfg = Some ent \<and> en_status ent = StatusFree \<and> en_slug ent = slug_free
    \<and> en_tiers ent = None \<and> en_sub_status ent = [] \<and> en_sub ent = []
    \<and> en_events ent = Some (if er_present rec \<and> er_plan rec \<noteq> slug_custom \<and> er_events rec > 0
                              \<and> (is_zero_time (er_contract_ends rec) \<or> now < er_contract_ends rec)
                            then er_events rec else pl_free p)"
proof -
  obtain w e where w: "period_for now (anchor_day t (er_anchor_day (effective rec))) = (w, e)"
    by (cases "period_for now (anchor_day t (er_anchor_day (effective rec)))")
  have "live_sub sub = None" using assms(2) by (auto simp: live_sub_def split: option.splits)
  with assms(3) show ?thesis
    by (auto simp: resolve_on [OF assms(1) w] resolve_plan_def apply_overrides_fields Let_def
        effective_def overrides_held_def empty_record_def)
qed

theorem no_subscription_is_free_witness:
  "\<exists>ent. resolve catalog 0 demo_record (Some (demo_sub\<lparr>sb_status := ''expired''\<rparr>)) 5 billing_on = Some ent
     \<and> en_slug ent = slug_free \<and> en_events ent = Some 100000"
proof -
  have on: "cfg_enabled billing_on" by (simp add: billing_on_def)
  have dead: "\<forall>s. Some (demo_sub\<lparr>sb_status := ''expired''\<rparr>) = Some s \<longrightarrow> \<not> live (sb_status s)"
    by (simp add: live_iff demo_sub_def)
  have cur: "current_plan catalog = Some (hd catalog)" "pl_free (hd catalog) = 100000"
    by (simp_all add: current_plan_def catalog_def on_sale_def)
  from no_subscription_is_free [OF on dead cur(1), of 0 demo_record 5] show ?thesis
    by (auto simp: cur demo_record_def)
qed

text \<open>
  With billing off an org has no allowance, no tiers and no subscription to show, and it
  is kept for as long as its own override or else the deployment's default says, for ever
  when neither does; and with it on a grace deadline shows only beside a past-due subscription.
\<close>

theorem billing_off_and_grace:
  "(\<not> cfg_enabled cfg \<longrightarrow> (\<exists>ent. resolve cat t rec sub now cfg = Some ent \<and> en_slug ent = slug_free
      \<and> en_events ent = None \<and> en_tiers ent = None \<and> en_sub_status ent = [] \<and> en_sub ent = []
      \<and> en_retention ent = (if er_present rec \<and> er_retention rec > 0 then Some (er_retention rec)
                            else if cfg_retention_days cfg > 0 then Some (cfg_retention_days cfg) else None)))
   \<and> (\<forall>ent. resolve cat t rec sub now cfg = Some ent \<and> en_grace ent \<noteq> zero_time \<longrightarrow>
        cfg_enabled cfg \<and> (\<exists>s. sub = Some s \<and> sb_status s = SubStatusPastDue \<and> en_grace ent = sb_grace s))"
proof (intro conjI allI impI; (elim conjE)?)
  assume "\<not> cfg_enabled cfg"
  then show "\<exists>ent. resolve cat t rec sub now cfg = Some ent \<and> en_slug ent = slug_free
      \<and> en_events ent = None \<and> en_tiers ent = None \<and> en_sub_status ent = [] \<and> en_sub ent = []
      \<and> en_retention ent = (if er_present rec \<and> er_retention rec > 0 then Some (er_retention rec)
                            else if cfg_retention_days cfg > 0 then Some (cfg_retention_days cfg) else None)"
    by (auto simp: resolve_def Let_def retention_days_def empty_record_def split: prod.splits)
next
  fix ent assume r: "resolve cat t rec sub now cfg = Some ent" and g: "en_grace ent \<noteq> zero_time"
  show on: "cfg_enabled cfg"
    using r g by (auto simp: resolve_def Let_def split: prod.splits if_splits)
  obtain w e where w: "period_for now (anchor_day t (er_anchor_day (effective rec))) = (w, e)"
    by (cases "period_for now (anchor_day t (er_anchor_day (effective rec)))")
  show "\<exists>s. sub = Some s \<and> sb_status s = SubStatusPastDue \<and> en_grace ent = sb_grace s"
  proof (cases "live_sub sub")
    case None
    with r g show ?thesis
      by (auto simp: resolve_on [OF on w] resolve_plan_def Let_def split: option.splits)
  next
    case (Some s)
    then have "sub = Some s" by (auto simp: live_sub_def split: option.splits if_splits)
    moreover have "en_grace ent = en_grace (with_subscription (blank_entitlement w e True) s)"
      using r Some by (auto simp: resolve_on [OF on w] resolve_plan_def Let_def simp del: with_subscription_fields
          split: option.splits if_splits)
    ultimately show ?thesis using g by (auto split: if_splits)
  qed
qed

theorem billing_off_and_grace_witness:
  "\<exists>ent. resolve catalog 0 demo_record (Some demo_sub) 5 \<lparr>cfg_enabled = False, cfg_retention_days = 30\<rparr> = Some ent
     \<and> en_events ent = None \<and> en_retention ent = Some 30"
  using billing_off_and_grace [of "\<lparr>cfg_enabled = False, cfg_retention_days = 30\<rparr>" catalog 0 demo_record "Some demo_sub" 5]
  by (auto simp: demo_record_def empty_record_def)

end
