(* ===== verification/Billing_Tables.thy ===== *)
theory Billing_Tables
  imports Entitlement "HOL-Library.List_Lexorder" "HOL-Library.Char_ord" "HOL-Library.Product_Lexorder"
begin

text \<open>
  The billing tables of \<open>schema/postgres/migrations\<close> (019, 020, 024, 026) as lists and maps,
  the \<open>pgtype\<close> conversions of \<open>internal/deps/postgres/types.go\<close>, and the statements of
  \<open>schema/postgres/queries\<close> on the entitlement rows with the constraints they are checked
  against. SQL's NULL is \<open>None\<close>. Text is not checked for NUL bytes or invalid UTF-8.
\<close>

section \<open>Column conversions\<close>

definition new_optional_text :: "string \<Rightarrow> string option" where
  "new_optional_text s = (if s \<noteq> [] then Some s else None)"

definition new_optional_timestamptz :: "time \<Rightarrow> time option" where
  "new_optional_timestamptz t = (if \<not> is_zero_time t then Some t else None)"

text \<open>Out of the range of a 16-bit integer the conversion panics; the outer \<open>None\<close>.\<close>

definition new_optional_int2 :: "int \<Rightarrow> int option option" where
  "new_optional_int2 v = (if v < - (2 ^ 15) \<or> v \<ge> 2 ^ 15 then None else Some (if v \<noteq> 0 then Some v else None))"

definition new_optional_int8 :: "int \<Rightarrow> int option" where
  "new_optional_int8 v = (if v \<noteq> 0 then Some v else None)"

definition int2_to_int :: "int option \<Rightarrow> int" where
  "int2_to_int v = (case v of None \<Rightarrow> 0 | Some i \<Rightarrow> i)"

definition text_of :: "string option \<Rightarrow> string" where
  "text_of v = (case v of None \<Rightarrow> [] | Some s \<Rightarrow> s)"

definition time_of :: "time option \<Rightarrow> time" where
  "time_of v = (case v of None \<Rightarrow> zero_time | Some t \<Rightarrow> t)"

definition int8_of :: "int option \<Rightarrow> int" where
  "int8_of v = (case v of None \<Rightarrow> 0 | Some i \<Rightarrow> i)"

lemma text_of_simps [simp]: "text_of None = []" "text_of (Some s) = s"
  by (simp_all add: text_of_def)

lemma optional_round_trip [simp]:
  "text_of (new_optional_text s) = s" "time_of (new_optional_timestamptz t) = t"
  "int8_of (new_optional_int8 v) = v"
  by (simp_all add: text_of_def new_optional_text_def time_of_def new_optional_timestamptz_def is_zero_time_def
      int8_of_def new_optional_int8_def)

lemma int2_round_trip: "new_optional_int2 v = Some w \<Longrightarrow> int2_to_int w = v"
  by (auto simp: new_optional_int2_def int2_to_int_def split: if_splits)

section \<open>Tables\<close>

text \<open>The columns an entitlement row and a history snapshot share; a stored row has a plan.\<close>

record ent_row =
  ew_anchor :: "int option"
  ew_base :: "string option"
  ew_contract :: "time option"
  ew_display :: "string option"
  ew_events :: "int option"
  ew_note :: string
  ew_plan :: "string option"
  ew_product :: "string option"
  ew_retention :: "int option"

record history_row =
  hi_id :: string
  hi_org :: string
  hi_actor :: string
  hi_changed :: time
  hi_row :: ent_row
  hi_trial :: "time option"

record sub_row =
  sr_id :: string
  sr_org :: string
  sr_plan :: string
  sr_status :: string
  sr_price :: int
  sr_currency :: string
  sr_provider :: string
  sr_customer :: string
  sr_provider_status :: string
  sr_sub :: string
  sr_updated_at :: time
  sr_start :: "time option"
  sr_end :: "time option"
  sr_grace :: "time option"
  sr_created :: time

record delivery_row =
  dr_provider :: string
  dr_webhook :: string
  dr_event_type :: string
  dr_payload :: string
  dr_received :: time
  dr_processed :: "time option"
  dr_error :: string

record checkout_row =
  cr_org :: string
  cr_provider :: string
  cr_ref :: string
  cr_created :: time

record billing_db =
  bd_orgs :: "string \<Rightarrow> time option"
  bd_ents :: "string \<Rightarrow> ent_row option"
  bd_history :: "history_row list"
  bd_subs :: "sub_row list"
  bd_deliveries :: "delivery_row list"
  bd_checkouts :: "checkout_row list"

section \<open>Constraints and statements\<close>

definition opt_all :: "('a \<Rightarrow> bool) \<Rightarrow> 'a option \<Rightarrow> bool" where
  "opt_all P v = (case v of None \<Rightarrow> True | Some x \<Rightarrow> P x)"

lemma opt_all_simps [simp]: "opt_all P None" "opt_all P (Some x) = P x"
  by (simp_all add: opt_all_def)

text \<open>Checks both tables carry; on a null plan the product and pin checks are null, which passes.\<close>

definition columns_ok :: "ent_row \<Rightarrow> bool" where
  "columns_ok r =
     (opt_all (\<lambda>d. 1 \<le> d \<and> d \<le> 31) (ew_anchor r)
      \<and> opt_all (\<lambda>s. s \<noteq> [] \<and> rune_count s \<le> 50) (ew_base r)
      \<and> opt_all (\<lambda>s. s \<noteq> [] \<and> rune_count s \<le> 150) (ew_display r)
      \<and> opt_all (\<lambda>n. 0 < n) (ew_events r)
      \<and> opt_all (\<lambda>s. s \<noteq> [] \<and> rune_count s \<le> 50) (ew_plan r)
      \<and> opt_all (\<lambda>s. s \<noteq> []) (ew_product r)
      \<and> opt_all (\<lambda>n. 0 < n) (ew_retention r)
      \<and> opt_all (\<lambda>p. (p = ''custom'') = (ew_product r \<noteq> None) \<and> (p = ''custom'') = (ew_base r \<noteq> None)) (ew_plan r))"

definition ent_row_ok :: "ent_row \<Rightarrow> bool" where
  "ent_row_ok r = (columns_ok r \<and> (ew_plan r = Some ''free'' \<or> ew_plan r = Some ''custom''))"

definition history_ok :: "string \<Rightarrow> ent_row \<Rightarrow> bool" where
  "history_ok actor r =
     (actor \<noteq> [] \<and> rune_count actor \<le> 150 \<and> columns_ok r
      \<and> (ew_plan r \<noteq> None \<or> ew_anchor r = None \<and> ew_base r = None \<and> ew_contract r = None
          \<and> ew_display r = None \<and> ew_events r = None \<and> ew_product r = None \<and> ew_retention r = None))"

datatype db_error = FkViolation | CheckViolation | UniqueViolation | DbFault

definition upsert_entitlement :: "billing_db \<Rightarrow> string \<Rightarrow> ent_row \<Rightarrow> (db_error, billing_db) result" where
  "upsert_entitlement db org r =
     (if \<not> ent_row_ok r then Inl CheckViolation
      else if bd_orgs db org = None then Inl FkViolation
      else Inr (db\<lparr>bd_ents := (bd_ents db)(org \<mapsto> r)\<rparr>))"

definition delete_entitlement :: "billing_db \<Rightarrow> string \<Rightarrow> billing_db \<times> nat" where
  "delete_entitlement db org =
     (db\<lparr>bd_ents := (bd_ents db)(org := None)\<rparr>, if bd_ents db org = None then 0 else 1)"

definition insert_history :: "billing_db \<Rightarrow> string \<Rightarrow> string \<Rightarrow> string \<Rightarrow> time \<Rightarrow> ent_row \<Rightarrow> (db_error, billing_db) result" where
  "insert_history db hid org actor db_now r =
     (if \<not> history_ok actor r then Inl CheckViolation
      else Inr (db\<lparr>bd_history := bd_history db @
             [\<lparr>hi_id = hid, hi_org = org, hi_actor = actor, hi_changed = db_now, hi_row = r, hi_trial = None\<rparr>]\<rparr>))"

text \<open>\<open>GetLiveBillingSubscription\<close>; the one-live index makes the row unique.\<close>

definition live_word :: "string \<Rightarrow> bool" where
  "live_word w = (w = ''active'' \<or> w = ''past_due'')"

definition get_live_row :: "billing_db \<Rightarrow> string \<Rightarrow> sub_row option" where
  "get_live_row db org = List.find (\<lambda>r. sr_org r = org \<and> live_word (sr_status r)) (bd_subs db)"

lemma live_word_iff: "live_word w = live w"
  by (simp add: live_word_def live_iff)

end
