(* ===== verification/Entitlement_Store.thy ===== *)
theory Entitlement_Store
  imports Billing_Tables
begin

text \<open>
  The entitlement service, \<open>internal/core/billing/entitlement/entitlement.go\<close> and
  \<open>subscription.go\<close>: the one writer of \<open>billing_entitlements\<close> and its history. A mutation
  runs in one transaction under the org's advisory lock, so it is one step; \<open>flt\<close> says which
  call fails, and any error returns the tables as they were. A commit that fails is taken
  not to have committed.
\<close>

section \<open>The code\<close>

datatype ent_call =
    EcBegin | EcLock | EcReadRow | EcReadLive | EcUpsert | EcHistory | EcCommit | EcDelete | EcCheckOrg | EcReadOrg

datatype ent_error =
    ErrOrgNotFound | ErrPlanNotFound | ErrPlanNotAssignable | ErrCustomNeedsProduct | ErrProductNeedsCustom
  | ErrClearWouldStrandSubscription | ErrAnchorDayRange | ErrDealAllowanceZero | ErrQuotaNegative
  | ErrRetentionNegative | ErrDisplayNameLong | ErrNoEntitlement | ErrActorRequired
  | ErrDb db_error | ErrPanic

definition max_display_name_len :: nat where
  "max_display_name_len = 150"

definition max_history_rows :: nat where
  "max_history_rows = 200"

record change =
  cg_plan :: string
  cg_events :: "int option"
  cg_retention :: "int option"
  cg_display :: "string option"
  cg_anchor :: "int option"
  cg_contract :: "time option"
  cg_note :: "string option"
  cg_product :: "string option"

definition or_keep :: "'a option \<Rightarrow> 'a \<Rightarrow> 'a" where
  "or_keep v current = (case v of None \<Rightarrow> current | Some x \<Rightarrow> x)"

definition assignable_slugs :: "string list" where
  "assignable_slugs = [slug_free, slug_custom]"

definition record_from_write_row :: "ent_row \<Rightarrow> ent_record" where
  "record_from_write_row r =
     \<lparr>er_present = True, er_anchor_day = int2_to_int (ew_anchor r), er_contract_ends = time_of (ew_contract r),
      er_display_name = text_of (ew_display r), er_note = ew_note r, er_plan = text_of (ew_plan r),
      er_product = text_of (ew_product r), er_base_plan = text_of (ew_base r),
      er_events = int8_of (ew_events r), er_retention = int8_of (ew_retention r)\<rparr>"

text \<open>The left-joined read: no row, or a null plan, is the empty record.\<close>

definition record_from_row :: "ent_row option \<Rightarrow> ent_record" where
  "record_from_row r =
     (case r of None \<Rightarrow> empty_record
      | Some w \<Rightarrow> if ew_plan w = None then empty_record else record_from_write_row w)"

definition upsert_params :: "ent_record \<Rightarrow> ent_row option" where
  "upsert_params rec =
     map_option (\<lambda>a. \<lparr>ew_anchor = a, ew_base = new_optional_text (er_base_plan rec),
        ew_contract = new_optional_timestamptz (er_contract_ends rec),
        ew_display = new_optional_text (er_display_name rec), ew_events = new_optional_int8 (er_events rec),
        ew_note = er_note rec, ew_plan = Some (er_plan rec), ew_product = new_optional_text (er_product rec),
        ew_retention = new_optional_int8 (er_retention rec)\<rparr>)
       (new_optional_int2 (er_anchor_day rec))"

definition history_params :: "ent_record \<Rightarrow> ent_row option" where
  "history_params rec =
     map_option (\<lambda>r. r\<lparr>ew_plan := new_optional_text (er_plan rec)\<rparr>) (upsert_params rec)"

definition subscription_from_row :: "sub_row \<Rightarrow> subscription option" where
  "subscription_from_row r =
     (case parse_sub_status (sr_status r) of
        None \<Rightarrow> None
      | Some st \<Rightarrow> Some \<lparr>sb_plan = sr_plan r, sb_status = st, sb_price = sr_price r, sb_currency = sr_currency r,
          sb_customer = sr_customer r, sb_sub = sr_sub r, sb_start = time_of (sr_start r),
          sb_end = time_of (sr_end r), sb_grace = time_of (sr_grace r)\<rparr>)"

definition read_live_subscription :: "(ent_call \<Rightarrow> bool) \<Rightarrow> billing_db \<Rightarrow> string
    \<Rightarrow> (ent_error, subscription option) result" where
  "read_live_subscription flt db org =
     (if flt EcReadLive then Inl (ErrDb DbFault)
      else case get_live_row db org of
        None \<Rightarrow> Inr None
      | Some r \<Rightarrow> Inr (subscription_from_row r))"

definition stored_record :: "(ent_call \<Rightarrow> bool) \<Rightarrow> billing_db \<Rightarrow> string \<Rightarrow> (ent_error, ent_record) result" where
  "stored_record flt db org =
     (if flt EcReadOrg then Inl (ErrDb DbFault)
      else case bd_orgs db org of
        None \<Rightarrow> Inl ErrOrgNotFound
      | Some _ \<Rightarrow> Inr (record_from_row (bd_ents db org)))"

definition get_entitlement :: "(ent_call \<Rightarrow> bool) \<Rightarrow> plan list \<Rightarrow> billing_config \<Rightarrow> billing_db \<Rightarrow> string \<Rightarrow> time
    \<Rightarrow> (ent_error, entitlement) result" where
  "get_entitlement flt cat cfg db org now =
     (if flt EcReadOrg then Inl (ErrDb DbFault)
      else case bd_orgs db org of
        None \<Rightarrow> Inl ErrOrgNotFound
      | Some created \<Rightarrow>
          (case (if cfg_enabled cfg then read_live_subscription flt db org else Inr None) of
             Inl e \<Rightarrow> Inl e
           | Inr sub \<Rightarrow>
               (case resolve cat created (record_from_row (bd_ents db org)) sub now cfg of
                  None \<Rightarrow> Inl ErrPanic
                | Some ent \<Rightarrow> Inr ent)))"

text \<open>\<open>applyChange\<close>; \<open>None\<close> is the panic of a catalog with nothing on sale.\<close>

definition apply_change :: "plan list \<Rightarrow> ent_record \<Rightarrow> change \<Rightarrow> ent_record option" where
  "apply_change cat cur c =
     (let next0 = cur\<lparr>er_present := True, er_plan := cg_plan c,
            er_events := or_keep (cg_events c) (er_events cur),
            er_retention := or_keep (cg_retention c) (er_retention cur),
            er_display_name := or_keep (cg_display c) (er_display_name cur),
            er_anchor_day := or_keep (cg_anchor c) (er_anchor_day cur),
            er_contract_ends := or_keep (cg_contract c) (er_contract_ends cur),
            er_note := or_keep (cg_note c) (er_note cur),
            er_product := or_keep (cg_product c) (er_product cur)\<rparr>;
          next1 = (if er_plan next0 = slug_free
                      \<and> (cg_contract c = None \<or> is_zero_time (the (cg_contract c)))
                   then next0\<lparr>er_contract_ends := zero_time,
                              er_events := or_keep (cg_events c) 0,
                              er_display_name := or_keep (cg_display c) [],
                              er_product := or_keep (cg_product c) []\<rparr>
                   else next0)
      in if er_plan next1 \<noteq> slug_custom then Some (next1\<lparr>er_base_plan := []\<rparr>)
         else if er_plan cur \<noteq> slug_custom \<or> er_product next1 \<noteq> er_product cur \<or> er_base_plan cur = []
         then map_option (\<lambda>p. next1\<lparr>er_base_plan := pl_slug p\<rparr>) (current_plan cat)
         else Some next1)"

text \<open>\<open>beginLocked\<close>: the transaction, the lock and the row under it.\<close>

definition begin_locked :: "(ent_call \<Rightarrow> bool) \<Rightarrow> billing_db \<Rightarrow> string \<Rightarrow> (ent_error, ent_record) result" where
  "begin_locked flt db org =
     (if flt EcBegin \<or> flt EcLock \<or> flt EcReadRow then Inl (ErrDb DbFault)
      else case bd_ents db org of
        None \<Rightarrow> Inr empty_record
      | Some r \<Rightarrow> Inr (record_from_write_row r))"

definition append_history :: "(ent_call \<Rightarrow> bool) \<Rightarrow> string \<Rightarrow> time \<Rightarrow> string \<Rightarrow> string \<Rightarrow> ent_record \<Rightarrow> billing_db
    \<Rightarrow> (ent_error, billing_db) result" where
  "append_history flt hid db_now org actor rec db =
     (case history_params rec of
        None \<Rightarrow> Inl ErrPanic
      | Some r \<Rightarrow>
          if flt EcHistory then Inl (ErrDb DbFault)
          else (case insert_history db hid org actor db_now r of
                  Inl e \<Rightarrow> Inl (ErrDb e)
                | Inr db' \<Rightarrow> Inr db'))"

definition commit_tx :: "(ent_call \<Rightarrow> bool) \<Rightarrow> billing_db \<Rightarrow> 'a \<Rightarrow> (ent_error, billing_db \<times> 'a) result" where
  "commit_tx flt db v = (if flt EcCommit then Inl (ErrDb DbFault) else Inr (db, v))"

definition store_record :: "(ent_call \<Rightarrow> bool) \<Rightarrow> string \<Rightarrow> time \<Rightarrow> string \<Rightarrow> string \<Rightarrow> ent_record \<Rightarrow> billing_db
    \<Rightarrow> (ent_error, billing_db \<times> ent_record) result" where
  "store_record flt hid db_now org actor next_rec db =
     (case upsert_params next_rec of
        None \<Rightarrow> Inl ErrPanic
      | Some r \<Rightarrow>
          if flt EcUpsert then Inl (ErrDb DbFault)
          else (case upsert_entitlement db org r of
                  Inl FkViolation \<Rightarrow> Inl ErrOrgNotFound
                | Inl e \<Rightarrow> Inl (ErrDb e)
                | Inr db1 \<Rightarrow>
                    (let stored = record_from_write_row r in
                     case append_history flt hid db_now org actor stored db1 of
                       Inl e \<Rightarrow> Inl e
                     | Inr db2 \<Rightarrow> commit_tx flt db2 stored)))"

text \<open>The guards of \<open>SetPlan\<close> on the merged row, in the order of the code.\<close>

definition strand_check :: "(ent_call \<Rightarrow> bool) \<Rightarrow> billing_db \<Rightarrow> string \<Rightarrow> ent_record \<Rightarrow> ent_record \<Rightarrow> ent_error option" where
  "strand_check flt db org cur next_rec =
     (if er_plan cur = slug_custom \<and> (er_plan next_rec \<noteq> slug_custom \<or> er_product next_rec \<noteq> er_product cur)
      then (case read_live_subscription flt db org of
              Inl e \<Rightarrow> Some e
            | Inr None \<Rightarrow> None
            | Inr (Some sub) \<Rightarrow> if sb_plan sub = slug_custom then Some ErrClearWouldStrandSubscription else None)
      else None)"

definition guard_change :: "(ent_call \<Rightarrow> bool) \<Rightarrow> billing_db \<Rightarrow> string \<Rightarrow> ent_record \<Rightarrow> ent_record \<Rightarrow> ent_error option" where
  "guard_change flt db org cur next_rec =
     (if er_plan next_rec = slug_custom \<and> er_product next_rec = [] then Some ErrCustomNeedsProduct
      else if er_plan next_rec \<noteq> slug_custom \<and> er_product next_rec \<noteq> [] then Some ErrProductNeedsCustom
      else case strand_check flt db org cur next_rec of
        Some e \<Rightarrow> Some e
      | None \<Rightarrow>
          if er_events next_rec < 0 then Some ErrQuotaNegative
          else if er_retention next_rec < 0 then Some ErrRetentionNegative
          else if er_anchor_day next_rec < 0 \<or> er_anchor_day next_rec > 31 then Some ErrAnchorDayRange
          else if rune_count (er_display_name next_rec) > max_display_name_len then Some ErrDisplayNameLong
          else None)"

definition set_plan :: "(ent_call \<Rightarrow> bool) \<Rightarrow> plan list \<Rightarrow> string \<Rightarrow> time \<Rightarrow> string \<Rightarrow> string \<Rightarrow> change \<Rightarrow> billing_db
    \<Rightarrow> (ent_error, billing_db \<times> ent_record) result" where
  "set_plan flt cat hid db_now org actor c db =
     (if cg_plan c \<notin> set assignable_slugs then
        (if plan_by_slug cat (cg_plan c) \<noteq> None then Inl ErrPlanNotAssignable else Inl ErrPlanNotFound)
      else if trim_space actor = [] then Inl ErrActorRequired
      else if cg_plan c = slug_custom \<and> cg_events c = Some 0 then Inl ErrDealAllowanceZero
      else case begin_locked flt db org of
        Inl e \<Rightarrow> Inl e
      | Inr cur \<Rightarrow>
          (case apply_change cat cur c of
             None \<Rightarrow> Inl ErrPanic
           | Some next_rec \<Rightarrow>
               (case guard_change flt db org cur next_rec of
                  Some e \<Rightarrow> Inl e
                | None \<Rightarrow> store_record flt hid db_now org actor next_rec db)))"

definition clear_plan :: "(ent_call \<Rightarrow> bool) \<Rightarrow> string \<Rightarrow> time \<Rightarrow> string \<Rightarrow> string \<Rightarrow> billing_db
    \<Rightarrow> (ent_error, billing_db \<times> unit) result" where
  "clear_plan flt hid db_now org actor db =
     (if trim_space actor = [] then Inl ErrActorRequired
      else if flt EcBegin \<or> flt EcLock then Inl (ErrDb DbFault)
      else case read_live_subscription flt db org of
        Inl e \<Rightarrow> Inl e
      | Inr sub \<Rightarrow>
          if (case sub of None \<Rightarrow> False | Some s \<Rightarrow> sb_plan s = slug_custom) then Inl ErrClearWouldStrandSubscription
          else if flt EcDelete then Inl (ErrDb DbFault)
          else (let (db1, n) = delete_entitlement db org in
                if n = 0 then
                  (if flt EcCheckOrg then Inl (ErrDb DbFault)
                   else if bd_orgs db1 org = None then Inl ErrOrgNotFound
                   else Inl ErrNoEntitlement)
                else (case append_history flt hid db_now org actor empty_record db1 of
                        Inl e \<Rightarrow> Inl e
                      | Inr db2 \<Rightarrow> commit_tx flt db2 ())))"

text \<open>
  \<open>WithOrgLock\<close>: a writer of another package gets the tables and the row under the lock,
  and its result is committed only if it returned no error.
\<close>

definition with_org_lock :: "(ent_call \<Rightarrow> bool) \<Rightarrow> string \<Rightarrow> (ent_error \<Rightarrow> 'e)
    \<Rightarrow> (billing_db \<Rightarrow> ent_record \<Rightarrow> ('e, billing_db \<times> 'a) result) \<Rightarrow> billing_db \<Rightarrow> ('e, billing_db \<times> 'a) result" where
  "with_org_lock flt org wrap fn db =
     (case begin_locked flt db org of
        Inl e \<Rightarrow> Inl (wrap e)
      | Inr cur \<Rightarrow>
          (case fn db cur of
             Inl e \<Rightarrow> Inl e
           | Inr (db', v) \<Rightarrow> if flt EcCommit then Inl (wrap (ErrDb DbFault)) else Inr (db', v)))"

text \<open>\<open>History\<close>: newest first, at most \<open>MaxHistoryRows\<close>.\<close>

record history_entry =
  he_actor :: string
  he_changed :: time
  he_record :: ent_record
  he_trial :: time

definition history :: "billing_db \<Rightarrow> string \<Rightarrow> history_entry list" where
  "history db org =
     map (\<lambda>h. \<lparr>he_actor = hi_actor h, he_changed = hi_changed h,
               he_record = (record_from_write_row (hi_row h))\<lparr>er_present := ew_plan (hi_row h) \<noteq> None\<rparr>,
               he_trial = time_of (hi_trial h)\<rparr>)
       (take max_history_rows
         (rev (sort_key (\<lambda>h. (hi_changed h, hi_id h)) (filter (\<lambda>h. hi_org h = org) (bd_history db)))))"

section \<open>Rows and records\<close>

lemma row_round_trip: "upsert_params rec = Some r \<Longrightarrow> record_from_write_row r = rec\<lparr>er_present := True\<rparr>"
  by (auto simp: upsert_params_def record_from_write_row_def int2_round_trip)

lemma row_plan [simp]: "upsert_params rec = Some r \<Longrightarrow> ew_plan r = Some (er_plan rec)"
  by (auto simp: upsert_params_def)

lemma opt_all_conversions [simp]:
  "opt_all P (new_optional_text s) = (s \<noteq> [] \<longrightarrow> P s)" "opt_all Q (new_optional_int8 v) = (v \<noteq> 0 \<longrightarrow> Q v)"
  "(new_optional_text s = None) = (s = [])"
  by (simp_all add: new_optional_text_def new_optional_int8_def)

lemma columns_ok_params:
  assumes "upsert_params rec = Some r"
  shows "columns_ok r \<longleftrightarrow> (er_anchor_day rec \<noteq> 0 \<longrightarrow> 1 \<le> er_anchor_day rec \<and> er_anchor_day rec \<le> 31)
    \<and> rune_count (er_base_plan rec) \<le> 50 \<and> rune_count (er_display_name rec) \<le> 150
    \<and> 0 \<le> er_events rec \<and> er_plan rec \<noteq> [] \<and> rune_count (er_plan rec) \<le> 50 \<and> 0 \<le> er_retention rec
    \<and> (er_plan rec = ''custom'') = (er_product rec \<noteq> []) \<and> (er_plan rec = ''custom'') = (er_base_plan rec \<noteq> [])"
proof -
  obtain z where z: "new_optional_int2 (er_anchor_day rec) = Some z"
    using assms by (auto simp: upsert_params_def)
  have za: "opt_all P z = (er_anchor_day rec \<noteq> 0 \<longrightarrow> P (er_anchor_day rec))" for P
    using z by (auto simp: new_optional_int2_def split: if_splits)
  have none: "rune_count [] = 0" by (simp add: rune_count_def)
  have base: "(er_base_plan rec \<noteq> [] \<longrightarrow> rune_count (er_base_plan rec) \<le> 50) = (rune_count (er_base_plan rec) \<le> 50)"
    "(er_display_name rec \<noteq> [] \<longrightarrow> rune_count (er_display_name rec) \<le> 150) = (rune_count (er_display_name rec) \<le> 150)"
    "(er_events rec \<noteq> 0 \<longrightarrow> 0 < er_events rec) = (0 \<le> er_events rec)"
    "(er_retention rec \<noteq> 0 \<longrightarrow> 0 < er_retention rec) = (0 \<le> er_retention rec)"
    using none by (auto simp: none)
  from assms z have "r = \<lparr>ew_anchor = z, ew_base = new_optional_text (er_base_plan rec),
        ew_contract = new_optional_timestamptz (er_contract_ends rec),
        ew_display = new_optional_text (er_display_name rec), ew_events = new_optional_int8 (er_events rec),
        ew_note = er_note rec, ew_plan = Some (er_plan rec), ew_product = new_optional_text (er_product rec),
        ew_retention = new_optional_int8 (er_retention rec)\<rparr>" by (simp add: upsert_params_def)
  then show ?thesis
    unfolding columns_ok_def using base by (simp add: za)
qed

lemma base_length: "ent_row_ok r \<Longrightarrow> rune_count (text_of (ew_base r)) \<le> 50"
  by (cases "ew_base r") (simp_all add: ent_row_ok_def columns_ok_def rune_count_def)

lemma upsert_params_present [simp]: "upsert_params (rec\<lparr>er_present := b\<rparr>) = upsert_params rec"
  by (simp add: upsert_params_def)

lemma history_of_stored:
  "upsert_params rec = Some r \<Longrightarrow> er_plan rec \<noteq> [] \<Longrightarrow> history_params (record_from_write_row r) = Some r"
  by (auto simp: row_round_trip history_params_def new_optional_text_def dest: row_plan)

lemma record_of_row: "ew_plan r \<noteq> None \<Longrightarrow> record_from_row (Some r) = record_from_write_row r"
  by (auto simp: record_from_row_def)

section \<open>The merged change\<close>

lemma apply_change_plan: "apply_change cat cur c = Some rec \<Longrightarrow> er_plan rec = cg_plan c \<and> er_present rec"
  by (auto simp: apply_change_def Let_def split: if_splits)

lemma apply_change_free_base:
  "apply_change cat cur c = Some rec \<Longrightarrow> cg_plan c \<noteq> slug_custom \<Longrightarrow> er_base_plan rec = []"
  by (auto simp: apply_change_def Let_def split: if_splits)

text \<open>A deal keeps its pin on the same product, and is pinned to the current plan otherwise.\<close>

lemma apply_change_pin:
  assumes "apply_change cat cur c = Some rec" "cg_plan c = slug_custom"
  shows "if er_plan cur = slug_custom \<and> er_product rec = er_product cur \<and> er_base_plan cur \<noteq> []
    then er_base_plan rec = er_base_plan cur
    else \<exists>p. current_plan cat = Some p \<and> er_base_plan rec = pl_slug p"
  using assms by (auto simp: apply_change_def Let_def slug_defs split: if_splits)

lemma apply_change_total: "validate_catalog cat = None \<Longrightarrow> \<exists>rec. apply_change cat cur c = Some rec"
  using current_plan_some [of cat] by (auto simp: apply_change_def Let_def)

section \<open>Inversion of the mutations\<close>

lemma store_record_ok:
  assumes "store_record flt hid w org actor next_rec db = Inr (db', rec)" "er_plan next_rec \<noteq> []" "er_present next_rec"
  obtains r where "upsert_params next_rec = Some r" "ent_row_ok r" "rec = next_rec" "bd_orgs db org \<noteq> None"
    "db' = db\<lparr>bd_ents := (bd_ents db)(org \<mapsto> r),
              bd_history := bd_history db @ [\<lparr>hi_id = hid, hi_org = org, hi_actor = actor, hi_changed = w, hi_row = r, hi_trial = None\<rparr>]\<rparr>"
proof -
  from assms(1) obtain r where r: "upsert_params next_rec = Some r"
    by (auto simp: store_record_def split: option.splits)
  have same: "record_from_write_row r = next_rec" using row_round_trip [OF r] assms(3) by simp
  have hist: "history_params next_rec = Some r" using history_of_stored [OF r assms(2)] same by simp
  show ?thesis
    using assms(1) by (intro that [OF r])
      (auto simp: store_record_def r same hist append_history_def insert_history_def upsert_entitlement_def
        commit_tx_def Let_def split: if_splits)
qed

lemma set_plan_ok:
  assumes "set_plan flt cat hid w org actor c db = Inr (db', rec)"
  obtains cur r where "begin_locked flt db org = Inr cur" "apply_change cat cur c = Some rec"
    "guard_change flt db org cur rec = None" "upsert_params rec = Some r" "ent_row_ok r" "bd_orgs db org \<noteq> None"
    "cg_plan c = slug_free \<or> cg_plan c = slug_custom"
    "db' = db\<lparr>bd_ents := (bd_ents db)(org \<mapsto> r),
              bd_history := bd_history db @ [\<lparr>hi_id = hid, hi_org = org, hi_actor = actor, hi_changed = w, hi_row = r, hi_trial = None\<rparr>]\<rparr>"
proof -
  from assms obtain cur next_rec where c: "begin_locked flt db org = Inr cur" "apply_change cat cur c = Some next_rec"
      "guard_change flt db org cur next_rec = None" "store_record flt hid w org actor next_rec db = Inr (db', rec)"
      "cg_plan c = slug_free \<or> cg_plan c = slug_custom"
    by (auto simp: set_plan_def assignable_slugs_def split: if_splits sum.splits option.splits)
  have "er_plan next_rec \<noteq> []" "er_present next_rec"
    using apply_change_plan [OF c(2)] c(5) by (auto simp: slug_defs)
  from c(4) this show ?thesis
    by (rule store_record_ok) (use c that in auto)
qed

definition cleared_row :: ent_row where
  "cleared_row = \<lparr>ew_anchor = None, ew_base = None, ew_contract = None, ew_display = None, ew_events = None,
     ew_note = [], ew_plan = None, ew_product = None, ew_retention = None\<rparr>"

lemma history_params_empty: "history_params empty_record = Some cleared_row"
  by (simp add: history_params_def upsert_params_def empty_record_def cleared_row_def new_optional_int2_def
      new_optional_text_def new_optional_timestamptz_def new_optional_int8_def is_zero_time_def)

lemma clear_plan_ok:
  assumes "clear_plan flt hid w org actor db = Inr (db', u)"
  shows "(\<exists>r. bd_ents db org = Some r) \<and> trim_space actor \<noteq> [] \<and> \<not> flt EcReadLive
    \<and> (case get_live_row db org of None \<Rightarrow> True | Some r \<Rightarrow> subscription_from_row r = None \<or> sr_plan r \<noteq> slug_custom)
    \<and> db' = db\<lparr>bd_ents := (bd_ents db)(org := None),
        bd_history := bd_history db @ [\<lparr>hi_id = hid, hi_org = org, hi_actor = actor, hi_changed = w, hi_row = cleared_row, hi_trial = None\<rparr>]\<rparr>"
  using assms
  by (auto simp: clear_plan_def read_live_subscription_def delete_entitlement_def append_history_def
      history_params_empty insert_history_def commit_tx_def Let_def subscription_from_row_def
      split: if_splits option.splits sum.splits)

section \<open>The writer as a machine\<close>

datatype ent_cmd =
    CmdSet "ent_call \<Rightarrow> bool" "plan list" string time string string change
  | CmdClear "ent_call \<Rightarrow> bool" string time string string

fun ent_step :: "billing_db \<Rightarrow> ent_cmd \<Rightarrow> billing_db" where
  "ent_step db (CmdSet flt cat hid w org actor c) =
     (case set_plan flt cat hid w org actor c db of Inl e \<Rightarrow> db | Inr (db', _) \<Rightarrow> db')"
| "ent_step db (CmdClear flt hid w org actor) =
     (case clear_plan flt hid w org actor db of Inl e \<Rightarrow> db | Inr (db', _) \<Rightarrow> db')"

text \<open>A deal in force: a live custom subscription over a custom row with its product and pin.\<close>

definition deal_held :: "string \<Rightarrow> string \<Rightarrow> string \<Rightarrow> billing_db \<Rightarrow> bool" where
  "deal_held org product base db =
     (product \<noteq> [] \<and> base \<noteq> []
      \<and> (\<exists>s. get_live_row db org = Some s \<and> sr_plan s = slug_custom)
      \<and> (\<exists>r. bd_ents db org = Some r \<and> ew_plan r = Some slug_custom \<and> ew_product r = Some product \<and> ew_base r = Some base))"

lemma live_row_reads:
  "get_live_row db org = Some s \<Longrightarrow> \<exists>x. subscription_from_row s = Some x \<and> sb_plan x = sr_plan s"
  by (auto simp: get_live_row_def find_Some_iff live_word_iff subscription_from_row_def dest: live_parses)

lemma strand_refused:
  assumes "deal_held org product base db" "begin_locked flt db org = Inr cur" "guard_change flt db org cur rec = None"
  shows "er_plan rec = slug_custom \<and> er_product rec = product \<and> er_plan cur = slug_custom \<and> er_product cur = product
    \<and> er_base_plan cur = base"
proof -
  have cur: "er_plan cur = slug_custom" "er_product cur = product" "er_base_plan cur = base"
    using assms(1,2) by (auto simp: deal_held_def begin_locked_def record_from_write_row_def text_of_def split: if_splits)
  have "strand_check flt db org cur rec = None"
    using assms(3) by (auto simp: guard_change_def split: if_splits option.splits)
  moreover have "\<exists>s x. get_live_row db org = Some s \<and> subscription_from_row s = Some x \<and> sb_plan x = slug_custom"
    using assms(1) live_row_reads [of db org] by (fastforce simp: deal_held_def)
  ultimately show ?thesis
    using cur by (auto simp: strand_check_def read_live_subscription_def split: if_splits)
qed

lemma deal_held_step: "deal_held org product base db \<Longrightarrow> deal_held org product base (ent_step db cmd)"
proof (cases cmd)
  case (CmdSet flt cat hid w org' actor c)
  assume held: "deal_held org product base db"
  show ?thesis
  proof (cases "set_plan flt cat hid w org' actor c db")
    case (Inr v)
    obtain db' rec where v: "v = (db', rec)" by (cases v)
    from Inr v have "set_plan flt cat hid w org' actor c db = Inr (db', rec)" by simp
    then show ?thesis
    proof (rule set_plan_ok)
      fix cur r
      assume a: "begin_locked flt db org' = Inr cur" "apply_change cat cur c = Some rec"
        "guard_change flt db org' cur rec = None" "upsert_params rec = Some r"
        "db' = db\<lparr>bd_ents := (bd_ents db)(org' \<mapsto> r),
              bd_history := bd_history db @ [\<lparr>hi_id = hid, hi_org = org', hi_actor = actor, hi_changed = w, hi_row = r, hi_trial = None\<rparr>]\<rparr>"
      show ?thesis
      proof (cases "org' = org")
        case True
        with strand_refused [OF held, of flt cur rec] a have keep: "er_plan rec = slug_custom" "er_product rec = product"
            "er_plan cur = slug_custom" "er_product cur = product" "er_base_plan cur = base" by auto
        have "base \<noteq> []" using held by (simp add: deal_held_def)
        with apply_change_pin [OF a(2)] apply_change_plan [OF a(2)] keep have "er_base_plan rec = base" by auto
        with keep a(4) held have "ew_plan r = Some slug_custom \<and> ew_product r = Some product \<and> ew_base r = Some base"
          by (auto simp: upsert_params_def new_optional_text_def deal_held_def)
        with held True a(5) Inr v CmdSet show ?thesis
          by (auto simp: deal_held_def get_live_row_def)
      next
        case False
        with held a(5) Inr v CmdSet show ?thesis by (auto simp: deal_held_def get_live_row_def)
      qed
    qed
  qed (use held CmdSet in simp)
next
  case (CmdClear flt hid w org' actor)
  assume held: "deal_held org product base db"
  show ?thesis
  proof (cases "clear_plan flt hid w org' actor db")
    case (Inr v)
    obtain db' u where v: "v = (db', u)" by (cases v)
    with Inr have ok: "clear_plan flt hid w org' actor db = Inr (db', u)" by simp
    have "org' \<noteq> org"
      using clear_plan_ok [OF ok] held live_row_reads [of db org] by (fastforce simp: deal_held_def)
    with clear_plan_ok [OF ok] held Inr v CmdClear show ?thesis
      by (auto simp: deal_held_def get_live_row_def)
  qed (use held CmdClear in simp)
qed

interpretation deal: machine_inv ent_step "deal_held org product base"
  by unfold_locales (rule deal_held_step)

text \<open>The newest snapshot of an org is its row as it stands.\<close>

definition history_current :: "billing_db \<Rightarrow> bool" where
  "history_current db =
     (\<forall>org. let hs = filter (\<lambda>h. hi_org h = org) (bd_history db)
            in if hs = [] then bd_ents db org = None
               else hi_row (last hs) = (case bd_ents db org of None \<Rightarrow> cleared_row | Some r \<Rightarrow> r))"

lemma history_current_put:
  assumes "history_current db" "hi_org h = org"
    "hi_row h = (case v of None \<Rightarrow> cleared_row | Some r \<Rightarrow> r)"
  shows "history_current (db\<lparr>bd_ents := (bd_ents db)(org := v), bd_history := bd_history db @ [h]\<rparr>)"
  using assms unfolding history_current_def by (simp add: Let_def)

lemma history_current_step: "history_current db \<Longrightarrow> history_current (ent_step db cmd)"
proof (cases cmd)
  case (CmdSet flt cat hid w org actor c)
  assume cur: "history_current db"
  show ?thesis
  proof (cases "set_plan flt cat hid w org actor c db")
    case (Inr v)
    obtain db' rec where v: "v = (db', rec)" by (cases v)
    from Inr v have "set_plan flt cat hid w org actor c db = Inr (db', rec)" by simp
    then show ?thesis
      by (rule set_plan_ok) (use CmdSet Inr v history_current_put [OF cur] in simp)
  qed (use cur CmdSet in simp)
next
  case (CmdClear flt hid w org actor)
  assume cur: "history_current db"
  show ?thesis
  proof (cases "clear_plan flt hid w org actor db")
    case (Inr v)
    obtain db' u where v: "v = (db', u)" by (cases v)
    with Inr have ok: "clear_plan flt hid w org actor db = Inr (db', u)" by simp
    with clear_plan_ok [OF ok] CmdClear v history_current_put [OF cur] show ?thesis by simp
  qed (use cur CmdClear in simp)
qed

interpretation audit: machine_inv ent_step history_current
  by unfold_locales (rule history_current_step)

section \<open>Properties\<close>

text \<open>
  C5. \<open>SetPlan\<close> stores exactly the merged change: the row that reads back is the returned
  record, it satisfies the table's constraints, a product and a pinned plan are on it just
  when it is a deal, the change is in the history with its actor, and no other row and no
  subscription moves.
\<close>

theorem set_plan_stores_merge:
  assumes "set_plan flt cat hid w org actor c db = Inr (db', rec)"
  shows "\<exists>cur r. begin_locked flt db org = Inr cur \<and> apply_change cat cur c = Some rec
    \<and> record_from_row (bd_ents db' org) = rec \<and> ent_row_ok r
    \<and> (er_plan rec = slug_custom \<longleftrightarrow> er_product rec \<noteq> []) \<and> (er_plan rec = slug_custom \<longleftrightarrow> er_base_plan rec \<noteq> [])
    \<and> (er_plan rec = slug_free \<or> er_plan rec = slug_custom)
    \<and> db' = db\<lparr>bd_ents := (bd_ents db)(org \<mapsto> r), bd_history := bd_history db @
        [\<lparr>hi_id = hid, hi_org = org, hi_actor = actor, hi_changed = w, hi_row = r, hi_trial = None\<rparr>]\<rparr>"
  using assms
proof (rule set_plan_ok)
  fix cur r
  assume a: "begin_locked flt db org = Inr cur" "apply_change cat cur c = Some rec" "upsert_params rec = Some r"
    "ent_row_ok r" "cg_plan c = slug_free \<or> cg_plan c = slug_custom"
    "db' = db\<lparr>bd_ents := (bd_ents db)(org \<mapsto> r), bd_history := bd_history db @
        [\<lparr>hi_id = hid, hi_org = org, hi_actor = actor, hi_changed = w, hi_row = r, hi_trial = None\<rparr>]\<rparr>"
  have plan: "er_plan rec = cg_plan c" "er_present rec" using apply_change_plan [OF a(2)] by auto
  then have reads: "record_from_write_row r = rec" using row_round_trip [OF a(3)] by simp
  have cols: "(er_plan rec = slug_custom \<longleftrightarrow> er_product rec \<noteq> []) \<and> (er_plan rec = slug_custom \<longleftrightarrow> er_base_plan rec \<noteq> [])"
    using a(3,4) by (auto simp: upsert_params_def ent_row_ok_def columns_ok_def new_optional_text_def slug_defs split: if_splits)
  have "record_from_row (bd_ents db' org) = rec"
    using a(3,6) reads by (simp add: record_of_row)
  moreover have "er_plan rec = slug_free \<or> er_plan rec = slug_custom" using plan a(5) by simp
  ultimately show ?thesis using a(1,2,4,6) cols by (intro exI [of _ cur] exI [of _ r]) blast
qed

definition no_faults :: "ent_call \<Rightarrow> bool" where
  "no_faults c = False"

definition demo_billing :: billing_db where
  "demo_billing = \<lparr>bd_orgs = (\<lambda>g. Some 0), bd_ents = (\<lambda>g. None), bd_history = [], bd_subs = [],
     bd_deliveries = [], bd_checkouts = []\<rparr>"

definition demo_change :: change where
  "demo_change = \<lparr>cg_plan = slug_custom, cg_events = Some 5000000, cg_retention = None, cg_display = None,
     cg_anchor = None, cg_contract = None, cg_note = None, cg_product = Some ''prod''\<rparr>"

definition demo_row :: ent_row where
  "demo_row = \<lparr>ew_anchor = None, ew_base = Some slug_usage, ew_contract = None, ew_display = None,
     ew_events = Some 5000000, ew_note = [], ew_plan = Some slug_custom, ew_product = Some ''prod'', ew_retention = None\<rparr>"

lemmas no_faults_simps [simp] = no_faults_def

lemma demo_slug_lengths: "rune_count ''custom'' = 6" "rune_count ''usage-2026-10'' = 13" "rune_count ''ops'' = 3"
  by (simp_all add: rune_count_ascii ascii_def)

lemma demo_actor: "trim_space ''ops'' = ''ops''"
  by (rule trim_space_word) simp_all

lemma demo_params: "upsert_params demo_record = Some demo_row"
  by (simp add: upsert_params_def demo_record_def empty_record_def new_optional_int2_def demo_row_def
      new_optional_text_def new_optional_timestamptz_def new_optional_int8_def is_zero_time_def slug_defs)

lemma demo_row_fine: "ent_row_ok demo_row" "history_ok ''ops'' demo_row"
  by (simp_all add: ent_row_ok_def history_ok_def columns_ok_def demo_row_def demo_slug_lengths slug_defs)

lemma demo_set_plan: "\<exists>db'. set_plan no_faults catalog ''x'' 7 ''o'' ''ops'' demo_change demo_billing = Inr (db', demo_record)"
proof -
  have merged: "apply_change catalog empty_record demo_change = Some demo_record"
    by (simp add: apply_change_def empty_record_def demo_change_def demo_record_def or_keep_def current_plan_def
        catalog_def on_sale_def slug_defs)
  have start: "begin_locked no_faults demo_billing ''o'' = Inr empty_record"
    by (simp add: begin_locked_def demo_billing_def)
  have guards: "guard_change no_faults demo_billing ''o'' empty_record demo_record = None"
    by (simp add: guard_change_def strand_check_def demo_record_def empty_record_def slug_defs rune_count_def)
  have reads: "record_from_write_row demo_row = demo_record"
    using row_round_trip [OF demo_params] by (simp add: demo_record_def)
  have "history_params demo_record = Some demo_row"
    using history_of_stored [OF demo_params] reads by (simp add: demo_record_def slug_defs)
  then have "\<exists>db'. store_record no_faults ''x'' 7 ''o'' ''ops'' demo_record demo_billing = Inr (db', demo_record)"
    using reads by (simp add: store_record_def demo_params upsert_entitlement_def demo_row_fine append_history_def
        insert_history_def commit_tx_def demo_billing_def)
  then show ?thesis
    by (simp add: set_plan_def start merged guards demo_actor) (simp add: demo_change_def assignable_slugs_def slug_defs)
qed

theorem set_plan_stores_merge_witness:
  "\<exists>db'. set_plan no_faults catalog ''x'' 7 ''o'' ''ops'' demo_change demo_billing = Inr (db', demo_record)
     \<and> record_from_row (bd_ents db' ''o'') = demo_record"
proof -
  obtain db' where ok: "set_plan no_faults catalog ''x'' 7 ''o'' ''ops'' demo_change demo_billing = Inr (db', demo_record)"
    using demo_set_plan by blast
  with set_plan_stores_merge [OF ok] show ?thesis by blast
qed

text \<open>What the guards and the merge say of the row that is about to be stored.\<close>

lemma guarded_pin:
  assumes "validate_catalog cat = None" "\<forall>p\<in>set cat. rune_count (pl_slug p) \<le> 50"
    and "\<forall>g r. bd_ents db g = Some r \<longrightarrow> ent_row_ok r"
    and "begin_locked flt db org = Inr cur" "apply_change cat cur c = Some rec"
  shows "(er_plan rec = slug_custom) = (er_base_plan rec \<noteq> []) \<and> rune_count (er_base_plan rec) \<le> 50"
proof (cases "cg_plan c = slug_custom")
  case True
  have old: "rune_count (er_base_plan cur) \<le> 50"
  proof (cases "bd_ents db org")
    case None
    with assms(4) have "er_base_plan cur = []" by (auto simp: begin_locked_def empty_record_def split: if_splits)
    then show ?thesis by (simp add: rune_count_def)
  next
    case (Some x)
    with assms(4) have "er_base_plan cur = text_of (ew_base x)"
      by (auto simp: begin_locked_def record_from_write_row_def split: if_splits)
    moreover have "ent_row_ok x" using assms(3) Some by blast
    ultimately show ?thesis using base_length by simp
  qed
  have "er_base_plan rec \<noteq> [] \<and> rune_count (er_base_plan rec) \<le> 50"
    using old apply_change_pin [OF assms(5) True] current_plan_slug [OF assms(1)] current_plan_some [OF assms(1)] assms(2)
    by (auto split: if_splits)
  with True apply_change_plan [OF assms(5)] show ?thesis by simp
next
  case False
  with apply_change_free_base [OF assms(5)] apply_change_plan [OF assms(5)] show ?thesis
    by (simp add: rune_count_def)
qed

lemma guarded_row_ok:
  assumes "validate_catalog cat = None" "\<forall>p\<in>set cat. rune_count (pl_slug p) \<le> 50"
    and "\<forall>g r. bd_ents db g = Some r \<longrightarrow> ent_row_ok r"
    and "begin_locked flt db org = Inr cur" "apply_change cat cur c = Some rec" "guard_change flt db org cur rec = None"
    and "cg_plan c \<in> set assignable_slugs"
  obtains r where "upsert_params rec = Some r" "ent_row_ok r" "record_from_write_row r = rec" "history_params rec = Some r"
proof -
  have rec: "er_plan rec = cg_plan c" "er_present rec" using apply_change_plan [OF assms(5)] by auto
  have num: "0 \<le> er_anchor_day rec" "er_anchor_day rec \<le> 31" "0 \<le> er_events rec" "0 \<le> er_retention rec"
      "rune_count (er_display_name rec) \<le> 150" "er_plan rec = slug_custom \<longleftrightarrow> er_product rec \<noteq> []"
    using assms(6) by (auto simp: guard_change_def max_display_name_len_def split: if_splits option.splits)
  then obtain r where r: "upsert_params rec = Some r"
    by (auto simp: upsert_params_def new_optional_int2_def)
  have state: "er_plan rec = slug_free \<or> er_plan rec = slug_custom"
    using assms(7) rec by (simp add: assignable_slugs_def)
  have len: "rune_count (er_plan rec) \<le> 50" "er_plan rec \<noteq> []"
    using state by (auto simp: slug_defs rune_count_ascii ascii_def)
  have "er_anchor_day rec \<noteq> 0 \<longrightarrow> 1 \<le> er_anchor_day rec \<and> er_anchor_day rec \<le> 31"
    using num(1,2) by linarith
  then have "columns_ok r"
    unfolding columns_ok_params [OF r] slug_custom_def [symmetric]
    using len guarded_pin [OF assms(1-5)] num(3-6) by blast
  then have fine: "ent_row_ok r" using state row_plan [OF r] by (auto simp: ent_row_ok_def slug_defs)
  have "rec\<lparr>er_present := True\<rparr> = rec" using rec(2) by (cases rec) simp
  with row_round_trip [OF r] have "record_from_write_row r = rec" by simp
  with history_of_stored [OF r len(2)] that [OF r fine] show ?thesis by simp
qed

text \<open>
  C8. The guards of \<open>SetPlan\<close> imply the table's constraints: over rows that satisfy them, a
  change is refused with a sentence or stored, and never with a raw check violation or a
  panic, as long as the catalog is valid and its slugs and the actor fit their columns.
\<close>

theorem set_plan_never_violates_checks:
  assumes "validate_catalog cat = None" "\<forall>p\<in>set cat. rune_count (pl_slug p) \<le> 50" "rune_count actor \<le> 150"
    and "\<forall>g r. bd_ents db g = Some r \<longrightarrow> ent_row_ok r"
  shows "set_plan flt cat hid w org actor c db \<notin> {Inl ErrPanic, Inl (ErrDb CheckViolation)}"
proof
  assume bad: "set_plan flt cat hid w org actor c db \<in> {Inl ErrPanic, Inl (ErrDb CheckViolation)}"
  have guard_not: "guard_change flt db org cur rec \<noteq> Some ErrPanic \<and> guard_change flt db org cur rec \<noteq> Some (ErrDb CheckViolation)"
    for cur rec
    by (auto simp: guard_change_def strand_check_def read_live_subscription_def split: option.splits)
  have begin_not: "begin_locked flt db org \<noteq> Inl ErrPanic \<and> begin_locked flt db org \<noteq> Inl (ErrDb CheckViolation)"
    by (auto simp: begin_locked_def split: option.splits)
  define merge where "merge cur = the (apply_change cat cur c)" for cur
  have merge_some: "apply_change cat cur c = Some (merge cur)" for cur
    using apply_change_total [OF assms(1), of cur c] by (auto simp: merge_def)
  obtain cur rec where cur: "begin_locked flt db org = Inr cur" "apply_change cat cur c = Some rec"
      "guard_change flt db org cur rec = None" "cg_plan c \<in> set assignable_slugs" and actor: "trim_space actor \<noteq> []"
      and store: "store_record flt hid w org actor rec db \<in> {Inl ErrPanic, Inl (ErrDb CheckViolation)}"
    using bad guard_not begin_not merge_some
    by (auto simp: set_plan_def split: if_splits sum.splits option.splits)
  obtain r where r: "upsert_params rec = Some r" "ent_row_ok r" "record_from_write_row r = rec" "history_params rec = Some r"
    using guarded_row_ok [OF assms(1,2,4) cur] by blast
  have "actor \<noteq> []" using actor by auto
  then have "history_ok actor r"
    using assms(3) r(2) row_plan [OF r(1)] by (auto simp: history_ok_def ent_row_ok_def)
  with r store show False
    by (auto simp: store_record_def upsert_entitlement_def append_history_def insert_history_def commit_tx_def Let_def
        split: if_splits)
qed

theorem set_plan_never_violates_checks_witness:
  "set_plan no_faults catalog ''x'' 7 ''o'' ''ops'' demo_change demo_billing \<noteq> Inl (ErrDb CheckViolation)"
proof -
  have "\<forall>p\<in>set catalog. rune_count (pl_slug p) \<le> 50" by (simp add: catalog_def slug_defs demo_slug_lengths)
  moreover have "\<forall>g r. bd_ents demo_billing g = Some r \<longrightarrow> ent_row_ok r" by (simp add: demo_billing_def)
  ultimately show ?thesis
    using set_plan_never_violates_checks [OF catalog_valid, of "''ops''" demo_billing no_faults "''x''" 7 "''o''" demo_change]
    by (simp add: demo_slug_lengths)
qed

text \<open>
  C3. A deal in force survives every operator write: while the org's custom subscription is
  live, no sequence of set and clear commands, with whatever faults and catalogs, takes its
  row off custom or changes the product or the plan its renewals are mapped through.
\<close>

theorem deal_survives_entitlement_writes:
  assumes "deal_held org product base db"
  shows "deal_held org product base (run_events ent_step db cmds)"
  using assms by (rule deal.run_inv)

definition demo_live_row :: sub_row where
  "demo_live_row = \<lparr>sr_id = ''i'', sr_org = ''o'', sr_plan = slug_custom, sr_status = ''active'', sr_price = 0,
     sr_currency = USD, sr_provider = ''dodo'', sr_customer = ''c'', sr_provider_status = ''active'', sr_sub = ''s'',
     sr_updated_at = 1, sr_start = None, sr_end = None, sr_grace = None, sr_created = 0\<rparr>"

theorem deal_survives_entitlement_writes_witness:
  "deal_held ''o'' ''prod'' slug_usage
     (run_events ent_step (demo_billing\<lparr>bd_ents := [''o'' \<mapsto> demo_row], bd_subs := [demo_live_row]\<rparr>)
       [CmdClear no_faults ''h'' 9 ''o'' ''ops'', CmdSet no_faults catalog ''x'' 7 ''o'' ''ops'' (demo_change\<lparr>cg_plan := slug_free\<rparr>)])"
  by (rule deal_survives_entitlement_writes)
    (simp add: deal_held_def demo_row_def get_live_row_def demo_live_row_def live_word_def slug_defs)

text \<open>
  The history is complete: whatever sequence of set and clear commands runs, with
  whatever faults, the newest snapshot of every org is its row as it stands, an empty one
  when it was cleared, and an org without a snapshot has no row.
\<close>

theorem history_matches_rows:
  assumes "history_current db"
  shows "history_current (run_events ent_step db cmds)"
  using assms by (rule audit.run_inv)

theorem history_matches_rows_witness:
  "history_current (run_events ent_step demo_billing
     [CmdSet no_faults catalog ''x'' 7 ''o'' ''ops'' demo_change, CmdClear no_faults ''y'' 8 ''o'' ''ops''])"
  by (rule history_matches_rows) (simp add: history_current_def demo_billing_def)

end
