(* ===== verification/Subscription_Store.thy ===== *)
theory Subscription_Store
  imports Entitlement_Store
begin

text \<open>
  The one writer of \<open>billing_subscriptions\<close>: the compare-and-set statement of
  \<open>queries/write/billing.sql\<close>, the late fill of a grace deadline, the product mapping of
  \<open>checkout.go\<close>, and \<open>applySubscription\<close> of \<open>webhook.go\<close>, which the webhook, the
  confirmed checkout and the reconcile pass all write through.
\<close>

section \<open>Statements\<close>

definition sub_key :: "sub_row \<Rightarrow> string \<times> string" where
  "sub_key r = (sr_provider r, sr_sub r)"

text \<open>The column checks; the currency is always the constant the code passes.\<close>

definition sub_row_ok :: "sub_row \<Rightarrow> bool" where
  "sub_row_ok r = (sr_plan r \<noteq> [] \<and> rune_count (sr_plan r) \<le> 50 \<and> 0 \<le> sr_price r \<and> sr_provider r \<noteq> []
     \<and> sr_customer r \<noteq> [] \<and> sr_provider_status r \<noteq> [] \<and> sr_sub r \<noteq> [] \<and> sr_status r \<noteq> [])"

definition find_sub :: "sub_row list \<Rightarrow> string \<times> string \<Rightarrow> sub_row option" where
  "find_sub rs k = List.find (\<lambda>r. sub_key r = k) rs"

definition replace_sub :: "sub_row \<Rightarrow> sub_row list \<Rightarrow> sub_row list" where
  "replace_sub r rs = map (\<lambda>x. if sub_key x = sub_key r then r else x) rs"

text \<open>The partial unique index: another live row of the org.\<close>

definition other_live :: "sub_row list \<Rightarrow> sub_row \<Rightarrow> bool" where
  "other_live rs r = (\<exists>x\<in>set rs. sr_org x = sr_org r \<and> live_word (sr_status x) \<and> sub_key x \<noteq> sub_key r)"

text \<open>The compare-and-set: a newer stamp wins, and on a tie only over a live row.\<close>

definition stamp_wins :: "sub_row \<Rightarrow> time \<Rightarrow> bool" where
  "stamp_wins old at = (sr_updated_at old < at \<or> sr_updated_at old = at \<and> live_word (sr_status old))"

definition merged_sub :: "sub_row \<Rightarrow> sub_row \<Rightarrow> bool \<Rightarrow> sub_row" where
  "merged_sub old new grace_known =
     old\<lparr>sr_currency := sr_currency new, sr_end := sr_end new, sr_start := sr_start new,
         sr_grace := (if grace_known then sr_grace new
                      else if sr_status new = ''past_due'' then sr_grace old
                      else None),
         sr_plan := sr_plan new, sr_price := sr_price new, sr_customer := sr_customer new,
         sr_provider_status := sr_provider_status new, sr_updated_at := sr_updated_at new, sr_status := sr_status new\<rparr>"

definition apply_billing_subscription :: "billing_db \<Rightarrow> sub_row \<Rightarrow> bool \<Rightarrow> (db_error, billing_db \<times> nat) result" where
  "apply_billing_subscription db new grace_known =
     (if \<not> sub_row_ok new then Inl CheckViolation
      else case find_sub (bd_subs db) (sub_key new) of
        Some old \<Rightarrow>
          if \<not> stamp_wins old (sr_updated_at new) then Inr (db, 0)
          else (let r = merged_sub old new grace_known in
                if live_word (sr_status r) \<and> other_live (bd_subs db) r then Inl UniqueViolation
                else Inr (db\<lparr>bd_subs := replace_sub r (bd_subs db)\<rparr>, 1))
      | None \<Rightarrow>
          if live_word (sr_status new) \<and> other_live (bd_subs db) new then Inl UniqueViolation
          else if bd_orgs db (sr_org new) = None then Inl FkViolation
          else Inr (db\<lparr>bd_subs := bd_subs db @ [new]\<rparr>, 1))"

text \<open>\<open>FillBillingSubscriptionGracePeriodEndsAt\<close>, against the database's clock.\<close>

definition fill_row :: "time \<Rightarrow> string \<times> string \<Rightarrow> string \<Rightarrow> time \<Rightarrow> sub_row \<Rightarrow> sub_row" where
  "fill_row db_now k provider_status deadline r =
     (if sub_key r = k \<and> sr_status r = ''past_due'' \<and> sr_provider_status r = provider_status
         \<and> sr_grace r = None \<and> deadline > db_now
      then r\<lparr>sr_grace := Some deadline\<rparr> else r)"

definition fill_grace :: "billing_db \<Rightarrow> time \<Rightarrow> string \<times> string \<Rightarrow> string \<Rightarrow> time \<Rightarrow> billing_db" where
  "fill_grace db db_now k provider_status deadline =
     db\<lparr>bd_subs := map (fill_row db_now k provider_status deadline) (bd_subs db)\<rparr>"

section \<open>The apply\<close>

datatype sub_call =
    ScEnt ent_call | ScInsertDelivery | ScRef | ScStaged | ScCustomer | ScStoredPlan | ScApply | ScFill | ScFinish
  | ScCheckout | ScLatest | ScPrune | ScPruneCheckouts

datatype sub_error =
    ErrNoProvider | ErrNotPurchasable | ErrNoCustomer | ErrCurrencyNotSupported | ErrCheckoutNotForOrg
  | ErrCustomerNotUnique | ErrUnattributable | ErrTwoLiveSubscriptions | ErrSubscriptionUnapplicable
  | ErrCheckoutFailed | ErrSubscriptionNotFound | ErrProvider | ErrNormalize | ErrRowVanished | ErrRand
  | ErrSubDb db_error | ErrEnt ent_error

text \<open>
  What the service is built over: the provider wiring, the billing switch, the catalog, and
  the letter-case table of the runtime.
\<close>

record sub_env =
  se_payments :: "payments option"
  se_enabled :: bool
  se_catalog :: "plan list"
  se_unicode :: "nat \<Rightarrow> nat"

definition normalize_currency :: "sub_env \<Rightarrow> string \<Rightarrow> string" where
  "normalize_currency env v = to_upper (se_unicode env) (trim_space v)"

text \<open>
  \<open>planForProduct\<close>. Go ranges over the product map in no fixed order: the map is a list, and
  what is proved holds for every order of it.
\<close>

definition plan_for_product :: "payments \<Rightarrow> string \<Rightarrow> ent_record \<Rightarrow> (sub_error, string) result" where
  "plan_for_product pay product rec =
     (if product = [] then Inl ErrNotPurchasable
      else case List.find (\<lambda>(slug, pid). pid = product) (pay_products pay) of
        Some (slug, pid) \<Rightarrow> Inr slug
      | None \<Rightarrow> if er_product rec \<noteq> [] \<and> er_product rec = product then Inr slug_custom
                else Inl ErrNotPurchasable)"

text \<open>The plan slug an apply writes: an ending delivery keeps the stored one when its product maps to nothing.\<close>

definition apply_plan :: "(sub_call \<Rightarrow> bool) \<Rightarrow> payments \<Rightarrow> sub_event \<Rightarrow> billing_db \<Rightarrow> ent_record \<Rightarrow> (sub_error, string) result" where
  "apply_plan flt pay event db rec =
     (case plan_for_product pay (ev_product event) rec of
        Inr slug \<Rightarrow> Inr slug
      | Inl e \<Rightarrow>
          if live (ev_status event) \<or> e \<noteq> ErrNotPurchasable then Inl e
          else if flt ScStoredPlan then Inl (ErrSubDb DbFault)
          else (case find_sub (bd_subs db) (pay_name pay, ev_sub event) of
                  None \<Rightarrow> Inl e
                | Some r \<Rightarrow> Inr (sr_plan r)))"

definition unapplicable :: "sub_env \<Rightarrow> sub_event \<Rightarrow> bool" where
  "unapplicable env event =
     (normalize_currency env (ev_currency event) \<noteq> USD \<or> ev_status event = [] \<or> ev_customer event = [] \<or> ev_price event < 0)"

definition event_row :: "payments \<Rightarrow> string \<Rightarrow> time \<Rightarrow> string \<Rightarrow> string \<Rightarrow> sub_event \<Rightarrow> time \<Rightarrow> sub_row" where
  "event_row pay sid db_now org slug event at =
     \<lparr>sr_id = sid, sr_org = org, sr_plan = slug, sr_status = ev_status event, sr_price = ev_price event,
      sr_currency = USD, sr_provider = pay_name pay, sr_customer = ev_customer event,
      sr_provider_status = ev_provider_status event, sr_sub = ev_sub event, sr_updated_at = at,
      sr_start = new_optional_timestamptz (ev_start event), sr_end = new_optional_timestamptz (ev_end event),
      sr_grace = new_optional_timestamptz (ev_grace event), sr_created = db_now\<rparr>"

text \<open>What runs under the org lock, on the row as it stands there.\<close>

definition apply_locked :: "(sub_call \<Rightarrow> bool) \<Rightarrow> payments \<Rightarrow> string \<Rightarrow> time \<Rightarrow> string \<Rightarrow> sub_event \<Rightarrow> time
    \<Rightarrow> billing_db \<Rightarrow> ent_record \<Rightarrow> (sub_error, billing_db \<times> nat) result" where
  "apply_locked flt pay sid db_now org event at db rec =
     (case apply_plan flt pay event db rec of
        Inl e \<Rightarrow> Inl e
      | Inr slug \<Rightarrow>
          if flt ScApply then Inl (ErrSubDb DbFault)
          else (case apply_billing_subscription db (event_row pay sid db_now org slug event at) (ev_grace_known event) of
                  Inl UniqueViolation \<Rightarrow> Inl ErrTwoLiveSubscriptions
                | Inl e \<Rightarrow> Inl (ErrSubDb e)
                | Inr (db1, n) \<Rightarrow>
                    if n = 0 \<and> ev_grace_known event \<and> \<not> is_zero_time (ev_grace event) then
                      (if flt ScFill then Inl (ErrSubDb DbFault)
                       else Inr (fill_grace db1 db_now (pay_name pay, ev_sub event) (ev_provider_status event) (ev_grace event), n))
                    else Inr (db1, n)))"

definition apply_subscription :: "(sub_call \<Rightarrow> bool) \<Rightarrow> sub_env \<Rightarrow> payments \<Rightarrow> string \<Rightarrow> time \<Rightarrow> string \<Rightarrow> sub_event
    \<Rightarrow> time \<Rightarrow> billing_db \<Rightarrow> (sub_error, billing_db \<times> nat) result" where
  "apply_subscription flt env pay sid db_now org event0 at db =
     (if unapplicable env event0 then Inl ErrSubscriptionUnapplicable
      else let event = (if \<not> ev_grace_known event0 then event0\<lparr>ev_grace := zero_time\<rparr> else event0)
           in with_org_lock (\<lambda>c. flt (ScEnt c)) org ErrEnt (apply_locked flt pay sid db_now org event at) db)"

section \<open>Laws of the statements\<close>

lemma find_sub_mem: "find_sub rs k = Some r \<Longrightarrow> r \<in> set rs \<and> sub_key r = k"
  by (auto simp: find_sub_def find_Some_iff)

lemma find_sub_None: "find_sub rs k = None \<longleftrightarrow> (\<forall>x\<in>set rs. sub_key x \<noteq> k)"
  by (auto simp: find_sub_def find_None_iff)

lemma merged_key [simp]: "sub_key (merged_sub old new k) = sub_key old" "sr_org (merged_sub old new k) = sr_org old"
  "sr_status (merged_sub old new k) = sr_status new" "sr_updated_at (merged_sub old new k) = sr_updated_at new"
  "sr_plan (merged_sub old new k) = sr_plan new"
  by (simp_all add: merged_sub_def sub_key_def)

lemma keys_replace: "map sub_key (replace_sub r rs) = map sub_key rs"
  by (simp add: replace_sub_def)

lemma find_replace:
  "find_sub (replace_sub r rs) k =
     (if k = sub_key r \<and> find_sub rs k \<noteq> None then Some r else find_sub rs k)"
  by (induction rs) (auto simp: find_sub_def replace_sub_def)

lemma find_append: "find_sub (rs @ [r]) k = (case find_sub rs k of Some x \<Rightarrow> Some x | None \<Rightarrow> if sub_key r = k then Some r else None)"
  by (induction rs) (auto simp: find_sub_def)

lemma find_map_same_key:
  "(\<And>x. sub_key (f x) = sub_key x) \<Longrightarrow> find_sub (map f rs) k = map_option f (find_sub rs k)"
  by (induction rs) (auto simp: find_sub_def)

text \<open>The live rows of an org; the index keeps them to one.\<close>

definition live_rows :: "sub_row list \<Rightarrow> string \<Rightarrow> sub_row list" where
  "live_rows rs org = filter (\<lambda>r. sr_org r = org \<and> live_word (sr_status r)) rs"

definition subs_ok :: "billing_db \<Rightarrow> bool" where
  "subs_ok db = (distinct (map sub_key (bd_subs db)) \<and> (\<forall>org. length (live_rows (bd_subs db) org) \<le> 1))"

lemma live_rows_replace:
  assumes "distinct (map sub_key rs)" "length (live_rows rs org) \<le> 1" "find_sub rs (sub_key r) = Some old"
    and "sr_org r = sr_org old" "\<not> (live_word (sr_status r) \<and> other_live rs r)"
  shows "length (live_rows (replace_sub r rs) org) \<le> 1"
proof (cases "live_word (sr_status r) \<and> sr_org r = org")
  case True
  with assms(5) have none: "\<forall>x\<in>set rs. sr_org x = org \<and> live_word (sr_status x) \<longrightarrow> sub_key x = sub_key r"
    by (auto simp: other_live_def)
  have "live_rows (replace_sub r rs) org = filter (\<lambda>x. sub_key x = sub_key r) (replace_sub r rs)"
    unfolding live_rows_def using True none by (intro filter_cong) (auto simp: replace_sub_def)
  moreover have "distinct (map sub_key (replace_sub r rs))" using assms(1) by (simp add: keys_replace)
  then have "length (filter (\<lambda>x. sub_key x = sub_key r) (replace_sub r rs)) \<le> 1"
    by (rule distinct_filter_key)
  ultimately show ?thesis by simp
next
  case False
  have "length (live_rows (replace_sub r rs) org) \<le> length (live_rows rs org)"
    using False by (induction rs) (auto simp: live_rows_def replace_sub_def)
  with assms(2) show ?thesis by linarith
qed

lemma live_rows_append:
  assumes "length (live_rows rs org) \<le> 1" "find_sub rs (sub_key r) = None" "\<not> (live_word (sr_status r) \<and> other_live rs r)"
  shows "length (live_rows (rs @ [r]) org) \<le> 1"
proof (cases "live_word (sr_status r) \<and> sr_org r = org")
  case True
  with assms(2,3) have "live_rows rs org = []"
    by (auto simp: other_live_def live_rows_def filter_empty_conv find_sub_None)
  then show ?thesis by (simp add: live_rows_def)
qed (use assms(1) in \<open>auto simp: live_rows_def\<close>)

lemma apply_stmt_ok:
  assumes "apply_billing_subscription db new g = Inr (db', n)" "subs_ok db"
  shows "subs_ok db'"
proof (cases "find_sub (bd_subs db) (sub_key new)")
  case None
  with assms(1) have "db' = db\<lparr>bd_subs := bd_subs db @ [new]\<rparr>"
      "\<not> (live_word (sr_status new) \<and> other_live (bd_subs db) new)"
    by (auto simp: apply_billing_subscription_def split: if_splits option.splits)
  moreover have "distinct (map sub_key (bd_subs db @ [new]))"
  proof -
    have "sub_key new \<notin> sub_key ` set (bd_subs db)" using None unfolding find_sub_None by fastforce
    then show ?thesis using assms(2) by (simp add: subs_ok_def)
  qed
  moreover have "length (live_rows (bd_subs db @ [new]) org) \<le> 1" for org
    using None assms(2) calculation(2) by (intro live_rows_append) (simp_all add: subs_ok_def)
  ultimately show ?thesis by (simp add: subs_ok_def)
next
  case (Some old)
  define r where "r = merged_sub old new g"
  have key: "sub_key r = sub_key new" using find_sub_mem [OF Some] by (simp add: r_def)
  have "apply_billing_subscription db new g =
      (if \<not> sub_row_ok new then Inl CheckViolation
       else if \<not> stamp_wins old (sr_updated_at new) then Inr (db, 0)
       else if live_word (sr_status r) \<and> other_live (bd_subs db) r then Inl UniqueViolation
       else Inr (db\<lparr>bd_subs := replace_sub r (bd_subs db)\<rparr>, 1))"
    unfolding apply_billing_subscription_def Some r_def Let_def option.case by (rule refl)
  note eq = this
  show ?thesis
  proof (cases "sub_row_ok new \<and> stamp_wins old (sr_updated_at new)
      \<and> \<not> (live_word (sr_status r) \<and> other_live (bd_subs db) r)")
    case True
    then have "db' = db\<lparr>bd_subs := replace_sub r (bd_subs db)\<rparr>"
      using assms(1) unfolding eq by (metis Inr_inject prod.inject)
    moreover have "length (live_rows (replace_sub r (bd_subs db)) org) \<le> 1" for org
    proof (rule live_rows_replace)
      show "find_sub (bd_subs db) (sub_key r) = Some old" using Some key by simp
    qed (use assms(2) True in \<open>auto simp: subs_ok_def r_def\<close>)
    ultimately show ?thesis using assms(2) by (simp add: subs_ok_def keys_replace)
  next
    case False
    then have "db' = db" using assms(1) unfolding eq by (metis Inr_inject prod.inject Inr_Inl_False)
    then show ?thesis using assms(2) by simp
  qed
qed

lemma fill_row_fields [simp]:
  "sub_key (fill_row w k ps d r) = sub_key r" "sr_org (fill_row w k ps d r) = sr_org r"
  "sr_status (fill_row w k ps d r) = sr_status r" "sr_updated_at (fill_row w k ps d r) = sr_updated_at r"
  "sr_plan (fill_row w k ps d r) = sr_plan r"
  by (simp_all add: fill_row_def sub_key_def)

lemma fill_grace_fields [simp]:
  "bd_subs (fill_grace db w k ps d) = map (fill_row w k ps d) (bd_subs db)"
  "bd_orgs (fill_grace db w k ps d) = bd_orgs db" "bd_ents (fill_grace db w k ps d) = bd_ents db"
  "bd_history (fill_grace db w k ps d) = bd_history db" "bd_deliveries (fill_grace db w k ps d) = bd_deliveries db"
  "bd_checkouts (fill_grace db w k ps d) = bd_checkouts db"
  by (simp_all add: fill_grace_def)

lemma fill_grace_ok: "subs_ok db \<Longrightarrow> subs_ok (fill_grace db w k ps d)"
proof -
  have "sub_key \<circ> fill_row w k ps d = sub_key"
    by (rule ext) simp
  moreover have "length (live_rows (map (fill_row w k ps d) rs) org) = length (live_rows rs org)" for rs org
    by (induction rs) (simp_all add: live_rows_def)
  moreover assume "subs_ok db"
  ultimately show ?thesis by (simp add: subs_ok_def)
qed

end
