(* ===== verification/Webhook.thy ===== *)
theory Webhook
  imports Subscription_Store
begin

text \<open>
  The inbox of \<open>internal/core/billing/subscription/webhook.go\<close> and the money paths of
  \<open>checkout.go\<close>: a delivery is stored, normalized, attributed to an org and applied; a
  checkout mints a ref and is confirmed against it. The provider's answers are arguments:
  \<open>norm\<close> is its \<open>Normalize\<close>, \<open>outcome\<close> its checkout read. A handler is one step;
  only what it writes under the org lock is undone by an error.
\<close>

section \<open>The delivery inbox\<close>

text \<open>\<open>storablePayload\<close>; \<open>valid\<close> is \<open>json.Valid\<close>.\<close>

definition b64_chars :: string where
  "b64_chars = ''ABCDEFGHIJKLMNOPQRSTUVWXYZabcdefghijklmnopqrstuvwxyz0123456789+/''"

fun b64 :: "nat list \<Rightarrow> string" where
  "b64 [] = []"
| "b64 [a] = [b64_chars ! (a div 4), b64_chars ! (a mod 4 * 16), CHR ''='', CHR ''='']"
| "b64 [a, b] = [b64_chars ! (a div 4), b64_chars ! (a mod 4 * 16 + b div 16), b64_chars ! (b mod 16 * 4), CHR ''='']"
| "b64 (a # b # c # s) = [b64_chars ! (a div 4), b64_chars ! (a mod 4 * 16 + b div 16),
     b64_chars ! (b mod 16 * 4 + c div 64), b64_chars ! (c mod 64)] @ b64 s"

fun has_infix :: "string \<Rightarrow> string \<Rightarrow> bool" where
  "has_infix p [] = (p = [])"
| "has_infix p (c # s) = (starts_with (c # s) p \<or> has_infix p s)"

definition quote_char :: char where
  "quote_char = CHR 0x22"

definition storable_payload :: "(string \<Rightarrow> bool) \<Rightarrow> string \<Rightarrow> string" where
  "storable_payload valid raw =
     (if valid raw \<and> \<not> has_infix (CHR 0x5C # ''u0000'') raw then raw
      else ''{'' @ [quote_char] @ ''raw_base64'' @ [quote_char] @ '':'' @ [quote_char]
           @ b64 (map of_char raw) @ [quote_char] @ ''}'')"

definition delivery_key :: "delivery_row \<Rightarrow> string \<times> string" where
  "delivery_key r = (dr_provider r, dr_webhook r)"

definition find_delivery :: "delivery_row list \<Rightarrow> string \<times> string \<Rightarrow> delivery_row option" where
  "find_delivery rs k = List.find (\<lambda>r. delivery_key r = k) rs"

text \<open>\<open>InsertBillingWebhookDelivery\<close> returns the row that stands, new or from an earlier try.\<close>

definition insert_delivery :: "billing_db \<Rightarrow> delivery_row \<Rightarrow> (db_error, billing_db \<times> delivery_row) result" where
  "insert_delivery db r =
     (if dr_provider r = [] \<or> dr_webhook r = [] then Inl CheckViolation
      else case find_delivery (bd_deliveries db) (delivery_key r) of
        Some old \<Rightarrow> Inr (db, old)
      | None \<Rightarrow> Inr (db\<lparr>bd_deliveries := bd_deliveries db @ [r]\<rparr>, r))"

definition mark_processed :: "billing_db \<Rightarrow> time \<Rightarrow> string \<times> string \<Rightarrow> string \<Rightarrow> billing_db \<times> nat" where
  "mark_processed db db_now k reason =
     (db\<lparr>bd_deliveries := map (\<lambda>r. if delivery_key r = k then r\<lparr>dr_processed := Some db_now, dr_error := reason\<rparr> else r)
                           (bd_deliveries db)\<rparr>,
      length (filter (\<lambda>r. delivery_key r = k) (bd_deliveries db)))"

section \<open>Attribution\<close>

definition checkout_org :: "billing_db \<Rightarrow> string \<Rightarrow> string \<Rightarrow> string option" where
  "checkout_org db provider ref =
     map_option cr_org (List.find (\<lambda>r. cr_provider r = provider \<and> cr_ref r = ref) (bd_checkouts db))"

definition staged_product :: "billing_db \<Rightarrow> string \<Rightarrow> string option" where
  "staged_product db org = (case bd_ents db org of None \<Rightarrow> None | Some r \<Rightarrow> ew_product r)"

definition customer_orgs :: "billing_db \<Rightarrow> string \<Rightarrow> string \<Rightarrow> string list" where
  "customer_orgs db provider customer =
     take 2 (remdups (map sr_org (filter (\<lambda>r. sr_provider r = provider \<and> sr_customer r = customer) (bd_subs db))))"

definition attribute_customer :: "(sub_call \<Rightarrow> bool) \<Rightarrow> string \<Rightarrow> sub_event \<Rightarrow> billing_db \<Rightarrow> (sub_error, string) result" where
  "attribute_customer flt provider event db =
     (if ev_customer event = [] then Inl ErrUnattributable
      else if flt ScCustomer then Inl (ErrSubDb DbFault)
      else case customer_orgs db provider (ev_customer event) of
        [] \<Rightarrow> Inl ErrUnattributable
      | [org] \<Rightarrow> Inr org
      | _ \<Rightarrow> Inl ErrCustomerNotUnique)"

definition attribute_staged :: "(sub_call \<Rightarrow> bool) \<Rightarrow> string \<Rightarrow> sub_event \<Rightarrow> billing_db \<Rightarrow> (sub_error, string) result" where
  "attribute_staged flt provider event db =
     (if ev_org event \<noteq> [] \<and> ev_product event \<noteq> [] then
        (if flt ScStaged then Inl (ErrSubDb DbFault)
         else if staged_product db (ev_org event) = Some (ev_product event) then Inr (ev_org event)
         else attribute_customer flt provider event db)
      else attribute_customer flt provider event db)"

definition attribute_delivery :: "(sub_call \<Rightarrow> bool) \<Rightarrow> string \<Rightarrow> sub_event \<Rightarrow> billing_db \<Rightarrow> (sub_error, string) result" where
  "attribute_delivery flt provider event db =
     (if ev_ref event \<noteq> [] then
        (if flt ScRef then Inl (ErrSubDb DbFault)
         else case checkout_org db provider (ev_ref event) of
           Some org \<Rightarrow> Inr org
         | None \<Rightarrow> attribute_staged flt provider event db)
      else attribute_staged flt provider event db)"

section \<open>Handling a delivery\<close>

definition finish_delivery :: "(sub_call \<Rightarrow> bool) \<Rightarrow> time \<Rightarrow> string \<times> string \<Rightarrow> string \<Rightarrow> billing_db \<Rightarrow> billing_db \<times> sub_error option" where
  "finish_delivery flt db_now k reason db =
     (if flt ScFinish then (db, Some (ErrSubDb DbFault))
      else let (db', n) = mark_processed db db_now k reason
           in (db', if n = 0 then Some ErrRowVanished else None))"

text \<open>A refusal's reason starts with its kind, the word an operator searches by.\<close>

definition reject_delivery :: "(sub_call \<Rightarrow> bool) \<Rightarrow> time \<Rightarrow> string \<times> string \<Rightarrow> string \<Rightarrow> billing_db \<Rightarrow> billing_db \<times> sub_error option" where
  "reject_delivery flt db_now k kind db = finish_delivery flt db_now k (kind @ '': '') db"

definition apply_event :: "(sub_call \<Rightarrow> bool) \<Rightarrow> sub_env \<Rightarrow> payments \<Rightarrow> string \<Rightarrow> time \<Rightarrow> delivery \<Rightarrow> sub_event \<Rightarrow> billing_db
    \<Rightarrow> billing_db \<times> sub_error option" where
  "apply_event flt env pay sid db_now d event db =
     (let k = (pay_name pay, dl_webhook_id d) in
      if normalize_currency env (ev_currency event) \<noteq> USD then reject_delivery flt db_now k ''currency'' db
      else if ev_status event = [] then reject_delivery flt db_now k ''status'' db
      else if ev_customer event = [] then reject_delivery flt db_now k ''customer'' db
      else if ev_price event < 0 then reject_delivery flt db_now k ''price'' db
      else case attribute_delivery flt (pay_name pay) event db of
        Inl e \<Rightarrow> if e = ErrUnattributable \<or> e = ErrCustomerNotUnique
                 then reject_delivery flt db_now k ''attribution'' db
                 else (db, Some e)
      | Inr org \<Rightarrow>
          (case apply_subscription flt env pay sid db_now org event (dl_delivered_at d) db of
             Inl e \<Rightarrow> if e = ErrNotPurchasable then reject_delivery flt db_now k ''product'' db else (db, Some e)
           | Inr (db', n) \<Rightarrow> finish_delivery flt db_now k [] db'))"

definition handle_delivery :: "(sub_call \<Rightarrow> bool) \<Rightarrow> sub_env \<Rightarrow> (string \<Rightarrow> bool) \<Rightarrow> (delivery \<Rightarrow> ('n, sub_event) result)
    \<Rightarrow> string \<Rightarrow> time \<Rightarrow> delivery \<Rightarrow> billing_db \<Rightarrow> billing_db \<times> sub_error option" where
  "handle_delivery flt env valid norm sid db_now d db =
     (case se_payments env of
        None \<Rightarrow> (db, Some ErrNoProvider)
      | Some pay \<Rightarrow>
          if flt ScInsertDelivery then (db, Some (ErrSubDb DbFault))
          else (case insert_delivery db \<lparr>dr_provider = pay_name pay, dr_webhook = dl_webhook_id d,
                       dr_event_type = dl_event_type d, dr_payload = storable_payload valid (dl_payload d),
                       dr_received = db_now, dr_processed = None, dr_error = []\<rparr> of
                  Inl e \<Rightarrow> (db, Some (ErrSubDb e))
                | Inr (db1, stored) \<Rightarrow>
                    if dr_processed stored \<noteq> None then (db1, None)
                    else (case norm d of
                            Inl e \<Rightarrow> (db1, Some ErrNormalize)
                          | Inr event \<Rightarrow>
                              if event_is_zero event then finish_delivery flt db_now (pay_name pay, dl_webhook_id d) [] db1
                              else apply_event flt env pay sid db_now d event db1)))"

text \<open>\<open>PruneDeliveries\<close>: settled deliveries by when they settled, the rest by when they came.\<close>

definition prune_deliveries :: "(sub_call \<Rightarrow> bool) \<Rightarrow> time \<Rightarrow> billing_db \<Rightarrow> billing_db \<times> sub_error option" where
  "prune_deliveries flt older_than db =
     (if flt ScPrune then (db, Some (ErrSubDb DbFault))
      else let db1 = db\<lparr>bd_deliveries := filter (\<lambda>r. \<not> (case dr_processed r of None \<Rightarrow> dr_received r | Some t \<Rightarrow> t) < older_than)
                                          (bd_deliveries db)\<rparr>
           in if flt ScPruneCheckouts then (db1, Some (ErrSubDb DbFault))
              else (db1\<lparr>bd_checkouts := filter (\<lambda>r. \<not> cr_created r < older_than) (bd_checkouts db1)\<rparr>, None))"

end
