(* ===== verification/Checkout.thy ===== *)
theory Checkout
  imports Webhook
begin

text \<open>
  Buying and confirming, \<open>internal/core/billing/subscription/checkout.go\<close>: what an org is
  offered, the checkout that mints a ref before the provider is called, the confirmation
  that only believes a ref minted for the same org, and the portal.
\<close>

definition takes_money :: "sub_env \<Rightarrow> bool" where
  "takes_money env = (se_enabled env \<and> configured (se_payments env))"

definition checkout_product :: "sub_env \<Rightarrow> ent_record \<Rightarrow> string \<Rightarrow> (sub_error, string) result" where
  "checkout_product env rec slug =
     (case se_payments env of
        None \<Rightarrow> Inl ErrNoProvider
      | Some pay \<Rightarrow>
          if slug = slug_custom then
            (if er_product rec = [] then Inl ErrNotPurchasable else Inr (er_product rec))
          else (case map_of (pay_products pay) slug of
                  None \<Rightarrow> Inl ErrNotPurchasable
                | Some pid \<Rightarrow> if pid = [] then Inl ErrNotPurchasable else Inr pid))"

record plan_option =
  po_slug :: string
  po_name :: string
  po_events :: "int option"
  po_retention :: "int option"
  po_purchasable :: bool
  po_product :: string

definition offer :: "sub_env \<Rightarrow> ent_record \<Rightarrow> plan_option \<Rightarrow> plan_option" where
  "offer env rec p =
     (if \<not> takes_money env then p
      else case checkout_product env rec (po_slug p) of
        Inl e \<Rightarrow> p
      | Inr pid \<Rightarrow> p\<lparr>po_purchasable := True, po_product := pid\<rparr>)"

definition offers_from :: "sub_env \<Rightarrow> plan list \<Rightarrow> ent_record \<Rightarrow> plan_option list" where
  "offers_from env plans rec =
     map (\<lambda>p. offer env rec \<lparr>po_slug = pl_slug p, po_name = pl_name p, po_events = Some (pl_free p),
                po_retention = Some (pl_retention p), po_purchasable = False, po_product = []\<rparr>)
       (filter on_sale plans)
     @ (if er_product rec \<noteq> []
        then [offer env rec \<lparr>po_slug = slug_custom, po_name = custom_display_name, po_events = None,
                po_retention = None, po_purchasable = False, po_product = []\<rparr>]
        else [])"

definition offers :: "sub_env \<Rightarrow> ent_record \<Rightarrow> plan_option list" where
  "offers env rec = offers_from env (se_catalog env) rec"

definition purchasable :: "sub_env \<Rightarrow> ent_record \<Rightarrow> bool" where
  "purchasable env rec = list_ex po_purchasable (offers env rec)"

definition plan_options :: "(sub_call \<Rightarrow> bool) \<Rightarrow> sub_env \<Rightarrow> billing_db \<Rightarrow> string \<Rightarrow> (ent_error, plan_option list) result" where
  "plan_options flt env db org =
     (case stored_record (\<lambda>c. flt (ScEnt c)) db org of Inl e \<Rightarrow> Inl e | Inr rec \<Rightarrow> Inr (offers env rec))"

text \<open>
  \<open>CreateCheckoutSession\<close>. \<open>mint\<close> is the random ref, \<open>None\<close> when the reader fails, and
  \<open>create\<close> the provider's answer to (ref, org, product). The primary key refuses a ref that
  is already there.
\<close>

definition insert_checkout :: "billing_db \<Rightarrow> checkout_row \<Rightarrow> (db_error, billing_db) result" where
  "insert_checkout db r =
     (if cr_provider r = [] \<or> cr_ref r = [] then Inl CheckViolation
      else if \<exists>x\<in>set (bd_checkouts db). cr_ref x = cr_ref r then Inl UniqueViolation
      else if bd_orgs db (cr_org r) = None then Inl FkViolation
      else Inr (db\<lparr>bd_checkouts := bd_checkouts db @ [r]\<rparr>))"

definition chosen_product :: "sub_env \<Rightarrow> ent_record \<Rightarrow> string \<Rightarrow> string" where
  "chosen_product env rec slug =
     foldl (\<lambda>pid p. if po_slug p = slug \<and> po_purchasable p then po_product p else pid) [] (offers env rec)"

definition create_checkout_session :: "(sub_call \<Rightarrow> bool) \<Rightarrow> sub_env \<Rightarrow> string option
    \<Rightarrow> (string \<Rightarrow> string \<Rightarrow> string \<Rightarrow> (sub_error, string \<times> string) result) \<Rightarrow> time \<Rightarrow> string \<Rightarrow> string \<Rightarrow> billing_db
    \<Rightarrow> billing_db \<times> (sub_error, string \<times> string) result" where
  "create_checkout_session flt env mint create db_now org slug db =
     (case se_payments env of
        None \<Rightarrow> (db, Inl ErrNoProvider)
      | Some pay \<Rightarrow>
          if \<not> takes_money env then (db, Inl ErrNoProvider)
          else if slug = slug_free then (db, Inl ErrNotPurchasable)
          else if plan_by_slug (se_catalog env) slug = None \<and> slug \<noteq> slug_custom then (db, Inl (ErrEnt ErrPlanNotFound))
          else case stored_record (\<lambda>c. flt (ScEnt c)) db org of
            Inl e \<Rightarrow> (db, Inl (ErrEnt e))
          | Inr rec \<Rightarrow>
              (let pid = chosen_product env rec slug in
               if pid = [] then (db, Inl ErrNotPurchasable)
               else case mint of
                 None \<Rightarrow> (db, Inl ErrRand)
               | Some ref \<Rightarrow>
                   if flt ScCheckout then (db, Inl (ErrSubDb DbFault))
                   else (case insert_checkout db \<lparr>cr_org = org, cr_provider = pay_name pay, cr_ref = ref, cr_created = db_now\<rparr> of
                           Inl e \<Rightarrow> (db, Inl (ErrSubDb e))
                         | Inr db1 \<Rightarrow> (db1, create ref org pid))))"

definition latest_sub :: "billing_db \<Rightarrow> string \<Rightarrow> string \<Rightarrow> sub_row option" where
  "latest_sub db org provider =
     (case filter (\<lambda>r. sr_org r = org \<and> sr_provider r = provider) (bd_subs db) of
        [] \<Rightarrow> None
      | r # rs \<Rightarrow> Some (foldl (\<lambda>a x. if sr_created x > sr_created a then x else a) r rs))"

definition any_provider_customer :: "(sub_call \<Rightarrow> bool) \<Rightarrow> sub_env \<Rightarrow> billing_db \<Rightarrow> string \<Rightarrow> (sub_error, string) result" where
  "any_provider_customer flt env db org =
     (case se_payments env of
        None \<Rightarrow> Inl ErrNoProvider
      | Some pay \<Rightarrow>
          if flt ScLatest then Inl (ErrSubDb DbFault)
          else (case latest_sub db org (pay_name pay) of
                  None \<Rightarrow> Inl ErrNoCustomer
                | Some r \<Rightarrow> if sr_customer r = [] then Inl ErrNoCustomer else Inr (sr_customer r)))"

definition manageable :: "(sub_call \<Rightarrow> bool) \<Rightarrow> sub_env \<Rightarrow> billing_db \<Rightarrow> string \<Rightarrow> bool" where
  "manageable flt env db org =
     (if \<not> takes_money env then False
      else case any_provider_customer flt env db org of Inl e \<Rightarrow> False | Inr c \<Rightarrow> c \<noteq> [])"

definition create_portal_session :: "(sub_call \<Rightarrow> bool) \<Rightarrow> sub_env \<Rightarrow> (string \<Rightarrow> (sub_error, string) result) \<Rightarrow> billing_db
    \<Rightarrow> string \<Rightarrow> (sub_error, string) result" where
  "create_portal_session flt env portal db org =
     (if \<not> takes_money env then Inl ErrNoProvider
      else case any_provider_customer flt env db org of Inl e \<Rightarrow> Inl e | Inr c \<Rightarrow> portal c)"

text \<open>\<open>ConfirmCheckout\<close>: the tables, and whether the buyer holds a live plan now.\<close>

definition confirm_checkout :: "(sub_call \<Rightarrow> bool) \<Rightarrow> sub_env \<Rightarrow> (string \<Rightarrow> (sub_error, sub_event) result) \<Rightarrow> string \<Rightarrow> time
    \<Rightarrow> string \<Rightarrow> string \<Rightarrow> time \<Rightarrow> billing_db \<Rightarrow> billing_db \<times> (sub_error, bool) result" where
  "confirm_checkout flt env outcome sid db_now org session now db =
     (case se_payments env of
        None \<Rightarrow> (db, Inl ErrNoProvider)
      | Some pay \<Rightarrow>
          if \<not> takes_money env then (db, Inl ErrNoProvider)
          else case outcome session of
            Inl e \<Rightarrow> (db, Inl e)
          | Inr event \<Rightarrow>
              if event_is_zero event then (db, Inr False)
              else if ev_org event = [] \<or> ev_org event \<noteq> org then (db, Inl ErrCheckoutNotForOrg)
              else if flt ScRef then (db, Inl (ErrSubDb DbFault))
              else if checkout_org db (pay_name pay) (ev_ref event) \<noteq> Some org then (db, Inl ErrCheckoutNotForOrg)
              else if ev_status event = [] then (db, Inl ErrSubscriptionUnapplicable)
              else if normalize_currency env (ev_currency event) \<noteq> USD then (db, Inl ErrCurrencyNotSupported)
              else case stored_record (\<lambda>c. flt (ScEnt c)) db org of
                Inl e \<Rightarrow> (db, Inl (ErrEnt e))
              | Inr rec \<Rightarrow>
                  (case plan_for_product pay (ev_product event) rec of
                     Inl e \<Rightarrow> (db, Inl e)
                   | Inr slug \<Rightarrow>
                       (case apply_subscription flt env pay sid db_now org event now db of
                          Inl e \<Rightarrow> (db, Inl e)
                        | Inr (db', n) \<Rightarrow> (db', Inr (live (ev_status event))))))"

end
