(* ===== verification/Reconcile.thy ===== *)
theory Reconcile
  imports Checkout
begin

text \<open>
  The reconcile pass, \<open>internal/core/billing/subscription/reconcile.go\<close>: every stored
  subscription is re-read from the provider and written through the same compare-and-set,
  and what cannot be settled lands on a counter. \<open>fetch\<close> is the provider's read and
  \<open>verify\<close> its metering check. The subscriptions are read in pages of 500, in the order of
  their ids.
\<close>

definition reconcile_page_size :: nat where
  "reconcile_page_size = 500"

definition delivery_retention :: duration where
  "delivery_retention = 90 * 24 * hour"

definition delivery_stale_after :: duration where
  "delivery_stale_after = 24 * hour"

record report =
  rp_checked :: nat
  rp_applied :: nat
  rp_untracked :: nat
  rp_unbilled :: nat
  rp_unmapped :: nat
  rp_unreadable :: nat
  rp_unapplicable :: nat
  rp_two_live :: nat
  rp_rejected :: nat
  rp_stranded :: nat
  rp_misconfigured :: nat

definition empty_report :: report where
  "empty_report = \<lparr>rp_checked = 0, rp_applied = 0, rp_untracked = 0, rp_unbilled = 0, rp_unmapped = 0,
     rp_unreadable = 0, rp_unapplicable = 0, rp_two_live = 0, rp_rejected = 0, rp_stranded = 0, rp_misconfigured = 0\<rparr>"

text \<open>\<open>reconcileOne\<close>; the faults of one row's calls are \<open>flt\<close>.\<close>

definition reconcile_one :: "(sub_call \<Rightarrow> bool) \<Rightarrow> sub_env \<Rightarrow> payments \<Rightarrow> (string \<Rightarrow> (sub_error, sub_event) result) \<Rightarrow> string
    \<Rightarrow> time \<Rightarrow> time \<Rightarrow> sub_row \<Rightarrow> billing_db \<times> report \<Rightarrow> billing_db \<times> report" where
  "reconcile_one flt env pay fetch sid db_now now row acc =
     (let (db, rep0) = acc;
          rep = rep0\<lparr>rp_checked := rp_checked rep0 + 1\<rparr>
      in case fetch (sr_sub row) of
           Inl e \<Rightarrow> if e = ErrSubscriptionNotFound
                    then (db, rep\<lparr>rp_untracked := rp_untracked rep + 1\<rparr>)
                    else (db, rep\<lparr>rp_unreadable := rp_unreadable rep + 1\<rparr>)
         | Inr event \<Rightarrow>
             if event_is_zero event then (db, rep\<lparr>rp_unreadable := rp_unreadable rep + 1\<rparr>)
             else case stored_record (\<lambda>c. flt (ScEnt c)) db (sr_org row) of
               Inl e \<Rightarrow> (db, rep\<lparr>rp_unreadable := rp_unreadable rep + 1\<rparr>)
             | Inr rec \<Rightarrow>
                 (case apply_subscription flt env pay sid db_now (sr_org row) event now db of
                    Inl ErrTwoLiveSubscriptions \<Rightarrow> (db, rep\<lparr>rp_two_live := rp_two_live rep + 1\<rparr>)
                  | Inl ErrSubscriptionUnapplicable \<Rightarrow> (db, rep\<lparr>rp_unapplicable := rp_unapplicable rep + 1\<rparr>)
                  | Inl ErrNotPurchasable \<Rightarrow> (db, rep\<lparr>rp_unmapped := rp_unmapped rep + 1\<rparr>)
                  | Inl e \<Rightarrow> (db, rep\<lparr>rp_unreadable := rp_unreadable rep + 1\<rparr>)
                  | Inr (db', n) \<Rightarrow> (db', if n > 0 then rep\<lparr>rp_applied := rp_applied rep + 1\<rparr> else rep)))"

text \<open>
  The calls of the pass: per row \<open>k\<close> in walk order the context check, its own calls and the
  fresh id of a first insert; per page the list.
\<close>

datatype rec_call =
    RcList nat | RcCtx nat | RcRow nat sub_call | RcUnbilled | RcDeals | RcDealCtx nat | RcRejected | RcStranded

datatype rec_error = RecDb | RecCut

text \<open>Walking one page; the flag says the pass was cut short.\<close>

fun reconcile_rows :: "(rec_call \<Rightarrow> bool) \<Rightarrow> sub_env \<Rightarrow> payments \<Rightarrow> (string \<Rightarrow> (sub_error, sub_event) result)
    \<Rightarrow> (nat \<Rightarrow> string) \<Rightarrow> time \<Rightarrow> time \<Rightarrow> nat \<Rightarrow> sub_row list \<Rightarrow> billing_db \<times> report \<Rightarrow> (billing_db \<times> report) \<times> bool" where
  "reconcile_rows flt env pay fetch ids db_now now k [] acc = (acc, False)"
| "reconcile_rows flt env pay fetch ids db_now now k (row # rows) acc =
     (if flt (RcCtx k) then (acc, True)
      else reconcile_rows flt env pay fetch ids db_now now (k + 1) rows
             (reconcile_one (\<lambda>c. flt (RcRow k c)) env pay fetch (ids k) db_now now row acc))"

definition sub_page :: "payments \<Rightarrow> nat \<Rightarrow> billing_db \<Rightarrow> sub_row list" where
  "sub_page pay offset db =
     take reconcile_page_size (drop offset (sort_key sr_id (filter (\<lambda>r. sr_provider r = pay_name pay) (bd_subs db))))"

text \<open>
  The paging loop. A full page that stays full never ends it, so it has fuel, one per page;
  \<open>None\<close> is running out. The writes of the pass add no row, so the rows there are bound it.
\<close>

fun reconcile_pages :: "nat \<Rightarrow> (rec_call \<Rightarrow> bool) \<Rightarrow> sub_env \<Rightarrow> payments \<Rightarrow> (string \<Rightarrow> (sub_error, sub_event) result)
    \<Rightarrow> (nat \<Rightarrow> string) \<Rightarrow> time \<Rightarrow> time \<Rightarrow> nat \<Rightarrow> billing_db \<times> report \<Rightarrow> ((billing_db \<times> report) \<times> rec_error option) option" where
  "reconcile_pages 0 flt env pay fetch ids db_now now offset acc = None"
| "reconcile_pages (Suc fuel) flt env pay fetch ids db_now now offset acc =
     (if flt (RcList offset) then Some (acc, Some RecDb)
      else let rows = sub_page pay offset (fst acc);
               (acc', cut) = reconcile_rows flt env pay fetch ids db_now now offset rows acc
           in if cut then Some (acc', Some RecCut)
              else if length rows < reconcile_page_size then Some (acc', None)
              else reconcile_pages fuel flt env pay fetch ids db_now now (offset + reconcile_page_size) acc')"

definition unbilled_deals :: "billing_db \<Rightarrow> time \<Rightarrow> string list \<Rightarrow> nat" where
  "unbilled_deals db db_now orgs =
     length (filter (\<lambda>g. case bd_ents db g of None \<Rightarrow> False
        | Some e \<Rightarrow> ew_plan e = Some ''custom'' \<and> (case ew_contract e of None \<Rightarrow> True | Some t \<Rightarrow> t > db_now)
            \<and> \<not> (\<exists>s\<in>set (bd_subs db). sr_org s = g \<and> live_word (sr_status s) \<and> sr_plan s = ''custom'')) orgs)"

text \<open>\<open>checkDealMetering\<close>: the provider's verdict, or a deal pinned to an unknown plan.\<close>

datatype verdict = MeteringFine | MeteringMisconfigured | MeteringUnread

definition check_deal :: "plan list \<Rightarrow> (nat \<Rightarrow> string \<Rightarrow> verdict) \<Rightarrow> string \<times> string \<Rightarrow> report \<Rightarrow> report" where
  "check_deal cat verify deal rep =
     (case (case plan_by_slug cat (fst deal) of
              Some p \<Rightarrow> verify (plan_tiers p) (snd deal)
            | None \<Rightarrow> MeteringMisconfigured) of
        MeteringFine \<Rightarrow> rep
      | MeteringMisconfigured \<Rightarrow> rep\<lparr>rp_misconfigured := rp_misconfigured rep + 1\<rparr>
      | MeteringUnread \<Rightarrow> rep\<lparr>rp_unreadable := rp_unreadable rep + 1\<rparr>)"

fun check_deals :: "(rec_call \<Rightarrow> bool) \<Rightarrow> plan list \<Rightarrow> (nat \<Rightarrow> string \<Rightarrow> verdict) \<Rightarrow> nat \<Rightarrow> (string \<times> string) list \<Rightarrow> report
    \<Rightarrow> report \<times> bool" where
  "check_deals flt cat verify k [] rep = (rep, False)"
| "check_deals flt cat verify k (d # ds) rep =
     (if flt (RcDealCtx k) then (rep, True) else check_deals flt cat verify (k + 1) ds (check_deal cat verify d rep))"

text \<open>\<open>ListLiveCustomDealProducts\<close>: (pinned plan, product) of every live deal of the provider.\<close>

definition live_deals :: "payments \<Rightarrow> billing_db \<Rightarrow> (string \<times> string) list" where
  "live_deals pay db =
     concat (map (\<lambda>s. case bd_ents db (sr_org s) of
                None \<Rightarrow> []
              | Some e \<Rightarrow> if ew_product e \<noteq> None \<and> ew_base e \<noteq> None
                          then [(text_of (ew_base e), text_of (ew_product e))] else [])
       (sort_key sr_org
         (filter (\<lambda>s. sr_provider s = pay_name pay \<and> live_word (sr_status s) \<and> sr_plan s = ''custom'') (bd_subs db))))"

definition reconcile_findings :: "(rec_call \<Rightarrow> bool) \<Rightarrow> sub_env \<Rightarrow> payments \<Rightarrow> (nat \<Rightarrow> string \<Rightarrow> verdict) \<Rightarrow> time \<Rightarrow> time
    \<Rightarrow> string list \<Rightarrow> billing_db \<Rightarrow> report \<Rightarrow> report \<times> rec_error option" where
  "reconcile_findings flt env pay verify db_now now orgs db rep0 =
     (if flt RcUnbilled then (rep0, Some RecDb)
      else let rep1 = rep0\<lparr>rp_unbilled := rp_unbilled rep0 + unbilled_deals db db_now orgs\<rparr> in
      if pay_meters pay \<and> flt RcDeals then (rep1, Some RecDb)
      else let (rep2, cut) = (if pay_meters pay then check_deals flt (se_catalog env) verify 0 (live_deals pay db) rep1
                              else (rep1, False)) in
      if cut then (rep2, Some RecCut)
      else if flt RcRejected then (rep2, Some RecDb)
      else let rep3 = rep2\<lparr>rp_rejected := rp_rejected rep2 + length (filter (\<lambda>r. dr_error r \<noteq> []
                              \<and> dr_received r \<ge> now - delivery_retention) (bd_deliveries db))\<rparr> in
      if flt RcStranded then (rep3, Some RecDb)
      else (rep3\<lparr>rp_stranded := rp_stranded rep3 + length (filter (\<lambda>r. dr_processed r = None
                              \<and> dr_received r < now - delivery_stale_after) (bd_deliveries db))\<rparr>, None))"

definition reconcile :: "nat \<Rightarrow> (rec_call \<Rightarrow> bool) \<Rightarrow> sub_env \<Rightarrow> (string \<Rightarrow> (sub_error, sub_event) result)
    \<Rightarrow> (nat \<Rightarrow> string \<Rightarrow> verdict) \<Rightarrow> (nat \<Rightarrow> string) \<Rightarrow> time \<Rightarrow> time \<Rightarrow> string list \<Rightarrow> billing_db
    \<Rightarrow> ((billing_db \<times> report) \<times> rec_error option) option" where
  "reconcile fuel flt env fetch verify ids db_now now orgs db =
     (case se_payments env of
        None \<Rightarrow> Some ((db, empty_report), None)
      | Some pay \<Rightarrow>
          (case reconcile_pages fuel flt env pay fetch ids db_now now 0 (db, empty_report) of
             None \<Rightarrow> None
           | Some ((db', rep), Some e) \<Rightarrow> Some ((db', rep), Some e)
           | Some ((db', rep), None) \<Rightarrow>
               (let (rep', e) = reconcile_findings flt env pay verify db_now now orgs db' rep
                in Some ((db', rep'), e))))"

end
