(* ===== verification/Subscription_Laws.thy ===== *)
theory Subscription_Laws
  imports Reconcile
begin

text \<open>
  What the writers of \<open>billing_subscriptions\<close> guarantee together: one apply behind three
  handlers, so a run of deliveries, confirmations, reconciled rows and operator commands, in
  any order and with any faults, never moves a subscription back in time or to another org,
  and never leaves an org with two live ones.
\<close>

section \<open>The apply\<close>

text \<open>The three outcomes of the statement.\<close>

lemma apply_stmt_cases:
  assumes "apply_billing_subscription db new g = Inr (db', n)"
  obtains
    (stale) old where "find_sub (bd_subs db) (sub_key new) = Some old" "\<not> stamp_wins old (sr_updated_at new)"
      "db' = db" "n = 0"
  | (update) old where "find_sub (bd_subs db) (sub_key new) = Some old" "stamp_wins old (sr_updated_at new)"
      "db' = db\<lparr>bd_subs := replace_sub (merged_sub old new g) (bd_subs db)\<rparr>" "n = 1"
  | (insert) "find_sub (bd_subs db) (sub_key new) = None" "db' = db\<lparr>bd_subs := bd_subs db @ [new]\<rparr>" "n = 1"
proof (cases "find_sub (bd_subs db) (sub_key new)")
  case None
  with assms that(3) show ?thesis
    by (auto simp: apply_billing_subscription_def split: if_splits option.splits)
next
  case (Some old)
  have eq: "apply_billing_subscription db new g =
      (if \<not> sub_row_ok new then Inl CheckViolation
       else if \<not> stamp_wins old (sr_updated_at new) then Inr (db, 0)
       else if live_word (sr_status (merged_sub old new g)) \<and> other_live (bd_subs db) (merged_sub old new g)
       then Inl UniqueViolation
       else Inr (db\<lparr>bd_subs := replace_sub (merged_sub old new g) (bd_subs db)\<rparr>, 1))"
    unfolding apply_billing_subscription_def Some Let_def option.case by (rule refl)
  show ?thesis
  proof (cases "stamp_wins old (sr_updated_at new)")
    case True
    with assms have "db' = db\<lparr>bd_subs := replace_sub (merged_sub old new g) (bd_subs db)\<rparr> \<and> n = 1"
      unfolding eq by (metis Inr_Inl_False Inr_inject prod.inject)
    then show ?thesis using that(2) [OF Some True] by blast
  next
    case False
    with assms have "db' = db \<and> n = 0" unfolding eq by (metis Inr_Inl_False Inr_inject prod.inject)
    then show ?thesis using that(1) [OF Some False] by blast
  qed
qed

definition event_key :: "payments \<Rightarrow> sub_event \<Rightarrow> string \<times> string" where
  "event_key pay event = (pay_name pay, ev_sub event)"

lemma event_row_fields [simp]:
  "sub_key (event_row pay sid w org slug event at) = event_key pay event"
  "sr_updated_at (event_row pay sid w org slug event at) = at"
  "sr_org (event_row pay sid w org slug event at) = org"
  "sr_plan (event_row pay sid w org slug event at) = slug"
  "sr_status (event_row pay sid w org slug event at) = ev_status event"
  by (simp_all add: event_row_def sub_key_def event_key_def)

text \<open>An apply that returned: the statement it ran, and perhaps the fill after it.\<close>

lemma apply_subscription_ok:
  assumes "apply_subscription flt env pay sid w org event at db = Inr (db', n)"
  obtains ev rec slug db1 where
    "\<not> unapplicable env event" "ev = (if \<not> ev_grace_known event then event\<lparr>ev_grace := zero_time\<rparr> else event)"
    "begin_locked (\<lambda>c. flt (ScEnt c)) db org = Inr rec" "apply_plan flt pay ev db rec = Inr slug"
    "apply_billing_subscription db (event_row pay sid w org slug ev at) (ev_grace_known ev) = Inr (db1, n)"
    "db' = (if n = 0 \<and> ev_grace_known ev \<and> \<not> is_zero_time (ev_grace ev)
            then fill_grace db1 w (event_key pay event) (ev_provider_status ev) (ev_grace ev) else db1)"
proof -
  define ev where "ev = (if \<not> ev_grace_known event then event\<lparr>ev_grace := zero_time\<rparr> else event)"
  have sub: "ev_sub ev = ev_sub event" by (simp add: ev_def)
  from assms obtain rec where rec: "\<not> unapplicable env event" "begin_locked (\<lambda>c. flt (ScEnt c)) db org = Inr rec"
      "apply_locked flt pay sid w org ev at db rec = Inr (db', n)"
    by (auto simp: apply_subscription_def with_org_lock_def ev_def Let_def split: if_splits sum.splits)
  from rec(3) obtain slug where slug: "apply_plan flt pay ev db rec = Inr slug"
    by (auto simp: apply_locked_def split: sum.splits)
  with rec(3) obtain db1 where db1: "apply_billing_subscription db (event_row pay sid w org slug ev at) (ev_grace_known ev) = Inr (db1, n)"
    by (auto simp: apply_locked_def split: if_splits sum.splits db_error.splits)
  have "db' = (if n = 0 \<and> ev_grace_known ev \<and> \<not> is_zero_time (ev_grace ev)
            then fill_grace db1 w (event_key pay event) (ev_provider_status ev) (ev_grace ev) else db1)"
    using rec(3) slug db1 by (auto simp: apply_locked_def event_key_def sub split: if_splits)
  with that [OF rec(1) ev_def rec(2) slug db1] show ?thesis by blast
qed

lemma apply_subscription_intro:
  assumes "\<not> unapplicable env event" "ev_grace_known event" "is_zero_time (ev_grace event)" "bd_ents db org = None"
    and "apply_plan (\<lambda>c. False) pay event db empty_record = Inr slug"
    and "apply_billing_subscription db (event_row pay sid w org slug event at) True = Inr (db1, n)"
  shows "apply_subscription (\<lambda>c. False) env pay sid w org event at db = Inr (db1, n)"
  using assms by (simp add: apply_subscription_def with_org_lock_def begin_locked_def apply_locked_def Let_def)

section \<open>Stamps\<close>

definition stamps :: "billing_db \<Rightarrow> string \<times> string \<Rightarrow> (string \<times> time) option" where
  "stamps db k = map_option (\<lambda>r. (sr_org r, sr_updated_at r)) (find_sub (bd_subs db) k)"

definition later :: "(string \<times> string \<Rightarrow> (string \<times> time) option) \<Rightarrow> (string \<times> string \<Rightarrow> (string \<times> time) option) \<Rightarrow> bool" where
  "later u v = (\<forall>k g t. u k = Some (g, t) \<longrightarrow> (\<exists>t'. v k = Some (g, t') \<and> t \<le> t'))"

lemma later_refl [simp]: "later u u"
  by (auto simp: later_def)

lemma later_trans: "later u v \<Longrightarrow> later v w \<Longrightarrow> later u w"
  unfolding later_def by (meson order_trans)

lemma find_map_fill:
  "find_sub (map (fill_row w k ps d) rs) k' = map_option (fill_row w k ps d) (find_sub rs k')"
  by (rule find_map_same_key) simp

lemma apply_subscription_keeps:
  assumes "apply_subscription flt env pay sid w org event at db = Inr (db', n)" "subs_ok db"
  shows "subs_ok db' \<and> later (stamps db) (stamps db')"
  using assms(1)
proof (rule apply_subscription_ok)
  fix ev rec slug db1
  assume stmt: "apply_billing_subscription db (event_row pay sid w org slug ev at) (ev_grace_known ev) = Inr (db1, n)"
    and db': "db' = (if n = 0 \<and> ev_grace_known ev \<and> \<not> is_zero_time (ev_grace ev)
            then fill_grace db1 w (event_key pay event) (ev_provider_status ev) (ev_grace ev) else db1)"
  have "later (stamps db) (stamps db1)"
    using stmt
  proof (cases rule: apply_stmt_cases)
    case (update old)
    then have "sub_key old = event_key pay ev" by (auto dest: find_sub_mem)
    with update show ?thesis
      by (auto simp: later_def stamps_def find_replace stamp_wins_def)
  next
    case insert
    then show ?thesis by (auto simp: later_def stamps_def find_append)
  qed simp
  moreover have "stamps (fill_grace db1 w k ps d) = stamps db1" for k ps d
    by (simp add: stamps_def find_map_fill option.map_comp o_def fun_eq_iff)
  moreover have "subs_ok db1" using apply_stmt_ok [OF stmt assms(2)] .
  ultimately show ?thesis using db' fill_grace_ok [of db1] by simp
qed

section \<open>The machine\<close>

datatype sub_cmd =
    Deliver "sub_call \<Rightarrow> bool" sub_env "string \<Rightarrow> bool" "delivery \<Rightarrow> (unit, sub_event) result" string time delivery
  | Confirm "sub_call \<Rightarrow> bool" sub_env "string \<Rightarrow> (sub_error, sub_event) result" string time string string time
  | Reread "sub_call \<Rightarrow> bool" sub_env payments "string \<Rightarrow> (sub_error, sub_event) result" string time time sub_row
  | OpenCheckout "sub_call \<Rightarrow> bool" sub_env "string option" "string \<Rightarrow> string \<Rightarrow> string \<Rightarrow> (sub_error, string \<times> string) result"
      time string string
  | Prune "sub_call \<Rightarrow> bool" time
  | Operator ent_cmd

fun sub_step :: "billing_db \<Rightarrow> sub_cmd \<Rightarrow> billing_db" where
  "sub_step db (Deliver flt env valid norm sid w d) = fst (handle_delivery flt env valid norm sid w d db)"
| "sub_step db (Confirm flt env outcome sid w org session now) =
     fst (confirm_checkout flt env outcome sid w org session now db)"
| "sub_step db (Reread flt env pay fetch sid w now row) =
     fst (reconcile_one flt env pay fetch sid w now row (db, empty_report))"
| "sub_step db (OpenCheckout flt env mint create w org slug) =
     fst (create_checkout_session flt env mint create w org slug db)"
| "sub_step db (Prune flt older) = fst (prune_deliveries flt older db)"
| "sub_step db (Operator cmd) = ent_step db cmd"

text \<open>Every step leaves the subscriptions alone or makes one apply.\<close>

definition same_subs :: "billing_db \<Rightarrow> billing_db \<Rightarrow> bool" where
  "same_subs db db' = (bd_subs db' = bd_subs db)"

lemma same_subs_keeps: "same_subs db db' \<Longrightarrow> subs_ok db \<Longrightarrow> subs_ok db' \<and> later (stamps db) (stamps db')"
  by (auto simp: same_subs_def subs_ok_def stamps_def later_def)

lemma keeps_trans:
  "subs_ok db \<and> later (stamps db0) (stamps db) \<Longrightarrow> subs_ok db' \<and> later (stamps db) (stamps db') \<Longrightarrow>
     subs_ok db' \<and> later (stamps db0) (stamps db')"
  using later_trans by blast

lemma finish_subs: "same_subs db (fst (finish_delivery flt w k reason db))"
  by (simp add: finish_delivery_def mark_processed_def same_subs_def Let_def)

lemma apply_event_keeps:
  assumes "subs_ok db"
  shows "subs_ok (fst (apply_event flt env pay sid w d event db))
    \<and> later (stamps db) (stamps (fst (apply_event flt env pay sid w d event db)))"
proof -
  have same: "same_subs db db'' \<Longrightarrow> subs_ok db'' \<and> later (stamps db) (stamps db'')" for db''
    using same_subs_keeps assms by blast
  have fin: "subs_ok (fst (finish_delivery flt w k reason db')) \<and> later (stamps db) (stamps (fst (finish_delivery flt w k reason db')))"
    if "apply_subscription flt env pay sid w org event at db = Inr (db', n)" for org at db' n k reason
    using keeps_trans [OF apply_subscription_keeps [OF that assms]] same_subs_keeps [OF finish_subs]
      apply_subscription_keeps [OF that assms] by blast
  show ?thesis
    using same [of db] fin same [OF finish_subs]
    by (auto simp: apply_event_def reject_delivery_def Let_def same_subs_def split: sum.splits)
qed

lemma handle_delivery_keeps:
  assumes "subs_ok db"
  shows "subs_ok (fst (handle_delivery flt env valid norm sid w d db))
    \<and> later (stamps db) (stamps (fst (handle_delivery flt env valid norm sid w d db)))"
proof (cases "se_payments env")
  case None
  then show ?thesis using assms by (simp add: handle_delivery_def)
next
  case (Some pay)
  define r where "r = \<lparr>dr_provider = pay_name pay, dr_webhook = dl_webhook_id d, dr_event_type = dl_event_type d,
    dr_payload = storable_payload valid (dl_payload d), dr_received = w, dr_processed = None, dr_error = []\<rparr>"
  show ?thesis
  proof (cases "flt ScInsertDelivery \<or> (\<exists>e. insert_delivery db r = Inl e)")
    case True
    with assms Some show ?thesis by (auto simp: handle_delivery_def r_def)
  next
    case False
    then obtain db1 old where ins: "insert_delivery db r = Inr (db1, old)"
      by (metis sum.exhaust surj_pair)
    then have same: "same_subs db db1"
      by (auto simp: insert_delivery_def same_subs_def split: if_splits option.splits)
    note k1 = same_subs_keeps [OF same assms]
    have "\<exists>db2. fst (handle_delivery flt env valid norm sid w d db) = db2
        \<and> subs_ok db2 \<and> later (stamps db1) (stamps db2)"
      using False ins k1 same_subs_keeps [OF finish_subs, of db1] apply_event_keeps [of db1]
      by (auto simp: handle_delivery_def Some r_def [symmetric] split: sum.splits)
    with k1 later_trans show ?thesis by blast
  qed
qed

lemma confirm_keeps:
  assumes "subs_ok db"
  shows "subs_ok (fst (confirm_checkout flt env outcome sid w org session now db))
    \<and> later (stamps db) (stamps (fst (confirm_checkout flt env outcome sid w org session now db)))"
  using assms apply_subscription_keeps [OF _ assms]
  by (auto simp: confirm_checkout_def split: option.splits sum.splits)

lemma reread_state:
  "fst (reconcile_one flt env pay fetch sid w now row (db, rep)) = db
   \<or> (\<exists>event n. apply_subscription flt env pay sid w (sr_org row) event now db
        = Inr (fst (reconcile_one flt env pay fetch sid w now row (db, rep)), n))"
proof (cases "fetch (sr_sub row)")
  case (Inl e)
  then show ?thesis by (simp add: reconcile_one_def Let_def)
next
  case (Inr event)
  show ?thesis
  proof (cases "event_is_zero event \<or> (\<exists>e. stored_record (\<lambda>c. flt (ScEnt c)) db (sr_org row) = Inl e)")
    case True
    with Inr show ?thesis by (auto simp: reconcile_one_def Let_def)
  next
    case False
    then obtain rec where rec: "stored_record (\<lambda>c. flt (ScEnt c)) db (sr_org row) = Inr rec" by (meson sum.exhaust)
    show ?thesis
    proof (cases "apply_subscription flt env pay sid w (sr_org row) event now db")
      case (Inl e)
      with Inr False rec show ?thesis by (cases e) (simp_all add: reconcile_one_def Let_def)
    next
      case ok: (Inr v)
      obtain db' n where "v = (db', n)" by (cases v)
      with Inr False rec ok show ?thesis by (simp add: reconcile_one_def Let_def) blast
    qed
  qed
qed

lemma reread_keeps:
  assumes "subs_ok db"
  shows "subs_ok (fst (reconcile_one flt env pay fetch sid w now row (db, rep)))
    \<and> later (stamps db) (stamps (fst (reconcile_one flt env pay fetch sid w now row (db, rep))))"
  using reread_state [of flt env pay fetch sid w now row db rep]
proof
  assume "fst (reconcile_one flt env pay fetch sid w now row (db, rep)) = db"
  then show ?thesis using assms by simp
qed (use apply_subscription_keeps [OF _ assms] in blast)

lemma operator_subs: "same_subs db (ent_step db cmd)"
proof (cases cmd)
  case (CmdSet flt cat hid w org actor c)
  show ?thesis
  proof (cases "set_plan flt cat hid w org actor c db")
    case (Inr v)
    obtain db' rec where v: "v = (db', rec)" by (cases v)
    from Inr v have "set_plan flt cat hid w org actor c db = Inr (db', rec)" by simp
    then show ?thesis by (rule set_plan_ok) (use CmdSet Inr v in \<open>simp add: same_subs_def\<close>)
  qed (use CmdSet in \<open>simp add: same_subs_def\<close>)
next
  case (CmdClear flt hid w org actor)
  show ?thesis
  proof (cases "clear_plan flt hid w org actor db")
    case (Inr v)
    obtain db' u where v: "v = (db', u)" by (cases v)
    with Inr have ok: "clear_plan flt hid w org actor db = Inr (db', u)" by simp
    from clear_plan_ok [OF ok] CmdClear v ok show ?thesis by (simp add: same_subs_def)
  qed (use CmdClear in \<open>simp add: same_subs_def\<close>)
qed

lemma sub_step_keeps:
  assumes "subs_ok db" shows "subs_ok (sub_step db cmd) \<and> later (stamps db) (stamps (sub_step db cmd))"
proof (cases cmd)
  case (OpenCheckout flt env mint create w org slug)
  then have "same_subs db (sub_step db cmd)"
    by (auto simp: same_subs_def create_checkout_session_def insert_checkout_def Let_def
        split: option.splits sum.splits if_splits)
  then show ?thesis using same_subs_keeps assms by blast
next
  case (Prune flt older)
  then have "same_subs db (sub_step db cmd)" by (simp add: same_subs_def prune_deliveries_def Let_def)
  then show ?thesis using same_subs_keeps assms by blast
next
  case (Operator c)
  then show ?thesis using same_subs_keeps [OF operator_subs assms] by simp
qed (use assms handle_delivery_keeps confirm_keeps reread_keeps in simp_all)

interpretation mirror: machine_mono sub_step subs_ok stamps later
proof (unfold_locales, goal_cases)
  case (1 s e)
  then show ?case using sub_step_keeps by blast
next
  case (2 v)
  show ?case by (rule later_refl)
next
  case (3 u v w)
  then show ?case by (rule later_trans)
next
  case (4 s e)
  then show ?case using sub_step_keeps by blast
qed

section \<open>Properties\<close>

text \<open>
  C4. Stored subscriptions never move back: over any run of deliveries, confirmations,
  reconciled rows, checkouts, prunes and operator commands, in any order and with any
  faults, a stored subscription stays stored, stays with the org it was first placed on, and
  its provider stamp never decreases.
\<close>

theorem subscriptions_never_move_back:
  assumes "subs_ok db" "find_sub (bd_subs db) k = Some r"
  shows "\<exists>r'. find_sub (bd_subs (run_events sub_step db cmds)) k = Some r'
    \<and> sr_org r' = sr_org r \<and> sr_updated_at r \<le> sr_updated_at r'"
proof -
  have "later (stamps db) (stamps (run_events sub_step db cmds))" using assms(1) by (rule mirror.run_mono)
  moreover have "stamps db k = Some (sr_org r, sr_updated_at r)" using assms(2) by (simp add: stamps_def)
  ultimately have "\<exists>t'. stamps (run_events sub_step db cmds) k = Some (sr_org r, t') \<and> sr_updated_at r \<le> t'"
    unfolding later_def by blast
  then show ?thesis by (auto simp: stamps_def)
qed

definition demo_env :: sub_env where
  "demo_env = \<lparr>se_payments = Some \<lparr>pay_name = ''dodo'', pay_products = [(slug_usage, ''usage-product'')],
     pay_return_url = [], pay_meters = True\<rparr>, se_enabled = True, se_catalog = catalog, se_unicode = id\<rparr>"

definition demo_subs :: billing_db where
  "demo_subs = demo_billing\<lparr>bd_subs := [demo_live_row]\<rparr>"

lemma demo_subs_ok: "subs_ok demo_subs"
  by (simp add: subs_ok_def demo_subs_def live_rows_def)

lemma demo_find: "find_sub (bd_subs demo_subs) (''dodo'', ''s'') = Some demo_live_row"
  by (simp add: demo_subs_def find_sub_def demo_live_row_def sub_key_def)

theorem subscriptions_never_move_back_witness:
  "\<exists>r'. find_sub (bd_subs (run_events sub_step demo_subs
       [Reread (\<lambda>c. False) demo_env (the (se_payments demo_env)) (\<lambda>s. Inl ErrProvider) ''i'' 9 9 demo_live_row,
        Prune (\<lambda>c. False) 5])) (''dodo'', ''s'') = Some r' \<and> sr_org r' = ''o''"
  using subscriptions_never_move_back [OF demo_subs_ok demo_find, of
      "[Reread (\<lambda>c. False) demo_env (the (se_payments demo_env)) (\<lambda>s. Inl ErrProvider) ''i'' 9 9 demo_live_row,
        Prune (\<lambda>c. False) 5]"]
  by (auto simp: demo_live_row_def)

text \<open>
  C5. One live subscription per org: over any such run no org ever holds two live ones and
  no provider subscription is stored twice.
\<close>

theorem one_live_subscription:
  assumes "subs_ok db"
  shows "length (live_rows (bd_subs (run_events sub_step db cmds)) org) \<le> 1
    \<and> distinct (map sub_key (bd_subs (run_events sub_step db cmds)))"
proof -
  have "subs_ok (run_events sub_step db cmds)" using assms by (rule mirror.run_inv)
  then show ?thesis by (simp add: subs_ok_def)
qed

theorem one_live_subscription_witness:
  "length (live_rows (bd_subs (run_events sub_step demo_subs [Operator (CmdClear no_faults ''h'' 9 ''o'' ''ops'')])) ''o'') \<le> 1"
  using one_live_subscription [OF demo_subs_ok, of "[Operator (CmdClear no_faults ''h'' 9 ''o'' ''ops'')]" "''o''"] by simp

text \<open>
  An older delivery changes nothing but a missing date: against a stored subscription
  with a newer stamp, or one that ended at the same stamp, an apply reports zero rows and
  leaves every row as it was, except that it may date the grace window of that one row while
  it is past due, undated and in the provider state the delivery reports, with a date ahead.
\<close>

theorem stale_apply_only_dates_grace:
  assumes "apply_subscription flt env pay sid w org event at db = Inr (db', n)"
    and "find_sub (bd_subs db) (pay_name pay, ev_sub event) = Some r"
    and "at < sr_updated_at r \<or> at = sr_updated_at r \<and> \<not> live (sr_status r)"
  shows "n = 0 \<and> (db' = db \<or>
    bd_subs db' = map (fill_row w (pay_name pay, ev_sub event) (ev_provider_status event) (ev_grace event)) (bd_subs db)
    \<and> bd_ents db' = bd_ents db \<and> ev_grace_known event)"
  using assms(1)
proof (rule apply_subscription_ok)
  fix ev rec slug db1
  assume stmt: "apply_billing_subscription db (event_row pay sid w org slug ev at) (ev_grace_known ev) = Inr (db1, n)"
    and ev: "ev = (if \<not> ev_grace_known event then event\<lparr>ev_grace := zero_time\<rparr> else event)"
    and db': "db' = (if n = 0 \<and> ev_grace_known ev \<and> \<not> is_zero_time (ev_grace ev)
            then fill_grace db1 w (event_key pay event) (ev_provider_status ev) (ev_grace ev) else db1)"
  have key: "event_key pay ev = (pay_name pay, ev_sub event)" by (simp add: event_key_def ev)
  have "\<not> stamp_wins r at" using assms(3) by (auto simp: stamp_wins_def live_word_iff)
  have "n = 0 \<and> db1 = db"
    using stmt
  proof (cases rule: apply_stmt_cases)
    case (update old)
    with \<open>\<not> stamp_wins r at\<close> key assms(2) show ?thesis by simp
  next
    case insert
    with key assms(2) show ?thesis by simp
  qed simp
  with db' ev key show ?thesis by (auto simp: event_key_def)
qed

definition demo_event :: sub_event where
  "demo_event = zero_event\<lparr>ev_sub := ''s'', ev_customer := ''c'', ev_product := ''usage-product'', ev_status := ''active'',
     ev_provider_status := ''active'', ev_currency := ''USD'', ev_grace_known := True\<rparr>"

lemma demo_currency: "normalize_currency demo_env ''USD'' = USD"
proof -
  have "trim_space ''USD'' = ''USD''" by (rule trim_space_word) simp_all
  then show ?thesis by (simp add: normalize_currency_def demo_env_def to_upper_ascii ascii_def USD_def)
qed

lemma demo_applicable: "\<not> unapplicable demo_env demo_event"
  by (simp add: unapplicable_def demo_event_def zero_event_def demo_currency)

lemma demo_known: "ev_grace_known demo_event" and demo_undated: "is_zero_time (ev_grace demo_event)"
  by (simp_all add: demo_event_def zero_event_def is_zero_time_def)

definition demo_pay :: payments where
  "demo_pay = the (se_payments demo_env)"

lemma demo_pay_fields [simp]: "pay_name demo_pay = ''dodo''" "pay_products demo_pay = [(slug_usage, ''usage-product'')]"
  by (simp_all add: demo_pay_def demo_env_def)

lemma demo_apply_plan: "apply_plan flt demo_pay demo_event db rec = Inr slug_usage"
  by (simp add: apply_plan_def plan_for_product_def demo_event_def zero_event_def)

lemma demo_row_checks: "sub_row_ok (event_row demo_pay sid w org slug_usage demo_event at)"
  by (simp add: sub_row_ok_def event_row_def demo_event_def zero_event_def slug_defs demo_slug_lengths)

theorem stale_apply_only_dates_grace_witness:
  "apply_subscription (\<lambda>c. False) demo_env demo_pay ''i'' 9 ''o'' demo_event 0 demo_subs = Inr (demo_subs, 0)"
proof -
  have "apply_billing_subscription demo_subs (event_row demo_pay ''i'' 9 ''o'' slug_usage demo_event 0) True = Inr (demo_subs, 0)"
    using demo_row_checks [of "''i''" 9 "''o''" 0]
    by (simp add: apply_billing_subscription_def find_sub_def demo_subs_def demo_live_row_def sub_key_def
        event_row_def demo_event_def zero_event_def stamp_wins_def)
  then have ok: "apply_subscription (\<lambda>c. False) demo_env demo_pay ''i'' 9 ''o'' demo_event 0 demo_subs = Inr (demo_subs, 0)"
    by (intro apply_subscription_intro [OF demo_applicable demo_known demo_undated _ demo_apply_plan])
      (simp_all add: demo_subs_def demo_billing_def)
  have "find_sub (bd_subs demo_subs) (pay_name demo_pay, ev_sub demo_event) = Some demo_live_row"
    using demo_find by (simp add: demo_event_def)
  from stale_apply_only_dates_grace [OF ok this] show ?thesis using ok by simp
qed

text \<open>
  A live subscription is only ever stored on a plan its product buys: a product the
  deployment maps to that plan, or the very product an operator staged on the org's row,
  which makes it a deal. An ending one may keep the plan already stored.
\<close>

theorem live_grant_needs_product:
  assumes "apply_subscription flt env pay sid w org event at db = Inr (db', 1)" "live (ev_status event)"
  shows "\<exists>r. find_sub (bd_subs db') (pay_name pay, ev_sub event) = Some r \<and> sr_status r = ev_status event
    \<and> sr_updated_at r = at \<and> ev_product event \<noteq> []
    \<and> ((sr_plan r, ev_product event) \<in> set (pay_products pay)
       \<or> sr_plan r = slug_custom \<and> (\<exists>e. bd_ents db org = Some e \<and> ew_product e = Some (ev_product event)))"
  using assms(1)
proof (rule apply_subscription_ok)
  fix ev rec slug db1
  assume stmt: "apply_billing_subscription db (event_row pay sid w org slug ev at) (ev_grace_known ev) = Inr (db1, 1)"
    and ev: "ev = (if \<not> ev_grace_known event then event\<lparr>ev_grace := zero_time\<rparr> else event)"
    and db': "db' = (if (1::nat) = 0 \<and> ev_grace_known ev \<and> \<not> is_zero_time (ev_grace ev)
            then fill_grace db1 w (event_key pay event) (ev_provider_status ev) (ev_grace ev) else db1)"
    and rec: "begin_locked (\<lambda>c. flt (ScEnt c)) db org = Inr rec"
    and plan: "apply_plan flt pay ev db rec = Inr slug"
  have same: "event_key pay ev = (pay_name pay, ev_sub event)" "ev_status ev = ev_status event" "ev_product ev = ev_product event"
    by (simp_all add: event_key_def ev)
  have "\<exists>r. find_sub (bd_subs db1) (event_key pay ev) = Some r \<and> sr_plan r = slug \<and> sr_status r = ev_status ev \<and> sr_updated_at r = at"
    using stmt
  proof (cases rule: apply_stmt_cases)
    case (update old)
    then have "sub_key old = event_key pay ev" by (auto dest: find_sub_mem)
    with update show ?thesis by (simp add: find_replace)
  next
    case insert
    then show ?thesis by (simp add: find_append)
  qed simp
  moreover have "ev_product event \<noteq> [] \<and> ((slug, ev_product event) \<in> set (pay_products pay)
      \<or> slug = slug_custom \<and> er_product rec = ev_product event)"
    using plan assms(2) same
    by (auto simp: apply_plan_def plan_for_product_def find_Some_iff split: if_splits option.splits sum.splits)
       (metis nth_mem)+
  moreover have "er_product rec = p \<Longrightarrow> p \<noteq> [] \<Longrightarrow> \<exists>e. bd_ents db org = Some e \<and> ew_product e = Some p" for p
    using rec by (auto simp: begin_locked_def empty_record_def record_from_write_row_def text_of_def
        split: if_splits option.splits)
  ultimately show ?thesis using db' same by auto
qed

theorem live_grant_needs_product_witness:
  "\<exists>db' r. apply_subscription (\<lambda>c. False) demo_env demo_pay ''i'' 9 ''o'' demo_event 8 demo_billing = Inr (db', 1)
     \<and> find_sub (bd_subs db') (''dodo'', ''s'') = Some r \<and> sr_plan r = slug_usage"
proof -
  have stmt: "apply_billing_subscription demo_billing (event_row demo_pay ''i'' 9 ''o'' slug_usage demo_event 8) True
      = Inr (demo_billing\<lparr>bd_subs := [event_row demo_pay ''i'' 9 ''o'' slug_usage demo_event 8]\<rparr>, 1)"
    using demo_row_checks [of "''i''" 9 "''o''" 8]
    by (simp add: apply_billing_subscription_def find_sub_def demo_billing_def other_live_def)
  from stmt have ok: "apply_subscription (\<lambda>c. False) demo_env demo_pay ''i'' 9 ''o'' demo_event 8 demo_billing
      = Inr (demo_billing\<lparr>bd_subs := [event_row demo_pay ''i'' 9 ''o'' slug_usage demo_event 8]\<rparr>, 1)"
    by (intro apply_subscription_intro [OF demo_applicable demo_known demo_undated _ demo_apply_plan])
      (simp_all add: demo_billing_def)
  have "live (ev_status demo_event)" by (simp add: demo_event_def live_iff)
  from live_grant_needs_product [OF ok this] ok show ?thesis
    by (auto simp: find_sub_def event_row_def sub_key_def demo_event_def)
qed

text \<open>
  A delivery is placed on an org only by proof, never by the org id in its metadata
  alone: by a ref pug minted for that org, by an operator having staged that very product on
  it, or because its customer already holds subscriptions for that one org only.
\<close>

theorem attribution_needs_proof:
  assumes "attribute_delivery flt provider event db = Inr org"
  shows "checkout_org db provider (ev_ref event) = Some org
    \<or> org = ev_org event \<and> ev_product event \<noteq> [] \<and> staged_product db org = Some (ev_product event)
    \<or> ev_customer event \<noteq> [] \<and> {sr_org r |r. r \<in> set (bd_subs db) \<and> sr_provider r = provider
         \<and> sr_customer r = ev_customer event} = {org}"
proof -
  have customer: "ev_customer event \<noteq> [] \<and> {sr_org r |r. r \<in> set (bd_subs db) \<and> sr_provider r = provider
         \<and> sr_customer r = ev_customer event} = {org}" if "attribute_customer flt provider event db = Inr org"
  proof -
    define orgs where "orgs = remdups (map sr_org (filter (\<lambda>r. sr_provider r = provider \<and> sr_customer r = ev_customer event) (bd_subs db)))"
    from that have c: "take 2 orgs = [org]" "ev_customer event \<noteq> []"
      by (auto simp: attribute_customer_def customer_orgs_def orgs_def split: if_splits list.splits)
    then have "orgs = [org]" by (cases orgs rule: remdups_adj.cases) auto
    then have "set orgs = {org}" by simp
    moreover have "set orgs = {sr_org r |r. r \<in> set (bd_subs db) \<and> sr_provider r = provider
         \<and> sr_customer r = ev_customer event}" by (auto simp: orgs_def)
    ultimately show ?thesis using c(2) by simp
  qed
  show ?thesis
    using assms customer
    by (auto simp: attribute_delivery_def attribute_staged_def split: if_splits option.splits)
qed

theorem attribution_needs_proof_witness:
  "attribute_delivery (\<lambda>c. False) ''dodo'' demo_event demo_subs = Inr ''o''
     \<and> {sr_org r |r. r \<in> set (bd_subs demo_subs) \<and> sr_provider r = ''dodo'' \<and> sr_customer r = ''c''} = {''o''}"
proof -
  have a: "attribute_delivery (\<lambda>c. False) ''dodo'' demo_event demo_subs = Inr ''o''"
    by (simp add: attribute_delivery_def attribute_staged_def attribute_customer_def customer_orgs_def demo_event_def
        zero_event_def demo_subs_def demo_live_row_def)
  have "checkout_org demo_subs ''dodo'' (ev_ref demo_event) = None" "ev_org demo_event = []" "ev_customer demo_event = ''c''"
    by (simp_all add: checkout_org_def demo_subs_def demo_billing_def demo_event_def zero_event_def)
  with attribution_needs_proof [OF a] a show ?thesis by simp
qed

end
