(* ===== verification/Inbox_Laws.thy ===== *)
theory Inbox_Laws
  imports Subscription_Laws
begin

text \<open>
  The inbox settles a delivery once, a confirmation needs a ref minted for its own org, and
  the reconcile walk ends after checking every stored row of the provider, each counted.
\<close>

section \<open>Settling a delivery\<close>

lemma find_delivery_mark:
  "find_delivery (bd_deliveries (fst (mark_processed db w k reason))) k
     = map_option (\<lambda>r. r\<lparr>dr_processed := Some w, dr_error := reason\<rparr>) (find_delivery (bd_deliveries db) k)"
proof -
  have "List.find (\<lambda>r. delivery_key r = k)
      (map (\<lambda>r. if delivery_key r = k then r\<lparr>dr_processed := Some w, dr_error := reason\<rparr> else r) rs)
    = map_option (\<lambda>r. r\<lparr>dr_processed := Some w, dr_error := reason\<rparr>) (List.find (\<lambda>r. delivery_key r = k) rs)" for rs
    by (induction rs) (auto simp: delivery_key_def)
  then show ?thesis by (simp add: mark_processed_def find_delivery_def)
qed

lemma finish_settles:
  assumes "snd (finish_delivery flt w k reason db) = None"
  shows "\<exists>r. find_delivery (bd_deliveries (fst (finish_delivery flt w k reason db))) k = Some r \<and> dr_processed r = Some w"
proof -
  have "filter (\<lambda>r. delivery_key r = k) (bd_deliveries db) \<noteq> []"
    using assms by (auto simp: finish_delivery_def mark_processed_def Let_def split: if_splits)
  then have "find_delivery (bd_deliveries db) k \<noteq> None"
    by (auto simp: find_delivery_def find_None_iff filter_empty_conv)
  moreover have "fst (finish_delivery flt w k reason db) = fst (mark_processed db w k reason)"
    using assms by (auto simp: finish_delivery_def Let_def split: if_splits prod.splits)
  ultimately show ?thesis by (auto simp: find_delivery_mark)
qed

lemma apply_event_settles:
  assumes "snd (apply_event flt env pay sid w d event db) = None"
  shows "\<exists>r. find_delivery (bd_deliveries (fst (apply_event flt env pay sid w d event db))) (pay_name pay, dl_webhook_id d) = Some r
    \<and> dr_processed r \<noteq> None"
proof -
  have "\<exists>reason db1. apply_event flt env pay sid w d event db = finish_delivery flt w (pay_name pay, dl_webhook_id d) reason db1"
    using assms by (auto simp: apply_event_def reject_delivery_def Let_def split: if_splits sum.splits)
  then obtain reason db1 where eq: "apply_event flt env pay sid w d event db = finish_delivery flt w (pay_name pay, dl_webhook_id d) reason db1"
    by blast
  show ?thesis unfolding eq using finish_settles [of flt w "(pay_name pay, dl_webhook_id d)" reason db1] assms unfolding eq by auto
qed

definition fresh_row :: "payments \<Rightarrow> (string \<Rightarrow> bool) \<Rightarrow> time \<Rightarrow> delivery \<Rightarrow> delivery_row" where
  "fresh_row pay valid w d = \<lparr>dr_provider = pay_name pay, dr_webhook = dl_webhook_id d, dr_event_type = dl_event_type d,
     dr_payload = storable_payload valid (dl_payload d), dr_received = w, dr_processed = None, dr_error = []\<rparr>"

lemma fresh_key: "delivery_key (fresh_row pay valid w d) = (pay_name pay, dl_webhook_id d)"
  by (simp add: fresh_row_def delivery_key_def)

lemma insert_delivery_stored:
  assumes "insert_delivery db row = Inr (db1, stored)"
  shows "find_delivery (bd_deliveries db1) (delivery_key row) = Some stored"
proof (cases "find_delivery (bd_deliveries db) (delivery_key row)")
  case None
  with assms have "db1 = db\<lparr>bd_deliveries := bd_deliveries db @ [row]\<rparr>" "stored = row"
    by (auto simp: insert_delivery_def split: if_splits)
  moreover have "List.find (\<lambda>r. delivery_key r = delivery_key row) (rs @ [row]) = Some row"
    if "List.find (\<lambda>r. delivery_key r = delivery_key row) rs = None" for rs
    using that by (induction rs) (auto split: if_splits)
  ultimately show ?thesis using None by (simp add: find_delivery_def)
next
  case (Some old)
  with assms show ?thesis by (auto simp: insert_delivery_def split: if_splits)
qed

lemma handle_ok:
  assumes "se_payments env = Some pay" "snd (handle_delivery flt env valid norm sid w d db) = None"
  obtains db1 stored where "find_delivery (bd_deliveries db1) (pay_name pay, dl_webhook_id d) = Some stored"
    "handle_delivery flt env valid norm sid w d db = (db1, None) \<and> dr_processed stored \<noteq> None
     \<or> (\<exists>reason. handle_delivery flt env valid norm sid w d db = finish_delivery flt w (pay_name pay, dl_webhook_id d) reason db1)
     \<or> (\<exists>event. handle_delivery flt env valid norm sid w d db = apply_event flt env pay sid w d event db1)"
proof -
  from assms obtain db1 stored where ins: "insert_delivery db (fresh_row pay valid w d) = Inr (db1, stored)"
      and f: "\<not> flt ScInsertDelivery"
    by (auto simp: handle_delivery_def fresh_row_def [symmetric] split: if_splits sum.splits)
  have "find_delivery (bd_deliveries db1) (pay_name pay, dl_webhook_id d) = Some stored"
    using insert_delivery_stored [OF ins] by (simp add: fresh_key)
  moreover have "handle_delivery flt env valid norm sid w d db = (db1, None) \<and> dr_processed stored \<noteq> None
     \<or> (\<exists>reason. handle_delivery flt env valid norm sid w d db = finish_delivery flt w (pay_name pay, dl_webhook_id d) reason db1)
     \<or> (\<exists>event. handle_delivery flt env valid norm sid w d db = apply_event flt env pay sid w d event db1)"
    using assms ins f
    by (cases "dr_processed stored = None"; cases "norm d")
      (auto simp: handle_delivery_def fresh_row_def [symmetric])
  ultimately show ?thesis by (rule that)
qed

text \<open>
  C6. A delivery is settled once: a delivery already marked processed is never applied
  again, whatever it now says and whatever fails, and a delivery answered without an error
  is stored and marked processed.
\<close>

theorem delivery_settled_once:
  assumes "se_payments env = Some pay"
  shows "(\<forall>r. find_delivery (bd_deliveries db) (pay_name pay, dl_webhook_id d) = Some r \<and> dr_processed r \<noteq> None \<longrightarrow>
        fst (handle_delivery flt env valid norm sid w d db) = db)
    \<and> (snd (handle_delivery flt env valid norm sid w d db) = None \<longrightarrow>
        (\<exists>r. find_delivery (bd_deliveries (fst (handle_delivery flt env valid norm sid w d db))) (pay_name pay, dl_webhook_id d) = Some r
           \<and> dr_processed r \<noteq> None))"
proof (intro conjI allI impI)
  fix r assume r: "find_delivery (bd_deliveries db) (pay_name pay, dl_webhook_id d) = Some r \<and> dr_processed r \<noteq> None"
  then have "insert_delivery db (fresh_row pay valid w d) = Inl CheckViolation
      \<or> insert_delivery db (fresh_row pay valid w d) = Inr (db, r)"
    by (auto simp: insert_delivery_def fresh_key)
  with r assms show "fst (handle_delivery flt env valid norm sid w d db) = db"
    by (auto simp: handle_delivery_def fresh_row_def [symmetric])
next
  assume ok: "snd (handle_delivery flt env valid norm sid w d db) = None"
  from assms ok show "\<exists>r. find_delivery (bd_deliveries (fst (handle_delivery flt env valid norm sid w d db))) (pay_name pay, dl_webhook_id d) = Some r
      \<and> dr_processed r \<noteq> None"
  proof (rule handle_ok)
    fix db1 stored
    assume stored: "find_delivery (bd_deliveries db1) (pay_name pay, dl_webhook_id d) = Some stored"
      and "handle_delivery flt env valid norm sid w d db = (db1, None) \<and> dr_processed stored \<noteq> None
       \<or> (\<exists>reason. handle_delivery flt env valid norm sid w d db = finish_delivery flt w (pay_name pay, dl_webhook_id d) reason db1)
       \<or> (\<exists>event. handle_delivery flt env valid norm sid w d db = apply_event flt env pay sid w d event db1)"
    then consider "handle_delivery flt env valid norm sid w d db = (db1, None)" "dr_processed stored \<noteq> None"
      | reason where "handle_delivery flt env valid norm sid w d db = finish_delivery flt w (pay_name pay, dl_webhook_id d) reason db1"
      | event where "handle_delivery flt env valid norm sid w d db = apply_event flt env pay sid w d event db1" by blast
    then show ?thesis
    proof cases
      case 1
      with stored show ?thesis by simp
    next
      case (2 reason)
      with ok finish_settles [of flt w "(pay_name pay, dl_webhook_id d)" reason db1] show ?thesis by auto
    next
      case (3 event)
      with ok apply_event_settles [of flt env pay sid w d event db1] show ?thesis by simp
    qed
  qed
qed

definition demo_delivery :: delivery where
  "demo_delivery = \<lparr>dl_webhook_id = ''w'', dl_event_type = ''subscription.active'', dl_payload = [], dl_delivered_at = 8\<rparr>"

definition demo_settled :: delivery_row where
  "demo_settled = \<lparr>dr_provider = ''dodo'', dr_webhook = ''w'', dr_event_type = [], dr_payload = [], dr_received = 1,
     dr_processed = Some 2, dr_error = []\<rparr>"

theorem delivery_settled_once_witness:
  "fst (handle_delivery (\<lambda>c. False) demo_env (\<lambda>t. True) (\<lambda>x. (Inr demo_event :: (unit, sub_event) result)) ''i'' 9 demo_delivery
     (demo_subs\<lparr>bd_deliveries := [demo_settled]\<rparr>)) = demo_subs\<lparr>bd_deliveries := [demo_settled]\<rparr>"
proof -
  have pay: "se_payments demo_env = Some demo_pay" by (simp add: demo_pay_def demo_env_def)
  have "find_delivery (bd_deliveries (demo_subs\<lparr>bd_deliveries := [demo_settled]\<rparr>)) (pay_name demo_pay, dl_webhook_id demo_delivery)
      = Some demo_settled \<and> dr_processed demo_settled \<noteq> None"
    by (simp add: find_delivery_def demo_settled_def delivery_key_def demo_delivery_def)
  with delivery_settled_once [OF pay, of "demo_subs\<lparr>bd_deliveries := [demo_settled]\<rparr>" demo_delivery "\<lambda>c. False"
      "\<lambda>t. True" "\<lambda>x. (Inr demo_event :: (unit, sub_event) result)" "''i''" 9]
  show ?thesis by blast
qed

text \<open>
  A confirmation acts only on a checkout pug opened for the same org: whenever it writes
  anything or tells the buyer they hold a plan, the provider's event names the org, carries a
  ref minted for that org, and is billed in dollars, on a deployment that takes money.
\<close>

theorem confirm_needs_own_ref:
  assumes "confirm_checkout flt env outcome sid w org session now db = (db', res)" "db' \<noteq> db \<or> res = Inr True"
  shows "\<exists>pay event. se_payments env = Some pay \<and> se_enabled env \<and> outcome session = Inr event \<and> ev_org event = org
    \<and> checkout_org db (pay_name pay) (ev_ref event) = Some org \<and> normalize_currency env (ev_currency event) = USD
    \<and> (res = Inr True \<longrightarrow> live (ev_status event))"
  using assms
  by (auto simp: confirm_checkout_def takes_money_def split: option.splits sum.splits if_splits)

definition demo_checkout :: billing_db where
  "demo_checkout = demo_billing\<lparr>bd_checkouts := [\<lparr>cr_org = ''o'', cr_provider = ''dodo'', cr_ref = ''r'', cr_created = 1\<rparr>]\<rparr>"

theorem confirm_needs_own_ref_witness:
  "\<exists>db'. confirm_checkout (\<lambda>c. False) demo_env (\<lambda>s. Inr (demo_event\<lparr>ev_org := ''o'', ev_ref := ''r''\<rparr>)) ''i'' 9 ''o'' ''s'' 8 demo_checkout
     = (db', Inr True) \<and> checkout_org demo_checkout ''dodo'' ''r'' = Some ''o''"
proof -
  let ?ev = "demo_event\<lparr>ev_org := ''o'', ev_ref := ''r''\<rparr>"
  have same: "event_row demo_pay ''i'' 9 ''o'' slug_usage ?ev 8 = event_row demo_pay ''i'' 9 ''o'' slug_usage demo_event 8"
    by (simp add: event_row_def)
  have "apply_billing_subscription demo_checkout (event_row demo_pay ''i'' 9 ''o'' slug_usage ?ev 8) True
      = Inr (demo_checkout\<lparr>bd_subs := [event_row demo_pay ''i'' 9 ''o'' slug_usage demo_event 8]\<rparr>, 1)"
    using demo_row_checks [of "''i''" 9 "''o''" 8] unfolding same
    by (simp add: apply_billing_subscription_def find_sub_def demo_checkout_def demo_billing_def other_live_def)
  moreover have "apply_plan (\<lambda>c. False) demo_pay ?ev demo_checkout empty_record = Inr slug_usage"
    using demo_apply_plan [of "\<lambda>c. False" demo_checkout empty_record]
    by (simp add: apply_plan_def plan_for_product_def demo_event_def)
  moreover have "\<not> unapplicable demo_env ?ev" "ev_grace_known ?ev" "is_zero_time (ev_grace ?ev)"
    using demo_applicable demo_known demo_undated by (simp_all add: unapplicable_def)
  moreover have "bd_ents demo_checkout ''o'' = None" by (simp add: demo_checkout_def demo_billing_def)
  ultimately have ap: "apply_subscription (\<lambda>c. False) demo_env demo_pay ''i'' 9 ''o'' ?ev 8 demo_checkout
      = Inr (demo_checkout\<lparr>bd_subs := [event_row demo_pay ''i'' 9 ''o'' slug_usage demo_event 8]\<rparr>, 1)"
    by (rule_tac apply_subscription_intro)
  have ref: "checkout_org demo_checkout ''dodo'' ''r'' = Some ''o''" by (simp add: checkout_org_def demo_checkout_def)
  have env: "se_payments demo_env = Some demo_pay" "takes_money demo_env"
    by (simp_all add: demo_pay_def demo_env_def takes_money_def configured_def)
  have rec: "stored_record (\<lambda>c. False) demo_checkout ''o'' = Inr empty_record"
    by (simp add: stored_record_def demo_checkout_def demo_billing_def record_from_row_def)
  have cur: "normalize_currency demo_env (ev_currency ?ev) = USD" using demo_currency by (simp add: demo_event_def)
  have "confirm_checkout (\<lambda>c. False) demo_env (\<lambda>s. Inr ?ev) ''i'' 9 ''o'' ''s'' 8 demo_checkout
      = (demo_checkout\<lparr>bd_subs := [event_row demo_pay ''i'' 9 ''o'' slug_usage demo_event 8]\<rparr>, Inr True)"
    using ap ref env rec cur
    by (simp add: confirm_checkout_def event_is_zero_def plan_for_product_def) (simp add: demo_event_def live_iff)
  then obtain db' where c: "confirm_checkout (\<lambda>c. False) demo_env (\<lambda>s. Inr ?ev) ''i'' 9 ''o'' ''s'' 8 demo_checkout = (db', Inr True)"
    by blast
  have "\<exists>pay. se_payments demo_env = Some pay \<and> checkout_org demo_checkout (pay_name pay) ''r'' = Some ''o''"
    using confirm_needs_own_ref [OF c] by auto
  with c env(1) show ?thesis by auto
qed

section \<open>The reconcile walk\<close>

definition provider_rows :: "payments \<Rightarrow> billing_db \<Rightarrow> sub_row list" where
  "provider_rows pay db = filter (\<lambda>r. sr_provider r = pay_name pay) (bd_subs db)"

text \<open>A read that answers for the subscription it was asked about.\<close>

definition honest_fetch :: "(string \<Rightarrow> (sub_error, sub_event) result) \<Rightarrow> bool" where
  "honest_fetch fetch = (\<forall>s e. fetch s = Inr e \<longrightarrow> event_is_zero e \<or> ev_sub e = s)"

lemma apply_stored_keys:
  assumes "apply_subscription flt env pay sid w org event at db = Inr (db', n)"
    and "(pay_name pay, ev_sub event) \<in> sub_key ` set (bd_subs db)"
  shows "map sub_key (bd_subs db') = map sub_key (bd_subs db)"
  using assms(1)
proof (rule apply_subscription_ok)
  fix ev rec slug db1
  assume stmt: "apply_billing_subscription db (event_row pay sid w org slug ev at) (ev_grace_known ev) = Inr (db1, n)"
    and ev: "ev = (if \<not> ev_grace_known event then event\<lparr>ev_grace := zero_time\<rparr> else event)"
    and db': "db' = (if n = 0 \<and> ev_grace_known ev \<and> \<not> is_zero_time (ev_grace ev)
            then fill_grace db1 w (event_key pay event) (ev_provider_status ev) (ev_grace ev) else db1)"
  have "event_key pay ev \<in> sub_key ` set (bd_subs db)" using assms(2) by (simp add: event_key_def ev)
  then have "find_sub (bd_subs db) (event_key pay ev) \<noteq> None" using find_sub_None by fastforce
  note found = this
  have "map sub_key (bd_subs db1) = map sub_key (bd_subs db)"
    using stmt by (cases rule: apply_stmt_cases) (use found in \<open>auto simp: keys_replace\<close>)
  moreover have "sub_key \<circ> fill_row w k ps d = sub_key" for k ps d by (rule ext) simp
  ultimately show ?thesis using db' by simp
qed

text \<open>The counters of one row, against those before it.\<close>

definition row_counts :: "report \<Rightarrow> nat" where
  "row_counts rep = rp_applied rep + rp_untracked rep + rp_unmapped rep + rp_unreadable rep + rp_unapplicable rep + rp_two_live rep"

lemma reread_counts:
  "row_counts (snd (reconcile_one flt env pay fetch sid w now row (db, rep))) \<le> row_counts rep + 1
   \<and> rp_checked (snd (reconcile_one flt env pay fetch sid w now row (db, rep))) = rp_checked rep + 1"
proof (cases "fetch (sr_sub row)")
  case (Inl e)
  then show ?thesis by (simp add: reconcile_one_def Let_def row_counts_def)
next
  case (Inr event)
  show ?thesis
  proof (cases "event_is_zero event \<or> (\<exists>e. stored_record (\<lambda>c. flt (ScEnt c)) db (sr_org row) = Inl e)")
    case True
    with Inr show ?thesis by (auto simp: reconcile_one_def Let_def row_counts_def)
  next
    case False
    then obtain rec where rec: "stored_record (\<lambda>c. flt (ScEnt c)) db (sr_org row) = Inr rec" by (meson sum.exhaust)
    show ?thesis
    proof (cases "apply_subscription flt env pay sid w (sr_org row) event now db")
      case (Inl e)
      with Inr False rec show ?thesis by (cases e) (simp_all add: reconcile_one_def Let_def row_counts_def)
    next
      case ok: (Inr v)
      obtain db' n where "v = (db', n)" by (cases v)
      with Inr False rec ok show ?thesis by (simp add: reconcile_one_def Let_def row_counts_def)
    qed
  qed
qed

lemma reread_keys:
  assumes "honest_fetch fetch" "sub_key row \<in> sub_key ` set (bd_subs db)" "sr_provider row = pay_name pay"
  shows "map sub_key (bd_subs (fst (reconcile_one flt env pay fetch sid w now row (db, rep)))) = map sub_key (bd_subs db)"
proof (cases "\<exists>event. fetch (sr_sub row) = Inr event \<and> \<not> event_is_zero event")
  case True
  then obtain event where ev: "fetch (sr_sub row) = Inr event" "\<not> event_is_zero event" by blast
  with assms(1) have "ev_sub event = sr_sub row" by (auto simp: honest_fetch_def)
  with assms(2,3) have key: "(pay_name pay, ev_sub event) \<in> sub_key ` set (bd_subs db)"
    by (simp add: sub_key_def)
  show ?thesis
  proof (cases "stored_record (\<lambda>c. flt (ScEnt c)) db (sr_org row)")
    case (Inl e)
    with ev show ?thesis by (simp add: reconcile_one_def Let_def)
  next
    case rec: (Inr rec)
    show ?thesis
    proof (cases "apply_subscription flt env pay sid w (sr_org row) event now db")
      case (Inl e)
      with ev rec show ?thesis by (cases e) (simp_all add: reconcile_one_def Let_def)
    next
      case ok: (Inr v)
      obtain db' n where v: "v = (db', n)" by (cases v)
      with ok have "map sub_key (bd_subs db') = map sub_key (bd_subs db)" using apply_stored_keys [OF _ key] by simp
      with ev rec ok v show ?thesis by (simp add: reconcile_one_def Let_def)
    qed
  qed
next
  case False
  then show ?thesis
    by (cases "fetch (sr_sub row)") (auto simp: reconcile_one_def Let_def)
qed

lemma reconcile_rows_walk:
  assumes "honest_fetch fetch" "\<forall>row\<in>set rows. sr_provider row = pay_name pay \<and> sub_key row \<in> sub_key ` set (bd_subs db)"
    and "reconcile_rows flt env pay fetch ids w now k rows (db, rep) = ((db', rep'), stopped)"
  shows "map sub_key (bd_subs db') = map sub_key (bd_subs db)
    \<and> row_counts rep' \<le> row_counts rep + (rp_checked rep' - rp_checked rep)
    \<and> rp_checked rep \<le> rp_checked rep' \<and> (\<not> stopped \<longrightarrow> rp_checked rep' = rp_checked rep + length rows)"
  using assms(2,3)
proof (induction rows arbitrary: k db rep)
  case (Cons row rows)
  show ?case
  proof (cases "flt (RcCtx k)")
    case False
    obtain db1 rep1 where one: "reconcile_one (\<lambda>c. flt (RcRow k c)) env pay fetch (ids k) w now row (db, rep) = (db1, rep1)"
      by (cases "reconcile_one (\<lambda>c. flt (RcRow k c)) env pay fetch (ids k) w now row (db, rep)")
    have keys: "map sub_key (bd_subs db1) = map sub_key (bd_subs db)"
      using reread_keys [OF assms(1), of row db pay "\<lambda>c. flt (RcRow k c)" env "ids k" w now rep] Cons.prems(1) one by simp
    then have "sub_key ` set (bd_subs db1) = sub_key ` set (bd_subs db)" by (metis set_map)
    with Cons.prems False one have "map sub_key (bd_subs db') = map sub_key (bd_subs db1)
      \<and> row_counts rep' \<le> row_counts rep1 + (rp_checked rep' - rp_checked rep1)
      \<and> rp_checked rep1 \<le> rp_checked rep' \<and> (\<not> stopped \<longrightarrow> rp_checked rep' = rp_checked rep1 + length rows)"
      by (intro Cons.IH) auto
    moreover have "row_counts rep1 \<le> row_counts rep + 1" "rp_checked rep1 = rp_checked rep + 1"
      using reread_counts [of "\<lambda>c. flt (RcRow k c)" env pay fetch "ids k" w now row db rep] one by simp_all
    ultimately show ?thesis using keys by auto
  qed (use Cons.prems in simp)
qed simp

lemma provider_rows_keys:
  "map sub_key (bd_subs db') = map sub_key (bd_subs db) \<Longrightarrow> length (provider_rows pay db') = length (provider_rows pay db)"
proof -
  have eq: "length (provider_rows pay d) = length (filter (\<lambda>k. fst k = pay_name pay) (map sub_key (bd_subs d)))" for d
    by (simp add: provider_rows_def filter_map o_def sub_key_def)
  assume "map sub_key (bd_subs db') = map sub_key (bd_subs db)"
  then show ?thesis unfolding eq by simp
qed

lemma sub_page_facts:
  "length (sub_page pay offset db) = min reconcile_page_size (length (provider_rows pay db) - offset)"
  "row \<in> set (sub_page pay offset db) \<Longrightarrow> sr_provider row = pay_name pay \<and> row \<in> set (bd_subs db)"
  by (simp_all add: sub_page_def provider_rows_def) (auto dest!: in_set_takeD in_set_dropD)

text \<open>The walk ends, and it has checked every row of the provider when nothing cut it.\<close>

lemma reconcile_pages_end:
  assumes "honest_fetch fetch" "length (provider_rows pay db) < offset + fuel * reconcile_page_size"
    and "offset \<le> length (provider_rows pay db)"
  shows "\<exists>db' rep' e. reconcile_pages fuel flt env pay fetch ids w now offset (db, rep) = Some ((db', rep'), e)
    \<and> row_counts rep' + rp_checked rep \<le> row_counts rep + rp_checked rep' \<and> rp_checked rep \<le> rp_checked rep'
    \<and> (e = None \<longrightarrow> rp_checked rep' = rp_checked rep + (length (provider_rows pay db) - offset))"
  using assms(2,3)
proof (induction fuel arbitrary: offset db rep)
  case (Suc fuel)
  define rows where "rows = sub_page pay offset db"
  obtain db1 rep1 stopped where walk: "reconcile_rows flt env pay fetch ids w now offset rows (db, rep) = ((db1, rep1), stopped)"
    by (metis surj_pair)
  have mem: "\<forall>row\<in>set rows. sr_provider row = pay_name pay \<and> sub_key row \<in> sub_key ` set (bd_subs db)"
    using sub_page_facts(2) [of _ pay offset db] by (auto simp: rows_def)
  note facts = reconcile_rows_walk [OF assms(1) mem walk]
  have same: "length (provider_rows pay db1) = length (provider_rows pay db)" using facts provider_rows_keys by blast
  have len: "length rows = min reconcile_page_size (length (provider_rows pay db) - offset)"
    by (simp add: rows_def sub_page_facts)
  consider (list) "flt (RcList offset)" | (halt) "\<not> flt (RcList offset)" stopped
    | (last) "\<not> flt (RcList offset)" "\<not> stopped" "length rows < reconcile_page_size"
    | (more) "\<not> flt (RcList offset)" "\<not> stopped" "\<not> length rows < reconcile_page_size" by blast
  then show ?case
  proof cases
    case list
    then show ?thesis by simp
  next
    case halt
    with walk facts show ?thesis by (auto simp: rows_def Let_def)
  next
    case last
    with walk facts len show ?thesis by (auto simp: rows_def Let_def)
  next
    case more
    with len have off: "offset + reconcile_page_size \<le> length (provider_rows pay db1)" "length rows = reconcile_page_size"
      using same by (auto simp: reconcile_page_size_def min_def split: if_splits)
    have "length (provider_rows pay db1) < (offset + reconcile_page_size) + fuel * reconcile_page_size"
      using Suc.prems(1) same by simp
    from Suc.IH [OF this off(1), of rep1] obtain db' rep' e where
      "reconcile_pages fuel flt env pay fetch ids w now (offset + reconcile_page_size) (db1, rep1) = Some ((db', rep'), e)"
      "row_counts rep' + rp_checked rep1 \<le> row_counts rep1 + rp_checked rep'" "rp_checked rep1 \<le> rp_checked rep'"
      "e = None \<longrightarrow> rp_checked rep' = rp_checked rep1 + (length (provider_rows pay db1) - (offset + reconcile_page_size))"
      by blast
    with more walk facts off same show ?thesis by (auto simp: rows_def Let_def)
  qed
qed simp

text \<open>
  The reconcile pass ends, and it skips nothing: with one unit of fuel per page of 500
  and one more it returns, whatever fails, as long as the provider answers about the
  subscription it is asked for; a walk that reports no error has checked every stored
  subscription of the provider, and no row is counted twice.
\<close>

theorem reconcile_walk_complete:
  assumes "honest_fetch fetch" "length (provider_rows pay db) div reconcile_page_size < fuel"
  shows "\<exists>db' rep e. reconcile_pages fuel flt env pay fetch ids w now 0 (db, empty_report) = Some ((db', rep), e)
    \<and> row_counts rep \<le> rp_checked rep \<and> (e = None \<longrightarrow> rp_checked rep = length (provider_rows pay db))"
proof -
  have "length (provider_rows pay db) < 0 + fuel * reconcile_page_size"
    using assms(2) div_less_iff_less_mult [of reconcile_page_size] by (simp add: reconcile_page_size_def)
  from reconcile_pages_end [OF assms(1) this, of flt env ids w now empty_report] show ?thesis
    by (auto simp: empty_report_def row_counts_def)
qed

theorem reconcile_walk_complete_witness:
  "\<exists>db' rep. reconcile_pages 1 (\<lambda>c. False) demo_env demo_pay (\<lambda>s. Inl ErrProvider) (\<lambda>k. ''i'') 9 9 0 (demo_subs, empty_report)
     = Some ((db', rep), None) \<and> rp_checked rep = 1"
proof -
  have honest: "honest_fetch (\<lambda>s. Inl ErrProvider)" by (simp add: honest_fetch_def)
  have rows: "provider_rows demo_pay demo_subs = [demo_live_row]"
    by (simp add: provider_rows_def demo_subs_def demo_live_row_def)
  from reconcile_walk_complete [OF honest, of demo_pay demo_subs 1 "\<lambda>c. False" demo_env "\<lambda>k. ''i''" 9 9] rows
  obtain db' rep e where r: "reconcile_pages 1 (\<lambda>c. False) demo_env demo_pay (\<lambda>s. Inl ErrProvider) (\<lambda>k. ''i'') 9 9 0 (demo_subs, empty_report)
      = Some ((db', rep), e)" "e = None \<longrightarrow> rp_checked rep = 1"
    by (auto simp: reconcile_page_size_def)
  have "length (sub_page demo_pay 0 demo_subs) < reconcile_page_size"
    by (simp add: sub_page_facts rows) (simp add: reconcile_page_size_def)
  then have "e = None"
  proof -
    have "\<not> snd (reconcile_rows (\<lambda>c. False) demo_env demo_pay (\<lambda>s. Inl ErrProvider) (\<lambda>k. ''i'') 9 9 k rows' acc)" for k rows' acc
      by (induction rows' arbitrary: k acc) simp_all
    with r(1) \<open>length (sub_page demo_pay 0 demo_subs) < reconcile_page_size\<close> show ?thesis
      by (auto simp: Let_def split: prod.splits if_splits) (metis snd_conv)
  qed
  with r show ?thesis by blast
qed

end
