(* ===== verification/Go_Decimal.thy ===== *)
theory Go_Decimal
  imports Prelude
begin

text \<open>
  Go's decimal text of integers: \<open>strconv.FormatInt\<close>, \<open>strconv.ParseInt\<close> and \<open>strconv.ParseUint\<close>
  in base 10, with the range checks of the width asked for. A parse error is \<open>None\<close>.
\<close>

section \<open>Formatting\<close>

text \<open>\<open>strconv.FormatInt(n, 10)\<close>.\<close>

definition digit :: "nat \<Rightarrow> char" where
  "digit d = char_of (48 + d)"

fun digits :: "nat \<Rightarrow> string" where
  "digits n = (if n < 10 then [digit n] else digits (n div 10) @ [digit (n mod 10)])"

declare digits.simps [simp del]

definition format_int :: "int \<Rightarrow> string" where
  "format_int i = (if i < 0 then CHR ''-'' # digits (nat (- i)) else digits (nat i))"

lemma digit_read: "d < 10 \<Longrightarrow> of_char (digit d) = 48 + d"
  by (simp add: digit_def)

fun read_digits :: "nat \<Rightarrow> string \<Rightarrow> nat" where
  "read_digits acc [] = acc"
| "read_digits acc (c # cs) = read_digits (10 * acc + (of_char c - 48)) cs"

lemma read_digits_snoc: "read_digits acc (s @ [c]) = 10 * read_digits acc s + (of_char c - 48)"
  by (induction acc s rule: read_digits.induct) simp_all

lemma read_digits_digits: "read_digits 0 (digits n) = n"
proof (induction n rule: digits.induct)
  case (1 n)
  show ?case
  proof (cases "n < 10")
    case False
    with 1 show ?thesis unfolding digits.simps [of n] by (simp add: read_digits_snoc digit_read)
  qed (simp add: digits.simps [of n] digit_read)
qed

lemma digits_are_digits: "c \<in> set (digits n) \<Longrightarrow> (48::nat) \<le> of_char c \<and> of_char c < (58::nat)"
proof (induction n rule: digits.induct)
  case (1 n)
  show ?case
  proof (cases "n < 10")
    case False
    with 1 show ?thesis unfolding digits.simps [of n] by (auto simp: digit_read)
  qed (use 1 in \<open>auto simp: digits.simps [of n] digit_read\<close>)
qed

lemma digits_no: "CHR ''-'' \<notin> set (digits n)" "CHR ''|'' \<notin> set (digits n)"
  using digits_are_digits [of "CHR ''-''" n] digits_are_digits [of "CHR ''|''" n] by auto

lemma digits_inj: "digits m = digits n \<Longrightarrow> m = n"
  by (metis read_digits_digits)

lemma format_int_inj: "format_int i = format_int j \<Longrightarrow> i = j"
proof -
  have minus: "CHR ''-'' # s \<noteq> digits n" for s n
    using digits_no(1) [of n] by (metis list.set_intros(1))
  assume "format_int i = format_int j"
  then show "i = j"
    using minus minus [symmetric] by (auto simp: format_int_def dest!: digits_inj split: if_splits)
qed

lemma format_int_no_bar: "CHR ''|'' \<notin> set (format_int i)"
  using digits_no(2) by (simp add: format_int_def)

section \<open>Parsing\<close>

definition is_digit :: "char \<Rightarrow> bool" where
  "is_digit c = ((48::nat) \<le> of_char c \<and> of_char c < (58::nat))"

definition parse_nat :: "string \<Rightarrow> nat option" where
  "parse_nat s = (if s \<noteq> [] \<and> list_all is_digit s then Some (read_digits 0 s) else None)"

text \<open>\<open>ParseUint(s, 10, bits)\<close> takes no sign, \<open>ParseInt(s, 10, bits)\<close> one sign of either kind.\<close>

definition parse_uint :: "nat \<Rightarrow> string \<Rightarrow> int option" where
  "parse_uint bits s =
     (case parse_nat s of None \<Rightarrow> None | Some n \<Rightarrow> if n < 2 ^ bits then Some (int n) else None)"

definition parse_int :: "nat \<Rightarrow> string \<Rightarrow> int option" where
  "parse_int bits s =
     (let neg = (s \<noteq> [] \<and> hd s = CHR ''-'');
          body = (if s \<noteq> [] \<and> (hd s = CHR ''-'' \<or> hd s = CHR ''+'') then tl s else s)
      in case parse_nat body of
           None \<Rightarrow> None
         | Some n \<Rightarrow>
             if neg then (if n \<le> 2 ^ (bits - 1) then Some (- int n) else None)
             else (if n < 2 ^ (bits - 1) then Some (int n) else None))"

lemma digits_nonempty [simp]: "digits n \<noteq> []"
  by (subst digits.simps) simp

lemma all_digits [simp]: "list_all is_digit (digits n)"
  using digits_are_digits by (auto simp: list_all_iff is_digit_def)

lemma parse_nat_digits [simp]: "parse_nat (digits n) = Some n"
  by (simp add: parse_nat_def read_digits_digits)

lemma digits_no_sign: "hd (digits n) \<noteq> CHR ''-''" "hd (digits n) \<noteq> CHR ''+''"
proof -
  have "(48::nat) \<le> of_char (hd (digits n))" using digits_are_digits [OF hd_in_set [OF digits_nonempty]] by simp
  then show "hd (digits n) \<noteq> CHR ''-''" "hd (digits n) \<noteq> CHR ''+''" by auto
qed

section \<open>Fixed width\<close>

text \<open>\<open>appendInt\<close> of package \<open>time\<close>: at least \<open>w\<close> digits, zeros in front.\<close>

definition pad :: "nat \<Rightarrow> nat \<Rightarrow> string" where
  "pad w n = replicate (w - length (digits n)) (CHR ''0'') @ digits n"

definition append_int :: "nat \<Rightarrow> int \<Rightarrow> string" where
  "append_int w i = (if i < 0 then CHR ''-'' # pad w (nat (- i)) else pad w (nat i))"

lemma read_digits_zeros [simp]: "read_digits 0 (replicate k (CHR ''0'') @ s) = read_digits 0 s"
  by (induction k) simp_all

lemma read_pad [simp]: "read_digits 0 (pad w n) = n"
  by (simp add: pad_def read_digits_digits)

lemma pad_digits [simp]: "list_all is_digit (pad w n)"
  by (simp add: pad_def list_all_iff is_digit_def) (auto dest: digits_are_digits)

lemma digits_length: "n < 10 ^ w \<Longrightarrow> 0 < w \<Longrightarrow> length (digits n) \<le> w"
proof (induction w arbitrary: n)
  case (Suc w)
  show ?case
  proof (cases "n < 10")
    case True
    then show ?thesis by (simp add: digits.simps [of n])
  next
    case False
    then have "0 < w" using Suc.prems by (cases w) auto
    moreover have "n div 10 < 10 ^ w" using Suc.prems(1) by (simp add: less_mult_imp_div_less mult.commute)
    ultimately show ?thesis using Suc.IH [of "n div 10"] False by (simp add: digits.simps [of n])
  qed
qed simp

lemma pad_length: "n < 10 ^ w \<Longrightarrow> 0 < w \<Longrightarrow> length (pad w n) = w"
  using digits_length [of n w] by (simp add: pad_def)

lemma read_digits_acc: "read_digits acc s = acc * 10 ^ length s + read_digits 0 s"
proof (induction s arbitrary: acc)
  case (Cons c s)
  show ?case using Cons [of "10 * acc + (of_char c - 48)"] Cons [of "of_char c - 48"] by (simp add: algebra_simps)
qed simp

lemma read_digits_less: "list_all is_digit s \<Longrightarrow> read_digits 0 s < 10 ^ length s"
proof (induction s)
  case (Cons c s)
  then have "of_char c - 48 \<le> (9::nat)" "read_digits 0 s < 10 ^ length s" by (auto simp: is_digit_def)
  then have "(of_char c - 48) * 10 ^ length s + read_digits 0 s < 9 * 10 ^ length s + 10 ^ length s"
    by (intro add_le_less_mono mult_le_mono) simp_all
  then show ?case using read_digits_acc [of "of_char c - 48" s] by simp
qed simp

lemma read_digits_inj:
  "list_all is_digit s \<Longrightarrow> list_all is_digit r \<Longrightarrow> length s = length r \<Longrightarrow> read_digits 0 s = read_digits 0 r \<Longrightarrow> s = r"
proof (induction s arbitrary: r)
  case (Cons c s)
  then obtain d r' where r: "r = d # r'" by (cases r) auto
  let ?k = "10 ^ length s :: nat"
  have eq: "(of_char c - 48) * ?k + read_digits 0 s = (of_char d - 48) * ?k + read_digits 0 r'"
    using Cons.prems(3,4) read_digits_acc [of "of_char c - 48" s] read_digits_acc [of "of_char d - 48" r'] by (simp add: r)
  have less: "read_digits 0 s < ?k" "read_digits 0 r' < ?k"
    using read_digits_less [of s] read_digits_less [of r'] Cons.prems by (auto simp: r)
  have "((of_char c - 48) * ?k + read_digits 0 s) div ?k = (of_char c - 48 :: nat)" "((of_char d - 48) * ?k + read_digits 0 r') div ?k = (of_char d - 48 :: nat)"
    using less by simp_all
  with eq have cd: "of_char c - 48 = (of_char d - 48 :: nat)" by simp
  moreover have "(48::nat) \<le> of_char c" "(48::nat) \<le> of_char d" using Cons.prems by (auto simp: r is_digit_def)
  ultimately have "of_char c = (of_char d :: nat)" by linarith
  then have "c = d" by simp
  moreover have "s = r'" using Cons.IH [of r'] Cons.prems eq cd by (simp add: r)
  ultimately show ?case by (simp add: r)
qed simp

lemma pad_read: "list_all is_digit s \<Longrightarrow> s \<noteq> [] \<Longrightarrow> pad (length s) (read_digits 0 s) = s"
  by (rule read_digits_inj) (simp_all add: pad_length read_digits_less)

lemma parse_format_int:
  assumes "- (2 ^ (bits - 1)) \<le> i" "i < 2 ^ (bits - 1)"
  shows "parse_int bits (format_int i) = Some i"
proof (cases "i < 0")
  case True
  then have "nat (- i) \<le> 2 ^ (bits - 1)" using assms by simp
  with True show ?thesis by (simp add: parse_int_def format_int_def)
next
  case False
  then have "nat i < 2 ^ (bits - 1)" using assms by (simp add: nat_less_iff)
  with False show ?thesis by (simp add: parse_int_def format_int_def digits_no_sign Let_def)
qed

end
