(* ===== verification/Meter_Split.thy ===== *)
theory Meter_Split
  imports Plans Usage_Period Go_Decimal
begin

text \<open>
  The arithmetic of the meter pass, \<open>split.go\<close>, \<open>window.go\<close> and \<open>statement.go\<close> of
  \<open>internal/core/billing/meter\<close>: a period's count split over the plan's tiers, the window
  of whole days a period states, what a window ended short by, and the identifier of a
  statement. Counts are \<open>int\<close>; \<open>split_fits\<close> bounds every difference the code forms, so
  no int64 wraps. An index past the end of a slice panics, \<open>None\<close>.
\<close>

section \<open>The code\<close>

text \<open>The loop of \<open>Split\<close>, with the bound the previous tier ended at.\<close>

fun split_from :: "int \<Rightarrow> int \<Rightarrow> int \<Rightarrow> int list \<Rightarrow> int list" where
  "split_from total_count allowance bound [] =
     (let lo = max bound allowance; hi = total_count in [max 0 (hi - lo)])"
| "split_from total_count allowance bound (b # bs) =
     (let lo = max bound allowance; hi = min total_count b
      in max 0 (hi - lo) # split_from total_count allowance b bs)"

definition split_tiers :: "int \<Rightarrow> int \<Rightarrow> int list \<Rightarrow> int list" where
  "split_tiers total_count allowance tier_up_to = split_from total_count allowance 0 tier_up_to"

definition carry :: "int list \<Rightarrow> int list \<Rightarrow> int list option" where
  "carry final stated = zip_with (\<lambda>f s. max 0 (f - s)) final stated"

definition max_each :: "int list \<Rightarrow> int list \<Rightarrow> int list option" where
  "max_each a b = zip_with max a b"

definition sum_each :: "int list \<Rightarrow> int list \<Rightarrow> int list option" where
  "sum_each a b = zip_with (+) a b"

record window =
  wn_start :: time
  wn_end :: time

definition day :: "time \<Rightarrow> time" where
  "day t = go_date (time_year t) (time_month t) (time_day t)"

definition window_for :: "time \<Rightarrow> time \<Rightarrow> window option \<Rightarrow> window option \<Rightarrow> window" where
  "window_for period_start period_end stated prev =
     (let end' = day period_end;
          start = day period_start;
          start1 = (case stated of
                      Some s \<Rightarrow> wn_start s
                    | None \<Rightarrow> (case prev of
                                 Some p \<Rightarrow> if start < wn_end p then wn_end p else start
                               | None \<Rightarrow> start));
          start2 = (if end' < start1 then end' else start1)
      in \<lparr>wn_start = start2, wn_end = end'\<rparr>)"

definition through :: "window \<Rightarrow> time \<Rightarrow> time" where
  "through w now =
     (let t = add_date (day now) 0 0 1;
          t1 = (if wn_end w < t then wn_end w else t)
      in if t1 < wn_start w then wn_start w else t1)"

definition contiguous_with :: "window \<Rightarrow> window \<Rightarrow> bool" where
  "contiguous_with w next_w = (wn_end w = wn_start next_w)"

definition unix :: "time \<Rightarrow> int" where
  "unix t = t div second"

text \<open>What \<open>eventID\<close> hashes, and the identifier; the hash (\<open>crypto/sha256\<close>) is an argument.\<close>

definition statement_text :: "string \<Rightarrow> time \<Rightarrow> int list \<Rightarrow> string" where
  "statement_text org period_start tiers =
     org @ CHR ''|'' # format_int (unix period_start) @ concat (map (\<lambda>n. CHR ''|'' # format_int n) tiers)"

definition hex_digit :: "nat \<Rightarrow> char" where
  "hex_digit d = (if d < 10 then char_of (48 + d) else char_of (87 + d))"

definition hex_encode :: "nat list \<Rightarrow> string" where
  "hex_encode bs = concat (map (\<lambda>b. [hex_digit (b div 16), hex_digit (b mod 16)]) bs)"

definition event_id :: "(string \<Rightarrow> nat list) \<Rightarrow> string \<Rightarrow> time \<Rightarrow> int list \<Rightarrow> string" where
  "event_id sha256 org period_start tiers =
     ''pug_'' @ take 32 (hex_encode (sha256 (statement_text org period_start tiers)))"

section \<open>The split\<close>

lemma split_from_length [simp]: "length (split_from n a b ts) = length ts + 1"
  by (induction n a b ts rule: split_from.induct) (simp_all add: Let_def)

lemma split_length [simp]: "length (split_tiers n a ts) = length ts + 1"
  by (simp add: split_tiers_def)

lemma split_from_nonneg: "x \<in> set (split_from n a b ts) \<Longrightarrow> 0 \<le> x"
  by (induction n a b ts rule: split_from.induct) (auto simp: Let_def)

lemma split_nonneg: "x \<in> set (split_tiers n a ts) \<Longrightarrow> 0 \<le> x"
  unfolding split_tiers_def by (rule split_from_nonneg)

lemma split_from_sum: "rising b ts \<Longrightarrow> sum_list (split_from n a b ts) = max 0 (n - max b a)"
proof (induction n a b ts rule: split_from.induct)
  case (2 n a bound b bs)
  then have "bound < b" "sum_list (split_from n a b bs) = max 0 (n - max b a)"
    by (auto split: if_splits)
  then show ?case by (simp add: Let_def max_def min_def)
qed (simp add: Let_def)

text \<open>A larger count never lowers a tier.\<close>

lemma split_from_mono: "n \<le> m \<Longrightarrow> le_each (split_from n a b ts) (split_from m a b ts)"
proof (induction ts arbitrary: b)
  case (Cons t ts)
  have "max 0 (min n t - max b a) \<le> max 0 (min m t - max b a)" using Cons.prems by (simp add: max_def min_def)
  with Cons show ?case by (simp add: Let_def)
qed (simp add: Let_def)

lemma split_mono: "n \<le> m \<Longrightarrow> le_each (split_tiers n a ts) (split_tiers m a ts)"
  unfolding split_tiers_def by (rule split_from_mono)

lemma rising_weaken: "rising p ts \<Longrightarrow> q \<le> p \<Longrightarrow> rising q ts"
  by (cases ts) (auto split: if_splits)

text \<open>The reference: the tier an event falls in, counting events from 0.\<close>

definition tier_of :: "int list \<Rightarrow> int \<Rightarrow> nat" where
  "tier_of ts e = length (takeWhile (\<lambda>b. b \<le> e) ts)"

lemma tier_of_simps [simp]:
  "tier_of [] e = 0" "tier_of (b # bs) e = (if b \<le> e then Suc (tier_of bs e) else 0)"
  by (simp_all add: tier_of_def)

lemma card_run: "int (card {e. b \<le> e \<and> e < n \<and> a \<le> (e::int)}) = max 0 (n - max b a)"
proof -
  have "{e. b \<le> e \<and> e < n \<and> a \<le> e} = {max b a..<n}" by auto
  then have "card {e. b \<le> e \<and> e < n \<and> a \<le> e} = nat (n - max b a)" by simp
  then show ?thesis by (simp only: int_nat_eq max_def)
qed

lemma split_from_counts:
  "rising b ts \<Longrightarrow> k \<le> length ts \<Longrightarrow>
    split_from n a b ts ! k = int (card {e. b \<le> e \<and> e < n \<and> a \<le> e \<and> tier_of ts e = k})"
proof (induction ts arbitrary: b k)
  case Nil
  then show ?case by (simp add: Let_def card_run)
next
  case (Cons t ts)
  then have t: "b < t" "rising t ts" by (auto split: if_splits)
  show ?case
  proof (cases k)
    case 0
    have "{e. b \<le> e \<and> e < n \<and> a \<le> e \<and> tier_of (t # ts) e = k} = {e. b \<le> e \<and> e < min n t \<and> a \<le> e}"
      using 0 by auto
    then show ?thesis using 0 card_run [of b "min n t" a] by (simp only: split_from.simps Let_def nth_Cons_0)
  next
    case (Suc j)
    have "{e. b \<le> e \<and> e < n \<and> a \<le> e \<and> tier_of (t # ts) e = k}
        = {e. t \<le> e \<and> e < n \<and> a \<le> e \<and> tier_of ts e = j}"
      using Suc t by auto
    then show ?thesis using Suc Cons.IH [OF t(2), of j] Cons.prems(2) by (simp add: Let_def)
  qed
qed

text \<open>Every difference the loop forms stays in an int64.\<close>

fun split_diffs :: "int \<Rightarrow> int \<Rightarrow> int \<Rightarrow> int list \<Rightarrow> int list" where
  "split_diffs n a bound [] = [n - max bound a]"
| "split_diffs n a bound (b # bs) = (min n b - max bound a) # split_diffs n a b bs"

lemma split_from_diffs: "split_from n a b ts = map (max 0) (split_diffs n a b ts)"
  by (induction n a b ts rule: split_from.induct) (simp_all add: Let_def)

lemma split_fits:
  assumes "0 \<le> n" "n < 2 ^ 63" "a < 2 ^ 63" "0 \<le> b" "b < 2 ^ 63" "rising b ts" "\<forall>t\<in>set ts. t < 2 ^ 63"
    and "x \<in> set (split_diffs n a b ts)"
  shows "- (2 ^ 63) \<le> x \<and> x < 2 ^ 63"
  using assms by (induction n a b ts rule: split_diffs.induct) (auto split: if_splits)

section \<open>Carry, max and sum\<close>

lemma max_each_eq: "length a = length b \<Longrightarrow> max_each a b = Some (map2 max a b)"
  by (simp add: max_each_def zip_with_same_length)

lemma sum_each_eq: "length a = length b \<Longrightarrow> sum_each a b = Some (map2 (+) a b)"
  by (simp add: sum_each_def zip_with_same_length)

lemma carry_eq: "length a = length b \<Longrightarrow> carry a b = Some (map2 (\<lambda>f s. max 0 (f - s)) a b)"
  by (simp add: carry_def zip_with_same_length)

text \<open>What was stated and what is carried make the final split, or the statement when it was higher.\<close>

lemma carry_settles: "carry final stated = Some c \<Longrightarrow> length final = length stated \<Longrightarrow>
    sum_each stated c = max_each final stated"
proof (induction final stated arbitrary: c rule: list_induct2')
  case (4 x xs y ys)
  then obtain c' where "carry xs ys = Some c'" "c = max 0 (x - y) # c'" by (auto simp: carry_def)
  moreover from this 4 have "sum_each ys c' = max_each xs ys" by simp
  ultimately show ?case by (simp add: sum_each_def max_each_def max_def)
qed (auto simp: carry_def sum_each_def max_each_def)

lemma map2_max_nonneg: "length a = length b \<Longrightarrow> \<forall>x\<in>set a. 0 \<le> x \<Longrightarrow> \<forall>x\<in>set (map2 max a b). (0::int) \<le> x"
  by (induction a b rule: list_induct2) (auto simp: le_max_iff_disj)

lemma carry_nonneg: "carry a b = Some c \<Longrightarrow> \<forall>x\<in>set c. 0 \<le> x"
  unfolding carry_def by (induction "\<lambda>f s. max 0 (f - s :: int)" a b arbitrary: c rule: zip_with.induct) auto

section \<open>Windows\<close>

lemma day_eq: "day t = day_number t * day_ns"
  by (simp add: day_def go_date_today)

lemma day_midnight [simp]: "day (n * day_ns) = n * day_ns"
  by (simp add: day_eq)

lemma window_for_fields:
  "wn_end (window_for ps pe stated prev) = day pe"
  "wn_start (window_for ps pe stated prev) \<le> wn_end (window_for ps pe stated prev)"
  by (simp_all add: window_for_def Let_def)

lemma window_for_new:
  "prev = Some p \<Longrightarrow> wn_start (window_for ps pe None prev) = min (day pe) (max (day ps) (wn_end p))"
  by (auto simp: window_for_def Let_def min_def max_def)

lemma window_for_kept:
  "wn_start (window_for ps pe (Some s) prev) = min (day pe) (wn_start s)"
  by (auto simp: window_for_def Let_def min_def)

lemma add_day: "add_date (day t) 0 0 1 = day t + day_ns"
  by (simp add: add_date_days)

lemma through_eq: "through w now = max (wn_start w) (min (wn_end w) (day now + day_ns))"
  by (auto simp: through_def Let_def add_day max_def min_def)

lemma through_bounds: "wn_start w \<le> wn_end w \<Longrightarrow> wn_start w \<le> through w now \<and> through w now \<le> wn_end w"
  by (auto simp: through_eq)

section \<open>The statement text\<close>

lemma bar_tail: "(x @ concat (map (\<lambda>n. CHR ''|'' # format_int n) ms) = y @ concat (map (\<lambda>n. CHR ''|'' # format_int n) ns))
    \<Longrightarrow> CHR ''|'' \<notin> set x \<Longrightarrow> CHR ''|'' \<notin> set y \<Longrightarrow> x = y \<and> ms = ns"
proof (induction ms arbitrary: ns x y)
  case Nil
  show ?case
  proof (cases ns)
    case (Cons n ns')
    with Nil have "x = y @ CHR ''|'' # format_int n @ concat (map (\<lambda>n. CHR ''|'' # format_int n) ns')" by simp
    then have "CHR ''|'' \<in> set x" by simp
    with Nil show ?thesis by blast
  qed (use Nil in simp)
next
  case (Cons m ms)
  show ?case
  proof (cases ns)
    case Nil
    with Cons.prems have "y = x @ CHR ''|'' # format_int m @ concat (map (\<lambda>n. CHR ''|'' # format_int n) ms)" by simp
    then have "CHR ''|'' \<in> set y" by simp
    with Cons.prems show ?thesis by blast
  next
    case (Cons n ns')
    with Cons.prems(1) have "x @ CHR ''|'' # (format_int m @ concat (map (\<lambda>n. CHR ''|'' # format_int n) ms))
        = y @ CHR ''|'' # (format_int n @ concat (map (\<lambda>n. CHR ''|'' # format_int n) ns'))" by simp
    then have "x = y" "format_int m @ concat (map (\<lambda>n. CHR ''|'' # format_int n) ms)
        = format_int n @ concat (map (\<lambda>n. CHR ''|'' # format_int n) ns')"
      using split_at_sep [OF _ Cons.prems(2,3)] by blast+
    then show ?thesis using Cons.IH [OF _ format_int_no_bar format_int_no_bar] Cons format_int_inj by blast
  qed
qed

section \<open>Properties\<close>

text \<open>
  C7. The split bills by event: with rising tier bounds, tier \<open>k\<close>'s count is the number of the
  period's events, counted from 0, that lie past the allowance and in that tier, where the
  last tier is unbounded.
\<close>

theorem split_counts_events:
  assumes "rising 0 tiers" "k \<le> length tiers"
  shows "split_tiers n allowance tiers ! k
    = int (card {e. 0 \<le> e \<and> e < n \<and> allowance \<le> e \<and> tier_of tiers e = k})"
  unfolding split_tiers_def using assms by (rule split_from_counts)

theorem split_counts_events_witness:
  "split_tiers 9 2 [4, 7] ! 1 = int (card {e. 0 \<le> e \<and> e < 9 \<and> 2 \<le> e \<and> tier_of [4, 7] e = 1})"
  by (rule split_counts_events) simp_all

text \<open>
  The split loses and invents nothing: with rising bounds the tiers sum to the events past
  the allowance (a negative allowance counts as none), no tier is negative or above the
  count, and a larger count lowers no tier.
\<close>

theorem split_sums_to_billable:
  assumes "rising 0 tiers" "n \<le> m"
  shows "sum_list (split_tiers n allowance tiers) = max 0 (n - max 0 allowance)
    \<and> (\<forall>x\<in>set (split_tiers n allowance tiers). 0 \<le> x \<and> x \<le> max 0 n)
    \<and> le_each (split_tiers n allowance tiers) (split_tiers m allowance tiers)"
proof (intro conjI ballI)
  show total_eq: "sum_list (split_tiers n allowance tiers) = max 0 (n - max 0 allowance)"
    unfolding split_tiers_def using assms(1) by (rule split_from_sum)
  fix x assume x: "x \<in> set (split_tiers n allowance tiers)"
  show "0 \<le> x" using x by (rule split_nonneg)
  have "x \<le> sum_list (split_tiers n allowance tiers)"
    using x split_nonneg by (intro member_le_sum_list) auto
  then show "x \<le> max 0 n" unfolding total_eq by (simp add: max_def split: if_splits)
next
  show "le_each (split_tiers n allowance tiers) (split_tiers m allowance tiers)"
    using assms(2) by (rule split_mono)
qed

theorem split_sums_to_billable_witness:
  "sum_list (split_tiers 9 2 [4, 7]) = max 0 (9 - max 0 2)
    \<and> le_each (split_tiers 9 2 [4, 7]) (split_tiers 12 2 [4, 7])"
proof -
  have "rising 0 [4, 7]" "(9::int) \<le> 12" by simp_all
  from split_sums_to_billable [OF this, of 2] show ?thesis by blast
qed

text \<open>
  A statement's identifier hashes a text that determines the org, the second its period
  starts at and every tier's count, for organization ids free of the separator.
\<close>

theorem statement_text_determines:
  assumes "statement_text org s tiers = statement_text org' s' tiers'"
    and "CHR ''|'' \<notin> set org" "CHR ''|'' \<notin> set org'"
  shows "org = org' \<and> unix s = unix s' \<and> tiers = tiers'"
proof -
  from split_at_sep [OF assms(1) [unfolded statement_text_def] assms(2,3)]
  have "org = org'" "format_int (unix s) @ concat (map (\<lambda>n. CHR ''|'' # format_int n) tiers)
      = format_int (unix s') @ concat (map (\<lambda>n. CHR ''|'' # format_int n) tiers')" by blast+
  then show ?thesis using bar_tail format_int_no_bar format_int_inj by blast
qed

theorem statement_text_determines_witness:
  "''o'' = ''o'' \<and> unix 5 = unix 7 \<and> [3, 0] = [3, 0 :: int]"
  by (rule statement_text_determines) (simp_all add: statement_text_def unix_def go_time)

end
