(* ===== verification/Meter_Ledger.thy ===== *)
theory Meter_Ledger
  imports Meter_Split Usage_Store Entitlement_Store
begin

text \<open>
  The meter's ledger, \<open>ledger.go\<close> of \<open>internal/core/billing/meter\<close> over the table
  \<open>billing_meter_periods\<close> (migration 025) and the statements of \<open>billing_meter.sql\<close>. A SQL
  \<open>date\<close> is a day number. A stored timestamp is kept as it was sent: every one the pass
  writes is already whole microseconds, read from a column or truncated by the code. A
  deleted organization's rows cascade away; here they stay, and nothing the theorems say of
  them depends on it.
\<close>

section \<open>Rows and periods\<close>

record meter_row =
  mr_org :: string
  mr_start :: time
  mr_wstart :: int
  mr_wend :: int
  mr_through :: int
  mr_plan :: string
  mr_allowance :: int
  mr_own :: "int list"
  mr_carry :: "int list"
  mr_customer :: string
  mr_sub :: string
  mr_stated_at :: time
  mr_acked :: bool

record period =
  mp_start :: time
  mp_window :: window
  mp_through :: time
  mp_plan :: string
  mp_allowance :: int
  mp_own :: "int list"
  mp_carry :: "int list"
  mp_customer :: string
  mp_sub :: string
  mp_stated_at :: time
  mp_acked :: bool

definition stated :: "period \<Rightarrow> int list option" where
  "stated p = sum_each (mp_own p) (mp_carry p)"

definition days_for :: "period \<Rightarrow> string \<Rightarrow> window" where
  "days_for p sub =
     (if mp_sub p = sub then mp_window p
      else \<lparr>wn_start = wn_start (mp_window p), wn_end = mp_through p\<rparr>)"

text \<open>A date column comes back as the midnight that starts it.\<close>

definition date_time :: "int \<Rightarrow> time" where
  "date_time d = d * day_ns"

definition period_from_row :: "meter_row \<Rightarrow> period" where
  "period_from_row r =
     \<lparr>mp_start = mr_start r, mp_window = \<lparr>wn_start = date_time (mr_wstart r), wn_end = date_time (mr_wend r)\<rparr>,
      mp_through = date_time (mr_through r), mp_plan = mr_plan r, mp_allowance = mr_allowance r,
      mp_own = mr_own r, mp_carry = mr_carry r, mp_customer = mr_customer r, mp_sub = mr_sub r,
      mp_stated_at = mr_stated_at r, mp_acked = mr_acked r\<rparr>"

text \<open>The parameters of \<open>WriteAheadBillingMeterPeriod\<close>; it inserts un-acked.\<close>

definition row_of_period :: "string \<Rightarrow> period \<Rightarrow> meter_row" where
  "row_of_period org p =
     \<lparr>mr_org = org, mr_start = mp_start p, mr_wstart = new_date (wn_start (mp_window p)),
      mr_wend = new_date (wn_end (mp_window p)), mr_through = new_date (mp_through p), mr_plan = mp_plan p,
      mr_allowance = mp_allowance p, mr_own = mp_own p, mr_carry = mp_carry p, mr_customer = mp_customer p,
      mr_sub = mp_sub p, mr_stated_at = mp_stated_at p, mr_acked = False\<rparr>"

section \<open>Statements\<close>

definition meter_row_ok :: "meter_row \<Rightarrow> bool" where
  "meter_row_ok r =
     (0 \<le> mr_allowance r \<and> mr_own r \<noteq> [] \<and> mr_carry r \<noteq> [] \<and> (\<forall>n\<in>set (mr_own r). 0 \<le> n)
      \<and> (\<forall>n\<in>set (mr_carry r). 0 \<le> n) \<and> length (mr_own r) = length (mr_carry r)
      \<and> mr_plan r \<noteq> [] \<and> rune_count (mr_plan r) \<le> 50 \<and> mr_customer r \<noteq> [] \<and> mr_sub r \<noteq> []
      \<and> mr_wstart r \<le> mr_through r \<and> mr_through r \<le> mr_wend r)"

definition meter_key :: "meter_row \<Rightarrow> string \<times> time" where
  "meter_key r = (mr_org r, mr_start r)"

fun put_meter :: "meter_row \<Rightarrow> meter_row list \<Rightarrow> meter_row list" where
  "put_meter r [] = [r]"
| "put_meter r (x # xs) = (if meter_key x = meter_key r then r # xs else x # put_meter r xs)"

interpretation ledger: keyed_table meter_key put_meter
  by unfold_locales simp_all

definition find_period :: "meter_row list \<Rightarrow> string \<Rightarrow> time \<Rightarrow> meter_row option" where
  "find_period rows org start = List.find (\<lambda>r. meter_key r = (org, start)) rows"

definition merged_period :: "meter_row \<Rightarrow> meter_row \<Rightarrow> meter_row" where
  "merged_period old new = new\<lparr>mr_wstart := mr_wstart old,
     mr_through := min (max (mr_through old) (mr_through new)) (mr_wend new)\<rparr>"

definition write_ahead_stmt :: "(string \<Rightarrow> time option) \<Rightarrow> meter_row \<Rightarrow> meter_row list \<Rightarrow> (db_error, meter_row list) result" where
  "write_ahead_stmt orgs new rows =
     (if \<not> meter_row_ok new then Inl CheckViolation
      else case find_period rows (mr_org new) (mr_start new) of
        None \<Rightarrow> if orgs (mr_org new) = None then Inl FkViolation else Inr (put_meter new rows)
      | Some old \<Rightarrow>
          if meter_row_ok (merged_period old new) then Inr (put_meter (merged_period old new) rows)
          else Inl CheckViolation)"

definition advanced_period :: "int \<Rightarrow> int \<Rightarrow> meter_row \<Rightarrow> meter_row" where
  "advanced_period end' last_day r =
     (if mr_wend r < end' \<or> mr_through r < min last_day (max (mr_wend r) end')
      then r\<lparr>mr_wend := max (mr_wend r) end', mr_through := min last_day (max (mr_wend r) end')\<rparr> else r)"

definition advance_stmt :: "string \<Rightarrow> time \<Rightarrow> int \<Rightarrow> int \<Rightarrow> meter_row list \<Rightarrow> (db_error, meter_row list) result" where
  "advance_stmt org start end' last_day rows =
     (case find_period rows org start of
        None \<Rightarrow> Inr rows
      | Some old \<Rightarrow> if meter_row_ok (advanced_period end' last_day old)
                  then Inr (put_meter (advanced_period end' last_day old) rows) else Inl CheckViolation)"

text \<open>The rows after \<open>AckBillingMeterPeriod\<close> and how many it matched.\<close>

definition ack_stmt :: "string \<Rightarrow> time \<Rightarrow> time \<Rightarrow> meter_row list \<Rightarrow> meter_row list \<times> nat" where
  "ack_stmt org start stated_at rows =
     (case find_period rows org start of
        None \<Rightarrow> (rows, 0)
      | Some r \<Rightarrow> if mr_stated_at r = stated_at then (put_meter (r\<lparr>mr_acked := True\<rparr>) rows, 1) else (rows, 0))"

text \<open>\<open>GetPreviousBillingMeterPeriod\<close>: the order by, and its first row.\<close>

definition previous_end :: "string \<Rightarrow> meter_row \<Rightarrow> int" where
  "previous_end sub r = (if mr_sub r = sub then mr_wend r else mr_through r)"

definition follows :: "string \<Rightarrow> meter_row \<Rightarrow> meter_row \<Rightarrow> bool" where
  "follows sub x a = (previous_end sub a < previous_end sub x
     \<or> previous_end sub a = previous_end sub x \<and> mr_start a < mr_start x)"

definition previous_row :: "meter_row list \<Rightarrow> string \<Rightarrow> time \<Rightarrow> string \<Rightarrow> meter_row option" where
  "previous_row rows org start sub =
     (case filter (\<lambda>r. mr_org r = org \<and> mr_start r \<noteq> start) rows of
        [] \<Rightarrow> None
      | r # rs \<Rightarrow> Some (foldl (\<lambda>a x. if follows sub x a then x else a) r rs))"

section \<open>The operations of the pass on the ledger\<close>

text \<open>
  A call works, is refused, or takes effect although the caller is told it failed (a lost
  reply).
\<close>

datatype fault = Works | Refused | Lost

text \<open>What the provider was told: every statement handed to it, and whether the call returned nil.\<close>

record usage_statement =
  us_customer :: string
  us_event_id :: string
  us_at :: time
  us_tiers :: "int list"

record sent_statement =
  sn_org :: string
  sn_start :: time
  sn_statement :: usage_statement
  sn_ok :: bool

record meter_state =
  ms_rows :: "meter_row list"
  ms_sent :: "sent_statement list"

datatype meter_error =
    MeterDb | ErrUsageStale | NoPeriod | NoTiers | PlanChanged | AckLost | IngestFailed
  | MeterEntitlement ent_error | MeterPanic | CutShort nat nat | OrgsFailed nat nat

text \<open>A statement that changes rows, under its fault.\<close>

definition run_write :: "fault \<Rightarrow> (db_error, meter_row list) result \<Rightarrow> meter_row list \<Rightarrow> meter_row list \<times> meter_error option" where
  "run_write f res rows =
     (case res of
        Inl e \<Rightarrow> (rows, Some MeterDb)
      | Inr rows' \<Rightarrow> (case f of Works \<Rightarrow> (rows', None) | Refused \<Rightarrow> (rows, Some MeterDb) | Lost \<Rightarrow> (rows', Some MeterDb)))"

definition read_period :: "fault \<Rightarrow> meter_row list \<Rightarrow> string \<Rightarrow> time \<Rightarrow> (meter_error, period option) result" where
  "read_period f rows org start =
     (if f \<noteq> Works then Inl MeterDb else Inr (map_option period_from_row (find_period rows org start)))"

definition read_previous_period :: "fault \<Rightarrow> meter_row list \<Rightarrow> string \<Rightarrow> time \<Rightarrow> string \<Rightarrow> (meter_error, period option) result" where
  "read_previous_period f rows org start sub =
     (if f \<noteq> Works then Inl MeterDb else Inr (map_option period_from_row (previous_row rows org start sub)))"

definition write_ahead :: "fault \<Rightarrow> (string \<Rightarrow> time option) \<Rightarrow> string \<Rightarrow> period \<Rightarrow> meter_row list \<Rightarrow> meter_row list \<times> meter_error option" where
  "write_ahead f orgs org p rows = run_write f (write_ahead_stmt orgs (row_of_period org p) rows) rows"

definition advance :: "fault \<Rightarrow> string \<Rightarrow> time \<Rightarrow> time \<Rightarrow> time \<Rightarrow> meter_row list \<Rightarrow> meter_row list \<times> meter_error option" where
  "advance f org start end' last_day rows = run_write f (advance_stmt org start (new_date end') (new_date last_day) rows) rows"

definition ack :: "fault \<Rightarrow> string \<Rightarrow> period \<Rightarrow> meter_row list \<Rightarrow> meter_row list \<times> meter_error option" where
  "ack f org p rows =
     (case ack_stmt org (mp_start p) (mp_stated_at p) rows of
        (rows', n) \<Rightarrow>
          (case f of
             Refused \<Rightarrow> (rows, Some MeterDb)
           | Lost \<Rightarrow> (rows', Some MeterDb)
           | Works \<Rightarrow> (rows', if n = 0 then Some AckLost else None)))"

text \<open>What the dashboard shows of a period; \<open>None\<close> inside is a period nothing was stated for.\<close>

record shown =
  sh_plan :: string
  sh_allowance :: int
  sh_tiers :: "int list"
  sh_as_of :: time

definition reader_stated :: "fault \<Rightarrow> meter_row list \<Rightarrow> string \<Rightarrow> time \<Rightarrow> (meter_error, shown option) result" where
  "reader_stated f rows org start =
     (case read_period f rows org start of
        Inl e \<Rightarrow> Inl e
      | Inr None \<Rightarrow> Inr None
      | Inr (Some p) \<Rightarrow>
          (case stated p of
             None \<Rightarrow> Inl MeterPanic
           | Some ts \<Rightarrow> Inr (Some \<lparr>sh_plan = mp_plan p, sh_allowance = mp_allowance p, sh_tiers = ts,
               sh_as_of = mp_stated_at p\<rparr>)))"

section \<open>Laws of the statements\<close>

lemma find_period_lookup: "find_period rows org start = ledger.lookup rows (org, start)"
  by (simp add: find_period_def ledger.lookup_def)

lemma find_put: "find_period (put_meter r rows) org start =
    (if (org, start) = meter_key r then Some r else find_period rows org start)"
  by (simp add: find_period_lookup ledger.lookup_put)

lemma find_period_key: "find_period rows org start = Some r \<Longrightarrow> mr_org r = org \<and> mr_start r = start \<and> r \<in> set rows"
  using ledger.lookup_key [of rows "(org, start)" r] by (auto simp: find_period_lookup meter_key_def)

lemma find_period_some: "distinct (map meter_key rows) \<Longrightarrow> r \<in> set rows \<Longrightarrow> find_period rows (mr_org r) (mr_start r) = Some r"
  by (induction rows) (auto simp: find_period_def meter_key_def image_iff)

lemma merged_fields [simp]:
  "meter_key (merged_period old new) = meter_key new" "mr_own (merged_period old new) = mr_own new"
  "mr_carry (merged_period old new) = mr_carry new" "mr_acked (merged_period old new) = mr_acked new"
  "mr_stated_at (merged_period old new) = mr_stated_at new" "mr_wstart (merged_period old new) = mr_wstart old"
  by (simp_all add: merged_period_def meter_key_def)

lemma advanced_fields [simp]:
  "meter_key (advanced_period e t r) = meter_key r" "mr_own (advanced_period e t r) = mr_own r"
  "mr_carry (advanced_period e t r) = mr_carry r" "mr_acked (advanced_period e t r) = mr_acked r"
  "mr_stated_at (advanced_period e t r) = mr_stated_at r" "mr_wstart (advanced_period e t r) = mr_wstart r"
  by (simp_all add: advanced_period_def meter_key_def)

lemma row_of_period_key [simp]: "meter_key (row_of_period org p) = (org, mp_start p)"
  by (simp add: row_of_period_def meter_key_def)

text \<open>The row a write-ahead leaves, when it took effect.\<close>

lemma write_ahead_stmt_ok:
  assumes "write_ahead_stmt orgs new rows = Inr rows'"
  obtains r where "rows' = put_meter r rows" "meter_row_ok r" "meter_key r = meter_key new" "mr_own r = mr_own new"
    "mr_carry r = mr_carry new" "mr_acked r = mr_acked new" "mr_stated_at r = mr_stated_at new"
    "mr_wstart r = (case find_period rows (mr_org new) (mr_start new) of None \<Rightarrow> mr_wstart new | Some old \<Rightarrow> mr_wstart old)"
proof (cases "find_period rows (mr_org new) (mr_start new)")
  case None
  with assms show ?thesis by (intro that [of new]) (auto simp: write_ahead_stmt_def split: if_splits)
next
  case (Some old)
  with assms show ?thesis
    by (intro that [of "merged_period old new"]) (auto simp: write_ahead_stmt_def split: if_splits)
qed

lemma advance_stmt_ok:
  assumes "advance_stmt org start e t rows = Inr rows'"
  obtains "rows' = rows" | r where "find_period rows org start = Some r" "rows' = put_meter (advanced_period e t r) rows"
    "meter_row_ok (advanced_period e t r)"
  using assms by (auto simp: advance_stmt_def split: option.splits if_splits)

lemma run_write_cases:
  "run_write f res rows = (rows', err) \<Longrightarrow> rows' = rows \<and> err \<noteq> None \<or> res = Inr rows'"
  by (auto simp: run_write_def split: sum.splits fault.splits)

text \<open>The previous row ends no earlier than any other period of the org.\<close>

lemma later_fold:
  "foldl (\<lambda>a x. if follows sub x a then x else a) r rs \<in> set (r # rs)
    \<and> (\<forall>q\<in>set (r # rs). previous_end sub q \<le> previous_end sub (foldl (\<lambda>a x. if follows sub x a then x else a) r rs))"
proof (induction rs arbitrary: r)
  case (Cons x xs)
  let ?b = "if follows sub x r then x else r"
  have "previous_end sub r \<le> previous_end sub ?b" "previous_end sub x \<le> previous_end sub ?b" by (auto simp: follows_def)
  with Cons [of ?b] show ?case by (auto split: if_splits intro: order_trans)
qed simp

lemma previous_row_latest:
  assumes "previous_row rows org start sub = Some p"
  shows "p \<in> set rows" "mr_org p = org" "mr_start p \<noteq> start"
    "q \<in> set rows \<Longrightarrow> mr_org q = org \<Longrightarrow> mr_start q \<noteq> start \<Longrightarrow> previous_end sub q \<le> previous_end sub p"
proof -
  let ?c = "filter (\<lambda>r. mr_org r = org \<and> mr_start r \<noteq> start) rows"
  from assms obtain r rs where rs: "?c = r # rs" "p = foldl (\<lambda>a x. if follows sub x a then x else a) r rs"
    by (auto simp: previous_row_def split: list.splits)
  have "p \<in> set ?c" and max_p: "\<forall>q\<in>set ?c. previous_end sub q \<le> previous_end sub p"
    using later_fold [of sub r rs] unfolding rs(1) rs(2) by blast+
  then show "p \<in> set rows" "mr_org p = org" "mr_start p \<noteq> start" by auto
  show "previous_end sub q \<le> previous_end sub p" if "q \<in> set rows" "mr_org q = org" "mr_start q \<noteq> start"
    using that max_p by simp
qed

lemma previous_row_none:
  "previous_row rows org start sub = None \<Longrightarrow> q \<in> set rows \<Longrightarrow> mr_org q = org \<Longrightarrow> mr_start q = start"
proof (rule ccontr)
  assume none: "previous_row rows org start sub = None" and q: "q \<in> set rows" "mr_org q = org" "mr_start q \<noteq> start"
  then have "q \<in> set (filter (\<lambda>r. mr_org r = org \<and> mr_start r \<noteq> start) rows)" by simp
  with none show False by (auto simp: previous_row_def filter_empty_conv split: list.splits)
qed

lemma days_for_end: "wn_end (days_for (period_from_row r) sub) = date_time (previous_end sub r)"
  by (simp add: days_for_def period_from_row_def previous_end_def)

end
