(* ===== verification/Meter_Pass.thy ===== *)
theory Meter_Pass
  imports Meter_Ledger
begin

text \<open>
  The meter pass, \<open>internal/core/billing/meter/meter.go\<close>: it states every live
  subscription's usage once, writing each statement to the ledger before the provider is
  told of it. Each org's turn reads the billing and usage tables as they stand at that turn
  (\<open>turn\<close>), and every call of it may fail. The pass holds the job's advisory lock, so it is
  the only writer of the ledger.
\<close>

section \<open>The code\<close>

definition usage_stale_after :: duration where
  "usage_stale_after = 3 * hour"

definition frozen_too_long :: duration where
  "frozen_too_long = 24 * hour"

record meter_report =
  rp_orgs :: nat
  rp_stated :: nat
  rp_unchanged :: nat
  rp_frozen :: nat
  rp_superseded :: nat
  rp_resent :: nat
  rp_failed :: nat

definition empty_meter_report :: meter_report where
  "empty_meter_report = \<lparr>rp_orgs = 0, rp_stated = 0, rp_unchanged = 0, rp_frozen = 0, rp_superseded = 0,
     rp_resent = 0, rp_failed = 0\<rparr>"

datatype outcome = OutcomeUnchanged | OutcomeStated | OutcomeFrozen | OutcomeSuperseded

datatype meter_call =
    McReadPeriod | McResend | McResendAck | McEnt ent_call | McReadPrevious | McSum | McCarrySum
  | McAdvance | McWriteAhead | McIngest | McAck

text \<open>What the service is built over, and the tables and faults of one org's turn.\<close>

record meter_env =
  me_catalog :: "plan list"
  me_config :: billing_config
  me_sha256 :: "string \<Rightarrow> nat list"
  me_provider :: string

record turn =
  tn_flt :: "meter_call \<Rightarrow> fault"
  tn_billing :: billing_db
  tn_usage :: usage_db

definition sum_usage :: "fault \<Rightarrow> usage_db \<Rightarrow> string \<Rightarrow> time \<Rightarrow> time \<Rightarrow> (meter_error, int) result" where
  "sum_usage f db org from to =
     (if \<not> from < to then Inr 0
      else if f \<noteq> Works then Inl MeterDb
      else Inr (sum_org_days (ub_cells db) org (new_date from) (new_date to)))"

text \<open>The statement is logged as sent whether or not the call succeeds: it may have landed.\<close>

definition ingest :: "meter_env \<Rightarrow> fault \<Rightarrow> string \<Rightarrow> period \<Rightarrow> time \<Rightarrow> meter_state \<Rightarrow> meter_state \<times> meter_error option" where
  "ingest env f org p now st =
     (case stated p of
        None \<Rightarrow> (st, Some MeterPanic)
      | Some ts \<Rightarrow>
          (st\<lparr>ms_sent := ms_sent st @
             [\<lparr>sn_org = org, sn_start = mp_start p,
               sn_statement = \<lparr>us_customer = mp_customer p, us_event_id = event_id (me_sha256 env) org (mp_start p) ts,
                 us_at = now, us_tiers = ts\<rparr>,
               sn_ok = (f = Works)\<rparr>]\<rparr>,
           if f = Works then None else Some IngestFailed))"

definition with_rows :: "meter_state \<Rightarrow> meter_row list \<times> meter_error option \<Rightarrow> meter_state \<times> meter_error option" where
  "with_rows st r = (st\<lparr>ms_rows := fst r\<rparr>, snd r)"

text \<open>State first, acknowledge once the provider holds it.\<close>

definition ingest_ack :: "meter_env \<Rightarrow> fault \<Rightarrow> fault \<Rightarrow> string \<Rightarrow> period \<Rightarrow> time \<Rightarrow> meter_state \<Rightarrow> meter_state \<times> meter_error option" where
  "ingest_ack env fi fa org p now st =
     (case ingest env fi org p now st of
        (st1, Some e) \<Rightarrow> (st1, Some e)
      | (st1, None) \<Rightarrow> with_rows st1 (ack fa org p (ms_rows st1)))"

text \<open>A row left un-acked is sent again; the answer says whether it was.\<close>

definition resend :: "meter_env \<Rightarrow> turn \<Rightarrow> string \<Rightarrow> period option \<Rightarrow> time \<Rightarrow> meter_state
    \<Rightarrow> meter_state \<times> (meter_error, bool) result" where
  "resend env tn org row now st =
     (case row of
        None \<Rightarrow> (st, Inr False)
      | Some p \<Rightarrow>
          if mp_acked p then (st, Inr False)
          else case ingest_ack env (tn_flt tn McResend) (tn_flt tn McResendAck) org p now st of
                 (st', Some e) \<Rightarrow> (st', Inl e)
               | (st', None) \<Rightarrow> (st', Inr True))"

definition tier_bounds :: "entitlement \<Rightarrow> int list" where
  "tier_bounds ent = (case en_tiers ent of None \<Rightarrow> [] | Some ts \<Rightarrow> ts)"

text \<open>The org's terms now, or why the turn ends: an error, or an outcome of its own.\<close>

definition terms :: "meter_env \<Rightarrow> turn \<Rightarrow> sub_row \<Rightarrow> time \<Rightarrow> period option \<Rightarrow> time
    \<Rightarrow> (meter_error, outcome + entitlement \<times> int) result" where
  "terms env tn sub period_start row now =
     (case get_entitlement (\<lambda>c. tn_flt tn (McEnt c) \<noteq> Works) (me_catalog env) (me_config env) (tn_billing tn) (sr_org sub) now of
        Inl e \<Rightarrow> if e = ErrOrgNotFound then Inr (Inl OutcomeSuperseded) else Inl (MeterEntitlement e)
      | Inr ent \<Rightarrow>
          if \<not> live (en_sub_status ent) \<or> en_sub ent \<noteq> sr_sub sub \<or> en_sub_start ent \<noteq> period_start
          then Inr (Inl OutcomeSuperseded)
          else (case en_events ent of
                  None \<Rightarrow> Inl NoTiers
                | Some allowance \<Rightarrow>
                    if en_tier_plan ent = [] then Inl NoTiers
                    else if (case row of None \<Rightarrow> False
                             | Some p \<Rightarrow> mp_plan p \<noteq> en_tier_plan ent \<or> length (mp_own p) \<noteq> length (tier_bounds ent) + 1)
                    then Inl PlanChanged
                    else Inr (Inr (ent, allowance))))"

definition carry_from :: "turn \<Rightarrow> string \<Rightarrow> period \<Rightarrow> window \<Rightarrow> entitlement \<Rightarrow> (meter_error, int list) result" where
  "carry_from tn org prev days ent =
     (let tiers = length (tier_bounds ent) + 1
      in if mp_plan prev \<noteq> en_tier_plan ent \<or> length (mp_own prev) \<noteq> tiers then Inr (replicate tiers 0)
         else case sum_usage (tn_flt tn McCarrySum) (tn_usage tn) org (wn_start days) (wn_end days) of
                Inl e \<Rightarrow> Inl e
              | Inr n \<Rightarrow> (case carry (split_tiers n (mp_allowance prev) (tier_bounds ent)) (mp_own prev) of
                           None \<Rightarrow> Inl MeterPanic
                         | Some c \<Rightarrow> Inr c))"

text \<open>The window, where its days end, and the counts they and the previous window give.\<close>

definition count_period :: "turn \<Rightarrow> sub_row \<Rightarrow> time \<Rightarrow> time \<Rightarrow> period option \<Rightarrow> entitlement \<Rightarrow> int \<Rightarrow> time
    \<Rightarrow> meter_row list \<Rightarrow> (meter_error, window \<times> time \<times> int list \<times> int list) result" where
  "count_period tn sub period_start period_end row ent allowance now rows =
     (case read_previous_period (tn_flt tn McReadPrevious) rows (sr_org sub) period_start (sr_sub sub) of
        Inl e \<Rightarrow> Inl e
      | Inr prev \<Rightarrow>
          let stated_win = map_option mp_window row;
              prev_days = map_option (\<lambda>p. days_for p (sr_sub sub)) prev;
              win = window_for period_start period_end stated_win prev_days;
              thru = through win now
          in case sum_usage (tn_flt tn McSum) (tn_usage tn) (sr_org sub) (wn_start win) thru of
               Inl e \<Rightarrow> Inl e
             | Inr n \<Rightarrow>
                 let own = split_tiers n allowance (tier_bounds ent);
                     none_carried = replicate (length (tier_bounds ent) + 1) 0
                 in case (case prev of
                            None \<Rightarrow> Inr none_carried
                          | Some p \<Rightarrow>
                              if contiguous_with (days_for p (sr_sub sub)) win
                              then carry_from tn (sr_org sub) p (days_for p (sr_sub sub)) ent
                              else Inr none_carried) of
                      Inl e \<Rightarrow> Inl e
                    | Inr carried \<Rightarrow> Inr (win, thru, own, carried))"

text \<open>Never below what the row already states; \<open>None\<close> is the index panic.\<close>

definition raise_counts :: "period option \<Rightarrow> int list \<Rightarrow> int list \<Rightarrow> (int list \<times> int list) option" where
  "raise_counts row own carried =
     (case row of
        None \<Rightarrow> Some (own, carried)
      | Some p \<Rightarrow> (case max_each (mp_own p) own of
                    None \<Rightarrow> None
                  | Some own1 \<Rightarrow> map_option (Pair own1) (max_each (mp_carry p) carried)))"

definition next_period :: "sub_row \<Rightarrow> time \<Rightarrow> window \<Rightarrow> time \<Rightarrow> entitlement \<Rightarrow> int \<Rightarrow> int list \<Rightarrow> int list \<Rightarrow> time \<Rightarrow> period" where
  "next_period sub period_start win thru ent allowance own carried now =
     \<lparr>mp_start = period_start, mp_window = win, mp_through = thru, mp_plan = en_tier_plan ent, mp_allowance = allowance,
      mp_own = own, mp_carry = carried, mp_customer = sr_customer sub, mp_sub = sr_sub sub,
      mp_stated_at = truncate_us now, mp_acked = False\<rparr>"

definition outcome_of :: "outcome \<Rightarrow> meter_state \<times> meter_error option \<Rightarrow> meter_state \<times> (meter_error, outcome) result" where
  "outcome_of good r = (fst r, case snd r of None \<Rightarrow> Inr good | Some e \<Rightarrow> Inl e)"

definition state_period :: "meter_env \<Rightarrow> turn \<Rightarrow> sub_row \<Rightarrow> time \<Rightarrow> time \<Rightarrow> period option \<Rightarrow> entitlement \<Rightarrow> int \<Rightarrow> time
    \<Rightarrow> meter_state \<Rightarrow> meter_state \<times> (meter_error, outcome) result" where
  "state_period env tn sub period_start period_end row ent allowance now st =
     (case count_period tn sub period_start period_end row ent allowance now (ms_rows st) of
        Inl e \<Rightarrow> (st, Inl e)
      | Inr (win, thru, own, carried) \<Rightarrow>
          (case raise_counts row own carried of
             None \<Rightarrow> (st, Inl MeterPanic)
           | Some (own1, carried1) \<Rightarrow>
               if (case row of None \<Rightarrow> False | Some p \<Rightarrow> own1 = mp_own p \<and> carried1 = mp_carry p)
               then outcome_of OutcomeUnchanged
                      (with_rows st (advance (tn_flt tn McAdvance) (sr_org sub) period_start (wn_end win) thru (ms_rows st)))
               else let p = next_period sub period_start win thru ent allowance own1 carried1 now
                    in case with_rows st (write_ahead (tn_flt tn McWriteAhead) (bd_orgs (tn_billing tn)) (sr_org sub) p (ms_rows st)) of
                         (st1, Some e) \<Rightarrow> (st1, Inl e)
                       | (st1, None) \<Rightarrow>
                           outcome_of OutcomeStated
                             (ingest_ack env (tn_flt tn McIngest) (tn_flt tn McAck) (sr_org sub) p now st1)))"

text \<open>\<open>meterOrg\<close>: its outcome or error, and whether the last statement was re-sent.\<close>

definition meter_org :: "meter_env \<Rightarrow> turn \<Rightarrow> sub_row \<Rightarrow> time \<Rightarrow> meter_state
    \<Rightarrow> meter_state \<times> (meter_error, outcome) result \<times> bool" where
  "meter_org env tn sub now st =
     (case (sr_start sub, sr_end sub) of
        (Some period_start, Some period_end) \<Rightarrow>
          if \<not> now < period_end then (st, Inr OutcomeFrozen, False)
          else (case read_period (tn_flt tn McReadPeriod) (ms_rows st) (sr_org sub) period_start of
                  Inl e \<Rightarrow> (st, Inl e, False)
                | Inr row \<Rightarrow>
                    (case resend env tn (sr_org sub) row now st of
                       (st1, Inl e) \<Rightarrow> (st1, Inl e, False)
                     | (st1, Inr resent) \<Rightarrow>
                         (case terms env tn sub period_start row now of
                            Inl e \<Rightarrow> (st1, Inl e, resent)
                          | Inr (Inl out) \<Rightarrow> (st1, Inr out, resent)
                          | Inr (Inr (ent, allowance)) \<Rightarrow>
                              (case state_period env tn sub period_start period_end row ent allowance now st1 of
                                 (st2, res) \<Rightarrow> (st2, res, resent)))))
      | _ \<Rightarrow> (st, Inl NoPeriod, False))"

definition count_turn :: "(meter_error, outcome) result \<Rightarrow> bool \<Rightarrow> meter_report \<Rightarrow> meter_report" where
  "count_turn res resent rp0 =
     (let rp = (if resent then rp0\<lparr>rp_resent := rp_resent rp0 + 1\<rparr> else rp0)
      in case res of
           Inl e \<Rightarrow> rp\<lparr>rp_failed := rp_failed rp + 1\<rparr>
         | Inr OutcomeStated \<Rightarrow> rp\<lparr>rp_stated := rp_stated rp + 1\<rparr>
         | Inr OutcomeFrozen \<Rightarrow> rp\<lparr>rp_frozen := rp_frozen rp + 1\<rparr>
         | Inr OutcomeSuperseded \<Rightarrow> rp\<lparr>rp_superseded := rp_superseded rp + 1\<rparr>
         | Inr OutcomeUnchanged \<Rightarrow> rp\<lparr>rp_unchanged := rp_unchanged rp + 1\<rparr>)"

text \<open>The loop over the listed subscriptions; \<open>cancelled k\<close> is \<open>ctx.Err()\<close> before turn \<open>k\<close>.\<close>

fun meter_turns :: "meter_env \<Rightarrow> (nat \<Rightarrow> bool) \<Rightarrow> (nat \<Rightarrow> turn) \<Rightarrow> time \<Rightarrow> nat \<Rightarrow> sub_row list \<Rightarrow> meter_state \<Rightarrow> meter_report
    \<Rightarrow> meter_state \<times> meter_report \<times> meter_error option" where
  "meter_turns env cancelled turns now n_all [] st rp =
     (st, rp, if rp_failed rp > 0 then Some (OrgsFailed (rp_failed rp) (rp_orgs rp)) else None)"
| "meter_turns env cancelled turns now n_all (sub # subs) st rp =
     (if cancelled (rp_orgs rp) then (st, rp, Some (CutShort (rp_orgs rp) n_all))
      else case meter_org env (turns (rp_orgs rp)) sub now st of
             (st1, res, resent) \<Rightarrow>
               meter_turns env cancelled turns now n_all subs st1
                 (count_turn res resent (rp\<lparr>rp_orgs := rp_orgs rp + 1\<rparr>)))"

text \<open>\<open>max(usage_computed_at)\<close> over every period; NULL when there is none.\<close>

definition usage_computed_at :: "usage_db \<Rightarrow> time option" where
  "usage_computed_at db =
     (case map up_computed_at (ub_periods db) of [] \<Rightarrow> None | t # ts \<Rightarrow> Some (foldl max t ts))"

definition check_usage_fresh :: "bool \<Rightarrow> usage_db \<Rightarrow> time \<Rightarrow> meter_error option" where
  "check_usage_fresh fails db now =
     (if fails then Some MeterDb
      else case usage_computed_at db of
             None \<Rightarrow> Some ErrUsageStale
           | Some t \<Rightarrow> if usage_stale_after < time_sub now t then Some ErrUsageStale else None)"

definition live_subs_for_meter :: "billing_db \<Rightarrow> string \<Rightarrow> sub_row list" where
  "live_subs_for_meter db provider =
     sort_key sr_org (filter (\<lambda>r. sr_provider r = provider \<and> live_word (sr_status r)) (bd_subs db))"

record pass =
  ps_now :: time
  ps_list_fails :: bool
  ps_listed :: billing_db
  ps_fresh_fails :: bool
  ps_fresh :: usage_db
  ps_cancelled :: "nat \<Rightarrow> bool"
  ps_turns :: "nat \<Rightarrow> turn"

definition meter_run :: "meter_env \<Rightarrow> pass \<Rightarrow> meter_state \<Rightarrow> meter_state \<times> meter_report \<times> meter_error option" where
  "meter_run env ps st =
     (if ps_list_fails ps then (st, empty_meter_report, Some MeterDb)
      else let subs = live_subs_for_meter (ps_listed ps) (me_provider env)
           in if subs = [] then (st, empty_meter_report, None)
              else case check_usage_fresh (ps_fresh_fails ps) (ps_fresh ps) (ps_now ps) of
                     Some e \<Rightarrow> (st, empty_meter_report, Some e)
                   | None \<Rightarrow> meter_turns env (ps_cancelled ps) (ps_turns ps) (ps_now ps) (length subs) subs st empty_meter_report)"

text \<open>The binary: the pass under its job's lock, and the outcome it is counted under.\<close>

datatype cron_outcome = CronIdle | CronLockHeld | CronStaleUsage | CronFailed | CronMetered

definition meter_under_lock :: "(lock_call \<Rightarrow> bool) \<Rightarrow> bool \<Rightarrow> meter_env \<Rightarrow> pass \<Rightarrow> meter_state
    \<Rightarrow> meter_state \<times> cron_outcome \<times> meter_error pass_error list" where
  "meter_under_lock lflt held env ps st =
     (case with_lock lflt held
             (\<lambda>(s, r). case meter_run env ps s of (s', rp, err) \<Rightarrow> ((s', rp), case err of None \<Rightarrow> [] | Some e \<Rightarrow> [e]))
             (st, empty_meter_report) of
        ((st', rp), errs) \<Rightarrow>
          (st', if ErrLockHeld \<in> set errs then (CronLockHeld, [])
                else if InPass ErrUsageStale \<in> set errs then (CronStaleUsage, errs)
                else if errs \<noteq> [] then (CronFailed, errs)
                else if rp_orgs rp = 0 then (CronIdle, []) else (CronMetered, [])))"

end
