(* ===== verification/Meter_Laws.thy ===== *)
theory Meter_Laws
  imports Meter_Pass
begin

text \<open>
  What the meter pass guarantees: the ledger never claims less than the provider was told,
  a period's statement never goes down, nothing is stated for a period that ended, and no
  day is first stated twice. Each step of a turn is shown to be \<open>sound\<close> once; the pass is
  a machine over passes, and the run facts come from \<open>machine_mono\<close>.
\<close>

section \<open>The ledger's invariant\<close>

definition row_stated :: "meter_row \<Rightarrow> int list" where
  "row_stated r = map2 (+) (mr_own r) (mr_carry r)"

definition claimed :: "meter_row list \<Rightarrow> sent_statement \<Rightarrow> bool" where
  "claimed rows s = (case find_period rows (sn_org s) (sn_start s) of
     None \<Rightarrow> False | Some r \<Rightarrow> le_each (us_tiers (sn_statement s)) (row_stated r))"

definition told :: "sent_statement list \<Rightarrow> meter_row \<Rightarrow> bool" where
  "told sent r = (\<exists>s\<in>set sent. sn_ok s \<and> (sn_org s, sn_start s) = meter_key r \<and> us_tiers (sn_statement s) = row_stated r)"

text \<open>Of two statements of one period the later is no lower in any tier.\<close>

definition no_lower :: "sent_statement \<Rightarrow> sent_statement \<Rightarrow> bool" where
  "no_lower s u = ((sn_org s, sn_start s) = (sn_org u, sn_start u)
     \<longrightarrow> le_each (us_tiers (sn_statement s)) (us_tiers (sn_statement u)))"

definition meter_inv :: "meter_state \<Rightarrow> bool" where
  "meter_inv st =
     (distinct (map meter_key (ms_rows st))
      \<and> (\<forall>r\<in>set (ms_rows st). meter_row_ok r \<and> (mr_acked r \<longrightarrow> told (ms_sent st) r))
      \<and> (\<forall>s\<in>set (ms_sent st). claimed (ms_rows st) s)
      \<and> sorted_wrt no_lower (ms_sent st))"

definition grows :: "meter_row list \<Rightarrow> meter_row list \<Rightarrow> bool" where
  "grows rows rows' = (\<forall>org start r. find_period rows org start = Some r
     \<longrightarrow> (\<exists>r'. find_period rows' org start = Some r' \<and> mr_wstart r' = mr_wstart r
           \<and> le_each (row_stated r) (row_stated r')))"

lemma grows_refl [simp]: "grows rows rows"
  by (simp add: grows_def)

lemma grows_trans: "grows a b \<Longrightarrow> grows b c \<Longrightarrow> grows a c"
  unfolding grows_def
proof (intro allI impI)
  fix org start r
  assume up: "\<forall>org start r. find_period a org start = Some r \<longrightarrow> (\<exists>r'. find_period b org start = Some r'
      \<and> mr_wstart r' = mr_wstart r \<and> le_each (row_stated r) (row_stated r'))"
    "\<forall>org start r. find_period b org start = Some r \<longrightarrow> (\<exists>r'. find_period c org start = Some r'
      \<and> mr_wstart r' = mr_wstart r \<and> le_each (row_stated r) (row_stated r'))"
    and "find_period a org start = Some r"
  then obtain x where x: "find_period b org start = Some x" "mr_wstart x = mr_wstart r" "le_each (row_stated r) (row_stated x)"
    by blast
  with up(2) obtain y where "find_period c org start = Some y" "mr_wstart y = mr_wstart x" "le_each (row_stated x) (row_stated y)"
    by blast
  with x show "\<exists>r'. find_period c org start = Some r' \<and> mr_wstart r' = mr_wstart r \<and> le_each (row_stated r) (row_stated r')"
    by (metis le_each_trans)
qed

text \<open>A step is sound: it keeps the invariant, only raises rows, and only sends good statements.\<close>

definition sound :: "(sent_statement \<Rightarrow> bool) \<Rightarrow> meter_state \<Rightarrow> meter_state \<Rightarrow> bool" where
  "sound good st st' =
     (meter_inv st \<longrightarrow> meter_inv st' \<and> grows (ms_rows st) (ms_rows st')
        \<and> (\<exists>new. ms_sent st' = ms_sent st @ new \<and> (\<forall>s\<in>set new. good s)))"

lemma sound_refl [simp]: "sound good st st"
  by (simp add: sound_def)

lemma sound_trans:
  assumes "sound good a b" "sound good b c"
  shows "sound good a c"
  unfolding sound_def
proof (intro impI conjI)
  assume a: "meter_inv a"
  with assms have b: "meter_inv b" by (simp add: sound_def)
  from assms(2) b show "meter_inv c" by (simp add: sound_def)
  show "grows (ms_rows a) (ms_rows c)" using assms a b grows_trans unfolding sound_def by blast
  obtain x y where "ms_sent b = ms_sent a @ x" "\<forall>s\<in>set x. good s" "ms_sent c = ms_sent b @ y" "\<forall>s\<in>set y. good s"
    using assms a b unfolding sound_def by blast
  then show "\<exists>new. ms_sent c = ms_sent a @ new \<and> (\<forall>s\<in>set new. good s)"
    by (intro exI [of _ "x @ y"]) auto
qed

lemma sound_weaken: "sound good a b \<Longrightarrow> (\<And>s. good s \<Longrightarrow> better s) \<Longrightarrow> sound better a b"
  unfolding sound_def by blast

lemma told_more: "told sent r \<Longrightarrow> told (sent @ new) r"
  by (auto simp: told_def)

lemma told_cong: "meter_key r = meter_key r' \<Longrightarrow> row_stated r = row_stated r' \<Longrightarrow> told sent r = told sent r'"
  by (simp add: told_def)

lemma inv_row: "meter_inv st \<Longrightarrow> find_period (ms_rows st) org start = Some r \<Longrightarrow>
    meter_row_ok r \<and> (mr_acked r \<longrightarrow> told (ms_sent st) r)"
  using find_period_key unfolding meter_inv_def by blast

lemma row_ok_lengths: "meter_row_ok r \<Longrightarrow> length (mr_own r) = length (mr_carry r)"
  by (simp add: meter_row_ok_def)

text \<open>Replacing a row by one of the same window start that states as much.\<close>

lemma sound_put:
  assumes "meter_row_ok r" "mr_acked r \<Longrightarrow> told (ms_sent st) r"
    and "\<And>old. find_period (ms_rows st) (mr_org r) (mr_start r) = Some old
      \<Longrightarrow> mr_wstart r = mr_wstart old \<and> le_each (row_stated old) (row_stated r)"
  shows "sound good st (st\<lparr>ms_rows := put_meter r (ms_rows st)\<rparr>)"
  unfolding sound_def
proof (intro impI conjI)
  let ?rows = "put_meter r (ms_rows st)"
  assume inv: "meter_inv st"
  have up: "\<exists>r'. find_period ?rows org start = Some r' \<and> mr_wstart r' = mr_wstart x \<and> le_each (row_stated x) (row_stated r')"
    if "find_period (ms_rows st) org start = Some x" for org start x
    using that assms(3) by (auto simp: find_put meter_key_def)
  then show "grows (ms_rows st) (ms_rows (st\<lparr>ms_rows := ?rows\<rparr>))" by (simp add: grows_def)
  have "claimed ?rows s" if "s \<in> set (ms_sent st)" for s
  proof -
    from inv that have "claimed (ms_rows st) s" by (simp add: meter_inv_def)
    then obtain x where "find_period (ms_rows st) (sn_org s) (sn_start s) = Some x" "le_each (us_tiers (sn_statement s)) (row_stated x)"
      by (auto simp: claimed_def split: option.splits)
    with up show ?thesis by (force simp: claimed_def intro: le_each_trans)
  qed
  then show "meter_inv (st\<lparr>ms_rows := ?rows\<rparr>)"
    using inv assms(1,2) ledger.distinct_put ledger.set_put by (fastforce simp: meter_inv_def)
qed auto

lemma sound_send:
  assumes "find_period (ms_rows st) (sn_org s) (sn_start s) = Some r" "us_tiers (sn_statement s) = row_stated r" "good s"
  shows "sound good st (st\<lparr>ms_sent := ms_sent st @ [s]\<rparr>)"
  using assms by (auto simp: sound_def meter_inv_def claimed_def no_lower_def sorted_wrt_append intro: told_more split: option.splits)

section \<open>Steps\<close>

definition statement_for :: "string \<Rightarrow> time \<Rightarrow> time \<Rightarrow> sent_statement \<Rightarrow> bool" where
  "statement_for org start now s = (sn_org s = org \<and> sn_start s = start \<and> us_at (sn_statement s) = now)"

text \<open>Sending a period whose row states the same counts, and acknowledging it.\<close>

definition row_holds :: "meter_row list \<Rightarrow> string \<Rightarrow> period \<Rightarrow> bool" where
  "row_holds rows org p = (case find_period rows org (mp_start p) of
     None \<Rightarrow> False
   | Some r \<Rightarrow> mr_own r = mp_own p \<and> mr_carry r = mp_carry p \<and> mr_stated_at r = mp_stated_at p)"

lemma ingest_ack_sound:
  assumes "meter_inv st" "row_holds (ms_rows st) org p" "ingest_ack env fi fa org p now st = (st', err)"
  shows "sound (statement_for org (mp_start p) now) st st'" "err \<noteq> Some MeterPanic" "err \<noteq> Some AckLost"
    "\<exists>r r'. find_period (ms_rows st) org (mp_start p) = Some r \<and> find_period (ms_rows st') org (mp_start p) = Some r'
        \<and> (\<exists>b. r' = r\<lparr>mr_acked := b\<rparr>)"
proof -
  let ?good = "statement_for org (mp_start p) now"
  from assms(2) obtain r where r: "find_period (ms_rows st) org (mp_start p) = Some r"
      "mr_own r = mp_own p" "mr_carry r = mp_carry p" "mr_stated_at r = mp_stated_at p"
    by (auto simp: row_holds_def split: option.splits)
  have ok: "meter_row_ok r" using inv_row [OF assms(1) r(1)] by simp
  have key: "mr_org r = org" "mr_start r = mp_start p" using find_period_key [OF r(1)] by auto
  have ts: "stated p = Some (row_stated r)"
    using row_ok_lengths [OF ok] r(2,3) by (simp add: stated_def sum_each_eq row_stated_def)
  define s where "s = \<lparr>sn_org = org, sn_start = mp_start p, sn_statement = \<lparr>us_customer = mp_customer p,
     us_event_id = event_id (me_sha256 env) org (mp_start p) (row_stated r), us_at = now, us_tiers = row_stated r\<rparr>,
     sn_ok = (fi = Works)\<rparr>"
  have s: "ingest env fi org p now st = (st\<lparr>ms_sent := ms_sent st @ [s]\<rparr>, if fi = Works then None else Some IngestFailed)"
      "sn_org s = org" "sn_start s = mp_start p" "us_tiers (sn_statement s) = row_stated r" "us_at (sn_statement s) = now"
      "sn_ok s = (fi = Works)"
    by (simp_all add: ingest_def ts s_def)
  let ?st1 = "st\<lparr>ms_sent := ms_sent st @ [s]\<rparr>"
  have sent: "sound ?good st ?st1"
    using r(1) s by (intro sound_send) (simp_all add: statement_for_def)
  let ?a = "r\<lparr>mr_acked := True\<rparr>"
  have "sound ?good ?st1 (?st1\<lparr>ms_rows := put_meter ?a (ms_rows ?st1)\<rparr>)" if "fi = Works"
  proof (rule sound_put)
    show "meter_row_ok ?a" using ok by (simp add: meter_row_ok_def)
    show "told (ms_sent ?st1) ?a" using s that key by (auto simp: told_def meter_key_def row_stated_def)
    show "mr_wstart ?a = mr_wstart old \<and> le_each (row_stated old) (row_stated ?a)"
      if "find_period (ms_rows ?st1) (mr_org ?a) (mr_start ?a) = Some old" for old
      using that r(1) key by (simp add: row_stated_def)
  qed
  then have acked: "sound ?good st (?st1\<lparr>ms_rows := put_meter ?a (ms_rows st)\<rparr>)" if "fi = Works"
    using sound_trans [OF sent] that by simp
  have stmt: "ack fa org p (ms_rows st) = (case fa of Refused \<Rightarrow> (ms_rows st, Some MeterDb)
      | Lost \<Rightarrow> (put_meter ?a (ms_rows st), Some MeterDb) | Works \<Rightarrow> (put_meter ?a (ms_rows st), None))"
    using r by (simp add: ack_def ack_stmt_def split: fault.splits)
  have same: "find_period (put_meter ?a (ms_rows st)) org (mp_start p) = Some ?a"
    using key by (simp add: find_put meter_key_def)
  have out: "(st', err) = (if fi = Works then with_rows ?st1 (ack fa org p (ms_rows st)) else (?st1, Some IngestFailed))"
    using assms(3) unfolding ingest_ack_def s(1) by (cases "fi = Works") auto
  show "sound ?good st st'"
    using out acked sent by (auto simp: with_rows_def stmt split: if_splits fault.splits)
  show "err \<noteq> Some MeterPanic" "err \<noteq> Some AckLost"
    using out by (auto simp: with_rows_def stmt split: if_splits fault.splits)
  show "\<exists>r r'. find_period (ms_rows st) org (mp_start p) = Some r \<and> find_period (ms_rows st') org (mp_start p) = Some r'
        \<and> (\<exists>b. r' = r\<lparr>mr_acked := b\<rparr>)"
  proof -
    have rows: "ms_rows st' = ms_rows st \<or> ms_rows st' = put_meter ?a (ms_rows st)"
      using out by (auto simp: with_rows_def stmt split: if_splits fault.splits)
    have self: "r = r\<lparr>mr_acked := mr_acked r\<rparr>" by simp
    from rows show ?thesis
    proof
      assume "ms_rows st' = ms_rows st"
      then show ?thesis using r(1) self by metis
    next
      assume "ms_rows st' = put_meter ?a (ms_rows st)"
      then show ?thesis using r(1) same by metis
    qed
  qed
qed

text \<open>The period a turn read, against the row that stands now.\<close>

definition reads_as :: "period option \<Rightarrow> meter_row option \<Rightarrow> bool" where
  "reads_as row r = (map_option (\<lambda>p. (mp_own p, mp_carry p)) row = map_option (\<lambda>r. (mr_own r, mr_carry r)) r)"

lemma reads_as_some: "reads_as (Some p) r \<Longrightarrow> \<exists>x. r = Some x \<and> mr_own x = mp_own p \<and> mr_carry x = mp_carry p"
  by (cases r) (auto simp: reads_as_def)

lemma reads_as_none: "reads_as None r = (r = None)"
  by (auto simp: reads_as_def)

lemma read_reads: "read_period f rows org start = Inr row \<Longrightarrow> reads_as row (find_period rows org start)"
  by (cases "find_period rows org start") (auto simp: read_period_def reads_as_def period_from_row_def split: if_splits)

lemma read_holds:
  "read_period f rows org start = Inr (Some p) \<Longrightarrow> mp_start p = start \<and> row_holds rows org p"
  using find_period_key [of rows org start]
  by (auto simp: read_period_def row_holds_def period_from_row_def split: if_splits)

lemma resend_sound:
  assumes "meter_inv st" "read_period f (ms_rows st) org start = Inr row" "resend env tn org row now st = (st', res)"
  shows "sound (statement_for org start now) st st'" "res \<noteq> Inl MeterPanic" "res \<noteq> Inl AckLost"
    "reads_as row (find_period (ms_rows st') org start)"
proof -
  consider (quiet) "st' = st" "\<exists>b. res = Inr b"
    | (again) p err where "row = Some p" "ingest_ack env (tn_flt tn McResend) (tn_flt tn McResendAck) org p now st = (st', err)"
        "res = (case err of None \<Rightarrow> Inr True | Some e \<Rightarrow> Inl e)"
    using assms(3) by (auto simp: resend_def split: option.splits if_splits prod.splits)
  then have "sound (statement_for org start now) st st' \<and> res \<noteq> Inl MeterPanic \<and> res \<noteq> Inl AckLost
      \<and> reads_as row (find_period (ms_rows st') org start)"
  proof cases
    case quiet
    then show ?thesis using read_reads [OF assms(2)] by auto
  next
    case again
    have p: "mp_start p = start" "row_holds (ms_rows st) org p" using read_holds assms(2) again(1) by auto
    note told = ingest_ack_sound [OF assms(1) p(2) again(2)]
    obtain r b where r: "find_period (ms_rows st) org start = Some r"
        "find_period (ms_rows st') org start = Some (r\<lparr>mr_acked := b\<rparr>)"
      using told(4) unfolding p(1) by blast
    have "reads_as row (find_period (ms_rows st') org start)"
      using read_reads [OF assms(2)] by (simp add: reads_as_def r)
    then show ?thesis using told(1-3) p(1) again(3) by (auto split: option.splits)
  qed
  then show "sound (statement_for org start now) st st'" "res \<noteq> Inl MeterPanic" "res \<noteq> Inl AckLost"
    "reads_as row (find_period (ms_rows st') org start)" by blast+
qed

section \<open>The counts of a period\<close>

lemma count_period_shape:
  assumes "count_period tn sub ps pe row ent allowance now rows = Inr (win, thru, own, carried)"
  shows "length own = length (tier_bounds ent) + 1" "length carried = length (tier_bounds ent) + 1"
    "win = window_for ps pe (map_option mp_window row)
       (map_option (\<lambda>r. days_for (period_from_row r) (sr_sub sub)) (previous_row rows (sr_org sub) ps (sr_sub sub)))"
    "thru = through win now"
proof -
  let ?t = "length (tier_bounds ent) + 1"
  have carry_len: "length c = ?t" if "carry_from tn org p days ent = Inr c" for org p days c
    using that by (auto simp: carry_from_def carry_def Let_def dest!: zip_with_length split: if_splits sum.splits option.splits)
  from assms show "length own = ?t" "length carried = ?t"
    "win = window_for ps pe (map_option mp_window row)
       (map_option (\<lambda>r. days_for (period_from_row r) (sr_sub sub)) (previous_row rows (sr_org sub) ps (sr_sub sub)))"
    "thru = through win now"
    by (auto simp: count_period_def read_previous_period_def Let_def option.map_comp comp_def dest: carry_len
        split: sum.splits option.splits if_splits)
qed

lemma carry_from_no_panic: "carry_from tn org p days ent \<noteq> Inl MeterPanic \<and> carry_from tn org p days ent \<noteq> Inl AckLost"
  by (auto simp: carry_from_def sum_usage_def carry_eq Let_def split: sum.splits option.splits if_splits)

lemma count_period_no_panic:
  "count_period tn sub ps pe row ent allowance now rows \<noteq> Inl MeterPanic
    \<and> count_period tn sub ps pe row ent allowance now rows \<noteq> Inl AckLost"
  using carry_from_no_panic
  by (auto simp: count_period_def read_previous_period_def sum_usage_def Let_def split: sum.splits option.splits if_splits)

lemma raise_counts_some:
  assumes "\<And>p. row = Some p \<Longrightarrow> length (mp_own p) = length own \<and> length (mp_carry p) = length carried"
  obtains own1 carried1 where "raise_counts row own carried = Some (own1, carried1)"
    "length own1 = length own" "length carried1 = length carried"
    "\<And>p. row = Some p \<Longrightarrow> le_each (mp_own p) own1 \<and> le_each (mp_carry p) carried1"
  using assms by (cases row) (auto simp: raise_counts_def max_each_eq le_each_max1)

section \<open>A turn\<close>

lemma terms_tiers:
  "terms env tn sub ps (Some p) now = Inr (Inr (ent, a)) \<Longrightarrow> length (mp_own p) = length (tier_bounds ent) + 1"
  by (auto simp: terms_def split: sum.splits option.splits if_splits)

lemma sound_same_counts:
  assumes "find_period (ms_rows st) (mr_org r) (mr_start r) = Some old" "meter_row_ok r" "meter_inv st"
    and "mr_own r = mr_own old" "mr_carry r = mr_carry old" "mr_acked r = mr_acked old"
    and "mr_wstart r = mr_wstart old"
  shows "sound good st (st\<lparr>ms_rows := put_meter r (ms_rows st)\<rparr>)"
proof (rule sound_put)
  have same: "row_stated r = row_stated old" "meter_key r = meter_key old"
    using assms find_period_key [OF assms(1)] by (simp_all add: row_stated_def meter_key_def)
  show "told (ms_sent st) r" if "mr_acked r"
    using that inv_row [OF assms(3,1)] assms(6) told_cong [OF same(2,1)] by simp
  show "mr_wstart r = mr_wstart x \<and> le_each (row_stated x) (row_stated r)" if "find_period (ms_rows st) (mr_org r) (mr_start r) = Some x" for x
    using that assms(1,7) same(1) by simp
qed (rule assms(2))

lemma advance_sound:
  assumes "meter_inv st" "advance f org start e t (ms_rows st) = (rows', err)"
  shows "sound good st (st\<lparr>ms_rows := rows'\<rparr>)" "err \<noteq> Some MeterPanic" "err \<noteq> Some AckLost"
proof -
  show "err \<noteq> Some MeterPanic" "err \<noteq> Some AckLost"
    using assms(2) by (auto simp: advance_def run_write_def split: sum.splits fault.splits)
  from assms(2) [unfolded advance_def] run_write_cases
  consider "rows' = ms_rows st" | "advance_stmt org start (new_date e) (new_date t) (ms_rows st) = Inr rows'" by blast
  then show "sound good st (st\<lparr>ms_rows := rows'\<rparr>)"
  proof cases
    case 2
    then show ?thesis
    proof (cases rule: advance_stmt_ok)
      case (2 r)
      have "mr_org (advanced_period (new_date e) (new_date t) r) = org" "mr_start (advanced_period (new_date e) (new_date t) r) = start"
        using find_period_key [OF 2(1)] by (simp_all add: advanced_period_def)
      then show ?thesis unfolding 2(2) using 2(1,3) assms(1) by (intro sound_same_counts [of _ _ r]) simp_all
    qed simp
  qed simp
qed

lemma write_ahead_sound:
  assumes "meter_inv st" "write_ahead f orgs org p (ms_rows st) = (rows', err)"
    and "\<And>old. find_period (ms_rows st) org (mp_start p) = Some old
      \<Longrightarrow> le_each (mr_own old) (mp_own p) \<and> le_each (mr_carry old) (mp_carry p)"
  shows "sound good st (st\<lparr>ms_rows := rows'\<rparr>)" "err \<noteq> Some MeterPanic" "err \<noteq> Some AckLost"
    "err = None \<Longrightarrow> row_holds rows' org p"
proof -
  have stmt: "run_write f (write_ahead_stmt orgs (row_of_period org p) (ms_rows st)) (ms_rows st) = (rows', err)"
    using assms(2) by (simp add: write_ahead_def)
  show "err \<noteq> Some MeterPanic" "err \<noteq> Some AckLost"
    using stmt by (auto simp: run_write_def split: sum.splits fault.splits)
  have "sound good st (st\<lparr>ms_rows := rows'\<rparr>) \<and> (err = None \<longrightarrow> row_holds rows' org p)"
  proof (cases "rows' = ms_rows st \<and> err \<noteq> None")
    case False
    with run_write_cases [OF stmt] have "write_ahead_stmt orgs (row_of_period org p) (ms_rows st) = Inr rows'" by blast
    then obtain r where r: "rows' = put_meter r (ms_rows st)" "meter_row_ok r" "meter_key r = (org, mp_start p)"
        "mr_own r = mp_own p" "mr_carry r = mp_carry p" "\<not> mr_acked r" "mr_stated_at r = mp_stated_at p"
        "mr_wstart r = (case find_period (ms_rows st) org (mp_start p) of None \<Rightarrow> new_date (wn_start (mp_window p)) | Some old \<Rightarrow> mr_wstart old)"
      by (cases rule: write_ahead_stmt_ok) (auto simp: row_of_period_def meter_key_def cong: option.case_cong)
    have "sound good st (st\<lparr>ms_rows := put_meter r (ms_rows st)\<rparr>)"
      using r assms(3) by (intro sound_put) (auto simp: row_stated_def meter_key_def intro: le_each_plus)
    moreover have "row_holds rows' org p" using r by (simp add: row_holds_def find_put)
    ultimately show ?thesis using r(1) by simp
  qed auto
  then show "sound good st (st\<lparr>ms_rows := rows'\<rparr>)" "err = None \<Longrightarrow> row_holds rows' org p" by blast+
qed

lemma state_period_sound:
  assumes "meter_inv st" "reads_as row (find_period (ms_rows st) (sr_org sub) ps)"
    and "\<And>p. row = Some p \<Longrightarrow> length (mp_own p) = length (tier_bounds ent) + 1"
    and "state_period env tn sub ps pe row ent allowance now st = (st', res)"
  shows "sound (statement_for (sr_org sub) ps now) st st' \<and> res \<noteq> Inl MeterPanic \<and> res \<noteq> Inl AckLost"
proof (cases "count_period tn sub ps pe row ent allowance now (ms_rows st)")
  case (Inl e)
  with assms(4) count_period_no_panic [of tn sub ps pe row ent allowance now "ms_rows st"] show ?thesis
    by (auto simp: state_period_def)
next
  case (Inr c)
  obtain win thru own carried where c: "c = (win, thru, own, carried)" by (metis prod_cases4)
  note shape = count_period_shape [OF Inr [unfolded c]]
  have lens: "length (mp_own p) = length own \<and> length (mp_carry p) = length carried" if "row = Some p" for p
  proof -
    from reads_as_some [OF assms(2) [unfolded that]]
    obtain x where x: "find_period (ms_rows st) (sr_org sub) ps = Some x" "mr_own x = mp_own p" "mr_carry x = mp_carry p"
      by blast
    have "length (mr_own x) = length (mr_carry x)" using inv_row [OF assms(1) x(1)] row_ok_lengths by blast
    then show ?thesis using assms(3) [OF that] x shape by simp
  qed
  obtain own1 carried1 where raised: "raise_counts row own carried = Some (own1, carried1)"
      "\<And>p. row = Some p \<Longrightarrow> le_each (mp_own p) own1 \<and> le_each (mp_carry p) carried1"
    using raise_counts_some [OF lens] by blast
  let ?p = "next_period sub ps win thru ent allowance own1 carried1 now"
  obtain rows_a err_a where adv: "advance (tn_flt tn McAdvance) (sr_org sub) ps (wn_end win) thru (ms_rows st) = (rows_a, err_a)"
    by fastforce
  obtain rows_w err_w where wr: "write_ahead (tn_flt tn McWriteAhead) (bd_orgs (tn_billing tn)) (sr_org sub) ?p (ms_rows st) = (rows_w, err_w)"
    by fastforce
  obtain st2 err2 where ia: "ingest_ack env (tn_flt tn McIngest) (tn_flt tn McAck) (sr_org sub) ?p now (st\<lparr>ms_rows := rows_w\<rparr>) = (st2, err2)"
    by fastforce
  have up: "le_each (mr_own old) (mp_own ?p) \<and> le_each (mr_carry old) (mp_carry ?p)"
    if "find_period (ms_rows st) (sr_org sub) (mp_start ?p) = Some old" for old
    using that raised(2) assms(2) by (cases row) (auto simp: next_period_def reads_as_def)
  note w = write_ahead_sound [OF assms(1) wr up]
  consider "st' = st\<lparr>ms_rows := rows_a\<rparr>" "res = (case err_a of None \<Rightarrow> Inr OutcomeUnchanged | Some e \<Rightarrow> Inl e)"
    | e where "err_w = Some e" "st' = st\<lparr>ms_rows := rows_w\<rparr>" "res = Inl e"
    | "err_w = None" "st' = st2" "res = (case err2 of None \<Rightarrow> Inr OutcomeStated | Some e \<Rightarrow> Inl e)"
    using assms(4) unfolding state_period_def Inr c sum.case prod.case raised(1) option.case Let_def wr adv
    by (auto simp: with_rows_def outcome_of_def ia split: if_splits option.splits)
  then show ?thesis
  proof cases
    case 1
    then show ?thesis using advance_sound [OF assms(1) adv] by (auto split: option.splits)
  next
    case 2
    then show ?thesis using w(1-3) by auto
  next
    case 3
    have "meter_inv (st\<lparr>ms_rows := rows_w\<rparr>)" using w(1) assms(1) by (simp add: sound_def)
    from ingest_ack_sound(1-3) [OF this _ ia] w(4) 3(1)
    have "sound (statement_for (sr_org sub) (mp_start ?p) now) (st\<lparr>ms_rows := rows_w\<rparr>) st2"
      "err2 \<noteq> Some MeterPanic" "err2 \<noteq> Some AckLost" by simp_all
    moreover have "mp_start ?p = ps" by (simp add: next_period_def)
    ultimately show ?thesis using 3 sound_trans [OF w(1)] by (auto split: option.splits)
  qed
qed

text \<open>Statements of a live period: of a listed subscription, at the tick, before its end.\<close>

definition in_period :: "sub_row list \<Rightarrow> time \<Rightarrow> sent_statement \<Rightarrow> bool" where
  "in_period subs now s = (\<exists>sub\<in>set subs. \<exists>start end'. sr_start sub = Some start \<and> sr_end sub = Some end' \<and> now < end'
     \<and> statement_for (sr_org sub) start now s)"

lemma meter_org_sound:
  assumes inv: "meter_inv st" and run: "meter_org env tn sub now st = (st', res, resent)"
  shows "sound (in_period [sub] now) st st' \<and> res \<noteq> Inl MeterPanic \<and> res \<noteq> Inl AckLost"
proof -
  consider (early) "st' = st" "res \<noteq> Inl MeterPanic" "res \<noteq> Inl AckLost"
    | (live) ps pe row where "sr_start sub = Some ps" "sr_end sub = Some pe" "now < pe"
        "read_period (tn_flt tn McReadPeriod) (ms_rows st) (sr_org sub) ps = Inr row"
    using run by (auto simp: meter_org_def read_period_def split: option.splits if_splits sum.splits)
  then show ?thesis
  proof cases
    case early
    then show ?thesis by simp
  next
    case live
    obtain st1 r1 where re: "resend env tn (sr_org sub) row now st = (st1, r1)" by fastforce
    note re_sound = resend_sound [OF inv live(4) re]
    have good: "sound (in_period [sub] now) a b" if "sound (statement_for (sr_org sub) ps now) a b" for a b
      using that live by (elim sound_weaken) (auto simp: in_period_def)
    have inv1: "meter_inv st1" using re_sound(1) inv by (simp add: sound_def)
    consider (ended) "st' = st1" "res \<noteq> Inl MeterPanic" "res \<noteq> Inl AckLost"
      | (states) ent allowance where "terms env tn sub ps row now = Inr (Inr (ent, allowance))"
          "state_period env tn sub ps pe row ent allowance now st1 = (st', res)"
      using run live re re_sound(2,3)
      by (auto simp: meter_org_def terms_def [of env tn sub ps row now] split: sum.splits prod.splits option.splits if_splits)
    then show ?thesis
    proof cases
      case ended
      then show ?thesis using good [OF re_sound(1)] by simp
    next
      case states
      have "length (mp_own p) = length (tier_bounds ent) + 1" if "row = Some p" for p
        using terms_tiers states(1) that by blast
      from state_period_sound [OF inv1 re_sound(4) this states(2)] show ?thesis
        using sound_trans [OF good [OF re_sound(1)] good] by simp
    qed
  qed
qed

lemma turns_sound:
  "meter_inv st \<Longrightarrow> meter_turns env cancelled turns now n subs st rp = (st', rp', err) \<Longrightarrow>
    sound (in_period subs now) st st'"
proof (induction subs arbitrary: st rp)
  case (Cons sub subs)
  obtain st1 res resent where turn: "meter_org env (turns (rp_orgs rp)) sub now st = (st1, res, resent)"
    by (metis prod_cases3)
  have first: "sound (in_period (sub # subs) now) st st1"
    using meter_org_sound [OF Cons.prems(1) turn] by (auto simp: in_period_def elim!: sound_weaken)
  show ?case
  proof (cases "cancelled (rp_orgs rp)")
    case False
    have "meter_inv st1" using first Cons.prems(1) by (simp add: sound_def)
    with Cons False turn have "sound (in_period subs now) st1 st'" by auto
    then have "sound (in_period (sub # subs) now) st1 st'" by (auto simp: in_period_def elim!: sound_weaken)
    with first show ?thesis by (rule sound_trans)
  qed (use Cons.prems in auto)
qed auto

lemma run_sound:
  assumes "meter_inv st" "meter_run env ps st = (st', rp, err)"
  shows "sound (in_period (live_subs_for_meter (ps_listed ps) (me_provider env)) (ps_now ps)) st st'"
proof -
  consider "st' = st" | "meter_turns env (ps_cancelled ps) (ps_turns ps) (ps_now ps)
      (length (live_subs_for_meter (ps_listed ps) (me_provider env)))
      (live_subs_for_meter (ps_listed ps) (me_provider env)) st empty_meter_report = (st', rp, err)"
    using assms(2) by (auto simp: meter_run_def Let_def split: if_splits option.splits)
  then show ?thesis using turns_sound [OF assms(1)] by cases auto
qed

definition meter_step :: "meter_env \<Rightarrow> meter_state \<Rightarrow> pass \<Rightarrow> meter_state" where
  "meter_step env st ps = fst (meter_run env ps st)"

lemma step_sound: "meter_inv st \<Longrightarrow>
    sound (in_period (live_subs_for_meter (ps_listed ps) (me_provider env)) (ps_now ps)) st (meter_step env st ps)"
  using run_sound [of st env ps] by (metis meter_step_def prod.collapse fst_conv)

text \<open>A row's window start and counts, ordered so that a row never disappears.\<close>

definition stated_at :: "string \<Rightarrow> time \<Rightarrow> meter_state \<Rightarrow> (int \<times> int list) option" where
  "stated_at org start st = map_option (\<lambda>r. (mr_wstart r, row_stated r)) (find_period (ms_rows st) org start)"

definition states_less :: "(int \<times> int list) option \<Rightarrow> (int \<times> int list) option \<Rightarrow> bool" where
  "states_less a b = (case a of None \<Rightarrow> True | Some (d, x) \<Rightarrow> (case b of None \<Rightarrow> False | Some (e, y) \<Rightarrow> d = e \<and> le_each x y))"

interpretation statements: machine_mono "meter_step env" meter_inv "stated_at org start" states_less
proof
  fix st ps assume inv: "meter_inv st"
  from step_sound [OF this] show "meter_inv (meter_step env st ps)" using inv unfolding sound_def by blast
  from step_sound [OF inv] have "grows (ms_rows st) (ms_rows (meter_step env st ps))" using inv unfolding sound_def by blast
  then show "states_less (stated_at org start st) (stated_at org start (meter_step env st ps))"
    by (cases "find_period (ms_rows st) org start") (fastforce simp: states_less_def stated_at_def grows_def)+
qed (auto simp: states_less_def intro: le_each_trans split: option.splits)

end
