(* ===== verification/Meter_Claims.thy ===== *)
theory Meter_Claims
  imports Meter_Laws
begin

text \<open>
  The properties of the meter pass, over runs of passes with any faults, any schedule of
  table contents and any clock.
\<close>

section \<open>A small deployment\<close>

definition demo_meter :: meter_env where
  "demo_meter = \<lparr>me_catalog = catalog, me_config = billing_on, me_sha256 = (\<lambda>s. replicate 32 0), me_provider = ''dodo''\<rparr>"

definition demo_metered_sub :: sub_row where
  "demo_metered_sub = demo_live_row\<lparr>sr_plan := slug_usage, sr_start := Some 0, sr_end := Some (30 * day_ns)\<rparr>"

definition demo_metered :: billing_db where
  "demo_metered = demo_billing\<lparr>bd_subs := [demo_metered_sub]\<rparr>"

definition demo_cells :: usage_db where
  "demo_cells = \<lparr>ub_orgs = [], ub_projects = [], ub_cells = [\<lparr>uc_project = ''p'', uc_day = 3, uc_count = 250000, uc_org = ''o''\<rparr>],
     ub_periods = [\<lparr>up_org = ''o'', up_start = 0, up_end = 30 * day_ns, up_count = 250000, up_computed_at = 4 * day_ns\<rparr>],
     ub_cron = (\<lambda>k. None)\<rparr>"

definition demo_turn :: turn where
  "demo_turn = \<lparr>tn_flt = (\<lambda>c. Works), tn_billing = demo_metered, tn_usage = demo_cells\<rparr>"

definition demo_pass :: pass where
  "demo_pass = \<lparr>ps_now = 4 * day_ns, ps_list_fails = False, ps_listed = demo_metered, ps_fresh_fails = False,
     ps_fresh = demo_cells, ps_cancelled = (\<lambda>k. False), ps_turns = (\<lambda>k. demo_turn)\<rparr>"

definition fresh_ledger :: meter_state where
  "fresh_ledger = \<lparr>ms_rows = [], ms_sent = []\<rparr>"

lemma fresh_inv [simp]: "meter_inv fresh_ledger"
  by (simp add: meter_inv_def fresh_ledger_def)

section \<open>Runs of passes\<close>

text \<open>
  C8. The ledger never understates what the provider holds: after any run of passes, whatever
  calls failed or lost their replies, every statement ever handed to the provider is covered
  by its period's row tier by tier, and a row marked acknowledged states exactly the counts of
  a statement the provider accepted.
\<close>

theorem ledger_never_understates:
  fixes env :: meter_env and passes :: "pass list"
  assumes "meter_inv st"
  defines "st' \<equiv> run_events (meter_step env) st passes"
  shows "(\<forall>s\<in>set (ms_sent st'). claimed (ms_rows st') s)
    \<and> (\<forall>r\<in>set (ms_rows st'). mr_acked r \<longrightarrow> told (ms_sent st') r)"
  using statements.run_inv [OF assms(1), of env passes] by (simp add: meter_inv_def st'_def)

theorem ledger_never_understates_witness:
  "list_all (claimed (ms_rows (run_events (meter_step demo_meter) fresh_ledger [demo_pass, demo_pass])))
     (ms_sent (run_events (meter_step demo_meter) fresh_ledger [demo_pass, demo_pass]))"
  unfolding list_all_iff by (rule conjunct1 [OF ledger_never_understates [OF fresh_inv]])

text \<open>
  C9. A period's statement never goes down: over any run of passes, of two statements made for
  one period the later is no lower in any tier, and a stored row keeps its window's start and
  never states less.
\<close>

theorem statements_never_go_down:
  fixes env :: meter_env and passes :: "pass list"
  assumes "meter_inv st"
  defines "st' \<equiv> run_events (meter_step env) st passes"
  shows "sorted_wrt no_lower (ms_sent st') \<and> states_less (stated_at org start st) (stated_at org start st')"
  using statements.run_inv [OF assms(1), of env passes] statements.run_mono [OF assms(1)]
  by (simp add: meter_inv_def st'_def)

theorem statements_never_go_down_witness:
  defines "st' \<equiv> run_events (meter_step demo_meter) fresh_ledger [demo_pass, demo_pass]"
  shows "sorted_wrt no_lower (ms_sent st') \<and> states_less (stated_at ''o'' 0 fresh_ledger) (stated_at ''o'' 0 st')"
  unfolding st'_def by (rule statements_never_go_down) simp

section \<open>One pass\<close>

lemma check_fresh_none:
  "check_usage_fresh f db now = None \<Longrightarrow> \<exists>t. usage_computed_at db = Some t \<and> now - t \<le> usage_stale_after"
  by (auto simp: check_usage_fresh_def usage_stale_after_def hour_val time_sub_def split: if_splits option.splits)

text \<open>
  A pass states only what it may: every statement it makes is for the current period of a
  subscription it listed as live, made at the tick and before that period's end, and it makes
  none unless a usage count was verified within the last three hours.
\<close>

theorem states_only_live_periods:
  assumes "meter_inv st" "meter_run env ps st = (st', rp, err)"
  shows "\<exists>sent. ms_sent st' = ms_sent st @ sent
    \<and> (\<forall>s\<in>set sent. in_period (live_subs_for_meter (ps_listed ps) (me_provider env)) (ps_now ps) s)
    \<and> (sent = [] \<or> (\<exists>t. usage_computed_at (ps_fresh ps) = Some t \<and> ps_now ps - t \<le> usage_stale_after))"
proof -
  obtain sent where sent: "ms_sent st' = ms_sent st @ sent"
      "\<forall>s\<in>set sent. in_period (live_subs_for_meter (ps_listed ps) (me_provider env)) (ps_now ps) s"
    using run_sound [OF assms] assms(1) unfolding sound_def by blast
  have "st' = st \<or> check_usage_fresh (ps_fresh_fails ps) (ps_fresh ps) (ps_now ps) = None"
    using assms(2) by (auto simp: meter_run_def Let_def split: if_splits option.splits)
  then have "sent = [] \<or> (\<exists>t. usage_computed_at (ps_fresh ps) = Some t \<and> ps_now ps - t \<le> usage_stale_after)"
    using check_fresh_none sent(1) by auto
  with sent show ?thesis by blast
qed

theorem states_only_live_periods_witness:
  "\<exists>st' rp err sent. meter_run demo_meter demo_pass fresh_ledger = (st', rp, err) \<and> ms_sent st' = sent
    \<and> (sent = [] \<or> (\<exists>t. usage_computed_at demo_cells = Some t \<and> 4 * day_ns - t \<le> usage_stale_after))"
proof -
  obtain st' rp err where run: "meter_run demo_meter demo_pass fresh_ledger = (st', rp, err)" by (metis prod_cases3)
  from states_only_live_periods [OF fresh_inv run] show ?thesis
    using run by (auto simp: fresh_ledger_def demo_pass_def)
qed

lemma count_turn_balance:
  fixes res :: "(meter_error, outcome) result" and resent :: bool
  assumes "rp_orgs rp = rp_stated rp + rp_unchanged rp + rp_frozen rp + rp_superseded rp + rp_failed rp"
  defines "rp' \<equiv> count_turn res resent (rp\<lparr>rp_orgs := rp_orgs rp + 1\<rparr>)"
  shows "rp_orgs rp' = rp_stated rp' + rp_unchanged rp' + rp_frozen rp' + rp_superseded rp' + rp_failed rp'"
    "rp_orgs rp' = rp_orgs rp + 1"
proof -
  consider e where "res = Inl e" | "res = Inr OutcomeStated" | "res = Inr OutcomeFrozen"
    | "res = Inr OutcomeSuperseded" | "res = Inr OutcomeUnchanged" by (cases res; metis outcome.exhaust)
  then show "rp_orgs rp' = rp_stated rp' + rp_unchanged rp' + rp_frozen rp' + rp_superseded rp' + rp_failed rp'"
    "rp_orgs rp' = rp_orgs rp + 1"
    unfolding rp'_def using assms(1) by (cases, simp_all add: count_turn_def Let_def)+
qed

lemma turns_balance:
  assumes "meter_turns env cancelled turns now n subs st rp = (st', rp', err)"
    and "rp_orgs rp = rp_stated rp + rp_unchanged rp + rp_frozen rp + rp_superseded rp + rp_failed rp"
  shows "rp_orgs rp' = rp_stated rp' + rp_unchanged rp' + rp_frozen rp' + rp_superseded rp' + rp_failed rp'
    \<and> rp_orgs rp' \<le> rp_orgs rp + length subs
    \<and> (err = None \<longrightarrow> rp_orgs rp' = rp_orgs rp + length subs \<and> rp_failed rp' = 0)"
  using assms
proof (induction subs arbitrary: st rp)
  case (Cons sub subs)
  obtain st1 res resent where turn: "meter_org env (turns (rp_orgs rp)) sub now st = (st1, res, resent)"
    by (metis prod_cases3)
  show ?case
  proof (cases "cancelled (rp_orgs rp)")
    case False
    define rp1 where "rp1 = count_turn res resent (rp\<lparr>rp_orgs := rp_orgs rp + 1\<rparr>)"
    have "meter_turns env cancelled turns now n subs st1 rp1 = (st', rp', err)"
      using Cons.prems(1) False turn by (simp add: rp1_def)
    from Cons.IH [OF this] count_turn_balance [OF Cons.prems(2), of res resent] show ?thesis
      unfolding rp1_def by auto
  qed (use Cons.prems in auto)
qed (auto split: if_splits)

text \<open>
  The pass accounts for every organization: each turn lands in exactly one of the five
  counters, no more turns are taken than subscriptions were listed, and a pass that returns
  no error took a turn for every one of them and none failed.
\<close>

theorem pass_accounts_for_orgs:
  assumes "meter_run env ps st = (st', rp, err)"
  shows "rp_orgs rp = rp_stated rp + rp_unchanged rp + rp_frozen rp + rp_superseded rp + rp_failed rp
    \<and> rp_orgs rp \<le> length (live_subs_for_meter (ps_listed ps) (me_provider env))
    \<and> (err = None \<longrightarrow> rp_orgs rp = length (live_subs_for_meter (ps_listed ps) (me_provider env)) \<and> rp_failed rp = 0)"
proof -
  have zero: "rp_orgs empty_meter_report = 0" "rp_failed empty_meter_report = 0" "rp_stated empty_meter_report = 0"
    "rp_unchanged empty_meter_report = 0" "rp_frozen empty_meter_report = 0" "rp_superseded empty_meter_report = 0"
    by (simp_all add: empty_meter_report_def)
  let ?subs = "live_subs_for_meter (ps_listed ps) (me_provider env)"
  obtain c where c: "check_usage_fresh (ps_fresh_fails ps) (ps_fresh ps) (ps_now ps) = c" by blast
  have "rp = empty_meter_report \<and> (err \<noteq> None \<or> ?subs = [])
      \<or> meter_turns env (ps_cancelled ps) (ps_turns ps) (ps_now ps) (length ?subs) ?subs st empty_meter_report = (st', rp, err)"
    using assms by (cases c) (auto simp: meter_run_def Let_def c split: if_splits)
  then consider "rp = empty_meter_report" "err \<noteq> None" | "rp = empty_meter_report" "?subs = []"
    | "meter_turns env (ps_cancelled ps) (ps_turns ps) (ps_now ps) (length ?subs) ?subs st empty_meter_report = (st', rp, err)"
    by blast
  then show ?thesis
  proof cases
    case 3
    have "rp_orgs empty_meter_report = rp_stated empty_meter_report + rp_unchanged empty_meter_report + rp_frozen empty_meter_report
        + rp_superseded empty_meter_report + rp_failed empty_meter_report" by (simp add: zero)
    from turns_balance [OF 3 this] show ?thesis unfolding zero(1) add_0 .
  qed (auto simp: zero)
qed

theorem pass_accounts_for_orgs_witness:
  "\<exists>st' rp err. meter_run demo_meter demo_pass fresh_ledger = (st', rp, err) \<and> rp_orgs rp \<le> 1
    \<and> rp_orgs rp = rp_stated rp + rp_unchanged rp + rp_frozen rp + rp_superseded rp + rp_failed rp"
proof -
  obtain st' rp err where run: "meter_run demo_meter demo_pass fresh_ledger = (st', rp, err)" by (metis prod_cases3)
  have "length (live_subs_for_meter (ps_listed demo_pass) (me_provider demo_meter)) \<le> 1"
    by (simp add: live_subs_for_meter_def demo_pass_def demo_metered_def)
  with pass_accounts_for_orgs [OF run] run show ?thesis by (meson le_trans)
qed

section \<open>One turn\<close>

lemma entitlement_no_panic: "validate_catalog cat = None \<Longrightarrow> get_entitlement flt cat cfg db org now \<noteq> Inl ErrPanic"
proof -
  assume cat: "validate_catalog cat = None"
  have none: "(resolve cat c rec sub now cfg = None) = False" for c rec sub
    using resolve_window [OF cat, of c rec sub now cfg] by auto
  then show ?thesis
    by (auto simp: get_entitlement_def read_live_subscription_def none split: if_splits option.splits sum.splits)
qed

lemma ingest_ack_error [simp]: "ingest_ack env fi fa org p now st \<noteq> (st', Some (MeterEntitlement x))"
  by (auto simp: ingest_ack_def ingest_def with_rows_def ack_def split: option.splits if_splits prod.splits fault.splits)

lemma write_errors [simp]:
  "advance f org s e t rows \<noteq> (rows', Some (MeterEntitlement x))"
  "write_ahead f orgs org p rows \<noteq> (rows', Some (MeterEntitlement x))"
  by (auto simp: advance_def write_ahead_def run_write_def split: sum.splits fault.splits)

lemma count_period_error: "count_period tn sub ps pe row ent a now rows \<noteq> Inl (MeterEntitlement x)"
  by (auto simp: count_period_def read_previous_period_def sum_usage_def carry_from_def Let_def
      split: sum.splits option.splits if_splits)

lemma state_period_error: "snd (state_period env tn sub ps pe row ent a now st) \<noteq> Inl (MeterEntitlement x)"
proof (cases "count_period tn sub ps pe row ent a now (ms_rows st)")
  case (Inl e)
  then show ?thesis using count_period_error [of tn sub ps pe row ent a now "ms_rows st" x] by (auto simp: state_period_def)
next
  case (Inr c)
  obtain win thru own carried where c: "c = (win, thru, own, carried)" by (metis prod_cases4)
  show ?thesis
  proof (cases "raise_counts row own carried")
    case (Some oc)
    obtain own1 carried1 where oc: "oc = (own1, carried1)" by fastforce
    obtain rows_a err_a where adv: "advance (tn_flt tn McAdvance) (sr_org sub) ps (wn_end win) thru (ms_rows st) = (rows_a, err_a)"
      by fastforce
    let ?p = "next_period sub ps win thru ent a own1 carried1 now"
    obtain rows_w err_w where wr: "write_ahead (tn_flt tn McWriteAhead) (bd_orgs (tn_billing tn)) (sr_org sub) ?p (ms_rows st) = (rows_w, err_w)"
      by fastforce
    obtain st2 err2 where ia: "ingest_ack env (tn_flt tn McIngest) (tn_flt tn McAck) (sr_org sub) ?p now (st\<lparr>ms_rows := rows_w\<rparr>) = (st2, err2)"
      by fastforce
    show ?thesis
      unfolding state_period_def Inr c sum.case prod.case Some oc option.case Let_def wr adv
      using adv wr ia
      by (cases err_a; cases err_w; cases err2) (auto simp: with_rows_def outcome_of_def)
  qed (simp add: state_period_def Inr c)
qed

lemma state_period_error' [simp]: "state_period env tn sub ps pe row ent a now st \<noteq> (st', Inl (MeterEntitlement x))"
  using state_period_error [of env tn sub ps pe row ent a now st x] by auto

text \<open>
  C10. A turn never panics: over a ledger the pass itself wrote and a catalog the wiring
  accepted, no slice is read past its end, no statement is found changed before its
  acknowledgement, and the entitlement resolves.
\<close>

theorem turn_never_panics:
  assumes "meter_inv st" "validate_catalog (me_catalog env) = None"
    and "meter_org env tn sub now st = (st', res, resent)"
  shows "res \<notin> {Inl MeterPanic, Inl AckLost, Inl (MeterEntitlement ErrPanic)}"
proof -
  have terms_ok: "terms env tn sub ps row now \<noteq> Inl (MeterEntitlement ErrPanic)" for ps row
    using entitlement_no_panic [OF assms(2)] by (auto simp: terms_def split: sum.splits option.splits if_splits)
  have "res \<noteq> Inl (MeterEntitlement ErrPanic)"
  proof (cases "\<exists>ps pe row. sr_start sub = Some ps \<and> sr_end sub = Some pe \<and> now < pe
      \<and> read_period (tn_flt tn McReadPeriod) (ms_rows st) (sr_org sub) ps = Inr row")
    case False
    then show ?thesis using assms(3) by (auto simp: meter_org_def read_period_def split: option.splits if_splits)
  next
    case True
    then obtain ps pe row where live: "sr_start sub = Some ps" "sr_end sub = Some pe" "now < pe"
      "read_period (tn_flt tn McReadPeriod) (ms_rows st) (sr_org sub) ps = Inr row" by blast
    obtain st1 r1 where re: "resend env tn (sr_org sub) row now st = (st1, r1)" by fastforce
    then have "r1 \<noteq> Inl (MeterEntitlement ErrPanic)"
      by (auto simp: resend_def split: option.splits prod.splits if_splits)
    then show ?thesis
      using assms(3) live re terms_ok [of ps row]
      by (auto simp: meter_org_def split: sum.splits prod.splits)
  qed
  with meter_org_sound [OF assms(1,3)] show ?thesis by simp
qed

theorem turn_never_panics_witness:
  "\<exists>st' res resent. meter_org demo_meter demo_turn demo_metered_sub (4 * day_ns) fresh_ledger = (st', res, resent)
    \<and> res \<notin> {Inl MeterPanic, Inl AckLost, Inl (MeterEntitlement ErrPanic)}"
proof -
  obtain st' res resent where run: "meter_org demo_meter demo_turn demo_metered_sub (4 * day_ns) fresh_ledger = (st', res, resent)"
    by (metis prod_cases3)
  have "validate_catalog (me_catalog demo_meter) = None" by (simp add: demo_meter_def catalog_valid)
  from turn_never_panics [OF fresh_inv this run] run show ?thesis by blast
qed

section \<open>The first statement of a period\<close>

lemma date_round [simp]: "new_date (date_time d) = d"
  by (simp add: new_date_def date_time_def)

lemma new_date_mono: "s \<le> t \<Longrightarrow> new_date s \<le> new_date t"
  unfolding new_date_def by (rule day_number_mono)

text \<open>The row a first statement leaves.\<close>

lemma state_period_first:
  assumes inv: "meter_inv st" and none: "find_period (ms_rows st) (sr_org sub) ps = None"
    and run: "state_period env tn sub ps pe None ent a now st = (st', res)"
    and row: "find_period (ms_rows st') (sr_org sub) ps = Some r"
  obtains win thru own carried b where
    "count_period tn sub ps pe None ent a now (ms_rows st) = Inr (win, thru, own, carried)"
    "r = (row_of_period (sr_org sub) (next_period sub ps win thru ent a own carried now))\<lparr>mr_acked := b\<rparr>"
proof (cases "count_period tn sub ps pe None ent a now (ms_rows st)")
  case (Inl e)
  with run none row show thesis by (simp add: state_period_def)
next
  case (Inr c)
  obtain win thru own carried where c: "c = (win, thru, own, carried)" by (metis prod_cases4)
  let ?p = "next_period sub ps win thru ent a own carried now"
  let ?r0 = "row_of_period (sr_org sub) ?p"
  obtain rows_w err_w where wr: "write_ahead (tn_flt tn McWriteAhead) (bd_orgs (tn_billing tn)) (sr_org sub) ?p (ms_rows st) = (rows_w, err_w)"
    by fastforce
  obtain st2 err2 where ia: "ingest_ack env (tn_flt tn McIngest) (tn_flt tn McAck) (sr_org sub) ?p now (st\<lparr>ms_rows := rows_w\<rparr>) = (st2, err2)"
    by fastforce
  have start: "mp_start ?p = ps" "mr_org ?r0 = sr_org sub" "mr_start ?r0 = ps" "mr_acked ?r0 = False"
    by (simp_all add: next_period_def row_of_period_def)
  have written: "rows_w = ms_rows st \<or> rows_w = put_meter ?r0 (ms_rows st)"
    using run_write_cases [OF wr [unfolded write_ahead_def]] none start
    by (auto simp: write_ahead_stmt_def split: if_splits)
  have found: "r = ?r0" if "find_period rows_w (sr_org sub) ps = Some r" for r
    using that written none start by (auto simp: find_put)
  have "st' = st\<lparr>ms_rows := rows_w\<rparr> \<or> err_w = None \<and> st' = st2"
    using run unfolding state_period_def Inr c sum.case prod.case raise_counts_def option.case Let_def wr
    by (auto simp: with_rows_def outcome_of_def ia split: option.splits)
  then have "\<exists>b. r = ?r0\<lparr>mr_acked := b\<rparr>"
  proof
    assume "st' = st\<lparr>ms_rows := rows_w\<rparr>"
    with row found have "r = ?r0\<lparr>mr_acked := False\<rparr>" using start by simp
    then show ?thesis ..
  next
    assume late: "err_w = None \<and> st' = st2"
    have up: "le_each (mr_own old) (mp_own ?p) \<and> le_each (mr_carry old) (mp_carry ?p)"
      if "find_period (ms_rows st) (sr_org sub) (mp_start ?p) = Some old" for old
      using that none start by simp
    note w = write_ahead_sound [OF inv wr up]
    have inv1: "meter_inv (st\<lparr>ms_rows := rows_w\<rparr>)" using w(1) inv by (simp add: sound_def)
    have holds: "row_holds (ms_rows (st\<lparr>ms_rows := rows_w\<rparr>)) (sr_org sub) ?p" using w(4) late by simp
    from ingest_ack_sound(4) [OF inv1 holds ia] row late start(1) found show ?thesis by auto
  qed
  with that Inr c show thesis by blast
qed

text \<open>
  No day is first stated twice: the window a period is first given starts no earlier than
  the days of every other period of the organization end, a renewal's at the end of its
  window and another subscription's at the last day it was seen live, unless it is empty; and
  the days it sums lie inside it.
\<close>

theorem first_window_follows:
  assumes "meter_inv st" "meter_org env tn sub now st = (st', res, resent)" "sr_start sub = Some ps"
    and "find_period (ms_rows st) (sr_org sub) ps = None" "find_period (ms_rows st') (sr_org sub) ps = Some r"
  shows "mr_wstart r \<le> mr_through r \<and> mr_through r \<le> mr_wend r
    \<and> (mr_wstart r = mr_wend r
        \<or> (\<forall>q\<in>set (ms_rows st). mr_org q = sr_org sub \<longrightarrow> previous_end (sr_sub sub) q \<le> mr_wstart r))"
proof -
  have "st \<noteq> st'" using assms(4,5) by auto
  then obtain pe ent a where sp: "state_period env tn sub ps pe None ent a now st = (st', res)"
    using assms(2-4) by (auto simp: meter_org_def read_period_def resend_def split: option.splits if_splits sum.splits prod.splits)
  from state_period_first [OF assms(1,4) sp assms(5)] obtain win thru own carried b where
    c: "count_period tn sub ps pe None ent a now (ms_rows st) = Inr (win, thru, own, carried)"
    and r: "r = (row_of_period (sr_org sub) (next_period sub ps win thru ent a own carried now))\<lparr>mr_acked := b\<rparr>" by blast
  note shape = count_period_shape [OF c]
  have cols: "mr_wstart r = new_date (wn_start win)" "mr_through r = new_date thru" "mr_wend r = new_date (wn_end win)"
    unfolding r by (simp_all add: row_of_period_def next_period_def)
  have "wn_start win \<le> thru" "thru \<le> wn_end win"
    using through_bounds [of win now] window_for_fields(2) unfolding shape(3,4) by simp_all
  then have inside: "mr_wstart r \<le> mr_through r" "mr_through r \<le> mr_wend r" unfolding cols by (simp_all add: new_date_mono)
  have "previous_end (sr_sub sub) q \<le> mr_wstart r"
    if q: "q \<in> set (ms_rows st)" "mr_org q = sr_org sub" and open_window: "mr_wstart r \<noteq> mr_wend r" for q
  proof -
    have other: "mr_start q \<noteq> ps"
      using q assms(1,4) find_period_some [of "ms_rows st" q] by (auto simp: meter_inv_def)
    with previous_row_none q obtain p where p: "previous_row (ms_rows st) (sr_org sub) ps (sr_sub sub) = Some p"
      by (cases "previous_row (ms_rows st) (sr_org sub) ps (sr_sub sub)") auto
    have "wn_start win = min (day pe) (max (day ps) (date_time (previous_end (sr_sub sub) p)))"
      unfolding shape(3) p by (simp add: window_for_new days_for_end)
    moreover have "wn_start win \<noteq> day pe"
      using open_window window_for_fields(1) unfolding cols shape(3) by metis
    ultimately have "date_time (previous_end (sr_sub sub) p) \<le> wn_start win" by (auto simp: min_def max_def split: if_splits)
    from new_date_mono [OF this] have "previous_end (sr_sub sub) p \<le> mr_wstart r" unfolding cols by simp
    with previous_row_latest(4) [OF p q other] show ?thesis by simp
  qed
  with inside show ?thesis by blast
qed

lemma put_fresh: "find_period rows (mr_org r) (mr_start r) = None \<Longrightarrow> put_meter r rows = rows @ [r]"
  by (induction rows) (auto simp: find_period_def meter_key_def split: if_splits)

lemma find_snoc: "find_period rows org ps = None \<Longrightarrow> find_period (rows @ [r]) org ps = (if meter_key r = (org, ps) then Some r else None)"
  by (induction rows) (auto simp: find_period_def)

lemma put_last:
  "find_period rows (mr_org r) (mr_start r) = None \<Longrightarrow> meter_key r' = meter_key r \<Longrightarrow> put_meter r' (rows @ [r]) = rows @ [r']"
  by (induction rows) (auto simp: find_period_def meter_key_def split: if_splits)

lemma sum_no_carry: "map2 (+) xs (replicate (length xs) 0) = (xs :: int list)"
  by (induction xs) simp_all

lemma sum_usage_works: "sum_usage Works db org s t = Inr (sum_org_days (ub_cells db) org (new_date s) (new_date t))"
proof (cases "s < t")
  case False
  then have "new_date t \<le> new_date s" by (simp add: new_date_mono)
  then have "sum_org_days (ub_cells db) org (new_date s) (new_date t) = 0"
    by (auto simp: sum_org_days_def in_days_def sum_list_eq_0_iff intro!: arg_cong [of _ "[]" sum_list] filter_False)
  with False show ?thesis by (simp add: sum_usage_def)
qed (simp add: sum_usage_def)

text \<open>The row and the statement of an org's first period.\<close>

definition first_count :: "usage_db \<Rightarrow> string \<Rightarrow> time \<Rightarrow> time \<Rightarrow> time \<Rightarrow> int" where
  "first_count usage org ps pe now =
     (let win = window_for ps pe None None
      in sum_org_days (ub_cells usage) org (new_date (wn_start win)) (new_date (through win now)))"

definition meterable :: "meter_env \<Rightarrow> turn \<Rightarrow> sub_row \<Rightarrow> time \<Rightarrow> entitlement \<Rightarrow> int \<Rightarrow> bool" where
  "meterable env tn sub now ent a =
     (get_entitlement (\<lambda>c. False) (me_catalog env) (me_config env) (tn_billing tn) (sr_org sub) now = Inr ent
      \<and> live (en_sub_status ent) \<and> en_sub ent = sr_sub sub \<and> Some (en_sub_start ent) = sr_start sub
      \<and> en_events ent = Some a \<and> 0 \<le> a \<and> en_tier_plan ent \<noteq> [] \<and> rune_count (en_tier_plan ent) \<le> 50
      \<and> sr_customer sub \<noteq> [] \<and> sr_sub sub \<noteq> [] \<and> bd_orgs (tn_billing tn) (sr_org sub) \<noteq> None)"

lemma first_turn:
  assumes "\<forall>c. tn_flt tn c = Works" "sr_start sub = Some ps" "sr_end sub = Some pe" "now < pe"
    and "\<forall>r\<in>set (ms_rows st). mr_org r \<noteq> sr_org sub" "meterable env tn sub now ent a"
  defines "tiers \<equiv> split_tiers (first_count (tn_usage tn) (sr_org sub) ps pe now) a (tier_bounds ent)"
  shows "\<exists>r s. meter_org env tn sub now st = (st\<lparr>ms_rows := ms_rows st @ [r], ms_sent := ms_sent st @ [s]\<rparr>, Inr OutcomeStated, False)
    \<and> us_tiers (sn_statement s) = tiers \<and> us_customer (sn_statement s) = sr_customer sub
    \<and> meter_key r = (sr_org sub, ps) \<and> mr_own r = tiers \<and> mr_acked r"
proof -
  have e: "get_entitlement (\<lambda>c. False) (me_catalog env) (me_config env) (tn_billing tn) (sr_org sub) now = Inr ent"
    "live (en_sub_status ent)" "en_sub ent = sr_sub sub" "en_sub_start ent = ps" "en_events ent = Some a" "en_tier_plan ent \<noteq> []"
    using assms(2,6) by (auto simp: meterable_def)
  have fresh: "find_period (ms_rows st) (sr_org sub) ps = None"
    using assms(5) find_period_key [of "ms_rows st" "sr_org sub" ps] by (cases "find_period (ms_rows st) (sr_org sub) ps") auto
  have no_prev: "previous_row (ms_rows st) (sr_org sub) ps (sr_sub sub) = None"
    using assms(5) by (auto simp: previous_row_def filter_empty_conv split: list.splits)
  define win where "win = window_for ps pe None None"
  define zeros where "zeros = replicate (length (tier_bounds ent) + 1) (0::int)"
  define p where "p = next_period sub ps win (through win now) ent a tiers zeros now"
  define r where "r = row_of_period (sr_org sub) p"
  have terms: "terms env tn sub ps None now = Inr (Inr (ent, a))"
    using assms(1) e by (simp add: terms_def)
  have count: "count_period tn sub ps pe None ent a now (ms_rows st) = Inr (win, through win now, tiers, zeros)"
    using assms(1) no_prev
    by (simp add: count_period_def read_previous_period_def sum_usage_works win_def tiers_def first_count_def zeros_def Let_def)
  have key: "mr_org r = sr_org sub" "mr_start r = ps" "mr_own r = tiers" "mr_carry r = zeros" "mp_start p = ps"
    "mr_stated_at r = mp_stated_at p" "mp_own p = tiers" "mp_carry p = zeros" "mp_customer p = sr_customer sub"
    by (simp_all add: r_def row_of_period_def p_def next_period_def)
  have win: "wn_start win \<le> through win now" "through win now \<le> wn_end win"
    using through_bounds [of win now] window_for_fields(2) by (simp_all add: win_def)
  have lens: "tiers \<noteq> []" "length tiers = length (tier_bounds ent) + 1" by (auto simp: tiers_def simp flip: length_0_conv)
  have row_ok: "meter_row_ok r"
    using assms(6) win lens split_nonneg
    by (auto simp: meter_row_ok_def r_def row_of_period_def p_def next_period_def meterable_def zeros_def tiers_def new_date_mono)
  have written: "write_ahead Works (bd_orgs (tn_billing tn)) (sr_org sub) p (ms_rows st) = (ms_rows st @ [r], None)"
    using row_ok fresh key assms(6) put_fresh [of "ms_rows st" r]
    by (auto simp: write_ahead_def run_write_def write_ahead_stmt_def meterable_def simp flip: r_def)
  have stated: "stated p = Some tiers"
    using lens sum_no_carry [of tiers] by (simp add: stated_def key sum_each_eq zeros_def)
  let ?r = "r\<lparr>mr_acked := True\<rparr>"
  have acked: "ack Works (sr_org sub) p (ms_rows st @ [r]) = (ms_rows st @ [?r], None)"
    using fresh key put_last [of "ms_rows st" r ?r] by (simp add: ack_def ack_stmt_def find_snoc meter_key_def)
  have quiet: "resend env tn (sr_org sub) None now st = (st, Inr False)" by (simp add: resend_def)
  have state: "state_period env tn sub ps pe None ent a now st
      = outcome_of OutcomeStated (ingest_ack env Works Works (sr_org sub) p now (st\<lparr>ms_rows := ms_rows st @ [r]\<rparr>))"
    using assms(1) written unfolding state_period_def count by (simp add: raise_counts_def with_rows_def Let_def flip: p_def)
  let ?s = "\<lparr>sn_org = sr_org sub, sn_start = ps, sn_statement = \<lparr>us_customer = sr_customer sub,
    us_event_id = event_id (me_sha256 env) (sr_org sub) ps tiers, us_at = now, us_tiers = tiers\<rparr>, sn_ok = True\<rparr>"
  show ?thesis
    using assms(1-4) fresh
    by (intro exI [of _ ?r] exI [of _ ?s]) (simp add: meter_org_def read_period_def quiet terms state ingest_ack_def
        ingest_def stated acked with_rows_def outcome_of_def key meter_key_def)
qed

text \<open>
  What a first statement says: when every call works, the turn of an organization with no
  ledger row yet and a live subscription the entitlement agrees on tells the provider the
  split, over the entitlement's tiers and allowance, of the events metered on the window's
  days so far, with nothing carried, and leaves one acknowledged row.
\<close>

theorem first_statement_is_split:
  assumes "\<forall>c. tn_flt tn c = Works" "sr_start sub = Some ps" "sr_end sub = Some pe" "now < pe"
    and "\<forall>r\<in>set (ms_rows st). mr_org r \<noteq> sr_org sub" "meterable env tn sub now ent a"
  defines "tiers \<equiv> split_tiers (first_count (tn_usage tn) (sr_org sub) ps pe now) a (tier_bounds ent)"
  shows "\<exists>r s. meter_org env tn sub now st = (st\<lparr>ms_rows := ms_rows st @ [r], ms_sent := ms_sent st @ [s]\<rparr>, Inr OutcomeStated, False)
    \<and> us_tiers (sn_statement s) = tiers \<and> us_customer (sn_statement s) = sr_customer sub
    \<and> meter_key r = (sr_org sub, ps) \<and> mr_own r = tiers \<and> mr_acked r"
  using first_turn [OF assms(1-6)] by (simp only: tiers_def)

text \<open>The demonstration org: its plan, and its first turn on the fourth day of its period.\<close>

definition demo_ent :: entitlement where
  "demo_ent = (case get_entitlement (\<lambda>c. False) catalog billing_on demo_metered ''o'' (4 * day_ns) of
     Inr ent \<Rightarrow> ent | Inl e \<Rightarrow> blank_entitlement 0 0 True)"

lemma demo_entitled:
  "get_entitlement (\<lambda>c. False) catalog billing_on demo_metered ''o'' (4 * day_ns) = Inr demo_ent"
  "en_events demo_ent = Some 100000" "en_tiers demo_ent = Some [2000000, 15000000, 50000000, 100000000, 250000000]"
  "en_tier_plan demo_ent = slug_usage" "en_sub_status demo_ent = ''active''" "en_sub demo_ent = ''s''" "en_sub_start demo_ent = 0"
proof -
  obtain w e where w: "period_for (4 * day_ns) (anchor_day 0 (er_anchor_day (effective empty_record))) = (w, e)"
    by (cases "period_for (4 * day_ns) (anchor_day 0 (er_anchor_day (effective empty_record)))")
  have on: "cfg_enabled billing_on" by (simp add: billing_on_def)
  have row: "get_live_row demo_metered ''o'' = Some demo_metered_sub"
    by (simp add: demo_metered_def get_live_row_def demo_metered_sub_def demo_live_row_def live_word_def)
  have read: "get_entitlement (\<lambda>c. False) catalog billing_on demo_metered ''o'' (4 * day_ns)
    = (case resolve catalog 0 empty_record (subscription_from_row demo_metered_sub) (4 * day_ns) billing_on of
        None \<Rightarrow> Inl ErrPanic | Some ent \<Rightarrow> Inr ent)"
    using row on by (simp add: get_entitlement_def read_live_subscription_def demo_metered_def demo_billing_def record_from_row_def)
  have parse: "parse_sub_status (sr_status demo_metered_sub) = Some ''active''"
    by (simp add: parse_iff demo_metered_sub_def demo_live_row_def all_sub_statuses_def sub_status_defs)
  define sub where "sub = \<lparr>sb_plan = slug_usage, sb_status = ''active'', sb_price = 0, sb_currency = USD, sb_customer = ''c'',
     sb_sub = ''s'', sb_start = 0, sb_end = 30 * day_ns, sb_grace = zero_time\<rparr>"
  have sub: "subscription_from_row demo_metered_sub = Some sub"
    unfolding subscription_from_row_def parse option.case sub_def by (simp add: demo_metered_sub_def demo_live_row_def time_of_def)
  have ds: "sb_plan sub \<noteq> slug_custom" "sb_plan sub = slug_usage" "sb_status sub = ''active''" "sb_sub sub = ''s''" "sb_start sub = 0"
    by (simp_all add: sub_def slug_defs)
  have live: "live_sub (Some sub) = Some sub" using ds by (simp add: live_sub_def live_iff)
  have eff: "effective empty_record = empty_record" by (simp add: effective_def)
  obtain pl where plan: "plan_by_slug catalog slug_usage = Some pl" "pl_slug pl = slug_usage" "pl_free pl = 100000"
    "pl_tiers pl = [2000000, 15000000, 50000000, 100000000, 250000000]"
    by (simp add: catalog_def)
  have resolved: "resolve_plan catalog (with_subscription (blank_entitlement w e True) sub) empty_record (Some sub)
      = Some (from_plan (with_subscription (blank_entitlement w e True) sub) (pl_slug pl) (pl_name pl) pl StatusActive, True)"
    using plan(1) ds(1) by (simp add: resolve_plan_def ds(2))
  have bare: "apply_overrides x empty_record y t = x" for x y t by (simp add: apply_overrides_def empty_record_def Let_def)
  have "\<exists>ent. resolve catalog 0 empty_record (subscription_from_row demo_metered_sub) (4 * day_ns) billing_on = Some ent
      \<and> en_events ent = Some 100000 \<and> en_tiers ent = Some [2000000, 15000000, 50000000, 100000000, 250000000]
      \<and> en_tier_plan ent = slug_usage \<and> en_sub_status ent = ''active'' \<and> en_sub ent = ''s'' \<and> en_sub_start ent = 0"
    unfolding sub resolve_on [OF on w] live eff option.case resolved
    using plan by (simp add: bare Let_def ds from_plan_def with_subscription_def)
  then obtain ent where ent: "resolve catalog 0 empty_record (subscription_from_row demo_metered_sub) (4 * day_ns) billing_on = Some ent"
    "en_events ent = Some 100000" "en_tiers ent = Some [2000000, 15000000, 50000000, 100000000, 250000000]"
    "en_tier_plan ent = slug_usage" "en_sub_status ent = ''active''" "en_sub ent = ''s''" "en_sub_start ent = 0" by blast
  then have "demo_ent = ent" by (simp add: demo_ent_def read)
  with ent read show "get_entitlement (\<lambda>c. False) catalog billing_on demo_metered ''o'' (4 * day_ns) = Inr demo_ent"
    "en_events demo_ent = Some 100000" "en_tiers demo_ent = Some [2000000, 15000000, 50000000, 100000000, 250000000]"
    "en_tier_plan demo_ent = slug_usage" "en_sub_status demo_ent = ''active''" "en_sub demo_ent = ''s''" "en_sub_start demo_ent = 0"
    by simp_all
qed

lemma demo_meterable: "meterable demo_meter demo_turn demo_metered_sub (4 * day_ns) demo_ent 100000"
  using demo_entitled
  by (simp add: meterable_def demo_meter_def demo_turn_def demo_metered_sub_def demo_live_row_def live_iff slug_defs
      demo_metered_def demo_billing_def demo_slug_lengths)

theorem first_statement_is_split_witness:
  "\<exists>r s. meter_org demo_meter demo_turn demo_metered_sub (4 * day_ns) fresh_ledger
      = (\<lparr>ms_rows = [r], ms_sent = [s]\<rparr>, Inr OutcomeStated, False)
    \<and> us_tiers (sn_statement s) = [150000, 0, 0, 0, 0, 0] \<and> meter_key r = (''o'', 0)"
proof -
  have sub: "sr_start demo_metered_sub = Some 0" "sr_end demo_metered_sub = Some (30 * day_ns)" "sr_org demo_metered_sub = ''o''"
    by (simp_all add: demo_metered_sub_def demo_live_row_def)
  have "first_count demo_cells ''o'' 0 (30 * day_ns) (4 * day_ns) = 250000"
    using day_midnight [of 0] day_midnight [of 30] day_midnight [of 4] day_ns_pos(1) day_number_mult [of 0] day_number_mult [of 5]
    by (simp add: first_count_def window_for_def Let_def through_eq demo_cells_def sum_org_days_def in_days_def new_date_def day_ns_val)
  moreover from this have "split_tiers 250000 100000 (tier_bounds demo_ent) = [150000, 0, 0, 0, 0, 0]"
    by (simp add: split_tiers_def tier_bounds_def demo_entitled Let_def)
  ultimately show ?thesis
    using first_statement_is_split [OF _ sub(1,2) _ _ demo_meterable, of fresh_ledger] sub(3)
    by (auto simp: demo_turn_def fresh_ledger_def day_ns_val)
qed

theorem first_window_follows_witness:
  "\<exists>st' r. fst (meter_org demo_meter demo_turn demo_metered_sub (4 * day_ns) fresh_ledger) = st'
    \<and> find_period (ms_rows st') ''o'' 0 = Some r \<and> mr_wstart r \<le> mr_through r \<and> mr_through r \<le> mr_wend r"
proof -
  have sub: "sr_start demo_metered_sub = Some 0" "sr_end demo_metered_sub = Some (30 * day_ns)" "sr_org demo_metered_sub = ''o''"
    by (simp_all add: demo_metered_sub_def demo_live_row_def)
  have good: "\<forall>c. tn_flt demo_turn c = Works" "4 * day_ns < 30 * day_ns" "\<forall>r\<in>set (ms_rows fresh_ledger). mr_org r \<noteq> sr_org demo_metered_sub"
    by (simp_all add: demo_turn_def day_ns_val fresh_ledger_def)
  obtain r s where run: "meter_org demo_meter demo_turn demo_metered_sub (4 * day_ns) fresh_ledger
      = (fresh_ledger\<lparr>ms_rows := ms_rows fresh_ledger @ [r], ms_sent := ms_sent fresh_ledger @ [s]\<rparr>, Inr OutcomeStated, False)"
      "meter_key r = (sr_org demo_metered_sub, 0)"
    using first_turn [OF good(1) sub(1,2) good(2,3) demo_meterable] by blast
  have found: "find_period (ms_rows (fresh_ledger\<lparr>ms_rows := ms_rows fresh_ledger @ [r], ms_sent := ms_sent fresh_ledger @ [s]\<rparr>))
      (sr_org demo_metered_sub) 0 = Some r"
    using run(2) by (simp add: fresh_ledger_def find_period_def)
  have "find_period (ms_rows fresh_ledger) (sr_org demo_metered_sub) 0 = None" by (simp add: fresh_ledger_def find_period_def)
  from first_window_follows [OF fresh_inv run(1) sub(1) this found] run(1) found sub(3) show ?thesis by auto
qed

end
