(* ===== verification/Roles.thy ===== *)
theory Roles
  imports Go_String
begin

text \<open>
  Org roles and the authorization policy: \<open>internal/core/orgs/role.go\<close> and
  \<open>internal/core/authz\<close>. The enforcer itself is the Casbin library, an argument here; what
  the code relies on is that an answer it gives is the one the model text describes
  (\<open>casbin_spec\<close>), and \<open>permitted\<close> is the matrix the policy is meant to be.
\<close>

section \<open>Roles\<close>

text \<open>A \<open>Role\<close> is a string; the recognized ones are the constructors.\<close>

datatype role = RoleViewer | RoleMember | RoleAdmin

definition role_string :: "role \<Rightarrow> string" where
  "role_string r = (case r of RoleAdmin \<Rightarrow> ''ORG_ROLE_ADMIN'' | RoleMember \<Rightarrow> ''ORG_ROLE_MEMBER''
     | RoleViewer \<Rightarrow> ''ORG_ROLE_VIEWER'')"

definition role_is_valid :: "string \<Rightarrow> bool" where
  "role_is_valid s = (s = role_string RoleAdmin \<or> s = role_string RoleMember \<or> s = role_string RoleViewer)"

definition parse_role :: "string \<Rightarrow> role option" where
  "parse_role s =
     (if \<not> role_is_valid s then None
      else if s = role_string RoleAdmin then Some RoleAdmin
      else if s = role_string RoleMember then Some RoleMember else Some RoleViewer)"

lemma role_string_simps:
  "role_string RoleAdmin = ''ORG_ROLE_ADMIN''" "role_string RoleMember = ''ORG_ROLE_MEMBER''"
  "role_string RoleViewer = ''ORG_ROLE_VIEWER''"
  by (simp_all add: role_string_def)

lemma role_string_inj [simp]: "role_string r = role_string s \<longleftrightarrow> r = s"
  by (cases r; cases s) (simp_all add: role_string_simps)

lemma role_valid_iff: "role_is_valid s \<longleftrightarrow> (\<exists>r. s = role_string r)"
  unfolding role_is_valid_def by (metis role.exhaust)

lemma parse_role_iff: "parse_role s = Some r \<longleftrightarrow> s = role_string r"
  by (cases r) (auto simp: parse_role_def role_is_valid_def)

lemma parse_role_none: "parse_role s = None \<longleftrightarrow> \<not> role_is_valid s"
  by (simp add: parse_role_def)

text \<open>Roles are ordered by what they inherit.\<close>

definition role_rank :: "role \<Rightarrow> nat" where
  "role_rank r = (case r of RoleViewer \<Rightarrow> 0 | RoleMember \<Rightarrow> 1 | RoleAdmin \<Rightarrow> 2)"

lemma role_rank_inj: "role_rank r = role_rank s \<Longrightarrow> r = s"
  by (cases r; cases s) (simp_all add: role_rank_def)

instantiation role :: linorder
begin

definition less_eq_role :: "role \<Rightarrow> role \<Rightarrow> bool" where
  "less_eq_role r s = (role_rank r \<le> role_rank s)"

definition less_role :: "role \<Rightarrow> role \<Rightarrow> bool" where
  "less_role r s = (role_rank r < role_rank s)"

instance
  by standard (auto simp: less_eq_role_def less_role_def role_rank_inj)

end

section \<open>Resources and actions\<close>

datatype resource =
    ResourceOrg | ResourceMember | ResourceInvitation | ResourceEmailProvider | ResourceProject | ResourceDomain
  | ResourceUsage | ResourceBilling | ResourceAPIKey | ResourceDashboard | ResourceInsight | ResourceActivity
  | ResourceProfile

datatype action = ActionCreate | ActionRead | ActionUpdate | ActionDelete

definition resource_string :: "resource \<Rightarrow> string" where
  "resource_string r = (case r of
     ResourceOrg \<Rightarrow> ''org'' | ResourceMember \<Rightarrow> ''member'' | ResourceInvitation \<Rightarrow> ''invitation''
   | ResourceEmailProvider \<Rightarrow> ''email_provider'' | ResourceProject \<Rightarrow> ''project'' | ResourceDomain \<Rightarrow> ''domain''
   | ResourceUsage \<Rightarrow> ''usage'' | ResourceBilling \<Rightarrow> ''billing'' | ResourceAPIKey \<Rightarrow> ''api_key''
   | ResourceDashboard \<Rightarrow> ''dashboard'' | ResourceInsight \<Rightarrow> ''insight'' | ResourceActivity \<Rightarrow> ''activity''
   | ResourceProfile \<Rightarrow> ''profile'')"

definition action_string :: "action \<Rightarrow> string" where
  "action_string a = (case a of ActionCreate \<Rightarrow> ''create'' | ActionRead \<Rightarrow> ''read''
     | ActionUpdate \<Rightarrow> ''update'' | ActionDelete \<Rightarrow> ''delete'')"

definition all_resources :: "resource list" where
  "all_resources = [ResourceOrg, ResourceMember, ResourceInvitation, ResourceEmailProvider,
     ResourceProject, ResourceDomain, ResourceUsage, ResourceBilling, ResourceAPIKey,
     ResourceDashboard, ResourceInsight, ResourceActivity, ResourceProfile]"

definition all_actions :: "action list" where
  "all_actions = [ActionCreate, ActionRead, ActionUpdate, ActionDelete]"

lemma all_resources_complete: "r \<in> set all_resources"
  by (cases r) (simp_all add: all_resources_def)

lemma all_actions_complete: "a \<in> set all_actions"
  by (cases a) (simp_all add: all_actions_def)

section \<open>The policy\<close>

type_synonym rule = "string \<times> string \<times> string"

definition crud_actions :: "action list" where
  "crud_actions = [ActionCreate, ActionRead, ActionUpdate, ActionDelete]"

definition grant :: "string \<Rightarrow> resource \<Rightarrow> action list \<Rightarrow> rule list" where
  "grant r res acts = map (\<lambda>a. (r, resource_string res, action_string a)) acts"

definition manage :: "string \<Rightarrow> resource list \<Rightarrow> rule list" where
  "manage r ress = concat (map (\<lambda>res. grant r res crud_actions) ress)"

definition read_rules :: "string \<Rightarrow> resource list \<Rightarrow> rule list" where
  "read_rules r ress = concat (map (\<lambda>res. grant r res [ActionRead]) ress)"

definition role_admin :: string where "role_admin = ''ORG_ROLE_ADMIN''"
definition role_member :: string where "role_member = ''ORG_ROLE_MEMBER''"
definition role_viewer :: string where "role_viewer = ''ORG_ROLE_VIEWER''"

lemmas policy_roles = role_admin_def role_member_def role_viewer_def

definition grouping_rules :: "(string \<times> string) list" where
  "grouping_rules = [(role_admin, role_member), (role_member, role_viewer)]"

definition build_policy_rules :: "rule list" where
  "build_policy_rules =
     read_rules role_viewer [ResourceDashboard, ResourceInsight, ResourceActivity, ResourceProfile, ResourceOrg,
       ResourceMember, ResourceProject, ResourceAPIKey, ResourceUsage, ResourceBilling]
     @ manage role_member [ResourceDashboard, ResourceInsight, ResourceActivity, ResourceProfile]
     @ manage role_admin [ResourceOrg, ResourceMember, ResourceInvitation, ResourceEmailProvider, ResourceProject,
         ResourceDomain]
     @ grant role_admin ResourceAPIKey [ActionCreate, ActionDelete]
     @ grant role_admin ResourceBilling [ActionCreate]"

section \<open>The model text\<close>

text \<open>
  \<open>g(r.sub, p.sub)\<close> holds of a role and itself, and along the grouping rules, which Casbin's
  role manager follows to depth 10; \<open>keyMatch\<close> is equality unless the pattern has a \<open>*\<close>,
  where what stands before it must match.
\<close>

fun has_link :: "(string \<times> string) list \<Rightarrow> nat \<Rightarrow> string \<Rightarrow> string \<Rightarrow> bool" where
  "has_link groups 0 s t = (s = t)"
| "has_link groups (Suc depth) s t = (s = t \<or> list_ex (\<lambda>(a, b). a = s \<and> has_link groups depth b t) groups)"

definition key_match :: "string \<Rightarrow> string \<Rightarrow> bool" where
  "key_match k pat =
     (if CHR ''*'' \<notin> set pat then k = pat
      else let i = length (takeWhile (\<lambda>c. c \<noteq> CHR ''*'') pat)
           in if length k > i then take i k = take i pat else k = take i pat)"

definition model_allows :: "rule list \<Rightarrow> (string \<times> string) list \<Rightarrow> string \<Rightarrow> string \<Rightarrow> string \<Rightarrow> bool" where
  "model_allows rules groups sub obj act =
     list_ex (\<lambda>(psub, pobj, pact). has_link groups 10 sub psub \<and> key_match obj pobj \<and> act = pact) rules"

section \<open>The authorizer\<close>

text \<open>An enforcer over a policy; \<open>None\<close> is an enforcement failure.\<close>

type_synonym casbin = "rule list \<Rightarrow> (string \<times> string) list \<Rightarrow> string \<Rightarrow> string \<Rightarrow> string \<Rightarrow> bool option"

definition casbin_spec :: "casbin \<Rightarrow> bool" where
  "casbin_spec enforce = (\<forall>rules groups sub obj act b.
     enforce rules groups sub obj act = Some b \<longrightarrow> b = model_allows rules groups sub obj act)"

definition authorize :: "casbin \<Rightarrow> string \<Rightarrow> resource \<Rightarrow> action \<Rightarrow> bool option" where
  "authorize enforce r res act =
     enforce build_policy_rules grouping_rules r (resource_string res) (action_string act)"

text \<open>The matrix the policy stands for.\<close>

definition project_data :: "resource \<Rightarrow> bool" where
  "project_data res = (res \<in> {ResourceDashboard, ResourceInsight, ResourceActivity, ResourceProfile})"

definition admin_only :: "resource \<Rightarrow> bool" where
  "admin_only res = (res \<in> {ResourceInvitation, ResourceEmailProvider, ResourceDomain})"

definition permitted :: "role \<Rightarrow> resource \<Rightarrow> action \<Rightarrow> bool" where
  "permitted r res act =
     (if project_data res then act = ActionRead \<or> RoleMember \<le> r
      else if admin_only res then r = RoleAdmin
      else act = ActionRead \<or> r = RoleAdmin
             \<and> (res \<in> {ResourceOrg, ResourceMember, ResourceProject}
                \<or> res = ResourceAPIKey \<and> act \<in> {ActionCreate, ActionDelete}
                \<or> res = ResourceBilling \<and> act = ActionCreate))"

lemma permitted_mono: "permitted r res act \<Longrightarrow> r \<le> s \<Longrightarrow> permitted s res act"
  by (cases r; cases s) (auto simp: permitted_def less_eq_role_def role_rank_def split: if_splits)

lemma viewer_reads: "permitted RoleViewer res act \<Longrightarrow> act = ActionRead"
  by (auto simp: permitted_def less_eq_role_def role_rank_def split: if_splits)

text \<open>The policy over roles, resources and actions instead of their names.\<close>

definition typed_policy :: "(role \<times> resource \<times> action) list" where
  "typed_policy =
     concat (map (\<lambda>res. [(RoleViewer, res, ActionRead)]) [ResourceDashboard, ResourceInsight, ResourceActivity,
       ResourceProfile, ResourceOrg, ResourceMember, ResourceProject, ResourceAPIKey, ResourceUsage, ResourceBilling])
     @ concat (map (\<lambda>res. map (\<lambda>a. (RoleMember, res, a)) crud_actions)
         [ResourceDashboard, ResourceInsight, ResourceActivity, ResourceProfile])
     @ concat (map (\<lambda>res. map (\<lambda>a. (RoleAdmin, res, a)) crud_actions)
         [ResourceOrg, ResourceMember, ResourceInvitation, ResourceEmailProvider, ResourceProject, ResourceDomain])
     @ [(RoleAdmin, ResourceAPIKey, ActionCreate), (RoleAdmin, ResourceAPIKey, ActionDelete),
        (RoleAdmin, ResourceBilling, ActionCreate)]"

lemma policy_typed:
  "build_policy_rules = map (\<lambda>(r, res, a). (role_string r, resource_string res, action_string a)) typed_policy"
  by (simp add: build_policy_rules_def read_rules_def manage_def grant_def typed_policy_def policy_roles role_string_simps
      crud_actions_def)

lemma resource_string_inj [simp]: "resource_string r = resource_string s \<longleftrightarrow> r = s"
  by (cases r; cases s) (simp_all add: resource_string_def)

lemma action_string_inj [simp]: "action_string a = action_string b \<longleftrightarrow> a = b"
  by (cases a; cases b) (simp_all add: action_string_def)

lemma plain_pattern: "key_match k (resource_string res) \<longleftrightarrow> k = resource_string res"
  by (cases res) (simp_all add: key_match_def resource_string_def)

lemma groups_typed: "grouping_rules = [(role_string RoleAdmin, role_string RoleMember), (role_string RoleMember, role_string RoleViewer)]"
  by (simp add: grouping_rules_def policy_roles role_string_simps)

lemma links_deep: "has_link grouping_rules (Suc (Suc (Suc k))) (role_string r) (role_string p) \<longleftrightarrow> p \<le> r"
proof -
  have leaf: "has_link grouping_rules k (role_string RoleViewer) (role_string p) \<longleftrightarrow> p = RoleViewer" for k p
    by (cases k) (auto simp: groups_typed)
  show ?thesis
    by (cases r; cases p) (simp_all add: groups_typed leaf [unfolded groups_typed] less_eq_role_def role_rank_def)
qed

lemma links_are_order: "has_link grouping_rules 10 (role_string r) (role_string p) \<longleftrightarrow> p \<le> r"
  using links_deep [of 7] by (simp add: eval_nat_numeral)

lemma policy_is_matrix:
  "model_allows build_policy_rules grouping_rules (role_string r) (resource_string res) (action_string act)
     = permitted r res act"
proof -
  have "model_allows build_policy_rules grouping_rules (role_string r) (resource_string res) (action_string act)
      = list_ex (\<lambda>(p, s, a). p \<le> r \<and> res = s \<and> act = a) typed_policy"
    unfolding model_allows_def policy_typed by (simp add: list_ex_iff case_prod_unfold plain_pattern links_are_order)
  also have "\<dots> = permitted r res act"
    by (cases res; cases act) (auto simp: typed_policy_def crud_actions_def permitted_def project_data_def admin_only_def
        less_eq_role_def role_rank_def split: role.splits)
  finally show ?thesis .
qed

lemma policy_subjects: "(psub, pobj, pact) \<in> set build_policy_rules \<Longrightarrow> role_is_valid psub"
  by (auto simp: policy_typed role_valid_iff)

lemma unknown_role_links: "\<not> role_is_valid s \<Longrightarrow> has_link grouping_rules k s t \<Longrightarrow> t = s"
  by (cases k) (auto simp: groups_typed role_valid_iff)

lemma unknown_role_denied: "\<not> role_is_valid s \<Longrightarrow> \<not> model_allows build_policy_rules grouping_rules s obj act"
  using policy_subjects unknown_role_links by (fastforce simp: model_allows_def list_ex_iff)

section \<open>Properties\<close>

text \<open>
  C11. The policy is the matrix it is meant to be: an answer of an enforcer that follows the
  model text permits a recognized role exactly what \<open>permitted\<close> does, so a higher role is
  never refused what a lower one may do and a viewer only reads, and an unrecognized role is
  refused everything.
\<close>

theorem policy_permits_matrix:
  assumes "casbin_spec enforce" "authorize enforce who res act = Some b"
  shows "b = (case parse_role who of None \<Rightarrow> False | Some r \<Rightarrow> permitted r res act)"
proof -
  have b: "b = model_allows build_policy_rules grouping_rules who (resource_string res) (action_string act)"
    using assms unfolding casbin_spec_def authorize_def by blast
  show ?thesis
  proof (cases "parse_role who")
    case None
    then have "\<not> role_is_valid who" by (simp add: parse_role_none)
    then show ?thesis using b None unknown_role_denied by simp
  next
    case (Some r)
    then have "who = role_string r" by (simp add: parse_role_iff)
    with Some b policy_is_matrix show ?thesis by simp
  qed
qed

text \<open>An enforcer that always answers, for the demonstrations.\<close>

definition answering :: casbin where
  "answering rules groups sub obj act = Some (model_allows rules groups sub obj act)"

lemma answering_follows: "casbin_spec answering"
  by (simp add: casbin_spec_def answering_def)

theorem policy_permits_matrix_witness:
  "authorize answering (role_string RoleViewer) ResourceBilling ActionCreate = Some False"
proof -
  obtain b where b: "authorize answering (role_string RoleViewer) ResourceBilling ActionCreate = Some b"
    by (simp add: authorize_def answering_def)
  have "parse_role (role_string RoleViewer) = Some RoleViewer" by (simp add: parse_role_iff)
  with policy_permits_matrix [OF answering_follows b] b show ?thesis
    by (simp add: permitted_def project_data_def admin_only_def)
qed

end
