(* ===== verification/Permission.thy ===== *)
theory Permission
  imports Roles
begin

text \<open>
  The authorization gate of the RPC server: the decision recorded for each procedure
  (\<open>internal/app/server/rpc/authzspec\<close>, \<open>authz_registry.go\<close>), and the interceptor that
  enforces it (\<open>authz_interceptor.go\<close>, \<open>authz_require.go\<close>). The enforcer, the role lookup and
  the case folding of non-ASCII letters are arguments. A refusal is the error the interceptor
  returns; \<open>None\<close> is the call reaching its handler.
\<close>

section \<open>Specs\<close>

datatype spec_kind = KindUnset | KindPublic | KindSelfRead | KindSelfWrite | KindRoleGated | KindProject | KindSDKKey

datatype org_source = OrgFromMessage | OrgFromProject

text \<open>The zero resource, action and source are \<open>None\<close>; the note is documentation.\<close>

record spec =
  sp_kind :: spec_kind
  sp_resource :: "resource option"
  sp_action :: "action option"
  sp_source :: "org_source option"

definition plain_spec :: "spec_kind \<Rightarrow> spec" where
  "plain_spec k = \<lparr>sp_kind = k, sp_resource = None, sp_action = None, sp_source = None\<rparr>"

definition public_spec :: spec where "public_spec = plain_spec KindPublic"
definition self_read :: spec where "self_read = plain_spec KindSelfRead"
definition self_write :: spec where "self_write = plain_spec KindSelfWrite"
definition project_spec :: spec where "project_spec = plain_spec KindProject"
definition sdk_key :: spec where "sdk_key = plain_spec KindSDKKey"

definition org_gated :: "resource \<Rightarrow> action \<Rightarrow> spec" where
  "org_gated res act = \<lparr>sp_kind = KindRoleGated, sp_resource = Some res, sp_action = Some act, sp_source = Some OrgFromMessage\<rparr>"

definition proj_gated :: "resource \<Rightarrow> action \<Rightarrow> spec" where
  "proj_gated res act = \<lparr>sp_kind = KindRoleGated, sp_resource = Some res, sp_action = Some act, sp_source = Some OrgFromProject\<rparr>"

lemmas spec_ctors = public_spec_def self_read_def self_write_def project_spec_def sdk_key_def plain_spec_def
  org_gated_def proj_gated_def

definition spec_defined :: "spec \<Rightarrow> bool" where
  "spec_defined s = (sp_kind s \<noteq> KindUnset)"

definition is_role_gated :: "spec \<Rightarrow> bool" where
  "is_role_gated s = (sp_kind s = KindRoleGated)"

definition is_self_write :: "spec \<Rightarrow> bool" where
  "is_self_write s = (sp_kind s = KindSelfWrite)"

definition is_project_scoped :: "spec \<Rightarrow> bool" where
  "is_project_scoped s = (sp_kind s = KindProject \<or> sp_kind s = KindSDKKey \<or> sp_source s = Some OrgFromProject)"

section \<open>The registry\<close>

definition permission_registry :: "(string \<times> spec) list" where
  "permission_registry = [
     (''/public.auth.v1.AuthService/SignInWithEmail'', public_spec),
     (''/public.auth.v1.AuthService/RequestMagicLink'', public_spec),
     (''/public.auth.v1.AuthService/CompleteMagicLink'', public_spec),
     (''/public.auth.v1.AuthService/CompleteOIDCSignIn'', public_spec),
     (''/public.auth.v1.AuthService/GetAuthConfig'', public_spec),
     (''/public.auth.v1.AuthService/RefreshSession'', public_spec),
     (''/public.auth.v1.AuthService/SignOut'', public_spec),
     (''/public.auth.v1.AuthService/DiscoverSignIn'', public_spec),
     (''/public.auth.v1.AuthService/DemoSignIn'', public_spec),
     (''/public.dashboards.v1.SharedDashboardsService/Query'', public_spec),
     (''/dashboard.orgs.v1.OrgsService/List'', self_read),
     (''/dashboard.orgs.v1.OrgsService/Create'', self_write),
     (''/dashboard.orgs.v1.OrgsService/Leave'', self_write),
     (''/dashboard.orgs.v1.OrgsService/Get'', org_gated ResourceOrg ActionRead),
     (''/dashboard.orgs.v1.OrgsService/ListMembers'', org_gated ResourceMember ActionRead),
     (''/dashboard.orgs.v1.OrgsService/UpdateDisplayName'', org_gated ResourceOrg ActionUpdate),
     (''/dashboard.orgs.v1.OrgsService/InviteMember'', org_gated ResourceInvitation ActionCreate),
     (''/dashboard.orgs.v1.OrgsService/ResendInvite'', org_gated ResourceInvitation ActionUpdate),
     (''/dashboard.orgs.v1.OrgsService/RevokeInvite'', org_gated ResourceInvitation ActionDelete),
     (''/dashboard.orgs.v1.OrgsService/ListInvitations'', org_gated ResourceInvitation ActionRead),
     (''/dashboard.orgs.v1.OrgsService/RemoveMember'', org_gated ResourceMember ActionDelete),
     (''/dashboard.orgs.v1.OrgsService/UpdateMemberRole'', org_gated ResourceMember ActionUpdate),
     (''/dashboard.orgs.v1.OrgsService/ListDomains'', org_gated ResourceDomain ActionRead),
     (''/dashboard.orgs.v1.OrgsService/SetDomainSettings'', org_gated ResourceDomain ActionUpdate),
     (''/dashboard.orgs.v1.OrgsService/AddDomain'', org_gated ResourceDomain ActionCreate),
     (''/dashboard.orgs.v1.OrgsService/VerifyDomain'', org_gated ResourceDomain ActionUpdate),
     (''/dashboard.orgs.v1.OrgsService/RemoveDomain'', org_gated ResourceDomain ActionDelete),
     (''/dashboard.orgs.v1.OrgsService/UpdateDomain'', org_gated ResourceDomain ActionUpdate),
     (''/dashboard.orgs.v1.OrgsService/ListSSOConnections'', org_gated ResourceDomain ActionRead),
     (''/dashboard.orgs.v1.OrgsService/SetSSOConnection'', org_gated ResourceDomain ActionUpdate),
     (''/dashboard.orgs.v1.OrgsService/DeleteSSOConnection'', org_gated ResourceDomain ActionDelete),
     (''/dashboard.projects.v1.ProjectsService/BatchGet'', org_gated ResourceProject ActionRead),
     (''/dashboard.projects.v1.ProjectsService/Create'', org_gated ResourceProject ActionCreate),
     (''/dashboard.projects.v1.ProjectsService/Get'', project_spec),
     (''/dashboard.projects.v1.ProjectsService/Delete'', proj_gated ResourceProject ActionDelete),
     (''/dashboard.projects.v1.ProjectsService/UpdateMeta'', proj_gated ResourceProject ActionUpdate),
     (''/dashboard.projects.v1.ProjectsService/UpdateFCMServiceJSON'', proj_gated ResourceProject ActionUpdate),
     (''/dashboard.projects.v1.ProjectsService/ListApiKeys'', proj_gated ResourceAPIKey ActionRead),
     (''/dashboard.projects.v1.ProjectsService/CreateApiKey'', proj_gated ResourceAPIKey ActionCreate),
     (''/dashboard.projects.v1.ProjectsService/DeleteApiKey'', proj_gated ResourceAPIKey ActionDelete),
     (''/dashboard.dashboards.v1.DashboardsService/Get'', proj_gated ResourceDashboard ActionRead),
     (''/dashboard.dashboards.v1.DashboardsService/List'', proj_gated ResourceDashboard ActionRead),
     (''/dashboard.dashboards.v1.DashboardsService/QueryDashboard'', proj_gated ResourceDashboard ActionRead),
     (''/dashboard.dashboards.v1.DashboardsService/Create'', proj_gated ResourceDashboard ActionCreate),
     (''/dashboard.dashboards.v1.DashboardsService/Update'', proj_gated ResourceDashboard ActionUpdate),
     (''/dashboard.dashboards.v1.DashboardsService/Delete'', proj_gated ResourceDashboard ActionDelete),
     (''/dashboard.dashboards.v1.DashboardsService/Upsert'', proj_gated ResourceDashboard ActionUpdate),
     (''/dashboard.orgemailproviders.v1.OrgEmailProvidersService/Get'', org_gated ResourceEmailProvider ActionRead),
     (''/dashboard.orgemailproviders.v1.OrgEmailProvidersService/Set'', org_gated ResourceEmailProvider ActionUpdate),
     (''/dashboard.orgemailproviders.v1.OrgEmailProvidersService/Remove'', org_gated ResourceEmailProvider ActionDelete),
     (''/dashboard.orgemailproviders.v1.OrgEmailProvidersService/SendTest'', org_gated ResourceEmailProvider ActionUpdate),
     (''/dashboard.usage.v1.UsageService/GetUsage'', org_gated ResourceUsage ActionRead),
     (''/dashboard.billing.v1.BillingService/GetBillingStatus'', org_gated ResourceBilling ActionRead),
     (''/dashboard.billing.v1.BillingService/ListPlans'', org_gated ResourceBilling ActionRead),
     (''/dashboard.billing.v1.BillingService/CreateCheckoutSession'', org_gated ResourceBilling ActionCreate),
     (''/dashboard.billing.v1.BillingService/CreatePortalSession'', org_gated ResourceBilling ActionCreate),
     (''/dashboard.billing.v1.BillingService/ConfirmCheckout'', org_gated ResourceBilling ActionCreate),
     (''/dashboard.customers.v1.CustomersService/GetMe'', self_read),
     (''/dashboard.customers.v1.CustomersService/SetPassword'', self_write),
     (''/shared.insights.v1.InsightsService/Query'', proj_gated ResourceInsight ActionRead),
     (''/shared.insights.v1.InsightsService/SegmentUsers'', proj_gated ResourceInsight ActionRead),
     (''/shared.insights.v1.InsightsService/GetFilterSchema'', proj_gated ResourceInsight ActionRead),
     (''/shared.insights.v1.InsightsService/GetPropertyValues'', proj_gated ResourceInsight ActionRead),
     (''/shared.activity.v1.ActivityService/GetActivityFeed'', proj_gated ResourceActivity ActionRead),
     (''/shared.activity.v1.ActivityService/GetEventExplorer'', proj_gated ResourceActivity ActionRead),
     (''/shared.activity.v1.ActivityService/GetFilterSchema'', proj_gated ResourceActivity ActionRead),
     (''/shared.activity.v1.ActivityService/GetPropertyValues'', proj_gated ResourceActivity ActionRead),
     (''/shared.activity.v1.ActivityService/GetActivityHeatmap'', proj_gated ResourceActivity ActionRead),
     (''/shared.activity.v1.ActivityService/GetProfileSessions'', proj_gated ResourceActivity ActionRead),
     (''/shared.activity.v1.ActivityService/GetProfileStats'', proj_gated ResourceActivity ActionRead),
     (''/shared.profiles.v1.ProfilesService/Get'', proj_gated ResourceProfile ActionRead),
     (''/shared.profiles.v1.ProfilesService/GetByExternalId'', proj_gated ResourceProfile ActionRead),
     (''/shared.profiles.v1.ProfilesService/List'', proj_gated ResourceProfile ActionRead),
     (''/shared.profiles.v1.ProfilesService/GetDeletionRequest'', proj_gated ResourceProfile ActionRead),
     (''/shared.profiles.v1.ProfilesService/Delete'', proj_gated ResourceProfile ActionDelete),
     (''/shared.profiles.v1.ProfilesService/DeleteDataSubject'', proj_gated ResourceProfile ActionDelete),
     (''/sdk.profiles.v1.ProfilesSDKService/Identify'', sdk_key),
     (''/sdk.profiles.v1.ProfilesSDKService/BatchIdentify'', sdk_key),
     (''/sdk.events.v1.EventsService/BatchCreate'', sdk_key)]"

definition registry_spec :: "string \<Rightarrow> spec option" where
  "registry_spec proc = map_of permission_registry proc"

section \<open>The gate\<close>

text \<open>The authenticated caller: the customer's id and email, and the org of the project the call names.\<close>

record principal =
  pn_customer :: "(string \<times> string) option"
  pn_project :: "string option"

datatype refusal = Unauthenticated | NotAMember | RoleForbidden | DemoReadOnly | InternalError

datatype lookup_error = MemberNotFound | LookupFailed

type_synonym role_lookup = "string \<Rightarrow> string \<Rightarrow> (lookup_error, role) result"

definition demo_viewer_email :: string where "demo_viewer_email = ''snoop@pug.sh''"
definition demo_user_email :: string where "demo_user_email = ''woof@pug.sh''"

text \<open>
  \<open>strings.EqualFold\<close>: runes compare by a representative of their fold orbit. The orbits that
  reach ASCII letters are written out; \<open>uni\<close> represents the others.
\<close>

definition fold_rune :: "(nat \<Rightarrow> nat) \<Rightarrow> nat \<Rightarrow> nat" where
  "fold_rune uni r =
     (if 65 \<le> r \<and> r \<le> 90 then r + 32 else if r < 128 then r
      else if r = 0x17F then 115 else if r = 0x212A then 107 else uni r)"

definition equal_fold :: "(nat \<Rightarrow> nat) \<Rightarrow> string \<Rightarrow> string \<Rightarrow> bool" where
  "equal_fold uni s t = (map (fold_rune uni) (runes s) = map (fold_rune uni) (runes t))"

definition is_demo_account :: "(nat \<Rightarrow> nat) \<Rightarrow> string \<Rightarrow> bool" where
  "is_demo_account uni email = (equal_fold uni email demo_viewer_email \<or> equal_fold uni email demo_user_email)"

definition principal_with_customer :: "principal option \<Rightarrow> (refusal, principal) result" where
  "principal_with_customer ctx =
     (case ctx of
        None \<Rightarrow> Inl Unauthenticated
      | Some p \<Rightarrow> if pn_customer p = None then Inl Unauthenticated else Inr p)"

definition require_permission :: "casbin \<Rightarrow> (nat \<Rightarrow> nat) \<Rightarrow> role_lookup \<Rightarrow> principal option \<Rightarrow> string \<Rightarrow> resource \<Rightarrow> action
    \<Rightarrow> refusal option" where
  "require_permission enforce uni lookup ctx org res act =
     (case principal_with_customer ctx of
        Inl e \<Rightarrow> Some e
      | Inr p \<Rightarrow>
          (case pn_customer p of
             None \<Rightarrow> Some Unauthenticated
           | Some (cid, email) \<Rightarrow>
               (case lookup org cid of
                  Inl MemberNotFound \<Rightarrow> Some NotAMember
                | Inl LookupFailed \<Rightarrow> Some InternalError
                | Inr stored \<Rightarrow>
                    let r = (if is_demo_account uni email then RoleViewer else stored)
                    in case authorize enforce (role_string r) res act of
                         None \<Rightarrow> Some InternalError
                       | Some ok \<Rightarrow> if ok then None else Some RoleForbidden)))"

definition resolve_org_id :: "string option \<Rightarrow> principal \<Rightarrow> org_source option \<Rightarrow> (refusal, string) result" where
  "resolve_org_id message_org p src =
     (case src of
        Some OrgFromProject \<Rightarrow> (case pn_project p of None \<Rightarrow> Inl Unauthenticated | Some org \<Rightarrow> Inr org)
      | Some OrgFromMessage \<Rightarrow> (case message_org of None \<Rightarrow> Inl InternalError | Some org \<Rightarrow> Inr org)
      | None \<Rightarrow> Inl InternalError)"

text \<open>A gated spec carries a resource and an action (\<open>registry_spec_well_formed\<close>), so the last case is not reached.\<close>

definition authorize_role_gated :: "casbin \<Rightarrow> (nat \<Rightarrow> nat) \<Rightarrow> role_lookup \<Rightarrow> principal option \<Rightarrow> string option \<Rightarrow> spec
    \<Rightarrow> refusal option" where
  "authorize_role_gated enforce uni lookup ctx message_org spec =
     (case ctx of
        None \<Rightarrow> Some Unauthenticated
      | Some p \<Rightarrow>
          if pn_customer p = None then
            (if sp_source spec = Some OrgFromProject \<and> pn_project p \<noteq> None then None else Some NotAMember)
          else (case resolve_org_id message_org p (sp_source spec) of
                  Inl e \<Rightarrow> Some e
                | Inr org \<Rightarrow>
                    (case (sp_resource spec, sp_action spec) of
                       (Some res, Some act) \<Rightarrow> require_permission enforce uni lookup ctx org res act
                     | _ \<Rightarrow> Some RoleForbidden)))"

definition is_demo_caller :: "(nat \<Rightarrow> nat) \<Rightarrow> principal option \<Rightarrow> bool" where
  "is_demo_caller uni ctx =
     (case principal_with_customer ctx of
        Inl e \<Rightarrow> False
      | Inr p \<Rightarrow> (case pn_customer p of None \<Rightarrow> False | Some (cid, email) \<Rightarrow> is_demo_account uni email))"

definition intercept :: "casbin \<Rightarrow> (nat \<Rightarrow> nat) \<Rightarrow> role_lookup \<Rightarrow> string \<Rightarrow> principal option \<Rightarrow> string option \<Rightarrow> refusal option" where
  "intercept enforce uni lookup proc ctx message_org =
     (case registry_spec proc of
        None \<Rightarrow> Some InternalError
      | Some spec \<Rightarrow>
          if \<not> is_role_gated spec then
            (if is_self_write spec \<and> is_demo_caller uni ctx then Some DemoReadOnly else None)
          else authorize_role_gated enforce uni lookup ctx message_org spec)"

section \<open>The registry's shape\<close>

definition well_formed_spec :: "spec \<Rightarrow> bool" where
  "well_formed_spec s =
     (spec_defined s \<and> is_role_gated s = (sp_resource s \<noteq> None) \<and> is_role_gated s = (sp_action s \<noteq> None)
      \<and> is_role_gated s = (sp_source s \<noteq> None))"

lemma ctors_well_formed [simp]:
  "well_formed_spec public_spec" "well_formed_spec self_read" "well_formed_spec self_write" "well_formed_spec project_spec"
  "well_formed_spec sdk_key" "well_formed_spec (org_gated r a)" "well_formed_spec (proj_gated r a)"
  by (simp_all add: well_formed_spec_def spec_defined_def is_role_gated_def spec_ctors)

lemma registry_specs: "list_all well_formed_spec (map snd permission_registry)"
  by (simp add: permission_registry_def)

lemma registry_spec_well_formed: "registry_spec proc = Some s \<Longrightarrow> well_formed_spec s"
proof -
  assume "registry_spec proc = Some s"
  then have "s \<in> snd ` set permission_registry" unfolding registry_spec_def by (metis map_of_SomeD image_eqI snd_conv)
  with registry_specs show ?thesis by (auto simp: list_all_iff)
qed

section \<open>Properties\<close>

lemma gate_needs_role:
  assumes "casbin_spec enforce" "registry_spec proc = Some s" "is_role_gated s" "ctx = Some p" "pn_customer p = Some (cid, email)"
    and "intercept enforce uni lookup proc ctx message_org = None"
  obtains org stored res act where "resolve_org_id message_org p (sp_source s) = Inr org" "lookup org cid = Inr stored"
    "sp_resource s = Some res" "sp_action s = Some act"
    "permitted (if is_demo_account uni email then RoleViewer else stored) res act"
proof -
  obtain res act where trip: "sp_resource s = Some res" "sp_action s = Some act"
    using registry_spec_well_formed [OF assms(2)] assms(3) by (auto simp: well_formed_spec_def)
  have gate: "authorize_role_gated enforce uni lookup ctx message_org s = None"
    using assms(2,3,6) by (simp add: intercept_def)
  then obtain org where org: "resolve_org_id message_org p (sp_source s) = Inr org"
      "require_permission enforce uni lookup ctx org res act = None"
    using assms(4,5) trip by (auto simp: authorize_role_gated_def split: sum.splits)
  from org(2) obtain stored where stored: "lookup org cid = Inr stored"
      "authorize enforce (role_string (if is_demo_account uni email then RoleViewer else stored)) res act = Some True"
    using assms(4,5)
    by (auto simp: require_permission_def principal_with_customer_def Let_def split: sum.splits lookup_error.splits option.splits if_splits)
  have "model_allows build_policy_rules grouping_rules (role_string (if is_demo_account uni email then RoleViewer else stored))
      (resource_string res) (action_string act)"
    using assms(1) stored(2) unfolding casbin_spec_def authorize_def by blast
  then have "permitted (if is_demo_account uni email then RoleViewer else stored) res act"
    unfolding policy_is_matrix .
  with that org(1) stored(1) trip show thesis by blast
qed

text \<open>
  A signed-in caller reaches a role-gated handler only with a role that permits it: the
  role looked up for that customer in the very organization the request resolves to, a viewer's
  when the account is a demo account, must permit the procedure's action on its resource.
\<close>

theorem gated_call_needs_role:
  assumes "casbin_spec enforce" "registry_spec proc = Some s" "is_role_gated s" "pn_customer p = Some (cid, email)"
    and "intercept enforce uni lookup proc (Some p) message_org = None"
  shows "\<exists>org stored res act. resolve_org_id message_org p (sp_source s) = Inr org \<and> lookup org cid = Inr stored
    \<and> sp_resource s = Some res \<and> sp_action s = Some act
    \<and> permitted (if is_demo_account uni email then RoleViewer else stored) res act"
  by (rule gate_needs_role [OF assms(1-3) refl assms(4,5)]) blast

definition demo_lookup :: role_lookup where
  "demo_lookup org cid = (if org = ''o'' \<and> cid = ''c'' then Inr RoleAdmin else Inl MemberNotFound)"

definition demo_caller :: "string \<Rightarrow> principal" where
  "demo_caller email = \<lparr>pn_customer = Some (''c'', email), pn_project = None\<rparr>"

lemma demo_proc: "registry_spec ''/dashboard.billing.v1.BillingService/CreateCheckoutSession'' = Some (org_gated ResourceBilling ActionCreate)"
  by (simp add: registry_spec_def permission_registry_def)

lemma runes_mail: "runes ''ann@x'' = map of_char ''ann@x''" "runes demo_viewer_email = map of_char demo_viewer_email"
  "runes demo_user_email = map of_char demo_user_email"
  by (rule runes_ascii, simp add: ascii_def demo_viewer_email_def demo_user_email_def)+

lemma ann_is_not_demo: "\<not> is_demo_account id ''ann@x''"
  unfolding is_demo_account_def equal_fold_def runes_mail
  by (simp add: fold_rune_def demo_viewer_email_def demo_user_email_def)

theorem gated_call_needs_role_witness:
  "intercept answering id demo_lookup ''/dashboard.billing.v1.BillingService/CreateCheckoutSession'' (Some (demo_caller ''ann@x'')) (Some ''o'') = None
    \<and> permitted RoleAdmin ResourceBilling ActionCreate"
proof -
  have allowed: "intercept answering id demo_lookup ''/dashboard.billing.v1.BillingService/CreateCheckoutSession''
      (Some (demo_caller ''ann@x'')) (Some ''o'') = None"
    using ann_is_not_demo
    by (simp add: intercept_def demo_proc is_role_gated_def org_gated_def authorize_role_gated_def demo_caller_def resolve_org_id_def
        require_permission_def principal_with_customer_def demo_lookup_def authorize_def answering_def policy_is_matrix
        permitted_def project_data_def admin_only_def Let_def)
  have gated: "is_role_gated (org_gated ResourceBilling ActionCreate)" by (simp add: is_role_gated_def org_gated_def)
  have cust: "pn_customer (demo_caller ''ann@x'') = Some (''c'', ''ann@x'')" by (simp add: demo_caller_def)
  from gated_call_needs_role [OF answering_follows demo_proc gated cust allowed] allowed ann_is_not_demo show ?thesis
    by (auto simp: demo_lookup_def org_gated_def resolve_org_id_def split: if_splits)
qed

text \<open>
  A demo account changes nothing through the server: a call of one that reaches its handler
  is to a role-gated procedure whose action is a read, or to a procedure that needs no role and
  is not a change of the caller's own data; an unregistered procedure is refused to everyone.
\<close>

theorem demo_account_only_reads:
  assumes "casbin_spec enforce" "pn_customer p = Some (cid, email)" "is_demo_account uni email"
    and "intercept enforce uni lookup proc (Some p) message_org = None"
  shows "\<exists>s. registry_spec proc = Some s \<and> (if is_role_gated s then sp_action s = Some ActionRead else \<not> is_self_write s)"
proof -
  obtain s where s: "registry_spec proc = Some s"
    using assms(4) by (auto simp: intercept_def split: option.splits)
  show ?thesis
  proof (cases "is_role_gated s")
    case True
    from gate_needs_role [OF assms(1) s True refl assms(2,4)] assms(3)
    have "sp_action s = Some ActionRead" by (metis viewer_reads)
    with s True show ?thesis by simp
  next
    case False
    then have "\<not> is_self_write s"
      using assms(2-4) s by (auto simp: intercept_def is_demo_caller_def principal_with_customer_def split: if_splits)
    with s False show ?thesis by simp
  qed
qed

theorem demo_account_only_reads_witness:
  "\<exists>s. registry_spec ''/public.auth.v1.AuthService/SignInWithEmail'' = Some s \<and> \<not> is_self_write s"
proof -
  have s: "registry_spec ''/public.auth.v1.AuthService/SignInWithEmail'' = Some public_spec"
    by (simp add: registry_spec_def permission_registry_def)
  have cust: "pn_customer (demo_caller demo_user_email) = Some (''c'', demo_user_email)" by (simp add: demo_caller_def)
  have demo: "is_demo_account id demo_user_email" by (simp add: is_demo_account_def equal_fold_def)
  have passes: "intercept answering id demo_lookup ''/public.auth.v1.AuthService/SignInWithEmail''
      (Some (demo_caller demo_user_email)) None = None"
    by (simp add: intercept_def s is_role_gated_def is_self_write_def spec_ctors)
  from demo_account_only_reads [OF answering_follows cust demo passes] s show ?thesis
    by (auto simp: is_role_gated_def spec_ctors)
qed

end
