(* ===== verification/Membership.thy ===== *)
theory Membership
  imports Roles Go_Time
begin

text \<open>
  Who belongs to an organization, \<open>internal/core/orgs/service.go\<close> and \<open>invite_accept.go\<close>: the
  rows of \<open>org_members\<close>, the invitations and the mail tokens they are sent under, and every
  operation that changes them. Each is one transaction: a fault at any call leaves the tables
  as they were. The clock of the process and of the database are one argument, \<open>now\<close>; the
  identifiers and secrets drawn are arguments too, and \<open>hash\<close> is SHA-256 in hexadecimal.
\<close>

section \<open>Tables\<close>

record member_row =
  mb_org :: string
  mb_customer :: string
  mb_role :: string

record invitation =
  iv_id :: string
  iv_org :: string
  iv_inviter :: string
  iv_email :: string
  iv_role :: string
  iv_status :: string
  iv_token :: string
  iv_expires :: time

record mail_token =
  mt_id :: string
  mt_customer :: "string option"
  mt_email :: string
  mt_purpose :: string
  mt_hash :: string
  mt_invitation :: "string option"
  mt_expires :: time
  mt_consumed :: "time option"
  mt_created :: time

record customer =
  cu_id :: string
  cu_email :: string
  cu_hash :: string \<comment> \<open>empty without a password\<close>
  cu_verified :: "time option"

record org_tables =
  ot_customers :: "customer list"
  ot_members :: "member_row list"
  ot_invitations :: "invitation list"
  ot_tokens :: "mail_token list"

definition status_pending :: string where "status_pending = ''INVITATION_STATUS_PENDING''"
definition status_accepted :: string where "status_accepted = ''INVITATION_STATUS_ACCEPTED''"
definition purpose_org_invite :: string where "purpose_org_invite = ''org_invite''"

definition invite_ttl :: duration where "invite_ttl = 7 * 24 * hour"
definition max_invite_sends_per_window :: nat where "max_invite_sends_per_window = 10"
definition invite_send_window :: duration where "invite_send_window = 24 * hour"

datatype org_error =
    ErrAlreadyMember | ErrInviteAlreadyPending | ErrInviteExpired | ErrInviteNotFound | ErrInviteNotPending
  | ErrInviteSendLimit | ErrLastAdmin | ErrLastMember | ErrMemberNotFound | InvalidRole | OrgDb

datatype org_call =
    OcBegin | OcStatement | OcReread | OcReadInvite | OcCount | OcRefresh | OcInvalidate | OcStorageToken | OcMailToken
  | OcIssue | OcStatus | OcCommit

section \<open>Members\<close>

definition member_at :: "string \<Rightarrow> string \<Rightarrow> member_row \<Rightarrow> bool" where
  "member_at org c r = (mb_org r = org \<and> mb_customer r = c)"

definition find_member :: "member_row list \<Rightarrow> string \<Rightarrow> string \<Rightarrow> member_row option" where
  "find_member rows org c = List.find (member_at org c) rows"

definition locked :: "member_row list \<Rightarrow> string \<Rightarrow> member_row list" where
  "locked rows org = filter (\<lambda>r. mb_org r = org) rows"

definition admin_count :: "member_row list \<Rightarrow> string \<Rightarrow> nat" where
  "admin_count rows org = length (filter (\<lambda>r. mb_role r = ''ORG_ROLE_ADMIN'') (locked rows org))"

text \<open>The guards compare against the target's row; a null comparison is not true.\<close>

definition not_last_admin :: "member_row list \<Rightarrow> string \<Rightarrow> string \<Rightarrow> bool" where
  "not_last_admin rows org c =
     ((case find_member rows org c of None \<Rightarrow> False | Some r \<Rightarrow> mb_role r \<noteq> ''ORG_ROLE_ADMIN'') \<or> 1 < admin_count rows org)"

definition delete_if_not_last_admin :: "member_row list \<Rightarrow> string \<Rightarrow> string \<Rightarrow> member_row list \<times> nat" where
  "delete_if_not_last_admin rows org c =
     (if find_member rows org c \<noteq> None \<and> not_last_admin rows org c
      then (filter (\<lambda>r. \<not> member_at org c r) rows, 1) else (rows, 0))"

definition delete_if_not_last :: "member_row list \<Rightarrow> string \<Rightarrow> string \<Rightarrow> member_row list \<times> nat" where
  "delete_if_not_last rows org c =
     (if find_member rows org c \<noteq> None \<and> 1 < length (locked rows org) \<and> not_last_admin rows org c
      then (filter (\<lambda>r. \<not> member_at org c r) rows, 1) else (rows, 0))"

text \<open>The updated rows and row, \<open>None\<close> when no row was updated.\<close>

definition update_role_if_not_last_admin :: "member_row list \<Rightarrow> string \<Rightarrow> string \<Rightarrow> string \<Rightarrow> (member_row list \<times> member_row) option" where
  "update_role_if_not_last_admin rows org c new_role =
     (case find_member rows org c of
        None \<Rightarrow> None
      | Some r \<Rightarrow>
          if new_role = ''ORG_ROLE_ADMIN'' \<or> not_last_admin rows org c
          then Some (map (\<lambda>x. if member_at org c x then x\<lparr>mb_role := new_role\<rparr> else x) rows, r\<lparr>mb_role := new_role\<rparr>)
          else None)"

definition insert_member_if_absent :: "member_row list \<Rightarrow> string \<Rightarrow> string \<Rightarrow> string \<Rightarrow> member_row list \<times> nat" where
  "insert_member_if_absent rows org c r =
     (if find_member rows org c \<noteq> None then (rows, 0)
      else (rows @ [\<lparr>mb_org = org, mb_customer = c, mb_role = r\<rparr>], 1))"

definition remove_member_safe :: "(org_call \<Rightarrow> bool) \<Rightarrow> string \<Rightarrow> string \<Rightarrow> org_tables \<Rightarrow> org_tables \<times> org_error option" where
  "remove_member_safe flt org c db =
     (if flt OcStatement then (db, Some OrgDb)
      else case delete_if_not_last_admin (ot_members db) org c of
        (rows, n) \<Rightarrow>
          if n = 0 then
            (db, Some (if flt OcReread then OrgDb
                       else if find_member (ot_members db) org c = None then ErrMemberNotFound else ErrLastAdmin))
          else (db\<lparr>ot_members := rows\<rparr>, None))"

definition leave :: "(org_call \<Rightarrow> bool) \<Rightarrow> string \<Rightarrow> string \<Rightarrow> org_tables \<Rightarrow> org_tables \<times> org_error option" where
  "leave flt org c db =
     (if flt OcStatement then (db, Some OrgDb)
      else case delete_if_not_last (ot_members db) org c of
        (rows, n) \<Rightarrow>
          if n = 1 then (db\<lparr>ot_members := rows\<rparr>, None)
          else
            (db, Some (if flt OcReread then OrgDb
                       else case find_member (ot_members db) org c of
                              None \<Rightarrow> ErrMemberNotFound
                            | Some r \<Rightarrow> (case parse_role (mb_role r) of
                                           None \<Rightarrow> InvalidRole
                                         | Some role \<Rightarrow> if role = RoleAdmin then ErrLastAdmin else ErrLastMember))))"

definition update_member_role :: "(org_call \<Rightarrow> bool) \<Rightarrow> string \<Rightarrow> string \<Rightarrow> string \<Rightarrow> org_tables
    \<Rightarrow> org_tables \<times> (org_error, member_row) result" where
  "update_member_role flt org c new_role db =
     (if \<not> role_is_valid new_role then (db, Inl InvalidRole)
      else if flt OcStatement then (db, Inl OrgDb)
      else case update_role_if_not_last_admin (ot_members db) org c new_role of
        None \<Rightarrow> (db, Inl (if flt OcReread then OrgDb
                        else if find_member (ot_members db) org c = None then ErrMemberNotFound else ErrLastAdmin))
      | Some (rows, r) \<Rightarrow> (db\<lparr>ot_members := rows\<rparr>, Inr r))"

section \<open>Invitations\<close>

definition find_invitation :: "invitation list \<Rightarrow> string \<Rightarrow> invitation option" where
  "find_invitation ivs i = List.find (\<lambda>v. iv_id v = i) ivs"

text \<open>Postgres \<open>lower\<close>; the mapping beyond ASCII, which the collation decides, is \<open>uni\<close>.\<close>

definition sql_lower :: "(nat \<Rightarrow> nat) \<Rightarrow> string \<Rightarrow> string" where
  "sql_lower uni s = to_lower uni s"

definition customer_email :: "org_tables \<Rightarrow> string \<Rightarrow> string option" where
  "customer_email db c = map_option cu_email (List.find (\<lambda>u. cu_id u = c) (ot_customers db))"

definition email_is_member :: "(nat \<Rightarrow> nat) \<Rightarrow> org_tables \<Rightarrow> string \<Rightarrow> string \<Rightarrow> bool" where
  "email_is_member uni db org email =
     list_ex (\<lambda>r. mb_org r = org \<and> (case customer_email db (mb_customer r) of None \<Rightarrow> False
        | Some e \<Rightarrow> sql_lower uni e = sql_lower uni email)) (ot_members db)"

definition pending_for :: "(nat \<Rightarrow> nat) \<Rightarrow> invitation list \<Rightarrow> string \<Rightarrow> string \<Rightarrow> bool" where
  "pending_for uni ivs org email =
     list_ex (\<lambda>v. iv_org v = org \<and> sql_lower uni (iv_email v) = sql_lower uni email \<and> iv_status v = status_pending) ivs"

text \<open>The mail token of one send; its row's id rides the job.\<close>

definition issue_token :: "(string \<Rightarrow> string) \<Rightarrow> time \<Rightarrow> string \<Rightarrow> string \<Rightarrow> invitation \<Rightarrow> mail_token" where
  "issue_token hash now tid raw v =
     \<lparr>mt_id = tid, mt_customer = None, mt_email = iv_email v, mt_purpose = purpose_org_invite, mt_hash = hash raw,
      mt_invitation = Some (iv_id v), mt_expires = iv_expires v, mt_consumed = None, mt_created = now\<rparr>"

text \<open>What a send draws: the invitation's id and storage token, the mail token's id and secret.\<close>

record draws =
  dw_invitation :: string
  dw_storage :: string
  dw_token :: string
  dw_raw :: string

definition invite_member_with_role :: "(org_call \<Rightarrow> bool) \<Rightarrow> (nat \<Rightarrow> nat) \<Rightarrow> (string \<Rightarrow> string) \<Rightarrow> time \<Rightarrow> draws
    \<Rightarrow> string \<Rightarrow> string \<Rightarrow> string \<Rightarrow> string \<Rightarrow> org_tables \<Rightarrow> org_tables \<times> (org_error, invitation) result" where
  "invite_member_with_role flt uni hash now dw org inviter email r db =
     (if \<not> role_is_valid r then (db, Inl InvalidRole)
      else if flt OcBegin \<or> flt OcStorageToken then (db, Inl OrgDb)
      else let v = \<lparr>iv_id = dw_invitation dw, iv_org = org, iv_inviter = inviter, iv_email = email, iv_role = r,
                    iv_status = status_pending, iv_token = dw_storage dw, iv_expires = now + invite_ttl\<rparr>
      in if flt OcStatement then (db, Inl OrgDb)
         else if email_is_member uni db org email then (db, Inl ErrAlreadyMember)
         else if find_invitation (ot_invitations db) (iv_id v) \<noteq> None then (db, Inl OrgDb)
         else if pending_for uni (ot_invitations db) org email then (db, Inl ErrInviteAlreadyPending)
         else if flt OcMailToken \<or> flt OcIssue \<or> flt OcCommit then (db, Inl OrgDb)
         else (db\<lparr>ot_invitations := ot_invitations db @ [v],
                  ot_tokens := ot_tokens db @ [issue_token hash now (dw_token dw) (dw_raw dw) v]\<rparr>, Inr v))"

definition recent_sends :: "mail_token list \<Rightarrow> string \<Rightarrow> time \<Rightarrow> nat" where
  "recent_sends ts i since =
     length (filter (\<lambda>t. mt_invitation t = Some i \<and> mt_purpose t = purpose_org_invite \<and> since < mt_created t) ts)"

definition active_for :: "string \<Rightarrow> time \<Rightarrow> mail_token \<Rightarrow> bool" where
  "active_for i now t = (mt_invitation t = Some i \<and> mt_purpose t = purpose_org_invite \<and> mt_consumed t = None \<and> now < mt_expires t)"

definition invalidate_active :: "string \<Rightarrow> time \<Rightarrow> mail_token list \<Rightarrow> mail_token list" where
  "invalidate_active i now ts = map (\<lambda>t. if active_for i now t then t\<lparr>mt_consumed := Some now\<rparr> else t) ts"

text \<open>The checks a locked invitation must pass before it is re-sent or revoked.\<close>

definition locked_pending :: "(org_call \<Rightarrow> bool) \<Rightarrow> org_tables \<Rightarrow> string \<Rightarrow> string \<Rightarrow> (org_error, invitation) result" where
  "locked_pending flt db org i =
     (if flt OcReadInvite then Inl OrgDb
      else case find_invitation (ot_invitations db) i of
        None \<Rightarrow> Inl ErrInviteNotFound
      | Some v \<Rightarrow> if iv_org v \<noteq> org then Inl ErrInviteNotFound
                  else if iv_status v \<noteq> status_pending then Inl ErrInviteNotPending else Inr v)"

definition resend_invite :: "(org_call \<Rightarrow> bool) \<Rightarrow> (string \<Rightarrow> string) \<Rightarrow> time \<Rightarrow> draws \<Rightarrow> string \<Rightarrow> string \<Rightarrow> org_tables
    \<Rightarrow> org_tables \<times> (org_error, invitation) result" where
  "resend_invite flt hash now dw org i db =
     (if flt OcBegin then (db, Inl OrgDb)
      else case locked_pending flt db org i of
        Inl e \<Rightarrow> (db, Inl e)
      | Inr v \<Rightarrow>
          if flt OcCount then (db, Inl OrgDb)
          else if recent_sends (ot_tokens db) i (now - invite_send_window) \<ge> max_invite_sends_per_window
          then (db, Inl ErrInviteSendLimit)
          else if flt OcStorageToken \<or> flt OcRefresh \<or> flt OcInvalidate \<or> flt OcMailToken \<or> flt OcIssue \<or> flt OcCommit
          then (db, Inl OrgDb)
          else let v' = v\<lparr>iv_expires := now + invite_ttl, iv_token := dw_storage dw\<rparr>
               in (db\<lparr>ot_invitations := map (\<lambda>x. if iv_id x = i then v' else x) (ot_invitations db),
                      ot_tokens := invalidate_active i now (ot_tokens db) @ [issue_token hash now (dw_token dw) (dw_raw dw) v']\<rparr>,
                   Inr v'))"

text \<open>Deleting the invitation cascades to its mail tokens.\<close>

definition revoke_invite :: "(org_call \<Rightarrow> bool) \<Rightarrow> string \<Rightarrow> string \<Rightarrow> org_tables \<Rightarrow> org_tables \<times> org_error option" where
  "revoke_invite flt org i db =
     (if flt OcBegin then (db, Some OrgDb)
      else case locked_pending flt db org i of
        Inl e \<Rightarrow> (db, Some e)
      | Inr v \<Rightarrow>
          if flt OcStatement \<or> flt OcCommit then (db, Some OrgDb)
          else (db\<lparr>ot_invitations := filter (\<lambda>x. iv_id x \<noteq> i) (ot_invitations db),
                   ot_tokens := filter (\<lambda>t. mt_invitation t \<noteq> Some i) (ot_tokens db)\<rparr>, None))"

text \<open>
  Accepting inside the caller's transaction, which commits also when the customer already was
  a member; the answer is the org and whether it added a member.
\<close>

definition apply_invite_acceptance :: "(org_call \<Rightarrow> bool) \<Rightarrow> time \<Rightarrow> string \<Rightarrow> string \<Rightarrow> org_tables
    \<Rightarrow> org_tables \<times> (org_error, string \<times> bool) result" where
  "apply_invite_acceptance flt now i c db =
     (if flt OcReadInvite then (db, Inl OrgDb)
      else case find_invitation (ot_invitations db) i of
        None \<Rightarrow> (db, Inl ErrInviteNotFound)
      | Some v \<Rightarrow>
          if iv_status v \<noteq> status_pending then (db, Inl ErrInviteNotPending)
          else if iv_expires v < now then (db, Inl ErrInviteExpired)
          else case parse_role (iv_role v) of
            None \<Rightarrow> (db, Inl InvalidRole)
          | Some r \<Rightarrow>
              if flt OcStatement \<or> flt OcStatus \<or> flt OcCommit then (db, Inl OrgDb)
              else (case insert_member_if_absent (ot_members db) (iv_org v) c (role_string r) of
                      (rows, added) \<Rightarrow>
                        (db\<lparr>ot_members := rows,
                            ot_invitations := map (\<lambda>x. if iv_id x = i then x\<lparr>iv_status := status_accepted\<rparr> else x) (ot_invitations db)\<rparr>,
                         Inr (iv_org v, added = 1))))"

section \<open>Commands\<close>

datatype org_cmd =
    CmdRemove "org_call \<Rightarrow> bool" string string
  | CmdLeave "org_call \<Rightarrow> bool" string string
  | CmdRole "org_call \<Rightarrow> bool" string string string
  | CmdInvite "org_call \<Rightarrow> bool" draws string string string string
  | CmdResend "org_call \<Rightarrow> bool" draws string string
  | CmdRevoke "org_call \<Rightarrow> bool" string string
  | CmdAccept "org_call \<Rightarrow> bool" string string

definition org_step :: "(nat \<Rightarrow> nat) \<Rightarrow> (string \<Rightarrow> string) \<Rightarrow> org_tables \<Rightarrow> time \<times> org_cmd \<Rightarrow> org_tables" where
  "org_step uni hash db ev =
     (case ev of (now, cmd) \<Rightarrow>
        (case cmd of
           CmdRemove flt org c \<Rightarrow> fst (remove_member_safe flt org c db)
         | CmdLeave flt org c \<Rightarrow> fst (leave flt org c db)
         | CmdRole flt org c r \<Rightarrow> fst (update_member_role flt org c r db)
         | CmdInvite flt dw org inviter email r \<Rightarrow> fst (invite_member_with_role flt uni hash now dw org inviter email r db)
         | CmdResend flt dw org i \<Rightarrow> fst (resend_invite flt hash now dw org i db)
         | CmdRevoke flt org i \<Rightarrow> fst (revoke_invite flt org i db)
         | CmdAccept flt i c \<Rightarrow> fst (apply_invite_acceptance flt now i c db)))"

end
