(* ===== verification/Membership_Laws.thy ===== *)
theory Membership_Laws
  imports Membership
begin

text \<open>
  What the operations on an organization's members and invitations guarantee: they implement a
  map from customers to roles that never loses its last admin, and an invitation has at most
  one live link and a bounded number of mails.
\<close>

section \<open>Rows as a map\<close>

definition member_key :: "member_row \<Rightarrow> string \<times> string" where
  "member_key r = (mb_org r, mb_customer r)"

lemma member_at_key: "member_at org c r \<longleftrightarrow> member_key r = (org, c)"
  by (auto simp: member_at_def member_key_def)

text \<open>The table's own constraints: its primary key and the check on the role.\<close>

definition members_ok :: "member_row list \<Rightarrow> bool" where
  "members_ok rows = (distinct (map member_key rows) \<and> list_all (\<lambda>r. role_is_valid (mb_role r)) rows)"

definition roles_of :: "member_row list \<Rightarrow> string \<Rightarrow> string \<Rightarrow> string option" where
  "roles_of rows org c = map_option mb_role (find_member rows org c)"

lemma find_member_mem: "find_member rows org c = Some r \<Longrightarrow> r \<in> set rows \<and> member_key r = (org, c)"
  by (auto simp: find_member_def find_Some_iff member_at_key)

lemma find_member_unique:
  "distinct (map member_key rows) \<Longrightarrow> r \<in> set rows \<Longrightarrow> member_key r = (org, c) \<Longrightarrow> find_member rows org c = Some r"
  by (induction rows) (force simp: find_member_def member_at_key)+

lemma find_member_none: "find_member rows org c = None \<longleftrightarrow> (\<forall>r\<in>set rows. member_key r \<noteq> (org, c))"
  by (auto simp: find_member_def find_None_iff member_at_key)

lemma roles_of_some:
  "distinct (map member_key rows) \<Longrightarrow>
    roles_of rows org c = Some x \<longleftrightarrow> (\<exists>r\<in>set rows. member_key r = (org, c) \<and> mb_role r = x)"
  unfolding roles_of_def by (auto dest: find_member_mem find_member_unique)

text \<open>Two rows under a condition, counted or told apart by key.\<close>

lemma two_by_key:
  assumes "distinct (map f xs)" "x \<in> set xs" "P x"
  shows "1 < length (filter P xs) \<longleftrightarrow> (\<exists>y\<in>set xs. P y \<and> f y \<noteq> f x)"
proof -
  have inj: "inj_on f (set xs)" "distinct xs" using assms(1) by (simp_all add: distinct_map)
  have card: "length (filter P xs) = card {y \<in> set xs. P y}"
    using distinct_card [OF distinct_filter [OF inj(2), of P]] by simp
  have sub: "\<exists>y\<in>set xs. P y \<and> f y \<noteq> f x" if "1 < card {y \<in> set xs. P y}"
  proof (rule ccontr)
    assume "\<not> (\<exists>y\<in>set xs. P y \<and> f y \<noteq> f x)"
    then have "{y \<in> set xs. P y} \<subseteq> {x}" using inj(1) assms(2) by (auto dest: inj_onD)
    from card_mono [OF _ this] that show False by simp
  qed
  have "1 < card {y \<in> set xs. P y}" if "y \<in> set xs" "P y" "f y \<noteq> f x" for y
  proof -
    have "card {x, y} \<le> card {y \<in> set xs. P y}" using that assms(2,3) by (intro card_mono) auto
    moreover have "x \<noteq> y" using that(3) by blast
    ultimately show ?thesis by simp
  qed
  with sub show ?thesis unfolding card by blast
qed

lemma admin_count_filter: "admin_count rows org = length (filter (\<lambda>r. mb_org r = org \<and> mb_role r = ''ORG_ROLE_ADMIN'') rows)"
  by (simp add: admin_count_def locked_def)

lemma other_admin:
  assumes "distinct (map member_key rows)" "find_member rows org c = Some r" "mb_role r = ''ORG_ROLE_ADMIN''"
  shows "1 < admin_count rows org \<longleftrightarrow> (\<exists>c'. c' \<noteq> c \<and> roles_of rows org c' = Some ''ORG_ROLE_ADMIN'')"
proof -
  have r: "r \<in> set rows" "mb_org r = org" "mb_customer r = c"
    using find_member_mem [OF assms(2)] by (auto simp: member_key_def)
  have "1 < admin_count rows org \<longleftrightarrow>
      (\<exists>y\<in>set rows. (mb_org y = org \<and> mb_role y = ''ORG_ROLE_ADMIN'') \<and> member_key y \<noteq> member_key r)"
    unfolding admin_count_filter using assms(1,3) r by (intro two_by_key) simp_all
  then show ?thesis using r by (auto simp: roles_of_some [OF assms(1)] member_key_def)
qed

lemma other_member:
  assumes "distinct (map member_key rows)" "find_member rows org c = Some r"
  shows "1 < length (locked rows org) \<longleftrightarrow> (\<exists>c'. c' \<noteq> c \<and> roles_of rows org c' \<noteq> None)"
proof -
  have r: "r \<in> set rows" "mb_org r = org" "mb_customer r = c"
    using find_member_mem [OF assms(2)] by (auto simp: member_key_def)
  have "1 < length (locked rows org) \<longleftrightarrow> (\<exists>y\<in>set rows. mb_org y = org \<and> member_key y \<noteq> member_key r)"
    unfolding locked_def using assms(1) r by (intro two_by_key) simp_all
  then show ?thesis using r by (auto simp: roles_of_some [OF assms(1)] member_key_def)
qed

section \<open>The abstract membership\<close>

type_synonym roles = "string \<Rightarrow> string option"

definition other_admin_in :: "roles \<Rightarrow> string \<Rightarrow> bool" where
  "other_admin_in m c = (\<exists>c'. c' \<noteq> c \<and> m c' = Some ''ORG_ROLE_ADMIN'')"

definition abs_remove :: "string \<Rightarrow> roles \<Rightarrow> roles \<times> org_error option" where
  "abs_remove c m =
     (case m c of
        None \<Rightarrow> (m, Some ErrMemberNotFound)
      | Some r \<Rightarrow> if r \<noteq> ''ORG_ROLE_ADMIN'' \<or> other_admin_in m c then (m(c := None), None) else (m, Some ErrLastAdmin))"

definition abs_leave :: "string \<Rightarrow> roles \<Rightarrow> roles \<times> org_error option" where
  "abs_leave c m =
     (case m c of
        None \<Rightarrow> (m, Some ErrMemberNotFound)
      | Some r \<Rightarrow>
          if r = ''ORG_ROLE_ADMIN'' \<and> \<not> other_admin_in m c then (m, Some ErrLastAdmin)
          else if (\<exists>c'. c' \<noteq> c \<and> m c' \<noteq> None) then (m(c := None), None)
          else (m, Some ErrLastMember))"

definition abs_set_role :: "string \<Rightarrow> string \<Rightarrow> roles \<Rightarrow> roles \<times> org_error option" where
  "abs_set_role c new_role m =
     (if \<not> role_is_valid new_role then (m, Some InvalidRole)
      else case m c of
        None \<Rightarrow> (m, Some ErrMemberNotFound)
      | Some r \<Rightarrow>
          if new_role = ''ORG_ROLE_ADMIN'' \<or> r \<noteq> ''ORG_ROLE_ADMIN'' \<or> other_admin_in m c
          then (m(c \<mapsto> new_role), None) else (m, Some ErrLastAdmin))"

lemma roles_filter:
  "roles_of (filter (\<lambda>r. \<not> member_at org c r) rows) org' c' = (if (org', c') = (org, c) then None else roles_of rows org' c')"
  by (induction rows) (auto simp: roles_of_def find_member_def member_at_def)

lemma roles_set:
  "roles_of (map (\<lambda>x. if member_at org c x then x\<lparr>mb_role := new_role\<rparr> else x) rows) org' c' =
    (if (org', c') = (org, c) then map_option (\<lambda>_. new_role) (roles_of rows org c) else roles_of rows org' c')"
  by (induction rows) (auto simp: roles_of_def find_member_def member_at_def)

lemma guard_is_other_admin:
  assumes "distinct (map member_key rows)" "roles_of rows org c = Some x"
  shows "not_last_admin rows org c \<longleftrightarrow> x \<noteq> ''ORG_ROLE_ADMIN'' \<or> other_admin_in (roles_of rows org) c"
proof -
  obtain r where r: "find_member rows org c = Some r" "mb_role r = x"
    using assms(2) by (auto simp: roles_of_def)
  show ?thesis using other_admin [OF assms(1) r(1)] r by (auto simp: not_last_admin_def other_admin_in_def)
qed

lemma remove_refines:
  assumes "members_ok (ot_members db)"
  shows "(roles_of (ot_members (fst (remove_member_safe (\<lambda>k. False) org c db))) org, snd (remove_member_safe (\<lambda>k. False) org c db))
      = abs_remove c (roles_of (ot_members db) org)"
proof (cases "roles_of (ot_members db) org c")
  case None
  then show ?thesis
    by (auto simp: remove_member_safe_def delete_if_not_last_admin_def abs_remove_def roles_of_def)
next
  case (Some x)
  then have found: "find_member (ot_members db) org c \<noteq> None" by (auto simp: roles_of_def)
  have guard: "not_last_admin (ot_members db) org c \<longleftrightarrow> x \<noteq> ''ORG_ROLE_ADMIN'' \<or> other_admin_in (roles_of (ot_members db) org) c"
    using assms Some by (intro guard_is_other_admin) (simp_all add: members_ok_def)
  show ?thesis
    using Some found by (auto simp: remove_member_safe_def delete_if_not_last_admin_def abs_remove_def guard roles_filter)
qed

lemma leave_refines:
  assumes "members_ok (ot_members db)"
  shows "(roles_of (ot_members (fst (leave (\<lambda>k. False) org c db))) org, snd (leave (\<lambda>k. False) org c db))
      = abs_leave c (roles_of (ot_members db) org)"
proof (cases "find_member (ot_members db) org c")
  case None
  then show ?thesis by (auto simp: leave_def delete_if_not_last_def abs_leave_def roles_of_def)
next
  case (Some r)
  have dist: "distinct (map member_key (ot_members db))" using assms by (simp add: members_ok_def)
  have role: "roles_of (ot_members db) org c = Some (mb_role r)" using Some by (simp add: roles_of_def)
  have "role_is_valid (mb_role r)" using assms find_member_mem [OF Some] by (simp add: members_ok_def list_all_iff)
  then obtain x where x: "mb_role r = role_string x" "parse_role (mb_role r) = Some x" by (auto simp: role_valid_iff parse_role_iff)
  have admin: "x = RoleAdmin \<longleftrightarrow> mb_role r = ''ORG_ROLE_ADMIN''" unfolding x(1) role_string_simps(1) [symmetric] by simp
  define others where "others = (\<exists>c'. c' \<noteq> c \<and> roles_of (ot_members db) org c' \<noteq> None)"
  have count: "Suc 0 < length (locked (ot_members db) org) \<longleftrightarrow> others"
    using other_member [OF dist Some] by (simp add: others_def)
  have more: "other_admin_in (roles_of (ot_members db) org) c \<Longrightarrow> others" by (auto simp: other_admin_in_def others_def)
  show ?thesis
    using Some role x(2) admin
    by (auto simp: leave_def delete_if_not_last_def abs_leave_def guard_is_other_admin [OF dist role] count roles_filter more
        simp del: not_None_eq simp flip: others_def)
qed

lemma set_role_refines:
  assumes "members_ok (ot_members db)"
  shows "(roles_of (ot_members (fst (update_member_role (\<lambda>k. False) org c new_role db))) org,
       (case snd (update_member_role (\<lambda>k. False) org c new_role db) of Inl e \<Rightarrow> Some e | Inr r \<Rightarrow> None))
      = abs_set_role c new_role (roles_of (ot_members db) org)"
proof (cases "find_member (ot_members db) org c")
  case None
  then show ?thesis by (auto simp: update_member_role_def update_role_if_not_last_admin_def abs_set_role_def roles_of_def)
next
  case (Some r)
  have dist: "distinct (map member_key (ot_members db))" using assms by (simp add: members_ok_def)
  have role: "roles_of (ot_members db) org c = Some (mb_role r)" using Some by (simp add: roles_of_def)
  show ?thesis
    using Some role
    by (auto simp: update_member_role_def update_role_if_not_last_admin_def abs_set_role_def guard_is_other_admin [OF dist role] roles_set)
qed

section \<open>The last admin\<close>

definition has_admin :: "string \<Rightarrow> org_tables \<Rightarrow> bool" where
  "has_admin org db = (members_ok (ot_members db) \<and> (\<exists>c. roles_of (ot_members db) org c = Some ''ORG_ROLE_ADMIN''))"

text \<open>A faulted call changes nothing.\<close>

lemma faulted_members:
  "fst (remove_member_safe flt org c db) = db \<or> fst (remove_member_safe flt org c db) = fst (remove_member_safe (\<lambda>k. False) org c db)"
  "fst (leave flt org c db) = db \<or> fst (leave flt org c db) = fst (leave (\<lambda>k. False) org c db)"
  "fst (update_member_role flt org c r db) = db
    \<or> fst (update_member_role flt org c r db) = fst (update_member_role (\<lambda>k. False) org c r db)"
  by (auto simp: remove_member_safe_def leave_def update_member_role_def split: prod.splits option.splits)

lemma delete_rows:
  "fst (delete_if_not_last_admin rows org c) = rows \<or> fst (delete_if_not_last_admin rows org c) = filter (\<lambda>r. \<not> member_at org c r) rows"
  "fst (delete_if_not_last rows org c) = rows \<or> fst (delete_if_not_last rows org c) = filter (\<lambda>r. \<not> member_at org c r) rows"
  by (simp_all add: delete_if_not_last_admin_def delete_if_not_last_def)

lemma remove_rows:
  "ot_members (fst (remove_member_safe (\<lambda>k. False) org c db)) \<in> {ot_members db, filter (\<lambda>r. \<not> member_at org c r) (ot_members db)}"
proof (cases "delete_if_not_last_admin (ot_members db) org c")
  case (Pair rows n)
  then show ?thesis
    using delete_rows(1) [of "ot_members db" org c] by (simp add: remove_member_safe_def)
qed

lemma leave_rows:
  "ot_members (fst (leave (\<lambda>k. False) org c db)) \<in> {ot_members db, filter (\<lambda>r. \<not> member_at org c r) (ot_members db)}"
proof (cases "delete_if_not_last (ot_members db) org c")
  case (Pair rows n)
  then show ?thesis
    using delete_rows(2) [of "ot_members db" org c] by (simp add: leave_def)
qed

lemma set_role_rows:
  "ot_members (fst (update_member_role (\<lambda>k. False) org c nr db)) = ot_members db
    \<or> role_is_valid nr \<and> ot_members (fst (update_member_role (\<lambda>k. False) org c nr db))
        = map (\<lambda>x. if member_at org c x then x\<lparr>mb_role := nr\<rparr> else x) (ot_members db)"
proof (cases "update_role_if_not_last_admin (ot_members db) org c nr")
  case None
  then show ?thesis by (simp add: update_member_role_def)
next
  case (Some p)
  then have "fst p = map (\<lambda>x. if member_at org c x then x\<lparr>mb_role := nr\<rparr> else x) (ot_members db)"
    by (auto simp: update_role_if_not_last_admin_def split: option.splits if_splits)
  with Some show ?thesis by (cases p) (simp add: update_member_role_def)
qed

lemmas members_after = remove_rows leave_rows set_role_rows

lemma keys_after_set: "map member_key (map (\<lambda>x. if member_at org c x then x\<lparr>mb_role := nr\<rparr> else x) rows) = map member_key rows"
  by (simp add: member_key_def)

lemma members_ok_kept:
  "members_ok rows \<Longrightarrow> members_ok (filter P rows)"
  "members_ok rows \<Longrightarrow> role_is_valid nr \<Longrightarrow> members_ok (map (\<lambda>x. if member_at org c x then x\<lparr>mb_role := nr\<rparr> else x) rows)"
  "members_ok rows \<Longrightarrow> role_is_valid nr \<Longrightarrow> members_ok (fst (insert_member_if_absent rows org c nr))"
  unfolding members_ok_def keys_after_set
  by (auto simp: distinct_map_filter list_all_iff insert_member_if_absent_def find_member_none member_key_def)

lemma upd_keeps_admin:
  "m c0 = Some ''ORG_ROLE_ADMIN'' \<Longrightarrow> m c \<noteq> Some ''ORG_ROLE_ADMIN'' \<or> other_admin_in m c
    \<Longrightarrow> \<exists>c'. (m(c := x)) c' = Some ''ORG_ROLE_ADMIN''"
  by (metis other_admin_in_def fun_upd_apply)

lemma abs_keeps_admin:
  assumes "m c0 = Some ''ORG_ROLE_ADMIN''"
  shows "\<exists>c'. fst (abs_remove c m) c' = Some ''ORG_ROLE_ADMIN''" "\<exists>c'. fst (abs_leave c m) c' = Some ''ORG_ROLE_ADMIN''"
    "\<exists>c'. fst (abs_set_role c nr m) c' = Some ''ORG_ROLE_ADMIN''"
proof -
  note keep = upd_keeps_admin [of m c0, OF assms] exI [of "\<lambda>c'. m c' = Some ''ORG_ROLE_ADMIN''" c0, OF assms]
  show "\<exists>c'. fst (abs_remove c m) c' = Some ''ORG_ROLE_ADMIN''" "\<exists>c'. fst (abs_leave c m) c' = Some ''ORG_ROLE_ADMIN''"
    by (cases "m c"; simp add: abs_remove_def abs_leave_def keep del: fun_upd_apply)+
  have "\<exists>c'. (m(c \<mapsto> nr)) c' = Some ''ORG_ROLE_ADMIN''"
    if "nr = ''ORG_ROLE_ADMIN'' \<or> m c \<noteq> Some ''ORG_ROLE_ADMIN'' \<or> other_admin_in m c"
    using that keep(1) [of c "Some nr"] by (cases "nr = ''ORG_ROLE_ADMIN''") (auto intro: exI [of _ c] simp del: fun_upd_apply simp: fun_upd_same)
  then show "\<exists>c'. fst (abs_set_role c nr m) c' = Some ''ORG_ROLE_ADMIN''"
    by (cases "m c") (auto simp: abs_set_role_def keep(2) simp del: fun_upd_apply)
qed

lemma other_org_roles:
  assumes "org' \<noteq> org"
  shows "roles_of (ot_members (fst (remove_member_safe (\<lambda>k. False) org c db))) org' = roles_of (ot_members db) org'"
    "roles_of (ot_members (fst (leave (\<lambda>k. False) org c db))) org' = roles_of (ot_members db) org'"
    "roles_of (ot_members (fst (update_member_role (\<lambda>k. False) org c nr db))) org' = roles_of (ot_members db) org'"
  using members_after(1) [of org c db] members_after(2) [of org c db] members_after(3) [of org c nr db] assms
  by (auto simp: fun_eq_iff roles_filter roles_set)

lemma member_ops_keep_admin:
  assumes "has_admin g db"
  shows "has_admin g (fst (remove_member_safe flt org c db))" "has_admin g (fst (leave flt org c db))"
    "has_admin g (fst (update_member_role flt org c nr db))"
proof -
  have ok: "members_ok (ot_members db)" and adm: "\<exists>c. roles_of (ot_members db) g c = Some ''ORG_ROLE_ADMIN''"
    using assms by (simp_all add: has_admin_def)
  have "has_admin g (fst (remove_member_safe (\<lambda>k. False) org c db))"
  proof (cases "g = org")
    case True
    have "members_ok (ot_members (fst (remove_member_safe (\<lambda>k. False) org c db)))"
      using members_after(1) [of org c db] ok members_ok_kept(1) by auto
    with True adm remove_refines [OF ok, of org c] abs_keeps_admin(1) show ?thesis
      by (metis fst_conv has_admin_def)
  next
    case False
    then show ?thesis
      using adm other_org_roles(1) [OF False] members_after(1) [of org c db] ok members_ok_kept(1) by (auto simp: has_admin_def)
  qed
  then show "has_admin g (fst (remove_member_safe flt org c db))"
    using faulted_members(1) [of flt org c db] assms by auto
  have "has_admin g (fst (leave (\<lambda>k. False) org c db))"
  proof (cases "g = org")
    case True
    have "members_ok (ot_members (fst (leave (\<lambda>k. False) org c db)))"
      using members_after(2) [of org c db] ok members_ok_kept(1) by auto
    with True adm leave_refines [OF ok, of org c] abs_keeps_admin(2) show ?thesis
      by (metis fst_conv has_admin_def)
  next
    case False
    then show ?thesis
      using adm other_org_roles(2) [OF False] members_after(2) [of org c db] ok members_ok_kept(1) by (auto simp: has_admin_def)
  qed
  then show "has_admin g (fst (leave flt org c db))"
    using faulted_members(2) [of flt org c db] assms by auto
  have "has_admin g (fst (update_member_role (\<lambda>k. False) org c nr db))"
  proof (cases "g = org")
    case True
    have "members_ok (ot_members (fst (update_member_role (\<lambda>k. False) org c nr db)))"
      using members_after(3) [of org c nr db] ok members_ok_kept(2) [of "ot_members db" nr] by auto
    with True adm set_role_refines [OF ok, of org c nr] abs_keeps_admin(3) show ?thesis
      by (metis fst_conv has_admin_def)
  next
    case False
    then show ?thesis
      using adm other_org_roles(3) [OF False] members_after(3) [of org c nr db] ok members_ok_kept(2) [of "ot_members db" nr]
      by (auto simp: has_admin_def)
  qed
  then show "has_admin g (fst (update_member_role flt org c nr db))"
    using faulted_members(3) [of flt org c nr db] assms by auto
qed

lemma insert_keeps_roles:
  "roles_of rows g c = Some x \<Longrightarrow> roles_of (fst (insert_member_if_absent rows org c' r)) g c = Some x"
  by (auto simp: insert_member_if_absent_def roles_of_def find_member_def find_Some_iff nth_append)

lemma accept_members:
  "ot_members (fst (apply_invite_acceptance flt now i c db)) = ot_members db
    \<or> (\<exists>org r. ot_members (fst (apply_invite_acceptance flt now i c db))
          = fst (insert_member_if_absent (ot_members db) org c (role_string r)))"
  by (auto simp: apply_invite_acceptance_def Let_def split: option.splits prod.splits) (metis fst_conv)

lemma invite_members [simp]:
  "ot_members (fst (invite_member_with_role flt uni hash now dw org inviter email r db)) = ot_members db"
  "ot_members (fst (resend_invite flt hash now dw org i db)) = ot_members db"
  "ot_members (fst (revoke_invite flt org i db)) = ot_members db"
  by (simp_all add: invite_member_with_role_def resend_invite_def revoke_invite_def Let_def split: sum.splits)

lemma has_admin_step: "has_admin g db \<Longrightarrow> has_admin g (org_step uni hash db ev)"
proof -
  assume admin: "has_admin g db"
  obtain now cmd where ev: "ev = (now, cmd)" by fastforce
  have accept: "has_admin g (fst (apply_invite_acceptance flt now i c db))" for flt i c
    using admin accept_members [of flt now i c db] insert_keeps_roles members_ok_kept(3) [of "ot_members db"]
    by (fastforce simp: has_admin_def role_valid_iff)
  show ?thesis
    unfolding ev org_step_def prod.case
    using admin member_ops_keep_admin [OF admin] accept
    by (cases cmd) (simp_all add: has_admin_def)
qed

interpretation admins: machine_inv "org_step uni hash" "has_admin org"
  by unfold_locales (rule has_admin_step)

end
