(* ===== verification/Invite_Laws.thy ===== *)
theory Invite_Laws
  imports Membership_Laws
begin

text \<open>
  How often an invitation can be mailed and how many of its links are live, over any run of the
  commands of \<open>org_step\<close> under a clock that does not go back; and the properties of
  an organization's membership.
\<close>

section \<open>The clocked machine\<close>

definition invite_step :: "(nat \<Rightarrow> nat) \<Rightarrow> (string \<Rightarrow> string) \<Rightarrow> time \<times> org_tables \<Rightarrow> nat \<times> org_cmd \<Rightarrow> time \<times> org_tables" where
  "invite_step uni hash s ev =
     (case s of (t, db) \<Rightarrow> case ev of (dt, cmd) \<Rightarrow> (t + int dt, org_step uni hash db (t + int dt, cmd)))"

definition live_links :: "mail_token list \<Rightarrow> string \<Rightarrow> time \<Rightarrow> nat" where
  "live_links ts i now = length (filter (active_for i now) ts)"

text \<open>Every mail token names an invitation that exists: the table's foreign key.\<close>

definition tokens_owned :: "org_tables \<Rightarrow> bool" where
  "tokens_owned db = list_all (\<lambda>t. case mt_invitation t of None \<Rightarrow> True | Some i \<Rightarrow> find_invitation (ot_invitations db) i \<noteq> None)
     (ot_tokens db)"

definition link_bounds :: "mail_token list \<Rightarrow> time \<Rightarrow> string \<Rightarrow> bool" where
  "link_bounds ts t i = (recent_sends ts i (t - invite_send_window) \<le> max_invite_sends_per_window \<and> live_links ts i t \<le> 1)"

definition links_ok :: "time \<times> org_tables \<Rightarrow> bool" where
  "links_ok s = (case s of (t, db) \<Rightarrow> tokens_owned db \<and> (\<forall>i. link_bounds (ot_tokens db) t i))"

section \<open>Lists of tokens\<close>

lemma length_filter_mono: "(\<And>x. x \<in> set xs \<Longrightarrow> P x \<Longrightarrow> Q x) \<Longrightarrow> length (filter P xs) \<le> length (filter Q xs)"
  by (induction xs) (auto intro: le_SucI)

lemma sends_later: "since \<le> since' \<Longrightarrow> recent_sends ts i since' \<le> recent_sends ts i since"
  unfolding recent_sends_def by (rule length_filter_mono) simp

lemma links_later: "now \<le> now' \<Longrightarrow> live_links ts i now' \<le> live_links ts i now"
  unfolding live_links_def by (rule length_filter_mono) (auto simp: active_for_def)

lemma sends_append [simp]: "recent_sends (ts @ us) i since = recent_sends ts i since + recent_sends us i since"
  by (simp add: recent_sends_def)

lemma links_append [simp]: "live_links (ts @ us) i now = live_links ts i now + live_links us i now"
  by (simp add: live_links_def)

lemma sends_invalidate [simp]: "recent_sends (invalidate_active j now ts) i since = recent_sends ts i since"
  by (induction ts) (simp_all add: recent_sends_def invalidate_active_def)

lemma active_invalidated:
  "active_for i now (if active_for j now t then t\<lparr>mt_consumed := Some now\<rparr> else t) \<longleftrightarrow> i \<noteq> j \<and> active_for i now t"
proof (cases "active_for j now t")
  case False
  then show ?thesis by (cases "i = j") simp_all
qed (auto simp: active_for_def)

lemma links_invalidate: "live_links (invalidate_active j now ts) i now = (if i = j then 0 else live_links ts i now)"
  unfolding live_links_def invalidate_active_def filter_map length_map comp_def active_invalidated by simp

lemma sends_filter: "recent_sends (filter P ts) i since \<le> recent_sends ts i since"
  unfolding recent_sends_def filter_filter by (rule length_filter_mono) simp

lemma links_filter: "live_links (filter P ts) i now \<le> live_links ts i now"
  unfolding live_links_def filter_filter by (rule length_filter_mono) simp

lemma bounds_issue: "link_bounds [issue_token hash now tid raw v] t i"
  by (simp add: link_bounds_def recent_sends_def live_links_def max_invite_sends_per_window_def)

lemma bounds_issue_other:
  "i \<noteq> iv_id v \<Longrightarrow> link_bounds (ts @ [issue_token hash now tid raw v]) t i = link_bounds ts t i"
  by (simp add: link_bounds_def recent_sends_def live_links_def active_for_def issue_token_def)

lemma owned_none:
  assumes "tokens_owned db" "find_invitation (ot_invitations db) i = None"
  shows "recent_sends (ot_tokens db) i since = 0" "live_links (ot_tokens db) i now = 0"
  using assms
  by (auto simp: tokens_owned_def list_all_iff recent_sends_def live_links_def active_for_def filter_empty_conv)

lemma owned_invalidate: "list_all (\<lambda>t. P (mt_invitation t)) (invalidate_active i now ts) = list_all (\<lambda>t. P (mt_invitation t)) ts"
  by (induction ts) (simp_all add: invalidate_active_def)

lemma find_invitation_iff: "find_invitation ivs i \<noteq> None \<longleftrightarrow> i \<in> iv_id ` set ivs"
  by (induction ivs) (auto simp: find_invitation_def)

lemma tokens_owned_iff:
  "tokens_owned db \<longleftrightarrow> list_all (\<lambda>t. case mt_invitation t of None \<Rightarrow> True | Some i \<Rightarrow> i \<in> iv_id ` set (ot_invitations db)) (ot_tokens db)"
  unfolding tokens_owned_def find_invitation_iff ..

section \<open>Every command keeps the bounds\<close>

lemma bounds_later: "link_bounds ts t i \<Longrightarrow> t \<le> t' \<Longrightarrow> link_bounds ts t' i"
  using sends_later [of "t - invite_send_window" "t' - invite_send_window" ts i] links_later [of t t' ts i]
  by (simp add: link_bounds_def)

lemma links_ok_later: "links_ok (t, db) \<Longrightarrow> t \<le> t' \<Longrightarrow> links_ok (t', db)"
  by (auto simp: links_ok_def intro: bounds_later)

lemma links_ok_same:
  assumes "links_ok (t, db)" "ot_tokens db' = ot_tokens db" "map iv_id (ot_invitations db') = map iv_id (ot_invitations db)"
  shows "links_ok (t, db')"
proof -
  have "iv_id ` set (ot_invitations db') = iv_id ` set (ot_invitations db)" using assms(3) by (metis list.set_map)
  show ?thesis using assms(1) unfolding links_ok_def tokens_owned_iff prod.case assms(2) \<open>iv_id ` _ = _\<close> .
qed

lemma links_ok_members:
  "ot_tokens (fst (remove_member_safe flt org c db)) = ot_tokens db"
  "ot_invitations (fst (remove_member_safe flt org c db)) = ot_invitations db"
  "ot_tokens (fst (leave flt org c db)) = ot_tokens db"
  "ot_invitations (fst (leave flt org c db)) = ot_invitations db"
  "ot_tokens (fst (update_member_role flt org c nr db)) = ot_tokens db"
  "ot_invitations (fst (update_member_role flt org c nr db)) = ot_invitations db"
  by (simp_all add: remove_member_safe_def leave_def update_member_role_def split: prod.splits option.splits)

lemma accept_tokens:
  "ot_tokens (fst (apply_invite_acceptance flt now i c db)) = ot_tokens db"
  "map iv_id (ot_invitations (fst (apply_invite_acceptance flt now i c db))) = map iv_id (ot_invitations db)"
  by (simp_all add: apply_invite_acceptance_def split: prod.splits option.splits)

lemma invite_links_ok:
  assumes "links_ok (now, db)"
  shows "links_ok (now, fst (invite_member_with_role flt uni hash now dw org inviter email r db))"
proof (cases "fst (invite_member_with_role flt uni hash now dw org inviter email r db) = db")
  case False
  define v where "v = \<lparr>iv_id = dw_invitation dw, iv_org = org, iv_inviter = inviter, iv_email = email, iv_role = r,
      iv_status = status_pending, iv_token = dw_storage dw, iv_expires = now + invite_ttl\<rparr>"
  define tok where "tok = issue_token hash now (dw_token dw) (dw_raw dw) v"
  have new: "find_invitation (ot_invitations db) (iv_id v) = None"
    and out: "fst (invite_member_with_role flt uni hash now dw org inviter email r db)
      = db\<lparr>ot_invitations := ot_invitations db @ [v], ot_tokens := ot_tokens db @ [tok]\<rparr>"
    using False unfolding invite_member_with_role_def Let_def v_def [symmetric] tok_def [symmetric]
    by (simp_all split: if_splits)
  have owned: "tokens_owned db" using assms by (simp add: links_ok_def)
  have "link_bounds (ot_tokens db @ [tok]) now i" for i
  proof (cases "i = iv_id v")
    case True
    have "link_bounds [tok] now i" using True by (simp add: tok_def bounds_issue)
    then show ?thesis unfolding link_bounds_def True sends_append links_append owned_none [OF owned new] by simp
  next
    case other: False
    then show ?thesis using assms unfolding tok_def by (simp add: links_ok_def bounds_issue_other)
  qed
  moreover have "tokens_owned (db\<lparr>ot_invitations := ot_invitations db @ [v], ot_tokens := ot_tokens db @ [tok]\<rparr>)"
    using owned by (auto simp: tokens_owned_iff list_all_iff tok_def issue_token_def split: option.splits)
  ultimately show ?thesis unfolding out by (auto simp: links_ok_def)
qed (simp add: assms)

lemma resend_links_ok:
  assumes "links_ok (now, db)"
  shows "links_ok (now, fst (resend_invite flt hash now dw org i db))"
proof (cases "fst (resend_invite flt hash now dw org i db) = db")
  case False
  then obtain v where v: "locked_pending flt db org i = Inr v"
    by (cases "locked_pending flt db org i") (simp_all add: resend_invite_def split: if_splits)
  then have "find_invitation (ot_invitations db) i = Some v"
    by (simp add: locked_pending_def split: if_splits option.splits)
  then have id: "iv_id v = i" and mem: "v \<in> set (ot_invitations db)"
    by (auto simp: find_invitation_def find_Some_iff)
  define v' where "v' = v\<lparr>iv_expires := now + invite_ttl, iv_token := dw_storage dw\<rparr>"
  have id': "iv_id v' = i" by (simp add: v'_def id)
  define tok where "tok = issue_token hash now (dw_token dw) (dw_raw dw) v'"
  have few: "recent_sends (ot_tokens db) i (now - invite_send_window) < max_invite_sends_per_window"
    and out: "fst (resend_invite flt hash now dw org i db)
      = db\<lparr>ot_invitations := map (\<lambda>x. if iv_id x = i then v' else x) (ot_invitations db),
           ot_tokens := invalidate_active i now (ot_tokens db) @ [tok]\<rparr>"
    using False unfolding resend_invite_def v sum.case Let_def v'_def [symmetric] tok_def [symmetric]
    by (simp_all split: if_splits)
  have ids: "map iv_id (map (\<lambda>x. if iv_id x = i then v' else x) (ot_invitations db)) = map iv_id (ot_invitations db)"
    by (simp add: id')
  have "link_bounds (invalidate_active i now (ot_tokens db) @ [tok]) now j" for j
  proof (cases "j = i")
    case True
    then show ?thesis using few
      by (simp add: link_bounds_def links_invalidate) (simp add: recent_sends_def live_links_def)
  next
    case other: False
    then have "link_bounds (invalidate_active i now (ot_tokens db) @ [tok]) now j = link_bounds (ot_tokens db) now j"
      unfolding tok_def by (subst bounds_issue_other) (simp_all add: id' link_bounds_def links_invalidate)
    with assms show ?thesis by (simp add: links_ok_def)
  qed
  moreover have "tokens_owned (fst (resend_invite flt hash now dw org i db))" (is "tokens_owned ?db'")
  proof -
    define known where "known = iv_id ` set (ot_invitations db)"
    have invs: "ot_invitations ?db' = map (\<lambda>x. if iv_id x = i then v' else x) (ot_invitations db)" unfolding out by simp
    have "set (map iv_id (map (\<lambda>x. if iv_id x = i then v' else x) (ot_invitations db))) = set (map iv_id (ot_invitations db))"
      unfolding ids ..
    then have same: "iv_id ` set (ot_invitations ?db') = known" unfolding known_def invs list.set_map .
    have toks: "ot_tokens ?db' = invalidate_active i now (ot_tokens db) @ [tok]" unfolding out by simp
    have "i \<in> known" using mem id by (auto simp: known_def)
    moreover have "list_all (\<lambda>t. case mt_invitation t of None \<Rightarrow> True | Some i \<Rightarrow> i \<in> known) (ot_tokens db)"
      using assms unfolding links_ok_def tokens_owned_iff known_def by simp
    ultimately show ?thesis
      unfolding tokens_owned_iff same toks list_all_append owned_invalidate by (simp add: tok_def issue_token_def id')
  qed
  ultimately show ?thesis unfolding links_ok_def prod.case by (auto simp: out)
qed (simp add: assms)

lemma revoke_links_ok:
  assumes "links_ok (now, db)"
  shows "links_ok (now, fst (revoke_invite flt org i db))"
proof (cases "fst (revoke_invite flt org i db) = db")
  case False
  then obtain v where v: "locked_pending flt db org i = Inr v"
    by (cases "locked_pending flt db org i") (simp_all add: revoke_invite_def split: if_splits)
  have out: "fst (revoke_invite flt org i db) = db\<lparr>ot_invitations := filter (\<lambda>x. iv_id x \<noteq> i) (ot_invitations db),
      ot_tokens := filter (\<lambda>t. mt_invitation t \<noteq> Some i) (ot_tokens db)\<rparr>"
    using False unfolding revoke_invite_def v sum.case by (simp split: if_splits)
  have "link_bounds (filter (\<lambda>t. mt_invitation t \<noteq> Some i) (ot_tokens db)) now j" for j
    using assms sends_filter [of "\<lambda>t. mt_invitation t \<noteq> Some i" "ot_tokens db" j "now - invite_send_window"]
      links_filter [of "\<lambda>t. mt_invitation t \<noteq> Some i" "ot_tokens db" j now]
    by (auto simp: links_ok_def link_bounds_def intro: order_trans)
  moreover have "tokens_owned (db\<lparr>ot_invitations := filter (\<lambda>x. iv_id x \<noteq> i) (ot_invitations db),
      ot_tokens := filter (\<lambda>t. mt_invitation t \<noteq> Some i) (ot_tokens db)\<rparr>)"
    using assms by (auto simp: links_ok_def tokens_owned_iff list_all_iff split: option.splits)
  ultimately show ?thesis unfolding out by (auto simp: links_ok_def)
qed (simp add: assms)

lemma links_step: "links_ok s \<Longrightarrow> links_ok (invite_step uni hash s ev)"
proof -
  assume ok: "links_ok s"
  obtain t db dt cmd where s: "s = (t, db)" "ev = (dt, cmd)" by (metis surj_pair)
  have now: "links_ok (t + int dt, db)" using ok links_ok_later [of t db "t + int dt"] s by simp
  show ?thesis
    unfolding s invite_step_def prod.case org_step_def
    using now
    by (cases cmd) (auto intro: invite_links_ok resend_links_ok revoke_links_ok links_ok_same
        simp: links_ok_members accept_tokens)
qed

interpretation links: machine_inv "invite_step uni hash" links_ok
  by unfold_locales (rule links_step)

section \<open>Properties\<close>

text \<open>
  C12. The operations on an organization's members implement a map from customers to roles.
  Removing a member and leaving delete the entry, changing a role replaces it; a removal or
  demotion of the only admin answers \<open>ErrLastAdmin\<close>, leaving as the only member
  \<open>ErrLastMember\<close>, an absent member \<open>ErrMemberNotFound\<close>, and then nothing changes. Other
  organizations' maps stay as they are.
\<close>
theorem membership_refines:
  assumes "members_ok (ot_members db)"
  shows "(roles_of (ot_members (fst (remove_member_safe (\<lambda>k. False) org c db))) org, snd (remove_member_safe (\<lambda>k. False) org c db))
        = abs_remove c (roles_of (ot_members db) org)
    \<and> (roles_of (ot_members (fst (leave (\<lambda>k. False) org c db))) org, snd (leave (\<lambda>k. False) org c db))
        = abs_leave c (roles_of (ot_members db) org)
    \<and> (roles_of (ot_members (fst (update_member_role (\<lambda>k. False) org c nr db))) org,
        (case snd (update_member_role (\<lambda>k. False) org c nr db) of Inl e \<Rightarrow> Some e | Inr r \<Rightarrow> None))
        = abs_set_role c nr (roles_of (ot_members db) org)
    \<and> (org' \<noteq> org \<longrightarrow>
        roles_of (ot_members (fst (remove_member_safe (\<lambda>k. False) org c db))) org' = roles_of (ot_members db) org'
      \<and> roles_of (ot_members (fst (leave (\<lambda>k. False) org c db))) org' = roles_of (ot_members db) org'
      \<and> roles_of (ot_members (fst (update_member_role (\<lambda>k. False) org c nr db))) org' = roles_of (ot_members db) org')"
  using remove_refines [OF assms] leave_refines [OF assms] set_role_refines [OF assms] other_org_roles by simp

definition demo_org :: org_tables where
  "demo_org = \<lparr>ot_customers = [\<lparr>cu_id = ''a'', cu_email = ''a@acme.dev'', cu_hash = [], cu_verified = None\<rparr>],
     ot_members = [\<lparr>mb_org = ''o1'', mb_customer = ''ann'', mb_role = ''ORG_ROLE_ADMIN''\<rparr>,
                   \<lparr>mb_org = ''o1'', mb_customer = ''bob'', mb_role = ''ORG_ROLE_VIEWER''\<rparr>],
     ot_invitations = [], ot_tokens = []\<rparr>"

lemma demo_org_ok: "members_ok (ot_members demo_org)"
  by (simp add: demo_org_def members_ok_def member_key_def role_is_valid_def role_string_simps)

lemma demo_org_roles: "roles_of (ot_members demo_org) ''o1'' ''ann'' = Some ''ORG_ROLE_ADMIN''"
  by (simp add: demo_org_def roles_of_def find_member_def member_at_def)

lemma membership_refines_witness:
  "abs_leave ''bob'' (roles_of (ot_members demo_org) ''o1'')
    = (roles_of (ot_members (fst (leave (\<lambda>k. False) ''o1'' ''bob'' demo_org))) ''o1'', None)"
proof -
  have "snd (leave (\<lambda>k. False) ''o1'' ''bob'' demo_org) = None"
    by (simp add: leave_def delete_if_not_last_def not_last_admin_def find_member_def member_at_def locked_def demo_org_def)
  then show ?thesis
    using membership_refines [OF demo_org_ok, of "''o1''" "''bob''" "''ORG_ROLE_ADMIN''" "''o2''"] by simp
qed

text \<open>
  C13. An organization that has an admin keeps one: whatever sequence of removals, departures,
  role changes, invitations, re-sends, revocations and acceptances runs on the tables, with
  any call of any of them failing.
\<close>
theorem org_keeps_admin:
  assumes "members_ok (ot_members db)" "roles_of (ot_members db) org c = Some ''ORG_ROLE_ADMIN''"
  shows "\<exists>c'. roles_of (ot_members (run_events (org_step uni hash) db evs)) org c' = Some ''ORG_ROLE_ADMIN''"
  using admins.run_inv [of org db uni hash evs] assms by (auto simp: has_admin_def)

lemma org_keeps_admin_witness:
  "\<exists>c'. roles_of (ot_members (run_events (org_step id id) demo_org
      [(0, CmdLeave (\<lambda>k. False) ''o1'' ''ann''), (1, CmdRemove (\<lambda>k. False) ''o1'' ''bob''),
       (2, CmdRole (\<lambda>k. False) ''o1'' ''ann'' ''ORG_ROLE_VIEWER'')])) ''o1'' c' = Some ''ORG_ROLE_ADMIN''"
  by (rule org_keeps_admin [OF demo_org_ok demo_org_roles])

text \<open>
  C14. Under a clock that does not go back, whatever the commands and failures: at most ten
  mails went out for an invitation in the trailing twenty-four hours, and at most one of its
  links is live.
\<close>
theorem invite_links_bounded:
  assumes "links_ok (t, db)"
  shows "recent_sends (ot_tokens (snd (run_events (invite_step uni hash) (t, db) evs))) i
          (fst (run_events (invite_step uni hash) (t, db) evs) - invite_send_window) \<le> 10
    \<and> live_links (ot_tokens (snd (run_events (invite_step uni hash) (t, db) evs))) i
          (fst (run_events (invite_step uni hash) (t, db) evs)) \<le> 1"
proof -
  obtain t' db' where run: "run_events (invite_step uni hash) (t, db) evs = (t', db')" by fastforce
  have "links_ok (t', db')" using links.run_inv [OF assms, of uni hash evs] run by simp
  then show ?thesis unfolding run by (simp add: links_ok_def link_bounds_def max_invite_sends_per_window_def)
qed

definition demo_draws :: draws where
  "demo_draws = \<lparr>dw_invitation = ''i1'', dw_storage = ''s1'', dw_token = ''t1'', dw_raw = ''r1''\<rparr>"

lemma demo_links: "links_ok (0, demo_org)"
  by (simp add: links_ok_def link_bounds_def tokens_owned_def recent_sends_def live_links_def demo_org_def)

lemma invite_links_bounded_witness:
  "live_links (ot_tokens (snd (run_events (invite_step id id) (0, demo_org)
      [(1, CmdInvite (\<lambda>k. False) demo_draws ''o1'' ''ann'' ''eve@acme.dev'' ''ORG_ROLE_VIEWER''),
       (2, CmdResend (\<lambda>k. False) demo_draws ''o1'' ''i1'')]))) ''i1'' 3 \<le> 1"
  using invite_links_bounded [OF demo_links, of id id "[(1, CmdInvite (\<lambda>k. False) demo_draws ''o1'' ''ann'' ''eve@acme.dev'' ''ORG_ROLE_VIEWER''),
       (2, CmdResend (\<lambda>k. False) demo_draws ''o1'' ''i1'')]" "''i1''"]
  by (simp add: invite_step_def)

end
