(* ===== verification/Role_Cache.thy ===== *)
theory Role_Cache
  imports Membership_Laws
begin

text \<open>
  The role cache of \<open>internal/core/orgs/service.go\<close>: \<open>GetMemberRole\<close>, its two Redis scripts and
  the invalidation that follows a removal, a departure or a role change. The cache holds one
  value and one generation counter per member; the machine below is about one member, whose
  readers run interleaved with the commands of \<open>org_step\<close> and with a read replica that replays
  the primary's commits in order.
\<close>

section \<open>The code\<close>

datatype cache_call = CcGet | CcDel | CcGen | CcRead | CcPopulate

text \<open>The generation is \<open>None\<close> while the counter does not exist, the code's empty string.\<close>

definition populate_script :: "nat option \<Rightarrow> nat option \<Rightarrow> string \<Rightarrow> string option \<Rightarrow> string option" where
  "populate_script gen observed r value = (if gen = observed then Some r else value)"

definition invalidate_script :: "nat option \<times> string option \<Rightarrow> nat option \<times> string option" where
  "invalidate_script gv = (Some (case fst gv of None \<Rightarrow> 1 | Some n \<Rightarrow> Suc n), None)"

text \<open>Up to the database read: a hit, or the generation observed; and the cached value after.\<close>

definition begin_read :: "(cache_call \<Rightarrow> bool) \<Rightarrow> nat option \<Rightarrow> string option \<Rightarrow> (role, nat option) result \<times> string option" where
  "begin_read flt gen value =
     (let observed = (if flt CcGen then None else gen)
      in case (if flt CcGet then None else value) of
           None \<Rightarrow> (Inr observed, value)
         | Some s \<Rightarrow> (case parse_role s of
                        Some r \<Rightarrow> (Inl r, value)
                      | None \<Rightarrow> (Inr observed, if flt CcDel then value else None)))"

definition read_role :: "(cache_call \<Rightarrow> bool) \<Rightarrow> string option \<Rightarrow> (org_error, role) result" where
  "read_role flt row =
     (if flt CcRead then Inl OrgDb
      else case row of
        None \<Rightarrow> Inl ErrMemberNotFound
      | Some raw \<Rightarrow> (case parse_role raw of None \<Rightarrow> Inl InvalidRole | Some r \<Rightarrow> Inr r))"

definition end_read :: "(cache_call \<Rightarrow> bool) \<Rightarrow> nat option \<Rightarrow> nat option \<Rightarrow> role \<Rightarrow> string option \<Rightarrow> string option" where
  "end_read flt gen observed r value = (if flt CcPopulate then value else populate_script gen observed (role_string r) value)"

text \<open>The call with nothing in between: what it answers and the value it leaves.\<close>

definition get_member_role :: "(cache_call \<Rightarrow> bool) \<Rightarrow> nat option \<Rightarrow> string option \<Rightarrow> string option
    \<Rightarrow> (org_error, role) result \<times> string option" where
  "get_member_role flt gen row value =
     (case begin_read flt gen value of
        (Inl r, value1) \<Rightarrow> (Inr r, value1)
      | (Inr observed, value1) \<Rightarrow>
          (case read_role flt row of
             Inl e \<Rightarrow> (Inl e, value1)
           | Inr r \<Rightarrow> (Inr r, end_read flt gen observed r value1)))"

text \<open>The member whose entry a command invalidates: only one that took effect.\<close>

definition invalidates :: "org_tables \<Rightarrow> org_cmd \<Rightarrow> (string \<times> string) option" where
  "invalidates db cmd =
     (case cmd of
        CmdRemove flt org c \<Rightarrow> if snd (remove_member_safe flt org c db) = None then Some (org, c) else None
      | CmdLeave flt org c \<Rightarrow> if snd (leave flt org c db) = None then Some (org, c) else None
      | CmdRole flt org c r \<Rightarrow> if is_ok (snd (update_member_role flt org c r db)) then Some (org, c) else None
      | _ \<Rightarrow> None)"

section \<open>Readers beside commands\<close>

datatype reader = Observed "nat option" | HasRole "nat option" role

record cache_state =
  rc_tables :: org_tables
  rc_replica :: "string option" \<comment> \<open>the member's role on the replica\<close>
  rc_log :: "string option list" \<comment> \<open>what the replica has still to replay\<close>
  rc_value :: "string option"
  rc_gen :: "nat option"
  rc_readers :: "reader list"
  rc_pending :: nat \<comment> \<open>commands that committed and have not run their invalidation\<close>

definition replace_at :: "nat \<Rightarrow> 'a list \<Rightarrow> 'a list \<Rightarrow> 'a list" where
  "replace_at i ys xs = take i xs @ ys @ drop (Suc i) xs"

datatype cache_event =
    EvCommand time org_cmd
  | EvInvalidate bool
  | EvBegin "cache_call \<Rightarrow> bool"
  | EvRead nat "cache_call \<Rightarrow> bool"
  | EvEnd nat "cache_call \<Rightarrow> bool"
  | EvReplay
  | EvValueExpires
  | EvGenExpires

text \<open>\<open>EvInvalidate False\<close> is an invalidation whose script call failed.\<close>

inductive cache_step :: "(nat \<Rightarrow> nat) \<Rightarrow> (string \<Rightarrow> string) \<Rightarrow> string \<Rightarrow> string \<Rightarrow> cache_state \<Rightarrow> cache_event \<Rightarrow> cache_state \<Rightarrow> bool"
  for uni hash org c where
  command: "db' = org_step uni hash (rc_tables s) (now, cmd) \<Longrightarrow>
    n = (if invalidates (rc_tables s) cmd = Some (org, c) then 1 else 0) \<Longrightarrow>
    cache_step uni hash org c s (EvCommand now cmd)
      (s\<lparr>rc_tables := db', rc_log := rc_log s @ [roles_of (ot_members db') org c], rc_pending := rc_pending s + n\<rparr>)"
| invalidate: "rc_pending s = Suc n \<Longrightarrow> invalidate_script (rc_gen s, rc_value s) = (g, v) \<Longrightarrow>
    cache_step uni hash org c s (EvInvalidate True) (s\<lparr>rc_gen := g, rc_value := v, rc_pending := n\<rparr>)"
| invalidate_lost: "rc_pending s = Suc n \<Longrightarrow> cache_step uni hash org c s (EvInvalidate False) (s\<lparr>rc_pending := n\<rparr>)"
| hit: "begin_read flt (rc_gen s) (rc_value s) = (Inl r, v) \<Longrightarrow>
    cache_step uni hash org c s (EvBegin flt) (s\<lparr>rc_value := v\<rparr>)"
| miss: "begin_read flt (rc_gen s) (rc_value s) = (Inr g, v) \<Longrightarrow>
    cache_step uni hash org c s (EvBegin flt) (s\<lparr>rc_value := v, rc_readers := rc_readers s @ [Observed g]\<rparr>)"
| read: "i < length (rc_readers s) \<Longrightarrow> rc_readers s ! i = Observed g \<Longrightarrow> read_role flt (rc_replica s) = Inr r \<Longrightarrow>
    cache_step uni hash org c s (EvRead i flt) (s\<lparr>rc_readers := replace_at i [HasRole g r] (rc_readers s)\<rparr>)"
| read_fails: "i < length (rc_readers s) \<Longrightarrow> rc_readers s ! i = Observed g \<Longrightarrow> read_role flt (rc_replica s) = Inl e \<Longrightarrow>
    cache_step uni hash org c s (EvRead i flt) (s\<lparr>rc_readers := replace_at i [] (rc_readers s)\<rparr>)"
| end_reader: "i < length (rc_readers s) \<Longrightarrow> rc_readers s ! i = HasRole g r \<Longrightarrow>
    cache_step uni hash org c s (EvEnd i flt)
      (s\<lparr>rc_value := end_read flt (rc_gen s) g r (rc_value s), rc_readers := replace_at i [] (rc_readers s)\<rparr>)"
| replay: "rc_log s = x # xs \<Longrightarrow> cache_step uni hash org c s EvReplay (s\<lparr>rc_replica := x, rc_log := xs\<rparr>)"
| value_expires: "cache_step uni hash org c s EvValueExpires (s\<lparr>rc_value := None\<rparr>)"
| gen_expires: "cache_step uni hash org c s EvGenExpires (s\<lparr>rc_gen := None\<rparr>)"



inductive cache_reach :: "(cache_state \<Rightarrow> cache_event \<Rightarrow> bool) \<Rightarrow> (nat \<Rightarrow> nat) \<Rightarrow> (string \<Rightarrow> string) \<Rightarrow> string \<Rightarrow> string
    \<Rightarrow> cache_state \<Rightarrow> cache_state \<Rightarrow> bool"
  for ok uni hash org c s0 where
  start: "cache_reach ok uni hash org c s0 s0"
| step: "cache_reach ok uni hash org c s0 s \<Longrightarrow> ok s e \<Longrightarrow> cache_step uni hash org c s e s' \<Longrightarrow> cache_reach ok uni hash org c s0 s'"

definition role_now :: "string \<Rightarrow> string \<Rightarrow> cache_state \<Rightarrow> string option" where
  "role_now org c s = roles_of (ot_members (rc_tables s)) org c"

text \<open>An empty cache over a replica that is up to date.\<close>

definition fresh_cache :: "string \<Rightarrow> string \<Rightarrow> org_tables \<Rightarrow> cache_state" where
  "fresh_cache org c db = \<lparr>rc_tables = db, rc_replica = roles_of (ot_members db) org c, rc_log = [], rc_value = None,
     rc_gen = None, rc_readers = [], rc_pending = 0\<rparr>"

text \<open>
  What the code relies on: every invalidation reaches Redis, a generation counter does not
  expire under a reader, and a reader's row is not behind the primary.
\<close>

definition invalidations_land :: "cache_state \<Rightarrow> cache_event \<Rightarrow> bool" where
  "invalidations_land s e = (case e of EvInvalidate landed \<Rightarrow> landed | EvGenExpires \<Rightarrow> rc_readers s = [] | _ \<Rightarrow> True)"

definition replica_current :: "cache_state \<Rightarrow> cache_event \<Rightarrow> bool" where
  "replica_current s e = (case e of EvRead i flt \<Rightarrow> rc_log s = [] | _ \<Rightarrow> True)"

section \<open>What a command does to one member\<close>

lemma failed_member_ops:
  "snd (remove_member_safe flt org c db) \<noteq> None \<Longrightarrow> fst (remove_member_safe flt org c db) = db"
  "snd (leave flt org c db) \<noteq> None \<Longrightarrow> fst (leave flt org c db) = db"
  "\<not> is_ok (snd (update_member_role flt org c nr db)) \<Longrightarrow> fst (update_member_role flt org c nr db) = db"
  by (auto simp: remove_member_safe_def leave_def update_member_role_def split: prod.splits option.splits if_splits)

lemma other_key_rows:
  assumes "(g, m) \<noteq> (org, c)"
  shows "rows' \<in> {rows, filter (\<lambda>r. \<not> member_at org c r) rows} \<Longrightarrow> roles_of rows' g m = roles_of rows g m"
    "rows' = rows \<or> P \<and> rows' = map (\<lambda>x. if member_at org c x then x\<lparr>mb_role := nr\<rparr> else x) rows \<Longrightarrow> roles_of rows' g m = roles_of rows g m"
  using assms roles_filter [of org c rows g m] roles_set [of org c nr rows g m] by auto

lemma other_key_roles:
  assumes "(g, m) \<noteq> (org, c)"
  shows "roles_of (ot_members (fst (remove_member_safe flt org c db))) g m = roles_of (ot_members db) g m"
    "roles_of (ot_members (fst (leave flt org c db))) g m = roles_of (ot_members db) g m"
    "roles_of (ot_members (fst (update_member_role flt org c nr db))) g m = roles_of (ot_members db) g m"
  using faulted_members(1) [of flt org c db] other_key_rows(1) [OF assms remove_rows [of org c db]] apply metis
  using faulted_members(2) [of flt org c db] other_key_rows(1) [OF assms leave_rows [of org c db]] apply metis
  using faulted_members(3) [of flt org c nr db] other_key_rows(2) [OF assms set_role_rows [of org c nr db]] apply metis
  done

lemma accept_roles:
  "roles_of (ot_members (fst (apply_invite_acceptance flt now i c' db))) g m = roles_of (ot_members db) g m \<or> roles_of (ot_members db) g m = None"
  using accept_members [of flt now i c' db] insert_keeps_roles [of "ot_members db" g m]
  by (cases "roles_of (ot_members db) g m") auto

text \<open>Nothing takes a role away or replaces it without invalidating the member's entry.\<close>

lemma command_effect:
  "roles_of (ot_members (org_step uni hash db (now, cmd))) org c = roles_of (ot_members db) org c
    \<or> roles_of (ot_members db) org c = None \<or> invalidates db cmd = Some (org, c)"
proof (cases cmd)
  case (CmdRemove flt g m)
  then show ?thesis
    using failed_member_ops(1) [of flt g m db] other_key_roles(1) [of org c g m flt db]
    by (cases "(org, c) = (g, m)"; cases "snd (remove_member_safe flt g m db)") (simp_all add: org_step_def invalidates_def)
next
  case (CmdLeave flt g m)
  then show ?thesis
    using failed_member_ops(2) [of flt g m db] other_key_roles(2) [of org c g m flt db]
    by (cases "(org, c) = (g, m)"; cases "snd (leave flt g m db)") (simp_all add: org_step_def invalidates_def)
next
  case (CmdRole flt g m nr)
  then show ?thesis
    using failed_member_ops(3) [of flt g m nr db] other_key_roles(3) [of org c g m flt nr db]
    by (cases "(org, c) = (g, m)"; cases "is_ok (snd (update_member_role flt g m nr db))") (simp_all add: org_step_def invalidates_def)
next
  case (CmdAccept flt i m)
  then show ?thesis using accept_roles [of flt now i m db org c] by (auto simp: org_step_def)
qed (simp_all add: org_step_def)

section \<open>Coherence\<close>

definition gen_le :: "nat option \<Rightarrow> nat option \<Rightarrow> bool" where
  "gen_le a b = (case a of None \<Rightarrow> True | Some m \<Rightarrow> (case b of None \<Rightarrow> False | Some n \<Rightarrow> m \<le> n))"

definition reader_gen :: "reader \<Rightarrow> nat option" where
  "reader_gen rd = (case rd of Observed g \<Rightarrow> g | HasRole g r \<Rightarrow> g)"

text \<open>A role some reader or the cache holds is the member's own, or an invalidation is due.\<close>

definition backed :: "string \<Rightarrow> string \<Rightarrow> cache_state \<Rightarrow> string \<Rightarrow> bool" where
  "backed org c s v = (role_now org c s = Some v \<or> 0 < rc_pending s)"

definition reader_ok :: "string \<Rightarrow> string \<Rightarrow> cache_state \<Rightarrow> reader \<Rightarrow> bool" where
  "reader_ok org c s rd = (gen_le (reader_gen rd) (rc_gen s) \<and>
     (case rd of Observed g \<Rightarrow> True | HasRole g r \<Rightarrow> g = rc_gen s \<longrightarrow> backed org c s (role_string r)))"

definition coherent :: "string \<Rightarrow> string \<Rightarrow> cache_state \<Rightarrow> bool" where
  "coherent org c s = (last (rc_replica s # rc_log s) = role_now org c s
     \<and> list_all (reader_ok org c s) (rc_readers s) \<and> pred_option (backed org c s) (rc_value s))"

lemma gen_le_refl [simp]: "gen_le g g" "gen_le None g"
  by (simp_all add: gen_le_def split: option.splits)

lemma gen_le_bump: "gen_le g h \<Longrightarrow> invalidate_script (h, v) = (h', v') \<Longrightarrow> gen_le g h' \<and> g \<noteq> h' \<and> v' = None"
  by (auto simp: gen_le_def invalidate_script_def split: option.splits)

lemma list_all_replace: "list_all P xs \<Longrightarrow> list_all P ys \<Longrightarrow> list_all P (replace_at i ys xs)"
  by (auto simp: replace_at_def list_all_iff dest: in_set_takeD in_set_dropD)

lemma begin_read_value: "begin_read flt g v = (x, v') \<Longrightarrow> v' = v \<or> v' = None"
  by (auto simp: begin_read_def Let_def split: option.splits if_splits)

lemma begin_read_gen: "begin_read flt g v = (Inr h, v') \<Longrightarrow> gen_le h g"
  by (auto simp: begin_read_def Let_def split: option.splits if_splits)

lemma read_role_row: "read_role flt row = Inr r \<Longrightarrow> row = Some (role_string r)"
  by (auto simp: read_role_def parse_role_iff split: option.splits if_splits)

lemma readers_mono:
  assumes "list_all (reader_ok org c s) rds" "rc_gen s' = rc_gen s" "\<And>v. backed org c s v \<Longrightarrow> backed org c s' v"
  shows "list_all (reader_ok org c s') rds"
  using assms by (auto simp: list_all_iff reader_ok_def split: reader.splits)

lemma pred_option_mono_strong: "pred_option P x \<Longrightarrow> (\<And>v. x = Some v \<Longrightarrow> P v \<Longrightarrow> Q v) \<Longrightarrow> pred_option Q x"
  by (cases x) simp_all

lemma reader_ok_bumped:
  assumes "reader_ok org c s rd" "invalidate_script (rc_gen s, v) = (rc_gen s', v')"
  shows "reader_ok org c s' rd"
  using assms gen_le_bump [of "reader_gen rd" "rc_gen s" v "rc_gen s'" v']
  by (cases rd) (simp_all add: reader_ok_def reader_gen_def)

lemma list_all_nth: "list_all P xs \<Longrightarrow> i < length xs \<Longrightarrow> P (xs ! i)"
  by (simp add: list_all_length)

lemma coherent_step:
  assumes "coherent org c s" "cache_step uni hash org c s e s'" "invalidations_land s e" "replica_current s e"
  shows "coherent org c s'"
proof -
  have log: "last (rc_replica s # rc_log s) = role_now org c s" and rds: "list_all (reader_ok org c s) (rc_readers s)"
    and val: "pred_option (backed org c s) (rc_value s)"
    using assms(1) by (simp_all add: coherent_def)
  note same = readers_mono [OF rds] pred_option_mono_strong [OF val]
  show ?thesis
    using assms(2)
  proof cases
    case (command db' now cmd n)
    have "backed org c s' v" if "backed org c s v" for v
      using that command_effect [of uni hash "rc_tables s" now cmd org c] command
      by (auto simp: backed_def role_now_def)
    then show ?thesis using command same by (simp add: coherent_def role_now_def)
  next
    case (invalidate n g v)
    have "list_all (reader_ok org c s') (rc_readers s)"
      using rds reader_ok_bumped [of org c s _ "rc_value s" s' v] invalidate by (auto simp: list_all_iff)
    moreover have "v = None" using invalidate(4) by (simp add: invalidate_script_def)
    ultimately show ?thesis using invalidate log by (simp add: coherent_def role_now_def)
  next
    case (invalidate_lost n)
    then show ?thesis using assms(3) by (simp add: invalidations_land_def)
  next
    case (hit flt r v)
    then show ?thesis
      using begin_read_value [OF hit(3)] log same by (auto simp: coherent_def role_now_def backed_def)
  next
    case (miss flt g v)
    then have "reader_ok org c s' (Observed g)" using begin_read_gen [OF miss(3)] by (simp add: reader_ok_def reader_gen_def)
    then show ?thesis
      using miss begin_read_value [OF miss(3)] log same by (auto simp: coherent_def role_now_def backed_def)
  next
    case (read i g flt r)
    have "reader_ok org c s (Observed g)" using rds read(3,4) list_all_nth by metis
    moreover have "backed org c s (role_string r)"
      using read_role_row [OF read(5)] log assms(4) read(1) by (simp add: backed_def replica_current_def)
    ultimately have "reader_ok org c s (HasRole g r)" by (simp add: reader_ok_def reader_gen_def)
    then have "list_all (reader_ok org c s) (replace_at i [HasRole g r] (rc_readers s))"
      using rds by (intro list_all_replace) simp_all
    with readers_mono [OF this] show ?thesis using read log same by (simp add: coherent_def role_now_def backed_def)
  next
    case (read_fails i g flt e)
    have "list_all (reader_ok org c s) (replace_at i [] (rc_readers s))" using rds by (intro list_all_replace) simp_all
    with readers_mono [OF this] show ?thesis using read_fails log same by (simp add: coherent_def role_now_def backed_def)
  next
    case (end_reader i g r flt)
    have "reader_ok org c s (HasRole g r)" using rds end_reader(3,4) list_all_nth by metis
    then have "pred_option (backed org c s) (end_read flt (rc_gen s) g r (rc_value s))"
      using val by (simp add: end_read_def populate_script_def reader_ok_def)
    moreover have "list_all (reader_ok org c s) (replace_at i [] (rc_readers s))" using rds by (intro list_all_replace) simp_all
    ultimately show ?thesis
      using readers_mono [of org c s "replace_at i [] (rc_readers s)" s'] end_reader log
      by (auto simp: coherent_def role_now_def backed_def elim: pred_option_mono_strong)
  next
    case (replay x xs)
    then show ?thesis using log same by (simp add: coherent_def role_now_def backed_def)
  next
    case value_expires
    then show ?thesis using log same by (simp add: coherent_def role_now_def backed_def)
  next
    case gen_expires
    then show ?thesis using log same assms(3) by (simp add: coherent_def role_now_def backed_def invalidations_land_def)
  qed
qed

lemma fresh_coherent: "coherent org c (fresh_cache org c db)"
  by (simp add: coherent_def fresh_cache_def role_now_def)

definition careful :: "cache_state \<Rightarrow> cache_event \<Rightarrow> bool" where
  "careful s e = (invalidations_land s e \<and> replica_current s e)"

lemma reach_coherent: "cache_reach careful uni hash org c (fresh_cache org c db) s \<Longrightarrow> coherent org c s"
proof (induction rule: cache_reach.induct)
  case start
  show ?case by (rule fresh_coherent)
next
  case (step s e s')
  then show ?case using coherent_step by (auto simp: careful_def)
qed

text \<open>What an uninterrupted call answers: the cached role or the row's, and it caches only that.\<close>

lemma get_member_role_answers:
  assumes "get_member_role flt gen row value = (Inr r, value')"
  shows "(value = Some (role_string r) \<or> row = Some (role_string r)) \<and> value' \<in> {value, None, Some (role_string r)}"
proof (cases "begin_read flt gen value")
  case (Pair x v)
  have v: "v = value \<or> v = None" by (rule begin_read_value [OF Pair])
  show ?thesis
  proof (cases x)
    case (Inl r')
    then have "value = Some (role_string r')"
      using Pair by (auto simp: begin_read_def Let_def parse_role_iff split: option.splits if_splits)
    with Inl Pair assms v show ?thesis unfolding get_member_role_def by auto
  next
    case (Inr g)
    then obtain q where q: "read_role flt row = Inr q" "q = r" "value' = end_read flt gen g q v"
      using assms Pair by (auto simp: get_member_role_def split: sum.splits)
    then show ?thesis using read_role_row [OF q(1)] v by (auto simp: end_read_def populate_script_def)
  qed
qed

lemma careful_answer_is_current:
  assumes "cache_reach careful uni hash org c (fresh_cache org c db) s" "rc_pending s = 0" "rc_log s = []"
    and "get_member_role flt (rc_gen s) (rc_replica s) (rc_value s) = (Inr r, v')"
  shows "role_now org c s = Some (role_string r)"
  using reach_coherent [OF assms(1)] assms(2,3) get_member_role_answers [OF assms(4)] by (auto simp: coherent_def backed_def)

text \<open>
  C15. As long as every invalidation reaches Redis, no generation counter expires under a
  reader and no reader's row is behind the primary, a role is never left in the cache: once the
  invalidations of the committed commands have run, a cached role is the one in the
  database, however the readers interleave with the commands; and so is the role an
  uninterrupted call answers.
\<close>
theorem role_cache_coherent:
  assumes "cache_reach careful uni hash org c (fresh_cache org c db) s" "rc_pending s = 0"
  shows "(rc_value s = Some v \<longrightarrow> role_now org c s = Some v)
    \<and> (rc_log s = [] \<and> get_member_role flt (rc_gen s) (rc_replica s) (rc_value s) = (Inr r, v')
        \<longrightarrow> role_now org c s = Some (role_string r))"
proof -
  have coh: "coherent org c s" using assms(1) by (rule reach_coherent)
  have held: "role_now org c s = Some v" if "rc_value s = Some v" for v
    using coh that assms(2) by (simp add: coherent_def backed_def)
  moreover have "role_now org c s = Some (role_string r)"
    if "rc_log s = []" "get_member_role flt (rc_gen s) (rc_replica s) (rc_value s) = (Inr r, v')"
    using get_member_role_answers [OF that(2)] held coh that(1) by (auto simp: coherent_def)
  ultimately show ?thesis by blast
qed

definition demo_members :: org_tables where
  "demo_members = \<lparr>ot_customers = [],
     ot_members = [\<lparr>mb_org = ''o1'', mb_customer = ''ann'', mb_role = ''ORG_ROLE_ADMIN''\<rparr>,
                   \<lparr>mb_org = ''o1'', mb_customer = ''bob'', mb_role = ''ORG_ROLE_VIEWER''\<rparr>],
     ot_invitations = [], ot_tokens = []\<rparr>"

lemma demo_bob: "roles_of (ot_members demo_members) ''o1'' ''bob'' = Some ''ORG_ROLE_VIEWER''"
  by (simp add: demo_members_def roles_of_def find_member_def member_at_def)

text \<open>A reader that is alone fills the cache.\<close>

lemma fill_reach:
  assumes "cache_reach ok uni hash org c s0 s" "rc_readers s = []" "rc_value s = None" "rc_replica s = Some (role_string r)"
    "\<And>s flt. ok s (EvBegin flt)" "\<And>s flt. ok s (EvEnd 0 flt)" "\<And>s' flt. rc_log s' = rc_log s \<Longrightarrow> ok s' (EvRead 0 flt)"
  shows "cache_reach ok uni hash org c s0 (s\<lparr>rc_value := Some (role_string r)\<rparr>)"
proof -
  let ?s1 = "s\<lparr>rc_value := None, rc_readers := [Observed (rc_gen s)]\<rparr>"
  let ?s2 = "?s1\<lparr>rc_readers := [HasRole (rc_gen s) r]\<rparr>"
  have "cache_step uni hash org c s (EvBegin (\<lambda>k. False)) ?s1"
    using cache_step.miss [of "\<lambda>k. False" s "rc_gen s" None] assms(2,3) by (simp add: begin_read_def)
  note r1 = cache_reach.step [OF assms(1,5) this]
  have "cache_step uni hash org c ?s1 (EvRead 0 (\<lambda>k. False)) ?s2"
    using cache_step.read [of 0 ?s1 "rc_gen s" "\<lambda>k. False" r] assms(4) parse_role_iff [of "role_string r" r]
    by (simp add: read_role_def replace_at_def)
  note r2 = cache_reach.step [OF r1 assms(7) this]
  have "s\<lparr>rc_readers := []\<rparr> = s" using assms(2) by (cases s) simp
  then have "s\<lparr>rc_value := Some (role_string r), rc_readers := []\<rparr> = s\<lparr>rc_value := Some (role_string r)\<rparr>" by (cases s) simp
  moreover have "cache_step uni hash org c ?s2 (EvEnd 0 (\<lambda>k. False)) (s\<lparr>rc_value := Some (role_string r), rc_readers := []\<rparr>)"
    using cache_step.end_reader [of 0 ?s2 "rc_gen s" r, where flt = "\<lambda>k. False"]
    by (simp add: end_read_def populate_script_def replace_at_def)
  ultimately show ?thesis using cache_reach.step [OF r2 assms(6)] by simp
qed

abbreviation demo_cache :: cache_state where
  "demo_cache \<equiv> fresh_cache ''o1'' ''bob'' demo_members"

lemma role_cache_coherent_witness:
  "role_now ''o1'' ''bob'' (demo_cache\<lparr>rc_value := Some (role_string RoleViewer)\<rparr>) = Some (role_string RoleViewer)"
proof -
  have "cache_reach careful id id ''o1'' ''bob'' demo_cache (demo_cache\<lparr>rc_value := Some (role_string RoleViewer)\<rparr>)"
    by (rule fill_reach [OF cache_reach.start])
      (simp_all add: fresh_cache_def demo_bob role_string_simps careful_def invalidations_land_def replica_current_def)
  then show ?thesis using role_cache_coherent [where v = "role_string RoleViewer"] by (simp add: fresh_cache_def)
qed

text \<open>
  A replica that is behind defeats the generation guard, which the comments on it do not
  say: with every invalidation landed and no counter expired, a member who was removed is
  left in the cache with his old role after the removal's invalidation ran, because the row
  was read from the replica.
\<close>
theorem lagging_replica_caches_removed_role:
  "\<exists>s. cache_reach invalidations_land id id ''o1'' ''bob'' (fresh_cache ''o1'' ''bob'' demo_members) s
    \<and> rc_pending s = 0 \<and> rc_log s = [] \<and> rc_readers s = []
    \<and> role_now ''o1'' ''bob'' s = None \<and> rc_value s = Some (role_string RoleViewer)"
proof -
  let ?cmd = "CmdRemove (\<lambda>k. False) ''o1'' ''bob''"
  define db' where "db' = org_step id id demo_members (0, ?cmd)"
  have gone: "roles_of (ot_members db') ''o1'' ''bob'' = None"
    and inval: "invalidates demo_members ?cmd = Some (''o1'', ''bob'')"
    by (simp_all add: db'_def org_step_def invalidates_def remove_member_safe_def delete_if_not_last_admin_def not_last_admin_def
        find_member_def member_at_def admin_count_def locked_def demo_members_def roles_of_def)
  let ?s1 = "demo_cache\<lparr>rc_tables := db', rc_log := [None], rc_pending := 1\<rparr>"
  let ?s2 = "?s1\<lparr>rc_gen := Some 1, rc_value := None, rc_pending := 0\<rparr>"
  let ?s3 = "?s2\<lparr>rc_value := Some (role_string RoleViewer)\<rparr>"
  let ?s4 = "?s3\<lparr>rc_replica := None, rc_log := []\<rparr>"
  have "cache_step id id ''o1'' ''bob'' demo_cache (EvCommand 0 ?cmd) ?s1"
    using cache_step.command [of db' id id demo_cache 0 ?cmd 1 "''o1''" "''bob''"] gone inval
    by (simp add: db'_def fresh_cache_def)
  note r1 = cache_reach.step [OF cache_reach.start _ this, of invalidations_land]
  have "cache_step id id ''o1'' ''bob'' ?s1 (EvInvalidate True) ?s2"
    using cache_step.invalidate [of ?s1 0 "Some 1" None] by (simp add: invalidate_script_def fresh_cache_def)
  note r2 = cache_reach.step [OF r1 _ this]
  have r3: "cache_reach invalidations_land id id ''o1'' ''bob'' demo_cache ?s3"
    by (rule fill_reach [OF r2])
      (simp_all add: invalidations_land_def fresh_cache_def demo_bob role_string_simps)
  have "cache_step id id ''o1'' ''bob'' ?s3 EvReplay ?s4"
    using cache_step.replay [of ?s3 None "[]"] by (simp add: fresh_cache_def)
  from cache_reach.step [OF r3 _ this] have "cache_reach invalidations_land id id ''o1'' ''bob'' demo_cache ?s4"
    by (simp add: invalidations_land_def)
  then show ?thesis using gone by (intro exI [of _ ?s4]) (simp add: role_now_def fresh_cache_def)
qed

end
