(* ===== verification/Event_Store.thy ===== *)
theory Event_Store
  imports Go_Time
begin

text \<open>
  The ClickHouse tables that hold what a project sent, and the deletes that retention and
  purge queue on them. A delete is a mutation: it is queued by one statement, runs later on
  the rows that were there when it was queued, and stays listed in \<open>system.mutations\<close>
  until it is done. ClickHouse itself is not modelled beyond that: when a mutation runs, and
  which later rows it misses, are arguments of its step.
\<close>

section \<open>Tables and mutations\<close>

datatype ch_table =
    TEvents | TProfiles | TProfileAliases | TActivityStates | TRollupDaily | TEventNames | TPropertyKeys | TProfileKeysCurrent

definition table_name :: "ch_table \<Rightarrow> string" where
  "table_name t =
     (case t of TEvents \<Rightarrow> ''events'' | TProfiles \<Rightarrow> ''profiles'' | TProfileAliases \<Rightarrow> ''profile_aliases''
      | TActivityStates \<Rightarrow> ''distinct_id_activity_states'' | TRollupDaily \<Rightarrow> ''dashboard_event_rollup_daily''
      | TEventNames \<Rightarrow> ''event_names'' | TPropertyKeys \<Rightarrow> ''property_keys_event_buckets''
      | TProfileKeysCurrent \<Rightarrow> ''property_keys_profile_current'')"

text \<open>
  A row with the columns the deletes read: the project, the key of a table of merged states,
  and what dates the row: an instant, or in the daily rollup a day number of the server's
  own calendar.
\<close>

record ch_row =
  cw_project :: string
  cw_key :: string
  cw_at :: int

datatype delete_cond = OfProject string | BeforeCut "string list" time

record mutation =
  mu_table :: ch_table
  mu_cond :: delete_cond
  mu_fail :: string

record event_store =
  es_rows :: "ch_table \<Rightarrow> ch_row list"
  es_mutations :: "mutation list"

text \<open>
  How a table dates its rows against a cut: by the row's own column, by the server's local
  date (\<open>tz\<close> reads it off an instant), or by the latest state of the row's key.
\<close>

definition row_before :: "(time \<Rightarrow> int) \<Rightarrow> ch_table \<Rightarrow> ch_row list \<Rightarrow> time \<Rightarrow> ch_row \<Rightarrow> bool" where
  "row_before tz t rows lim r =
     (if t = TRollupDaily then cw_at r < tz lim
      else if t = TActivityStates \<or> t = TEventNames
      then list_all (\<lambda>s. cw_project s = cw_project r \<and> cw_key s = cw_key r \<longrightarrow> cw_at s < lim) rows
      else cw_at r < lim)"

definition selects :: "(time \<Rightarrow> int) \<Rightarrow> ch_table \<Rightarrow> ch_row list \<Rightarrow> delete_cond \<Rightarrow> ch_row \<Rightarrow> bool" where
  "selects tz t rows cond r =
     (case cond of
        OfProject p \<Rightarrow> cw_project r = p
      | BeforeCut ids lim \<Rightarrow> cw_project r \<in> set ids \<and> row_before tz t rows lim r)"

text \<open>The project's id occurs in the command's text.\<close>

definition names_project :: "string \<Rightarrow> delete_cond \<Rightarrow> bool" where
  "names_project p cond = (case cond of OfProject q \<Rightarrow> q = p | BeforeCut ids lim \<Rightarrow> p \<in> set ids)"

definition queue_mutation :: "ch_table \<Rightarrow> delete_cond \<Rightarrow> event_store \<Rightarrow> event_store" where
  "queue_mutation t cond es = es\<lparr>es_mutations := es_mutations es @ [\<lparr>mu_table = t, mu_cond = cond, mu_fail = []\<rparr>]\<rparr>"

section \<open>Steps of ClickHouse and of its writers\<close>

text \<open>A mutation done (\<open>late\<close> marks rows inserted after it was queued), one failing, and an insert.\<close>

definition run_mutation :: "(time \<Rightarrow> int) \<Rightarrow> nat \<Rightarrow> (ch_row \<Rightarrow> bool) \<Rightarrow> event_store \<Rightarrow> event_store" where
  "run_mutation tz i late es =
     (if i < length (es_mutations es)
      then let m = es_mutations es ! i; t = mu_table m; rows = es_rows es t
           in \<lparr>es_rows = (es_rows es)(t := filter (\<lambda>r. late r \<or> \<not> selects tz t rows (mu_cond m) r) rows),
               es_mutations = take i (es_mutations es) @ drop (Suc i) (es_mutations es)\<rparr>
      else es)"

definition fail_mutation :: "nat \<Rightarrow> string \<Rightarrow> event_store \<Rightarrow> event_store" where
  "fail_mutation i why es =
     (if i < length (es_mutations es)
      then es\<lparr>es_mutations := (es_mutations es)[i := (es_mutations es ! i)\<lparr>mu_fail := why\<rparr>]\<rparr> else es)"

definition insert_row :: "ch_table \<Rightarrow> ch_row \<Rightarrow> event_store \<Rightarrow> event_store" where
  "insert_row t r es = es\<lparr>es_rows := (es_rows es)(t := es_rows es t @ [r])\<rparr>"

datatype store_event = RunMutation nat "ch_row \<Rightarrow> bool" | FailMutation nat string | InsertRow ch_table ch_row

definition store_step :: "(time \<Rightarrow> int) \<Rightarrow> event_store \<Rightarrow> store_event \<Rightarrow> event_store" where
  "store_step tz es ev =
     (case ev of
        RunMutation i late \<Rightarrow> run_mutation tz i late es
      | FailMutation i why \<Rightarrow> fail_mutation i why es
      | InsertRow t r \<Rightarrow> insert_row t r es)"

lemma queue_mutation_simps [simp]:
  "es_rows (queue_mutation t cond es) = es_rows es"
  "es_mutations (queue_mutation t cond es) = es_mutations es @ [\<lparr>mu_table = t, mu_cond = cond, mu_fail = []\<rparr>]"
  by (simp_all add: queue_mutation_def)

text \<open>A row goes only by a queued delete that selects it among the rows then in the table.\<close>

lemma store_step_keeps:
  assumes "r \<in> set (es_rows es t)" "r \<notin> set (es_rows (store_step tz es ev) t)"
  shows "\<exists>m\<in>set (es_mutations es). mu_table m = t \<and> selects tz t (es_rows es t) (mu_cond m) r"
proof (cases ev)
  case (RunMutation i late)
  show ?thesis
  proof (cases "i < length (es_mutations es)")
    case True
    let ?m = "es_mutations es ! i"
    have "mu_table ?m = t \<and> selects tz t (es_rows es t) (mu_cond ?m) r"
      using assms True RunMutation by (cases "mu_table ?m = t") (auto simp: store_step_def run_mutation_def Let_def)
    with True show ?thesis using nth_mem by blast
  qed (use assms RunMutation in \<open>simp add: store_step_def run_mutation_def\<close>)
qed (use assms in \<open>auto simp: store_step_def fail_mutation_def insert_row_def split: if_splits\<close>)

lemma store_step_conds:
  "mu_cond ` set (es_mutations (store_step tz es ev)) \<subseteq> mu_cond ` set (es_mutations es)"
proof (cases ev)
  case (RunMutation i late)
  then show ?thesis
    by (auto simp: store_step_def run_mutation_def Let_def dest: in_set_takeD in_set_dropD)
next
  case (FailMutation i why)
  show ?thesis
  proof (cases "i < length (es_mutations es)")
    case True
    have "mu_cond ` set ((es_mutations es)[i := (es_mutations es ! i)\<lparr>mu_fail := why\<rparr>])
        \<subseteq> mu_cond ` insert ((es_mutations es ! i)\<lparr>mu_fail := why\<rparr>) (set (es_mutations es))"
      by (intro image_mono set_update_subset_insert)
    with True FailMutation show ?thesis by (auto simp: store_step_def fail_mutation_def)
  qed (use FailMutation in \<open>simp add: store_step_def fail_mutation_def\<close>)
qed (simp add: store_step_def insert_row_def)

section \<open>Runs\<close>

lemma store_step_mutations:
  "(\<lambda>m. (mu_table m, mu_cond m)) ` set (es_mutations (store_step tz es ev)) \<subseteq> (\<lambda>m. (mu_table m, mu_cond m)) ` set (es_mutations es)"
proof (cases ev)
  case (RunMutation i late)
  then show ?thesis by (auto simp: store_step_def run_mutation_def Let_def dest: in_set_takeD in_set_dropD)
next
  case (FailMutation i why)
  show ?thesis
  proof (cases "i < length (es_mutations es)")
    case True
    have "set ((es_mutations es)[i := (es_mutations es ! i)\<lparr>mu_fail := why\<rparr>])
        \<subseteq> insert ((es_mutations es ! i)\<lparr>mu_fail := why\<rparr>) (set (es_mutations es))"
      by (rule set_update_subset_insert)
    with True FailMutation show ?thesis by (force simp: store_step_def fail_mutation_def)
  qed (use FailMutation in \<open>simp add: store_step_def fail_mutation_def\<close>)
qed (simp add: store_step_def insert_row_def)

text \<open>A row that goes has its step in the run, and was selected there by a delete queued at the start.\<close>

lemma store_run_removal:
  assumes "r \<in> set (es_rows es t)" "r \<notin> set (es_rows (run_events (store_step tz) es evs) t)"
  shows "\<exists>pre e post. evs = pre @ e # post \<and> r \<in> set (es_rows (run_events (store_step tz) es pre) t)
    \<and> r \<notin> set (es_rows (run_events (store_step tz) es (pre @ [e])) t)
    \<and> (\<exists>m\<in>set (es_mutations es). mu_table m = t \<and> selects tz t (es_rows (run_events (store_step tz) es pre) t) (mu_cond m) r)"
  using assms
proof (induction evs arbitrary: es)
  case (Cons ev evs)
  show ?case
  proof (cases "r \<in> set (es_rows (store_step tz es ev) t)")
    case True
    with Cons obtain pre e post m where g: "evs = pre @ e # post" "r \<in> set (es_rows (run_events (store_step tz) (store_step tz es ev) pre) t)"
      "r \<notin> set (es_rows (run_events (store_step tz) (store_step tz es ev) (pre @ [e])) t)"
      "m \<in> set (es_mutations (store_step tz es ev))" "mu_table m = t"
      "selects tz t (es_rows (run_events (store_step tz) (store_step tz es ev) pre) t) (mu_cond m) r" by fastforce
    from store_step_mutations [of tz es ev] g(4)
    obtain m0 where "m0 \<in> set (es_mutations es)" "mu_table m0 = mu_table m" "mu_cond m0 = mu_cond m" by fastforce
    with g show ?thesis by (intro exI [of _ "ev # pre"] exI [of _ e] exI [of _ post]) auto
  next
    case False
    with store_step_keeps [OF Cons.prems(1) False] Cons.prems(1) show ?thesis
      by (intro exI [of _ "[]"] exI [of _ ev] exI [of _ evs]) simp
  qed
qed simp

definition inserted :: "ch_table \<Rightarrow> store_event list \<Rightarrow> ch_row list" where
  "inserted t evs = concat (map (\<lambda>ev. case ev of InsertRow u r \<Rightarrow> if u = t then [r] else [] | _ \<Rightarrow> []) evs)"

lemma store_run_spares:
  assumes "\<And>m rows r. m \<in> set (es_mutations es) \<Longrightarrow> P r \<Longrightarrow> \<not> selects tz t rows (mu_cond m) r"
  shows "filter P (es_rows (run_events (store_step tz) es evs) t) = filter P (es_rows es t) @ filter P (inserted t evs)"
  using assms
proof (induction evs arbitrary: es)
  case (Cons ev evs)
  have later: "\<not> selects tz t rows (mu_cond m) r" if "m \<in> set (es_mutations (store_step tz es ev))" "P r" for m rows r
    using store_step_conds [of tz es ev] that Cons.prems by fastforce
  have "filter P (es_rows (store_step tz es ev) t) = filter P (es_rows es t) @ filter P (inserted t [ev])"
  proof (cases ev)
    case (RunMutation i late)
    then show ?thesis
      using Cons.prems by (auto simp: store_step_def run_mutation_def Let_def inserted_def intro!: filter_cong)
  qed (simp_all add: store_step_def fail_mutation_def insert_row_def inserted_def)
  with Cons.IH [OF later] show ?case by (simp add: inserted_def)
qed (simp add: inserted_def)

end
