(* ===== verification/Retention.thy ===== *)
theory Retention
  imports Entitlement_Store Usage_Store Event_Store
begin

text \<open>
  \<open>internal/core/retention\<close>: how long an org's event history is kept, the wait before a
  shorter length is enforced, the operator's expire, and the daily pass that queues the
  deletes. Every call that can fail asks the fault function; a pass goes on past a failed org
  or table, as the code does, and answers the list of its errors.
\<close>

section \<open>The state of an org\<close>

definition retention_wait :: duration where "retention_wait = 30 * 24 * hour"

record ret_state =
  rs_days :: int
  rs_pending :: int
  rs_since :: time
  rs_by :: string

definition no_state :: ret_state where
  "no_state = \<lparr>rs_days = 0, rs_pending = 0, rs_since = zero_time, rs_by = []\<rparr>"

record ret_row =
  rr_days :: "int option"
  rr_pending :: "int option"
  rr_since :: "time option"
  rr_by :: "string option"

definition state_from_row :: "ret_row \<Rightarrow> ret_state" where
  "state_from_row r = \<lparr>rs_days = int8_of (rr_days r), rs_pending = int8_of (rr_pending r), rs_since = time_of (rr_since r),
     rs_by = text_of (rr_by r)\<rparr>"

text \<open>The row a state is stored as.\<close>

definition state_params :: "ret_state \<Rightarrow> ret_row" where
  "state_params s = \<lparr>rr_days = new_optional_int8 (rs_days s), rr_pending = new_optional_int8 (rs_pending s),
     rr_since = map_option truncate_us (new_optional_timestamptz (rs_since s)), rr_by = new_optional_text (rs_by s)\<rparr>"

text \<open>Whether length \<open>a\<close> keeps at least as much as \<open>b\<close>; zero keeps everything.\<close>

definition keeps :: "int \<Rightarrow> int \<Rightarrow> bool" where
  "keeps a b = (a = 0 \<or> (b \<noteq> 0 \<and> a \<ge> b))"

definition state_drops :: "ret_state \<Rightarrow> int \<Rightarrow> bool" where
  "state_drops s d = (\<not> keeps d (rs_days s) \<and> d \<noteq> rs_pending s)"

definition next_state :: "ret_state \<Rightarrow> int \<Rightarrow> bool \<Rightarrow> time \<Rightarrow> ret_state" where
  "next_state s d lapsed now =
     (if keeps d (rs_days s) then no_state\<lparr>rs_days := d\<rparr>
      else if state_drops s d then
        (let next = no_state\<lparr>rs_days := rs_days s, rs_pending := d\<rparr>
         in if \<not> lapsed then next\<lparr>rs_since := now\<rparr> else next)
      else if \<not> is_zero_time (rs_since s) \<and> time_sub now (rs_since s) \<ge> retention_wait then no_state\<lparr>rs_days := d\<rparr>
      else s)"

section \<open>The cut\<close>

definition first_of_month :: "time \<Rightarrow> time" where
  "first_of_month t = go_date (time_year t) (time_month t) 1"

definition ret_cut :: "time \<Rightarrow> int \<Rightarrow> time option" where
  "ret_cut now d =
     (if d \<le> 0 \<or> d > time_sub now 0 div (24 * hour) then None
      else let at_day = first_of_month (add_date now 0 0 (- d));
               latest = add_date (first_of_month now) 0 (- 1) 0
           in if latest < at_day then Some latest else Some at_day)"

section \<open>Tables and errors\<close>

record ret_db =
  rd_billing :: billing_db
  rd_orgs :: "string list"
  rd_states :: "string \<Rightarrow> ret_row option"
  rd_projects :: "project_row list"
  rd_store :: event_store

datatype ret_call =
    RcOrgs | RcStates | RcContext string | RcEnt string ent_call | RcRecord string ent_call | RcSubs string | RcUpsert string
  | RcProjects | RcMutations | RcCheck ch_table time nat | RcQueue ch_table time nat | RcExpire

datatype ret_error =
    ErrNoClickHouse | RetActorRequired | ErrOrgPays | ErrNothingWaiting | ErrDeleteFailing ch_table string
  | RetEnt string ent_error | RetDb | RetClickHouse

record ret_env =
  re_catalog :: "plan list"
  re_billing :: billing_config
  re_enabled :: bool
  re_clickhouse :: bool
  re_tz :: "time \<Rightarrow> int"

section \<open>One org's turn\<close>

text \<open>A drop to free's length of an org whose subscriptions have all ended.\<close>

definition org_lapsed :: "(ret_call \<Rightarrow> bool) \<Rightarrow> string \<Rightarrow> entitlement \<Rightarrow> billing_db \<Rightarrow> (ret_error, bool) result" where
  "org_lapsed flt org ent db =
     (if \<not> en_enabled ent \<or> en_status ent \<noteq> StatusFree then Inr False
      else case stored_record (\<lambda>k. flt (RcRecord org k)) db org of
        Inl e \<Rightarrow> Inl (RetEnt org e)
      | Inr rec \<Rightarrow>
          if er_retention rec > 0 then Inr False
          else if flt (RcSubs org) then Inl RetDb
          else Inr (list_ex (\<lambda>s. sr_status s \<noteq> SubStatusFailed) (filter (\<lambda>s. sr_org s = org) (bd_subs db))))"

definition upsert_state :: "string \<Rightarrow> ret_row \<Rightarrow> ret_db \<Rightarrow> ret_db" where
  "upsert_state org r db = db\<lparr>rd_states := (rd_states db)(org \<mapsto> r)\<rparr>"

text \<open>\<open>cur\<close> is the state as the pass read it, which the row may have moved on from.\<close>

definition ret_advance :: "ret_env \<Rightarrow> (ret_call \<Rightarrow> bool) \<Rightarrow> string \<Rightarrow> ret_state \<Rightarrow> time \<Rightarrow> ret_db \<Rightarrow> ret_db \<times> (ret_error, int) result" where
  "ret_advance env flt org cur now db =
     (case get_entitlement (\<lambda>k. flt (RcEnt org k)) (re_catalog env) (re_billing env) (rd_billing db) org now of
        Inl e \<Rightarrow> (db, Inl (RetEnt org e))
      | Inr ent \<Rightarrow>
          (let d = (case en_retention ent of None \<Rightarrow> 0 | Some v \<Rightarrow> v)
           in case (if state_drops cur d then org_lapsed flt org ent (rd_billing db) else Inr False) of
                Inl e \<Rightarrow> (db, Inl e)
              | Inr lapsed \<Rightarrow>
                  (let next = next_state cur d lapsed now
                   in if next \<noteq> cur
                      then (if flt (RcUpsert org) then (db, Inl RetDb)
                            else (upsert_state org (state_params next) db, Inr (rs_days next)))
                      else (db, Inr (rs_days next)))))"

text \<open>The turns in order: the cuts, the errors, and whether the context was cut short.\<close>

fun ret_turns :: "ret_env \<Rightarrow> (ret_call \<Rightarrow> bool) \<Rightarrow> time \<Rightarrow> (string \<Rightarrow> ret_state) \<Rightarrow> string list \<Rightarrow> ret_db
    \<Rightarrow> ret_db \<times> (string \<times> time) list \<times> ret_error list \<times> bool" where
  "ret_turns env flt now seen [] db = (db, [], [], False)"
| "ret_turns env flt now seen (org # orgs) db =
     (if flt (RcContext org) then (db, [], [RetDb], True)
      else case ret_advance env flt org (seen org) now db of
        (db1, Inl e) \<Rightarrow>
          (case ret_turns env flt now seen orgs db1 of (db2, cuts, errs, short) \<Rightarrow> (db2, cuts, e # errs, short))
      | (db1, Inr d) \<Rightarrow>
          (case ret_turns env flt now seen orgs db1 of
             (db2, cuts, errs, short) \<Rightarrow>
               (db2, (case ret_cut now d of None \<Rightarrow> cuts | Some at_day \<Rightarrow> (org, at_day) # cuts), errs, short)))"

section \<open>The deletes\<close>

definition max_projects :: nat where "max_projects = 1000"

definition cut_tables :: "ch_table list" where
  "cut_tables = [TEvents, TRollupDaily, TPropertyKeys, TActivityStates, TEventNames]"

text \<open>\<open>slices.Chunk\<close>.\<close>

function chunks :: "nat \<Rightarrow> 'a list \<Rightarrow> 'a list list" where
  "chunks n xs = (if xs = [] \<or> n = 0 then [] else take n xs # chunks n (drop n xs))"
  by pat_completeness auto
termination by (relation "measure (\<lambda>(n, xs). length xs)") auto

declare chunks.simps [simp del]

text \<open>The live projects of the orgs with a cut, by cut, earliest first.\<close>

definition live_projects :: "project_row list \<Rightarrow> (string \<times> string) list" where
  "live_projects rows = map (\<lambda>r. (pr_id r, pr_org r)) (filter pr_live rows)"

definition by_cut :: "(string \<times> time) list \<Rightarrow> (string \<times> string) list \<Rightarrow> (time \<times> string list) list" where
  "by_cut cuts projs =
     (let cut_of = map_of cuts
      in map (\<lambda>at_day. (at_day, map fst (filter (\<lambda>(p, org). cut_of org = Some at_day) projs)))
           (sort (remdups (List.map_filter (\<lambda>(p, org). cut_of org) projs))))"

text \<open>The projects of a chunk with rows before the cut, in the order the delete names them.\<close>

definition rows_before :: "(time \<Rightarrow> int) \<Rightarrow> ch_table \<Rightarrow> ch_row list \<Rightarrow> string list \<Rightarrow> time \<Rightarrow> string list" where
  "rows_before tz t rows ids at_day =
     sort (filter (\<lambda>p. list_ex (\<lambda>r. cw_project r = p \<and> row_before tz t rows at_day r) rows) ids)"

text \<open>Every check runs before the first delete; a failed one leaves the table alone.\<close>

fun due_cuts :: "(ret_call \<Rightarrow> bool) \<Rightarrow> (time \<Rightarrow> int) \<Rightarrow> ch_table \<Rightarrow> ch_row list \<Rightarrow> (time \<times> nat \<times> string list) list
    \<Rightarrow> (ret_error, (time \<times> nat \<times> string list) list) result" where
  "due_cuts flt tz t rows [] = Inr []"
| "due_cuts flt tz t rows ((at_day, k, ids) # rest) =
     (if flt (RcCheck t at_day k) then Inl RetClickHouse
      else case due_cuts flt tz t rows rest of
        Inl e \<Rightarrow> Inl e
      | Inr q \<Rightarrow> (case rows_before tz t rows ids at_day of [] \<Rightarrow> Inr q | ps \<Rightarrow> Inr ((at_day, k, ps) # q)))"

fun queue_cuts :: "(ret_call \<Rightarrow> bool) \<Rightarrow> ch_table \<Rightarrow> (time \<times> nat \<times> string list) list \<Rightarrow> event_store \<Rightarrow> event_store \<times> ret_error list" where
  "queue_cuts flt t [] es = (es, [])"
| "queue_cuts flt t ((at_day, k, ids) # rest) es =
     (if flt (RcQueue t at_day k)
      then (case queue_cuts flt t rest es of (es1, errs) \<Rightarrow> (es1, RetClickHouse # errs))
      else queue_cuts flt t rest (queue_mutation t (BeforeCut ids at_day) es))"

definition cut_chunks :: "(time \<times> string list) list \<Rightarrow> (time \<times> nat \<times> string list) list" where
  "cut_chunks groups = concat (map (\<lambda>(at_day, ids). map (\<lambda>(k, c). (at_day, k, c)) (enumerate 0 (chunks max_projects ids))) groups)"

definition cut_table :: "ret_env \<Rightarrow> (ret_call \<Rightarrow> bool) \<Rightarrow> ch_table \<Rightarrow> (time \<times> string list) list \<Rightarrow> event_store \<Rightarrow> event_store \<times> ret_error list" where
  "cut_table env flt t groups es =
     (case due_cuts flt (re_tz env) t (es_rows es t) (cut_chunks groups) of
        Inl e \<Rightarrow> (es, [e])
      | Inr q \<Rightarrow> if re_enabled env then queue_cuts flt t q es else (es, []))"

text \<open>Per table with a mutation not done: why one is failing, or the empty reason.\<close>

definition unfinished :: "mutation list \<Rightarrow> ch_table \<Rightarrow> string option" where
  "unfinished ms t =
     (case filter (\<lambda>m. mu_table m = t) ms of
        [] \<Rightarrow> None
      | m # rest \<Rightarrow> Some (case filter (\<lambda>x. x \<noteq> []) (map mu_fail (m # rest)) of [] \<Rightarrow> [] | why # _ \<Rightarrow> why))"

fun cut_all :: "ret_env \<Rightarrow> (ret_call \<Rightarrow> bool) \<Rightarrow> (ch_table \<Rightarrow> string option) \<Rightarrow> (time \<times> string list) list \<Rightarrow> ch_table list
    \<Rightarrow> event_store \<Rightarrow> event_store \<times> ret_error list" where
  "cut_all env flt busy groups [] es = (es, [])"
| "cut_all env flt busy groups (t # ts) es =
     (case busy t of
        Some why \<Rightarrow>
          (case cut_all env flt busy groups ts es of
             (es1, errs) \<Rightarrow> (es1, if why \<noteq> [] then ErrDeleteFailing t why # errs else errs))
      | None \<Rightarrow>
          (case cut_table env flt t groups es of
             (es1, errs1) \<Rightarrow> (case cut_all env flt busy groups ts es1 of (es2, errs2) \<Rightarrow> (es2, errs1 @ errs2))))"

definition delete_before :: "ret_env \<Rightarrow> (ret_call \<Rightarrow> bool) \<Rightarrow> (string \<times> time) list \<Rightarrow> ret_db \<Rightarrow> ret_db \<times> ret_error list" where
  "delete_before env flt cuts db =
     (if cuts = [] then (db, [])
      else if flt RcProjects then (db, [RetDb])
      else let groups = by_cut cuts (live_projects (rd_projects db))
           in if groups = [] then (db, [])
              else if flt RcMutations then (db, [RetClickHouse])
              else case cut_all env flt (unfinished (es_mutations (rd_store db))) groups cut_tables (rd_store db) of
                     (es, errs) \<Rightarrow> (db\<lparr>rd_store := es\<rparr>, errs))"

section \<open>The pass and the expire\<close>

definition states_of :: "ret_db \<Rightarrow> string \<Rightarrow> ret_state" where
  "states_of db org = (case rd_states db org of None \<Rightarrow> no_state | Some r \<Rightarrow> state_from_row r)"

definition ret_pass :: "ret_env \<Rightarrow> (ret_call \<Rightarrow> bool) \<Rightarrow> time \<Rightarrow> ret_db \<Rightarrow> ret_db \<times> ret_error list" where
  "ret_pass env flt now db =
     (if \<not> re_clickhouse env then (db, [ErrNoClickHouse])
      else if flt RcOrgs \<or> flt RcStates then (db, [RetDb])
      else case ret_turns env flt now (states_of db) (rd_orgs db) db of
        (db1, cuts, errs, short) \<Rightarrow>
          if short then (db1, errs)
          else (case delete_before env flt cuts db1 of (db2, errs2) \<Rightarrow> (db2, errs @ errs2)))"

text \<open>The row after the expire, \<open>None\<close> when nothing waits.\<close>

definition expire_row :: "string \<Rightarrow> time \<Rightarrow> ret_row option \<Rightarrow> ret_row option" where
  "expire_row actor now row =
     (case row of
        None \<Rightarrow> None
      | Some r \<Rightarrow> if rr_pending r \<noteq> None \<and> rr_since r = None
                  then Some (r\<lparr>rr_by := Some actor, rr_since := Some (truncate_us now)\<rparr>) else None)"

definition ret_expire :: "ret_env \<Rightarrow> (ret_call \<Rightarrow> bool) \<Rightarrow> string \<Rightarrow> string \<Rightarrow> time \<Rightarrow> ret_db
    \<Rightarrow> ret_db \<times> (ret_error, int \<times> int \<times> time) result" where
  "ret_expire env flt org actor now db =
     (if trim_space actor = [] then (db, Inl RetActorRequired)
      else case get_entitlement (\<lambda>k. flt (RcEnt org k)) (re_catalog env) (re_billing env) (rd_billing db) org now of
        Inl e \<Rightarrow> (db, Inl (RetEnt org e))
      | Inr ent \<Rightarrow>
          if en_status ent = StatusActive then (db, Inl ErrOrgPays)
          else if flt RcExpire then (db, Inl RetDb)
          else case expire_row actor now (rd_states db org) of
            None \<Rightarrow> (db, Inl ErrNothingWaiting)
          | Some r \<Rightarrow> (upsert_state org r db, Inr (int8_of (rr_days r), int8_of (rr_pending r), now + retention_wait)))"

end
