(* ===== verification/Retention_Laws.thy ===== *)
theory Retention_Laws
  imports Retention Usage_Pass
begin

text \<open>
  What retention never does: cut into what usage and billing still re-read, enforce a shorter
  length before its thirty days, or delete a row younger than the length it enforces.
\<close>

section \<open>The cut on the calendar\<close>

text \<open>The first day of the month before the instant's, which no cut passes.\<close>

definition last_cut :: "time \<Rightarrow> time" where
  "last_cut t = month_start (month_index (day_number t) - 1) * day_ns"

lemma first_of_month_eq: "first_of_month t = month_start (month_index (day_number t)) * day_ns"
  by (simp add: first_of_month_def go_date_month index_of_reads)

lemma first_of_month_le: "first_of_month t \<le> t"
proof -
  have "first_of_month t \<le> day_number t * day_ns"
    unfolding first_of_month_eq by (rule days_le) (rule day_in_month(2))
  with day_number_bounds(1) [of t] show ?thesis by linarith
qed

lemma month_before: "add_date (first_of_month t) 0 (- 1) 0 = last_cut t"
proof -
  define n where "n = month_start (month_index (day_number t))"
  have d: "day_number (n * day_ns) = n" "(n * day_ns) mod day_ns = 0" by simp_all
  have idx: "month_index n = month_index (day_number t)" by (simp add: n_def)
  have one: "mday_of_day n = 1" using day_in_month(1) [of n] by (simp add: idx n_def)
  have "12 * year_of_day n + month_of_day n - 1 = month_index n" by (simp add: month_index_def)
  then have j: "12 * year_of_day n + (month_of_day n + - 1) - 1 = month_index n - 1" by simp
  show ?thesis
    unfolding first_of_month_eq n_def [symmetric] add_date_def d time_year_def time_month_def time_day_def go_date_month
    using j by (simp add: one idx last_cut_def)
qed

lemma last_cut_mono: "t \<le> u \<Longrightarrow> last_cut t \<le> last_cut u"
proof -
  assume "t \<le> u"
  then have "day_number t \<le> day_number u" by (rule day_number_mono)
  have "month_index (day_number t) \<le> month_index (day_number u)"
  proof (rule ccontr)
    assume "\<not> ?thesis"
    then have "month_start (month_index (day_number u) + 1) \<le> month_start (month_index (day_number t))"
      by (intro month_start_mono) simp
    with day_in_month(2) [of "day_number t"] day_in_month(3) [of "day_number u"] \<open>day_number t \<le> day_number u\<close>
    show False by linarith
  qed
  then show ?thesis unfolding last_cut_def by (intro days_le month_start_mono) simp
qed

lemma ret_cut_bounds:
  assumes "ret_cut now d = Some at_day"
  shows "0 < d" "at_day \<le> now - d * day_ns" "at_day \<le> last_cut now"
proof -
  have d: "0 < d" and at_day: "at_day = min (first_of_month (add_date now 0 0 (- d))) (last_cut now)"
    using assms by (auto simp: ret_cut_def Let_def month_before split: if_splits)
  show "0 < d" by (rule d)
  show "at_day \<le> last_cut now" by (simp add: at_day)
  have "first_of_month (add_date now 0 0 (- d)) \<le> now - d * day_ns"
    using first_of_month_le [of "add_date now 0 0 (- d)"] by (simp add: add_date_days)
  then show "at_day \<le> now - d * day_ns" by (simp add: at_day min.coboundedI1)
qed

section \<open>What usage re-reads\<close>

lemma period_after_last_cut: "last_cut now \<le> fst (period_for now a)"
proof -
  obtain i where p: "period_for now a = (anchored_day i a * day_ns, anchored_day (i + 1) a * day_ns)"
    and now: "now < anchored_day (i + 1) a * day_ns"
    by (rule period_for_index)
  have "day_number now < anchored_day (i + 1) a"
  proof (rule ccontr)
    assume "\<not> ?thesis"
    then have "anchored_day (i + 1) a * day_ns \<le> day_number now * day_ns" by (intro days_le) simp
    with now day_number_bounds(1) [of now] show False by linarith
  qed
  then have "day_number now < month_start (i + 2)"
    using anchored_day_bounds(2) [of "i + 1" a] by (simp add: add.assoc)
  have "month_index (day_number now) - 1 \<le> i"
  proof (rule ccontr)
    assume "\<not> ?thesis"
    then have "month_start (i + 2) \<le> month_start (month_index (day_number now))" by (intro month_start_mono) simp
    with day_in_month(2) [of "day_number now"] \<open>day_number now < month_start (i + 2)\<close> show False by linarith
  qed
  then have "month_start (month_index (day_number now) - 1) \<le> anchored_day i a"
    using month_start_mono anchored_day_bounds(1) [of i a] by (meson order_trans)
  then show ?thesis unfolding p last_cut_def fst_conv by (rule days_le)
qed

lemma rescan_after_last_cut:
  assumes "k \<le> 28"
  shows "last_cut now \<le> floor_day_utc (add_date now 0 0 (- k))"
proof -
  let ?j = "month_index (day_number now)"
  have "day_number (now + (- k) * day_ns) = day_number now - k"
    unfolding day_number_def by (subst div_mult_self1) simp_all
  moreover have "month_start (?j - 1) \<le> day_number now - k"
    using day_in_month(2) [of "day_number now"] month_start_next [of "?j - 1"] month_days_range [of "?j - 1"] assms by simp
  ultimately show ?thesis
    unfolding floor_day_eq add_date_days last_cut_def by (intro days_le) simp
qed

lemma earliest_from_in: "earliest_from e ps \<in> insert e (op_start ` set ps)"
  by (induction e ps rule: earliest_from.induct) (auto split: if_splits)

lemma full_read_after_last_cut:
  assumes "k \<le> 28" "list_all (\<lambda>p. last_cut now \<le> op_start p) ps"
  shows "last_cut now \<le> full_recompute_from now k ps"
proof -
  have month: "last_cut now \<le> floor_month_utc now"
    unfolding floor_month_utc_def first_of_month_def [symmetric] first_of_month_eq last_cut_def
    by (intro days_le month_start_mono) simp
  have "earliest_period_start ps = zero_time \<or> last_cut now \<le> earliest_period_start ps"
    using earliest_from_in [of zero_time ps] assms(2) by (auto simp: earliest_period_start_def list_all_iff)
  then show ?thesis
    using month rescan_after_last_cut [OF assms(1), of now]
    by (auto simp: full_recompute_from_def Let_def is_zero_time_def)
qed

lemma org_periods_after_last_cut: "list_all (\<lambda>p. last_cut now \<le> op_start p) (org_periods db now)"
  using period_after_last_cut [of now] by (auto simp: list_all_iff org_periods_def split: prod.splits)
    (metis fst_conv)

text \<open>The start of every read of the usage pass, and of the last count of a project being deleted.\<close>

lemma pass_reads_after_last_cut: "k \<le> 28 \<Longrightarrow> last_cut now \<le> pass_from db now k"
  by (simp add: pass_from_def meter_from_def rescan_after_last_cut full_read_after_last_cut org_periods_after_last_cut)

section \<open>What a pass queues\<close>

lemma int8_roundtrip [simp]: "int8_of (new_optional_int8 v) = v"
  by (simp add: int8_of_def new_optional_int8_def)

lemma params_days [simp]:
  "rs_days (state_from_row (state_params s)) = rs_days s" "rs_pending (state_from_row (state_params s)) = rs_pending s"
  by (simp_all add: state_from_row_def state_params_def)

lemma chunks_subset: "c \<in> set (chunks n xs) \<Longrightarrow> set c \<subseteq> set xs"
proof (induction n xs rule: chunks.induct)
  case (1 n xs)
  show ?case
  proof (cases "xs = [] \<or> n = 0")
    case False
    with 1 show ?thesis by (subst (asm) chunks.simps) (auto dest: in_set_takeD in_set_dropD)
  qed (use 1 in \<open>simp add: chunks.simps\<close>)
qed

lemma cut_chunks_in: "(at_day, k, c) \<in> set (cut_chunks groups) \<Longrightarrow> \<exists>ids. (at_day, ids) \<in> set groups \<and> set c \<subseteq> set ids"
  by (auto simp: cut_chunks_def dest!: in_set_enumerate_eq [THEN iffD1] nth_mem chunks_subset)

lemma due_cuts_in: "due_cuts flt tz t rows ws = Inr q \<Longrightarrow> (at_day, k, ids) \<in> set q \<Longrightarrow> \<exists>c. (at_day, k, c) \<in> set ws \<and> set ids \<subseteq> set c"
proof (induction flt tz t rows ws arbitrary: q rule: due_cuts.induct)
  case (2 flt tz t rows w j c rest)
  then obtain q1 where q1: "due_cuts flt tz t rows rest = Inr q1" by (auto split: if_splits sum.splits)
  then have "q = q1 \<or> q = (w, j, rows_before tz t rows c w) # q1"
    using 2(2) by (auto split: if_splits list.splits)
  moreover have "set (rows_before tz t rows c w) \<subseteq> set c" by (auto simp: rows_before_def)
  ultimately show ?case using 2 q1 by (fastforce split: if_splits)
qed simp

lemma queue_cuts_store:
  "es_rows (fst (queue_cuts flt t q es)) = es_rows es"
  "m \<in> set (es_mutations (fst (queue_cuts flt t q es))) \<Longrightarrow>
    m \<in> set (es_mutations es) \<or> (\<exists>at_day k ids. (at_day, k, ids) \<in> set q \<and> mu_cond m = BeforeCut ids at_day)"
proof (induction flt t q es rule: queue_cuts.induct)
  case (2 flt t at_day k ids rest es)
  {
    case 1
    show ?case using 2(1,3) by (cases "flt (RcQueue t at_day k)"; cases "queue_cuts flt t rest es") simp_all
  next
    case 2
    then show ?case
      using "2.IH"(2,4) by (cases "flt (RcQueue t at_day k)"; cases "queue_cuts flt t rest es") auto
  }
qed simp_all

text \<open>A mutation that names only live projects, each at its org's cut.\<close>

definition cut_ok :: "(string \<times> time) list \<Rightarrow> (string \<times> string) list \<Rightarrow> mutation \<Rightarrow> bool" where
  "cut_ok cuts projs m = (\<exists>ids at_day. mu_cond m = BeforeCut ids at_day
     \<and> (\<forall>p\<in>set ids. \<exists>org. (p, org) \<in> set projs \<and> map_of cuts org = Some at_day))"

lemma by_cut_in: "(at_day, ids) \<in> set (by_cut cuts projs) \<Longrightarrow> p \<in> set ids \<Longrightarrow> \<exists>org. (p, org) \<in> set projs \<and> map_of cuts org = Some at_day"
proof -
  assume "(at_day, ids) \<in> set (by_cut cuts projs)" "p \<in> set ids"
  then obtain org where "(p, org) \<in> set projs" "map_of cuts org = Some at_day" by (auto simp: by_cut_def Let_def)
  then show ?thesis by blast
qed

lemma cut_table_store:
  "es_rows (fst (cut_table env flt t groups es)) = es_rows es"
  "m \<in> set (es_mutations (fst (cut_table env flt t (by_cut cuts projs) es))) \<Longrightarrow>
    m \<in> set (es_mutations es) \<or> re_enabled env \<and> cut_ok cuts projs m"
proof -
  show "es_rows (fst (cut_table env flt t groups es)) = es_rows es"
    by (simp add: cut_table_def queue_cuts_store split: sum.splits)
  assume m: "m \<in> set (es_mutations (fst (cut_table env flt t (by_cut cuts projs) es)))"
  show "m \<in> set (es_mutations es) \<or> re_enabled env \<and> cut_ok cuts projs m"
  proof (cases "due_cuts flt (re_tz env) t (es_rows es t) (cut_chunks (by_cut cuts projs))")
    case (Inr q)
    show ?thesis
    proof (cases "m \<in> set (es_mutations es)")
      case False
      have on: "re_enabled env" "m \<in> set (es_mutations (fst (queue_cuts flt t q es)))"
        using m Inr False by (simp_all add: cut_table_def split: if_splits)
      then obtain at_day k ids where q: "(at_day, k, ids) \<in> set q" "mu_cond m = BeforeCut ids at_day"
        using queue_cuts_store(2) False by blast
      obtain c where c: "(at_day, k, c) \<in> set (cut_chunks (by_cut cuts projs))" "set ids \<subseteq> set c"
        using due_cuts_in [OF Inr q(1)] by blast
      obtain g where g: "(at_day, g) \<in> set (by_cut cuts projs)" "set c \<subseteq> set g" using cut_chunks_in [OF c(1)] by blast
      have "\<forall>p\<in>set ids. \<exists>org. (p, org) \<in> set projs \<and> map_of cuts org = Some at_day"
        using by_cut_in [OF g(1)] g(2) c(2) by blast
      with on q(2) show ?thesis unfolding cut_ok_def by blast
    qed simp
  qed (use m in \<open>simp add: cut_table_def\<close>)
qed

lemma cut_all_store:
  "es_rows (fst (cut_all env flt busy groups ts es)) = es_rows es"
  "m \<in> set (es_mutations (fst (cut_all env flt busy (by_cut cuts projs) ts es))) \<Longrightarrow>
    m \<in> set (es_mutations es) \<or> re_enabled env \<and> cut_ok cuts projs m"
proof -
  show "es_rows (fst (cut_all env flt busy groups ts es)) = es_rows es"
  proof (induction ts arbitrary: es)
    case (Cons t ts)
    show ?case
      using Cons [of es] Cons [of "fst (cut_table env flt t groups es)"] cut_table_store(1) [of env flt t groups es]
      by (auto split: option.splits prod.splits)
  qed simp
  show "m \<in> set (es_mutations (fst (cut_all env flt busy (by_cut cuts projs) ts es))) \<Longrightarrow>
      m \<in> set (es_mutations es) \<or> re_enabled env \<and> cut_ok cuts projs m"
  proof (induction ts arbitrary: es)
    case (Cons t ts)
    show ?case
      using Cons.prems Cons.IH [of es] Cons.IH [of "fst (cut_table env flt t (by_cut cuts projs) es)"]
        cut_table_store(2) [of m env flt t cuts projs es]
      by (auto split: option.splits prod.splits)
  qed simp
qed

lemma delete_before_store:
  "es_rows (rd_store (fst (delete_before env flt cuts db))) = es_rows (rd_store db)"
  "rd_states (fst (delete_before env flt cuts db)) = rd_states db"
  "rd_projects (fst (delete_before env flt cuts db)) = rd_projects db"
  "m \<in> set (es_mutations (rd_store (fst (delete_before env flt cuts db)))) \<Longrightarrow>
    m \<in> set (es_mutations (rd_store db)) \<or> re_enabled env \<and> cut_ok cuts (live_projects (rd_projects db)) m"
  using cut_all_store(1) [of env flt "unfinished (es_mutations (rd_store db))" "by_cut cuts (live_projects (rd_projects db))" cut_tables "rd_store db"]
    cut_all_store(2) [of m env flt "unfinished (es_mutations (rd_store db))" cuts "live_projects (rd_projects db)" cut_tables "rd_store db"]
  by (auto simp: delete_before_def Let_def split: prod.splits if_splits)

section \<open>What a turn enforces\<close>

definition enforced :: "ret_db \<Rightarrow> string \<Rightarrow> int" where
  "enforced db org = rs_days (states_of db org)"

lemma advance_effect:
  assumes "ret_advance env flt org cur now db = (db', res)"
  shows "rd_store db' = rd_store db" "rd_projects db' = rd_projects db" "g \<noteq> org \<Longrightarrow> rd_states db' g = rd_states db g"
    "res = Inl e \<Longrightarrow> db' = db" "res = Inr d \<Longrightarrow> cur = states_of db org \<Longrightarrow> enforced db' org = d"
proof -
  have "rd_store db' = rd_store db \<and> rd_projects db' = rd_projects db \<and> (g \<noteq> org \<longrightarrow> rd_states db' g = rd_states db g)
      \<and> (res = Inl e \<longrightarrow> db' = db) \<and> (res = Inr d \<longrightarrow> cur = states_of db org \<longrightarrow> enforced db' org = d)"
  proof (cases "get_entitlement (\<lambda>k. flt (RcEnt org k)) (re_catalog env) (re_billing env) (rd_billing db) org now")
    case (Inr ent)
    define v where "v = (case en_retention ent of None \<Rightarrow> 0 | Some v \<Rightarrow> v)"
    show ?thesis
    proof (cases "if state_drops cur v then org_lapsed flt org ent (rd_billing db) else Inr False")
      case l: (Inr lapsed)
      then have res: "(if next_state cur v lapsed now \<noteq> cur
          then (if flt (RcUpsert org) then (db, Inl RetDb)
                else (upsert_state org (state_params (next_state cur v lapsed now)) db, Inr (rs_days (next_state cur v lapsed now))))
          else (db, Inr (rs_days (next_state cur v lapsed now)))) = (db', res)"
        using assms Inr by (simp add: ret_advance_def v_def [symmetric] Let_def)
      show ?thesis
        using res by (cases "next_state cur v lapsed now = cur"; cases "flt (RcUpsert org)")
          (auto simp: upsert_state_def enforced_def states_of_def)
    qed (use assms Inr in \<open>auto simp: ret_advance_def v_def [symmetric] Let_def\<close>)
  qed (use assms in \<open>auto simp: ret_advance_def\<close>)
  then show "rd_store db' = rd_store db" "rd_projects db' = rd_projects db" "g \<noteq> org \<Longrightarrow> rd_states db' g = rd_states db g"
    "res = Inl e \<Longrightarrow> db' = db" "res = Inr d \<Longrightarrow> cur = states_of db org \<Longrightarrow> enforced db' org = d" by blast+
qed

lemma turns_effect:
  assumes "ret_turns env flt now seen orgs db = (db', cuts, errs, short)" "distinct orgs"
    "\<And>org. org \<in> set orgs \<Longrightarrow> seen org = states_of db org"
  shows "rd_store db' = rd_store db \<and> rd_projects db' = rd_projects db
    \<and> (\<forall>g. g \<notin> set orgs \<longrightarrow> rd_states db' g = rd_states db g)
    \<and> (\<forall>org at_day. map_of cuts org = Some at_day \<longrightarrow> org \<in> set orgs \<and> ret_cut now (enforced db' org) = Some at_day)"
  using assms
proof (induction orgs arbitrary: db db' cuts errs)
  case (Cons org orgs)
  show ?case
  proof (cases "flt (RcContext org)")
    case False
    obtain db1 res where adv: "ret_advance env flt org (seen org) now db = (db1, res)" by fastforce
    obtain db2 cuts2 errs2 sh where rest: "ret_turns env flt now seen orgs db1 = (db2, cuts2, errs2, sh)"
      by (metis surj_pair)
    have seen1: "seen g = states_of db1 g" if "g \<in> set orgs" for g
    proof -
      have "g \<noteq> org" using Cons.prems(2) that by auto
      then show ?thesis using Cons.prems(3) [of g] advance_effect(3) [OF adv] that by (simp add: states_of_def cong: option.case_cong)
    qed
    have out: "db' = db2" "sh = short"
      and cuts: "cuts = cuts2 \<or> (\<exists>d at_day. res = Inr d \<and> ret_cut now d = Some at_day \<and> cuts = (org, at_day) # cuts2)"
      using Cons.prems(1) False adv rest by (auto split: sum.splits option.splits)
    note IH = Cons.IH [OF rest [unfolded out] _ seen1]
    have here: "enforced db2 org = d" if "res = Inr d" for d
    proof -
      have "enforced db1 org = d" using advance_effect(5) [OF adv that] Cons.prems(3) by simp
      moreover have "rd_states db2 org = rd_states db1 org" using IH Cons.prems(2) out by auto
      ultimately show ?thesis by (simp add: enforced_def states_of_def)
    qed
    show ?thesis
      using IH Cons.prems(2) advance_effect(1-3) [OF adv] cuts here unfolding out(1) by (auto split: if_splits)
  qed (use Cons.prems in simp)
qed simp

text \<open>Everything a pass queues names live projects at the cut of the length it now enforces.\<close>

definition due_delete :: "time \<Rightarrow> ret_db \<Rightarrow> mutation \<Rightarrow> bool" where
  "due_delete now db m = (\<exists>ids at_day. mu_cond m = BeforeCut ids at_day
     \<and> (\<forall>p\<in>set ids. \<exists>org. (p, org) \<in> set (live_projects (rd_projects db)) \<and> ret_cut now (enforced db org) = Some at_day))"

lemma pass_queues:
  assumes "ret_pass env flt now db = (db', errs)" "distinct (rd_orgs db)"
  shows "es_rows (rd_store db') = es_rows (rd_store db)" "rd_projects db' = rd_projects db"
    "m \<in> set (es_mutations (rd_store db')) \<Longrightarrow> m \<in> set (es_mutations (rd_store db)) \<or> re_enabled env \<and> due_delete now db' m"
proof -
  have "es_rows (rd_store db') = es_rows (rd_store db) \<and> rd_projects db' = rd_projects db
    \<and> (m \<in> set (es_mutations (rd_store db')) \<longrightarrow> m \<in> set (es_mutations (rd_store db)) \<or> re_enabled env \<and> due_delete now db' m)"
  proof (cases "\<not> re_clickhouse env \<or> flt RcOrgs \<or> flt RcStates")
    case False
    obtain db1 cuts errs1 short where t: "ret_turns env flt now (states_of db) (rd_orgs db) db = (db1, cuts, errs1, short)"
      by (metis surj_pair)
    note eff = turns_effect [OF t assms(2) refl]
    show ?thesis
    proof (cases short)
      case True
      then show ?thesis using assms(1) False t eff by (simp add: ret_pass_def)
    next
      case go: False
      have db': "db' = fst (delete_before env flt cuts db1)"
        using assms(1) False t go by (auto simp: ret_pass_def split: prod.splits)
      note del = delete_before_store(1-3) [of env flt cuts db1, folded db'] delete_before_store(4) [of _ env flt cuts db1, folded db']
      have "due_delete now db' m" if "cut_ok cuts (live_projects (rd_projects db1)) m"
        using that eff del(2,3) unfolding cut_ok_def due_delete_def enforced_def states_of_def by metis
      then show ?thesis using eff del by auto
    qed
  next
    case True
    then have "db' = db" using assms(1) by (cases "re_clickhouse env") (auto simp: ret_pass_def)
    then show ?thesis by simp
  qed
  then show "es_rows (rd_store db') = es_rows (rd_store db)" "rd_projects db' = rd_projects db"
    "m \<in> set (es_mutations (rd_store db')) \<Longrightarrow> m \<in> set (es_mutations (rd_store db)) \<or> re_enabled env \<and> due_delete now db' m"
    by blast+
qed

end
