(* ===== verification/Retention_Claims.thy ===== *)
theory Retention_Claims
  imports Retention_Laws
begin

text \<open>
  The properties of retention: the wait before a shorter length, what a pass's deletes can
  remove, and that they remove nothing usage still counts.
\<close>

section \<open>The wait\<close>

text \<open>
  The events that move one org's row, with what the running pass has read of it: a pass reads
  the rows, resolves the org's length, and an operator's expire may land between the two.
\<close>

datatype ret_event = ReadStates | Resolved int bool time | Expires string time

definition row_state :: "ret_row option \<Rightarrow> ret_state" where
  "row_state row = (case row of None \<Rightarrow> no_state | Some r \<Rightarrow> state_from_row r)"

fun row_step :: "ret_row option \<times> ret_row option \<Rightarrow> ret_event \<Rightarrow> ret_row option \<times> ret_row option" where
  "row_step (row, seen) ReadStates = (row, row)"
| "row_step (row, seen) (Resolved d lapsed now) =
     (let next = next_state (row_state seen) d lapsed now;
          row' = (if next \<noteq> row_state seen then Some (state_params next) else row)
      in (row', row'))"
| "row_step (row, seen) (Expires actor now) = ((case expire_row actor now row of None \<Rightarrow> row | Some r \<Rightarrow> Some r), seen)"

definition event_time :: "ret_event \<Rightarrow> time" where
  "event_time e = (case e of ReadStates \<Rightarrow> 0 | Resolved d lapsed now \<Rightarrow> now | Expires actor now \<Rightarrow> now)"

definition resolves_only :: "int \<Rightarrow> ret_event \<Rightarrow> bool" where
  "resolves_only p e = (case e of Resolved d lapsed now \<Rightarrow> d = p | _ \<Rightarrow> True)"

definition starts_wait :: "int \<Rightarrow> ret_event \<Rightarrow> bool" where
  "starts_wait p e = (case e of ReadStates \<Rightarrow> False | Resolved d lapsed now \<Rightarrow> d = p \<and> \<not> lapsed | Expires actor now \<Rightarrow> True)"

definition waits_since :: "int \<Rightarrow> time \<Rightarrow> ret_event list \<Rightarrow> bool" where
  "waits_since p t evs = (\<exists>pre e post. evs = pre @ e # post \<and> truncate_us (event_time e) = t \<and> starts_wait p e
     \<and> list_all (resolves_only p) post)"

lemma waits_since_append: "waits_since p t evs \<Longrightarrow> resolves_only p e \<Longrightarrow> waits_since p t (evs @ [e])"
proof -
  assume e: "resolves_only p e" and "waits_since p t evs"
  then obtain pre x post where "evs = pre @ x # post" "truncate_us (event_time x) = t" "starts_wait p x" "list_all (resolves_only p) post"
    by (auto simp: waits_since_def)
  with e show ?thesis unfolding waits_since_def
    by (intro exI [of _ pre] exI [of _ x] exI [of _ "post @ [e]"]) simp
qed

lemma waits_since_here: "starts_wait p e \<Longrightarrow> waits_since p (truncate_us (event_time e)) (evs @ [e])"
  unfolding waits_since_def by (intro exI [of _ evs] exI [of _ e] exI [of _ "[]"]) simp

definition seen_or_expired :: "ret_row option \<Rightarrow> ret_row option \<Rightarrow> bool" where
  "seen_or_expired row seen = (row = seen \<or> (\<exists>actor now r. expire_row actor now seen = Some r \<and> row = Some r))"

definition wait_inv :: "ret_event list \<Rightarrow> ret_row option \<Rightarrow> ret_row option \<Rightarrow> bool" where
  "wait_inv evs row seen = (seen_or_expired row seen
     \<and> (rs_pending (row_state row) \<noteq> 0 \<and> rs_since (row_state row) \<noteq> zero_time
          \<longrightarrow> waits_since (rs_pending (row_state row)) (rs_since (row_state row)) evs))"

lemma row_state_params [simp]:
  "rs_days (row_state (Some (state_params s))) = rs_days s" "rs_pending (row_state (Some (state_params s))) = rs_pending s"
  by (simp_all add: row_state_def)

lemma row_state_since: "rs_since (row_state (Some (state_params s))) = (if rs_since s = zero_time then zero_time else truncate_us (rs_since s))"
  by (simp add: row_state_def state_from_row_def state_params_def new_optional_timestamptz_def is_zero_time_def time_of_def)

lemma expire_row_state:
  assumes "expire_row actor now row = Some r"
  shows "rs_days (row_state (Some r)) = rs_days (row_state row)" "rs_pending (row_state (Some r)) = rs_pending (row_state row)"
    "rs_since (row_state row) = zero_time" "rs_since (row_state (Some r)) = truncate_us now"
  using assms
  by (auto simp: expire_row_def row_state_def state_from_row_def time_of_def split: option.splits if_splits)

lemma expire_once: "expire_row actor now row = Some r \<Longrightarrow> expire_row actor' now' (Some r) = None"
  by (auto simp: expire_row_def split: option.splits if_splits)

lemma seen_days: "seen_or_expired row seen \<Longrightarrow> rs_days (row_state row) = rs_days (row_state seen)"
  "seen_or_expired row seen \<Longrightarrow> rs_pending (row_state row) = rs_pending (row_state seen)"
  "seen_or_expired row seen \<Longrightarrow> rs_since (row_state seen) \<noteq> zero_time \<Longrightarrow> row = seen"
  by (auto simp: seen_or_expired_def expire_row_state)

lemma keeps_refl [simp]: "keeps d d"
  by (simp add: keeps_def)

lemma no_state_fields [simp]: "rs_days no_state = 0" "rs_pending no_state = 0" "rs_since no_state = zero_time"
  by (simp_all add: no_state_def)

text \<open>The four ways a resolved length moves a state.\<close>

lemma next_state_cases:
  obtains (kept) "keeps d (rs_days s)" "next_state s d lapsed now = no_state\<lparr>rs_days := d\<rparr>"
  | (drop) "\<not> keeps d (rs_days s)" "d \<noteq> rs_pending s" "rs_days (next_state s d lapsed now) = rs_days s"
      "rs_pending (next_state s d lapsed now) = d" "rs_since (next_state s d lapsed now) = (if lapsed then zero_time else now)"
  | (due) "\<not> keeps d (rs_days s)" "d = rs_pending s" "rs_since s \<noteq> zero_time" "retention_wait \<le> now - rs_since s"
      "next_state s d lapsed now = no_state\<lparr>rs_days := d\<rparr>"
  | (wait) "\<not> keeps d (rs_days s)" "d = rs_pending s" "next_state s d lapsed now = s"
proof -
  have sub: "(retention_wait \<le> time_sub now (rs_since s)) = (retention_wait \<le> now - rs_since s)"
    by (rule time_sub_ge) (simp_all add: retention_wait_def hour_val)
  show ?thesis
  proof (cases "keeps d (rs_days s)")
    case True
    then show ?thesis using kept by (simp add: next_state_def)
  next
    case keep: False
    show ?thesis
    proof (cases "d = rs_pending s")
      case False
      then have "next_state s d lapsed now = (let next = no_state\<lparr>rs_days := rs_days s, rs_pending := d\<rparr>
          in if \<not> lapsed then next\<lparr>rs_since := now\<rparr> else next)"
        using keep by (simp add: next_state_def state_drops_def)
      then show ?thesis using drop keep False by (simp add: Let_def)
    next
      case True
      then have "next_state s d lapsed now = (if rs_since s \<noteq> zero_time \<and> retention_wait \<le> now - rs_since s then no_state\<lparr>rs_days := d\<rparr> else s)"
        using keep sub by (simp add: next_state_def state_drops_def is_zero_time_def)
      then show ?thesis using due wait keep True by (cases "rs_since s \<noteq> zero_time \<and> retention_wait \<le> now - rs_since s") simp_all
    qed
  qed
qed

lemma wait_step:
  assumes "wait_inv evs row seen" "row_step (row, seen) e = (row', seen')"
  shows "wait_inv (evs @ [e]) row' seen'"
proof (cases e)
  case ReadStates
  then show ?thesis using assms waits_since_append [of _ _ evs e]
    by (auto simp: wait_inv_def seen_or_expired_def resolves_only_def)
next
  case (Expires actor now)
  show ?thesis
  proof (cases "expire_row actor now row")
    case None
    with Expires assms waits_since_append [of _ _ evs e] show ?thesis by (auto simp: wait_inv_def resolves_only_def)
  next
    case (Some r)
    with Expires assms have out: "row' = Some r" "seen' = seen" by simp_all
    have "row = seen"
      using assms(1) Some expire_once unfolding wait_inv_def seen_or_expired_def by (metis option.distinct(1))
    moreover have "waits_since p (truncate_us now) (evs @ [e])" for p
      using waits_since_here [of p e evs] Expires by (simp add: starts_wait_def event_time_def)
    ultimately show ?thesis
      using Some expire_row_state(4) [OF Some] unfolding wait_inv_def out seen_or_expired_def by auto
  qed
next
  case (Resolved d lapsed now)
  let ?s = "row_state seen"
  have old: "seen_or_expired row seen" using assms(1) by (simp add: wait_inv_def)
  have out: "row' = (if next_state ?s d lapsed now \<noteq> ?s then Some (state_params (next_state ?s d lapsed now)) else row)" "seen' = row'"
    using assms(2) Resolved by (auto simp: Let_def)
  have "rs_pending (row_state row') \<noteq> 0 \<and> rs_since (row_state row') \<noteq> zero_time
      \<longrightarrow> waits_since (rs_pending (row_state row')) (rs_since (row_state row')) (evs @ [e])"
  proof (cases rule: next_state_cases [of d ?s lapsed now])
    case kept
    then show ?thesis using out seen_days(2) [OF old] by (cases "next_state ?s d lapsed now = ?s") (auto simp: no_state_def)
  next
    case drop
    then have "next_state ?s d lapsed now \<noteq> ?s" by auto
    then have row': "row' = Some (state_params (next_state ?s d lapsed now))" using out by simp
    have "waits_since d (truncate_us now) (evs @ [e])" if "\<not> lapsed"
      using waits_since_here [of d e evs] Resolved that by (simp add: starts_wait_def event_time_def)
    then show ?thesis unfolding row' row_state_since row_state_params drop(4,5) by auto
  next
    case due
    then have "next_state ?s d lapsed now \<noteq> ?s" by (metis no_state_fields(3) ret_state.select_convs(3) ret_state.update_convs(1) ret_state.surjective)
    then show ?thesis using out due(5) by simp
  next
    case wait
    then have "row' = row" "rs_pending (row_state row) = d" using out seen_days(2) [OF old] by simp_all
    then show ?thesis using assms(1) waits_since_append [of d _ evs e] Resolved by (auto simp: wait_inv_def resolves_only_def)
  qed
  then show ?thesis using out(2) by (simp add: wait_inv_def seen_or_expired_def)
qed

lemma wait_run: "wait_inv evs0 row seen \<Longrightarrow> run_events row_step (row, seen) evs = (row', seen') \<Longrightarrow> wait_inv (evs0 @ evs) row' seen'"
proof (induction evs arbitrary: evs0 row seen)
  case (Cons e evs)
  obtain r1 s1 where 1: "row_step (row, seen) e = (r1, s1)" by fastforce
  from Cons.IH [OF wait_step [OF Cons.prems(1) 1]] Cons.prems(2) 1 show ?case by simp
qed simp

text \<open>A turn of the pass is one \<open>Resolved\<close>, of the length the entitlement resolves to.\<close>

lemma states_of_row: "states_of db org = row_state (rd_states db org)"
  by (simp add: states_of_def row_state_def)

lemma advance_resolves:
  assumes "ret_advance env flt org (row_state seen) now db = (db', res)"
  shows "db' = db \<and> \<not> is_ok res \<or>
    (\<exists>d lapsed. row_step (rd_states db org, seen) (Resolved d lapsed now) = (rd_states db' org, rd_states db' org)
      \<and> res = Inr (rs_days (next_state (row_state seen) d lapsed now)))"
proof (cases res)
  case (Inl e)
  with advance_effect(4) [OF assms Inl] show ?thesis by simp
next
  case (Inr x)
  then obtain ent where ent: "get_entitlement (\<lambda>k. flt (RcEnt org k)) (re_catalog env) (re_billing env) (rd_billing db) org now = Inr ent"
    using assms by (auto simp: ret_advance_def split: sum.splits)
  define v where "v = (case en_retention ent of None \<Rightarrow> 0 | Some v \<Rightarrow> v)"
  let ?s = "row_state seen"
  obtain lapsed where l: "(if state_drops ?s v then org_lapsed flt org ent (rd_billing db) else Inr False) = Inr lapsed"
    using assms Inr ent by (cases "if state_drops ?s v then org_lapsed flt org ent (rd_billing db) else Inr False")
      (auto simp: ret_advance_def v_def [symmetric] Let_def)
  have "(if next_state ?s v lapsed now \<noteq> ?s
      then (if flt (RcUpsert org) then (db, Inl RetDb)
            else (upsert_state org (state_params (next_state ?s v lapsed now)) db, Inr (rs_days (next_state ?s v lapsed now))))
      else (db, Inr (rs_days (next_state ?s v lapsed now)))) = (db', res)"
    using assms ent l by (simp add: ret_advance_def v_def [symmetric] Let_def)
  then have "row_step (rd_states db org, seen) (Resolved v lapsed now) = (rd_states db' org, rd_states db' org)
      \<and> res = Inr (rs_days (next_state ?s v lapsed now))"
    using Inr by (cases "next_state ?s v lapsed now = ?s"; cases "flt (RcUpsert org)") (auto simp: upsert_state_def Let_def)
  then show ?thesis by blast
qed

text \<open>
  C17. A shorter length is enforced only after thirty days in which every pass resolved it. When
  a turn of the pass, on the row as it read it, leaves a shorter enforced length, then at
  least thirty days before either a pass resolved that length for an org that had not just
  stopped paying, or an operator expired it, and every pass since has resolved the same
  length; expires may land between a pass's read of the row and its turn.
\<close>
theorem shorter_length_waits:
  assumes "rs_pending (row_state row0) = 0" "run_events row_step (row0, row0) evs = (rd_states db org, seen)"
    "ret_advance env flt org (row_state seen) now db = (db', res)" "\<not> keeps (enforced db' org) (enforced db org)"
  shows "\<exists>pre e post. evs = pre @ e # post \<and> 30 * 24 * hour \<le> now - truncate_us (event_time e)
    \<and> starts_wait (enforced db' org) e \<and> list_all (resolves_only (enforced db' org)) post"
proof -
  let ?row = "rd_states db org" and ?s = "row_state seen"
  have inv: "wait_inv evs ?row seen"
    using wait_run [of "[]", OF _ assms(2)] assms(1) by (simp add: wait_inv_def seen_or_expired_def)
  then have old: "seen_or_expired ?row seen" by (simp add: wait_inv_def)
  have days: "enforced db org = rs_days ?s" using seen_days(1) [OF old] by (simp add: enforced_def states_of_row)
  have "db' \<noteq> db" using assms(4) by auto
  then obtain d lapsed where step: "row_step (?row, seen) (Resolved d lapsed now) = (rd_states db' org, rd_states db' org)"
    using advance_resolves [OF assms(3)] by blast
  have row': "rd_states db' org = (if next_state ?s d lapsed now \<noteq> ?s then Some (state_params (next_state ?s d lapsed now)) else ?row)"
    using step by (auto simp: Let_def)
  have enf: "enforced db' org = rs_days (next_state ?s d lapsed now)"
    using row' seen_days(1) [OF old] by (cases "next_state ?s d lapsed now = ?s") (simp_all add: enforced_def states_of_row)
  have cut: "\<not> keeps (rs_days (next_state ?s d lapsed now)) (rs_days ?s)" using assms(4) enf days by simp
  show ?thesis
  proof (cases rule: next_state_cases [of d ?s lapsed now])
    case due
    have row: "?row = seen" using seen_days(3) [OF old due(3)] .
    have pend: "rs_pending ?s \<noteq> 0" using due(1,2) by (auto simp: keeps_def)
    have "waits_since d (rs_since ?s) evs" using inv due(2,3) pend by (simp add: wait_inv_def row)
    then obtain pre e post where "evs = pre @ e # post" "truncate_us (event_time e) = rs_since ?s" "starts_wait d e"
      "list_all (resolves_only d) post" by (auto simp: waits_since_def)
    then show ?thesis using due(4,5) enf
      by (intro exI [of _ pre] exI [of _ e] exI [of _ post]) (simp add: retention_wait_def)
  qed (use cut in simp_all)
qed

section \<open>What the deletes remove\<close>

text \<open>What a cut requires of a row that it deletes, beside the rows that were in the table with it.\<close>

lemma row_before_dated:
  assumes "r \<in> set rows" "row_before tz t rows lim r"
  shows "cw_at r < (if t = TRollupDaily then tz lim else lim)"
    "t = TActivityStates \<or> t = TEventNames \<Longrightarrow> s \<in> set rows \<Longrightarrow> cw_project s = cw_project r \<Longrightarrow> cw_key s = cw_key r \<Longrightarrow> cw_at s < lim"
  using assms by (auto simp: row_before_def list_all_iff split: if_splits)

text \<open>
  C16. Whatever ClickHouse does with the deletes a pass queued, and whatever is inserted
  meanwhile, a row that goes was due: deletes are switched on, the row's project is live, its org
  has an enforced length, and the row is dated before the first of the month that holds now
  minus that length, and before the first of the previous month. A row of a person's activity or of an
  event name goes only when every row of its key is dated so, at the step that removed it: a
  person on both sides of the cut stays whole.
\<close>
theorem retention_spares_recent:
  assumes "ret_pass env flt now db = (db', errs)" "distinct (rd_orgs db)" "es_mutations (rd_store db) = []"
    "r \<in> set (es_rows (rd_store db) t)" "r \<notin> set (es_rows (run_events (store_step (re_tz env)) (rd_store db') evs) t)"
  shows "re_enabled env \<and> (\<exists>pre e post org at_day.
      evs = pre @ e # post
    \<and> r \<in> set (es_rows (run_events (store_step (re_tz env)) (rd_store db') pre) t)
    \<and> r \<notin> set (es_rows (run_events (store_step (re_tz env)) (rd_store db') (pre @ [e])) t)
    \<and> (cw_project r, org) \<in> set (live_projects (rd_projects db))
    \<and> 0 < enforced db' org \<and> at_day \<le> now - enforced db' org * day_ns \<and> at_day \<le> last_cut now
    \<and> cw_at r < (if t = TRollupDaily then re_tz env at_day else at_day)
    \<and> (t = TActivityStates \<or> t = TEventNames \<longrightarrow>
         (\<forall>s\<in>set (es_rows (run_events (store_step (re_tz env)) (rd_store db') pre) t).
            cw_project s = cw_project r \<longrightarrow> cw_key s = cw_key r \<longrightarrow> cw_at s < at_day)))"
proof -
  note queued = pass_queues [OF assms(1,2)]
  have "r \<in> set (es_rows (rd_store db') t)" using assms(4) queued(1) by simp
  from store_run_removal [OF this assms(5)] obtain pre e post m where step: "evs = pre @ e # post"
      "r \<in> set (es_rows (run_events (store_step (re_tz env)) (rd_store db') pre) t)"
      "r \<notin> set (es_rows (run_events (store_step (re_tz env)) (rd_store db') (pre @ [e])) t)"
    and m: "m \<in> set (es_mutations (rd_store db'))"
      "selects (re_tz env) t (es_rows (run_events (store_step (re_tz env)) (rd_store db') pre) t) (mu_cond m) r" by blast
  have due: "re_enabled env" "due_delete now db' m" using queued(3) [OF m(1)] assms(3) by simp_all
  then obtain ids at_day where c: "mu_cond m = BeforeCut ids at_day"
    and projs: "\<forall>p\<in>set ids. \<exists>org. (p, org) \<in> set (live_projects (rd_projects db')) \<and> ret_cut now (enforced db' org) = Some at_day"
    by (auto simp: due_delete_def)
  have sel: "cw_project r \<in> set ids" "row_before (re_tz env) t (es_rows (run_events (store_step (re_tz env)) (rd_store db') pre) t) at_day r"
    using m(2) by (simp_all add: selects_def c)
  then obtain org where org: "(cw_project r, org) \<in> set (live_projects (rd_projects db))" "ret_cut now (enforced db' org) = Some at_day"
    using projs queued(2) by auto
  show ?thesis
    using due(1) step org(1) ret_cut_bounds [OF org(2)] row_before_dated [OF step(2) sel(2)] by blast
qed

text \<open>
  Retention never changes a count or a bill: from the day a usage pass at the same instant
  or later reads on, with a rescan of at most 28 days, the events are the ones stored before
  the retention pass and the ones inserted since, whichever of the queued deletes have run.
\<close>
theorem retention_spares_metering:
  assumes "ret_pass env flt now db = (db', errs)" "distinct (rd_orgs db)" "es_mutations (rd_store db) = []"
    "now \<le> later" "rescan \<le> 28"
  shows "filter (\<lambda>r. pass_from udb later rescan \<le> cw_at r) (es_rows (run_events (store_step (re_tz env)) (rd_store db') evs) TEvents)
    = filter (\<lambda>r. pass_from udb later rescan \<le> cw_at r) (es_rows (rd_store db) TEvents @ inserted TEvents evs)"
proof -
  note queued = pass_queues [OF assms(1,2)]
  have "\<not> selects (re_tz env) TEvents rows (mu_cond m) r"
    if "m \<in> set (es_mutations (rd_store db'))" "pass_from udb later rescan \<le> cw_at r" for m rows r
  proof
    assume sel: "selects (re_tz env) TEvents rows (mu_cond m) r"
    have "due_delete now db' m" using queued(3) [OF that(1)] assms(3) by simp
    then obtain ids at_day where c: "mu_cond m = BeforeCut ids at_day"
      and projs: "\<forall>p\<in>set ids. \<exists>org. (p, org) \<in> set (live_projects (rd_projects db')) \<and> ret_cut now (enforced db' org) = Some at_day"
      by (auto simp: due_delete_def)
    have "cw_project r \<in> set ids" "cw_at r < at_day" using sel by (simp_all add: selects_def c row_before_def)
    then have "cw_at r < last_cut now" using projs ret_cut_bounds(3) by fastforce
    then show False
      using that(2) pass_reads_after_last_cut [OF assms(5), of later udb] last_cut_mono [OF assms(4)] by linarith
  qed
  from store_run_spares [OF this] queued(1) show ?thesis by simp
qed

section \<open>Witnesses\<close>

definition demo_ret_env :: ret_env where
  "demo_ret_env = \<lparr>re_catalog = catalog, re_billing = \<lparr>cfg_enabled = False, cfg_retention_days = 365\<rparr>, re_enabled = True,
     re_clickhouse = True, re_tz = (\<lambda>t. t div day_ns)\<rparr>"

definition demo_ret :: "ret_row option \<Rightarrow> event_store \<Rightarrow> ret_db" where
  "demo_ret row es = \<lparr>rd_billing = demo_billing, rd_orgs = [''o''], rd_states = (\<lambda>g. None)(''o'' := row),
     rd_projects = [\<lparr>pr_id = ''p'', pr_org = ''o'', pr_live = True\<rparr>], rd_store = es\<rparr>"

definition demo_events :: event_store where
  "demo_events = \<lparr>es_rows = (\<lambda>t. [])(TEvents := [\<lparr>cw_project = ''p'', cw_key = [], cw_at = go_date 2020 1 1\<rparr>]), es_mutations = []\<rparr>"

lemma demo_resolves:
  "\<exists>ent. get_entitlement (\<lambda>k. False) catalog \<lparr>cfg_enabled = False, cfg_retention_days = 365\<rparr> demo_billing ''o'' now = Inr ent
    \<and> en_retention ent = Some 365 \<and> \<not> en_enabled ent"
  by (simp add: get_entitlement_def demo_billing_def resolve_def Let_def record_from_row_def empty_record_def retention_days_def
      blank_entitlement_def split: prod.splits)

lemma demo_advance:
  "ret_advance demo_ret_env (\<lambda>k. False) ''o'' cur now (demo_ret row es) =
    (if next_state cur 365 False now \<noteq> cur
     then (upsert_state ''o'' (state_params (next_state cur 365 False now)) (demo_ret row es), Inr (rs_days (next_state cur 365 False now)))
     else (demo_ret row es, Inr (rs_days (next_state cur 365 False now))))"
proof -
  obtain ent where "get_entitlement (\<lambda>k. False) catalog \<lparr>cfg_enabled = False, cfg_retention_days = 365\<rparr> demo_billing ''o'' now = Inr ent"
    "en_retention ent = Some 365" "\<not> en_enabled ent" using demo_resolves by blast
  then show ?thesis by (simp add: ret_advance_def demo_ret_env_def demo_ret_def org_lapsed_def Let_def)
qed

lemma demo_dates: "go_date 2026 1 1 = 1767225600000000000" "go_date 2020 1 1 = 1577836800000000000"
  by (simp_all add: date_eval)

abbreviation demo_wait :: "ret_event list" where
  "demo_wait \<equiv> [ReadStates, Resolved 365 False (go_date 2026 1 1)]"

lemma shorter_length_waits_witness:
  "\<exists>pre e post. demo_wait = pre @ e # post \<and> 30 * 24 * hour \<le> go_date 2026 1 1 + 31 * day_ns - truncate_us (event_time e)
    \<and> starts_wait 365 e \<and> list_all (resolves_only 365) post"
proof -
  define st where "st = no_state\<lparr>rs_pending := 365, rs_since := go_date 2026 1 1\<rparr>"
  let ?row = "Some (state_params st)" and ?now = "go_date 2026 1 1 + 31 * day_ns"
  have st: "row_state ?row = st"
    by (simp add: row_state_def state_from_row_def state_params_def st_def no_state_def new_optional_int8_def int8_of_def
        new_optional_timestamptz_def is_zero_time_def zero_time_def time_of_def new_optional_text_def truncate_us_def demo_dates go_time)
  have first: "next_state no_state 365 False (go_date 2026 1 1) = st"
    by (simp add: next_state_def keeps_def state_drops_def st_def no_state_def)
  then have run: "run_events row_step (None, None) demo_wait = (?row, ?row)"
    by (simp add: row_state_def Let_def st_def no_state_def)
  have due: "next_state st 365 False ?now = no_state\<lparr>rs_days := 365\<rparr>"
    by (simp add: next_state_def keeps_def state_drops_def st_def no_state_def is_zero_time_def zero_time_def time_sub_def
        retention_wait_def demo_dates day_ns_val go_time)
  define db' where "db' = upsert_state ''o'' (state_params (no_state\<lparr>rs_days := 365\<rparr>)) (demo_ret ?row demo_events)"
  have adv: "ret_advance demo_ret_env (\<lambda>k. False) ''o'' (row_state ?row) ?now (demo_ret ?row demo_events) = (db', Inr 365)"
    unfolding demo_advance st due by (simp add: db'_def st_def no_state_def)
  have enf: "enforced db' ''o'' = 365" "enforced (demo_ret ?row demo_events) ''o'' = 0"
    using st by (simp_all add: enforced_def states_of_row db'_def upsert_state_def demo_ret_def st_def)
  show ?thesis
    using shorter_length_waits [of None demo_wait "demo_ret ?row demo_events" "''o''" ?row, OF _ _ adv] run enf
    by (simp add: demo_ret_def row_state_def keeps_def)
qed

definition demo_kept :: "ret_row option" where
  "demo_kept = Some (state_params (no_state\<lparr>rs_days := 365\<rparr>))"

lemma demo_cut: "ret_cut (go_date 2026 1 1) 365 = Some (go_date 2025 1 1)"
proof -
  have reads: "time_year (go_date y 1 1) = y" "time_month (go_date y 1 1) = 1" "time_day (go_date y 1 1) = 1" for y
    by (rule date_reads; simp add: month_len_def days_before_month_def)+
  have earlier: "add_date (go_date 2026 1 1) 0 0 (- 365) = go_date 2025 1 1"
    unfolding add_date_days by (simp add: date_eval)
  have prev: "add_date (go_date 2026 1 1) 0 (- 1) 0 = go_date 2025 12 1"
    unfolding add_date_def reads by (simp add: date_eval)
  have "go_date 2025 1 1 < go_date 2025 12 1" by (simp add: date_eval)
  then show ?thesis
    unfolding ret_cut_def first_of_month_def earlier reads prev Let_def by (simp add: time_sub_def demo_dates go_time)
qed

lemma demo_ret_pass:
  "ret_pass demo_ret_env (\<lambda>k. False) (go_date 2026 1 1) (demo_ret demo_kept demo_events)
    = (demo_ret demo_kept (queue_mutation TEvents (BeforeCut [''p''] (go_date 2025 1 1)) demo_events), [])"
proof -
  have st: "states_of (demo_ret demo_kept demo_events) ''o'' = no_state\<lparr>rs_days := 365\<rparr>"
    by (simp add: states_of_def demo_ret_def demo_kept_def state_from_row_def state_params_def no_state_def new_optional_int8_def
        int8_of_def new_optional_timestamptz_def is_zero_time_def time_of_def new_optional_text_def)
  have keep: "next_state (no_state\<lparr>rs_days := 365\<rparr>) 365 False now = no_state\<lparr>rs_days := 365\<rparr>" for now
    by (simp add: next_state_def)
  have turns: "ret_turns demo_ret_env (\<lambda>k. False) (go_date 2026 1 1) (states_of (demo_ret demo_kept demo_events)) [''o''] (demo_ret demo_kept demo_events)
      = (demo_ret demo_kept demo_events, [(''o'', go_date 2025 1 1)], [], False)"
    by (simp add: demo_advance st keep demo_cut)
  have groups: "by_cut [(''o'', go_date 2025 1 1)] (live_projects (rd_projects (demo_ret demo_kept demo_events))) = [(go_date 2025 1 1, [''p''])]"
    by (simp add: by_cut_def live_projects_def demo_ret_def List.map_filter_def)
  have work: "cut_chunks [(go_date 2025 1 1, [''p''])] = [(go_date 2025 1 1, 0, [''p''])]"
    by (simp add: cut_chunks_def chunks.simps max_projects_def)
  have late: "go_date 2020 1 1 < go_date 2025 1 1" by (simp add: date_eval)
  show ?thesis
    using turns groups
    by (simp add: ret_pass_def delete_before_def demo_ret_def demo_ret_env_def Let_def cut_tables_def unfinished_def demo_events_def
        cut_table_def work rows_before_def row_before_def late)
qed

lemma demo_gone: "es_rows (run_events (store_step (re_tz demo_ret_env))
    (rd_store (demo_ret demo_kept (queue_mutation TEvents (BeforeCut [''p''] (go_date 2025 1 1)) demo_events))) [RunMutation 0 (\<lambda>r. False)]) TEvents = []"
proof -
  have "go_date 2020 1 1 < go_date 2025 1 1" by (simp add: date_eval)
  then show ?thesis
    by (simp add: demo_ret_def store_step_def run_mutation_def demo_events_def Let_def selects_def row_before_def)
qed

lemma retention_spares_recent_witness:
  "0 < enforced (demo_ret demo_kept (queue_mutation TEvents (BeforeCut [''p''] (go_date 2025 1 1)) demo_events)) ''o''"
  using retention_spares_recent [OF demo_ret_pass, where t = TEvents and r = "\<lparr>cw_project = ''p'', cw_key = [], cw_at = go_date 2020 1 1\<rparr>"
      and evs = "[RunMutation 0 (\<lambda>r. False)]"] demo_gone
  by (auto simp: demo_ret_def demo_events_def live_projects_def)

lemma retention_spares_metering_witness:
  "filter (\<lambda>r. pass_from \<lparr>ub_orgs = [], ub_projects = [], ub_cells = [], ub_periods = [], ub_cron = (\<lambda>k. None)\<rparr> (go_date 2026 1 2) 2 \<le> cw_at r)
      (es_rows (run_events (store_step (re_tz demo_ret_env))
        (rd_store (demo_ret demo_kept (queue_mutation TEvents (BeforeCut [''p''] (go_date 2025 1 1)) demo_events))) [RunMutation 0 (\<lambda>r. False)]) TEvents)
    = filter (\<lambda>r. pass_from \<lparr>ub_orgs = [], ub_projects = [], ub_cells = [], ub_periods = [], ub_cron = (\<lambda>k. None)\<rparr> (go_date 2026 1 2) 2 \<le> cw_at r)
      (es_rows demo_events TEvents)"
proof -
  have "go_date 2026 1 1 \<le> go_date 2026 1 2" by (simp add: date_eval)
  from retention_spares_metering [OF demo_ret_pass _ _ this, where evs = "[RunMutation 0 (\<lambda>r. False)]" and rescan = 2
      and udb = "\<lparr>ub_orgs = [], ub_projects = [], ub_cells = [], ub_periods = [], ub_cron = (\<lambda>k. None)\<rparr>"]
  show ?thesis by (simp add: inserted_def demo_ret_def demo_events_def)
qed

end
