(* ===== verification/Purge.thy ===== *)
theory Purge
  imports Usage_Store Event_Store
begin

text \<open>
  Deleting a project: the request of \<open>internal/core/projects/service.go\<close> that hides it and
  revokes its keys, and the purge job of \<open>internal/core/purge\<close> that erases what it stored. The
  job's row in \<open>project_deletions\<close> moves \<open>pending\<close>, \<open>deleting\<close>, \<open>done\<close>, and back to
  \<open>deleting\<close> when rows come back. Every call that can fail asks the fault function; the
  clock the Postgres batches watch is the argument \<open>late\<close>. Of an error only its kind is
  kept on the row, not its text.
\<close>

section \<open>Tables\<close>

definition status_pending_d :: string where "status_pending_d = ''pending''"
definition status_deleting :: string where "status_deleting = ''deleting''"
definition status_done :: string where "status_done = ''done''"

definition purge_hold :: duration where "purge_hold = hour"
definition round_every :: duration where "round_every = hour"
definition watch_for :: duration where "watch_for = 30 * 24 * hour"
definition stuck_after :: duration where "stuck_after = 24 * hour"
definition batch_rows :: nat where "batch_rows = 5000"

datatype purge_error =
    ErrNoProject | ErrLiveProject | PurgeDb | PurgeClickHouse | PurgeUsage usage_error | UnknownStatus
  | DeleteFailing ch_table string | RowsCameBack "ch_table list" | NotDone "ch_table list" bool

record deletion =
  dl_project :: string
  dl_org :: "string option"
  dl_by :: string
  dl_status :: string
  dl_requested :: time
  dl_rounds :: int
  dl_round :: "time option"
  dl_done :: "time option"
  dl_error :: "purge_error option"

record purge_db =
  pg_usage :: usage_db
  pg_deletions :: "deletion list"
  pg_keys :: "(string \<times> string) list" \<comment> \<open>project and token\<close>
  pg_shares :: "string list" \<comment> \<open>the projects of the dashboard shares\<close>
  pg_campaigns :: "string list"
  pg_devices :: "string \<Rightarrow> nat" \<comment> \<open>rows of a project\<close>
  pg_profiles :: "string \<Rightarrow> nat"
  pg_store :: event_store

datatype check_stage = StageWatch | StageErase | StageStart

datatype purge_call =
    PcList | PcTx string | PcCommit string | PcOrgPeriod string | PcLive string | PcRunning check_stage string
  | PcRows check_stage string ch_table | PcQueue string ch_table | PcRound string | PcReopen string
  | PcBatch string bool nat | PcBatchDeadline string bool nat | PcStatement string | PcStore string

section \<open>The request\<close>

definition project_is_live :: "purge_db \<Rightarrow> string \<Rightarrow> bool" where
  "project_is_live db p = list_ex (\<lambda>r. pr_id r = p \<and> pr_live r) (ub_projects (pg_usage db))"

definition find_deletion :: "deletion list \<Rightarrow> string \<Rightarrow> deletion option" where
  "find_deletion ds p = List.find (\<lambda>d. dl_project d = p) ds"

definition new_deletion :: "string \<Rightarrow> string option \<Rightarrow> string \<Rightarrow> time \<Rightarrow> deletion" where
  "new_deletion p org by_who now = \<lparr>dl_project = p, dl_org = org, dl_by = by_who, dl_status = status_pending_d, dl_requested = now,
     dl_rounds = 0, dl_round = None, dl_done = None, dl_error = None\<rparr>"

text \<open>Under the project's row lock; the insert fails on a project that already has a deletion row.\<close>

definition hide_project :: "(purge_call \<Rightarrow> bool) \<Rightarrow> project_row \<Rightarrow> string \<Rightarrow> time \<Rightarrow> purge_db \<Rightarrow> purge_db option" where
  "hide_project flt pr by_who now db =
     (if flt (PcStatement (pr_id pr)) \<or> find_deletion (pg_deletions db) (pr_id pr) \<noteq> None then None
      else Some (db\<lparr>pg_deletions := pg_deletions db @ [new_deletion (pr_id pr) (Some (pr_org pr)) by_who now],
                    pg_keys := filter (\<lambda>(p, t). p \<noteq> pr_id pr) (pg_keys db),
                    pg_shares := filter (\<lambda>p. p \<noteq> pr_id pr) (pg_shares db),
                    pg_campaigns := filter (\<lambda>p. p \<noteq> pr_id pr) (pg_campaigns db),
                    pg_usage := (pg_usage db)\<lparr>ub_projects :=
                      map (\<lambda>r. if pr_id r = pr_id pr then r\<lparr>pr_live := False\<rparr> else r) (ub_projects (pg_usage db))\<rparr>\<rparr>))"

datatype delete_error = ErrProjectNotFound | DeleteDb

definition delete_project :: "(purge_call \<Rightarrow> bool) \<Rightarrow> string \<Rightarrow> string \<Rightarrow> string \<Rightarrow> time \<Rightarrow> purge_db \<Rightarrow> purge_db \<times> delete_error option" where
  "delete_project flt org p by_who now db =
     (if flt (PcTx p) then (db, Some DeleteDb)
      else case project_of (pg_usage db) p of
        None \<Rightarrow> (db, Some ErrProjectNotFound)
      | Some pr \<Rightarrow>
          if pr_org pr \<noteq> org \<or> \<not> pr_live pr then (db, Some ErrProjectNotFound)
          else case hide_project flt pr by_who now db of
            None \<Rightarrow> (db, Some DeleteDb)
          | Some db1 \<Rightarrow> if flt (PcCommit p) then (db, Some DeleteDb) else (db1, None))"

datatype operator_deletion = OperatorDeletionHidden | OperatorDeletionQueuedOrphan | OperatorDeletionReopened | OperatorDeletionUnchanged

definition update_deletion :: "string \<Rightarrow> (deletion \<Rightarrow> deletion) \<Rightarrow> purge_db \<Rightarrow> purge_db" where
  "update_deletion p f db = db\<lparr>pg_deletions := map (\<lambda>d. if dl_project d = p then f d else d) (pg_deletions db)\<rparr>"

definition reopen_row :: "deletion \<Rightarrow> deletion" where
  "reopen_row d = (if dl_status d = status_done then d\<lparr>dl_status := status_deleting, dl_done := None\<rparr> else d)"

definition queue_orphan :: "string \<Rightarrow> string \<Rightarrow> time \<Rightarrow> purge_db \<Rightarrow> purge_db \<times> operator_deletion" where
  "queue_orphan p by_who now db =
     (case find_deletion (pg_deletions db) p of
        None \<Rightarrow> (db\<lparr>pg_deletions := pg_deletions db @ [new_deletion p None by_who now]\<rparr>, OperatorDeletionQueuedOrphan)
      | Some d \<Rightarrow> if dl_status d = status_done then (update_deletion p reopen_row db, OperatorDeletionReopened)
                  else (db, OperatorDeletionUnchanged))"

definition delete_by_operator :: "(purge_call \<Rightarrow> bool) \<Rightarrow> string \<Rightarrow> string \<Rightarrow> time \<Rightarrow> purge_db
    \<Rightarrow> purge_db \<times> (delete_error, operator_deletion) result" where
  "delete_by_operator flt p by_who now db =
     (if flt (PcTx p) then (db, Inl DeleteDb)
      else case (case project_of (pg_usage db) p of
                   Some pr \<Rightarrow> if pr_live pr
                     then map_option (\<lambda>db1. (db1, OperatorDeletionHidden)) (hide_project flt pr by_who now db)
                     else if flt (PcStatement p) then None else Some (queue_orphan p by_who now db)
                 | None \<Rightarrow> if flt (PcStatement p) then None else Some (queue_orphan p by_who now db)) of
        None \<Rightarrow> (db, Inl DeleteDb)
      | Some (db1, did) \<Rightarrow> if flt (PcCommit p) then (db, Inl DeleteDb) else (db1, Inr did))"

section \<open>ClickHouse under a filter\<close>

definition purge_tables :: "ch_table list" where
  "purge_tables = [TEvents, TProfiles, TProfileAliases, TActivityStates, TRollupDaily, TEventNames, TPropertyKeys, TProfileKeysCurrent]"

record table_state =
  ts_table :: ch_table
  ts_rows :: bool
  ts_deleting :: bool
  ts_fail :: string

definition ts_rebuilt :: "table_state \<Rightarrow> bool" where
  "ts_rebuilt s = (ts_table s = TProfileKeysCurrent)"

definition running_deletes :: "mutation list \<Rightarrow> string \<Rightarrow> ch_table \<Rightarrow> mutation list" where
  "running_deletes ms p t = filter (\<lambda>m. mu_table m = t \<and> names_project p (mu_cond m)) ms"

definition table_state_of :: "event_store \<Rightarrow> string \<Rightarrow> ch_table \<Rightarrow> table_state" where
  "table_state_of es p t =
     (let run = running_deletes (es_mutations es) p t
      in \<lparr>ts_table = t, ts_rows = list_ex (\<lambda>r. cw_project r = p) (es_rows es t), ts_deleting = (run \<noteq> []),
          ts_fail = (case filter (\<lambda>x. x \<noteq> []) (map mu_fail run) of [] \<Rightarrow> [] | why # _ \<Rightarrow> why)\<rparr>)"

definition purge_check :: "(purge_call \<Rightarrow> bool) \<Rightarrow> check_stage \<Rightarrow> string \<Rightarrow> event_store \<Rightarrow> (purge_error, table_state list) result" where
  "purge_check flt stage p es =
     (if p = [] then Inl ErrNoProject
      else if flt (PcRunning stage p) \<or> list_ex (\<lambda>t. flt (PcRows stage p t)) purge_tables then Inl PurgeClickHouse
      else Inr (map (table_state_of es p) purge_tables))"

definition refuse_live :: "(purge_call \<Rightarrow> bool) \<Rightarrow> string \<Rightarrow> purge_db \<Rightarrow> purge_error option" where
  "refuse_live flt p db =
     (if p = [] then Some ErrNoProject
      else if flt (PcLive p) then Some PurgeDb
      else if project_is_live db p then Some ErrLiveProject else None)"

text \<open>The store, the tables queued, and the call that failed.\<close>

fun queue_deletes :: "(purge_call \<Rightarrow> bool) \<Rightarrow> string \<Rightarrow> table_state list \<Rightarrow> event_store \<Rightarrow> event_store \<times> ch_table list \<times> purge_error option" where
  "queue_deletes flt p [] es = (es, [], None)"
| "queue_deletes flt p (s # ss) es =
     (if ts_rebuilt s \<or> \<not> ts_rows s \<or> ts_deleting s then queue_deletes flt p ss es
      else if flt (PcQueue p (ts_table s)) then (es, [], Some PurgeClickHouse)
      else case queue_deletes flt p ss (queue_mutation (ts_table s) (OfProject p) es) of
             (es1, ts, e) \<Rightarrow> (es1, ts_table s # ts, e))"

definition purge_start :: "(purge_call \<Rightarrow> bool) \<Rightarrow> string \<Rightarrow> purge_db \<Rightarrow> purge_db \<times> ch_table list \<times> purge_error option" where
  "purge_start flt p db =
     (case refuse_live flt p db of
        Some e \<Rightarrow> (db, [], Some e)
      | None \<Rightarrow>
          (case purge_check flt StageStart p (pg_store db) of
             Inl e \<Rightarrow> (db, [], Some e)
           | Inr ss \<Rightarrow> (case queue_deletes flt p ss (pg_store db) of (es, ts, e) \<Rightarrow> (db\<lparr>pg_store := es\<rparr>, ts, e))))"

section \<open>The steps of a deletion\<close>

text \<open>The last problem is kept on the row; a failed write of it is only logged.\<close>

definition store_error :: "(purge_call \<Rightarrow> bool) \<Rightarrow> string \<Rightarrow> purge_error \<Rightarrow> purge_db \<Rightarrow> purge_db" where
  "store_error flt p e db = (if flt (PcStore p) then db else update_deletion p (\<lambda>d. d\<lparr>dl_error := Some e\<rparr>) db)"

definition default_rescan :: int where "default_rescan = 2"

definition last_usage :: "(purge_call \<Rightarrow> bool) \<Rightarrow> clickhouse \<Rightarrow> deletion \<Rightarrow> time \<Rightarrow> purge_db \<Rightarrow> (purge_error, daily_usage list) result" where
  "last_usage flt ch d now db =
     (case dl_org d of
        None \<Rightarrow> Inr []
      | Some org \<Rightarrow>
          if flt (PcOrgPeriod (dl_project d)) then Inl PurgeDb
          else case get_org_period (pg_usage db) org now of
            Inl e \<Rightarrow> Inl (PurgeUsage e)
          | Inr (start, end') \<Rightarrow>
              (case meter_project (Some ch) (dl_project d)
                      (full_recompute_from now default_rescan [\<lparr>op_org = [], op_start = start, op_end = zero_time\<rparr>]) now of
                 Inl e \<Rightarrow> Inl (PurgeUsage e)
               | Inr us \<Rightarrow> Inr us))"

definition purge_begin :: "(purge_call \<Rightarrow> bool) \<Rightarrow> clickhouse \<Rightarrow> deletion \<Rightarrow> time \<Rightarrow> purge_db \<Rightarrow> purge_db \<times> purge_error option" where
  "purge_begin flt ch d now db =
     (case last_usage flt ch d now db of
        Inl e \<Rightarrow> (db, Some e)
      | Inr us \<Rightarrow>
          let p = dl_project d in
          if flt (PcTx p) \<or> flt (PcStatement p) \<or> flt (PcCommit p) then (db, Some PurgeDb)
          else case find_deletion (pg_deletions db) p of
            None \<Rightarrow> (db, None)
          | Some row \<Rightarrow>
              if dl_status row \<noteq> status_pending_d then (db, None)
              else ((update_deletion p (\<lambda>x. x\<lparr>dl_status := status_deleting\<rparr>) db)
                     \<lparr>pg_usage := freeze_daily_usage (pg_usage db) (case dl_org d of None \<Rightarrow> [] | Some org \<Rightarrow> org) p us\<rparr>, None))"

record erasing =
  ez_project :: string
  ez_waiting :: "ch_table list"
  ez_since :: time

definition failing_deletes :: "table_state list \<Rightarrow> purge_error list" where
  "failing_deletes ss = map (\<lambda>s. DeleteFailing (ts_table s) (ts_fail s)) (filter (\<lambda>s. ts_fail s \<noteq> []) ss)"

definition leftover :: "table_state list \<Rightarrow> bool" where
  "leftover ss = list_ex (\<lambda>s. ts_rows s \<and> \<not> ts_deleting s \<and> \<not> ts_rebuilt s) ss"

definition erase_clickhouse :: "(purge_call \<Rightarrow> bool) \<Rightarrow> deletion \<Rightarrow> time \<Rightarrow> purge_db \<Rightarrow> purge_db \<times> (purge_error, erasing) result" where
  "erase_clickhouse flt d now db =
     (let p = dl_project d in
      case purge_check flt StageErase p (pg_store db) of
        Inl e \<Rightarrow> (db, Inl e)
      | Inr ss \<Rightarrow>
          let db1 = foldl (\<lambda>x e. store_error flt p e x) db (failing_deletes ss);
              e = \<lparr>ez_project = p, ez_waiting = map ts_table (filter (\<lambda>s. ts_rows s \<or> ts_deleting s) ss),
                   ez_since = (case dl_round d of None \<Rightarrow> dl_requested d | Some t \<Rightarrow> t)\<rparr>
          in if \<not> leftover ss \<or> (0 < dl_rounds d \<and> time_sub now (case dl_round d of None \<Rightarrow> zero_time | Some t \<Rightarrow> t) < round_every)
             then (db1, Inr e)
             else case purge_start flt p db1 of
               (db2, queued, Some err) \<Rightarrow> (db2, Inl err)
             | (db2, queued, None) \<Rightarrow>
                 if queued = [] then (db2, Inr e)
                 else if flt (PcRound p) then (db2, Inl PurgeDb)
                 else let db3 = update_deletion p (\<lambda>x. x\<lparr>dl_rounds := dl_rounds x + 1, dl_round := Some (truncate_us now)\<rparr>) db2;
                          db4 = (if 0 < dl_rounds d \<or> dl_status d = status_done then store_error flt p (RowsCameBack queued) db3 else db3)
                      in (db4, Inr (e\<lparr>ez_since := now\<rparr>)))"

definition purge_reopen :: "(purge_call \<Rightarrow> bool) \<Rightarrow> string \<Rightarrow> purge_db \<Rightarrow> purge_db \<times> purge_error option" where
  "purge_reopen flt p db = (if flt (PcReopen p) then (db, Some PurgeDb) else (update_deletion p reopen_row db, None))"

text \<open>The ClickHouse step: \<open>None\<close> when the deletion is not deleting.\<close>

definition purge_advance :: "(purge_call \<Rightarrow> bool) \<Rightarrow> clickhouse \<Rightarrow> deletion \<Rightarrow> time \<Rightarrow> purge_db
    \<Rightarrow> purge_db \<times> (purge_error, erasing option) result" where
  "purge_advance flt ch d now db =
     (let go = (\<lambda>db1. case erase_clickhouse flt d now db1 of (db2, Inl e) \<Rightarrow> (db2, Inl e) | (db2, Inr e) \<Rightarrow> (db2, Inr (Some e)))
      in if dl_status d = status_pending_d then
           (if time_sub now (dl_requested d) < purge_hold then (db, Inr None)
            else case purge_begin flt ch d now db of
              (db1, Some e) \<Rightarrow> (db1, Inl e)
            | (db1, None) \<Rightarrow> go db1)
         else if dl_status d = status_done then
           (case purge_check flt StageWatch (dl_project d) (pg_store db) of
              Inl e \<Rightarrow> (db, Inl e)
            | Inr ss \<Rightarrow>
                if \<not> list_ex ts_rows ss then (db, Inr None)
                else (case purge_reopen flt (dl_project d) db of
                        (db1, Some e) \<Rightarrow> (db1, Inl e)
                      | (db1, None) \<Rightarrow> go db1))
         else if dl_status d = status_deleting then go db
         else (db, Inl UnknownStatus))"

text \<open>
  One table's batches, from \<open>n\<close> rows: the rows left and whether the table is done; \<open>Inl\<close> is
  a failed statement, which within the deadline fails the step.
\<close>

function batch_loop :: "(purge_call \<Rightarrow> bool) \<Rightarrow> (bool \<Rightarrow> nat \<Rightarrow> bool) \<Rightarrow> string \<Rightarrow> bool \<Rightarrow> nat \<Rightarrow> nat \<Rightarrow> nat \<times> (purge_error, bool) result" where
  "batch_loop flt late p prof k n =
     (if late prof k then (n, Inr False)
      else if flt (PcBatch p prof k) then (n, if flt (PcBatchDeadline p prof k) then Inr False else Inl PurgeDb)
      else if n < batch_rows then (0, Inr True)
      else batch_loop flt late p prof (Suc k) (n - batch_rows))"
  by pat_completeness auto
termination by (relation "measure (\<lambda>(flt, late, p, prof, k, n). n)") (auto simp: batch_rows_def)

declare batch_loop.simps [simp del]

definition delete_batches :: "(purge_call \<Rightarrow> bool) \<Rightarrow> (bool \<Rightarrow> nat \<Rightarrow> bool) \<Rightarrow> string \<Rightarrow> purge_db \<Rightarrow> purge_db \<times> (purge_error, bool) result" where
  "delete_batches flt late p db =
     (case batch_loop flt late p False 0 (pg_devices db p) of
        (n, res) \<Rightarrow>
          let db1 = db\<lparr>pg_devices := (pg_devices db)(p := n)\<rparr> in
          if res \<noteq> Inr True then (db1, res)
          else case batch_loop flt late p True 0 (pg_profiles db1 p) of
            (m, res2) \<Rightarrow> (db1\<lparr>pg_profiles := (pg_profiles db1)(p := m)\<rparr>, res2))"

text \<open>The last transaction: the hidden row goes, with what still hangs on it, and the deletion is done.\<close>

definition finish_deletion :: "string \<Rightarrow> time \<Rightarrow> purge_db \<Rightarrow> purge_db" where
  "finish_deletion p now db =
     (let hidden = list_ex (\<lambda>r. pr_id r = p \<and> \<not> pr_live r) (ub_projects (pg_usage db));
          db1 = (if hidden then db\<lparr>pg_usage := (pg_usage db)\<lparr>ub_projects := filter (\<lambda>r. \<not> (pr_id r = p \<and> \<not> pr_live r)) (ub_projects (pg_usage db))\<rparr>,
                                   pg_devices := (pg_devices db)(p := 0), pg_profiles := (pg_profiles db)(p := 0)\<rparr> else db)
      in update_deletion p (\<lambda>d. if dl_status d = status_deleting then d\<lparr>dl_status := status_done, dl_done := Some (truncate_us now)\<rparr> else d) db1)"

definition erase_postgres :: "(purge_call \<Rightarrow> bool) \<Rightarrow> (string \<Rightarrow> bool \<Rightarrow> nat \<Rightarrow> bool) \<Rightarrow> erasing \<Rightarrow> time \<Rightarrow> purge_db \<Rightarrow> purge_db \<times> purge_error option" where
  "erase_postgres flt late e now db =
     (let p = ez_project e in
      case refuse_live flt p db of
        Some err \<Rightarrow> (db, Some err)
      | None \<Rightarrow>
          (case delete_batches flt (late p) p db of
             (db1, Inl err) \<Rightarrow> (db1, Some err)
           | (db1, Inr cleared) \<Rightarrow>
               if ez_waiting e \<noteq> [] \<or> \<not> cleared
               then (if time_sub now (ez_since e) \<ge> stuck_after then store_error flt p (NotDone (ez_waiting e) (\<not> cleared)) db1 else db1, None)
               else if flt (PcTx p) \<or> flt (PcStatement p) \<or> flt (PcCommit p) then (db1, Some PurgeDb)
               else (finish_deletion p now db1, None)))"

section \<open>The pass\<close>

definition open_deletions :: "time \<Rightarrow> deletion list \<Rightarrow> deletion list" where
  "open_deletions watch_from ds =
     sort_key dl_requested (sort_key dl_project
       (filter (\<lambda>d. dl_status d \<noteq> status_done \<or> (case dl_done d of None \<Rightarrow> False | Some t \<Rightarrow> watch_from \<le> t)) ds))"

fun advance_all :: "(purge_call \<Rightarrow> bool) \<Rightarrow> clickhouse \<Rightarrow> time \<Rightarrow> deletion list \<Rightarrow> purge_db \<Rightarrow> purge_db \<times> erasing list \<times> purge_error list" where
  "advance_all flt ch now [] db = (db, [], [])"
| "advance_all flt ch now (d # ds) db =
     (case purge_advance flt ch d now db of
        (db1, Inl err) \<Rightarrow>
          (case advance_all flt ch now ds (store_error flt (dl_project d) err db1) of (db2, es, errs) \<Rightarrow> (db2, es, err # errs))
      | (db1, Inr e) \<Rightarrow>
          (case advance_all flt ch now ds db1 of
             (db2, es, errs) \<Rightarrow> (db2, (case e of None \<Rightarrow> es | Some x \<Rightarrow> x # es), errs)))"

fun erase_all :: "(purge_call \<Rightarrow> bool) \<Rightarrow> (string \<Rightarrow> bool \<Rightarrow> nat \<Rightarrow> bool) \<Rightarrow> time \<Rightarrow> erasing list \<Rightarrow> purge_db \<Rightarrow> purge_db \<times> purge_error list" where
  "erase_all flt late now [] db = (db, [])"
| "erase_all flt late now (e # es) db =
     (case erase_postgres flt late e now db of
        (db1, None) \<Rightarrow> erase_all flt late now es db1
      | (db1, Some err) \<Rightarrow>
          (case erase_all flt late now es (store_error flt (ez_project e) err db1) of (db2, errs) \<Rightarrow> (db2, err # errs)))"

definition purge_pass :: "(purge_call \<Rightarrow> bool) \<Rightarrow> (string \<Rightarrow> bool \<Rightarrow> nat \<Rightarrow> bool) \<Rightarrow> clickhouse \<Rightarrow> time \<Rightarrow> purge_db \<Rightarrow> purge_db \<times> purge_error list" where
  "purge_pass flt late ch now db =
     (if flt PcList then (db, [PurgeDb])
      else case advance_all flt ch now (open_deletions (now - watch_for) (pg_deletions db)) db of
        (db1, es, errs) \<Rightarrow> (case erase_all flt late now es db1 of (db2, errs2) \<Rightarrow> (db2, errs @ errs2)))"

end
