(* ===== verification/Purge_Laws.thy ===== *)
theory Purge_Laws
  imports Purge Usage_Pass
begin

text \<open>
  What deleting projects guarantees: a live project loses nothing to it, a deletion is done
  only over nothing left, and the usage a deleted project counted stays.
\<close>

section \<open>Commands\<close>

datatype purge_cmd =
    DoDelete "purge_call \<Rightarrow> bool" string string string time
  | DoOperator "purge_call \<Rightarrow> bool" string string time
  | DoPass "purge_call \<Rightarrow> bool" "string \<Rightarrow> bool \<Rightarrow> nat \<Rightarrow> bool" clickhouse time
  | DoStore store_event

definition purge_step :: "(time \<Rightarrow> int) \<Rightarrow> purge_db \<Rightarrow> purge_cmd \<Rightarrow> purge_db" where
  "purge_step tz db cmd =
     (case cmd of
        DoDelete flt org p by_who now \<Rightarrow> fst (delete_project flt org p by_who now db)
      | DoOperator flt p by_who now \<Rightarrow> fst (delete_by_operator flt p by_who now db)
      | DoPass flt late ch now \<Rightarrow> fst (purge_pass flt late ch now db)
      | DoStore ev \<Rightarrow> db\<lparr>pg_store := store_step tz (pg_store db) ev\<rparr>)"

lemma deletion_statuses [simp]:
  "status_pending_d \<noteq> status_done" "status_done \<noteq> status_pending_d" "status_deleting \<noteq> status_done"
  "status_done \<noteq> status_deleting" "status_deleting \<noteq> status_pending_d" "status_pending_d \<noteq> status_deleting"
  by (simp_all add: status_pending_d_def status_done_def status_deleting_def)

section \<open>What a step spares\<close>

definition of_project :: "string \<Rightarrow> purge_db \<Rightarrow> (string \<times> string) list \<times> string list \<times> string list \<times> usage_cell list \<times> nat \<times> nat" where
  "of_project q db = (filter (\<lambda>(p, t). p = q) (pg_keys db), filter (\<lambda>p. p = q) (pg_shares db), filter (\<lambda>p. p = q) (pg_campaigns db),
     filter (\<lambda>c. uc_project c = q) (ub_cells (pg_usage db)), pg_devices db q, pg_profiles db q)"

text \<open>
  From \<open>db\<close> to \<open>db'\<close> nothing of \<open>q\<close> is gone, the live projects are the same, and the only new
  mutations name other projects.
\<close>

definition spares :: "string \<Rightarrow> purge_db \<Rightarrow> purge_db \<Rightarrow> bool" where
  "spares q db db' = (of_project q db' = of_project q db \<and> es_rows (pg_store db') = es_rows (pg_store db)
     \<and> project_is_live db' = project_is_live db
     \<and> (distinct (map pr_id (ub_projects (pg_usage db))) \<longrightarrow> distinct (map pr_id (ub_projects (pg_usage db'))))
     \<and> filter (\<lambda>r. pr_id r = q) (ub_projects (pg_usage db')) = filter (\<lambda>r. pr_id r = q) (ub_projects (pg_usage db))
     \<and> find_deletion (pg_deletions db') q = find_deletion (pg_deletions db) q
     \<and> map dl_project (pg_deletions db') = map dl_project (pg_deletions db)
     \<and> (\<exists>ms. es_mutations (pg_store db') = es_mutations (pg_store db) @ ms
          \<and> list_all (\<lambda>m. \<exists>p. mu_cond m = OfProject p \<and> p \<noteq> q \<and> \<not> project_is_live db p) ms))"

lemma spares_refl [simp]: "spares q db db"
  by (simp add: spares_def)

lemma spares_trans:
  assumes "spares q db1 db2" "spares q db2 db3"
  shows "spares q db1 db3"
proof -
  have live: "project_is_live db2 = project_is_live db1" using assms(1) by (simp add: spares_def)
  have "\<exists>ms. es_mutations (pg_store db3) = es_mutations (pg_store db1) @ ms
      \<and> list_all (\<lambda>m. \<exists>p. mu_cond m = OfProject p \<and> p \<noteq> q \<and> \<not> project_is_live db1 p) ms"
  proof -
    obtain ms ns where "es_mutations (pg_store db2) = es_mutations (pg_store db1) @ ms"
      "es_mutations (pg_store db3) = es_mutations (pg_store db2) @ ns"
      "list_all (\<lambda>m. \<exists>p. mu_cond m = OfProject p \<and> p \<noteq> q \<and> \<not> project_is_live db1 p) ms"
      "list_all (\<lambda>m. \<exists>p. mu_cond m = OfProject p \<and> p \<noteq> q \<and> \<not> project_is_live db1 p) ns"
      using assms live unfolding spares_def by auto
    then show ?thesis by (intro exI [of _ "ms @ ns"]) simp
  qed
  then show ?thesis using assms unfolding spares_def by auto
qed

lemma update_deletion_projects:
  "(\<And>d. dl_project (f d) = dl_project d) \<Longrightarrow> map dl_project (pg_deletions (update_deletion p f db)) = map dl_project (pg_deletions db)"
  by (simp add: update_deletion_def)

lemma find_deletion_map:
  "(\<And>d. dl_project (f d) = dl_project d) \<Longrightarrow>
    find_deletion (map f ds) q = map_option f (find_deletion ds q)"
  by (induction ds) (auto simp: find_deletion_def)

lemma find_deletion_project: "find_deletion ds q = Some d \<Longrightarrow> dl_project d = q"
  by (auto simp: find_deletion_def find_Some_iff)

lemma find_update_deletion:
  assumes "\<And>d. dl_project (f d) = dl_project d"
  shows "find_deletion (pg_deletions (update_deletion p f db)) q
    = map_option (\<lambda>d. if q = p then f d else d) (find_deletion (pg_deletions db) q)"
proof -
  have "find_deletion (pg_deletions (update_deletion p f db)) q = map_option (\<lambda>d. if dl_project d = p then f d else d) (find_deletion (pg_deletions db) q)"
    unfolding update_deletion_def by (simp add: find_deletion_map assms)
  then show ?thesis by (cases "find_deletion (pg_deletions db) q") (auto dest: find_deletion_project)
qed

lemma update_deletion_spares [simp]:
  "(\<And>d. dl_project (f d) = dl_project d) \<Longrightarrow> p \<noteq> q \<Longrightarrow> spares q db (update_deletion p f db)"
proof -
  assume f: "\<And>d. dl_project (f d) = dl_project d" and ne: "p \<noteq> q"
  have "find_deletion (pg_deletions (update_deletion p f db)) q = find_deletion (pg_deletions db) q"
    using ne by (simp add: find_update_deletion f option.map_ident)
  with update_deletion_projects [of f p db] f show ?thesis
    by (simp add: spares_def of_project_def project_is_live_def fun_eq_iff update_deletion_def)
qed

lemma reopen_row_project [simp]: "dl_project (reopen_row d) = dl_project d"
  by (simp add: reopen_row_def)

lemma store_error_spares [simp]: "p \<noteq> q \<Longrightarrow> spares q db (store_error flt p e db)"
  by (simp add: store_error_def)

lemma foldl_store_error_spares: "p \<noteq> q \<Longrightarrow> spares q db (foldl (\<lambda>x e. store_error flt p e x) db es)"
proof (induction es rule: rev_induct)
  case (snoc e es)
  then show ?case using spares_trans store_error_spares by simp
qed simp

lemma spares_projects: "spares q db db' \<Longrightarrow> dl_project ` set (pg_deletions db') = dl_project ` set (pg_deletions db)"
  by (metis list.set_map spares_def)

lemma put_cell_other: "uc_project c \<noteq> q \<Longrightarrow> filter (\<lambda>c. uc_project c = q) (put_cell c cells) = filter (\<lambda>c. uc_project c = q) cells"
  by (induction cells) auto

lemma freeze_other:
  assumes "p \<noteq> q"
  shows "filter (\<lambda>c. uc_project c = q) (ub_cells (freeze_daily_usage db org p us)) = filter (\<lambda>c. uc_project c = q) (ub_cells db)"
proof -
  have "filter (\<lambda>c. uc_project c = q) (foldl (\<lambda>cells u. put_cell \<lparr>uc_project = p, uc_day = new_date (du_day u), uc_count = du_count u,
      uc_org = f cells u\<rparr> cells) cells us) = filter (\<lambda>c. uc_project c = q) cells" for f cells
    using assms by (induction us arbitrary: cells) (simp_all add: put_cell_other)
  then show ?thesis by (simp add: freeze_daily_usage_def)
qed

lemma freeze_projects [simp]: "ub_projects (freeze_daily_usage db org p us) = ub_projects db"
  by (simp add: freeze_daily_usage_def)

lemma begin_spares:
  assumes "dl_project d \<noteq> q"
  shows "spares q db (fst (purge_begin flt ch d now db))"
proof (cases "fst (purge_begin flt ch d now db) = db")
  case False
  then obtain us where "fst (purge_begin flt ch d now db) = (update_deletion (dl_project d) (\<lambda>x. x\<lparr>dl_status := status_deleting\<rparr>) db)
      \<lparr>pg_usage := freeze_daily_usage (pg_usage db) (case dl_org d of None \<Rightarrow> [] | Some org \<Rightarrow> org) (dl_project d) us\<rparr>"
    by (auto simp: purge_begin_def Let_def split: sum.splits option.splits if_splits)
  moreover have "spares q db (update_deletion (dl_project d) (\<lambda>x. x\<lparr>dl_status := status_deleting\<rparr>) db)" using assms by simp
  ultimately show ?thesis
    using freeze_other [OF assms] by (simp add: spares_def of_project_def project_is_live_def fun_eq_iff)
qed simp

lemma queue_deletes_store:
  "es_rows (fst (queue_deletes flt p ss es)) = es_rows es
    \<and> (\<exists>ms. es_mutations (fst (queue_deletes flt p ss es)) = es_mutations es @ ms \<and> list_all (\<lambda>m. mu_cond m = OfProject p) ms)"
proof (induction ss arbitrary: es)
  case (Cons s ss)
  show ?case
    using Cons [of es] Cons [of "queue_mutation (ts_table s) (OfProject p) es"]
    by (cases "queue_deletes flt p ss (queue_mutation (ts_table s) (OfProject p) es)") auto
qed simp

lemma start_spares:
  assumes "p \<noteq> q"
  shows "spares q db (fst (purge_start flt p db))"
proof (cases "refuse_live flt p db")
  case None
  then have dead: "\<not> project_is_live db p" by (simp add: refuse_live_def split: if_splits)
  show ?thesis
  proof (cases "purge_check flt StageStart p (pg_store db)")
    case (Inr ss)
    obtain es ts e where q: "queue_deletes flt p ss (pg_store db) = (es, ts, e)" by (metis surj_pair)
    obtain ms where ms: "es_rows es = es_rows (pg_store db)" "es_mutations es = es_mutations (pg_store db) @ ms"
      "list_all (\<lambda>m. mu_cond m = OfProject p) ms"
      using queue_deletes_store [of flt p ss "pg_store db"] q by auto
    then have "list_all (\<lambda>m. \<exists>p. mu_cond m = OfProject p \<and> p \<noteq> q \<and> \<not> project_is_live db p) ms"
      using assms dead by (auto simp: list_all_iff)
    then show ?thesis
      using None Inr q ms by (simp add: purge_start_def spares_def of_project_def project_is_live_def fun_eq_iff)
  qed (use None in \<open>simp add: purge_start_def\<close>)
qed (simp add: purge_start_def)

lemma erase_clickhouse_spares:
  assumes "dl_project d \<noteq> q"
  shows "spares q db (fst (erase_clickhouse flt d now db))"
proof (cases "purge_check flt StageErase (dl_project d) (pg_store db)")
  case (Inr ss)
  define p where "p = dl_project d"
  define db1 where "db1 = foldl (\<lambda>x e. store_error flt p e x) db (failing_deletes ss)"
  have ne: "p \<noteq> q" using assms by (simp add: p_def)
  have 1: "spares q db db1" unfolding db1_def by (rule foldl_store_error_spares [OF ne])
  obtain db2 queued err where st: "purge_start flt p db1 = (db2, queued, err)" by (metis surj_pair)
  have 2: "spares q db1 db2" using start_spares [of p q db1 flt] assms st by (simp add: p_def)
  define db3 where "db3 = update_deletion p (\<lambda>x. x\<lparr>dl_rounds := dl_rounds x + 1, dl_round := Some (truncate_us now)\<rparr>) db2"
  have 3: "spares q db2 db3" using ne by (simp add: db3_def)
  have "fst (erase_clickhouse flt d now db) \<in> {db1, db2, db3, store_error flt p (RowsCameBack queued) db3}"
    using Inr st
    by (cases err) (simp_all add: erase_clickhouse_def Let_def p_def [symmetric] db1_def [symmetric] db3_def [symmetric])
  moreover note 4 = spares_trans [OF 1 2] and 5 = spares_trans [OF spares_trans [OF 1 2] 3]
  moreover note spares_trans [OF 5 store_error_spares [OF ne]]
  ultimately show ?thesis using 1 by (elim insertE emptyE) simp_all
qed (simp add: erase_clickhouse_def Let_def)

lemma advance_spares:
  assumes "dl_project d \<noteq> q"
  shows "spares q db (fst (purge_advance flt ch d now db))"
proof -
  define go where "go = (\<lambda>db1. case erase_clickhouse flt d now db1 of (db2, Inl e) \<Rightarrow> (db2, Inl e) | (db2, Inr e) \<Rightarrow> (db2, Inr (Some e)))"
  have go: "spares q x (fst (go x))" for x
  proof -
    have "fst (go x) = fst (erase_clickhouse flt d now x)" by (auto simp: go_def split: prod.splits sum.splits)
    with erase_clickhouse_spares [OF assms] show ?thesis by simp
  qed
  have b: "spares q db (fst (purge_begin flt ch d now db))" by (rule begin_spares [OF assms])
  have r: "spares q db (fst (purge_reopen flt (dl_project d) db))" using assms by (simp add: purge_reopen_def)
  show ?thesis
  proof (cases "fst (purge_advance flt ch d now db) = db")
    case False
    obtain b' be where b': "purge_begin flt ch d now db = (b', be)" by fastforce
    obtain r' re where r': "purge_reopen flt (dl_project d) db = (r', re)" by fastforce
    have "dl_status d = status_pending_d \<or> dl_status d = status_done \<or> dl_status d = status_deleting"
      using False by (rule contrapos_np) (simp add: purge_advance_def Let_def)
    then consider "dl_status d = status_pending_d" | "dl_status d = status_done" | "dl_status d = status_deleting" by blast
    then show ?thesis
    proof cases
      case 1
      then have "purge_advance flt ch d now db = (case be of Some e \<Rightarrow> (b', Inl e) | None \<Rightarrow> go b')"
        using False b' by (cases be) (auto simp: purge_advance_def Let_def go_def split: if_splits)
      then show ?thesis using b b' go spares_trans by (cases be) auto
    next
      case 2
      then have "purge_advance flt ch d now db = (case re of Some e \<Rightarrow> (r', Inl e) | None \<Rightarrow> go r')"
        using False r' by (cases re) (auto simp: purge_advance_def Let_def go_def split: if_splits sum.splits)
      then show ?thesis using r r' go spares_trans by (cases re) auto
    next
      case 3
      then have "purge_advance flt ch d now db = go db" by (simp add: purge_advance_def Let_def go_def)
      then show ?thesis using go by simp
    qed
  qed simp
qed

lemma batches_spare:
  assumes "p \<noteq> q"
  shows "spares q db (fst (delete_batches flt late p db))"
proof -
  obtain n res where 1: "batch_loop flt late p False 0 (pg_devices db p) = (n, res)" by fastforce
  let ?db1 = "db\<lparr>pg_devices := (pg_devices db)(p := n)\<rparr>"
  obtain m res2 where 2: "batch_loop flt late p True 0 (pg_profiles ?db1 p) = (m, res2)" by fastforce
  have "fst (delete_batches flt late p db) \<in> {?db1, ?db1\<lparr>pg_profiles := (pg_profiles ?db1)(p := m)\<rparr>}"
    using 1 2 by (auto simp: delete_batches_def Let_def)
  then show ?thesis using assms by (elim insertE emptyE) (simp_all add: spares_def of_project_def project_is_live_def fun_eq_iff)
qed

lemma finish_spares:
  assumes "p \<noteq> q"
  shows "spares q db (finish_deletion p now db)"
proof -
  define db1 where "db1 = (if list_ex (\<lambda>r. pr_id r = p \<and> \<not> pr_live r) (ub_projects (pg_usage db))
    then db\<lparr>pg_usage := (pg_usage db)\<lparr>ub_projects := filter (\<lambda>r. \<not> (pr_id r = p \<and> \<not> pr_live r)) (ub_projects (pg_usage db))\<rparr>,
            pg_devices := (pg_devices db)(p := 0), pg_profiles := (pg_profiles db)(p := 0)\<rparr> else db)"
  have "filter (\<lambda>r. pr_id r = q) (filter (\<lambda>r. \<not> (pr_id r = p \<and> \<not> pr_live r)) rows) = filter (\<lambda>r. pr_id r = q) rows" for rows
    using assms by (induction rows) auto
  then have "spares q db db1"
    using assms by (auto simp: db1_def spares_def of_project_def project_is_live_def fun_eq_iff list_ex_iff distinct_map_filter
        simp del: filter_filter)
  moreover have "spares q db1 (finish_deletion p now db)"
    unfolding finish_deletion_def Let_def db1_def [symmetric] using assms by simp
  ultimately show ?thesis by (rule spares_trans)
qed

lemma erase_postgres_spares:
  assumes "ez_project e \<noteq> q"
  shows "spares q db (fst (erase_postgres flt late e now db))"
proof (cases "refuse_live flt (ez_project e) db")
  case None
  obtain db1 res where b: "delete_batches flt (late (ez_project e)) (ez_project e) db = (db1, res)" by fastforce
  have 1: "spares q db db1" using batches_spare [OF assms, of db flt "late (ez_project e)"] b by simp
  note 2 = spares_trans [OF 1 store_error_spares [OF assms]] and 3 = spares_trans [OF 1 finish_spares [OF assms]]
  show ?thesis
    using None b 1 2 3 by (cases res) (simp_all add: erase_postgres_def Let_def)
qed (simp add: erase_postgres_def Let_def)

lemma advance_all_spares:
  "q \<notin> dl_project ` set ds \<Longrightarrow> spares q db (fst (advance_all flt ch now ds db))"
proof (induction ds arbitrary: db)
  case (Cons d ds)
  obtain db1 res where a: "purge_advance flt ch d now db = (db1, res)" by fastforce
  have 1: "spares q db db1" using advance_spares [of d q db flt ch now] Cons.prems a by auto
  show ?case
  proof (cases res)
    case (Inl err)
    have "spares q (store_error flt (dl_project d) err db1) (fst (advance_all flt ch now ds (store_error flt (dl_project d) err db1)))"
      using Cons by simp
    then have "spares q db (fst (advance_all flt ch now ds (store_error flt (dl_project d) err db1)))"
      using Cons.prems by (intro spares_trans [OF spares_trans [OF 1 store_error_spares]]) auto
    with a Inl show ?thesis by (simp add: case_prod_beta)
  next
    case (Inr e)
    have "spares q db1 (fst (advance_all flt ch now ds db1))" using Cons by simp
    with 1 have "spares q db (fst (advance_all flt ch now ds db1))" by (rule spares_trans)
    with a Inr show ?thesis by (simp add: case_prod_beta)
  qed
qed simp

lemma erase_clickhouse_project: "erase_clickhouse flt d now db = (db', Inr e) \<Longrightarrow> ez_project e = dl_project d"
  by (auto simp: erase_clickhouse_def Let_def split: sum.splits if_splits prod.splits option.splits)

lemma advance_project: "purge_advance flt ch d now db = (db', Inr (Some e)) \<Longrightarrow> ez_project e = dl_project d"
  by (auto simp: purge_advance_def Let_def split: sum.splits if_splits prod.splits option.splits dest!: erase_clickhouse_project)

lemma advance_all_projects: "advance_all flt ch now ds db = (db', es, errs) \<Longrightarrow> ez_project ` set es \<subseteq> dl_project ` set ds"
proof (induction ds arbitrary: db db' es errs)
  case (Cons d ds)
  obtain db1 res where a: "purge_advance flt ch d now db = (db1, res)" by fastforce
  show ?case
  proof (cases res)
    case (Inl err)
    obtain x y z where "advance_all flt ch now ds (store_error flt (dl_project d) err db1) = (x, y, z)" by (metis surj_pair)
    with Cons.IH [OF this] Cons.prems a Inl show ?thesis by auto
  next
    case (Inr e)
    obtain x y z where r: "advance_all flt ch now ds db1 = (x, y, z)" by (metis surj_pair)
    have sub: "ez_project ` set y \<subseteq> dl_project ` set ds" by (rule Cons.IH [OF r])
    have es: "es = (case e of None \<Rightarrow> y | Some w \<Rightarrow> w # y)" using Cons.prems a Inr r by simp
    show ?thesis
    proof (cases e)
      case (Some w)
      have "ez_project w = dl_project d" using advance_project [of flt ch d now db db1 w] a Inr Some by simp
      then show ?thesis using sub es Some by auto
    qed (use sub es in auto)
  qed
qed simp

lemma erase_all_spares:
  "q \<notin> ez_project ` set es \<Longrightarrow> spares q db (fst (erase_all flt late now es db))"
proof (induction es arbitrary: db)
  case (Cons e es)
  obtain db1 res where a: "erase_postgres flt late e now db = (db1, res)" by fastforce
  have 1: "spares q db db1" using erase_postgres_spares [of e q db flt late now] Cons.prems a by auto
  show ?case
  proof (cases res)
    case None
    have "spares q db1 (fst (erase_all flt late now es db1))" using Cons by simp
    with 1 have "spares q db (fst (erase_all flt late now es db1))" by (rule spares_trans)
    with a None show ?thesis by simp
  next
    case (Some err)
    have "spares q (store_error flt (ez_project e) err db1) (fst (erase_all flt late now es (store_error flt (ez_project e) err db1)))"
      using Cons by simp
    then have "spares q db (fst (erase_all flt late now es (store_error flt (ez_project e) err db1)))"
      using Cons.prems by (intro spares_trans [OF spares_trans [OF 1 store_error_spares]]) auto
    with a Some show ?thesis by (simp add: case_prod_beta)
  qed
qed simp

lemma pass_spares:
  assumes "q \<notin> dl_project ` set (pg_deletions db)"
  shows "spares q db (fst (purge_pass flt late ch now db))"
proof (cases "flt PcList")
  case False
  let ?ds = "open_deletions (now - watch_for) (pg_deletions db)"
  have ds: "q \<notin> dl_project ` set ?ds" using assms by (auto simp: open_deletions_def)
  obtain db1 es errs where a: "advance_all flt ch now ?ds db = (db1, es, errs)" by (metis surj_pair)
  have "spares q db db1" using advance_all_spares [OF ds, of db flt ch now] a by simp
  moreover have "q \<notin> ez_project ` set es" using ds advance_all_projects [OF a] by blast
  then have "spares q db1 (fst (erase_all flt late now es db1))" by (rule erase_all_spares)
  ultimately have "spares q db (fst (erase_all flt late now es db1))" by (rule spares_trans)
  then show ?thesis using False a by (simp add: purge_pass_def case_prod_beta)
qed (simp add: purge_pass_def)

section \<open>A live project\<close>

text \<open>No row asks for the project's erasure, and no delete under way names it.\<close>

definition unmarked :: "string \<Rightarrow> purge_db \<Rightarrow> bool" where
  "unmarked q db = (q \<notin> dl_project ` set (pg_deletions db) \<and> list_all (\<lambda>m. \<not> names_project q (mu_cond m)) (es_mutations (pg_store db))
     \<and> distinct (map pr_id (ub_projects (pg_usage db))))"

text \<open>What a step keeps of a project that is live after it.\<close>

definition untouched :: "string \<Rightarrow> ch_table \<Rightarrow> ch_row list \<Rightarrow> purge_db \<Rightarrow> purge_db \<Rightarrow> bool" where
  "untouched q t new db db' = (of_project q db' = of_project q db
     \<and> filter (\<lambda>r. cw_project r = q) (es_rows (pg_store db') t) = filter (\<lambda>r. cw_project r = q) (es_rows (pg_store db) t) @ filter (\<lambda>r. cw_project r = q) new)"

lemma hide_effect:
  assumes "hide_project flt pr by_who now db = Some db'"
  shows "\<not> project_is_live db' (pr_id pr)" "q \<noteq> pr_id pr \<Longrightarrow> of_project q db' = of_project q db"
    "project_is_live db' q \<Longrightarrow> project_is_live db q" "pg_store db' = pg_store db"
    "dl_project ` set (pg_deletions db') = insert (pr_id pr) (dl_project ` set (pg_deletions db))"
    "map pr_id (ub_projects (pg_usage db')) = map pr_id (ub_projects (pg_usage db))"
proof -
  have db': "db' = db\<lparr>pg_deletions := pg_deletions db @ [new_deletion (pr_id pr) (Some (pr_org pr)) by_who now],
      pg_keys := filter (\<lambda>(p, t). p \<noteq> pr_id pr) (pg_keys db), pg_shares := filter (\<lambda>p. p \<noteq> pr_id pr) (pg_shares db),
      pg_campaigns := filter (\<lambda>p. p \<noteq> pr_id pr) (pg_campaigns db),
      pg_usage := (pg_usage db)\<lparr>ub_projects := map (\<lambda>r. if pr_id r = pr_id pr then r\<lparr>pr_live := False\<rparr> else r) (ub_projects (pg_usage db))\<rparr>\<rparr>"
    using assms by (simp add: hide_project_def split: if_splits)
  show "\<not> project_is_live db' (pr_id pr)" "project_is_live db' q \<Longrightarrow> project_is_live db q"
    by (auto simp: db' project_is_live_def list_ex_iff split: if_splits)
  show "pg_store db' = pg_store db" "dl_project ` set (pg_deletions db') = insert (pr_id pr) (dl_project ` set (pg_deletions db))"
    by (auto simp: db' new_deletion_def)
  show "map pr_id (ub_projects (pg_usage db')) = map pr_id (ub_projects (pg_usage db))" by (simp add: db')
  assume q: "q \<noteq> pr_id pr"
  have keys: "filter (\<lambda>(p, t). p = q) (filter (\<lambda>(p, t). p \<noteq> pr_id pr) ks) = filter (\<lambda>(p, t). p = q) ks" for ks :: "(string \<times> string) list"
    using q by (induction ks) auto
  have ids: "filter (\<lambda>p. p = q) (filter (\<lambda>p. p \<noteq> pr_id pr) ks) = filter (\<lambda>p. p = q) ks" for ks
    using q by (induction ks) auto
  show "of_project q db' = of_project q db" using keys ids by (simp add: db' of_project_def del: filter_filter)
qed

lemma queue_orphan_effect:
  "of_project q (fst (queue_orphan p by_who now db)) = of_project q db" "pg_store (fst (queue_orphan p by_who now db)) = pg_store db"
  "pg_usage (fst (queue_orphan p by_who now db)) = pg_usage db"
  "dl_project ` set (pg_deletions (fst (queue_orphan p by_who now db))) = insert p (dl_project ` set (pg_deletions db))"
proof -
  have in_row: "p \<in> dl_project ` set (pg_deletions db)" if "find_deletion (pg_deletions db) p = Some d" for d
    using that by (force simp: find_deletion_def find_Some_iff)
  have same: "dl_project ` set (pg_deletions (update_deletion p reopen_row db)) = dl_project ` set (pg_deletions db)"
    using update_deletion_projects [of reopen_row p db] by (metis list.set_map reopen_row_project)
  show "dl_project ` set (pg_deletions (fst (queue_orphan p by_who now db))) = insert p (dl_project ` set (pg_deletions db))"
    using in_row same by (auto simp: queue_orphan_def new_deletion_def split: option.splits)
qed (simp_all add: queue_orphan_def update_deletion_def of_project_def split: option.splits)

lemma live_find:
  assumes "distinct (map pr_id (ub_projects (pg_usage db)))" "project_is_live db p"
  shows "\<exists>r. project_of (pg_usage db) p = Some r \<and> pr_live r"
proof -
  obtain r where r: "r \<in> set (ub_projects (pg_usage db))" "pr_id r = p" "pr_live r" using assms(2) by (auto simp: project_is_live_def list_ex_iff)
  have "List.find (\<lambda>x. pr_id x = p) rows = Some r" if "distinct (map pr_id rows)" "r \<in> set rows" for rows
    using that r(2) by (induction rows) force+
  with assms(1) r show ?thesis by (auto simp: project_of_def)
qed

lemma find_project_id: "project_of db p = Some pr \<Longrightarrow> pr_id pr = p"
  by (auto simp: project_of_def find_Some_iff)

definition store_part :: "purge_cmd \<Rightarrow> store_event list" where
  "store_part cmd = (case cmd of DoStore ev \<Rightarrow> [ev] | _ \<Rightarrow> [])"

lemma spares_untouched:
  assumes "spares q db db'" "unmarked q db"
  shows "unmarked q db' \<and> project_is_live db' = project_is_live db \<and> untouched q t [] db db'"
proof -
  obtain ms where "es_mutations (pg_store db') = es_mutations (pg_store db) @ ms"
    "list_all (\<lambda>m. \<exists>p. mu_cond m = OfProject p \<and> p \<noteq> q \<and> \<not> project_is_live db p) ms"
    using assms(1) by (auto simp: spares_def)
  moreover from this(2) have "list_all (\<lambda>m. \<not> names_project q (mu_cond m)) ms" by (auto simp: list_all_iff names_project_def)
  ultimately show ?thesis
    using assms spares_projects [OF assms(1)] by (simp add: spares_def unmarked_def untouched_def)
qed

lemma hide_untouched:
  assumes "hide_project flt pr by_who now db = Some db'" "unmarked q db" "project_is_live db' q"
  shows "project_is_live db q \<and> unmarked q db' \<and> untouched q t [] db db'"
proof -
  have "q \<noteq> pr_id pr" using hide_effect(1) [OF assms(1)] assms(3) by auto
  then show ?thesis
    using hide_effect(2-6) [OF assms(1)] assms(2,3) by (auto simp: unmarked_def untouched_def)
qed

lemma untouched_refl [simp]: "untouched q t [] db db"
  by (simp add: untouched_def)

lemma operator_cases:
  "fst (delete_by_operator flt p by_who now db) = db
    \<or> (\<exists>pr. hide_project flt pr by_who now db = Some (fst (delete_by_operator flt p by_who now db)))
    \<or> fst (delete_by_operator flt p by_who now db) = fst (queue_orphan p by_who now db)
       \<and> (\<nexists>r. project_of (pg_usage db) p = Some r \<and> pr_live r)"
proof (cases "project_of (pg_usage db) p")
  case None
  obtain dbx did where q: "queue_orphan p by_who now db = (dbx, did)" by fastforce
  with None show ?thesis by (simp add: delete_by_operator_def)
next
  case (Some pr)
  obtain dbx did where q: "queue_orphan p by_who now db = (dbx, did)" by fastforce
  show ?thesis
  proof (cases "pr_live pr")
    case True
    show ?thesis
    proof (cases "hide_project flt pr by_who now db")
      case None
      with True Some show ?thesis by (simp add: delete_by_operator_def)
    next
      case hid: (Some db1)
      with True Some have "fst (delete_by_operator flt p by_who now db) \<in> {db, db1}" by (simp add: delete_by_operator_def)
      with hid show ?thesis by auto
    qed
  next
    case False
    with Some q show ?thesis by (simp add: delete_by_operator_def)
  qed
qed

lemma purge_step_live:
  assumes "unmarked q db" "project_is_live (purge_step tz db cmd) q"
  shows "project_is_live db q \<and> unmarked q (purge_step tz db cmd)
    \<and> untouched q t (inserted t (store_part cmd)) db (purge_step tz db cmd)"
proof (cases cmd)
  case (DoDelete flt org p by_who now)
  then have step: "purge_step tz db cmd = fst (delete_project flt org p by_who now db)" by (simp add: purge_step_def)
  show ?thesis
  proof (cases "fst (delete_project flt org p by_who now db) = db")
    case False
    then obtain pr where "hide_project flt pr by_who now db = Some (fst (delete_project flt org p by_who now db))"
      by (auto simp: delete_project_def split: option.splits if_splits)
    from hide_untouched [OF this assms(1)] assms(2) step DoDelete show ?thesis by (simp add: store_part_def inserted_def)
  qed (use assms step DoDelete in \<open>simp add: store_part_def inserted_def\<close>)
next
  case (DoOperator flt p by_who now)
  then have step: "purge_step tz db cmd = fst (delete_by_operator flt p by_who now db)" by (simp add: purge_step_def)
  define db' where "db' = fst (delete_by_operator flt p by_who now db)"
  consider "db' = db" | pr where "hide_project flt pr by_who now db = Some db'"
    | "db' = fst (queue_orphan p by_who now db)" "\<nexists>r. project_of (pg_usage db) p = Some r \<and> pr_live r"
    using operator_cases [of flt p by_who now db] unfolding db'_def by blast
  then show ?thesis
  proof cases
    case 1
    then show ?thesis using assms step DoOperator by (simp add: store_part_def inserted_def db'_def)
  next
    case 2
    from hide_untouched [OF this assms(1)] assms(2) step DoOperator show ?thesis by (simp add: store_part_def inserted_def db'_def)
  next
    case 3
    have live: "project_is_live db q" using assms(2) step 3(1) queue_orphan_effect(3) [of p by_who now db] by (simp add: db'_def project_is_live_def)
    have "distinct (map pr_id (ub_projects (pg_usage db)))" using assms(1) by (simp add: unmarked_def)
    from live_find [OF this live] 3(2) have "q \<noteq> p" by auto
    then show ?thesis
      using live assms(1) queue_orphan_effect(1) [of q p by_who now db] queue_orphan_effect(2-4) [of p by_who now db] step 3(1) DoOperator
      by (simp add: unmarked_def untouched_def store_part_def inserted_def db'_def)
  qed
next
  case (DoPass flt late ch now)
  have "spares q db (fst (purge_pass flt late ch now db))" using assms(1) by (intro pass_spares) (simp add: unmarked_def)
  from spares_untouched [OF this assms(1)] assms(2) DoPass show ?thesis by (simp add: purge_step_def store_part_def inserted_def)
next
  case (DoStore ev)
  have none: "\<not> selects tz t rows (mu_cond m) r" if "m \<in> set (es_mutations (pg_store db))" "cw_project r = q" for m rows r t
    using assms(1) that by (auto simp: unmarked_def list_all_iff selects_def names_project_def split: delete_cond.splits)
  have rows: "filter (\<lambda>r. cw_project r = q) (es_rows (store_step tz (pg_store db) ev) t)
      = filter (\<lambda>r. cw_project r = q) (es_rows (pg_store db) t) @ filter (\<lambda>r. cw_project r = q) (inserted t [ev])"
    using store_run_spares [of "pg_store db" "\<lambda>r. cw_project r = q" tz t "[ev]"] none by simp
  have "mu_cond ` set (es_mutations (store_step tz (pg_store db) ev)) \<subseteq> mu_cond ` set (es_mutations (pg_store db))" by (rule store_step_conds)
  then have "list_all (\<lambda>m. \<not> names_project q (mu_cond m)) (es_mutations (store_step tz (pg_store db) ev))"
    using assms(1) by (fastforce simp: unmarked_def list_all_iff)
  then show ?thesis
    using assms rows DoStore
    by (simp add: purge_step_def store_part_def unmarked_def untouched_def of_project_def project_is_live_def)
qed

text \<open>No command brings a project to life.\<close>

lemma live_before:
  assumes "project_is_live (purge_step tz db cmd) q"
  shows "project_is_live db q"
proof (cases cmd)
  case (DoPass flt late ch now)
  obtain p where "p \<notin> dl_project ` set (pg_deletions db)"
    using ex_new_if_finite [OF infinite_UNIV_listI, of "dl_project ` set (pg_deletions db)"] by auto
  from pass_spares [OF this, of flt late ch now] assms DoPass show ?thesis by (simp add: purge_step_def spares_def)
next
  case (DoDelete flt org p by_who now)
  then show ?thesis
    using assms hide_effect(3) by (fastforce simp: purge_step_def delete_project_def split: option.splits if_splits)
next
  case (DoOperator flt p by_who now)
  have "project_is_live (fst (queue_orphan p by_who now db)) q = project_is_live db q"
    using queue_orphan_effect(3) [of p by_who now db] by (simp add: project_is_live_def)
  moreover have "purge_step tz db cmd = db \<or> (\<exists>pr. hide_project flt pr by_who now db = Some (purge_step tz db cmd))
      \<or> purge_step tz db cmd = fst (queue_orphan p by_who now db)"
    using operator_cases [of flt p by_who now db] unfolding DoOperator purge_step_def purge_cmd.case by blast
  ultimately show ?thesis using assms hide_effect(3) by metis
qed (use assms in \<open>simp add: purge_step_def project_is_live_def\<close>)

lemma live_before_run: "project_is_live (run_events (purge_step tz) db cmds) q \<Longrightarrow> project_is_live db q"
  by (induction cmds arbitrary: db) (auto dest: live_before)

lemma purge_run_live:
  "unmarked q db \<Longrightarrow> project_is_live (run_events (purge_step tz) db cmds) q \<Longrightarrow>
    untouched q t (inserted t (concat (map store_part cmds))) db (run_events (purge_step tz) db cmds)"
proof (induction cmds arbitrary: db)
  case (Cons cmd cmds)
  have "project_is_live (purge_step tz db cmd) q" using Cons.prems(2) live_before_run by simp
  from purge_step_live [OF Cons.prems(1) this, of t] Cons.IH [of "purge_step tz db cmd"] Cons.prems(2)
  show ?case by (simp add: untouched_def inserted_def)
qed (simp add: inserted_def)

end
