(* ===== verification/Purge_Claims.thy ===== *)
theory Purge_Claims
  imports Purge_Laws
begin

text \<open>
  The life of a deletion, one project at a time, and the properties of deleting projects.
\<close>

section \<open>One project's view\<close>

definition status_at :: "purge_db \<Rightarrow> string \<Rightarrow> string option" where
  "status_at db p = map_option dl_status (find_deletion (pg_deletions db) p)"

definition clickhouse_empty :: "string \<Rightarrow> purge_db \<Rightarrow> bool" where
  "clickhouse_empty p db = list_all (\<lambda>t. \<not> list_ex (\<lambda>r. cw_project r = p) (es_rows (pg_store db) t)
     \<and> running_deletes (es_mutations (pg_store db)) p t = []) purge_tables"

definition postgres_empty :: "string \<Rightarrow> purge_db \<Rightarrow> bool" where
  "postgres_empty p db = (pg_devices db p = 0 \<and> pg_profiles db p = 0 \<and> \<not> list_ex (\<lambda>r. pr_id r = p) (ub_projects (pg_usage db)))"

lemma running_append: "running_deletes (ms @ ns) p t = running_deletes ms p t @ running_deletes ns p t"
  by (simp add: running_deletes_def)

lemma spares_running:
  assumes "spares p db db'"
  shows "running_deletes (es_mutations (pg_store db')) p t = running_deletes (es_mutations (pg_store db)) p t"
proof -
  obtain ms where "es_mutations (pg_store db') = es_mutations (pg_store db) @ ms"
    and ms: "list_all (\<lambda>m. \<exists>x. mu_cond m = OfProject x \<and> x \<noteq> p \<and> \<not> project_is_live db x) ms"
    using assms by (auto simp: spares_def)
  moreover have "running_deletes ms p t = []"
    using ms by (induction ms) (auto simp: running_deletes_def names_project_def)
  ultimately show ?thesis by (simp add: running_append)
qed

lemma filter_ex: "filter P xs = filter P ys \<Longrightarrow> list_ex P xs = list_ex P ys"
  by (metis filter_empty_conv list_ex_iff)

lemma spares_view:
  assumes "spares p db db'"
  shows "status_at db' p = status_at db p" "find_deletion (pg_deletions db') p = find_deletion (pg_deletions db) p"
    "clickhouse_empty p db' = clickhouse_empty p db" "postgres_empty p db' = postgres_empty p db"
    "es_rows (pg_store db') = es_rows (pg_store db)" "project_is_live db' = project_is_live db"
  using assms spares_running [OF assms] filter_ex [of "\<lambda>r. pr_id r = p" "ub_projects (pg_usage db')" "ub_projects (pg_usage db)"]
  by (simp_all add: spares_def status_at_def clickhouse_empty_def postgres_empty_def of_project_def)

section \<open>Where a pass is at one project\<close>

lemma advance_all_at:
  assumes "advance_all flt ch now ds db = (db', es, errs)" "distinct (map dl_project ds)" "d \<in> set ds"
  shows "\<exists>db0 db1 res. spares (dl_project d) db db0 \<and> purge_advance flt ch d now db0 = (db1, res)
    \<and> (\<exists>dbx. (dbx = db1 \<or> (\<exists>e. dbx = store_error flt (dl_project d) e db1)) \<and> spares (dl_project d) dbx db')
    \<and> (\<forall>e\<in>set es. ez_project e = dl_project d \<longrightarrow> res = Inr (Some e)) \<and> (\<forall>e. res = Inr (Some e) \<longrightarrow> e \<in> set es)"
  using assms
proof (induction ds arbitrary: db db' es errs)
  case (Cons a ds)
  obtain dba ra where a: "purge_advance flt ch a now db = (dba, ra)" by fastforce
  define dbx where "dbx = (case ra of Inl e \<Rightarrow> store_error flt (dl_project a) e dba | Inr e \<Rightarrow> dba)"
  obtain w ys zs where rest: "advance_all flt ch now ds dbx = (w, ys, zs)" by (metis surj_pair)
  have out: "db' = w" "es = (case ra of Inr (Some e) \<Rightarrow> e # ys | _ \<Rightarrow> ys)"
    using Cons.prems(1) a rest by (auto simp: dbx_def split: sum.splits option.splits)
  show ?case
  proof (cases "d = a")
    case True
    have later: "spares (dl_project d) dbx w"
      using advance_all_spares [of "dl_project d" ds dbx flt ch now] rest True Cons.prems(2) by auto
    have "ez_project ` set ys \<subseteq> dl_project ` set ds" by (rule advance_all_projects [OF rest])
    then have "dl_project d \<notin> ez_project ` set ys" using True Cons.prems(2) by auto
    then have "\<forall>e\<in>set ys. ez_project e \<noteq> dl_project d" by (metis image_eqI)
    then have es: "\<forall>e\<in>set es. ez_project e = dl_project d \<longrightarrow> ra = Inr (Some e)" "\<forall>e. ra = Inr (Some e) \<longrightarrow> e \<in> set es"
      using out(2) by (auto split: sum.splits option.splits)
    have "dbx = dba \<or> (\<exists>e. dbx = store_error flt (dl_project d) e dba)" using True by (auto simp: dbx_def split: sum.splits)
    then have "\<exists>x. (x = dba \<or> (\<exists>e. x = store_error flt (dl_project d) e dba)) \<and> spares (dl_project d) x db'"
      using later out(1) by blast
    with a True es show ?thesis using spares_refl by blast
  next
    case False
    then have mem: "d \<in> set ds" and ne: "dl_project a \<noteq> dl_project d" using Cons.prems(2,3) by auto
    have dist: "distinct (map dl_project ds)" using Cons.prems(2) by simp
    have "spares (dl_project d) db dba" using advance_spares [OF ne, of db flt ch now] a by simp
    then have first: "spares (dl_project d) db dbx"
      using ne spares_trans store_error_spares unfolding dbx_def by (cases ra) auto
    obtain db0 db1 res where IH: "spares (dl_project d) dbx db0" "purge_advance flt ch d now db0 = (db1, res)"
      "\<exists>x. (x = db1 \<or> (\<exists>e. x = store_error flt (dl_project d) e db1)) \<and> spares (dl_project d) x w"
      "\<forall>e\<in>set ys. ez_project e = dl_project d \<longrightarrow> res = Inr (Some e)" "\<forall>e. res = Inr (Some e) \<longrightarrow> e \<in> set ys"
      using Cons.IH [OF rest dist mem] by blast
    have own: "ez_project e = dl_project a" if "ra = Inr (Some e)" for e
      using advance_project [of flt ch a now db dba e] a that by simp
    have "es = ys \<or> (\<exists>e. ra = Inr (Some e) \<and> es = e # ys)" using out(2) by (auto split: sum.splits option.splits)
    then have all: "\<forall>e\<in>set es. ez_project e = dl_project d \<longrightarrow> res = Inr (Some e)"
      using IH(4) own ne by (elim disjE exE conjE) simp_all
    have "\<forall>e. res = Inr (Some e) \<longrightarrow> e \<in> set es"
      using IH(5) \<open>es = ys \<or> _\<close> by (elim disjE exE conjE) simp_all
    with all IH(2,3) spares_trans [OF first IH(1)] out(1) show ?thesis by blast
  qed
qed simp

lemma erase_all_at:
  assumes "erase_all flt late now es db = (db', errs)" "distinct (map ez_project es)" "e \<in> set es"
  shows "\<exists>db0 db1 r. spares (ez_project e) db db0 \<and> erase_postgres flt late e now db0 = (db1, r)
    \<and> (\<exists>dbx. (dbx = db1 \<or> (\<exists>x. dbx = store_error flt (ez_project e) x db1)) \<and> spares (ez_project e) dbx db')"
  using assms
proof (induction es arbitrary: db db' errs)
  case (Cons a es)
  obtain dba ra where a: "erase_postgres flt late a now db = (dba, ra)" by fastforce
  define dbx where "dbx = (case ra of None \<Rightarrow> dba | Some x \<Rightarrow> store_error flt (ez_project a) x dba)"
  obtain w zs where rest: "erase_all flt late now es dbx = (w, zs)" by fastforce
  have out: "db' = w" using Cons.prems(1) a rest by (auto simp: dbx_def split: option.splits)
  show ?case
  proof (cases "e = a")
    case True
    have "spares (ez_project e) dbx w"
      using erase_all_spares [of "ez_project e" es dbx flt late now] rest True Cons.prems(2) by auto
    moreover have "dbx = dba \<or> (\<exists>x. dbx = store_error flt (ez_project e) x dba)" using True by (auto simp: dbx_def split: option.splits)
    ultimately have "\<exists>y. (y = dba \<or> (\<exists>x. y = store_error flt (ez_project e) x dba)) \<and> spares (ez_project e) y db'"
      using out by blast
    with a True show ?thesis using spares_refl by blast
  next
    case False
    then have mem: "e \<in> set es" and ne: "ez_project a \<noteq> ez_project e" using Cons.prems(2,3) by auto
    have dist: "distinct (map ez_project es)" using Cons.prems(2) by simp
    have "spares (ez_project e) db dba" using erase_postgres_spares [OF ne, of db flt late now] a by simp
    then have first: "spares (ez_project e) db dbx"
      using ne spares_trans store_error_spares unfolding dbx_def by (cases ra) auto
    obtain db0 db1 r where IH: "spares (ez_project e) dbx db0" "erase_postgres flt late e now db0 = (db1, r)"
      "\<exists>y. (y = db1 \<or> (\<exists>x. y = store_error flt (ez_project e) x db1)) \<and> spares (ez_project e) y w"
      using Cons.IH [OF rest dist mem] by blast
    with spares_trans [OF first IH(1)] out show ?thesis by blast
  qed
qed simp

section \<open>One deletion's steps\<close>

lemma update_status:
  "(\<And>d. dl_project (f d) = dl_project d) \<Longrightarrow> (\<And>d. dl_status (f d) = dl_status d) \<Longrightarrow> status_at (update_deletion p f db) q = status_at db q"
  by (cases "find_deletion (pg_deletions db) q") (simp_all add: status_at_def find_update_deletion)

lemma update_deletion_rest [simp]:
  "pg_store (update_deletion p f db) = pg_store db" "pg_usage (update_deletion p f db) = pg_usage db"
  "pg_devices (update_deletion p f db) = pg_devices db" "pg_profiles (update_deletion p f db) = pg_profiles db"
  by (simp_all add: update_deletion_def)

lemma store_error_view [simp]:
  "status_at (store_error flt p e db) q = status_at db q" "clickhouse_empty q (store_error flt p e db) = clickhouse_empty q db"
  "postgres_empty q (store_error flt p e db) = postgres_empty q db" "pg_store (store_error flt p e db) = pg_store db"
  "project_is_live (store_error flt p e db) = project_is_live db"
  by (simp_all add: store_error_def update_status clickhouse_empty_def postgres_empty_def project_is_live_def fun_eq_iff)

lemma foldl_store_error_view [simp]:
  "status_at (foldl (\<lambda>x e. store_error flt p e x) db es) q = status_at db q" "pg_store (foldl (\<lambda>x e. store_error flt p e x) db es) = pg_store db"
  "postgres_empty q (foldl (\<lambda>x e. store_error flt p e x) db es) = postgres_empty q db"
  "project_is_live (foldl (\<lambda>x e. store_error flt p e x) db es) = project_is_live db"
  by (induction es arbitrary: db) simp_all

lemma start_view:
  "status_at (fst (purge_start flt p db)) q = status_at db q" "es_rows (pg_store (fst (purge_start flt p db))) = es_rows (pg_store db)"
  using queue_deletes_store [of flt p _ "pg_store db"]
  by (simp_all add: purge_start_def status_at_def case_prod_beta split: option.splits sum.splits)

lemma round_view: "status_at (update_deletion p (\<lambda>x. x\<lparr>dl_rounds := dl_rounds x + 1, dl_round := r\<rparr>) db) q = status_at db q"
  by (simp add: update_status)

lemma check_states: "purge_check flt stage p es = Inr ss \<Longrightarrow> ss = map (table_state_of es p) purge_tables"
  by (simp add: purge_check_def split: if_splits)

lemma waiting_empty:
  assumes "map ts_table (filter (\<lambda>s. ts_rows s \<or> ts_deleting s) (map (table_state_of (pg_store db) p) purge_tables)) = []"
  shows "clickhouse_empty p db"
  using assms by (simp add: clickhouse_empty_def list_all_iff filter_empty_conv table_state_of_def Let_def)

lemma erase_clickhouse_view:
  assumes "erase_clickhouse flt d now db = (db', res)"
  shows "status_at db' q = status_at db q" "es_rows (pg_store db') = es_rows (pg_store db)"
    "res = Inr e \<Longrightarrow> ez_waiting e = [] \<Longrightarrow> clickhouse_empty (dl_project d) db'"
proof -
  have "status_at db' q = status_at db q \<and> es_rows (pg_store db') = es_rows (pg_store db)
    \<and> (res = Inr e \<longrightarrow> ez_waiting e = [] \<longrightarrow> clickhouse_empty (dl_project d) db')"
  proof (cases "purge_check flt StageErase (dl_project d) (pg_store db)")
    case (Inl err)
    then show ?thesis using assms by (auto simp: erase_clickhouse_def)
  next
    case (Inr ss)
    define p where "p = dl_project d"
    define db1 where "db1 = foldl (\<lambda>x e. store_error flt p e x) db (failing_deletes ss)"
    define e0 where "e0 = \<lparr>ez_project = p, ez_waiting = map ts_table (filter (\<lambda>s. ts_rows s \<or> ts_deleting s) ss),
        ez_since = (case dl_round d of None \<Rightarrow> dl_requested d | Some t \<Rightarrow> t)\<rparr>"
    obtain db2 queued err where st: "purge_start flt p db1 = (db2, queued, err)" by (metis surj_pair)
    define db3 where "db3 = update_deletion p (\<lambda>x. x\<lparr>dl_rounds := dl_rounds x + 1, dl_round := Some (truncate_us now)\<rparr>) db2"
    define db4 where "db4 = (if 0 < dl_rounds d \<or> dl_status d = status_done then store_error flt p (RowsCameBack queued) db3 else db3)"
    define idle where "idle = (\<not> leftover ss \<or> (0 < dl_rounds d \<and> time_sub now (case dl_round d of None \<Rightarrow> zero_time | Some t \<Rightarrow> t) < round_every))"
    have "erase_clickhouse flt d now db = (if idle then (db1, Inr e0) else case err of Some x \<Rightarrow> (db2, Inl x)
        | None \<Rightarrow> if queued = [] then (db2, Inr e0) else if flt (PcRound p) then (db2, Inl PurgeDb) else (db4, Inr (e0\<lparr>ez_since := now\<rparr>)))"
      using Inr st
      by (cases err) (simp_all add: erase_clickhouse_def Let_def p_def [symmetric] db1_def [symmetric] db3_def [symmetric] db4_def [symmetric]
          e0_def [symmetric] idle_def)
    note out = this [unfolded assms]
    have ss: "ss = map (table_state_of (pg_store db) p) purge_tables" using check_states [OF Inr] by (simp add: p_def)
    have quiet: "idle \<and> clickhouse_empty p db1" if "ez_waiting e0 = []"
    proof -
      have "filter (\<lambda>s. ts_rows s \<or> ts_deleting s) ss = []" using that by (simp add: e0_def)
      then have "idle" by (auto simp: idle_def leftover_def list_ex_iff filter_empty_conv)
      moreover have "clickhouse_empty p db" using that waiting_empty [of db p] by (simp add: e0_def ss)
      ultimately show ?thesis by (simp add: clickhouse_empty_def db1_def)
    qed
    have v1: "status_at db1 q = status_at db q" "es_rows (pg_store db1) = es_rows (pg_store db)" by (simp_all add: db1_def)
    have v2: "status_at db2 q = status_at db q" "es_rows (pg_store db2) = es_rows (pg_store db)"
      using start_view [of flt p db1] st v1 by simp_all
    have v4: "status_at db4 q = status_at db q" "es_rows (pg_store db4) = es_rows (pg_store db)"
      using v2 round_view [of p _ db2 q] by (simp_all add: db4_def db3_def)
    show ?thesis using out quiet v1 v2 v4 by (cases err) (auto simp: p_def split: if_splits)
  qed
  then show "status_at db' q = status_at db q" "es_rows (pg_store db') = es_rows (pg_store db)"
    "res = Inr e \<Longrightarrow> ez_waiting e = [] \<Longrightarrow> clickhouse_empty (dl_project d) db'" by blast+
qed

lemma begin_view:
  assumes "purge_begin flt ch d now db = (db', r)" "find_deletion (pg_deletions db) (dl_project d) = Some d" "dl_status d = status_pending_d"
  shows "pg_store db' = pg_store db" "r = None \<Longrightarrow> status_at db' (dl_project d) = Some status_deleting"
    "r = Some x \<Longrightarrow> db' = db"
proof -
  have "pg_store db' = pg_store db \<and> (r = None \<longrightarrow> status_at db' (dl_project d) = Some status_deleting) \<and> (r = Some x \<longrightarrow> db' = db)"
  proof (cases "last_usage flt ch d now db")
    case (Inr us)
    define bad where "bad = (flt (PcTx (dl_project d)) \<or> flt (PcStatement (dl_project d)) \<or> flt (PcCommit (dl_project d)))"
    have "purge_begin flt ch d now db = (if bad then (db, Some PurgeDb) else ((update_deletion (dl_project d) (\<lambda>x. x\<lparr>dl_status := status_deleting\<rparr>) db)
        \<lparr>pg_usage := freeze_daily_usage (pg_usage db) (case dl_org d of None \<Rightarrow> [] | Some org \<Rightarrow> org) (dl_project d) us\<rparr>, None))"
      using assms(2,3) Inr by (simp add: purge_begin_def Let_def bad_def)
    note out = this [unfolded assms(1)]
    show ?thesis using out assms(2) by (cases bad) (simp_all add: status_at_def find_update_deletion)
  qed (use assms in \<open>auto simp: purge_begin_def\<close>)
  then show "pg_store db' = pg_store db" "r = None \<Longrightarrow> status_at db' (dl_project d) = Some status_deleting" "r = Some x \<Longrightarrow> db' = db" by blast+
qed

text \<open>How far the ClickHouse step moves a deletion.\<close>

definition has_rows :: "string \<Rightarrow> purge_db \<Rightarrow> bool" where
  "has_rows p db = list_ex (\<lambda>t. list_ex (\<lambda>r. cw_project r = p) (es_rows (pg_store db) t)) purge_tables"

lemma check_rows: "purge_check flt stage p (pg_store db) = Inr ss \<Longrightarrow> list_ex ts_rows ss = has_rows p db"
proof -
  assume "purge_check flt stage p (pg_store db) = Inr ss"
  then have "ss = map (table_state_of (pg_store db) p) purge_tables" by (rule check_states)
  then show ?thesis by (simp add: has_rows_def list_ex_iff table_state_of_def Let_def)
qed

lemma go_view:
  assumes "(case erase_clickhouse flt d now x of (db2, Inl e) \<Rightarrow> (db2, Inl e) | (db2, Inr e) \<Rightarrow> (db2, Inr (Some e))) = (db', res)"
  shows "status_at db' q = status_at x q" "es_rows (pg_store db') = es_rows (pg_store x)"
    "res = Inr (Some e) \<Longrightarrow> ez_waiting e = [] \<Longrightarrow> clickhouse_empty (dl_project d) db'" "res \<noteq> Inr None"
proof -
  obtain db2 r where e: "erase_clickhouse flt d now x = (db2, r)" by fastforce
  have "db' = db2" "res = (case r of Inl y \<Rightarrow> Inl y | Inr y \<Rightarrow> Inr (Some y))" using assms e by (auto split: sum.splits)
  with erase_clickhouse_view [OF e] show "status_at db' q = status_at x q" "es_rows (pg_store db') = es_rows (pg_store x)"
    "res = Inr (Some e) \<Longrightarrow> ez_waiting e = [] \<Longrightarrow> clickhouse_empty (dl_project d) db'" "res \<noteq> Inr None"
    by (auto split: sum.splits)
qed

lemma advance_view:
  assumes "purge_advance flt ch d now db = (db', res)" "find_deletion (pg_deletions db) (dl_project d) = Some d"
  shows "es_rows (pg_store db') = es_rows (pg_store db)
    \<and> (status_at db' (dl_project d) = Some (dl_status d)
       \<or> dl_status d = status_pending_d \<and> purge_hold \<le> time_sub now (dl_requested d) \<and> status_at db' (dl_project d) = Some status_deleting
       \<or> dl_status d = status_done \<and> has_rows (dl_project d) db \<and> status_at db' (dl_project d) = Some status_deleting)
    \<and> (\<forall>e. res = Inr (Some e) \<longrightarrow> status_at db' (dl_project d) = Some status_deleting
         \<and> (ez_waiting e = [] \<longrightarrow> clickhouse_empty (dl_project d) db'))"
proof -
  let ?p = "dl_project d"
  have here: "status_at db ?p = Some (dl_status d)" using assms(2) by (simp add: status_at_def)
  define go where "go = (\<lambda>db1. case erase_clickhouse flt d now db1 of (db2, Inl e) \<Rightarrow> (db2, Inl e) | (db2, Inr e) \<Rightarrow> (db2, Inr (Some e)))"
  have view: "status_at y ?p = status_at x ?p \<and> es_rows (pg_store y) = es_rows (pg_store x)
      \<and> (\<forall>e. r = Inr (Some e) \<longrightarrow> ez_waiting e = [] \<longrightarrow> clickhouse_empty ?p y)" if "go x = (y, r)" for x y r
    using go_view [OF that [unfolded go_def]] by blast
  consider "db' = db" "\<nexists>e. res = Inr (Some e)" | "dl_status d = status_pending_d" "purge_hold \<le> time_sub now (dl_requested d)"
    | "dl_status d = status_done" "has_rows ?p db" | "dl_status d = status_deleting"
  proof -
    consider "dl_status d = status_pending_d" | "dl_status d = status_done" | "dl_status d = status_deleting"
      | "dl_status d \<noteq> status_pending_d" "dl_status d \<noteq> status_done" "dl_status d \<noteq> status_deleting" by blast
    then show thesis
    proof cases
      case 1
      then show ?thesis using that(1,2) assms(1)
        by (cases "time_sub now (dl_requested d) < purge_hold") (auto simp: purge_advance_def Let_def)
    next
      case 2
      then show ?thesis
        using that(1,3) assms(1) check_rows [of flt StageWatch ?p db]
        by (cases "purge_check flt StageWatch ?p (pg_store db)"; cases "has_rows ?p db") (auto simp: purge_advance_def Let_def)
    next
      case 4
      then show ?thesis using that(1) assms(1) by (auto simp: purge_advance_def Let_def)
    qed (rule that(4))
  qed
  then show ?thesis
  proof cases
    case 1
    with here show ?thesis by auto
  next
    case 2
    obtain x r where b: "purge_begin flt ch d now db = (x, r)" by fastforce
    have out: "(case r of Some e \<Rightarrow> (x, Inl e) | None \<Rightarrow> go x) = (db', res)"
      using assms(1) 2 b by (cases r) (simp_all add: purge_advance_def Let_def go_def)
    note bv = begin_view [OF b assms(2) 2(1)]
    show ?thesis
    proof (cases r)
      case None
      with out view [of x db' res] bv 2 show ?thesis by simp
    next
      case (Some e)
      with out bv(3) here show ?thesis by auto
    qed
  next
    case 3
    obtain x r where b: "purge_reopen flt ?p db = (x, r)" by fastforce
    have x: "pg_store x = pg_store db" "r = None \<longrightarrow> status_at x ?p = Some status_deleting" "r \<noteq> None \<longrightarrow> x = db"
      using b assms(2) 3(1) by (auto simp: purge_reopen_def status_at_def find_update_deletion reopen_row_def split: if_splits)
    have out: "db' = db \<and> (\<nexists>e. res = Inr (Some e)) \<or> (case r of Some e \<Rightarrow> (x, Inl e) | None \<Rightarrow> go x) = (db', res)"
      using assms(1) 3 b check_rows [of flt StageWatch ?p db]
      by (cases r; cases "purge_check flt StageWatch ?p (pg_store db)") (auto simp: purge_advance_def Let_def go_def)
    show ?thesis
    proof (cases r)
      case None
      with out view [of x db' res] x 3 here show ?thesis by auto
    next
      case (Some e)
      with out x here show ?thesis by auto
    qed
  next
    case 4
    then have "go db = (db', res)" using assms(1) by (simp add: purge_advance_def Let_def go_def)
    then show ?thesis using view [of db db' res] here 4 by auto
  qed
qed

section \<open>The Postgres step\<close>

lemma batch_loop_done: "batch_loop flt late p prof k n = (m, Inr True) \<Longrightarrow> m = 0"
  by (induction flt late p prof k n rule: batch_loop.induct) (subst (asm) (2) batch_loop.simps, auto split: if_splits)

lemma batches_view:
  assumes "delete_batches flt late p db = (db1, r)"
  shows "pg_store db1 = pg_store db" "pg_usage db1 = pg_usage db" "pg_deletions db1 = pg_deletions db"
    "r = Inr True \<Longrightarrow> pg_devices db1 p = 0 \<and> pg_profiles db1 p = 0"
proof -
  obtain n res where 1: "batch_loop flt late p False 0 (pg_devices db p) = (n, res)" by fastforce
  let ?db1 = "db\<lparr>pg_devices := (pg_devices db)(p := n)\<rparr>"
  obtain m res2 where 2: "batch_loop flt late p True 0 (pg_profiles ?db1 p) = (m, res2)" by fastforce
  have out: "delete_batches flt late p db = (if res \<noteq> Inr True then (?db1, res) else (?db1\<lparr>pg_profiles := (pg_profiles ?db1)(p := m)\<rparr>, res2))"
    using 1 2 by (simp add: delete_batches_def Let_def)
  have zero: "res = Inr True \<longrightarrow> n = 0" "res2 = Inr True \<longrightarrow> m = 0" using batch_loop_done 1 2 by blast+
  show "pg_store db1 = pg_store db" "pg_usage db1 = pg_usage db" "pg_deletions db1 = pg_deletions db"
    "r = Inr True \<Longrightarrow> pg_devices db1 p = 0 \<and> pg_profiles db1 p = 0"
    using out [unfolded assms] zero by (auto split: if_splits)
qed

lemma finish_view:
  assumes "\<not> project_is_live db p" "pg_devices db p = 0" "pg_profiles db p = 0"
  shows "postgres_empty p (finish_deletion p now db)" "pg_store (finish_deletion p now db) = pg_store db"
    "status_at (finish_deletion p now db) p = (if status_at db p = Some status_deleting then Some status_done else status_at db p)"
proof -
  have dead: "\<not> (pr_id r = p \<and> pr_live r)" if "r \<in> set (ub_projects (pg_usage db))" for r
    using assms(1) that by (auto simp: project_is_live_def list_ex_iff)
  define db1 where "db1 = (if list_ex (\<lambda>r. pr_id r = p \<and> \<not> pr_live r) (ub_projects (pg_usage db))
    then db\<lparr>pg_usage := (pg_usage db)\<lparr>ub_projects := filter (\<lambda>r. \<not> (pr_id r = p \<and> \<not> pr_live r)) (ub_projects (pg_usage db))\<rparr>,
            pg_devices := (pg_devices db)(p := 0), pg_profiles := (pg_profiles db)(p := 0)\<rparr> else db)"
  have out: "finish_deletion p now db = update_deletion p (\<lambda>d. if dl_status d = status_deleting
      then d\<lparr>dl_status := status_done, dl_done := Some (truncate_us now)\<rparr> else d) db1"
    by (simp add: finish_deletion_def Let_def db1_def)
  have gone: "\<not> list_ex (\<lambda>r. pr_id r = p) (ub_projects (pg_usage db1))"
    using dead by (auto simp: db1_def list_ex_iff)
  have same: "pg_devices db1 p = 0" "pg_profiles db1 p = 0" "pg_store db1 = pg_store db" "pg_deletions db1 = pg_deletions db"
    using assms by (simp_all add: db1_def)
  show "postgres_empty p (finish_deletion p now db)" "pg_store (finish_deletion p now db) = pg_store db"
    using gone same by (simp_all add: out postgres_empty_def)
  show "status_at (finish_deletion p now db) p = (if status_at db p = Some status_deleting then Some status_done else status_at db p)"
    using same by (cases "find_deletion (pg_deletions db) p") (simp_all add: out status_at_def find_update_deletion)
qed

lemma erase_postgres_view:
  assumes "erase_postgres flt late e now db = (db1, r)"
  shows "pg_store db1 = pg_store db"
    "status_at db1 (ez_project e) = status_at db (ez_project e)
     \<or> status_at db (ez_project e) = Some status_deleting \<and> status_at db1 (ez_project e) = Some status_done
       \<and> ez_waiting e = [] \<and> postgres_empty (ez_project e) db1"
proof -
  let ?p = "ez_project e"
  have "pg_store db1 = pg_store db \<and> (status_at db1 ?p = status_at db ?p
     \<or> status_at db ?p = Some status_deleting \<and> status_at db1 ?p = Some status_done \<and> ez_waiting e = [] \<and> postgres_empty ?p db1)"
  proof (cases "refuse_live flt ?p db")
    case None
    then have dead: "\<not> project_is_live db ?p" by (simp add: refuse_live_def split: if_splits)
    obtain x res where b: "delete_batches flt (late ?p) ?p db = (x, res)" by fastforce
    note bv = batches_view [OF b]
    have same: "status_at x ?p = status_at db ?p" using bv by (simp add: status_at_def)
    show ?thesis
    proof (cases "res = Inr True \<and> ez_waiting e = [] \<and> db1 \<noteq> x")
      case True
      then have "db1 = finish_deletion ?p now x"
        using assms None b by (auto simp: erase_postgres_def Let_def split: if_splits)
      moreover have "\<not> project_is_live x ?p" using dead bv by (simp add: project_is_live_def)
      ultimately show ?thesis using True finish_view [of x ?p now] bv same by (auto split: if_splits)
    next
      case False
      then have "db1 = x \<or> (\<exists>y. db1 = store_error flt ?p y x)"
        using assms None b by (cases res) (auto simp: erase_postgres_def Let_def split: if_splits)
      then show ?thesis using bv same by auto
    qed
  qed (use assms in \<open>simp add: erase_postgres_def Let_def\<close>)
  then show "pg_store db1 = pg_store db" "status_at db1 ?p = status_at db ?p
     \<or> status_at db ?p = Some status_deleting \<and> status_at db1 ?p = Some status_done \<and> ez_waiting e = [] \<and> postgres_empty ?p db1" by blast+
qed

section \<open>One deletion over a pass\<close>

lemma open_subset: "set (open_deletions w ds) \<subseteq> set ds"
  by (auto simp: open_deletions_def)

lemma open_distinct:
  assumes "distinct (map dl_project ds)"
  shows "distinct (map dl_project (open_deletions w ds))"
  using assms by (auto simp: open_deletions_def distinct_map intro: inj_on_subset)

lemma advance_all_distinct:
  assumes "advance_all flt ch now ds db = (db', es, errs)" "distinct (map dl_project ds)"
  shows "distinct (map ez_project es)"
  using assms
proof (induction ds arbitrary: db db' es errs)
  case (Cons d ds)
  obtain db1 res where a: "purge_advance flt ch d now db = (db1, res)" by fastforce
  define dbx where "dbx = (case res of Inl e \<Rightarrow> store_error flt (dl_project d) e db1 | Inr e \<Rightarrow> db1)"
  obtain w ys zs where rest: "advance_all flt ch now ds dbx = (w, ys, zs)" by (metis surj_pair)
  have es: "es = ys \<or> (\<exists>e. res = Inr (Some e) \<and> es = e # ys)"
    using Cons.prems(1) a rest by (auto simp: dbx_def split: sum.splits option.splits)
  have "ez_project ` set ys \<subseteq> dl_project ` set ds" by (rule advance_all_projects [OF rest])
  then have "dl_project d \<notin> ez_project ` set ys" using Cons.prems(2) by auto
  moreover have "ez_project e = dl_project d" if "res = Inr (Some e)" for e
    using advance_project [of flt ch d now db db1 e] a that by simp
  moreover have "distinct (map ez_project ys)" using Cons.IH [OF rest] Cons.prems(2) by simp
  ultimately show ?case using es by auto
qed simp

text \<open>The pass at one open deletion: its ClickHouse step, then, if that hands it on, its Postgres step.\<close>

lemma pass_at:
  assumes "purge_pass flt late ch now db = (db', errs)" "\<not> flt PcList" "distinct (map dl_project (pg_deletions db))"
    and "d \<in> set (open_deletions (now - watch_for) (pg_deletions db))"
  obtains db0 db1 dbx res where "spares (dl_project d) db db0" "purge_advance flt ch d now db0 = (db1, res)"
    "dbx = db1 \<or> (\<exists>e. dbx = store_error flt (dl_project d) e db1)"
    "(\<nexists>e. res = Inr (Some e)) \<and> spares (dl_project d) dbx db'
     \<or> (\<exists>e db2 db3 dby r. res = Inr (Some e) \<and> ez_project e = dl_project d \<and> spares (dl_project d) dbx db2
          \<and> erase_postgres flt late e now db2 = (db3, r)
          \<and> (dby = db3 \<or> (\<exists>x. dby = store_error flt (dl_project d) x db3)) \<and> spares (dl_project d) dby db')"
proof -
  let ?ds = "open_deletions (now - watch_for) (pg_deletions db)"
  have dist: "distinct (map dl_project ?ds)" by (rule open_distinct [OF assms(3)])
  obtain dba es e1 where a: "advance_all flt ch now ?ds db = (dba, es, e1)" by (metis surj_pair)
  obtain dbb e2 where b: "erase_all flt late now es dba = (dbb, e2)" by fastforce
  have db': "db' = dbb" using assms(1,2) a b by (simp add: purge_pass_def)
  obtain db0 db1 dbx res where adv: "spares (dl_project d) db db0" "purge_advance flt ch d now db0 = (db1, res)"
      "dbx = db1 \<or> (\<exists>e. dbx = store_error flt (dl_project d) e db1)" "spares (dl_project d) dbx dba"
      "\<forall>e\<in>set es. ez_project e = dl_project d \<longrightarrow> res = Inr (Some e)" "\<forall>e. res = Inr (Some e) \<longrightarrow> e \<in> set es"
    using advance_all_at [OF a dist assms(4)] by blast
  show thesis
  proof (cases "\<exists>e. res = Inr (Some e)")
    case True
    then obtain e where e: "res = Inr (Some e)" by blast
    have p: "ez_project e = dl_project d" using advance_project [of flt ch d now db0 db1 e] adv(2) e by simp
    have "distinct (map ez_project es)" by (rule advance_all_distinct [OF a dist])
    from erase_all_at [OF b this] adv(6) e
    obtain db2 db3 r dby where er: "spares (ez_project e) dba db2" "erase_postgres flt late e now db2 = (db3, r)"
        "dby = db3 \<or> (\<exists>x. dby = store_error flt (ez_project e) x db3)" "spares (ez_project e) dby dbb" by blast
    have "spares (dl_project d) dbx db2" using spares_trans [OF adv(4)] er(1) p by simp
    then have "\<exists>e db2 db3 dby r. res = Inr (Some e) \<and> ez_project e = dl_project d \<and> spares (dl_project d) dbx db2
          \<and> erase_postgres flt late e now db2 = (db3, r)
          \<and> (dby = db3 \<or> (\<exists>x. dby = store_error flt (dl_project d) x db3)) \<and> spares (dl_project d) dby db'"
      using er p e db' by (intro exI [of _ e] exI [of _ db2] exI [of _ db3] exI [of _ dby] exI [of _ r]) simp
    then show ?thesis using that [OF adv(1-3)] by blast
  next
    case False
    then have "dl_project d \<notin> ez_project ` set es" using adv(5) by auto
    from erase_all_spares [OF this, of dba flt late now] b db' have "spares (dl_project d) dba db'" by simp
    with adv(4) have "spares (dl_project d) dbx db'" by (rule spares_trans)
    then show ?thesis using False that [OF adv(1-3)] by blast
  qed
qed

lemma find_in: "find_deletion ds p = Some d \<Longrightarrow> d \<in> set ds \<and> dl_project d = p"
  by (auto simp: find_deletion_def find_Some_iff)

lemma pass_not_open:
  assumes "purge_pass flt late ch now db = (db', errs)" "find_deletion (pg_deletions db) p = Some d" "distinct (map dl_project (pg_deletions db))"
    and "flt PcList \<or> d \<notin> set (open_deletions (now - watch_for) (pg_deletions db))"
  shows "spares p db db'"
proof (cases "flt PcList")
  case False
  let ?ds = "open_deletions (now - watch_for) (pg_deletions db)"
  have p: "p \<notin> dl_project ` set ?ds"
  proof
    assume "p \<in> dl_project ` set ?ds"
    then obtain x where x: "x \<in> set ?ds" "dl_project x = p" by auto
    then have "x \<in> set (pg_deletions db)" using open_subset by blast
    with x find_in [OF assms(2)] assms(3) have "x = d" by (auto simp: distinct_map dest: inj_onD)
    with x False assms(4) show False by simp
  qed
  obtain dba es e1 where a: "advance_all flt ch now ?ds db = (dba, es, e1)" by (metis surj_pair)
  have "spares p db dba" using advance_all_spares [OF p, of db flt ch now] a by simp
  moreover have "p \<notin> ez_project ` set es" using advance_all_projects [OF a] p by blast
  then have "spares p dba (fst (erase_all flt late now es dba))" by (rule erase_all_spares)
  ultimately have "spares p db (fst (erase_all flt late now es dba))" by (rule spares_trans)
  then show ?thesis using assms(1) False a by (auto simp: purge_pass_def split: prod.splits)
qed (use assms(1) in \<open>simp add: purge_pass_def\<close>)

lemma rows_not_empty: "has_rows p db \<Longrightarrow> \<not> clickhouse_empty p db"
  by (auto simp: has_rows_def clickhouse_empty_def list_ex_iff list_all_iff)

text \<open>
  C18. A pass of the purge job moves a deletion only along its life: it leaves the status as it
  was, or a pending deletion an hour or more after its request starts, or a deletion under
  way (or one started by this pass) is done, and then no table of ClickHouse holds a row of
  the project or has a delete of it running, and Postgres holds no device, no profile and no
  row of it; a deletion that was done goes back to deleting only when rows of it came back.
\<close>

theorem deletion_lifecycle:
  assumes "purge_pass flt late ch now db = (db', errs)"
    and "find_deletion (pg_deletions db) p = Some d" "distinct (map dl_project (pg_deletions db))"
  shows "status_at db' p = Some (dl_status d)
    \<or> dl_status d = status_pending_d \<and> purge_hold \<le> time_sub now (dl_requested d) \<and> status_at db' p = Some status_deleting
    \<or> (dl_status d = status_deleting \<or> dl_status d = status_pending_d \<and> purge_hold \<le> time_sub now (dl_requested d))
      \<and> status_at db' p = Some status_done \<and> clickhouse_empty p db' \<and> postgres_empty p db'
    \<or> dl_status d = status_done \<and> has_rows p db \<and> status_at db' p = Some status_deleting"
proof (cases "flt PcList \<or> d \<notin> set (open_deletions (now - watch_for) (pg_deletions db))")
  case True
  from spares_view(1) [OF pass_not_open [OF assms True]] assms(2) show ?thesis by (simp add: status_at_def)
next
  case False
  have p: "dl_project d = p" using find_in [OF assms(2)] by simp
  show ?thesis
  proof (rule pass_at [OF assms(1) _ assms(3), of d, unfolded p])
    show "\<not> flt PcList" "d \<in> set (open_deletions (now - watch_for) (pg_deletions db))" using False by simp_all
  next
    fix db0 db1 dbx res
    assume run: "spares p db db0" "purge_advance flt ch d now db0 = (db1, res)"
    "dbx = db1 \<or> (\<exists>e. dbx = store_error flt p e db1)"
    "(\<nexists>e. res = Inr (Some e)) \<and> spares p dbx db'
     \<or> (\<exists>e db2 db3 dby r. res = Inr (Some e) \<and> ez_project e = p \<and> spares p dbx db2
          \<and> erase_postgres flt late e now db2 = (db3, r) \<and> (dby = db3 \<or> (\<exists>x. dby = store_error flt p x db3)) \<and> spares p dby db')"
  have f0: "find_deletion (pg_deletions db0) (dl_project d) = Some d" using spares_view(2) [OF run(1)] assms(2) p by simp
  have rows: "has_rows p db0 = has_rows p db" using spares_view(5) [OF run(1)] by (simp add: has_rows_def)
  note adv = advance_view [OF run(2) f0, unfolded p rows]
  have x: "status_at dbx p = status_at db1 p" "clickhouse_empty p dbx = clickhouse_empty p db1" using run(3) by auto
  from run(4) show ?thesis
  proof (elim disjE)
    assume "(\<nexists>e. res = Inr (Some e)) \<and> spares p dbx db'"
    with adv x spares_view(1) [of p dbx db'] show ?thesis by auto
  next
    assume "\<exists>e db2 db3 dby r. res = Inr (Some e) \<and> ez_project e = p \<and> spares p dbx db2
          \<and> erase_postgres flt late e now db2 = (db3, r) \<and> (dby = db3 \<or> (\<exists>x. dby = store_error flt p x db3)) \<and> spares p dby db'"
    then obtain e db2 db3 dby r where e: "res = Inr (Some e)" "ez_project e = p" "spares p dbx db2" "erase_postgres flt late e now db2 = (db3, r)"
      "spares p dby db'" "dby = db3 \<or> (\<exists>x. dby = store_error flt p x db3)" by (elim exE conjE)
    have y: "status_at dby p = status_at db3 p" "clickhouse_empty p dby = clickhouse_empty p db3" "postgres_empty p dby = postgres_empty p db3"
      using e(6) by auto
    note post = erase_postgres_view [OF e(4), unfolded e(2)] and v2 = spares_view [OF e(3)] and v3 = spares_view [OF e(5)]
    have ch: "clickhouse_empty p db' = clickhouse_empty p db1" using v2 v3 x y post(1) by (simp add: clickhouse_empty_def)
    have r1: "has_rows p db1 = has_rows p db" using adv rows spares_view(5) [OF run(1)] by (simp add: has_rows_def)
    have started: "dl_status d = status_deleting \<or> dl_status d = status_pending_d \<and> purge_hold \<le> time_sub now (dl_requested d)
        \<or> dl_status d = status_done \<and> has_rows p db" "status_at db1 p = Some status_deleting"
      using adv e(1) by auto
    from post(2) show ?thesis
    proof (elim disjE conjE)
      assume "status_at db3 p = status_at db2 p"
      then have "status_at db' p = Some status_deleting" using v2(1) v3(1) x(1) y(1) started(2) by simp
      with started(1) show ?thesis by auto
    next
      assume "status_at db3 p = Some status_done" "ez_waiting e = []" "postgres_empty p db3"
      then have fin: "status_at db' p = Some status_done" "postgres_empty p db'" "clickhouse_empty p db'"
        using v3(1,4) y(1,3) adv e(1) ch by simp_all
      then have "\<not> has_rows p db" using ch r1 rows_not_empty [of p db1] by auto
      with fin started(1) show ?thesis by simp
    qed
  qed
  qed
qed

section \<open>A pass gets on\<close>

abbreviation no_purge_faults :: "purge_call \<Rightarrow> bool" where
  "no_purge_faults \<equiv> \<lambda>c. False"

lemma queue_progress:
  assumes "queue_deletes no_purge_faults p ss es = (es', ts, err)"
  shows "err = None \<and> (\<exists>ms. es_mutations es' = es_mutations es @ ms)
    \<and> (\<forall>s\<in>set ss. ts_rows s \<and> \<not> ts_rebuilt s \<and> \<not> ts_deleting s \<longrightarrow> running_deletes (es_mutations es') p (ts_table s) \<noteq> [])"
  using assms
proof (induction ss arbitrary: es es' ts err)
  case (Cons s ss)
  show ?case
  proof (cases "ts_rebuilt s \<or> \<not> ts_rows s \<or> ts_deleting s")
    case True
    with Cons show ?thesis by auto
  next
    case False
    obtain x y z where r: "queue_deletes no_purge_faults p ss (queue_mutation (ts_table s) (OfProject p) es) = (x, y, z)" by (metis surj_pair)
    with Cons.prems False have out: "es' = x" "err = z" by auto
    note IH = Cons.IH [OF r]
    then obtain ms where ms: "es_mutations x = (es_mutations es @ [\<lparr>mu_table = ts_table s, mu_cond = OfProject p, mu_fail = []\<rparr>]) @ ms" by auto
    then have "running_deletes (es_mutations x) p (ts_table s) \<noteq> []" by (simp add: running_deletes_def names_project_def)
    with IH ms out show ?thesis by auto
  qed
qed simp

definition recent_round :: "deletion \<Rightarrow> time \<Rightarrow> bool" where
  "recent_round d now = (0 < dl_rounds d \<and> time_sub now (case dl_round d of None \<Rightarrow> zero_time | Some t \<Rightarrow> t) < round_every)"

text \<open>Every table that can be deleted from has its delete running, unless one was queued within the hour.\<close>

definition deletes_run :: "deletion \<Rightarrow> time \<Rightarrow> purge_db \<Rightarrow> bool" where
  "deletes_run d now db = (recent_round d now \<or> list_all (\<lambda>t. t = TProfileKeysCurrent
     \<or> \<not> list_ex (\<lambda>r. cw_project r = dl_project d) (es_rows (pg_store db) t)
     \<or> running_deletes (es_mutations (pg_store db)) (dl_project d) t \<noteq> []) purge_tables)"

lemma waiting_iff:
  "map ts_table (filter (\<lambda>s. ts_rows s \<or> ts_deleting s) (map (table_state_of (pg_store db) p) purge_tables)) = [] \<longleftrightarrow> clickhouse_empty p db"
  by (simp add: clickhouse_empty_def list_all_iff filter_empty_conv table_state_of_def Let_def)

lemma check_ok: "p \<noteq> [] \<Longrightarrow> purge_check no_purge_faults stage p es = Inr (map (table_state_of es p) purge_tables)"
  by (simp add: purge_check_def list_ex_iff)

lemma erase_clickhouse_progress:
  assumes "erase_clickhouse no_purge_faults d now db = (db', res)" "dl_project d \<noteq> []" "\<not> project_is_live db (dl_project d)"
  shows "\<exists>e. res = Inr e \<and> (ez_waiting e = [] \<longleftrightarrow> clickhouse_empty (dl_project d) db) \<and> deletes_run d now db'
    \<and> project_is_live db' = project_is_live db"
proof -
  define p where "p = dl_project d"
  define ss where "ss = map (table_state_of (pg_store db) p) purge_tables"
  define db1 where "db1 = foldl (\<lambda>x e. store_error no_purge_faults p e x) db (failing_deletes ss)"
  define e0 where "e0 = \<lparr>ez_project = p, ez_waiting = map ts_table (filter (\<lambda>s. ts_rows s \<or> ts_deleting s) ss),
      ez_since = (case dl_round d of None \<Rightarrow> dl_requested d | Some t \<Rightarrow> t)\<rparr>"
  have live1: "project_is_live db1 = project_is_live db"
    by (simp add: db1_def)
  obtain es ts err where q: "queue_deletes no_purge_faults p ss (pg_store db) = (es, ts, err)" by (metis surj_pair)
  note qp = queue_progress [OF q]
  have st: "purge_start no_purge_faults p db1 = (db1\<lparr>pg_store := es\<rparr>, ts, None)"
    using assms(2,3) q qp live1 check_ok [of p StageStart "pg_store db"]
    by (simp add: purge_start_def refuse_live_def p_def ss_def db1_def)
  have "pg_store db1 = pg_store db" by (simp add: db1_def)
  define db3 where "db3 = update_deletion p (\<lambda>x. x\<lparr>dl_rounds := dl_rounds x + 1, dl_round := Some (truncate_us now)\<rparr>) (db1\<lparr>pg_store := es\<rparr>)"
  define db4 where "db4 = (if 0 < dl_rounds d \<or> dl_status d = status_done then store_error no_purge_faults p (RowsCameBack ts) db3 else db3)"
  define idle where "idle = (\<not> leftover ss \<or> recent_round d now)"
  have "erase_clickhouse no_purge_faults d now db = (if idle then (db1, Inr e0)
      else if ts = [] then (db1\<lparr>pg_store := es\<rparr>, Inr e0) else (db4, Inr (e0\<lparr>ez_since := now\<rparr>)))"
    using check_ok [of p StageErase "pg_store db"] assms(2) st
    by (simp add: erase_clickhouse_def Let_def p_def [symmetric] ss_def [symmetric] db1_def [symmetric] db3_def [symmetric] db4_def [symmetric]
        e0_def [symmetric] recent_round_def [symmetric] idle_def)
  note out = this [unfolded assms(1)]
  have wait: "ez_waiting e0 = [] \<longleftrightarrow> clickhouse_empty p db" using waiting_iff [of db p] by (simp add: e0_def ss_def)
  have queued: "t = TProfileKeysCurrent \<or> \<not> list_ex (\<lambda>r. cw_project r = p) (es_rows (pg_store db) t) \<or> running_deletes (es_mutations es) p t \<noteq> []"
    if "t \<in> set purge_tables" for t
  proof -
    obtain ms where ms: "es_mutations es = es_mutations (pg_store db) @ ms" using qp by blast
    have "table_state_of (pg_store db) p t \<in> set ss" using that by (simp add: ss_def)
    with qp have "ts_rows (table_state_of (pg_store db) p t) \<and> \<not> ts_rebuilt (table_state_of (pg_store db) p t)
        \<and> \<not> ts_deleting (table_state_of (pg_store db) p t) \<longrightarrow> running_deletes (es_mutations es) p t \<noteq> []"
      by (force simp: table_state_of_def Let_def)
    then show ?thesis using ms by (auto simp: table_state_of_def Let_def ts_rebuilt_def running_append)
  qed
  have idle: "t = TProfileKeysCurrent \<or> \<not> list_ex (\<lambda>r. cw_project r = p) (es_rows (pg_store db) t)
      \<or> running_deletes (es_mutations (pg_store db)) p t \<noteq> []" if "t \<in> set purge_tables" "\<not> leftover ss" for t
    using that by (auto simp: leftover_def ss_def list_ex_iff table_state_of_def Let_def ts_rebuilt_def)
  have rows: "es_rows es = es_rows (pg_store db)" using queue_deletes_store [of no_purge_faults p ss "pg_store db"] q by simp
  have stores: "pg_store db4 = es" "project_is_live db4 = project_is_live db1"
    by (simp_all add: db4_def db3_def store_error_def project_is_live_def fun_eq_iff)
  have same: "pg_store db1 = pg_store db" by (simp add: db1_def)
  have run: "deletes_run d now db'"
    using out queued idle stores rows same unfolding deletes_run_def p_def [symmetric] list_all_iff
    by (cases "recent_round d now"; cases "leftover ss"; cases "ts = []") (simp_all add: idle_def)
  have "project_is_live db' = project_is_live db" using out live1 stores by (auto simp: project_is_live_def fun_eq_iff split: if_splits)
  moreover have "\<exists>e. res = Inr e \<and> ez_waiting e = ez_waiting e0" using out by (auto split: if_splits)
  ultimately show ?thesis using wait run by (auto simp: p_def)
qed

lemma batch_loop_ok: "batch_loop no_purge_faults (\<lambda>prof k. False) p prof k n = (0, Inr True)"
proof -
  have "flt = no_purge_faults \<Longrightarrow> late = (\<lambda>prof k. False) \<Longrightarrow> batch_loop flt late p prof k n = (0, Inr True)" for flt late
  proof (induction flt late p prof k n rule: batch_loop.induct)
    case (1 flt late p prof k n)
    then show ?case by (subst batch_loop.simps) simp
  qed
  then show ?thesis by simp
qed

lemma erase_postgres_progress:
  assumes "erase_postgres no_purge_faults (\<lambda>p prof k. False) e now db = (db', r)" "ez_project e \<noteq> []" "\<not> project_is_live db (ez_project e)"
    and "status_at db (ez_project e) = Some status_deleting"
  shows "status_at db' (ez_project e) = Some (if ez_waiting e = [] then status_done else status_deleting)" "pg_store db' = pg_store db"
proof -
  let ?p = "ez_project e"
  obtain x where b: "delete_batches no_purge_faults (\<lambda>prof k. False) ?p db = (x, Inr True)"
    by (simp add: delete_batches_def batch_loop_ok Let_def)
  note bv = batches_view [OF b]
  have x: "\<not> project_is_live x ?p" "status_at x ?p = Some status_deleting"
    using assms(3,4) bv by (simp_all add: project_is_live_def status_at_def)
  have "refuse_live no_purge_faults ?p db = None" using assms(2,3) by (simp add: refuse_live_def)
  then have "db' = (if ez_waiting e = [] then finish_deletion ?p now x
      else if time_sub now (ez_since e) \<ge> stuck_after then store_error no_purge_faults ?p (NotDone (ez_waiting e) False) x else x)"
    using assms(1) b by (auto simp: erase_postgres_def Let_def)
  then show "status_at db' ?p = Some (if ez_waiting e = [] then status_done else status_deleting)" "pg_store db' = pg_store db"
    using finish_view [of x ?p now] x bv by auto
qed

lemma spares_running_view: "spares p db db' \<Longrightarrow> dl_project d = p \<Longrightarrow> deletes_run d now db' = deletes_run d now db"
  using spares_running [of p db db'] spares_view(5) [of p db db'] by (simp add: deletes_run_def)

text \<open>
  The purge of a project gets on: in a pass in which no call fails or runs late, a deletion
  under way is done when ClickHouse holds nothing of the project and deletes nothing of it,
  and otherwise every table that can be deleted from and holds rows of it has a delete
  running, unless its last round of deletes is younger than an hour.
\<close>

theorem purge_progress:
  assumes "purge_pass no_purge_faults (\<lambda>p prof k. False) ch now db = (db', errs)"
    and "find_deletion (pg_deletions db) p = Some d" "distinct (map dl_project (pg_deletions db))"
    and "dl_status d = status_deleting" "p \<noteq> []" "\<not> project_is_live db p"
  shows "status_at db' p = Some (if clickhouse_empty p db then status_done else status_deleting) \<and> deletes_run d now db'"
proof -
  have d: "d \<in> set (open_deletions (now - watch_for) (pg_deletions db))" "dl_project d = p"
    using find_in [OF assms(2)] assms(4) by (auto simp: open_deletions_def)
  show ?thesis
  proof (rule pass_at [OF assms(1) _ assms(3) d(1), unfolded d(2)])
    fix db0 db1 dbx res
    assume run: "spares p db db0" "purge_advance no_purge_faults ch d now db0 = (db1, res)"
      "dbx = db1 \<or> (\<exists>e. dbx = store_error no_purge_faults p e db1)"
      "(\<nexists>e. res = Inr (Some e)) \<and> spares p dbx db'
       \<or> (\<exists>e db2 db3 dby r. res = Inr (Some e) \<and> ez_project e = p \<and> spares p dbx db2
            \<and> erase_postgres no_purge_faults (\<lambda>p prof k. False) e now db2 = (db3, r)
            \<and> (dby = db3 \<or> (\<exists>x. dby = store_error no_purge_faults p x db3)) \<and> spares p dby db')"
    note v0 = spares_view [OF run(1)]
    obtain y r where er: "erase_clickhouse no_purge_faults d now db0 = (y, r)" by fastforce
    have "\<not> project_is_live db0 (dl_project d)" using v0(6) assms(6) d(2) by simp
    from erase_clickhouse_progress [OF er _ this] assms(5) d(2)
    obtain e where e: "r = Inr e" "ez_waiting e = [] \<longleftrightarrow> clickhouse_empty p db0" "deletes_run d now y" "project_is_live y = project_is_live db0"
      by auto
    have adv: "db1 = y" "res = Inr (Some e)" using run(2) er e(1) assms(4) by (simp_all add: purge_advance_def Let_def)
    obtain db2 db3 dby z where post: "ez_project e = p" "spares p dbx db2"
      "erase_postgres no_purge_faults (\<lambda>p prof k. False) e now db2 = (db3, z)"
      "dby = db3 \<or> (\<exists>x. dby = store_error no_purge_faults p x db3)" "spares p dby db'"
    proof -
      have "\<exists>db2 db3 dby r. ez_project e = p \<and> spares p dbx db2
            \<and> erase_postgres no_purge_faults (\<lambda>p prof k. False) e now db2 = (db3, r)
            \<and> (dby = db3 \<or> (\<exists>x. dby = store_error no_purge_faults p x db3)) \<and> spares p dby db'"
        using run(4) unfolding adv(2) by simp
      then show thesis using that by (elim exE conjE) simp
    qed
    note v2 = spares_view [OF post(2)] and v3 = spares_view [OF post(5)]
    have x: "status_at dbx p = status_at db0 p" "project_is_live dbx = project_is_live db0" "pg_store dbx = pg_store y"
      using run(3) adv(1) erase_clickhouse_view(1) [OF er, of p] e(4) by auto
    have here: "status_at db2 p = Some status_deleting" using v2(1) x(1) v0(1) assms(2,4) by (simp add: status_at_def)
    have dead: "\<not> project_is_live db2 p" using v2(6) x(2) v0(6) assms(6) by simp
    note pp = erase_postgres_progress [OF post(3), unfolded post(1), OF assms(5) dead here]
    have "status_at db' p = Some (if clickhouse_empty p db then status_done else status_deleting)"
      using v3(1) post(4) pp(1) e(2) v0(3) by auto
    moreover have "deletes_run d now db' = deletes_run d now dby" by (rule spares_running_view [OF post(5) d(2)])
    moreover have "pg_store dby = pg_store db2" using post(4) pp(2) by auto
    moreover have "deletes_run d now db2 = deletes_run d now dbx" by (rule spares_running_view [OF post(2) d(2)])
    ultimately show ?thesis using e(3) x(3) by (simp add: deletes_run_def)
  qed simp
qed

text \<open>
  C19. A live project loses nothing to the deletion of others: from a state where no deletion
  row and no queued delete names it, whatever requests, operator commands, passes of the
  purge job (with any of their calls failing) and steps of ClickHouse follow, as long as it is
  live at the end it has its keys, its dashboard shares, its campaigns, its counted usage,
  its devices and its profiles as they were, and in every ClickHouse table its rows in order,
  followed by the ones that were inserted.
\<close>

theorem live_project_untouched:
  assumes "unmarked q db" "project_is_live (run_events (purge_step tz) db cmds) q"
  shows "of_project q (run_events (purge_step tz) db cmds) = of_project q db
    \<and> filter (\<lambda>r. cw_project r = q) (es_rows (pg_store (run_events (purge_step tz) db cmds)) t)
      = filter (\<lambda>r. cw_project r = q) (es_rows (pg_store db) t)
        @ filter (\<lambda>r. cw_project r = q) (inserted t (concat (map store_part cmds)))"
  using purge_run_live [OF assms, of t] by (simp add: untouched_def)

section \<open>Witnesses\<close>

definition demo_deletion :: deletion where
  "demo_deletion = \<lparr>dl_project = ''p'', dl_org = Some ''o'', dl_by = ''u'', dl_status = status_deleting, dl_requested = 0,
     dl_rounds = 1, dl_round = Some hour, dl_done = None, dl_error = None\<rparr>"

definition demo_purge :: "deletion list \<Rightarrow> ch_row list \<Rightarrow> purge_db" where
  "demo_purge ds rows = \<lparr>pg_usage = \<lparr>ub_orgs = [], ub_projects = [\<lparr>pr_id = ''q'', pr_org = ''o'', pr_live = True\<rparr>,
       \<lparr>pr_id = ''p'', pr_org = ''o'', pr_live = (ds = [])\<rparr>], ub_cells = [], ub_periods = [], ub_cron = (\<lambda>k. None)\<rparr>,
     pg_deletions = ds, pg_keys = [(''p'', ''kp''), (''q'', ''kq'')], pg_shares = [], pg_campaigns = [],
     pg_devices = (\<lambda>x. 3), pg_profiles = (\<lambda>x. 2), pg_store = \<lparr>es_rows = (\<lambda>t. [])(TEvents := rows), es_mutations = []\<rparr>\<rparr>"

abbreviation demo_ch_row :: "string \<Rightarrow> ch_row" where
  "demo_ch_row p \<equiv> \<lparr>cw_project = p, cw_key = [], cw_at = 7\<rparr>"

lemma demo_open: "open_deletions w [demo_deletion] = [demo_deletion]"
  by (simp add: open_deletions_def demo_deletion_def)

lemma demo_purge_pass:
  obtains db' errs where "purge_pass no_purge_faults (\<lambda>p prof k. False) (\<lambda>p f t. Inr []) (5 * hour) (demo_purge [demo_deletion] []) = (db', errs)"
  by fastforce

lemma demo_found: "find_deletion (pg_deletions (demo_purge [demo_deletion] [])) ''p'' = Some demo_deletion"
  by (simp add: find_deletion_def demo_purge_def demo_deletion_def)

lemma demo_clear: "clickhouse_empty ''p'' (demo_purge [demo_deletion] [])" "\<not> project_is_live (demo_purge [demo_deletion] []) ''p''"
  by (simp_all add: clickhouse_empty_def demo_purge_def running_deletes_def list_all_iff project_is_live_def)

lemma purge_progress_witness:
  "status_at (fst (purge_pass no_purge_faults (\<lambda>p prof k. False) (\<lambda>p f t. Inr []) (5 * hour) (demo_purge [demo_deletion] []))) ''p''
    = Some status_done"
proof -
  obtain db' errs where run: "purge_pass no_purge_faults (\<lambda>p prof k. False) (\<lambda>p f t. Inr []) (5 * hour) (demo_purge [demo_deletion] []) = (db', errs)"
    by (rule demo_purge_pass)
  from purge_progress [OF run demo_found] demo_clear run show ?thesis by (simp add: demo_purge_def demo_deletion_def)
qed

lemma deletion_lifecycle_witness:
  "status_at (fst (purge_pass no_purge_faults (\<lambda>p prof k. False) (\<lambda>p f t. Inr []) (5 * hour) (demo_purge [demo_deletion] []))) ''p''
    \<in> {Some status_deleting, Some status_done}"
proof -
  obtain db' errs where run: "purge_pass no_purge_faults (\<lambda>p prof k. False) (\<lambda>p f t. Inr []) (5 * hour) (demo_purge [demo_deletion] []) = (db', errs)"
    by (rule demo_purge_pass)
  from deletion_lifecycle [OF run demo_found] run show ?thesis by (auto simp: demo_purge_def demo_deletion_def)
qed

definition demo_cmds :: "purge_cmd list" where
  "demo_cmds = [DoDelete no_purge_faults ''o'' ''p'' ''u'' 0,
     DoStore (InsertRow TEvents (demo_ch_row ''q'')), DoDelete no_purge_faults ''o'' ''x'' ''u'' 1]"

lemma live_project_untouched_witness:
  "pg_keys (run_events (purge_step (\<lambda>t. 0)) (demo_purge [] [demo_ch_row ''p'', demo_ch_row ''q'']) demo_cmds) = [(''q'', ''kq'')]
   \<and> filter (\<lambda>r. cw_project r = ''q'') (es_rows (pg_store (run_events (purge_step (\<lambda>t. 0)) (demo_purge [] [demo_ch_row ''p'', demo_ch_row ''q'']) demo_cmds)) TEvents)
     = [demo_ch_row ''q'', demo_ch_row ''q'']"
proof -
  let ?db = "demo_purge [] [demo_ch_row ''p'', demo_ch_row ''q'']"
  have run: "project_is_live (run_events (purge_step (\<lambda>t. 0)) ?db demo_cmds) ''q''
      \<and> pg_keys (run_events (purge_step (\<lambda>t. 0)) ?db demo_cmds) = [(''q'', ''kq'')]"
    by (simp add: demo_cmds_def purge_step_def delete_project_def hide_project_def project_of_def demo_purge_def project_is_live_def
        find_deletion_def store_step_def insert_row_def)
  have start: "unmarked ''q'' ?db" by (simp add: unmarked_def demo_purge_def)
  from live_project_untouched [OF start, of "\<lambda>t. 0" demo_cmds TEvents] run show ?thesis
    by (simp add: inserted_def demo_cmds_def store_part_def demo_purge_def)
qed

end
