(* ===== verification/Domain_Name.thy ===== *)
theory Domain_Name
  imports Go_String
begin

text \<open>
  \<open>internal/domainname/domainname.go\<close>: the one normal form of every domain that single sign-on
  compares, and the domain of an email address.
\<close>

section \<open>Splitting\<close>

text \<open>\<open>strings.Split\<close> at a one-byte separator.\<close>

fun split_on :: "char \<Rightarrow> string \<Rightarrow> string list" where
  "split_on c [] = [[]]"
| "split_on c (a # s) =
     (if a = c then [] # split_on c s
      else (case split_on c s of [] \<Rightarrow> [[a]] | w # ws \<Rightarrow> (a # w) # ws))"

text \<open>\<open>strings.CutLast\<close>: what follows the last separator.\<close>

definition after_last :: "char \<Rightarrow> string \<Rightarrow> string option" where
  "after_last c s = (if c \<in> set s then Some (last (split_on c s)) else None)"

definition trim_suffix :: "char \<Rightarrow> string \<Rightarrow> string" where
  "trim_suffix c s = (if s \<noteq> [] \<and> last s = c then butlast s else s)"

section \<open>Domains\<close>

definition lower_byte :: "char \<Rightarrow> bool" where
  "lower_byte c = (97 \<le> (of_char c :: nat) \<and> of_char c \<le> (122 :: nat))"

definition digit_byte :: "char \<Rightarrow> bool" where
  "digit_byte c = (48 \<le> (of_char c :: nat) \<and> of_char c \<le> (57 :: nat))"

definition valid_label :: "string \<Rightarrow> bool" where
  "valid_label l =
     (l \<noteq> [] \<and> length l \<le> 63 \<and> hd l \<noteq> CHR ''-'' \<and> last l \<noteq> CHR ''-''
      \<and> list_all (\<lambda>c. lower_byte c \<or> digit_byte c \<or> c = CHR ''-'') l)"

text \<open>The runes of \<open>raw\<close> are all ASCII when it is lowercased, so no case table is asked.\<close>

definition normalize_domain :: "string \<Rightarrow> string option" where
  "normalize_domain raw =
     (if list_ex (\<lambda>r. 128 \<le> r) (runes raw) then None
      else let d = trim_suffix (CHR ''.'') (to_lower (\<lambda>r. r) (trim_space raw)); labels = split_on (CHR ''.'') d
           in if d = [] \<or> 253 < length d then None
              else if length labels < 2 then None
              else if \<not> list_all valid_label labels then None
              else if list_all digit_byte (last labels) then None
              else Some d)"

definition domain_of :: "string \<Rightarrow> string" where
  "domain_of email =
     (case after_last (CHR ''@'') email of
        None \<Rightarrow> []
      | Some rest \<Rightarrow> (case normalize_domain rest of None \<Rightarrow> [] | Some d \<Rightarrow> d))"

section \<open>Laws\<close>

lemma split_on_ne [simp]: "split_on c s \<noteq> []"
  by (induction c s rule: split_on.induct) (auto split: list.splits)

lemma split_on_sets: "w \<in> set (split_on c s) \<Longrightarrow> set w \<subseteq> set s \<and> c \<notin> set w"
proof (induction c s arbitrary: w rule: split_on.induct)
  case (2 c a s)
  then show ?case by (cases "split_on c s") (fastforce split: if_splits)+
qed simp

lemma split_on_chars: "x \<in> set s \<Longrightarrow> x = c \<or> (\<exists>w\<in>set (split_on c s). x \<in> set w)"
proof (induction c s rule: split_on.induct)
  case (2 c a s)
  then show ?case by (cases "split_on c s") auto
qed simp

lemma split_on_single: "split_on c s = [w] \<Longrightarrow> w = s"
  by (induction c s arbitrary: w rule: split_on.induct) (auto split: if_splits list.splits)

lemma split_on_last_char: "s \<noteq> [] \<Longrightarrow> last (split_on c s) \<noteq> [] \<Longrightarrow> last (last (split_on c s)) = last s"
proof (induction s)
  case (Cons a s)
  obtain w ws where w: "split_on c s = w # ws" by (meson neq_Nil_conv split_on_ne)
  show ?case
  proof (cases "s = []")
    case False
    with Cons w split_on_single [of c s] show ?thesis by (auto split: if_splits)
  qed (use Cons.prems in \<open>auto split: if_splits\<close>)
qed simp

lemma split_on_hd_char: "s \<noteq> [] \<Longrightarrow> hd (split_on c s) \<noteq> [] \<Longrightarrow> hd (hd (split_on c s)) = hd s"
  by (cases s) (auto split: list.splits)

lemma label_bytes: "valid_label l \<Longrightarrow> x \<in> set l \<Longrightarrow> lower_byte x \<or> digit_byte x \<or> x = CHR ''-''"
  by (auto simp: valid_label_def list_all_iff)

text \<open>The shape of a normalized domain.\<close>

definition domain_ok :: "string \<Rightarrow> bool" where
  "domain_ok d = (d \<noteq> [] \<and> length d \<le> 253 \<and> 2 \<le> length (split_on (CHR ''.'') d) \<and> list_all valid_label (split_on (CHR ''.'') d)
     \<and> \<not> list_all digit_byte (last (split_on (CHR ''.'') d)))"

lemma normalize_ok: "normalize_domain raw = Some d \<Longrightarrow> domain_ok d"
  by (auto simp: normalize_domain_def Let_def domain_ok_def split: if_splits)

lemma domain_bytes:
  assumes "domain_ok d" "x \<in> set d"
  shows "lower_byte x \<or> digit_byte x \<or> x = CHR ''-'' \<or> x = CHR ''.''"
  using split_on_chars [OF assms(2), of "CHR ''.''"] assms(1) label_bytes by (auto simp: domain_ok_def list_all_iff)

lemma domain_range:
  assumes "domain_ok d" "x \<in> set d"
  shows "45 \<le> (of_char x :: nat)" "(of_char x :: nat) \<le> 122" "(of_char x :: nat) < 65 \<or> 90 < (of_char x :: nat)"
  using domain_bytes [OF assms] by (auto simp: lower_byte_def digit_byte_def)

lemma domain_ascii: "domain_ok d \<Longrightarrow> ascii d"
  unfolding ascii_def list_all_iff by (meson domain_range(2) le_less_trans numeral_less_iff semiring_norm(76) semiring_norm(78) semiring_norm(81))

lemma domain_trimmed: assumes "domain_ok d" shows "trim_space d = d"
proof -
  have ne: "d \<noteq> []" using assms by (simp add: domain_ok_def)
  have "hd d \<in> set d" "last d \<in> set d" using ne by simp_all
  then show ?thesis
    using domain_range [OF assms, of "hd d"] domain_range [OF assms, of "last d"] ne by (intro trim_space_word) auto
qed

lemma domain_lower: assumes "domain_ok d" shows "to_lower uni d = d"
proof -
  have "(\<lambda>c. if 65 \<le> (of_char c :: nat) \<and> of_char c \<le> (90 :: nat) then char_of (of_char c + 32 :: nat) else c) x = x" if "x \<in> set d" for x
    using domain_range(3) [OF assms that] by auto
  then show ?thesis unfolding to_lower_ascii [OF domain_ascii [OF assms]] by (simp add: map_idI)
qed

lemma domain_no_dot: assumes "domain_ok d" shows "trim_suffix (CHR ''.'') d = d"
proof -
  have ne: "d \<noteq> []" "last (split_on (CHR ''.'') d) \<noteq> []"
    using assms by (auto simp: domain_ok_def list_all_iff valid_label_def)
  have "CHR ''.'' \<notin> set (last (split_on (CHR ''.'') d))" using split_on_sets [OF last_in_set] by simp
  then have "last (last (split_on (CHR ''.'') d)) \<noteq> CHR ''.''" using ne(2) last_in_set by metis
  then show ?thesis using split_on_last_char [OF ne] by (simp add: trim_suffix_def)
qed

lemma runes_ascii_iff: "ascii s \<Longrightarrow> \<not> list_ex (\<lambda>r. 128 \<le> r) (runes s)"
  by (auto simp: runes_ascii ascii_def list_ex_iff list_all_iff)

lemma normalize_fixed: "domain_ok d \<Longrightarrow> normalize_domain d = Some d"
  using runes_ascii_iff [OF domain_ascii, of d]
  by (simp add: normalize_domain_def Let_def domain_trimmed domain_lower domain_no_dot) (auto simp: domain_ok_def)

lemma domain_of_ok: "domain_of email \<noteq> [] \<Longrightarrow> domain_ok (domain_of email)"
  by (auto simp: domain_of_def normalize_ok split: option.splits)

lemma split_on_append: "c \<notin> set t \<Longrightarrow> last (split_on c (s @ c # t)) = t"
proof (induction s)
  case Nil
  then have "split_on c t = [t]" by (induction t) auto
  then show ?case by simp
next
  case (Cons a s)
  have "2 \<le> length (split_on c (s @ c # t))"
  proof (induction s)
    case (Cons b s)
    then show ?case by (cases "split_on c (s @ c # t)") auto
  qed (simp add: Suc_le_eq)
  with Cons show ?case by (cases "split_on c (s @ c # t)") (auto split: if_splits)
qed

section \<open>Letter case\<close>

text \<open>
  The domain of an ASCII address does not depend on its letter case, so it is a function of
  what the database compares addresses by.
\<close>

definition ascii_lower :: "char \<Rightarrow> char" where
  "ascii_lower c = (if 65 \<le> (of_char c :: nat) \<and> of_char c \<le> (90 :: nat) then char_of (of_char c + 32 :: nat) else c)"

definition ascii_space :: "char \<Rightarrow> bool" where
  "ascii_space c = (c \<in> {CHR 0x09, CHR 0x0A, CHR 0x0B, CHR 0x0C, CHR 0x0D, CHR 0x20})"

lemma to_lower_map: "ascii s \<Longrightarrow> to_lower uni s = map ascii_lower s"
  by (simp add: to_lower_ascii ascii_lower_def)

lemma ascii_simps [simp]: "ascii []" "ascii (c # s) = ((of_char c :: nat) < 128 \<and> ascii s)" "ascii (rev s) = ascii s"
  by (auto simp: ascii_def list_all_iff)

lemma ascii_dropWhile [simp]: "ascii s \<Longrightarrow> ascii (dropWhile P s)"
  by (induction s) auto

lemma of_ascii_lower: "(of_char (ascii_lower c) :: nat) = (if 65 \<le> (of_char c :: nat) \<and> of_char c \<le> (90 :: nat) then of_char c + 32 else of_char c)"
  by (auto simp: ascii_lower_def)

lemma ascii_map_lower [simp]: "ascii s \<Longrightarrow> ascii (map ascii_lower s)"
  by (induction s) (auto simp: of_ascii_lower)

lemma ascii_lower_fixed:
  assumes "(of_char x :: nat) < 65 \<or> (90 < (of_char x :: nat) \<and> of_char x < (97 :: nat))"
  shows "ascii_lower c = x \<longleftrightarrow> c = x"
proof
  assume "ascii_lower c = x"
  then have "(of_char x :: nat) = of_char (ascii_lower c)" by simp
  with assms show "c = x" using \<open>ascii_lower c = x\<close> by (auto simp: of_ascii_lower ascii_lower_def split: if_splits)
qed (use assms in \<open>auto simp: ascii_lower_def\<close>)

lemma ascii_lower_space [simp]: "ascii_space (ascii_lower c) = ascii_space c"
  by (simp add: ascii_space_def ascii_lower_fixed)

definition ascii_spaces :: string where
  "ascii_spaces = [CHR 0x09, CHR 0x0A, CHR 0x0B, CHR 0x0C, CHR 0x0D, CHR 0x20]"

lemma ws_split:
  assumes "seqs \<in> {ws_seqs, map rev ws_seqs}"
  shows "seqs = map (\<lambda>x. [x]) ascii_spaces @ drop 6 seqs" "list_all (\<lambda>w. 128 \<le> (of_char (hd w) :: nat)) (drop 6 seqs)"
  using assms by (auto simp: ws_seqs_def ascii_spaces_def)

lemma find_append_None: "List.find P ys = None \<Longrightarrow> List.find P (xs @ ys) = List.find P xs"
  by (induction xs) simp_all

lemma ws_prefix_ascii:
  assumes "(of_char c :: nat) < 128" "seqs \<in> {ws_seqs, map rev ws_seqs}"
  shows "ws_prefix seqs (c # s) = (if ascii_space c then Some [c] else None)"
proof -
  let ?P = "\<lambda>w. w \<noteq> [] \<and> starts_with (c # s) w"
  have "\<not> ?P w" if "w \<in> set (drop 6 seqs)" for w
    using ws_split(2) [OF assms(2)] that assms(1) by (cases w) (auto simp: starts_with_def list_all_iff)
  then have "List.find ?P (drop 6 seqs) = None" by (auto simp: find_None_iff)
  then have "ws_prefix seqs (c # s) = List.find ?P (map (\<lambda>x. [x]) ascii_spaces)"
    unfolding ws_prefix_def by (subst ws_split(1) [OF assms(2)]) (rule find_append_None)
  also have "\<dots> = (if ascii_space c then Some [c] else None)"
    by (simp add: ascii_spaces_def ascii_space_def starts_with_def)
  finally show ?thesis .
qed

lemma drop_ws_ascii:
  assumes "ascii s" "seqs \<in> {ws_seqs, map rev ws_seqs}" shows "drop_ws seqs s = dropWhile ascii_space s"
  using assms(1)
proof (induction s)
  case (Cons c s)
  then show ?case using ws_prefix_ascii [OF _ assms(2), of c s] by (simp add: drop_ws.simps [of seqs "c # s"])
qed simp

lemma trim_space_ascii: "ascii s \<Longrightarrow> trim_space s = rev (dropWhile ascii_space (rev (dropWhile ascii_space s)))"
  by (simp add: trim_space_def drop_ws_ascii)

lemma trim_space_lower: "ascii s \<Longrightarrow> trim_space (map ascii_lower s) = map ascii_lower (trim_space s)"
  by (simp add: trim_space_ascii dropWhile_map comp_def rev_map)

lemma split_on_map: "(\<And>a. f a = c \<longleftrightarrow> a = c) \<Longrightarrow> split_on c (map f s) = map (map f) (split_on c s)"
  by (induction s) (auto split: list.splits)

lemma after_last_lower: "after_last (CHR ''@'') (map ascii_lower s) = map_option (map ascii_lower) (after_last (CHR ''@'') s)"
proof -
  have "ascii_lower a = CHR ''@'' \<longleftrightarrow> a = CHR ''@''" for a by (rule ascii_lower_fixed) simp
  note at = this
  then have "CHR ''@'' \<in> ascii_lower ` set s \<longleftrightarrow> CHR ''@'' \<in> set s" by (metis imageE imageI)
  then show ?thesis by (auto simp: after_last_def split_on_map [OF at] last_map)
qed

lemma map_lower_idem: "map ascii_lower (map ascii_lower s) = map ascii_lower s"
  by (simp add: ascii_lower_def)

lemma ascii_trim_space [simp]: "ascii s \<Longrightarrow> ascii (trim_space s)"
  by (simp add: trim_space_ascii)

lemma normalize_lower: assumes "ascii s" shows "normalize_domain (map ascii_lower s) = normalize_domain s"
proof -
  have "to_lower (\<lambda>r. r) (trim_space (map ascii_lower s)) = to_lower (\<lambda>r. r) (trim_space s)"
    using assms map_lower_idem [of "trim_space s"] by (simp add: to_lower_map trim_space_lower)
  moreover have "\<not> list_ex (\<lambda>r. 128 \<le> r) (runes s)" "\<not> list_ex (\<lambda>r. 128 \<le> r) (runes (map ascii_lower s))"
    using assms by (intro runes_ascii_iff; simp)+
  ultimately show ?thesis unfolding normalize_domain_def by simp
qed

lemma ascii_after_last: "ascii s \<Longrightarrow> after_last c s = Some w \<Longrightarrow> ascii w"
  using split_on_sets [OF last_in_set, of c s] by (auto simp: after_last_def ascii_def list_all_iff split: if_splits)

lemma domain_of_lower: "ascii a \<Longrightarrow> domain_of (map ascii_lower a) = domain_of a"
  by (auto simp: domain_of_def after_last_lower normalize_lower ascii_after_last split: option.split)

lemma domain_of_same_case: "ascii a \<Longrightarrow> ascii b \<Longrightarrow> to_lower uni a = to_lower uni b \<Longrightarrow> domain_of a = domain_of b"
  using domain_of_lower [of a] domain_of_lower [of b] by (simp add: to_lower_map)

end
