(* ===== verification/Domains.thy ===== *)
theory Domains
  imports Domain_Name Membership "HOL-Library.List_Lexorder" "HOL-Library.Char_ord"
begin

text \<open>
  The domains an organization claims and the OIDC connections that sign them in,
  \<open>domains.go\<close> and \<open>sso_connections.go\<close> of \<open>internal/core/orgs\<close> over the tables of migrations 021
  and 022. An operation that reads before its transaction takes the tables twice: \<open>db0\<close> as the
  read found them and \<open>db\<close> as the transaction does. DNS (\<open>txt\<close>), URL parsing, the issuer's
  discovery document and the cipher of the secrets are arguments.
\<close>

section \<open>Tables\<close>

record domain_row =
  dr_id :: string
  dr_org :: string
  dr_domain :: string
  dr_token :: string
  dr_verified :: "time option"
  dr_method :: "string option"
  dr_require :: bool
  dr_seen :: "time option"
  dr_conn :: "string option"

record connection_row =
  cn_id :: string
  cn_org :: string
  cn_label :: string
  cn_issuer :: string
  cn_client :: string
  cn_secret :: string

record org_set =
  os_id :: string
  os_created :: time
  os_auto_join :: "string option"
  os_members_create :: bool

record identity_row =
  ci_customer :: string
  ci_provider :: string
  ci_subject :: string

record sso_db =
  sd_base :: org_tables
  sd_orgs :: "org_set list"
  sd_domains :: "domain_row list"
  sd_conns :: "connection_row list"
  sd_identities :: "identity_row list"

definition max_domains_per_org :: nat where "max_domains_per_org = 10"
definition max_connections_per_org :: nat where "max_connections_per_org = 10"
definition method_dns :: string where "method_dns = ''dns''"
definition method_operator :: string where "method_operator = ''operator''"

datatype sso_error =
    ErrDomainInvalid | ErrDomainNotFound | ErrDomainLimitReached | ErrDomainNotVerified | ErrOrgCreationRestricted
  | ErrDNSUnavailable | ErrDomainSSONotSeen | SSORequired string bool | DomainVerification string | ErrOrgMissing
  | ErrSSOConnectionsDisabled | ErrSSOConnectionNotFound | ErrSSOConnectionLimitReached | ErrSSOConnectionIssuerInvalid
  | ErrSSOConnectionGoogleIssuer | ErrSSOConnectionDiscovery | ErrSSOConnectionIssuerMismatch | ErrSSOConnectionPrivateIssuer
  | ErrSSOConnectionSecretRequired | ErrDomainHasSSOConnection | SSOConnectionInUse string | SsoDb

datatype sso_call =
    ScBegin | ScOrg | ScGet | ScReget | ScList | ScCount | ScDraw | ScConn | ScConnDomains | ScWrite | ScIdentities
  | ScSeen | ScRequired | ScDetach | ScAttach | ScCommit

section \<open>Lookups\<close>

definition find_org :: "sso_db \<Rightarrow> string \<Rightarrow> org_set option" where
  "find_org db org = List.find (\<lambda>r. os_id r = org) (sd_orgs db)"

definition domain_by_id :: "sso_db \<Rightarrow> string \<Rightarrow> string \<Rightarrow> domain_row option" where
  "domain_by_id db org i = List.find (\<lambda>r. dr_id r = i \<and> dr_org r = org) (sd_domains db)"

definition domain_by_name :: "sso_db \<Rightarrow> string \<Rightarrow> string \<Rightarrow> domain_row option" where
  "domain_by_name db org d = List.find (\<lambda>r. dr_org r = org \<and> dr_domain r = d) (sd_domains db)"

definition is_verified :: "domain_row \<Rightarrow> bool" where
  "is_verified r = (dr_verified r \<noteq> None)"

definition sso_required :: "sso_db \<Rightarrow> string \<Rightarrow> bool" where
  "sso_required db d = list_ex (\<lambda>r. dr_domain r = d \<and> is_verified r \<and> dr_require r) (sd_domains db)"

definition update_domains :: "(domain_row \<Rightarrow> domain_row) \<Rightarrow> sso_db \<Rightarrow> sso_db" where
  "update_domains f db = db\<lparr>sd_domains := map f (sd_domains db)\<rparr>"

definition get_domain :: "(sso_call \<Rightarrow> bool) \<Rightarrow> sso_db \<Rightarrow> string \<Rightarrow> string \<Rightarrow> (sso_error, domain_row) result" where
  "get_domain flt db org i =
     (if flt ScGet then Inl SsoDb
      else case domain_by_id db org i of None \<Rightarrow> Inl ErrDomainNotFound | Some r \<Rightarrow> Inr r)"

section \<open>DNS\<close>

definition txt_record_name :: "domain_row \<Rightarrow> string" where
  "txt_record_name r = ''_pug-verification.'' @ dr_domain r"

definition txt_record_value :: "domain_row \<Rightarrow> string" where
  "txt_record_value r = ''pug-verification='' @ dr_token r"

text \<open>The resolver answers the records, or whether the name does not exist.\<close>

type_synonym resolver = "string \<Rightarrow> (bool, string list) result"

definition check_txt :: "resolver \<Rightarrow> domain_row \<Rightarrow> sso_error option" where
  "check_txt txt r =
     (case txt (txt_record_name r @ ''.'') of
        Inl missing \<Rightarrow> Some (if missing then DomainVerification (dr_domain r) else ErrDNSUnavailable)
      | Inr records \<Rightarrow>
          if list_ex (\<lambda>t. trim_space t = txt_record_value r) records then None else Some (DomainVerification (dr_domain r)))"

fun recheck_domains :: "resolver \<Rightarrow> bool \<Rightarrow> domain_row list \<Rightarrow> sso_error option" where
  "recheck_domains txt verified [] = (if verified then None else Some ErrDomainNotVerified)"
| "recheck_domains txt verified (r # rs) =
     (if \<not> is_verified r then recheck_domains txt verified rs
      else if dr_method r = Some method_operator then recheck_domains txt True rs
      else case check_txt txt r of
        Some e \<Rightarrow> Some e
      | None \<Rightarrow> recheck_domains txt True rs)"

section \<open>Claims\<close>

text \<open>\<open>draw\<close> is the row id and the random token, \<open>None\<close> when the random reader fails.\<close>

definition add_domain :: "(sso_call \<Rightarrow> bool) \<Rightarrow> (string \<times> string) option \<Rightarrow> string \<Rightarrow> string \<Rightarrow> sso_db
    \<Rightarrow> sso_db \<times> (sso_error, domain_row) result" where
  "add_domain flt draw org raw db =
     (case normalize_domain raw of
        None \<Rightarrow> (db, Inl ErrDomainInvalid)
      | Some d \<Rightarrow>
          if flt ScBegin \<or> flt ScOrg then (db, Inl SsoDb)
          else if find_org db org = None then (db, Inl ErrOrgMissing)
          else if flt ScGet then (db, Inl SsoDb)
          else case domain_by_name db org d of
            Some r \<Rightarrow> (db, Inr r)
          | None \<Rightarrow>
              if flt ScCount then (db, Inl SsoDb)
              else if length (filter (\<lambda>r. dr_org r = org) (sd_domains db)) \<ge> max_domains_per_org
              then (db, Inl ErrDomainLimitReached)
              else case draw of
                None \<Rightarrow> (db, Inl SsoDb)
              | Some (i, token) \<Rightarrow>
                  let row = \<lparr>dr_id = i, dr_org = org, dr_domain = d, dr_token = token, dr_verified = None, dr_method = None,
                             dr_require = False, dr_seen = None, dr_conn = None\<rparr>
                  in if flt ScWrite \<or> flt ScCommit \<or> list_ex (\<lambda>r. dr_id r = i) (sd_domains db) then (db, Inl SsoDb)
                     else (db\<lparr>sd_domains := sd_domains db @ [row]\<rparr>, Inr row))"

definition mark_verified_by_dns :: "time \<Rightarrow> string \<Rightarrow> string \<Rightarrow> domain_row \<Rightarrow> domain_row" where
  "mark_verified_by_dns now org i r =
     (if dr_id r = i \<and> dr_org r = org \<and> dr_verified r = None
      then r\<lparr>dr_verified := Some now, dr_method := Some method_dns\<rparr> else r)"

definition verify_domain :: "(sso_call \<Rightarrow> bool) \<Rightarrow> resolver \<Rightarrow> time \<Rightarrow> sso_db \<Rightarrow> string \<Rightarrow> string \<Rightarrow> sso_db
    \<Rightarrow> sso_db \<times> (sso_error, domain_row) result" where
  "verify_domain flt txt now db0 org i db =
     (case get_domain flt db0 org i of
        Inl e \<Rightarrow> (db, Inl e)
      | Inr d \<Rightarrow>
          if is_verified d then (db, Inr d)
          else case check_txt txt d of
            Some e \<Rightarrow> (db, Inl e)
          | None \<Rightarrow>
              if flt ScWrite then (db, Inl SsoDb)
              else (case domain_by_id db org i of
                      Some r \<Rightarrow> if dr_verified r = None
                        then (update_domains (mark_verified_by_dns now org i) db, Inr (mark_verified_by_dns now org i r))
                        else if flt ScReget then (db, Inl SsoDb) else (db, Inr r)
                    | None \<Rightarrow> if flt ScReget then (db, Inl SsoDb) else (db, Inl ErrDomainNotFound)))"

definition clear_seen :: "string list \<Rightarrow> domain_row \<Rightarrow> domain_row" where
  "clear_seen ds r = (if dr_domain r \<in> set ds then r\<lparr>dr_seen := None\<rparr> else r)"

definition clear_sso_seen :: "(sso_call \<Rightarrow> bool) \<Rightarrow> string list \<Rightarrow> sso_db \<Rightarrow> (sso_error, sso_db) result" where
  "clear_sso_seen flt ds db =
     (if ds = [] then Inr db else if flt ScSeen then Inl SsoDb else Inr (update_domains (clear_seen ds) db))"

fun refuse_required :: "(sso_call \<Rightarrow> bool) \<Rightarrow> sso_db \<Rightarrow> string list \<Rightarrow> sso_error option" where
  "refuse_required flt db [] = None"
| "refuse_required flt db (d # ds) =
     (if flt ScRequired then Some SsoDb
      else if sso_required db d then Some (SSOConnectionInUse d) else refuse_required flt db ds)"

definition drop_domains :: "(sso_call \<Rightarrow> bool) \<Rightarrow> string list \<Rightarrow> sso_db \<Rightarrow> (sso_error, sso_db) result" where
  "drop_domains flt ds db =
     (case clear_sso_seen flt ds db of
        Inl e \<Rightarrow> Inl e
      | Inr db1 \<Rightarrow> (case refuse_required flt db1 ds of Some e \<Rightarrow> Inl e | None \<Rightarrow> Inr db1))"

definition find_connection :: "sso_db \<Rightarrow> string \<Rightarrow> connection_row option" where
  "find_connection db i = List.find (\<lambda>c. cn_id c = i) (sd_conns db)"

definition get_connection :: "(sso_call \<Rightarrow> bool) \<Rightarrow> sso_db \<Rightarrow> string \<Rightarrow> string \<Rightarrow> (sso_error, connection_row) result" where
  "get_connection flt db org i =
     (if flt ScConn then Inl SsoDb
      else case find_connection db i of
        None \<Rightarrow> Inl ErrSSOConnectionNotFound
      | Some c \<Rightarrow> if cn_org c = org then Inr c else Inl ErrSSOConnectionNotFound)"

definition delete_domain :: "string \<Rightarrow> string \<Rightarrow> sso_db \<Rightarrow> sso_db \<times> nat" where
  "delete_domain org i db =
     (let gone = (\<lambda>r. dr_id r = i \<and> dr_org r = org)
      in (db\<lparr>sd_domains := filter (\<lambda>r. \<not> gone r) (sd_domains db)\<rparr>, length (filter gone (sd_domains db))))"

definition remove_domain :: "(sso_call \<Rightarrow> bool) \<Rightarrow> sso_db \<Rightarrow> string \<Rightarrow> string \<Rightarrow> sso_db \<Rightarrow> sso_db \<times> sso_error option" where
  "remove_domain flt db0 org i db =
     (case get_domain flt db0 org i of
        Inl e \<Rightarrow> (db, Some e)
      | Inr d \<Rightarrow>
          if flt ScBegin then (db, Some SsoDb)
          else let dropped = (case dr_conn d of
                 None \<Rightarrow> Inr db
               | Some c \<Rightarrow> (case get_connection flt db org c of
                              Inl e \<Rightarrow> Inl e
                            | Inr _ \<Rightarrow> drop_domains flt [dr_domain d] db))
          in case dropped of
            Inl e \<Rightarrow> (db, Some e)
          | Inr db1 \<Rightarrow>
              if flt ScWrite then (db, Some SsoDb)
              else (case delete_domain org i db1 of
                      (db2, n) \<Rightarrow> if n = 0 then (db, Some ErrDomainNotFound)
                                  else if flt ScCommit then (db, Some SsoDb) else (db2, None)))"

record domain_settings =
  ds_auto_join :: string
  ds_members_create :: bool

definition settings_of :: "org_set \<Rightarrow> domain_settings" where
  "settings_of o' = \<lparr>ds_auto_join = (case os_auto_join o' of None \<Rightarrow> [] | Some r \<Rightarrow> r), ds_members_create = os_members_create o'\<rparr>"

definition list_domains :: "(sso_call \<Rightarrow> bool) \<Rightarrow> sso_db \<Rightarrow> string \<Rightarrow> (sso_error, domain_settings \<times> domain_row list) result" where
  "list_domains flt db org =
     (if flt ScOrg then Inl SsoDb
      else case find_org db org of
        None \<Rightarrow> Inl ErrOrgMissing
      | Some o' \<Rightarrow> if flt ScList then Inl SsoDb else Inr (settings_of o', filter (\<lambda>r. dr_org r = org) (sd_domains db)))"

definition set_domain_settings :: "(sso_call \<Rightarrow> bool) \<Rightarrow> resolver \<Rightarrow> sso_db \<Rightarrow> string \<Rightarrow> domain_settings \<Rightarrow> sso_db
    \<Rightarrow> sso_db \<times> (sso_error, domain_settings) result" where
  "set_domain_settings flt txt db0 org want db =
     (case list_domains flt db0 org of
        Inl e \<Rightarrow> (db, Inl e)
      | Inr (cur, ds) \<Rightarrow>
          let grants_more = (ds_auto_join want = role_string RoleMember \<and> ds_auto_join cur \<noteq> role_string RoleMember)
                \<or> (ds_auto_join want = role_string RoleViewer \<and> ds_auto_join cur = []);
              limits_more = \<not> ds_members_create want \<and> ds_members_create cur
          in case (if grants_more \<or> limits_more then recheck_domains txt False ds else None) of
               Some e \<Rightarrow> (db, Inl e)
             | None \<Rightarrow>
                 let role_col = (if ds_auto_join want = [] then None else Some (ds_auto_join want))
                 in if flt ScWrite then (db, Inl SsoDb)
                    else case find_org db org of
                      None \<Rightarrow> (db, Inl ErrOrgMissing)
                    | Some o' \<Rightarrow>
                        if role_col = Some (role_string RoleAdmin) then (db, Inl SsoDb)
                        else let o2 = o'\<lparr>os_auto_join := role_col, os_members_create := ds_members_create want\<rparr>
                        in (db\<lparr>sd_orgs := map (\<lambda>x. if os_id x = org then o2 else x) (sd_orgs db)\<rparr>, Inr (settings_of o2)))"

text \<open>The guarded update: turning it on needs a verified claim that an SSO sign-in has proven.\<close>

definition may_require :: "bool \<Rightarrow> domain_row \<Rightarrow> bool" where
  "may_require on_now r = (\<not> on_now \<or> (is_verified r \<and> dr_seen r \<noteq> None))"

definition update_domain :: "(sso_call \<Rightarrow> bool) \<Rightarrow> resolver \<Rightarrow> sso_db \<Rightarrow> string \<Rightarrow> string \<Rightarrow> bool \<Rightarrow> sso_db
    \<Rightarrow> sso_db \<times> (sso_error, domain_row) result" where
  "update_domain flt txt db0 org i on_now db =
     (case get_domain flt db0 org i of
        Inl e \<Rightarrow> (db, Inl e)
      | Inr d \<Rightarrow>
          case (if on_now \<and> \<not> dr_require d
                then if \<not> is_verified d then Some ErrDomainNotVerified
                     else if dr_seen d = None then Some ErrDomainSSONotSeen
                     else if dr_method d \<noteq> Some method_operator then check_txt txt d else None
                else None) of
            Some e \<Rightarrow> (db, Inl e)
          | None \<Rightarrow>
              if flt ScWrite then (db, Inl SsoDb)
              else (case domain_by_id db org i of
                      None \<Rightarrow> (db, Inl (if flt ScReget then SsoDb else ErrDomainNotFound))
                    | Some r \<Rightarrow>
                        if may_require on_now r
                        then (update_domains (\<lambda>x. if dr_id x = i \<and> dr_org x = org then x\<lparr>dr_require := on_now\<rparr> else x) db,
                              Inr (r\<lparr>dr_require := on_now\<rparr>))
                        else (db, Inl (if flt ScReget then SsoDb else ErrDomainSSONotSeen))))"

section \<open>The operator's commands\<close>

definition verify_by_operator :: "(sso_call \<Rightarrow> bool) \<Rightarrow> time \<Rightarrow> (string \<times> string) option \<Rightarrow> string \<Rightarrow> string \<Rightarrow> sso_db
    \<Rightarrow> sso_db \<times> (sso_error, domain_row) result" where
  "verify_by_operator flt now draw org raw db =
     (case normalize_domain raw of
        None \<Rightarrow> (db, Inl ErrDomainInvalid)
      | Some d \<Rightarrow>
          if flt ScOrg then (db, Inl SsoDb)
          else if find_org db org = None then (db, Inl ErrOrgMissing)
          else case draw of
            None \<Rightarrow> (db, Inl SsoDb)
          | Some (i, token) \<Rightarrow>
              if flt ScWrite then (db, Inl SsoDb)
              else (case domain_by_name db org d of
                      Some r \<Rightarrow>
                        let f = (\<lambda>x. if dr_org x = org \<and> dr_domain x = d
                                   then x\<lparr>dr_verified := Some (case dr_verified x of None \<Rightarrow> now | Some t \<Rightarrow> t),
                                          dr_method := Some method_operator\<rparr> else x)
                        in (update_domains f db, Inr (f r))
                    | None \<Rightarrow>
                        if list_ex (\<lambda>r. dr_id r = i) (sd_domains db) then (db, Inl SsoDb)
                        else let row = \<lparr>dr_id = i, dr_org = org, dr_domain = d, dr_token = token, dr_verified = Some now,
                                        dr_method = Some method_operator, dr_require = False, dr_seen = None, dr_conn = None\<rparr>
                             in (db\<lparr>sd_domains := sd_domains db @ [row]\<rparr>, Inr row)))"

definition release_domain :: "(sso_call \<Rightarrow> bool) \<Rightarrow> string \<Rightarrow> string \<Rightarrow> sso_db \<Rightarrow> sso_db \<times> sso_error option" where
  "release_domain flt org raw db =
     (case normalize_domain raw of
        None \<Rightarrow> (db, Some ErrDomainInvalid)
      | Some d \<Rightarrow>
          if flt ScOrg then (db, Some SsoDb)
          else if find_org db org = None then (db, Some ErrOrgMissing)
          else if flt ScBegin \<or> flt ScWrite then (db, Some SsoDb)
          else case domain_by_name db org d of
            None \<Rightarrow> (db, Some ErrDomainNotFound)
          | Some r \<Rightarrow>
              let db1 = db\<lparr>sd_domains := filter (\<lambda>x. \<not> (dr_org x = org \<and> dr_domain x = d)) (sd_domains db)\<rparr>
              in case (if dr_conn r \<noteq> None then clear_sso_seen flt [d] db1 else Inr db1) of
                   Inl e \<Rightarrow> (db, Some e)
                 | Inr db2 \<Rightarrow> if flt ScCommit then (db, Some SsoDb) else (db2, None))"

definition domain_claims :: "(sso_call \<Rightarrow> bool) \<Rightarrow> sso_db \<Rightarrow> string \<Rightarrow> (sso_error, domain_row list) result" where
  "domain_claims flt db raw =
     (case normalize_domain raw of
        None \<Rightarrow> Inl ErrDomainInvalid
      | Some d \<Rightarrow> if flt ScList then Inl SsoDb else Inr (filter (\<lambda>r. dr_domain r = d) (sd_domains db)))"

definition unenforce_domain :: "(sso_call \<Rightarrow> bool) \<Rightarrow> string \<Rightarrow> sso_db \<Rightarrow> sso_db \<times> (sso_error, nat) result" where
  "unenforce_domain flt raw db =
     (case normalize_domain raw of
        None \<Rightarrow> (db, Inl ErrDomainInvalid)
      | Some d \<Rightarrow>
          if flt ScWrite then (db, Inl SsoDb)
          else let n = length (filter (\<lambda>r. dr_domain r = d \<and> dr_require r) (sd_domains db))
          in if n = 0 then (case domain_claims flt db d of
                              Inl e \<Rightarrow> (db, Inl e)
                            | Inr [] \<Rightarrow> (db, Inl ErrDomainNotFound)
                            | Inr (_ # _) \<Rightarrow> (db, Inr 0))
             else (update_domains (\<lambda>r. if dr_domain r = d \<and> dr_require r then r\<lparr>dr_require := False\<rparr> else r) db, Inr n))"

end
