(* ===== verification/Sso_Connections.thy ===== *)
theory Sso_Connections
  imports Domains
begin

text \<open>
  An organization's OIDC connections, \<open>internal/core/orgs/sso_connections.go\<close>: saving one with
  the domains it signs in, deleting it, and what a sign-in reads of it. A connection's
  identities are the rows of \<open>customer_identities\<close> under its provider name.
\<close>

section \<open>Issuers\<close>

text \<open>What \<open>net/url\<close> parses an issuer into.\<close>

record parsed_url =
  pu_scheme :: string
  pu_host :: string
  pu_hostname :: string
  pu_user :: bool
  pu_query :: string
  pu_fragment :: string

definition validate_issuer :: "(string \<Rightarrow> parsed_url option) \<Rightarrow> string \<Rightarrow> string option" where
  "validate_issuer parse raw0 =
     (let raw = trim_space raw0 in
      case parse raw of
        None \<Rightarrow> None
      | Some u \<Rightarrow>
          if pu_host u = [] \<or> pu_user u \<or> pu_query u \<noteq> [] \<or> pu_fragment u \<noteq> [] then None
          else if pu_scheme u \<noteq> ''https''
            \<and> (pu_scheme u \<noteq> ''http'' \<or> pu_hostname u \<notin> {''localhost'', ''127.0.0.1'', ''::1''}) then None
          else Some raw)"

definition google_issuer :: string where "google_issuer = ''https://accounts.google.com''"

definition is_google_issuer :: "string \<Rightarrow> bool" where
  "is_google_issuer u = (trim_suffix (CHR ''/'') u = google_issuer)"

definition connection_prefix :: string where "connection_prefix = ''conn:''"

definition connection_provider :: "string \<Rightarrow> string" where
  "connection_provider i = connection_prefix @ i"

datatype discovery = Discovered | IssuerMismatch | ProhibitedAddress | DiscoveryFailed

text \<open>The cipher: \<open>None\<close> when it fails or the key cannot read the text.\<close>

record secret_cipher =
  sc_encrypt :: "string \<Rightarrow> string option"
  sc_decrypt :: "string \<Rightarrow> string option"

record sso_service =
  ss_cipher :: "secret_cipher option"
  ss_parse :: "string \<Rightarrow> parsed_url option"
  ss_discover :: "string \<Rightarrow> discovery"
  ss_txt :: resolver

record connection_input =
  ck_id :: string
  ck_label :: string
  ck_issuer :: string
  ck_client :: string
  ck_secret :: string
  ck_domains :: "string list"

section \<open>Statements\<close>

definition connection_domains :: "sso_db \<Rightarrow> string \<Rightarrow> string list" where
  "connection_domains db c = sort (map dr_domain (filter (\<lambda>r. dr_conn r = Some c \<and> is_verified r) (sd_domains db)))"

definition detach_domains :: "string \<Rightarrow> string \<Rightarrow> string list \<Rightarrow> sso_db \<Rightarrow> sso_db \<times> string list" where
  "detach_domains org c keep db =
     (let hit = (\<lambda>r. dr_org r = org \<and> dr_conn r = Some c \<and> dr_id r \<notin> set keep)
      in (update_domains (\<lambda>r. if hit r then r\<lparr>dr_conn := None\<rparr> else r) db, map dr_domain (filter hit (sd_domains db))))"

text \<open>\<open>None\<close> when a domain would have a second connection, which the unique index refuses.\<close>

definition one_connection :: "domain_row list \<Rightarrow> bool" where
  "one_connection rows = distinct (map dr_domain (filter (\<lambda>r. dr_conn r \<noteq> None) rows))"

definition attach_domains :: "string \<Rightarrow> string \<Rightarrow> string list \<Rightarrow> sso_db \<Rightarrow> (sso_db \<times> nat) option" where
  "attach_domains org c ids db =
     (let hit = (\<lambda>r. dr_org r = org \<and> dr_id r \<in> set ids \<and> is_verified r \<and> (dr_conn r = None \<or> dr_conn r = Some c));
          db1 = update_domains (\<lambda>r. if hit r then r\<lparr>dr_conn := Some c\<rparr> else r) db
      in if one_connection (sd_domains db1) then Some (db1, length (filter hit (sd_domains db))) else None)"

definition delete_identities :: "string \<Rightarrow> sso_db \<Rightarrow> sso_db" where
  "delete_identities c db = db\<lparr>sd_identities := filter (\<lambda>x. ci_provider x \<noteq> connection_provider c) (sd_identities db)\<rparr>"

text \<open>Deleting the row sets the foreign key of its domains to null.\<close>

definition delete_connection_row :: "string \<Rightarrow> string \<Rightarrow> sso_db \<Rightarrow> sso_db" where
  "delete_connection_row org c db =
     update_domains (\<lambda>r. if dr_org r = org \<and> dr_conn r = Some c then r\<lparr>dr_conn := None\<rparr> else r)
       (db\<lparr>sd_conns := filter (\<lambda>x. \<not> (cn_id x = c \<and> cn_org x = org)) (sd_conns db)\<rparr>)"

section \<open>Saving\<close>

text \<open>The checks of the claims the connection is to sign in: their domains, or the first refusal.\<close>

fun check_claims :: "resolver \<Rightarrow> bool \<Rightarrow> string list \<Rightarrow> domain_row list \<Rightarrow> (sso_error, string list) result" where
  "check_claims txt same_issuer cur_domains [] = Inr []"
| "check_claims txt same_issuer cur_domains (r # rs) =
     (if \<not> is_verified r then Inl ErrDomainNotVerified
      else case (if (\<not> same_issuer \<or> dr_domain r \<notin> set cur_domains) \<and> dr_method r \<noteq> Some method_operator
                 then check_txt txt r else None) of
        Some e \<Rightarrow> Inl e
      | None \<Rightarrow> (case check_claims txt same_issuer cur_domains rs of Inl e \<Rightarrow> Inl e | Inr ds \<Rightarrow> Inr (dr_domain r # ds)))"

definition no_connection :: connection_row where
  "no_connection = \<lparr>cn_id = [], cn_org = [], cn_label = [], cn_issuer = [], cn_client = [], cn_secret = []\<rparr>"

definition needs_secret :: "connection_row \<Rightarrow> string \<Rightarrow> connection_input \<Rightarrow> bool" where
  "needs_secret cur issuer inp = ((cn_issuer cur \<noteq> issuer \<or> cn_client cur \<noteq> ck_client inp) \<and> ck_secret inp = [])"

text \<open>Up to the transaction: the issuer, the wanted claims' ids in order, and their domains.\<close>

definition check_connection :: "(sso_call \<Rightarrow> bool) \<Rightarrow> sso_service \<Rightarrow> string \<Rightarrow> connection_input \<Rightarrow> sso_db
    \<Rightarrow> (sso_error, string \<times> string list \<times> string list) result" where
  "check_connection flt svc org inp db0 =
     (case validate_issuer (ss_parse svc) (ck_issuer inp) of
        None \<Rightarrow> Inl ErrSSOConnectionIssuerInvalid
      | Some issuer \<Rightarrow>
          if is_google_issuer issuer then Inl ErrSSOConnectionGoogleIssuer
          else let ids = remdups_adj (sort (ck_domains inp)) in
          case (if ck_id inp = [] then Inr (no_connection, [])
                else case get_connection flt db0 org (ck_id inp) of
                  Inl e \<Rightarrow> Inl e
                | Inr c \<Rightarrow> if flt ScConnDomains then Inl SsoDb else Inr (c, connection_domains db0 (ck_id inp))) of
            Inl e \<Rightarrow> Inl e
          | Inr (cur, cur_domains) \<Rightarrow>
              if needs_secret cur issuer inp then Inl ErrSSOConnectionSecretRequired
              else if flt ScList then Inl SsoDb
              else let rows = filter (\<lambda>r. dr_org r = org \<and> dr_id r \<in> set ids) (sd_domains db0)
              in if length rows \<noteq> length ids then Inl ErrDomainNotFound
                 else case check_claims (ss_txt svc) (cn_issuer cur = issuer) cur_domains rows of
                   Inl e \<Rightarrow> Inl e
                 | Inr ds \<Rightarrow>
                     (case ss_discover svc issuer of
                        IssuerMismatch \<Rightarrow> Inl ErrSSOConnectionIssuerMismatch
                      | ProhibitedAddress \<Rightarrow> Inl ErrSSOConnectionPrivateIssuer
                      | DiscoveryFailed \<Rightarrow> Inl ErrSSOConnectionDiscovery
                      | Discovered \<Rightarrow> Inr (issuer, ids, ds)))"

text \<open>The row as the transaction locks it, or the room for a new one.\<close>

definition lock_connection :: "(sso_call \<Rightarrow> bool) \<Rightarrow> string \<Rightarrow> string \<Rightarrow> connection_input \<Rightarrow> sso_db \<Rightarrow> (sso_error, connection_row) result" where
  "lock_connection flt org issuer inp db =
     (if ck_id inp \<noteq> [] then
        (case get_connection flt db org (ck_id inp) of
           Inl e \<Rightarrow> Inl e
         | Inr c \<Rightarrow> if needs_secret c issuer inp then Inl ErrSSOConnectionSecretRequired else Inr c)
      else if flt ScOrg then Inl SsoDb
      else if find_org db org = None then Inl ErrOrgMissing
      else if flt ScCount then Inl SsoDb
      else if length (filter (\<lambda>c. cn_org c = org) (sd_conns db)) \<ge> max_connections_per_org then Inl ErrSSOConnectionLimitReached
      else Inr no_connection)"

definition seal_secret :: "secret_cipher \<Rightarrow> connection_row \<Rightarrow> connection_input \<Rightarrow> (sso_error, string) result" where
  "seal_secret cipher cur inp =
     (if ck_secret inp \<noteq> []
      then (case sc_encrypt cipher (ck_secret inp) of None \<Rightarrow> Inl SsoDb | Some t \<Rightarrow> Inr t)
      else (case sc_decrypt cipher (cn_secret cur) of None \<Rightarrow> Inl ErrSSOConnectionSecretRequired | Some _ \<Rightarrow> Inr (cn_secret cur)))"

definition save_row :: "connection_row \<Rightarrow> sso_db \<Rightarrow> sso_db" where
  "save_row c db = db\<lparr>sd_conns := (if find_connection db (cn_id c) = None then sd_conns db @ [c]
                                  else map (\<lambda>x. if cn_id x = cn_id c then c else x) (sd_conns db))\<rparr>"

text \<open>A new issuer drops the linked identities and the proof of the domains.\<close>

definition reset_issuer :: "(sso_call \<Rightarrow> bool) \<Rightarrow> bool \<Rightarrow> string \<Rightarrow> string list \<Rightarrow> sso_db \<Rightarrow> (sso_error, sso_db) result" where
  "reset_issuer flt changed c ds db =
     (if \<not> changed then Inr db
      else if flt ScIdentities then Inl SsoDb
      else clear_sso_seen flt ds (delete_identities c db))"

definition set_connection :: "(sso_call \<Rightarrow> bool) \<Rightarrow> sso_service \<Rightarrow> string \<Rightarrow> sso_db \<Rightarrow> string \<Rightarrow> connection_input \<Rightarrow> sso_db
    \<Rightarrow> sso_db \<times> (sso_error, connection_row) result" where
  "set_connection flt svc new_id db0 org inp db =
     (case ss_cipher svc of
        None \<Rightarrow> (db, Inl ErrSSOConnectionsDisabled)
      | Some cipher \<Rightarrow>
      case check_connection flt svc org inp db0 of
        Inl e \<Rightarrow> (db, Inl e)
      | Inr (issuer, ids, ds) \<Rightarrow>
      if flt ScBegin then (db, Inl SsoDb)
      else case lock_connection flt org issuer inp db of
        Inl e \<Rightarrow> (db, Inl e)
      | Inr cur \<Rightarrow>
      case seal_secret cipher cur inp of
        Inl e \<Rightarrow> (db, Inl e)
      | Inr text \<Rightarrow>
      let row = \<lparr>cn_id = (if ck_id inp = [] then new_id else ck_id inp), cn_org = org, cn_label = ck_label inp, cn_issuer = issuer,
                 cn_client = ck_client inp, cn_secret = text\<rparr>
      in if flt ScWrite \<or> (ck_id inp = [] \<and> find_connection db new_id \<noteq> None) then (db, Inl SsoDb)
      else case reset_issuer flt (ck_id inp \<noteq> [] \<and> cn_issuer cur \<noteq> issuer) (cn_id row) ds (save_row row db) of
        Inl e \<Rightarrow> (db, Inl e)
      | Inr db1 \<Rightarrow>
      if flt ScDetach then (db, Inl SsoDb)
      else case detach_domains org (cn_id row) ids db1 of (db2, detached) \<Rightarrow>
      (case drop_domains flt detached db2 of
        Inl e \<Rightarrow> (db, Inl e)
      | Inr db3 \<Rightarrow>
      if flt ScAttach then (db, Inl SsoDb)
      else (case attach_domains org (cn_id row) ids db3 of
        None \<Rightarrow> (db, Inl ErrDomainHasSSOConnection)
      | Some (db4, n) \<Rightarrow>
      if n \<noteq> length ids then (db, Inl ErrDomainHasSSOConnection)
      else if flt ScCommit then (db, Inl SsoDb)
      else (db4, Inr row))))"

definition delete_connection :: "(sso_call \<Rightarrow> bool) \<Rightarrow> sso_service \<Rightarrow> string \<Rightarrow> string \<Rightarrow> sso_db \<Rightarrow> sso_db \<times> sso_error option" where
  "delete_connection flt svc org c db =
     (if ss_cipher svc = None then (db, Some ErrSSOConnectionsDisabled)
      else if flt ScBegin then (db, Some SsoDb)
      else case get_connection flt db org c of
        Inl e \<Rightarrow> (db, Some e)
      | Inr _ \<Rightarrow>
          if flt ScConnDomains \<or> flt ScIdentities \<or> flt ScWrite then (db, Some SsoDb)
          else (case drop_domains flt (connection_domains db c) (delete_connection_row org c (delete_identities c db)) of
                  Inl e \<Rightarrow> (db, Some e)
                | Inr db1 \<Rightarrow> if flt ScCommit then (db, Some SsoDb) else (db1, None)))"

section \<open>What a sign-in reads\<close>

record connection =
  co_id :: string
  co_issuer :: string
  co_client :: string
  co_secret :: string
  co_domains :: "string list"

definition connection_for_sign_in :: "(sso_call \<Rightarrow> bool) \<Rightarrow> secret_cipher \<Rightarrow> sso_db \<Rightarrow> string \<Rightarrow> (sso_error, connection) result" where
  "connection_for_sign_in flt cipher db c =
     (if flt ScConn then Inl SsoDb
      else case find_connection db c of
        None \<Rightarrow> Inl ErrSSOConnectionNotFound
      | Some row \<Rightarrow>
          if flt ScConnDomains then Inl SsoDb
          else case sc_decrypt cipher (cn_secret row) of
            None \<Rightarrow> Inl SsoDb
          | Some plain \<Rightarrow> Inr \<lparr>co_id = cn_id row, co_issuer = cn_issuer row, co_client = cn_client row, co_secret = plain,
                              co_domains = connection_domains db c\<rparr>)"

text \<open>A missing row has the empty issuer.\<close>

definition connection_unchanged :: "sso_db \<Rightarrow> connection \<Rightarrow> bool" where
  "connection_unchanged db co =
     ((case find_connection db (co_id co) of None \<Rightarrow> [] | Some row \<Rightarrow> cn_issuer row) = co_issuer co
      \<and> connection_domains db (co_id co) = co_domains co)"

definition connection_for_domain :: "sso_db \<Rightarrow> string \<Rightarrow> connection_row option" where
  "connection_for_domain db d =
     (case List.find (\<lambda>r. dr_domain r = d \<and> dr_conn r \<noteq> None) (sd_domains db) of
        None \<Rightarrow> None
      | Some r \<Rightarrow> (case dr_conn r of None \<Rightarrow> None
                   | Some c \<Rightarrow> List.find (\<lambda>x. cn_id x = c \<and> cn_org x = dr_org r) (sd_conns db)))"

end
