(* ===== verification/Domain_Laws.thy ===== *)
theory Domain_Laws
  imports Sso_Connections
begin

text \<open>
  What the operations on claimed domains and connections keep: the constraints of their tables
  without ever running into them, and the connection of a domain for as long as anyone
  requires single sign-on on it.
\<close>

section \<open>The tables' constraints\<close>

definition row_ok :: "connection_row list \<Rightarrow> domain_row \<Rightarrow> bool" where
  "row_ok conns r = (domain_ok (dr_domain r) \<and> (dr_require r \<longrightarrow> is_verified r) \<and> (dr_conn r \<noteq> None \<longrightarrow> is_verified r)
     \<and> pred_option (\<lambda>c. list_ex (\<lambda>x. cn_id x = c \<and> cn_org x = dr_org r) conns) (dr_conn r))"

definition claim_key :: "domain_row \<Rightarrow> string \<times> string" where
  "claim_key r = (dr_org r, dr_domain r)"

definition sso_ok :: "sso_db \<Rightarrow> bool" where
  "sso_ok db = (list_all (row_ok (sd_conns db)) (sd_domains db) \<and> distinct (map dr_id (sd_domains db))
     \<and> distinct (map claim_key (sd_domains db)) \<and> one_connection (sd_domains db) \<and> distinct (map cn_id (sd_conns db)))"

lemma distinct_weaker_filter:
  assumes "distinct (map g (filter P xs))" "\<And>x. Q x \<Longrightarrow> P x"
  shows "distinct (map g (filter Q xs))"
proof -
  have "filter Q xs = filter Q (filter P xs)" using assms(2) by (auto intro: filter_cong)
  with distinct_map_filter [OF assms(1)] show ?thesis by simp
qed

text \<open>An update in place keeps the constraints when it keeps the keys and attaches nothing.\<close>

lemma update_ok:
  assumes "sso_ok db" "\<And>r. dr_id (f r) = dr_id r" "\<And>r. claim_key (f r) = claim_key r"
    and "\<And>r. row_ok (sd_conns db) r \<Longrightarrow> row_ok (sd_conns db) (f r)" "\<And>r. dr_conn (f r) \<noteq> None \<Longrightarrow> dr_conn r \<noteq> None"
  shows "sso_ok (update_domains f db)"
proof -
  have dom: "dr_domain (f r) = dr_domain r" for r using assms(3) [of r] by (simp add: claim_key_def)
  have "map dr_domain (filter (\<lambda>r. dr_conn r \<noteq> None) (map f rows)) = map dr_domain (filter (\<lambda>r. dr_conn (f r) \<noteq> None) rows)" for rows
    by (induction rows) (simp_all add: dom)
  note same = this
  have "distinct (map dr_domain (filter (\<lambda>r. dr_conn r \<noteq> None) (sd_domains db)))" using assms(1) by (simp add: sso_ok_def one_connection_def)
  from distinct_weaker_filter [OF this assms(5)] have "one_connection (map f (sd_domains db))"
    unfolding one_connection_def same .
  moreover have comp: "dr_id \<circ> f = dr_id" "claim_key \<circ> f = claim_key" using assms(2,3) by (simp_all add: fun_eq_iff)
  moreover have "list_all (row_ok (sd_conns db)) (map f (sd_domains db))"
    using assms(1,4) by (auto simp: sso_ok_def list_all_iff)
  moreover have "distinct (map dr_id (sd_domains db))" "distinct (map claim_key (sd_domains db))" "distinct (map cn_id (sd_conns db))"
    using assms(1) by (simp_all add: sso_ok_def)
  ultimately show ?thesis unfolding sso_ok_def update_domains_def by (simp add: comp)
qed

lemma update_fields [simp]:
  "sd_conns (update_domains f db) = sd_conns db" "sd_identities (update_domains f db) = sd_identities db"
  "sd_base (update_domains f db) = sd_base db" "sd_orgs (update_domains f db) = sd_orgs db"
  "sd_domains (update_domains f db) = map f (sd_domains db)"
  by (simp_all add: update_domains_def)

lemma clear_seen_ok: "sso_ok db \<Longrightarrow> sso_ok (update_domains (clear_seen ds) db)"
  by (rule update_ok) (auto simp: clear_seen_def claim_key_def row_ok_def is_verified_def split: if_splits)

lemma filter_ok: "sso_ok db \<Longrightarrow> sso_ok (db\<lparr>sd_domains := filter P (sd_domains db)\<rparr>)"
proof -
  assume ok: "sso_ok db"
  then have "distinct (map dr_domain (filter (\<lambda>r. P r \<and> dr_conn r \<noteq> None) (sd_domains db)))"
    unfolding sso_ok_def one_connection_def by (elim conjE) (rule distinct_weaker_filter [of dr_domain "\<lambda>r. dr_conn r \<noteq> None"], simp_all)
  then have "one_connection (filter P (sd_domains db))" unfolding one_connection_def filter_filter .
  moreover have "list_all (row_ok (sd_conns db)) (filter P (sd_domains db))" using ok by (auto simp: sso_ok_def list_all_iff)
  ultimately show ?thesis using ok by (simp add: sso_ok_def distinct_map_filter)
qed

text \<open>A fresh unconnected row.\<close>

lemma append_ok:
  assumes "sso_ok db" "domain_by_name db org d = None" "\<not> list_ex (\<lambda>r. dr_id r = dr_id row) (sd_domains db)"
    and "dr_org row = org" "dr_domain row = d" "domain_ok d" "\<not> dr_require row" "dr_conn row = None"
  shows "sso_ok (db\<lparr>sd_domains := sd_domains db @ [row]\<rparr>)"
proof -
  have "claim_key row \<notin> set (map claim_key (sd_domains db))"
    using assms(2,4,5) by (auto simp: domain_by_name_def find_None_iff claim_key_def)
  moreover have "dr_id row \<notin> set (map dr_id (sd_domains db))" using assms(3) by (auto simp: list_ex_iff)
  ultimately show ?thesis using assms by (simp add: sso_ok_def row_ok_def one_connection_def)
qed

lemma find_in_domains: "domain_by_id db org i = Some r \<Longrightarrow> r \<in> set (sd_domains db) \<and> dr_id r = i \<and> dr_org r = org"
  by (auto simp: domain_by_id_def find_Some_iff)

lemma eq_key_imp_eq_row: "distinct (map g xs) \<Longrightarrow> x \<in> set xs \<Longrightarrow> y \<in> set xs \<Longrightarrow> g x = g y \<Longrightarrow> x = y"
  by (metis distinct_map inj_onD)

section \<open>Each operation\<close>

lemma add_domain_ok:
  assumes "sso_ok db" shows "sso_ok (fst (add_domain flt draw org raw db))"
proof (cases "fst (add_domain flt draw org raw db) = db")
  case False
  then obtain d where d: "normalize_domain raw = Some d" by (cases "normalize_domain raw") (simp_all add: add_domain_def)
  obtain i token where draw: "draw = Some (i, token)" using False by (cases draw) (auto simp: add_domain_def d split: option.splits)
  have new: "domain_by_name db org d = None" using False by (cases "domain_by_name db org d") (simp_all add: add_domain_def d)
  define row where "row = \<lparr>dr_id = i, dr_org = org, dr_domain = d, dr_token = token, dr_verified = None, dr_method = None,
      dr_require = False, dr_seen = None, dr_conn = None\<rparr>"
  have "\<not> list_ex (\<lambda>r. dr_id r = i) (sd_domains db) \<and> fst (add_domain flt draw org raw db) = db\<lparr>sd_domains := sd_domains db @ [row]\<rparr>"
    using False by (simp add: add_domain_def d draw new Let_def row_def [symmetric] split: if_splits)
  then show ?thesis using append_ok [OF assms new, of row] normalize_ok [OF d] by (simp add: row_def)
qed (use assms in simp)

lemma verify_domain_ok:
  assumes "sso_ok db" shows "sso_ok (fst (verify_domain flt txt now db0 org i db))"
proof -
  have "sso_ok (update_domains (mark_verified_by_dns now org i) db)"
    by (rule update_ok [OF assms]) (auto simp: mark_verified_by_dns_def claim_key_def row_ok_def is_verified_def split: if_splits)
  then show ?thesis using assms by (auto simp: verify_domain_def split: sum.splits option.splits)
qed

lemma drop_domains_cases:
  assumes "drop_domains flt ds db = Inr db'"
  shows "db' = (if ds = [] then db else update_domains (clear_seen ds) db)" "\<forall>d\<in>set ds. \<not> sso_required db' d"
proof -
  have "refuse_required flt x es = None \<Longrightarrow> \<forall>d\<in>set es. \<not> sso_required x d" for x es
    by (induction es) (auto split: if_splits)
  then show "db' = (if ds = [] then db else update_domains (clear_seen ds) db)" "\<forall>d\<in>set ds. \<not> sso_required db' d"
    using assms by (auto simp: drop_domains_def clear_sso_seen_def split: sum.splits option.splits if_splits)
qed

lemma drop_domains_ok: "sso_ok db \<Longrightarrow> drop_domains flt ds db = Inr db' \<Longrightarrow> sso_ok db'"
  using drop_domains_cases(1) [of flt ds db db'] clear_seen_ok by (auto split: if_splits)

lemma remove_domain_cases:
  assumes "fst (remove_domain flt db0 org i db) \<noteq> db"
  obtains d db1 where "domain_by_id db0 org i = Some d" "fst (remove_domain flt db0 org i db) = fst (delete_domain org i db1)"
    "(dr_conn d = None \<and> db1 = db) \<or> (\<exists>c. dr_conn d = Some c \<and> drop_domains flt [dr_domain d] db = Inr db1)"
proof -
  obtain d where d: "domain_by_id db0 org i = Some d" "\<not> flt ScGet"
    using assms by (auto simp: remove_domain_def get_domain_def split: option.splits if_splits)
  define dropped where "dropped = (case dr_conn d of None \<Rightarrow> Inr db
      | Some c \<Rightarrow> (case get_connection flt db org c of Inl e \<Rightarrow> Inl e | Inr _ \<Rightarrow> drop_domains flt [dr_domain d] db))"
  have "fst (remove_domain flt db0 org i db) = db \<or> (\<exists>db1. dropped = Inr db1 \<and> fst (remove_domain flt db0 org i db) = fst (delete_domain org i db1))"
    using d by (cases dropped) (auto simp: remove_domain_def get_domain_def Let_def dropped_def [symmetric] split: prod.splits)
  then obtain db1 where "dropped = Inr db1" "fst (remove_domain flt db0 org i db) = fst (delete_domain org i db1)" using assms by blast
  moreover have "(dr_conn d = None \<and> db1 = db) \<or> (\<exists>c. dr_conn d = Some c \<and> drop_domains flt [dr_domain d] db = Inr db1)"
    using \<open>dropped = Inr db1\<close> by (cases "dr_conn d") (auto simp: dropped_def split: sum.splits)
  ultimately show thesis using that d(1) by blast
qed

lemma remove_domain_ok:
  assumes "sso_ok db" shows "sso_ok (fst (remove_domain flt db0 org i db))"
proof (cases "fst (remove_domain flt db0 org i db) = db")
  case False
  obtain d db1 where "domain_by_id db0 org i = Some d"
    and out: "fst (remove_domain flt db0 org i db) = fst (delete_domain org i db1)"
    and "(dr_conn d = None \<and> db1 = db) \<or> (\<exists>c. dr_conn d = Some c \<and> drop_domains flt [dr_domain d] db = Inr db1)"
    by (rule remove_domain_cases [OF False])
  then have "sso_ok db1" using assms drop_domains_ok by auto
  then show ?thesis unfolding out by (simp add: delete_domain_def Let_def filter_ok)
qed (use assms in simp)

lemma settings_domains: "sd_domains (fst (set_domain_settings flt txt db0 org want db)) = sd_domains db
    \<and> sd_conns (fst (set_domain_settings flt txt db0 org want db)) = sd_conns db"
  by (auto simp: set_domain_settings_def Let_def split: sum.splits option.splits)

lemma update_domain_ok:
  assumes "sso_ok db" shows "sso_ok (fst (update_domain flt txt db0 org i on_now db))"
proof (cases "fst (update_domain flt txt db0 org i on_now db) = db")
  case False
  obtain r where r: "domain_by_id db org i = Some r" "may_require on_now r"
    and upd: "fst (update_domain flt txt db0 org i on_now db) = update_domains (\<lambda>x. if dr_id x = i \<and> dr_org x = org then x\<lparr>dr_require := on_now\<rparr> else x) db"
  proof -
    obtain d where d: "get_domain flt db0 org i = Inr d" using False by (cases "get_domain flt db0 org i") (simp_all add: update_domain_def)
    define check where "check = (if on_now \<and> \<not> dr_require d
                then if \<not> is_verified d then Some ErrDomainNotVerified
                     else if dr_seen d = None then Some ErrDomainSSONotSeen
                     else if dr_method d \<noteq> Some method_operator then check_txt txt d else None
                else None)"
    have out: "update_domain flt txt db0 org i on_now db = (case check of
            Some e \<Rightarrow> (db, Inl e)
          | None \<Rightarrow>
              if flt ScWrite then (db, Inl SsoDb)
              else (case domain_by_id db org i of
                      None \<Rightarrow> (db, Inl (if flt ScReget then SsoDb else ErrDomainNotFound))
                    | Some r \<Rightarrow>
                        if may_require on_now r
                        then (update_domains (\<lambda>x. if dr_id x = i \<and> dr_org x = org then x\<lparr>dr_require := on_now\<rparr> else x) db,
                              Inr (r\<lparr>dr_require := on_now\<rparr>))
                        else (db, Inl (if flt ScReget then SsoDb else ErrDomainSSONotSeen))))"
      by (simp only: update_domain_def d sum.case check_def)
    have "check = None" using False by (cases check) (simp_all add: out)
    moreover obtain r where r: "domain_by_id db org i = Some r" "\<not> flt ScWrite" "may_require on_now r"
      using False \<open>check = None\<close> by (cases "flt ScWrite"; cases "domain_by_id db org i") (auto simp: out split: if_splits)
    ultimately show thesis using that by (simp add: out)
  qed
  let ?f = "\<lambda>x. if x = r then x\<lparr>dr_require := on_now\<rparr> else x"
  have "map (\<lambda>x. if dr_id x = i \<and> dr_org x = org then x\<lparr>dr_require := on_now\<rparr> else x) (sd_domains db) = map ?f (sd_domains db)"
  proof (rule map_cong [OF refl])
    fix x assume "x \<in> set (sd_domains db)"
    moreover have "distinct (map dr_id (sd_domains db))" using assms by (simp add: sso_ok_def)
    ultimately have "dr_id x = i \<Longrightarrow> x = r" using find_in_domains [OF r(1)] eq_key_imp_eq_row [of dr_id "sd_domains db" x r] by simp
    then have "dr_id x = i \<and> dr_org x = org \<longleftrightarrow> x = r" using find_in_domains [OF r(1)] by metis
    then show "(if dr_id x = i \<and> dr_org x = org then x\<lparr>dr_require := on_now\<rparr> else x) = ?f x" by simp
  qed
  then have "fst (update_domain flt txt db0 org i on_now db) = update_domains ?f db" using upd by (simp add: update_domains_def)
  moreover have "row_ok (sd_conns db) (?f x)" if "row_ok (sd_conns db) x" for x
    using that r(2) by (cases "x = r") (auto simp: row_ok_def is_verified_def may_require_def)
  then have "sso_ok (update_domains ?f db)"
    by (intro update_ok [OF assms]) (simp_all add: claim_key_def split: if_split if_split_asm)
  ultimately show ?thesis by simp
qed (use assms in simp)

lemma operator_ok:
  assumes "sso_ok db" shows "sso_ok (fst (verify_by_operator flt now draw org raw db))"
proof (cases "fst (verify_by_operator flt now draw org raw db) = db")
  case False
  then obtain d i token where d: "normalize_domain raw = Some d" "draw = Some (i, token)"
    by (auto simp: verify_by_operator_def split: option.splits)
  show ?thesis
  proof (cases "domain_by_name db org d")
    case None
    with False d have "fst (verify_by_operator flt now draw org raw db) = db\<lparr>sd_domains := sd_domains db @
        [\<lparr>dr_id = i, dr_org = org, dr_domain = d, dr_token = token, dr_verified = Some now, dr_method = Some method_operator,
          dr_require = False, dr_seen = None, dr_conn = None\<rparr>]\<rparr>" and "\<not> list_ex (\<lambda>r. dr_id r = i) (sd_domains db)"
      by (auto simp: verify_by_operator_def Let_def split: if_splits)
    then show ?thesis using append_ok [OF assms None] normalize_ok [OF d(1)] by simp
  next
    case (Some r)
    with False d have "fst (verify_by_operator flt now draw org raw db) = update_domains (\<lambda>x. if dr_org x = org \<and> dr_domain x = d
        then x\<lparr>dr_verified := Some (case dr_verified x of None \<Rightarrow> now | Some t \<Rightarrow> t), dr_method := Some method_operator\<rparr> else x) db"
      by (auto simp: verify_by_operator_def Let_def split: if_splits)
    moreover have "sso_ok (update_domains (\<lambda>x. if dr_org x = org \<and> dr_domain x = d
        then x\<lparr>dr_verified := Some (case dr_verified x of None \<Rightarrow> now | Some t \<Rightarrow> t), dr_method := Some method_operator\<rparr> else x) db)"
      by (rule update_ok [OF assms]) (auto simp: claim_key_def row_ok_def is_verified_def split: if_splits)
    ultimately show ?thesis by simp
  qed
qed (use assms in simp)

lemma release_ok: "sso_ok db \<Longrightarrow> sso_ok (fst (release_domain flt org raw db))"
  using clear_seen_ok [OF filter_ok]
  by (auto simp: release_domain_def Let_def clear_sso_seen_def filter_ok split: option.splits sum.splits)

lemma unenforce_ok: "sso_ok db \<Longrightarrow> sso_ok (fst (unenforce_domain flt raw db))"
proof -
  assume ok: "sso_ok db"
  have "sso_ok (update_domains (\<lambda>r. if dr_domain r = d \<and> dr_require r then r\<lparr>dr_require := False\<rparr> else r) db)" for d
    by (rule update_ok [OF ok]) (auto simp: claim_key_def row_ok_def is_verified_def split: if_splits)
  then show ?thesis using ok by (auto simp: unenforce_domain_def Let_def split: option.splits sum.splits list.splits)
qed

section \<open>Connections\<close>

lemma find_connection_in: "find_connection db c = Some x \<Longrightarrow> x \<in> set (sd_conns db) \<and> cn_id x = c"
  by (auto simp: find_connection_def find_Some_iff)

lemma get_connection_in: "get_connection flt db org c = Inr x \<Longrightarrow> find_connection db c = Some x \<and> cn_org x = org"
  by (auto simp: get_connection_def split: if_splits option.splits)

text \<open>Saving keeps every id, and the organization of the one it replaces.\<close>

lemma save_row_ok:
  assumes "sso_ok db" "pred_option (\<lambda>x. cn_org x = cn_org c) (find_connection db (cn_id c))"
  shows "sso_ok (save_row c db)"
proof (cases "find_connection db (cn_id c)")
  case None
  then have "cn_id c \<notin> set (map cn_id (sd_conns db))" by (auto simp: find_connection_def find_None_iff)
  with assms(1) None show ?thesis by (auto simp: sso_ok_def save_row_def row_ok_def list_all_iff list_ex_iff pred_option_def)
next
  case (Some x)
  let ?g = "\<lambda>y. if cn_id y = cn_id c then c else y"
  have ids: "cn_id \<circ> ?g = cn_id" by auto
  have "cn_org (?g y) = cn_org y" if "y \<in> set (sd_conns db)" for y
  proof (cases "cn_id y = cn_id c")
    case True
    have "distinct (map cn_id (sd_conns db))" using assms(1) by (simp add: sso_ok_def)
    then have "y = x" using that True find_connection_in [OF Some] by (intro eq_key_imp_eq_row [of cn_id "sd_conns db"]) simp_all
    then show ?thesis using assms(2) True Some by simp
  qed simp
  note same_org = this
  have "list_ex (\<lambda>x. cn_id x = i \<and> cn_org x = org) (map ?g (sd_conns db))"
    if ex: "list_ex (\<lambda>x. cn_id x = i \<and> cn_org x = org) (sd_conns db)" for i org
  proof -
    obtain y where y: "y \<in> set (sd_conns db)" "cn_id y = i" "cn_org y = org" using ex by (auto simp: list_ex_iff)
    then have "?g y \<in> set (map ?g (sd_conns db))" unfolding set_map by (intro imageI)
    moreover have "cn_id (?g y) = i" using y(2) by simp
    moreover have "cn_org (?g y) = org" using same_org [OF y(1)] y(3) by simp
    ultimately show ?thesis unfolding list_ex_iff by blast
  qed
  then have "list_all (row_ok (map ?g (sd_conns db))) (sd_domains db)"
    using assms(1) by (auto simp: sso_ok_def list_all_iff row_ok_def pred_option_def)
  then show ?thesis using assms(1) Some ids by (simp add: sso_ok_def save_row_def)
qed

lemma save_row_present:
  "find_connection db (cn_id c) = None \<or> list_ex (\<lambda>x. cn_id x = cn_id c) (sd_conns db) \<Longrightarrow>
     list_ex (\<lambda>x. cn_id x = cn_id c \<and> cn_org x = cn_org c) (sd_conns (save_row c db))"
  by (auto simp: save_row_def list_ex_iff)

lemma save_row_fields [simp]: "sd_domains (save_row c db) = sd_domains db"
  by (simp add: save_row_def)

lemma identities_fields [simp]:
  "sd_domains (delete_identities c db) = sd_domains db" "sd_conns (delete_identities c db) = sd_conns db"
  by (simp_all add: delete_identities_def)

lemma identities_ok [simp]: "sso_ok (delete_identities c db) = sso_ok db"
  by (simp add: sso_ok_def)

lemma reset_issuer_cases:
  assumes "reset_issuer flt changed c ds db = Inr db'"
  shows "sso_ok db \<Longrightarrow> sso_ok db'" "sd_conns db' = sd_conns db"
    "map dr_conn (sd_domains db') = map dr_conn (sd_domains db)" "map dr_domain (sd_domains db') = map dr_domain (sd_domains db)"
proof -
  have "db' = db \<or> db' = delete_identities c db \<or> db' = update_domains (clear_seen ds) (delete_identities c db)"
    using assms by (auto simp: reset_issuer_def clear_sso_seen_def split: if_splits)
  moreover have "dr_conn (clear_seen ds r) = dr_conn r" "dr_domain (clear_seen ds r) = dr_domain r" for r
    by (simp_all add: clear_seen_def)
  ultimately show "sso_ok db \<Longrightarrow> sso_ok db'" "sd_conns db' = sd_conns db"
    "map dr_conn (sd_domains db') = map dr_conn (sd_domains db)" "map dr_domain (sd_domains db') = map dr_domain (sd_domains db)"
    using clear_seen_ok by (auto simp: comp_def)
qed

lemma detach_ok: "sso_ok db \<Longrightarrow> sso_ok (fst (detach_domains org c keep db))"
  unfolding detach_domains_def Let_def fst_conv
  by (rule update_ok) (auto simp: claim_key_def row_ok_def is_verified_def split: if_splits)

lemma attach_ok:
  assumes "sso_ok db" "attach_domains org c ids db = Some (db', n)"
    and "list_ex (\<lambda>x. cn_id x = c \<and> cn_org x = org) (sd_conns db)"
  shows "sso_ok db'"
proof -
  define f :: "domain_row \<Rightarrow> domain_row" where "f = (\<lambda>r. if dr_org r = org \<and> dr_id r \<in> set ids \<and> is_verified r \<and> (dr_conn r = None \<or> dr_conn r = Some c)
      then r\<lparr>dr_conn := Some c\<rparr> else r)"
  have out: "db' = update_domains f db" "one_connection (map f (sd_domains db))"
    using assms(2) by (auto simp: attach_domains_def Let_def f_def split: if_splits)
  have "dr_id \<circ> f = dr_id" "claim_key \<circ> f = claim_key" by (auto simp: f_def claim_key_def)
  moreover have "row_ok (sd_conns db) (f r)" if "row_ok (sd_conns db) r" for r
    using that assms(3) by (auto simp: f_def row_ok_def is_verified_def)
  then have "list_all (row_ok (sd_conns db)) (map f (sd_domains db))" using assms(1) by (simp add: sso_ok_def list_all_iff)
  ultimately show ?thesis using assms(1) out by (simp add: sso_ok_def)
qed

lemma delete_connection_row_ok: assumes "sso_ok db" shows "sso_ok (delete_connection_row org c db)"
proof -
  let ?conns = "filter (\<lambda>x. \<not> (cn_id x = c \<and> cn_org x = org)) (sd_conns db)"
  define f :: "domain_row \<Rightarrow> domain_row" where "f = (\<lambda>r. if dr_org r = org \<and> dr_conn r = Some c then r\<lparr>dr_conn := None\<rparr> else r)"
  have keep: "list_ex (\<lambda>x. cn_id x = i \<and> cn_org x = org') ?conns"
    if "list_ex (\<lambda>x. cn_id x = i \<and> cn_org x = org') (sd_conns db)" "\<not> (i = c \<and> org' = org)" for i org'
    using that by (auto simp: list_ex_iff)
  have "row_ok ?conns (f r)" if "row_ok (sd_conns db) r" for r
    using that keep by (cases "dr_conn r") (auto simp: f_def row_ok_def is_verified_def)
  then have "list_all (row_ok ?conns) (map f (sd_domains db))" using assms by (simp add: sso_ok_def list_all_iff)
  moreover have "sso_ok (update_domains f db)"
    by (rule update_ok [OF assms]) (auto simp: f_def claim_key_def row_ok_def is_verified_def split: if_splits)
  ultimately show ?thesis
    by (simp add: sso_ok_def delete_connection_row_def f_def [symmetric] distinct_map_filter)
qed

section \<open>Saving and deleting a connection\<close>

text \<open>What a save that went through did, in order.\<close>

lemma set_connection_cases:
  assumes "fst (set_connection flt svc new_id db0 org inp db) \<noteq> db"
  obtains row changed ds ids db1 db3 n where
    "pred_option (\<lambda>x. cn_org x = cn_org row) (find_connection db (cn_id row))" "cn_org row = org"
    "reset_issuer flt changed (cn_id row) ds (save_row row db) = Inr db1"
    "drop_domains flt (snd (detach_domains org (cn_id row) ids db1)) (fst (detach_domains org (cn_id row) ids db1)) = Inr db3"
    "attach_domains org (cn_id row) ids db3 = Some (fst (set_connection flt svc new_id db0 org inp db), n)" "n = length ids"
proof -
  obtain cipher where cipher: "ss_cipher svc = Some cipher" using assms by (cases "ss_cipher svc") (simp_all add: set_connection_def)
  obtain issuer ids ds where chk: "check_connection flt svc org inp db0 = Inr (issuer, ids, ds)"
    using assms cipher by (cases "check_connection flt svc org inp db0") (auto simp: set_connection_def)
  have begun: "\<not> flt ScBegin" using assms cipher chk by (auto simp: set_connection_def)
  obtain cur where cur: "lock_connection flt org issuer inp db = Inr cur"
    using assms cipher chk begun by (cases "lock_connection flt org issuer inp db") (simp_all add: set_connection_def)
  obtain ct where sealed: "seal_secret cipher cur inp = Inr ct"
    using assms cipher chk begun cur by (cases "seal_secret cipher cur inp") (simp_all add: set_connection_def)
  define row where "row = \<lparr>cn_id = (if ck_id inp = [] then new_id else ck_id inp), cn_org = org, cn_label = ck_label inp, cn_issuer = issuer,
                 cn_client = ck_client inp, cn_secret = ct\<rparr>"
  define changed where "changed = (ck_id inp \<noteq> [] \<and> cn_issuer cur \<noteq> issuer)"
  have out: "set_connection flt svc new_id db0 org inp db =
     (if flt ScWrite \<or> (ck_id inp = [] \<and> find_connection db new_id \<noteq> None) then (db, Inl SsoDb)
      else case reset_issuer flt changed (cn_id row) ds (save_row row db) of
        Inl e \<Rightarrow> (db, Inl e)
      | Inr db1 \<Rightarrow>
      if flt ScDetach then (db, Inl SsoDb)
      else case detach_domains org (cn_id row) ids db1 of (db2, detached) \<Rightarrow>
      (case drop_domains flt detached db2 of
        Inl e \<Rightarrow> (db, Inl e)
      | Inr db3 \<Rightarrow>
      if flt ScAttach then (db, Inl SsoDb)
      else (case attach_domains org (cn_id row) ids db3 of
        None \<Rightarrow> (db, Inl ErrDomainHasSSOConnection)
      | Some (db4, n) \<Rightarrow>
      if n \<noteq> length ids then (db, Inl ErrDomainHasSSOConnection)
      else if flt ScCommit then (db, Inl SsoDb)
      else (db4, Inr row))))"
    by (simp only: set_connection_def cipher chk cur sealed Let_def row_def [symmetric] changed_def [symmetric]
        begun option.case sum.case prod.case if_False)
  show thesis
  proof (cases "flt ScWrite \<or> (ck_id inp = [] \<and> find_connection db new_id \<noteq> None)")
    case True
    with assms out show thesis by simp
  next
    case wrote: False
    obtain db1 where db1: "reset_issuer flt changed (cn_id row) ds (save_row row db) = Inr db1"
      using assms wrote by (cases "reset_issuer flt changed (cn_id row) ds (save_row row db)") (simp_all add: out)
    obtain db2 detached where db2: "detach_domains org (cn_id row) ids db1 = (db2, detached)" by (cases "detach_domains org (cn_id row) ids db1")
    obtain db3 where db3: "drop_domains flt detached db2 = Inr db3"
      using assms wrote db1 db2 by (cases "drop_domains flt detached db2") (auto simp: out)
    obtain db4 n where db4: "attach_domains org (cn_id row) ids db3 = Some (db4, n)"
      using assms wrote db1 db2 db3 by (cases "attach_domains org (cn_id row) ids db3") (auto simp: out)
    have "n = length ids \<and> fst (set_connection flt svc new_id db0 org inp db) = db4"
      using assms wrote db1 db2 db3 db4 by (auto simp: out split: if_splits)
    moreover have "pred_option (\<lambda>x. cn_org x = cn_org row) (find_connection db (cn_id row))"
      using cur wrote get_connection_in [of flt db org "ck_id inp"]
      by (cases "ck_id inp = []") (auto simp: row_def lock_connection_def split: sum.splits if_splits)
    ultimately show thesis using that [of row changed ds db1 ids db3 n] db1 db2 db3 db4 by (simp add: row_def)
  qed
qed

lemma set_connection_ok:
  assumes "sso_ok db" shows "sso_ok (fst (set_connection flt svc new_id db0 org inp db))"
proof (cases "fst (set_connection flt svc new_id db0 org inp db) = db")
  case False
  obtain row changed ds ids db1 db3 n where step:
    "pred_option (\<lambda>x. cn_org x = cn_org row) (find_connection db (cn_id row))" "cn_org row = org"
    "reset_issuer flt changed (cn_id row) ds (save_row row db) = Inr db1"
    "drop_domains flt (snd (detach_domains org (cn_id row) ids db1)) (fst (detach_domains org (cn_id row) ids db1)) = Inr db3"
    "attach_domains org (cn_id row) ids db3 = Some (fst (set_connection flt svc new_id db0 org inp db), n)" "n = length ids"
    by (rule set_connection_cases [OF False])
  have "sso_ok db3"
    by (rule drop_domains_ok [OF detach_ok [OF reset_issuer_cases(1) [OF step(3) save_row_ok [OF assms step(1)]]] step(4)])
  have "sd_conns (fst (detach_domains org (cn_id row) ids db1)) = sd_conns (save_row row db)"
    using reset_issuer_cases(2) [OF step(3)] by (simp add: detach_domains_def Let_def)
  then have "sd_conns db3 = sd_conns (save_row row db)"
    unfolding drop_domains_cases(1) [OF step(4)] by simp
  moreover have "find_connection db (cn_id row) = None \<or> list_ex (\<lambda>x. cn_id x = cn_id row) (sd_conns db)"
    using find_connection_in by (cases "find_connection db (cn_id row)") (auto simp: list_ex_iff)
  ultimately have "list_ex (\<lambda>x. cn_id x = cn_id row \<and> cn_org x = org) (sd_conns db3)"
    using save_row_present [of db row] step(2) by simp
  then show ?thesis by (rule attach_ok [OF \<open>sso_ok db3\<close> step(5)])
qed (use assms in simp)

lemma delete_connection_cases:
  assumes "fst (delete_connection flt svc org c db) \<noteq> db"
  obtains x where "find_connection db c = Some x" "cn_org x = org"
    "drop_domains flt (connection_domains db c) (delete_connection_row org c (delete_identities c db)) = Inr (fst (delete_connection flt svc org c db))"
proof -
  obtain x where x: "get_connection flt db org c = Inr x"
    using assms by (cases "get_connection flt db org c") (auto simp: delete_connection_def split: if_splits)
  obtain db1 where db1: "drop_domains flt (connection_domains db c) (delete_connection_row org c (delete_identities c db)) = Inr db1"
    using assms x by (cases "drop_domains flt (connection_domains db c) (delete_connection_row org c (delete_identities c db))")
      (auto simp: delete_connection_def split: if_splits)
  then have "fst (delete_connection flt svc org c db) = db1"
    using assms x by (auto simp: delete_connection_def split: if_splits)
  with that x db1 get_connection_in [OF x] show thesis by simp
qed

lemma delete_connection_ok: assumes "sso_ok db" shows "sso_ok (fst (delete_connection flt svc org c db))"
proof (cases "fst (delete_connection flt svc org c db) = db")
  case False
  have "drop_domains flt (connection_domains db c) (delete_connection_row org c (delete_identities c db))
      = Inr (fst (delete_connection flt svc org c db))"
    by (rule delete_connection_cases [OF False])
  note dropped = this
  have "sso_ok (delete_connection_row org c (delete_identities c db))" by (rule delete_connection_row_ok) (simp add: assms)
  then show ?thesis by (rule drop_domains_ok [OF _ dropped])
qed (use assms in simp)

section \<open>Commands\<close>

text \<open>Each command carries what it read before its transaction, whatever that was.\<close>

datatype sso_cmd =
    CmdAddDomain "sso_call \<Rightarrow> bool" "(string \<times> string) option" string string
  | CmdVerifyDomain "sso_call \<Rightarrow> bool" resolver time sso_db string string
  | CmdRemoveDomain "sso_call \<Rightarrow> bool" sso_db string string
  | CmdDomainSettings "sso_call \<Rightarrow> bool" resolver sso_db string domain_settings
  | CmdUpdateDomain "sso_call \<Rightarrow> bool" resolver sso_db string string bool
  | CmdOperatorVerify "sso_call \<Rightarrow> bool" time "(string \<times> string) option" string string
  | CmdReleaseDomain "sso_call \<Rightarrow> bool" string string
  | CmdUnenforce "sso_call \<Rightarrow> bool" string
  | CmdSetConnection "sso_call \<Rightarrow> bool" sso_service string sso_db string connection_input
  | CmdDeleteConnection "sso_call \<Rightarrow> bool" sso_service string string

primrec sso_step :: "sso_db \<Rightarrow> sso_cmd \<Rightarrow> sso_db" where
  "sso_step db (CmdAddDomain flt draw org raw) = fst (add_domain flt draw org raw db)"
| "sso_step db (CmdVerifyDomain flt txt now db0 org i) = fst (verify_domain flt txt now db0 org i db)"
| "sso_step db (CmdRemoveDomain flt db0 org i) = fst (remove_domain flt db0 org i db)"
| "sso_step db (CmdDomainSettings flt txt db0 org want) = fst (set_domain_settings flt txt db0 org want db)"
| "sso_step db (CmdUpdateDomain flt txt db0 org i on_now) = fst (update_domain flt txt db0 org i on_now db)"
| "sso_step db (CmdOperatorVerify flt now draw org raw) = fst (verify_by_operator flt now draw org raw db)"
| "sso_step db (CmdReleaseDomain flt org raw) = fst (release_domain flt org raw db)"
| "sso_step db (CmdUnenforce flt raw) = fst (unenforce_domain flt raw db)"
| "sso_step db (CmdSetConnection flt svc new_id db0 org inp) = fst (set_connection flt svc new_id db0 org inp db)"
| "sso_step db (CmdDeleteConnection flt svc org c) = fst (delete_connection flt svc org c db)"

lemma settings_ok: "sso_ok db \<Longrightarrow> sso_ok (fst (set_domain_settings flt txt db0 org want db))"
  by (simp only: sso_ok_def settings_domains)

lemmas operations_ok = add_domain_ok verify_domain_ok remove_domain_ok settings_ok update_domain_ok operator_ok release_ok
  unenforce_ok set_connection_ok delete_connection_ok

lemma sso_step_ok: "sso_ok db \<Longrightarrow> sso_ok (sso_step db cmd)"
  by (cases cmd) (simp_all only: sso_step.simps operations_ok)

interpretation sso: machine_inv sso_step sso_ok
  by unfold_locales (rule sso_step_ok)

end
