(* ===== verification/Domain_Claims.thy ===== *)
theory Domain_Claims
  imports Domain_Laws
begin

text \<open>
  The connection of a domain for as long as single sign-on is required on it, the properties of
  claimed domains and connections, and the one interleaving that breaks them.
\<close>

section \<open>Losing a connection\<close>

definition has_connection :: "sso_db \<Rightarrow> string \<Rightarrow> bool" where
  "has_connection db d = list_ex (\<lambda>r. dr_domain r = d \<and> dr_conn r \<noteq> None) (sd_domains db)"

definition conn_view :: "sso_db \<Rightarrow> (string \<times> string option) list" where
  "conn_view db = map (\<lambda>r. (dr_domain r, dr_conn r)) (sd_domains db)"

lemma has_connection_view: "has_connection db d = list_ex (\<lambda>x. fst x = d \<and> snd x \<noteq> None) (conn_view db)"
  by (simp add: has_connection_def conn_view_def list_ex_iff)

lemma conn_view_zip: "conn_view db = zip (map dr_domain (sd_domains db)) (map dr_conn (sd_domains db))"
  unfolding conn_view_def by (induction "sd_domains db" arbitrary: db) (simp_all add: zip_map_map zip_same_conv_map)

lemma conn_view_update: "(\<And>r. dr_domain (f r) = dr_domain r \<and> dr_conn (f r) = dr_conn r) \<Longrightarrow> conn_view (update_domains f db) = conn_view db"
  by (simp add: conn_view_def)

text \<open>These only append rows or change other columns.\<close>

lemma add_domain_view: "\<exists>rows. conn_view (fst (add_domain flt draw org raw db)) = conn_view db @ rows"
  by (auto simp: add_domain_def Let_def conn_view_def split: option.split)

lemma operator_view: "\<exists>rows. conn_view (fst (verify_by_operator flt now draw org raw db)) = conn_view db @ rows"
proof -
  have "conn_view (update_domains (\<lambda>x. if dr_org x = org \<and> dr_domain x = d
      then x\<lparr>dr_verified := Some (case dr_verified x of None \<Rightarrow> now | Some t \<Rightarrow> t), dr_method := Some method_operator\<rparr> else x) db) = conn_view db" for d
    by (rule conn_view_update) simp
  moreover have "\<exists>rows. conn_view (db\<lparr>sd_domains := sd_domains db @ [r]\<rparr>) = conn_view db @ rows" for r
    by (simp add: conn_view_def)
  ultimately show ?thesis by (simp add: verify_by_operator_def Let_def split: option.split)
qed

lemma same_view:
  "conn_view (fst (verify_domain flt txt now db0 org i db)) = conn_view db"
  "conn_view (fst (set_domain_settings flt txt db0 org want db)) = conn_view db"
  "conn_view (fst (unenforce_domain flt raw db)) = conn_view db"
proof -
  have "conn_view (update_domains (mark_verified_by_dns now org i) db) = conn_view db"
    by (rule conn_view_update) (simp add: mark_verified_by_dns_def)
  then show "conn_view (fst (verify_domain flt txt now db0 org i db)) = conn_view db"
    by (simp add: verify_domain_def split: sum.split option.split)
  show "conn_view (fst (set_domain_settings flt txt db0 org want db)) = conn_view db"
    by (simp add: conn_view_def settings_domains)
  have "conn_view (update_domains (\<lambda>r. if dr_domain r = d \<and> dr_require r then r\<lparr>dr_require := False\<rparr> else r) db) = conn_view db" for d
    by (rule conn_view_update) simp
  then show "conn_view (fst (unenforce_domain flt raw db)) = conn_view db"
    by (simp add: unenforce_domain_def Let_def split: option.split sum.split list.split)
qed

lemma update_view: "conn_view (fst (update_domain flt txt db0 org i on_now db)) = conn_view db"
proof -
  have "conn_view (update_domains (\<lambda>x. if dr_id x = i \<and> dr_org x = org then x\<lparr>dr_require := on_now\<rparr> else x) db) = conn_view db"
    by (rule conn_view_update) simp
  then show ?thesis by (simp add: update_domain_def Let_def split: sum.split option.split)
qed

text \<open>A domain that goes through the drop is required nowhere.\<close>

lemma dropped_free: "drop_domains flt ds db = Inr db' \<Longrightarrow> d \<in> set ds \<Longrightarrow> \<not> sso_required db' d"
  using drop_domains_cases(2) by blast

lemma drop_view: "drop_domains flt ds db = Inr db' \<Longrightarrow> conn_view db' = conn_view db"
  using drop_domains_cases(1) [of flt ds db db'] conn_view_update [of "clear_seen ds" db] by (auto simp: clear_seen_def)

lemma fewer_required: "sso_required (db\<lparr>sd_domains := filter P (sd_domains db)\<rparr>) d \<Longrightarrow> sso_required db d"
  by (auto simp: sso_required_def list_ex_iff)

definition keeps_required :: "sso_db \<Rightarrow> sso_db \<Rightarrow> string \<Rightarrow> bool" where
  "keeps_required db db' d = (has_connection db d \<and> \<not> has_connection db' d \<longrightarrow> \<not> sso_required db' d)"

lemma keeps_view: "conn_view db' = conn_view db @ rows \<Longrightarrow> keeps_required db db' d"
  by (auto simp: keeps_required_def has_connection_view)

lemma keeps_requiredI: "(has_connection db d \<Longrightarrow> has_connection db' d) \<Longrightarrow> keeps_required db db' d"
  by (auto simp: keeps_required_def)

lemma same_connections: "conn_view db' = conn_view db \<Longrightarrow> has_connection db' d = has_connection db d"
  by (simp add: has_connection_view)

lemma has_connectionI: "r \<in> set (sd_domains db) \<Longrightarrow> dr_domain r = d \<Longrightarrow> dr_conn r \<noteq> None \<Longrightarrow> has_connection db d"
  unfolding has_connection_def list_ex_iff by blast

lemma has_connectionE:
  assumes "has_connection db d"
  obtains r where "r \<in> set (sd_domains db)" "dr_domain r = d" "dr_conn r \<noteq> None"
  using assms unfolding has_connection_def list_ex_iff by blast

lemma remove_keeps:
  assumes "sso_ok db" shows "keeps_required db (fst (remove_domain flt db org i db)) d"
proof (cases "fst (remove_domain flt db org i db) = db")
  case False
  obtain x db1 where x: "domain_by_id db org i = Some x"
    and out: "fst (remove_domain flt db org i db) = fst (delete_domain org i db1)"
    and db1: "(dr_conn x = None \<and> db1 = db) \<or> (\<exists>c. dr_conn x = Some c \<and> drop_domains flt [dr_domain x] db = Inr db1)"
    by (rule remove_domain_cases [OF False])
  have out': "fst (remove_domain flt db org i db) = db1\<lparr>sd_domains := filter (\<lambda>r. \<not> (dr_id r = i \<and> dr_org r = org)) (sd_domains db1)\<rparr>"
    by (simp add: out delete_domain_def Let_def)
  have only: "dr_domain r = dr_domain x \<and> dr_conn r = dr_conn x" if "r \<in> set (sd_domains db)" "dr_id r = i" for r
    using eq_key_imp_eq_row [of dr_id "sd_domains db" r x] find_in_domains [OF x] that assms by (simp add: sso_ok_def)
  show ?thesis
  proof (cases "d = dr_domain x \<and> dr_conn x \<noteq> None")
    case True
    with db1 have "\<not> sso_required db1 d" using dropped_free [of flt "[dr_domain x]" db db1 d] by auto
    then show ?thesis unfolding keeps_required_def out' using fewer_required by blast
  next
    case other: False
    have "has_connection db1 d" if "has_connection db d"
      using that db1 drop_view [of flt "[dr_domain x]" db db1] by (auto simp: has_connection_view)
    moreover have "\<not> (dr_domain r = d \<and> dr_conn r \<noteq> None)" if here: "r \<in> set (sd_domains db1)" "dr_id r = i" for r
    proof -
      have "sd_domains db1 = sd_domains db \<or> sd_domains db1 = map (clear_seen [dr_domain x]) (sd_domains db)"
        using db1 drop_domains_cases(1) [of flt "[dr_domain x]" db db1] by auto
      then obtain r0 where r0: "r0 \<in> set (sd_domains db)" "r = r0 \<or> r = clear_seen [dr_domain x] r0" using here(1) by auto
      then have "dr_id r0 = dr_id r" "dr_domain r0 = dr_domain r" "dr_conn r0 = dr_conn r" by (auto simp: clear_seen_def)
      with only [OF r0(1)] here(2) other show ?thesis by auto
    qed
    ultimately show ?thesis unfolding out'
      by (intro keeps_requiredI) (auto elim!: has_connectionE intro!: has_connectionI)
  qed
qed (simp add: keeps_required_def)

text \<open>A save detaches only what it then refuses to leave required.\<close>

lemma set_connection_keeps: "keeps_required db (fst (set_connection flt svc new_id db0 org inp db)) d"
proof (cases "fst (set_connection flt svc new_id db0 org inp db) = db")
  case False
  let ?out = "fst (set_connection flt svc new_id db0 org inp db)"
  obtain row changed ds ids db1 db3 n where
    reset: "reset_issuer flt changed (cn_id row) ds (save_row row db) = Inr db1" and
    drop: "drop_domains flt (snd (detach_domains org (cn_id row) ids db1)) (fst (detach_domains org (cn_id row) ids db1)) = Inr db3" and
    attach: "attach_domains org (cn_id row) ids db3 = Some (?out, n)"
    by (rule set_connection_cases [OF False])
  let ?hit = "\<lambda>r. dr_org r = org \<and> dr_conn r = Some (cn_id row) \<and> dr_id r \<notin> set ids"
  obtain f where out: "?out = update_domains f db3" and f: "\<And>r. dr_domain (f r) = dr_domain r" "\<And>r. dr_require (f r) = dr_require r"
      "\<And>r. dr_verified (f r) = dr_verified r" "\<And>r. dr_conn r \<noteq> None \<Longrightarrow> dr_conn (f r) \<noteq> None"
  proof -
    let ?f = "\<lambda>r. if dr_org r = org \<and> dr_id r \<in> set ids \<and> is_verified r \<and> (dr_conn r = None \<or> dr_conn r = Some (cn_id row))
        then r\<lparr>dr_conn := Some (cn_id row)\<rparr> else r"
    have "?out = update_domains ?f db3" using attach by (simp add: attach_domains_def Let_def split: if_splits)
    then show thesis by (rule that) simp_all
  qed
  show ?thesis
  proof (cases "d \<in> set (snd (detach_domains org (cn_id row) ids db1))")
    case True
    have "\<not> sso_required db3 d" by (rule dropped_free [OF drop True])
    then show ?thesis by (auto simp: keeps_required_def out sso_required_def is_verified_def list_ex_iff f)
  next
    case kept: False
    have "conn_view db1 = conn_view db"
      using reset_issuer_cases(3,4) [OF reset] by (simp add: conn_view_zip)
    then have conn1: "has_connection db1 d = has_connection db d" by (rule same_connections)
    have "has_connection (fst (detach_domains org (cn_id row) ids db1)) d" if has: "has_connection db1 d"
    proof -
      obtain r where r: "r \<in> set (sd_domains db1)" "dr_domain r = d" "dr_conn r \<noteq> None" using has by (rule has_connectionE)
      then have "\<not> ?hit r" using kept by (auto simp: detach_domains_def)
      with r show ?thesis by (intro has_connectionI [of r]) (auto simp: detach_domains_def Let_def)
    qed
    then have "has_connection db3 d" if "has_connection db d" using that conn1 same_connections [OF drop_view [OF drop]] by simp
    then have "has_connection ?out d" if "has_connection db d"
      using that f(1,4) unfolding out by (auto elim!: has_connectionE intro!: has_connectionI)
    then show ?thesis by (rule keeps_requiredI)
  qed
qed (simp add: keeps_required_def)

lemma delete_connection_keeps:
  assumes "sso_ok db" shows "keeps_required db (fst (delete_connection flt svc org c db)) d"
proof (cases "fst (delete_connection flt svc org c db) = db")
  case False
  let ?out = "fst (delete_connection flt svc org c db)"
  have drop: "drop_domains flt (connection_domains db c) (delete_connection_row org c (delete_identities c db)) = Inr ?out"
    by (rule delete_connection_cases [OF False])
  show ?thesis
  proof (cases "d \<in> set (connection_domains db c)")
    case True
    have "\<not> sso_required ?out d" by (rule dropped_free [OF drop True])
    then show ?thesis by (simp add: keeps_required_def)
  next
    case kept: False
    have "has_connection (delete_connection_row org c (delete_identities c db)) d" if has: "has_connection db d"
    proof -
      obtain r where r: "r \<in> set (sd_domains db)" "dr_domain r = d" "dr_conn r \<noteq> None" using has by (auto simp: has_connection_def list_ex_iff)
      then have "is_verified r" using assms by (auto simp: sso_ok_def list_all_iff row_ok_def)
      with r kept have "dr_conn r \<noteq> Some c" by (auto simp: connection_domains_def)
      with r show ?thesis by (force simp: has_connection_def delete_connection_row_def list_ex_iff)
    qed
    then show ?thesis using same_connections [OF drop_view [OF drop]] by (intro keeps_requiredI) simp
  qed
qed (simp add: keeps_required_def)

text \<open>Every command but the operator's release, when a removal reads the row it removes.\<close>

definition reads_fresh :: "sso_db \<Rightarrow> sso_cmd \<Rightarrow> bool" where
  "reads_fresh db cmd = (case cmd of CmdRemoveDomain flt db0 org i \<Rightarrow> db0 = db | CmdReleaseDomain flt org raw \<Rightarrow> False | _ \<Rightarrow> True)"

lemma step_keeps: "sso_ok db \<Longrightarrow> reads_fresh db cmd \<Longrightarrow> keeps_required db (sso_step db cmd) d"
proof (cases cmd)
  case (CmdAddDomain flt draw org raw)
  then show ?thesis using add_domain_view keeps_view by simp metis
next
  case (CmdOperatorVerify flt now draw org raw)
  then show ?thesis using operator_view keeps_view by simp metis
qed (simp_all add: reads_fresh_def remove_keeps set_connection_keeps delete_connection_keeps
     keeps_view [where rows = "[]"] same_view update_view)

section \<open>Example tables\<close>

text \<open>
  Two organizations have verified \<open>acme.co\<close>; \<open>b\<close> requires single sign-on on it, \<open>a\<close> is about to
  bring a connection.
\<close>

definition demo_domain :: "string \<Rightarrow> string \<Rightarrow> bool \<Rightarrow> domain_row" where
  "demo_domain i org required = \<lparr>dr_id = i, dr_org = org, dr_domain = ''acme.co'', dr_token = ''t'', dr_verified = Some 5,
     dr_method = Some method_operator, dr_require = required, dr_seen = Some 6, dr_conn = None\<rparr>"

definition demo_sso :: sso_db where
  "demo_sso = \<lparr>sd_base = \<lparr>ot_customers = [], ot_members = [], ot_invitations = [], ot_tokens = []\<rparr>,
     sd_orgs = [\<lparr>os_id = ''a'', os_created = 1, os_auto_join = None, os_members_create = True\<rparr>, \<lparr>os_id = ''b'', os_created = 2, os_auto_join = None, os_members_create = True\<rparr>],
     sd_domains = [demo_domain ''1'' ''a'' False, demo_domain ''2'' ''b'' True], sd_conns = [], sd_identities = []\<rparr>"

definition demo_service :: sso_service where
  "demo_service = \<lparr>ss_cipher = Some \<lparr>sc_encrypt = (\<lambda>s. Some s), sc_decrypt = (\<lambda>s. Some s)\<rparr>,
     ss_parse = (\<lambda>raw. Some \<lparr>pu_scheme = ''https'', pu_host = ''idp'', pu_hostname = ''idp'', pu_user = False, pu_query = [], pu_fragment = []\<rparr>),
     ss_discover = (\<lambda>_. Discovered), ss_txt = (\<lambda>_. Inr [])\<rparr>"

definition demo_connect :: sso_cmd where
  "demo_connect = CmdSetConnection (\<lambda>_. False) demo_service ''c'' demo_sso ''a''
     \<lparr>ck_id = [], ck_label = ''l'', ck_issuer = ''https://idp'', ck_client = ''k'', ck_secret = ''s'', ck_domains = [''1'']\<rparr>"

lemma demo_name: "domain_ok ''acme.co''" "normalize_domain ''acme.co'' = Some ''acme.co''"
proof -
  show "domain_ok ''acme.co''" by (simp add: domain_ok_def valid_label_def lower_byte_def digit_byte_def)
  then show "normalize_domain ''acme.co'' = Some ''acme.co''" by (rule normalize_fixed)
qed

lemma demo_sso_ok: "sso_ok demo_sso"
  by (simp add: sso_ok_def demo_sso_def demo_domain_def row_ok_def is_verified_def claim_key_def one_connection_def demo_name)

definition demo_row :: connection_row where
  "demo_row = \<lparr>cn_id = ''c'', cn_org = ''a'', cn_label = ''l'', cn_issuer = ''https://idp'', cn_client = ''k'', cn_secret = ''s''\<rparr>"

lemma demo_connected: "sso_step demo_sso demo_connect
   = demo_sso\<lparr>sd_domains := [(demo_domain ''1'' ''a'' False)\<lparr>dr_conn := Some ''c''\<rparr>, demo_domain ''2'' ''b'' True], sd_conns := [demo_row]\<rparr>"
proof -
  have "validate_issuer (ss_parse demo_service) ''https://idp'' = Some ''https://idp''"
    by (simp add: validate_issuer_def demo_service_def Let_def trim_space_word)
  then show ?thesis
  by (simp add: demo_connect_def set_connection_def check_connection_def lock_connection_def seal_secret_def reset_issuer_def save_row_def
      detach_domains_def drop_domains_def clear_sso_seen_def attach_domains_def one_connection_def find_connection_def find_org_def
      demo_sso_def demo_domain_def demo_service_def demo_row_def is_google_issuer_def google_issuer_def trim_suffix_def needs_secret_def
      no_connection_def max_connections_per_org_def update_domains_def is_verified_def Let_def method_operator_def)
qed

section \<open>Properties\<close>

text \<open>
  Every domain the code stores is a fixed point of its normalization: normalizing it again
  gives it back, and it is the domain of every address at it, whatever stands before the at sign.
\<close>

theorem normalized_domain_is_stable:
  assumes "normalize_domain raw = Some d"
  shows "normalize_domain d = Some d \<and> domain_of (user @ CHR ''@'' # d) = d"
proof -
  have ok: "domain_ok d" using assms by (rule normalize_ok)
  then have "CHR ''@'' \<notin> set d" using domain_bytes [OF ok, of "CHR ''@''"] by (auto simp: lower_byte_def digit_byte_def)
  then have "after_last (CHR ''@'') (user @ CHR ''@'' # d) = Some d" by (simp add: after_last_def split_on_append)
  with normalize_fixed [OF ok] show ?thesis by (simp add: domain_of_def)
qed

lemma normalized_domain_is_stable_witness:
  "normalize_domain ''Acme.CO.'' = Some ''acme.co'' \<and> domain_of (''jo@home'' @ CHR ''@'' # ''acme.co'') = ''acme.co''"
proof -
  have "normalize_domain ''Acme.CO.'' = Some ''acme.co''"
  proof -
    have plain: "ascii ''Acme.CO.''" by (simp add: ascii_def)
    have "trim_space ''Acme.CO.'' = ''Acme.CO.''" by (rule trim_space_word) simp_all
    moreover have "to_lower (\<lambda>r. r) ''Acme.CO.'' = ''acme.co.''" by (simp add: to_lower_ascii [OF plain] char_of_def bit_0)
    ultimately show ?thesis using runes_ascii_iff [OF plain] demo_name(1)
      by (simp add: normalize_domain_def Let_def trim_suffix_def domain_ok_def)
  qed
  with normalized_domain_is_stable [OF this, of "''jo@home''"] show ?thesis by blast
qed

text \<open>
  C20. However commands on claims and connections interleave, and whatever tables each of them
  read before its transaction, the tables keep their constraints: single sign-on is required and
  a connection attached on verified claims only, a connection signs in claims of its own
  organization, no domain has two connections, no organization two claims of one domain, and
  every claimed domain is in normal form.
\<close>

theorem domain_tables_stay_valid:
  assumes "sso_ok db"
  shows "sso_ok (run_events sso_step db cmds)"
  using assms by (rule sso.run_inv)

lemma domain_tables_stay_valid_witness:
  "sso_ok (run_events sso_step demo_sso [demo_connect, CmdRemoveDomain (\<lambda>_. False) demo_sso ''a'' ''1''])"
  by (rule domain_tables_stay_valid [OF demo_sso_ok])

text \<open>
  A command that takes the last connection of a domain away leaves single sign-on required on
  it by nobody, whichever organization required it, so no member is locked out of it: for every
  command after any run, except the operator's release, provided a removal read its row as the
  transaction finds it.
\<close>

theorem required_domain_keeps_connection:
  assumes "sso_ok db" "reads_fresh (run_events sso_step db cmds) cmd"
    and "has_connection (run_events sso_step db cmds) d" "\<not> has_connection (run_events sso_step db (cmds @ [cmd])) d"
  shows "\<not> sso_required (run_events sso_step db (cmds @ [cmd])) d"
  using step_keeps [OF sso.run_inv [OF assms(1), of cmds] assms(2), of d] assms(3,4) by (simp add: keeps_required_def)

lemma required_domain_keeps_connection_witness:
  "\<not> sso_required (run_events sso_step demo_sso ([demo_connect, CmdUnenforce (\<lambda>_. False) ''acme.co''] @
       [CmdDeleteConnection (\<lambda>_. False) demo_service ''a'' ''c''])) ''acme.co''"
proof (rule required_domain_keeps_connection [OF demo_sso_ok])
  let ?start = "demo_sso\<lparr>sd_domains := [(demo_domain ''1'' ''a'' False)\<lparr>dr_conn := Some ''c''\<rparr>, demo_domain ''2'' ''b'' False], sd_conns := [demo_row]\<rparr>"
  have run: "run_events sso_step demo_sso [demo_connect, CmdUnenforce (\<lambda>_. False) ''acme.co''] = ?start"
    by (simp add: demo_connected unenforce_domain_def demo_name update_domains_def demo_domain_def Let_def)
  show "reads_fresh (run_events sso_step demo_sso [demo_connect, CmdUnenforce (\<lambda>_. False) ''acme.co''])
      (CmdDeleteConnection (\<lambda>_. False) demo_service ''a'' ''c'')" by (simp add: reads_fresh_def)
  show "has_connection (run_events sso_step demo_sso [demo_connect, CmdUnenforce (\<lambda>_. False) ''acme.co'']) ''acme.co''"
    unfolding run by (simp add: has_connection_def demo_domain_def)
  show "\<not> has_connection (run_events sso_step demo_sso ([demo_connect, CmdUnenforce (\<lambda>_. False) ''acme.co''] @
       [CmdDeleteConnection (\<lambda>_. False) demo_service ''a'' ''c''])) ''acme.co''"
    unfolding run_events_append run
    by (simp add: delete_connection_def demo_service_def get_connection_def find_connection_def demo_row_def demo_domain_def
        connection_domains_def drop_domains_def clear_sso_seen_def clear_seen_def delete_connection_row_def delete_identities_def
        update_domains_def sso_required_def has_connection_def is_verified_def)
qed

text \<open>
  The proviso is needed: a removal that read its claim before a concurrent save attached the
  connection skips the check, and the other organization's requirement is left without one.
\<close>

theorem stale_removal_strands_requirement:
  "has_connection (run_events sso_step demo_sso [demo_connect]) ''acme.co''
   \<and> \<not> has_connection (run_events sso_step demo_sso [demo_connect, CmdRemoveDomain (\<lambda>_. False) demo_sso ''a'' ''1'']) ''acme.co''
   \<and> sso_required (run_events sso_step demo_sso [demo_connect, CmdRemoveDomain (\<lambda>_. False) demo_sso ''a'' ''1'']) ''acme.co''"
proof -
  have "get_domain (\<lambda>_. False) demo_sso ''a'' ''1'' = Inr (demo_domain ''1'' ''a'' False)"
    by (simp add: get_domain_def domain_by_id_def demo_sso_def demo_domain_def)
  then show ?thesis
    by (simp add: demo_connected remove_domain_def delete_domain_def Let_def demo_domain_def has_connection_def sso_required_def is_verified_def)
qed

end
