(* ===== verification/Sign_Up.thy ===== *)
theory Sign_Up
  imports Sso_Connections Permission "HOL-Library.Product_Lexorder"
begin

text \<open>
  What every sign-in path shares: the check of a required single sign-on, auto-join by a proven
  domain, who may create an organization, creating one with its first project, and
  \<open>FinishSignup\<close> of \<open>internal/core/auth/provision.go\<close>, which puts them together. All of it runs
  inside the caller's transaction: an error returns no tables, and the caller keeps the old ones.
\<close>

section \<open>State\<close>

record refresh_row =
  rf_id :: string
  rf_customer :: string
  rf_family :: string
  rf_hash :: string
  rf_expires :: time
  rf_consumed :: "time option"
  rf_revoked :: "time option"
  rf_proven :: "string option"

record first_project =
  fp_id :: string
  fp_org :: string
  fp_name :: string
  fp_zone :: string
  fp_created :: time

record project_key =
  pk_id :: string
  pk_project :: string
  pk_kind :: string
  pk_token :: string

record auth_db =
  ad_sso :: sso_db
  ad_refresh :: "refresh_row list"
  ad_projects :: "first_project list"
  ad_keys :: "project_key list"

text \<open>
  The deployment: the collation's lowercase and Unicode's simple folding beyond ASCII, SHA-256 in
  hexadecimal, bcrypt's comparison and the zones of the time zone database.
\<close>

datatype bcrypt_answer = PasswordMatches | PasswordMismatch | PasswordFails

record auth_env =
  ae_lower :: "nat \<Rightarrow> nat"
  ae_fold :: "nat \<Rightarrow> nat"
  ae_hash :: "string \<Rightarrow> string"
  ae_bcrypt :: "string \<Rightarrow> string \<Rightarrow> bcrypt_answer"
  ae_zone :: "string \<Rightarrow> bool"

datatype auth_error =
    InvalidCredentials | InvalidToken | InviteWrongEmail | SignInNeedsSSO string bool | DemoUnavailable
  | OrgCreationRestricted | OAuthProviderDisabled | InvalidCredential | UnverifiedEmail | NonASCIIEmail
  | EmailNotOnConnection | IdentityResolutionFailed | ProviderUnavailable | InviteFailed org_error | AuthDb

datatype auth_call =
    AcBegin | AcOrg org_call | AcRequired | AcEmail | AcAutoJoin | AcRestricted | AcCreateOrg | AcCreateMember | AcCreateProject
  | AcMintKey | AcCreateKey | AcSeen | AcVerified | AcCustomer | AcCreateCustomer | AcToken | AcTokenLookup | AcConsume
  | AcInvalidate | AcInsertToken | AcSign | AcCreateRefresh | AcRefreshLookup | AcRevoke | AcIdentity | AcCreateIdentity | AcUnchanged
  | AcOrgs | AcProjects | AcCommit

section \<open>Time zones\<close>

definition is_utc :: "string \<Rightarrow> bool" where
  "is_utc name = (name = [] \<or> name = ''UTC'')"

definition max_zone_name :: nat where "max_zone_name = 64"

definition zone_byte :: "char \<Rightarrow> bool" where
  "zone_byte c = (lower_byte c \<or> digit_byte c \<or> (65 \<le> (of_char c :: nat) \<and> of_char c \<le> (90 :: nat)) \<or> c \<in> {CHR ''_'', CHR ''+'', CHR ''/'', CHR ''-''})"

definition valid_zone_chars :: "string \<Rightarrow> bool" where
  "valid_zone_chars name = (length name \<le> max_zone_name \<and> name \<noteq> [] \<and> list_all zone_byte name)"

definition zone_loads :: "(string \<Rightarrow> bool) \<Rightarrow> string \<Rightarrow> bool" where
  "zone_loads known name = (is_utc name \<or> (valid_zone_chars name \<and> known name))"

definition coerce_zone :: "(string \<Rightarrow> bool) \<Rightarrow> string \<Rightarrow> string" where
  "coerce_zone known name = (if \<not> zone_loads known name then [] else if is_utc name then [] else name)"

section \<open>Tables in tables\<close>

definition base_of :: "auth_db \<Rightarrow> org_tables" where
  "base_of db = sd_base (ad_sso db)"

definition with_base :: "org_tables \<Rightarrow> auth_db \<Rightarrow> auth_db" where
  "with_base b db = db\<lparr>ad_sso := (ad_sso db)\<lparr>sd_base := b\<rparr>\<rparr>"

lemma with_base_simps [simp]:
  "base_of (with_base b db) = b" "sd_domains (ad_sso (with_base b db)) = sd_domains (ad_sso db)"
  "sd_orgs (ad_sso (with_base b db)) = sd_orgs (ad_sso db)" "sd_conns (ad_sso (with_base b db)) = sd_conns (ad_sso db)"
  "sd_identities (ad_sso (with_base b db)) = sd_identities (ad_sso db)" "ad_refresh (with_base b db) = ad_refresh db"
  by (simp_all add: base_of_def with_base_def)

text \<open>\<open>GetCustomerEmailByID\<close>; no row is an error like any other.\<close>

definition email_of :: "(auth_call \<Rightarrow> bool) \<Rightarrow> auth_db \<Rightarrow> string \<Rightarrow> (auth_error, string) result" where
  "email_of flt db c =
     (if flt AcEmail then Inl AuthDb
      else case customer_email (base_of db) c of None \<Rightarrow> Inl AuthDb | Some e \<Rightarrow> Inr e)"

section \<open>Domain rules\<close>

definition check_sign_in :: "(auth_call \<Rightarrow> bool) \<Rightarrow> auth_db \<Rightarrow> string \<Rightarrow> string \<Rightarrow> auth_error option" where
  "check_sign_in flt db email proven =
     (let domain = domain_of email in
      if domain = [] \<or> domain = proven then None
      else if flt AcRequired then Some AuthDb
      else if sso_required (ad_sso db) domain then Some (SignInNeedsSSO domain False) else None)"

text \<open>The organizations that take the domain in, with their role, and who was invited there instead.\<close>

definition live_invite :: "(nat \<Rightarrow> nat) \<Rightarrow> time \<Rightarrow> org_tables \<Rightarrow> string \<Rightarrow> string \<Rightarrow> bool" where
  "live_invite uni now b org email =
     list_ex (\<lambda>v. iv_org v = org \<and> sql_lower uni (iv_email v) = sql_lower uni email \<and> iv_status v = status_pending
        \<and> now < iv_expires v) (ot_invitations b)"

definition auto_join_role :: "auth_db \<Rightarrow> string \<Rightarrow> string option" where
  "auto_join_role db org = (case find_org (ad_sso db) org of None \<Rightarrow> None | Some o' \<Rightarrow> os_auto_join o')"

definition join_candidates :: "(nat \<Rightarrow> nat) \<Rightarrow> time \<Rightarrow> auth_db \<Rightarrow> string \<Rightarrow> string \<Rightarrow> (string \<times> string) list" where
  "join_candidates uni now db email domain =
     List.map_filter (\<lambda>r. if dr_domain r = domain \<and> is_verified r \<and> \<not> live_invite uni now (base_of db) (dr_org r) email
                          then map_option (Pair (dr_org r)) (auto_join_role db (dr_org r)) else None) (sd_domains (ad_sso db))"

fun join_all :: "string \<Rightarrow> (string \<times> string) list \<Rightarrow> member_row list \<Rightarrow> member_row list \<times> string list" where
  "join_all c [] rows = (rows, [])"
| "join_all c ((org, r) # os) rows =
     (case insert_member_if_absent rows org c r of
        (rows1, n) \<Rightarrow> (case join_all c os rows1 of (rows2, joined) \<Rightarrow> (rows2, (if n = 1 then org # joined else joined))))"

definition auto_join :: "(auth_call \<Rightarrow> bool) \<Rightarrow> auth_env \<Rightarrow> time \<Rightarrow> string \<Rightarrow> string \<Rightarrow> string \<Rightarrow> auth_db
    \<Rightarrow> (auth_error, auth_db \<times> string list) result" where
  "auto_join flt env now c email proven db =
     (if proven = [] \<or> domain_of email \<noteq> proven then Inr (db, [])
      else if flt AcAutoJoin then Inl AuthDb
      else (case join_all c (join_candidates (ae_lower env) now db email proven) (ot_members (base_of db)) of
              (rows, joined) \<Rightarrow> Inr (with_base ((base_of db)\<lparr>ot_members := rows\<rparr>) db, joined)))"

definition mark_seen :: "time \<Rightarrow> string \<Rightarrow> domain_row \<Rightarrow> domain_row" where
  "mark_seen now domain r =
     (if dr_domain r = domain \<and> is_verified r \<and> dr_seen r = None then r\<lparr>dr_seen := Some now\<rparr> else r)"

definition mark_sso_seen :: "(auth_call \<Rightarrow> bool) \<Rightarrow> time \<Rightarrow> string \<Rightarrow> auth_db \<Rightarrow> (auth_error, auth_db) result" where
  "mark_sso_seen flt now proven db =
     (if proven = [] then Inr db
      else if flt AcSeen then Inl AuthDb
      else Inr (db\<lparr>ad_sso := update_domains (mark_seen now proven) (ad_sso db)\<rparr>))"

definition org_creation_restricted :: "auth_db \<Rightarrow> string \<Rightarrow> string \<Rightarrow> bool" where
  "org_creation_restricted db c domain =
     (let claims = filter (\<lambda>r. dr_domain r = domain \<and> is_verified r) (sd_domains (ad_sso db))
      in list_ex (\<lambda>r. case find_org (ad_sso db) (dr_org r) of None \<Rightarrow> False | Some o' \<Rightarrow> \<not> os_members_create o') claims
         \<and> \<not> list_ex (\<lambda>r. list_ex (\<lambda>m. mb_org m = dr_org r \<and> mb_customer m = c \<and> mb_role m = ''ORG_ROLE_ADMIN'') (ot_members (base_of db))) claims)"

definition org_creation_allowed :: "(auth_call \<Rightarrow> bool) \<Rightarrow> auth_db \<Rightarrow> string \<Rightarrow> string \<Rightarrow> (auth_error, bool) result" where
  "org_creation_allowed flt db c email =
     (let domain = domain_of email in
      if domain = [] then Inr True
      else if flt AcRestricted then Inl AuthDb
      else Inr (\<not> org_creation_restricted db c domain))"

section \<open>A new organization\<close>

text \<open>The ids drawn and the minted key: its prefix and random part, stored as they are.\<close>

record org_draws =
  od_org :: string
  od_project :: string
  od_key_id :: string
  od_key :: string

definition create_project_in_tx :: "(auth_call \<Rightarrow> bool) \<Rightarrow> auth_env \<Rightarrow> time \<Rightarrow> org_draws \<Rightarrow> string \<Rightarrow> string \<Rightarrow> string \<Rightarrow> auth_db
    \<Rightarrow> (auth_error, auth_db) result" where
  "create_project_in_tx flt env now dw org name zone db =
     (if flt AcCreateProject \<or> list_ex (\<lambda>p. fp_id p = od_project dw \<or> (fp_org p = org \<and> fp_name p = name)) (ad_projects db) then Inl AuthDb
      else if flt AcMintKey then Inl AuthDb
      else if flt AcCreateKey \<or> list_ex (\<lambda>k. pk_id k = od_key_id dw \<or> pk_token k = od_key dw) (ad_keys db) then Inl AuthDb
      else Inr (db\<lparr>ad_projects := ad_projects db @ [\<lparr>fp_id = od_project dw, fp_org = org, fp_name = name,
                     fp_zone = coerce_zone (ae_zone env) zone, fp_created = now\<rparr>],
                   ad_keys := ad_keys db @ [\<lparr>pk_id = od_key_id dw, pk_project = od_project dw, pk_kind = ''public'', pk_token = od_key dw\<rparr>]\<rparr>))"

definition create_org_in_tx :: "(auth_call \<Rightarrow> bool) \<Rightarrow> auth_env \<Rightarrow> time \<Rightarrow> org_draws \<Rightarrow> string \<Rightarrow> string \<Rightarrow> auth_db
    \<Rightarrow> (auth_error, auth_db) result" where
  "create_org_in_tx flt env now dw c zone db =
     (let org = od_org dw in
      if flt AcCreateOrg \<or> find_org (ad_sso db) org \<noteq> None then Inl AuthDb
      else if flt AcCreateMember \<or> find_member (ot_members (base_of db)) org c \<noteq> None \<or> customer_email (base_of db) c = None then Inl AuthDb
      else let db1 = with_base ((base_of db)\<lparr>ot_members := ot_members (base_of db)
                       @ [\<lparr>mb_org = org, mb_customer = c, mb_role = role_string RoleAdmin\<rparr>]\<rparr>) db;
               db2 = db1\<lparr>ad_sso := (ad_sso db1)\<lparr>sd_orgs := sd_orgs (ad_sso db1)
                       @ [\<lparr>os_id = org, os_created = now, os_auto_join = None, os_members_create = True\<rparr>]\<rparr>\<rparr>
           in create_project_in_tx flt env now dw org ''default'' zone db2)"

definition create_org_with_defaults :: "(auth_call \<Rightarrow> bool) \<Rightarrow> auth_env \<Rightarrow> time \<Rightarrow> org_draws \<Rightarrow> string \<Rightarrow> auth_db
    \<Rightarrow> auth_db \<times> (auth_error, string) result" where
  "create_org_with_defaults flt env now dw c db =
     (if flt AcBegin then (db, Inl AuthDb)
      else if flt AcEmail then (db, Inl AuthDb)
      else let email = (case customer_email (base_of db) c of None \<Rightarrow> [] | Some e \<Rightarrow> e) in
      case org_creation_allowed flt db c email of
        Inl e \<Rightarrow> (db, Inl e)
      | Inr allowed \<Rightarrow>
          if \<not> allowed then (db, Inl OrgCreationRestricted)
          else case create_org_in_tx flt env now dw c [] db of
            Inl e \<Rightarrow> (db, Inl e)
          | Inr db1 \<Rightarrow> if flt AcCommit then (db, Inl AuthDb) else (db1, Inr (od_org dw)))"

section \<open>Finishing a sign-in\<close>

record signup =
  su_customer :: string
  su_created :: bool
  su_invitation :: string
  su_proven :: string
  su_zone :: string

text \<open>The invite: the tables after it and the organization joined, if any.\<close>

definition accept_invite :: "(auth_call \<Rightarrow> bool) \<Rightarrow> time \<Rightarrow> signup \<Rightarrow> auth_db \<Rightarrow> (auth_error, auth_db \<times> string list) result" where
  "accept_invite flt now su db =
     (if su_invitation su = [] then Inr (db, [])
      else case apply_invite_acceptance (\<lambda>c. flt (AcOrg c)) now (su_invitation su) (su_customer su) (base_of db) of
        (b, Inr (org, added)) \<Rightarrow> Inr (with_base b db, if added then [org] else [])
      | (b, Inl e) \<Rightarrow> Inl (if e \<in> {ErrInviteNotFound, ErrInviteNotPending, ErrInviteExpired} then InvalidToken else InviteFailed e))"

definition finish_signup :: "(auth_call \<Rightarrow> bool) \<Rightarrow> auth_env \<Rightarrow> time \<Rightarrow> org_draws \<Rightarrow> signup \<Rightarrow> auth_db
    \<Rightarrow> (auth_error, auth_db \<times> string list) result" where
  "finish_signup flt env now dw su db =
     (case accept_invite flt now su db of
        Inl e \<Rightarrow> Inl e
      | Inr (db1, joined) \<Rightarrow>
      if su_proven su = [] \<and> \<not> su_created su then Inr (db1, joined)
      else case email_of flt db1 (su_customer su) of
        Inl e \<Rightarrow> Inl e
      | Inr email \<Rightarrow>
      (case auto_join flt env now (su_customer su) email (su_proven su) db1 of
        Inl e \<Rightarrow> Inl e
      | Inr (db2, auto) \<Rightarrow>
      if \<not> su_created su \<or> joined @ auto \<noteq> [] then Inr (db2, joined @ auto)
      else (case org_creation_allowed flt db2 (su_customer su) email of
        Inl e \<Rightarrow> Inl e
      | Inr allowed \<Rightarrow>
      if \<not> allowed then Inr (db2, [])
      else (case create_org_in_tx flt env now dw (su_customer su) (su_zone su) db2 of
        Inl e \<Rightarrow> Inl e
      | Inr db3 \<Rightarrow> Inr (db3, [])))))"

definition verify_customer :: "time \<Rightarrow> string \<Rightarrow> customer \<Rightarrow> customer" where
  "verify_customer now c u = (if cu_id u = c then u\<lparr>cu_verified := Some now\<rparr> else u)"

definition finalize_verified_customer :: "(auth_call \<Rightarrow> bool) \<Rightarrow> time \<Rightarrow> string \<Rightarrow> auth_db \<Rightarrow> (auth_error, auth_db) result" where
  "finalize_verified_customer flt now c db =
     (if flt AcVerified \<or> customer_email (base_of db) c = None then Inl AuthDb
      else Inr (with_base ((base_of db)\<lparr>ot_customers := map (verify_customer now c) (ot_customers (base_of db))\<rparr>) db))"

end
