(* ===== verification/Sessions.thy ===== *)
theory Sessions
  imports Sign_Up
begin

text \<open>
  Sessions, \<open>internal/core/auth/service.go\<close>: the access token a sign-in hands out, and the
  refresh tokens of \<open>refresh_tokens\<close>, each exchanged once for the next of its family. A token
  presented a second time revokes the family. The secret of a token is kept by its client; the
  table has its hash.
\<close>

section \<open>Tokens\<close>

definition access_token_ttl :: duration where "access_token_ttl = 24 * hour"
definition refresh_token_ttl :: duration where "refresh_token_ttl = 90 * 24 * hour"
definition session_audience :: string where "session_audience = ''pug/dashboard''"
definition session_issuer :: string where "session_issuer = ''pug/auth''"

record user_claims =
  uc_audience :: string
  uc_expires :: time
  uc_id :: string
  uc_issued :: time
  uc_issuer :: string
  uc_subject :: string

record session =
  se_access :: user_claims
  se_refresh :: string
  se_joined :: "string list"

text \<open>What one session draws: the ids of the access token, the row and the family, and the secret.\<close>

record session_draws =
  sw_jti :: string
  sw_row :: string
  sw_family :: string
  sw_raw :: string

definition generate_jwt :: "(auth_call \<Rightarrow> bool) \<Rightarrow> time \<Rightarrow> string \<Rightarrow> string \<Rightarrow> (auth_error, user_claims) result" where
  "generate_jwt flt now jti c =
     (if flt AcSign then Inl AuthDb
      else Inr \<lparr>uc_audience = session_audience, uc_expires = now + access_token_ttl, uc_id = jti, uc_issued = now,
                uc_issuer = session_issuer, uc_subject = c\<rparr>)"

section \<open>Statements\<close>

definition find_refresh :: "refresh_row list \<Rightarrow> string \<Rightarrow> refresh_row option" where
  "find_refresh rows h = List.find (\<lambda>r. rf_hash r = h) rows"

definition insert_refresh :: "refresh_row \<Rightarrow> refresh_row list \<Rightarrow> refresh_row list option" where
  "insert_refresh row rows =
     (if list_ex (\<lambda>r. rf_id r = rf_id row \<or> rf_hash r = rf_hash row) rows then None else Some (rows @ [row]))"

definition unused :: "refresh_row \<Rightarrow> bool" where
  "unused r = (rf_consumed r = None \<and> rf_revoked r = None)"

text \<open>The rows and whether one was consumed.\<close>

definition consume_refresh :: "time \<Rightarrow> string \<Rightarrow> refresh_row list \<Rightarrow> refresh_row list \<times> bool" where
  "consume_refresh now i rows =
     (map (\<lambda>r. if rf_id r = i \<and> unused r then r\<lparr>rf_consumed := Some now\<rparr> else r) rows, list_ex (\<lambda>r. rf_id r = i \<and> unused r) rows)"

definition revoke_row :: "time \<Rightarrow> string \<Rightarrow> refresh_row \<Rightarrow> refresh_row" where
  "revoke_row now f r = (if rf_family r = f \<and> rf_revoked r = None then r\<lparr>rf_revoked := Some now\<rparr> else r)"

definition revoke_family :: "time \<Rightarrow> string \<Rightarrow> refresh_row list \<Rightarrow> refresh_row list" where
  "revoke_family now f rows = map (revoke_row now f) rows"

definition revoke_family_by_hash :: "time \<Rightarrow> string \<Rightarrow> refresh_row list \<Rightarrow> refresh_row list" where
  "revoke_family_by_hash now h rows =
     (case find_refresh rows h of None \<Rightarrow> rows | Some r \<Rightarrow> revoke_family now (rf_family r) rows)"

definition delete_expired_refresh :: "time \<Rightarrow> auth_db \<Rightarrow> auth_db" where
  "delete_expired_refresh now db = db\<lparr>ad_refresh := filter (\<lambda>r. now < rf_expires r) (ad_refresh db)\<rparr>"

section \<open>Issuing\<close>

text \<open>The insert fails on an id or hash that is taken and on a customer that is gone.\<close>

definition create_refresh_token :: "(auth_call \<Rightarrow> bool) \<Rightarrow> auth_env \<Rightarrow> time \<Rightarrow> session_draws \<Rightarrow> string \<Rightarrow> string \<Rightarrow> string \<Rightarrow> auth_db
    \<Rightarrow> (auth_error, auth_db) result" where
  "create_refresh_token flt env now dw c family proven db =
     (if flt AcToken \<or> flt AcCreateRefresh \<or> customer_email (base_of db) c = None then Inl AuthDb
      else case insert_refresh \<lparr>rf_id = sw_row dw, rf_customer = c, rf_family = family, rf_hash = ae_hash env (sw_raw dw),
                 rf_expires = now + refresh_token_ttl, rf_consumed = None, rf_revoked = None,
                 rf_proven = (if proven = [] then None else Some proven)\<rparr> (ad_refresh db) of
             None \<Rightarrow> Inl AuthDb
           | Some rows \<Rightarrow> Inr (db\<lparr>ad_refresh := rows\<rparr>))"

definition issue_session :: "(auth_call \<Rightarrow> bool) \<Rightarrow> auth_env \<Rightarrow> time \<Rightarrow> session_draws \<Rightarrow> string \<Rightarrow> string \<Rightarrow> auth_db
    \<Rightarrow> (auth_error, auth_db \<times> session) result" where
  "issue_session flt env now dw c proven db =
     (case generate_jwt flt now (sw_jti dw) c of
        Inl e \<Rightarrow> Inl e
      | Inr jwt \<Rightarrow>
      (case create_refresh_token flt env now dw c (sw_family dw) proven db of
        Inl e \<Rightarrow> Inl e
      | Inr db1 \<Rightarrow> Inr (db1, \<lparr>se_access = jwt, se_refresh = sw_raw dw, se_joined = []\<rparr>)))"

section \<open>Refreshing\<close>

definition check_refresh :: "(auth_call \<Rightarrow> bool) \<Rightarrow> auth_env \<Rightarrow> auth_db \<Rightarrow> string \<Rightarrow> string \<Rightarrow> auth_error option" where
  "check_refresh flt env db c proven =
     (case email_of flt db c of
        Inl e \<Rightarrow> Some e
      | Inr email \<Rightarrow>
          if equal_fold (ae_fold env) email demo_viewer_email then None else check_sign_in flt db email proven)"

definition proven_of :: "refresh_row \<Rightarrow> string" where
  "proven_of r = (case rf_proven r of None \<Rightarrow> [] | Some d \<Rightarrow> d)"

text \<open>
  The transaction: the tables, and the session with the row it was exchanged for. The secret
  drawn is for the next token of the family.
\<close>

definition refresh_tx :: "(auth_call \<Rightarrow> bool) \<Rightarrow> auth_env \<Rightarrow> time \<Rightarrow> session_draws \<Rightarrow> string \<Rightarrow> auth_db
    \<Rightarrow> auth_db \<times> (auth_error, session \<times> refresh_row) result" where
  "refresh_tx flt env now dw raw db =
     (if flt AcBegin \<or> flt AcRefreshLookup then (db, Inl AuthDb)
      else case find_refresh (ad_refresh db) (ae_hash env raw) of
        None \<Rightarrow> (db, Inl InvalidToken)
      | Some row \<Rightarrow>
      let revoked = db\<lparr>ad_refresh := revoke_family now (rf_family row) (ad_refresh db)\<rparr> in
      if rf_consumed row \<noteq> None then
        (if flt AcRevoke \<or> flt AcCommit then (db, Inl AuthDb) else (revoked, Inl InvalidToken))
      else if rf_revoked row \<noteq> None \<or> rf_expires row \<le> now then (db, Inl InvalidToken)
      else case check_refresh flt env db (rf_customer row) (proven_of row) of
        Some e \<Rightarrow>
          (case e of SignInNeedsSSO _ _ \<Rightarrow> if flt AcRevoke \<or> flt AcCommit then (db, Inl e) else (revoked, Inl e) | _ \<Rightarrow> (db, Inl e))
      | None \<Rightarrow>
      (case generate_jwt flt now (sw_jti dw) (rf_customer row) of
        Inl e \<Rightarrow> (db, Inl e)
      | Inr jwt \<Rightarrow>
      if flt AcConsume then (db, Inl AuthDb)
      else (case consume_refresh now (rf_id row) (ad_refresh db) of (rows, consumed) \<Rightarrow>
      if \<not> consumed then (db, Inl InvalidToken)
      else (case create_refresh_token flt env now dw (rf_customer row) (rf_family row) (proven_of row) (db\<lparr>ad_refresh := rows\<rparr>) of
        Inl e \<Rightarrow> (db, Inl e)
      | Inr db1 \<Rightarrow>
      if flt AcCommit then (db, Inl AuthDb)
      else (db1, Inr (\<lparr>se_access = jwt, se_refresh = sw_raw dw, se_joined = []\<rparr>, row))))))"

text \<open>The statements after the commit, each its own transaction; a failure is logged only.\<close>

definition auto_join_on_refresh :: "(auth_call \<Rightarrow> bool) \<Rightarrow> auth_env \<Rightarrow> time \<Rightarrow> org_draws \<Rightarrow> string \<Rightarrow> string \<Rightarrow> auth_db \<Rightarrow> auth_db" where
  "auto_join_on_refresh flt env now dw c proven db =
     (case finish_signup flt env now dw \<lparr>su_customer = c, su_created = False, su_invitation = [], su_proven = proven, su_zone = []\<rparr> db of
        Inl _ \<Rightarrow> db
      | Inr (db1, _) \<Rightarrow> db1)"

text \<open>\<open>between\<close> is what other transactions do to the tables before the auto-join.\<close>

definition refresh_session :: "(auth_call \<Rightarrow> bool) \<Rightarrow> auth_env \<Rightarrow> time \<Rightarrow> session_draws \<Rightarrow> org_draws \<Rightarrow> (auth_db \<Rightarrow> auth_db) \<Rightarrow> string \<Rightarrow> auth_db
    \<Rightarrow> auth_db \<times> (auth_error, session) result" where
  "refresh_session flt env now dw odw between raw db =
     (case refresh_tx flt env now dw raw db of
        (db1, Inl e) \<Rightarrow> (db1, Inl e)
      | (db1, Inr (s, row)) \<Rightarrow>
          (if rf_proven row = None then db1
           else auto_join_on_refresh flt env now odw (rf_customer row) (proven_of row) (between db1), Inr s))"

definition revoke_session :: "(auth_call \<Rightarrow> bool) \<Rightarrow> auth_env \<Rightarrow> time \<Rightarrow> string \<Rightarrow> auth_db \<Rightarrow> auth_db \<times> auth_error option" where
  "revoke_session flt env now raw db =
     (if raw = [] then (db, None)
      else if flt AcRevoke then (db, Some AuthDb)
      else (db\<lparr>ad_refresh := revoke_family_by_hash now (ae_hash env raw) (ad_refresh db)\<rparr>, None))"

end
