(* ===== verification/Sign_In.thy ===== *)
theory Sign_In
  imports Sessions
begin

text \<open>
  The sign-ins without a provider, \<open>internal/core/auth/service.go\<close> and \<open>demo.go\<close>: password, magic
  link and the public demo. What the code reads from the read replica is an argument, \<open>dbr\<close>. A
  magic link is a single-use row of \<open>email_action_tokens\<close>, as is the link of an invitation; both
  are redeemed by \<open>CompleteMagicLink\<close>, and an invitation's also by an OIDC sign-in.
\<close>

section \<open>Accounts\<close>

definition customer_by_email :: "(nat \<Rightarrow> nat) \<Rightarrow> org_tables \<Rightarrow> string \<Rightarrow> customer option" where
  "customer_by_email uni b email = List.find (\<lambda>u. sql_lower uni (cu_email u) = sql_lower uni email) (ot_customers b)"

text \<open>\<open>None\<close> on a conflict with the primary key or the unique index on \<open>lower(email)\<close>.\<close>

definition create_customer :: "(nat \<Rightarrow> nat) \<Rightarrow> string \<Rightarrow> string \<Rightarrow> org_tables \<Rightarrow> org_tables option" where
  "create_customer uni i email b =
     (if list_ex (\<lambda>u. cu_id u = i) (ot_customers b) \<or> customer_by_email uni b email \<noteq> None then None
      else Some (b\<lparr>ot_customers := ot_customers b @ [\<lparr>cu_id = i, cu_email = email, cu_hash = [], cu_verified = None\<rparr>]\<rparr>))"

section \<open>Password\<close>

definition sign_in_with_email :: "(auth_call \<Rightarrow> bool) \<Rightarrow> auth_env \<Rightarrow> time \<Rightarrow> session_draws \<Rightarrow> string \<Rightarrow> string \<Rightarrow> auth_db \<Rightarrow> auth_db
    \<Rightarrow> auth_db \<times> (auth_error, session) result" where
  "sign_in_with_email flt env now dw email password dbr db =
     (if is_demo_account (ae_fold env) email then (db, Inl InvalidCredentials)
      else case check_sign_in flt db email [] of
        Some e \<Rightarrow> (db, Inl e)
      | None \<Rightarrow>
      if flt AcCustomer then (db, Inl AuthDb)
      else (case customer_by_email (ae_lower env) (base_of dbr) email of
        None \<Rightarrow> (db, Inl InvalidCredentials)
      | Some u \<Rightarrow>
      if cu_hash u = [] then (db, Inl InvalidCredentials)
      else (case ae_bcrypt env (cu_hash u) password of
        PasswordMismatch \<Rightarrow> (db, Inl InvalidCredentials)
      | PasswordFails \<Rightarrow> (db, Inl AuthDb)
      | PasswordMatches \<Rightarrow>
          (case issue_session flt env now dw (cu_id u) [] db of
             Inl e \<Rightarrow> (db, Inl e)
           | Inr (db1, s) \<Rightarrow> (db1, Inr s)))))"

section \<open>Action tokens\<close>

definition purpose_magic_link :: string where "purpose_magic_link = ''magic_link''"
definition magic_link_ttl :: duration where "magic_link_ttl = 15 * minute"

definition active_token :: "time \<Rightarrow> mail_token \<Rightarrow> bool" where
  "active_token now t = (mt_consumed t = None \<and> now < mt_expires t)"

definition valid_token :: "time \<Rightarrow> string \<Rightarrow> mail_token list \<Rightarrow> mail_token option" where
  "valid_token now h ts = List.find (\<lambda>t. mt_hash t = h \<and> active_token now t) ts"

definition consume_token :: "time \<Rightarrow> string \<Rightarrow> mail_token list \<Rightarrow> mail_token list \<times> bool" where
  "consume_token now i ts =
     (map (\<lambda>t. if mt_id t = i \<and> active_token now t then t\<lparr>mt_consumed := Some now\<rparr> else t) ts,
      list_ex (\<lambda>t. mt_id t = i \<and> active_token now t) ts)"

definition invalidate_by_customer :: "time \<Rightarrow> string \<Rightarrow> string \<Rightarrow> mail_token list \<Rightarrow> mail_token list" where
  "invalidate_by_customer now c purpose ts =
     map (\<lambda>t. if mt_customer t = Some c \<and> mt_purpose t = purpose \<and> active_token now t then t\<lparr>mt_consumed := Some now\<rparr> else t) ts"

definition invalidate_by_email :: "(nat \<Rightarrow> nat) \<Rightarrow> time \<Rightarrow> string \<Rightarrow> string \<Rightarrow> mail_token list \<Rightarrow> mail_token list" where
  "invalidate_by_email uni now email purpose ts =
     map (\<lambda>t. if sql_lower uni (mt_email t) = sql_lower uni email \<and> mt_purpose t = purpose \<and> active_token now t
              then t\<lparr>mt_consumed := Some now\<rparr> else t) ts"

definition delete_expired_tokens :: "time \<Rightarrow> auth_db \<Rightarrow> auth_db" where
  "delete_expired_tokens now db = with_base ((base_of db)\<lparr>ot_tokens := filter (\<lambda>t. now < mt_expires t) (ot_tokens (base_of db))\<rparr>) db"

text \<open>\<open>issueActionTokenAndPublish\<close>: the customer's id is empty when there is no account yet.\<close>

definition issue_action_token :: "(auth_call \<Rightarrow> bool) \<Rightarrow> auth_env \<Rightarrow> time \<Rightarrow> string \<Rightarrow> string \<Rightarrow> string \<Rightarrow> string \<Rightarrow> duration \<Rightarrow> string \<Rightarrow> auth_db
    \<Rightarrow> auth_db \<times> auth_error option" where
  "issue_action_token flt env now tid c email purpose ttl raw db =
     (if flt AcBegin then (db, Some AuthDb)
      else if flt AcInvalidate then (db, Some AuthDb)
      else let ts = ot_tokens (base_of db);
               ts1 = (if c = [] then ts else invalidate_by_customer now c purpose ts);
               ts2 = invalidate_by_email (ae_lower env) now email purpose ts1;
               t = \<lparr>mt_id = tid, mt_customer = (if c = [] then None else Some c), mt_email = email, mt_purpose = purpose,
                    mt_hash = ae_hash env raw, mt_invitation = None, mt_expires = now + ttl, mt_consumed = None, mt_created = now\<rparr>
           in if flt AcInsertToken \<or> list_ex (\<lambda>x. mt_id x = tid \<or> mt_hash x = mt_hash t) ts2 then (db, Some AuthDb)
              else if flt AcCommit then (db, Some AuthDb)
              else (with_base ((base_of db)\<lparr>ot_tokens := ts2 @ [t]\<rparr>) db, None))"

section \<open>Magic links\<close>

definition request_magic_link :: "(auth_call \<Rightarrow> bool) \<Rightarrow> auth_env \<Rightarrow> time \<Rightarrow> string \<Rightarrow> string \<Rightarrow> string \<Rightarrow> auth_db \<Rightarrow> auth_db
    \<Rightarrow> auth_db \<times> auth_error option" where
  "request_magic_link flt env now tid raw email dbr db =
     (case check_sign_in flt db email [] of
        Some e \<Rightarrow> (db, Some e)
      | None \<Rightarrow>
          if flt AcCustomer then (db, Some AuthDb)
          else if flt AcToken then (db, Some AuthDb)
          else (case customer_by_email (ae_lower env) (base_of dbr) email of
                  None \<Rightarrow> issue_action_token flt env now tid [] email purpose_magic_link magic_link_ttl raw db
                | Some u \<Rightarrow> issue_action_token flt env now tid (cu_id u) (cu_email u) purpose_magic_link magic_link_ttl raw db))"

text \<open>The account of the token's address: its id and whether it is new.\<close>

definition ensure_customer :: "(auth_call \<Rightarrow> bool) \<Rightarrow> auth_env \<Rightarrow> string \<Rightarrow> string \<Rightarrow> auth_db
    \<Rightarrow> (auth_error, auth_db \<times> string \<times> bool) result" where
  "ensure_customer flt env new_id email db =
     (if flt AcCustomer then Inl AuthDb
      else case customer_by_email (ae_lower env) (base_of db) email of
        Some u \<Rightarrow> Inr (db, cu_id u, False)
      | None \<Rightarrow>
          if flt AcCreateCustomer then Inl AuthDb
          else (case create_customer (ae_lower env) new_id email (base_of db) of
                  None \<Rightarrow> Inl AuthDb
                | Some b \<Rightarrow> Inr (with_base b db, new_id, True)))"

text \<open>The token a link redeems, and whether it is an invitation's.\<close>

definition redeemable :: "(auth_call \<Rightarrow> bool) \<Rightarrow> auth_env \<Rightarrow> time \<Rightarrow> string \<Rightarrow> auth_db \<Rightarrow> (auth_error, mail_token \<times> bool) result" where
  "redeemable flt env now raw db =
     (if flt AcTokenLookup then Inl AuthDb
      else case valid_token now (ae_hash env raw) (ot_tokens (base_of db)) of
        None \<Rightarrow> Inl InvalidToken
      | Some t \<Rightarrow>
          if mt_purpose t = purpose_magic_link then Inr (t, False)
          else if mt_purpose t = purpose_org_invite then Inr (t, True)
          else Inl InvalidToken)"

definition with_invite :: "bool \<Rightarrow> auth_error \<Rightarrow> auth_error" where
  "with_invite is_invite e = (case e of SignInNeedsSSO d _ \<Rightarrow> SignInNeedsSSO d is_invite | _ \<Rightarrow> e)"

definition invitation_of :: "mail_token \<Rightarrow> string" where
  "invitation_of t = (case mt_invitation t of None \<Rightarrow> [] | Some i \<Rightarrow> i)"

text \<open>What a completed sign-in draws.\<close>

record sign_in_draws =
  iw_customer :: string
  iw_org :: org_draws
  iw_session :: session_draws

definition complete_magic_link :: "(auth_call \<Rightarrow> bool) \<Rightarrow> auth_env \<Rightarrow> time \<Rightarrow> sign_in_draws \<Rightarrow> string \<Rightarrow> string \<Rightarrow> auth_db
    \<Rightarrow> auth_db \<times> (auth_error, session) result" where
  "complete_magic_link flt env now dw raw zone db =
     (if flt AcBegin then (db, Inl AuthDb)
      else case redeemable flt env now raw db of
        Inl e \<Rightarrow> (db, Inl e)
      | Inr (t, is_invite) \<Rightarrow>
      (case check_sign_in flt db (mt_email t) [] of
        Some e \<Rightarrow> (db, Inl (with_invite is_invite e))
      | None \<Rightarrow>
      (case ensure_customer flt env (iw_customer dw) (mt_email t) db of
        Inl e \<Rightarrow> (db, Inl e)
      | Inr (db1, c, created) \<Rightarrow>
      (case finish_signup flt env now (iw_org dw) \<lparr>su_customer = c, su_created = created,
              su_invitation = (if is_invite then invitation_of t else []), su_proven = [], su_zone = zone\<rparr> db1 of
        Inl e \<Rightarrow> (db, Inl e)
      | Inr (db2, joined) \<Rightarrow>
      if flt AcConsume then (db, Inl AuthDb)
      else (case consume_token now (mt_id t) (ot_tokens (base_of db2)) of (ts, consumed) \<Rightarrow>
      if \<not> consumed then (db, Inl InvalidToken)
      else (case finalize_verified_customer flt now c (with_base ((base_of db2)\<lparr>ot_tokens := ts\<rparr>) db2) of
        Inl e \<Rightarrow> (db, Inl e)
      | Inr db3 \<Rightarrow>
      (case issue_session flt env now (iw_session dw) c [] db3 of
        Inl e \<Rightarrow> (db, Inl e)
      | Inr (db4, s) \<Rightarrow>
      if flt AcCommit then (db, Inl AuthDb)
      else (db4, Inr (s\<lparr>se_joined := joined\<rparr>)))))))))"

section \<open>The demo\<close>

definition orgs_with_role :: "auth_db \<Rightarrow> string \<Rightarrow> (string \<times> string) list" where
  "orgs_with_role db c =
     List.map_filter (\<lambda>o'. map_option (\<lambda>m. (os_id o', mb_role m)) (find_member (ot_members (base_of db)) (os_id o') c))
       (sort_key (\<lambda>o'. (os_created o', os_id o')) (sd_orgs (ad_sso db)))"

definition projects_of_org :: "auth_db \<Rightarrow> string \<Rightarrow> first_project list" where
  "projects_of_org db org = filter (\<lambda>p. fp_org p = org) (sort_key (\<lambda>p. (fp_created p, fp_id p)) (ad_projects db))"

definition resolve_demo_project :: "(auth_call \<Rightarrow> bool) \<Rightarrow> auth_db \<Rightarrow> string \<Rightarrow> (auth_error, string) result" where
  "resolve_demo_project flt dbr c =
     (if flt AcOrgs then Inl AuthDb
      else case orgs_with_role dbr c of
        [] \<Rightarrow> Inl DemoUnavailable
      | (org, r) # _ \<Rightarrow>
          if parse_role r \<noteq> Some RoleViewer then Inl DemoUnavailable
          else if flt AcProjects then Inl AuthDb
          else (case projects_of_org dbr org of [] \<Rightarrow> Inl DemoUnavailable | p # _ \<Rightarrow> Inr (fp_id p)))"

definition demo_sign_in :: "(auth_call \<Rightarrow> bool) \<Rightarrow> auth_env \<Rightarrow> bool \<Rightarrow> time \<Rightarrow> session_draws \<Rightarrow> auth_db \<Rightarrow> auth_db
    \<Rightarrow> auth_db \<times> (auth_error, session \<times> string) result" where
  "demo_sign_in flt env enabled now dw dbr db =
     (if \<not> enabled then (db, Inl DemoUnavailable)
      else if flt AcCustomer then (db, Inl AuthDb)
      else case customer_by_email (ae_lower env) (base_of dbr) demo_viewer_email of
        None \<Rightarrow> (db, Inl DemoUnavailable)
      | Some u \<Rightarrow>
      (case resolve_demo_project flt dbr (cu_id u) of
        Inl e \<Rightarrow> (db, Inl e)
      | Inr p \<Rightarrow>
      (case issue_session flt env now dw (cu_id u) [] db of
        Inl e \<Rightarrow> (db, Inl e)
      | Inr (db1, s) \<Rightarrow> (db1, Inr (s, p)))))"

end
