(* ===== verification/Oidc.thy ===== *)
theory Oidc
  imports Complex_Main Sign_In
begin

text \<open>
  What a sign-in through a provider proves, \<open>internal/core/auth/oauth\<close>: from the ID token to the
  verified identity, with the rules on verified addresses and proven domains, and which providers
  a domain is offered. The exchange with the provider and the check of the token's signature are
  go-oidc's and oauth2's: their answers are arguments.
\<close>

section \<open>Providers\<close>

record provider_config =
  pc_id :: string
  pc_label :: string
  pc_issuer :: string
  pc_client :: string
  pc_secret :: string
  pc_domains :: "string list"

definition is_connection :: "string \<Rightarrow> bool" where
  "is_connection name = (take (length connection_prefix) name = connection_prefix)"

definition connection_config :: "connection \<Rightarrow> provider_config" where
  "connection_config co = \<lparr>pc_id = connection_provider (co_id co), pc_label = [], pc_issuer = co_issuer co, pc_client = co_client co,
     pc_secret = co_secret co, pc_domains = co_domains co\<rparr>"

definition provider_enabled :: "provider_config list \<Rightarrow> string \<Rightarrow> bool" where
  "provider_enabled cfg name = list_ex (\<lambda>p. pc_id p = name) cfg"

text \<open>The map of \<open>NewRegistry\<close>: of two providers with one id the later one is kept.\<close>

definition registry_get :: "provider_config list \<Rightarrow> string \<Rightarrow> provider_config option" where
  "registry_get cfg name = List.find (\<lambda>p. pc_id p = name) (rev cfg)"

definition listed_for :: "provider_config list \<Rightarrow> string \<Rightarrow> provider_config list" where
  "listed_for cfg domain = filter (\<lambda>p. domain \<in> set (pc_domains p)) cfg"

definition providers_for :: "provider_config list \<Rightarrow> string \<Rightarrow> provider_config list" where
  "providers_for cfg domain =
     (if listed_for cfg domain \<noteq> [] then listed_for cfg domain else filter (\<lambda>p. is_google_issuer (pc_issuer p)) cfg)"

section \<open>Identities\<close>

record claims =
  cl_subject :: string
  cl_email :: string
  cl_verified :: bool
  cl_name :: string
  cl_picture :: string
  cl_proven :: string

record identity =
  id_provider :: string
  id_subject :: string
  id_email :: string
  id_name :: string
  id_picture :: string
  id_proven :: string
  id_domains :: "string list"

definition max_display_name :: nat where "max_display_name = 150"
definition max_picture_uri :: nat where "max_picture_uri = 255"

definition truncate_runes :: "string \<Rightarrow> nat \<Rightarrow> string" where
  "truncate_runes s n = (if rune_count s \<le> n then s else concat (map encode_rune (take n (runes s))))"

definition new_verified_identity :: "string \<Rightarrow> claims \<Rightarrow> (auth_error, identity) result" where
  "new_verified_identity provider c =
     (if provider = [] then Inl IdentityResolutionFailed
      else if \<not> cl_verified c \<or> trim_space (cl_email c) = [] then Inl UnverifiedEmail
      else let subject = trim_space (cl_subject c) in
      if subject = [] then Inl IdentityResolutionFailed
      else Inr \<lparr>id_provider = provider, id_subject = subject, id_email = trim_space (cl_email c),
                id_name = truncate_runes (cl_name c) max_display_name, id_picture = truncate_runes (cl_picture c) max_picture_uri,
                id_proven = cl_proven c, id_domains = []\<rparr>)"

definition allows_account :: "identity \<Rightarrow> string \<Rightarrow> bool" where
  "allows_account ident email = (\<not> is_connection (id_provider ident) \<or> domain_of email \<in> set (id_domains ident))"

section \<open>ID tokens\<close>

text \<open>A claim of any JSON type; a number is the float it decodes to, \<open>null\<close> is no claim.\<close>

datatype json_claim = JBool bool | JString string | JNumber rat | JOther

record token_claims =
  tk_email :: string
  tk_verified :: "bool option"
  tk_edov :: "json_claim option"
  tk_hd :: string
  tk_name :: string
  tk_picture :: string

record id_token =
  it_nonce :: string
  it_subject :: string
  it_claims :: "token_claims option"

datatype token_answer = DiscoveryError | GrantRejected | ExchangeError | NoIdToken | RawIdToken string
datatype verify_answer = TokenExpired | TokenInvalid | TokenValid id_token

record auth_code =
  ac_code :: string
  ac_verifier :: string
  ac_redirect :: string
  ac_nonce :: string

record idp =
  ip_exchange :: "provider_config \<Rightarrow> auth_code \<Rightarrow> token_answer"
  ip_verify :: "provider_config \<Rightarrow> string \<Rightarrow> verify_answer"

definition claim_true :: "json_claim option \<Rightarrow> bool" where
  "claim_true v = (case v of Some (JBool b) \<Rightarrow> b | Some (JString s) \<Rightarrow> s = ''true'' \<or> s = ''1'' | Some (JNumber n) \<Rightarrow> n = 1 | _ \<Rightarrow> False)"

definition speaks_for :: "provider_config \<Rightarrow> string \<Rightarrow> bool" where
  "speaks_for p domain = (domain \<noteq> [] \<and> domain \<in> set (pc_domains p))"

definition proven_domain :: "provider_config \<Rightarrow> string \<Rightarrow> string \<Rightarrow> string" where
  "proven_domain p email hd' =
     (if \<not> is_connection (pc_id p) \<and> is_google_issuer (pc_issuer p)
      then (case normalize_domain hd' of None \<Rightarrow> [] | Some d \<Rightarrow> d)
      else if speaks_for p (domain_of email) then domain_of email else [])"

definition email_verified :: "provider_config \<Rightarrow> token_claims \<Rightarrow> bool" where
  "email_verified p c =
     (case tk_verified c of
        Some b \<Rightarrow> b
      | None \<Rightarrow> if tk_edov c = None \<and> speaks_for p (domain_of (tk_email c)) then True else claim_true (tk_edov c))"

text \<open>\<open>AuthDb\<close> stands for every error that is not the caller's.\<close>

definition verify_id_token :: "idp \<Rightarrow> provider_config \<Rightarrow> string \<Rightarrow> string \<Rightarrow> (auth_error, identity) result" where
  "verify_id_token ip p raw nonce =
     (case ip_verify ip p raw of
        TokenExpired \<Rightarrow> Inl InvalidCredential
      | TokenInvalid \<Rightarrow> Inl AuthDb
      | TokenValid t \<Rightarrow>
          if nonce = [] then Inl AuthDb
          else if it_nonce t \<noteq> nonce then Inl InvalidCredential
          else case it_claims t of
            None \<Rightarrow> Inl AuthDb
          | Some c \<Rightarrow>
              if is_connection (pc_id p) \<and> tk_email c \<noteq> [] \<and> \<not> speaks_for p (domain_of (tk_email c)) then Inl EmailNotOnConnection
              else case new_verified_identity (pc_id p) \<lparr>cl_subject = it_subject t, cl_email = tk_email c, cl_verified = email_verified p c,
                     cl_name = tk_name c, cl_picture = tk_picture c, cl_proven = proven_domain p (tk_email c) (tk_hd c)\<rparr> of
                Inl e \<Rightarrow> Inl e
              | Inr ident \<Rightarrow> Inr (if is_connection (pc_id p) then ident\<lparr>id_domains := pc_domains p\<rparr> else ident))"

definition provider_exchange :: "idp \<Rightarrow> provider_config \<Rightarrow> auth_code \<Rightarrow> (auth_error, identity) result" where
  "provider_exchange ip p code =
     (case ip_exchange ip p code of
        DiscoveryError \<Rightarrow> Inl AuthDb
      | GrantRejected \<Rightarrow> Inl InvalidCredential
      | ExchangeError \<Rightarrow> Inl AuthDb
      | NoIdToken \<Rightarrow> Inl AuthDb
      | RawIdToken raw \<Rightarrow> if raw = [] then Inl AuthDb else verify_id_token ip p raw (ac_nonce code))"

text \<open>\<open>gone\<close> is whether the caller's context ended meanwhile.\<close>

definition handle_identity_result :: "bool \<Rightarrow> string \<Rightarrow> (auth_error, identity) result \<Rightarrow> (auth_error, identity) result" where
  "handle_identity_result gone provider res =
     (case res of
        Inl e \<Rightarrow>
          if e \<in> {InvalidCredential, UnverifiedEmail, EmailNotOnConnection} then Inl e
          else if gone then Inl e
          else if e = IdentityResolutionFailed then Inl e else Inl ProviderUnavailable
      | Inr ident \<Rightarrow> if id_provider ident \<noteq> provider then Inl IdentityResolutionFailed else Inr ident)"

definition exchange_code :: "idp \<Rightarrow> bool \<Rightarrow> provider_config list \<Rightarrow> string \<Rightarrow> auth_code \<Rightarrow> (auth_error, identity) result" where
  "exchange_code ip gone cfg provider code =
     (if \<not> provider_enabled cfg provider then Inl OAuthProviderDisabled
      else case registry_get cfg provider of
        None \<Rightarrow> Inl OAuthProviderDisabled
      | Some p \<Rightarrow> handle_identity_result gone provider (provider_exchange ip p code))"

definition exchange_connection_code :: "idp \<Rightarrow> bool \<Rightarrow> bool \<Rightarrow> connection \<Rightarrow> auth_code \<Rightarrow> (auth_error, identity) result" where
  "exchange_connection_code ip gone enabled co code =
     (if \<not> enabled then Inl OAuthProviderDisabled
      else let p = connection_config co in handle_identity_result gone (pc_id p) (provider_exchange ip p code))"

section \<open>Discovery\<close>

record sign_in_provider =
  sp_connection :: string
  sp_config :: provider_config

record sign_in_discovery =
  sd_domain :: string
  sd_providers :: "sign_in_provider list"
  sd_require :: bool

text \<open>The providers and whether the connection's lookup failed, which leaves the others.\<close>

definition sign_in_providers :: "(auth_call \<Rightarrow> bool) \<Rightarrow> bool \<Rightarrow> provider_config list \<Rightarrow> auth_db \<Rightarrow> string \<Rightarrow> sign_in_provider list \<times> bool" where
  "sign_in_providers flt enabled cfg db domain =
     (let found = (if \<not> enabled \<or> flt AcIdentity then None else connection_for_domain (ad_sso db) domain);
          out = (case found of None \<Rightarrow> []
                 | Some row \<Rightarrow> [\<lparr>sp_connection = cn_id row, sp_config = \<lparr>pc_id = [], pc_label = cn_label row, pc_issuer = cn_issuer row,
                                 pc_client = cn_client row, pc_secret = [], pc_domains = []\<rparr>\<rparr>]);
          rest = (if out \<noteq> [] then listed_for cfg domain else providers_for cfg domain)
      in (out @ map (\<lambda>p. \<lparr>sp_connection = [], sp_config = p\<rparr>) rest, enabled \<and> flt AcIdentity))"

definition discover_sign_in :: "(auth_call \<Rightarrow> bool) \<Rightarrow> bool \<Rightarrow> provider_config list \<Rightarrow> auth_db \<Rightarrow> string
    \<Rightarrow> (auth_error, sign_in_discovery) result" where
  "discover_sign_in flt enabled cfg db email =
     (let domain = domain_of email in
      if domain = [] then Inr \<lparr>sd_domain = [], sd_providers = [], sd_require = False\<rparr>
      else case sign_in_providers flt enabled cfg db domain of (providers, failed) \<Rightarrow>
      if failed then Inl AuthDb
      else if flt AcRequired then Inl AuthDb
      else Inr \<lparr>sd_domain = domain, sd_providers = providers, sd_require = sso_required (ad_sso db) domain\<rparr>)"

end
