(* ===== verification/External_Sign_In.thy ===== *)
theory External_Sign_In
  imports Oidc
begin

text \<open>
  Signing in through a provider: which account an identity is, \<open>oauth/resolve.go\<close>, with the races
  of two first sign-ins, and what the sign-in does with it in the same transaction,
  \<open>completeExternalIdentity\<close> of \<open>service.go\<close>. The races need the tables at several moments:
  \<open>races\<close> holds what reads saw and what other transactions did before the next attempt.
\<close>

section \<open>Accounts of identities\<close>

definition find_identity :: "auth_db \<Rightarrow> string \<Rightarrow> string \<Rightarrow> identity_row option" where
  "find_identity db provider subject =
     List.find (\<lambda>r. ci_provider r = provider \<and> ci_subject r = subject) (sd_identities (ad_sso db))"

text \<open>The two unique violations a sign-in recovers from, and every other error.\<close>

datatype resolve_error = SubjectTaken | EmailTaken | ResolveFailed auth_error

definition create_identity :: "(auth_call \<Rightarrow> bool) \<Rightarrow> string \<Rightarrow> identity \<Rightarrow> auth_db \<Rightarrow> (resolve_error, auth_db) result" where
  "create_identity flt c ident db =
     (if flt AcCreateIdentity \<or> customer_email (base_of db) c = None then Inl (ResolveFailed AuthDb)
      else if find_identity db (id_provider ident) (id_subject ident) \<noteq> None then Inl SubjectTaken
      else Inr (db\<lparr>ad_sso := (ad_sso db)\<lparr>sd_identities := sd_identities (ad_sso db)
             @ [\<lparr>ci_customer = c, ci_provider = id_provider ident, ci_subject = id_subject ident\<rparr>]\<rparr>\<rparr>))"

text \<open>The reads of the transaction see \<open>dbr\<close>; its inserts meet \<open>db\<close>.\<close>

definition resolve_identity :: "(auth_call \<Rightarrow> bool) \<Rightarrow> auth_env \<Rightarrow> string \<Rightarrow> auth_db \<Rightarrow> identity \<Rightarrow> auth_db
    \<Rightarrow> (resolve_error, auth_db \<times> string \<times> bool) result" where
  "resolve_identity flt env new_id dbr ident db =
     (if flt AcIdentity then Inl (ResolveFailed AuthDb)
      else case find_identity dbr (id_provider ident) (id_subject ident) of
        Some r \<Rightarrow> Inr (db, ci_customer r, False)
      | None \<Rightarrow>
      if list_ex (\<lambda>r. 128 \<le> r) (runes (id_email ident)) then Inl (ResolveFailed NonASCIIEmail)
      else if flt AcCustomer then Inl (ResolveFailed AuthDb)
      else (case customer_by_email (ae_lower env) (base_of dbr) (id_email ident) of
        Some u \<Rightarrow> (case create_identity flt (cu_id u) ident db of Inl e \<Rightarrow> Inl e | Inr db1 \<Rightarrow> Inr (db1, cu_id u, False))
      | None \<Rightarrow>
      if flt AcCreateCustomer then Inl (ResolveFailed AuthDb)
      else if customer_by_email (ae_lower env) (base_of db) (id_email ident) \<noteq> None then Inl EmailTaken
      else (case create_customer (ae_lower env) new_id (id_email ident) (base_of db) of
        None \<Rightarrow> Inl (ResolveFailed AuthDb)
      | Some b \<Rightarrow>
      (case create_identity flt new_id ident (with_base b db) of Inl e \<Rightarrow> Inl e | Inr db1 \<Rightarrow> Inr (db1, new_id, True)))))"

section \<open>Transactions\<close>

text \<open>
  \<open>rc_pool\<close>: the tables at the check before the first transaction; \<open>rc_read\<close>, \<open>rc_link\<close>: at the
  reads of the two attempts; \<open>rc_retry\<close>, \<open>rc_lookup\<close>, \<open>rc_final\<close>: other transactions before the
  second attempt, before the race's winner is looked up, and before its account is finalized.
\<close>

record races =
  rc_conn :: auth_db
  rc_pool :: auth_db
  rc_read :: auth_db
  rc_link :: auth_db
  rc_retry :: "auth_db \<Rightarrow> auth_db"
  rc_lookup :: "auth_db \<Rightarrow> auth_db"
  rc_final :: "auth_db \<Rightarrow> auth_db"

type_synonym finalizer = "auth_db \<Rightarrow> string \<Rightarrow> bool \<Rightarrow> (auth_error, auth_db \<times> session) result"

type_synonym attempt = "auth_db \<times> (resolve_error, session) result"

definition run_finalize :: "(auth_call \<Rightarrow> bool) \<Rightarrow> finalizer \<Rightarrow> string \<Rightarrow> bool \<Rightarrow> auth_db \<Rightarrow> auth_db \<Rightarrow> attempt" where
  "run_finalize flt fin c created db1 db =
     (case fin db1 c created of
        Inl e \<Rightarrow> (db, Inl (ResolveFailed e))
      | Inr (db2, s) \<Rightarrow> if flt AcCommit then (db, Inl (ResolveFailed AuthDb)) else (db2, Inr s))"

definition finalize_existing :: "(auth_call \<Rightarrow> bool) \<Rightarrow> finalizer \<Rightarrow> string \<Rightarrow> auth_db \<Rightarrow> attempt" where
  "finalize_existing flt fin c db =
     (if flt AcBegin then (db, Inl (ResolveFailed AuthDb)) else run_finalize flt fin c False db db)"

definition finalize_winner :: "(auth_call \<Rightarrow> bool) \<Rightarrow> identity \<Rightarrow> finalizer \<Rightarrow> races \<Rightarrow> auth_db \<Rightarrow> attempt" where
  "finalize_winner flt ident fin rc db =
     (if flt AcIdentity then (db, Inl (ResolveFailed AuthDb))
      else case find_identity db (id_provider ident) (id_subject ident) of
        None \<Rightarrow> (db, Inl (ResolveFailed IdentityResolutionFailed))
      | Some r \<Rightarrow> finalize_existing flt fin (ci_customer r) (rc_final rc db))"

definition resolve_and_finalize :: "(auth_call \<Rightarrow> bool) \<Rightarrow> auth_env \<Rightarrow> string \<Rightarrow> identity \<Rightarrow> finalizer \<Rightarrow> races \<Rightarrow> auth_db \<Rightarrow> attempt" where
  "resolve_and_finalize flt env new_id ident fin rc db =
     (if flt AcBegin then (db, Inl (ResolveFailed AuthDb))
      else case resolve_identity flt env new_id (rc_read rc) ident db of
        Inl e \<Rightarrow> if e = SubjectTaken then finalize_winner flt ident fin rc (rc_lookup rc db) else (db, Inl e)
      | Inr (db1, c, created) \<Rightarrow> run_finalize flt fin c created db1 db)"

definition link_by_email :: "(auth_call \<Rightarrow> bool) \<Rightarrow> auth_env \<Rightarrow> identity \<Rightarrow> finalizer \<Rightarrow> races \<Rightarrow> auth_db \<Rightarrow> attempt" where
  "link_by_email flt env ident fin rc db =
     (if flt AcBegin \<or> flt AcCustomer then (db, Inl (ResolveFailed AuthDb))
      else case customer_by_email (ae_lower env) (base_of (rc_link rc)) (id_email ident) of
        None \<Rightarrow> finalize_winner flt ident fin rc (rc_lookup rc db)
      | Some u \<Rightarrow>
      (case create_identity flt (cu_id u) ident db of
        Inl e \<Rightarrow> if e = SubjectTaken then finalize_winner flt ident fin rc (rc_lookup rc db) else (db, Inl e)
      | Inr db1 \<Rightarrow> run_finalize flt fin (cu_id u) False db1 db))"

definition with_identity_tx :: "(auth_call \<Rightarrow> bool) \<Rightarrow> auth_env \<Rightarrow> string \<Rightarrow> identity \<Rightarrow> finalizer \<Rightarrow> races \<Rightarrow> auth_db \<Rightarrow> attempt" where
  "with_identity_tx flt env new_id ident fin rc db =
     (case resolve_and_finalize flt env new_id ident fin rc db of
        (db1, Inl e) \<Rightarrow> if e = EmailTaken then link_by_email flt env ident fin rc (rc_retry rc db1) else (db1, Inl e)
      | (db1, Inr s) \<Rightarrow> (db1, Inr s))"

section \<open>Completing\<close>

text \<open>\<open>redeemInviteTokenInTx\<close>: the tables and the invitation of a link whose address is the account's.\<close>

definition redeem_invite :: "(auth_call \<Rightarrow> bool) \<Rightarrow> auth_env \<Rightarrow> time \<Rightarrow> string \<Rightarrow> string \<Rightarrow> auth_db \<Rightarrow> (auth_error, auth_db \<times> string) result" where
  "redeem_invite flt env now raw email db =
     (if flt AcTokenLookup then Inl AuthDb
      else case valid_token now (ae_hash env raw) (ot_tokens (base_of db)) of
        None \<Rightarrow> Inl InvalidToken
      | Some t \<Rightarrow>
      if mt_purpose t \<noteq> purpose_org_invite then Inl InvalidToken
      else if \<not> equal_fold (ae_fold env) (mt_email t) email then Inl InviteWrongEmail
      else if flt AcConsume then Inl AuthDb
      else (case consume_token now (mt_id t) (ot_tokens (base_of db)) of (ts, consumed) \<Rightarrow>
      if \<not> consumed then Inl InvalidToken
      else Inr (with_base ((base_of db)\<lparr>ot_tokens := ts\<rparr>) db, invitation_of t)))"

definition connection_check :: "(auth_call \<Rightarrow> bool) \<Rightarrow> connection option \<Rightarrow> auth_db \<Rightarrow> auth_error option" where
  "connection_check flt conn db =
     (case conn of
        None \<Rightarrow> None
      | Some co \<Rightarrow> if flt AcUnchanged then Some AuthDb
                   else if connection_unchanged (ad_sso db) co then None else Some OAuthProviderDisabled)"

definition may_sign_in :: "(auth_call \<Rightarrow> bool) \<Rightarrow> identity \<Rightarrow> connection option \<Rightarrow> auth_db \<Rightarrow> string \<Rightarrow> (auth_error, string) result" where
  "may_sign_in flt ident conn db c =
     (case connection_check flt conn db of
        Some e \<Rightarrow> Inl e
      | None \<Rightarrow>
      (case email_of flt db c of
        Inl e \<Rightarrow> Inl e
      | Inr email \<Rightarrow>
      if \<not> allows_account ident email then Inl EmailNotOnConnection
      else (case check_sign_in flt db email (id_proven ident) of Some e \<Rightarrow> Inl e | None \<Rightarrow> Inr email)))"

definition finalize_external :: "(auth_call \<Rightarrow> bool) \<Rightarrow> auth_env \<Rightarrow> time \<Rightarrow> sign_in_draws \<Rightarrow> identity \<Rightarrow> connection option \<Rightarrow> string \<Rightarrow> string
    \<Rightarrow> finalizer" where
  "finalize_external flt env now dw ident conn invite zone db c created =
     (case may_sign_in flt ident conn db c of
        Inl e \<Rightarrow> Inl e
      | Inr email \<Rightarrow>
      (case (if invite = [] then Inr (db, []) else redeem_invite flt env now invite email db) of
        Inl e \<Rightarrow> Inl e
      | Inr (db1, invitation) \<Rightarrow>
      (case finish_signup flt env now (iw_org dw) \<lparr>su_customer = c, su_created = created, su_invitation = invitation,
              su_proven = id_proven ident, su_zone = zone\<rparr> db1 of
        Inl e \<Rightarrow> Inl e
      | Inr (db2, joined) \<Rightarrow>
      (case mark_sso_seen flt now (id_proven ident) db2 of
        Inl e \<Rightarrow> Inl e
      | Inr db3 \<Rightarrow>
      (case finalize_verified_customer flt now c db3 of
        Inl e \<Rightarrow> Inl e
      | Inr db4 \<Rightarrow>
      (case issue_session flt env now (iw_session dw) c (id_proven ident) db4 of
        Inl e \<Rightarrow> Inl e
      | Inr (db5, s) \<Rightarrow> Inr (db5, s\<lparr>se_joined := joined\<rparr>)))))))"

definition resolve_failure :: "resolve_error \<Rightarrow> auth_error" where
  "resolve_failure e = (case e of ResolveFailed x \<Rightarrow> x | _ \<Rightarrow> AuthDb)"

definition complete_oidc :: "(auth_call \<Rightarrow> bool) \<Rightarrow> auth_env \<Rightarrow> time \<Rightarrow> sign_in_draws \<Rightarrow> identity \<Rightarrow> connection option \<Rightarrow> string \<Rightarrow> string
    \<Rightarrow> races \<Rightarrow> auth_db \<Rightarrow> auth_db \<times> (auth_error, session) result" where
  "complete_oidc flt env now dw ident conn invite zone rc db =
     (case check_sign_in flt (rc_pool rc) (id_email ident) (id_proven ident) of
        Some e \<Rightarrow> (db, Inl (with_invite (invite \<noteq> []) e))
      | None \<Rightarrow>
      (case with_identity_tx flt env (iw_customer dw) ident (finalize_external flt env now dw ident conn invite zone) rc db of
        (db1, Inl e) \<Rightarrow> (db1, Inl (with_invite (invite \<noteq> []) (resolve_failure e)))
      | (db1, Inr s) \<Rightarrow> (db1, Inr s)))"

text \<open>The service: the providers, the connections' cipher and what go-oidc answers.\<close>

record oauth_service =
  oa_config :: "provider_config list"
  oa_cipher :: "secret_cipher option"
  oa_connections :: bool
  oa_idp :: idp

definition complete_oidc_sign_in :: "(auth_call \<Rightarrow> bool) \<Rightarrow> auth_env \<Rightarrow> oauth_service \<Rightarrow> bool \<Rightarrow> time \<Rightarrow> sign_in_draws \<Rightarrow> string
    \<Rightarrow> auth_code \<Rightarrow> string \<Rightarrow> string \<Rightarrow> races \<Rightarrow> auth_db \<Rightarrow> auth_db \<times> (auth_error, session) result" where
  "complete_oidc_sign_in flt env svc gone now dw provider code invite zone rc db =
     (case exchange_code (oa_idp svc) gone (oa_config svc) provider code of
        Inl e \<Rightarrow> (db, Inl e)
      | Inr ident \<Rightarrow> complete_oidc flt env now dw ident None invite zone rc db)"

definition complete_connection_sign_in :: "(auth_call \<Rightarrow> bool) \<Rightarrow> (sso_call \<Rightarrow> bool) \<Rightarrow> auth_env \<Rightarrow> oauth_service \<Rightarrow> bool \<Rightarrow> time
    \<Rightarrow> sign_in_draws \<Rightarrow> string \<Rightarrow> auth_code \<Rightarrow> string \<Rightarrow> string \<Rightarrow> races \<Rightarrow> auth_db \<Rightarrow> auth_db \<times> (auth_error, session) result" where
  "complete_connection_sign_in flt cflt env svc gone now dw connection_id code invite zone rc db =
     (case oa_cipher svc of
        None \<Rightarrow> (db, Inl OAuthProviderDisabled)
      | Some cipher \<Rightarrow>
      (case connection_for_sign_in cflt cipher (ad_sso (rc_conn rc)) connection_id of
        Inl e \<Rightarrow> (db, Inl (if e = ErrSSOConnectionNotFound then OAuthProviderDisabled else AuthDb))
      | Inr co \<Rightarrow>
      (case exchange_connection_code (oa_idp svc) gone (oa_connections svc) co code of
        Inl e \<Rightarrow> (db, Inl e)
      | Inr ident \<Rightarrow> complete_oidc flt env now dw ident (Some co) invite zone rc db)))"

end
