(* ===== verification/Auth_Machine.thy ===== *)
theory Auth_Machine
  imports External_Sign_In Domain_Laws
begin

text \<open>
  All commands that change the tables of sign-in, as one machine: the sign-ins, refreshes and
  sign-outs, the sweep of expired tokens, new organizations, and the commands on members and on
  claimed domains of the other components. The two attempts of a sign-in that lost a race run
  back to back: an attempt that failed changed nothing, and its reads are arguments, so whatever
  ran between them can run before.
\<close>

section \<open>Commands\<close>

definition sequential :: "races \<Rightarrow> races" where
  "sequential rc = rc\<lparr>rc_retry := (\<lambda>db. db), rc_lookup := (\<lambda>db. db), rc_final := (\<lambda>db. db)\<rparr>"

datatype auth_cmd =
    AuPassword "auth_call \<Rightarrow> bool" session_draws string string auth_db
  | AuRequestLink "auth_call \<Rightarrow> bool" string string string auth_db
  | AuCompleteLink "auth_call \<Rightarrow> bool" sign_in_draws string string
  | AuOidc "auth_call \<Rightarrow> bool" oauth_service bool sign_in_draws string auth_code string string races
  | AuConnection "auth_call \<Rightarrow> bool" "sso_call \<Rightarrow> bool" oauth_service bool sign_in_draws string auth_code string string races
  | AuDemo "auth_call \<Rightarrow> bool" bool session_draws auth_db
  | AuRefresh "auth_call \<Rightarrow> bool" session_draws string
  | AuJoinAfter "auth_call \<Rightarrow> bool" org_draws string string
  | AuRevoke "auth_call \<Rightarrow> bool" string
  | AuSweepRefresh
  | AuSweepTokens
  | AuCreateOrg "auth_call \<Rightarrow> bool" org_draws string
  | AuOrg org_cmd
  | AuDomain sso_cmd

text \<open>The tables after a command, and the session it handed out.\<close>

fun auth_run :: "auth_env \<Rightarrow> auth_db \<Rightarrow> time \<times> auth_cmd \<Rightarrow> auth_db \<times> session option" where
  "auth_run env db (now, AuPassword flt dw email password dbr) =
     map_prod id (case_sum (\<lambda>_. None) Some) (sign_in_with_email flt env now dw email password dbr db)"
| "auth_run env db (now, AuRequestLink flt tid raw email dbr) = (fst (request_magic_link flt env now tid raw email dbr db), None)"
| "auth_run env db (now, AuCompleteLink flt dw raw zone) =
     map_prod id (case_sum (\<lambda>_. None) Some) (complete_magic_link flt env now dw raw zone db)"
| "auth_run env db (now, AuOidc flt svc gone dw provider code invite zone rc) =
     map_prod id (case_sum (\<lambda>_. None) Some) (complete_oidc_sign_in flt env svc gone now dw provider code invite zone (sequential rc) db)"
| "auth_run env db (now, AuConnection flt cflt svc gone dw cid code invite zone rc) =
     map_prod id (case_sum (\<lambda>_. None) Some) (complete_connection_sign_in flt cflt env svc gone now dw cid code invite zone (sequential rc) db)"
| "auth_run env db (now, AuDemo flt enabled dw dbr) =
     map_prod id (case_sum (\<lambda>_. None) (Some \<circ> fst)) (demo_sign_in flt env enabled now dw dbr db)"
| "auth_run env db (now, AuRefresh flt dw raw) = map_prod id (case_sum (\<lambda>_. None) (Some \<circ> fst)) (refresh_tx flt env now dw raw db)"
| "auth_run env db (now, AuJoinAfter flt odw c proven) = (auto_join_on_refresh flt env now odw c proven db, None)"
| "auth_run env db (now, AuRevoke flt raw) = (fst (revoke_session flt env now raw db), None)"
| "auth_run env db (now, AuSweepRefresh) = (delete_expired_refresh now db, None)"
| "auth_run env db (now, AuSweepTokens) = (delete_expired_tokens now db, None)"
| "auth_run env db (now, AuCreateOrg flt odw c) = (fst (create_org_with_defaults flt env now odw c db), None)"
| "auth_run env db (now, AuOrg cmd) = (with_base (org_step (ae_lower env) (ae_hash env) (base_of db) (now, cmd)) db, None)"
| "auth_run env db (now, AuDomain cmd) = (db\<lparr>ad_sso := sso_step (ad_sso db) cmd\<rparr>, None)"

definition auth_step :: "auth_env \<Rightarrow> auth_db \<Rightarrow> time \<times> auth_cmd \<Rightarrow> auth_db" where
  "auth_step env db ev = fst (auth_run env db ev)"

definition auth_session :: "auth_env \<Rightarrow> auth_db \<Rightarrow> time \<times> auth_cmd \<Rightarrow> session option" where
  "auth_session env db ev = snd (auth_run env db ev)"

section \<open>What leaves the refresh tokens alone\<close>

lemma base_update_refresh [simp]: "ad_refresh (db\<lparr>ad_sso := x\<rparr>) = ad_refresh db"
  by simp

lemma accept_invite_refresh: "accept_invite flt now su db = Inr (db1, joined) \<Longrightarrow> ad_refresh db1 = ad_refresh db"
  by (auto simp: accept_invite_def split: if_splits prod.splits sum.splits)

lemma auto_join_refresh: "auto_join flt env now c email proven db = Inr (db1, joined) \<Longrightarrow> ad_refresh db1 = ad_refresh db"
  by (auto simp: auto_join_def split: if_splits prod.splits)

lemma create_project_refresh: "create_project_in_tx flt env now dw org name zone db = Inr db1 \<Longrightarrow> ad_refresh db1 = ad_refresh db"
  by (auto simp: create_project_in_tx_def split: if_splits)

lemma create_org_refresh: "create_org_in_tx flt env now dw c zone db = Inr db1 \<Longrightarrow> ad_refresh db1 = ad_refresh db"
  by (auto simp: create_org_in_tx_def Let_def dest: create_project_refresh split: if_splits)

lemma finish_signup_refresh: "finish_signup flt env now dw su db = Inr (db1, joined) \<Longrightarrow> ad_refresh db1 = ad_refresh db"
  by (auto simp: finish_signup_def dest!: accept_invite_refresh auto_join_refresh create_org_refresh split: sum.splits if_splits prod.splits)

lemma mark_seen_refresh: "mark_sso_seen flt now proven db = Inr db1 \<Longrightarrow> ad_refresh db1 = ad_refresh db"
  by (auto simp: mark_sso_seen_def split: if_splits)

lemma verified_refresh: "finalize_verified_customer flt now c db = Inr db1 \<Longrightarrow> ad_refresh db1 = ad_refresh db"
  by (auto simp: finalize_verified_customer_def split: if_splits)

lemma ensure_customer_refresh: "ensure_customer flt env i email db = Inr (db1, c, created) \<Longrightarrow> ad_refresh db1 = ad_refresh db"
  by (auto simp: ensure_customer_def split: if_splits option.splits)

lemma redeem_refresh: "redeem_invite flt env now raw email db = Inr (db1, i) \<Longrightarrow> ad_refresh db1 = ad_refresh db"
  by (auto simp: redeem_invite_def split: if_splits option.splits prod.splits)

lemma create_identity_refresh: "create_identity flt c ident db = Inr db1 \<Longrightarrow> ad_refresh db1 = ad_refresh db"
  by (auto simp: create_identity_def split: if_splits)

lemma resolve_refresh: "resolve_identity flt env i dbr ident db = Inr (db1, c, created) \<Longrightarrow> ad_refresh db1 = ad_refresh db"
  by (auto simp: resolve_identity_def dest!: create_identity_refresh split: if_splits option.splits sum.splits)

lemmas keeps_refresh = accept_invite_refresh auto_join_refresh create_org_refresh finish_signup_refresh mark_seen_refresh
  verified_refresh ensure_customer_refresh redeem_refresh create_identity_refresh resolve_refresh

section \<open>Sign-ins that went through\<close>

text \<open>An issued session adds one unused token of the family drawn.\<close>

lemma create_refresh_ok:
  assumes "create_refresh_token flt env now dw c family proven db = Inr db1"
  obtains row rows where "insert_refresh row (ad_refresh db) = Some rows" "db1 = db\<lparr>ad_refresh := rows\<rparr>" "unused row"
    "rf_family row = family" "rf_hash row = ae_hash env (sw_raw dw)" "rf_customer row = c" "proven_of row = proven"
    "customer_email (base_of db) c \<noteq> None"
  using assms by (auto simp: create_refresh_token_def unused_def proven_of_def split: if_splits option.splits)

lemma issue_session_ok:
  assumes "issue_session flt env now dw c proven db = Inr (db1, s)"
  shows "create_refresh_token flt env now dw c (sw_family dw) proven db = Inr db1" "uc_subject (se_access s) = c"
  using assms by (auto simp: issue_session_def generate_jwt_def split: sum.splits if_splits)

lemma password_ok:
  assumes "sign_in_with_email flt env now dw email password dbr db = (db1, Inr s)"
  obtains u where "check_sign_in flt db email [] = None" "customer_by_email (ae_lower env) (base_of dbr) email = Some u"
    "\<not> is_demo_account (ae_fold env) email" "ae_bcrypt env (cu_hash u) password = PasswordMatches"
    "issue_session flt env now dw (cu_id u) [] db = Inr (db1, s)"
  using assms by (auto simp: sign_in_with_email_def split: if_splits option.splits bcrypt_answer.splits sum.splits)

lemma password_failed: "sign_in_with_email flt env now dw email password dbr db = (db1, Inl e) \<Longrightarrow> db1 = db"
  by (auto simp: sign_in_with_email_def split: if_splits option.splits bcrypt_answer.splits sum.splits)

lemma demo_ok:
  assumes "demo_sign_in flt env enabled now dw dbr db = (db1, Inr (s, p))"
  obtains u where "enabled" "customer_by_email (ae_lower env) (base_of dbr) demo_viewer_email = Some u"
    "resolve_demo_project flt dbr (cu_id u) = Inr p" "issue_session flt env now dw (cu_id u) [] db = Inr (db1, s)"
  using assms by (auto simp: demo_sign_in_def split: if_splits option.splits sum.splits)

lemma demo_failed: "demo_sign_in flt env enabled now dw dbr db = (db1, Inl e) \<Longrightarrow> db1 = db"
  by (auto simp: demo_sign_in_def split: if_splits option.splits sum.splits)

lemma magic_link_ok:
  assumes "complete_magic_link flt env now dw raw zone db = (db5, Inr s)"
  obtains t is_invite db1 c created db2 joined ts db3 s0 where
    "redeemable flt env now raw db = Inr (t, is_invite)" "check_sign_in flt db (mt_email t) [] = None"
    "ensure_customer flt env (iw_customer dw) (mt_email t) db = Inr (db1, c, created)"
    "finish_signup flt env now (iw_org dw) \<lparr>su_customer = c, su_created = created,
       su_invitation = (if is_invite then invitation_of t else []), su_proven = [], su_zone = zone\<rparr> db1 = Inr (db2, joined)"
    "consume_token now (mt_id t) (ot_tokens (base_of db2)) = (ts, True)"
    "finalize_verified_customer flt now c (with_base ((base_of db2)\<lparr>ot_tokens := ts\<rparr>) db2) = Inr db3"
    "issue_session flt env now (iw_session dw) c [] db3 = Inr (db5, s0)" "s = s0\<lparr>se_joined := joined\<rparr>"
  using assms unfolding complete_magic_link_def
  by (auto split: if_split_asm sum.split_asm option.split_asm prod.split_asm)

lemma magic_link_failed: "complete_magic_link flt env now dw raw zone db = (db5, Inl e) \<Longrightarrow> db5 = db"
  unfolding complete_magic_link_def by (auto split: if_split_asm sum.split_asm option.split_asm prod.split_asm)

lemma finalize_external_ok:
  assumes "finalize_external flt env now dw ident conn invite zone db c created = Inr (db5, s)"
  obtains email db1 invitation db2 joined db3 db4 s0 where
    "may_sign_in flt ident conn db c = Inr email"
    "(if invite = [] then Inr (db, []) else redeem_invite flt env now invite email db) = Inr (db1, invitation)"
    "finish_signup flt env now (iw_org dw) \<lparr>su_customer = c, su_created = created, su_invitation = invitation,
       su_proven = id_proven ident, su_zone = zone\<rparr> db1 = Inr (db2, joined)"
    "mark_sso_seen flt now (id_proven ident) db2 = Inr db3" "finalize_verified_customer flt now c db3 = Inr db4"
    "issue_session flt env now (iw_session dw) c (id_proven ident) db4 = Inr (db5, s0)" "s = s0\<lparr>se_joined := joined\<rparr>"
  using assms unfolding finalize_external_def
  by (auto split: sum.split_asm prod.split_asm)

text \<open>
  What finding the account may have added before the sign-in is finalized: nothing but one
  identity and, for a new account, one customer with an ASCII address.
\<close>

definition new_account :: "string \<Rightarrow> string \<Rightarrow> customer" where
  "new_account i email = \<lparr>cu_id = i, cu_email = email, cu_hash = [], cu_verified = None\<rparr>"

definition account_added :: "identity \<Rightarrow> auth_db \<Rightarrow> auth_db \<Rightarrow> bool" where
  "account_added ident db db1 =
     (\<exists>ids cs. db1 = db\<lparr>ad_sso := (ad_sso db)\<lparr>sd_base := (base_of db)\<lparr>ot_customers := ot_customers (base_of db) @ cs\<rparr>,
          sd_identities := sd_identities (ad_sso db) @ ids\<rparr>\<rparr>
        \<and> (cs = [] \<or> (\<exists>i. cs = [new_account i (id_email ident)] \<and> customer_email (base_of db) i = None
              \<and> \<not> list_ex (\<lambda>r. 128 \<le> r) (runes (id_email ident)))))"

lemma account_added_same: "account_added ident db db"
  by (auto simp: account_added_def base_of_def intro!: exI [of _ "[]"])

lemma customer_email_None: "customer_email b i = None \<longleftrightarrow> i \<notin> cu_id ` set (ot_customers b)"
  by (auto simp: customer_email_def find_None_iff)

lemma create_customer_ok:
  "create_customer uni i email b = Some b1 \<Longrightarrow>
     b1 = b\<lparr>ot_customers := ot_customers b @ [new_account i email]\<rparr> \<and> customer_email b i = None"
  by (auto simp: create_customer_def new_account_def customer_email_None list_ex_iff split: if_splits)

lemma create_identity_added:
  assumes "create_identity flt c ident db = Inr db1" shows "account_added ident db db1"
proof -
  have "db1 = db\<lparr>ad_sso := (ad_sso db)\<lparr>sd_identities := sd_identities (ad_sso db)
      @ [\<lparr>ci_customer = c, ci_provider = id_provider ident, ci_subject = id_subject ident\<rparr>]\<rparr>\<rparr>"
    using assms by (simp add: create_identity_def split: if_splits)
  then show ?thesis unfolding account_added_def
    by (intro exI [of _ "[\<lparr>ci_customer = c, ci_provider = id_provider ident, ci_subject = id_subject ident\<rparr>]"] exI [of _ "[]"])
      (simp add: base_of_def)
qed

lemma resolve_added:
  assumes "resolve_identity flt env i dbr ident db = Inr (db1, c, created)"
  shows "account_added ident db db1"
proof (cases "find_identity dbr (id_provider ident) (id_subject ident)")
  case (Some r)
  then show ?thesis using assms by (auto simp: resolve_identity_def account_added_same split: if_splits)
next
  case none: None
  have ascii: "\<not> list_ex (\<lambda>r. 128 \<le> r) (runes (id_email ident))"
    using assms none by (auto simp: resolve_identity_def split: if_splits)
  show ?thesis
  proof (cases "customer_by_email (ae_lower env) (base_of dbr) (id_email ident)")
    case (Some u)
    then show ?thesis using assms none ascii create_identity_added by (auto simp: resolve_identity_def split: if_splits sum.splits)
  next
    case None
    then obtain b where b: "create_customer (ae_lower env) i (id_email ident) (base_of db) = Some b"
      "create_identity flt i ident (with_base b db) = Inr db1"
      using assms none ascii by (auto simp: resolve_identity_def split: if_splits sum.splits option.splits)
    note made = create_customer_ok [OF b(1)]
    have "db1 = with_base b db\<lparr>ad_sso := (ad_sso (with_base b db))\<lparr>sd_identities := sd_identities (ad_sso db)
        @ [\<lparr>ci_customer = i, ci_provider = id_provider ident, ci_subject = id_subject ident\<rparr>]\<rparr>\<rparr>"
      using b(2) by (simp add: create_identity_def split: if_splits)
    then show ?thesis using made ascii unfolding account_added_def
      by (intro exI [of _ "[\<lparr>ci_customer = i, ci_provider = id_provider ident, ci_subject = id_subject ident\<rparr>]"]
          exI [of _ "[new_account i (id_email ident)]"]) (auto simp: with_base_def)
  qed
qed

lemma run_finalize_cases: "run_finalize flt fin c created db1 db = (db', res) \<Longrightarrow>
    (case res of Inl e \<Rightarrow> db' = db | Inr s \<Rightarrow> fin db1 c created = Inr (db', s))"
  by (auto simp: run_finalize_def split: sum.splits prod.splits if_splits)

definition finalized :: "identity \<Rightarrow> finalizer \<Rightarrow> auth_db \<Rightarrow> attempt \<Rightarrow> bool" where
  "finalized ident fin db out =
     (case snd out of Inl e \<Rightarrow> fst out = db
      | Inr s \<Rightarrow> \<exists>db1 c created. account_added ident db db1 \<and> fin db1 c created = Inr (fst out, s))"

lemma finalized_run: "account_added ident db db1 \<Longrightarrow> finalized ident fin db (run_finalize flt fin c created db1 db)"
  using run_finalize_cases [of flt fin c created db1 db] by (cases "run_finalize flt fin c created db1 db") (fastforce simp: finalized_def split: sum.splits)

lemma finalized_fail [simp]: "finalized ident fin db (db, Inl e)"
  by (simp add: finalized_def)

lemma finalized_winner: "finalized ident fin db (finalize_winner flt ident fin (sequential rc) db)"
  by (simp add: finalize_winner_def finalize_existing_def sequential_def finalized_run account_added_same split: option.split)

lemma finalized_resolve: "finalized ident fin db (resolve_and_finalize flt env i ident fin (sequential rc) db)"
  using finalized_winner [of ident fin db flt rc]
  by (auto simp: resolve_and_finalize_def sequential_def intro: finalized_run [OF resolve_added] split: sum.split)

lemma finalized_link: "finalized ident fin db (link_by_email flt env ident fin (sequential rc) db)"
  using finalized_winner [of ident fin db flt rc]
  by (auto simp: link_by_email_def sequential_def intro: finalized_run [OF create_identity_added] split: sum.split option.split)

lemma finalized_identity_tx: "finalized ident fin db (with_identity_tx flt env i ident fin (sequential rc) db)"
proof (cases "resolve_and_finalize flt env i ident fin (sequential rc) db")
  case (Pair db1 res)
  have first: "finalized ident fin db (db1, res)" using finalized_resolve [of ident fin db flt env i rc] Pair by simp
  show ?thesis
  proof (cases res)
    case (Inl e)
    then have "db1 = db" using first by (simp add: finalized_def)
    then show ?thesis using Pair Inl finalized_link [of ident fin db flt env rc] by (simp add: with_identity_tx_def sequential_def)
  next
    case (Inr s)
    then show ?thesis using Pair first by (simp add: with_identity_tx_def)
  qed
qed

lemma oidc_cases:
  assumes "complete_oidc flt env now dw ident conn invite zone (sequential rc) db = (db', res)"
  shows "case res of Inl e \<Rightarrow> db' = db
     | Inr s \<Rightarrow> \<exists>db1 c created. account_added ident db db1
          \<and> finalize_external flt env now dw ident conn invite zone db1 c created = Inr (db', s)"
  using assms finalized_identity_tx [of ident "finalize_external flt env now dw ident conn invite zone" db flt env "iw_customer dw" rc]
  by (auto simp: complete_oidc_def finalized_def split: option.splits prod.splits sum.splits)

end
