(* ===== verification/Session_Laws.thy ===== *)
theory Session_Laws
  imports Auth_Machine
begin

text \<open>
  What the commands of sign-in do to the refresh tokens, as one relation between tables, and what
  follows for a family of tokens: at most one of it can be used, a used one never again, and a
  family that was revoked stays dead.
\<close>

section \<open>Moves of the token table\<close>

text \<open>\<open>F\<close> and \<open>H\<close> are the families and hashes the command drew.\<close>

inductive token_step :: "string set \<Rightarrow> string set \<Rightarrow> refresh_row list \<Rightarrow> refresh_row list \<Rightarrow> bool" for F H where
  stay: "token_step F H rows rows"
| issue: "insert_refresh row rows = Some rows' \<Longrightarrow> unused row \<Longrightarrow> rf_family row \<in> F \<Longrightarrow> rf_hash row \<in> H \<Longrightarrow> token_step F H rows rows'"
| rotate: "r \<in> set rows \<Longrightarrow> unused r \<Longrightarrow> insert_refresh row (fst (consume_refresh now (rf_id r) rows)) = Some rows' \<Longrightarrow> unused row
    \<Longrightarrow> rf_family row = rf_family r \<Longrightarrow> rf_hash row \<in> H \<Longrightarrow> token_step F H rows rows'"
| revoke: "token_step F H rows (revoke_family now f rows)"
| expire: "token_step F H rows (filter P rows)"

inductive_cases token_stepE: "token_step F H rows rows'"

definition tokens_ok :: "refresh_row list \<Rightarrow> bool" where
  "tokens_ok rows = (distinct (map rf_id rows) \<and> distinct (map rf_hash rows) \<and> distinct (map rf_family (filter unused rows)))"

definition families :: "refresh_row list \<Rightarrow> string set" where
  "families rows = rf_family ` set rows"

definition hashes :: "refresh_row list \<Rightarrow> string set" where
  "hashes rows = rf_hash ` set rows"

text \<open>Marking rows used up keeps every key and brings no row back.\<close>

lemma mark_rows:
  assumes "\<And>r. rf_id (f r) = rf_id r" "\<And>r. rf_hash (f r) = rf_hash r" "\<And>r. rf_family (f r) = rf_family r" "\<And>r. unused (f r) \<Longrightarrow> unused r"
  shows "tokens_ok rows \<Longrightarrow> tokens_ok (map f rows)" "families (map f rows) = families rows" "hashes (map f rows) = hashes rows"
proof -
  have "rf_id \<circ> f = rf_id" "rf_hash \<circ> f = rf_hash" using assms(1,2) by auto
  moreover have "map rf_family (filter unused (map f rows)) = map rf_family (filter (\<lambda>r. unused (f r)) rows)"
    by (induction rows) (simp_all add: assms(3))
  ultimately show "tokens_ok rows \<Longrightarrow> tokens_ok (map f rows)"
    using distinct_weaker_filter [of rf_family unused rows "\<lambda>r. unused (f r)", OF _ assms(4)] by (simp add: tokens_ok_def)
  show "families (map f rows) = families rows" "hashes (map f rows) = hashes rows"
    by (simp_all add: families_def hashes_def image_image assms(2,3))
qed

lemma consume_marks:
  "tokens_ok rows \<Longrightarrow> tokens_ok (fst (consume_refresh now i rows))" "families (fst (consume_refresh now i rows)) = families rows"
  "hashes (fst (consume_refresh now i rows)) = hashes rows"
  unfolding consume_refresh_def fst_conv by (rule mark_rows; simp add: unused_def split: if_splits)+

lemma revoke_marks:
  "tokens_ok rows \<Longrightarrow> tokens_ok (revoke_family now f rows)" "families (revoke_family now f rows) = families rows"
  "hashes (revoke_family now f rows) = hashes rows"
  unfolding revoke_family_def by (rule mark_rows; simp add: revoke_row_def unused_def split: if_splits)+

lemma insert_refresh_ok:
  assumes "insert_refresh row rows = Some rows'"
  shows "rows' = rows @ [row]" "rf_id row \<notin> rf_id ` set rows" "rf_hash row \<notin> rf_hash ` set rows"
  using assms by (auto simp: insert_refresh_def list_ex_iff split: if_splits)

lemma inserted_ok:
  assumes "tokens_ok rows" "insert_refresh row rows = Some rows'" "rf_family row \<notin> rf_family ` set (filter unused rows)"
  shows "tokens_ok rows'"
  using assms(1,3) insert_refresh_ok [OF assms(2)] by (simp add: tokens_ok_def)

text \<open>After its only unused token is consumed a family has none.\<close>

lemma consumed_family:
  assumes "tokens_ok rows" "r \<in> set rows" "unused r"
  shows "rf_family r \<notin> rf_family ` set (filter unused (fst (consume_refresh now (rf_id r) rows)))"
proof
  assume "rf_family r \<in> rf_family ` set (filter unused (fst (consume_refresh now (rf_id r) rows)))"
  then obtain x where x: "x \<in> set rows" "rf_family x = rf_family r" "unused x" "\<not> (rf_id x = rf_id r \<and> unused x)"
    by (auto simp: consume_refresh_def unused_def split: if_splits)
  then have "x = r" using assms by (intro eq_key_imp_eq_row [of rf_family "filter unused rows"]) (auto simp: tokens_ok_def)
  with x show False by simp
qed

section \<open>What every move keeps\<close>

lemma step_tokens_ok: "token_step F H rows rows' \<Longrightarrow> tokens_ok rows \<Longrightarrow> F \<inter> families rows = {} \<Longrightarrow> tokens_ok rows'"
proof (induction rule: token_step.induct)
  case (issue row rows rows')
  then show ?case by (intro inserted_ok [OF issue.prems(1) issue.hyps(1)]) (auto simp: families_def)
next
  case (rotate r rows row now rows')
  then show ?case
    by (intro inserted_ok [OF consume_marks(1) [OF rotate.prems(1)] rotate.hyps(3)]) (simp only: rotate.hyps(5) consumed_family not_False_eq_True)
next
  case (expire rows P)
  then show ?case using distinct_weaker_filter [of rf_family unused rows "\<lambda>r. P r \<and> unused r"]
    by (simp add: tokens_ok_def distinct_map_filter filter_filter conj_commute)
qed (simp_all add: revoke_marks)

lemma step_families: "token_step F H rows rows' \<Longrightarrow> families rows' \<subseteq> families rows \<union> F"
proof (induction rule: token_step.induct)
  case (rotate r rows row now rows')
  then show ?case using insert_refresh_ok(1) [OF rotate.hyps(3)] consume_marks(2) [of now "rf_id r" rows] by (auto simp: families_def)
next
  case (issue row rows rows')
  then show ?case using insert_refresh_ok(1) [OF issue.hyps(1)] by (auto simp: families_def)
qed (auto simp: families_def revoke_marks(2) [unfolded families_def])

lemma step_hashes: "token_step F H rows rows' \<Longrightarrow> hashes rows' \<subseteq> hashes rows \<union> H"
proof (induction rule: token_step.induct)
  case (rotate r rows row now rows')
  then show ?case using insert_refresh_ok(1) [OF rotate.hyps(3)] consume_marks(3) [of now "rf_id r" rows] by (auto simp: hashes_def)
next
  case (issue row rows rows')
  then show ?case using insert_refresh_ok(1) [OF issue.hyps(1)] by (auto simp: hashes_def)
qed (auto simp: hashes_def revoke_marks(3) [unfolded hashes_def])

text \<open>A family or a token without an unused row stays so until it is drawn again.\<close>

definition none_unused :: "(refresh_row \<Rightarrow> bool) \<Rightarrow> refresh_row list \<Rightarrow> bool" where
  "none_unused P rows = list_all (\<lambda>r. P r \<longrightarrow> \<not> unused r) rows"

lemma marks_keep_dead:
  assumes "none_unused P rows" "\<And>r. P (f r) \<Longrightarrow> P r" "\<And>r. unused (f r) \<Longrightarrow> unused r"
  shows "none_unused P (map f rows)"
  using assms by (auto simp: none_unused_def list_all_iff)

lemma consume_keeps_dead:
  assumes "none_unused P rows" "\<And>r t. P (r\<lparr>rf_consumed := t\<rparr>) \<Longrightarrow> P r" shows "none_unused P (fst (consume_refresh now i rows))"
  unfolding consume_refresh_def fst_conv
  by (rule marks_keep_dead [OF assms(1)]) (auto simp: unused_def dest: assms(2) split: if_splits)

lemma revoke_keeps_dead:
  assumes "none_unused P rows" "\<And>r t. P (r\<lparr>rf_revoked := t\<rparr>) \<Longrightarrow> P r" shows "none_unused P (revoke_family now f rows)"
  unfolding revoke_family_def
  by (rule marks_keep_dead [OF assms(1)]) (auto simp: unused_def revoke_row_def dest: assms(2) split: if_splits)

lemma dead_family: "token_step F H rows rows' \<Longrightarrow> none_unused (\<lambda>r. rf_family r = f) rows \<Longrightarrow> f \<notin> F \<Longrightarrow> none_unused (\<lambda>r. rf_family r = f) rows'"
proof (induction rule: token_step.induct)
  case (rotate r rows row now rows')
  have "none_unused (\<lambda>r. rf_family r = f) (fst (consume_refresh now (rf_id r) rows))" by (rule consume_keeps_dead [OF rotate.prems(1)]) simp
  moreover have "rf_family r \<noteq> f" using rotate.hyps(1,2) rotate.prems(1) by (auto simp: none_unused_def list_all_iff)
  ultimately show ?case using insert_refresh_ok(1) [OF rotate.hyps(3)] rotate.hyps(5) by (simp add: none_unused_def)
next
  case (issue row rows rows')
  then show ?case using insert_refresh_ok(1) [OF issue.hyps(1)] by (auto simp: none_unused_def)
next
  case (revoke rows now g)
  then show ?case by (intro revoke_keeps_dead) simp_all
qed (simp_all add: none_unused_def list_all_iff)

lemma dead_hash: "token_step F H rows rows' \<Longrightarrow> none_unused (\<lambda>r. rf_hash r = h) rows \<Longrightarrow> h \<notin> H \<Longrightarrow> none_unused (\<lambda>r. rf_hash r = h) rows'"
proof (induction rule: token_step.induct)
  case (rotate r rows row now rows')
  have "none_unused (\<lambda>r. rf_hash r = h) (fst (consume_refresh now (rf_id r) rows))" by (rule consume_keeps_dead [OF rotate.prems(1)]) simp
  then show ?case using insert_refresh_ok(1) [OF rotate.hyps(3)] rotate.hyps(6) rotate.prems(2) by (auto simp: none_unused_def)
next
  case (issue row rows rows')
  then show ?case using insert_refresh_ok(1) [OF issue.hyps(1)] by (auto simp: none_unused_def)
next
  case (revoke rows now g)
  then show ?case by (intro revoke_keeps_dead) simp_all
qed (simp_all add: none_unused_def list_all_iff)

section \<open>Commands move the table\<close>

text \<open>What a command draws for the table: its family, when it starts one, and the hash of its secret.\<close>

fun drawn_family :: "auth_cmd \<Rightarrow> string list" where
  "drawn_family (AuPassword flt dw email password dbr) = [sw_family dw]"
| "drawn_family (AuCompleteLink flt dw raw zone) = [sw_family (iw_session dw)]"
| "drawn_family (AuOidc flt svc gone dw provider code invite zone rc) = [sw_family (iw_session dw)]"
| "drawn_family (AuConnection flt cflt svc gone dw cid code invite zone rc) = [sw_family (iw_session dw)]"
| "drawn_family (AuDemo flt enabled dw dbr) = [sw_family dw]"
| "drawn_family _ = []"

fun drawn_hash :: "auth_env \<Rightarrow> auth_cmd \<Rightarrow> string list" where
  "drawn_hash env (AuPassword flt dw email password dbr) = [ae_hash env (sw_raw dw)]"
| "drawn_hash env (AuCompleteLink flt dw raw zone) = [ae_hash env (sw_raw (iw_session dw))]"
| "drawn_hash env (AuOidc flt svc gone dw provider code invite zone rc) = [ae_hash env (sw_raw (iw_session dw))]"
| "drawn_hash env (AuConnection flt cflt svc gone dw cid code invite zone rc) = [ae_hash env (sw_raw (iw_session dw))]"
| "drawn_hash env (AuDemo flt enabled dw dbr) = [ae_hash env (sw_raw dw)]"
| "drawn_hash env (AuRefresh flt dw raw) = [ae_hash env (sw_raw dw)]"
| "drawn_hash env _ = []"

abbreviation command_moves :: "auth_env \<Rightarrow> auth_cmd \<Rightarrow> auth_db \<Rightarrow> auth_db \<Rightarrow> bool" where
  "command_moves env cmd db db' \<equiv> token_step (set (drawn_family cmd)) (set (drawn_hash env cmd)) (ad_refresh db) (ad_refresh db')"

lemma issue_moves:
  assumes "issue_session flt env now dw c proven db = Inr (db1, s)" "sw_family dw \<in> F" "ae_hash env (sw_raw dw) \<in> H"
  shows "token_step F H (ad_refresh db) (ad_refresh db1)"
proof -
  obtain row rows where row: "insert_refresh row (ad_refresh db) = Some rows" "db1 = db\<lparr>ad_refresh := rows\<rparr>" "unused row"
    "rf_family row = sw_family dw" "rf_hash row = ae_hash env (sw_raw dw)"
    by (rule create_refresh_ok [OF issue_session_ok(1) [OF assms(1)]])
  then have "token_step F H (ad_refresh db) rows" using assms(2,3) by (intro token_step.issue [OF row(1)]) simp_all
  then show ?thesis using row(2) by simp
qed

lemma finalize_moves:
  assumes "finalize_external flt env now dw ident conn invite zone db c created = Inr (db5, s)"
    "sw_family (iw_session dw) \<in> F" "ae_hash env (sw_raw (iw_session dw)) \<in> H"
  shows "token_step F H (ad_refresh db) (ad_refresh db5)"
proof -
  obtain email db1 invitation db2 joined db3 db4 s0 where steps: "may_sign_in flt ident conn db c = Inr email"
    "(if invite = [] then Inr (db, []) else redeem_invite flt env now invite email db) = Inr (db1, invitation)"
    "finish_signup flt env now (iw_org dw) \<lparr>su_customer = c, su_created = created, su_invitation = invitation,
       su_proven = id_proven ident, su_zone = zone\<rparr> db1 = Inr (db2, joined)"
    "mark_sso_seen flt now (id_proven ident) db2 = Inr db3" "finalize_verified_customer flt now c db3 = Inr db4"
    "issue_session flt env now (iw_session dw) c (id_proven ident) db4 = Inr (db5, s0)"
    by (rule finalize_external_ok [OF assms(1)])
  have "ad_refresh db1 = ad_refresh db" using steps(2) by (auto dest: redeem_refresh split: if_splits)
  then have "ad_refresh db4 = ad_refresh db" using steps(3-5) by (auto dest!: keeps_refresh)
  then show ?thesis using issue_moves [OF steps(6) assms(2,3)] by simp
qed

lemma oidc_moves:
  assumes "complete_oidc flt env now dw ident conn invite zone (sequential rc) db = (db', res)"
    "sw_family (iw_session dw) \<in> F" "ae_hash env (sw_raw (iw_session dw)) \<in> H"
  shows "token_step F H (ad_refresh db) (ad_refresh db')"
proof (cases res)
  case (Inl e)
  then show ?thesis using oidc_cases [OF assms(1)] by (simp add: token_step.stay)
next
  case (Inr s)
  then obtain db1 c created where fin: "account_added ident db db1"
    "finalize_external flt env now dw ident conn invite zone db1 c created = Inr (db', s)"
    using oidc_cases [OF assms(1)] by auto
  have "ad_refresh db1 = ad_refresh db" using fin(1) by (auto simp: account_added_def)
  then show ?thesis using finalize_moves [OF fin(2) assms(2,3)] by simp
qed

lemma link_moves:
  assumes "complete_magic_link flt env now dw raw zone db = (db5, res)"
    "sw_family (iw_session dw) \<in> F" "ae_hash env (sw_raw (iw_session dw)) \<in> H"
  shows "token_step F H (ad_refresh db) (ad_refresh db5)"
proof (cases res)
  case (Inl e)
  then show ?thesis using magic_link_failed [of flt env now dw raw zone db db5 e] assms(1) by (simp add: token_step.stay)
next
  case (Inr s)
  obtain t is_invite db1 c created db2 joined ts db3 s0 where steps:
    "ensure_customer flt env (iw_customer dw) (mt_email t) db = Inr (db1, c, created)"
    "finish_signup flt env now (iw_org dw) \<lparr>su_customer = c, su_created = created,
       su_invitation = (if is_invite then invitation_of t else []), su_proven = [], su_zone = zone\<rparr> db1 = Inr (db2, joined)"
    "finalize_verified_customer flt now c (with_base ((base_of db2)\<lparr>ot_tokens := ts\<rparr>) db2) = Inr db3"
    "issue_session flt env now (iw_session dw) c [] db3 = Inr (db5, s0)"
    using assms(1) unfolding Inr by (rule magic_link_ok)
  have "ad_refresh db3 = ad_refresh db" using steps(1-3) by (auto dest!: keeps_refresh)
  then show ?thesis using issue_moves [OF steps(4) assms(2,3)] by simp
qed

text \<open>A refresh that went through.\<close>

lemma refresh_ok:
  assumes "refresh_tx flt env now dw raw db = (db1, Inr (s, row))"
  obtains rows where "find_refresh (ad_refresh db) (ae_hash env raw) = Some row" "unused row" "now < rf_expires row"
    "check_refresh flt env db (rf_customer row) (proven_of row) = None"
    "consume_refresh now (rf_id row) (ad_refresh db) = (rows, True)"
    "create_refresh_token flt env now dw (rf_customer row) (rf_family row) (proven_of row) (db\<lparr>ad_refresh := rows\<rparr>) = Inr db1"
    "uc_subject (se_access s) = rf_customer row"
  using assms unfolding refresh_tx_def Let_def
  by (auto simp: unused_def generate_jwt_def split: if_split_asm option.split_asm sum.split_asm prod.split_asm auth_error.split_asm)

lemma refresh_refused:
  assumes "refresh_tx flt env now dw raw db = (db1, Inl e)"
  shows "db1 = db \<or> (\<exists>f. db1 = db\<lparr>ad_refresh := revoke_family now f (ad_refresh db)\<rparr>)"
  using assms unfolding refresh_tx_def Let_def
  by (auto split: if_split_asm option.split_asm sum.split_asm prod.split_asm auth_error.split_asm)

lemma refresh_moves:
  assumes "refresh_tx flt env now dw raw db = (db1, res)" "ae_hash env (sw_raw dw) \<in> H"
  shows "token_step F H (ad_refresh db) (ad_refresh db1)"
proof (cases res)
  case (Inl e)
  then show ?thesis using refresh_refused [of flt env now dw raw db db1 e] assms(1) by (auto intro: token_step.stay token_step.revoke)
next
  case (Inr out)
  then obtain s row where "refresh_tx flt env now dw raw db = (db1, Inr (s, row))" using assms(1) by (cases out) simp
  then obtain rows where row: "find_refresh (ad_refresh db) (ae_hash env raw) = Some row" "unused row"
    "consume_refresh now (rf_id row) (ad_refresh db) = (rows, True)"
    "create_refresh_token flt env now dw (rf_customer row) (rf_family row) (proven_of row) (db\<lparr>ad_refresh := rows\<rparr>) = Inr db1"
    by (rule refresh_ok)
  obtain new rows' where new: "insert_refresh new rows = Some rows'" "db1 = db\<lparr>ad_refresh := rows'\<rparr>" "unused new"
    "rf_family new = rf_family row" "rf_hash new = ae_hash env (sw_raw dw)"
    using row(4) by (rule create_refresh_ok) simp
  have "row \<in> set (ad_refresh db)" using row(1) by (auto simp: find_refresh_def find_Some_iff)
  then have "token_step F H (ad_refresh db) rows'" using row(2,3) new assms(2) by (intro token_step.rotate [of row _ new now]) simp_all
  then show ?thesis using new(2) by simp
qed

lemma revoke_session_moves: "token_step F H (ad_refresh db) (ad_refresh (fst (revoke_session flt env now raw db)))"
  by (auto simp: revoke_session_def revoke_family_by_hash_def intro: token_step.stay token_step.revoke split: option.split)

lemma join_after_refresh: "ad_refresh (auto_join_on_refresh flt env now odw c proven db) = ad_refresh db"
  by (auto simp: auto_join_on_refresh_def dest: finish_signup_refresh split: sum.split)

lemma request_link_refresh: "ad_refresh (fst (request_magic_link flt env now tid raw email dbr db)) = ad_refresh db"
  by (simp add: request_magic_link_def issue_action_token_def Let_def split: option.split)

lemma create_org_refresh': "ad_refresh (fst (create_org_with_defaults flt env now odw c db)) = ad_refresh db"
  by (auto simp: create_org_with_defaults_def Let_def dest: create_org_refresh split: sum.split)

lemma exchange_moves:
  assumes "sw_family (iw_session dw) \<in> F" "ae_hash env (sw_raw (iw_session dw)) \<in> H"
  shows "token_step F H (ad_refresh db) (ad_refresh (fst (complete_oidc_sign_in flt env svc gone now dw provider code invite zone (sequential rc) db)))"
    and "token_step F H (ad_refresh db) (ad_refresh (fst (complete_connection_sign_in flt cflt env svc gone now dw cid code invite zone (sequential rc) db)))"
  by (auto simp: complete_oidc_sign_in_def complete_connection_sign_in_def intro: token_step.stay oidc_moves [OF surjective_pairing assms]
      split: sum.split option.split)

lemma password_moves:
  assumes "sign_in_with_email flt env now dw email password dbr db = (db1, res)" "sw_family dw \<in> F" "ae_hash env (sw_raw dw) \<in> H"
  shows "token_step F H (ad_refresh db) (ad_refresh db1)"
proof (cases res)
  case (Inl e)
  then show ?thesis using password_failed [of flt env now dw email password dbr db db1 e] assms(1) by (simp add: token_step.stay)
next
  case (Inr s)
  obtain u :: customer where "issue_session flt env now dw (cu_id u) [] db = Inr (db1, s)" using assms(1) unfolding Inr by (rule password_ok)
  then show ?thesis using assms(2,3) by (rule issue_moves)
qed

lemma step_moves: "command_moves env cmd db (auth_step env db (now, cmd))"
proof (cases cmd)
  case (AuPassword flt dw email password dbr)
  then show ?thesis by (simp add: auth_step_def password_moves [OF surjective_pairing])
next
  case (AuDemo flt enabled dw dbr)
  show ?thesis
  proof (cases "demo_sign_in flt env enabled now dw dbr db")
    case (Pair db1 res)
    show ?thesis
    proof (cases res)
      case (Inl e)
      then show ?thesis using Pair AuDemo demo_failed [of flt env enabled now dw dbr db db1 e] by (simp add: auth_step_def token_step.stay)
    next
      case (Inr out)
      obtain s p where "out = (s, p)" by (cases out)
      then have "demo_sign_in flt env enabled now dw dbr db = (db1, Inr (s, p))" using Pair Inr by simp
      then obtain u :: customer where "issue_session flt env now dw (cu_id u) [] db = Inr (db1, s)" by (rule demo_ok)
      then show ?thesis using Pair AuDemo by (simp add: auth_step_def issue_moves)
    qed
  qed
next
  case (AuCompleteLink flt dw raw zone)
  then show ?thesis by (simp add: auth_step_def link_moves [OF surjective_pairing])
next
  case (AuRefresh flt dw raw)
  then show ?thesis by (simp add: auth_step_def refresh_moves [OF surjective_pairing])
next
  case AuSweepRefresh
  then show ?thesis by (simp add: auth_step_def delete_expired_refresh_def token_step.expire)
qed (simp_all add: auth_step_def exchange_moves revoke_session_moves join_after_refresh request_link_refresh create_org_refresh'
      delete_expired_tokens_def token_step.stay)

section \<open>Runs\<close>

text \<open>
  Every family and every secret is drawn once and is not one the table already has: they are
  random, and the code relies on it.
\<close>

definition fresh_draws :: "auth_env \<Rightarrow> refresh_row list \<Rightarrow> (time \<times> auth_cmd) list \<Rightarrow> bool" where
  "fresh_draws env rows evs =
     (let fs = concat (map (drawn_family \<circ> snd) evs); hs = concat (map (drawn_hash env \<circ> snd) evs)
      in distinct fs \<and> distinct hs \<and> set fs \<inter> families rows = {} \<and> set hs \<inter> hashes rows = {})"

lemma fresh_step:
  assumes "fresh_draws env (ad_refresh db) ((now, cmd) # evs)"
  shows "set (drawn_family cmd) \<inter> families (ad_refresh db) = {}" "set (drawn_hash env cmd) \<inter> hashes (ad_refresh db) = {}"
    "fresh_draws env (ad_refresh (auth_step env db (now, cmd))) evs"
proof -
  let ?fs = "concat (map (drawn_family \<circ> snd) evs)" and ?hs = "concat (map (drawn_hash env \<circ> snd) evs)"
  have now: "distinct (drawn_family cmd @ ?fs)" "distinct (drawn_hash env cmd @ ?hs)"
    "set (drawn_family cmd @ ?fs) \<inter> families (ad_refresh db) = {}" "set (drawn_hash env cmd @ ?hs) \<inter> hashes (ad_refresh db) = {}"
    using assms by (simp_all add: fresh_draws_def Let_def)
  then show "set (drawn_family cmd) \<inter> families (ad_refresh db) = {}" "set (drawn_hash env cmd) \<inter> hashes (ad_refresh db) = {}" by auto
  have "set ?fs \<inter> families (ad_refresh (auth_step env db (now, cmd))) = {}"
    using step_families [OF step_moves [of cmd env db now]] now(1,3) unfolding distinct_append set_append by blast
  moreover have "set ?hs \<inter> hashes (ad_refresh (auth_step env db (now, cmd))) = {}"
    using step_hashes [OF step_moves [of cmd env db now]] now(2,4) unfolding distinct_append set_append by blast
  ultimately show "fresh_draws env (ad_refresh (auth_step env db (now, cmd))) evs"
    unfolding fresh_draws_def Let_def using now(1,2) unfolding distinct_append by blast
qed

lemma run_tokens_ok:
  "tokens_ok (ad_refresh db) \<Longrightarrow> fresh_draws env (ad_refresh db) evs \<Longrightarrow> tokens_ok (ad_refresh (run_events (auth_step env) db evs))"
proof (induction evs arbitrary: db)
  case (Cons ev evs)
  obtain now cmd where ev: "ev = (now, cmd)" by (cases ev)
  note fresh = fresh_step [OF Cons.prems(2) [unfolded ev]]
  have "tokens_ok (ad_refresh (auth_step env db ev))" unfolding ev by (rule step_tokens_ok [OF step_moves Cons.prems(1) fresh(1)])
  then show ?case using Cons.IH fresh(3) by (simp add: ev)
qed simp

lemma run_dead_family:
  "none_unused (\<lambda>r. rf_family r = f) (ad_refresh db) \<Longrightarrow> f \<notin> set (concat (map (drawn_family \<circ> snd) evs))
     \<Longrightarrow> none_unused (\<lambda>r. rf_family r = f) (ad_refresh (run_events (auth_step env) db evs))"
proof (induction evs arbitrary: db)
  case (Cons ev evs)
  obtain now cmd where "ev = (now, cmd)" by (cases ev)
  then have "none_unused (\<lambda>r. rf_family r = f) (ad_refresh (auth_step env db ev))"
    using dead_family [OF step_moves Cons.prems(1)] Cons.prems(2) by simp
  then show ?case using Cons.IH Cons.prems(2) by simp
qed simp

lemma run_dead_hash:
  "none_unused (\<lambda>r. rf_hash r = h) (ad_refresh db) \<Longrightarrow> h \<notin> set (concat (map (drawn_hash env \<circ> snd) evs))
     \<Longrightarrow> none_unused (\<lambda>r. rf_hash r = h) (ad_refresh (run_events (auth_step env) db evs))"
proof (induction evs arbitrary: db)
  case (Cons ev evs)
  obtain now cmd where "ev = (now, cmd)" by (cases ev)
  then have "none_unused (\<lambda>r. rf_hash r = h) (ad_refresh (auth_step env db ev))"
    using dead_hash [OF step_moves Cons.prems(1)] Cons.prems(2) by simp
  then show ?case using Cons.IH Cons.prems(2) by simp
qed simp

lemma refused_when_dead:
  assumes "none_unused P (ad_refresh db)" "pred_option P (find_refresh (ad_refresh db) (ae_hash env raw))"
  shows "\<not> is_ok (snd (refresh_tx flt env now dw raw db))"
proof
  assume "is_ok (snd (refresh_tx flt env now dw raw db))"
  then obtain db1 s row where "refresh_tx flt env now dw raw db = (db1, Inr (s, row))"
    by (cases "refresh_tx flt env now dw raw db") (auto simp: is_ok_iff)
  then obtain rows where row: "find_refresh (ad_refresh db) (ae_hash env raw) = Some row" "unused row" by (rule refresh_ok)
  then have "row \<in> set (ad_refresh db)" by (auto simp: find_refresh_def find_Some_iff)
  with row assms show False by (auto simp: none_unused_def list_all_iff)
qed

end
