(* ===== verification/Account_Laws.thy ===== *)
theory Account_Laws
  imports Session_Laws
begin

text \<open>
  What the commands of sign-in keep of accounts, addresses and organizations: every stored address
  is ASCII, ids are distinct, no organization lets people in as administrators by their domain,
  and the claims keep their constraints. The requests are those the RPC layer lets through, which
  checks every address, and a read replica shows accounts the database has.
\<close>

section \<open>The invariant\<close>

definition accounts_ok :: "auth_db \<Rightarrow> bool" where
  "accounts_ok db = (distinct (map cu_id (ot_customers (base_of db))) \<and> list_all (\<lambda>u. ascii (cu_email u)) (ot_customers (base_of db))
     \<and> list_all (\<lambda>t. ascii (mt_email t)) (ot_tokens (base_of db)) \<and> list_all (\<lambda>v. ascii (iv_email v)) (ot_invitations (base_of db))
     \<and> list_all (\<lambda>o'. os_auto_join o' \<noteq> Some ''ORG_ROLE_ADMIN'') (sd_orgs (ad_sso db)) \<and> sso_ok (ad_sso db))"

definition replica_of :: "auth_db \<Rightarrow> auth_db \<Rightarrow> bool" where
  "replica_of dbr db =
     list_all (\<lambda>u. list_ex (\<lambda>v. cu_id v = cu_id u \<and> cu_email v = cu_email u) (ot_customers (base_of db))) (ot_customers (base_of dbr))"

fun admissible :: "auth_db \<Rightarrow> auth_cmd \<Rightarrow> bool" where
  "admissible db (AuPassword flt dw email password dbr) = (ascii email \<and> replica_of dbr db)"
| "admissible db (AuRequestLink flt tid raw email dbr) = (ascii email \<and> replica_of dbr db)"
| "admissible db (AuDemo flt enabled dw dbr) = replica_of dbr db"
| "admissible db (AuOrg (CmdInvite flt dw org inviter email r)) = ascii email"
| "admissible db _ = True"

definition checked_step :: "auth_env \<Rightarrow> auth_db \<Rightarrow> time \<times> auth_cmd \<Rightarrow> auth_db" where
  "checked_step env db ev = (if admissible db (snd ev) then auth_step env db ev else db)"

text \<open>The claims' constraints look at claims and connections only.\<close>

lemma sso_ok_cong: "sd_domains a = sd_domains b \<Longrightarrow> sd_conns a = sd_conns b \<Longrightarrow> sso_ok a = sso_ok b"
  by (simp add: sso_ok_def)

lemma sso_ok_base [simp]: "sso_ok (s\<lparr>sd_base := b\<rparr>) = sso_ok s" "sso_ok (s\<lparr>sd_orgs := os\<rparr>) = sso_ok s"
  "sso_ok (s\<lparr>sd_identities := is\<rparr>) = sso_ok s"
  by (simp_all add: sso_ok_def)

lemma sso_ok_with_base [simp]: "sso_ok (ad_sso (with_base b db)) = sso_ok (ad_sso db)"
  by (simp add: with_base_def)

lemma rest_of_base [simp]:
  "base_of (db\<lparr>ad_refresh := x\<rparr>) = base_of db" "base_of (db\<lparr>ad_projects := y\<rparr>) = base_of db" "base_of (db\<lparr>ad_keys := z\<rparr>) = base_of db"
  "base_of (db\<lparr>ad_sso := update_domains f (ad_sso db)\<rparr>) = base_of db" "base_of (db\<lparr>ad_sso := (ad_sso db)\<lparr>sd_orgs := os\<rparr>\<rparr>) = base_of db"
  "base_of (db\<lparr>ad_sso := (ad_sso db)\<lparr>sd_identities := is\<rparr>\<rparr>) = base_of db"
  by (simp_all add: base_of_def)

section \<open>Helpers\<close>

lemma acceptance_fields:
  assumes "apply_invite_acceptance flt now i c b = (b1, Inr out)"
  shows "ot_customers b1 = ot_customers b" "ot_tokens b1 = ot_tokens b" "map iv_email (ot_invitations b1) = map iv_email (ot_invitations b)"
proof -
  have same: "map iv_email (map (\<lambda>x. if iv_id x = i then x\<lparr>iv_status := status_accepted\<rparr> else x) vs) = map iv_email vs" for vs
    by simp
  show "ot_customers b1 = ot_customers b" "ot_tokens b1 = ot_tokens b" "map iv_email (ot_invitations b1) = map iv_email (ot_invitations b)"
    using assms same by (auto simp: apply_invite_acceptance_def split: if_splits option.splits prod.splits)
qed

lemma list_all_map_eq: "map g xs = map g ys \<Longrightarrow> list_all (\<lambda>x. P (g x)) xs = list_all (\<lambda>x. P (g x)) ys"
  by (metis (mono_tags, lifting) list.pred_map comp_def list.pred_cong list_all_iff list.set_map imageE imageI)

lemma accept_invite_accounts:
  assumes "accept_invite flt now su db = Inr (db1, joined)"
  shows "ot_customers (base_of db1) = ot_customers (base_of db)" "ot_tokens (base_of db1) = ot_tokens (base_of db)"
    "map iv_email (ot_invitations (base_of db1)) = map iv_email (ot_invitations (base_of db))"
    "sd_domains (ad_sso db1) = sd_domains (ad_sso db)" "sd_conns (ad_sso db1) = sd_conns (ad_sso db)" "sd_orgs (ad_sso db1) = sd_orgs (ad_sso db)"
proof -
  have "db1 = db \<or> (\<exists>b out. apply_invite_acceptance (\<lambda>c. flt (AcOrg c)) now (su_invitation su) (su_customer su) (base_of db) = (b, Inr out) \<and> db1 = with_base b db)"
    using assms by (auto simp: accept_invite_def split: if_splits prod.splits sum.splits)
  then show "ot_customers (base_of db1) = ot_customers (base_of db)" "ot_tokens (base_of db1) = ot_tokens (base_of db)"
    "map iv_email (ot_invitations (base_of db1)) = map iv_email (ot_invitations (base_of db))"
    "sd_domains (ad_sso db1) = sd_domains (ad_sso db)" "sd_conns (ad_sso db1) = sd_conns (ad_sso db)" "sd_orgs (ad_sso db1) = sd_orgs (ad_sso db)"
    using acceptance_fields by auto
qed

lemma with_base_same [simp]: "with_base (base_of db) db = db"
  by (simp add: with_base_def base_of_def)

lemma auto_join_fields:
  assumes "auto_join flt env now c email proven db = Inr (db1, joined)"
  obtains rows where "db1 = with_base ((base_of db)\<lparr>ot_members := rows\<rparr>) db"
proof (cases "proven = [] \<or> domain_of email \<noteq> proven")
  case True
  then have "db1 = db" using assms by (auto simp: auto_join_def)
  then show thesis using that [of "ot_members (base_of db)"] by simp
next
  case False
  then show thesis using assms that by (auto simp: auto_join_def split: if_splits prod.splits)
qed

lemma create_org_fields:
  assumes "create_org_in_tx flt env now dw c zone db = Inr db1"
  shows "base_of db1 = (base_of db)\<lparr>ot_members := ot_members (base_of db) @ [\<lparr>mb_org = od_org dw, mb_customer = c, mb_role = role_string RoleAdmin\<rparr>]\<rparr>"
    "ad_sso db1 = (ad_sso db)\<lparr>sd_base := base_of db1, sd_orgs := sd_orgs (ad_sso db)
       @ [\<lparr>os_id = od_org dw, os_created = now, os_auto_join = None, os_members_create = True\<rparr>]\<rparr>"
    "find_org (ad_sso db) (od_org dw) = None"
  using assms by (auto simp: create_org_in_tx_def create_project_in_tx_def Let_def with_base_def base_of_def split: if_splits)

text \<open>Finishing a sign-in touches memberships, the invitation's status and a new organization only.\<close>

lemma finish_signup_fields:
  assumes "finish_signup flt env now dw su db = Inr (db1, joined)"
  shows "ot_customers (base_of db1) = ot_customers (base_of db)" "ot_tokens (base_of db1) = ot_tokens (base_of db)"
    "map iv_email (ot_invitations (base_of db1)) = map iv_email (ot_invitations (base_of db))"
    "sd_domains (ad_sso db1) = sd_domains (ad_sso db)" "sd_conns (ad_sso db1) = sd_conns (ad_sso db)"
    "sd_orgs (ad_sso db1) = sd_orgs (ad_sso db) \<or> (\<exists>i. sd_orgs (ad_sso db1) = sd_orgs (ad_sso db)
       @ [\<lparr>os_id = i, os_created = now, os_auto_join = None, os_members_create = True\<rparr>])"
proof -
  obtain db2 j where acc: "accept_invite flt now su db = Inr (db2, j)"
    using assms by (cases "accept_invite flt now su db") (auto simp: finish_signup_def)
  have "db1 = db2 \<or> (\<exists>rows. db1 = with_base ((base_of db2)\<lparr>ot_members := rows\<rparr>) db2)
     \<or> (\<exists>rows c zone. create_org_in_tx flt env now dw c zone (with_base ((base_of db2)\<lparr>ot_members := rows\<rparr>) db2) = Inr db1)"
    using assms acc by (auto simp: finish_signup_def elim!: auto_join_fields split: if_splits sum.splits prod.splits)
  then have "(\<exists>rows. base_of db1 = (base_of db2)\<lparr>ot_members := rows\<rparr>) \<and> sd_domains (ad_sso db1) = sd_domains (ad_sso db2)
     \<and> sd_conns (ad_sso db1) = sd_conns (ad_sso db2) \<and> (sd_orgs (ad_sso db1) = sd_orgs (ad_sso db2)
       \<or> (\<exists>i. sd_orgs (ad_sso db1) = sd_orgs (ad_sso db2) @ [\<lparr>os_id = i, os_created = now, os_auto_join = None, os_members_create = True\<rparr>]))"
  proof (elim disjE exE)
    fix rows c zone
    assume "create_org_in_tx flt env now dw c zone (with_base ((base_of db2)\<lparr>ot_members := rows\<rparr>) db2) = Inr db1"
    note made = create_org_fields [OF this]
    show ?thesis using made(1,2) by auto
  qed (auto intro: exI [of _ "ot_members (base_of db2)"])
  then show "ot_customers (base_of db1) = ot_customers (base_of db)" "ot_tokens (base_of db1) = ot_tokens (base_of db)"
    "map iv_email (ot_invitations (base_of db1)) = map iv_email (ot_invitations (base_of db))"
    "sd_domains (ad_sso db1) = sd_domains (ad_sso db)" "sd_conns (ad_sso db1) = sd_conns (ad_sso db)"
    "sd_orgs (ad_sso db1) = sd_orgs (ad_sso db) \<or> (\<exists>i. sd_orgs (ad_sso db1) = sd_orgs (ad_sso db)
       @ [\<lparr>os_id = i, os_created = now, os_auto_join = None, os_members_create = True\<rparr>])"
    using accept_invite_accounts [OF acc] by auto
qed

section \<open>Accounts\<close>

definition accounts :: "org_tables \<Rightarrow> (string \<times> string) list" where
  "accounts b = map (\<lambda>u. (cu_id u, cu_email u)) (ot_customers b)"

lemma find_map_of: "map_option g (List.find (\<lambda>u. f u = c) us) = map_of (map (\<lambda>u. (f u, g u)) us) c"
  by (induction us) auto

lemma customer_email_accounts: "customer_email b c = map_of (accounts b) c"
  by (simp add: accounts_def customer_email_def find_map_of)

lemma verify_accounts: "map (\<lambda>u. (cu_id u, cu_email u)) (map (verify_customer now c) us) = map (\<lambda>u. (cu_id u, cu_email u)) us"
  by (simp add: verify_customer_def comp_def if_distrib cong: if_cong)

lemma verified_fields:
  assumes "finalize_verified_customer flt now c db = Inr db1"
  shows "accounts (base_of db1) = accounts (base_of db)" "ot_tokens (base_of db1) = ot_tokens (base_of db)"
    "ot_invitations (base_of db1) = ot_invitations (base_of db)" "ot_members (base_of db1) = ot_members (base_of db)"
    "sd_domains (ad_sso db1) = sd_domains (ad_sso db)" "sd_conns (ad_sso db1) = sd_conns (ad_sso db)" "sd_orgs (ad_sso db1) = sd_orgs (ad_sso db)"
  using assms verify_accounts by (auto simp: finalize_verified_customer_def accounts_def split: if_splits)

lemma issue_fields:
  assumes "issue_session flt env now dw c proven db = Inr (db1, s)"
  shows "base_of db1 = base_of db" "ad_sso db1 = ad_sso db"
  using issue_session_ok(1) [OF assms] by (auto elim!: create_refresh_ok simp: base_of_def)

lemma mark_seen_fields:
  assumes "mark_sso_seen flt now proven db = Inr db1"
  shows "base_of db1 = base_of db" "sd_orgs (ad_sso db1) = sd_orgs (ad_sso db)" "sso_ok (ad_sso db) \<Longrightarrow> sso_ok (ad_sso db1)"
proof -
  have marked: "sso_ok s \<Longrightarrow> sso_ok (update_domains (mark_seen now proven) s)" for s
    by (rule update_ok) (auto simp: mark_seen_def claim_key_def row_ok_def is_verified_def split: if_splits)
  have "db1 = db \<or> db1 = db\<lparr>ad_sso := update_domains (mark_seen now proven) (ad_sso db)\<rparr>"
    using assms by (auto simp: mark_sso_seen_def split: if_splits)
  then show "base_of db1 = base_of db" "sd_orgs (ad_sso db1) = sd_orgs (ad_sso db)" "sso_ok (ad_sso db) \<Longrightarrow> sso_ok (ad_sso db1)"
    using marked by auto
qed

lemma redeem_ok:
  assumes "redeem_invite flt env now raw email db = Inr (db1, i)"
  obtains t where "valid_token now (ae_hash env raw) (ot_tokens (base_of db)) = Some t" "mt_purpose t = purpose_org_invite"
    "equal_fold (ae_fold env) (mt_email t) email" "i = invitation_of t"
    "db1 = with_base ((base_of db)\<lparr>ot_tokens := fst (consume_token now (mt_id t) (ot_tokens (base_of db)))\<rparr>) db"
  using assms unfolding redeem_invite_def case_prod_beta by (auto split: if_splits option.splits)

lemma redeem_fields:
  assumes "redeem_invite flt env now raw email db = Inr (db1, i)"
  shows "accounts (base_of db1) = accounts (base_of db)" "map mt_email (ot_tokens (base_of db1)) = map mt_email (ot_tokens (base_of db))"
    "ot_invitations (base_of db1) = ot_invitations (base_of db)" "ot_members (base_of db1) = ot_members (base_of db)"
    "sd_domains (ad_sso db1) = sd_domains (ad_sso db)" "sd_conns (ad_sso db1) = sd_conns (ad_sso db)" "sd_orgs (ad_sso db1) = sd_orgs (ad_sso db)"
proof -
  have same: "map mt_email (fst (consume_token now t ts)) = map mt_email ts" for t ts by (simp add: consume_token_def)
  obtain t :: mail_token where "db1 = with_base ((base_of db)\<lparr>ot_tokens := fst (consume_token now (mt_id t) (ot_tokens (base_of db)))\<rparr>) db"
    by (rule redeem_ok [OF assms])
  then show "accounts (base_of db1) = accounts (base_of db)" "map mt_email (ot_tokens (base_of db1)) = map mt_email (ot_tokens (base_of db))"
    "ot_invitations (base_of db1) = ot_invitations (base_of db)" "ot_members (base_of db1) = ot_members (base_of db)"
    "sd_domains (ad_sso db1) = sd_domains (ad_sso db)" "sd_conns (ad_sso db1) = sd_conns (ad_sso db)" "sd_orgs (ad_sso db1) = sd_orgs (ad_sso db)"
    using same by (simp_all add: accounts_def)
qed

lemma added_fields:
  assumes "account_added ident db db1"
  shows "ot_tokens (base_of db1) = ot_tokens (base_of db)" "ot_invitations (base_of db1) = ot_invitations (base_of db)"
    "ot_members (base_of db1) = ot_members (base_of db)" "sd_domains (ad_sso db1) = sd_domains (ad_sso db)"
    "sd_conns (ad_sso db1) = sd_conns (ad_sso db)" "sd_orgs (ad_sso db1) = sd_orgs (ad_sso db)"
  using assms by (auto simp: account_added_def base_of_def)

section \<open>The invariant's frame\<close>

definition account_new :: "auth_db \<Rightarrow> auth_db \<Rightarrow> bool" where
  "account_new db db1 = (accounts (base_of db1) = accounts (base_of db)
     \<or> (\<exists>i e. accounts (base_of db1) = accounts (base_of db) @ [(i, e)] \<and> ascii e \<and> customer_email (base_of db) i = None))"

lemma accounts_okI:
  assumes "accounts_ok db" "account_new db db1"
    and "\<And>t. t \<in> set (ot_tokens (base_of db1)) \<Longrightarrow> mt_email t \<in> mt_email ` set (ot_tokens (base_of db)) \<or> ascii (mt_email t)"
    and "\<And>v. v \<in> set (ot_invitations (base_of db1)) \<Longrightarrow> iv_email v \<in> iv_email ` set (ot_invitations (base_of db)) \<or> ascii (iv_email v)"
    and "\<And>o'. o' \<in> set (sd_orgs (ad_sso db1)) \<Longrightarrow> os_auto_join o' \<in> os_auto_join ` set (sd_orgs (ad_sso db)) \<or> os_auto_join o' \<noteq> Some ''ORG_ROLE_ADMIN''"
    and "sso_ok (ad_sso db) \<Longrightarrow> sso_ok (ad_sso db1)"
  shows "accounts_ok db1"
proof -
  have ids: "map cu_id (ot_customers b) = map fst (accounts b)" for b by (simp add: accounts_def)
  have mails: "list_all (\<lambda>u. ascii (cu_email u)) (ot_customers b) = list_all (\<lambda>x. ascii (snd x)) (accounts b)" for b
    by (auto simp: accounts_def list_all_iff)
  have "distinct (map cu_id (ot_customers (base_of db1))) \<and> list_all (\<lambda>u. ascii (cu_email u)) (ot_customers (base_of db1))"
    using assms(1,2) unfolding accounts_ok_def account_new_def ids mails customer_email_accounts
    by (auto simp: map_of_eq_None_iff)
  then show ?thesis using assms unfolding accounts_ok_def by (fastforce simp: list_all_iff)
qed

text \<open>The sign-in steps that keep it: no address and no claim is touched.\<close>

definition frame :: "auth_db \<Rightarrow> auth_db \<Rightarrow> bool" where
  "frame db db1 = (accounts (base_of db1) = accounts (base_of db)
     \<and> map mt_email (ot_tokens (base_of db1)) = map mt_email (ot_tokens (base_of db))
     \<and> map iv_email (ot_invitations (base_of db1)) = map iv_email (ot_invitations (base_of db))
     \<and> (\<forall>o'\<in>set (sd_orgs (ad_sso db1)). o' \<in> set (sd_orgs (ad_sso db)) \<or> os_auto_join o' = None)
     \<and> (sso_ok (ad_sso db) \<longrightarrow> sso_ok (ad_sso db1)))"

lemma frame_refl [simp]: "frame db db"
  by (simp add: frame_def)

lemma frame_orgs:
  assumes "frame db db1" "o' \<in> set (sd_orgs (ad_sso db1))"
  shows "o' \<in> set (sd_orgs (ad_sso db)) \<or> os_auto_join o' = None"
proof -
  have "\<forall>o'\<in>set (sd_orgs (ad_sso db1)). o' \<in> set (sd_orgs (ad_sso db)) \<or> os_auto_join o' = None"
    using assms(1) unfolding frame_def by (elim conjE)
  then show ?thesis using assms(2) by (rule bspec)
qed

lemma frame_trans: assumes "frame a b" "frame b c" shows "frame a c"
proof -
  have "o' \<in> set (sd_orgs (ad_sso a)) \<or> os_auto_join o' = None" if "o' \<in> set (sd_orgs (ad_sso c))" for o' :: org_set
    using frame_orgs [OF assms(2) that] by (elim disjE) (erule frame_orgs [OF assms(1)], erule disjI2)
  then show ?thesis using assms by (simp add: frame_def)
qed

lemma frame_ok:
  assumes "accounts_ok db" "frame db db1" shows "accounts_ok db1"
proof (rule accounts_okI [OF assms(1)])
  show "account_new db db1" using assms(2) by (simp add: account_new_def frame_def)
  show "mt_email t \<in> mt_email ` set (ot_tokens (base_of db)) \<or> ascii (mt_email t)" if "t \<in> set (ot_tokens (base_of db1))" for t
    using assms(2) that unfolding frame_def by (metis imageI list.set_map)
  show "iv_email v \<in> iv_email ` set (ot_invitations (base_of db)) \<or> ascii (iv_email v)" if "v \<in> set (ot_invitations (base_of db1))" for v
    using assms(2) that unfolding frame_def by (metis imageI list.set_map)
  show "os_auto_join o' \<in> os_auto_join ` set (sd_orgs (ad_sso db)) \<or> os_auto_join o' \<noteq> Some ''ORG_ROLE_ADMIN''" if "o' \<in> set (sd_orgs (ad_sso db1))" for o'
    using assms(2) that unfolding frame_def by auto
qed (use assms(2) in \<open>simp add: frame_def\<close>)

lemma finish_frame: "finish_signup flt env now dw su db = Inr (db1, joined) \<Longrightarrow> frame db db1"
proof -
  assume *: "finish_signup flt env now dw su db = Inr (db1, joined)"
  note f = finish_signup_fields [OF *]
  have "sso_ok (ad_sso db1) = sso_ok (ad_sso db)" by (rule sso_ok_cong [OF f(4,5)])
  with f(1-3,6) show "frame db db1" by (auto simp: frame_def accounts_def)
qed

lemma verified_frame: "finalize_verified_customer flt now c db = Inr db1 \<Longrightarrow> frame db db1"
proof -
  assume *: "finalize_verified_customer flt now c db = Inr db1"
  note f = verified_fields [OF *]
  have "sso_ok (ad_sso db1) = sso_ok (ad_sso db)" by (rule sso_ok_cong [OF f(5,6)])
  with f show "frame db db1" by (simp add: frame_def)
qed

lemma redeem_frame: "redeem_invite flt env now raw email db = Inr (db1, i) \<Longrightarrow> frame db db1"
proof -
  assume *: "redeem_invite flt env now raw email db = Inr (db1, i)"
  note f = redeem_fields [OF *]
  have "sso_ok (ad_sso db1) = sso_ok (ad_sso db)" by (rule sso_ok_cong [OF f(5,6)])
  with f show "frame db db1" by (simp add: frame_def)
qed

lemma mark_seen_frame: "mark_sso_seen flt now proven db = Inr db1 \<Longrightarrow> frame db db1"
  using mark_seen_fields [of flt now proven db db1] by (simp add: frame_def)

lemma issue_frame: "issue_session flt env now dw c proven db = Inr (db1, s) \<Longrightarrow> frame db db1"
  using issue_fields [of flt env now dw c proven db db1 s] by (simp add: frame_def)

lemma tokens_frame:
  "map mt_email ts = map mt_email (ot_tokens (base_of db)) \<Longrightarrow> frame db (with_base ((base_of db)\<lparr>ot_tokens := ts\<rparr>) db)"
  by (simp add: frame_def accounts_def)

lemma finalize_frame:
  assumes "finalize_external flt env now dw ident conn invite zone db c created = Inr (db5, s)" shows "frame db db5"
proof -
  obtain email db1 invitation db2 joined db3 db4 s0 where steps: "may_sign_in flt ident conn db c = Inr email"
    "(if invite = [] then Inr (db, []) else redeem_invite flt env now invite email db) = Inr (db1, invitation)"
    "finish_signup flt env now (iw_org dw) \<lparr>su_customer = c, su_created = created, su_invitation = invitation,
       su_proven = id_proven ident, su_zone = zone\<rparr> db1 = Inr (db2, joined)"
    "mark_sso_seen flt now (id_proven ident) db2 = Inr db3" "finalize_verified_customer flt now c db3 = Inr db4"
    "issue_session flt env now (iw_session dw) c (id_proven ident) db4 = Inr (db5, s0)"
    by (rule finalize_external_ok [OF assms])
  have "frame db db1" using steps(2) redeem_frame by (auto split: if_splits)
  from this finish_frame [OF steps(3)] mark_seen_frame [OF steps(4)] verified_frame [OF steps(5)] issue_frame [OF steps(6)]
  show ?thesis by (meson frame_trans)
qed

lemma added_ok:
  assumes "accounts_ok db" "account_added ident db db1" shows "accounts_ok db1"
proof (rule accounts_okI [OF assms(1)])
  note f = added_fields [OF assms(2)]
  show "account_new db db1"
    using assms(2) ascii_of_runes by (auto simp: account_added_def account_new_def accounts_def new_account_def base_of_def)
  show "sso_ok (ad_sso db) \<Longrightarrow> sso_ok (ad_sso db1)" using sso_ok_cong [OF f(4,5)] by simp
  fix t v o'
  show "mt_email t \<in> mt_email ` set (ot_tokens (base_of db)) \<or> ascii (mt_email t)" if "t \<in> set (ot_tokens (base_of db1))" using that f(1) by simp
  show "iv_email v \<in> iv_email ` set (ot_invitations (base_of db)) \<or> ascii (iv_email v)" if "v \<in> set (ot_invitations (base_of db1))" using that f(2) by simp
  show "os_auto_join o' \<in> os_auto_join ` set (sd_orgs (ad_sso db)) \<or> os_auto_join o' \<noteq> Some ''ORG_ROLE_ADMIN''" if "o' \<in> set (sd_orgs (ad_sso db1))"
    using that f(6) by simp
qed

lemma oidc_ok:
  assumes "accounts_ok db" "complete_oidc flt env now dw ident conn invite zone (sequential rc) db = (db', res)"
  shows "accounts_ok db'"
proof (cases res)
  case (Inl e)
  then show ?thesis using oidc_cases [OF assms(2)] assms(1) by simp
next
  case (Inr s)
  then obtain db1 c created where "account_added ident db db1"
    and fin: "finalize_external flt env now dw ident conn invite zone db1 c created = Inr (db', s)"
    using oidc_cases [OF assms(2)] by auto
  then have "accounts_ok db1" using added_ok [OF assms(1)] by blast
  then show ?thesis using finalize_frame [OF fin] by (rule frame_ok)
qed

section \<open>The other components' commands\<close>

lemma sso_rest:
  "sd_base (fst (add_domain flt draw org raw s)) = sd_base s" "sd_orgs (fst (add_domain flt draw org raw s)) = sd_orgs s"
  "sd_base (fst (verify_domain flt txt now s0 org i s)) = sd_base s" "sd_orgs (fst (verify_domain flt txt now s0 org i s)) = sd_orgs s"
  "sd_base (fst (update_domain flt txt s0 org i on_now s)) = sd_base s" "sd_orgs (fst (update_domain flt txt s0 org i on_now s)) = sd_orgs s"
  "sd_base (fst (verify_by_operator flt now draw org raw s)) = sd_base s" "sd_orgs (fst (verify_by_operator flt now draw org raw s)) = sd_orgs s"
  "sd_base (fst (unenforce_domain flt raw s)) = sd_base s" "sd_orgs (fst (unenforce_domain flt raw s)) = sd_orgs s"
  by (simp_all add: add_domain_def verify_domain_def update_domain_def verify_by_operator_def unenforce_domain_def Let_def
      split: option.split sum.split list.split)

lemma drop_rest:
  assumes "drop_domains flt ds s = Inr s1" shows "sd_base s1 = sd_base s" "sd_orgs s1 = sd_orgs s"
  using drop_domains_cases(1) [OF assms] by simp_all

lemma sso_rest_drops:
  "sd_base (fst (release_domain flt org raw s)) = sd_base s" "sd_orgs (fst (release_domain flt org raw s)) = sd_orgs s"
  "sd_base (fst (remove_domain flt s0 org i s)) = sd_base s" "sd_orgs (fst (remove_domain flt s0 org i s)) = sd_orgs s"
  "sd_base (fst (delete_connection flt svc org c s)) = sd_base s" "sd_orgs (fst (delete_connection flt svc org c s)) = sd_orgs s"
proof -
  show "sd_base (fst (release_domain flt org raw s)) = sd_base s" "sd_orgs (fst (release_domain flt org raw s)) = sd_orgs s"
    by (auto simp: release_domain_def clear_sso_seen_def Let_def split: option.split sum.split)
  have "sd_base (fst (remove_domain flt s0 org i s)) = sd_base s \<and> sd_orgs (fst (remove_domain flt s0 org i s)) = sd_orgs s"
  proof (cases "fst (remove_domain flt s0 org i s) = s")
    case False
    obtain d :: domain_row and s1 where "fst (remove_domain flt s0 org i s) = fst (delete_domain org i s1)"
      "(dr_conn d = None \<and> s1 = s) \<or> (\<exists>c. dr_conn d = Some c \<and> drop_domains flt [dr_domain d] s = Inr s1)"
      by (rule remove_domain_cases [OF False])
    then show ?thesis using drop_rest by (auto simp: delete_domain_def Let_def)
  qed simp
  then show "sd_base (fst (remove_domain flt s0 org i s)) = sd_base s" "sd_orgs (fst (remove_domain flt s0 org i s)) = sd_orgs s" by simp_all
  have "sd_base (fst (delete_connection flt svc org c s)) = sd_base s \<and> sd_orgs (fst (delete_connection flt svc org c s)) = sd_orgs s"
  proof (cases "fst (delete_connection flt svc org c s) = s")
    case False
    have "drop_domains flt (connection_domains s c) (delete_connection_row org c (delete_identities c s)) = Inr (fst (delete_connection flt svc org c s))"
      by (rule delete_connection_cases [OF False])
    from drop_rest [OF this] show ?thesis by (simp add: delete_connection_row_def delete_identities_def)
  qed simp
  then show "sd_base (fst (delete_connection flt svc org c s)) = sd_base s" "sd_orgs (fst (delete_connection flt svc org c s)) = sd_orgs s" by simp_all
qed

lemma set_connection_rest:
  "sd_base (fst (set_connection flt svc new_id s0 org inp s)) = sd_base s \<and> sd_orgs (fst (set_connection flt svc new_id s0 org inp s)) = sd_orgs s"
proof (cases "fst (set_connection flt svc new_id s0 org inp s) = s")
  case False
  obtain row changed ds ids s1 s3 n where
    reset: "reset_issuer flt changed (cn_id row) ds (save_row row s) = Inr s1" and
    drop: "drop_domains flt (snd (detach_domains org (cn_id row) ids s1)) (fst (detach_domains org (cn_id row) ids s1)) = Inr s3" and
    attach: "attach_domains org (cn_id row) ids s3 = Some (fst (set_connection flt svc new_id s0 org inp s), n)"
    by (rule set_connection_cases [OF False])
  have "sd_base s1 = sd_base s \<and> sd_orgs s1 = sd_orgs s"
    using reset by (auto simp: reset_issuer_def clear_sso_seen_def delete_identities_def save_row_def split: if_splits)
  then have "sd_base s3 = sd_base s \<and> sd_orgs s3 = sd_orgs s" using drop_rest [OF drop] by (simp add: detach_domains_def Let_def)
  moreover have "\<exists>f. fst (set_connection flt svc new_id s0 org inp s) = update_domains f s3"
    using attach by (simp add: attach_domains_def Let_def split: if_splits) (rule exI, rule sym, elim conjE, assumption)
  ultimately show ?thesis by auto
qed simp

text \<open>The settings store no administrator's role.\<close>

lemma settings_orgs:
  assumes "o' \<in> set (sd_orgs (fst (set_domain_settings flt txt s0 org want s)))"
  shows "os_auto_join o' \<in> os_auto_join ` set (sd_orgs s) \<or> os_auto_join o' \<noteq> Some ''ORG_ROLE_ADMIN''"
proof -
  let ?role = "if ds_auto_join want = [] then None else Some (ds_auto_join want)"
  have "fst (set_domain_settings flt txt s0 org want s) = s \<or> (?role \<noteq> Some (role_string RoleAdmin)
      \<and> (\<exists>x. fst (set_domain_settings flt txt s0 org want s) = s\<lparr>sd_orgs := map (\<lambda>y. if os_id y = org
           then x\<lparr>os_auto_join := ?role, os_members_create := ds_members_create want\<rparr> else y) (sd_orgs s)\<rparr>))"
  proof (cases "list_domains flt s0 org")
    case (Inl e)
    then show ?thesis by (simp add: set_domain_settings_def)
  next
    case (Inr p)
    obtain cur ds where p: "p = (cur, ds)" by (cases p)
    obtain check where eq: "set_domain_settings flt txt s0 org want s = (case check of
        Some e \<Rightarrow> (s, Inl e)
      | None \<Rightarrow> if flt ScWrite then (s, Inl SsoDb)
                else case find_org s org of
                  None \<Rightarrow> (s, Inl ErrOrgMissing)
                | Some x \<Rightarrow> if ?role = Some (role_string RoleAdmin) then (s, Inl SsoDb)
                            else (s\<lparr>sd_orgs := map (\<lambda>y. if os_id y = org then x\<lparr>os_auto_join := ?role, os_members_create := ds_members_create want\<rparr> else y) (sd_orgs s)\<rparr>,
                                  Inr (settings_of (x\<lparr>os_auto_join := ?role, os_members_create := ds_members_create want\<rparr>))))"
      unfolding set_domain_settings_def Inr p Let_def sum.case prod.case by blast
    show ?thesis by (cases check; cases "find_org s org") (auto simp: eq)
  qed
  then consider "fst (set_domain_settings flt txt s0 org want s) = s"
    | x where "?role \<noteq> Some (role_string RoleAdmin)" "fst (set_domain_settings flt txt s0 org want s) = s\<lparr>sd_orgs := map (\<lambda>y. if os_id y = org
         then x\<lparr>os_auto_join := ?role, os_members_create := ds_members_create want\<rparr> else y) (sd_orgs s)\<rparr>" by blast
  then show ?thesis
  proof cases
    case 1
    then show ?thesis using assms by simp
  next
    case (2 x)
    then obtain y where y: "y \<in> set (sd_orgs s)" "o' = (if os_id y = org
         then x\<lparr>os_auto_join := ?role, os_members_create := ds_members_create want\<rparr> else y)" using assms by auto
    show ?thesis
    proof (cases "os_id y = org")
      case True
      then show ?thesis using y(2) 2(1) by (simp add: role_string_def)
    next
      case False
      then show ?thesis using y by simp
    qed
  qed
qed

lemma settings_base: "sd_base (fst (set_domain_settings flt txt s0 org want s)) = sd_base s"
  by (simp add: set_domain_settings_def Let_def split: sum.split option.split prod.split)

lemma sso_step_rest: "sd_base (sso_step s cmd) = sd_base s"
  by (cases cmd) (simp_all add: sso_rest sso_rest_drops set_connection_rest settings_base)

lemma sso_step_orgs:
  "o' \<in> set (sd_orgs (sso_step s cmd)) \<Longrightarrow> os_auto_join o' \<in> os_auto_join ` set (sd_orgs s) \<or> os_auto_join o' \<noteq> Some ''ORG_ROLE_ADMIN''"
  using settings_orgs by (cases cmd) (simp_all add: sso_rest sso_rest_drops set_connection_rest)

text \<open>Members' commands: customers stay, and a mail goes to an invitation's address.\<close>

lemma pending_in: "locked_pending flt b org i = Inr v \<Longrightarrow> v \<in> set (ot_invitations b)"
  by (auto simp: locked_pending_def find_invitation_def find_Some_iff split: if_splits option.splits)

lemma invalidate_mails: "mt_email ` set (invalidate_active i now ts) = mt_email ` set ts"
proof -
  have "mt_email (if active_for i now t then t\<lparr>mt_consumed := Some now\<rparr> else t) = mt_email t" for t by simp
  then show ?thesis by (simp only: invalidate_active_def set_map image_image)
qed

lemma resend_cases:
  assumes "resend_invite flt hash now dw org i b = (b1, res)"
  obtains "b1 = b" | v where "v \<in> set (ot_invitations b)"
    "b1 = b\<lparr>ot_invitations := map (\<lambda>x. if iv_id x = i then v\<lparr>iv_expires := now + invite_ttl, iv_token := dw_storage dw\<rparr> else x) (ot_invitations b),
            ot_tokens := invalidate_active i now (ot_tokens b)
              @ [issue_token hash now (dw_token dw) (dw_raw dw) (v\<lparr>iv_expires := now + invite_ttl, iv_token := dw_storage dw\<rparr>)]\<rparr>"
proof (cases "b1 = b")
  case False
  then obtain v where v: "locked_pending flt b org i = Inr v"
    using assms by (cases "locked_pending flt b org i") (simp_all add: resend_invite_def split: if_splits)
  show thesis by (rule that(2) [OF pending_in [OF v]]) (use assms v False in \<open>simp add: resend_invite_def Let_def split: if_splits\<close>)
qed (rule that(1))

lemma invite_cases:
  "invite_member_with_role flt uni hash now dw org inviter email r b = (b1, res) \<Longrightarrow>
     v = \<lparr>iv_id = dw_invitation dw, iv_org = org, iv_inviter = inviter, iv_email = email, iv_role = r,
          iv_status = status_pending, iv_token = dw_storage dw, iv_expires = now + invite_ttl\<rparr> \<Longrightarrow>
     b1 = b \<or> b1 = b\<lparr>ot_invitations := ot_invitations b @ [v], ot_tokens := ot_tokens b @ [issue_token hash now (dw_token dw) (dw_raw dw) v]\<rparr>"
  by (simp add: invite_member_with_role_def Let_def split: if_splits)

definition mails_from :: "org_tables \<Rightarrow> string list \<Rightarrow> org_tables \<Rightarrow> bool" where
  "mails_from b es b1 = (ot_customers b1 = ot_customers b
     \<and> mt_email ` set (ot_tokens b1) \<subseteq> mt_email ` set (ot_tokens b) \<union> iv_email ` set (ot_invitations b) \<union> set es
     \<and> iv_email ` set (ot_invitations b1) \<subseteq> iv_email ` set (ot_invitations b) \<union> set es)"

lemma mails_resend: "mails_from b [] (fst (resend_invite flt hash now dw org i b))"
proof (cases "resend_invite flt hash now dw org i b")
  case (Pair b1 res)
  from resend_cases [OF Pair]  show ?thesis by cases (auto simp: Pair mails_from_def invalidate_mails issue_token_def)
qed

lemma mails_invite: "mails_from b [email] (fst (invite_member_with_role flt uni hash now dw org inviter email r b))"
proof (cases "invite_member_with_role flt uni hash now dw org inviter email r b")
  case (Pair b1 res)
  from invite_cases [OF Pair refl] show ?thesis by (auto simp: Pair mails_from_def issue_token_def)
qed

lemma mails_accept: "mails_from b [] (fst (apply_invite_acceptance flt now i c b))"
proof (cases "apply_invite_acceptance flt now i c b")
  case (Pair b1 res)
  show ?thesis
  proof (cases res)
    case (Inl e)
    then have "b1 = b" using Pair by (auto simp: apply_invite_acceptance_def split: if_splits option.splits prod.splits)
    then show ?thesis by (simp add: Pair mails_from_def)
  next
    case (Inr out)
    note f = acceptance_fields [OF Pair [unfolded Inr]]
    have "iv_email ` set (ot_invitations b1) = iv_email ` set (ot_invitations b)" using f(3) by (metis list.set_map)
    then show ?thesis using f(1,2) by (simp add: Pair mails_from_def)
  qed
qed

lemma mails_members:
  "mails_from b [] (fst (remove_member_safe flt org c b))" "mails_from b [] (fst (leave flt org c b))"
  "mails_from b [] (fst (update_member_role flt org c r b))" "mails_from b [] (fst (revoke_invite flt org i b))"
  by (auto simp: mails_from_def remove_member_safe_def leave_def update_member_role_def revoke_invite_def split: prod.split option.split sum.split)

lemma mails_org: "admissible db (AuOrg cmd) \<Longrightarrow> \<exists>es. list_all ascii es \<and> mails_from b es (org_step uni hash b (now, cmd))"
  using mails_resend [of b] mails_invite [of b] mails_accept [of b] mails_members [of b]
  by (cases cmd) (auto simp: org_step_def intro: exI [of _ "[]"] exI [of _ "[_]"])

section \<open>Every command\<close>

lemma mails_ok:
  assumes "accounts_ok db" "list_all ascii es" "mails_from (base_of db) es b1" shows "accounts_ok (with_base b1 db)"
proof (rule accounts_okI [OF assms(1)])
  show "account_new db (with_base b1 db)" using assms(3) by (simp add: account_new_def accounts_def mails_from_def)
  show "mt_email t \<in> mt_email ` set (ot_tokens (base_of db)) \<or> ascii (mt_email t)" if "t \<in> set (ot_tokens (base_of (with_base b1 db)))" for t
  proof -
    have "mt_email t \<in> mt_email ` set (ot_tokens (base_of db)) \<union> iv_email ` set (ot_invitations (base_of db)) \<union> set es"
      using assms(3) that unfolding mails_from_def with_base_simps by blast
    then show ?thesis using assms(1,2) by (auto simp: accounts_ok_def list_all_iff)
  qed
  show "iv_email v \<in> iv_email ` set (ot_invitations (base_of db)) \<or> ascii (iv_email v)" if "v \<in> set (ot_invitations (base_of (with_base b1 db)))" for v
  proof -
    have "iv_email v \<in> iv_email ` set (ot_invitations (base_of db)) \<union> set es"
      using assms(3) that unfolding mails_from_def with_base_simps by blast
    then show ?thesis using assms(2) by (auto simp: list_all_iff)
  qed
qed simp_all

lemma replica_ascii:
  assumes "accounts_ok db" "replica_of dbr db" "u \<in> set (ot_customers (base_of dbr))"
  shows "ascii (cu_email u)" "customer_email (base_of db) (cu_id u) = Some (cu_email u)"
proof -
  obtain v where v: "v \<in> set (ot_customers (base_of db))" "cu_id v = cu_id u" "cu_email v = cu_email u"
    using assms(2,3) by (auto simp: replica_of_def list_all_iff list_ex_iff)
  with assms(1) show "ascii (cu_email u)" by (auto simp: accounts_ok_def list_all_iff)
  have "distinct (map fst (accounts (base_of db)))" using assms(1) by (simp add: accounts_ok_def accounts_def comp_def)
  moreover have "(cu_id v, cu_email v) \<in> set (accounts (base_of db))" using v(1) unfolding accounts_def set_map by (rule imageI)
  then have "(cu_id u, cu_email u) \<in> set (accounts (base_of db))" by (simp add: v(2,3))
  ultimately show "customer_email (base_of db) (cu_id u) = Some (cu_email u)" by (simp add: customer_email_accounts)
qed

lemma by_email_in: "customer_by_email uni b email = Some u \<Longrightarrow> u \<in> set (ot_customers b) \<and> sql_lower uni (cu_email u) = sql_lower uni email"
  by (auto simp: customer_by_email_def find_Some_iff)

lemma action_token_ok:
  assumes "accounts_ok db" "ascii email" shows "accounts_ok (fst (issue_action_token flt env now tid c email purpose ttl raw db))"
proof (cases "fst (issue_action_token flt env now tid c email purpose ttl raw db) = db")
  case False
  let ?ts = "ot_tokens (base_of db)"
  let ?ts1 = "if c = [] then ?ts else invalidate_by_customer now c purpose ?ts"
  have mails: "map mt_email (invalidate_by_customer now c purpose ts) = map mt_email ts" "map mt_email (invalidate_by_email uni now email purpose ts) = map mt_email ts" for ts uni
    by (simp_all add: invalidate_by_customer_def invalidate_by_email_def)
  define t where "t = \<lparr>mt_id = tid, mt_customer = (if c = [] then None else Some c), mt_email = email, mt_purpose = purpose,
                    mt_hash = ae_hash env raw, mt_invitation = None, mt_expires = now + ttl, mt_consumed = None, mt_created = now\<rparr>"
  have out: "fst (issue_action_token flt env now tid c email purpose ttl raw db) = with_base ((base_of db)\<lparr>ot_tokens := invalidate_by_email (ae_lower env) now email purpose ?ts1 @ [t]\<rparr>) db"
    using False unfolding issue_action_token_def Let_def t_def [symmetric] by (simp split: if_splits)
  have "mt_email t = email" by (simp add: t_def)
  moreover have "map mt_email (invalidate_by_email (ae_lower env) now email purpose ?ts1) = map mt_email ?ts"
    by (cases "c = []") (simp_all add: mails)
  then have "mt_email ` set (invalidate_by_email (ae_lower env) now email purpose ?ts1) = mt_email ` set ?ts"
    by (metis list.set_map)
  ultimately have "mails_from (base_of db) [email] ((base_of db)\<lparr>ot_tokens := invalidate_by_email (ae_lower env) now email purpose ?ts1 @ [t]\<rparr>)"
    by (simp add: mails_from_def) blast
  moreover have "list_all ascii [email]" using assms(2) by simp
  ultimately show ?thesis unfolding out by (intro mails_ok [OF assms(1)])
qed (use assms in simp)

lemma request_link_ok:
  assumes "accounts_ok db" "ascii email" "replica_of dbr db" shows "accounts_ok (fst (request_magic_link flt env now tid raw email dbr db))"
proof (cases "customer_by_email (ae_lower env) (base_of dbr) email")
  case None
  then show ?thesis using assms action_token_ok by (simp add: request_magic_link_def split: option.split)
next
  case (Some u)
  have "ascii (cu_email u)" using replica_ascii(1) [OF assms(1,3)] by_email_in [OF Some] by blast
  then show ?thesis using Some assms action_token_ok by (simp add: request_magic_link_def split: option.split)
qed

lemma redeemable_in: "redeemable flt env now raw db = Inr (t, is_invite) \<Longrightarrow> t \<in> set (ot_tokens (base_of db))
    \<and> mt_hash t = ae_hash env raw \<and> active_token now t \<and> (is_invite = (mt_purpose t = purpose_org_invite))"
  by (auto simp: redeemable_def valid_token_def find_Some_iff purpose_magic_link_def purpose_org_invite_def split: if_splits option.splits)

lemma ensure_ok:
  assumes "ensure_customer flt env i email db = Inr (db1, c, created)" "ascii email" "accounts_ok db"
  shows "accounts_ok db1" "\<exists>e. customer_email (base_of db1) c = Some e \<and> ascii e \<and> sql_lower (ae_lower env) e = sql_lower (ae_lower env) email"
    "ot_members (base_of db1) = ot_members (base_of db)" "ot_invitations (base_of db1) = ot_invitations (base_of db)"
    "ot_tokens (base_of db1) = ot_tokens (base_of db)" "sd_domains (ad_sso db1) = sd_domains (ad_sso db)" "sd_orgs (ad_sso db1) = sd_orgs (ad_sso db)"
proof -
  have flt: "\<not> flt AcCustomer" using assms(1) by (auto simp: ensure_customer_def)
  consider u :: customer where "customer_by_email (ae_lower env) (base_of db) email = Some u" "db1 = db" "c = cu_id u"
    | b where "create_customer (ae_lower env) i email (base_of db) = Some b" "db1 = with_base b db" "c = i"
  proof (cases "customer_by_email (ae_lower env) (base_of db) email")
    case (Some u)
    then have "db1 = db \<and> c = cu_id u" using assms(1) flt by (simp add: ensure_customer_def)
    then show thesis using that(1) [OF Some] by blast
  next
    case None
    have made: "Inr (db1, c, created) = (if flt AcCreateCustomer then Inl AuthDb
        else case create_customer (ae_lower env) i email (base_of db) of None \<Rightarrow> Inl AuthDb | Some b \<Rightarrow> Inr (with_base b db, i, True))"
      unfolding assms(1) [symmetric] by (simp only: ensure_customer_def None flt option.case if_False)
    show thesis
    proof (cases "create_customer (ae_lower env) i email (base_of db)")
      case none: None
      then show thesis using made by (cases "flt AcCreateCustomer") simp_all
    next
      case (Some b)
      then have "db1 = with_base b db \<and> c = i" using made by (cases "flt AcCreateCustomer") simp_all
      then show thesis using that(2) [OF Some] by blast
    qed
  qed
  then have "accounts_ok db1 \<and> (\<exists>e. customer_email (base_of db1) c = Some e \<and> ascii e \<and> sql_lower (ae_lower env) e = sql_lower (ae_lower env) email)
    \<and> ot_members (base_of db1) = ot_members (base_of db) \<and> ot_invitations (base_of db1) = ot_invitations (base_of db)
    \<and> ot_tokens (base_of db1) = ot_tokens (base_of db) \<and> sd_domains (ad_sso db1) = sd_domains (ad_sso db) \<and> sd_orgs (ad_sso db1) = sd_orgs (ad_sso db)"
  proof cases
    case (1 u)
    note u = by_email_in [OF 1(1)]
    have "replica_of db db" by (auto simp: replica_of_def list_all_iff list_ex_iff)
    note found = replica_ascii [OF assms(3) this conjunct1 [OF u]]
    show ?thesis unfolding 1(2,3) using found conjunct2 [OF u] assms(3) by (intro conjI exI [of _ "cu_email u"]) simp_all
  next
    case (2 b)
    note made = create_customer_ok [OF 2(1)]
    have "accounts_ok (with_base b db)"
    proof (rule accounts_okI [OF assms(3)])
      show "account_new db (with_base b db)" using made assms(2) by (simp add: account_new_def accounts_def new_account_def)
    qed (use made in simp_all)
    moreover have "customer_email b i = Some email"
      using made by (simp add: customer_email_accounts accounts_def new_account_def map_add_def)
    ultimately show ?thesis using 2(2,3) made assms(2) by simp
  qed
  then show "accounts_ok db1" "\<exists>e. customer_email (base_of db1) c = Some e \<and> ascii e \<and> sql_lower (ae_lower env) e = sql_lower (ae_lower env) email"
    "ot_members (base_of db1) = ot_members (base_of db)" "ot_invitations (base_of db1) = ot_invitations (base_of db)"
    "ot_tokens (base_of db1) = ot_tokens (base_of db)" "sd_domains (ad_sso db1) = sd_domains (ad_sso db)" "sd_orgs (ad_sso db1) = sd_orgs (ad_sso db)"
    by blast+
qed

lemma consume_mails: "map mt_email (fst (consume_token now i ts)) = map mt_email ts"
  by (simp add: consume_token_def)

lemma link_frame:
  assumes "complete_magic_link flt env now dw raw zone db = (db5, Inr s)"
  obtains t is_invite db1 c created where "redeemable flt env now raw db = Inr (t, is_invite)"
    "check_sign_in flt db (mt_email t) [] = None" "ensure_customer flt env (iw_customer dw) (mt_email t) db = Inr (db1, c, created)"
    "frame db1 db5" "uc_subject (se_access s) = c"
proof -
  obtain t is_invite db1 c created db2 joined ts db3 s0 where steps:
    "redeemable flt env now raw db = Inr (t, is_invite)" "check_sign_in flt db (mt_email t) [] = None"
    "ensure_customer flt env (iw_customer dw) (mt_email t) db = Inr (db1, c, created)"
    "finish_signup flt env now (iw_org dw) \<lparr>su_customer = c, su_created = created,
       su_invitation = (if is_invite then invitation_of t else []), su_proven = [], su_zone = zone\<rparr> db1 = Inr (db2, joined)"
    "consume_token now (mt_id t) (ot_tokens (base_of db2)) = (ts, True)"
    "finalize_verified_customer flt now c (with_base ((base_of db2)\<lparr>ot_tokens := ts\<rparr>) db2) = Inr db3"
    "issue_session flt env now (iw_session dw) c [] db3 = Inr (db5, s0)" "s = s0\<lparr>se_joined := joined\<rparr>"
    by (rule magic_link_ok [OF assms])
  have "map mt_email ts = map mt_email (ot_tokens (base_of db2))"
    using consume_mails [of now "mt_id t" "ot_tokens (base_of db2)"] steps(5) by simp
  from finish_frame [OF steps(4)] tokens_frame [OF this] verified_frame [OF steps(6)] issue_frame [OF steps(7)]
  have "frame db1 db5" by (meson frame_trans)
  then show thesis using that steps(1-3,8) issue_session_ok(2) [OF steps(7)] by simp
qed

lemma link_ok: assumes "accounts_ok db" shows "accounts_ok (fst (complete_magic_link flt env now dw raw zone db))"
proof (cases "complete_magic_link flt env now dw raw zone db")
  case (Pair db5 res)
  show ?thesis
  proof (cases res)
    case (Inl e)
    then show ?thesis using Pair magic_link_failed [of flt env now dw raw zone db db5 e] assms by simp
  next
    case (Inr s)
    obtain t is_invite db1 c created where link: "redeemable flt env now raw db = Inr (t, is_invite)"
      "ensure_customer flt env (iw_customer dw) (mt_email t) db = Inr (db1, c, created)" "frame db1 db5"
      by (rule link_frame [OF Pair [unfolded Inr]])
    have "ascii (mt_email t)" using redeemable_in [OF link(1)] assms by (auto simp: accounts_ok_def list_all_iff)
    then have "accounts_ok db1" by (rule ensure_ok(1) [OF link(2) _ assms])
    then show ?thesis using link(3) Pair by (simp add: frame_ok)
  qed
qed

lemma same_tables_ok: "accounts_ok db \<Longrightarrow> base_of db1 = base_of db \<Longrightarrow> ad_sso db1 = ad_sso db \<Longrightarrow> accounts_ok db1"
  by (simp add: accounts_ok_def)

lemma password_ok_accounts: assumes "accounts_ok db" shows "accounts_ok (fst (sign_in_with_email flt env now dw email password dbr db))"
proof (cases "sign_in_with_email flt env now dw email password dbr db")
  case (Pair db1 res)
  show ?thesis
  proof (cases res)
    case (Inl e)
    then show ?thesis using Pair password_failed [of flt env now dw email password dbr db db1 e] assms by simp
  next
    case (Inr s)
    obtain u :: customer where "issue_session flt env now dw (cu_id u) [] db = Inr (db1, s)" by (rule password_ok [OF Pair [unfolded Inr]])
    then show ?thesis using Pair issue_frame frame_ok [OF assms] by fastforce
  qed
qed

lemma demo_ok_accounts: assumes "accounts_ok db" shows "accounts_ok (fst (demo_sign_in flt env enabled now dw dbr db))"
proof (cases "demo_sign_in flt env enabled now dw dbr db")
  case (Pair db1 res)
  show ?thesis
  proof (cases res)
    case (Inl e)
    then show ?thesis using Pair demo_failed [of flt env enabled now dw dbr db db1 e] assms by simp
  next
    case (Inr out)
    obtain s p where "res = Inr (s, p)" using Inr by (cases out) simp
    then obtain u :: customer where "issue_session flt env now dw (cu_id u) [] db = Inr (db1, s)" using Pair by (auto elim: demo_ok)
    then show ?thesis using Pair issue_frame frame_ok [OF assms] by fastforce
  qed
qed

lemma refresh_same:
  assumes "refresh_tx flt env now dw raw db = (db1, res)" shows "base_of db1 = base_of db" "ad_sso db1 = ad_sso db"
proof -
  have "\<exists>rows. db1 = db\<lparr>ad_refresh := rows\<rparr>"
  proof (cases res)
    case (Inl e)
    then show ?thesis using refresh_refused [of flt env now dw raw db db1 e] assms by (auto intro: exI [of _ "ad_refresh db"])
  next
    case (Inr out)
    obtain s row where "refresh_tx flt env now dw raw db = (db1, Inr (s, row))" using assms Inr by (cases out) simp
    then obtain rows where "create_refresh_token flt env now dw (rf_customer row) (rf_family row) (proven_of row) (db\<lparr>ad_refresh := rows\<rparr>) = Inr db1"
      by (rule refresh_ok)
    then show ?thesis by (rule create_refresh_ok) auto
  qed
  then show "base_of db1 = base_of db" "ad_sso db1 = ad_sso db" by auto
qed

lemma connection_ok_accounts:
  assumes "accounts_ok db"
  shows "accounts_ok (fst (complete_oidc_sign_in flt env svc gone now dw provider code invite zone (sequential rc) db))"
    and "accounts_ok (fst (complete_connection_sign_in flt cflt env svc gone now dw cid code invite zone (sequential rc) db))"
  using assms by (auto simp: complete_oidc_sign_in_def complete_connection_sign_in_def intro: oidc_ok [OF assms surjective_pairing]
      split: sum.split option.split)

lemma create_org_ok_accounts: assumes "accounts_ok db" shows "accounts_ok (fst (create_org_with_defaults flt env now odw c db))"
proof (cases "fst (create_org_with_defaults flt env now odw c db) = db")
  case False
  then have "create_org_in_tx flt env now odw c [] db = Inr (fst (create_org_with_defaults flt env now odw c db))"
    by (auto simp: create_org_with_defaults_def Let_def split: sum.splits if_splits)
  note made = create_org_fields [OF this]
  show ?thesis
  proof (rule accounts_okI [OF assms])
    show "account_new db (fst (create_org_with_defaults flt env now odw c db))" by (simp add: account_new_def accounts_def made(1))
  qed (use made(1,2) in auto)
qed (use assms in simp)

lemma domain_command_ok: assumes "accounts_ok db" shows "accounts_ok (db\<lparr>ad_sso := sso_step (ad_sso db) cmd\<rparr>)"
proof (rule accounts_okI [OF assms])
  have base: "base_of (db\<lparr>ad_sso := sso_step (ad_sso db) cmd\<rparr>) = base_of db" by (simp add: base_of_def sso_step_rest)
  then show "account_new db (db\<lparr>ad_sso := sso_step (ad_sso db) cmd\<rparr>)" by (simp add: account_new_def)
  show "os_auto_join o' \<in> os_auto_join ` set (sd_orgs (ad_sso db)) \<or> os_auto_join o' \<noteq> Some ''ORG_ROLE_ADMIN''"
    if "o' \<in> set (sd_orgs (ad_sso (db\<lparr>ad_sso := sso_step (ad_sso db) cmd\<rparr>)))" for o' :: org_set
    using that sso_step_orgs by simp
  show "sso_ok (ad_sso (db\<lparr>ad_sso := sso_step (ad_sso db) cmd\<rparr>))" if "sso_ok (ad_sso db)" using that by (simp add: sso_step_ok)
  show "mt_email t \<in> mt_email ` set (ot_tokens (base_of db)) \<or> ascii (mt_email t)"
    if "t \<in> set (ot_tokens (base_of (db\<lparr>ad_sso := sso_step (ad_sso db) cmd\<rparr>)))" for t using that base by simp
  show "iv_email v \<in> iv_email ` set (ot_invitations (base_of db)) \<or> ascii (iv_email v)"
    if "v \<in> set (ot_invitations (base_of (db\<lparr>ad_sso := sso_step (ad_sso db) cmd\<rparr>)))" for v using that base by simp
qed

lemma sweep_ok: assumes "accounts_ok db" shows "accounts_ok (delete_expired_tokens now db)"
  using mails_ok [OF assms, of "[]" "(base_of db)\<lparr>ot_tokens := filter (\<lambda>t. now < mt_expires t) (ot_tokens (base_of db))\<rparr>"]
  by (auto simp: delete_expired_tokens_def mails_from_def)

lemma join_after_ok: assumes "accounts_ok db" shows "accounts_ok (auto_join_on_refresh flt env now odw c proven db)"
  using assms frame_ok [OF assms finish_frame] by (auto simp: auto_join_on_refresh_def split: sum.split prod.split)

lemma step_accounts_ok:
  assumes "accounts_ok db" "admissible db cmd" shows "accounts_ok (auth_step env db (now, cmd))"
proof (cases cmd)
  case (AuOrg c)
  then obtain es where "list_all ascii es" "mails_from (base_of db) es (org_step (ae_lower env) (ae_hash env) (base_of db) (now, c))"
    using mails_org [of db c] assms(2) by blast
  then show ?thesis using AuOrg mails_ok [OF assms(1)] by (simp add: auth_step_def)
next
  case (AuRefresh flt dw raw)
  then show ?thesis using refresh_same [OF surjective_pairing] same_tables_ok [OF assms(1)] by (simp add: auth_step_def)
qed (use assms in \<open>simp_all add: auth_step_def password_ok_accounts demo_ok_accounts request_link_ok link_ok connection_ok_accounts
      create_org_ok_accounts domain_command_ok sweep_ok join_after_ok same_tables_ok revoke_session_def delete_expired_refresh_def base_of_def\<close>)

interpretation auth: machine_inv "checked_step env" accounts_ok for env
  by unfold_locales (metis checked_step_def prod.collapse step_accounts_ok)

end
