(* ===== verification/Sign_In_Claims.thy ===== *)
theory Sign_In_Claims
  imports Account_Laws Domain_Claims
begin

text \<open>
  The properties of sign-in: who reaches which account, what a required single sign-on refuses,
  what a sign-in may join, and what becomes of links and refresh tokens once they are used.
\<close>

section \<open>What a sign-in checked\<close>

lemma check_passed:
  assumes "check_sign_in flt db email proven = None" "sso_ok (ad_sso db)" "sso_required (ad_sso db) (domain_of email)"
  shows "proven = domain_of email"
proof -
  have "domain_of email \<noteq> []" using assms(2,3) by (auto simp: sso_required_def list_ex_iff sso_ok_def list_all_iff row_ok_def domain_ok_def)
  then show ?thesis using assms(1,3) by (auto simp: check_sign_in_def Let_def split: if_splits)
qed

lemma required_domains: "sd_domains a = sd_domains b \<Longrightarrow> sso_required a d = sso_required b d"
  by (simp add: sso_required_def)

lemma frame_email: "frame a b \<Longrightarrow> customer_email (base_of b) c = customer_email (base_of a) c"
  by (simp add: frame_def customer_email_accounts)

lemma email_of_ok: "email_of flt db c = Inr e \<Longrightarrow> customer_email (base_of db) c = Some e"
  by (auto simp: email_of_def split: if_splits option.splits)

lemma may_sign_in_ok:
  assumes "may_sign_in flt ident conn db c = Inr email"
  shows "connection_check flt conn db = None" "customer_email (base_of db) c = Some email" "allows_account ident email"
    "check_sign_in flt db email (id_proven ident) = None"
  using assms email_of_ok by (auto simp: may_sign_in_def split: option.splits sum.splits if_splits)

text \<open>The account an identity signed in to, after its checks.\<close>

lemma external_session:
  assumes "complete_oidc flt env now dw ident conn invite zone (sequential rc) db = (db', Inr s)"
  obtains email db1 where "customer_email (base_of db') (uc_subject (se_access s)) = Some email" "allows_account ident email"
    "check_sign_in flt db1 email (id_proven ident) = None" "connection_check flt conn db1 = None"
    "sd_domains (ad_sso db1) = sd_domains (ad_sso db)" "sd_conns (ad_sso db1) = sd_conns (ad_sso db)"
proof -
  obtain db1 c created where added: "account_added ident db db1"
    and fin: "finalize_external flt env now dw ident conn invite zone db1 c created = Inr (db', s)"
    using oidc_cases [OF assms] by auto
  obtain email db4 s0 where may: "may_sign_in flt ident conn db1 c = Inr email"
    and issue: "issue_session flt env now (iw_session dw) c (id_proven ident) db4 = Inr (db', s0)" and s: "uc_subject (se_access s) = uc_subject (se_access s0)"
    using fin by (rule finalize_external_ok) simp
  have "customer_email (base_of db') c = Some email"
    using frame_email [OF finalize_frame [OF fin]] may_sign_in_ok(2) [OF may] by simp
  then show thesis using that [of email db1] may_sign_in_ok [OF may] added_fields [OF added] issue_session_ok(2) [OF issue] s by simp
qed

lemma equal_fold_of_lower: assumes "ascii s" "ascii t" "sql_lower uni s = sql_lower uni t" shows "equal_fold uf s t"
proof -
  have "map (fold_rune uf) (runes x) = map of_char (map ascii_lower x)" if "ascii x" for x
    using that unfolding runes_ascii [OF that] by (induction x) (auto simp: fold_rune_def of_ascii_lower)
  moreover have "map ascii_lower s = map ascii_lower t" using assms by (simp add: sql_lower_def to_lower_map)
  ultimately show ?thesis using assms(1,2) by (metis equal_fold_def)
qed

lemma connection_is: "is_connection (connection_provider c)"
  by (simp add: is_connection_def connection_provider_def)

text \<open>An identity of a connection names it and carries its domains.\<close>

lemma connection_identity:
  assumes "exchange_connection_code ip gone enabled co code = Inr ident"
  shows "id_provider ident = connection_provider (co_id co) \<and> id_domains ident = co_domains co"
proof -
  let ?p = "connection_config co"
  have named: "id_provider ident = pc_id ?p" "provider_exchange ip ?p code = Inr ident"
    using assms by (auto simp: exchange_connection_code_def handle_identity_result_def Let_def split: if_splits sum.splits)
  then obtain raw where "verify_id_token ip ?p raw (ac_nonce code) = Inr ident"
    by (auto simp: provider_exchange_def split: token_answer.splits if_splits)
  moreover have "is_connection (pc_id ?p)" by (simp add: connection_config_def connection_is)
  ultimately have "id_domains ident = pc_domains ?p"
    by (auto simp: verify_id_token_def split: verify_answer.splits if_splits option.splits sum.splits)
  then show ?thesis using named(1) by (simp add: connection_config_def)
qed

text \<open>Results turned into the session handed out.\<close>

lemma session_given: "map_prod id (case_sum (\<lambda>_. None) Some) out = (db', Some s) \<longleftrightarrow> out = (db', Inr s)"
  by (cases out) (auto split: sum.splits)

lemma session_given_fst: "map_prod id (case_sum (\<lambda>_. None) (Some \<circ> fst)) out = (db', Some s) \<longleftrightarrow> (\<exists>x. out = (db', Inr (s, x)))"
  by (cases out) (auto split: sum.splits)

lemmas given = session_given session_given_fst

lemma oidc_given:
  "complete_oidc_sign_in flt env svc gone now dw provider code invite zone rc db = (db', Inr s) \<Longrightarrow>
     \<exists>ident. exchange_code (oa_idp svc) gone (oa_config svc) provider code = Inr ident
       \<and> complete_oidc flt env now dw ident None invite zone rc db = (db', Inr s)"
  by (simp add: complete_oidc_sign_in_def split: sum.splits)

lemma connection_given:
  "complete_connection_sign_in flt cflt env svc gone now dw cid code invite zone rc db = (db', Inr s) \<Longrightarrow>
     \<exists>cipher co ident. oa_cipher svc = Some cipher \<and> connection_for_sign_in cflt cipher (ad_sso (rc_conn rc)) cid = Inr co
       \<and> exchange_connection_code (oa_idp svc) gone (oa_connections svc) co code = Inr ident
       \<and> complete_oidc flt env now dw ident (Some co) invite zone rc db = (db', Inr s)"
  by (simp add: complete_connection_sign_in_def split: sum.splits option.splits)

lemma sequential_conn [simp]: "rc_conn (sequential rc) = rc_conn rc"
  by (simp add: sequential_def)

section \<open>Required single sign-on\<close>

text \<open>The domain a command comes with proof of.\<close>

fun proven_by :: "auth_env \<Rightarrow> auth_db \<Rightarrow> auth_cmd \<Rightarrow> string" where
  "proven_by env db (AuOidc flt svc gone dw provider code invite zone rc) =
     (case exchange_code (oa_idp svc) gone (oa_config svc) provider code of Inl _ \<Rightarrow> [] | Inr ident \<Rightarrow> id_proven ident)"
| "proven_by env db (AuConnection flt cflt svc gone dw cid code invite zone rc) =
     (case oa_cipher svc of None \<Rightarrow> []
      | Some cipher \<Rightarrow> (case connection_for_sign_in cflt cipher (ad_sso (rc_conn rc)) cid of Inl _ \<Rightarrow> []
      | Inr co \<Rightarrow> (case exchange_connection_code (oa_idp svc) gone (oa_connections svc) co code of Inl _ \<Rightarrow> [] | Inr ident \<Rightarrow> id_proven ident)))"
| "proven_by env db (AuRefresh flt dw raw) =
     (case find_refresh (ad_refresh db) (ae_hash env raw) of None \<Rightarrow> [] | Some row \<Rightarrow> proven_of row)"
| "proven_by env db _ = []"

lemma password_required:
  assumes "accounts_ok db" "ascii email" "replica_of dbr db" "sign_in_with_email flt env now dw email password dbr db = (db', Inr s)"
    and "customer_email (base_of db') (uc_subject (se_access s)) = Some e"
  shows "\<not> sso_required (ad_sso db) (domain_of e)"
proof
  assume required: "sso_required (ad_sso db) (domain_of e)"
  obtain u where u: "check_sign_in flt db email [] = None" "customer_by_email (ae_lower env) (base_of dbr) email = Some u"
    "issue_session flt env now dw (cu_id u) [] db = Inr (db', s)" using assms(4) by (rule password_ok)
  note found = by_email_in [OF u(2)]
  note account = replica_ascii [OF assms(1,3) conjunct1 [OF found]]
  have "e = cu_email u" using assms(5) account(2) frame_email [OF issue_frame [OF u(3)]] issue_session_ok(2) [OF u(3)] by simp
  then have same: "domain_of e = domain_of email"
    using domain_of_same_case [OF account(1) assms(2) conjunct2 [OF found [unfolded sql_lower_def]]] by simp
  have "sso_ok (ad_sso db)" using assms(1) by (simp add: accounts_ok_def)
  then have "domain_of email = []" using check_passed [OF u(1)] required same by simp
  then show False using required same \<open>sso_ok (ad_sso db)\<close>
    by (auto simp: sso_required_def list_ex_iff sso_ok_def list_all_iff row_ok_def domain_ok_def)
qed

lemma passed_without_proof:
  assumes "accounts_ok db" "check_sign_in flt db email [] = None" "domain_of e = domain_of email"
  shows "\<not> sso_required (ad_sso db) (domain_of e)"
proof
  assume required: "sso_required (ad_sso db) (domain_of e)"
  have ok: "sso_ok (ad_sso db)" using assms(1) by (simp add: accounts_ok_def)
  then have "domain_of email = []" using check_passed [OF assms(2)] required assms(3) by simp
  then show False using required assms(3) ok by (auto simp: sso_required_def list_ex_iff sso_ok_def list_all_iff row_ok_def domain_ok_def)
qed

lemma link_required:
  assumes "accounts_ok db" "complete_magic_link flt env now dw raw zone db = (db', Inr s)"
    and "customer_email (base_of db') (uc_subject (se_access s)) = Some e"
  shows "\<not> sso_required (ad_sso db) (domain_of e)"
proof -
  obtain t is_invite db1 c created where link: "redeemable flt env now raw db = Inr (t, is_invite)"
    "check_sign_in flt db (mt_email t) [] = None" "ensure_customer flt env (iw_customer dw) (mt_email t) db = Inr (db1, c, created)"
    "frame db1 db'" "uc_subject (se_access s) = c" by (rule link_frame [OF assms(2)])
  have mail: "ascii (mt_email t)" using redeemable_in [OF link(1)] assms(1) by (auto simp: accounts_ok_def list_all_iff)
  obtain x where x: "customer_email (base_of db1) c = Some x" "ascii x" "sql_lower (ae_lower env) x = sql_lower (ae_lower env) (mt_email t)"
    using ensure_ok(2) [OF link(3) mail assms(1)] by blast
  have "e = x" using assms(3) link(5) x(1) frame_email [OF link(4)] by simp
  then have "domain_of e = domain_of (mt_email t)" using domain_of_same_case [OF x(2) mail x(3) [unfolded sql_lower_def]] by simp
  then show ?thesis by (rule passed_without_proof [OF assms(1) link(2)])
qed

lemma identity_required:
  assumes "accounts_ok db" "complete_oidc flt env now dw ident conn invite zone (sequential rc) db = (db', Inr s)"
    and "customer_email (base_of db') (uc_subject (se_access s)) = Some e" "sso_required (ad_sso db) (domain_of e)"
  shows "id_proven ident = domain_of e"
proof -
  obtain email db1 where done': "customer_email (base_of db') (uc_subject (se_access s)) = Some email"
    "check_sign_in flt db1 email (id_proven ident) = None"
    "sd_domains (ad_sso db1) = sd_domains (ad_sso db)" "sd_conns (ad_sso db1) = sd_conns (ad_sso db)"
    by (rule external_session [OF assms(2)])
  have "sso_ok (ad_sso db1)" using assms(1) sso_ok_cong [OF done'(3,4)] by (simp add: accounts_ok_def)
  moreover have "sso_required (ad_sso db1) (domain_of email)" using assms(3,4) done'(1) required_domains [OF done'(3)] by simp
  ultimately show ?thesis using check_passed [OF done'(2)] done'(1) assms(3) by simp
qed

lemma refresh_required:
  assumes "accounts_ok db" "refresh_tx flt env now dw raw db = (db', Inr (s, row))"
    and "customer_email (base_of db') (uc_subject (se_access s)) = Some e" "sso_required (ad_sso db) (domain_of e)"
  shows "find_refresh (ad_refresh db) (ae_hash env raw) = Some row"
    "proven_of row = domain_of e \<or> equal_fold (ae_fold env) e demo_viewer_email"
proof -
  obtain rows where row: "find_refresh (ad_refresh db) (ae_hash env raw) = Some row"
    "check_refresh flt env db (rf_customer row) (proven_of row) = None" "uc_subject (se_access s) = rf_customer row"
    by (rule refresh_ok [OF assms(2)])
  have "email_of flt db (rf_customer row) = Inr e"
  proof (cases "email_of flt db (rf_customer row)")
    case (Inr x)
    then show ?thesis using email_of_ok [OF Inr] assms(3) row(3) refresh_same(1) [OF assms(2)] by simp
  qed (use row(2) in \<open>simp add: check_refresh_def\<close>)
  then have "equal_fold (ae_fold env) e demo_viewer_email \<or> check_sign_in flt db e (proven_of row) = None"
    using row(2) by (simp add: check_refresh_def split: if_splits)
  moreover have "sso_ok (ad_sso db)" using assms(1) by (simp add: accounts_ok_def)
  ultimately show "proven_of row = domain_of e \<or> equal_fold (ae_fold env) e demo_viewer_email" using check_passed assms(4) by blast
  show "find_refresh (ad_refresh db) (ae_hash env raw) = Some row" by (fact row(1))
qed

lemma demo_is_viewer:
  assumes "accounts_ok db" "replica_of dbr db" "demo_sign_in flt env enabled now dw dbr db = (db', Inr (s, p))"
    and "customer_email (base_of db') (uc_subject (se_access s)) = Some e"
  shows "equal_fold (ae_fold env) e demo_viewer_email"
proof -
  obtain u :: customer where u: "customer_by_email (ae_lower env) (base_of dbr) demo_viewer_email = Some u"
    "issue_session flt env now dw (cu_id u) [] db = Inr (db', s)" by (rule demo_ok [OF assms(3)])
  note found = by_email_in [OF u(1)]
  note account = replica_ascii [OF assms(1,2) conjunct1 [OF found]]
  have "e = cu_email u" using assms(4) account(2) frame_email [OF issue_frame [OF u(2)]] issue_session_ok(2) [OF u(2)] by simp
  moreover have "ascii demo_viewer_email" by (simp add: demo_viewer_email_def ascii_def)
  ultimately show ?thesis using equal_fold_of_lower [OF account(1)] conjunct2 [OF found] by blast
qed

section \<open>Example tables\<close>

text \<open>
  Jo's account at a domain on which single sign-on is required: by the connection, and with a
  refresh token that carries the proof of one.
\<close>

definition demo_env :: auth_env where
  "demo_env = \<lparr>ae_lower = id, ae_fold = id, ae_hash = (\<lambda>s. ''h'' @ s),
     ae_bcrypt = (\<lambda>h p. if h = p then PasswordMatches else PasswordMismatch), ae_zone = (\<lambda>_. True)\<rparr>"

definition demo_refresh_row :: refresh_row where
  "demo_refresh_row = \<lparr>rf_id = ''r0'', rf_customer = ''u1'', rf_family = ''f0'', rf_hash = ''ht0'', rf_expires = 100, rf_consumed = None,
     rf_revoked = None, rf_proven = Some ''acme.co''\<rparr>"

definition demo_auth :: auth_db where
  "demo_auth = \<lparr>ad_sso = demo_sso\<lparr>sd_base := \<lparr>ot_customers = [\<lparr>cu_id = ''u1'', cu_email = ''jo@acme.co'', cu_hash = [], cu_verified = None\<rparr>],
       ot_members = [], ot_invitations = [], ot_tokens = []\<rparr>,
     sd_domains := [(demo_domain ''1'' ''a'' False)\<lparr>dr_conn := Some ''c''\<rparr>, demo_domain ''2'' ''b'' True], sd_conns := [demo_row],
     sd_identities := [\<lparr>ci_customer = ''u1'', ci_provider = ''conn:c'', ci_subject = ''s1''\<rparr>]\<rparr>,
     ad_refresh = [demo_refresh_row], ad_projects = [], ad_keys = []\<rparr>"

definition demo_draws :: "string \<Rightarrow> session_draws" where
  "demo_draws i = \<lparr>sw_jti = ''j'' @ i, sw_row = ''r'' @ i, sw_family = ''f'' @ i, sw_raw = ''t'' @ i\<rparr>"

definition demo_exchange :: "string \<Rightarrow> string \<Rightarrow> auth_cmd" where
  "demo_exchange i raw = AuRefresh (\<lambda>_. False) (demo_draws i) raw"

lemma demo_domain_of: "domain_of ''jo@acme.co'' = ''acme.co''"
  by (simp add: domain_of_def after_last_def demo_name(2))

lemma demo_auth_ok: "accounts_ok demo_auth"
  by (simp add: accounts_ok_def demo_auth_def demo_sso_def base_of_def ascii_def sso_ok_def demo_domain_def row_ok_def is_verified_def
      claim_key_def one_connection_def demo_name demo_row_def)

lemma demo_required: "sso_required (ad_sso demo_auth) (domain_of ''jo@acme.co'')"
  by (simp add: demo_domain_of sso_required_def demo_auth_def demo_domain_def is_verified_def)

lemma demo_exchanged: "auth_run demo_env demo_auth (10, demo_exchange ''1'' ''t0'') =
   (demo_auth\<lparr>ad_refresh := [demo_refresh_row\<lparr>rf_consumed := Some 10\<rparr>,
       \<lparr>rf_id = ''r1'', rf_customer = ''u1'', rf_family = ''f0'', rf_hash = ''ht1'', rf_expires = 10 + refresh_token_ttl, rf_consumed = None,
        rf_revoked = None, rf_proven = Some ''acme.co''\<rparr>]\<rparr>,
    Some \<lparr>se_access = \<lparr>uc_audience = session_audience, uc_expires = 10 + access_token_ttl, uc_id = ''j1'', uc_issued = 10,
        uc_issuer = session_issuer, uc_subject = ''u1''\<rparr>, se_refresh = ''t1'', se_joined = []\<rparr>)"
  by (simp add: demo_exchange_def refresh_tx_def find_refresh_def check_refresh_def email_of_def customer_email_def base_of_def
      check_sign_in_def generate_jwt_def consume_refresh_def create_refresh_token_def insert_refresh_def unused_def proven_of_def
      demo_auth_def demo_env_def demo_refresh_row_def demo_draws_def demo_domain_of Let_def)

section \<open>Who signs in\<close>

text \<open>
  C21. Wherever single sign-on is required, no session of an account at the domain starts or goes on
  without proof of that domain: for every command that hands out a session, after any run of
  admissible commands, the proof the command came with, the identity's or the refresh token's, is
  the account's own domain. Only the account of the public demo is let through without.
\<close>

theorem sso_required_enforced:
  assumes "accounts_ok db0" "db = run_events (checked_step env) db0 evs" "admissible db cmd"
    and "auth_run env db (now, cmd) = (db', Some s)" "customer_email (base_of db') (uc_subject (se_access s)) = Some email"
    and "sso_required (ad_sso db) (domain_of email)"
  shows "proven_by env db cmd = domain_of email \<or> equal_fold (ae_fold env) email demo_viewer_email"
proof -
  have ok: "accounts_ok db" using auth.run_inv [OF assms(1)] assms(2) by simp
  note run = assms(4)
  show ?thesis
  proof (cases cmd)
    case (AuPassword flt dw mail password dbr)
    with run have "sign_in_with_email flt env now dw mail password dbr db = (db', Inr s)" by (simp add: given)
    moreover have "ascii mail" "replica_of dbr db" using assms(3) AuPassword by simp_all
    ultimately show ?thesis using password_required [OF ok _ _ _ assms(5)] assms(6) by blast
  next
    case (AuCompleteLink flt dw raw zone)
    with run have "complete_magic_link flt env now dw raw zone db = (db', Inr s)" by (simp add: given)
    then show ?thesis using link_required [OF ok _ assms(5)] assms(6) by blast
  next
    case (AuOidc flt svc gone dw provider code invite zone rc)
    with run obtain ident where ident: "exchange_code (oa_idp svc) gone (oa_config svc) provider code = Inr ident"
      "complete_oidc flt env now dw ident None invite zone (sequential rc) db = (db', Inr s)" by (auto simp: given dest: oidc_given)
    show ?thesis using identity_required [OF ok ident(2) assms(5,6)] ident(1) AuOidc by simp
  next
    case (AuConnection flt cflt svc gone dw cid code invite zone rc)
    with run obtain cipher co ident where ident: "oa_cipher svc = Some cipher"
      "connection_for_sign_in cflt cipher (ad_sso (rc_conn rc)) cid = Inr co"
      "exchange_connection_code (oa_idp svc) gone (oa_connections svc) co code = Inr ident"
      "complete_oidc flt env now dw ident (Some co) invite zone (sequential rc) db = (db', Inr s)"
      by (auto simp: given dest!: connection_given)
    show ?thesis using identity_required [OF ok ident(4) assms(5,6)] ident(1-3) AuConnection by simp
  next
    case (AuDemo flt enabled dw dbr)
    with run obtain p where "demo_sign_in flt env enabled now dw dbr db = (db', Inr (s, p))" by (auto simp: given)
    then show ?thesis using demo_is_viewer [OF ok _ _ assms(5)] assms(3) AuDemo by auto
  next
    case (AuRefresh flt dw raw)
    with run obtain row where "refresh_tx flt env now dw raw db = (db', Inr (s, row))" by (auto simp: given)
    from refresh_required [OF ok this assms(5,6)] show ?thesis using AuRefresh by simp
  qed (use run in simp_all)
qed

lemma sso_required_enforced_witness:
  "proven_by demo_env demo_auth (demo_exchange ''1'' ''t0'') = domain_of ''jo@acme.co''
     \<or> equal_fold (ae_fold demo_env) ''jo@acme.co'' demo_viewer_email"
proof (rule sso_required_enforced [OF demo_auth_ok _ _ demo_exchanged _ demo_required])
  show "demo_auth = run_events (checked_step demo_env) demo_auth []" by simp
  show "admissible demo_auth (demo_exchange ''1'' ''t0'')" by (simp add: demo_exchange_def)
qed (simp add: customer_email_def base_of_def demo_auth_def)

text \<open>
  A connection reaches accounts of its own domains only: a sign-in through it that went
  through is of an account whose address is at a domain attached to it and verified when the
  session was handed out, whatever its identity provider claims.
\<close>

theorem connection_reaches_own_domains:
  assumes "auth_run env db (now, AuConnection flt cflt svc gone dw cid code invite zone rc) = (db', Some s)"
    and "customer_email (base_of db') (uc_subject (se_access s)) = Some email"
  shows "domain_of email \<in> set (connection_domains (ad_sso db) cid)"
proof -
  obtain cipher co ident where ident: "connection_for_sign_in cflt cipher (ad_sso (rc_conn rc)) cid = Inr co"
    "exchange_connection_code (oa_idp svc) gone (oa_connections svc) co code = Inr ident"
    "complete_oidc flt env now dw ident (Some co) invite zone (sequential rc) db = (db', Inr s)"
    using assms(1) by (auto simp: given dest!: connection_given)
  have cid: "co_id co = cid" using ident(1) by (auto simp: connection_for_sign_in_def find_connection_def find_Some_iff split: if_splits option.splits)
  obtain e db1 where e: "customer_email (base_of db') (uc_subject (se_access s)) = Some e" "allows_account ident e"
    "connection_check flt (Some co) db1 = None" "sd_domains (ad_sso db1) = sd_domains (ad_sso db)"
    by (rule external_session [OF ident(3)])
  have "id_provider ident = connection_provider cid \<and> id_domains ident = co_domains co"
    using connection_identity [OF ident(2)] cid by simp
  moreover have "connection_domains (ad_sso db1) cid = co_domains co"
    using e(3) cid by (auto simp: connection_check_def connection_unchanged_def split: if_splits)
  then have "connection_domains (ad_sso db) cid = co_domains co" by (simp add: connection_domains_def e(4))
  ultimately show ?thesis using e(1,2) assms(2) by (simp add: allows_account_def connection_is)
qed

definition demo_idp :: idp where
  "demo_idp = \<lparr>ip_exchange = (\<lambda>_ _. RawIdToken ''raw''),
     ip_verify = (\<lambda>_ _. TokenValid \<lparr>it_nonce = ''n'', it_subject = ''s1'', it_claims = Some \<lparr>tk_email = ''jo@acme.co'', tk_verified = None,
       tk_edov = None, tk_hd = [], tk_name = ''Jo'', tk_picture = []\<rparr>\<rparr>)\<rparr>"

definition demo_oauth :: oauth_service where
  "demo_oauth = \<lparr>oa_config = [], oa_cipher = ss_cipher demo_service, oa_connections = True, oa_idp = demo_idp\<rparr>"

definition demo_races :: races where
  "demo_races = \<lparr>rc_conn = demo_auth, rc_pool = demo_auth, rc_read = demo_auth, rc_link = demo_auth, rc_retry = id, rc_lookup = id, rc_final = id\<rparr>"

definition demo_sign_in_draws :: sign_in_draws where
  "demo_sign_in_draws = \<lparr>iw_customer = ''u2'', iw_org = \<lparr>od_org = ''o'', od_project = ''p'', od_key_id = ''k'', od_key = ''kk''\<rparr>,
     iw_session = demo_draws ''2''\<rparr>"

definition demo_connection :: connection where
  "demo_connection = \<lparr>co_id = ''c'', co_issuer = ''https://idp'', co_client = ''k'', co_secret = ''s'', co_domains = [''acme.co'']\<rparr>"

definition demo_identity :: identity where
  "demo_identity = \<lparr>id_provider = ''conn:c'', id_subject = ''s1'', id_email = ''jo@acme.co'', id_name = ''Jo'', id_picture = [],
     id_proven = ''acme.co'', id_domains = [''acme.co'']\<rparr>"

definition demo_code :: auth_code where
  "demo_code = \<lparr>ac_code = ''x'', ac_verifier = ''v'', ac_redirect = ''r'', ac_nonce = ''n''\<rparr>"

lemma demo_connection_read: "connection_for_sign_in (\<lambda>_. False) \<lparr>sc_encrypt = Some, sc_decrypt = Some\<rparr> (ad_sso demo_auth) ''c'' = Inr demo_connection"
  by (simp add: connection_for_sign_in_def find_connection_def connection_domains_def demo_auth_def demo_row_def demo_domain_def
      is_verified_def demo_connection_def)

lemma demo_identity_ok: "exchange_connection_code demo_idp False True demo_connection demo_code = Inr demo_identity"
proof -
  have trimmed: "trim_space ''jo@acme.co'' = ''jo@acme.co''" "trim_space ''s1'' = ''s1''" by (rule trim_space_word; simp)+
  have short: "truncate_runes ''Jo'' max_display_name = ''Jo''" "truncate_runes [] max_picture_uri = []"
  proof -
    have "runes ''Jo'' = map of_char ''Jo''" by (rule runes_ascii) (simp add: ascii_def)
    then show "truncate_runes ''Jo'' max_display_name = ''Jo''" by (simp add: truncate_runes_def rune_count_def max_display_name_def)
    show "truncate_runes [] max_picture_uri = []" by (simp add: truncate_runes_def rune_count_def max_picture_uri_def)
  qed
  have provider: "connection_provider ''c'' = ''conn:c''" "is_connection ''conn:c''"
    by (simp_all add: connection_provider_def connection_prefix_def is_connection_def)
  show ?thesis
    by (simp add: exchange_connection_code_def handle_identity_result_def provider_exchange_def verify_id_token_def new_verified_identity_def
        connection_config_def email_verified_def proven_domain_def speaks_for_def trimmed short provider demo_domain_of demo_connection_def demo_idp_def
        demo_code_def demo_identity_def Let_def)
qed

definition demo_connection_sign_in :: auth_cmd where
  "demo_connection_sign_in = AuConnection (\<lambda>_. False) (\<lambda>_. False) demo_oauth False demo_sign_in_draws ''c'' demo_code [] [] demo_races"

lemma demo_signed_in: "\<exists>db' s. auth_run demo_env demo_auth (10, demo_connection_sign_in) = (db', Some s)
    \<and> customer_email (base_of db') (uc_subject (se_access s)) = Some ''jo@acme.co''"
proof -
  let ?db = "demo_auth\<lparr>ad_sso := update_domains (mark_seen 10 ''acme.co'') (ad_sso demo_auth)\<rparr>"
  have checks: "check_sign_in (\<lambda>_. False) demo_auth ''jo@acme.co'' ''acme.co'' = None" by (simp add: check_sign_in_def demo_domain_of Let_def)
  have email: "email_of (\<lambda>_. False) demo_auth ''u1'' = Inr ''jo@acme.co''" by (simp add: email_of_def customer_email_def base_of_def demo_auth_def)
  have unchanged: "connection_unchanged (ad_sso demo_auth) demo_connection"
    by (simp add: connection_unchanged_def find_connection_def connection_domains_def demo_auth_def demo_row_def demo_domain_def
        is_verified_def demo_connection_def)
  have may: "may_sign_in (\<lambda>_. False) demo_identity (Some demo_connection) demo_auth ''u1'' = Inr ''jo@acme.co''"
    using checks email unchanged by (simp add: may_sign_in_def connection_check_def allows_account_def demo_identity_def demo_domain_of)
  have base: "with_base ((base_of demo_auth)\<lparr>ot_members := ot_members (base_of demo_auth)\<rparr>) demo_auth = demo_auth" by simp
  have signup: "finish_signup (\<lambda>_. False) demo_env 10 (iw_org demo_sign_in_draws)
      \<lparr>su_customer = ''u1'', su_created = False, su_invitation = [], su_proven = ''acme.co'', su_zone = []\<rparr> demo_auth = Inr (demo_auth, [])"
    using email base by (simp add: finish_signup_def accept_invite_def auto_join_def demo_domain_of join_candidates_def List.map_filter_def auto_join_role_def
        find_org_def demo_auth_def demo_sso_def demo_domain_def live_invite_def base_of_def with_base_def)
  have seen: "mark_sso_seen (\<lambda>_. False) 10 ''acme.co'' demo_auth = Inr ?db" by (simp add: mark_sso_seen_def)
  let ?db1 = "with_base ((base_of ?db)\<lparr>ot_customers := map (verify_customer 10 ''u1'') (ot_customers (base_of ?db))\<rparr>) ?db"
  have verified: "finalize_verified_customer (\<lambda>_. False) 10 ''u1'' ?db = Inr ?db1"
    by (simp add: finalize_verified_customer_def customer_email_def base_of_def demo_auth_def update_domains_def)
  have email1: "customer_email (base_of ?db1) ''u1'' = Some ''jo@acme.co''"
    by (simp add: customer_email_def base_of_def demo_auth_def update_domains_def with_base_def verify_customer_def)
  have rows: "ad_refresh ?db1 = [demo_refresh_row]" by (simp add: demo_auth_def)
  obtain db2 s where issued: "issue_session (\<lambda>_. False) demo_env 10 (demo_draws ''2'') ''u1'' ''acme.co'' ?db1 = Inr (db2, s)"
    "base_of db2 = base_of ?db1" "uc_subject (se_access s) = ''u1''"
    using email1 rows by (simp add: issue_session_def generate_jwt_def create_refresh_token_def insert_refresh_def demo_refresh_row_def demo_draws_def demo_env_def base_of_def)
  have fin: "finalize_external (\<lambda>_. False) demo_env 10 demo_sign_in_draws demo_identity (Some demo_connection) [] [] demo_auth ''u1'' False
      = Inr (db2, s\<lparr>se_joined := []\<rparr>)"
    using may signup seen verified issued by (simp add: finalize_external_def demo_identity_def demo_sign_in_draws_def)
  have found: "resolve_identity (\<lambda>_. False) demo_env i demo_auth demo_identity demo_auth = Inr (demo_auth, ''u1'', False)" for i
    by (simp add: resolve_identity_def find_identity_def demo_identity_def demo_auth_def)
  have "complete_oidc (\<lambda>_. False) demo_env 10 demo_sign_in_draws demo_identity (Some demo_connection) [] [] (sequential demo_races) demo_auth
      = (db2, Inr (s\<lparr>se_joined := []\<rparr>))"
    using checks fin found by (simp add: complete_oidc_def with_identity_tx_def resolve_and_finalize_def run_finalize_def demo_races_def
        sequential_def demo_identity_def)
  then have "complete_connection_sign_in (\<lambda>_. False) (\<lambda>_. False) demo_env demo_oauth False 10 demo_sign_in_draws ''c'' demo_code [] []
      (sequential demo_races) demo_auth = (db2, Inr (s\<lparr>se_joined := []\<rparr>))"
    using demo_connection_read demo_identity_ok by (simp add: complete_connection_sign_in_def demo_oauth_def demo_service_def demo_races_def)
  then show ?thesis using issued(2,3) email1 by (simp add: demo_connection_sign_in_def)
qed

lemma connection_reaches_own_domains_witness: "domain_of ''jo@acme.co'' \<in> set (connection_domains (ad_sso demo_auth) ''c'')"
proof -
  obtain db' s where "auth_run demo_env demo_auth (10, demo_connection_sign_in) = (db', Some s)"
    "customer_email (base_of db') (uc_subject (se_access s)) = Some ''jo@acme.co''" using demo_signed_in by blast
  then show ?thesis unfolding demo_connection_sign_in_def by (rule connection_reaches_own_domains)
qed

end
