(* ===== verification/Session_Claims.thy ===== *)
theory Session_Claims
  imports Sign_In_Claims
begin

text \<open>
  The properties of refresh tokens over whole runs of the sign-in machine. The ids of families and
  the secrets are drawn at random, so the runs are those that draw each at most once.
\<close>

section \<open>Used tokens\<close>

lemma found_in: "find_refresh rows h = Some r \<Longrightarrow> r \<in> set rows \<and> rf_hash r = h"
  by (auto simp: find_refresh_def find_Some_iff)

text \<open>The tables after an exchange: the token presented is used, and it is the only one of its hash.\<close>

lemma exchanged_dead:
  assumes "tokens_ok (ad_refresh db)" "refresh_tx flt env now dw raw db = (db1, Inr (s, row))" "ae_hash env (sw_raw dw) \<noteq> ae_hash env raw"
  shows "none_unused (\<lambda>r. rf_hash r = ae_hash env raw) (ad_refresh db1)"
proof -
  obtain rows where row: "find_refresh (ad_refresh db) (ae_hash env raw) = Some row" "unused row"
    "consume_refresh now (rf_id row) (ad_refresh db) = (rows, True)"
    "create_refresh_token flt env now dw (rf_customer row) (rf_family row) (proven_of row) (db\<lparr>ad_refresh := rows\<rparr>) = Inr db1"
    by (rule refresh_ok [OF assms(2)])
  note found = found_in [OF row(1)]
  have only: "r = row" if "r \<in> set (ad_refresh db)" "rf_hash r = ae_hash env raw" for r
    using eq_key_imp_eq_row [of rf_hash "ad_refresh db" r row] that found assms(1) by (simp add: tokens_ok_def)
  have rows: "rows = map (\<lambda>r. if rf_id r = rf_id row \<and> unused r then r\<lparr>rf_consumed := Some now\<rparr> else r) (ad_refresh db)"
    using row(3) by (simp add: consume_refresh_def)
  have "none_unused (\<lambda>r. rf_hash r = ae_hash env raw) rows"
    unfolding none_unused_def rows list_all_iff
  proof (intro ballI impI)
    fix r assume r: "r \<in> set (map (\<lambda>r. if rf_id r = rf_id row \<and> unused r then r\<lparr>rf_consumed := Some now\<rparr> else r) (ad_refresh db))"
      "rf_hash r = ae_hash env raw"
    then obtain r0 where r0: "r0 \<in> set (ad_refresh db)" "r = (if rf_id r0 = rf_id row \<and> unused r0 then r0\<lparr>rf_consumed := Some now\<rparr> else r0)" by auto
    then have "r0 = row" using only [of r0] r(2) by (auto split: if_splits)
    then show "\<not> unused r" using r0(2) row(2) by (simp add: unused_def)
  qed
  moreover obtain new rows' where new: "insert_refresh new rows = Some rows'" "db1 = db\<lparr>ad_refresh := rows'\<rparr>" "rf_hash new = ae_hash env (sw_raw dw)"
    using create_refresh_ok [OF row(4)] by (metis auth_db.select_convs(2) auth_db.surjective auth_db.update_convs(2))
  ultimately show ?thesis using insert_refresh_ok(1) [OF new(1)] assms(3) by (auto simp: none_unused_def)
qed

text \<open>A replay revokes the whole family of the token presented.\<close>

lemma replay_dead:
  assumes "find_refresh (ad_refresh db) (ae_hash env raw) = Some row" "rf_consumed row \<noteq> None"
    and "\<not> flt AcBegin" "\<not> flt AcRefreshLookup" "\<not> flt AcRevoke" "\<not> flt AcCommit"
  shows "none_unused (\<lambda>r. rf_family r = rf_family row) (ad_refresh (fst (refresh_tx flt env now dw raw db)))"
proof -
  have "ad_refresh (fst (refresh_tx flt env now dw raw db)) = revoke_family now (rf_family row) (ad_refresh db)"
    using assms by (simp add: refresh_tx_def Let_def)
  then show ?thesis by (auto simp: none_unused_def list_all_iff revoke_family_def revoke_row_def unused_def)
qed

lemma fresh_apart: "fresh_draws env rows evs \<Longrightarrow> r \<in> set rows
   \<Longrightarrow> rf_family r \<notin> set (concat (map (drawn_family \<circ> snd) evs)) \<and> rf_hash r \<notin> set (concat (map (drawn_hash env \<circ> snd) evs))"
  unfolding fresh_draws_def Let_def families_def hashes_def by blast

lemma refresh_run: "auth_run env db (now, AuRefresh flt dw raw) = (db', Some s)
    \<Longrightarrow> \<exists>row. refresh_tx flt env now dw raw db = (db', Inr (s, row))"
  by (simp add: session_given_fst)

lemma no_session: "\<not> is_ok (snd (refresh_tx flt env now dw raw db)) \<Longrightarrow> auth_session env db (now, AuRefresh flt dw raw) = None"
  by (cases "snd (refresh_tx flt env now dw raw db)") (simp_all add: auth_session_def)

lemma all_one: "distinct xs \<Longrightarrow> set xs \<subseteq> {a} \<Longrightarrow> length xs \<le> 1"
  by (cases xs) (auto simp: subset_singleton_iff)

section \<open>Example\<close>

text \<open>The tables after Jo's token was exchanged.\<close>

definition demo_spent :: auth_db where
  "demo_spent = demo_auth\<lparr>ad_refresh := [demo_refresh_row\<lparr>rf_consumed := Some 10\<rparr>,
       \<lparr>rf_id = ''r1'', rf_customer = ''u1'', rf_family = ''f0'', rf_hash = ''ht1'', rf_expires = 10 + refresh_token_ttl, rf_consumed = None,
        rf_revoked = None, rf_proven = Some ''acme.co''\<rparr>]\<rparr>"

lemma demo_tokens_ok: "tokens_ok (ad_refresh demo_auth)"
  by (simp add: tokens_ok_def demo_auth_def demo_refresh_row_def unused_def)

lemmas demo_spent = demo_exchanged [folded demo_spent_def]

lemma demo_fresh:
  "fresh_draws demo_env (ad_refresh demo_auth) [(10, demo_exchange ''1'' ''t0''), (20, demo_exchange ''2'' ''t1'')]"
  "fresh_draws demo_env (ad_refresh demo_spent) [(30, demo_exchange ''3'' ''t1'')]"
  by (simp_all add: fresh_draws_def Let_def demo_exchange_def demo_draws_def demo_env_def families_def hashes_def demo_auth_def demo_spent_def
      demo_refresh_row_def)

section \<open>Properties\<close>

text \<open>
  Of every family of refresh tokens at most one can be exchanged at any time: after any run of
  sign-ins, refreshes, sign-outs and sweeps, a family has at most one row neither consumed nor
  revoked.
\<close>

theorem one_usable_token_per_family:
  assumes "tokens_ok (ad_refresh db)" "fresh_draws env (ad_refresh db) evs"
  shows "length (filter (\<lambda>r. rf_family r = f \<and> unused r) (ad_refresh (run_events (auth_step env) db evs))) \<le> 1"
proof -
  let ?rows = "ad_refresh (run_events (auth_step env) db evs)"
  have "distinct (map rf_family (filter unused ?rows))" using run_tokens_ok [OF assms] by (simp add: tokens_ok_def)
  moreover have "map rf_family (filter (\<lambda>r. rf_family r = f \<and> unused r) rows) = filter (\<lambda>g. g = f) (map rf_family (filter unused rows))" for rows
    by (induction rows) auto
  ultimately have "distinct (map rf_family (filter (\<lambda>r. rf_family r = f \<and> unused r) ?rows))" by simp
  moreover have "set (map rf_family (filter (\<lambda>r. rf_family r = f \<and> unused r) ?rows)) \<subseteq> {f}" by auto
  ultimately show ?thesis using all_one by fastforce
qed

lemma one_usable_token_per_family_witness:
  "length (filter (\<lambda>r. rf_family r = ''f0'' \<and> unused r)
     (ad_refresh (run_events (auth_step demo_env) demo_auth [(10, demo_exchange ''1'' ''t0''), (20, demo_exchange ''2'' ''t1'')]))) \<le> 1"
  by (rule one_usable_token_per_family [OF demo_tokens_ok]) (simp add: demo_fresh)

text \<open>
  C22. A refresh token is exchanged once: after it has been, no command ever hands out a session for
  it again, however the commands after it interleave and whether or not its row is swept meanwhile.
\<close>

theorem refresh_token_exchanged_once:
  assumes "tokens_ok (ad_refresh db)" "auth_run env db (now, AuRefresh flt dw raw) = (db1, Some s)"
    and "fresh_draws env (ad_refresh db) ((now, AuRefresh flt dw raw) # evs)"
  shows "auth_session env (run_events (auth_step env) db1 evs) (later, AuRefresh flt' dw' raw) = None"
proof -
  obtain row where row: "refresh_tx flt env now dw raw db = (db1, Inr (s, row))" using refresh_run [OF assms(2)] by blast
  then have found: "find_refresh (ad_refresh db) (ae_hash env raw) = Some row" by (rule refresh_ok)
  have apart: "ae_hash env raw \<notin> set (concat (map (drawn_hash env \<circ> snd) ((now, AuRefresh flt dw raw) # evs)))"
    using fresh_apart [OF assms(3) conjunct1 [OF found_in [OF found]]] found_in [OF found] by simp
  then have "none_unused (\<lambda>r. rf_hash r = ae_hash env raw) (ad_refresh db1)" by (intro exchanged_dead [OF assms(1) row]) auto
  from run_dead_hash [OF this] have "none_unused (\<lambda>r. rf_hash r = ae_hash env raw) (ad_refresh (run_events (auth_step env) db1 evs))"
    using apart by simp
  from refused_when_dead [OF this] show ?thesis
    using found_in by (intro no_session) (simp add: option.pred_set)
qed

lemma refresh_token_exchanged_once_witness:
  "auth_session demo_env (run_events (auth_step demo_env) demo_spent [(20, demo_exchange ''2'' ''t1'')]) (30, demo_exchange ''3'' ''t0'') = None"
  unfolding demo_exchange_def
  by (rule refresh_token_exchanged_once [OF demo_tokens_ok demo_spent [unfolded demo_exchange_def]]) (simp add: demo_fresh [unfolded demo_exchange_def])

text \<open>
  A replayed refresh token ends its family: once a consumed token has been presented again, no
  token of its family is ever exchanged, the one its successor holds included.
\<close>

theorem replayed_token_ends_family:
  assumes "find_refresh (ad_refresh db) (ae_hash env raw) = Some row" "rf_consumed row \<noteq> None"
    and "\<not> flt AcBegin" "\<not> flt AcRefreshLookup" "\<not> flt AcRevoke" "\<not> flt AcCommit"
    and "fresh_draws env (ad_refresh db) evs" "db1 = run_events (auth_step env) (auth_step env db (now, AuRefresh flt dw raw)) evs"
    and "find_refresh (ad_refresh db1) (ae_hash env other) = Some row1" "rf_family row1 = rf_family row"
  shows "auth_session env db1 (later, AuRefresh flt' dw' other) = None"
proof -
  have "none_unused (\<lambda>r. rf_family r = rf_family row) (ad_refresh (auth_step env db (now, AuRefresh flt dw raw)))"
    using replay_dead [OF assms(1-6), of now dw] by (simp add: auth_step_def)
  moreover have "rf_family row \<notin> set (concat (map (drawn_family \<circ> snd) evs))"
    using fresh_apart [OF assms(7) conjunct1 [OF found_in [OF assms(1)]]] by blast
  ultimately have "none_unused (\<lambda>r. rf_family r = rf_family row) (ad_refresh db1)" unfolding assms(8) by (rule run_dead_family)
  from refused_when_dead [OF this] show ?thesis using assms(9,10) by (intro no_session) simp
qed

lemma replayed_token_ends_family_witness:
  "auth_session demo_env (run_events (auth_step demo_env) (auth_step demo_env demo_spent (20, demo_exchange ''2'' ''t0''))
      [(30, demo_exchange ''3'' ''t1'')]) (40, demo_exchange ''4'' ''t1'') = None"
  (is "auth_session _ ?db _ = _")
proof -
  let ?old = "demo_refresh_row\<lparr>rf_consumed := Some 10\<rparr>"
  let ?new = "\<lparr>rf_id = ''r1'', rf_customer = ''u1'', rf_family = ''f0'', rf_hash = ''ht1'', rf_expires = 10 + refresh_token_ttl,
     rf_consumed = None, rf_revoked = Some 20, rf_proven = Some ''acme.co''\<rparr>"
  have old: "find_refresh (ad_refresh demo_spent) (ae_hash demo_env ''t0'') = Some ?old"
    by (simp add: find_refresh_def demo_spent_def demo_refresh_row_def demo_env_def)
  have "ad_refresh (auth_step demo_env demo_spent (20, demo_exchange ''2'' ''t0'')) = [?old\<lparr>rf_revoked := Some 20\<rparr>, ?new]"
    by (simp add: auth_step_def demo_exchange_def refresh_tx_def find_refresh_def demo_spent_def demo_refresh_row_def demo_env_def
        revoke_family_def revoke_row_def Let_def)
  then have "ad_refresh ?db = [?old\<lparr>rf_revoked := Some 20\<rparr>, ?new]"
    by (simp add: auth_step_def demo_exchange_def refresh_tx_def find_refresh_def demo_refresh_row_def demo_env_def Let_def)
  then have new: "find_refresh (ad_refresh ?db) (ae_hash demo_env ''t1'') = Some ?new"
    by (simp add: find_refresh_def demo_refresh_row_def demo_env_def)
  have "auth_session demo_env ?db (40, AuRefresh (\<lambda>_. False) (demo_draws ''4'') ''t1'') = None"
    by (rule replayed_token_ends_family [where now = 20 and flt = "\<lambda>_. False" and dw = "demo_draws ''2''",
          OF old _ _ _ _ _ demo_fresh(2) _ new]) (simp_all add: demo_refresh_row_def demo_exchange_def)
  then show ?thesis by (simp add: demo_exchange_def)
qed

end
