(* ===== verification/Api_Keys.thy ===== *)
theory Api_Keys
  imports Sign_Up
begin

text \<open>
  Projects and their API keys, \<open>internal/core/projects\<close>: creating projects and keys, the writes
  that change or revoke them, and the Redis cache of \<open>repo.go\<close> that answers which project a key
  opens. Redis is one store of string keys; a cached row, a generation counter and a value that
  is neither are the three kinds of entry. A private key is stored as its digest, the argument
  \<open>hash\<close>; the random part of a key is drawn by the caller.
\<close>

section \<open>Keys\<close>

definition kind_public :: string where "kind_public = ''public''"
definition kind_private :: string where "kind_private = ''private''"

datatype proj_error = ProjectNotFound | ProjectNameTaken | AdminRequired | ApiKeyNotFound | UnknownKind | NoRows | ProjDb

datatype proj_call =
    PjBegin | PjCommit | PjRandom | PjInsertProject | PjInsertKey | PjDeleteKey | PjUpdate | PjTokens
  | PjGet | PjDel | PjGen | PjRead | PjMarshal | PjPopulate | PjCustomer | PjMember

text \<open>The 20 hex digits drawn, if the generator answered: the raw key and its token.\<close>

definition new_private_key :: "string option \<Rightarrow> string option" where
  "new_private_key hex = map_option ((@) ''prv_'') hex"

definition new_public_key :: "string option \<Rightarrow> string option" where
  "new_public_key hex = map_option ((@) ''pub_'') hex"

definition mint_key :: "(string \<Rightarrow> string) \<Rightarrow> string \<Rightarrow> string option \<Rightarrow> (proj_error, string \<times> string) result" where
  "mint_key hash kind hex =
     (if kind = kind_public then (case new_public_key hex of None \<Rightarrow> Inl ProjDb | Some raw \<Rightarrow> Inr (raw, raw))
      else if kind = kind_private then (case new_private_key hex of None \<Rightarrow> Inl ProjDb | Some raw \<Rightarrow> Inr (raw, hash raw))
      else Inl UnknownKind)"

definition mask_key_display :: "string \<Rightarrow> string" where
  "mask_key_display key = (if length key \<le> 8 then ''***'' else take 4 key @ ''...'' @ drop (length key - 4) key)"

section \<open>Tables\<close>

record api_project =
  ap_id :: string
  ap_org :: string
  ap_name :: string
  ap_zone :: string
  ap_theme :: string
  ap_fcm :: "string option"
  ap_created :: time
  ap_deleted :: "time option"

record api_key =
  ak_id :: string
  ak_project :: string
  ak_kind :: string
  ak_masked :: string
  ak_name :: string
  ak_token :: string
  ak_created :: time

record key_tables =
  kt_projects :: "api_project list"
  kt_keys :: "api_key list"
  kt_members :: "member_row list"

definition live_project :: "key_tables \<Rightarrow> string \<Rightarrow> api_project option" where
  "live_project db p = List.find (\<lambda>x. ap_id x = p \<and> ap_deleted x = None) (kt_projects db)"

text \<open>The insert's constraints: the primary key and the token are unique, the project has a row, the kind is known.\<close>

definition insert_key :: "api_key \<Rightarrow> key_tables \<Rightarrow> key_tables option" where
  "insert_key k db =
     (if list_ex (\<lambda>x. ak_id x = ak_id k \<or> ak_token x = ak_token k) (kt_keys db)
         \<or> \<not> list_ex (\<lambda>x. ap_id x = ak_project k) (kt_projects db) \<or> ak_kind k \<notin> {kind_public, kind_private} then None
      else Some (db\<lparr>kt_keys := kt_keys db @ [k]\<rparr>))"

definition keys_of_project :: "key_tables \<Rightarrow> string \<Rightarrow> api_key list" where
  "keys_of_project db p = filter (\<lambda>k. ak_project k = p) (sort_key (\<lambda>k. (ak_created k, ak_id k)) (kt_keys db))"

definition tokens_of_project :: "key_tables \<Rightarrow> string \<Rightarrow> string list" where
  "tokens_of_project db p = map ak_token (filter (\<lambda>k. ak_project k = p) (kt_keys db))"

definition lookup_key :: "key_tables \<Rightarrow> string \<Rightarrow> string \<Rightarrow> api_project option" where
  "lookup_key db kind token =
     (case List.find (\<lambda>k. ak_token k = token \<and> ak_kind k = kind \<and> live_project db (ak_project k) \<noteq> None) (kt_keys db) of
        None \<Rightarrow> None
      | Some k \<Rightarrow> live_project db (ak_project k))"

section \<open>Writes\<close>

text \<open>What is drawn for a key: its id and the random digits.\<close>

record key_draws =
  kd_id :: string
  kd_hex :: "string option"

definition create_api_key :: "(proj_call \<Rightarrow> bool) \<Rightarrow> (string \<Rightarrow> string) \<Rightarrow> time \<Rightarrow> key_draws \<Rightarrow> string \<Rightarrow> string \<Rightarrow> string \<Rightarrow> key_tables
    \<Rightarrow> (proj_error, key_tables \<times> api_key \<times> string) result" where
  "create_api_key flt hash now dw p kind name db =
     (case mint_key hash kind (kd_hex dw) of
        Inl e \<Rightarrow> Inl e
      | Inr (raw, token) \<Rightarrow>
          let k = \<lparr>ak_id = kd_id dw, ak_project = p, ak_kind = kind, ak_masked = mask_key_display raw, ak_name = name,
                   ak_token = token, ak_created = now\<rparr> in
          if flt PjInsertKey then Inl ProjDb
          else (case insert_key k db of None \<Rightarrow> Inl ProjDb | Some db1 \<Rightarrow> Inr (db1, k, raw)))"

text \<open>The deleted row's token is what the cached row is dropped by.\<close>

definition delete_api_key :: "(proj_call \<Rightarrow> bool) \<Rightarrow> string \<Rightarrow> string \<Rightarrow> key_tables \<Rightarrow> key_tables \<times> (proj_error, string) result" where
  "delete_api_key flt p i db =
     (if flt PjDeleteKey then (db, Inl ProjDb)
      else case List.find (\<lambda>k. ak_id k = i \<and> ak_project k = p) (kt_keys db) of
        None \<Rightarrow> (db, Inl ApiKeyNotFound)
      | Some k \<Rightarrow> (db\<lparr>kt_keys := filter (\<lambda>x. \<not> (ak_id x = i \<and> ak_project x = p)) (kt_keys db)\<rparr>, Inr (ak_token k)))"

definition name_taken :: "key_tables \<Rightarrow> string \<Rightarrow> string \<Rightarrow> string \<Rightarrow> bool" where
  "name_taken db p org name = list_ex (\<lambda>x. ap_id x \<noteq> p \<and> ap_org x = org \<and> ap_name x = name \<and> ap_deleted x = None) (kt_projects db)"

definition insert_project :: "(proj_call \<Rightarrow> bool) \<Rightarrow> api_project \<Rightarrow> key_tables \<Rightarrow> (proj_error, key_tables) result" where
  "insert_project flt x db =
     (if flt PjInsertProject \<or> list_ex (\<lambda>y. ap_id y = ap_id x) (kt_projects db) then Inl ProjDb
      else if name_taken db (ap_id x) (ap_org x) (ap_name x) then Inl ProjectNameTaken
      else Inr (db\<lparr>kt_projects := kt_projects db @ [x]\<rparr>))"

definition starter_project :: "(string \<Rightarrow> bool) \<Rightarrow> time \<Rightarrow> string \<Rightarrow> string \<Rightarrow> string \<Rightarrow> string \<Rightarrow> api_project" where
  "starter_project zones now i org name zone =
     \<lparr>ap_id = i, ap_org = org, ap_name = name, ap_zone = coerce_zone zones zone, ap_theme = [], ap_fcm = None, ap_created = now, ap_deleted = None\<rparr>"

text \<open>The project and its starter key are one transaction: a failed key leaves no project.\<close>

definition with_starter_key :: "(proj_call \<Rightarrow> bool) \<Rightarrow> (string \<Rightarrow> string) \<Rightarrow> time \<Rightarrow> key_draws \<Rightarrow> api_project \<Rightarrow> key_tables
    \<Rightarrow> key_tables \<times> (proj_error, api_project) result" where
  "with_starter_key flt hash now dw x db =
     (case insert_project flt x db of
        Inl e \<Rightarrow> (db, Inl e)
      | Inr db1 \<Rightarrow>
      (case create_api_key flt hash now dw (ap_id x) kind_public [] db1 of
        Inl e \<Rightarrow> (db, Inl e)
      | Inr (db2, _) \<Rightarrow> if flt PjCommit then (db, Inl ProjDb) else (db2, Inr x)))"

definition create_project :: "(proj_call \<Rightarrow> bool) \<Rightarrow> (string \<Rightarrow> string) \<Rightarrow> (string \<Rightarrow> bool) \<Rightarrow> time \<Rightarrow> key_draws \<Rightarrow> string \<Rightarrow> string \<Rightarrow> string \<Rightarrow> string
    \<Rightarrow> key_tables \<Rightarrow> key_tables \<times> (proj_error, api_project) result" where
  "create_project flt hash zones now dw i org name zone db =
     (if flt PjBegin then (db, Inl ProjDb) else with_starter_key flt hash now dw (starter_project zones now i org name zone) db)"

definition create_project_as_admin :: "(proj_call \<Rightarrow> bool) \<Rightarrow> (string \<Rightarrow> string) \<Rightarrow> (string \<Rightarrow> bool) \<Rightarrow> time \<Rightarrow> key_draws \<Rightarrow> string \<Rightarrow> string \<Rightarrow> string
    \<Rightarrow> string \<Rightarrow> string \<Rightarrow> key_tables \<Rightarrow> key_tables \<times> (proj_error, api_project) result" where
  "create_project_as_admin flt hash zones now dw i org c name zone db =
     (if flt PjBegin then (db, Inl ProjDb)
      else if \<not> flt PjInsertProject \<and> \<not> list_ex (\<lambda>m. mb_org m = org \<and> mb_customer m = c \<and> mb_role m = ''ORG_ROLE_ADMIN'') (kt_members db)
      then (db, Inl AdminRequired)
      else with_starter_key flt hash now dw (starter_project zones now i org name zone) db)"

text \<open>A column that is given is written, the others stay.\<close>

record project_meta =
  pm_org :: string
  pm_id :: string
  pm_name :: "string option"
  pm_zone :: "string option"
  pm_theme :: "string option"

definition given_or :: "'a option \<Rightarrow> 'a \<Rightarrow> 'a" where
  "given_or v old = (case v of None \<Rightarrow> old | Some x \<Rightarrow> x)"

definition update_row :: "string \<Rightarrow> string \<Rightarrow> (api_project \<Rightarrow> api_project) \<Rightarrow> key_tables \<Rightarrow> key_tables" where
  "update_row org p f db = db\<lparr>kt_projects := map (\<lambda>x. if ap_org x = org \<and> ap_id x = p \<and> ap_deleted x = None then f x else x) (kt_projects db)\<rparr>"

definition update_project_meta :: "(proj_call \<Rightarrow> bool) \<Rightarrow> project_meta \<Rightarrow> key_tables \<Rightarrow> key_tables \<times> (proj_error, api_project) result" where
  "update_project_meta flt arg db =
     (if flt PjUpdate then (db, Inl ProjDb)
      else case List.find (\<lambda>x. ap_org x = pm_org arg \<and> ap_id x = pm_id arg \<and> ap_deleted x = None) (kt_projects db) of
        None \<Rightarrow> (db, Inl ProjectNotFound)
      | Some x \<Rightarrow>
          let f = (\<lambda>x. x\<lparr>ap_name := given_or (pm_name arg) (ap_name x), ap_zone := given_or (pm_zone arg) (ap_zone x),
                         ap_theme := given_or (pm_theme arg) (ap_theme x)\<rparr>) in
          if name_taken db (ap_id x) (ap_org x) (ap_name (f x)) then (db, Inl ProjectNameTaken)
          else (update_row (pm_org arg) (pm_id arg) f db, Inr (f x)))"

definition update_fcm :: "(proj_call \<Rightarrow> bool) \<Rightarrow> string \<Rightarrow> string \<Rightarrow> string option \<Rightarrow> key_tables \<Rightarrow> key_tables \<times> (proj_error, api_project) result" where
  "update_fcm flt org p json db =
     (if flt PjUpdate then (db, Inl ProjDb)
      else case List.find (\<lambda>x. ap_org x = org \<and> ap_id x = p \<and> ap_deleted x = None) (kt_projects db) of
        None \<Rightarrow> (db, Inl ProjectNotFound)
      | Some x \<Rightarrow> (update_row org p (\<lambda>x. x\<lparr>ap_fcm := json\<rparr>) db, Inr (x\<lparr>ap_fcm := json\<rparr>)))"

text \<open>What hiding a project does to these tables: its keys' tokens and the tables.\<close>

definition hide_keys :: "time \<Rightarrow> string \<Rightarrow> key_tables \<Rightarrow> key_tables \<times> string list" where
  "hide_keys now p db =
     (db\<lparr>kt_keys := filter (\<lambda>k. ak_project k \<noteq> p) (kt_keys db),
         kt_projects := map (\<lambda>x. if ap_id x = p then x\<lparr>ap_deleted := Some now, ap_fcm := None\<rparr> else x) (kt_projects db)\<rparr>,
      tokens_of_project db p)"

section \<open>Reads\<close>

definition project_exists_for_member :: "(proj_call \<Rightarrow> bool) \<Rightarrow> key_tables \<Rightarrow> string \<Rightarrow> string \<Rightarrow> (proj_error, bool) result" where
  "project_exists_for_member flt db p c =
     (if flt PjMember then Inl ProjDb
      else Inr (case live_project db p of None \<Rightarrow> False | Some x \<Rightarrow> find_member (kt_members db) (ap_org x) c \<noteq> None))"

definition api_key_tokens :: "(proj_call \<Rightarrow> bool) \<Rightarrow> key_tables \<Rightarrow> string \<Rightarrow> string list option" where
  "api_key_tokens flt db p = (if flt PjTokens then None else Some (tokens_of_project db p))"

section \<open>The cache\<close>

definition private_key_cache_prefix :: string where "private_key_cache_prefix = ''project:prvkey:''"
definition public_key_cache_prefix :: string where "public_key_cache_prefix = ''project:pubkey:''"
definition api_key_gen_cache_prefix :: string where "api_key_gen_cache_prefix = ''project:keygen:''"

definition gen_cache_key :: "string \<Rightarrow> string" where
  "gen_cache_key token = api_key_gen_cache_prefix @ token"

definition row_cache_key :: "string \<Rightarrow> string \<Rightarrow> string" where
  "row_cache_key kind token = (if kind = kind_private then private_key_cache_prefix else public_key_cache_prefix) @ token"

datatype cache_entry = CachedProject api_project | Counter nat | Corrupt string

type_synonym redis = "string \<Rightarrow> cache_entry option"

text \<open>An absent counter is observed as such; \<open>None\<close> is one that could not be read.\<close>

definition observe_key_gen :: "(proj_call \<Rightarrow> bool) \<Rightarrow> redis \<Rightarrow> string \<Rightarrow> cache_entry option option" where
  "observe_key_gen flt r token = (if flt PjGen then None else Some (r (gen_cache_key token)))"

definition cached_project :: "(proj_call \<Rightarrow> bool) \<Rightarrow> string \<Rightarrow> redis \<Rightarrow> redis \<times> api_project option" where
  "cached_project flt key r =
     (if flt PjGet then (r, None)
      else case r key of
        None \<Rightarrow> (r, None)
      | Some (CachedProject p) \<Rightarrow> (r, Some p)
      | Some _ \<Rightarrow> (if flt PjDel then r else r(key := None), None))"

definition populate_project :: "string \<Rightarrow> string \<Rightarrow> cache_entry option \<Rightarrow> api_project \<Rightarrow> redis \<Rightarrow> redis" where
  "populate_project key genkey observed p r = (if r genkey = observed then r(key := Some (CachedProject p)) else r)"

definition cache_project :: "(proj_call \<Rightarrow> bool) \<Rightarrow> string \<Rightarrow> string \<Rightarrow> cache_entry option \<Rightarrow> api_project \<Rightarrow> redis \<Rightarrow> redis" where
  "cache_project flt key token observed p r =
     (if flt PjMarshal \<or> flt PjPopulate then r else populate_project key (gen_cache_key token) observed p r)"

text \<open>The script of one token; the increment of an entry that is no counter ends it.\<close>

definition invalidate_key :: "string \<Rightarrow> redis \<Rightarrow> redis" where
  "invalidate_key token r =
     (case (case r (gen_cache_key token) of None \<Rightarrow> Some 1 | Some (Counter n) \<Rightarrow> Some (Suc n) | _ \<Rightarrow> None) of
        None \<Rightarrow> r
      | Some n \<Rightarrow> r(gen_cache_key token := Some (Counter n), private_key_cache_prefix @ token := None, public_key_cache_prefix @ token := None))"

text \<open>\<open>landed i\<close> is whether the script of the \<open>i\<close>-th token reached Redis; the others still run.\<close>

primrec invalidate_project_keys :: "(nat \<Rightarrow> bool) \<Rightarrow> string list \<Rightarrow> redis \<Rightarrow> redis" where
  "invalidate_project_keys landed [] r = r"
| "invalidate_project_keys landed (t # ts) r =
     invalidate_project_keys (landed \<circ> Suc) ts (if landed 0 then invalidate_key t r else r)"

text \<open>After an update: the tokens listed, none when the listing fails.\<close>

definition invalidate_project :: "(proj_call \<Rightarrow> bool) \<Rightarrow> (nat \<Rightarrow> bool) \<Rightarrow> key_tables \<Rightarrow> string \<Rightarrow> redis \<Rightarrow> redis" where
  "invalidate_project flt landed db p r =
     (case api_key_tokens flt db p of None \<Rightarrow> r | Some ts \<Rightarrow> invalidate_project_keys landed ts r)"

text \<open>A lookup with nothing in between: what it answers and the store it leaves.\<close>

definition get_project_by_key :: "(proj_call \<Rightarrow> bool) \<Rightarrow> string \<Rightarrow> string \<Rightarrow> key_tables \<Rightarrow> redis \<Rightarrow> redis \<times> (proj_error, api_project) result" where
  "get_project_by_key flt kind token db r =
     (case cached_project flt (row_cache_key kind token) r of
        (r1, Some p) \<Rightarrow> (r1, Inr p)
      | (r1, None) \<Rightarrow>
          let observed = observe_key_gen flt r1 token in
          if flt PjRead then (r1, Inl ProjDb)
          else (case lookup_key db kind token of
            None \<Rightarrow> (r1, Inl NoRows)
          | Some p \<Rightarrow>
              (case observed of
                 None \<Rightarrow> (r1, Inr p)
               | Some g \<Rightarrow> (cache_project flt (row_cache_key kind token) token g p r1, Inr p))))"

definition get_project_by_private_key :: "(proj_call \<Rightarrow> bool) \<Rightarrow> (string \<Rightarrow> string) \<Rightarrow> string \<Rightarrow> key_tables \<Rightarrow> redis \<Rightarrow> redis \<times> (proj_error, api_project) result" where
  "get_project_by_private_key flt hash key db r = get_project_by_key flt kind_private (hash key) db r"

definition get_project_by_public_key :: "(proj_call \<Rightarrow> bool) \<Rightarrow> string \<Rightarrow> key_tables \<Rightarrow> redis \<Rightarrow> redis \<times> (proj_error, api_project) result" where
  "get_project_by_public_key flt key db r = get_project_by_key flt kind_public key db r"

end
