(* ===== verification/Key_Cache.thy ===== *)
theory Key_Cache
  imports Api_Keys
begin

text \<open>
  The key cache beside the writes: lookups of any keys run interleaved with the operations that
  create and revoke keys, with a replica that replays the primary's commits in order, and with
  expiries. A key that was revoked and whose invalidation ran opens nothing.
\<close>

section \<open>The machine\<close>

definition kind_of :: "bool \<Rightarrow> string" where
  "kind_of private = (if private then kind_private else kind_public)"

datatype key_write =
    KwCreateKey "proj_call \<Rightarrow> bool" key_draws string string string
  | KwDeleteKey "proj_call \<Rightarrow> bool" string string
  | KwCreate "proj_call \<Rightarrow> bool" key_draws string string string string
  | KwCreateAsAdmin "proj_call \<Rightarrow> bool" key_draws string string string string string
  | KwMeta "proj_call \<Rightarrow> bool" project_meta "string list"
  | KwFcm "proj_call \<Rightarrow> bool" string string "string option" "string list"
  | KwHide string

text \<open>The tables after a write and the tokens it then invalidates; an update's were listed by a read, any list.\<close>

fun key_write_run :: "(string \<Rightarrow> string) \<Rightarrow> (string \<Rightarrow> bool) \<Rightarrow> time \<Rightarrow> key_write \<Rightarrow> key_tables \<Rightarrow> key_tables \<times> string list" where
  "key_write_run hash zones now (KwCreateKey flt dw p kind name) db =
     (case create_api_key flt hash now dw p kind name db of Inl _ \<Rightarrow> (db, []) | Inr (db1, _) \<Rightarrow> (db1, []))"
| "key_write_run hash zones now (KwDeleteKey flt p i) db =
     (case delete_api_key flt p i db of (db1, Inl _) \<Rightarrow> (db1, []) | (db1, Inr t) \<Rightarrow> (db1, [t]))"
| "key_write_run hash zones now (KwCreate flt dw i org name zone) db = (fst (create_project flt hash zones now dw i org name zone db), [])"
| "key_write_run hash zones now (KwCreateAsAdmin flt dw i org c name zone) db =
     (fst (create_project_as_admin flt hash zones now dw i org c name zone db), [])"
| "key_write_run hash zones now (KwMeta flt arg ts) db = (fst (update_project_meta flt arg db), ts)"
| "key_write_run hash zones now (KwFcm flt org p json ts) db = (fst (update_fcm flt org p json db), ts)"
| "key_write_run hash zones now (KwHide p) db = hide_keys now p db"

datatype key_reader =
    KeyObserved bool string "cache_entry option"
  | KeyHas bool string "cache_entry option" api_project

record key_state =
  ks_tables :: key_tables
  ks_replica :: key_tables
  ks_log :: "key_tables list" \<comment> \<open>what the replica has still to replay\<close>
  ks_redis :: redis
  ks_readers :: "key_reader list"
  ks_pending :: "string list" \<comment> \<open>tokens whose invalidation has not run\<close>

datatype key_event =
    KeWrite time key_write
  | KeInvalidate nat bool
  | KeBegin "proj_call \<Rightarrow> bool" bool string
  | KeRead nat "proj_call \<Rightarrow> bool"
  | KeEnd nat "proj_call \<Rightarrow> bool"
  | KeReplay
  | KeRowExpires bool string
  | KeGenExpires string

definition drop_nth :: "nat \<Rightarrow> 'a list \<Rightarrow> 'a list" where
  "drop_nth i xs = take i xs @ drop (Suc i) xs"

definition begin_lookup :: "(proj_call \<Rightarrow> bool) \<Rightarrow> bool \<Rightarrow> string \<Rightarrow> key_state \<Rightarrow> key_state" where
  "begin_lookup flt private token s =
     (case cached_project flt (row_cache_key (kind_of private) token) (ks_redis s) of
        (r, Some _) \<Rightarrow> s\<lparr>ks_redis := r\<rparr>
      | (r, None) \<Rightarrow> s\<lparr>ks_redis := r, ks_readers := (case observe_key_gen flt r token of
            None \<Rightarrow> ks_readers s
          | Some g \<Rightarrow> ks_readers s @ [KeyObserved private token g])\<rparr>)"

definition read_lookup :: "nat \<Rightarrow> (proj_call \<Rightarrow> bool) \<Rightarrow> key_state \<Rightarrow> key_state" where
  "read_lookup i flt s =
     (if i \<ge> length (ks_readers s) then s
      else case ks_readers s ! i of
        KeyHas _ _ _ _ \<Rightarrow> s
      | KeyObserved private token g \<Rightarrow>
          (case (if flt PjRead then None else lookup_key (ks_replica s) (kind_of private) token) of
             None \<Rightarrow> s\<lparr>ks_readers := drop_nth i (ks_readers s)\<rparr>
           | Some p \<Rightarrow> s\<lparr>ks_readers := (ks_readers s)[i := KeyHas private token g p]\<rparr>))"

definition end_lookup :: "nat \<Rightarrow> (proj_call \<Rightarrow> bool) \<Rightarrow> key_state \<Rightarrow> key_state" where
  "end_lookup i flt s =
     (if i \<ge> length (ks_readers s) then s
      else case ks_readers s ! i of
        KeyObserved _ _ _ \<Rightarrow> s
      | KeyHas private token g p \<Rightarrow>
          s\<lparr>ks_redis := cache_project flt (row_cache_key (kind_of private) token) token g p (ks_redis s), ks_readers := drop_nth i (ks_readers s)\<rparr>)"

fun key_step :: "(string \<Rightarrow> string) \<Rightarrow> (string \<Rightarrow> bool) \<Rightarrow> key_state \<Rightarrow> key_event \<Rightarrow> key_state" where
  "key_step hash zones s (KeWrite now w) =
     (case key_write_run hash zones now w (ks_tables s) of
        (db, ts) \<Rightarrow> s\<lparr>ks_tables := db, ks_log := ks_log s @ [db], ks_pending := ks_pending s @ ts\<rparr>)"
| "key_step hash zones s (KeInvalidate i landed) =
     (if i \<ge> length (ks_pending s) then s
      else s\<lparr>ks_pending := drop_nth i (ks_pending s),
             ks_redis := invalidate_project_keys (\<lambda>_. landed) [ks_pending s ! i] (ks_redis s)\<rparr>)"
| "key_step hash zones s (KeBegin flt private token) = begin_lookup flt private token s"
| "key_step hash zones s (KeRead i flt) = read_lookup i flt s"
| "key_step hash zones s (KeEnd i flt) = end_lookup i flt s"
| "key_step hash zones s KeReplay = (case ks_log s of [] \<Rightarrow> s | db # log \<Rightarrow> s\<lparr>ks_replica := db, ks_log := log\<rparr>)"
| "key_step hash zones s (KeRowExpires private token) = s\<lparr>ks_redis := (ks_redis s)(row_cache_key (kind_of private) token := None)\<rparr>"
| "key_step hash zones s (KeGenExpires token) = s\<lparr>ks_redis := (ks_redis s)(gen_cache_key token := None)\<rparr>"

text \<open>
  What the code relies on: an invalidation reaches Redis, a counter outlives the lookups that
  observed it, and the row a lookup reads is not behind the primary.
\<close>

definition reader_token :: "key_reader \<Rightarrow> string" where
  "reader_token rd = (case rd of KeyObserved _ t _ \<Rightarrow> t | KeyHas _ t _ _ \<Rightarrow> t)"

definition key_event_ok :: "key_state \<Rightarrow> key_event \<Rightarrow> bool" where
  "key_event_ok s e =
     (case e of
        KeInvalidate _ landed \<Rightarrow> landed
      | KeRead _ _ \<Rightarrow> ks_log s = []
      | KeGenExpires token \<Rightarrow> list_all (\<lambda>rd. reader_token rd \<noteq> token) (ks_readers s)
      | _ \<Rightarrow> True)"

definition fresh_keys :: "key_tables \<Rightarrow> key_state" where
  "fresh_keys db = \<lparr>ks_tables = db, ks_replica = db, ks_log = [], ks_redis = (\<lambda>_. None), ks_readers = [], ks_pending = []\<rparr>"

section \<open>What a key opens\<close>

definition opens :: "key_tables \<Rightarrow> string \<Rightarrow> string \<Rightarrow> string \<Rightarrow> bool" where
  "opens db kind token p =
     (list_ex (\<lambda>k. ak_token k = token \<and> ak_kind k = kind \<and> ak_project k = p) (kt_keys db)
      \<and> list_ex (\<lambda>x. ap_id x = p \<and> ap_deleted x = None) (kt_projects db))"

lemma live_project_id: "live_project db p = Some x \<Longrightarrow> ap_id x = p \<and> x \<in> set (kt_projects db) \<and> ap_deleted x = None"
  by (auto simp: live_project_def find_Some_iff)

lemma lookup_opens: assumes "lookup_key db kind token = Some x" shows "opens db kind token (ap_id x)"
proof -
  obtain k where k: "List.find (\<lambda>k. ak_token k = token \<and> ak_kind k = kind \<and> live_project db (ak_project k) \<noteq> None) (kt_keys db) = Some k"
    "live_project db (ak_project k) = Some x" using assms by (auto simp: lookup_key_def split: option.splits)
  then have "k \<in> set (kt_keys db) \<and> ak_token k = token \<and> ak_kind k = kind" by (auto simp: find_Some_iff)
  then show ?thesis using live_project_id [OF k(2)] by (auto simp: opens_def list_ex_iff)
qed

text \<open>What a write takes away it invalidates.\<close>

definition more_tables :: "key_tables \<Rightarrow> key_tables \<Rightarrow> bool" where
  "more_tables db db' = (set (kt_keys db) \<subseteq> set (kt_keys db') \<and>
     (\<lambda>x. (ap_id x, ap_deleted x)) ` set (kt_projects db) \<subseteq> (\<lambda>x. (ap_id x, ap_deleted x)) ` set (kt_projects db'))"

definition key_ids_ok :: "key_tables \<Rightarrow> bool" where
  "key_ids_ok db = distinct (map ak_id (kt_keys db))"

lemma more_refl [simp]: "more_tables db db"
  by (simp add: more_tables_def)

lemma more_opens: assumes "more_tables db db'" "opens db kind token p" shows "opens db' kind token p"
proof -
  obtain x where "x \<in> set (kt_projects db)" "ap_id x = p" "ap_deleted x = None" using assms(2) by (auto simp: opens_def list_ex_iff)
  then have "(p, None) \<in> (\<lambda>x. (ap_id x, ap_deleted x)) ` set (kt_projects db)" by force
  then have "(p, None) \<in> (\<lambda>x. (ap_id x, ap_deleted x)) ` set (kt_projects db')" using assms(1) unfolding more_tables_def by blast
  then have "list_ex (\<lambda>x. ap_id x = p \<and> ap_deleted x = None) (kt_projects db')" by (auto simp: list_ex_iff)
  moreover have "set (kt_keys db) \<subseteq> set (kt_keys db')" using assms(1) by (simp add: more_tables_def)
  ultimately show ?thesis using assms(2) unfolding opens_def list_ex_iff by blast
qed

lemma insert_key_more: assumes "insert_key k db = Some db'" shows "more_tables db db'" "key_ids_ok db \<Longrightarrow> key_ids_ok db'"
proof -
  have "db' = db\<lparr>kt_keys := kt_keys db @ [k]\<rparr>" "ak_id k \<notin> ak_id ` set (kt_keys db)"
    using assms unfolding insert_key_def list_ex_iff by (fastforce split: if_splits)+
  then show "more_tables db db'" "key_ids_ok db \<Longrightarrow> key_ids_ok db'" by (auto simp: more_tables_def key_ids_ok_def)
qed

lemma create_key_more: assumes "create_api_key flt hash now dw p kind name db = Inr (db', x)"
  shows "more_tables db db'" "key_ids_ok db \<Longrightarrow> key_ids_ok db'"
proof -
  obtain k where "insert_key k db = Some db'" using assms by (auto simp: create_api_key_def Let_def split: sum.splits option.splits if_splits)
  from insert_key_more [OF this] show "more_tables db db'" "key_ids_ok db \<Longrightarrow> key_ids_ok db'" by blast+
qed

lemma insert_project_more:
  assumes "insert_project flt x db = Inr db'" shows "more_tables db db' \<and> kt_keys db' = kt_keys db"
proof -
  have "db' = db\<lparr>kt_projects := kt_projects db @ [x]\<rparr>" using assms unfolding insert_project_def by (simp split: if_splits)
  then show ?thesis by (simp add: more_tables_def image_Un subset_insertI)
qed

lemma more_trans: assumes "more_tables a b" "more_tables b c" shows "more_tables a c"
  using assms(1) [unfolded more_tables_def, THEN conjunct1] assms(1) [unfolded more_tables_def, THEN conjunct2]
    assms(2) [unfolded more_tables_def, THEN conjunct1] assms(2) [unfolded more_tables_def, THEN conjunct2]
  unfolding more_tables_def by (intro conjI) (rule order_trans, assumption+)+

lemma starter_more:
  assumes "key_ids_ok db"
  shows "more_tables db (fst (with_starter_key flt hash now dw x db)) \<and> key_ids_ok (fst (with_starter_key flt hash now dw x db))"
proof (cases "insert_project flt x db")
  case (Inl e)
  then show ?thesis using assms by (simp add: with_starter_key_def)
next
  case (Inr db1)
  note rows = insert_project_more [OF Inr]
  show ?thesis
  proof (cases "create_api_key flt hash now dw (ap_id x) kind_public [] db1")
    case failed: (Inl e)
    then show ?thesis using Inr assms by (simp add: with_starter_key_def)
  next
    case made: (Inr out)
    obtain db2 k where out: "out = (db2, k)" by (cases out)
    have "key_ids_ok db1" using rows assms by (simp add: key_ids_ok_def)
    then have "more_tables db db2" "key_ids_ok db2" using create_key_more [OF made [unfolded out]] rows more_trans by blast+
    then show ?thesis using Inr made assms by (simp add: with_starter_key_def out)
  qed
qed

lemma update_row_more:
  assumes "\<And>x. ap_id (f x) = ap_id x \<and> ap_deleted (f x) = ap_deleted x"
  shows "more_tables db (update_row org p f db) \<and> kt_keys (update_row org p f db) = kt_keys db"
proof -
  let ?g = "\<lambda>x. if ap_org x = org \<and> ap_id x = p \<and> ap_deleted x = None then f x else x"
  have "(\<lambda>x. (ap_id x, ap_deleted x)) (?g x) = (ap_id x, ap_deleted x)" for x using assms by simp
  then have "(\<lambda>x. (ap_id x, ap_deleted x)) ` set (map ?g (kt_projects db)) = (\<lambda>x. (ap_id x, ap_deleted x)) ` set (kt_projects db)"
    by (simp only: set_map image_image)
  then show ?thesis by (simp add: more_tables_def update_row_def)
qed

lemma meta_more: "more_tables db (fst (update_project_meta flt arg db)) \<and> kt_keys (fst (update_project_meta flt arg db)) = kt_keys db"
  using update_row_more [of "\<lambda>x. x\<lparr>ap_name := given_or (pm_name arg) (ap_name x), ap_zone := given_or (pm_zone arg) (ap_zone x),
      ap_theme := given_or (pm_theme arg) (ap_theme x)\<rparr>" db "pm_org arg" "pm_id arg"]
  by (simp add: update_project_meta_def Let_def split: option.split)

lemma fcm_more: "more_tables db (fst (update_fcm flt org p json db)) \<and> kt_keys (fst (update_fcm flt org p json db)) = kt_keys db"
  using update_row_more [of "\<lambda>x. x\<lparr>ap_fcm := json\<rparr>" db org p] by (simp add: update_fcm_def split: option.split)

lemma deleted_key_invalidated:
  assumes "key_ids_ok db" "delete_api_key flt p i db = (db', res)" "opens db kind token q"
  shows "opens db' kind token q \<or> res = Inr token"
proof (cases res)
  case (Inl e)
  then show ?thesis using assms(2,3) by (auto simp: delete_api_key_def split: if_splits option.splits)
next
  case (Inr t)
  then obtain k where k: "List.find (\<lambda>k. ak_id k = i \<and> ak_project k = p) (kt_keys db) = Some k" "t = ak_token k"
    "db' = db\<lparr>kt_keys := filter (\<lambda>x. \<not> (ak_id x = i \<and> ak_project x = p)) (kt_keys db)\<rparr>"
    using assms(2) by (auto simp: delete_api_key_def split: if_splits option.splits)
  obtain x where x: "x \<in> set (kt_keys db)" "ak_token x = token" "ak_kind x = kind" "ak_project x = q"
    using assms(3) by (auto simp: opens_def list_ex_iff)
  show ?thesis
  proof (cases "ak_id x = i \<and> ak_project x = p")
    case True
    have "k \<in> set (kt_keys db)" "ak_id k = i" using k(1) by (auto simp: find_Some_iff)
    with True x(1) assms(1) have "k = x" by (auto simp: key_ids_ok_def distinct_map inj_on_def)
    then show ?thesis using Inr k(2) x(2) by simp
  next
    case False
    then show ?thesis using x k(3) assms(3) by (auto simp: opens_def list_ex_iff)
  qed
qed

lemma hidden_keys_invalidated:
  assumes "opens db kind token q" shows "opens (fst (hide_keys now p db)) kind token q \<or> token \<in> set (snd (hide_keys now p db))"
proof (cases "q = p")
  case True
  then show ?thesis using assms by (auto simp: opens_def hide_keys_def tokens_of_project_def list_ex_iff image_iff)
next
  case False
  obtain x where "x \<in> set (kt_projects db)" "ap_id x = q" "ap_deleted x = None" using assms by (auto simp: opens_def list_ex_iff)
  then show ?thesis using assms False by (auto simp: opens_def hide_keys_def list_ex_iff image_iff intro!: bexI [of _ x])
qed

lemma key_ids_filter: "key_ids_ok db \<Longrightarrow> key_ids_ok (db\<lparr>kt_keys := filter P (kt_keys db)\<rparr>)"
  by (simp add: key_ids_ok_def distinct_map_filter)

lemma write_invalidates:
  assumes "key_ids_ok db" "key_write_run hash zones now w db = (db', ts)"
  shows "key_ids_ok db'" "opens db kind token q \<Longrightarrow> opens db' kind token q \<or> token \<in> set ts"
proof -
  have "key_ids_ok db' \<and> (opens db kind token q \<longrightarrow> opens db' kind token q \<or> token \<in> set ts)"
  proof (cases w)
    case (KwCreateKey flt dw p kind' name)
    show ?thesis
    proof (cases "create_api_key flt hash now dw p kind' name db")
      case (Inl e)
      then show ?thesis using assms KwCreateKey by simp
    next
      case (Inr out)
      obtain db1 k where out: "out = (db1, k)" by (cases out)
      from create_key_more [OF Inr [unfolded out]] assms KwCreateKey Inr out more_opens [of db db1]
      show ?thesis by simp
    qed
  next
    case (KwDeleteKey flt p i)
    obtain db1 res where out: "delete_api_key flt p i db = (db1, res)" by (cases "delete_api_key flt p i db")
    have "key_ids_ok db1" using out assms(1) key_ids_filter by (auto simp: delete_api_key_def split: if_splits option.splits)
    then show ?thesis using KwDeleteKey assms(2) out deleted_key_invalidated [OF assms(1) out, of kind token q] by (auto split: sum.splits)
  next
    case (KwCreate flt dw i org name zone)
    show ?thesis using assms KwCreate starter_more [OF assms(1)] more_opens [OF conjunct1 [OF starter_more [OF assms(1)]], of kind token q]
      by (auto simp: create_project_def split: if_splits)
  next
    case (KwCreateAsAdmin flt dw i org c name zone)
    show ?thesis using assms KwCreateAsAdmin starter_more [OF assms(1)] more_opens [OF conjunct1 [OF starter_more [OF assms(1)]], of kind token q]
      by (auto simp: create_project_as_admin_def split: if_splits)
  next
    case (KwMeta flt arg ts')
    then show ?thesis using assms meta_more [of db flt arg] more_opens [OF conjunct1 [OF meta_more], of db kind token q] by (auto simp: key_ids_ok_def)
  next
    case (KwFcm flt org p json ts')
    then show ?thesis using assms fcm_more [of db flt org p json] more_opens [OF conjunct1 [OF fcm_more], of db kind token q] by (auto simp: key_ids_ok_def)
  next
    case (KwHide p)
    then show ?thesis using assms hidden_keys_invalidated [of db kind token q now p] by (auto simp: hide_keys_def key_ids_ok_def distinct_map_filter)
  qed
  then show "key_ids_ok db'" "opens db kind token q \<Longrightarrow> opens db' kind token q \<or> token \<in> set ts" by blast+
qed

section \<open>Coherence\<close>

lemma cache_keys [simp]:
  "row_cache_key (kind_of a) t = row_cache_key (kind_of b) u \<longleftrightarrow> a = b \<and> t = u"
  "gen_cache_key t = gen_cache_key u \<longleftrightarrow> t = u" "row_cache_key (kind_of a) t \<noteq> gen_cache_key u" "gen_cache_key u \<noteq> row_cache_key (kind_of a) t"
  by (auto simp: row_cache_key_def kind_of_def gen_cache_key_def private_key_cache_prefix_def public_key_cache_prefix_def
      api_key_gen_cache_prefix_def kind_private_def kind_public_def)

lemma row_keys: "private_key_cache_prefix @ t = row_cache_key (kind_of True) t" "public_key_cache_prefix @ t = row_cache_key (kind_of False) t"
  by (simp_all add: row_cache_key_def kind_of_def kind_private_def kind_public_def)

definition count_le :: "cache_entry option \<Rightarrow> cache_entry option \<Rightarrow> bool" where
  "count_le a b = (case a of None \<Rightarrow> True | Some (Counter m) \<Rightarrow> (case b of Some (Counter n) \<Rightarrow> m \<le> n | _ \<Rightarrow> False) | _ \<Rightarrow> False)"

text \<open>A row some lookup or the cache holds is of a key that opens its project, or an invalidation is due.\<close>

definition backed_key :: "key_tables \<Rightarrow> string list \<Rightarrow> bool \<Rightarrow> string \<Rightarrow> api_project \<Rightarrow> bool" where
  "backed_key db ts private token p = (opens db (kind_of private) token (ap_id p) \<or> token \<in> set ts)"

definition lookup_ok :: "key_tables \<Rightarrow> string list \<Rightarrow> redis \<Rightarrow> key_reader \<Rightarrow> bool" where
  "lookup_ok db ts r rd =
     (case rd of
        KeyObserved _ t g \<Rightarrow> count_le g (r (gen_cache_key t))
      | KeyHas private t g p \<Rightarrow> count_le g (r (gen_cache_key t)) \<and> (g = r (gen_cache_key t) \<longrightarrow> backed_key db ts private t p))"

definition counters_ok :: "redis \<Rightarrow> bool" where
  "counters_ok r = (\<forall>t. r (gen_cache_key t) = None \<or> (\<exists>n. r (gen_cache_key t) = Some (Counter n)))"

definition rows_ok :: "key_tables \<Rightarrow> string list \<Rightarrow> redis \<Rightarrow> bool" where
  "rows_ok db ts r = (\<forall>private t p. r (row_cache_key (kind_of private) t) = Some (CachedProject p) \<longrightarrow> backed_key db ts private t p)"

definition key_coherent :: "key_state \<Rightarrow> bool" where
  "key_coherent s = (last (ks_replica s # ks_log s) = ks_tables s \<and> key_ids_ok (ks_tables s) \<and> counters_ok (ks_redis s)
     \<and> rows_ok (ks_tables s) (ks_pending s) (ks_redis s) \<and> list_all (lookup_ok (ks_tables s) (ks_pending s) (ks_redis s)) (ks_readers s))"

lemma count_le_refl: "counters_ok r \<Longrightarrow> count_le (r (gen_cache_key t)) (r (gen_cache_key t))"
  unfolding counters_ok_def count_le_def by (metis cache_entry.simps(11) le_refl option.simps(4) option.simps(5))

lemma lookup_mono:
  assumes "\<And>private t p. backed_key db ts private t p \<Longrightarrow> backed_key db' ts' private t p"
  shows "lookup_ok db ts r rd \<Longrightarrow> lookup_ok db' ts' r rd" "rows_ok db ts r \<Longrightarrow> rows_ok db' ts' r"
  using assms by (auto simp: lookup_ok_def rows_ok_def split: key_reader.splits)

lemma list_all_drop: "list_all P xs \<Longrightarrow> list_all P (drop_nth i xs)"
  by (auto simp: drop_nth_def list_all_iff dest: in_set_takeD in_set_dropD)

lemma list_all_set_nth: "list_all P xs \<Longrightarrow> P x \<Longrightarrow> list_all P (xs[i := x])"
  using set_update_subset_insert [of xs i x] by (auto simp: list_all_iff)

lemma in_drop_nth: "i < length xs \<Longrightarrow> x \<in> set xs \<Longrightarrow> x \<noteq> xs ! i \<Longrightarrow> x \<in> set (drop_nth i xs)"
proof -
  assume i: "i < length xs" "x \<in> set xs" "x \<noteq> xs ! i"
  have "set xs = set (take i xs @ xs ! i # drop (Suc i) xs)" using id_take_nth_drop [OF i(1)] by simp
  then show ?thesis using i(2,3) by (simp add: drop_nth_def)
qed

text \<open>Only entries of the token change, and its counter moves on.\<close>

lemma invalidated:
  assumes "counters_ok r"
  shows "counters_ok (invalidate_key t r)" "u \<noteq> t \<Longrightarrow> invalidate_key t r (gen_cache_key u) = r (gen_cache_key u)"
    "invalidate_key t r (row_cache_key (kind_of pv) u) = (if u = t then None else r (row_cache_key (kind_of pv) u))"
    "count_le g (r (gen_cache_key t)) \<Longrightarrow> count_le g (invalidate_key t r (gen_cache_key t)) \<and> g \<noteq> invalidate_key t r (gen_cache_key t)"
proof -
  obtain n where n: "invalidate_key t r = r(gen_cache_key t := Some (Counter n), row_cache_key (kind_of True) t := None, row_cache_key (kind_of False) t := None)"
    "r (gen_cache_key t) = None \<or> r (gen_cache_key t) = Some (Counter (n - 1)) \<and> 0 < n"
  proof -
    have "r (gen_cache_key t) = None \<or> (\<exists>n. r (gen_cache_key t) = Some (Counter n))" using assms by (simp add: counters_ok_def)
    then show thesis
    proof (elim disjE exE)
      assume "r (gen_cache_key t) = None"
      then show thesis by (intro that [of 1]) (simp_all add: invalidate_key_def row_keys)
    next
      fix m assume "r (gen_cache_key t) = Some (Counter m)"
      then show thesis by (intro that [of "Suc m"]) (simp_all add: invalidate_key_def row_keys)
    qed
  qed
  show "counters_ok (invalidate_key t r)" using assms by (auto simp: counters_ok_def n(1))
  show "u \<noteq> t \<Longrightarrow> invalidate_key t r (gen_cache_key u) = r (gen_cache_key u)" by (simp add: n(1))
  show "invalidate_key t r (row_cache_key (kind_of pv) u) = (if u = t then None else r (row_cache_key (kind_of pv) u))"
    by (cases pv) (simp_all add: n(1))
  have bumped: "invalidate_key t r (gen_cache_key t) = Some (Counter n)" by (simp add: n(1))
  assume le: "count_le g (r (gen_cache_key t))"
  show "count_le g (invalidate_key t r (gen_cache_key t)) \<and> g \<noteq> invalidate_key t r (gen_cache_key t)"
  proof (cases g)
    case None
    then show ?thesis by (simp add: bumped count_le_def)
  next
    case (Some c)
    then show ?thesis using le n(2) unfolding bumped by (cases c) (auto simp: count_le_def)
  qed
qed

lemma invalidate_coherent:
  assumes "key_coherent s" "i < length (ks_pending s)"
  shows "key_coherent (s\<lparr>ks_pending := drop_nth i (ks_pending s), ks_redis := invalidate_key (ks_pending s ! i) (ks_redis s)\<rparr>)"
proof -
  let ?t = "ks_pending s ! i" and ?db = "ks_tables s" and ?ts = "drop_nth i (ks_pending s)"
  let ?r = "invalidate_key ?t (ks_redis s)"
  have counters: "counters_ok (ks_redis s)" using assms(1) by (simp add: key_coherent_def)
  have other: "backed_key ?db ?ts pv u p" if "backed_key ?db (ks_pending s) pv u p" "u \<noteq> ?t" for pv u p
    using that in_drop_nth [OF assms(2)] by (auto simp: backed_key_def)
  have "rows_ok ?db ?ts ?r"
    using assms(1) other by (auto simp: key_coherent_def rows_ok_def invalidated(3) [OF counters] split: if_splits)
  moreover have "lookup_ok ?db ?ts ?r rd" if "lookup_ok ?db (ks_pending s) (ks_redis s) rd" for rd
  proof (cases "reader_token rd = ?t")
    case True
    then show ?thesis using that invalidated(4) [OF counters] by (auto simp: lookup_ok_def reader_token_def split: key_reader.splits)
  next
    case False
    then show ?thesis using that invalidated(2) [OF counters] other by (auto simp: lookup_ok_def reader_token_def split: key_reader.splits)
  qed
  then have "list_all (lookup_ok ?db ?ts ?r) (ks_readers s)" using assms(1) by (auto simp: key_coherent_def list_all_iff)
  ultimately show ?thesis using assms(1) invalidated(1) [OF counters] by (simp add: key_coherent_def)
qed

lemma cached_project_only:
  assumes "cached_project flt (row_cache_key k t) r = (r', hit)" shows "r' = r \<or> r' = r(row_cache_key k t := None)"
    "hit = Some p \<Longrightarrow> r (row_cache_key k t) = Some (CachedProject p) \<and> r' = r"
  using assms by (auto simp: cached_project_def split: if_splits option.splits cache_entry.splits)

lemma row_dropped:
  assumes "counters_ok r" "rows_ok db ts r" "list_all (lookup_ok db ts r) rds"
  shows "counters_ok (r(row_cache_key (kind_of pv) t := None))" "rows_ok db ts (r(row_cache_key (kind_of pv) t := None))"
    "list_all (lookup_ok db ts (r(row_cache_key (kind_of pv) t := None))) rds"
  using assms by (auto simp: counters_ok_def rows_ok_def lookup_ok_def list_all_iff split: key_reader.splits)

lemma begin_coherent:
  assumes "key_coherent s" shows "key_coherent (begin_lookup flt pv t s)"
proof -
  obtain r hit where out: "cached_project flt (row_cache_key (kind_of pv) t) (ks_redis s) = (r, hit)" by force
  have same: "counters_ok r" "rows_ok (ks_tables s) (ks_pending s) r" "list_all (lookup_ok (ks_tables s) (ks_pending s) r) (ks_readers s)"
    using cached_project_only(1) [OF out] assms row_dropped by (auto simp: key_coherent_def)
  have "lookup_ok (ks_tables s) (ks_pending s) r (KeyObserved pv t (r (gen_cache_key t)))"
    using count_le_refl [OF same(1)] by (simp add: lookup_ok_def)
  then show ?thesis using assms same out
    by (cases hit) (auto simp: key_coherent_def begin_lookup_def observe_key_gen_def split: option.split)
qed

lemma read_coherent:
  assumes "key_coherent s" "ks_log s = []" shows "key_coherent (read_lookup i flt s)"
proof (cases "i < length (ks_readers s)")
  case True
  have replica: "ks_replica s = ks_tables s" using assms by (simp add: key_coherent_def)
  have here: "lookup_ok (ks_tables s) (ks_pending s) (ks_redis s) (ks_readers s ! i)"
    using assms(1) True by (simp add: key_coherent_def list_all_length)
  show ?thesis
  proof (cases "ks_readers s ! i")
    case (KeyObserved pv t g)
    show ?thesis
    proof (cases "if flt PjRead then None else lookup_key (ks_replica s) (kind_of pv) t")
      case None
      then show ?thesis using assms(1) True KeyObserved by (simp add: read_lookup_def key_coherent_def list_all_drop)
    next
      case (Some p)
      then have "opens (ks_tables s) (kind_of pv) t (ap_id p)" using lookup_opens replica by (simp split: if_splits)
      then have "lookup_ok (ks_tables s) (ks_pending s) (ks_redis s) (KeyHas pv t g p)"
        using here KeyObserved by (simp add: lookup_ok_def backed_key_def)
      then show ?thesis using assms(1) True KeyObserved Some by (simp add: read_lookup_def key_coherent_def list_all_set_nth)
    qed
  qed (use assms(1) True in \<open>simp add: read_lookup_def\<close>)
qed (use assms(1) in \<open>simp add: read_lookup_def\<close>)

lemma end_coherent:
  assumes "key_coherent s" shows "key_coherent (end_lookup i flt s)"
proof (cases "i < length (ks_readers s)")
  case True
  have here: "lookup_ok (ks_tables s) (ks_pending s) (ks_redis s) (ks_readers s ! i)"
    using assms(1) True by (simp add: key_coherent_def list_all_length)
  show ?thesis
  proof (cases "ks_readers s ! i")
    case (KeyHas pv t g p)
    let ?r = "cache_project flt (row_cache_key (kind_of pv) t) t g p (ks_redis s)"
    have gens: "?r (gen_cache_key u) = ks_redis s (gen_cache_key u)" for u by (simp add: cache_project_def populate_project_def)
    have "lookup_ok (ks_tables s) (ks_pending s) ?r = lookup_ok (ks_tables s) (ks_pending s) (ks_redis s)"
      by (auto simp: lookup_ok_def gens fun_eq_iff split: key_reader.split)
    moreover have "counters_ok ?r" using assms(1) by (simp add: counters_ok_def gens key_coherent_def)
    moreover have "rows_ok (ks_tables s) (ks_pending s) ?r"
      using assms(1) here KeyHas by (auto simp: key_coherent_def rows_ok_def lookup_ok_def cache_project_def populate_project_def)
    ultimately show ?thesis using assms(1) True KeyHas by (simp add: end_lookup_def key_coherent_def list_all_drop)
  qed (use assms(1) True in \<open>simp add: end_lookup_def\<close>)
qed (use assms in \<open>simp add: end_lookup_def\<close>)

lemma write_coherent:
  assumes "key_coherent s" "key_write_run hash zones now w (ks_tables s) = (db, ts)"
  shows "key_coherent (s\<lparr>ks_tables := db, ks_log := ks_log s @ [db], ks_pending := ks_pending s @ ts\<rparr>)"
proof -
  have ids: "key_ids_ok (ks_tables s)" using assms(1) by (simp add: key_coherent_def)
  have "backed_key (ks_tables s) (ks_pending s) pv t p \<Longrightarrow> backed_key db (ks_pending s @ ts) pv t p" for pv t p
    using write_invalidates(2) [OF ids assms(2)] by (auto simp: backed_key_def)
  note keep = lookup_mono [OF this]
  show ?thesis using assms(1) keep write_invalidates(1) [OF ids assms(2)]
    by (auto simp: key_coherent_def elim: list.pred_mono_strong)
qed

lemma step_coherent: assumes "key_coherent s" "key_event_ok s e" shows "key_coherent (key_step hash zones s e)"
proof (cases e)
  case (KeWrite now w)
  then show ?thesis using write_coherent [OF assms(1) surjective_pairing] by (simp add: case_prod_beta)
next
  case (KeInvalidate i landed)
  then show ?thesis using assms invalidate_coherent [OF assms(1)] by (simp add: key_event_ok_def)
next
  case KeReplay
  then show ?thesis using assms by (cases "ks_log s") (simp_all add: key_coherent_def)
next
  case (KeRowExpires pv t)
  then show ?thesis using assms row_dropped [of "ks_redis s" "ks_tables s" "ks_pending s" "ks_readers s" pv t]
    by (simp add: key_coherent_def)
next
  case (KeGenExpires t)
  have "lookup_ok (ks_tables s) (ks_pending s) ((ks_redis s)(gen_cache_key t := None)) rd = lookup_ok (ks_tables s) (ks_pending s) (ks_redis s) rd"
    if "reader_token rd \<noteq> t" for rd
    using that by (auto simp: lookup_ok_def reader_token_def split: key_reader.splits)
  then show ?thesis using KeGenExpires assms
    by (auto simp: key_event_ok_def key_coherent_def counters_ok_def rows_ok_def list_all_iff)
qed (use assms in \<open>simp_all add: key_event_ok_def begin_coherent read_coherent end_coherent\<close>)

interpretation key_cache: machine_guarded "key_step hash zones" key_event_ok key_coherent for hash zones
  by unfold_locales (rule step_coherent)

lemma fresh_keys_coherent: "key_ids_ok db \<Longrightarrow> key_coherent (fresh_keys db)"
  by (simp add: key_coherent_def fresh_keys_def counters_ok_def rows_ok_def)

text \<open>What a lookup answers: the cached row or the table's.\<close>

lemma lookup_answers:
  assumes "get_project_by_key flt kind token db r = (r', Inr p)"
  shows "r (row_cache_key kind token) = Some (CachedProject p) \<or> lookup_key db kind token = Some p"
proof -
  obtain r1 hit where out: "cached_project flt (row_cache_key kind token) r = (r1, hit)" by force
  show ?thesis
  proof (cases hit)
    case None
    then show ?thesis using assms out by (auto simp: get_project_by_key_def Let_def split: if_splits option.splits)
  next
    case (Some q)
    then show ?thesis using assms out cached_project_only(2) [OF out, of q] by (simp add: get_project_by_key_def)
  qed
qed

lemma coherent_answer:
  assumes "key_coherent s" "ks_pending s = []" "ks_log s = []"
    and "get_project_by_key flt (kind_of pv) token (ks_replica s) (ks_redis s) = (r', Inr p)"
  shows "opens (ks_tables s) (kind_of pv) token (ap_id p)"
  using lookup_answers [OF assms(4)]
proof
  assume "ks_redis s (row_cache_key (kind_of pv) token) = Some (CachedProject p)"
  then show ?thesis using assms(1,2) by (auto simp: key_coherent_def rows_ok_def backed_key_def)
next
  assume "lookup_key (ks_replica s) (kind_of pv) token = Some p"
  then show ?thesis using lookup_opens assms(1,3) by (simp add: key_coherent_def)
qed

end
