(* ===== verification/Request_Auth.thy ===== *)
theory Request_Auth
  imports Key_Cache Sessions Permission
begin

text \<open>
  Who a request is, \<open>internal/app/server/rpc/auth.go\<close>: the API key or the session token it
  presents becomes a principal with a customer, a project or both. Opening a signed token is the
  library's: \<open>jwt\<close> gives the claims of a token whose HS256 signature verifies under the
  deployment's key, and nothing for any other; the checks the code asks the parser for are
  written out. The headers are strings, empty when absent.
\<close>

section \<open>Requests and principals\<close>

record http_request =
  hr_api_key :: string
  hr_query_key :: string
  hr_authorization :: string
  hr_project :: string

datatype auth_type = AuthTypeJWT | AuthTypePublicKey | AuthTypePrivateKey

record request_principal =
  rp_auth :: auth_type
  rp_customer :: "customer option"
  rp_project :: "api_project option"
  rp_jti :: string
  rp_masked :: string

datatype auth_refusal = AuthUnauthenticated | AuthUnavailable

definition public_key_prefix :: string where "public_key_prefix = ''pub_''"
definition private_key_prefix :: string where "private_key_prefix = ''prv_''"
definition bearer_prefix :: string where "bearer_prefix = ''Bearer ''"

definition mask_key :: "string \<Rightarrow> string" where
  "mask_key key = (if length key > 4 then ''...'' @ drop (length key - 4) key else ''***'')"

text \<open>
  The credential an MCP client sends as a bearer token becomes the header's; \<open>bearer\<close> is
  \<open>authn.BearerToken\<close>. The private key the request now carries, or nothing.
\<close>

definition normalize_bearer :: "(string \<Rightarrow> string option) \<Rightarrow> http_request \<Rightarrow> http_request \<times> string" where
  "normalize_bearer bearer req =
     (if hr_api_key req \<noteq> [] then (req, if starts_with (hr_api_key req) private_key_prefix then hr_api_key req else [])
      else case bearer (hr_authorization req) of
        None \<Rightarrow> (req, [])
      | Some token \<Rightarrow> if starts_with token private_key_prefix then (req\<lparr>hr_api_key := token\<rparr>, token) else (req, []))"

section \<open>API keys\<close>

definition key_refusal :: "proj_error \<Rightarrow> auth_refusal" where
  "key_refusal e = (if e = NoRows then AuthUnauthenticated else AuthUnavailable)"

definition key_principal :: "auth_type \<Rightarrow> string \<Rightarrow> redis \<times> (proj_error, api_project) result \<Rightarrow> redis \<times> (auth_refusal, request_principal) result" where
  "key_principal t key out =
     (case out of
        (r, Inl e) \<Rightarrow> (r, Inl (key_refusal e))
      | (r, Inr p) \<Rightarrow> (r, Inr \<lparr>rp_auth = t, rp_customer = None, rp_project = Some p, rp_jti = [], rp_masked = mask_key key\<rparr>))"

definition resolve_private_key :: "(proj_call \<Rightarrow> bool) \<Rightarrow> (string \<Rightarrow> string) \<Rightarrow> string \<Rightarrow> key_tables \<Rightarrow> redis \<Rightarrow> redis \<times> (auth_refusal, request_principal) result" where
  "resolve_private_key flt hash key db r = key_principal AuthTypePrivateKey key (get_project_by_private_key flt hash key db r)"

definition with_sdk_auth :: "(proj_call \<Rightarrow> bool) \<Rightarrow> (string \<Rightarrow> string) \<Rightarrow> http_request \<Rightarrow> key_tables \<Rightarrow> redis
    \<Rightarrow> redis \<times> (auth_refusal, request_principal) result" where
  "with_sdk_auth flt hash req db r =
     (let key = (if hr_api_key req = [] then hr_query_key req else hr_api_key req) in
      if hr_api_key req = [] \<and> key \<noteq> [] \<and> \<not> starts_with key public_key_prefix then (r, Inl AuthUnauthenticated)
      else if key = [] then (r, Inl AuthUnauthenticated)
      else if \<not> valid_utf8 key \<or> CHR 0x00 \<in> set key then (r, Inl AuthUnauthenticated)
      else if starts_with key public_key_prefix then key_principal AuthTypePublicKey key (get_project_by_public_key flt key db r)
      else if starts_with key private_key_prefix then key_principal AuthTypePrivateKey key (get_project_by_private_key flt hash key db r)
      else (r, Inl AuthUnauthenticated))"

definition with_private_key_auth :: "(proj_call \<Rightarrow> bool) \<Rightarrow> (string \<Rightarrow> string) \<Rightarrow> http_request \<Rightarrow> key_tables \<Rightarrow> redis
    \<Rightarrow> redis \<times> (auth_refusal, request_principal) result" where
  "with_private_key_auth flt hash req db r =
     (if hr_api_key req = [] \<or> \<not> starts_with (hr_api_key req) private_key_prefix then (r, Inl AuthUnauthenticated)
      else resolve_private_key flt hash (hr_api_key req) db r)"

section \<open>Sessions\<close>

text \<open>\<open>jc_sub\<close> and \<open>jc_jti\<close> are \<open>None\<close> when the claim is no string, and empty when absent.\<close>

record jwt_claims =
  jc_iss :: string
  jc_aud :: "string list"
  jc_exp :: "time option"
  jc_nbf :: "time option"
  jc_sub :: "string option"
  jc_jti :: "string option"

definition jwt_accepted :: "time \<Rightarrow> jwt_claims \<Rightarrow> bool" where
  "jwt_accepted now c =
     (jc_iss c = session_issuer \<and> session_audience \<in> set (jc_aud c)
      \<and> (case jc_exp c of None \<Rightarrow> False | Some e \<Rightarrow> now < e) \<and> (case jc_nbf c of None \<Rightarrow> True | Some b \<Rightarrow> b \<le> now))"

definition customer_by_id :: "customer list \<Rightarrow> string \<Rightarrow> customer option" where
  "customer_by_id us c = List.find (\<lambda>u. cu_id u = c) us"

definition project_for_member :: "key_tables \<Rightarrow> string \<Rightarrow> string \<Rightarrow> api_project option" where
  "project_for_member db p c =
     (case live_project db p of
        None \<Rightarrow> None
      | Some x \<Rightarrow> if find_member (kt_members db) (ap_org x) c = None then None else Some x)"

definition with_jwt_auth :: "(proj_call \<Rightarrow> bool) \<Rightarrow> (string \<Rightarrow> jwt_claims option) \<Rightarrow> time \<Rightarrow> http_request \<Rightarrow> customer list \<Rightarrow> key_tables
    \<Rightarrow> (auth_refusal, request_principal) result" where
  "with_jwt_auth flt jwt now req us db =
     (if \<not> starts_with (hr_authorization req) bearer_prefix then Inl AuthUnauthenticated
      else let token = drop (length bearer_prefix) (hr_authorization req) in
      if token = [] then Inl AuthUnauthenticated
      else case jwt token of
        None \<Rightarrow> Inl AuthUnauthenticated
      | Some c \<Rightarrow>
      if \<not> jwt_accepted now c then Inl AuthUnauthenticated
      else (case jc_sub c of
        None \<Rightarrow> Inl AuthUnauthenticated
      | Some sub \<Rightarrow>
      if flt PjCustomer then Inl AuthUnavailable
      else (case customer_by_id us sub of
        None \<Rightarrow> Inl AuthUnauthenticated
      | Some u \<Rightarrow>
      let p = \<lparr>rp_auth = AuthTypeJWT, rp_customer = Some u, rp_project = None,
               rp_jti = (case jc_jti c of None \<Rightarrow> [] | Some j \<Rightarrow> j), rp_masked = []\<rparr> in
      if hr_project req = [] then Inr p
      else if flt PjMember then Inl AuthUnavailable
      else (case project_for_member db (hr_project req) sub of
        None \<Rightarrow> Inl AuthUnauthenticated
      | Some x \<Rightarrow> Inr (p\<lparr>rp_project := Some x\<rparr>)))))"

definition with_dual_auth :: "(proj_call \<Rightarrow> bool) \<Rightarrow> (string \<Rightarrow> string) \<Rightarrow> (string \<Rightarrow> jwt_claims option) \<Rightarrow> time \<Rightarrow> http_request \<Rightarrow> customer list
    \<Rightarrow> key_tables \<Rightarrow> redis \<Rightarrow> redis \<times> (auth_refusal, request_principal) result" where
  "with_dual_auth flt hash jwt now req us db r =
     (if hr_api_key req \<noteq> [] then
        (if \<not> starts_with (hr_api_key req) private_key_prefix then (r, Inl AuthUnauthenticated)
         else resolve_private_key flt hash (hr_api_key req) db r)
      else (r, with_jwt_auth flt jwt now req us db))"

definition must_have_project :: "request_principal option \<Rightarrow> (refusal, request_principal) result" where
  "must_have_project ctx =
     (case ctx of None \<Rightarrow> Inl Unauthenticated | Some p \<Rightarrow> if rp_project p = None then Inl Unauthenticated else Inr p)"

text \<open>What the permission gate sees of a principal.\<close>

definition gate_principal :: "request_principal \<Rightarrow> principal" where
  "gate_principal p = \<lparr>pn_customer = map_option (\<lambda>u. (cu_id u, cu_email u)) (rp_customer p), pn_project = map_option ap_org (rp_project p)\<rparr>"

section \<open>What authentication shows\<close>

lemma key_principal_ok:
  assumes "key_principal t key out = (r, Inr p)"
  obtains x where "out = (r, Inr x)" "rp_project p = Some x" "rp_customer p = None" "rp_auth p = t"
  using assms by (auto simp: key_principal_def split: prod.splits sum.splits)

text \<open>A key's principal came from a lookup of the kind its prefix says.\<close>

definition key_token :: "(string \<Rightarrow> string) \<Rightarrow> auth_type \<Rightarrow> string \<Rightarrow> string" where
  "key_token hash t key = (if t = AuthTypePrivateKey then hash key else key)"

lemma sdk_auth_ok:
  assumes "with_sdk_auth flt hash req db r = (r', Inr p)"
  obtains x where "rp_project p = Some x" "rp_customer p = None" "rp_auth p \<noteq> AuthTypeJWT"
    "get_project_by_key flt (kind_of (rp_auth p = AuthTypePrivateKey))
       (key_token hash (rp_auth p) (if hr_api_key req = [] then hr_query_key req else hr_api_key req)) db r = (r', Inr x)"
    "rp_auth p = AuthTypePrivateKey \<longrightarrow> hr_api_key req \<noteq> []"
proof -
  let ?key = "if hr_api_key req = [] then hr_query_key req else hr_api_key req"
  consider "starts_with ?key public_key_prefix" "key_principal AuthTypePublicKey ?key (get_project_by_public_key flt ?key db r) = (r', Inr p)"
    | "hr_api_key req \<noteq> []" "key_principal AuthTypePrivateKey ?key (get_project_by_private_key flt hash ?key db r) = (r', Inr p)"
    using assms by (auto simp: with_sdk_auth_def Let_def split: if_splits)
  then show thesis
  proof cases
    case 1
    from 1(2) show thesis
      by (rule key_principal_ok) (rule that, auto simp: get_project_by_public_key_def kind_of_def key_token_def)
  next
    case 2
    from 2(2) show thesis
      by (rule key_principal_ok) (rule that, use 2(1) in \<open>auto simp: get_project_by_private_key_def kind_of_def key_token_def\<close>)
  qed
qed

lemma jwt_auth_ok:
  assumes "with_jwt_auth flt jwt now req us db = Inr p"
  obtains c u where "jwt (drop (length bearer_prefix) (hr_authorization req)) = Some c" "jwt_accepted now c"
    "jc_sub c = Some (cu_id u)" "u \<in> set us" "rp_customer p = Some u" "rp_auth p = AuthTypeJWT"
    "\<And>x. rp_project p = Some x \<Longrightarrow> project_for_member db (hr_project req) (cu_id u) = Some x"
proof -
  obtain c sub u where c: "jwt (drop (length bearer_prefix) (hr_authorization req)) = Some c" "jwt_accepted now c" "jc_sub c = Some sub"
    "customer_by_id us sub = Some u" "rp_customer p = Some u" "rp_auth p = AuthTypeJWT"
    "rp_project p = None \<or> rp_project p = project_for_member db (hr_project req) sub"
    using assms by (auto simp: with_jwt_auth_def Let_def split: if_splits option.splits)
  then have "u \<in> set us" "cu_id u = sub" by (auto simp: customer_by_id_def find_Some_iff)
  then show thesis using that [of c u] c by auto
qed

end
