(* ===== verification/Request_Claims.thy ===== *)
theory Request_Claims
  imports Request_Auth
begin

text \<open>
  The properties of API keys and of request authentication: a minted key opens its project, a
  revoked one nothing, a session token its customer until it expires.
\<close>

section \<open>Lemmas\<close>

definition hex_digits :: "string \<Rightarrow> bool" where
  "hex_digits s = list_all (\<lambda>c. c \<in> set ''0123456789abcdef'') s"

lemma hex_ascii: "hex_digits s \<Longrightarrow> ascii s \<and> CHR 0x00 \<notin> set s"
proof -
  have digits: "list_all (\<lambda>c. (of_char c :: nat) < 128 \<and> c \<noteq> CHR 0x00) ''0123456789abcdef''" by simp
  assume "hex_digits s"
  then have "\<forall>c\<in>set s. (of_char c :: nat) < 128 \<and> c \<noteq> CHR 0x00"
    using digits unfolding hex_digits_def list_all_iff by blast
  then show ?thesis by (auto simp: ascii_def list_all_iff)
qed

lemma prefix_keys [simp]: "starts_with (''pub_'' @ s) public_key_prefix" "starts_with (''prv_'' @ s) private_key_prefix"
  "\<not> starts_with (''prv_'' @ s) public_key_prefix"
  by (simp_all add: starts_with_def public_key_prefix_def private_key_prefix_def)

lemma mint_cases:
  assumes "mint_key hash kind (Some hex) = Inr (raw, token)"
  obtains "kind = kind_public" "raw = ''pub_'' @ hex" "token = raw" | "kind = kind_private" "raw = ''prv_'' @ hex" "token = hash raw"
  using assms by (auto simp: mint_key_def new_public_key_def new_private_key_def split: if_splits)

lemma created_key:
  assumes "create_api_key flt hash now dw p kind name db = Inr (db1, k, raw)"
  shows "mint_key hash kind (kd_hex dw) = Inr (raw, ak_token k)" "db1 = db\<lparr>kt_keys := kt_keys db @ [k]\<rparr>" "ak_project k = p" "ak_kind k = kind"
    "\<forall>x\<in>set (kt_keys db). ak_token x \<noteq> ak_token k"
proof -
  obtain raw' token where m: "mint_key hash kind (kd_hex dw) = Inr (raw', token)" using assms by (auto simp: create_api_key_def split: sum.splits)
  let ?k = "\<lparr>ak_id = kd_id dw, ak_project = p, ak_kind = kind, ak_masked = mask_key_display raw', ak_name = name, ak_token = token, ak_created = now\<rparr>"
  have made: "insert_key ?k db = Some db1" "k = ?k" "raw = raw'"
    using assms m by (auto simp: create_api_key_def Let_def split: if_splits option.splits)
  then show "mint_key hash kind (kd_hex dw) = Inr (raw, ak_token k)" "ak_project k = p" "ak_kind k = kind" using m by simp_all
  show "db1 = db\<lparr>kt_keys := kt_keys db @ [k]\<rparr>" using made by (simp add: insert_key_def split: if_splits)
  show "\<forall>x\<in>set (kt_keys db). ak_token x \<noteq> ak_token k" using made by (auto simp: insert_key_def list_ex_iff split: if_splits)
qed

lemma list_find_append: "List.find P (xs @ ys) = (case List.find P xs of None \<Rightarrow> List.find P ys | Some z \<Rightarrow> Some z)"
  by (induction xs) simp_all

lemma created_key_found:
  assumes "create_api_key flt hash now dw p kind name db = Inr (db1, k, raw)" "live_project db p = Some x"
  shows "lookup_key db1 kind (ak_token k) = Some x"
proof -
  note made = created_key [OF assms(1)]
  have live: "live_project db1 q = live_project db q" for q by (simp add: live_project_def made(2))
  let ?P = "\<lambda>k'. ak_token k' = ak_token k \<and> ak_kind k' = kind \<and> live_project db (ak_project k') \<noteq> None"
  have "List.find ?P (kt_keys db) = None" using made(5) by (auto simp: find_None_iff)
  then have "List.find ?P (kt_keys db1) = Some k" using assms(2) made(3,4) by (simp add: made(2) list_find_append)
  then show ?thesis unfolding lookup_key_def live using assms(2) made(3) by simp
qed

section \<open>Properties\<close>

text \<open>
  C25. A minted key authenticates: whatever was cached for other keys, the raw key handed out at
  creation, sent in the header, is accepted and names the project it was minted for, with the
  authority of its own kind.
\<close>

theorem minted_key_authenticates:
  assumes "create_api_key flt hash now dw p kind name db = Inr (db1, k, raw)" "live_project db p = Some x"
    and "kd_hex dw = Some hex" "hex_digits hex" "r (row_cache_key kind (ak_token k)) = None" "hr_api_key req = raw"
  shows "\<exists>r' q. with_sdk_auth (\<lambda>_. False) hash req db1 r = (r', Inr q) \<and> rp_project q = Some x \<and> rp_customer q = None
    \<and> rp_auth q = (if kind = kind_private then AuthTypePrivateKey else AuthTypePublicKey)"
proof -
  have found: "lookup_key db1 kind (ak_token k) = Some x" by (rule created_key_found [OF assms(1,2)])
  have "ascii (''pub_'' @ hex)" "ascii (''prv_'' @ hex)" using hex_ascii [OF assms(4)] by (simp_all add: ascii_def)
  note plain = this [THEN valid_utf8_ascii] conjunct2 [OF hex_ascii [OF assms(4)]]
  obtain r' where got: "get_project_by_key (\<lambda>_. False) kind (ak_token k) db1 r = (r', Inr x)"
    using found assms(5) by (simp add: get_project_by_key_def cached_project_def observe_key_gen_def)
  show ?thesis
    using created_key(1) [OF assms(1)] unfolding assms(3)
  proof (rule mint_cases)
    assume "kind = kind_public" "raw = ''pub_'' @ hex" "ak_token k = raw"
    then show ?thesis using got plain prefix_keys(1) [of hex] assms(6)
      by (simp add: with_sdk_auth_def Let_def key_principal_def get_project_by_public_key_def kind_public_def kind_private_def)
  next
    assume "kind = kind_private" "raw = ''prv_'' @ hex" "ak_token k = hash raw"
    then show ?thesis using got plain prefix_keys(2,3) [of hex] assms(6)
      by (simp add: with_sdk_auth_def Let_def key_principal_def get_project_by_private_key_def)
  qed
qed

text \<open>
  C24. A revoked key opens nothing, on three conditions on the run (\<open>key_event_ok\<close>, a hypothesis):
  every invalidation reaches Redis, no generation counter expires while a lookup of its token is
  under way, and no lookup reads a replica that is behind the primary. Then after any interleaving of
  lookups with the writes that create and revoke keys and hide projects, once the due
  invalidations ran, a key that authenticates, from the cache or not, is one the primary holds
  for a live project, of the kind the request was given. The code does not enforce the conditions:
  without them a revoked key can stay in the cache until its row expires.
\<close>

theorem revoked_key_is_refused:
  assumes "key_ids_ok db" "run_allowed key_event_ok (key_step hash zones) (fresh_keys db) evs"
    and "s = run_events (key_step hash zones) (fresh_keys db) evs" "ks_pending s = []" "ks_log s = []"
    and "with_sdk_auth flt hash req (ks_replica s) (ks_redis s) = (r', Inr p)"
  shows "\<exists>x. rp_project p = Some x \<and> opens (ks_tables s) (kind_of (rp_auth p = AuthTypePrivateKey))
    (key_token hash (rp_auth p) (if hr_api_key req = [] then hr_query_key req else hr_api_key req)) (ap_id x)"
proof -
  have "key_coherent s" unfolding assms(3) by (rule key_cache.guarded_run [OF fresh_keys_coherent [OF assms(1)] assms(2)])
  from coherent_answer [OF this assms(4,5)] show ?thesis by (meson sdk_auth_ok [OF assms(6)])
qed

text \<open>What the claims of an issued token read as: the times are whole seconds.\<close>

definition signed_claims :: "user_claims \<Rightarrow> jwt_claims" where
  "signed_claims c = \<lparr>jc_iss = uc_issuer c, jc_aud = [uc_audience c], jc_exp = Some (uc_expires c div second * second), jc_nbf = None,
     jc_sub = Some (uc_subject c), jc_jti = Some (uc_id c)\<rparr>"

text \<open>
  A session's access token is its customer's until it expires: a token the code issued, read
  back by the library as it was signed, authenticates as exactly its customer before the
  second it expires in, and as nobody from then on.
\<close>

theorem issued_token_authenticates:
  assumes "generate_jwt flt t0 jti c = Inr claims" "jwt (sign claims) = Some (signed_claims claims)" "sign claims \<noteq> []"
    and "customer_by_id us c = Some u" "hr_authorization req = bearer_prefix @ sign claims" "hr_project req = []"
  shows "with_jwt_auth (\<lambda>_. False) jwt now req us db =
    (if now < (t0 + access_token_ttl) div second * second
     then Inr \<lparr>rp_auth = AuthTypeJWT, rp_customer = Some u, rp_project = None, rp_jti = jti, rp_masked = []\<rparr> else Inl AuthUnauthenticated)"
proof -
  have "uc_issuer claims = session_issuer" "uc_audience claims = session_audience" "uc_expires claims = t0 + access_token_ttl"
    "uc_subject claims = c" "uc_id claims = jti"
    using assms(1) by (auto simp: generate_jwt_def split: if_splits)
  then show ?thesis using assms(2-6)
    by (simp add: with_jwt_auth_def Let_def starts_with_def jwt_accepted_def signed_claims_def)
qed

section \<open>Examples\<close>

definition demo_project :: api_project where
  "demo_project = \<lparr>ap_id = ''p1'', ap_org = ''o'', ap_name = ''default'', ap_zone = [], ap_theme = [], ap_fcm = None, ap_created = 1, ap_deleted = None\<rparr>"

definition demo_keys :: key_tables where
  "demo_keys = \<lparr>kt_projects = [demo_project], kt_keys = [], kt_members = []\<rparr>"

definition demo_draw :: key_draws where
  "demo_draw = \<lparr>kd_id = ''k1'', kd_hex = Some ''00ff''\<rparr>"

definition demo_key :: api_key where
  "demo_key = \<lparr>ak_id = ''k1'', ak_project = ''p1'', ak_kind = kind_private, ak_masked = ''***'', ak_name = [], ak_token = ''hprv_00ff'', ak_created = 5\<rparr>"

definition demo_request :: "string \<Rightarrow> http_request" where
  "demo_request key = \<lparr>hr_api_key = key, hr_query_key = [], hr_authorization = [], hr_project = []\<rparr>"

abbreviation demo_digest :: "string \<Rightarrow> string" where
  "demo_digest \<equiv> (\<lambda>s. CHR ''h'' # s)"

lemma demo_created: "create_api_key (\<lambda>_. False) demo_digest 5 demo_draw ''p1'' kind_private [] demo_keys
   = Inr (demo_keys\<lparr>kt_keys := [demo_key]\<rparr>, demo_key, ''prv_00ff'')"
  by (simp add: create_api_key_def mint_key_def new_private_key_def kind_private_def kind_public_def insert_key_def mask_key_display_def Let_def
      demo_draw_def demo_keys_def demo_key_def demo_project_def)

lemma minted_key_authenticates_witness:
  "\<exists>r' q. with_sdk_auth (\<lambda>_. False) demo_digest (demo_request ''prv_00ff'') (demo_keys\<lparr>kt_keys := [demo_key]\<rparr>) (\<lambda>_. None) = (r', Inr q)
     \<and> rp_project q = Some demo_project \<and> rp_customer q = None \<and> rp_auth q = (if kind_private = kind_private then AuthTypePrivateKey else AuthTypePublicKey)"
  by (rule minted_key_authenticates [OF demo_created, where hex = "''00ff''"])
    (simp_all add: live_project_def demo_keys_def demo_project_def demo_draw_def hex_digits_def demo_request_def)

text \<open>A lookup that fills the cache, the revocation, and its invalidation; the key is another's.\<close>

definition demo_other_key :: api_key where
  "demo_other_key = \<lparr>ak_id = ''k2'', ak_project = ''p1'', ak_kind = kind_public, ak_masked = ''***'', ak_name = [], ak_token = ''pub_11'', ak_created = 6\<rparr>"

definition demo_two_keys :: key_tables where
  "demo_two_keys = demo_keys\<lparr>kt_keys := [demo_key, demo_other_key]\<rparr>"

abbreviation demo_run :: "key_event list" where
  "demo_run \<equiv> [KeBegin (\<lambda>_. False) False ''pub_11'', KeRead 0 (\<lambda>_. False), KeEnd 0 (\<lambda>_. False),
     KeWrite 9 (KwDeleteKey (\<lambda>_. False) ''p1'' ''k1''), KeReplay, KeInvalidate 0 True]"

lemma demo_revoked:
  "run_allowed key_event_ok (key_step demo_digest (\<lambda>_. True)) (fresh_keys demo_two_keys) demo_run
   \<and> run_events (key_step demo_digest (\<lambda>_. True)) (fresh_keys demo_two_keys) demo_run =
     \<lparr>ks_tables = demo_keys\<lparr>kt_keys := [demo_other_key]\<rparr>, ks_replica = demo_keys\<lparr>kt_keys := [demo_other_key]\<rparr>, ks_log = [],
      ks_redis = invalidate_key ''hprv_00ff'' ((\<lambda>_. None)(row_cache_key (kind_of False) ''pub_11'' := Some (CachedProject demo_project))),
      ks_readers = [], ks_pending = []\<rparr>"
proof -
  have found: "lookup_key demo_two_keys (kind_of False) ''pub_11'' = Some demo_project"
    by (simp add: lookup_key_def demo_two_keys_def live_project_def demo_keys_def demo_project_def demo_key_def demo_other_key_def kind_of_def kind_private_def
        kind_public_def)
  have deleted: "delete_api_key (\<lambda>_. False) ''p1'' ''k1'' demo_two_keys = (demo_keys\<lparr>kt_keys := [demo_other_key]\<rparr>, Inr ''hprv_00ff'')"
    by (simp add: delete_api_key_def demo_two_keys_def demo_keys_def demo_key_def demo_other_key_def)
  show ?thesis
    by (simp add: key_event_ok_def reader_token_def fresh_keys_def begin_lookup_def cached_project_def observe_key_gen_def read_lookup_def
        end_lookup_def cache_project_def populate_project_def drop_nth_def found deleted)
qed

lemma revoked_key_is_refused_witness:
  "\<exists>x :: api_project. opens (demo_keys\<lparr>kt_keys := [demo_other_key]\<rparr>) kind_public ''pub_11'' (ap_id x)"
proof -
  let ?s = "run_events (key_step demo_digest (\<lambda>_. True)) (fresh_keys demo_two_keys) demo_run"
  have plain: "valid_utf8 ''pub_11''" by (rule valid_utf8_ascii) (simp add: ascii_def)
  have hit: "ks_redis ?s (row_cache_key (kind_of False) ''pub_11'') = Some (CachedProject demo_project)"
    by (simp add: demo_revoked invalidate_key_def row_keys del: run_events.simps)
  let ?p = "\<lparr>rp_auth = AuthTypePublicKey, rp_customer = None, rp_project = Some demo_project, rp_jti = [], rp_masked = mask_key ''pub_11''\<rparr>"
  have answer: "with_sdk_auth (\<lambda>_. False) demo_digest (demo_request ''pub_11'') (ks_replica ?s) (ks_redis ?s) = (ks_redis ?s, Inr ?p)"
    using hit plain prefix_keys(1) [of "''11''"]
    by (simp add: with_sdk_auth_def Let_def demo_request_def key_principal_def get_project_by_public_key_def get_project_by_key_def cached_project_def
        kind_of_def del: run_events.simps)
  have "key_ids_ok demo_two_keys" by (simp add: key_ids_ok_def demo_two_keys_def demo_key_def demo_other_key_def demo_keys_def)
  from revoked_key_is_refused [OF this conjunct1 [OF demo_revoked] refl _ _ answer] show ?thesis
    by (auto simp: demo_revoked kind_of_def key_token_def demo_request_def simp del: run_events.simps)
qed

definition demo_jwt :: "string \<Rightarrow> jwt_claims option" where
  "demo_jwt t = (if t = ''t'' then Some (signed_claims \<lparr>uc_audience = session_audience, uc_expires = 7 + access_token_ttl, uc_id = ''j'', uc_issued = 7,
     uc_issuer = session_issuer, uc_subject = ''c''\<rparr>) else None)"

abbreviation demo_account :: customer where
  "demo_account \<equiv> \<lparr>cu_id = ''c'', cu_email = ''jo@acme.co'', cu_hash = [], cu_verified = None\<rparr>"

lemma issued_token_authenticates_witness:
  "with_jwt_auth (\<lambda>_. False) demo_jwt (8 * hour) \<lparr>hr_api_key = [], hr_query_key = [], hr_authorization = ''Bearer t'', hr_project = []\<rparr> [demo_account] demo_keys
     = Inr \<lparr>rp_auth = AuthTypeJWT, rp_customer = Some demo_account, rp_project = None, rp_jti = ''j'', rp_masked = []\<rparr>"
proof -
  have jwt: "generate_jwt (\<lambda>_. False) 7 ''j'' ''c'' = Inr \<lparr>uc_audience = session_audience, uc_expires = 7 + access_token_ttl, uc_id = ''j'',
     uc_issued = 7, uc_issuer = session_issuer, uc_subject = ''c''\<rparr>" by (simp add: generate_jwt_def)
  show ?thesis
    using issued_token_authenticates [OF jwt, of demo_jwt "\<lambda>_. ''t''" "[demo_account]" demo_account
        "\<lparr>hr_api_key = [], hr_query_key = [], hr_authorization = ''Bearer t'', hr_project = []\<rparr>" "8 * hour" demo_keys]
    by (simp add: demo_jwt_def customer_by_id_def bearer_prefix_def access_token_ttl_def hour_def minute_def second_def)
qed

end
