(* ===== verification/Attribution.thy ===== *)
theory Attribution
  imports Go_String Go_Decimal
begin

text \<open>
  Web attribution of an event, \<open>internal/attribution\<close>: the channel table (\<open>channel.go\<close>) and the
  properties derived from what a client sent (\<open>attribution.go\<close>). \<open>net/url\<close>'s parser is an
  argument, a URL the record of what the code reads off the parsed value; so is the table of
  Unicode case pairs beyond ASCII, \<open>uni\<close>.
\<close>

section \<open>Hosts and sources\<close>

definition search_domains :: "string list" where
  "search_domains = [''bing.com'', ''duckduckgo.com'', ''yahoo.com'', ''yahoo.co.jp'', ''baidu.com'',
     ''yandex.com'', ''yandex.ru'', ''ecosia.org'', ''search.brave.com'',
     ''startpage.com'', ''perplexity.ai'', ''qwant.com'', ''kagi.com'']"

definition search_sources :: "string list" where
  "search_sources = [''google'', ''bing'', ''duckduckgo'', ''ddg'', ''yahoo'', ''baidu'', ''yandex'',
     ''ecosia'', ''brave'', ''startpage'', ''perplexity'', ''qwant'', ''kagi'']"

definition social_domains :: "string list" where
  "social_domains = [''facebook.com'', ''fb.com'', ''fb.me'', ''messenger.com'', ''instagram.com'',
     ''twitter.com'', ''x.com'', ''t.co'', ''linkedin.com'', ''lnkd.in'',
     ''tiktok.com'', ''pinterest.com'', ''pin.it'', ''reddit.com'', ''redd.it'',
     ''threads.net'', ''threads.com'', ''bsky.app'', ''news.ycombinator.com'', ''mastodon.social'',
     ''whatsapp.com'', ''telegram.org'', ''t.me'']"

definition social_sources :: "string list" where
  "social_sources = [''facebook'', ''fb'', ''instagram'', ''ig'', ''twitter'', ''x'', ''linkedin'',
     ''tiktok'', ''pinterest'', ''reddit'', ''threads'', ''bluesky'', ''bsky'',
     ''hackernews'', ''hn'', ''whatsapp'', ''telegram'', ''mastodon'']"

definition video_domains :: "string list" where
  "video_domains = [''youtube.com'', ''youtu.be'', ''vimeo.com'', ''twitch.tv'', ''dailymotion.com'']"

definition video_sources :: "string list" where
  "video_sources = [''youtube'', ''yt'', ''vimeo'', ''twitch'', ''dailymotion'']"

definition display_mediums :: "string list" where
  "display_mediums = [''display'', ''banner'', ''expandable'', ''interstitial'', ''cpm'']"

definition social_mediums :: "string list" where
  "social_mediums = [''social'', ''social-network'', ''social-media'', ''sm'']"

definition email_tokens :: "string list" where
  "email_tokens = [''email'', ''e-mail'', ''e_mail'', ''newsletter'']"

definition google_search_subdomains :: "string list" where
  "google_search_subdomains = ['''', ''www'', ''m'', ''images'', ''news'', ''maps'', ''scholar'', ''books'', ''video'', ''cse'',
     ''gemini'', ''lens'']"

definition webmail_domains :: "string list" where
  "webmail_domains = [''mail.google.com'', ''mail.yahoo.com'', ''mail.yahoo.co.jp'', ''mail.yandex.ru'',
     ''mail.yandex.com'', ''mail.aol.com'', ''outlook.live.com'', ''outlook.office.com'',
     ''outlook.office365.com'', ''mail.proton.me'', ''mail.zoho.com'']"

section \<open>Matching\<close>

definition has_suffix :: "string \<Rightarrow> string \<Rightarrow> bool" where
  "has_suffix s suf = (length suf \<le> length s \<and> drop (length s - length suf) s = suf)"

definition has_infix :: "string \<Rightarrow> string \<Rightarrow> bool" where
  "has_infix sub s = list_ex (\<lambda>k. starts_with (drop k s) sub) [0 ..< Suc (length s)]"

definition matches_host :: "string \<Rightarrow> string list \<Rightarrow> bool" where
  "matches_host host domains =
     (host \<noteq> [] \<and> list_ex (\<lambda>d. has_suffix host d \<and> (length host = length d \<or> host ! (length host - length d - 1) = CHR ''.'')) domains)"

definition matches_source :: "string \<Rightarrow> string list \<Rightarrow> string list \<Rightarrow> bool" where
  "matches_source src names domains = (src \<in> set names \<or> matches_host src domains)"

text \<open>\<open>strings.Cut\<close> at the first dot.\<close>

definition cut_dot :: "string \<Rightarrow> (string \<times> string) option" where
  "cut_dot s = (if CHR ''.'' \<in> set s then Some (takeWhile (\<lambda>c. c \<noteq> CHR ''.'') s, tl (dropWhile (\<lambda>c. c \<noteq> CHR ''.'') s)) else None)"

definition tld_label :: "string \<Rightarrow> bool" where
  "tld_label l = (2 \<le> length l \<and> length l \<le> 3 \<and> list_all (\<lambda>c. (97::nat) \<le> of_char c \<and> of_char c \<le> (122::nat)) l)"

definition tld_shaped :: "string \<Rightarrow> bool" where
  "tld_shaped tail =
     (case cut_dot tail of
        None \<Rightarrow> tld_label tail
      | Some (first, rest) \<Rightarrow> tld_label first \<and> CHR ''.'' \<notin> set rest \<and> tld_label rest)"

text \<open>The walk over label boundaries: \<open>sub\<close> is \<open>host[:i]\<close>, \<open>rest\<close> is \<open>host[i:]\<close>.\<close>

definition google_tail :: "string \<Rightarrow> string option" where
  "google_tail rest = (if starts_with rest ''google.'' then Some (drop 7 rest) else None)"

lemma cut_dot_length: "cut_dot s = Some (a, b) \<Longrightarrow> length b < length s"
proof -
  assume "cut_dot s = Some (a, b)"
  then have "CHR ''.'' \<in> set s" "b = tl (dropWhile (\<lambda>c. c \<noteq> CHR ''.'') s)" by (auto simp: cut_dot_def split: if_splits)
  then show ?thesis using length_dropWhile_le [of "\<lambda>c. c \<noteq> CHR ''.''" s] by (cases s) (auto simp: less_Suc_eq_le)
qed

function google_walk :: "string \<Rightarrow> string \<Rightarrow> bool" where
  "google_walk sub rest =
     (case google_tail rest of
        Some tail \<Rightarrow>
          if tld_shaped tail then (if has_suffix sub ''.'' then butlast sub else sub) \<in> set google_search_subdomains
          else (case cut_dot rest of None \<Rightarrow> False | Some (label, after) \<Rightarrow> google_walk (sub @ label @ ''.'') after)
      | None \<Rightarrow> (case cut_dot rest of None \<Rightarrow> False | Some (label, after) \<Rightarrow> google_walk (sub @ label @ ''.'') after))"
  by pat_completeness auto
termination
  by (relation "measure (\<lambda>(sub, rest). length rest)") (auto dest: cut_dot_length)

declare google_walk.simps [simp del]

definition is_google_search_host :: "string \<Rightarrow> bool" where
  "is_google_search_host host = (host = ''google'' \<or> google_walk [] host)"

definition is_paid_medium :: "string \<Rightarrow> bool" where
  "is_paid_medium med = (med \<noteq> [] \<and> (has_infix ''cp'' med \<or> med = ''ppc'' \<or> med = ''retargeting'' \<or> starts_with med ''paid''))"

section \<open>The channel table\<close>

datatype channel = ChannelPaidSearch | ChannelPaidSocial | ChannelPaidVideo | ChannelDisplay | ChannelPaidOther
  | ChannelOrganicSearch | ChannelOrganicSocial | ChannelOrganicVideo | ChannelEmail | ChannelAffiliate
  | ChannelReferral | ChannelUnassigned | ChannelDirect

fun channel_text :: "channel \<Rightarrow> string" where
  "channel_text ChannelPaidSearch = ''Paid Search''"
| "channel_text ChannelPaidSocial = ''Paid Social''"
| "channel_text ChannelPaidVideo = ''Paid Video''"
| "channel_text ChannelDisplay = ''Display''"
| "channel_text ChannelPaidOther = ''Paid Other''"
| "channel_text ChannelOrganicSearch = ''Organic Search''"
| "channel_text ChannelOrganicSocial = ''Organic Social''"
| "channel_text ChannelOrganicVideo = ''Organic Video''"
| "channel_text ChannelEmail = ''Email''"
| "channel_text ChannelAffiliate = ''Affiliate''"
| "channel_text ChannelReferral = ''Referral''"
| "channel_text ChannelUnassigned = ''Unassigned''"
| "channel_text ChannelDirect = ''Direct''"

definition classify_channel :: "(nat \<Rightarrow> nat) \<Rightarrow> string \<Rightarrow> string \<Rightarrow> string \<Rightarrow> bool \<Rightarrow> channel" where
  "classify_channel uni ref src0 med0 any_signal =
     (let src = to_lower uni src0;
          med = to_lower uni med0;
          webmail = matches_host ref webmail_domains;
          search = (matches_source src search_sources search_domains \<or> is_google_search_host src
                    \<or> (\<not> webmail \<and> (matches_host ref search_domains \<or> is_google_search_host ref)));
          social = (matches_source src social_sources social_domains \<or> matches_host ref social_domains);
          video = (matches_source src video_sources video_domains \<or> matches_host ref video_domains);
          paid = is_paid_medium med
      in if paid \<and> search then ChannelPaidSearch
         else if paid \<and> social then ChannelPaidSocial
         else if paid \<and> video then ChannelPaidVideo
         else if med \<in> set display_mediums then ChannelDisplay
         else if paid then ChannelPaidOther
         else if search \<or> med = ''organic'' then ChannelOrganicSearch
         else if social \<or> med \<in> set social_mediums then ChannelOrganicSocial
         else if video \<or> med = ''video'' then ChannelOrganicVideo
         else if webmail \<or> src \<in> set email_tokens \<or> med \<in> set email_tokens then ChannelEmail
         else if med = ''affiliate'' then ChannelAffiliate
         else if ref \<noteq> [] then ChannelReferral
         else if any_signal then ChannelUnassigned
         else ChannelDirect)"

section \<open>URLs and referrers\<close>

text \<open>What the code reads off a parsed URL; a parameter absent from the query reads empty.\<close>

record url =
  u_scheme :: string
  u_host :: string
  u_path :: string
  u_raw_query :: string
  u_query :: "string \<Rightarrow> string"

definition parse_page_url :: "(nat \<Rightarrow> nat) \<Rightarrow> (string \<Rightarrow> url option) \<Rightarrow> string \<Rightarrow> (url \<times> string) option" where
  "parse_page_url uni parse raw =
     (if raw = [] then None
      else (case parse raw of
              None \<Rightarrow> None
            | Some u \<Rightarrow> if u_scheme u \<noteq> ''http'' \<and> u_scheme u \<noteq> ''https'' then None
                        else if u_host u = [] then None
                        else Some (u, to_lower uni (u_host u))))"

definition auth_intermediary_hosts :: "string list" where
  "auth_intermediary_hosts = [''accounts.google.com'', ''accounts.youtube.com'', ''appleid.apple.com'', ''auth.atlassian.com'',
     ''id.atlassian.com'', ''login.live.com'', ''login.microsoft.com'', ''login.microsoftonline.com'', ''login.microsoftonline.us'',
     ''login.okta.com'', ''login.salesforce.com'', ''login.windows.net'', ''login.yahoo.com'', ''oauth.telegram.org'',
     ''signin.aws.amazon.com'']"

definition strip_one_www :: "string \<Rightarrow> string" where
  "strip_one_www host = (if starts_with host ''www.'' then drop 4 host else host)"

text \<open>The domain, and whether a referrer was sent that names no host.\<close>

definition referrer_domain :: "(nat \<Rightarrow> nat) \<Rightarrow> (string \<Rightarrow> url option) \<Rightarrow> string \<Rightarrow> string \<Rightarrow> string \<times> bool" where
  "referrer_domain uni parse referrer own_hostname =
     (if referrer = [] then ([], False)
      else (case parse referrer of
              None \<Rightarrow> ([], True)
            | Some u \<Rightarrow>
                (let dom = strip_one_www (to_lower uni (u_host u));
                     own = strip_one_www (to_lower uni own_hostname)
                 in if dom = [] then ([], True)
                    else if own \<noteq> [] \<and> dom = own then ([], False)
                    else if dom \<in> set auth_intermediary_hosts then ([], False)
                    else (dom, False))))"

section \<open>Locale\<close>

fun split_dash :: "string \<Rightarrow> string list" where
  "split_dash [] = [[]]"
| "split_dash (c # s) = (if c = CHR ''-'' then [] # split_dash s else (case split_dash s of p # ps \<Rightarrow> (c # p) # ps | [] \<Rightarrow> [[c]]))"

fun join_dash :: "string list \<Rightarrow> string" where
  "join_dash [] = []"
| "join_dash [p] = p"
| "join_dash (p # ps) = p @ CHR ''-'' # join_dash ps"

definition recase_subtag :: "(nat \<Rightarrow> nat) \<Rightarrow> string \<Rightarrow> string" where
  "recase_subtag uni p =
     (if length p = 2 then to_upper uni p
      else if length p = 4 then to_upper uni (take 1 p) @ to_lower uni (drop 1 p)
      else to_lower uni p)"

definition recase :: "(nat \<Rightarrow> nat) \<Rightarrow> string list \<Rightarrow> string list" where
  "recase uni parts = (case parts of [] \<Rightarrow> [] | p # ps \<Rightarrow> to_lower uni p # map (recase_subtag uni) ps)"

definition normalize_locale :: "(nat \<Rightarrow> nat) \<Rightarrow> string \<Rightarrow> string" where
  "normalize_locale uni locale0 =
     (let locale1 = trim_space locale0
      in if locale1 = [] then []
         else join_dash (recase uni (split_dash (map (\<lambda>c. if c = CHR ''_'' then CHR ''-'' else c) locale1))))"

section \<open>Deriving\<close>

record attr_input =
  in_url :: string
  in_referrer :: string
  in_pathname :: string
  in_hostname :: string
  in_screen_size :: string
  in_utm_source :: string
  in_utm_medium :: string
  in_utm_campaign :: string
  in_utm_term :: string
  in_utm_content :: string
  in_locale :: string
  in_width :: int
  in_height :: int

record attr_output =
  out_pathname :: string
  out_hostname :: string
  out_referrer_domain :: string
  out_channel :: string
  out_screen_size :: string
  out_utm_source :: string
  out_utm_medium :: string
  out_utm_campaign :: string
  out_utm_term :: string
  out_utm_content :: string
  out_locale :: string

definition complete_utm :: "url option \<Rightarrow> string \<Rightarrow> string \<Rightarrow> string" where
  "complete_utm page sent param = (if sent \<noteq> [] then sent else (case page of None \<Rightarrow> [] | Some u \<Rightarrow> if u_raw_query u = [] then [] else u_query u param))"

definition derive :: "(nat \<Rightarrow> nat) \<Rightarrow> (string \<Rightarrow> url option) \<Rightarrow> attr_input \<Rightarrow> attr_output" where
  "derive uni parse inp =
     (let page = parse_page_url uni parse (in_url inp);
          page_url = map_option fst page;
          page_host = (case page of None \<Rightarrow> [] | Some (u, host) \<Rightarrow> host);
          pathname = (if in_pathname inp \<noteq> [] then in_pathname inp
                      else (case page_url of None \<Rightarrow> [] | Some u \<Rightarrow> if u_path u = [] then ''/'' else u_path u));
          hostname = (if in_hostname inp \<noteq> [] then in_hostname inp else page_host);
          src = complete_utm page_url (in_utm_source inp) ''utm_source'';
          med = complete_utm page_url (in_utm_medium inp) ''utm_medium'';
          camp = complete_utm page_url (in_utm_campaign inp) ''utm_campaign'';
          trm = complete_utm page_url (in_utm_term inp) ''utm_term'';
          content = complete_utm page_url (in_utm_content inp) ''utm_content'';
          own_host = (if page = None then in_hostname inp else page_host);
          (ref_domain, unresolved) = referrer_domain uni parse (in_referrer inp) own_host;
          any_utm = (src \<noteq> [] \<or> med \<noteq> [] \<or> camp \<noteq> [] \<or> trm \<noteq> [] \<or> content \<noteq> []);
          channel = (if page = None then [] else channel_text (classify_channel uni ref_domain src med (any_utm \<or> unresolved)));
          screen = (if in_screen_size inp \<noteq> [] then in_screen_size inp
                    else if 0 < in_width inp \<and> 0 < in_height inp
                      then format_int (in_width inp) @ CHR ''x'' # format_int (in_height inp) else [])
      in \<lparr>out_pathname = pathname, out_hostname = hostname, out_referrer_domain = ref_domain, out_channel = channel,
          out_screen_size = screen, out_utm_source = src, out_utm_medium = med, out_utm_campaign = camp, out_utm_term = trm,
          out_utm_content = content, out_locale = normalize_locale uni (in_locale inp)\<rparr>)"

definition prop_referrer_domain :: string where "prop_referrer_domain = ''$referrerDomain''"
definition prop_channel :: string where "prop_channel = ''$channel''"
definition prop_locale :: string where "prop_locale = ''$locale''"

definition out_pairs :: "attr_output \<Rightarrow> (string \<times> string) list" where
  "out_pairs out =
     [(''$pathname'', out_pathname out), (''$hostname'', out_hostname out), (prop_referrer_domain, out_referrer_domain out),
      (prop_channel, out_channel out), (''$screenSize'', out_screen_size out), (''$utmSource'', out_utm_source out),
      (''$utmMedium'', out_utm_medium out), (''$utmCampaign'', out_utm_campaign out), (''$utmTerm'', out_utm_term out),
      (''$utmContent'', out_utm_content out), (prop_locale, out_locale out)]"

definition input_from :: "(string \<Rightarrow> string) \<Rightarrow> int \<times> int \<Rightarrow> attr_input" where
  "input_from str dims =
     \<lparr>in_url = str ''$url'', in_referrer = str ''$referrer'', in_pathname = str ''$pathname'', in_hostname = str ''$hostname'',
      in_screen_size = str ''$screenSize'', in_utm_source = str ''$utmSource'', in_utm_medium = str ''$utmMedium'',
      in_utm_campaign = str ''$utmCampaign'', in_utm_term = str ''$utmTerm'', in_utm_content = str ''$utmContent'',
      in_locale = str prop_locale, in_width = fst dims, in_height = snd dims\<rparr>"

definition strip_server_only :: "(string \<Rightarrow> 'v option) \<Rightarrow> string \<Rightarrow> 'v option" where
  "strip_server_only props = props(prop_referrer_domain := None, prop_channel := None)"

end
