(* ===== verification/Attribution_Claims.thy ===== *)
theory Attribution_Claims
  imports Attribution
begin

text \<open>
  What the channel table promises: the walk that recognises Google's search hosts accepts a
  described set of hosts, and Direct, the bucket that is expected to be large, hides no signal.
\<close>

section \<open>Google's search hosts\<close>

definition trim_dot :: "string \<Rightarrow> string" where
  "trim_dot sub = (if has_suffix sub ''.'' then butlast sub else sub)"

lemma cut_dot_join: "cut_dot s = Some (a, b) \<Longrightarrow> s = a @ CHR ''.'' # b"
proof -
  assume "cut_dot s = Some (a, b)"
  then have dot: "CHR ''.'' \<in> set s" and ab: "a = takeWhile (\<lambda>c. c \<noteq> CHR ''.'') s" "b = tl (dropWhile (\<lambda>c. c \<noteq> CHR ''.'') s)"
    by (auto simp: cut_dot_def split: if_splits)
  have "dropWhile (\<lambda>c. c \<noteq> CHR ''.'') s \<noteq> []" using dot by (simp add: dropWhile_eq_Nil_conv)
  then have "dropWhile (\<lambda>c. c \<noteq> CHR ''.'') s = CHR ''.'' # b"
    using hd_dropWhile [of "\<lambda>c. c \<noteq> CHR ''.''" s] ab(2) by (metis list.collapse)
  then show ?thesis using takeWhile_dropWhile_id [of "\<lambda>c. c \<noteq> CHR ''.''" s] ab(1) by simp
qed

lemma google_tail_join: "google_tail rest = Some tail \<Longrightarrow> rest = ''google.'' @ tail"
proof -
  assume "google_tail rest = Some tail"
  then have "take 7 rest = ''google.''" "tail = drop 7 rest" by (auto simp: google_tail_def starts_with_def eval_nat_numeral split: if_splits)
  then show ?thesis using append_take_drop_id [of 7 rest] by simp
qed

lemma google_tail_of [simp]: "google_tail (CHR ''g'' # CHR ''o'' # CHR ''o'' # CHR ''g'' # CHR ''l'' # CHR ''e'' # CHR ''.'' # tail) = Some tail"
  by (simp add: google_tail_def starts_with_def)

lemma google_walk_finds:
  "google_walk sub rest \<Longrightarrow> \<exists>a tail. rest = a @ ''google.'' @ tail \<and> tld_shaped tail \<and> trim_dot (sub @ a) \<in> set google_search_subdomains
     \<and> (a \<noteq> [] \<longrightarrow> last a = CHR ''.'')"
proof (induction sub rest rule: google_walk.induct)
  case (1 sub rest)
  consider (here) tail where "google_tail rest = Some tail" "tld_shaped tail" "trim_dot sub \<in> set google_search_subdomains"
    | (later) label after where "cut_dot rest = Some (label, after)" "google_walk (sub @ label @ ''.'') after"
      "\<forall>tail. google_tail rest = Some tail \<longrightarrow> \<not> tld_shaped tail"
    using "1.prems" by (subst (asm) google_walk.simps) (auto simp: trim_dot_def split: option.splits if_splits)
  then show ?case
  proof cases
    case here
    then show ?thesis using google_tail_join [of rest tail] by (intro exI [of _ "[]"] exI [of _ tail]) simp
  next
    case later
    have "\<exists>a tail. after = a @ ''google.'' @ tail \<and> tld_shaped tail \<and> trim_dot ((sub @ label @ ''.'') @ a) \<in> set google_search_subdomains
        \<and> (a \<noteq> [] \<longrightarrow> last a = CHR ''.'')"
      using "1.IH" later by (cases "google_tail rest") auto
    then obtain a tail where found: "after = a @ ''google.'' @ tail" "tld_shaped tail"
      "trim_dot ((sub @ label @ ''.'') @ a) \<in> set google_search_subdomains" "a \<noteq> [] \<longrightarrow> last a = CHR ''.''" by blast
    then show ?thesis using cut_dot_join [OF later(1)]
      by (intro exI [of _ "label @ ''.'' @ a"] exI [of _ tail]) (cases "a = []"; simp)
  qed
qed

lemma walk_prefixes:
  assumes "tld_shaped tail" "sub \<in> set google_search_subdomains"
  shows "google_walk [] (''google.'' @ tail)" "google_walk [] (sub @ ''.google.'' @ tail)"
proof -
  show "google_walk [] (''google.'' @ tail)"
    by (subst google_walk.simps) (simp add: assms(1) has_suffix_def google_search_subdomains_def)
  have step: "google_walk [] (l @ ''.google.'' @ tail)" if "CHR ''.'' \<notin> set l" "google_tail (l @ ''.google.'' @ tail) = None" "l \<in> set google_search_subdomains" for l
  proof -
    have "cut_dot (l @ ''.google.'' @ tail) = Some (l, ''google.'' @ tail)"
      using that(1) takeWhile_append2 [of l "\<lambda>c. c \<noteq> CHR ''.''" "''.google.'' @ tail"] dropWhile_append2 [of l "\<lambda>c. c \<noteq> CHR ''.''" "''.google.'' @ tail"]
      by (fastforce simp: cut_dot_def)
    moreover have "google_walk (l @ ''.'') (''google.'' @ tail)"
      using that(3) by (subst google_walk.simps) (simp add: assms(1) has_suffix_def butlast_append)
    ultimately show ?thesis using that(2) by (subst google_walk.simps) simp
  qed
  show "google_walk [] (sub @ ''.google.'' @ tail)"
    by (rule step) (use assms(2) in \<open>auto simp: google_search_subdomains_def google_tail_def starts_with_def\<close>)
qed

section \<open>Properties\<close>

text \<open>
  C39. Which hosts are Google's search. The walk over label boundaries accepts the bare word and the
  hosts made of a listed subdomain, or none, before \<open>google.\<close> and a tail shaped like its country
  domains, and no other host, however deep the name.
\<close>

theorem google_search_hosts:
  "is_google_search_host host \<longleftrightarrow>
     host = ''google'' \<or> (\<exists>tail. tld_shaped tail \<and> (host = ''google.'' @ tail \<or> (\<exists>sub. sub \<in> set google_search_subdomains \<and> host = sub @ ''.google.'' @ tail)))"
proof
  assume "is_google_search_host host"
  then consider "host = ''google''" | "google_walk [] host" by (auto simp: is_google_search_host_def)
  then show "host = ''google'' \<or> (\<exists>tail. tld_shaped tail \<and> (host = ''google.'' @ tail \<or> (\<exists>sub. sub \<in> set google_search_subdomains \<and> host = sub @ ''.google.'' @ tail)))"
  proof cases
    case 2
    from google_walk_finds [OF this] obtain a tail where found: "host = a @ ''google.'' @ tail" "tld_shaped tail"
      "trim_dot a \<in> set google_search_subdomains" "a \<noteq> [] \<longrightarrow> last a = CHR ''.''" by auto
    show ?thesis
    proof (cases "a = []")
      case False
      then have a: "a = butlast a @ ''.''" using found(4) append_butlast_last_id [of a] by simp
      have "has_suffix (b @ ''.'') ''.''" for b by (simp add: has_suffix_def)
      then have "has_suffix a ''.''" using a by metis
      then have "butlast a \<in> set google_search_subdomains" using found(3) by (simp add: trim_dot_def)
      moreover have "host = butlast a @ ''.google.'' @ tail" using found(1) by (subst (asm) a) simp
      ultimately show ?thesis using found(2) by blast
    qed (use found in auto)
  qed simp
next
  assume "host = ''google'' \<or> (\<exists>tail. tld_shaped tail \<and> (host = ''google.'' @ tail \<or> (\<exists>sub. sub \<in> set google_search_subdomains \<and> host = sub @ ''.google.'' @ tail)))"
  then show "is_google_search_host host"
    using walk_prefixes(1) [of _ "''''"] walk_prefixes(2) by (auto simp: is_google_search_host_def google_search_subdomains_def)
qed

text \<open>
  Direct hides nothing. An event derived to the Direct channel has a page URL, no effective UTM
  value, neither sent nor in the URL, and a referrer that was not sent, is the page's own host or is
  a sign-in host; a referrer that names no host is never booked as Direct.
\<close>

theorem direct_hides_nothing:
  assumes "out_channel (derive uni parse inp) = channel_text ChannelDirect"
  shows "\<exists>u host. parse_page_url uni parse (in_url inp) = Some (u, host)
    \<and> out_utm_source (derive uni parse inp) = [] \<and> out_utm_medium (derive uni parse inp) = [] \<and> out_utm_campaign (derive uni parse inp) = []
    \<and> out_utm_term (derive uni parse inp) = [] \<and> out_utm_content (derive uni parse inp) = []
    \<and> (in_referrer inp = [] \<or> (\<exists>r. parse (in_referrer inp) = Some r \<and> u_host r \<noteq> []
        \<and> (strip_one_www (to_lower uni (u_host r)) = strip_one_www (to_lower uni host)
           \<or> strip_one_www (to_lower uni (u_host r)) \<in> set auth_intermediary_hosts)))"
proof -
  have direct: "classify_channel uni ref src med any = ChannelDirect \<Longrightarrow> ref = [] \<and> \<not> any" for ref src med "any"
    by (auto simp: classify_channel_def Let_def split: if_splits)
  have same: "channel_text c = channel_text ChannelDirect \<Longrightarrow> c = ChannelDirect" for c by (cases c) simp_all
  obtain u host where page: "parse_page_url uni parse (in_url inp) = Some (u, host)"
    using assms by (cases "parse_page_url uni parse (in_url inp)") (auto simp: derive_def Let_def split: prod.splits)
  let ?utm = "\<lambda>sent p. complete_utm (Some u) (sent inp) p"
  obtain dom unresolved where ref: "referrer_domain uni parse (in_referrer inp) host = (dom, unresolved)" by fastforce
  have "classify_channel uni dom (?utm in_utm_source ''utm_source'') (?utm in_utm_medium ''utm_medium'')
      ((?utm in_utm_source ''utm_source'' \<noteq> [] \<or> ?utm in_utm_medium ''utm_medium'' \<noteq> [] \<or> ?utm in_utm_campaign ''utm_campaign'' \<noteq> []
        \<or> ?utm in_utm_term ''utm_term'' \<noteq> [] \<or> ?utm in_utm_content ''utm_content'' \<noteq> []) \<or> unresolved) = ChannelDirect"
    using assms by (intro same) (simp add: derive_def page ref Let_def)
  from direct [OF this] have none: "dom = []" "\<not> unresolved" "?utm in_utm_source ''utm_source'' = []" "?utm in_utm_medium ''utm_medium'' = []"
    "?utm in_utm_campaign ''utm_campaign'' = []" "?utm in_utm_term ''utm_term'' = []" "?utm in_utm_content ''utm_content'' = []" by auto
  have lower_nil: "strip_one_www (to_lower uni []) = []" by (simp add: strip_one_www_def to_lower_def map_runes_def starts_with_def)
  have "in_referrer inp = [] \<or> (\<exists>r. parse (in_referrer inp) = Some r \<and> u_host r \<noteq> []
        \<and> (strip_one_www (to_lower uni (u_host r)) = strip_one_www (to_lower uni host)
           \<or> strip_one_www (to_lower uni (u_host r)) \<in> set auth_intermediary_hosts))"
  proof (cases "in_referrer inp = []")
    case False
    then obtain r where r: "parse (in_referrer inp) = Some r" using ref none(2) by (cases "parse (in_referrer inp)") (auto simp: referrer_domain_def)
    let ?d = "strip_one_www (to_lower uni (u_host r))"
    have "?d \<noteq> []" using ref none(2) False r by (auto simp: referrer_domain_def Let_def)
    moreover have "?d = strip_one_www (to_lower uni host) \<or> ?d \<in> set auth_intermediary_hosts"
      using ref none(1) False r calculation by (simp add: referrer_domain_def Let_def split: if_splits)
    ultimately show ?thesis using r lower_nil by metis
  qed simp
  moreover have "out_utm_source (derive uni parse inp) = ?utm in_utm_source ''utm_source''"
    "out_utm_medium (derive uni parse inp) = ?utm in_utm_medium ''utm_medium''" "out_utm_campaign (derive uni parse inp) = ?utm in_utm_campaign ''utm_campaign''"
    "out_utm_term (derive uni parse inp) = ?utm in_utm_term ''utm_term''" "out_utm_content (derive uni parse inp) = ?utm in_utm_content ''utm_content''"
    by (simp_all add: derive_def page ref Let_def)
  ultimately show ?thesis using page none(3-7) by simp
qed

definition demo_visit_page :: attr_input where
  "demo_visit_page = \<lparr>in_url = ''https://www.acme.co/a'', in_referrer = ''https://acme.co/'', in_pathname = [], in_hostname = [], in_screen_size = [],
     in_utm_source = [], in_utm_medium = [], in_utm_campaign = [], in_utm_term = [], in_utm_content = [], in_locale = [], in_width = 0, in_height = 0\<rparr>"

text \<open>A parser that knows the two URLs.\<close>

definition demo_url :: "string \<Rightarrow> url option" where
  "demo_url s =
     (if s = ''https://www.acme.co/a'' then Some \<lparr>u_scheme = ''https'', u_host = ''www.acme.co'', u_path = ''/a'', u_raw_query = [], u_query = (\<lambda>_. [])\<rparr>
      else if s = ''https://acme.co/'' then Some \<lparr>u_scheme = ''https'', u_host = ''acme.co'', u_path = ''/'', u_raw_query = [], u_query = (\<lambda>_. [])\<rparr>
      else None)"

lemma demo_hosts: "to_lower id ''www.acme.co'' = ''www.acme.co''" "to_lower id ''acme.co'' = ''acme.co''" "to_lower id [] = []"
  by (simp_all add: to_lower_ascii ascii_def)

lemma demo_direct: "out_channel (derive id demo_url demo_visit_page) = channel_text ChannelDirect"
proof -
  have "parse_page_url id demo_url (in_url demo_visit_page) = Some (the (demo_url ''https://www.acme.co/a''), ''www.acme.co'')"
    by (simp add: parse_page_url_def demo_url_def demo_visit_page_def demo_hosts)
  moreover have "referrer_domain id demo_url (in_referrer demo_visit_page) ''www.acme.co'' = ([], False)"
    by (simp add: referrer_domain_def demo_url_def demo_visit_page_def demo_hosts strip_one_www_def starts_with_def)
  moreover have "complete_utm (Some (the (demo_url ''https://www.acme.co/a''))) [] p = []" for p
    by (simp add: complete_utm_def demo_url_def)
  moreover have "\<not> google_walk [] []" "is_paid_medium [] = False"
    by (simp_all add: google_walk.simps [of "[]" "[]"] google_tail_def starts_with_def cut_dot_def is_paid_medium_def)
  then have "classify_channel id [] [] [] False = ChannelDirect"
    by (simp add: classify_channel_def demo_hosts matches_host_def matches_source_def is_google_search_host_def search_sources_def social_sources_def
        video_sources_def display_mediums_def social_mediums_def email_tokens_def Let_def)
  ultimately show ?thesis by (simp add: derive_def demo_visit_page_def Let_def)
qed

lemma direct_hides_nothing_witness: "out_utm_source (derive id demo_url demo_visit_page) = []"
  using direct_hides_nothing [OF demo_direct] by blast

end
