(* ===== verification/Cookieless.thy ===== *)
theory Cookieless
  imports Go_Time Go_String Go_Decimal
begin

text \<open>
  Server-side identity for visitors who store nothing on their device
  (\<open>internal/cookieless\<close>): the accepted days (\<open>cookieless.go\<close>), the daily salt and its life in
  Redis (\<open>salt.go\<close>), the identifier hashed from it, and the stitched session (\<open>session.go\<close>).
  HMAC, base64 and the hash behind a version 5 UUID are arguments; a Redis key is an optional
  value, with its expiry where the code relies on it. What the calls log is left out.
\<close>

section \<open>Days\<close>

text \<open>\<open>Format("20060102")\<close> of a UTC time, and \<open>ParseInLocation\<close> of the same layout.\<close>

definition format_day :: "time \<Rightarrow> string" where
  "format_day t = append_int 4 (time_year t) @ append_int 2 (time_month t) @ append_int 2 (time_day t)"

definition parse_day :: "string \<Rightarrow> time option" where
  "parse_day s =
     (let y = int (read_digits 0 (take 4 s)); m = int (read_digits 0 (take 2 (drop 4 s))); d = int (read_digits 0 (drop 6 s))
      in if length s = 8 \<and> list_all is_digit s \<and> 1 \<le> m \<and> m \<le> 12 \<and> 1 \<le> d \<and> d \<le> month_len y m
         then Some (go_date y m d) else None)"

definition day_of :: "time \<Rightarrow> time \<Rightarrow> string \<times> bool" where
  "day_of now occur =
     (let day = format_day occur
      in (day, day = format_day now \<or> day = format_day (add_date now 0 0 (- 1))))"

section \<open>The daily salt\<close>

definition id_prefix :: string where "id_prefix = ''cookieless-''"
definition salt_len :: nat where "salt_len = 32"
definition salt_max_ttl :: duration where "salt_max_ttl = 48 * hour"

datatype salt_error = MalformedDay | OutsideWindow | SaltFetch | SaltMint | SaltReread | ErrCorruptSalt

definition salt_ttl_for :: "time \<Rightarrow> string \<Rightarrow> (salt_error, duration) result" where
  "salt_ttl_for now day =
     (case parse_day day of
        None \<Rightarrow> Inl MalformedDay
      | Some d \<Rightarrow>
          (let ttl = time_sub (add_date d 0 0 2) now
           in if ttl \<le> 0 \<or> salt_max_ttl < ttl then Inl OutsideWindow else Inr ttl))"

type_synonym salt_cache = "string \<Rightarrow> string option"

text \<open>The cache keeps today's and yesterday's salts.\<close>

definition cache_salt :: "time \<Rightarrow> string \<Rightarrow> string \<Rightarrow> salt_cache \<Rightarrow> salt_cache" where
  "cache_salt now day salt cache =
     (\<lambda>d. if d = format_day now \<or> d = format_day (add_date now 0 0 (- 1)) then (cache(day \<mapsto> salt)) d else None)"

definition store_salt :: "(string \<Rightarrow> string option) \<Rightarrow> time \<Rightarrow> string \<Rightarrow> string \<Rightarrow> salt_cache
    \<Rightarrow> (salt_error, string) result \<times> salt_cache" where
  "store_salt dec now day encoded cache =
     (case dec encoded of
        None \<Rightarrow> (Inl ErrCorruptSalt, cache)
      | Some salt \<Rightarrow> if length salt \<noteq> salt_len then (Inl ErrCorruptSalt, cache)
                     else (Inr salt, cache_salt now day salt cache))"

text \<open>The Redis calls of \<open>saltForDay\<close>; \<open>ScSetLost\<close> is a write that landed and whose answer did not.\<close>

datatype salt_fault = ScGet | ScRand | ScSet | ScSetLost | ScReread

text \<open>
  \<open>saltForDay\<close> cut at its Redis calls. Up to the first read it is decided or has a salt to mint,
  whose time to live was computed before.
\<close>

definition salt_lookup :: "(salt_fault \<Rightarrow> bool) \<Rightarrow> (string \<Rightarrow> string option) \<Rightarrow> time \<Rightarrow> string option \<Rightarrow> salt_cache \<Rightarrow> string
    \<Rightarrow> ((salt_error, string) result, duration) result \<times> salt_cache" where
  "salt_lookup flt dec now stored cache day =
     (case salt_ttl_for now day of
        Inl e \<Rightarrow> (Inl (Inl e), cache)
      | Inr ttl \<Rightarrow>
          (case cache day of
             Some s \<Rightarrow> (Inl (Inr s), cache)
           | None \<Rightarrow>
               if flt ScGet then (Inl (Inl SaltFetch), cache)
               else (case stored of
                       Some v \<Rightarrow> (let (r, cache1) = store_salt dec now day v cache in (Inl r, cache1))
                     | None \<Rightarrow> (Inr ttl, cache))))"

text \<open>The mint: decided, or lost to another process; and the key after it.\<close>

definition salt_mint :: "(salt_fault \<Rightarrow> bool) \<Rightarrow> (string \<Rightarrow> string) \<Rightarrow> time \<Rightarrow> (string \<times> time) option \<Rightarrow> string \<Rightarrow> duration \<Rightarrow> salt_cache \<Rightarrow> string
    \<Rightarrow> ((salt_error, string) result option \<times> salt_cache) \<times> (string \<times> time) option" where
  "salt_mint flt enc now key fresh ttl cache day =
     (if flt ScRand \<or> flt ScSet then ((Some (Inl SaltMint), cache), key)
      else (case key of
              Some v \<Rightarrow> (if flt ScSetLost then (Some (Inl SaltMint), cache) else (None, cache), key)
            | None \<Rightarrow> (if flt ScSetLost then (Some (Inl SaltMint), cache) else (Some (Inr fresh), cache_salt now day fresh cache),
                       Some (enc fresh, now + ttl))))"

definition salt_reread :: "(salt_fault \<Rightarrow> bool) \<Rightarrow> (string \<Rightarrow> string option) \<Rightarrow> time \<Rightarrow> string option \<Rightarrow> salt_cache \<Rightarrow> string
    \<Rightarrow> (salt_error, string) result \<times> salt_cache" where
  "salt_reread flt dec now stored cache day =
     (if flt ScReread then (Inl SaltReread, cache)
      else (case stored of None \<Rightarrow> (Inl SaltReread, cache) | Some v \<Rightarrow> store_salt dec now day v cache))"

text \<open>A Redis key answers until it expires.\<close>

definition live :: "time \<Rightarrow> (string \<times> time) option \<Rightarrow> (string \<times> time) option" where
  "live now key = (case key of None \<Rightarrow> None | Some (v, e) \<Rightarrow> if now < e then Some (v, e) else None)"

definition salt_for_day :: "(salt_fault \<Rightarrow> bool) \<Rightarrow> (string \<Rightarrow> string) \<Rightarrow> (string \<Rightarrow> string option) \<Rightarrow> time \<Rightarrow> string \<Rightarrow> string
    \<Rightarrow> salt_cache \<Rightarrow> (string \<times> time) option \<Rightarrow> (salt_error, string) result \<times> salt_cache \<times> (string \<times> time) option" where
  "salt_for_day flt enc dec now fresh day cache key =
     (case salt_lookup flt dec now (map_option fst (live now key)) cache day of
        (Inl r, cache1) \<Rightarrow> (r, cache1, key)
      | (Inr ttl, cache1) \<Rightarrow>
          (case salt_mint flt enc now (live now key) fresh ttl cache1 day of
             ((Some r, cache2), key2) \<Rightarrow> (r, cache2, key2)
           | ((None, cache2), key2) \<Rightarrow>
               (case salt_reread flt dec now (map_option fst (live now key2)) cache2 day of
                  (r, cache3) \<Rightarrow> (r, cache3, key2))))"

section \<open>The identifier\<close>

text \<open>What the keyed hash reads, and the identifier.\<close>

definition identity_text :: "string \<Rightarrow> string \<Rightarrow> string \<Rightarrow> string" where
  "identity_text project ip ua = project @ CHR 0x00 # ip @ CHR 0x00 # ua"

definition distinct_id :: "(string \<Rightarrow> string \<Rightarrow> string) \<Rightarrow> (string \<Rightarrow> string) \<Rightarrow> (salt_error, string) result \<Rightarrow> string \<Rightarrow> string \<Rightarrow> string
    \<Rightarrow> (salt_error, string) result" where
  "distinct_id hmac b64url salt project ip ua =
     (case salt of
        Inl e \<Rightarrow> Inl e
      | Inr s \<Rightarrow> Inr (id_prefix @ b64url (take 16 (hmac s (identity_text project ip ua)))))"

section \<open>Sessions\<close>

definition session_inactivity :: duration where "session_inactivity = 30 * minute"

definition milli :: duration where "milli = 1000000"

definition unix_milli :: "time \<Rightarrow> int" where
  "unix_milli t = t div milli"

definition format_session :: "string \<Rightarrow> time \<Rightarrow> string" where
  "format_session sid latest = sid @ CHR ''|'' # format_int (unix_milli latest)"

text \<open>\<open>strings.Cut\<close> at the first bar.\<close>

definition cut_bar :: "string \<Rightarrow> (string \<times> string) option" where
  "cut_bar s = (if CHR ''|'' \<in> set s then Some (takeWhile (\<lambda>c. c \<noteq> CHR ''|'') s, tl (dropWhile (\<lambda>c. c \<noteq> CHR ''|'') s)) else None)"

definition parse_session :: "string \<Rightarrow> (string \<times> time) option" where
  "parse_session s =
     (case cut_bar s of
        None \<Rightarrow> None
      | Some (sid, ms) \<Rightarrow>
          (case parse_int 64 ms of
             None \<Rightarrow> None
           | Some n \<Rightarrow> if sid = [] then None else Some (sid, n * milli)))"

text \<open>Negating the smallest int64 leaves it as it is.\<close>

definition within_inactivity :: "time \<Rightarrow> time \<Rightarrow> bool" where
  "within_inactivity occur latest =
     (let gap = time_sub occur latest; gap1 = (if gap < 0 \<and> gap \<noteq> - (2 ^ 63) then - gap else gap) in gap1 \<le> session_inactivity)"

datatype degrade_reason = DegradeNone | DegradeGetFailed | DegradeMintFailed | DegradeWriteFailed | DegradeSlideFailed | DegradeCorruptState

definition corrupt_or_none :: "bool \<Rightarrow> degrade_reason" where
  "corrupt_or_none corrupt = (if corrupt then DegradeCorruptState else DegradeNone)"

definition fallback_session_id :: "(string \<Rightarrow> string) \<Rightarrow> string \<Rightarrow> string \<Rightarrow> string" where
  "fallback_session_id uuid5 visitor day = uuid5 (visitor @ CHR ''|'' # day)"

text \<open>\<open>Truncate\<close> counts from the zero time.\<close>

definition stale_session_id :: "(string \<Rightarrow> string) \<Rightarrow> string \<Rightarrow> string \<Rightarrow> time \<Rightarrow> string" where
  "stale_session_id uuid5 visitor day occur =
     uuid5 (visitor @ CHR ''|'' # day @ ''|w'' @ format_int (unix_milli (occur - (occur - zero_time) mod session_inactivity)))"

datatype session_fault = SsGet | SsMint | SsWrite | SsSlide

definition slide_session :: "(session_fault \<Rightarrow> bool) \<Rightarrow> string \<Rightarrow> time \<Rightarrow> time \<Rightarrow> string option \<Rightarrow> degrade_reason \<times> string option" where
  "slide_session flt sid latest occur cell =
     (if \<not> latest < occur then (DegradeNone, cell)
      else if flt SsSlide then (DegradeSlideFailed, cell)
      else (DegradeNone, Some (format_session sid occur)))"

text \<open>From the conditional write on: \<open>cell\<close> is the key as that write finds it.\<close>

definition mint_session :: "(session_fault \<Rightarrow> bool) \<Rightarrow> (string \<Rightarrow> string) \<Rightarrow> string \<Rightarrow> string \<Rightarrow> string \<Rightarrow> time \<Rightarrow> bool
    \<Rightarrow> string option \<Rightarrow> (string \<times> degrade_reason) \<times> string option" where
  "mint_session flt uuid5 fresh visitor day occur corrupt cell =
     (if flt SsMint then ((fallback_session_id uuid5 visitor day, DegradeMintFailed), cell)
      else (case cell of
              None \<Rightarrow> ((fresh, corrupt_or_none corrupt), Some (format_session fresh occur))
            | Some prior \<Rightarrow>
                (let overwrite = (\<lambda>bad. if flt SsWrite then ((fallback_session_id uuid5 visitor day, DegradeWriteFailed), cell)
                                        else ((fresh, corrupt_or_none bad), Some (format_session fresh occur)))
                 in case parse_session prior of
                      None \<Rightarrow> overwrite True
                    | Some (sid, latest) \<Rightarrow>
                        if within_inactivity occur latest
                        then (case slide_session flt sid latest occur cell of (reason, cell1) \<Rightarrow> ((sid, reason), cell1))
                        else if \<not> latest < occur then ((stale_session_id uuid5 visitor day occur, DegradeNone), cell)
                        else overwrite corrupt)))"

text \<open>The whole call: \<open>seen\<close> is the key as the read finds it, \<open>cell\<close> as the writes do.\<close>

definition session_id :: "(session_fault \<Rightarrow> bool) \<Rightarrow> (string \<Rightarrow> string) \<Rightarrow> string \<Rightarrow> string \<Rightarrow> string \<Rightarrow> time
    \<Rightarrow> string option \<Rightarrow> string option \<Rightarrow> (string \<times> degrade_reason) \<times> string option" where
  "session_id flt uuid5 fresh visitor day occur seen cell =
     (if flt SsGet then ((fallback_session_id uuid5 visitor day, DegradeGetFailed), cell)
      else (case seen of
              None \<Rightarrow> mint_session flt uuid5 fresh visitor day occur False cell
            | Some v \<Rightarrow>
                (case parse_session v of
                   None \<Rightarrow> mint_session flt uuid5 fresh visitor day occur True cell
                 | Some (sid, latest) \<Rightarrow>
                     if within_inactivity occur latest
                     then (case slide_session flt sid latest occur cell of (reason, cell1) \<Rightarrow> ((sid, reason), cell1))
                     else mint_session flt uuid5 fresh visitor day occur False cell)))"

section \<open>Laws of the days\<close>

lemma format_day_parts:
  assumes "0 \<le> time_year t" "time_year t \<le> 9999"
  shows "format_day t = pad 4 (nat (time_year t)) @ pad 2 (nat (time_month t)) @ pad 2 (nat (time_day t))"
    "length (pad 4 (nat (time_year t))) = 4" "length (pad 2 (nat (time_month t))) = 2" "length (pad 2 (nat (time_day t))) = 2"
proof -
  have m: "1 \<le> time_month t" "time_month t \<le> 12" using month_range by (simp_all add: time_month_def month_of_day_def)
  have d: "1 \<le> time_day t" "time_day t \<le> 31"
    using mday_range [of "day_number t"] month_len_range [of "time_month t" "time_year t"] m
    by (auto simp: time_day_def time_month_def time_year_def)
  show "format_day t = pad 4 (nat (time_year t)) @ pad 2 (nat (time_month t)) @ pad 2 (nat (time_day t))"
    using assms m d by (simp add: format_day_def append_int_def)
  show "length (pad 4 (nat (time_year t))) = 4" "length (pad 2 (nat (time_month t))) = 2" "length (pad 2 (nat (time_day t))) = 2"
    using assms m d by (simp_all add: pad_length)
qed

lemma parse_format_day:
  assumes "0 \<le> time_year t" "time_year t \<le> 9999"
  shows "parse_day (format_day t) = Some (day_number t * day_ns)"
proof -
  note parts = format_day_parts [OF assms]
  have m: "1 \<le> time_month t" "time_month t \<le> 12" using month_range by (simp_all add: time_month_def month_of_day_def)
  have d: "1 \<le> time_day t" "time_day t \<le> month_len (time_year t) (time_month t)"
    using mday_range [of "day_number t"] by (simp_all add: time_day_def time_month_def time_year_def)
  have "go_date (time_year t) (time_month t) (time_day t) = day_number t * day_ns" by (rule go_date_today)
  then show ?thesis using parts m d assms by (simp add: parse_day_def Let_def)
qed

lemma pad_long: "w \<le> length (pad w n)" by (simp add: pad_def)

lemma pad_too_long: "10 ^ w \<le> n \<Longrightarrow> w < length (pad w n)"
  using pad_long [of w n] read_digits_less [of "pad w n"] by (cases "length (pad w n) = w") auto

lemma parse_day_bad_year:
  assumes "time_year t < 0 \<or> 9999 < time_year t"
  shows "parse_day (format_day t) = None"
proof (cases "time_year t < 0")
  case True
  then have "hd (format_day t) = CHR ''-''" "format_day t \<noteq> []" by (simp_all add: format_day_def append_int_def)
  then have "\<not> list_all is_digit (format_day t)" by (cases "format_day t") (auto simp: is_digit_def)
  then show ?thesis by (auto simp: parse_day_def Let_def)
next
  case False
  have m: "1 \<le> time_month t" using month_range by (simp add: time_month_def month_of_day_def)
  have d: "1 \<le> time_day t" using mday_range [of "day_number t"] by (simp add: time_day_def)
  have "4 < length (pad 4 (nat (time_year t)))" by (rule pad_too_long) (use False assms in simp)
  moreover have "2 \<le> length (pad 2 (nat (time_month t)))" "2 \<le> length (pad 2 (nat (time_day t)))" by (rule pad_long)+
  ultimately have "8 < length (format_day t)" using False m d by (simp add: format_day_def append_int_def)
  then show ?thesis by (auto simp: parse_day_def Let_def)
qed

lemma parse_day_start:
  assumes "parse_day (format_day t) = Some d" shows "d = day_number t * day_ns"
  using assms parse_format_day [of t] parse_day_bad_year [of t] by (cases "0 \<le> time_year t \<and> time_year t \<le> 9999") auto

lemma parse_day_mult:
  assumes "parse_day s = Some d" obtains n where "d = n * day_ns"
  using assms by (auto simp: parse_day_def Let_def go_date_def split: if_splits)

lemma same_day: "format_day s = format_day t \<longleftrightarrow> day_number s = day_number t" if "0 \<le> time_year s" "time_year s \<le> 9999"
proof
  assume "format_day s = format_day t"
  with parse_format_day [OF that] have "parse_day (format_day t) = Some (day_number s * day_ns)" by simp
  then show "day_number s = day_number t" using parse_day_start by fastforce
qed (simp add: format_day_def time_year_def time_month_def time_day_def)

lemma year_at_noon: "time_year (n * day_ns) = year_of_day n" by (simp add: time_year_def)

definition plain_years :: "time \<Rightarrow> bool" where
  "plain_years now = (1 \<le> time_year now \<and> time_year now \<le> 9999)"

end
