(* ===== verification/Enrichment.thy ===== *)
theory Enrichment
  imports Go_Time Attribution
begin

text \<open>
  What ingestion adds to an event's automatic properties: the typed values of \<open>internal/autoprop\<close>,
  the location of \<open>internal/geo\<close>, the browser and system of \<open>internal/useragent\<close>, the bot signals of
  \<open>internal/botdetect\<close>, and the enrichers of \<open>internal/app/server/rpc/sdk/events\<close> that write them.
  A header is read by name, absent headers read empty. Floating-point text, the crawler list, the
  User-Agent parser and one regular expression are arguments.
\<close>

section \<open>Values\<close>

text \<open>A double is its 64 bits; \<open>UnsetValue\<close> is a value of no kind.\<close>

datatype prop_value = StringValue string | IntValue int | DoubleValue nat | BoolValue bool | TimestampValue time | UnsetValue

type_synonym props = "string \<Rightarrow> prop_value option"

record floats =
  fl_parse :: "string \<Rightarrow> nat option"
  fl_format :: "nat \<Rightarrow> string"

definition parse_bool :: "string \<Rightarrow> bool option" where
  "parse_bool s =
     (if s \<in> {''1'', ''t'', ''T'', ''TRUE'', ''true'', ''True''} then Some True
      else if s \<in> {''0'', ''f'', ''F'', ''FALSE'', ''false'', ''False''} then Some False else None)"

definition property_value :: "floats \<Rightarrow> string \<Rightarrow> string \<Rightarrow> prop_value" where
  "property_value fl key value =
     (if key \<in> {''$verified_bot'', ''$mobile'', ''$bot''}
        then (case parse_bool value of Some b \<Rightarrow> BoolValue b | None \<Rightarrow> StringValue value)
      else if key \<in> {''$bot_score'', ''$screenWidth'', ''$screenHeight''}
        then (case parse_int 64 value of Some n \<Rightarrow> IntValue n | None \<Rightarrow> StringValue value)
      else if key \<in> {''$latitude'', ''$longitude''}
        then (case fl_parse fl value of Some f \<Rightarrow> DoubleValue f | None \<Rightarrow> StringValue value)
      else StringValue value)"

text \<open>\<open>autoprop.String\<close>: no text for an absent value or one of another kind.\<close>

definition value_text :: "floats \<Rightarrow> prop_value option \<Rightarrow> string option" where
  "value_text fl pv =
     (case pv of
        Some (StringValue s) \<Rightarrow> Some s
      | Some (IntValue n) \<Rightarrow> Some (format_int n)
      | Some (DoubleValue f) \<Rightarrow> Some (fl_format fl f)
      | Some (BoolValue b) \<Rightarrow> Some (if b then ''true'' else ''false'')
      | _ \<Rightarrow> None)"

definition auto_text :: "floats \<Rightarrow> props \<Rightarrow> string \<Rightarrow> string" where
  "auto_text fl m key = (case value_text fl (m key) of None \<Rightarrow> [] | Some s \<Rightarrow> s)"

definition auto_int :: "floats \<Rightarrow> props \<Rightarrow> string \<Rightarrow> int" where
  "auto_int fl m key =
     (case value_text fl (m key) of None \<Rightarrow> 0 | Some s \<Rightarrow> (case parse_int 64 s of None \<Rightarrow> 0 | Some n \<Rightarrow> n))"

definition screen_dims :: "floats \<Rightarrow> props \<Rightarrow> int \<times> int" where
  "screen_dims fl m = (auto_int fl m ''$screenWidth'', auto_int fl m ''$screenHeight'')"

section \<open>Location\<close>

type_synonym headers = "string \<Rightarrow> string"

definition cloudflare_locate :: "headers \<Rightarrow> string \<Rightarrow> string option" where
  "cloudflare_locate h =
     (let given = (\<lambda>v bad. if v = [] \<or> v \<in> set bad then None else Some v)
      in (\<lambda>_. None)(
           ''$continent'' := given (h ''CF-IPContinent'') [],
           ''$country'' := given (h ''CF-IPCountry'') [''XX'', ''T1''],
           ''$region'' := given (h ''CF-Region'') [''Unknown''],
           ''$city'' := given (h ''CF-IPCity'') [''Unknown''],
           ''$postalCode'' := given (h ''CF-Postal-Code'') [],
           ''$metroCode'' := given (h ''CF-Metro-Code'') [],
           ''$latitude'' := given (h ''CF-IPLatitude'') [],
           ''$longitude'' := given (h ''CF-IPLongitude'') [],
           ''$timezone'' := given (h ''CF-Timezone'') []))"

section \<open>Browser and system\<close>

text \<open>What the User-Agent parser answers.\<close>

record ua_client =
  uc_browser :: string
  uc_browser_major :: string
  uc_os :: string
  uc_os_version :: "string list"
  uc_device :: string

definition max_ua_len :: nat where "max_ua_len = 2048"

function to_valid_utf8 :: "string \<Rightarrow> string" where
  "to_valid_utf8 [] = []"
| "to_valid_utf8 (c # s) =
     (let k = snd (decode_rune c s) - 1
      in if decode_rune c s = (rune_error, 1) then to_valid_utf8 s
         else c # take k s @ to_valid_utf8 (drop k s))"
  by pat_completeness auto
termination
  by (relation "measure length") (auto simp: le_imp_less_Suc)

definition normalize_browser_family :: "string \<Rightarrow> string" where
  "normalize_browser_family family =
     (if family \<in> {''Chrome'', ''Chrome Mobile''} then ''Google Chrome''
      else if family \<in> {''Edge'', ''Edge Mobile''} then ''Microsoft Edge''
      else if family = ''Mobile Safari'' then ''Safari'' else family)"

definition linux_families :: "string list" where
  "linux_families = [''Ubuntu'', ''Debian'', ''Fedora'', ''Red Hat'', ''CentOS'', ''SUSE'', ''openSUSE'', ''Gentoo'', ''Arch Linux'',
     ''Linux Mint'', ''Mageia'', ''Mandriva'', ''Slackware'', ''PCLinuxOS'', ''Kubuntu'']"

definition normalize_os_family :: "string \<Rightarrow> string" where
  "normalize_os_family family =
     (if family = ''Mac OS X'' then ''macOS'' else if family \<in> set linux_families then ''Linux'' else family)"

fun join_version :: "string list \<Rightarrow> string" where
  "join_version parts =
     (case filter (\<lambda>p. p \<noteq> []) parts of [] \<Rightarrow> [] | p # ps \<Rightarrow> p @ concat (map (\<lambda>q. CHR ''.'' # q) ps))"

definition frozen_os_version :: "string \<Rightarrow> string \<Rightarrow> bool" where
  "frozen_os_version family v =
     (family = ''Mac OS X'' \<and> v \<in> {''10.15'', ''10.15.7'', ''10.16''} \<or> family = ''Windows'' \<and> v = ''10''
      \<or> family = ''Chrome OS'' \<and> v = ''14541.0.0'')"

definition is_reduced_android :: "string \<Rightarrow> bool" where
  "is_reduced_android ua = (has_infix ''; Android 10; K)'' ua \<or> has_infix ''; Android 10; K; wv)'' ua)"

text \<open>\<open>ios\<close> is the match of the Safari version: the whole version and its major number.\<close>

definition os_version :: "(string \<Rightarrow> (string \<times> string) option) \<Rightarrow> ua_client \<Rightarrow> string \<Rightarrow> string" where
  "os_version ios c ua =
     (let v = join_version (uc_os_version c);
          reported = (if frozen_os_version (uc_os c) v then [] else v)
      in if uc_os c = ''iOS''
           then (case ios ua of
                   Some (version, major) \<Rightarrow> if 26 \<le> read_digits 0 major then version else reported
                 | None \<Rightarrow> reported)
         else if uc_os c = ''Android'' \<and> is_reduced_android ua then []
         else reported)"

definition infer_mobile :: "string \<Rightarrow> string \<Rightarrow> string" where
  "infer_mobile ua os_family =
     (if os_family = ''iOS'' then (if has_infix ''iPad'' ua then ''false'' else ''true'')
      else if os_family = ''Android'' then (if has_infix ''Mobile'' ua then ''true'' else ''false'')
      else ''false'')"

definition known_family :: "string \<Rightarrow> bool" where
  "known_family f = (f \<noteq> [] \<and> f \<noteq> ''Other'')"

definition properties_from_ua :: "(string \<Rightarrow> (string \<times> string) option) \<Rightarrow> ua_client \<Rightarrow> string \<Rightarrow> string \<Rightarrow> string option" where
  "properties_from_ua ios c ua =
     (let browser = known_family (uc_browser c);
          os = known_family (uc_os c);
          version = os_version ios c ua;
          device = (known_family (uc_device c) \<and> \<not> is_reduced_android ua)
      in if \<not> browser \<and> \<not> os \<and> \<not> device then (\<lambda>_. None)
         else (\<lambda>_. None)(
           ''$browser'' := (if browser then Some (normalize_browser_family (uc_browser c)) else None),
           ''$browserVersion'' := (if browser \<and> uc_browser_major c \<noteq> [] then Some (uc_browser_major c) else None),
           ''$os'' := (if os then Some (normalize_os_family (uc_os c)) else None),
           ''$osVersion'' := (if os \<and> version \<noteq> [] then Some version else None),
           ''$device'' := (if device then Some (uc_device c) else None),
           ''$mobile'' := Some (if os then infer_mobile ua (uc_os c) else ''false'')))"

definition parse_user_agent :: "(string \<Rightarrow> (string \<times> string) option) \<Rightarrow> (string \<Rightarrow> ua_client) \<Rightarrow> headers \<Rightarrow> string \<Rightarrow> string option" where
  "parse_user_agent ios uap h =
     (let raw = h ''User-Agent''; ua = to_valid_utf8 (take max_ua_len raw)
      in if raw = [] then (\<lambda>_. None) else properties_from_ua ios (uap ua) ua)"

section \<open>Bot signals\<close>

definition datacenter_asns :: "int list" where
  "datacenter_asns = [16509, 14618, 396982, 8075, 24940, 14061, 16276, 63949, 20473, 31898, 12876, 51167, 8560, 40509, 45102, 132203]"

definition match_user_agent :: "(string \<Rightarrow> string option) \<Rightarrow> string \<Rightarrow> string option" where
  "match_user_agent crawler ua = crawler (take max_ua_len ua)"

definition match_asn :: "int \<Rightarrow> string option" where
  "match_asn asn = (if asn \<in> set datacenter_asns then Some (''asn:'' @ format_int asn) else None)"

definition match_screen :: "int \<times> int \<Rightarrow> string option" where
  "match_screen dims = (if dims = (800, 600) then Some ''screen:800x600'' else None)"

definition datacenter_reason :: "headers \<Rightarrow> string option" where
  "datacenter_reason h =
     (if h ''X-Pug-ASN'' = [] then None
      else (case parse_uint 32 (h ''X-Pug-ASN'') of None \<Rightarrow> None | Some asn \<Rightarrow> match_asn asn))"

section \<open>The enrichers, on one event\<close>

definition prop_ip :: string where "prop_ip = ''$ip''"
definition prop_bot :: string where "prop_bot = ''$bot''"
definition prop_bot_reason :: string where "prop_bot_reason = ''$bot_reason''"
definition prop_bot_score :: string where "prop_bot_score = ''$bot_score''"
definition prop_verified_bot :: string where "prop_verified_bot = ''$verified_bot''"

text \<open>\<open>public\<close> and \<open>private\<close> say which kind of key the request carried.\<close>

definition enrich_geo :: "floats \<Rightarrow> (headers \<Rightarrow> string \<Rightarrow> string option) \<Rightarrow> bool \<Rightarrow> headers \<Rightarrow> props \<Rightarrow> props" where
  "enrich_geo fl locate private h m =
     (let m1 = m(prop_ip := None);
          loc = (locate h)(prop_ip := None)
      in if private then m1
         else (\<lambda>k. case loc k of None \<Rightarrow> m1 k | Some v \<Rightarrow> Some (property_value fl k v)))"

definition enrich_user_agent :: "floats \<Rightarrow> (headers \<Rightarrow> string \<Rightarrow> string option) \<Rightarrow> bool \<Rightarrow> headers \<Rightarrow> props \<Rightarrow> props" where
  "enrich_user_agent fl parse public h m =
     (if \<not> public then m
      else (\<lambda>k. case m k of Some v \<Rightarrow> Some v | None \<Rightarrow> map_option (property_value fl k) (parse h k)))"

text \<open>Why an event is automation: its request's agent or network, or its own screen; web events only.\<close>

definition bot_reason_for :: "floats \<Rightarrow> (string \<Rightarrow> string option) \<Rightarrow> headers \<Rightarrow> props \<Rightarrow> string option" where
  "bot_reason_for fl crawler h m =
     (let batch = (case match_user_agent crawler (h ''User-Agent'') of Some r \<Rightarrow> Some r | None \<Rightarrow> datacenter_reason h)
      in if auto_text fl m ''$platform'' \<noteq> ''web'' then None
         else (case batch of Some r \<Rightarrow> Some r | None \<Rightarrow> match_screen (screen_dims fl m)))"

definition enrich_bot :: "floats \<Rightarrow> (string \<Rightarrow> string option) \<Rightarrow> bool \<Rightarrow> headers \<Rightarrow> props \<Rightarrow> props" where
  "enrich_bot fl crawler public h m =
     (let m1 = m(prop_bot := None, prop_bot_reason := None)
      in if \<not> public then m1
         else (case bot_reason_for fl crawler h m1 of
                 None \<Rightarrow> m1
               | Some r \<Rightarrow> m1(prop_bot \<mapsto> BoolValue True, prop_bot_reason \<mapsto> StringValue r)))"

definition enrich_bot_score :: "headers \<Rightarrow> props \<Rightarrow> props" where
  "enrich_bot_score h m =
     (let m1 = m(prop_bot_score := None)
      in if h ''CF-Bot-Score'' = [] then m1
         else (case parse_uint 8 (h ''CF-Bot-Score'') of None \<Rightarrow> m1 | Some n \<Rightarrow> m1(prop_bot_score \<mapsto> IntValue n)))"

definition enrich_verified_bot :: "headers \<Rightarrow> props \<Rightarrow> props" where
  "enrich_verified_bot h m =
     (let m1 = m(prop_verified_bot := None); raw = h ''CF-Verified-Bot''
      in if raw \<noteq> ''true'' \<and> raw \<noteq> ''false'' then m1 else m1(prop_verified_bot \<mapsto> BoolValue (raw = ''true'')))"

text \<open>Every derived value that is not empty and not already there is written.\<close>

definition write_pair :: "floats \<Rightarrow> props \<Rightarrow> string \<times> string \<Rightarrow> props" where
  "write_pair fl m p = (if snd p = [] \<or> auto_text fl m (fst p) = snd p then m else m(fst p \<mapsto> StringValue (snd p)))"

definition enrich_attribution :: "floats \<Rightarrow> (nat \<Rightarrow> nat) \<Rightarrow> (string \<Rightarrow> url option) \<Rightarrow> props \<Rightarrow> props" where
  "enrich_attribution fl uni parse m =
     (let m1 = strip_server_only m;
          out = derive uni parse (input_from (auto_text fl m1) (screen_dims fl m1));
          m2 = (if value_text fl (m1 prop_locale) = None then m1 else m1(prop_locale := None))
      in foldl (write_pair fl) m2 (out_pairs out))"

section \<open>The chain\<close>

text \<open>The outside world an event is enriched from.\<close>

record enrich_env =
  ee_floats :: floats
  ee_uni :: "nat \<Rightarrow> nat"
  ee_url :: "string \<Rightarrow> url option"
  ee_locate :: "headers \<Rightarrow> string \<Rightarrow> string option"
  ee_ua :: "headers \<Rightarrow> string \<Rightarrow> string option"
  ee_crawler :: "string \<Rightarrow> string option"

definition enrich :: "enrich_env \<Rightarrow> bool \<Rightarrow> bool \<Rightarrow> headers \<Rightarrow> props \<Rightarrow> props" where
  "enrich env public private h m =
     (let fl = ee_floats env
      in enrich_attribution fl (ee_uni env) (ee_url env)
           (enrich_verified_bot h
             (enrich_bot_score h
               (enrich_bot fl (ee_crawler env) public h
                 (enrich_user_agent fl (ee_ua env) public h
                   (enrich_geo fl (ee_locate env) private h m))))))"

end
