(* ===== verification/Ingest.thy ===== *)
theory Ingest
  imports Request_Auth Cookieless Enrichment
begin

text \<open>
  The ingestion handler, \<open>internal/app/server/rpc/sdk/events/handler.go\<close>, with the address parsing
  of \<open>internal/geo\<close> and the publisher of \<open>internal/core/events\<close>: an SDK's batch is checked, its
  cookieless events get an identity or are dropped with a reason, the rest is enriched and
  handed to the stream under an identifier made of the event ids. The identity resolver is
  the interface of the code; \<open>redis_resolver\<close> is the one the server wires in.
\<close>

section \<open>Addresses\<close>

datatype ip_source = SourceCFConnectingIP | SourceTrueClientIP | SourceXForwardedFor | SourceRejected | SourceNone
  | SourcePeerNoHeader | SourcePeerAfterRejected | SourceNoneNoPeer | SourceRejectedNoPeer

text \<open>\<open>ip\<close> is \<open>net/netip\<close>'s parser followed by its canonical text, the zone dropped.\<close>

definition parse_client_ip :: "(string \<Rightarrow> string option) \<Rightarrow> string \<Rightarrow> string option" where
  "parse_client_ip ip raw = ip (trim_space raw)"

definition client_ip_with_source :: "(string \<Rightarrow> string option) \<Rightarrow> headers \<Rightarrow> string \<times> ip_source" where
  "client_ip_with_source ip h =
     (let cf = h ''CF-Connecting-IP''; tc = h ''True-Client-IP''; xff = h ''X-Forwarded-For'';
          try = (\<lambda>raw. if raw = [] then None else parse_client_ip ip raw);
          rejected = (if cf = [] \<and> tc = [] \<and> xff = [] then ([], SourceNone) else ([], SourceRejected))
      in case try cf of
           Some a \<Rightarrow> (a, SourceCFConnectingIP)
         | None \<Rightarrow>
             (case try tc of
                Some a \<Rightarrow> (a, SourceTrueClientIP)
              | None \<Rightarrow>
                  if xff = [] then rejected
                  else (case parse_client_ip ip (takeWhile (\<lambda>c. c \<noteq> CHR '','') xff) of
                          Some a \<Rightarrow> (a, SourceXForwardedFor)
                        | None \<Rightarrow> rejected)))"

text \<open>\<open>split\<close> is \<open>net.SplitHostPort\<close>'s host.\<close>

definition peer_ip :: "(string \<Rightarrow> string option) \<Rightarrow> (string \<Rightarrow> string option) \<Rightarrow> string \<Rightarrow> string" where
  "peer_ip ip split addr =
     (if addr = [] then []
      else (let raw = (case split addr of Some host \<Rightarrow> host | None \<Rightarrow> addr)
            in case parse_client_ip ip raw of None \<Rightarrow> [] | Some a \<Rightarrow> a))"

definition identity_source :: "(string \<Rightarrow> string option) \<Rightarrow> (string \<Rightarrow> string option) \<Rightarrow> headers \<Rightarrow> string \<Rightarrow> string \<times> ip_source" where
  "identity_source ip split h peer =
     (let (a, source) = client_ip_with_source ip h;
          rejected = (source = SourceRejected);
          p = peer_ip ip split peer
      in if a \<noteq> [] then (a, source)
         else if p \<noteq> [] then (p, if rejected then SourcePeerAfterRejected else SourcePeerNoHeader)
         else ([], if rejected then SourceRejectedNoPeer else SourceNoneNoPeer))"

section \<open>Events\<close>

record sdk_event =
  se_id :: string
  se_kind :: string
  se_distinct :: string
  se_session :: string
  se_cookieless :: bool
  se_occur :: time
  se_auto :: props
  se_custom :: props

datatype drop_reason = DropDayOutOfRange | DropSaltUnavailable | DropSaltCorrupt

text \<open>One entry per dropped event; the tally counts them.\<close>

definition drop_tally :: "drop_reason list \<Rightarrow> drop_reason \<Rightarrow> nat" where
  "drop_tally drops r = length (filter (\<lambda>x. x = r) drops)"

record batch_response =
  br_accepted :: nat
  br_dropped :: nat
  br_by_reason :: "drop_reason \<Rightarrow> nat"

definition batch_response_of :: "nat \<Rightarrow> drop_reason list \<Rightarrow> batch_response" where
  "batch_response_of accepted drops = \<lparr>br_accepted = accepted, br_dropped = length drops, br_by_reason = drop_tally drops\<rparr>"

section \<open>Cookieless identity\<close>

text \<open>The code's interface \<open>identityResolver\<close>, over the state \<open>'s\<close> its calls change.\<close>

record 's resolver =
  rv_day :: "time \<Rightarrow> string \<times> bool"
  rv_distinct :: "'s \<Rightarrow> string \<Rightarrow> string \<Rightarrow> string \<Rightarrow> string \<Rightarrow> 's \<times> (salt_error, string) result"
  rv_session :: "'s \<Rightarrow> string \<Rightarrow> string \<Rightarrow> string \<Rightarrow> time \<Rightarrow> 's \<times> string \<times> degrade_reason"

definition drop_for :: "salt_error \<Rightarrow> drop_reason" where
  "drop_for e = (if e = ErrCorruptSalt then DropSaltCorrupt else DropSaltUnavailable)"

type_synonym day_memo = "string \<Rightarrow> (salt_error, string) result option"

text \<open>One event: kept, with its identity when it is cookieless, or dropped.\<close>

definition resolve_event :: "'s resolver \<Rightarrow> string \<Rightarrow> string \<Rightarrow> string \<Rightarrow> 's \<times> day_memo \<Rightarrow> sdk_event
    \<Rightarrow> ('s \<times> day_memo) \<times> (drop_reason, sdk_event) result" where
  "resolve_event rv project addr ua sm e =
     (let (s, memo) = sm; (day, ok) = rv_day rv (se_occur e)
      in if \<not> se_cookieless e then (sm, Inr e)
         else if \<not> ok then (sm, Inl DropDayOutOfRange)
         else
           (let (s1, found) = (case memo day of Some r \<Rightarrow> (s, r) | None \<Rightarrow> rv_distinct rv s day project addr ua);
                memo1 = memo(day \<mapsto> found)
            in case found of
                 Inl err \<Rightarrow> ((s1, memo1), Inl (drop_for err))
               | Inr visitor \<Rightarrow>
                   (let (s2, sid, degraded) = rv_session rv s1 project visitor day (se_occur e)
                    in ((s2, memo1), Inr (e\<lparr>se_distinct := visitor, se_session := sid\<rparr>)))))"

primrec resolve_events :: "'s resolver \<Rightarrow> string \<Rightarrow> string \<Rightarrow> string \<Rightarrow> 's \<times> day_memo \<Rightarrow> sdk_event list
    \<Rightarrow> 's \<times> sdk_event list \<times> drop_reason list" where
  "resolve_events rv project addr ua sm [] = (fst sm, [], [])"
| "resolve_events rv project addr ua sm (e # es) =
     (let (sm1, r) = resolve_event rv project addr ua sm e;
          (s2, kept, drops) = resolve_events rv project addr ua sm1 es
      in case r of Inr e' \<Rightarrow> (s2, e' # kept, drops) | Inl d \<Rightarrow> (s2, kept, d # drops))"

datatype ingest_error = NoProject refusal | DuplicateEvent nat | ResolverMissing | IdentityUnavailable | BatchInFlight | PublishFailed

record net_env =
  ne_ip :: "string \<Rightarrow> string option"
  ne_split :: "string \<Rightarrow> string option"

definition resolve_cookieless :: "net_env \<Rightarrow> 's resolver option \<Rightarrow> string \<Rightarrow> headers \<Rightarrow> string \<Rightarrow> 's \<Rightarrow> sdk_event list
    \<Rightarrow> 's \<times> (ingest_error, sdk_event list \<times> drop_reason list) result" where
  "resolve_cookieless net rv project h peer s es =
     (if \<not> list_ex se_cookieless es then (s, Inr (es, []))
      else (case rv of
              None \<Rightarrow> (s, Inl ResolverMissing)
            | Some r \<Rightarrow>
                (let ua = h ''User-Agent''; addr = fst (identity_source (ne_ip net) (ne_split net) h peer)
                 in if ua = [] \<or> addr = [] then (s, Inl IdentityUnavailable)
                    else (let (s1, kept, drops) = resolve_events r project addr ua (s, \<lambda>_. None) es in (s1, Inr (kept, drops))))))"

section \<open>Publishing\<close>

text \<open>The index of the first event whose id came before.\<close>

fun duplicate_at :: "string set \<Rightarrow> nat \<Rightarrow> sdk_event list \<Rightarrow> nat option" where
  "duplicate_at seen i [] = None"
| "duplicate_at seen i (e # es) = (if se_id e \<in> seen then Some i else duplicate_at (insert (se_id e) seen) (Suc i) es)"

definition validate_external_events :: "sdk_event list \<Rightarrow> nat option" where
  "validate_external_events es = duplicate_at {} 0 es"

definition batch_text :: "string \<Rightarrow> sdk_event list \<Rightarrow> string" where
  "batch_text project es = project @ concat (map (\<lambda>e. CHR 0x00 # se_id e) es)"

definition batch_msg_id :: "(string \<Rightarrow> string) \<Rightarrow> string \<Rightarrow> sdk_event list \<Rightarrow> string" where
  "batch_msg_id hash project es = hash (batch_text project es)"

record stream_msg =
  sm_id :: string
  sm_project :: string
  sm_events :: "sdk_event list"

datatype send_result = Sent | SendInProcess | SendFailed

text \<open>\<open>valid\<close> is the schema check of the batch, \<open>send\<close> the stream; what was handed to it is returned.\<close>

definition publish :: "(string \<Rightarrow> string) \<Rightarrow> (string \<Rightarrow> sdk_event list \<Rightarrow> bool) \<Rightarrow> (stream_msg \<Rightarrow> send_result) \<Rightarrow> string \<Rightarrow> sdk_event list
    \<Rightarrow> (ingest_error, stream_msg) result" where
  "publish hash valid send project es =
     (if \<not> valid project es then Inl PublishFailed
      else (let msg = \<lparr>sm_id = batch_msg_id hash project es, sm_project = project, sm_events = es\<rparr>
            in case send msg of Sent \<Rightarrow> Inr msg | SendInProcess \<Rightarrow> Inl BatchInFlight | SendFailed \<Rightarrow> Inl PublishFailed))"

definition enrich_event :: "enrich_env \<Rightarrow> auth_type \<Rightarrow> headers \<Rightarrow> sdk_event \<Rightarrow> sdk_event" where
  "enrich_event env t h e = e\<lparr>se_auto := enrich env (t = AuthTypePublicKey) (t = AuthTypePrivateKey) h (se_auto e)\<rparr>"

record 's ingest_env =
  ie_net :: net_env
  ie_resolver :: "'s resolver option"
  ie_enrich :: enrich_env
  ie_hash :: "string \<Rightarrow> string"
  ie_valid :: "string \<Rightarrow> sdk_event list \<Rightarrow> bool"
  ie_send :: "stream_msg \<Rightarrow> send_result"

definition batch_create :: "'s ingest_env \<Rightarrow> request_principal option \<Rightarrow> headers \<Rightarrow> string \<Rightarrow> 's \<Rightarrow> sdk_event list
    \<Rightarrow> 's \<times> (ingest_error, batch_response \<times> stream_msg option) result" where
  "batch_create env ctx h peer s es =
     (case must_have_project ctx of
        Inl r \<Rightarrow> (s, Inl (NoProject r))
      | Inr p \<Rightarrow>
          if es = [] then (s, Inr (batch_response_of 0 [], None))
          else (case validate_external_events es of
                  Some i \<Rightarrow> (s, Inl (DuplicateEvent i))
                | None \<Rightarrow>
                    (let project = ap_id (the (rp_project p))
                     in case resolve_cookieless (ie_net env) (ie_resolver env) project h peer s es of
                          (s1, Inl e) \<Rightarrow> (s1, Inl e)
                        | (s1, Inr (kept, drops)) \<Rightarrow>
                            if kept = [] then (s1, Inr (batch_response_of 0 drops, None))
                            else (case publish (ie_hash env) (ie_valid env) (ie_send env) project
                                         (map (enrich_event (ie_enrich env) (rp_auth p) h) kept) of
                                    Inl e \<Rightarrow> (s1, Inl e)
                                  | Inr msg \<Rightarrow> (s1, Inr (batch_response_of (length kept) drops, Some msg))))))"

section \<open>The resolver over Redis\<close>

text \<open>
  What the resolver's calls change: this process's salts, the salt keys and session keys in
  Redis, and the random values drawn so far.
\<close>

record identity_state =
  is_salts :: salt_cache
  is_salt_keys :: "string \<Rightarrow> (string \<times> time) option"
  is_sessions :: "string \<Rightarrow> string option"
  is_drawn :: nat

record identity_env =
  ide_now :: time
  ide_salt_flt :: "salt_fault \<Rightarrow> bool"
  ide_session_flt :: "session_fault \<Rightarrow> bool"
  ide_enc :: "string \<Rightarrow> string"
  ide_dec :: "string \<Rightarrow> string option"
  ide_hmac :: "string \<Rightarrow> string \<Rightarrow> string"
  ide_b64url :: "string \<Rightarrow> string"
  ide_uuid5 :: "string \<Rightarrow> string"
  ide_salt :: "nat \<Rightarrow> string"
  ide_uuid :: "nat \<Rightarrow> string"

definition resolver_distinct :: "identity_env \<Rightarrow> identity_state \<Rightarrow> string \<Rightarrow> string \<Rightarrow> string \<Rightarrow> string
    \<Rightarrow> identity_state \<times> (salt_error, string) result" where
  "resolver_distinct env s day project addr ua =
     (case salt_for_day (ide_salt_flt env) (ide_enc env) (ide_dec env) (ide_now env) (ide_salt env (is_drawn s)) day
             (is_salts s) (is_salt_keys s day) of
        (r, cache, key) \<Rightarrow>
          (s\<lparr>is_salts := cache, is_salt_keys := (is_salt_keys s)(day := key), is_drawn := Suc (is_drawn s)\<rparr>,
           distinct_id (ide_hmac env) (ide_b64url env) r project addr ua))"

definition session_key :: "string \<Rightarrow> string \<Rightarrow> string" where
  "session_key project visitor = ''cookieless:sess:'' @ project @ CHR '':'' # visitor"

definition resolver_session :: "identity_env \<Rightarrow> identity_state \<Rightarrow> string \<Rightarrow> string \<Rightarrow> string \<Rightarrow> time
    \<Rightarrow> identity_state \<times> string \<times> degrade_reason" where
  "resolver_session env s project visitor day occur =
     (let key = session_key project visitor; cell = is_sessions s key
      in case session_id (ide_session_flt env) (ide_uuid5 env) (ide_uuid env (is_drawn s)) visitor day occur cell cell of
           ((sid, degraded), cell1) \<Rightarrow>
             (s\<lparr>is_sessions := (is_sessions s)(key := cell1), is_drawn := Suc (is_drawn s)\<rparr>, sid, degraded))"

definition redis_resolver :: "identity_env \<Rightarrow> identity_state resolver" where
  "redis_resolver env = \<lparr>rv_day = day_of (ide_now env), rv_distinct = resolver_distinct env, rv_session = resolver_session env\<rparr>"

end
