(* ===== verification/Salt_Laws.thy ===== *)
theory Salt_Laws
  imports Cookieless
begin

text \<open>
  The salts of \<open>internal/cookieless\<close> over time: many processes, each with its own cache, look up,
  mint and re-read a day's salt while the clock runs and Redis expires keys. A call's context
  ends \<open>limit\<close> after it began, as the deadline of the handler does.
\<close>

section \<open>The accepted window\<close>

lemma year_of_previous_day: "year_of_day (n - 1) = year_of_day n \<or> year_of_day (n - 1) = year_of_day n - 1"
proof (cases "days_before_year (year_of_day n) \<le> n - 1 + 719162")
  case True
  then show ?thesis using year_of_day_unique [of "year_of_day n" "n - 1"] year_of_day_bounds(2) [of n] by simp
next
  case False
  have "days_before_year (year_of_day n - 1) + 365 \<le> days_before_year (year_of_day n)"
    using days_before_year_add [of "year_of_day n - 1" 1] by simp
  then show ?thesis
    using year_of_day_unique [of "year_of_day n - 1" "n - 1"] year_of_day_bounds(1) [of n] False by simp
qed

lemma day_number_shift: "day_number (t + k * day_ns) = day_number t + k"
  by (simp add: day_number_def)

lemma yesterday_year: "plain_years now \<Longrightarrow> 0 \<le> time_year (now - day_ns) \<and> time_year (now - day_ns) \<le> 9999"
  using year_of_previous_day [of "day_number now"] day_number_shift [of now "- 1"]
  by (auto simp: plain_years_def time_year_def)

lemma accepted_days:
  assumes "plain_years now"
  shows "snd (day_of now occur) \<longleftrightarrow> day_number now - 1 \<le> day_number occur \<and> day_number occur \<le> day_number now"
proof -
  have "format_day now = format_day occur \<longleftrightarrow> day_number now = day_number occur"
    by (rule same_day) (use assms in \<open>simp_all add: plain_years_def\<close>)
  moreover have "format_day (now - day_ns) = format_day occur \<longleftrightarrow> day_number (now - day_ns) = day_number occur"
    by (rule same_day) (use yesterday_year [OF assms] in simp_all)
  moreover have "day_number (now - day_ns) = day_number now - 1" using day_number_shift [of now "- 1"] by simp
  ultimately have "snd (day_of now occur) \<longleftrightarrow> day_number now = day_number occur \<or> day_number now - 1 = day_number occur"
    by (simp add: day_of_def Let_def add_date_days eq_commute [of "format_day occur"])
  then show ?thesis by linarith
qed

definition day_end :: "string \<Rightarrow> time" where
  "day_end day = (case parse_day day of None \<Rightarrow> 0 | Some d \<Rightarrow> d + 2 * day_ns)"

lemma ttl_ends_day:
  assumes "salt_ttl_for now day = Inr ttl"
  shows "now + ttl = day_end day" "now < day_end day" "parse_day day \<noteq> None"
  using assms by (auto simp: salt_ttl_for_def day_end_def add_date_days time_sub_def salt_max_ttl_def hour_val Let_def
      max_def min_def split: option.splits if_splits)

lemma day_number_le: "n * day_ns \<le> now \<longleftrightarrow> n \<le> day_number now"
proof
  assume "n * day_ns \<le> now"
  then have "n * day_ns < (day_number now + 1) * day_ns" using day_number_bounds(2) [of now] by linarith
  then show "n \<le> day_number now" using mult_less_cancel_right [of n day_ns "day_number now + 1"] by simp
next
  assume "n \<le> day_number now"
  then show "n * day_ns \<le> now" using days_le [of n "day_number now"] day_number_bounds(1) [of now] by linarith
qed

lemma ttl_in_window:
  assumes "parse_day day = Some (n * day_ns)"
  shows "is_ok (salt_ttl_for now day) \<longleftrightarrow> day_number now - 1 \<le> n \<and> n \<le> day_number now"
proof -
  have "is_ok (salt_ttl_for now day) \<longleftrightarrow> \<not> (n + 2) * day_ns \<le> now \<and> n * day_ns \<le> now"
    using assms by (auto simp: salt_ttl_for_def add_date_days time_sub_def salt_max_ttl_def day_ns_def hour_val Let_def max_def min_def)
  then show ?thesis unfolding day_number_le by linarith
qed

section \<open>What one call finds\<close>

text \<open>Every salt an answer or a cache holds after a step was there before, or is the one answered.\<close>

definition cache_grows :: "salt_cache \<Rightarrow> salt_cache \<Rightarrow> string \<Rightarrow> string option \<Rightarrow> bool" where
  "cache_grows c0 c1 day got \<longleftrightarrow> (\<forall>d x. c1 d = Some x \<longrightarrow> c0 d = Some x \<or> d = day \<and> got = Some x)"

definition answer_of :: "(salt_error, string) result \<Rightarrow> string option" where
  "answer_of r = (case r of Inl e \<Rightarrow> None | Inr x \<Rightarrow> Some x)"

lemma cache_grows_refl [simp]: "cache_grows c c day got" by (simp add: cache_grows_def)

lemma store_salt_finds:
  "store_salt dec now day v c = (r, c1) \<Longrightarrow> cache_grows c c1 day (answer_of r) \<and> (r = Inr x \<longrightarrow> dec v = Some x)"
  by (auto simp: store_salt_def cache_salt_def cache_grows_def answer_of_def split: option.splits if_splits)

lemma salt_lookup_finds:
  assumes "salt_lookup flt dec now stored c day = (Inl r, c1)"
  shows "cache_grows c c1 day (answer_of r) \<and> (\<forall>x. r = Inr x \<longrightarrow> c day = Some x \<or> (\<exists>v. stored = Some v \<and> dec v = Some x))"
proof (cases "\<exists>v. is_ok (salt_ttl_for now day) \<and> c day = None \<and> \<not> flt ScGet \<and> stored = Some v")
  case True
  then obtain ttl v where v: "salt_ttl_for now day = Inr ttl" "c day = None" "\<not> flt ScGet" "stored = Some v" by (auto simp: is_ok_iff)
  then have "store_salt dec now day v c = (r, c1)" using assms by (simp add: salt_lookup_def split: prod.splits)
  then show ?thesis using store_salt_finds [of dec now day v c r c1] v(4) by simp
next
  case False
  show ?thesis
  proof (cases "salt_ttl_for now day")
    case (Inr ttl)
    with False assms show ?thesis by (cases "c day"; cases "flt ScGet"; cases stored) (auto simp: salt_lookup_def)
  qed (use assms in \<open>auto simp: salt_lookup_def\<close>)
qed

lemma salt_lookup_misses:
  "salt_lookup flt dec now stored c day = (Inr ttl, c1) \<Longrightarrow> c1 = c \<and> salt_ttl_for now day = Inr ttl"
  by (auto simp: salt_lookup_def split: sum.splits option.splits if_splits prod.splits)

lemma salt_reread_finds:
  assumes "salt_reread flt dec now stored c day = (r, c1)"
  shows "cache_grows c c1 day (answer_of r)" "r = Inr x \<Longrightarrow> \<exists>v. stored = Some v \<and> dec v = Some x"
  using assms store_salt_finds [of dec now day _ c r c1 x]
  by (auto simp: salt_reread_def split: option.splits if_splits)

lemma salt_mint_effect:
  assumes "salt_mint flt enc now key fresh ttl c day = ((r, c1), key1)"
  shows "key1 = key \<or> key = None \<and> key1 = Some (enc fresh, now + ttl)"
    "cache_grows c c1 day (case r of None \<Rightarrow> None | Some a \<Rightarrow> answer_of a)"
    "r = Some (Inr x) \<Longrightarrow> x = fresh \<and> key1 = Some (enc fresh, now + ttl)"
    "flt ScSet \<Longrightarrow> key1 = key"
  using assms by (auto simp: salt_mint_def cache_grows_def cache_salt_def answer_of_def split: option.splits if_splits)

section \<open>Processes and the clock\<close>

datatype salt_call = Missed nat string time duration | Raced nat string

record salt_state =
  sl_now :: time
  sl_keys :: "string \<Rightarrow> (string \<times> time) option"
  sl_caches :: "nat \<Rightarrow> salt_cache"
  sl_calls :: "salt_call list"
  sl_used :: "(string \<times> string \<times> time) list" \<comment> \<open>the salts answered, by day, with the instant\<close>

datatype salt_event =
    SmTick duration
  | SmBegin nat string "salt_fault \<Rightarrow> bool"
  | SmSet nat "salt_fault \<Rightarrow> bool" string
  | SmReread nat "salt_fault \<Rightarrow> bool"

definition answered :: "nat \<Rightarrow> string \<Rightarrow> (salt_error, string) result \<Rightarrow> salt_cache \<Rightarrow> salt_state \<Rightarrow> salt_state" where
  "answered pod day r c s =
     s\<lparr>sl_caches := (sl_caches s)(pod := c),
       sl_used := sl_used s @ (case r of Inl e \<Rightarrow> [] | Inr x \<Rightarrow> [(day, x, sl_now s)])\<rparr>"

definition drop_call :: "nat \<Rightarrow> salt_state \<Rightarrow> salt_state" where
  "drop_call i s = s\<lparr>sl_calls := take i (sl_calls s) @ drop (Suc i) (sl_calls s)\<rparr>"

definition salt_step :: "(string \<Rightarrow> string) \<Rightarrow> (string \<Rightarrow> string option) \<Rightarrow> duration \<Rightarrow> salt_state \<Rightarrow> salt_event \<Rightarrow> salt_state" where
  "salt_step enc dec limit s e =
     (case e of
        SmTick d \<Rightarrow> s\<lparr>sl_now := sl_now s + max 0 d\<rparr>
      | SmBegin pod day flt \<Rightarrow>
          (case salt_lookup flt dec (sl_now s) (map_option fst (live (sl_now s) (sl_keys s day))) (sl_caches s pod) day of
             (Inl r, c) \<Rightarrow> answered pod day r c s
           | (Inr ttl, c) \<Rightarrow> s\<lparr>sl_calls := sl_calls s @ [Missed pod day (sl_now s) ttl]\<rparr>)
      | SmSet i flt fresh \<Rightarrow>
          if length fresh \<noteq> salt_len \<or> length (sl_calls s) \<le> i then s
          else (case sl_calls s ! i of
                  Raced pod day \<Rightarrow> s
                | Missed pod day begun ttl \<Rightarrow>
                    (case salt_mint (\<lambda>f. flt f \<or> f = ScSet \<and> limit < sl_now s - begun) enc (sl_now s)
                            (live (sl_now s) (sl_keys s day)) fresh ttl (sl_caches s pod) day of
                       ((r, c), key) \<Rightarrow>
                         (let s1 = (drop_call i s)\<lparr>sl_keys := (sl_keys s)(day := key)\<rparr>
                          in case r of
                               Some a \<Rightarrow> answered pod day a c s1
                             | None \<Rightarrow> s1\<lparr>sl_calls := sl_calls s1 @ [Raced pod day]\<rparr>)))
      | SmReread i flt \<Rightarrow>
          if length (sl_calls s) \<le> i then s
          else (case sl_calls s ! i of
                  Missed pod day begun ttl \<Rightarrow> s
                | Raced pod day \<Rightarrow>
                    (case salt_reread flt dec (sl_now s) (map_option fst (live (sl_now s) (sl_keys s day))) (sl_caches s pod) day of
                       (r, c) \<Rightarrow> answered pod day r c (drop_call i s))))"

definition no_salts :: "time \<Rightarrow> salt_state" where
  "no_salts now = \<lparr>sl_now = now, sl_keys = (\<lambda>_. None), sl_caches = (\<lambda>_ _. None), sl_calls = [], sl_used = []\<rparr>"

section \<open>The invariant\<close>

definition keys_in_time :: "(string \<Rightarrow> string) \<Rightarrow> duration \<Rightarrow> salt_state \<Rightarrow> bool" where
  "keys_in_time enc limit s \<longleftrightarrow>
     (\<forall>d v e. sl_keys s d = Some (v, e) \<longrightarrow> day_end d \<le> e \<and> e \<le> day_end d + limit)"

definition calls_in_time :: "salt_state \<Rightarrow> bool" where
  "calls_in_time s \<longleftrightarrow> (\<forall>p d b ttl. Missed p d b ttl \<in> set (sl_calls s) \<longrightarrow> b + ttl = day_end d \<and> b \<le> sl_now s)"

text \<open>Until the day's salt may go, whatever a process holds for the day is what Redis holds.\<close>

definition salt_is :: "(string \<Rightarrow> string option) \<Rightarrow> salt_state \<Rightarrow> string \<Rightarrow> string \<Rightarrow> bool" where
  "salt_is dec s d x \<longleftrightarrow> (sl_now s < day_end d \<longrightarrow> (\<exists>v e. sl_keys s d = Some (v, e) \<and> dec v = Some x))"

definition salts_agree :: "(string \<Rightarrow> string option) \<Rightarrow> salt_state \<Rightarrow> bool" where
  "salts_agree dec s \<longleftrightarrow>
     (\<forall>p d x. sl_caches s p d = Some x \<longrightarrow> salt_is dec s d x)
   \<and> (\<forall>d x t. (d, x, t) \<in> set (sl_used s) \<longrightarrow> salt_is dec s d x)
   \<and> (\<forall>d x y t u. (d, x, t) \<in> set (sl_used s) \<and> (d, y, u) \<in> set (sl_used s) \<and> t < day_end d \<and> u < day_end d \<longrightarrow> x = y)"

definition salt_inv :: "(string \<Rightarrow> string) \<Rightarrow> (string \<Rightarrow> string option) \<Rightarrow> duration \<Rightarrow> salt_state \<Rightarrow> bool" where
  "salt_inv enc dec limit s \<longleftrightarrow>
     (\<forall>x. dec (enc x) = Some x) \<and> 0 \<le> limit \<and> keys_in_time enc limit s \<and> calls_in_time s \<and> salts_agree dec s"

lemma live_in_time:
  assumes "keys_in_time enc limit s" "sl_now s < day_end d"
  shows "live (sl_now s) (sl_keys s d) = sl_keys s d"
proof (cases "sl_keys s d")
  case (Some k)
  then have "day_end d \<le> snd k" using assms(1) by (cases k) (auto simp: keys_in_time_def)
  with Some assms(2) show ?thesis by (cases k) (simp add: live_def)
qed (simp add: live_def)

lemma live_some: "live now key = Some v \<Longrightarrow> key = Some v"
  by (auto simp: live_def split: option.splits if_splits)

lemma agree_answered:
  assumes "salts_agree dec s" "cache_grows (sl_caches s pod) c day (answer_of r)"
    and "\<And>x. r = Inr x \<Longrightarrow> salt_is dec s day x"
  shows "salts_agree dec (answered pod day r c s)"
proof -
  have keep: "salt_is dec (answered pod day r c s) d x = salt_is dec s d x" for d x
    by (simp add: salt_is_def answered_def)
  have same: "x = y" if "salt_is dec s d x" "salt_is dec s d y" "sl_now s < day_end d" for d x y
    using that by (auto simp: salt_is_def)
  have old: "salt_is dec s d x" if "sl_caches s p d = Some x" for p d x using assms(1) that unfolding salts_agree_def by blast
  have A: "salt_is dec s d x" if "sl_caches (answered pod day r c s) p d = Some x" for p d x
  proof (cases "p = pod")
    case True
    then have "sl_caches s pod d = Some x \<or> d = day \<and> r = Inr x"
      using that assms(2) by (cases r) (auto simp: cache_grows_def answer_of_def answered_def)
    then show ?thesis using old assms(3) by blast
  qed (use that old in \<open>simp add: answered_def\<close>)
  have used: "salt_is dec s d x" if "(d, x, t) \<in> set (sl_used s)" for d x t
    using assms(1) that unfolding salts_agree_def by blast
  have new: "(d, x, t) \<in> set (sl_used s) \<or> d = day \<and> r = Inr x \<and> t = sl_now s"
    if "(d, x, t) \<in> set (sl_used (answered pod day r c s))" for d x t
    using that by (cases r) (auto simp: answered_def)
  have B: "salt_is dec s d x" if "(d, x, t) \<in> set (sl_used (answered pod day r c s))" for d x t
    using new [OF that] used assms(3) by blast
  have C: "x = y" if "(d, x, t) \<in> set (sl_used (answered pod day r c s))" "(d, y, u) \<in> set (sl_used (answered pod day r c s))"
    "t < day_end d" "u < day_end d" for d x y t u
  proof (cases "(d, x, t) \<in> set (sl_used s) \<and> (d, y, u) \<in> set (sl_used s)")
    case True
    then show ?thesis using assms(1) that(3,4) unfolding salts_agree_def by blast
  next
    case False
    then have "sl_now s < day_end d" using new [OF that(1)] new [OF that(2)] that(3,4) by blast
    moreover have "salt_is dec s d x" "salt_is dec s d y" using new [OF that(1)] new [OF that(2)] used assms(3) by blast+
    ultimately show ?thesis using same by blast
  qed
  show ?thesis unfolding salts_agree_def keep using A B C by (intro conjI allI impI) blast+
qed

lemma agree_calls [simp]:
  "salts_agree dec (s\<lparr>sl_calls := cs\<rparr>) = salts_agree dec s" "salts_agree dec (drop_call i s) = salts_agree dec s"
  by (simp_all add: salts_agree_def salt_is_def drop_call_def)

lemma agree_tick: "salts_agree dec s \<Longrightarrow> salts_agree dec (s\<lparr>sl_now := sl_now s + max 0 d\<rparr>)"
proof -
  have "salt_is dec (s\<lparr>sl_now := sl_now s + max 0 d\<rparr>) k x" if "salt_is dec s k x" for k x using that by (auto simp: salt_is_def)
  then show "salts_agree dec s \<Longrightarrow> ?thesis" unfolding salts_agree_def by simp
qed

lemma agree_new_key:
  assumes "salts_agree dec s" "keys_in_time enc limit s" "key = sl_keys s d \<or> live (sl_now s) (sl_keys s d) = None"
  shows "salts_agree dec (s\<lparr>sl_keys := (sl_keys s)(d := key)\<rparr>)"
proof (cases "key = sl_keys s d")
  case True
  then have "(sl_keys s)(d := key) = sl_keys s" by simp
  with assms(1) show ?thesis by simp
next
  case False
  have "salt_is dec (s\<lparr>sl_keys := (sl_keys s)(d := key)\<rparr>) k x" if "salt_is dec s k x" for k x
    using that assms False live_in_time [OF assms(2), of d] by (cases "k = d") (auto simp: salt_is_def)
  with assms(1) show ?thesis unfolding salts_agree_def by simp
qed

lemma answered_fields [simp]:
  "sl_keys (answered pod day r c s) = sl_keys s" "sl_now (answered pod day r c s) = sl_now s" "sl_calls (answered pod day r c s) = sl_calls s"
  by (simp_all add: answered_def)

lemma calls_answered: "calls_in_time (answered pod day r c s) = calls_in_time s"
  by (simp add: calls_in_time_def)

lemma calls_dropped: "calls_in_time s \<Longrightarrow> calls_in_time (drop_call i s)"
  unfolding calls_in_time_def drop_call_def by (auto dest: in_set_takeD in_set_dropD)

lemma keys_same: "keys_in_time enc limit (answered pod day r c s) = keys_in_time enc limit s"
  "keys_in_time enc limit (drop_call i s) = keys_in_time enc limit s"
  by (simp_all add: keys_in_time_def drop_call_def)

lemma drop_call_fields [simp]:
  "sl_keys (drop_call i s) = sl_keys s" "sl_now (drop_call i s) = sl_now s" "sl_caches (drop_call i s) = sl_caches s"
  by (simp_all add: drop_call_def)

lemma salt_is_keys: "sl_keys s' = sl_keys s \<Longrightarrow> sl_now s' = sl_now s \<Longrightarrow> salt_is dec s' d x = salt_is dec s d x"
  by (simp add: salt_is_def)

lemma cache_is: "salt_inv enc dec limit s \<Longrightarrow> sl_caches s p d = Some x \<Longrightarrow> salt_is dec s d x"
  unfolding salt_inv_def salts_agree_def by blast

lemma live_is:
  assumes "map_option fst (live (sl_now s) (sl_keys s d)) = Some v" "dec v = Some x"
  shows "salt_is dec s d x"
proof -
  obtain e where "live (sl_now s) (sl_keys s d) = Some (v, e)" using assms(1) by auto
  from live_some [OF this] assms(2) show ?thesis by (auto simp: salt_is_def)
qed

lemma begin_inv:
  assumes "salt_inv enc dec limit s"
    and "salt_lookup flt dec (sl_now s) (map_option fst (live (sl_now s) (sl_keys s day))) (sl_caches s pod) day = (Inl r, c)"
  shows "salt_inv enc dec limit (answered pod day r c s)"
proof -
  note finds = salt_lookup_finds [OF assms(2)]
  have "salt_is dec s day x" if "r = Inr x" for x
    using finds that cache_is [OF assms(1), of pod day x] live_is [of s day _ dec x] by blast
  then have "salts_agree dec (answered pod day r c s)"
    using agree_answered assms(1) finds unfolding salt_inv_def by blast
  then show ?thesis using assms(1) by (simp add: salt_inv_def calls_answered keys_same)
qed

lemma reread_inv:
  assumes "salt_inv enc dec limit s"
    and "salt_reread flt dec (sl_now s) (map_option fst (live (sl_now s) (sl_keys s day))) (sl_caches s pod) day = (r, c)"
  shows "salt_inv enc dec limit (answered pod day r c (drop_call i s))"
proof -
  have "salt_is dec (drop_call i s) day x" if "r = Inr x" for x
    using salt_reread_finds(2) [OF assms(2) that] live_is [of s day _ dec x] salt_is_keys [of "drop_call i s" s] by auto
  then have "salts_agree dec (answered pod day r c (drop_call i s))"
    using agree_answered [of dec "drop_call i s" pod c day r] assms(1) salt_reread_finds(1) [OF assms(2)] by (simp add: salt_inv_def)
  then show ?thesis using assms(1) calls_dropped by (simp add: salt_inv_def calls_answered keys_same)
qed

lemma set_inv:
  assumes "salt_inv enc dec limit s" "i < length (sl_calls s)" "sl_calls s ! i = Missed pod day begun ttl"
    and mint: "salt_mint flt enc (sl_now s) (live (sl_now s) (sl_keys s day)) fresh ttl (sl_caches s pod) day = ((r, c), key)"
    and "limit < sl_now s - begun \<Longrightarrow> flt ScSet"
  defines "s1 \<equiv> (drop_call i s)\<lparr>sl_keys := (sl_keys s)(day := key)\<rparr>"
  shows "salt_inv enc dec limit s1"
    "r = Some a \<Longrightarrow> salt_inv enc dec limit (answered pod day a c s1)"
    "r = None \<Longrightarrow> salt_inv enc dec limit (s1\<lparr>sl_calls := sl_calls s1 @ [Raced pod day]\<rparr>)"
proof -
  note effect = salt_mint_effect [OF mint]
  have law: "dec (enc fresh) = Some fresh" and lim: "0 \<le> limit" using assms(1) by (simp_all add: salt_inv_def)
  have keys: "keys_in_time enc limit s" and calls: "calls_in_time s" and agree: "salts_agree dec s" using assms(1) by (simp_all add: salt_inv_def)
  have call: "begun + ttl = day_end day" "begun \<le> sl_now s"
    using calls nth_mem [OF assms(2)] unfolding assms(3) calls_in_time_def by blast+
  have keys1: "keys_in_time enc limit s1"
  proof -
    have "day_end day \<le> e \<and> e \<le> day_end day + limit" if "key = Some (v, e)" for v e
    proof (cases "key = live (sl_now s) (sl_keys s day)")
      case True
      with that live_some [of "sl_now s" "sl_keys s day" "(v, e)"] keys show ?thesis by (auto simp: keys_in_time_def)
    next
      case False
      then have "e = sl_now s + ttl" "\<not> flt ScSet" using effect(1,4) that by auto
      then show ?thesis using call assms(5) by fastforce
    qed
    with keys show ?thesis by (auto simp: keys_in_time_def s1_def)
  qed
  have "key = sl_keys s day \<or> live (sl_now s) (sl_keys s day) = None"
    using effect(1) by (cases "live (sl_now s) (sl_keys s day)") (auto dest: live_some)
  then have agree1: "salts_agree dec s1" using agree_new_key [of dec "drop_call i s" enc limit key day] agree keys by (simp add: s1_def keys_same)
  have calls1: "calls_in_time s1" using calls_dropped [OF calls, of i] by (simp add: calls_in_time_def s1_def)
  show "salt_inv enc dec limit s1" using assms(1) keys1 agree1 calls1 by (simp add: salt_inv_def)
  show "salt_inv enc dec limit (answered pod day a c s1)" if "r = Some a"
  proof -
    have "salt_is dec s1 day x" if "a = Inr x" for x
      using effect(3) [of x] \<open>r = Some a\<close> that law by (auto simp: salt_is_def s1_def)
    moreover have "cache_grows (sl_caches s1 pod) c day (answer_of a)" using effect(2) that by (simp add: s1_def)
    ultimately have "salts_agree dec (answered pod day a c s1)" using agree_answered agree1 by blast
    then show ?thesis using assms(1) keys1 calls1 by (simp add: salt_inv_def calls_answered keys_same)
  qed
  show "salt_inv enc dec limit (s1\<lparr>sl_calls := sl_calls s1 @ [Raced pod day]\<rparr>)"
    using assms(1) keys1 agree1 calls1 by (simp add: salt_inv_def keys_in_time_def calls_in_time_def)
qed

lemma salt_step_inv: "salt_inv enc dec limit s \<Longrightarrow> salt_inv enc dec limit (salt_step enc dec limit s e)"
proof (cases e)
  case (SmTick d)
  assume inv: "salt_inv enc dec limit s"
  then have "keys_in_time enc limit (s\<lparr>sl_now := sl_now s + max 0 d\<rparr>)" "calls_in_time (s\<lparr>sl_now := sl_now s + max 0 d\<rparr>)"
    unfolding salt_inv_def keys_in_time_def calls_in_time_def by fastforce+
  then show ?thesis using inv agree_tick [of dec s d] by (simp add: salt_step_def SmTick salt_inv_def)
next
  case (SmBegin pod day flt)
  assume inv: "salt_inv enc dec limit s"
  obtain a c where found: "salt_lookup flt dec (sl_now s) (map_option fst (live (sl_now s) (sl_keys s day))) (sl_caches s pod) day = (a, c)"
    by fastforce
  show ?thesis
  proof (cases a)
    case (Inl r)
    with found begin_inv [OF inv] show ?thesis by (simp add: salt_step_def SmBegin)
  next
    case (Inr ttl)
    then have "sl_now s + ttl = day_end day" using salt_lookup_misses found ttl_ends_day(1) by blast
    with inv Inr found show ?thesis by (auto simp: salt_step_def SmBegin salt_inv_def keys_in_time_def calls_in_time_def)
  qed
next
  case (SmSet i flt fresh)
  assume inv: "salt_inv enc dec limit s"
  show ?thesis
  proof (cases "length fresh \<noteq> salt_len \<or> length (sl_calls s) \<le> i")
    case False
    show ?thesis
    proof (cases "sl_calls s ! i")
      case (Missed pod day begun ttl)
      let ?flt = "\<lambda>f. flt f \<or> f = ScSet \<and> limit < sl_now s - begun"
      obtain r c key where mint: "salt_mint ?flt enc (sl_now s) (live (sl_now s) (sl_keys s day)) fresh ttl (sl_caches s pod) day = ((r, c), key)"
        by (metis prod.exhaust)
      have "i < length (sl_calls s)" using False by simp
      note kept = set_inv [OF inv this Missed mint]
      show ?thesis using kept(2,3) mint False by (cases r) (auto simp: salt_step_def SmSet Missed Let_def)
    qed (use inv False in \<open>simp add: salt_step_def SmSet\<close>)
  qed (use inv in \<open>simp add: salt_step_def SmSet\<close>)
next
  case (SmReread i flt)
  assume inv: "salt_inv enc dec limit s"
  show ?thesis
  proof (cases "length (sl_calls s) \<le> i")
    case False
    show ?thesis
    proof (cases "sl_calls s ! i")
      case (Raced pod day)
      then show ?thesis using reread_inv [OF inv] False by (auto simp: salt_step_def SmReread split: prod.splits)
    qed (use inv False in \<open>simp add: salt_step_def SmReread\<close>)
  qed (use inv in \<open>simp add: salt_step_def SmReread\<close>)
qed

interpretation salts: machine_inv "salt_step enc dec limit" "salt_inv enc dec limit" for enc dec limit
  by unfold_locales (rule salt_step_inv)

lemma no_salts_inv: "(\<And>x. dec (enc x) = Some x) \<Longrightarrow> 0 \<le> limit \<Longrightarrow> salt_inv enc dec limit (no_salts now)"
  by (simp add: salt_inv_def no_salts_def keys_in_time_def calls_in_time_def salts_agree_def)

end
