(* ===== verification/Cookieless_Claims.thy ===== *)
theory Cookieless_Claims
  imports Salt_Laws
begin

text \<open>
  What the cookieless identity promises: a salt lives exactly as long as its day is accepted and
  every process uses the same one, the identifier's input is unambiguous, and a visitor's events
  share a session whatever order they arrive in.
\<close>

section \<open>Sessions of one visitor\<close>

record visit =
  vs_flt :: "session_fault \<Rightarrow> bool"
  vs_fresh :: string
  vs_day :: string
  vs_occur :: time

text \<open>What a UUID's text never is, and instants between 1970 and 2116.\<close>

definition plain_id :: "string \<Rightarrow> bool" where
  "plain_id s \<longleftrightarrow> s \<noteq> [] \<and> CHR ''|'' \<notin> set s"

definition near_time :: "time \<Rightarrow> bool" where
  "near_time t \<longleftrightarrow> 0 \<le> t \<and> t < 2 ^ 62"

text \<open>Calls for one visitor one after the other; the key is not evicted in between.\<close>

definition visit_session :: "(string \<Rightarrow> string) \<Rightarrow> string \<Rightarrow> string option \<Rightarrow> visit \<Rightarrow> (string \<times> degrade_reason) \<times> string option" where
  "visit_session uuid5 visitor cell v =
     session_id (vs_flt v) uuid5 (vs_fresh v) visitor (vs_day v) (vs_occur v) cell cell"

definition session_step :: "(string \<Rightarrow> string) \<Rightarrow> string \<Rightarrow> string option \<Rightarrow> visit \<Rightarrow> string option" where
  "session_step uuid5 visitor cell v =
     (if plain_id (vs_fresh v) \<and> near_time (vs_occur v) then snd (visit_session uuid5 visitor cell v) else cell)"

primrec session_ids :: "(string \<Rightarrow> string) \<Rightarrow> string \<Rightarrow> string option \<Rightarrow> visit list \<Rightarrow> string list" where
  "session_ids uuid5 visitor cell [] = []"
| "session_ids uuid5 visitor cell (v # vs) =
     fst (fst (visit_session uuid5 visitor cell v)) # session_ids uuid5 visitor (snd (visit_session uuid5 visitor cell v)) vs"

lemma milli_floor: "unix_milli t * milli \<le> t" "t < unix_milli t * milli + milli" "m * milli \<le> t \<Longrightarrow> m * milli \<le> unix_milli t * milli"
proof -
  have "t = unix_milli t * milli + t mod milli" by (simp add: unix_milli_def)
  moreover have "0 \<le> t mod milli" "t mod milli < milli" by (simp_all add: milli_def)
  ultimately show "unix_milli t * milli \<le> t" and upper: "t < unix_milli t * milli + milli" by linarith+
  assume "m * milli \<le> t"
  with upper have "m * milli < (unix_milli t + 1) * milli" by (simp add: distrib_right)
  then have "m < unix_milli t + 1" by (simp add: milli_def)
  then show "m * milli \<le> unix_milli t * milli" by (simp add: milli_def)
qed

lemma near_milli: "near_time t \<Longrightarrow> near_time (unix_milli t * milli) \<and> 0 \<le> unix_milli t \<and> unix_milli t < 2 ^ 63"
proof -
  assume near: "near_time t"
  then have "0 \<le> unix_milli t" by (simp add: unix_milli_def near_time_def milli_def pos_imp_zdiv_nonneg_iff)
  moreover have "unix_milli t \<le> unix_milli t * milli" using calculation by (simp add: milli_def)
  moreover have "unix_milli t * milli \<le> t" by (rule milli_floor)
  ultimately show ?thesis using near by (auto simp: near_time_def milli_def)
qed

lemma cut_bar_join: "CHR ''|'' \<notin> set s \<Longrightarrow> cut_bar (s @ CHR ''|'' # r) = Some (s, r)"
proof -
  assume none: "CHR ''|'' \<notin> set s"
  have "takeWhile (\<lambda>c. c \<noteq> CHR ''|'') (s @ CHR ''|'' # r) = s" using none by (subst takeWhile_append2) auto
  moreover have "dropWhile (\<lambda>c. c \<noteq> CHR ''|'') (s @ CHR ''|'' # r) = CHR ''|'' # r" using none by (subst dropWhile_append2) auto
  ultimately show ?thesis by (simp add: cut_bar_def)
qed

lemma parse_formatted:
  assumes "plain_id sid" "near_time t"
  shows "parse_session (format_session sid t) = Some (sid, unix_milli t * milli)"
proof -
  have "parse_int 64 (format_int (unix_milli t)) = Some (unix_milli t)"
    by (rule parse_format_int) (use near_milli [OF assms(2)] in simp_all)
  then show ?thesis using assms(1) cut_bar_join [of sid] by (simp add: parse_session_def format_session_def plain_id_def)
qed

lemma parsed_parts: "parse_session v = Some (sid, t) \<Longrightarrow> plain_id sid \<and> (\<exists>n. t = n * milli)"
proof -
  assume parsed: "parse_session v = Some (sid, t)"
  then have "sid = takeWhile (\<lambda>c. c \<noteq> CHR ''|'') v" "sid \<noteq> []" "\<exists>n. t = n * milli"
    by (auto simp: parse_session_def cut_bar_def split: option.splits if_splits)
  then show ?thesis using set_takeWhileD [of "CHR ''|''" "\<lambda>c. c \<noteq> CHR ''|''" v] by (auto simp: plain_id_def)
qed

lemma within_near: "near_time a \<Longrightarrow> near_time b \<Longrightarrow> within_inactivity a b \<longleftrightarrow> \<bar>a - b\<bar> \<le> session_inactivity"
  by (auto simp: within_inactivity_def near_time_def time_sub_def Let_def session_inactivity_def minute_def second_def)

text \<open>The key holds a session, last active at \<open>t\<close>.\<close>

definition holds_session :: "string option \<Rightarrow> string \<Rightarrow> time \<Rightarrow> bool" where
  "holds_session cell sid t \<longleftrightarrow> (\<exists>v. cell = Some v \<and> parse_session v = Some (sid, t) \<and> near_time t)"

definition watermark :: "string option \<Rightarrow> time" where
  "watermark cell = (case cell of None \<Rightarrow> - 1 | Some v \<Rightarrow> (case parse_session v of None \<Rightarrow> - 1 | Some (sid, t) \<Rightarrow> t))"

lemma holds_formatted: "plain_id sid \<Longrightarrow> near_time t \<Longrightarrow> holds_session (Some (format_session sid t)) sid (unix_milli t * milli)"
  using parse_formatted near_milli by (auto simp: holds_session_def)

lemma holds_forward:
  assumes "holds_session cell sid t" "near_time occur" "t < occur" "plain_id sid'"
  shows "holds_session (Some (format_session sid' occur)) sid' (unix_milli occur * milli)" "t \<le> unix_milli occur * milli"
proof -
  show "holds_session (Some (format_session sid' occur)) sid' (unix_milli occur * milli)" by (rule holds_formatted [OF assms(4,2)])
  obtain v where "parse_session v = Some (sid, t)" using assms(1) by (auto simp: holds_session_def)
  from parsed_parts [OF this] obtain n where "t = n * milli" by blast
  then show "t \<le> unix_milli occur * milli" using milli_floor(3) [of n occur] assms(3) by simp
qed

text \<open>What a call does to a key that holds a session.\<close>

lemma session_id_held:
  assumes "holds_session cell sid t" "near_time occur"
  shows "session_id flt uuid5 fresh visitor day occur cell cell =
     (if flt SsGet then ((fallback_session_id uuid5 visitor day, DegradeGetFailed), cell)
      else if \<bar>occur - t\<bar> \<le> session_inactivity then
        (if t < occur then (if flt SsSlide then ((sid, DegradeSlideFailed), cell) else ((sid, DegradeNone), Some (format_session sid occur)))
         else ((sid, DegradeNone), cell))
      else if flt SsMint then ((fallback_session_id uuid5 visitor day, DegradeMintFailed), cell)
      else if occur \<le> t then ((stale_session_id uuid5 visitor day occur, DegradeNone), cell)
      else if flt SsWrite then ((fallback_session_id uuid5 visitor day, DegradeWriteFailed), cell)
      else ((fresh, DegradeNone), Some (format_session fresh occur)))"
proof -
  obtain v where v: "cell = Some v" "parse_session v = Some (sid, t)" "near_time t" using assms(1) by (auto simp: holds_session_def)
  note w = within_near [OF assms(2) v(3)]
  show ?thesis
  proof (cases "\<bar>occur - t\<bar> \<le> session_inactivity")
    case True
    then show ?thesis using v w by (auto simp: session_id_def slide_session_def)
  next
    case False
    then show ?thesis using v w by (auto simp: session_id_def mint_session_def corrupt_or_none_def Let_def)
  qed
qed

lemma session_step_holds:
  assumes "holds_session cell sid t"
  shows "\<exists>sid' t'. holds_session (session_step uuid5 visitor cell v) sid' t' \<and> t \<le> t'"
proof (cases "plain_id (vs_fresh v) \<and> near_time (vs_occur v)")
  case True
  have "plain_id sid" using assms parsed_parts by (auto simp: holds_session_def)
  let ?c = "session_step uuid5 visitor cell v"
  have "?c = cell \<or> t < vs_occur v \<and> (?c = Some (format_session sid (vs_occur v)) \<or> ?c = Some (format_session (vs_fresh v) (vs_occur v)))"
    using True session_id_held [OF assms conjunct2 [OF True]] by (auto simp: session_step_def visit_session_def)
  then show ?thesis
    using assms holds_forward [OF assms _ _ \<open>plain_id sid\<close>, of "vs_occur v"] holds_forward [OF assms _ _ conjunct1 [OF True], of "vs_occur v"] True
    by (elim disjE conjE) (metis order_refl)+
qed (use assms in \<open>auto simp: session_step_def\<close>)

definition session_live :: "string option \<Rightarrow> bool" where
  "session_live cell \<longleftrightarrow> (\<exists>sid t. holds_session cell sid t)"

lemma watermark_held: "holds_session cell sid t \<Longrightarrow> watermark cell = t"
  by (auto simp: holds_session_def watermark_def)

interpretation sessions: machine_mono "session_step uuid5 visitor" session_live watermark "(\<le>)" for uuid5 visitor
proof unfold_locales
  show "session_live s \<Longrightarrow> session_live (session_step uuid5 visitor s e)" for s e
    using session_step_holds unfolding session_live_def by blast
  show "session_live s \<Longrightarrow> watermark s \<le> watermark (session_step uuid5 visitor s e)" for s e
    using session_step_holds watermark_held unfolding session_live_def by metis
qed simp_all

section \<open>Properties\<close>

text \<open>
  The salt's window and its life are one fact: a salt may be looked up for the day an event
  fell on exactly when that day is accepted, today or yesterday, and what is minted then
  expires at midnight UTC two days after the day began.
\<close>

theorem salt_lives_while_accepted:
  assumes "plain_years now"
  shows "snd (day_of now occur) = is_ok (salt_ttl_for now (fst (day_of now occur)))
    \<and> (\<forall>ttl. salt_ttl_for now (fst (day_of now occur)) = Inr ttl \<longrightarrow> now + ttl = (day_number occur + 2) * day_ns)"
proof -
  let ?d = "format_day occur"
  have fst: "fst (day_of now occur) = ?d" by (simp add: day_of_def Let_def)
  have "snd (day_of now occur) = is_ok (salt_ttl_for now (fst (day_of now occur)))"
  proof (cases "parse_day ?d")
    case None
    then have "\<not> (0 \<le> time_year occur \<and> time_year occur \<le> 9999)" using parse_format_day [of occur] by auto
    moreover have "0 \<le> time_year now \<and> time_year now \<le> 9999" using assms by (simp add: plain_years_def)
    ultimately have "day_number occur \<noteq> day_number now" "day_number occur \<noteq> day_number (now - day_ns)"
      using yesterday_year [OF assms] by (auto simp: time_year_def)
    moreover have "day_number (now - day_ns) = day_number now - 1" using day_number_shift [of now "- 1"] by simp
    ultimately have "\<not> snd (day_of now occur)" unfolding accepted_days [OF assms] by linarith
    with None show ?thesis by (simp add: fst salt_ttl_for_def)
  next
    case (Some d)
    then show ?thesis
      using ttl_in_window [of ?d "day_number occur" now] parse_day_start [OF Some] by (auto simp: fst accepted_days [OF assms])
  qed
  moreover have "now + ttl = (day_number occur + 2) * day_ns" if ttl: "salt_ttl_for now (fst (day_of now occur)) = Inr ttl" for ttl
  proof -
    obtain d where d: "parse_day ?d = Some d" using ttl_ends_day(3) [OF ttl] by (auto simp: fst)
    show ?thesis using ttl_ends_day(1) [OF ttl] parse_day_start [OF d] d by (simp add: fst day_end_def distrib_right)
  qed
  ultimately show ?thesis by blast
qed

definition demo_noon :: time where "demo_noon = go_date 2026 7 20 + 12 * hour"

lemma demo_noon_day: "day_number demo_noon = day_number (go_date 2026 7 20)"
  unfolding demo_noon_def date_eval by (simp add: day_number_def date_eval)

lemma demo_noon_year: "time_year demo_noon = 2026" "time_month demo_noon = 7" "time_day demo_noon = 20"
  using date_reads [of 7 20 2026] unfolding time_year_def time_month_def time_day_def demo_noon_day by (simp_all add: month_len_def days_before_month_def leap_def)

lemma salt_lives_while_accepted_witness: "is_ok (salt_ttl_for demo_noon (fst (day_of demo_noon demo_noon)))"
proof -
  have "plain_years demo_noon" by (simp add: plain_years_def demo_noon_year)
  from salt_lives_while_accepted [OF this, of demo_noon] show ?thesis by (simp add: day_of_def Let_def)
qed

text \<open>
  C28. One salt per day. Any number of processes, each with its own cache, look up, mint and re-read
  salts while the clock runs, Redis expires keys and calls fail or lose their answers: two salts
  answered for one day before that day's salt may go are the same salt, so a visitor has one
  identifier that day whichever process hashed it.
\<close>

theorem one_salt_per_day:
  assumes "\<And>x. dec (enc x) = Some x" "0 \<le> limit"
    and "s = run_events (salt_step enc dec limit) (no_salts start) es"
    and "(d, x, t) \<in> set (sl_used s)" "(d, y, u) \<in> set (sl_used s)" "t < day_end d" "u < day_end d"
  shows "x = y"
proof -
  have "salt_inv enc dec limit s" unfolding assms(3) by (rule salts.run_inv) (rule no_salts_inv [where enc = enc and dec = dec, OF assms(1,2)])
  then show ?thesis using assms(4-7) unfolding salt_inv_def salts_agree_def by blast
qed

text \<open>
  A salt outlives its window by no more than one call: whatever Redis holds for a day expires
  not before midnight two days after it began, and no later than that plus the time one call may
  take, since the time to live is computed before the write.
\<close>

theorem salt_key_expires_with_day:
  assumes "\<And>x. dec (enc x) = Some x" "0 \<le> limit"
    and "sl_keys (run_events (salt_step enc dec limit) (no_salts start) es) d = Some (v, e)"
  shows "day_end d \<le> e \<and> e \<le> day_end d + limit"
proof -
  have "salt_inv enc dec limit (run_events (salt_step enc dec limit) (no_salts start) es)"
    by (rule salts.run_inv) (rule no_salts_inv [where enc = enc and dec = dec, OF assms(1,2)])
  then show ?thesis using assms(3) unfolding salt_inv_def keys_in_time_def by blast
qed

definition demo_day :: string where "demo_day = format_day demo_noon"

definition demo_salt :: "char \<Rightarrow> string" where "demo_salt c = replicate 32 c"

text \<open>Two processes miss the salt together: the first mints it, the second loses the race and reads it.\<close>

definition demo_salt_race :: "salt_event list" where
  "demo_salt_race = [SmBegin 0 demo_day (\<lambda>_. False), SmBegin 1 demo_day (\<lambda>_. False), SmTick second,
     SmSet 0 (\<lambda>_. False) (demo_salt CHR ''a''), SmSet 0 (\<lambda>_. False) (demo_salt CHR ''b''), SmReread 0 (\<lambda>_. False)]"

lemma demo_parse: "parse_day demo_day = Some (go_date 2026 7 20)"
proof -
  have "parse_day demo_day = Some (day_number demo_noon * day_ns)"
    unfolding demo_day_def by (rule parse_format_day) (simp_all add: demo_noon_year)
  then show ?thesis by (simp add: demo_noon_day go_date_def)
qed

lemma demo_ttl: "salt_ttl_for demo_noon demo_day = Inr (36 * hour)" "day_end demo_day = demo_noon + 36 * hour"
  by (simp_all add: salt_ttl_for_def day_end_def demo_parse add_date_days demo_noon_def time_sub_def salt_max_ttl_def Let_def day_ns_def hour_val)

lemma demo_salt_facts [simp]: "length (demo_salt c) = salt_len" by (simp add: demo_salt_def salt_len_def)

lemma demo_second: "0 < second" "\<not> 3 * second < second" by (simp_all add: second_def)

lemma demo_race_run:
  "sl_used (run_events (salt_step id Some (3 * second)) (no_salts demo_noon) demo_salt_race)
     = [(demo_day, demo_salt CHR ''a'', demo_noon + second), (demo_day, demo_salt CHR ''a'', demo_noon + second)]"
  "sl_keys (run_events (salt_step id Some (3 * second)) (no_salts demo_noon) demo_salt_race) demo_day
     = Some (demo_salt CHR ''a'', demo_noon + second + 36 * hour)"
  using demo_second
  by (simp_all add: demo_salt_race_def salt_step_def salt_lookup_def salt_mint_def salt_reread_def store_salt_def no_salts_def live_def demo_ttl
      answered_def drop_call_def Let_def hour_val)

lemma one_salt_per_day_witness:
  "let used = sl_used (run_events (salt_step id Some (3 * second)) (no_salts demo_noon) demo_salt_race)
   in fst (snd (used ! 0)) = fst (snd (used ! 1))"
proof -
  have end_of_day: "demo_noon + second < day_end demo_day" by (simp add: demo_ttl hour_val second_def)
  have "demo_salt CHR ''a'' = demo_salt CHR ''a''"
    by (rule one_salt_per_day [where enc = id and dec = Some and limit = "3 * second" and start = demo_noon and es = demo_salt_race, OF _ _ refl _ _ end_of_day end_of_day])
      (simp_all add: demo_race_run, simp add: second_def)
  then show ?thesis unfolding Let_def demo_race_run by simp
qed

lemma salt_key_expires_with_day_witness: "day_end demo_day \<le> demo_noon + second + 36 * hour"
  using salt_key_expires_with_day [where enc = id and dec = Some and limit = "3 * second", OF _ _ demo_race_run(2)] by (simp add: second_def)

fun close_together :: "time \<Rightarrow> time list \<Rightarrow> bool" where
  "close_together m [] = True"
| "close_together m (t # ts) = (\<bar>t - m\<bar> \<le> session_inactivity - milli \<and> close_together (max m t) ts)"

lemma held_within:
  assumes "holds_session cell sid (unix_milli m * milli)" "near_time t" "\<bar>t - m\<bar> \<le> session_inactivity - milli" "\<not> flt SsGet" "\<not> flt SsSlide"
  shows "fst (fst (session_id flt uuid5 fresh visitor day t cell cell)) = sid"
    "holds_session (snd (session_id flt uuid5 fresh visitor day t cell cell)) sid (unix_milli (max m t) * milli)"
proof -
  let ?w = "unix_milli m * milli"
  have "\<bar>t - ?w\<bar> \<le> session_inactivity" using assms(3) milli_floor(1,2) [of m] by linarith
  then have call: "session_id flt uuid5 fresh visitor day t cell cell = ((sid, DegradeNone), if ?w < t then Some (format_session sid t) else cell)"
    unfolding session_id_held [OF assms(1,2)] using assms(4,5) by auto
  then show "fst (fst (session_id flt uuid5 fresh visitor day t cell cell)) = sid" by simp
  have "plain_id sid" using assms(1) parsed_parts by (auto simp: holds_session_def)
  have e: "unix_milli (max m t) * milli = (if ?w < t then unix_milli t * milli else ?w)"
    using milli_floor [of m] milli_floor(1,3) [of t] by (smt (verit, best) milli_floor(3))
  then show "holds_session (snd (session_id flt uuid5 fresh visitor day t cell cell)) sid (unix_milli (max m t) * milli)"
    unfolding e call snd_conv using assms(1) holds_formatted [OF \<open>plain_id sid\<close> assms(2)]
    by (cases "?w < t") (simp_all only: if_True if_False)
qed

definition answers :: "(session_fault \<Rightarrow> bool) \<Rightarrow> bool" where
  "answers flt \<longleftrightarrow> \<not> flt SsGet \<and> \<not> flt SsMint \<and> \<not> flt SsWrite \<and> \<not> flt SsSlide"

lemma ids_of_held_session:
  "holds_session cell sid (unix_milli m * milli) \<Longrightarrow> list_all (\<lambda>v. near_time (vs_occur v) \<and> answers (vs_flt v)) vs
    \<Longrightarrow> close_together m (map vs_occur vs) \<Longrightarrow> session_ids uuid5 visitor cell vs = replicate (length vs) sid"
proof (induction vs arbitrary: cell m)
  case (Cons v vs)
  then have now: "near_time (vs_occur v)" "\<not> vs_flt v SsGet" "\<not> vs_flt v SsSlide" "\<bar>vs_occur v - m\<bar> \<le> session_inactivity - milli"
    and rest: "close_together (max m (vs_occur v)) (map vs_occur vs)" by (simp_all add: answers_def)
  note step = held_within [OF Cons.prems(1) now(1,4,2,3)]
  show ?case using step(1) Cons.IH [OF step(2) _ rest] Cons.prems(2) by (simp add: visit_session_def)
qed simp

text \<open>
  C29. A visit is one session. The events of one visitor arrive in any order and each lies within
  the inactivity time, less the millisecond the stored mark is rounded by, of the latest before it:
  from an absent key and with Redis answering, all of them get the session minted by the first.
\<close>

theorem visit_is_one_session:
  assumes "list_all (\<lambda>v. near_time (vs_occur v) \<and> answers (vs_flt v)) (v # vs)" "plain_id (vs_fresh v)"
    and "close_together (vs_occur v) (map vs_occur vs)"
  shows "session_ids uuid5 visitor None (v # vs) = replicate (Suc (length vs)) (vs_fresh v)"
proof -
  have "visit_session uuid5 visitor None v = ((vs_fresh v, DegradeNone), Some (format_session (vs_fresh v) (vs_occur v)))"
    using assms(1) by (simp add: visit_session_def session_id_def mint_session_def corrupt_or_none_def answers_def)
  moreover have "holds_session (Some (format_session (vs_fresh v) (vs_occur v))) (vs_fresh v) (unix_milli (vs_occur v) * milli)"
    using holds_formatted assms(1,2) by simp
  ultimately show ?thesis using ids_of_held_session [OF _ _ assms(3)] assms(1) by simp
qed

definition demo_visit :: "string \<Rightarrow> time \<Rightarrow> visit" where
  "demo_visit fresh t = \<lparr>vs_flt = (\<lambda>_. False), vs_fresh = fresh, vs_day = demo_day, vs_occur = t\<rparr>"

lemmas minute_eval = session_inactivity_def minute_def second_def milli_def

text \<open>Twenty minutes forward, fifteen back, and twenty-five past the latest.\<close>

lemma visit_is_one_session_witness:
  "session_ids id ''v'' None (map2 demo_visit [''a'', ''b'', ''c'', ''d''] [100 * minute, 120 * minute, 105 * minute, 145 * minute])
     = [''a'', ''a'', ''a'', ''a'']"
  using visit_is_one_session [of "demo_visit ''a'' (100 * minute)" "map2 demo_visit [''b'', ''c'', ''d''] [120 * minute, 105 * minute, 145 * minute]" id "''v''"]
  by (simp add: demo_visit_def near_time_def answers_def plain_id_def minute_eval del: session_ids.simps)

text \<open>
  A replay finds its session again. An event more than the inactivity time behind the stored
  mark is given an identifier that depends on the visitor, its day and its time only, and changes
  nothing; since no call moves the mark back, the same event resolves to the same identifier after
  any further events of the visitor, whatever of their calls to Redis failed.
\<close>

theorem late_event_replays:
  assumes "holds_session cell sid t" "near_time occur" "occur < t - session_inactivity" "\<not> flt SsGet" "\<not> flt SsMint"
  shows "let cell' = run_events (session_step uuid5 visitor) cell vs
         in session_id flt uuid5 fresh visitor day occur cell' cell' = ((stale_session_id uuid5 visitor day occur, DegradeNone), cell')"
proof -
  let ?c = "run_events (session_step uuid5 visitor) cell vs"
  have "session_live cell" using assms(1) by (auto simp: session_live_def)
  then have "session_live ?c" "watermark cell \<le> watermark ?c" by (rule sessions.run_inv, rule sessions.run_mono)
  then obtain sid' t' where held: "holds_session ?c sid' t'" "t \<le> t'"
    using watermark_held [OF assms(1)] watermark_held unfolding session_live_def by metis
  then have "session_inactivity < \<bar>occur - t'\<bar>" "occur \<le> t'" using assms(3) by (auto simp: minute_eval)
  then show ?thesis using session_id_held [OF held(1) assms(2)] assms(4,5) by simp
qed

lemma late_event_replays_witness:
  "let cell' = run_events (session_step id ''v'') (Some (format_session ''a'' (100 * minute))) [demo_visit ''b'' (120 * minute), demo_visit ''c'' (200 * minute)]
   in fst (session_id (\<lambda>_. False) id ''d'' ''v'' demo_day (60 * minute) cell' cell')
     = (stale_session_id id ''v'' demo_day (60 * minute), DegradeNone)"
proof -
  have "holds_session (Some (format_session ''a'' (100 * minute))) ''a'' (unix_milli (100 * minute) * milli)"
    by (rule holds_formatted) (simp_all add: plain_id_def near_time_def minute_eval)
  from late_event_replays [OF this, of "60 * minute" "\<lambda>_. False" id "''v''"
      "[demo_visit ''b'' (120 * minute), demo_visit ''c'' (200 * minute)]" "''d''" demo_day]
  show ?thesis by (simp add: Let_def near_time_def minute_eval unix_milli_def)
qed

end
