(* ===== verification/Ingest_Claims.thy ===== *)
theory Ingest_Claims
  imports Ingest Cookieless_Claims "HOL-Library.Sublist"
begin

text \<open>
  What the ingestion handler promises: the properties only the server may set do not depend on
  what the client sent under their names, the visitor's address is never published, every
  event of a batch is accounted for, and an identity is the client's or the server's, never
  a mixture.
\<close>

section \<open>Enrichment\<close>

definition server_only :: "string set" where
  "server_only = {prop_ip, prop_bot, prop_bot_reason, prop_bot_score, prop_verified_bot, prop_referrer_domain, prop_channel}"

lemmas server_keys = server_only_def prop_ip_def prop_bot_def prop_bot_reason_def prop_bot_score_def prop_verified_bot_def
  prop_referrer_domain_def prop_channel_def

definition agree_off :: "string set \<Rightarrow> props \<Rightarrow> props \<Rightarrow> bool" where
  "agree_off S m m' \<longleftrightarrow> (\<forall>k. k \<notin> S \<longrightarrow> m k = m' k)"

lemma agree_text: "agree_off S m m' \<Longrightarrow> k \<notin> S \<Longrightarrow> auto_text fl m k = auto_text fl m' k"
  by (simp add: agree_off_def auto_text_def)

lemma agree_dims: "agree_off S m m' \<Longrightarrow> ''$screenWidth'' \<notin> S \<Longrightarrow> ''$screenHeight'' \<notin> S \<Longrightarrow> screen_dims fl m = screen_dims fl m'"
  by (simp add: agree_off_def screen_dims_def auto_int_def)

lemma geo_agree: "agree_off S m m' \<Longrightarrow> agree_off (S - {prop_ip}) (enrich_geo fl locate private h m) (enrich_geo fl locate private h m')"
  by (auto simp: agree_off_def enrich_geo_def Let_def split: option.splits)

lemma user_agent_agree: "agree_off S m m' \<Longrightarrow> agree_off S (enrich_user_agent fl parse public h m) (enrich_user_agent fl parse public h m')"
  by (auto simp: agree_off_def enrich_user_agent_def)

lemma bot_agree:
  assumes "agree_off S m m'" "S \<subseteq> server_only"
  shows "agree_off (S - {prop_bot, prop_bot_reason}) (enrich_bot fl crawler public h m) (enrich_bot fl crawler public h m')"
proof -
  let ?m = "m(prop_bot := None, prop_bot_reason := None)" and ?m' = "m'(prop_bot := None, prop_bot_reason := None)"
  have agree: "agree_off (S - {prop_bot, prop_bot_reason}) ?m ?m'" using assms(1) by (auto simp: agree_off_def)
  have free: "''$platform'' \<notin> S - T" "''$screenWidth'' \<notin> S - T" "''$screenHeight'' \<notin> S - T" for T
    using assms(2) by (auto simp: server_keys)
  have "bot_reason_for fl crawler h ?m = bot_reason_for fl crawler h ?m'"
    unfolding bot_reason_for_def agree_text [OF agree free(1)] agree_dims [OF agree free(2,3)] ..
  moreover have "agree_off (S - {prop_bot, prop_bot_reason}) (?m(prop_bot \<mapsto> x, prop_bot_reason \<mapsto> y)) (?m'(prop_bot \<mapsto> x, prop_bot_reason \<mapsto> y))" for x y
    using agree unfolding agree_off_def by auto
  ultimately show ?thesis using agree by (simp add: enrich_bot_def Let_def split: option.splits)
qed

lemma score_agree: "agree_off S m m' \<Longrightarrow> agree_off (S - {prop_bot_score}) (enrich_bot_score h m) (enrich_bot_score h m')"
  by (auto simp: agree_off_def enrich_bot_score_def Let_def split: option.splits)

lemma verified_agree: "agree_off S m m' \<Longrightarrow> agree_off (S - {prop_verified_bot}) (enrich_verified_bot h m) (enrich_verified_bot h m')"
  by (auto simp: agree_off_def enrich_verified_bot_def Let_def)

lemma attribution_agree:
  assumes "agree_off {prop_referrer_domain, prop_channel} m m'"
  shows "enrich_attribution fl uni parse m = enrich_attribution fl uni parse m'"
proof -
  have "strip_server_only m = strip_server_only m'" using assms by (auto simp: agree_off_def strip_server_only_def)
  then show ?thesis by (simp add: enrich_attribution_def)
qed

lemma enrich_ignores_server_only:
  assumes "agree_off server_only m m'"
  shows "enrich env public private h m = enrich env public private h m'"
proof -
  let ?fl = "ee_floats env"
  have sub: "server_only - {prop_ip} \<subseteq> server_only" by blast
  have left: "server_only - {prop_ip} - {prop_bot, prop_bot_reason} - {prop_bot_score} - {prop_verified_bot} = {prop_referrer_domain, prop_channel}"
    by (auto simp: server_keys)
  note ua = user_agent_agree [OF geo_agree [OF assms, of ?fl "ee_locate env" "private" h], of ?fl "ee_ua env" public h]
  note rest = verified_agree [OF score_agree [OF bot_agree [OF ua sub, of ?fl "ee_crawler env" public h], of h], of h]
  show ?thesis unfolding enrich_def Let_def by (rule attribution_agree) (use rest left in simp)
qed

text \<open>Nothing after the first enricher brings the address back.\<close>

lemma written_elsewhere: "k \<notin> fst ` set ps \<Longrightarrow> foldl (write_pair fl) m ps k = m k"
  by (induction ps arbitrary: m) (simp_all add: write_pair_def)

lemma enrich_no_ip:
  assumes "ee_ua env h prop_ip = None"
  shows "enrich env public private h m prop_ip = None"
proof -
  have keys: "prop_ip \<notin> fst ` set (out_pairs out)" for out
    by (simp add: out_pairs_def server_keys prop_locale_def)
  have geo: "enrich_geo fl locate private h m prop_ip = None" for fl locate by (simp add: enrich_geo_def Let_def)
  have ua: "enrich_user_agent fl (ee_ua env) public h m' prop_ip = None" if "m' prop_ip = None" for fl m'
    using that assms by (simp add: enrich_user_agent_def)
  have bot: "enrich_bot fl crawler public h m' prop_ip = m' prop_ip" for fl crawler m'
    by (simp add: enrich_bot_def Let_def server_keys split: option.splits)
  have score: "enrich_bot_score h m' prop_ip = m' prop_ip" for m'
    by (simp add: enrich_bot_score_def Let_def server_keys split: option.splits)
  have verified: "enrich_verified_bot h m' prop_ip = m' prop_ip" for m'
    by (simp add: enrich_verified_bot_def Let_def server_keys)
  have attribution: "enrich_attribution fl uni parse m' prop_ip = m' prop_ip" for fl uni parse m'
    unfolding enrich_attribution_def Let_def by (subst written_elsewhere [OF keys]) (simp add: strip_server_only_def server_keys prop_locale_def)
  show ?thesis by (simp add: enrich_def Let_def geo ua bot score verified attribution)
qed

lemma parsed_agent_no_ip: "parse_user_agent ios uap h prop_ip = None"
  by (simp add: parse_user_agent_def properties_from_ua_def Let_def server_keys)

section \<open>Resolution\<close>

definition same_sent :: "sdk_event \<Rightarrow> sdk_event \<Rightarrow> bool" where
  "same_sent e e' \<longleftrightarrow> e' = e\<lparr>se_auto := se_auto e'\<rparr> \<and> agree_off server_only (se_auto e) (se_auto e')"

lemma same_sent_fields: "same_sent e e' \<Longrightarrow> se_id e' = se_id e \<and> se_cookieless e' = se_cookieless e \<and> se_occur e' = se_occur e"
  by (cases e; cases e') (simp add: same_sent_def)

lemma same_sent_identity: "same_sent e e' \<Longrightarrow> same_sent (e\<lparr>se_distinct := v, se_session := w\<rparr>) (e'\<lparr>se_distinct := v, se_session := w\<rparr>)"
  by (cases e; cases e') (simp add: same_sent_def)

lemma same_sent_enriched: "same_sent e e' \<Longrightarrow> enrich_event env t h e' = enrich_event env t h e"
  using enrich_ignores_server_only [of "se_auto e" "se_auto e'" env]
  by (cases e; cases e') (simp add: same_sent_def enrich_event_def)

definition same_result :: "(drop_reason, sdk_event) result \<Rightarrow> (drop_reason, sdk_event) result \<Rightarrow> bool" where
  "same_result r r' = (case r of Inl d \<Rightarrow> r' = Inl d | Inr e \<Rightarrow> (case r' of Inr e' \<Rightarrow> same_sent e e' | Inl d \<Rightarrow> False))"

lemma resolve_event_same:
  assumes "same_sent e e'"
  shows "fst (resolve_event rv project addr ua sm e') = fst (resolve_event rv project addr ua sm e)
    \<and> same_result (snd (resolve_event rv project addr ua sm e)) (snd (resolve_event rv project addr ua sm e'))"
  using assms same_sent_fields [OF assms] same_sent_identity [OF assms]
  by (auto simp: resolve_event_def same_result_def Let_def split: prod.splits option.splits sum.splits)

lemma resolve_events_same:
  "list_all2 same_sent es es' \<Longrightarrow>
     (case resolve_events rv project addr ua sm es of (s1, kept, drops) \<Rightarrow>
        (case resolve_events rv project addr ua sm es' of (s2, kept', drops') \<Rightarrow> s2 = s1 \<and> list_all2 same_sent kept kept' \<and> drops' = drops))"
proof (induction arbitrary: sm rule: list_all2_induct)
  case (Cons e es e' es')
  note one = resolve_event_same [OF Cons.hyps(1), of rv project addr ua sm]
  obtain sm1 r where r: "resolve_event rv project addr ua sm e = (sm1, r)" by fastforce
  with one obtain r' where r': "resolve_event rv project addr ua sm e' = (sm1, r')" "same_result r r'"
    by (cases "resolve_event rv project addr ua sm e'") auto
  show ?case using Cons.IH [of sm1] r r' by (auto simp: same_result_def Let_def split: prod.splits sum.splits)
qed simp

lemma same_sent_map: "list_all2 same_sent es es' \<Longrightarrow> map (enrich_event env t h) es' = map (enrich_event env t h) es"
  by (induction rule: list_all2_induct) (simp_all add: same_sent_enriched)

lemma same_sent_ids: "list_all2 same_sent es es' \<Longrightarrow> duplicate_at seen i es' = duplicate_at seen i es \<and> list_ex se_cookieless es' = list_ex se_cookieless es"
  by (induction arbitrary: seen i rule: list_all2_induct) (simp_all add: same_sent_fields)

lemma resolve_cookieless_same:
  assumes "list_all2 same_sent es es'"
  shows "fst (resolve_cookieless net rv project h peer s es') = fst (resolve_cookieless net rv project h peer s es)
    \<and> (case snd (resolve_cookieless net rv project h peer s es) of
         Inl e \<Rightarrow> snd (resolve_cookieless net rv project h peer s es') = Inl e
       | Inr (kept, drops) \<Rightarrow> \<exists>kept'. snd (resolve_cookieless net rv project h peer s es') = Inr (kept', drops) \<and> list_all2 same_sent kept kept')"
proof (cases "list_ex se_cookieless es")
  case True
  then have "list_ex se_cookieless es'" using same_sent_ids [OF assms] by blast
  show ?thesis
  proof (cases rv)
    case (Some r)
    note all = resolve_events_same [OF assms, of r project "fst (identity_source (ne_ip net) (ne_split net) h peer)" "h ''User-Agent''" "(s, \<lambda>_. None)"]
    with True Some \<open>list_ex se_cookieless es'\<close> show ?thesis by (auto simp: resolve_cookieless_def Let_def split: prod.splits)
  qed (use True \<open>list_ex se_cookieless es'\<close> in \<open>simp add: resolve_cookieless_def\<close>)
next
  case False
  then have "\<not> list_ex se_cookieless es'" using same_sent_ids [OF assms] by blast
  with False assms show ?thesis by (simp add: resolve_cookieless_def)
qed

section \<open>Properties\<close>

text \<open>
  C26. A client cannot set what only the server may. Two batches that differ in nothing but the
  values sent under the address, bot, bot score, verified bot, referrer domain and channel
  properties are answered alike and publish the same message, whatever the headers, the kind
  of key and the calls' outcomes.
\<close>

theorem server_only_values_are_ignored:
  assumes "list_all2 same_sent es es'"
  shows "batch_create env ctx h peer s es' = batch_create env ctx h peer s es"
proof (cases "must_have_project ctx")
  case (Inr p)
  let ?r = "\<lambda>es. resolve_cookieless (ie_net env) (ie_resolver env) (ap_id (the (rp_project p))) h peer s es"
  have empty: "es' = [] \<longleftrightarrow> es = []" using assms by (cases es; cases es') auto
  have ids: "validate_external_events es' = validate_external_events es"
    using same_sent_ids [OF assms] by (simp add: validate_external_events_def)
  obtain s1 out where out: "?r es = (s1, out)" by fastforce
  note same = resolve_cookieless_same [OF assms, of "ie_net env" "ie_resolver env" "ap_id (the (rp_project p))" h peer s]
  show ?thesis
  proof (cases out)
    case (Inl e)
    with same out have "?r es' = (s1, Inl e)" by (simp add: prod_eq_iff)
    with Inr Inl out empty ids show ?thesis by (simp add: batch_create_def Let_def split: option.splits)
  next
    case (Inr kd)
    obtain kept drops where kd: "kd = (kept, drops)" by fastforce
    with same out Inr obtain kept' where kept: "?r es' = (s1, Inr (kept', drops))" "list_all2 same_sent kept kept'"
      by (auto simp: prod_eq_iff)
    then have "kept' = [] \<longleftrightarrow> kept = []" "length kept' = length kept" by (auto dest: list_all2_lengthD)
    with Inr \<open>must_have_project ctx = Inr p\<close> kd out empty ids kept show ?thesis
      by (simp add: batch_create_def Let_def same_sent_map split: option.splits sum.splits)
  qed
qed (simp add: batch_create_def)

lemma resolve_event_id: "snd (resolve_event rv project addr ua sm e) = Inr e' \<Longrightarrow> se_id e' = se_id e"
  by (auto simp: resolve_event_def Let_def split: prod.splits option.splits sum.splits if_splits)

lemma resolve_events_count:
  "resolve_events rv project addr ua sm es = (s1, kept, drops) \<Longrightarrow>
     length kept + length drops = length es \<and> subseq (map se_id kept) (map se_id es)"
proof (induction es arbitrary: sm s1 kept drops)
  case (Cons e es)
  obtain sm1 r where r: "resolve_event rv project addr ua sm e = (sm1, r)" by fastforce
  obtain s2 kept2 drops2 where rest: "resolve_events rv project addr ua sm1 es = (s2, kept2, drops2)" by (metis prod.exhaust)
  note ih = Cons.IH [OF rest]
  show ?case
  proof (cases r)
    case (Inl d)
    with Cons.prems r rest ih show ?thesis by (auto simp: Let_def)
  next
    case (Inr e')
    then have "se_id e' = se_id e" using resolve_event_id r by (metis snd_conv)
    with Cons.prems r rest ih Inr show ?thesis by (auto simp: Let_def)
  qed
qed simp

lemma resolve_cookieless_count:
  assumes "resolve_cookieless net rv project h peer s es = (s1, Inr (kept, drops))"
  shows "length kept + length drops = length es \<and> subseq (map se_id kept) (map se_id es)"
  using assms by (auto simp: resolve_cookieless_def Let_def dest: resolve_events_count split: if_splits option.splits prod.splits)

lemma tally_total: "drop_tally drops DropDayOutOfRange + drop_tally drops DropSaltUnavailable + drop_tally drops DropSaltCorrupt = length drops"
proof (induction drops)
  case (Cons d drops)
  then show ?case by (cases d) (simp_all add: drop_tally_def)
qed (simp add: drop_tally_def)

text \<open>
  C30. Every event sent is accounted for. A batch that is answered reports as many events accepted
  as were published and as many dropped as were not, the reasons add up to the drops, and the
  published events are the others in their order, under the project of the key.
\<close>

theorem every_event_accounted:
  assumes "batch_create env (Some p) h peer s es = (s1, Inr (resp, sent))" "rp_project p = Some x"
  shows "br_accepted resp + br_dropped resp = length es
    \<and> br_by_reason resp DropDayOutOfRange + br_by_reason resp DropSaltUnavailable + br_by_reason resp DropSaltCorrupt = br_dropped resp
    \<and> (case sent of None \<Rightarrow> br_accepted resp = 0
        | Some msg \<Rightarrow> br_accepted resp = length (sm_events msg) \<and> sm_project msg = ap_id x
            \<and> subseq (map se_id (sm_events msg)) (map se_id es))"
proof (cases "es = []")
  case True
  then show ?thesis using assms by (auto simp: batch_create_def must_have_project_def batch_response_of_def drop_tally_def)
next
  case False
  obtain kept drops where kept: "resolve_cookieless (ie_net env) (ie_resolver env) (ap_id x) h peer s es = (s1, Inr (kept, drops))"
    "resp = batch_response_of (length kept) drops"
    "if kept = [] then sent = None else \<exists>msg. sent = Some msg \<and> publish (ie_hash env) (ie_valid env) (ie_send env) (ap_id x)
       (map (enrich_event (ie_enrich env) (rp_auth p) h) kept) = Inr msg"
    using assms False by (auto simp: batch_create_def must_have_project_def Let_def split: option.splits prod.splits sum.splits if_splits)
  note count = resolve_cookieless_count [OF kept(1)]
  show ?thesis
  proof (cases "kept = []")
    case True
    then show ?thesis using kept count tally_total [of drops] by (simp add: batch_response_of_def)
  next
    case False
    then obtain msg where msg: "sent = Some msg" "sm_events msg = map (enrich_event (ie_enrich env) (rp_auth p) h) kept" "sm_project msg = ap_id x"
      using kept(3) by (auto simp: publish_def Let_def split: if_splits send_result.splits)
    have ids: "map se_id (sm_events msg) = map se_id kept" by (simp add: msg(2) enrich_event_def)
    have "length (sm_events msg) = length kept" by (simp add: msg(2))
    then show ?thesis using kept(2) count tally_total [of drops] msg(1,3) ids by (simp add: batch_response_of_def)
  qed
qed

text \<open>
  The visitor's address is not published. Whatever an SDK or the location service put under
  the address property, no published event carries it.
\<close>

theorem address_is_never_published:
  assumes "batch_create env ctx h peer s es = (s1, Inr (resp, Some msg))" "ee_ua (ie_enrich env) = parse_user_agent ios uap" "e \<in> set (sm_events msg)"
  shows "se_auto e prop_ip = None"
proof -
  obtain p :: request_principal and kept where "publish (ie_hash env) (ie_valid env) (ie_send env) (ap_id (the (rp_project p)))
      (map (enrich_event (ie_enrich env) (rp_auth p) h) kept) = Inr msg"
    using assms(1) by (auto simp: batch_create_def Let_def split: option.splits prod.splits sum.splits if_splits)
  then have "sm_events msg = map (enrich_event (ie_enrich env) (rp_auth p) h) kept"
    by (auto simp: publish_def Let_def split: if_splits send_result.splits)
  with assms(3) obtain e0 where "e = enrich_event (ie_enrich env) (rp_auth p) h e0" by auto
  then show ?thesis using enrich_no_ip [of "ie_enrich env" h] parsed_agent_no_ip assms(2) by (auto simp: enrich_event_def)
qed

definition plain_bytes :: "string \<Rightarrow> bool" where
  "plain_bytes s \<longleftrightarrow> CHR 0x00 \<notin> set s"

lemma joined_ids_inj:
  "x @ concat (map (\<lambda>i. CHR 0x00 # i) ks) = y @ concat (map (\<lambda>i. CHR 0x00 # i) js) \<Longrightarrow> plain_bytes x \<Longrightarrow> plain_bytes y
    \<Longrightarrow> list_all plain_bytes ks \<Longrightarrow> list_all plain_bytes js \<Longrightarrow> x = y \<and> ks = js"
proof (induction ks arbitrary: js x y)
  case Nil
  then show ?case by (cases js) (auto simp: plain_bytes_def)
next
  case (Cons i ks)
  show ?case
  proof (cases js)
    case Nil
    with Cons.prems show ?thesis by (auto simp: plain_bytes_def)
  next
    case (Cons j js')
    have "x @ CHR 0x00 # (i @ concat (map (\<lambda>i. CHR 0x00 # i) ks)) = y @ CHR 0x00 # (j @ concat (map (\<lambda>i. CHR 0x00 # i) js'))"
      using Cons.prems(1) Cons by simp
    from split_at_sep [OF this] have "x = y" "i @ concat (map (\<lambda>i. CHR 0x00 # i) ks) = j @ concat (map (\<lambda>i. CHR 0x00 # i) js')"
      using Cons.prems(2,3) by (simp_all add: plain_bytes_def)
    with Cons.IH [of i j js'] Cons.prems(4,5) Cons show ?thesis by simp
  qed
qed

text \<open>
  A batch sent again is the message sent before. The stream drops a second message of the same
  identifier; with a hash that does not collide, two batches have one identifier exactly when
  they are of one project and name the same events in the same order.
\<close>

theorem resent_batch_is_same_message:
  assumes "inj hash" "plain_bytes project" "plain_bytes project'" "list_all (\<lambda>e. plain_bytes (se_id e)) es" "list_all (\<lambda>e. plain_bytes (se_id e)) es'"
  shows "batch_msg_id hash project es = batch_msg_id hash project' es' \<longleftrightarrow> project = project' \<and> map se_id es = map se_id es'"
proof -
  have joined: "batch_text q fs = q @ concat (map (\<lambda>i. CHR 0x00 # i) (map se_id fs))" for q fs by (simp add: batch_text_def o_def)
  have "project = project' \<and> map se_id es = map se_id es'" if "batch_text project es = batch_text project' es'"
    using joined_ids_inj [of project "map se_id es" project' "map se_id es'"] that assms(2-5) by (simp add: joined list.pred_map o_def)
  moreover have "batch_text project es = batch_text project es'" if "map se_id es = map se_id es'" "project = project'"
    by (simp only: joined that)
  ultimately show ?thesis using assms(1) unfolding batch_msg_id_def inj_eq [OF assms(1)] by blast
qed

section \<open>Who an event is from\<close>

text \<open>What resolution makes of an event: the event itself, or a cookieless one with the identity found for its day.\<close>

definition resolved_from :: "'s resolver \<Rightarrow> day_memo \<Rightarrow> sdk_event \<Rightarrow> sdk_event \<Rightarrow> bool" where
  "resolved_from rv memo e0 e \<longleftrightarrow>
     (if se_cookieless e0
      then (\<exists>v w. e = e0\<lparr>se_distinct := v, se_session := w\<rparr> \<and> memo (fst (rv_day rv (se_occur e0))) = Some (Inr v))
      else e = e0)"

lemma resolve_event_from:
  assumes "resolve_event rv project addr ua (s, memo) e0 = ((s1, memo1), r)"
  shows "(memo1 = memo \<or> (\<exists>d. memo d = None \<and> memo1 = memo(d \<mapsto> snd (rv_distinct rv s d project addr ua))))
    \<and> (\<forall>e. r = Inr e \<longrightarrow> resolved_from rv memo1 e0 e)"
proof -
  obtain day ok where day: "rv_day rv (se_occur e0) = (day, ok)" by fastforce
  show ?thesis
  proof (cases "se_cookieless e0 \<and> ok")
    case False
    then show ?thesis using assms day by (auto simp: resolve_event_def resolved_from_def split: if_splits)
  next
    case True
    obtain s2 found where found: "(case memo day of Some r \<Rightarrow> (s, r) | None \<Rightarrow> rv_distinct rv s day project addr ua) = (s2, found)" by fastforce
    have memo1: "memo1 = memo(day \<mapsto> found)"
      using assms True day found by (auto simp: resolve_event_def Let_def split: sum.splits prod.splits)
    have "memo1 = memo \<or> memo day = None \<and> found = snd (rv_distinct rv s day project addr ua)"
      using found memo1 by (cases "memo day") (auto simp: fun_upd_idem)
    moreover have "resolved_from rv memo1 e0 e" if "r = Inr e" for e
      using assms True day found that memo1 by (auto simp: resolve_event_def resolved_from_def Let_def split: sum.splits prod.splits)
    ultimately show ?thesis using memo1 by blast
  qed
qed

definition memo_of :: "'s resolver \<Rightarrow> string \<Rightarrow> string \<Rightarrow> string \<Rightarrow> day_memo \<Rightarrow> bool" where
  "memo_of rv project addr ua memo \<longleftrightarrow> (\<forall>d r. memo d = Some r \<longrightarrow> (\<exists>s. r = snd (rv_distinct rv s d project addr ua)))"

lemma resolved_later: "resolved_from rv memo e0 e \<Longrightarrow> memo \<subseteq>\<^sub>m memo1 \<Longrightarrow> resolved_from rv memo1 e0 e"
proof -
  assume "resolved_from rv memo e0 e" "memo \<subseteq>\<^sub>m memo1"
  moreover have "memo1 d = Some x" if "memo d = Some x" "memo \<subseteq>\<^sub>m memo1" for d x using that by (auto simp: map_le_def dom_def)
  ultimately show ?thesis unfolding resolved_from_def by (cases "se_cookieless e0") (simp_all, blast)
qed

lemma resolve_events_from:
  assumes "resolve_events rv project addr ua (s, memo) es = (s1, kept, drops)" "memo_of rv project addr ua memo"
  obtains memo1 where "memo \<subseteq>\<^sub>m memo1" "memo_of rv project addr ua memo1"
    "\<And>e. e \<in> set kept \<Longrightarrow> \<exists>e0\<in>set es. resolved_from rv memo1 e0 e"
proof -
  have "\<exists>memo1. memo \<subseteq>\<^sub>m memo1 \<and> memo_of rv project addr ua memo1 \<and> (\<forall>e\<in>set kept. \<exists>e0\<in>set es. resolved_from rv memo1 e0 e)"
    using assms
  proof (induction es arbitrary: s memo s1 kept drops)
    case (Cons e0 es)
    obtain s2 memo2 r where one: "resolve_event rv project addr ua (s, memo) e0 = ((s2, memo2), r)" by (metis prod.exhaust)
    obtain s3 kept3 drops3 where rest: "resolve_events rv project addr ua (s2, memo2) es = (s3, kept3, drops3)" by (metis prod.exhaust)
    note made = resolve_event_from [OF one]
    have grown: "memo \<subseteq>\<^sub>m memo2" "memo_of rv project addr ua memo2"
      using made Cons.prems(2) by (auto simp: map_le_def memo_of_def split: if_splits)
    from Cons.IH [OF rest grown(2)] obtain memo1 where rest_ok: "memo2 \<subseteq>\<^sub>m memo1" "memo_of rv project addr ua memo1"
      "\<forall>e\<in>set kept3. \<exists>e0\<in>set es. resolved_from rv memo1 e0 e" by blast
    have kept: "kept = (case r of Inl d \<Rightarrow> kept3 | Inr e \<Rightarrow> e # kept3)"
      using Cons.prems(1) one rest by (auto simp: Let_def split: sum.splits)
    have first: "resolved_from rv memo1 e0 e" if "r = Inr e" for e using made that resolved_later rest_ok(1) by blast
    have "\<exists>e0'\<in>set (e0 # es). resolved_from rv memo1 e0' e" if "e \<in> set kept" for e
      using that kept first rest_ok(3) by (cases r) auto
    then show ?case using map_le_trans [OF grown(1) rest_ok(1)] rest_ok(2) by blast
  qed (auto intro: map_le_refl)
  then show thesis using that by blast
qed

lemma same_day_same_visitor:
  "resolved_from rv memo a0 a \<Longrightarrow> resolved_from rv memo b0 b \<Longrightarrow> se_cookieless a0 \<Longrightarrow> se_cookieless b0
     \<Longrightarrow> fst (rv_day rv (se_occur a0)) = fst (rv_day rv (se_occur b0)) \<Longrightarrow> se_distinct a = se_distinct b"
  by (auto simp: resolved_from_def)

lemma resolved_fields:
  "resolved_from rv memo e0 e \<Longrightarrow> se_id e = se_id e0 \<and> se_cookieless e = se_cookieless e0 \<and> se_occur e = se_occur e0
     \<and> (\<not> se_cookieless e0 \<longrightarrow> se_distinct e = se_distinct e0 \<and> se_session e = se_session e0)"
  by (auto simp: resolved_from_def split: if_splits)

lemma redis_visitor: "snd (rv_distinct (redis_resolver ienv) s d project addr ua) = Inr v \<Longrightarrow> starts_with v id_prefix"
proof -
  assume "snd (rv_distinct (redis_resolver ienv) s d project addr ua) = Inr v"
  then obtain x where "v = id_prefix @ x"
    by (auto simp: redis_resolver_def resolver_distinct_def distinct_id_def split: prod.splits sum.splits)
  then show "starts_with v id_prefix" by (simp add: starts_with_def)
qed

text \<open>
  C27. An identity is the client's or the server's. Each published event is one that was sent: with the
  identity the client gave, or, if it is cookieless, under an identifier in the server's
  namespace, the same one for all cookieless events of the batch on one day.
\<close>

theorem published_identity:
  assumes "batch_create env ctx h peer s es = (s1, Inr (resp, Some msg))" "ie_resolver env = Some (redis_resolver ienv)"
    and "a \<in> set (sm_events msg)" "b \<in> set (sm_events msg)"
  shows "(\<exists>a0\<in>set es. se_id a = se_id a0 \<and> se_cookieless a = se_cookieless a0
      \<and> (if se_cookieless a0 then starts_with (se_distinct a) id_prefix else se_distinct a = se_distinct a0 \<and> se_session a = se_session a0))
    \<and> (se_cookieless a \<and> se_cookieless b \<and> format_day (se_occur a) = format_day (se_occur b) \<longrightarrow> se_distinct a = se_distinct b)"
proof -
  let ?rv = "redis_resolver ienv"
  obtain p :: request_principal and kept drops where p: "must_have_project ctx = Inr p"
    "resolve_cookieless (ie_net env) (ie_resolver env) (ap_id (the (rp_project p))) h peer s es = (s1, Inr (kept, drops))"
    "publish (ie_hash env) (ie_valid env) (ie_send env) (ap_id (the (rp_project p)))
      (map (enrich_event (ie_enrich env) (rp_auth p) h) kept) = Inr msg"
    using assms(1) by (auto simp: batch_create_def Let_def split: option.splits prod.splits sum.splits if_splits)
  then have events: "sm_events msg = map (enrich_event (ie_enrich env) (rp_auth p) h) kept"
    by (auto simp: publish_def Let_def split: if_splits send_result.splits)
  let ?project = "ap_id (the (rp_project p))" and ?ua = "h ''User-Agent''" and ?addr = "fst (identity_source (ne_ip (ie_net env)) (ne_split (ie_net env)) h peer)"
  obtain memo1 where memo1: "memo_of ?rv ?project ?addr ?ua memo1" "\<And>e. e \<in> set kept \<Longrightarrow> \<exists>e0\<in>set es. resolved_from ?rv memo1 e0 e"
  proof (cases "list_ex se_cookieless es")
    case True
    then have "resolve_events ?rv ?project ?addr ?ua (s, \<lambda>_. None) es = (s1, kept, drops)"
      using p(2) assms(2) by (auto simp: resolve_cookieless_def Let_def split: if_splits prod.splits)
    from resolve_events_from [OF this] show ?thesis using that by (auto simp: memo_of_def)
  next
    case False
    then have "kept = es" using p(2) by (simp add: resolve_cookieless_def)
    with False show ?thesis using that [of "\<lambda>_. None"] by (auto simp: memo_of_def resolved_from_def list_ex_iff)
  qed
  from assms(3,4) obtain a1 b1 :: sdk_event where ab: "a1 \<in> set kept" "b1 \<in> set kept"
    "a = enrich_event (ie_enrich env) (rp_auth p) h a1" "b = enrich_event (ie_enrich env) (rp_auth p) h b1"
    by (auto simp: events)
  obtain a0 b0 where from0: "a0 \<in> set es" "resolved_from ?rv memo1 a0 a1" "resolved_from ?rv memo1 b0 b1" using memo1(2) ab(1,2) by blast
  have kept_fields: "se_id (enrich_event env' t h' e) = se_id e" "se_cookieless (enrich_event env' t h' e) = se_cookieless e"
    "se_occur (enrich_event env' t h' e) = se_occur e" "se_distinct (enrich_event env' t h' e) = se_distinct e"
    "se_session (enrich_event env' t h' e) = se_session e" for env' t h' e by (simp_all add: enrich_event_def)
  have "starts_with (se_distinct a1) id_prefix" if "se_cookieless a0"
  proof -
    have "memo1 (fst (rv_day ?rv (se_occur a0))) = Some (Inr (se_distinct a1))" using from0(2) that by (auto simp: resolved_from_def)
    then obtain s' where "snd (rv_distinct ?rv s' (fst (rv_day ?rv (se_occur a0))) ?project ?addr ?ua) = Inr (se_distinct a1)"
      using memo1(1) unfolding memo_of_def by metis
    then show ?thesis by (rule redis_visitor)
  qed
  then have 1: "\<exists>a0\<in>set es. se_id a = se_id a0 \<and> se_cookieless a = se_cookieless a0
      \<and> (if se_cookieless a0 then starts_with (se_distinct a) id_prefix else se_distinct a = se_distinct a0 \<and> se_session a = se_session a0)"
    using from0(1) resolved_fields [OF from0(2)] by (intro bexI [of _ a0]) (simp_all add: ab(3) kept_fields)
  have "se_distinct a1 = se_distinct b1" if "se_cookieless a1" "se_cookieless b1" "format_day (se_occur a1) = format_day (se_occur b1)"
    using same_day_same_visitor [OF from0(2,3)] resolved_fields [OF from0(2)] resolved_fields [OF from0(3)] that
    by (simp add: redis_resolver_def day_of_def Let_def)
  with 1 show ?thesis unfolding ab(3,4) kept_fields by blast
qed

section \<open>A batch\<close>

text \<open>A consented event whose client set the server's properties, and a cookieless one.\<close>

definition demo_props :: props where
  "demo_props = (\<lambda>_. None)(''$url'' \<mapsto> StringValue ''https://a.co/'', prop_ip \<mapsto> StringValue ''9.9.9.9'', prop_bot \<mapsto> BoolValue False)"

definition demo_events :: "sdk_event list" where
  "demo_events =
     [\<lparr>se_id = ''1'', se_kind = ''page_view'', se_distinct = ''anon-1'', se_session = ''s'', se_cookieless = False, se_occur = demo_noon,
       se_auto = demo_props, se_custom = (\<lambda>_. None)\<rparr>,
      \<lparr>se_id = ''2'', se_kind = ''page_view'', se_distinct = [], se_session = [], se_cookieless = True, se_occur = demo_noon,
       se_auto = demo_props, se_custom = (\<lambda>_. None)\<rparr>]"

definition demo_headers :: headers where
  "demo_headers = (\<lambda>_. [])(''User-Agent'' := ''UA'')"

definition demo_identity :: identity_env where
  "demo_identity = \<lparr>ide_now = demo_noon, ide_salt_flt = (\<lambda>_. False), ide_session_flt = (\<lambda>_. False), ide_enc = id, ide_dec = Some,
     ide_hmac = (\<lambda>k m. k), ide_b64url = id, ide_uuid5 = id, ide_salt = (\<lambda>_. demo_salt CHR ''a''), ide_uuid = (\<lambda>_. ''u'')\<rparr>"

definition demo_ingest :: "identity_state ingest_env" where
  "demo_ingest = \<lparr>ie_net = \<lparr>ne_ip = Some, ne_split = Some\<rparr>, ie_resolver = Some (redis_resolver demo_identity),
     ie_enrich = \<lparr>ee_floats = \<lparr>fl_parse = (\<lambda>_. None), fl_format = (\<lambda>_. [])\<rparr>, ee_uni = id, ee_url = (\<lambda>_. None), ee_locate = cloudflare_locate,
       ee_ua = parse_user_agent (\<lambda>_. None) (\<lambda>_. \<lparr>uc_browser = ''Firefox'', uc_browser_major = ''128'', uc_os = [], uc_os_version = [], uc_device = []\<rparr>),
       ee_crawler = (\<lambda>_. None)\<rparr>,
     ie_hash = id, ie_valid = (\<lambda>_ _. True), ie_send = (\<lambda>_. Sent)\<rparr>"

definition demo_project :: api_project where
  "demo_project = \<lparr>ap_id = ''p'', ap_org = ''o'', ap_name = ''P'', ap_zone = ''UTC'', ap_theme = [], ap_fcm = None, ap_created = 0, ap_deleted = None\<rparr>"

definition demo_sdk :: request_principal where
  "demo_sdk = \<lparr>rp_auth = AuthTypePublicKey, rp_customer = None, rp_project = Some demo_project, rp_jti = [], rp_masked = []\<rparr>"

definition demo_identities :: identity_state where
  "demo_identities = \<lparr>is_salts = (\<lambda>_. None), is_salt_keys = (\<lambda>_. None), is_sessions = (\<lambda>_. None), is_drawn = 0\<rparr>"

text \<open>An answer with a message, from the steps that lead to one.\<close>

lemma batch_create_sends:
  assumes "must_have_project ctx = Inr p" "es \<noteq> []" "validate_external_events es = None"
    and "resolve_cookieless (ie_net env) (ie_resolver env) (ap_id (the (rp_project p))) h peer s es = (s1, Inr (kept, drops))" "kept \<noteq> []"
    and "publish (ie_hash env) (ie_valid env) (ie_send env) (ap_id (the (rp_project p))) (map (enrich_event (ie_enrich env) (rp_auth p) h) kept) = Inr msg"
  shows "batch_create env ctx h peer s es = (s1, Inr (batch_response_of (length kept) drops, Some msg))"
  using assms by (simp add: batch_create_def Let_def)

lemma demo_distinct:
  "resolver_distinct demo_identity demo_identities demo_day project addr ua
     = (demo_identities\<lparr>is_salts := cache_salt demo_noon demo_day (demo_salt CHR ''a'') (\<lambda>_. None),
          is_salt_keys := (\<lambda>_. None)(demo_day \<mapsto> (demo_salt CHR ''a'', demo_noon + 36 * hour)), is_drawn := 1\<rparr>,
        Inr (id_prefix @ replicate 16 CHR ''a''))"
  by (simp add: resolver_distinct_def demo_identity_def demo_identities_def salt_for_day_def salt_lookup_def demo_ttl live_def salt_mint_def
      distinct_id_def demo_salt_def)

lemma demo_resolved:
  "\<exists>s1. resolve_cookieless (ie_net demo_ingest) (ie_resolver demo_ingest) project demo_headers ''9.9.9.9'' demo_identities demo_events
     = (s1, Inr ([demo_events ! 0, (demo_events ! 1)\<lparr>se_distinct := id_prefix @ replicate 16 CHR ''a'', se_session := ''u''\<rparr>], []))"
proof -
  have peer: "peer_ip Some Some ''9.9.9.9'' = ''9.9.9.9''"
    by (simp add: peer_ip_def parse_client_ip_def) (rule trim_space_word, simp_all)
  have addr: "fst (identity_source Some Some demo_headers ''9.9.9.9'') = ''9.9.9.9''"
    by (simp add: identity_source_def client_ip_with_source_def demo_headers_def peer)
  let ?rv = "redis_resolver demo_identity"
  have day: "rv_day ?rv demo_noon = (demo_day, True)" by (simp add: redis_resolver_def demo_identity_def day_of_def demo_day_def)
  have distinct: "rv_distinct ?rv = resolver_distinct demo_identity" by (simp add: redis_resolver_def)
  have session: "snd (rv_session ?rv s project v d t) = (''u'', DegradeNone)" if "is_sessions s = (\<lambda>_. None)" for s v d t
    using that by (simp add: redis_resolver_def resolver_session_def session_id_def mint_session_def corrupt_or_none_def demo_identity_def)
  obtain s1 kept drops where all: "resolve_events ?rv project ''9.9.9.9'' ''UA'' (demo_identities, \<lambda>_. None) demo_events = (s1, kept, drops)"
    by (metis prod.exhaust)
  define s2 where "s2 = demo_identities\<lparr>is_salts := cache_salt demo_noon demo_day (demo_salt CHR ''a'') (\<lambda>_. None),
      is_salt_keys := (\<lambda>_. None)(demo_day \<mapsto> (demo_salt CHR ''a'', demo_noon + 36 * hour)), is_drawn := 1\<rparr>"
  have distinct2: "rv_distinct ?rv demo_identities demo_day project addr ua = (s2, Inr (id_prefix @ replicate 16 CHR ''a''))" for addr ua
    unfolding distinct demo_distinct s2_def ..
  have "is_sessions s2 = (\<lambda>_. None)" by (simp add: s2_def demo_identities_def)
  from session [OF this] obtain s3 where "rv_session ?rv s2 project (id_prefix @ replicate 16 CHR ''a'') demo_day demo_noon = (s3, ''u'', DegradeNone)"
    by (metis prod.collapse)
  then have "kept = [demo_events ! 0, (demo_events ! 1)\<lparr>se_distinct := id_prefix @ replicate 16 CHR ''a'', se_session := ''u''\<rparr>]" "drops = []"
    using all by (simp_all add: demo_events_def resolve_event_def day distinct2 Let_def)
  with all addr show ?thesis
    by (simp add: resolve_cookieless_def demo_ingest_def demo_headers_def Let_def) (simp add: demo_events_def)
qed

lemma demo_answer:
  obtains s1 resp msg where "batch_create demo_ingest (Some demo_sdk) demo_headers ''9.9.9.9'' demo_identities demo_events = (s1, Inr (resp, Some msg))"
    "length (sm_events msg) = 2"
proof -
  obtain s1 kept where kept: "resolve_cookieless (ie_net demo_ingest) (ie_resolver demo_ingest) ''p'' demo_headers ''9.9.9.9'' demo_identities demo_events
      = (s1, Inr (kept, []))" "length kept = 2" using demo_resolved by fastforce
  have ctx: "must_have_project (Some demo_sdk) = Inr demo_sdk" "ap_id (the (rp_project demo_sdk)) = ''p''"
    by (simp_all add: must_have_project_def demo_sdk_def demo_project_def)
  have ids: "demo_events \<noteq> []" "validate_external_events demo_events = None"
    by (simp_all add: demo_events_def validate_external_events_def)
  let ?sent = "map (enrich_event (ie_enrich demo_ingest) (rp_auth demo_sdk) demo_headers) kept"
  let ?msg = "\<lparr>sm_id = batch_msg_id (ie_hash demo_ingest) ''p'' ?sent, sm_project = ''p'', sm_events = ?sent\<rparr>"
  have published: "publish (ie_hash demo_ingest) (ie_valid demo_ingest) (ie_send demo_ingest) ''p'' ?sent = Inr ?msg"
    by (simp add: publish_def demo_ingest_def)
  have "kept \<noteq> []" using kept(2) by auto
  from batch_create_sends [where env = demo_ingest, unfolded ctx(2), OF ctx(1) ids] kept(1) published this ctx(2)
  have "batch_create demo_ingest (Some demo_sdk) demo_headers ''9.9.9.9'' demo_identities demo_events = (s1, Inr (batch_response_of (length kept) [], Some ?msg))"
    by metis
  then show thesis by (rule that) (simp add: kept(2))
qed

lemma server_only_values_are_ignored_witness:
  "batch_create demo_ingest (Some demo_sdk) demo_headers ''9.9.9.9'' demo_identities [(demo_events ! 0)\<lparr>se_auto := demo_props(prop_bot \<mapsto> BoolValue True)\<rparr>]
     = batch_create demo_ingest (Some demo_sdk) demo_headers ''9.9.9.9'' demo_identities [demo_events ! 0]"
proof (rule server_only_values_are_ignored)
  have "agree_off server_only demo_props (demo_props(prop_bot \<mapsto> BoolValue True))" by (auto simp: agree_off_def server_only_def)
  then show "list_all2 same_sent [demo_events ! 0] [(demo_events ! 0)\<lparr>se_auto := demo_props(prop_bot \<mapsto> BoolValue True)\<rparr>]"
    by (simp add: same_sent_def demo_events_def)
qed

lemma every_event_accounted_witness:
  "\<exists>s1 resp sent. batch_create demo_ingest (Some demo_sdk) demo_headers ''9.9.9.9'' demo_identities demo_events = (s1, Inr (resp, sent))
     \<and> br_accepted resp + br_dropped resp = 2"
proof -
  obtain s1 resp msg where answer: "batch_create demo_ingest (Some demo_sdk) demo_headers ''9.9.9.9'' demo_identities demo_events = (s1, Inr (resp, Some msg))"
    by (rule demo_answer)
  have "rp_project demo_sdk = Some demo_project" by (simp add: demo_sdk_def)
  from every_event_accounted [OF answer this] answer show ?thesis by (auto simp: demo_events_def)
qed

lemma address_is_never_published_witness:
  "\<exists>msg :: stream_msg. length (sm_events msg) = 2 \<and> se_auto (sm_events msg ! 0) prop_ip = None"
proof -
  obtain s1 resp msg where answer: "batch_create demo_ingest (Some demo_sdk) demo_headers ''9.9.9.9'' demo_identities demo_events = (s1, Inr (resp, Some msg))"
    "length (sm_events msg) = 2" by (rule demo_answer)
  have ua: "ee_ua (ie_enrich demo_ingest) = parse_user_agent (\<lambda>_. None)
      (\<lambda>_. \<lparr>uc_browser = ''Firefox'', uc_browser_major = ''128'', uc_os = [], uc_os_version = [], uc_device = []\<rparr>)" by (simp add: demo_ingest_def)
  have "sm_events msg ! 0 \<in> set (sm_events msg)" using answer(2) by simp
  from address_is_never_published [OF answer(1) ua this] answer(2) show ?thesis by (intro exI [of _ msg]) simp
qed

lemma published_identity_witness:
  "\<exists>msg :: stream_msg. length (sm_events msg) = 2 \<and> (\<exists>a0 \<in> set demo_events. se_id (sm_events msg ! 1) = se_id a0)"
proof -
  obtain s1 resp msg where answer: "batch_create demo_ingest (Some demo_sdk) demo_headers ''9.9.9.9'' demo_identities demo_events = (s1, Inr (resp, Some msg))"
    "length (sm_events msg) = 2" by (rule demo_answer)
  have rv: "ie_resolver demo_ingest = Some (redis_resolver demo_identity)" by (simp add: demo_ingest_def)
  have "sm_events msg ! 1 \<in> set (sm_events msg)" using answer(2) by simp
  from conjunct1 [OF published_identity [OF answer(1) rv this this]] answer(2) show ?thesis by (intro exI [of _ msg]) blast
qed

lemma resent_batch_is_same_message_witness:
  "batch_msg_id id ''p'' demo_events = batch_msg_id id ''p'' (map (\<lambda>e. e\<lparr>se_occur := 0\<rparr>) demo_events)
   \<and> batch_msg_id id ''p'' demo_events \<noteq> batch_msg_id id ''p'' (rev demo_events)"
  using resent_batch_is_same_message [of id "''p''" "''p''" demo_events "map (\<lambda>e. e\<lparr>se_occur := 0\<rparr>) demo_events"]
    resent_batch_is_same_message [of id "''p''" "''p''" demo_events "rev demo_events"]
  by (simp add: plain_bytes_def demo_events_def)

end
