(* ===== verification/Person_Store.thy ===== *)
theory Person_Store
  imports Cookieless
begin

text \<open>
  Where a person's data stands: the Postgres tables \<open>profiles\<close>, \<open>profile_devices\<close> and
  \<open>compliance_requests\<close>, and the ClickHouse tables keyed by a person's ids (\<open>events\<close>,
  \<open>distinct_id_activity_states\<close>, \<open>profile_aliases\<close>, \<open>profiles\<close>), with every statement the identify
  and erasure code runs on them. A row keeps the columns those statements read or write. A
  ClickHouse table keeps all inserted rows, as a ReplacingMergeTree does before it merges.
\<close>

section \<open>Postgres rows\<close>

type_synonym json_object = "string \<Rightarrow> string option"

record person_row =
  pf_id :: string
  pf_project :: string
  pf_external :: "string option"
  pf_properties :: json_object
  pf_create :: time
  pf_update :: time
  pf_deletion :: "time option"

record device_row =
  dv_id :: string
  dv_project :: string
  dv_profile :: "string option"
  dv_status :: string
  dv_token :: "string option"

record compliance_row =
  cr_id :: string
  cr_project :: string
  cr_kind :: string
  cr_profile :: "string option"
  cr_external :: "string option"
  cr_status :: string
  cr_distinct :: "string list"
  cr_events :: nat
  cr_requested_by :: "string option"
  cr_requested_at :: time
  cr_completed_at :: "time option"
  cr_error :: "string option"

section \<open>ClickHouse rows\<close>

record keyed_row =
  kr_project :: string
  kr_distinct :: string

record alias_row =
  al_alias :: string
  al_profile :: string
  al_external :: string
  al_project :: string
  al_at :: time

record ch_person =
  cp_id :: string
  cp_project :: string
  cp_external :: string
  cp_properties :: json_object
  cp_deleted :: bool
  cp_create :: time
  cp_update :: time

text \<open>The messages between the parts: an erasure, a profile's state and an alias.\<close>

record erase_msg =
  em_project :: string
  em_request :: string
  em_profile :: string
  em_external :: string

record upsert_msg =
  um_profile :: string
  um_project :: string
  um_external :: string
  um_properties :: json_object
  um_deleted :: bool
  um_create :: time
  um_update :: time

record alias_msg =
  am_alias :: string
  am_profile :: string
  am_external :: string
  am_project :: string

record subject_store =
  sb_requests :: "compliance_row list"
  sb_people :: "person_row list"
  sb_devices :: "device_row list"
  sb_events :: "keyed_row list"
  sb_activity :: "keyed_row list"
  sb_aliases :: "alias_row list"
  sb_chpeople :: "ch_person list"
  sb_erase_queue :: "erase_msg list"
  sb_upsert_queue :: "upsert_msg list"
  sb_alias_queue :: "alias_msg list"

section \<open>Profiles in Postgres\<close>

text \<open>\<open>postgres.NewOptionalText\<close>: the empty string is NULL.\<close>

definition optional_text :: "string \<Rightarrow> string option" where
  "optional_text s = (if s = [] then None else Some s)"

text \<open>\<open>jsonb_shallow_merge\<close> on objects: the right side's keys win.\<close>

definition jsonb_shallow_merge :: "json_object \<Rightarrow> json_object \<Rightarrow> json_object" where
  "jsonb_shallow_merge a b = (\<lambda>k. case b k of Some v \<Rightarrow> Some v | None \<Rightarrow> a k)"

definition live_at :: "string \<Rightarrow> string \<Rightarrow> person_row \<Rightarrow> bool" where
  "live_at project pid p = (pf_id p = pid \<and> pf_project p = project \<and> pf_deletion p = None)"

definition get_person :: "person_row list \<Rightarrow> string \<Rightarrow> string \<Rightarrow> person_row option" where
  "get_person rows project pid = find (live_at project pid) rows"

definition live_external :: "string \<Rightarrow> string \<Rightarrow> person_row \<Rightarrow> bool" where
  "live_external project ext p = (pf_project p = project \<and> pf_external p = Some ext \<and> pf_deletion p = None)"

definition get_person_by_external :: "person_row list \<Rightarrow> string \<Rightarrow> string \<Rightarrow> person_row option" where
  "get_person_by_external rows project ext = find (live_external project ext) rows"

definition soft_delete_person :: "time \<Rightarrow> string \<Rightarrow> string \<Rightarrow> person_row list \<Rightarrow> person_row list" where
  "soft_delete_person now project pid rows =
     map (\<lambda>p. if live_at project pid p then p\<lparr>pf_deletion := Some now, pf_update := now\<rparr> else p) rows"

text \<open>
  The upsert by external id, \<open>None\<close> when the new id is taken: the conflict target is the live
  row of the external id, and the update trigger restamps it.
\<close>

definition upsert_person :: "time \<Rightarrow> string \<Rightarrow> string \<Rightarrow> string \<Rightarrow> json_object \<Rightarrow> person_row list
    \<Rightarrow> (person_row list \<times> person_row) option" where
  "upsert_person now pid project ext props rows =
     (case get_person_by_external rows project ext of
        Some p \<Rightarrow>
          let p' = p\<lparr>pf_properties := jsonb_shallow_merge (pf_properties p) props, pf_update := now\<rparr>
          in Some (map (\<lambda>r. if pf_id r = pf_id p then p' else r) rows, p')
      | None \<Rightarrow>
          if list_ex (\<lambda>r. pf_id r = pid) rows then None
          else let p = \<lparr>pf_id = pid, pf_project = project, pf_external = Some ext, pf_properties = props,
                        pf_create = now, pf_update = now, pf_deletion = None\<rparr>
               in Some (rows @ [p], p))"

text \<open>The merge of one profile's properties under another's, \<open>None\<close> when either is not live.\<close>

definition merge_person :: "time \<Rightarrow> string \<Rightarrow> string \<Rightarrow> string \<Rightarrow> person_row list
    \<Rightarrow> (person_row list \<times> person_row) option" where
  "merge_person now project src tgt rows =
     (case (get_person rows project src, get_person rows project tgt) of
        (Some s, Some t) \<Rightarrow>
          let t' = t\<lparr>pf_properties := jsonb_shallow_merge (pf_properties s) (pf_properties t), pf_update := now\<rparr>
          in Some (map (\<lambda>r. if pf_id r = pf_id t then t' else r) rows, t')
      | _ \<Rightarrow> None)"

section \<open>Devices\<close>

definition of_profile :: "string \<Rightarrow> string \<Rightarrow> device_row \<Rightarrow> bool" where
  "of_profile project pid d = (dv_project d = project \<and> dv_profile d = Some pid)"

definition link_device :: "string \<Rightarrow> string \<Rightarrow> string \<Rightarrow> person_row list \<Rightarrow> device_row list \<Rightarrow> device_row list" where
  "link_device project dev pid people devs =
     (if list_ex (\<lambda>p. pf_id p = pid \<and> pf_deletion p = None) people
      then map (\<lambda>d. if dv_id d = dev \<and> dv_project d = project then d\<lparr>dv_profile := Some pid\<rparr> else d) devs else devs)"

definition reassign_devices :: "string \<Rightarrow> string \<Rightarrow> string \<Rightarrow> device_row list \<Rightarrow> device_row list" where
  "reassign_devices project src tgt = map (\<lambda>d. if of_profile project src d then d\<lparr>dv_profile := Some tgt\<rparr> else d)"

definition deactivate_devices :: "string \<Rightarrow> string \<Rightarrow> device_row list \<Rightarrow> device_row list" where
  "deactivate_devices project pid =
     map (\<lambda>d. if of_profile project pid d \<and> dv_status d = ''active'' then d\<lparr>dv_status := ''inactive''\<rparr> else d)"

definition delete_devices :: "string \<Rightarrow> string \<Rightarrow> device_row list \<Rightarrow> device_row list" where
  "delete_devices project pid = filter (\<lambda>d. \<not> of_profile project pid d)"

definition person_is :: "string \<Rightarrow> string \<Rightarrow> person_row \<Rightarrow> bool" where
  "person_is project pid p = (pf_id p = pid \<and> pf_project p = project)"

text \<open>
  The hard delete of a profile row; a device that still points at it keeps its row and loses
  the pointer (\<open>on delete set null\<close>).
\<close>

definition hard_delete_person :: "string \<Rightarrow> string \<Rightarrow> person_row list \<times> device_row list \<Rightarrow> person_row list \<times> device_row list" where
  "hard_delete_person project pid pd =
     (case pd of (people, devs) \<Rightarrow>
        if list_ex (person_is project pid) people
        then (filter (\<lambda>p. \<not> person_is project pid p) people,
              map (\<lambda>d. if dv_profile d = Some pid then d\<lparr>dv_profile := None\<rparr> else d) devs)
        else (people, devs))"

section \<open>The ledger of requests\<close>

text \<open>A text parameter Postgres takes: UTF-8 without a null byte.\<close>

definition pg_accepts_text :: "string \<Rightarrow> bool" where
  "pg_accepts_text t = (valid_utf8 t \<and> CHR 0x00 \<notin> set t)"

definition kind_erase :: string where "kind_erase = ''erase''"

definition is_open_status :: "string \<Rightarrow> bool" where
  "is_open_status s = (s = ''pending'' \<or> s = ''processing'')"

datatype ledger_violation = OpenProfileTaken | OpenExternalTaken | NoIdentifier | RequestIdTaken

text \<open>
  The two partial unique indexes over open requests: \<open>clash_on f\<close> finds another open row of
  the project and kind with the same non-null column.
\<close>

definition clash_on :: "(compliance_row \<Rightarrow> string option) \<Rightarrow> compliance_row list \<Rightarrow> compliance_row \<Rightarrow> bool" where
  "clash_on f rows r =
     (is_open_status (cr_status r) \<and> f r \<noteq> None \<and>
      list_ex (\<lambda>r'. cr_id r' \<noteq> cr_id r \<and> is_open_status (cr_status r') \<and> cr_project r' = cr_project r
                    \<and> cr_kind r' = cr_kind r \<and> f r' = f r) rows)"

definition open_clash :: "compliance_row list \<Rightarrow> compliance_row \<Rightarrow> ledger_violation option" where
  "open_clash rows r =
     (if clash_on cr_profile rows r then Some OpenProfileTaken
      else if clash_on cr_external rows r then Some OpenExternalTaken else None)"

text \<open>\<open>CreateComplianceRequest\<close>: the CHECK on the identifiers, the primary key, the indexes.\<close>

definition create_request :: "time \<Rightarrow> string \<Rightarrow> string \<Rightarrow> string \<Rightarrow> string option \<Rightarrow> string option \<Rightarrow> string option
    \<Rightarrow> compliance_row list \<Rightarrow> (ledger_violation, compliance_row list) result" where
  "create_request now rid project kind profile external by rows =
     (let r = \<lparr>cr_id = rid, cr_project = project, cr_kind = kind, cr_profile = profile, cr_external = external,
               cr_status = ''pending'', cr_distinct = [], cr_events = 0, cr_requested_by = by,
               cr_requested_at = now, cr_completed_at = None, cr_error = None\<rparr>
      in if profile = None \<and> external = None then Inl NoIdentifier
         else if list_ex (\<lambda>r'. cr_id r' = rid) rows then Inl RequestIdTaken
         else case open_clash rows r of Some v \<Rightarrow> Inl v | None \<Rightarrow> Inr (rows @ [r]))"

text \<open>
  An update of one request by id and project, with the rows it matched; it fails on the
  indexes as an insert does.
\<close>

definition update_request :: "string \<Rightarrow> string \<Rightarrow> (compliance_row \<Rightarrow> bool) \<Rightarrow> (compliance_row \<Rightarrow> compliance_row)
    \<Rightarrow> compliance_row list \<Rightarrow> (ledger_violation, compliance_row list \<times> nat) result" where
  "update_request rid project guard f rows =
     (case find (\<lambda>r. cr_id r = rid \<and> cr_project r = project \<and> guard r) rows of
        None \<Rightarrow> Inr (rows, 0)
      | Some r \<Rightarrow>
          (case open_clash rows (f r) of
             Some v \<Rightarrow> Inl v
           | None \<Rightarrow> Inr (map (\<lambda>r'. if cr_id r' = rid then f r else r') rows, 1)))"

definition freeze_request :: "string \<Rightarrow> string \<Rightarrow> string list \<Rightarrow> nat \<Rightarrow> compliance_row list
    \<Rightarrow> (ledger_violation, compliance_row list \<times> nat) result" where
  "freeze_request rid project ids n =
     update_request rid project (\<lambda>_. True) (\<lambda>r. r\<lparr>cr_distinct := ids, cr_events := n, cr_status := ''processing''\<rparr>)"

definition complete_request :: "time \<Rightarrow> string \<Rightarrow> string \<Rightarrow> compliance_row list
    \<Rightarrow> (ledger_violation, compliance_row list \<times> nat) result" where
  "complete_request now rid project =
     update_request rid project (\<lambda>_. True) (\<lambda>r. r\<lparr>cr_status := ''completed'', cr_completed_at := Some now\<rparr>)"

definition fail_request :: "string \<Rightarrow> string \<Rightarrow> string option \<Rightarrow> compliance_row list
    \<Rightarrow> (ledger_violation, compliance_row list \<times> nat) result" where
  "fail_request rid project why =
     update_request rid project (\<lambda>_. True) (\<lambda>r. r\<lparr>cr_status := ''failed'', cr_error := why\<rparr>)"

definition reopen_request :: "string \<Rightarrow> string \<Rightarrow> compliance_row list
    \<Rightarrow> (ledger_violation, compliance_row list \<times> nat) result" where
  "reopen_request rid project =
     update_request rid project (\<lambda>r. cr_status r \<noteq> ''completed'') (\<lambda>r. r\<lparr>cr_status := ''pending'', cr_error := None\<rparr>)"

definition get_erase_request :: "compliance_row list \<Rightarrow> string \<Rightarrow> string \<Rightarrow> compliance_row option" where
  "get_erase_request rows project rid =
     find (\<lambda>r. cr_id r = rid \<and> cr_project r = project \<and> cr_kind r = kind_erase) rows"

text \<open>\<open>GetReopenableComplianceRequest\<close>: the latest request of the subject that is not completed.\<close>

definition reopenable :: "string \<Rightarrow> string \<Rightarrow> string \<Rightarrow> string \<Rightarrow> compliance_row \<Rightarrow> bool" where
  "reopenable project kind profile external r =
     (cr_project r = project \<and> cr_kind r = kind \<and> cr_status r \<noteq> ''completed'' \<and>
      (profile \<noteq> [] \<and> cr_profile r = Some profile \<or> external \<noteq> [] \<and> cr_external r = Some external))"

fun latest_request :: "compliance_row list \<Rightarrow> compliance_row option" where
  "latest_request [] = None"
| "latest_request (r # rs) =
     (case latest_request rs of
        None \<Rightarrow> Some r
      | Some r' \<Rightarrow> Some (if cr_requested_at r < cr_requested_at r' then r' else r))"

definition get_reopenable :: "compliance_row list \<Rightarrow> string \<Rightarrow> string \<Rightarrow> string \<Rightarrow> string \<Rightarrow> compliance_row option" where
  "get_reopenable rows project kind profile external = latest_request (filter (reopenable project kind profile external) rows)"

text \<open>\<open>ListStuckComplianceRequests\<close>.\<close>

definition list_stuck :: "time \<Rightarrow> nat \<Rightarrow> compliance_row list \<Rightarrow> compliance_row list" where
  "list_stuck older lim rows =
     take lim (sort_key cr_requested_at (filter (\<lambda>r. is_open_status (cr_status r) \<and> cr_requested_at r < older) rows))"

section \<open>ClickHouse\<close>

definition keyed_in :: "string \<Rightarrow> string list \<Rightarrow> keyed_row \<Rightarrow> bool" where
  "keyed_in project ids r = (kr_project r = project \<and> kr_distinct r \<in> set ids)"

definition aliases_to :: "string \<Rightarrow> string \<Rightarrow> alias_row \<Rightarrow> bool" where
  "aliases_to project pid r = (al_project r = project \<and> al_profile r = pid)"

definition ch_person_in :: "string \<Rightarrow> string list \<Rightarrow> ch_person \<Rightarrow> bool" where
  "ch_person_in project ids r = (cp_project r = project \<and> cp_id r \<in> set ids)"

definition alias_ids_of :: "alias_row list \<Rightarrow> string \<Rightarrow> string \<Rightarrow> string list" where
  "alias_ids_of rows project pid = remdups (map al_alias (filter (aliases_to project pid) rows))"

text \<open>
  \<open>argMax(profile_id, insert_time)\<close>: the profile of a latest row of the alias. Which one, among
  rows of the same instant, ClickHouse decides (\<open>pick\<close>).
\<close>

definition latest_aliases :: "alias_row list \<Rightarrow> alias_row list" where
  "latest_aliases rows = filter (\<lambda>r. list_all (\<lambda>r'. al_at r' \<le> al_at r) rows) rows"

definition resolve_alias_target :: "(alias_row list \<Rightarrow> alias_row) \<Rightarrow> alias_row list \<Rightarrow> string \<Rightarrow> string \<Rightarrow> string option" where
  "resolve_alias_target pick rows project aid =
     (let ms = filter (\<lambda>r. al_project r = project \<and> al_alias r = aid) rows
      in if ms = [] then None
         else let pid = al_profile (pick (latest_aliases ms)) in if pid = [] then None else Some pid)"

definition delete_events :: "string \<Rightarrow> string list \<Rightarrow> subject_store \<Rightarrow> subject_store" where
  "delete_events project ids s = s\<lparr>sb_events := filter (\<lambda>r. \<not> keyed_in project ids r) (sb_events s)\<rparr>"

definition delete_activity :: "string \<Rightarrow> string list \<Rightarrow> subject_store \<Rightarrow> subject_store" where
  "delete_activity project ids s = s\<lparr>sb_activity := filter (\<lambda>r. \<not> keyed_in project ids r) (sb_activity s)\<rparr>"

definition delete_aliases :: "string \<Rightarrow> string \<Rightarrow> subject_store \<Rightarrow> subject_store" where
  "delete_aliases project pid s =
     s\<lparr>sb_aliases := filter (\<lambda>r. \<not> aliases_to project pid r) (sb_aliases s)\<rparr>"

definition delete_ch_people :: "string \<Rightarrow> string list \<Rightarrow> subject_store \<Rightarrow> subject_store" where
  "delete_ch_people project ids s =
     s\<lparr>sb_chpeople := filter (\<lambda>r. \<not> ch_person_in project ids r) (sb_chpeople s)\<rparr>"

text \<open>\<open>hasErasableActivity\<close> probes the rollup, and the events for the ids the rollup leaves out.\<close>

definition has_erasable_activity :: "subject_store \<Rightarrow> string \<Rightarrow> string \<Rightarrow> bool" where
  "has_erasable_activity s project did =
     list_ex (\<lambda>r. kr_project r = project \<and> kr_distinct r = did)
       (if starts_with did id_prefix then sb_events s else sb_activity s)"

end
