(* ===== verification/Erasure.thy ===== *)
theory Erasure
  imports Person_Store
begin

text \<open>
  Data-subject erasure, \<open>internal/core/profiles/erasure.go\<close>, and its consumer
  \<open>internal/app/workers/compliance/compliance.go\<close>. A request records the subject in the ledger,
  hides the profile and publishes a message; the worker freezes the subject's ids on the
  ledger row, deletes what every table holds under them and marks the row completed.
  \<open>flt\<close> says which calls fail; a ClickHouse delete or a publish can also take effect and
  still report an error.
\<close>

section \<open>Vocabulary\<close>

datatype compliance_status = CPending | CProcessing | CCompleted | CFailed

definition compliance_text :: "compliance_status \<Rightarrow> string" where
  "compliance_text st =
     (case st of CPending \<Rightarrow> ''pending'' | CProcessing \<Rightarrow> ''processing'' | CCompleted \<Rightarrow> ''completed'' | CFailed \<Rightarrow> ''failed'')"

text \<open>
  The calls of one request or delivery, the reopening ones with the place they are made from
  and the batched ones with the batch.
\<close>

datatype ch_delete = DelEvents | DelActivity | DelPeople

datatype erase_call =
    EcGetProfile | EcAlias | EcGetCanonical | EcChain | EcGetByExternal nat | EcProbe
  | EcReopenGet nat | EcReopenSet nat | EcPublish nat | EcPublishLost nat
  | EcBegin | EcCreate | EcSoftDelete | EcDeactivate | EcCommit
  | EcLoad | EcAliasIds | EcCount nat | EcFreeze
  | EcHardBegin | EcHardDevices | EcHardProfile | EcHardCommit
  | EcDelete ch_delete nat | EcDeleteLost ch_delete nat | EcDelAliases | EcDelAliasesLost
  | EcComplete | EcFail

datatype erase_error =
    ErrDeletionRequestNotFound | ErrNoErasableIdentifiers | ErrComplianceRequestVanished
  | ErrDegradedAliasErasure | ErrInvalidComplianceStatus string | ErrProfileNotFoundE
  | ClickHouseNil | EraseCallFailed erase_call | LedgerRefused ledger_violation

definition parse_compliance_status :: "string \<Rightarrow> (erase_error, compliance_status) result" where
  "parse_compliance_status s =
     (if s = ''pending'' then Inr CPending else if s = ''processing'' then Inr CProcessing
      else if s = ''completed'' then Inr CCompleted else if s = ''failed'' then Inr CFailed
      else Inl (ErrInvalidComplianceStatus s))"

definition is_terminal_c :: "compliance_status \<Rightarrow> bool" where "is_terminal_c st = (st = CCompleted)"
definition can_reopen :: "compliance_status \<Rightarrow> bool" where "can_reopen st = (st = CFailed)"

definition is_open_conflict :: "ledger_violation \<Rightarrow> bool" where
  "is_open_conflict v = (v = OpenProfileTaken \<or> v = OpenExternalTaken)"

text \<open>What a request returns: the request's id, its status (none is the zero value) and an error.\<close>

type_synonym erase_reply = "string \<times> compliance_status option \<times> erase_error option"

definition erase_fails :: "erase_error \<Rightarrow> erase_reply" where "erase_fails e = ([], None, Some e)"

section \<open>Requests\<close>

definition publish_erase :: "(erase_call \<Rightarrow> bool) \<Rightarrow> nat \<Rightarrow> string \<Rightarrow> string \<Rightarrow> string \<Rightarrow> string \<Rightarrow> subject_store
    \<Rightarrow> subject_store \<times> erase_error option" where
  "publish_erase flt n project rid pid ext s =
     (let s' = s\<lparr>sb_erase_queue := sb_erase_queue s @
                   [\<lparr>em_project = project, em_request = rid, em_profile = pid, em_external = ext\<rparr>]\<rparr>
      in if flt (EcPublish n) then (s, Some (EraseCallFailed (EcPublish n)))
         else if flt (EcPublishLost n) then (s', Some (EraseCallFailed (EcPublishLost n)))
         else (s', None))"

definition text_or_empty :: "string option \<Rightarrow> string" where
  "text_or_empty t = (case t of None \<Rightarrow> [] | Some v \<Rightarrow> v)"

text \<open>The reopening of an existing request, with \<open>ok\<close> in the third place.\<close>

definition redrive :: "(erase_call \<Rightarrow> bool) \<Rightarrow> nat \<Rightarrow> string \<Rightarrow> compliance_row \<Rightarrow> compliance_status \<Rightarrow> subject_store
    \<Rightarrow> subject_store \<times> string \<times> compliance_status option \<times> bool \<times> erase_error option" where
  "redrive flt n project ex st s =
     (case publish_erase flt n project (cr_id ex) (text_or_empty (cr_profile ex)) (text_or_empty (cr_external ex)) s of
        (s', err) \<Rightarrow> (s', cr_id ex, Some st, True, err))"

definition reopen_erasure :: "(erase_call \<Rightarrow> bool) \<Rightarrow> nat \<Rightarrow> string \<Rightarrow> string \<Rightarrow> string \<Rightarrow> subject_store
    \<Rightarrow> subject_store \<times> string \<times> compliance_status option \<times> bool \<times> erase_error option" where
  "reopen_erasure flt n project pid ext s =
     (if flt (EcReopenGet n) then (s, [], None, False, Some (EraseCallFailed (EcReopenGet n)))
      else case get_reopenable (sb_requests s) project kind_erase pid ext of
        None \<Rightarrow> (s, [], None, False, None)
      | Some ex \<Rightarrow>
          (case parse_compliance_status (cr_status ex) of
             Inl e \<Rightarrow> (s, [], None, False, Some e)
           | Inr st \<Rightarrow>
               if can_reopen st then
                 (if flt (EcReopenSet n) then (s, [], None, False, Some (EraseCallFailed (EcReopenSet n)))
                  else case reopen_request (cr_id ex) project (sb_requests s) of
                    Inl v \<Rightarrow> (s, [], None, False, Some (LedgerRefused v))
                  | Inr (rows, _) \<Rightarrow> redrive flt n project ex CPending (s\<lparr>sb_requests := rows\<rparr>))
               else redrive flt n project ex st s))"

text \<open>
  The transaction of a new request: the ledger row, and where a profile resolved, its hiding
  and its devices' deactivation. \<open>Inl\<close> with \<open>True\<close> is the lost race for the open slot.
\<close>

definition request_tx :: "(erase_call \<Rightarrow> bool) \<Rightarrow> time \<Rightarrow> string \<Rightarrow> string \<Rightarrow> string \<Rightarrow> string \<Rightarrow> string \<Rightarrow> subject_store
    \<Rightarrow> (bool \<times> erase_error, subject_store) result" where
  "request_tx flt now rid project ext pid by s =
     (if flt EcBegin then Inl (False, EraseCallFailed EcBegin)
      else if flt EcCreate then Inl (False, EraseCallFailed EcCreate)
      else case create_request now rid project kind_erase (optional_text pid) (optional_text ext) (optional_text by) (sb_requests s) of
        Inl v \<Rightarrow> Inl (is_open_conflict v, LedgerRefused v)
      | Inr rows \<Rightarrow>
          (let s1 = s\<lparr>sb_requests := rows\<rparr>;
               s2 = s1\<lparr>sb_people := soft_delete_person now project pid (sb_people s1),
                       sb_devices := deactivate_devices project pid (sb_devices s1)\<rparr>
           in if pid \<noteq> [] \<and> flt EcSoftDelete then Inl (False, EraseCallFailed EcSoftDelete)
              else if pid \<noteq> [] \<and> flt EcDeactivate then Inl (False, EraseCallFailed EcDeactivate)
              else if flt EcCommit then Inl (False, EraseCallFailed EcCommit)
              else Inr (if pid = [] then s1 else s2)))"

definition request_erasure :: "(erase_call \<Rightarrow> bool) \<Rightarrow> time \<Rightarrow> string \<Rightarrow> string \<Rightarrow> string \<Rightarrow> string \<Rightarrow> string \<Rightarrow> subject_store
    \<Rightarrow> subject_store \<times> erase_reply" where
  "request_erasure flt now rid project ext pid by s =
     (case request_tx flt now rid project ext pid by s of
        Inl (False, e) \<Rightarrow> (s, erase_fails e)
      | Inl (True, e) \<Rightarrow>
          (case reopen_erasure flt 2 project pid ext s of
             (s', rid', st, ok, Some e') \<Rightarrow> (s', rid', st, Some e')
           | (s', rid', st, ok, None) \<Rightarrow> if ok then (s', rid', st, None) else (s', erase_fails e))
      | Inr s1 \<Rightarrow>
          (case publish_erase flt 0 project rid pid ext s1 of (s2, err) \<Rightarrow> (s2, rid, Some CPending, err)))"

text \<open>\<open>if requestID, status, ok, err := s.reopenErasure(...)\<close>, with what follows it.\<close>

definition or_else_request :: "subject_store \<times> string \<times> compliance_status option \<times> bool \<times> erase_error option
    \<Rightarrow> (subject_store \<Rightarrow> subject_store \<times> erase_reply) \<Rightarrow> subject_store \<times> erase_reply" where
  "or_else_request r k =
     (case r of (s, rid, st, ok, Some e) \<Rightarrow> (s, rid, st, Some e)
              | (s, rid, st, ok, None) \<Rightarrow> if ok then (s, rid, st, None) else k s)"

definition request_by_external :: "(erase_call \<Rightarrow> bool) \<Rightarrow> time \<Rightarrow> string \<Rightarrow> string \<Rightarrow> string \<Rightarrow> string \<Rightarrow> subject_store
    \<Rightarrow> subject_store \<times> erase_reply" where
  "request_by_external flt now rid project ext by s =
     (if ext = [] then (s, erase_fails ErrProfileNotFoundE)
      else or_else_request (reopen_erasure flt 3 project [] ext s) (\<lambda>s.
        if flt (EcGetByExternal 1) then (s, erase_fails (EraseCallFailed (EcGetByExternal 1)))
        else let pid = (case get_person_by_external (sb_people s) project ext of None \<Rightarrow> [] | Some p \<Rightarrow> pf_id p)
             in request_erasure flt now rid project ext pid by s))"

text \<open>The last two shapes of an id without a profile row: an external id, or a bare id with activity.\<close>

definition request_bare_id :: "(erase_call \<Rightarrow> bool) \<Rightarrow> time \<Rightarrow> string \<Rightarrow> string \<Rightarrow> string \<Rightarrow> string \<Rightarrow> subject_store
    \<Rightarrow> subject_store \<times> erase_reply" where
  "request_bare_id flt now rid project pid by s =
     (if flt (EcGetByExternal 0) then (s, erase_fails (EraseCallFailed (EcGetByExternal 0)))
      else case get_person_by_external (sb_people s) project pid of
        Some p \<Rightarrow> request_by_external flt now rid project pid by s
      | None \<Rightarrow>
          if flt EcProbe then (s, erase_fails (EraseCallFailed EcProbe))
          else if \<not> has_erasable_activity s project pid then (s, erase_fails ErrProfileNotFoundE)
          else request_erasure flt now rid project [] pid by s)"

definition request_by_unresolved_id :: "(erase_call \<Rightarrow> bool) \<Rightarrow> bool \<Rightarrow> (alias_row list \<Rightarrow> alias_row) \<Rightarrow> time \<Rightarrow> string \<Rightarrow> string
    \<Rightarrow> string \<Rightarrow> string \<Rightarrow> subject_store \<Rightarrow> subject_store \<times> erase_reply" where
  "request_by_unresolved_id flt ch pick now rid project pid by s =
     (if pid = [] then (s, erase_fails ErrProfileNotFoundE)
      else if \<not> ch then (s, erase_fails ClickHouseNil)
      else if flt EcAlias then (s, erase_fails (EraseCallFailed EcAlias))
      else case resolve_alias_target pick (sb_aliases s) project pid of
        Some canon \<Rightarrow>
          if canon = pid then request_bare_id flt now rid project pid by s
          else or_else_request (reopen_erasure flt 1 project canon [] s) (\<lambda>s.
            if flt EcGetCanonical then (s, erase_fails (EraseCallFailed EcGetCanonical))
            else case get_person (sb_people s) project canon of
              Some p \<Rightarrow> request_erasure flt now rid project (text_or_empty (pf_external p)) (pf_id p) by s
            | None \<Rightarrow>
                if flt EcChain then (s, erase_fails (EraseCallFailed EcChain))
                else if resolve_alias_target pick (sb_aliases s) project canon \<noteq> None
                then (s, erase_fails ErrDegradedAliasErasure)
                else request_bare_id flt now rid project pid by s)
      | None \<Rightarrow> request_bare_id flt now rid project pid by s)"

definition request_by_id :: "(erase_call \<Rightarrow> bool) \<Rightarrow> bool \<Rightarrow> (alias_row list \<Rightarrow> alias_row) \<Rightarrow> time \<Rightarrow> string \<Rightarrow> string
    \<Rightarrow> string \<Rightarrow> string \<Rightarrow> subject_store \<Rightarrow> subject_store \<times> erase_reply" where
  "request_by_id flt ch pick now rid project pid by s =
     or_else_request (reopen_erasure flt 0 project pid [] s) (\<lambda>s.
       if flt EcGetProfile then (s, erase_fails (EraseCallFailed EcGetProfile))
       else case get_person (sb_people s) project pid of
         Some p \<Rightarrow> request_erasure flt now rid project (text_or_empty (pf_external p)) (pf_id p) by s
       | None \<Rightarrow> request_by_unresolved_id flt ch pick now rid project pid by s)"

text \<open>\<open>GetDeletionRequest\<close>.\<close>

definition get_deletion_request :: "(erase_call \<Rightarrow> bool) \<Rightarrow> string \<Rightarrow> string \<Rightarrow> subject_store \<Rightarrow> (erase_error, compliance_row) result" where
  "get_deletion_request flt project rid s =
     (if flt EcLoad then Inl (EraseCallFailed EcLoad)
      else case get_erase_request (sb_requests s) project rid of
        None \<Rightarrow> Inl ErrDeletionRequestNotFound | Some r \<Rightarrow> Inr r)"

section \<open>The worker\<close>

text \<open>\<open>forEachBatch\<close>: chunks in order, up to the first that fails.\<close>

definition ch_batch_size :: nat where "ch_batch_size = 1000"

function for_each_batch :: "(nat \<Rightarrow> string list \<Rightarrow> 's \<Rightarrow> 's \<times> erase_error option) \<Rightarrow> nat \<Rightarrow> string list \<Rightarrow> 's
    \<Rightarrow> 's \<times> erase_error option" where
  "for_each_batch fn k [] s = (s, None)"
| "for_each_batch fn k (v # vs) s =
     (case fn k (take ch_batch_size (v # vs)) s of
        (s', Some e) \<Rightarrow> (s', Some e)
      | (s', None) \<Rightarrow> for_each_batch fn (Suc k) (drop ch_batch_size (v # vs)) s')"
  by pat_completeness auto

termination
  by (relation "measure (\<lambda>(fn, k, vs, s). length vs)") (simp_all add: ch_batch_size_def)

text \<open>The ids of the subject: external id, profile id and aliases, once each and none empty.\<close>

definition add_id :: "string list \<Rightarrow> string \<Rightarrow> string list" where
  "add_id ids v = (if v = [] \<or> v \<in> set ids then ids else ids @ [v])"

definition resolve_distinct_ids :: "(erase_call \<Rightarrow> bool) \<Rightarrow> compliance_row \<Rightarrow> subject_store \<Rightarrow> (erase_error, string list) result" where
  "resolve_distinct_ids flt req s =
     (let ids = add_id [] (text_or_empty (cr_external req))
      in case cr_profile req of
           None \<Rightarrow> Inr ids
         | Some pid \<Rightarrow>
             if pid = [] then Inr ids
             else if flt EcAliasIds then Inl (EraseCallFailed EcAliasIds)
             else Inr (foldl add_id (add_id ids pid) (alias_ids_of (sb_aliases s) (cr_project req) pid)))"

definition count_events :: "(erase_call \<Rightarrow> bool) \<Rightarrow> string \<Rightarrow> string list \<Rightarrow> subject_store \<Rightarrow> (erase_error, nat) result" where
  "count_events flt project ids s =
     (case for_each_batch (\<lambda>k vs n. if flt (EcCount k) then (n, Some (EraseCallFailed (EcCount k)))
                             else (n + length (filter (keyed_in project vs) (sb_events s)), None)) 0 ids 0 of
        (_, Some e) \<Rightarrow> Inl e
      | (n, None) \<Rightarrow> Inr n)"

definition freeze_identifiers :: "(erase_call \<Rightarrow> bool) \<Rightarrow> compliance_row \<Rightarrow> subject_store
    \<Rightarrow> subject_store \<times> (erase_error, string list) result" where
  "freeze_identifiers flt req s =
     (case resolve_distinct_ids flt req s of
        Inl e \<Rightarrow> (s, Inl e)
      | Inr ids \<Rightarrow>
          if ids = [] then (s, Inl ErrNoErasableIdentifiers)
          else case count_events flt (cr_project req) ids s of
            Inl e \<Rightarrow> (s, Inl e)
          | Inr n \<Rightarrow>
              if flt EcFreeze then (s, Inl (EraseCallFailed EcFreeze))
              else case freeze_request (cr_id req) (cr_project req) ids n (sb_requests s) of
                Inl v \<Rightarrow> (s, Inl (LedgerRefused v))
              | Inr (rows, k) \<Rightarrow>
                  if k = 0 then (s, Inl ErrComplianceRequestVanished)
                  else (s\<lparr>sb_requests := rows\<rparr>, Inr ids))"

definition hard_delete_postgres :: "(erase_call \<Rightarrow> bool) \<Rightarrow> string \<Rightarrow> string \<Rightarrow> subject_store \<Rightarrow> subject_store \<times> erase_error option" where
  "hard_delete_postgres flt project pid s =
     (if flt EcHardBegin then (s, Some (EraseCallFailed EcHardBegin))
      else if flt EcHardDevices then (s, Some (EraseCallFailed EcHardDevices))
      else let devs = delete_devices project pid (sb_devices s)
           in if flt EcHardProfile then (s, Some (EraseCallFailed EcHardProfile))
              else case hard_delete_person project pid (sb_people s, devs) of
                (people, devs') \<Rightarrow>
                  if flt EcHardCommit then (s, Some (EraseCallFailed EcHardCommit))
                  else (s\<lparr>sb_people := people, sb_devices := devs'\<rparr>, None))"

text \<open>One mutation, and a table's mutations over the batches of ids.\<close>

definition exec_mutation :: "(erase_call \<Rightarrow> bool) \<Rightarrow> erase_call \<Rightarrow> erase_call \<Rightarrow> (subject_store \<Rightarrow> subject_store)
    \<Rightarrow> subject_store \<Rightarrow> subject_store \<times> erase_error option" where
  "exec_mutation flt c lost del s =
     (if flt c then (s, Some (EraseCallFailed c))
      else if flt lost then (del s, Some (EraseCallFailed lost)) else (del s, None))"

definition delete_by :: "ch_delete \<Rightarrow> string \<Rightarrow> string list \<Rightarrow> subject_store \<Rightarrow> subject_store" where
  "delete_by t = (case t of DelEvents \<Rightarrow> delete_events | DelActivity \<Rightarrow> delete_activity | DelPeople \<Rightarrow> delete_ch_people)"

definition erase_by_batch :: "(erase_call \<Rightarrow> bool) \<Rightarrow> ch_delete \<Rightarrow> string \<Rightarrow> string list \<Rightarrow> subject_store \<Rightarrow> subject_store \<times> erase_error option" where
  "erase_by_batch flt t project ids s =
     for_each_batch (\<lambda>k vs. exec_mutation flt (EcDelete t k) (EcDeleteLost t k) (delete_by t project vs)) 0 ids s"

text \<open>Calls in sequence, up to the first that fails.\<close>

fun in_order :: "(subject_store \<Rightarrow> subject_store \<times> erase_error option) list \<Rightarrow> subject_store \<Rightarrow> subject_store \<times> erase_error option" where
  "in_order [] s = (s, None)"
| "in_order (f # fs) s = (case f s of (s', Some e) \<Rightarrow> (s', Some e) | (s', None) \<Rightarrow> in_order fs s')"

definition erase_clickhouse_person :: "(erase_call \<Rightarrow> bool) \<Rightarrow> string \<Rightarrow> string \<Rightarrow> string list \<Rightarrow> subject_store \<Rightarrow> subject_store \<times> erase_error option" where
  "erase_clickhouse_person flt project pid ids =
     in_order [erase_by_batch flt DelEvents project ids,
               erase_by_batch flt DelActivity project ids,
               (\<lambda>s. if pid = [] then (s, None)
                    else exec_mutation flt EcDelAliases EcDelAliasesLost (delete_aliases project pid) s),
               erase_by_batch flt DelPeople project ids]"

definition erase_everywhere :: "(erase_call \<Rightarrow> bool) \<Rightarrow> string \<Rightarrow> string \<Rightarrow> string list \<Rightarrow> subject_store \<Rightarrow> subject_store \<times> erase_error option" where
  "erase_everywhere flt project pid ids =
     in_order [(\<lambda>s. if pid = [] then (s, None) else hard_delete_postgres flt project pid s),
               erase_clickhouse_person flt project pid ids]"

definition mark_completed :: "(erase_call \<Rightarrow> bool) \<Rightarrow> time \<Rightarrow> string \<Rightarrow> string \<Rightarrow> subject_store \<Rightarrow> subject_store \<times> erase_error option" where
  "mark_completed flt now project rid s =
     (if flt EcComplete then (s, Some (EraseCallFailed EcComplete))
      else case complete_request now rid project (sb_requests s) of
        Inl v \<Rightarrow> (s, Some (LedgerRefused v))
      | Inr (rows, k) \<Rightarrow> if k = 0 then (s, Some ErrComplianceRequestVanished) else (s\<lparr>sb_requests := rows\<rparr>, None))"

definition frozen_ids :: "(erase_call \<Rightarrow> bool) \<Rightarrow> compliance_row \<Rightarrow> subject_store
    \<Rightarrow> subject_store \<times> (erase_error, string list) result" where
  "frozen_ids flt req s =
     (if cr_distinct req = [] then freeze_identifiers flt req s else (s, Inr (cr_distinct req)))"

text \<open>From the loaded row on.\<close>

definition erase_loaded :: "(erase_call \<Rightarrow> bool) \<Rightarrow> time \<Rightarrow> compliance_row \<Rightarrow> subject_store \<Rightarrow> subject_store \<times> erase_error option" where
  "erase_loaded flt now req s =
     (case parse_compliance_status (cr_status req) of
        Inl e \<Rightarrow> (s, Some e)
      | Inr st \<Rightarrow>
          if is_terminal_c st then (s, None)
          else case frozen_ids flt req s of
            (s1, Inl e) \<Rightarrow> (s1, Some e)
          | (s1, Inr ids) \<Rightarrow>
              in_order [erase_everywhere flt (cr_project req) (text_or_empty (cr_profile req)) ids,
                        mark_completed flt now (cr_project req) (cr_id req)] s1)"

definition execute_erasure :: "(erase_call \<Rightarrow> bool) \<Rightarrow> time \<Rightarrow> string \<Rightarrow> string \<Rightarrow> subject_store \<Rightarrow> subject_store \<times> erase_error option" where
  "execute_erasure flt now project rid s =
     (if flt EcLoad then (s, Some (EraseCallFailed EcLoad))
      else case get_erase_request (sb_requests s) project rid of
        None \<Rightarrow> (s, Some ErrDeletionRequestNotFound)
      | Some req \<Rightarrow> erase_loaded flt now req s)"

text \<open>
  The cause is stored as its first 1024 bytes; \<open>msg\<close> is \<open>error.Error\<close>. A cut inside a rune is text
  Postgres refuses, and the update fails.
\<close>

definition max_error_len :: nat where "max_error_len = 1024"

definition truncate_error :: "string \<Rightarrow> string" where
  "truncate_error t = (if length t \<le> max_error_len then t else take max_error_len t)"

definition mark_erasure_failed :: "(erase_call \<Rightarrow> bool) \<Rightarrow> (erase_error \<Rightarrow> string) \<Rightarrow> string \<Rightarrow> string \<Rightarrow> erase_error \<Rightarrow> subject_store
    \<Rightarrow> subject_store \<times> erase_error option" where
  "mark_erasure_failed flt msg project rid cause s =
     (if flt EcFail \<or> \<not> pg_accepts_text (truncate_error (msg cause)) then (s, Some (EraseCallFailed EcFail))
      else case fail_request rid project (optional_text (truncate_error (msg cause))) (sb_requests s) of
        Inl v \<Rightarrow> (s, Some (LedgerRefused v))
      | Inr (rows, _) \<Rightarrow> (s\<lparr>sb_requests := rows\<rparr>, None))"

text \<open>
  The handler's verdict on a message: acknowledged, given up for good, or to be delivered again.
  \<open>None\<close> for the message is bytes that do not parse.
\<close>

datatype erase_verdict = EraseAck | ErasePermanent | EraseRetry erase_error

definition valid_erase_msg :: "erase_msg \<Rightarrow> bool" where
  "valid_erase_msg m = (em_project m \<noteq> [] \<and> em_request m \<noteq> [])"

definition is_last_erase_delivery :: "nat option \<Rightarrow> int \<Rightarrow> bool" where
  "is_last_erase_delivery delivered max_deliver =
     (case delivered of None \<Rightarrow> True | Some n \<Rightarrow> max_deliver \<le> int n)"

definition handle_erase :: "(erase_call \<Rightarrow> bool) \<Rightarrow> (erase_error \<Rightarrow> string) \<Rightarrow> time \<Rightarrow> bool \<Rightarrow> erase_msg option \<Rightarrow> subject_store
    \<Rightarrow> subject_store \<times> erase_verdict" where
  "handle_erase flt msg now last_delivery data s =
     (case data of
        None \<Rightarrow> (s, ErasePermanent)
      | Some m \<Rightarrow>
          if \<not> valid_erase_msg m then (s, ErasePermanent)
          else case execute_erasure flt now (em_project m) (em_request m) s of
            (s1, None) \<Rightarrow> (s1, EraseAck)
          | (s1, Some e) \<Rightarrow>
              if e = ErrDeletionRequestNotFound then (s1, ErasePermanent)
              else if e = ErrNoErasableIdentifiers
              then (fst (mark_erasure_failed flt msg (em_project m) (em_request m) e s1), ErasePermanent)
              else ((if last_delivery then fst (mark_erasure_failed flt msg (em_project m) (em_request m) e s1) else s1),
                    EraseRetry e))"

end
