(* ===== verification/Erasure_Laws.thy ===== *)
theory Erasure_Laws
  imports Erasure
begin

text \<open>
  What the erasure's calls keep and establish: a delete removes only rows under the ids it is
  given (\<open>erased_within\<close>), all of them together clear the stores they name (\<open>stores_cleared\<close>), and every
  statement on the ledger keeps its constraints (\<open>ledger_ok\<close>) and its history (\<open>ledger_le\<close>).
\<close>

section \<open>What a delete may remove\<close>

definition only_lost :: "('r \<Rightarrow> bool) \<Rightarrow> 'r list \<Rightarrow> 'r list \<Rightarrow> bool" where
  "only_lost Q xs ys = (set ys \<subseteq> set xs \<and> filter (\<lambda>r. \<not> Q r) ys = filter (\<lambda>r. \<not> Q r) xs)"

lemma only_lost_refl [simp]: "only_lost Q xs xs"
  by (simp add: only_lost_def)

lemma only_lost_trans: "only_lost Q xs ys \<Longrightarrow> only_lost Q ys zs \<Longrightarrow> only_lost Q xs zs"
  by (auto simp: only_lost_def)

lemma only_lost_filter: "(\<And>r. Q' r \<Longrightarrow> Q r) \<Longrightarrow> only_lost Q xs (filter (\<lambda>r. \<not> Q' r) xs)"
  by (auto simp: only_lost_def intro!: filter_cong)

lemma only_lost_kept: "only_lost Q xs ys \<Longrightarrow> r \<in> set xs \<Longrightarrow> \<not> Q r \<Longrightarrow> r \<in> set ys"
proof -
  assume a: "only_lost Q xs ys" "r \<in> set xs" "\<not> Q r"
  then have "r \<in> set (filter (\<lambda>r. \<not> Q r) xs)" by simp
  then have "r \<in> set (filter (\<lambda>r. \<not> Q r) ys)" using a(1) by (simp add: only_lost_def)
  then show "r \<in> set ys" by simp
qed

definition points_at :: "string \<Rightarrow> device_row \<Rightarrow> bool" where
  "points_at pid d = (dv_profile d = Some pid)"

definition devices_within :: "string \<Rightarrow> device_row list \<Rightarrow> device_row list \<Rightarrow> bool" where
  "devices_within pid xs ys =
     ((\<forall>d\<in>set xs. \<not> points_at pid d \<longrightarrow> d \<in> set ys) \<and>
      (\<forall>d'\<in>set ys. \<exists>d\<in>set xs. d' = d \<or> points_at pid d \<and> d' = d\<lparr>dv_profile := None\<rparr>))"

lemma devices_within_refl [simp]: "devices_within pid xs xs"
  by (auto simp: devices_within_def)

lemma devices_within_trans: "devices_within pid xs ys \<Longrightarrow> devices_within pid ys zs \<Longrightarrow> devices_within pid xs zs"
  unfolding devices_within_def points_at_def by fastforce

text \<open>Every table lost at most what stands under the ids; the devices of other profiles are as they were.\<close>

definition erased_within :: "string \<Rightarrow> string \<Rightarrow> string list \<Rightarrow> subject_store \<Rightarrow> subject_store \<Rightarrow> bool" where
  "erased_within project pid ids s s' =
     (only_lost (keyed_in project ids) (sb_events s) (sb_events s') \<and>
      only_lost (keyed_in project ids) (sb_activity s) (sb_activity s') \<and>
      only_lost (aliases_to project pid) (sb_aliases s) (sb_aliases s') \<and>
      only_lost (ch_person_in project ids) (sb_chpeople s) (sb_chpeople s') \<and>
      only_lost (person_is project pid) (sb_people s) (sb_people s') \<and>
      devices_within pid (sb_devices s) (sb_devices s'))"

text \<open>What is not a person's data: the ledger and the queues.\<close>

definition same_books :: "subject_store \<Rightarrow> subject_store \<Rightarrow> bool" where
  "same_books s s' = (sb_requests s' = sb_requests s \<and> sb_erase_queue s' = sb_erase_queue s \<and>
     sb_upsert_queue s' = sb_upsert_queue s \<and> sb_alias_queue s' = sb_alias_queue s)"

definition erases :: "string \<Rightarrow> string \<Rightarrow> string list \<Rightarrow> subject_store \<Rightarrow> subject_store \<Rightarrow> bool" where
  "erases project pid ids s s' = (erased_within project pid ids s s' \<and> same_books s s')"

lemma erases_refl [simp]: "erases project pid ids s s"
  by (simp add: erases_def erased_within_def same_books_def)

lemma erases_trans: "erases project pid ids s s1 \<Longrightarrow> erases project pid ids s1 s2 \<Longrightarrow> erases project pid ids s s2"
  unfolding erases_def erased_within_def same_books_def
  by (auto elim: only_lost_trans devices_within_trans)

lemma erases_books: "erases project pid ids s s' \<Longrightarrow> sb_requests s' = sb_requests s"
  by (simp add: erases_def same_books_def)

lemma erases_delete_by:
  assumes "set vs \<subseteq> set ids" shows "erases project pid ids s (delete_by t project vs s)"
proof -
  have k: "only_lost (keyed_in project ids) xs (filter (\<lambda>r. \<not> keyed_in project vs r) xs)" for xs
    by (rule only_lost_filter) (use assms in \<open>auto simp: keyed_in_def\<close>)
  have c: "only_lost (ch_person_in project ids) xs (filter (\<lambda>r. \<not> ch_person_in project vs r) xs)" for xs
    by (rule only_lost_filter) (use assms in \<open>auto simp: ch_person_in_def\<close>)
  show ?thesis
    by (cases t) (simp_all add: delete_by_def delete_events_def delete_activity_def delete_ch_people_def erases_def
        erased_within_def same_books_def k c)
qed

lemma erases_delete_aliases: "erases project pid ids s (delete_aliases project pid s)"
proof -
  have "only_lost (aliases_to project pid) xs (filter (\<lambda>r. \<not> aliases_to project pid r) xs)" for xs
    by (rule only_lost_filter)
  then show ?thesis by (simp add: delete_aliases_def erases_def erased_within_def same_books_def)
qed

lemma erases_exec: "erases project pid ids s (del s) \<Longrightarrow> erases project pid ids s (fst (exec_mutation flt c lost del s))"
  by (simp add: exec_mutation_def)

lemma for_each_batch_rel:
  assumes "\<And>s. R s s" "\<And>s t u. R s t \<Longrightarrow> R t u \<Longrightarrow> R s u"
    and "\<And>k b s. set b \<subseteq> set vs \<Longrightarrow> R s (fst (fn k b s))"
  shows "R s (fst (for_each_batch fn k vs s))"
  using assms(3)
proof (induction fn k vs s rule: for_each_batch.induct)
  case (1 fn k s)
  show ?case by (simp add: assms(1))
next
  case (2 fn k v vs s)
  obtain s1 r where f: "fn k (take ch_batch_size (v # vs)) s = (s1, r)" by fastforce
  have "R s (fst (fn k (take ch_batch_size (v # vs)) s))" by (rule 2(2)) (meson set_take_subset)
  then have h: "R s s1" by (simp add: f)
  show ?case
  proof (cases r)
    case None
    have "R s1 (fst (for_each_batch fn (Suc k) (drop ch_batch_size (v # vs)) s1))"
      using 2(1) [OF f [symmetric] None] 2(2) by (meson set_drop_subset subset_trans)
    with h assms(2) show ?thesis by (auto simp: f None)
  qed (simp add: f h)
qed

lemma erases_by_batch: "erases project pid ids s (fst (erase_by_batch flt t project ids s))"
  unfolding erase_by_batch_def
  by (rule for_each_batch_rel) (auto intro: erases_trans erases_exec erases_delete_by)

lemma in_order_rel:
  assumes "\<And>s. R s s" "\<And>s t u. R s t \<Longrightarrow> R t u \<Longrightarrow> R s u" and "\<And>f s. f \<in> set fs \<Longrightarrow> R s (fst (f s))"
  shows "R s (fst (in_order fs s))"
  using assms(3)
proof (induction fs arbitrary: s)
  case (Cons f fs)
  obtain s1 r where f: "f s = (s1, r)" by fastforce
  then have "R s s1" using Cons.prems [of f s] by simp
  moreover have "R s1 (fst (in_order fs s1))" using Cons by simp
  ultimately show ?case using assms(2) by (auto simp: f split: option.splits)
qed (simp add: assms(1))

lemma erases_hard_delete: "erases project pid ids s (fst (hard_delete_postgres flt project pid s))"
proof -
  have p: "only_lost (person_is project pid) xs (filter (\<lambda>p. \<not> person_is project pid p) xs)" for xs
    by (rule only_lost_filter)
  have d1: "devices_within pid xs (delete_devices project pid xs)" for xs
    by (auto simp: devices_within_def delete_devices_def of_profile_def points_at_def)
  have d2: "devices_within pid xs (map (\<lambda>d. if dv_profile d = Some pid then d\<lparr>dv_profile := None\<rparr> else d) xs)" for xs
    by (auto simp: devices_within_def points_at_def split: if_splits intro!: rev_image_eqI)
  show ?thesis
    by (auto simp: hard_delete_postgres_def hard_delete_person_def Let_def erases_def erased_within_def same_books_def
        p d1 intro: devices_within_trans [OF d1 d2])
qed

lemma erases_everywhere: "erases project pid ids s (fst (erase_everywhere flt project pid ids s))"
proof -
  have c: "erases project pid ids s (fst (erase_clickhouse_person flt project pid ids s))" for s
    unfolding erase_clickhouse_person_def
    by (rule in_order_rel) (auto intro: erases_trans erases_by_batch intro!: erases_exec erases_delete_aliases)
  show ?thesis unfolding erase_everywhere_def
    by (rule in_order_rel) (auto intro: erases_trans erases_hard_delete c)
qed

section \<open>What the deletes leave\<close>

lemma delete_by_append: "delete_by t project bs (delete_by t project as s) = delete_by t project (as @ bs) s"
proof -
  have k: "filter (\<lambda>r. \<not> keyed_in project bs r) (filter (\<lambda>r. \<not> keyed_in project as r) xs)
      = filter (\<lambda>r. \<not> keyed_in project (as @ bs) r) xs" for xs
    unfolding filter_filter by (rule filter_cong) (auto simp: keyed_in_def)
  have c: "filter (\<lambda>r. \<not> ch_person_in project bs r) (filter (\<lambda>r. \<not> ch_person_in project as r) xs)
      = filter (\<lambda>r. \<not> ch_person_in project (as @ bs) r) xs" for xs
    unfolding filter_filter by (rule filter_cong) (auto simp: ch_person_in_def)
  show ?thesis
    by (cases t) (simp_all add: delete_by_def delete_events_def delete_activity_def delete_ch_people_def k c del: filter_filter)
qed

lemma delete_by_nil: "delete_by t project [] s = s"
  by (cases t) (simp_all add: delete_by_def delete_events_def delete_activity_def delete_ch_people_def keyed_in_def ch_person_in_def)

lemma exec_mutation_ok: "exec_mutation flt c lost del s = (s', None) \<Longrightarrow> s' = del s"
  by (simp add: exec_mutation_def split: if_splits)

text \<open>The batches of a table that all succeed are one delete of all ids.\<close>

lemma erase_by_batch_ok:
  assumes "erase_by_batch flt t project ids s = (s', None)" shows "s' = delete_by t project ids s"
proof -
  have "for_each_batch (\<lambda>k vs. exec_mutation flt (EcDelete t k) (EcDeleteLost t k) (delete_by t project vs)) k ids s = (s', None)
      \<Longrightarrow> s' = delete_by t project ids s" for k
  proof (induction "length ids" arbitrary: ids s k rule: less_induct)
    case less
    show ?case
    proof (cases ids)
      case Nil
      then show ?thesis using less.prems by (simp add: delete_by_nil)
    next
      case (Cons v vs)
      let ?b = "take ch_batch_size ids" and ?r = "drop ch_batch_size ids"
      obtain s1 where e: "exec_mutation flt (EcDelete t k) (EcDeleteLost t k) (delete_by t project ?b) s = (s1, None)"
        and r: "for_each_batch (\<lambda>k vs. exec_mutation flt (EcDelete t k) (EcDeleteLost t k) (delete_by t project vs)) (Suc k) ?r s1 = (s', None)"
        using less.prems by (auto simp: Cons split: prod.splits option.splits)
      have "length ?r < length ids" by (simp add: Cons ch_batch_size_def)
      then have "s' = delete_by t project ?r s1" using r by (rule less.hyps)
      then show ?thesis by (simp add: exec_mutation_ok [OF e] delete_by_append)
    qed
  qed
  then show ?thesis using assms by (simp add: erase_by_batch_def)
qed

lemma in_order_ok:
  "in_order (f # fs) s = (s', None) \<longleftrightarrow> (\<exists>s1. f s = (s1, None) \<and> in_order fs s1 = (s', None))"
  by (auto split: prod.splits option.splits)

text \<open>What completing an erasure promises of the ids and of the profile.\<close>

definition holds_none :: "string \<Rightarrow> string list \<Rightarrow> subject_store \<Rightarrow> bool" where
  "holds_none project ids s =
     (filter (keyed_in project ids) (sb_events s) = [] \<and> filter (keyed_in project ids) (sb_activity s) = [] \<and>
      filter (ch_person_in project ids) (sb_chpeople s) = [])"

definition profile_gone :: "string \<Rightarrow> string \<Rightarrow> subject_store \<Rightarrow> bool" where
  "profile_gone project pid s =
     (filter (person_is project pid) (sb_people s) = [] \<and> filter (of_profile project pid) (sb_devices s) = [] \<and>
      filter (aliases_to project pid) (sb_aliases s) = [])"

text \<open>
  The rows a completed erasure is answerable for: events, activity states and profiles of
  ClickHouse under the ids; and for a request that names a profile, the one row of that id in
  Postgres, its devices, and the ClickHouse aliases that point to it. Rows of the Postgres
  table \<open>profiles\<close> under other ids are not among them.
\<close>

definition stores_cleared :: "string \<Rightarrow> string \<Rightarrow> string list \<Rightarrow> subject_store \<Rightarrow> bool" where
  "stores_cleared project pid ids s = (holds_none project ids s \<and> (pid \<noteq> [] \<longrightarrow> profile_gone project pid s))"

lemma hard_delete_gone:
  assumes "hard_delete_postgres flt project pid s = (s', None)"
  shows "filter (person_is project pid) (sb_people s') = [] \<and> filter (of_profile project pid) (sb_devices s') = []
    \<and> sb_events s' = sb_events s \<and> sb_activity s' = sb_activity s \<and> sb_aliases s' = sb_aliases s \<and> sb_chpeople s' = sb_chpeople s"
  using assms
  by (auto simp: hard_delete_postgres_def hard_delete_person_def Let_def delete_devices_def filter_empty_conv of_profile_def
      list_ex_iff split: if_splits prod.splits)

lemma delete_by_gone:
  "filter (keyed_in project ids) (sb_events (delete_by DelEvents project ids s)) = []"
  "filter (keyed_in project ids) (sb_activity (delete_by DelActivity project ids s)) = []"
  "filter (ch_person_in project ids) (sb_chpeople (delete_by DelPeople project ids s)) = []"
  "filter (aliases_to project pid) (sb_aliases (delete_aliases project pid s)) = []"
  by (simp_all add: delete_by_def delete_events_def delete_activity_def delete_ch_people_def delete_aliases_def)

lemma delete_by_frame [simp]:
  "sb_events (delete_by DelEvents project ids s) = filter (\<lambda>r. \<not> keyed_in project ids r) (sb_events s)"
  "sb_activity (delete_by DelActivity project ids s) = filter (\<lambda>r. \<not> keyed_in project ids r) (sb_activity s)"
  "sb_events (delete_by DelActivity project ids s) = sb_events s" "sb_events (delete_by DelPeople project ids s) = sb_events s"
  "sb_activity (delete_by DelEvents project ids s) = sb_activity s" "sb_activity (delete_by DelPeople project ids s) = sb_activity s"
  "sb_chpeople (delete_by DelEvents project ids s) = sb_chpeople s" "sb_chpeople (delete_by DelActivity project ids s) = sb_chpeople s"
  "sb_people (delete_by t project ids s) = sb_people s" "sb_devices (delete_by t project ids s) = sb_devices s"
  "sb_aliases (delete_by t project ids s) = sb_aliases s" "sb_requests (delete_by t project ids s) = sb_requests s"
  by (cases t; simp add: delete_by_def delete_events_def delete_activity_def delete_ch_people_def)+

lemma delete_aliases_frame [simp]:
  "sb_events (delete_aliases project pid s) = sb_events s" "sb_activity (delete_aliases project pid s) = sb_activity s"
  "sb_chpeople (delete_aliases project pid s) = sb_chpeople s" "sb_people (delete_aliases project pid s) = sb_people s"
  "sb_devices (delete_aliases project pid s) = sb_devices s"
  by (simp_all add: delete_aliases_def)

lemma erase_everywhere_gone:
  assumes "erase_everywhere flt project pid ids s = (s', None)" shows "stores_cleared project pid ids s'"
proof -
  obtain s1 where h: "(if pid = [] then (s, None) else hard_delete_postgres flt project pid s) = (s1, None)"
    and c: "erase_clickhouse_person flt project pid ids s1 = (s', None)"
    using assms by (auto simp: erase_everywhere_def in_order_ok simp del: in_order.simps(2))
  obtain s2 s3 s4 where b1: "erase_by_batch flt DelEvents project ids s1 = (s2, None)"
    and b2: "erase_by_batch flt DelActivity project ids s2 = (s3, None)"
    and a: "(if pid = [] then (s3, None) else exec_mutation flt EcDelAliases EcDelAliasesLost (delete_aliases project pid) s3) = (s4, None)"
    and b3: "erase_by_batch flt DelPeople project ids s4 = (s', None)"
    using c unfolding erase_clickhouse_person_def by (auto simp: in_order_ok simp del: in_order.simps(2))
  have s': "s' = delete_by DelPeople project ids s4" by (rule erase_by_batch_ok [OF b3])
  have s3: "s3 = delete_by DelActivity project ids (delete_by DelEvents project ids s1)"
    using erase_by_batch_ok [OF b1] erase_by_batch_ok [OF b2] by simp
  show ?thesis
  proof (cases "pid = []")
    case True
    then show ?thesis using a by (auto simp: stores_cleared_def holds_none_def s' s3 delete_by_gone)
  next
    case False
    then have s4: "s4 = delete_aliases project pid s3" using a by (auto dest: exec_mutation_ok)
    have "hard_delete_postgres flt project pid s = (s1, None)" using h False by simp
    from hard_delete_gone [OF this] show ?thesis
      by (simp add: stores_cleared_def holds_none_def profile_gone_def s' s4 s3 delete_by_gone)
  qed
qed

text \<open>Of the Postgres profiles an erasure removes the row of the profile id and no other.\<close>

lemma hard_delete_people:
  assumes "hard_delete_postgres flt project pid s = (s', None)"
  shows "sb_people s' = filter (\<lambda>q. \<not> person_is project pid q) (sb_people s)"
proof -
  have "filter (\<lambda>q. \<not> person_is project pid q) xs = xs" if "\<not> list_ex (person_is project pid) xs" for xs
    using that by (induction xs) auto
  then show ?thesis using assms
    by (auto simp: hard_delete_postgres_def hard_delete_person_def Let_def split: if_splits prod.splits)
qed

lemma erase_everywhere_people:
  assumes "erase_everywhere flt project pid ids s = (s', None)"
  shows "sb_people s' = (if pid = [] then sb_people s else filter (\<lambda>q. \<not> person_is project pid q) (sb_people s))"
proof -
  obtain s1 where h: "(if pid = [] then (s, None) else hard_delete_postgres flt project pid s) = (s1, None)"
    and c: "erase_clickhouse_person flt project pid ids s1 = (s', None)"
    using assms by (auto simp: erase_everywhere_def in_order_ok simp del: in_order.simps(2))
  have "sb_people s' = sb_people s1"
    using c unfolding erase_clickhouse_person_def
    by (auto simp: in_order_ok simp del: in_order.simps(2) dest!: erase_by_batch_ok exec_mutation_ok split: if_splits)
  then show ?thesis using h hard_delete_people by (auto split: if_splits)
qed

section \<open>The ids of a subject\<close>

definition subject_ids :: "compliance_row \<Rightarrow> subject_store \<Rightarrow> string set" where
  "subject_ids req s =
     ({text_or_empty (cr_external req), text_or_empty (cr_profile req)} \<union>
      (if text_or_empty (cr_profile req) = [] then {}
       else al_alias ` {r \<in> set (sb_aliases s). aliases_to (cr_project req) (text_or_empty (cr_profile req)) r})) - {[]}"

lemma set_add_id: "set (add_id ids v) = (set ids \<union> {v}) - ({[]} - set ids)"
  by (auto simp: add_id_def)

lemma add_id_nonempty: "[] \<notin> set ids \<Longrightarrow> set (add_id ids v) = (set ids \<union> {v}) - {[]}"
  by (auto simp: add_id_def)

lemma foldl_add_id: "[] \<notin> set ids \<Longrightarrow> set (foldl add_id ids vs) = (set ids \<union> set vs) - {[]}"
proof (induction vs arbitrary: ids)
  case (Cons v vs)
  have "[] \<notin> set (add_id ids v)" using Cons.prems by (simp add: add_id_nonempty)
  then show ?case using Cons by (auto simp: add_id_nonempty)
qed simp

lemma resolve_distinct_ids_set:
  assumes "resolve_distinct_ids flt req s = Inr ids" shows "set ids = subject_ids req s"
proof -
  let ?e = "add_id [] (text_or_empty (cr_external req))"
  have e: "set ?e = {text_or_empty (cr_external req)} - {[]}" by (simp add: add_id_nonempty)
  then have ne: "[] \<notin> set ?e" by simp
  show ?thesis
  proof (cases "text_or_empty (cr_profile req) = []")
    case True
    then show ?thesis using assms e
      by (auto simp: resolve_distinct_ids_def Let_def subject_ids_def text_or_empty_def split: option.splits)
  next
    case False
    then obtain pid where p: "cr_profile req = Some pid" "pid \<noteq> []" by (auto simp: text_or_empty_def split: option.splits)
    have pe: "set (add_id ?e pid) = (set ?e \<union> {pid}) - {[]}" by (rule add_id_nonempty [OF ne])
    then have pn: "[] \<notin> set (add_id ?e pid)" by simp
    have "ids = foldl add_id (add_id ?e pid) (alias_ids_of (sb_aliases s) (cr_project req) pid)"
      using assms p by (simp add: resolve_distinct_ids_def Let_def split: if_splits)
    then have "set ids = (set (add_id ?e pid) \<union> set (alias_ids_of (sb_aliases s) (cr_project req) pid)) - {[]}"
      using foldl_add_id [OF pn] by simp
    then have "set ids = (({text_or_empty (cr_external req)} - {[]} \<union> {pid}) - {[]}
        \<union> al_alias ` {r \<in> set (sb_aliases s). aliases_to (cr_project req) pid r}) - {[]}"
      unfolding pe e alias_ids_of_def by simp
    moreover have "text_or_empty (cr_profile req) = pid" using p by (simp add: text_or_empty_def)
    ultimately show ?thesis using p(2) unfolding subject_ids_def by auto
  qed
qed

end
