(* ===== verification/Identify.thy ===== *)
theory Identify
  imports Person_Store
begin

text \<open>
  The workers that keep the profiles, \<open>internal/app/workers/profiles\<close>: \<open>identify\<close> writes an
  identified profile to Postgres, merges an anonymous one into it and publishes what
  ClickHouse has to know; \<open>upsert\<close> and \<open>alias\<close> write those messages to ClickHouse.
  \<open>flt\<close> says which calls fail; a publish or an insert may also arrive and report an error.
\<close>

section \<open>Messages\<close>

record identify_msg =
  im_external :: string
  im_traits :: json_object
  im_project :: string
  im_anonymous :: string
  im_device :: string

definition valid_identify_msg :: "identify_msg \<Rightarrow> bool" where
  "valid_identify_msg m = (im_external m \<noteq> [] \<and> \<not> starts_with (im_external m) id_prefix \<and> im_project m \<noteq> [])"

definition valid_upsert_msg :: "upsert_msg \<Rightarrow> bool" where
  "valid_upsert_msg m = (um_profile m \<noteq> [] \<and> um_project m \<noteq> [])"

definition valid_alias_msg :: "alias_msg \<Rightarrow> bool" where
  "valid_alias_msg m = (am_alias m \<noteq> [] \<and> am_profile m \<noteq> [] \<and> am_external m \<noteq> [] \<and> am_project m \<noteq> [])"

datatype identify_call =
    IcUpsert | IcLink | IcBegin | IcMerge | IcExists | IcReassign | IcSoftDelete | IcCommit
  | IcStruct nat | IcPublish nat | IcPublishLost nat
  | IcJson | IcPrepare | IcAppend | IcSend | IcSendLost | IcInsert | IcInsertLost

text \<open>A handler's verdict on its message: done, given up for good, or to be delivered again.\<close>

datatype identify_verdict = IdAck | IdPermanent | IdRetry identify_call

section \<open>Publishing\<close>

definition queue_upsert :: "upsert_msg \<Rightarrow> subject_store \<Rightarrow> subject_store" where
  "queue_upsert m s = s\<lparr>sb_upsert_queue := sb_upsert_queue s @ [m]\<rparr>"

definition queue_alias :: "alias_msg \<Rightarrow> subject_store \<Rightarrow> subject_store" where
  "queue_alias m s = s\<lparr>sb_alias_queue := sb_alias_queue s @ [m]\<rparr>"

definition send_msg :: "(identify_call \<Rightarrow> bool) \<Rightarrow> nat \<Rightarrow> (subject_store \<Rightarrow> subject_store) \<Rightarrow> subject_store \<Rightarrow> subject_store \<times> identify_verdict" where
  "send_msg flt n q s =
     (if flt (IcPublish n) then (s, IdRetry (IcPublish n))
      else if flt (IcPublishLost n) then (q s, IdRetry (IcPublishLost n)) else (q s, IdAck))"

text \<open>\<open>buildUpsertData\<close> and \<open>buildAliasData\<close>: the message, when it converts and validates.\<close>

definition build_upsert :: "(identify_call \<Rightarrow> bool) \<Rightarrow> nat \<Rightarrow> string \<Rightarrow> string \<Rightarrow> string \<Rightarrow> json_object \<Rightarrow> bool \<Rightarrow> time \<Rightarrow> time \<Rightarrow> upsert_msg option" where
  "build_upsert flt n pid project ext props gone ct ut =
     (let m = \<lparr>um_profile = pid, um_project = project, um_external = ext, um_properties = props, um_deleted = gone,
               um_create = ct, um_update = ut\<rparr>
      in if flt (IcStruct n) \<or> \<not> valid_upsert_msg m then None else Some m)"

definition build_alias :: "string \<Rightarrow> string \<Rightarrow> string \<Rightarrow> string \<Rightarrow> alias_msg option" where
  "build_alias anon tgt ext project =
     (let m = \<lparr>am_alias = anon, am_profile = tgt, am_external = ext, am_project = project\<rparr>
      in if valid_alias_msg m then Some m else None)"

definition external_of :: "person_row \<Rightarrow> string" where
  "external_of p = (case pf_external p of None \<Rightarrow> [] | Some e \<Rightarrow> e)"

definition publish_upsert :: "(identify_call \<Rightarrow> bool) \<Rightarrow> string \<Rightarrow> person_row \<Rightarrow> subject_store \<Rightarrow> subject_store \<times> identify_verdict" where
  "publish_upsert flt project p s =
     (case build_upsert flt 0 (pf_id p) project (external_of p) (pf_properties p) False (pf_create p) (pf_update p) of
        None \<Rightarrow> (s, IdPermanent) | Some m \<Rightarrow> send_msg flt 0 (queue_upsert m) s)"

section \<open>Identify\<close>

text \<open>The three messages of a merge, in the order they are published.\<close>

definition merge_messages :: "(identify_call \<Rightarrow> bool) \<Rightarrow> time \<Rightarrow> string \<Rightarrow> string \<Rightarrow> person_row \<Rightarrow> person_row
    \<Rightarrow> (upsert_msg \<times> upsert_msg \<times> alias_msg) option" where
  "merge_messages flt now project anon target merged =
     (case build_upsert flt 0 (pf_id merged) project (external_of merged) (pf_properties merged) False (pf_create merged) (pf_update merged) of
        None \<Rightarrow> None
      | Some u \<Rightarrow>
          (case build_upsert flt 1 anon project [] (\<lambda>_. None) True now now of
             None \<Rightarrow> None
           | Some d \<Rightarrow>
               (case build_alias anon (pf_id target) (external_of target) project of
                  None \<Rightarrow> None | Some a \<Rightarrow> Some (u, d, a))))"

definition publish_merge :: "(identify_call \<Rightarrow> bool) \<Rightarrow> upsert_msg \<times> upsert_msg \<times> alias_msg \<Rightarrow> subject_store \<Rightarrow> subject_store \<times> identify_verdict" where
  "publish_merge flt msgs s =
     (case msgs of (u, d, a) \<Rightarrow>
        (case send_msg flt 0 (queue_upsert u) s of
           (s1, IdAck) \<Rightarrow>
             (case send_msg flt 1 (queue_upsert d) s1 of
                (s2, IdAck) \<Rightarrow> send_msg flt 2 (queue_alias a) s2
              | r \<Rightarrow> r)
         | r \<Rightarrow> r))"

text \<open>The merge's transaction after the properties are merged: devices, the anonymous row, the messages, the commit.\<close>

definition finish_merge :: "(identify_call \<Rightarrow> bool) \<Rightarrow> time \<Rightarrow> string \<Rightarrow> string \<Rightarrow> person_row \<Rightarrow> person_row list \<Rightarrow> person_row
    \<Rightarrow> subject_store \<Rightarrow> subject_store \<times> identify_verdict" where
  "finish_merge flt now project anon target people merged s =
     (let s' = s\<lparr>sb_people := soft_delete_person now project anon people,
                 sb_devices := reassign_devices project anon (pf_id target) (sb_devices s)\<rparr>
      in if flt IcReassign then (s, IdRetry IcReassign)
         else if flt IcSoftDelete then (s, IdRetry IcSoftDelete)
         else case merge_messages flt now project anon target merged of
           None \<Rightarrow> (s, IdPermanent)
         | Some msgs \<Rightarrow> if flt IcCommit then (s, IdRetry IcCommit) else publish_merge flt msgs s')"

definition merge_anonymous :: "(identify_call \<Rightarrow> bool) \<Rightarrow> time \<Rightarrow> string \<Rightarrow> string \<Rightarrow> person_row \<Rightarrow> subject_store \<Rightarrow> subject_store \<times> identify_verdict" where
  "merge_anonymous flt now project anon target s =
     (if anon = pf_id target then publish_upsert flt project target s
      else if flt IcBegin then (s, IdRetry IcBegin)
      else if flt IcMerge then (s, IdRetry IcMerge)
      else case merge_person now project anon (pf_id target) (sb_people s) of
        Some (people, merged) \<Rightarrow> finish_merge flt now project anon target people merged s
      | None \<Rightarrow>
          if flt IcExists then (s, IdRetry IcExists)
          else if get_person (sb_people s) project (pf_id target) = None then publish_upsert flt project target s
          else finish_merge flt now project anon target (sb_people s) target s)"

text \<open>\<open>handleIdentify\<close>: \<open>nid\<close> is the fresh id a new profile gets, no message is bytes that do not parse.\<close>

definition handle_identify :: "(identify_call \<Rightarrow> bool) \<Rightarrow> time \<Rightarrow> string \<Rightarrow> identify_msg option \<Rightarrow> subject_store \<Rightarrow> subject_store \<times> identify_verdict" where
  "handle_identify flt now nid data s =
     (case data of
        None \<Rightarrow> (s, IdPermanent)
      | Some m \<Rightarrow>
          if \<not> valid_identify_msg m then (s, IdPermanent)
          else if flt IcUpsert then (s, IdRetry IcUpsert)
          else case upsert_person now nid (im_project m) (im_external m) (im_traits m) (sb_people s) of
            None \<Rightarrow> (s, IdRetry IcUpsert)
          | Some (people, p) \<Rightarrow>
              (let s1 = s\<lparr>sb_people := people\<rparr>;
                   s2 = s1\<lparr>sb_devices := link_device (im_project m) (im_device m) (pf_id p) people (sb_devices s1)\<rparr>;
                   s3 = (if im_device m = [] then s1 else s2)
               in if im_device m \<noteq> [] \<and> flt IcLink then (s1, IdRetry IcLink)
                  else if im_anonymous m = [] then publish_upsert flt (im_project m) p s3
                  else merge_anonymous flt now (im_project m) (im_anonymous m) p s3))"

section \<open>The ClickHouse writers\<close>

definition handle_alias :: "(identify_call \<Rightarrow> bool) \<Rightarrow> time \<Rightarrow> alias_msg option \<Rightarrow> subject_store \<Rightarrow> subject_store \<times> identify_verdict" where
  "handle_alias flt now data s =
     (case data of
        None \<Rightarrow> (s, IdPermanent)
      | Some m \<Rightarrow>
          if \<not> valid_alias_msg m then (s, IdPermanent)
          else let s' = s\<lparr>sb_aliases := sb_aliases s @
                  [\<lparr>al_alias = am_alias m, al_profile = am_profile m, al_external = am_external m,
                    al_project = am_project m, al_at = now\<rparr>]\<rparr>
               in if flt IcInsert then (s, IdRetry IcInsert)
                  else if flt IcInsertLost then (s', IdRetry IcInsertLost) else (s', IdAck))"

definition handle_upsert :: "(identify_call \<Rightarrow> bool) \<Rightarrow> upsert_msg option \<Rightarrow> subject_store \<Rightarrow> subject_store \<times> identify_verdict" where
  "handle_upsert flt data s =
     (case data of
        None \<Rightarrow> (s, IdPermanent)
      | Some m \<Rightarrow>
          if \<not> valid_upsert_msg m then (s, IdPermanent)
          else if flt IcJson then (s, IdPermanent)
          else if flt IcPrepare then (s, IdRetry IcPrepare)
          else if flt IcAppend then (s, IdPermanent)
          else let s' = s\<lparr>sb_chpeople := sb_chpeople s @
                  [\<lparr>cp_id = um_profile m, cp_project = um_project m, cp_external = um_external m,
                    cp_properties = um_properties m, cp_deleted = um_deleted m, cp_create = um_create m, cp_update = um_update m\<rparr>]\<rparr>
               in if flt IcSend then (s, IdRetry IcSend)
                  else if flt IcSendLost then (s', IdRetry IcSendLost) else (s', IdAck))"

end
