(* ===== verification/Ledger_Laws.thy ===== *)
theory Ledger_Laws
  imports Erasure_Laws Identify
begin

text \<open>
  The ledger of erasure requests. Its statements, run in any order by any number of handlers,
  keep at most one open request per subject (the interpretation \<open>ledger_stmts\<close>). Whole requests
  and deliveries, with any faults, also keep its history (\<open>subjects\<close>): a row never disappears or
  changes its subject, frozen ids stay as frozen and a completed row is final.
\<close>

section \<open>Constraints\<close>

definition collide :: "(compliance_row \<Rightarrow> string option) \<Rightarrow> compliance_row \<Rightarrow> compliance_row \<Rightarrow> bool" where
  "collide f r r' = (is_open_status (cr_status r) \<and> is_open_status (cr_status r') \<and> cr_project r' = cr_project r \<and>
     cr_kind r' = cr_kind r \<and> f r \<noteq> None \<and> f r' = f r)"

lemma collide_sym: "collide f r r' \<Longrightarrow> collide f r' r"
  by (auto simp: collide_def)

definition apart :: "(compliance_row \<Rightarrow> string option) \<Rightarrow> compliance_row list \<Rightarrow> bool" where
  "apart f rows = (\<forall>r\<in>set rows. \<forall>r'\<in>set rows. cr_id r \<noteq> cr_id r' \<longrightarrow> \<not> collide f r r')"

definition row_ok :: "compliance_row \<Rightarrow> bool" where
  "row_ok r = ((cr_profile r \<noteq> None \<or> cr_external r \<noteq> None) \<and> is_ok (parse_compliance_status (cr_status r)) \<and>
     (cr_status r = ''completed'' \<longrightarrow> cr_completed_at r \<noteq> None))"

definition ledger_ok :: "compliance_row list \<Rightarrow> bool" where
  "ledger_ok rows = (distinct (map cr_id rows) \<and> apart cr_profile rows \<and> apart cr_external rows \<and> (\<forall>r\<in>set rows. row_ok r))"

lemma clash_on_iff: "clash_on f rows r \<longleftrightarrow> (\<exists>r'\<in>set rows. cr_id r' \<noteq> cr_id r \<and> collide f r r')"
  by (auto simp: clash_on_def list_ex_iff collide_def)

lemma open_clash_None: "open_clash rows r = None \<longleftrightarrow> \<not> clash_on cr_profile rows r \<and> \<not> clash_on cr_external rows r"
  by (simp add: open_clash_def)

lemma apart_append: "apart f rows \<Longrightarrow> \<not> clash_on f rows r \<Longrightarrow> apart f (rows @ [r])"
  unfolding apart_def clash_on_iff by (auto dest: collide_sym)

lemma apart_replace:
  assumes "apart f rows" "\<not> clash_on f rows r"
  shows "apart f (map (\<lambda>r'. if cr_id r' = cr_id r then r else r') rows)"
  using assms unfolding apart_def clash_on_iff by (auto dest: collide_sym)

lemma map_id_replace: "map cr_id (map (\<lambda>r'. if cr_id r' = cr_id r then r else r') rows) = map cr_id rows"
  by simp

lemma create_request_ok:
  assumes "ledger_ok rows" "create_request now rid project kind profile ext by rows = Inr rows'"
  shows "ledger_ok rows'"
proof -
  let ?r = "\<lparr>cr_id = rid, cr_project = project, cr_kind = kind, cr_profile = profile, cr_external = ext,
     cr_status = ''pending'', cr_distinct = [], cr_events = 0, cr_requested_by = by, cr_requested_at = now,
     cr_completed_at = None, cr_error = None\<rparr>"
  have "rows' = rows @ [?r]" and c: "open_clash rows ?r = None" and n: "\<not> (profile = None \<and> ext = None)"
    and f: "\<not> list_ex (\<lambda>r'. cr_id r' = rid) rows"
    using assms(2) by (auto simp: create_request_def Let_def split: if_splits option.splits)
  moreover have "row_ok ?r" using n by (simp add: row_ok_def parse_compliance_status_def)
  ultimately show ?thesis using assms(1)
    by (auto simp: ledger_ok_def open_clash_None list_ex_iff intro!: apart_append)
qed

lemma update_request_ok:
  assumes "ledger_ok rows" "update_request rid project guard f rows = Inr (rows', k)"
    and "\<And>r. cr_id (f r) = cr_id r" "\<And>r. row_ok r \<Longrightarrow> row_ok (f r)"
  shows "ledger_ok rows'"
proof (cases "find (\<lambda>r. cr_id r = rid \<and> cr_project r = project \<and> guard r) rows")
  case None
  then show ?thesis using assms(1,2) by (simp add: update_request_def)
next
  case (Some r)
  then have r: "r \<in> set rows" "cr_id r = rid" by (auto simp: find_Some_iff)
  have c: "open_clash rows (f r) = None" and rows': "rows' = map (\<lambda>r'. if cr_id r' = cr_id (f r) then f r else r') rows"
    using assms(2) Some r(2) assms(3) by (auto simp: update_request_def split: option.splits)
  have "row_ok (f r)" using assms(1,4) r(1) by (simp add: ledger_ok_def)
  then show ?thesis using assms(1) c unfolding rows' ledger_ok_def open_clash_None map_id_replace
    by (auto intro!: apart_replace)
qed

lemma row_ok_updates:
  "row_ok r \<Longrightarrow> row_ok (r\<lparr>cr_distinct := ids, cr_events := n, cr_status := ''processing''\<rparr>)"
  "row_ok r \<Longrightarrow> row_ok (r\<lparr>cr_status := ''completed'', cr_completed_at := Some now\<rparr>)"
  "row_ok r \<Longrightarrow> row_ok (r\<lparr>cr_status := ''failed'', cr_error := why\<rparr>)"
  "row_ok r \<Longrightarrow> row_ok (r\<lparr>cr_status := ''pending'', cr_error := None\<rparr>)"
  by (simp_all add: row_ok_def parse_compliance_status_def)

lemma freeze_request_ok: "ledger_ok rows \<Longrightarrow> freeze_request rid project ids n rows = Inr (rows', k) \<Longrightarrow> ledger_ok rows'"
  unfolding freeze_request_def by (erule update_request_ok, assumption) (simp_all add: row_ok_updates)

lemma complete_request_ok: "ledger_ok rows \<Longrightarrow> complete_request now rid project rows = Inr (rows', k) \<Longrightarrow> ledger_ok rows'"
  unfolding complete_request_def by (erule update_request_ok, assumption) (simp_all add: row_ok_updates)

lemma fail_request_ok: "ledger_ok rows \<Longrightarrow> fail_request rid project why rows = Inr (rows', k) \<Longrightarrow> ledger_ok rows'"
  unfolding fail_request_def by (erule update_request_ok, assumption) (simp_all add: row_ok_updates)

lemma reopen_request_ok: "ledger_ok rows \<Longrightarrow> reopen_request rid project rows = Inr (rows', k) \<Longrightarrow> ledger_ok rows'"
  unfolding reopen_request_def by (erule update_request_ok, assumption) (simp_all add: row_ok_updates)

section \<open>Statements in any order\<close>

datatype ledger_stmt =
    LsCreate time string string string "string option" "string option" "string option"
  | LsFreeze string string "string list" nat
  | LsComplete time string string
  | LsFail string string "string option"
  | LsReopen string string

definition ledger_stmt_step :: "compliance_row list \<Rightarrow> ledger_stmt \<Rightarrow> compliance_row list" where
  "ledger_stmt_step rows st =
     (case st of
        LsCreate now rid project kind profile ext by \<Rightarrow>
          (case create_request now rid project kind profile ext by rows of Inl _ \<Rightarrow> rows | Inr rows' \<Rightarrow> rows')
      | LsFreeze rid project ids n \<Rightarrow> (case freeze_request rid project ids n rows of Inl _ \<Rightarrow> rows | Inr (rows', _) \<Rightarrow> rows')
      | LsComplete now rid project \<Rightarrow> (case complete_request now rid project rows of Inl _ \<Rightarrow> rows | Inr (rows', _) \<Rightarrow> rows')
      | LsFail rid project why \<Rightarrow> (case fail_request rid project why rows of Inl _ \<Rightarrow> rows | Inr (rows', _) \<Rightarrow> rows')
      | LsReopen rid project \<Rightarrow> (case reopen_request rid project rows of Inl _ \<Rightarrow> rows | Inr (rows', _) \<Rightarrow> rows'))"

interpretation ledger_stmts: machine_inv ledger_stmt_step ledger_ok
  by unfold_locales
    (auto simp: ledger_stmt_step_def split: ledger_stmt.splits sum.splits prod.splits
      intro: create_request_ok freeze_request_ok complete_request_ok fail_request_ok reopen_request_ok)

section \<open>History\<close>

definition same_subject :: "compliance_row \<Rightarrow> compliance_row \<Rightarrow> bool" where
  "same_subject r r' = (cr_id r' = cr_id r \<and> cr_project r' = cr_project r \<and> cr_kind r' = cr_kind r \<and>
     cr_profile r' = cr_profile r \<and> cr_external r' = cr_external r \<and> cr_requested_by r' = cr_requested_by r \<and>
     cr_requested_at r' = cr_requested_at r)"

definition row_le :: "compliance_row \<Rightarrow> compliance_row \<Rightarrow> bool" where
  "row_le r r' = (same_subject r r' \<and> (cr_distinct r \<noteq> [] \<longrightarrow> cr_distinct r' = cr_distinct r \<and> cr_events r' = cr_events r) \<and>
     (cr_completed_at r \<noteq> None \<longrightarrow> cr_completed_at r' \<noteq> None))"

definition ledger_le :: "compliance_row list \<Rightarrow> compliance_row list \<Rightarrow> bool" where
  "ledger_le rows rows' = (\<forall>r\<in>set rows. \<exists>r'\<in>set rows'. row_le r r')"

lemma row_le_refl [simp]: "row_le r r" by (simp add: row_le_def same_subject_def)

lemma row_le_trans: "row_le r r1 \<Longrightarrow> row_le r1 r2 \<Longrightarrow> row_le r r2"
  by (auto simp: row_le_def same_subject_def)

lemma ledger_le_subset: "set rows \<subseteq> set rows' \<Longrightarrow> ledger_le rows rows'"
  unfolding ledger_le_def using row_le_refl by blast

lemma ledger_le_refl [simp]: "ledger_le rows rows"
  by (simp add: ledger_le_subset)

lemma ledger_le_trans: "ledger_le a b \<Longrightarrow> ledger_le b c \<Longrightarrow> ledger_le a c"
  unfolding ledger_le_def by (meson row_le_trans)

lemma create_request_le: "create_request now rid project kind profile ext by rows = Inr rows' \<Longrightarrow> ledger_le rows rows'"
  by (rule ledger_le_subset) (auto simp: create_request_def Let_def split: if_splits option.splits)

lemma ledger_okD: "ledger_ok rows \<Longrightarrow> r \<in> set rows \<Longrightarrow> r' \<in> set rows \<Longrightarrow> cr_id r = cr_id r' \<Longrightarrow> r = r'"
  by (auto simp: ledger_ok_def distinct_map inj_on_def)

lemma update_request_Inr:
  assumes "ledger_ok rows" "update_request rid project guard f rows = Inr (rows', k)"
  shows "rows' = rows \<and> k = 0 \<and> find (\<lambda>r. cr_id r = rid \<and> cr_project r = project \<and> guard r) rows = None
    \<or> (\<exists>r\<in>set rows. cr_id r = rid \<and> cr_project r = project \<and> guard r \<and> k = 1 \<and>
         rows' = map (\<lambda>r'. if cr_id r' = rid then f r else r') rows)"
proof (cases "find (\<lambda>r. cr_id r = rid \<and> cr_project r = project \<and> guard r) rows")
  case None
  then show ?thesis using assms(2) by (simp add: update_request_def)
next
  case (Some r)
  then have r: "r \<in> set rows" "cr_id r = rid" "cr_project r = project" "guard r" by (auto simp: find_Some_iff)
  moreover have "k = 1 \<and> rows' = map (\<lambda>r'. if cr_id r' = rid then f r else r') rows"
    using assms(2) Some by (auto simp: update_request_def split: option.splits)
  ultimately show ?thesis by blast
qed

lemma update_request_le:
  assumes "ledger_ok rows" "update_request rid project guard f rows = Inr (rows', k)"
    and "\<And>r. r \<in> set rows \<Longrightarrow> cr_id r = rid \<Longrightarrow> cr_project r = project \<Longrightarrow> guard r \<Longrightarrow> row_le r (f r)"
  shows "ledger_le rows rows'"
proof -
  have m: "ledger_le rows (map (\<lambda>r'. if cr_id r' = rid then f r else r') rows)"
    if r: "r \<in> set rows" "cr_id r = rid" "cr_project r = project" "guard r" for r
    unfolding ledger_le_def
  proof
    fix r0 assume r0: "r0 \<in> set rows"
    let ?g = "\<lambda>r'. if cr_id r' = rid then f r else r'"
    have "row_le r0 (?g r0)"
    proof (cases "cr_id r0 = rid")
      case True
      then have "r0 = r" using ledger_okD [OF assms(1) r0 r(1)] r(2) by simp
      then show ?thesis using assms(3) [OF r] True by simp
    qed simp
    moreover have "?g r0 \<in> set (map ?g rows)" unfolding set_map by (rule imageI [OF r0])
    ultimately show "\<exists>r'\<in>set (map ?g rows). row_le r0 r'" by (rule bexI)
  qed
  from update_request_Inr [OF assms(1,2)] show ?thesis
  proof
    assume "\<exists>r\<in>set rows. cr_id r = rid \<and> cr_project r = project \<and> guard r \<and> k = 1 \<and>
         rows' = map (\<lambda>r'. if cr_id r' = rid then f r else r') rows"
    then show ?thesis using m by blast
  qed simp
qed

lemma complete_request_le: "ledger_ok rows \<Longrightarrow> complete_request now rid project rows = Inr (rows', k) \<Longrightarrow> ledger_le rows rows'"
  unfolding complete_request_def by (erule update_request_le, assumption) (simp add: row_le_def same_subject_def)

lemma fail_request_le: "ledger_ok rows \<Longrightarrow> fail_request rid project why rows = Inr (rows', k) \<Longrightarrow> ledger_le rows rows'"
  unfolding fail_request_def by (erule update_request_le, assumption) (simp add: row_le_def same_subject_def)

lemma reopen_request_le: "ledger_ok rows \<Longrightarrow> reopen_request rid project rows = Inr (rows', k) \<Longrightarrow> ledger_le rows rows'"
  unfolding reopen_request_def by (erule update_request_le, assumption) (simp add: row_le_def same_subject_def)

lemma freeze_request_le:
  assumes "ledger_ok rows" "freeze_request rid project ids n rows = Inr (rows', k)"
    and "\<And>r. r \<in> set rows \<Longrightarrow> cr_id r = rid \<Longrightarrow> cr_distinct r = []"
  shows "ledger_le rows rows'"
  using assms(2) unfolding freeze_request_def
  by (rule update_request_le [OF assms(1)]) (simp add: row_le_def same_subject_def assms(3))

text \<open>What a step keeps of the ledger: its constraints and its history.\<close>

definition books_kept :: "subject_store \<Rightarrow> subject_store \<Rightarrow> bool" where
  "books_kept s s' = (ledger_ok (sb_requests s) \<longrightarrow> ledger_ok (sb_requests s') \<and> ledger_le (sb_requests s) (sb_requests s'))"

lemma books_kept_refl [simp]: "books_kept s s" by (simp add: books_kept_def)

lemma books_kept_trans: "books_kept s s1 \<Longrightarrow> books_kept s1 s2 \<Longrightarrow> books_kept s s2"
  by (auto simp: books_kept_def intro: ledger_le_trans)

lemma books_kept_same: "sb_requests s' = sb_requests s \<Longrightarrow> books_kept s s'"
  by (simp add: books_kept_def)

section \<open>Requests\<close>

lemma publish_erase_books: "publish_erase flt n project rid pid ext s = (s', r) \<Longrightarrow> sb_requests s' = sb_requests s"
  by (auto simp: publish_erase_def Let_def split: if_splits)

lemma reopen_erasure_kept:
  assumes "reopen_erasure flt n project pid ext s = (s', r)" shows "books_kept s s'"
proof -
  have k: "books_kept s (s\<lparr>sb_requests := rows\<rparr>)" if "reopen_request rid project (sb_requests s) = Inr (rows, m)" for rid rows m
    using that by (simp add: books_kept_def) (blast intro: reopen_request_ok reopen_request_le)
  have d: "books_kept s1 s2" if "redrive flt n project ex st s1 = (s2, q)" for ex st s1 s2 q
    using that by (auto simp: redrive_def intro!: books_kept_same dest: publish_erase_books split: prod.splits)
  show ?thesis using assms unfolding reopen_erasure_def
    by (auto split: if_splits option.splits sum.splits prod.splits dest!: k d intro: books_kept_trans)
qed

lemma request_tx_kept: "request_tx flt now rid project ext pid by s = Inr s' \<Longrightarrow> books_kept s s'"
  unfolding request_tx_def Let_def books_kept_def
  by (auto split: if_splits sum.splits intro: create_request_ok create_request_le)

lemma request_erasure_kept: "request_erasure flt now rid project ext pid by s = (s', r) \<Longrightarrow> books_kept s s'"
  unfolding request_erasure_def
  by (auto split: sum.splits prod.splits bool.splits option.splits if_splits
      dest: reopen_erasure_kept request_tx_kept publish_erase_books intro: books_kept_trans books_kept_same)

lemma or_else_request_kept:
  assumes "or_else_request q k = (s', r)" "books_kept s (fst q)" "\<And>s1 s2 r. k s1 = (s2, r) \<Longrightarrow> books_kept s1 s2"
  shows "books_kept s s'"
proof -
  obtain s1 rid st ok e where q: "q = (s1, rid, st, ok, e)" by (metis surj_pair)
  have "s1 = s' \<or> k s1 = (s', r)" using assms(1) by (auto simp: or_else_request_def q split: option.splits if_splits)
  then show ?thesis
  proof
    assume "k s1 = (s', r)"
    then have "books_kept s1 s'" by (rule assms(3))
    with assms(2) show ?thesis unfolding q by (auto intro: books_kept_trans)
  qed (use assms(2) q in simp)
qed

lemma request_by_external_kept:
  assumes "request_by_external flt now rid project ext by s = (s', r)" shows "books_kept s s'"
proof (cases "ext = []")
  case False
  obtain q where q: "reopen_erasure flt 3 project [] ext s = q" by blast
  show ?thesis
  proof (rule or_else_request_kept)
    show "or_else_request q (\<lambda>s. if flt (EcGetByExternal 1) then (s, erase_fails (EraseCallFailed (EcGetByExternal 1)))
        else let pid = (case get_person_by_external (sb_people s) project ext of None \<Rightarrow> [] | Some p \<Rightarrow> pf_id p)
             in request_erasure flt now rid project ext pid by s) = (s', r)"
      using assms False q by (simp add: request_by_external_def)
    show "books_kept s (fst q)" using q by (cases q) (simp add: reopen_erasure_kept)
  qed (auto simp: Let_def split: if_splits option.splits intro: request_erasure_kept)
qed (use assms in \<open>simp add: request_by_external_def\<close>)

lemma request_bare_id_kept: "request_bare_id flt now rid project pid by s = (s', r) \<Longrightarrow> books_kept s s'"
  unfolding request_bare_id_def
  by (auto split: if_splits option.splits intro: request_by_external_kept request_erasure_kept)

lemma request_by_unresolved_id_kept:
  assumes "request_by_unresolved_id flt ch pick now rid project pid by s = (s', r)" shows "books_kept s s'"
  using assms unfolding request_by_unresolved_id_def
  by (auto split: if_splits option.splits intro: request_bare_id_kept request_erasure_kept
      elim!: or_else_request_kept intro!: reopen_erasure_kept [OF surjective_pairing])

lemma request_by_id_kept:
  assumes "request_by_id flt ch pick now rid project pid by s = (s', r)" shows "books_kept s s'"
  using assms unfolding request_by_id_def
  by (elim or_else_request_kept)
    (auto split: if_splits option.splits intro: request_erasure_kept request_by_unresolved_id_kept
      intro!: reopen_erasure_kept [OF surjective_pairing])

end
