(* ===== verification/Subject_Machine.thy ===== *)
theory Subject_Machine
  imports Ledger_Laws
begin

text \<open>
  The worker's deliveries on the ledger, and the machine of every writer of the subject
  tables: events that arrive, the identify, alias and upsert consumers, requests and
  deliveries. Whatever runs and fails, the ledger keeps its constraints and its history
  (the interpretation \<open>subjects\<close>).
\<close>

section \<open>Deliveries\<close>

lemma get_erase_request_Some:
  "get_erase_request rows project rid = Some r \<Longrightarrow> r \<in> set rows \<and> cr_id r = rid \<and> cr_project r = project \<and> cr_kind r = kind_erase"
  by (auto simp: get_erase_request_def find_Some_iff)

lemma find_unique: "x \<in> set xs \<Longrightarrow> P x \<Longrightarrow> (\<And>y. y \<in> set xs \<Longrightarrow> P y \<Longrightarrow> y = x) \<Longrightarrow> find P xs = Some x"
proof (cases "find P xs")
  case None
  assume "x \<in> set xs" "P x"
  with None show ?thesis by (auto simp: find_None_iff)
next
  case (Some y)
  assume u: "\<And>y. y \<in> set xs \<Longrightarrow> P y \<Longrightarrow> y = x"
  have "y \<in> set xs" "P y" using Some by (auto simp: find_Some_iff)
  from u [OF this] Some show ?thesis by simp
qed

lemma get_erase_request_iff:
  assumes "ledger_ok rows"
  shows "get_erase_request rows project rid = Some r \<longleftrightarrow> r \<in> set rows \<and> cr_id r = rid \<and> cr_project r = project \<and> cr_kind r = kind_erase"
proof
  assume r: "r \<in> set rows \<and> cr_id r = rid \<and> cr_project r = project \<and> cr_kind r = kind_erase"
  show "get_erase_request rows project rid = Some r" unfolding get_erase_request_def
  proof (rule find_unique)
    fix y assume y: "y \<in> set rows" "cr_id y = rid \<and> cr_project y = project \<and> cr_kind y = kind_erase"
    show "y = r" by (rule ledger_okD [OF assms y(1)]) (use r y(2) in simp_all)
  qed (use r in simp_all)
qed (rule get_erase_request_Some)

lemma freeze_identifiers_books:
  assumes "freeze_identifiers flt req s = (s', r)"
  shows "s' = s \<and> (\<exists>e. r = Inl e) \<or> (\<exists>ids n rows k. r = Inr ids \<and> ids \<noteq> [] \<and> set ids = subject_ids req s \<and> 0 < k
     \<and> freeze_request (cr_id req) (cr_project req) ids n (sb_requests s) = Inr (rows, k) \<and> s' = s\<lparr>sb_requests := rows\<rparr>)"
proof (cases "resolve_distinct_ids flt req s")
  case (Inr ids)
  then have i: "set ids = subject_ids req s" by (rule resolve_distinct_ids_set)
  show ?thesis using assms [unfolded freeze_identifiers_def Inr sum.case] i
    by (auto split: sum.splits if_splits prod.splits) (metis less_irrefl)+
next
  case (Inl e)
  show ?thesis using assms [unfolded freeze_identifiers_def Inl sum.case] by blast
qed

text \<open>The row of a request after its ids are frozen.\<close>

lemma frozen_ids_row:
  assumes "ledger_ok (sb_requests s)" "req \<in> set (sb_requests s)" "cr_status req \<noteq> ''completed''"
    and "frozen_ids flt req s = (s', r)"
  shows "books_kept s s' \<and> (case r of Inl _ \<Rightarrow> s' = s
     | Inr ids \<Rightarrow> ids \<noteq> [] \<and> (\<exists>req'\<in>set (sb_requests s'). same_subject req req' \<and> cr_distinct req' = ids \<and> cr_status req' \<noteq> ''completed'')
         \<and> ids = (if cr_distinct req = [] then ids else cr_distinct req)
         \<and> (cr_distinct req = [] \<longrightarrow> set ids = subject_ids req s)
         \<and> s' = s\<lparr>sb_requests := sb_requests s'\<rparr>)"
proof (cases "cr_distinct req = []")
  case False
  then have "s' = s" "r = Inr (cr_distinct req)" using assms(4) by (simp_all add: frozen_ids_def)
  then show ?thesis using False assms(2,3) by (auto simp: same_subject_def)
next
  case True
  then have f: "freeze_identifiers flt req s = (s', r)" using assms(4) by (simp add: frozen_ids_def)
  show ?thesis using freeze_identifiers_books [OF f]
  proof
    assume "\<exists>ids n rows k. r = Inr ids \<and> ids \<noteq> [] \<and> set ids = subject_ids req s \<and> 0 < k
     \<and> freeze_request (cr_id req) (cr_project req) ids n (sb_requests s) = Inr (rows, k) \<and> s' = s\<lparr>sb_requests := rows\<rparr>"
    then obtain ids n rows k where r: "r = Inr ids" "ids \<noteq> []" "set ids = subject_ids req s" "k \<noteq> 0"
      and z: "freeze_request (cr_id req) (cr_project req) ids n (sb_requests s) = Inr (rows, k)" and s': "s' = s\<lparr>sb_requests := rows\<rparr>"
      by blast
    let ?f = "\<lambda>r. r\<lparr>cr_distinct := ids, cr_events := n, cr_status := ''processing''\<rparr>"
    have "ledger_ok rows" by (rule freeze_request_ok [OF assms(1) z])
    moreover have "ledger_le (sb_requests s) rows"
      by (rule freeze_request_le [OF assms(1) z]) (use ledger_okD [OF assms(1) _ assms(2)] True in blast)
    ultimately have b: "books_kept s s'" by (simp add: books_kept_def s')
    have "\<exists>r0\<in>set (sb_requests s). cr_id r0 = cr_id req \<and> rows = map (\<lambda>r'. if cr_id r' = cr_id req then ?f r0 else r') (sb_requests s)"
      using update_request_Inr [OF assms(1) z [unfolded freeze_request_def]] r(4) by auto
    then have "rows = map (\<lambda>r'. if cr_id r' = cr_id req then ?f req else r') (sb_requests s)"
      using ledger_okD [OF assms(1) _ assms(2)] by auto
    then have "?f req \<in> set rows" using assms(2) by auto
    then have "\<exists>req'\<in>set (sb_requests s'). same_subject req req' \<and> cr_distinct req' = ids \<and> cr_status req' \<noteq> ''completed''"
      unfolding s' by (intro bexI [of _ "?f req"]) (auto simp: same_subject_def)
    then show ?thesis using b r True by (simp add: s')
  qed auto
qed

lemma mark_completed_books:
  "mark_completed flt now project rid s = (s', r) \<Longrightarrow> books_kept s s' \<and> (r = None \<or> s' = s)"
  unfolding mark_completed_def books_kept_def
  by (auto split: if_splits sum.splits prod.splits intro: complete_request_ok complete_request_le)

lemma erase_loaded_kept:
  assumes "req \<in> set (sb_requests s)" "erase_loaded flt now req s = (s', r)" shows "books_kept s s'"
proof (cases "ledger_ok (sb_requests s)")
  case ok: True
  consider "s' = s" | s1 e where "cr_status req \<noteq> ''completed''" "frozen_ids flt req s = (s1, Inl e)" "s' = s1"
    | s1 ids where "cr_status req \<noteq> ''completed''" "frozen_ids flt req s = (s1, Inr ids)"
        "in_order [erase_everywhere flt (cr_project req) (text_or_empty (cr_profile req)) ids,
                   mark_completed flt now (cr_project req) (cr_id req)] s1 = (s', r)"
    using assms(2) unfolding erase_loaded_def
    by (auto simp: is_terminal_c_def parse_compliance_status_def simp del: in_order.simps split: sum.splits if_splits prod.splits)
  then show ?thesis
  proof cases
    case (2 s1 e)
    then show ?thesis using frozen_ids_row [OF ok assms(1) 2(1,2)] by simp
  next
    case (3 s1 ids)
    have "books_kept s s1" using frozen_ids_row [OF ok assms(1) 3(1,2)] by simp
    moreover have "books_kept s1 (fst (in_order [erase_everywhere flt (cr_project req) (text_or_empty (cr_profile req)) ids,
                   mark_completed flt now (cr_project req) (cr_id req)] s1))"
      by (rule in_order_rel)
        (auto intro: books_kept_trans books_kept_same erases_books [OF erases_everywhere]
          mark_completed_books [OF surjective_pairing, THEN conjunct1])
    ultimately show ?thesis using 3(3) by (auto intro: books_kept_trans)
  qed simp
qed (simp add: books_kept_def)

lemma execute_erasure_kept: "execute_erasure flt now project rid s = (s', r) \<Longrightarrow> books_kept s s'"
  unfolding execute_erasure_def
  by (auto split: if_splits option.splits dest!: get_erase_request_Some intro: erase_loaded_kept)

lemma mark_erasure_failed_kept: "books_kept s (fst (mark_erasure_failed flt msg project rid e s))"
  unfolding mark_erasure_failed_def books_kept_def
  by (auto split: sum.splits prod.splits intro: fail_request_ok fail_request_le)

lemma handle_erase_kept: "handle_erase flt msg now last_delivery data s = (s', v) \<Longrightarrow> books_kept s s'"
  unfolding handle_erase_def
  by (auto split: option.splits if_splits prod.splits dest!: execute_erasure_kept
      intro: books_kept_trans [OF _ mark_erasure_failed_kept])

section \<open>The machine\<close>

datatype subject_event =
    SeIngest keyed_row
  | SeIdentify "identify_call \<Rightarrow> bool" time string "identify_msg option"
  | SeAlias "identify_call \<Rightarrow> bool" time "alias_msg option"
  | SeUpsert "identify_call \<Rightarrow> bool" "upsert_msg option"
  | SeById "erase_call \<Rightarrow> bool" bool "alias_row list \<Rightarrow> alias_row" time string string string string
  | SeByExternal "erase_call \<Rightarrow> bool" time string string string string
  | SeErase "erase_call \<Rightarrow> bool" "erase_error \<Rightarrow> string" time bool "erase_msg option"

definition ingest_row :: "keyed_row \<Rightarrow> subject_store \<Rightarrow> subject_store" where
  "ingest_row r s = s\<lparr>sb_events := sb_events s @ [r],
     sb_activity := sb_activity s @ (if starts_with (kr_distinct r) id_prefix then [] else [r])\<rparr>"

definition subject_step :: "subject_store \<Rightarrow> subject_event \<Rightarrow> subject_store" where
  "subject_step s e =
     (case e of
        SeIngest r \<Rightarrow> ingest_row r s
      | SeIdentify flt now nid m \<Rightarrow> fst (handle_identify flt now nid m s)
      | SeAlias flt now m \<Rightarrow> fst (handle_alias flt now m s)
      | SeUpsert flt m \<Rightarrow> fst (handle_upsert flt m s)
      | SeById flt ch pick now rid project pid by \<Rightarrow> fst (request_by_id flt ch pick now rid project pid by s)
      | SeByExternal flt now rid project ext by \<Rightarrow> fst (request_by_external flt now rid project ext by s)
      | SeErase flt msg now last_delivery m \<Rightarrow> fst (handle_erase flt msg now last_delivery m s))"

lemma send_msg_books: "(\<And>s. sb_requests (q s) = sb_requests s) \<Longrightarrow> sb_requests (fst (send_msg flt n q s)) = sb_requests s"
  by (simp add: send_msg_def)

lemma queue_books [simp]: "sb_requests (queue_upsert m s) = sb_requests s" "sb_requests (queue_alias m' s) = sb_requests s"
  by (simp_all add: queue_upsert_def queue_alias_def)

lemma publish_upsert_books [simp]: "sb_requests (fst (publish_upsert flt project p s)) = sb_requests s"
  by (simp add: publish_upsert_def send_msg_books split: option.splits)

lemma publish_merge_books [simp]: "sb_requests (fst (publish_merge flt msgs s)) = sb_requests s"
  by (auto simp: publish_merge_def send_msg_def split: prod.splits)

lemma handle_identify_books [simp]: "sb_requests (fst (handle_identify flt now nid m s)) = sb_requests s"
  by (auto simp: handle_identify_def Let_def merge_anonymous_def finish_merge_def split: option.splits prod.splits)

lemma handle_alias_books [simp]: "sb_requests (fst (handle_alias flt now m s)) = sb_requests s"
  by (auto simp: handle_alias_def Let_def split: option.splits)

lemma handle_upsert_books [simp]: "sb_requests (fst (handle_upsert flt m s)) = sb_requests s"
  by (auto simp: handle_upsert_def Let_def split: option.splits)

lemma subject_step_kept: "books_kept s (subject_step s e)"
  by (cases e)
    (auto simp: subject_step_def ingest_row_def intro: books_kept_same request_by_id_kept [OF surjective_pairing]
      request_by_external_kept [OF surjective_pairing] handle_erase_kept [OF surjective_pairing])

interpretation subjects: machine_mono subject_step "\<lambda>s. ledger_ok (sb_requests s)" sb_requests ledger_le
  by unfold_locales (use subject_step_kept in \<open>auto simp: books_kept_def intro: ledger_le_trans\<close>)

end
