(* ===== verification/Subject_Demo.thy ===== *)
theory Subject_Demo
  imports Subject_Machine
begin

text \<open>
  One person followed through the handlers, for the examples of the claims: a visitor with an
  anonymous id is identified, aliased, asked to be erased and erased; beside it the delivery
  that fails half way, and the events of another project under the same external id.
\<close>

definition demo_project :: string where "demo_project = ''prj1''"
definition demo_ok :: "'c \<Rightarrow> bool" where "demo_ok c = False"

definition demo_store :: subject_store where
  "demo_store = \<lparr>sb_requests = [], sb_people = [], sb_devices = [],
     sb_events = [\<lparr>kr_project = demo_project, kr_distinct = ''anon-1''\<rparr>, \<lparr>kr_project = demo_project, kr_distinct = ''u1''\<rparr>,
       \<lparr>kr_project = ''prj2'', kr_distinct = ''u1''\<rparr>],
     sb_activity = [\<lparr>kr_project = demo_project, kr_distinct = ''anon-1''\<rparr>],
     sb_aliases = [], sb_chpeople = [], sb_erase_queue = [], sb_upsert_queue = [], sb_alias_queue = []\<rparr>"

definition demo_identify :: "string \<Rightarrow> identify_msg" where
  "demo_identify anon = \<lparr>im_external = ''u1'', im_traits = [''plan'' \<mapsto> ''pro''], im_project = demo_project, im_anonymous = anon, im_device = []\<rparr>"

definition demo_alias :: "string \<Rightarrow> string \<Rightarrow> alias_msg" where
  "demo_alias anon pid = \<lparr>am_alias = anon, am_profile = pid, am_external = ''u1'', am_project = demo_project\<rparr>"

definition demo_erase_msg :: "string \<Rightarrow> erase_msg" where
  "demo_erase_msg rid = \<lparr>em_project = demo_project, em_request = rid, em_profile = [], em_external = []\<rparr>"

definition demo_pick :: "alias_row list \<Rightarrow> alias_row" where "demo_pick rows = hd rows"
definition demo_text :: "erase_error \<Rightarrow> string" where "demo_text e = ''clickhouse: timeout''"

definition demo_identified :: subject_store where
  "demo_identified = fst (handle_identify demo_ok 10 ''P1'' (Some (demo_identify ''anon-1'')) demo_store)"
definition demo_aliased :: subject_store where
  "demo_aliased = fst (handle_alias demo_ok 20 (Some (demo_alias ''anon-1'' ''P1'')) demo_identified)"
definition demo_requested :: subject_store where
  "demo_requested = fst (request_by_external demo_ok 30 ''R1'' demo_project ''u1'' ''C1'' demo_aliased)"
definition demo_erased :: subject_store where
  "demo_erased = fst (execute_erasure demo_ok 40 demo_project ''R1'' demo_requested)"

text \<open>The delivery that loses ClickHouse at its second delete.\<close>

definition demo_fault :: "erase_call \<Rightarrow> bool" where "demo_fault c = (c = EcDelete DelActivity 0)"
definition demo_half :: subject_store where
  "demo_half = fst (execute_erasure demo_fault 40 demo_project ''R1'' demo_requested)"

definition demo_request :: "string list \<Rightarrow> string \<Rightarrow> compliance_row" where
  "demo_request ids st = \<lparr>cr_id = ''R1'', cr_project = demo_project, cr_kind = ''erase'', cr_profile = Some ''P1'', cr_external = Some ''u1'',
     cr_status = st, cr_distinct = ids, cr_events = (if ids = [] then 0 else 2), cr_requested_by = Some ''C1'', cr_requested_at = 30,
     cr_completed_at = (if st = ''completed'' then Some 40 else None), cr_error = None\<rparr>"

definition demo_ids :: "string list" where "demo_ids = [''u1'', ''P1'', ''anon-1'']"

lemma demo_request_rows: "sb_requests demo_requested = [demo_request [] ''pending'']"
  by code_simp

lemma demo_half_rows: "sb_requests demo_half = [demo_request demo_ids ''processing'']"
  by code_simp

lemma demo_erased_rows: "sb_requests demo_erased = [demo_request demo_ids ''completed'']"
  by code_simp

lemma demo_identified_ack: "handle_identify demo_ok 10 ''P1'' (Some (demo_identify ''anon-1'')) demo_store = (demo_identified, IdAck)"
proof -
  have "snd (handle_identify demo_ok 10 ''P1'' (Some (demo_identify ''anon-1'')) demo_store) = IdAck" by code_simp
  then show ?thesis by (simp add: demo_identified_def prod_eq_iff)
qed

lemma demo_aliased_ack: "handle_alias demo_ok 20 (Some (demo_alias ''anon-1'' ''P1'')) demo_identified = (demo_aliased, IdAck)"
proof -
  have "snd (handle_alias demo_ok 20 (Some (demo_alias ''anon-1'' ''P1'')) demo_identified) = IdAck" by code_simp
  then show ?thesis by (simp add: demo_aliased_def prod_eq_iff)
qed

lemma demo_requested_ok:
  "request_by_external demo_ok 30 ''R1'' demo_project ''u1'' ''C1'' demo_aliased = (demo_requested, ''R1'', Some CPending, None)"
proof -
  have "snd (request_by_external demo_ok 30 ''R1'' demo_project ''u1'' ''C1'' demo_aliased) = (''R1'', Some CPending, None)" by code_simp
  then show ?thesis by (simp add: demo_requested_def prod_eq_iff)
qed

lemma demo_erased_ok: "execute_erasure demo_ok 40 demo_project ''R1'' demo_requested = (demo_erased, None)"
proof -
  have "snd (execute_erasure demo_ok 40 demo_project ''R1'' demo_requested) = None" by code_simp
  then show ?thesis by (simp add: demo_erased_def prod_eq_iff)
qed

lemma demo_half_err: "execute_erasure demo_fault 40 demo_project ''R1'' demo_requested = (demo_half, Some (EraseCallFailed (EcDelete DelActivity 0)))"
proof -
  have "snd (execute_erasure demo_fault 40 demo_project ''R1'' demo_requested) = Some (EraseCallFailed (EcDelete DelActivity 0))" by code_simp
  then show ?thesis by (simp add: demo_half_def prod_eq_iff)
qed

lemma demo_ledger_ok: "ledger_ok [demo_request ids st]" if "is_ok (parse_compliance_status st)"
  using that by (simp add: ledger_ok_def apart_def row_ok_def demo_request_def)

end
