(* ===== verification/Erasure_Claims.thy ===== *)
theory Erasure_Claims
  imports Subject_Demo
begin

text \<open>
  The properties of data-subject erasure: a completed request cleared its stores of the ids on
  its row, no delivery touches anything else, an interrupted one is finished over the ids
  first frozen, a subject has one open request, and what identification merged is erased
  with the person.
\<close>

section \<open>One delivery\<close>

lemma erase_loaded_cases:
  assumes "ledger_ok (sb_requests s)" "req \<in> set (sb_requests s)" "erase_loaded flt now req s = (s', r)"
  obtains (Unchanged) "s' = s" "r = None \<Longrightarrow> cr_status req = ''completed''"
  | (Erased) s1 ids req1 s2 r2 where "cr_status req \<noteq> ''completed''" "books_kept s s1" "s1 = s\<lparr>sb_requests := sb_requests s1\<rparr>"
      "ids \<noteq> []" "cr_distinct req = [] \<Longrightarrow> set ids = subject_ids req s" "cr_distinct req \<noteq> [] \<Longrightarrow> ids = cr_distinct req"
      "req1 \<in> set (sb_requests s1)" "same_subject req req1" "cr_distinct req1 = ids" "cr_status req1 \<noteq> ''completed''"
      "erase_everywhere flt (cr_project req) (text_or_empty (cr_profile req)) ids s1 = (s2, r2)"
      "(r2 \<noteq> None \<and> s' = s2 \<and> r = r2) \<or> (r2 = None \<and> mark_completed flt now (cr_project req) (cr_id req) s2 = (s', r))"
proof -
  consider (u) "s' = s" "r = None \<Longrightarrow> cr_status req = ''completed''"
    | (f) s1 q where "cr_status req \<noteq> ''completed''" "frozen_ids flt req s = (s1, q)"
       "(case q of Inl e \<Rightarrow> s' = s1 \<and> r = Some e
        | Inr ids \<Rightarrow> in_order [erase_everywhere flt (cr_project req) (text_or_empty (cr_profile req)) ids,
                   mark_completed flt now (cr_project req) (cr_id req)] s1 = (s', r))"
    using assms(3) unfolding erase_loaded_def
    by (auto simp: is_terminal_c_def parse_compliance_status_def simp del: in_order.simps split: sum.splits if_splits prod.splits)
  then show thesis
  proof cases
    case (f s1 q)
    note z = frozen_ids_row [OF assms(1,2) f(1,2)]
    show thesis
    proof (cases q)
      case (Inl e)
      then show thesis using Unchanged z f(3) by simp
    next
      case (Inr ids)
      have k: "books_kept s s1" "s1 = s\<lparr>sb_requests := sb_requests s1\<rparr>" "ids \<noteq> []"
        "cr_distinct req = [] \<Longrightarrow> set ids = subject_ids req s" "cr_distinct req \<noteq> [] \<Longrightarrow> ids = cr_distinct req"
        using z Inr by (auto split: if_splits)
      obtain req1 where q1: "req1 \<in> set (sb_requests s1)" "same_subject req req1" "cr_distinct req1 = ids" "cr_status req1 \<noteq> ''completed''"
        using z Inr by auto
      obtain s2 r2 where e: "erase_everywhere flt (cr_project req) (text_or_empty (cr_profile req)) ids s1 = (s2, r2)" by fastforce
      have "(r2 \<noteq> None \<and> s' = s2 \<and> r = r2) \<or> (r2 = None \<and> mark_completed flt now (cr_project req) (cr_id req) s2 = (s', r))"
        using f(3) by (auto simp: Inr e split: option.splits prod.splits)
      then show thesis using Erased [OF f(1) k q1 e] by blast
    qed
  qed (use Unchanged in blast)
qed

lemma mark_completed_ok:
  assumes "ledger_ok (sb_requests s)" "mark_completed flt now project rid s = (s', None)"
    and "r \<in> set (sb_requests s)" "cr_id r = rid"
  shows "s' = s\<lparr>sb_requests := sb_requests s'\<rparr> \<and> r\<lparr>cr_status := ''completed'', cr_completed_at := Some now\<rparr> \<in> set (sb_requests s')"
proof -
  obtain rows k where c: "complete_request now rid project (sb_requests s) = Inr (rows, k)" "k \<noteq> 0" "s' = s\<lparr>sb_requests := rows\<rparr>"
    using assms(2) by (auto simp: mark_completed_def split: if_splits sum.splits prod.splits)
  let ?f = "\<lambda>r. r\<lparr>cr_status := ''completed'', cr_completed_at := Some now\<rparr>"
  obtain r0 where r0: "r0 \<in> set (sb_requests s)" "cr_id r0 = rid"
      "rows = map (\<lambda>r'. if cr_id r' = rid then ?f r0 else r') (sb_requests s)"
    using update_request_Inr [OF assms(1) c(1) [unfolded complete_request_def]] c(2) by auto
  have "r0 = r" by (rule ledger_okD [OF assms(1) r0(1) assms(3)]) (simp add: r0(2) assms(4))
  then have "?f r \<in> set rows" using r0(3) assms(3,4) by force
  then show ?thesis by (simp add: c(3))
qed

lemma stores_cleared_books: "stores_cleared project pid ids (s\<lparr>sb_requests := rows\<rparr>) = stores_cleared project pid ids s"
  by (simp add: stores_cleared_def holds_none_def profile_gone_def)

text \<open>The Postgres profiles without the row of a profile id, where there is one.\<close>

definition people_after :: "string \<Rightarrow> string \<Rightarrow> person_row list \<Rightarrow> person_row list" where
  "people_after project pid rows = (if pid = [] then rows else filter (\<lambda>q. \<not> person_is project pid q) rows)"

lemma erase_loaded_completes:
  assumes "ledger_ok (sb_requests s)" "get_erase_request (sb_requests s) project rid = Some req" "cr_status req \<noteq> ''completed''"
    and "erase_loaded flt now req s = (s', None)"
  shows "\<exists>ids r. ids \<noteq> [] \<and> (cr_distinct req = [] \<longrightarrow> set ids = subject_ids req s) \<and> (cr_distinct req \<noteq> [] \<longrightarrow> ids = cr_distinct req)
    \<and> stores_cleared project (text_or_empty (cr_profile req)) ids s'
    \<and> sb_people s' = people_after project (text_or_empty (cr_profile req)) (sb_people s)
    \<and> get_erase_request (sb_requests s') project rid = Some r \<and> same_subject req r \<and> cr_distinct r = ids
    \<and> cr_status r = ''completed'' \<and> cr_completed_at r = Some now"
proof -
  have req: "req \<in> set (sb_requests s)" "cr_id req = rid" "cr_project req = project" "cr_kind req = kind_erase"
    using get_erase_request_Some [OF assms(2)] by blast+
  from assms(1) req(1) assms(4) show ?thesis
  proof (cases rule: erase_loaded_cases)
    case (Erased s1 ids req1 s2 r2)
    have c: "r2 = None" "mark_completed flt now project rid s2 = (s', None)" using Erased(12) req by auto
    have g: "stores_cleared project (text_or_empty (cr_profile req)) ids s2"
      using erase_everywhere_gone Erased(11) c(1) req(3) by metis
    have ppl: "sb_people s2 = people_after project (text_or_empty (cr_profile req)) (sb_people s)"
    proof -
      have "sb_people s1 = sb_people s" by (subst Erased(3)) simp
      then show ?thesis using erase_everywhere_people Erased(11) c(1) req(3) unfolding people_after_def by metis
    qed
    have b: "sb_requests s2 = sb_requests s1"
      using erases_books [OF erases_everywhere, of flt "cr_project req" "text_or_empty (cr_profile req)" ids s1] Erased(11) by simp
    have ok: "ledger_ok (sb_requests s2)" using Erased(2) assms(1) by (simp add: b books_kept_def)
    have id: "cr_id req1 = rid" using Erased(8) req(2) by (simp add: same_subject_def)
    let ?r = "req1\<lparr>cr_status := ''completed'', cr_completed_at := Some now\<rparr>"
    have m: "s' = s2\<lparr>sb_requests := sb_requests s'\<rparr>" "?r \<in> set (sb_requests s')"
      using mark_completed_ok [OF ok c(2) _ id] Erased(7) b by auto
    have ok': "ledger_ok (sb_requests s')" using mark_completed_books [OF c(2)] ok by (simp add: books_kept_def)
    have "get_erase_request (sb_requests s') project rid = Some ?r"
      unfolding get_erase_request_iff [OF ok'] using m(2) Erased(8) req by (simp add: same_subject_def)
    moreover have "stores_cleared project (text_or_empty (cr_profile req)) ids s'" by (subst m(1)) (simp add: stores_cleared_books g)
    moreover have "sb_people s' = people_after project (text_or_empty (cr_profile req)) (sb_people s)" by (subst m(1)) (simp add: ppl)
    moreover have "same_subject req ?r" using Erased(8) by (simp add: same_subject_def)
    ultimately show ?thesis using Erased(4,5,6,9)
      by (intro exI [of _ ids] exI [of _ ?r]) auto
  qed (use assms(3) in simp)
qed

lemma execute_erasure_loaded:
  "get_erase_request (sb_requests s) project rid = Some req \<Longrightarrow> execute_erasure flt now project rid s = (s', r) \<Longrightarrow>
    erase_loaded flt now req s = (s', r) \<or> s' = s \<and> r = Some (EraseCallFailed EcLoad)"
  by (auto simp: execute_erasure_def split: if_splits)

text \<open>
  C31. A delivery that completes a request has cleared these stores: no event, no activity state
  and no ClickHouse profile is left under the ids recorded on the request, and, where it names
  a profile, neither that profile's Postgres row nor its devices nor the aliases pointing to
  it. The ids are those already frozen, or else all the subject had: external id, profile id
  and every alias. Of the Postgres profiles exactly the row of the profile id is removed:
  a row of an anonymous profile merged into it before stays there, hidden
  (\<open>merged_profile_row_survives_erasure\<close>).
\<close>

theorem completed_erasure_clears_stores:
  assumes "ledger_ok (sb_requests s)" "get_erase_request (sb_requests s) project rid = Some req" "cr_status req \<noteq> ''completed''"
    and "execute_erasure flt now project rid s = (s', None)"
  shows "\<exists>ids r. ids \<noteq> [] \<and> (cr_distinct req = [] \<longrightarrow> set ids = subject_ids req s) \<and> (cr_distinct req \<noteq> [] \<longrightarrow> ids = cr_distinct req)
    \<and> stores_cleared project (text_or_empty (cr_profile req)) ids s'
    \<and> sb_people s' = people_after project (text_or_empty (cr_profile req)) (sb_people s)
    \<and> get_erase_request (sb_requests s') project rid = Some r \<and> same_subject req r \<and> cr_distinct r = ids
    \<and> cr_status r = ''completed'' \<and> cr_completed_at r = Some now"
  using erase_loaded_completes [OF assms(1-3)] execute_erasure_loaded [OF assms(2,4)] by simp

theorem completed_erasure_clears_stores_witness:
  "\<exists>ids r. set ids = subject_ids (demo_request [] ''pending'') demo_requested \<and> stores_cleared demo_project ''P1'' ids demo_erased
    \<and> get_erase_request (sb_requests demo_erased) demo_project ''R1'' = Some r \<and> cr_status r = ''completed'' \<and> cr_completed_at r = Some 40"
proof -
  have l: "ledger_ok (sb_requests demo_requested)" by (simp add: demo_request_rows demo_ledger_ok parse_compliance_status_def)
  have g: "get_erase_request (sb_requests demo_requested) demo_project ''R1'' = Some (demo_request [] ''pending'')"
    by (simp add: demo_request_rows get_erase_request_def demo_request_def kind_erase_def)
  have n: "cr_status (demo_request [] ''pending'') \<noteq> ''completed''" by (simp add: demo_request_def)
  show ?thesis using completed_erasure_clears_stores [OF l g n demo_erased_ok]
    by (auto simp: demo_request_def text_or_empty_def)
qed

text \<open>
  C32. Whatever calls of a delivery fail, it removes nothing but what stands under the request's
  ids in its project and under its profile, and before anything is removed the ids are on the
  request's row.
\<close>

theorem erasure_spares_everyone_else:
  assumes "ledger_ok (sb_requests s)" "get_erase_request (sb_requests s) project rid = Some req"
    and "execute_erasure flt now project rid s = (s', res)"
  shows "\<exists>ids. erased_within project (text_or_empty (cr_profile req)) ids s s'
    \<and> set ids \<subseteq> (if cr_distinct req = [] then subject_ids req s else set (cr_distinct req))
    \<and> (s' = s \<or> (\<exists>r. get_erase_request (sb_requests s') project rid = Some r \<and> same_subject req r \<and> cr_distinct r = ids))"
proof -
  have req: "req \<in> set (sb_requests s)" "cr_id req = rid" "cr_project req = project" "cr_kind req = kind_erase"
    using get_erase_request_Some [OF assms(2)] by blast+
  have triv: "erased_within project (text_or_empty (cr_profile req)) [] s s" by (simp add: erased_within_def)
  have same: "erased_within p d i s a \<Longrightarrow> b = a\<lparr>sb_requests := sb_requests b\<rparr> \<Longrightarrow> erased_within p d i s b" for p d i a b
    by (cases a; cases b) (simp add: erased_within_def)
  show ?thesis
  proof (cases "s' = s")
    case True
    then show ?thesis using triv by (intro exI [of _ "[]"]) simp
  next
    case False
    then have "erase_loaded flt now req s = (s', res)"
      using assms(2,3) by (simp add: execute_erasure_def split: if_splits)
    with assms(1) req(1) show ?thesis
    proof (cases rule: erase_loaded_cases)
      case (Erased s1 ids req1 s2 r2)
      have e: "erases project (text_or_empty (cr_profile req)) ids s1 s2"
        using erases_everywhere [of project "text_or_empty (cr_profile req)" ids s1 flt] Erased(11) req(3) by simp
      have w1: "erased_within project (text_or_empty (cr_profile req)) ids s s2"
        using e Erased(3) by (cases s; cases s1) (simp add: erases_def erased_within_def)
      have m: "s' = s2 \<or> s' = s2\<lparr>sb_requests := sb_requests s'\<rparr>"
        using Erased(12) by (auto simp: mark_completed_def split: if_splits sum.splits prod.splits)
      have w: "erased_within project (text_or_empty (cr_profile req)) ids s s'"
        using m same [OF w1] w1 by auto
      have k: "books_kept s2 s'" using Erased(12) mark_completed_books by auto
      have b: "sb_requests s2 = sb_requests s1" by (rule erases_books [OF e])
      have ok1: "ledger_ok (sb_requests s2)" using Erased(2) assms(1) by (simp add: b books_kept_def)
      then have ok: "ledger_ok (sb_requests s')" and le: "ledger_le (sb_requests s2) (sb_requests s')" using k by (simp_all add: books_kept_def)
      obtain r where r: "r \<in> set (sb_requests s')" "row_le req1 r" using le Erased(7) by (auto simp: ledger_le_def b)
      have "get_erase_request (sb_requests s') project rid = Some r \<and> same_subject req r \<and> cr_distinct r = ids"
        unfolding get_erase_request_iff [OF ok] using r Erased(4,8,9) req by (simp add: row_le_def same_subject_def)
      then show ?thesis using w Erased(5,6) by (intro exI [of _ ids]) auto
    qed (use False in simp)
  qed
qed

theorem erasure_spares_everyone_else_witness:
  "\<exists>ids. erased_within demo_project ''P1'' ids demo_requested demo_half \<and> set ids \<subseteq> subject_ids (demo_request [] ''pending'') demo_requested
    \<and> length (sb_events demo_half) = 1 \<and> length (sb_activity demo_half) = 1"
proof -
  have l: "ledger_ok (sb_requests demo_requested)" by (simp add: demo_request_rows demo_ledger_ok parse_compliance_status_def)
  have g: "get_erase_request (sb_requests demo_requested) demo_project ''R1'' = Some (demo_request [] ''pending'')"
    by (simp add: demo_request_rows get_erase_request_def demo_request_def kind_erase_def)
  have e: "length (sb_events demo_half) = 1" "length (sb_activity demo_half) = 1" by code_simp+
  show ?thesis using erasure_spares_everyone_else [OF l g demo_half_err] e
    by (auto simp: demo_request_def text_or_empty_def)
qed

section \<open>Deliveries in a run\<close>

text \<open>
  C33. A delivery may fail anywhere after the ids are frozen, some stores emptied and others not,
  the aliases it resolved gone. Whatever happens next, a later delivery of the request that
  succeeds clears the stores of C31 for the ids the subject had at the first delivery and for the
  profile the request names: no event, activity state or ClickHouse profile under those ids
  and no Postgres row of that profile, its devices or the aliases pointing to it. It removes no other
  Postgres profile, so a person who came back meanwhile under a new profile, be it with the same
  external id, keeps that one (\<open>reopened_request_misses_what_came_back\<close>).
\<close>

theorem interrupted_erasure_is_finished:
  assumes "ledger_ok (sb_requests s)" "get_erase_request (sb_requests s) project rid = Some req"
    and "cr_status req \<noteq> ''completed''" "cr_distinct req = []"
    and "execute_erasure flt now project rid s = (s1, Some e)"
    and "get_erase_request (sb_requests s1) project rid = Some r1" "cr_distinct r1 \<noteq> []"
    and "get_erase_request (sb_requests (run_events subject_step s1 es)) project rid = Some r2" "cr_status r2 \<noteq> ''completed''"
    and "execute_erasure flt2 now2 project rid (run_events subject_step s1 es) = (s3, None)"
  shows "(\<exists>ids. set ids = subject_ids req s \<and> stores_cleared project (text_or_empty (cr_profile req)) ids s3)
    \<and> sb_people s3 = people_after project (text_or_empty (cr_profile req)) (sb_people (run_events subject_step s1 es))"
proof -
  let ?s2 = "run_events subject_step s1 es"
  have ok1: "ledger_ok (sb_requests s1)" using execute_erasure_kept [OF assms(5)] assms(1) by (simp add: books_kept_def)
  have ok2: "ledger_ok (sb_requests ?s2)" using subjects.run_inv [OF ok1] .
  have d1: "set (cr_distinct r1) = subject_ids req s" "same_subject req r1"
  proof -
    have req: "req \<in> set (sb_requests s)" "cr_id req = rid" "cr_project req = project" "cr_kind req = kind_erase"
      using get_erase_request_Some [OF assms(2)] by blast+
    have "s1 \<noteq> s" using assms(2,4,6,7) by auto
    have "erase_loaded flt now req s = (s1, Some e)"
      using assms(2,5) \<open>s1 \<noteq> s\<close> by (simp add: execute_erasure_def split: if_splits)
    with assms(1) req(1) have "set (cr_distinct r1) = subject_ids req s \<and> same_subject req r1"
    proof (cases rule: erase_loaded_cases)
      case (Erased sa ids req1 sb r2)
      have b: "sb_requests s1 = sb_requests sa"
        using Erased(12) erases_books [OF erases_everywhere, of flt "cr_project req" "text_or_empty (cr_profile req)" ids sa] Erased(11)
        by (auto dest: mark_completed_books)
      have r1: "r1 \<in> set (sb_requests s1)" "cr_id r1 = rid" using get_erase_request_Some [OF assms(6)] by blast+
      have "r1 = req1"
        by (rule ledger_okD [OF ok1 r1(1)]) (use Erased(7,8) b r1(2) req(2) in \<open>simp_all add: same_subject_def\<close>)
      then show ?thesis using Erased(5,8,9) assms(4) by simp
    qed (use \<open>s1 \<noteq> s\<close> in simp)
    then show "set (cr_distinct r1) = subject_ids req s" "same_subject req r1" by blast+
  qed
  have "row_le r1 r2"
  proof -
    obtain r where r: "r \<in> set (sb_requests ?s2)" "row_le r1 r"
      using subjects.run_mono [OF ok1, of es] get_erase_request_Some [OF assms(6)] by (auto simp: ledger_le_def)
    have "r = r2"
      by (rule ledger_okD [OF ok2 r(1)])
        (use get_erase_request_Some [OF assms(8)] get_erase_request_Some [OF assms(6)] r(2) in \<open>auto simp: row_le_def same_subject_def\<close>)
    then show ?thesis using r(2) by simp
  qed
  then have r2: "cr_distinct r2 = cr_distinct r1" "cr_profile r2 = cr_profile req"
    using assms(7) d1(2) by (auto simp: row_le_def same_subject_def)
  obtain ids where "ids = cr_distinct r2" "stores_cleared project (text_or_empty (cr_profile r2)) ids s3"
      "sb_people s3 = people_after project (text_or_empty (cr_profile r2)) (sb_people ?s2)"
    using erase_loaded_completes [OF ok2 assms(8,9)] execute_erasure_loaded [OF assms(8,10)] r2(1) assms(7) by auto
  then show ?thesis using d1(1) r2 by auto
qed

theorem interrupted_erasure_is_finished_witness:
  "\<exists>ids s. execute_erasure demo_ok 50 demo_project ''R1'' (run_events subject_step demo_half [SeIngest \<lparr>kr_project = demo_project, kr_distinct = ''anon-1''\<rparr>]) = (s, None)
    \<and> set ids = subject_ids (demo_request [] ''pending'') demo_requested \<and> stores_cleared demo_project ''P1'' ids s"
proof -
  let ?es = "[SeIngest \<lparr>kr_project = demo_project, kr_distinct = ''anon-1''\<rparr>]"
  let ?x = "execute_erasure demo_ok 50 demo_project ''R1'' (run_events subject_step demo_half ?es)"
  have l: "ledger_ok (sb_requests demo_requested)" by (simp add: demo_request_rows demo_ledger_ok parse_compliance_status_def)
  have g: "get_erase_request (sb_requests demo_requested) demo_project ''R1'' = Some (demo_request [] ''pending'')"
    by (simp add: demo_request_rows get_erase_request_def demo_request_def kind_erase_def)
  have g1: "get_erase_request (sb_requests demo_half) demo_project ''R1'' = Some (demo_request demo_ids ''processing'')"
    by (simp add: demo_half_rows get_erase_request_def demo_request_def kind_erase_def)
  have g2: "get_erase_request (sb_requests (run_events subject_step demo_half ?es)) demo_project ''R1'' = Some (demo_request demo_ids ''processing'')"
    by (simp add: subject_step_def ingest_row_def g1)
  have "snd ?x = None" by code_simp
  then have x: "?x = (fst ?x, None)" by (simp add: prod_eq_iff)
  show ?thesis
    using interrupted_erasure_is_finished [OF l g _ _ demo_half_err g1 _ g2 _ x] x
    by (auto simp: demo_request_def demo_ids_def text_or_empty_def)
qed

section \<open>The ledger\<close>



text \<open>
  Over any run of the writers, with any failures, a request's row stays: its subject as
  recorded, its ids as first frozen, and a completion once recorded keeps its date.
\<close>

theorem ledger_keeps_history:
  assumes "ledger_ok (sb_requests s)" "r \<in> set (sb_requests s)"
  shows "\<exists>r'\<in>set (sb_requests (run_events subject_step s es)). same_subject r r'
    \<and> (cr_distinct r \<noteq> [] \<longrightarrow> cr_distinct r' = cr_distinct r) \<and> (cr_completed_at r \<noteq> None \<longrightarrow> cr_completed_at r' \<noteq> None)"
  using subjects.run_mono [OF assms(1), of es] assms(2) by (auto simp: ledger_le_def row_le_def)

theorem ledger_keeps_history_witness:
  "\<exists>r'. r' \<in> set (sb_requests (run_events subject_step demo_half [SeErase demo_ok demo_text 60 True (Some (demo_erase_msg ''R1''))]))
    \<and> same_subject (demo_request demo_ids ''processing'') r' \<and> cr_distinct r' = demo_ids"
proof -
  have l: "ledger_ok (sb_requests demo_half)" by (simp add: demo_half_rows demo_ledger_ok parse_compliance_status_def)
  have m: "demo_request demo_ids ''processing'' \<in> set (sb_requests demo_half)" by (simp add: demo_half_rows)
  show ?thesis using ledger_keeps_history [OF l m, of "[SeErase demo_ok demo_text 60 True (Some (demo_erase_msg ''R1''))]"]
    by (auto simp: demo_request_def demo_ids_def)
qed

section \<open>The handler's verdict\<close>

text \<open>The update that records a failure fails: the call does, or Postgres refuses the text.\<close>

definition failure_unrecorded :: "(erase_call \<Rightarrow> bool) \<Rightarrow> (erase_error \<Rightarrow> string) \<Rightarrow> erase_error \<Rightarrow> bool" where
  "failure_unrecorded flt msg e = (flt EcFail \<or> \<not> pg_accepts_text (truncate_error (msg e)))"

text \<open>A text of 1025 bytes whose last rune has two: it is valid and its cut is not.\<close>

lemma valid_utf8_prefix: "\<not> digit7 c \<Longrightarrow> valid_utf8 (replicate n c @ s) = valid_utf8 s"
  by (induction n) (simp_all add: valid_utf8_code(2) del: valid_utf8.simps)

lemma cut_text_is_refused:
  assumes "Suc n = max_error_len"
  shows "pg_accepts_text (replicate n CHR ''a'' @ [CHR 0xC3, CHR 0xA9])
   \<and> \<not> pg_accepts_text (truncate_error (replicate n CHR ''a'' @ [CHR 0xC3, CHR 0xA9]))"
proof -
  have cut: "truncate_error (replicate n CHR ''a'' @ [CHR 0xC3, CHR 0xA9]) = replicate n CHR ''a'' @ [CHR 0xC3]"
    by (simp add: truncate_error_def assms [symmetric])
  have "valid_utf8 [CHR 0xC3, CHR 0xA9]" "\<not> valid_utf8 [CHR 0xC3]" by (simp_all add: decode_rune_def cont_def rune_error_def Let_def)
  then show ?thesis unfolding cut by (simp add: pg_accepts_text_def valid_utf8_prefix del: valid_utf8.simps)
qed

lemma mark_erasure_failed_row:
  assumes "ledger_ok (sb_requests s)" "get_erase_request (sb_requests s) project rid = Some r" "\<not> failure_unrecorded flt msg e"
  shows "get_erase_request (sb_requests (fst (mark_erasure_failed flt msg project rid e s))) project rid
    = Some (r\<lparr>cr_status := ''failed'', cr_error := optional_text (truncate_error (msg e))\<rparr>)"
proof -
  let ?why = "optional_text (truncate_error (msg e))"
  let ?f = "\<lambda>r. r\<lparr>cr_status := ''failed'', cr_error := ?why\<rparr>"
  have r: "r \<in> set (sb_requests s)" "cr_id r = rid" "cr_project r = project" "cr_kind r = kind_erase"
    using get_erase_request_Some [OF assms(2)] by blast+
  have "find (\<lambda>r. cr_id r = rid \<and> cr_project r = project \<and> True) (sb_requests s) = Some r"
  proof (rule find_unique)
    fix y assume y: "y \<in> set (sb_requests s)" "cr_id y = rid \<and> cr_project y = project \<and> True"
    show "y = r" by (rule ledger_okD [OF assms(1) y(1) r(1)]) (use y(2) r(2) in simp)
  qed (use r in simp_all)
  moreover have "open_clash (sb_requests s) (?f r) = None"
    by (simp add: open_clash_def clash_on_def is_open_status_def)
  ultimately have "fail_request rid project ?why (sb_requests s)
      = Inr (map (\<lambda>r'. if cr_id r' = rid then ?f r else r') (sb_requests s), 1)"
    by (simp add: fail_request_def update_request_def)
  then have m: "sb_requests (fst (mark_erasure_failed flt msg project rid e s))
      = map (\<lambda>r'. if cr_id r' = rid then ?f r else r') (sb_requests s)"
    using assms(3) by (simp add: mark_erasure_failed_def failure_unrecorded_def)
  have "ledger_ok (sb_requests (fst (mark_erasure_failed flt msg project rid e s)))"
    using mark_erasure_failed_kept [of s flt msg project rid e] assms(1) by (simp add: books_kept_def)
  moreover have "?f r \<in> set (map (\<lambda>r'. if cr_id r' = rid then ?f r else r') (sb_requests s))" using r by force
  ultimately show ?thesis unfolding get_erase_request_iff m using r by (simp add: get_erase_request_iff)
qed

lemma execute_keeps_row:
  assumes "ledger_ok (sb_requests s)" "get_erase_request (sb_requests s) project rid = Some req"
    and "execute_erasure flt now project rid s = (s', res)"
  shows "ledger_ok (sb_requests s') \<and> (\<exists>r. get_erase_request (sb_requests s') project rid = Some r \<and> same_subject req r)"
proof -
  have k: "ledger_ok (sb_requests s')" "ledger_le (sb_requests s) (sb_requests s')"
    using execute_erasure_kept [OF assms(3)] assms(1) by (simp_all add: books_kept_def)
  have req: "req \<in> set (sb_requests s)" "cr_id req = rid" "cr_project req = project" "cr_kind req = kind_erase"
    using get_erase_request_Some [OF assms(2)] by blast+
  obtain r where "r \<in> set (sb_requests s')" "row_le req r" using k(2) req(1) by (auto simp: ledger_le_def)
  then show ?thesis using k(1) req by (auto simp: get_erase_request_iff row_le_def same_subject_def)
qed

lemma for_each_batch_err:
  "(\<And>k vs s. snd (fn k vs s) \<noteq> Some E) \<Longrightarrow> snd (for_each_batch fn k vs s) \<noteq> Some E"
proof (induction fn k vs s rule: for_each_batch.induct)
  case (2 fn k v vs s)
  obtain s1 r where f: "fn k (take ch_batch_size (v # vs)) s = (s1, r)" by fastforce
  show ?case
  proof (cases r)
    case None
    show ?thesis using 2(1) [OF f [symmetric] None] 2(2) by (simp add: f None)
  next
    case (Some e)
    then show ?thesis using 2(2) [of k "take ch_batch_size (v # vs)" s] by (simp add: f)
  qed
qed simp

lemma in_order_err: "(\<And>f s. f \<in> set fs \<Longrightarrow> snd (f s) \<noteq> Some E) \<Longrightarrow> snd (in_order fs s) \<noteq> Some E"
proof (induction fs arbitrary: s)
  case (Cons f fs)
  obtain s1 r where f: "f s = (s1, r)" by fastforce
  have "snd (f s) \<noteq> Some E" "snd (in_order fs s1) \<noteq> Some E" using Cons by simp_all
  then show ?case by (auto simp: f split: option.splits)
qed simp

text \<open>Only a missing row answers that the request is not found.\<close>

lemma erase_loaded_found: "snd (erase_loaded flt now req s) \<noteq> Some ErrDeletionRequestNotFound"
proof -
  have b: "snd (erase_by_batch flt t project ids s) \<noteq> Some ErrDeletionRequestNotFound" for t project ids s
    unfolding erase_by_batch_def by (rule for_each_batch_err) (simp add: exec_mutation_def)
  have c: "snd (erase_clickhouse_person flt project pid ids s) \<noteq> Some ErrDeletionRequestNotFound" for project pid ids s
    unfolding erase_clickhouse_person_def by (rule in_order_err) (auto simp: b exec_mutation_def split: if_splits)
  have e: "snd (erase_everywhere flt project pid ids s) \<noteq> Some ErrDeletionRequestNotFound" for project pid ids s
    unfolding erase_everywhere_def
    by (rule in_order_err) (auto simp: c hard_delete_postgres_def Let_def split: prod.splits if_splits)
  have i: "snd (in_order [erase_everywhere flt p d ids, mark_completed flt now p' r'] s) \<noteq> Some ErrDeletionRequestNotFound" for p d ids p' r' s
    by (rule in_order_err) (auto simp: e mark_completed_def split: sum.splits prod.splits if_splits)
  have n: "count_events flt p ids s \<noteq> Inl ErrDeletionRequestNotFound" for p ids
  proof -
    let ?b = "for_each_batch (\<lambda>k vs n. if flt (EcCount k) then (n, Some (EraseCallFailed (EcCount k)))
          else (n + length (filter (keyed_in p vs) (sb_events s)), None)) 0 ids 0"
    obtain k q where "?b = (k, q)" by fastforce
    moreover have "snd ?b \<noteq> Some ErrDeletionRequestNotFound" by (rule for_each_batch_err) simp
    ultimately show ?thesis by (auto simp: count_events_def split: option.splits)
  qed
  have f: "snd (frozen_ids flt req s) \<noteq> Inl ErrDeletionRequestNotFound"
    using n by (auto simp: frozen_ids_def freeze_identifiers_def resolve_distinct_ids_def Let_def
        split: sum.splits prod.splits option.splits if_splits)
  show ?thesis unfolding erase_loaded_def
  proof (cases "frozen_ids flt req s")
    case (Pair s1 q)
    then show "snd (case parse_compliance_status (cr_status req) of Inl e \<Rightarrow> (s, Some e)
      | Inr st \<Rightarrow> if is_terminal_c st then (s, None)
          else case frozen_ids flt req s of (s1, Inl e) \<Rightarrow> (s1, Some e)
          | (s1, Inr ids) \<Rightarrow> in_order [erase_everywhere flt (cr_project req) (text_or_empty (cr_profile req)) ids,
                        mark_completed flt now (cr_project req) (cr_id req)] s1) \<noteq> Some ErrDeletionRequestNotFound"
      using f i by (cases q) (auto simp: parse_compliance_status_def simp del: in_order.simps)
  qed
qed

lemma handle_erase_verdict:
  assumes "ledger_ok (sb_requests s)" "valid_erase_msg m" "get_erase_request (sb_requests s) (em_project m) (em_request m) = Some req"
    and "handle_erase flt msg now last_delivery (Some m) s = (s', v)"
  shows "\<exists>r. get_erase_request (sb_requests s') (em_project m) (em_request m) = Some r \<and> same_subject req r
    \<and> (v = EraseAck \<longrightarrow> cr_status r = ''completed'')
    \<and> (v \<noteq> EraseAck \<longrightarrow> last_delivery \<or> v = ErasePermanent \<longrightarrow>
         (\<exists>e. (v = ErasePermanent \<and> e = ErrNoErasableIdentifiers \<or> v = EraseRetry e)
            \<and> (failure_unrecorded flt msg e \<or> cr_status r = ''failed'' \<and> cr_error r = optional_text (truncate_error (msg e)))))"
proof -
  obtain s1 res where x: "execute_erasure flt now (em_project m) (em_request m) s = (s1, res)" by fastforce
  obtain r1 where r1: "get_erase_request (sb_requests s1) (em_project m) (em_request m) = Some r1" "same_subject req r1"
    and ok: "ledger_ok (sb_requests s1)"
    using execute_keeps_row [OF assms(1,3) x] by blast
  let ?fail = "\<lambda>e. fst (mark_erasure_failed flt msg (em_project m) (em_request m) e s1)"
  have sub: "same_subject req (r1\<lparr>cr_status := st, cr_error := er\<rparr>)" for st er using r1(2) by (simp add: same_subject_def)
  show ?thesis
  proof (cases res)
    case None
    then have v: "s' = s1" "v = EraseAck" using assms(2,4) x by (simp_all add: handle_erase_def)
    have "cr_status r1 = ''completed''"
    proof (cases "cr_status req = ''completed''")
      case True
      then have "s1 = s" using x assms(3)
        by (auto simp: execute_erasure_def erase_loaded_def parse_compliance_status_def is_terminal_c_def split: if_splits)
      then show ?thesis using True r1(1) assms(3) by simp
    next
      case False
      then show ?thesis
        using erase_loaded_completes [OF assms(1,3)] execute_erasure_loaded [OF assms(3) x] None r1(1) by fastforce
    qed
    then show ?thesis using r1 v by simp
  next
    case (Some e)
    have ne: "e \<noteq> ErrDeletionRequestNotFound"
      using execute_erasure_loaded [OF assms(3) x] erase_loaded_found [of flt now req s] Some by auto
    have f: "get_erase_request (sb_requests (?fail e)) (em_project m) (em_request m)
        = Some (r1\<lparr>cr_status := ''failed'', cr_error := optional_text (truncate_error (msg e))\<rparr>)" if "\<not> failure_unrecorded flt msg e"
      using ok r1(1) that by (rule mark_erasure_failed_row)
    have u: "?fail e = s1" if "failure_unrecorded flt msg e" using that by (simp add: mark_erasure_failed_def failure_unrecorded_def)
    have h: "(s', v) = (if e = ErrNoErasableIdentifiers then (?fail e, ErasePermanent)
        else ((if last_delivery then ?fail e else s1), EraseRetry e))"
      using assms(2,4) x Some ne by (simp add: handle_erase_def)
    show ?thesis
    proof (cases "failure_unrecorded flt msg e \<or> \<not> (last_delivery \<or> v = ErasePermanent)")
      case True
      then have "s' = s1 \<and> (v = ErasePermanent \<and> e = ErrNoErasableIdentifiers \<or> v = EraseRetry e)" using h u by (auto split: if_splits)
      then show ?thesis using True r1 by auto
    next
      case False
      then have "s' = ?fail e" "v = ErasePermanent \<and> e = ErrNoErasableIdentifiers \<or> v = EraseRetry e" "v \<noteq> EraseAck" using h by (auto split: if_splits)
      then show ?thesis using f False sub by auto
    qed
  qed
qed

text \<open>
  The ledger agrees with what becomes of the message: acknowledged means the request is
  completed; given up, by its kind of error or at the last delivery, means it is failed with
  the cause, unless that write itself fails or its text is cut where Postgres refuses it.
\<close>

theorem verdict_is_on_the_ledger:
  assumes "ledger_ok (sb_requests s)" "valid_erase_msg m" "get_erase_request (sb_requests s) (em_project m) (em_request m) = Some req"
    and "handle_erase flt msg now last_delivery (Some m) s = (s', v)"
  shows "\<exists>r. get_erase_request (sb_requests s') (em_project m) (em_request m) = Some r \<and> same_subject req r
    \<and> (v = EraseAck \<longrightarrow> cr_status r = ''completed'')
    \<and> (v \<noteq> EraseAck \<longrightarrow> last_delivery \<or> v = ErasePermanent \<longrightarrow>
         (\<exists>e. (v = ErasePermanent \<and> e = ErrNoErasableIdentifiers \<or> v = EraseRetry e)
            \<and> (failure_unrecorded flt msg e \<or> cr_status r = ''failed'' \<and> cr_error r = optional_text (truncate_error (msg e)))))"
  using assms by (rule handle_erase_verdict)

lemma demo_recorded: "\<not> failure_unrecorded demo_fault demo_text e"
proof -
  have "valid_utf8 ''clickhouse: timeout''" by (rule valid_utf8_ascii) (simp add: ascii_def)
  then show ?thesis
    by (simp add: failure_unrecorded_def demo_fault_def demo_text_def truncate_error_def max_error_len_def pg_accepts_text_def del: valid_utf8.simps)
qed

theorem verdict_is_on_the_ledger_witness:
  "\<exists>r. get_erase_request (sb_requests (fst (handle_erase demo_fault demo_text 40 True (Some (demo_erase_msg ''R1'')) demo_requested)))
      demo_project ''R1'' = Some r \<and> cr_status r = ''failed'' \<and> cr_error r = Some ''clickhouse: timeout''"
proof -
  let ?h = "handle_erase demo_fault demo_text 40 True (Some (demo_erase_msg ''R1'')) demo_requested"
  have l: "ledger_ok (sb_requests demo_requested)" by (simp add: demo_request_rows demo_ledger_ok parse_compliance_status_def)
  have g: "get_erase_request (sb_requests demo_requested) (em_project (demo_erase_msg ''R1'')) (em_request (demo_erase_msg ''R1''))
      = Some (demo_request [] ''pending'')"
    by (simp add: demo_request_rows get_erase_request_def demo_request_def kind_erase_def demo_erase_msg_def)
  have val: "valid_erase_msg (demo_erase_msg ''R1'')" by (simp add: valid_erase_msg_def demo_erase_msg_def demo_project_def)
  have h: "?h = (fst ?h, snd ?h)" and v: "snd ?h \<noteq> EraseAck"
    using demo_half_err by (simp_all add: handle_erase_def demo_erase_msg_def valid_erase_msg_def demo_project_def)
  note f = demo_recorded
  obtain r e where "get_erase_request (sb_requests (fst ?h)) demo_project ''R1'' = Some r" "cr_status r = ''failed''"
      "cr_error r = optional_text (truncate_error (demo_text e))"
    using verdict_is_on_the_ledger [OF l val g h] v f by (auto simp: demo_erase_msg_def)
  then show ?thesis by (auto simp: demo_text_def truncate_error_def max_error_len_def optional_text_def)
qed

end
