(* ===== verification/Subject_Claims.thy ===== *)
theory Subject_Claims
  imports Erasure_Claims
begin

text \<open>
  The properties of requests: what is accepted is on the ledger, open, about the person that was
  asked for and queued for the worker; what is refused as unknown holds nothing. With them the
  whole way from an identification to its erasure, and three runs in which the ledger says more
  or less than the stores.
\<close>

section \<open>Accepted requests\<close>

definition accepted :: "(compliance_row \<Rightarrow> bool) \<Rightarrow> string \<Rightarrow> string \<Rightarrow> subject_store \<Rightarrow> bool" where
  "accepted P project rid s =
     (\<exists>r\<in>set (sb_requests s). cr_id r = rid \<and> cr_project r = project \<and> cr_kind r = kind_erase \<and> is_open_status (cr_status r)
        \<and> P r \<and> (\<exists>m\<in>set (sb_erase_queue s). em_project m = project \<and> em_request m = rid))"

lemma accepted_mono: "accepted P project rid s \<Longrightarrow> (\<And>r. P r \<Longrightarrow> Q r) \<Longrightarrow> accepted Q project rid s"
  by (auto simp: accepted_def)

lemma latest_request_in: "latest_request rs = Some r \<Longrightarrow> r \<in> set rs"
  by (induction rs arbitrary: r) (auto split: option.splits if_splits)

lemma latest_request_None: "latest_request rs = None \<longleftrightarrow> rs = []"
  by (cases rs) (auto split: option.splits)

lemma publish_erase_ok:
  "publish_erase flt n project rid pid ext s = (s', None) \<Longrightarrow>
    sb_requests s' = sb_requests s \<and> (\<exists>m\<in>set (sb_erase_queue s'). em_project m = project \<and> em_request m = rid)"
  by (auto simp: publish_erase_def Let_def split: if_splits)

definition names_subject :: "string \<Rightarrow> string \<Rightarrow> compliance_row \<Rightarrow> bool" where
  "names_subject pid ext r = (pid \<noteq> [] \<and> cr_profile r = Some pid \<or> ext \<noteq> [] \<and> cr_external r = Some ext)"

lemma get_reopenable_Some:
  "get_reopenable rows project kind pid ext = Some r \<Longrightarrow>
    r \<in> set rows \<and> cr_project r = project \<and> cr_kind r = kind \<and> cr_status r \<noteq> ''completed'' \<and> names_subject pid ext r"
  unfolding get_reopenable_def by (auto dest!: latest_request_in simp: reopenable_def names_subject_def)

lemma reopen_request_row:
  assumes "ledger_ok rows" "r \<in> set rows" "cr_status r \<noteq> ''completed''" "reopen_request (cr_id r) (cr_project r) rows = Inr (rows', k)"
  shows "r\<lparr>cr_status := ''pending'', cr_error := None\<rparr> \<in> set rows'"
proof -
  let ?f = "\<lambda>r. r\<lparr>cr_status := ''pending'', cr_error := None\<rparr>"
  have n: "find (\<lambda>x. cr_id x = cr_id r \<and> cr_project x = cr_project r \<and> cr_status x \<noteq> ''completed'') rows \<noteq> None"
    using assms(2,3) by (auto simp: find_None_iff)
  obtain r0 where r0: "r0 \<in> set rows" "cr_id r0 = cr_id r" "rows' = map (\<lambda>r'. if cr_id r' = cr_id r then ?f r0 else r') rows"
    using update_request_Inr [OF assms(1) assms(4) [unfolded reopen_request_def]] n by auto
  have "r0 = r" by (rule ledger_okD [OF assms(1) r0(1) assms(2) r0(2)])
  then show ?thesis using r0(3) assms(2) by force
qed

lemma reopen_erasure_ok:
  assumes "ledger_ok (sb_requests s)" "reopen_erasure flt n project pid ext s = (s', rid, st, ok, None)"
  shows "if ok then \<exists>q. get_reopenable (sb_requests s) project kind_erase pid ext = Some q \<and> accepted (same_subject q) project rid s'
    else s' = s \<and> get_reopenable (sb_requests s) project kind_erase pid ext = None"
proof (cases "get_reopenable (sb_requests s) project kind_erase pid ext")
  case None
  then show ?thesis using assms(2) by (simp add: reopen_erasure_def split: if_splits)
next
  case (Some ex)
  note x = get_reopenable_Some [OF Some]
  have go: "accepted (same_subject ex) project rid s'" if "redrive flt n project ex st0 s1 = (s', rid, st, ok, None)"
      "r \<in> set (sb_requests s1)" "same_subject ex r" "is_open_status (cr_status r)" for st0 s1 r
  proof -
    have p: "publish_erase flt n project (cr_id ex) (text_or_empty (cr_profile ex)) (text_or_empty (cr_external ex)) s1 = (s', None)"
      and "rid = cr_id ex" using that(1) by (auto simp: redrive_def split: prod.splits)
    then show ?thesis using publish_erase_ok [OF p] that(2-4) x
      by (auto simp: accepted_def same_subject_def intro!: bexI [of _ r])
  qed
  have "ok"
    using assms(2) Some by (auto simp: reopen_erasure_def redrive_def split: if_splits sum.splits prod.splits)
  moreover have "accepted (same_subject ex) project rid s'"
  proof (cases "cr_status ex = ''failed''")
    case True
    then obtain rows k where rw: "reopen_request (cr_id ex) project (sb_requests s) = Inr (rows, k)"
        "redrive flt n project ex CPending (s\<lparr>sb_requests := rows\<rparr>) = (s', rid, st, ok, None)"
      using assms(2) Some by (auto simp: reopen_erasure_def parse_compliance_status_def can_reopen_def split: if_splits sum.splits prod.splits)
    have "ex\<lparr>cr_status := ''pending'', cr_error := None\<rparr> \<in> set rows"
      using reopen_request_row [OF assms(1)] x rw(1) by blast
    then show ?thesis by (intro go [OF rw(2), of "ex\<lparr>cr_status := ''pending'', cr_error := None\<rparr>"])
        (simp_all add: same_subject_def is_open_status_def)
  next
    case False
    then obtain st0 where st0: "parse_compliance_status (cr_status ex) = Inr st0" "redrive flt n project ex st0 s = (s', rid, st, ok, None)"
      using assms(2) Some by (auto simp: reopen_erasure_def parse_compliance_status_def can_reopen_def split: if_splits sum.splits prod.splits)
    then have "is_open_status (cr_status ex)" using False x
      by (auto simp: parse_compliance_status_def is_open_status_def split: if_splits)
    then show ?thesis using x by (intro go [OF st0(2), of ex]) (simp_all add: same_subject_def)
  qed
  ultimately show ?thesis by (simp add: Some)
qed

lemma or_else_request_ok:
  assumes "or_else_request (reopen_erasure flt n project pid ext s) k = (s', rid, st, None)" "ledger_ok (sb_requests s)"
  obtains (Reopened) q where "get_reopenable (sb_requests s) project kind_erase pid ext = Some q" "accepted (same_subject q) project rid s'"
  | (Fresh) "get_reopenable (sb_requests s) project kind_erase pid ext = None" "k s = (s', rid, st, None)"
proof -
  obtain s1 rid1 st1 ok e where q: "reopen_erasure flt n project pid ext s = (s1, rid1, st1, ok, e)" by (metis surj_pair)
  have e: "e = None" using assms(1) by (auto simp: or_else_request_def q split: option.splits)
  note r = reopen_erasure_ok [OF assms(2) q [unfolded e]]
  show thesis
  proof (cases ok)
    case True
    then have "s' = s1" "rid = rid1" using assms(1) by (simp_all add: or_else_request_def q e)
    then show thesis using r True Reopened by auto
  next
    case False
    then show thesis using r Fresh assms(1) by (simp add: or_else_request_def q e)
  qed
qed

text \<open>A row of exactly these ids, or an earlier one, not completed, that names one of them.\<close>

definition row_for :: "string \<Rightarrow> string \<Rightarrow> compliance_row list \<Rightarrow> compliance_row \<Rightarrow> bool" where
  "row_for pid ext rows r =
     (cr_profile r = optional_text pid \<and> cr_external r = optional_text ext
      \<or> (\<exists>q\<in>set rows. same_subject q r \<and> cr_status q \<noteq> ''completed'' \<and> names_subject pid ext q))"

lemma row_for_names: "row_for pid ext rows r \<Longrightarrow> pid \<noteq> [] \<or> ext \<noteq> [] \<Longrightarrow> names_subject pid ext r"
  by (auto simp: row_for_def names_subject_def optional_text_def same_subject_def)

lemma request_erasure_ok:
  assumes "request_erasure flt now rid0 project ext pid by s = (s', rid, st, None)" "ledger_ok (sb_requests s)"
  shows "accepted (row_for pid ext (sb_requests s)) project rid s'"
proof (cases "request_tx flt now rid0 project ext pid by s")
  case (Inl be)
  obtain b e where be: "be = (b, e)" by fastforce
  obtain s1 rid1 st1 ok e1 where q: "reopen_erasure flt 2 project pid ext s = (s1, rid1, st1, ok, e1)" by (metis surj_pair)
  have "b \<and> e1 = None \<and> ok \<and> s' = s1 \<and> rid = rid1"
    using assms(1) by (cases b) (auto simp: request_erasure_def Inl be q erase_fails_def split: option.splits if_splits)
  then obtain x where "get_reopenable (sb_requests s) project kind_erase pid ext = Some x" "accepted (same_subject x) project rid s'"
    using reopen_erasure_ok [OF assms(2), of flt 2 project pid ext] q by auto
  then show ?thesis using get_reopenable_Some [of "sb_requests s" project kind_erase pid ext x]
    by (auto elim!: accepted_mono simp: row_for_def)
next
  case (Inr s1)
  then obtain rows where rows: "create_request now rid0 project kind_erase (optional_text pid) (optional_text ext) (optional_text by) (sb_requests s) = Inr rows"
      and s1: "sb_requests s1 = rows"
    by (auto simp: request_tx_def Let_def split: if_splits sum.splits)
  have p: "publish_erase flt 0 project rid0 pid ext s1 = (s', None)" "rid = rid0"
    using assms(1) by (auto simp: request_erasure_def Inr split: prod.splits)
  let ?r = "\<lparr>cr_id = rid0, cr_project = project, cr_kind = kind_erase, cr_profile = optional_text pid, cr_external = optional_text ext,
     cr_status = ''pending'', cr_distinct = [], cr_events = 0, cr_requested_by = optional_text by, cr_requested_at = now,
     cr_completed_at = None, cr_error = None\<rparr>"
  have "?r \<in> set rows" using rows by (auto simp: create_request_def Let_def split: if_splits option.splits)
  then show ?thesis using publish_erase_ok [OF p(1)] p(2)
    by (auto simp: accepted_def s1 is_open_status_def row_for_def intro!: bexI [of _ ?r])
qed

text \<open>
  A request by external id that is answered without an error has an open ledger row under
  the id it answered, about that external id or the profile that has it, and a message for the
  worker in the queue.
\<close>

theorem external_request_is_queued:
  assumes "ledger_ok (sb_requests s)" "request_by_external flt now rid0 project ext by s = (s', rid, st, None)"
  shows "accepted (\<lambda>r. cr_external r = Some ext
    \<or> (\<exists>p. get_person_by_external (sb_people s) project ext = Some p \<and> cr_profile r = Some (pf_id p))) project rid s'"
proof -
  have ne: "ext \<noteq> []" using assms(2) by (auto simp: request_by_external_def erase_fails_def)
  let ?k = "\<lambda>s. if flt (EcGetByExternal 1) then (s, erase_fails (EraseCallFailed (EcGetByExternal 1)))
        else let pid = (case get_person_by_external (sb_people s) project ext of None \<Rightarrow> [] | Some p \<Rightarrow> pf_id p)
             in request_erasure flt now rid0 project ext pid by s"
  have "or_else_request (reopen_erasure flt 3 project [] ext s) ?k = (s', rid, st, None)"
    using assms(2) ne by (simp add: request_by_external_def)
  then show ?thesis using assms(1)
  proof (cases rule: or_else_request_ok)
    case Reopened
    then show ?thesis by (auto elim!: accepted_mono dest!: get_reopenable_Some simp: names_subject_def same_subject_def)
  next
    case Fresh
    obtain pid where p: "request_erasure flt now rid0 project ext pid by s = (s', rid, st, None)"
        "pid = [] \<or> (\<exists>p. get_person_by_external (sb_people s) project ext = Some p \<and> pf_id p = pid)"
      using Fresh(2) by (auto simp: erase_fails_def Let_def split: if_splits option.splits)
    have "accepted (names_subject pid ext) project rid s'"
      using request_erasure_ok [OF p(1) assms(1)] row_for_names ne by (blast intro: accepted_mono)
    then show ?thesis by (rule accepted_mono) (use p(2) in \<open>auto simp: names_subject_def\<close>)
  qed
qed

theorem external_request_is_queued_witness:
  "accepted (\<lambda>r. cr_external r = Some ''u1''
    \<or> (\<exists>p. get_person_by_external (sb_people demo_aliased) demo_project ''u1'' = Some p \<and> cr_profile r = Some (pf_id p))) demo_project ''R1'' demo_requested"
proof -
  have "sb_requests demo_aliased = []" by code_simp
  then have l: "ledger_ok (sb_requests demo_aliased)" by (simp add: ledger_ok_def apart_def)
  show ?thesis by (rule external_request_is_queued [OF l demo_requested_ok])
qed

section \<open>Whom an id means\<close>

text \<open>
  The documented order of \<open>RequestErasureByID\<close>: an id is first a profile's, then an alias of a
  profile, then an external id, then a bare distinct id. An uncompleted request under the
  profile id, the alias target or the external id is taken up before a new one is recorded. The
  row that answers is stated by implications, one for each place in that order.
\<close>

definition external_text :: "person_row \<Rightarrow> string" where
  "external_text p = text_or_empty (pf_external p)"

definition earlier :: "subject_store \<Rightarrow> string \<Rightarrow> string \<Rightarrow> string \<Rightarrow> compliance_row option" where
  "earlier s project pid ext = get_reopenable (sb_requests s) project kind_erase pid ext"

definition alias_canon :: "(alias_row list \<Rightarrow> alias_row) \<Rightarrow> subject_store \<Rightarrow> string \<Rightarrow> string \<Rightarrow> string option" where
  "alias_canon pick s project i =
     (case resolve_alias_target pick (sb_aliases s) project i of
        Some canon \<Rightarrow> if canon = i then None else Some canon
      | None \<Rightarrow> None)"

definition row_for_bare :: "subject_store \<Rightarrow> string \<Rightarrow> string \<Rightarrow> compliance_row \<Rightarrow> bool" where
  "row_for_bare s project i r =
     ((\<forall>p q. get_person_by_external (sb_people s) project i = Some p \<longrightarrow> earlier s project [] i = Some q \<longrightarrow> same_subject q r)
      \<and> (\<forall>p. get_person_by_external (sb_people s) project i = Some p \<longrightarrow> earlier s project [] i = None \<longrightarrow> row_for (pf_id p) i (sb_requests s) r)
      \<and> (get_person_by_external (sb_people s) project i = None \<longrightarrow> row_for i [] (sb_requests s) r \<and> has_erasable_activity s project i))"

lemma get_person_id: "get_person rows project i = Some p \<Longrightarrow> pf_id p = i"
  by (auto simp: get_person_def live_at_def find_Some_iff)

lemma request_bare_id_ok:
  assumes "request_bare_id flt now rid0 project i by s = (s', rid, st, None)" "ledger_ok (sb_requests s)" "i \<noteq> []"
  shows "accepted (row_for_bare s project i) project rid s'"
proof (cases "get_person_by_external (sb_people s) project i")
  case None
  then have "request_erasure flt now rid0 project [] i by s = (s', rid, st, None)" "has_erasable_activity s project i"
    using assms(1) by (auto simp: request_bare_id_def erase_fails_def split: if_splits)
  then show ?thesis using None by (auto dest!: request_erasure_ok [OF _ assms(2)] elim!: accepted_mono simp: row_for_bare_def)
next
  case (Some p)
  then have "request_by_external flt now rid0 project i by s = (s', rid, st, None)"
    using assms(1) by (auto simp: request_bare_id_def erase_fails_def split: if_splits)
  then have o: "or_else_request (reopen_erasure flt 3 project [] i s) (\<lambda>s. if flt (EcGetByExternal 1)
      then (s, erase_fails (EraseCallFailed (EcGetByExternal 1)))
      else let pid = (case get_person_by_external (sb_people s) project i of None \<Rightarrow> [] | Some p \<Rightarrow> pf_id p)
           in request_erasure flt now rid0 project i pid by s) = (s', rid, st, None)"
    using assms(3) by (simp add: request_by_external_def)
  from o assms(2) show ?thesis
  proof (cases rule: or_else_request_ok)
    case Reopened
    then show ?thesis using Some by (auto elim!: accepted_mono simp: row_for_bare_def earlier_def)
  next
    case Fresh
    then have "request_erasure flt now rid0 project i (pf_id p) by s = (s', rid, st, None)"
      using Some by (auto simp: erase_fails_def split: if_splits)
    then show ?thesis using Fresh(1) Some by (auto dest!: request_erasure_ok [OF _ assms(2)] elim!: accepted_mono simp: row_for_bare_def earlier_def)
  qed
qed

lemma request_by_alias_ok:
  assumes "request_by_unresolved_id flt ch pick now rid0 project i by s = (s', rid, st, None)" "ledger_ok (sb_requests s)"
    and "alias_canon pick s project i = Some canon"
  shows "accepted (\<lambda>r. (\<forall>q. earlier s project canon [] = Some q \<longrightarrow> same_subject q r)
    \<and> (earlier s project canon [] = None \<longrightarrow>
         (\<forall>p. get_person (sb_people s) project canon = Some p \<longrightarrow> row_for canon (external_text p) (sb_requests s) r)
       \<and> (get_person (sb_people s) project canon = None \<longrightarrow> row_for_bare s project i r
            \<and> resolve_alias_target pick (sb_aliases s) project canon = None))) project rid s'"
proof -
  let ?k = "\<lambda>s. if flt EcGetCanonical then (s, erase_fails (EraseCallFailed EcGetCanonical))
            else case get_person (sb_people s) project canon of
              Some p \<Rightarrow> request_erasure flt now rid0 project (text_or_empty (pf_external p)) (pf_id p) by s
            | None \<Rightarrow>
                if flt EcChain then (s, erase_fails (EraseCallFailed EcChain))
                else if resolve_alias_target pick (sb_aliases s) project canon \<noteq> None
                then (s, erase_fails ErrDegradedAliasErasure)
                else request_bare_id flt now rid0 project i by s"
  have i: "i \<noteq> []" using assms(1) by (auto simp: request_by_unresolved_id_def erase_fails_def)
  have "or_else_request (reopen_erasure flt 1 project canon [] s) ?k = (s', rid, st, None)"
    using assms(1,3) i by (auto simp: request_by_unresolved_id_def erase_fails_def alias_canon_def split: if_splits option.splits)
  then show ?thesis using assms(2)
  proof (cases rule: or_else_request_ok)
    case Reopened
    then show ?thesis by (auto elim!: accepted_mono simp: earlier_def)
  next
    case Fresh
    show ?thesis
    proof (cases "get_person (sb_people s) project canon")
      case None
      then have "request_bare_id flt now rid0 project i by s = (s', rid, st, None)" "resolve_alias_target pick (sb_aliases s) project canon = None"
        using Fresh(2) by (auto simp: erase_fails_def split: if_splits)
      then show ?thesis using Fresh(1) None by (auto dest!: request_bare_id_ok [OF _ assms(2) i] elim!: accepted_mono simp: earlier_def)
    next
      case (Some p)
      then have "request_erasure flt now rid0 project (external_text p) canon by s = (s', rid, st, None)"
        using Fresh(2) get_person_id [OF Some] by (auto simp: erase_fails_def external_text_def split: if_splits)
      then show ?thesis using Fresh(1) Some by (auto dest!: request_erasure_ok [OF _ assms(2)] elim!: accepted_mono simp: earlier_def)
    qed
  qed
qed

lemma request_by_unaliased_ok:
  assumes "request_by_unresolved_id flt ch pick now rid0 project i by s = (s', rid, st, None)" "ledger_ok (sb_requests s)"
    and "alias_canon pick s project i = None"
  shows "accepted (row_for_bare s project i) project rid s'"
proof -
  have i: "i \<noteq> []" using assms(1) by (auto simp: request_by_unresolved_id_def erase_fails_def)
  have "request_bare_id flt now rid0 project i by s = (s', rid, st, None)"
    using assms(1,3) i by (auto simp: request_by_unresolved_id_def erase_fails_def alias_canon_def split: if_splits option.splits)
  then show ?thesis using request_bare_id_ok assms(2) i by blast
qed

text \<open>
  C36. A request by id that is answered without an error has an open ledger row under the id it
  answered and a message for the worker in the queue, and the row is about the person the id
  means, found in this order. Where an uncompleted request under the id as profile id exists, it is that
  request's row. Otherwise, where a live profile has the id, the row is for that profile and its
  external id. Otherwise, where the id is an alias of another profile, it is an uncompleted request
  of that canonical profile, or else for the canonical profile and its external id when
  that is live. Only where none of these holds (and the canonical id, if any, is no alias itself) is the
  id taken as an external id, of the profile that has it, or else as a bare id under which there
  is activity.
\<close>

theorem id_request_is_queued:
  assumes "ledger_ok (sb_requests s)" "i \<noteq> []" "request_by_id flt ch pick now rid0 project i by s = (s', rid, st, None)"
  shows "\<exists>r\<in>set (sb_requests s'). cr_id r = rid \<and> cr_project r = project \<and> cr_kind r = kind_erase \<and> is_open_status (cr_status r)
    \<and> (\<exists>m\<in>set (sb_erase_queue s'). em_project m = project \<and> em_request m = rid)
    \<and> (case earlier s project i [] of
         Some q \<Rightarrow> same_subject q r
       | None \<Rightarrow> (case get_person (sb_people s) project i of
           Some p \<Rightarrow> row_for i (external_text p) (sb_requests s) r
         | None \<Rightarrow> (case alias_canon pick s project i of
             None \<Rightarrow> row_for_bare s project i r
           | Some canon \<Rightarrow> (case earlier s project canon [] of
               Some q \<Rightarrow> same_subject q r
             | None \<Rightarrow> (case get_person (sb_people s) project canon of
                 Some p \<Rightarrow> row_for canon (external_text p) (sb_requests s) r
               | None \<Rightarrow> row_for_bare s project i r \<and> resolve_alias_target pick (sb_aliases s) project canon = None)))))"
    (is "\<exists>r\<in>_. _ r \<and> _ r \<and> _ r \<and> _ r \<and> _ \<and> ?P r")
proof -
  let ?k = "\<lambda>s. if flt EcGetProfile then (s, erase_fails (EraseCallFailed EcGetProfile))
       else case get_person (sb_people s) project i of
         Some p \<Rightarrow> request_erasure flt now rid0 project (text_or_empty (pf_external p)) (pf_id p) by s
       | None \<Rightarrow> request_by_unresolved_id flt ch pick now rid0 project i by s"
  have "or_else_request (reopen_erasure flt 0 project i [] s) ?k = (s', rid, st, None)"
    using assms(3) by (simp add: request_by_id_def)
  then have "accepted ?P project rid s'" using assms(1)
  proof (cases rule: or_else_request_ok)
    case (Reopened q)
    then show ?thesis by (simp add: earlier_def)
  next
    case Fresh
    then have e: "earlier s project i [] = None" by (simp add: earlier_def)
    show ?thesis
    proof (cases "get_person (sb_people s) project i")
      case None
      then have u: "request_by_unresolved_id flt ch pick now rid0 project i by s = (s', rid, st, None)"
        using Fresh(2) by (auto simp: erase_fails_def split: if_splits)
      show ?thesis
      proof (cases "alias_canon pick s project i")
        case None
        then show ?thesis using request_by_unaliased_ok [OF u assms(1)] e \<open>get_person _ _ i = None\<close> by simp
      next
        case (Some canon)
        show ?thesis
          by (rule accepted_mono [OF request_by_alias_ok [OF u assms(1) Some]])
            (simp add: e \<open>get_person _ _ i = None\<close> Some split: option.splits)
      qed
    next
      case (Some p)
      then have "request_erasure flt now rid0 project (external_text p) i by s = (s', rid, st, None)"
        using Fresh get_person_id [OF Some] by (auto simp: erase_fails_def external_text_def split: if_splits)
      then show ?thesis using request_erasure_ok assms(1) e Some by simp
    qed
  qed
  then show ?thesis unfolding accepted_def by blast
qed

text \<open>The visitor's id is no profile's; it is an alias of P1, so P1 and its external id are on the row.\<close>

theorem id_request_is_queued_witness:
  "alias_canon demo_pick demo_aliased demo_project ''anon-1'' = Some ''P1''
   \<and> (\<exists>r\<in>set (sb_requests (fst (request_by_id demo_ok True demo_pick 30 ''R1'' demo_project ''anon-1'' [] demo_aliased))).
        cr_id r = ''R1'' \<and> is_open_status (cr_status r) \<and> cr_profile r = Some ''P1'' \<and> cr_external r = Some ''u1'')"
proof -
  let ?x = "request_by_id demo_ok True demo_pick 30 ''R1'' demo_project ''anon-1'' [] demo_aliased"
  have n: "sb_requests demo_aliased = []" by code_simp
  then have l: "ledger_ok (sb_requests demo_aliased)" and e: "earlier demo_aliased demo_project i [] = None" for i
    by (simp_all add: ledger_ok_def apart_def earlier_def get_reopenable_def)
  have "snd ?x = (''R1'', Some CPending, None)" by code_simp
  then have x: "?x = (fst ?x, ''R1'', Some CPending, None)" by (simp add: prod_eq_iff)
  have a: "alias_canon demo_pick demo_aliased demo_project ''anon-1'' = Some ''P1''" by code_simp
  have g: "get_person (sb_people demo_aliased) demo_project ''anon-1'' = None" by code_simp
  have "map_option external_text (get_person (sb_people demo_aliased) demo_project ''P1'') = Some ''u1''" by code_simp
  then obtain p where p: "get_person (sb_people demo_aliased) demo_project ''P1'' = Some p" "external_text p = ''u1''" by auto
  show ?thesis using id_request_is_queued [OF l _ x] a by (auto simp: e g p row_for_def n optional_text_def)
qed

section \<open>Refused requests\<close>

lemma reopen_erasure_refused: "reopen_erasure flt n project pid ext s = (s', rid, st, ok, Some e) \<Longrightarrow> e \<noteq> ErrProfileNotFoundE"
  by (auto simp: reopen_erasure_def redrive_def publish_erase_def Let_def parse_compliance_status_def
      split: if_splits option.splits sum.splits prod.splits)

lemma or_else_request_refused:
  assumes "or_else_request (reopen_erasure flt n project pid ext s) k = (s', rid, st, Some ErrProfileNotFoundE)" "ledger_ok (sb_requests s)"
  shows "k s = (s', rid, st, Some ErrProfileNotFoundE)"
proof -
  obtain s1 rid1 st1 ok e where q: "reopen_erasure flt n project pid ext s = (s1, rid1, st1, ok, e)" by (metis surj_pair)
  have e: "e = None" using assms(1) q
    by (cases e) (auto simp: or_else_request_def dest: reopen_erasure_refused)
  then show ?thesis using assms(1) reopen_erasure_ok [OF assms(2) q [unfolded e]]
    by (auto simp: or_else_request_def q split: if_splits)
qed

lemma request_erasure_refused: "request_erasure flt now rid0 project ext pid by s \<noteq> (s', rid, st, Some ErrProfileNotFoundE)"
proof
  assume a: "request_erasure flt now rid0 project ext pid by s = (s', rid, st, Some ErrProfileNotFoundE)"
  show False
  proof (cases "request_tx flt now rid0 project ext pid by s")
    case (Inl be)
    obtain b e where be: "be = (b, e)" by fastforce
    have "e \<noteq> ErrProfileNotFoundE"
      using Inl be by (auto simp: request_tx_def Let_def split: if_splits sum.splits)
    moreover obtain s1 rid1 st1 ok e1 where q [simp]: "reopen_erasure flt 2 project pid ext s = (s1, rid1, st1, ok, e1)" by (metis surj_pair)
    moreover have "e1 \<noteq> Some ErrProfileNotFoundE" using q reopen_erasure_refused by blast
    ultimately show False using a
      by (cases b) (auto simp: request_erasure_def Inl be erase_fails_def split: option.splits if_splits)
  next
    case (Inr s1)
    then show False using a by (auto simp: request_erasure_def publish_erase_def Let_def split: prod.splits if_splits)
  qed
qed

lemma request_bare_id_refused:
  assumes "request_bare_id flt now rid0 project i by s = (s', rid, st, Some ErrProfileNotFoundE)" "ledger_ok (sb_requests s)" "i \<noteq> []"
  shows "s' = s \<and> get_person_by_external (sb_people s) project i = None \<and> \<not> has_erasable_activity s project i"
proof (cases "get_person_by_external (sb_people s) project i")
  case None
  then show ?thesis using assms(1) request_erasure_refused
    by (auto simp: request_bare_id_def erase_fails_def split: if_splits)
next
  case (Some p)
  then have "request_by_external flt now rid0 project i by s = (s', rid, st, Some ErrProfileNotFoundE)"
    using assms(1) by (auto simp: request_bare_id_def erase_fails_def split: if_splits)
  then have False using assms(2,3) request_erasure_refused
    by (auto simp: request_by_external_def erase_fails_def Let_def split: if_splits dest!: or_else_request_refused)
  then show ?thesis ..
qed

text \<open>
  C37. An id is refused as unknown only when nothing is changed and nothing is held under it: no
  live profile has it as id or as external id, and no activity is keyed by it.
\<close>

theorem unknown_id_holds_nothing:
  assumes "ledger_ok (sb_requests s)" "i \<noteq> []"
    and "request_by_id flt ch pick now rid0 project i by s = (s', rid, st, Some ErrProfileNotFoundE)"
  shows "s' = s \<and> get_person (sb_people s) project i = None \<and> get_person_by_external (sb_people s) project i = None
    \<and> \<not> has_erasable_activity s project i"
proof -
  have u: "get_person (sb_people s) project i = None"
      "request_by_unresolved_id flt ch pick now rid0 project i by s = (s', rid, st, Some ErrProfileNotFoundE)"
    using or_else_request_refused [OF assms(3) [unfolded request_by_id_def] assms(1)] request_erasure_refused
    by (auto simp: erase_fails_def split: if_splits option.splits)
  have "request_bare_id flt now rid0 project i by s = (s', rid, st, Some ErrProfileNotFoundE)"
    using u(2) assms(1,2) request_erasure_refused
    by (auto simp: request_by_unresolved_id_def erase_fails_def split: if_splits option.splits dest!: or_else_request_refused)
  then show ?thesis using request_bare_id_refused assms(1,2) u(1) by blast
qed

theorem unknown_id_holds_nothing_witness:
  "get_person (sb_people demo_aliased) demo_project ''ghost'' = None \<and> \<not> has_erasable_activity demo_aliased demo_project ''ghost''
    \<and> fst (request_by_id demo_ok True demo_pick 30 ''R1'' demo_project ''ghost'' [] demo_aliased) = demo_aliased"
proof -
  let ?x = "request_by_id demo_ok True demo_pick 30 ''R1'' demo_project ''ghost'' [] demo_aliased"
  have "sb_requests demo_aliased = []" by code_simp
  then have l: "ledger_ok (sb_requests demo_aliased)" by (simp add: ledger_ok_def apart_def)
  have "snd ?x = ([], None, Some ErrProfileNotFoundE)" by code_simp
  then have x: "?x = (fst ?x, [], None, Some ErrProfileNotFoundE)" by (simp add: prod_eq_iff)
  show ?thesis using unknown_id_holds_nothing [OF l _ x] by simp
qed

section \<open>Where the ledger and the stores part\<close>

text \<open>
  Four runs in which a completed request is less, or more, than it says. In the first a failed
  request is asked for again after the person came back: the reopened row keeps the ids frozen
  before, so the new profile and the new alias's events stay although the answer is completed.
\<close>

definition demo_came_back :: "subject_event list" where
  "demo_came_back =
     [SeErase demo_fault demo_text 40 True (Some (demo_erase_msg ''R1'')),
      SeIngest \<lparr>kr_project = demo_project, kr_distinct = ''anon-2''\<rparr>,
      SeIdentify demo_ok 50 ''P2'' (Some (demo_identify ''anon-2'')),
      SeAlias demo_ok 51 (Some (demo_alias ''anon-2'' ''P2'')),
      SeByExternal demo_ok 60 ''R2'' demo_project ''u1'' [],
      SeErase demo_ok demo_text 61 False (Some (demo_erase_msg ''R1''))]"

lemma reopened_request_misses_what_came_back:
  "map cr_status (sb_requests (run_events subject_step demo_requested demo_came_back)) = [''completed'']
   \<and> map_option pf_id (get_person_by_external (sb_people (run_events subject_step demo_requested demo_came_back)) demo_project ''u1'') = Some ''P2''
   \<and> keyed_in demo_project [''anon-2''] (last (sb_events (run_events subject_step demo_requested demo_came_back)))"
  by code_simp

text \<open>
  A visitor who already had a profile: the merge at the identification hides its row in
  Postgres, and the erasure hard-deletes the canonical profile only. The request is completed with the
  anonymous id among its ids, and the row stays with its traits.
\<close>

definition demo_visitor :: person_row where
  "demo_visitor = \<lparr>pf_id = ''anon-1'', pf_project = demo_project, pf_external = None, pf_properties = [''email'' \<mapsto> ''ann@example.org''],
     pf_create = 1, pf_update = 1, pf_deletion = None\<rparr>"

definition demo_merged_erased :: subject_store where
  "demo_merged_erased = run_events subject_step (demo_store\<lparr>sb_people := [demo_visitor]\<rparr>)
     [SeIdentify demo_ok 10 ''P1'' (Some (demo_identify ''anon-1'')),
      SeAlias demo_ok 20 (Some (demo_alias ''anon-1'' ''P1'')),
      SeByExternal demo_ok 30 ''R1'' demo_project ''u1'' ''C1'',
      SeErase demo_ok demo_text 40 False (Some (demo_erase_msg ''R1''))]"

lemma merged_profile_row_survives_erasure:
  "map (\<lambda>r. (cr_status r, cr_distinct r)) (sb_requests demo_merged_erased) = [(''completed'', [''u1'', ''P1'', ''anon-1''])]
   \<and> map (\<lambda>q. (pf_id q, pf_properties q ''email'', pf_deletion q)) (sb_people demo_merged_erased) = [(''anon-1'', Some ''ann@example.org'', Some 10)]"
  by code_simp

text \<open>A second message for a completed request, whose row cannot be read at its last delivery, makes it a failed one.\<close>

lemma unread_row_fails_completed_request:
  "map cr_status (sb_requests (fst (handle_erase (\<lambda>c. c = EcLoad) demo_text 50 True (Some (demo_erase_msg ''R1'')) demo_erased))) = [''failed'']"
  by code_simp

text \<open>
  Two deliveries of one request at once: both load the row before its ids are frozen, the second
  freezes after the first has deleted the aliases, and the frozen set shrinks.
\<close>

lemma late_freeze_shrinks_ids:
  "map cr_distinct (sb_requests demo_half) = [[''u1'', ''P1'', ''anon-1'']]
   \<and> map cr_distinct (sb_requests (fst (freeze_identifiers demo_ok (demo_request [] ''pending'') (delete_aliases demo_project ''P1'' demo_half)))) = [[''u1'', ''P1'']]"
  by code_simp

end
