(* ===== verification/Identify_Claims.thy ===== *)
theory Identify_Claims
  imports Subject_Claims
begin

text \<open>
  What identifying a person leaves in Postgres and in the queues, and the whole way of a
  person: identified with an anonymous id, written to ClickHouse, asked to be erased, erased.
\<close>

section \<open>Rows under updates\<close>

lemma find_map_kept:
  assumes "\<And>x. x \<in> set xs \<Longrightarrow> P (g x) \<Longrightarrow> P x" "find P xs = Some y" "P (g y)"
  shows "find P (map g xs) = Some (g y)"
  using assms by (induction xs) (auto split: if_splits)

definition people_ok :: "person_row list \<Rightarrow> bool" where
  "people_ok rows = distinct (map pf_id rows)"

lemma people_okD: "people_ok rows \<Longrightarrow> p \<in> set rows \<Longrightarrow> q \<in> set rows \<Longrightarrow> pf_id p = pf_id q \<Longrightarrow> p = q"
  by (auto simp: people_ok_def distinct_map inj_on_def)

lemma people_ok_map: "(\<And>x. x \<in> set rows \<Longrightarrow> pf_id (g x) = pf_id x) \<Longrightarrow> people_ok (map g rows) = people_ok rows"
  by (simp add: people_ok_def comp_def cong: map_cong)

text \<open>A live person of an external id, with its traits.\<close>

definition identified :: "string \<Rightarrow> string \<Rightarrow> json_object \<Rightarrow> person_row \<Rightarrow> person_row list \<Rightarrow> bool" where
  "identified project ext traits p rows =
     (get_person_by_external rows project ext = Some p \<and> (\<forall>k v. traits k = Some v \<longrightarrow> pf_properties p k = Some v))"

lemma get_person_by_external_Some:
  "get_person_by_external rows project ext = Some p \<Longrightarrow> p \<in> set rows \<and> pf_project p = project \<and> pf_external p = Some ext \<and> pf_deletion p = None"
  by (auto simp: get_person_by_external_def live_external_def find_Some_iff)

text \<open>Replacing a live person by one of the same id and external id, and hiding another one.\<close>

lemma identified_replace:
  assumes "people_ok rows" "identified project ext traits p rows"
    and "pf_id p' = pf_id p" "pf_project p' = pf_project p" "pf_external p' = pf_external p" "pf_deletion p' = None"
    and "\<And>k v. traits' k = Some v \<Longrightarrow> pf_properties p' k = Some v"
  shows "identified project ext traits' p' (map (\<lambda>r. if pf_id r = pf_id p then p' else r) rows)
    \<and> people_ok (map (\<lambda>r. if pf_id r = pf_id p then p' else r) rows)"
proof -
  let ?g = "\<lambda>r. if pf_id r = pf_id p then p' else r"
  have f: "find (live_external project ext) rows = Some p" and p: "p \<in> set rows" "live_external project ext p"
    using assms(2) get_person_by_external_Some [of rows project ext p]
    by (auto simp: identified_def get_person_by_external_def live_external_def)
  have "find (live_external project ext) (map ?g rows) = Some (?g p)"
  proof (rule find_map_kept [OF _ f])
    fix x assume x: "x \<in> set rows" "live_external project ext (?g x)"
    then show "live_external project ext x" using people_okD [OF assms(1) x(1) p(1)] p(2) by (auto split: if_splits)
  qed (use p(2) assms(4-6) in \<open>simp add: live_external_def\<close>)
  moreover have "people_ok (map ?g rows)" using assms(1,3) by (subst people_ok_map) auto
  ultimately show ?thesis using assms(7) by (simp add: identified_def get_person_by_external_def)
qed

lemma upsert_person_identified:
  assumes "people_ok rows" "upsert_person now nid project ext traits rows = Some (rows', p)"
  shows "people_ok rows' \<and> identified project ext traits p rows'"
proof (cases "get_person_by_external rows project ext")
  case (Some p0)
  then have i: "identified project ext (\<lambda>_. None) p0 rows" by (simp add: identified_def)
  have p: "p = p0\<lparr>pf_properties := jsonb_shallow_merge (pf_properties p0) traits, pf_update := now\<rparr>"
    and r: "rows' = map (\<lambda>r. if pf_id r = pf_id p0 then p else r) rows"
    using assms(2) Some by (auto simp: upsert_person_def Let_def)
  have "identified project ext traits p (map (\<lambda>r. if pf_id r = pf_id p0 then p else r) rows)
    \<and> people_ok (map (\<lambda>r. if pf_id r = pf_id p0 then p else r) rows)"
    by (rule identified_replace [OF assms(1) i]) (use get_person_by_external_Some [OF Some] in \<open>simp_all add: p jsonb_shallow_merge_def\<close>)
  then show ?thesis by (simp add: r)
next
  case None
  have p: "p = \<lparr>pf_id = nid, pf_project = project, pf_external = Some ext, pf_properties = traits, pf_create = now, pf_update = now, pf_deletion = None\<rparr>"
    and r: "rows' = rows @ [p]" "nid \<notin> pf_id ` set rows"
    using assms(2) None by (auto simp: upsert_person_def Let_def list_ex_iff split: if_splits)
  have "find (live_external project ext) (rows @ [p]) = Some p"
    using None by (induction rows) (auto simp: get_person_by_external_def p live_external_def split: if_splits)
  then show ?thesis using assms(1) r by (auto simp: p people_ok_def identified_def get_person_by_external_def)
qed

lemma merge_person_identified:
  assumes "people_ok rows" "identified project ext traits p rows" "merge_person now project anon (pf_id p) rows = Some (rows', p')"
  shows "people_ok rows' \<and> identified project ext traits p' rows' \<and> pf_id p' = pf_id p"
proof -
  have p: "p \<in> set rows" "pf_project p = project" "pf_external p = Some ext" "pf_deletion p = None"
    and tr: "traits k = Some v \<Longrightarrow> pf_properties p k = Some v" for k v
    using assms(2) get_person_by_external_Some by (auto simp: identified_def)
  obtain s t where st: "get_person rows project anon = Some s" "get_person rows project (pf_id p) = Some t"
    using assms(3) by (auto simp: merge_person_def split: option.splits)
  then have t: "get_person rows project (pf_id p) = Some t"
      "p' = t\<lparr>pf_properties := jsonb_shallow_merge (pf_properties s) (pf_properties t), pf_update := now\<rparr>"
      "rows' = map (\<lambda>r. if pf_id r = pf_id t then p' else r) rows"
    using assms(3) by (auto simp: merge_person_def Let_def)
  have "t \<in> set rows" "pf_id t = pf_id p" using t(1) by (auto simp: get_person_def live_at_def find_Some_iff)
  then have tp: "t = p" using people_okD [OF assms(1)] p(1) by blast
  have "identified project ext traits p' (map (\<lambda>r. if pf_id r = pf_id p then p' else r) rows)
    \<and> people_ok (map (\<lambda>r. if pf_id r = pf_id p then p' else r) rows)"
    by (rule identified_replace [OF assms(1,2)]) (use p(4) tr in \<open>simp_all add: t(2) tp jsonb_shallow_merge_def\<close>)
  then show ?thesis by (simp add: t(3) tp) (simp add: t(2) tp)
qed

lemma soft_delete_identified:
  assumes "identified project ext traits p rows" "anon \<noteq> pf_id p"
  shows "identified project ext traits p (soft_delete_person now project anon rows)
    \<and> get_person (soft_delete_person now project anon rows) project anon = None"
proof -
  let ?g = "\<lambda>q. if live_at project anon q then q\<lparr>pf_deletion := Some now, pf_update := now\<rparr> else q"
  have gp: "?g p = p" using assms(2) by (auto simp: live_at_def)
  have f: "find (live_external project ext) rows = Some p" using assms(1) by (simp add: identified_def get_person_by_external_def)
  have "find (live_external project ext) (map ?g rows) = Some (?g p)"
  proof (rule find_map_kept [OF _ f])
    show "live_external project ext x" if "live_external project ext (?g x)" for x
      using that by (simp add: live_external_def split: if_splits)
    show "live_external project ext (?g p)" using f by (simp add: gp find_Some_iff) blast
  qed
  moreover note gp
  moreover have "find (live_at project anon) (map ?g rows) = None" by (induction rows) (simp_all add: live_at_def)
  ultimately show ?thesis using assms(1) by (simp add: identified_def get_person_by_external_def get_person_def soft_delete_person_def)
qed

section \<open>Messages\<close>

definition upsert_of :: "string \<Rightarrow> person_row \<Rightarrow> upsert_msg" where
  "upsert_of project p = \<lparr>um_profile = pf_id p, um_project = project, um_external = external_of p, um_properties = pf_properties p,
     um_deleted = False, um_create = pf_create p, um_update = pf_update p\<rparr>"

lemma publish_upsert_ok:
  assumes "publish_upsert flt project p s = (s', IdAck)"
  shows "upsert_of project p \<in> set (sb_upsert_queue s') \<and> sb_people s' = sb_people s"
  using assms by (auto simp: publish_upsert_def build_upsert_def send_msg_def queue_upsert_def upsert_of_def Let_def split: if_splits option.splits)

lemma finish_merge_ok:
  assumes "finish_merge flt now project anon target people merged s = (s', IdAck)"
  shows "sb_people s' = soft_delete_person now project anon people \<and> sb_devices s' = reassign_devices project anon (pf_id target) (sb_devices s)
    \<and> upsert_of project merged \<in> set (sb_upsert_queue s')
    \<and> \<lparr>am_alias = anon, am_profile = pf_id target, am_external = external_of target, am_project = project\<rparr> \<in> set (sb_alias_queue s')"
  using assms
  by (auto simp: finish_merge_def Let_def merge_messages_def build_upsert_def build_alias_def publish_merge_def send_msg_def
      queue_upsert_def queue_alias_def upsert_of_def split: if_splits option.splits)

lemma reassign_devices_none: "anon \<noteq> tgt \<Longrightarrow> filter (of_profile project anon) (reassign_devices project anon tgt devs) = []"
  by (induction devs) (simp_all add: reassign_devices_def of_profile_def)

lemma handle_identify_leaves:
  assumes "people_ok (sb_people s)" "handle_identify flt now nid (Some m) s = (s', IdAck)"
  shows "\<exists>p. identified (im_project m) (im_external m) (im_traits m) p (sb_people s') \<and> upsert_of (im_project m) p \<in> set (sb_upsert_queue s')
    \<and> (im_anonymous m \<noteq> [] \<and> im_anonymous m \<noteq> pf_id p \<longrightarrow>
         get_person (sb_people s') (im_project m) (im_anonymous m) = None
       \<and> filter (of_profile (im_project m) (im_anonymous m)) (sb_devices s') = []
       \<and> \<lparr>am_alias = im_anonymous m, am_profile = pf_id p, am_external = im_external m, am_project = im_project m\<rparr> \<in> set (sb_alias_queue s'))"
proof -
  obtain people p where u: "upsert_person now nid (im_project m) (im_external m) (im_traits m) (sb_people s) = Some (people, p)"
    using assms(2) by (auto simp: handle_identify_def split: if_splits option.splits)
  have i: "people_ok people" "identified (im_project m) (im_external m) (im_traits m) p people"
    using upsert_person_identified [OF assms(1) u] by blast+
  have px: "external_of p = im_external m" "get_person people (im_project m) (pf_id p) \<noteq> None"
    using get_person_by_external_Some [of people "im_project m" "im_external m" p] i(2)
    by (auto simp: identified_def external_of_def get_person_def live_at_def find_None_iff)
  let ?s1 = "s\<lparr>sb_people := people\<rparr>"
  let ?s3 = "if im_device m = [] then ?s1
    else ?s1\<lparr>sb_devices := link_device (im_project m) (im_device m) (pf_id p) people (sb_devices ?s1)\<rparr>"
  have s3: "sb_people ?s3 = people"
      "(if im_anonymous m = [] then publish_upsert flt (im_project m) p ?s3
        else merge_anonymous flt now (im_project m) (im_anonymous m) p ?s3) = (s', IdAck)"
    using assms(2) u by (simp_all add: handle_identify_def Let_def split: if_splits)
  show ?thesis
  proof (cases "im_anonymous m = [] \<or> im_anonymous m = pf_id p")
    case True
    then have "publish_upsert flt (im_project m) p ?s3 = (s', IdAck)" using s3(2) by (auto simp: merge_anonymous_def split: if_splits)
    then show ?thesis using publish_upsert_ok i(2) s3(1) True by (intro exI [of _ p]) metis
  next
    case False
    obtain people2 p2 where f: "finish_merge flt now (im_project m) (im_anonymous m) p people2 p2 ?s3 = (s', IdAck)"
        "identified (im_project m) (im_external m) (im_traits m) p2 people2" "pf_id p2 = pf_id p"
    proof (cases "merge_person now (im_project m) (im_anonymous m) (pf_id p) people")
      case None
      then show thesis using that [of people p] s3 False px(2) i(2) by (auto simp: merge_anonymous_def split: if_splits)
    next
      case (Some q)
      then show thesis using that [of "fst q" "snd q"] s3 False merge_person_identified [OF i, of now "im_anonymous m" "fst q" "snd q"]
        by (auto simp: merge_anonymous_def split: if_splits prod.splits)
    qed
    have d: "identified (im_project m) (im_external m) (im_traits m) p2 (soft_delete_person now (im_project m) (im_anonymous m) people2)
        \<and> get_person (soft_delete_person now (im_project m) (im_anonymous m) people2) (im_project m) (im_anonymous m) = None"
      by (rule soft_delete_identified [OF f(2)]) (use False f(3) in simp)
    show ?thesis using finish_merge_ok [OF f(1)] d f(3) px(1) False reassign_devices_none [of "im_anonymous m" "pf_id p"]
      by (intro exI [of _ p2]) simp
  qed
qed



section \<open>From identification to erasure\<close>

lemma get_reopenable_None: "get_reopenable rows project kind pid ext = None \<longleftrightarrow> (\<forall>r\<in>set rows. \<not> reopenable project kind pid ext r)"
  by (simp add: get_reopenable_def latest_request_None filter_empty_conv)

lemma create_request_fresh:
  assumes "get_reopenable rows project kind pid ext = None"
    and "create_request now rid project kind (optional_text pid) (optional_text ext) by rows = Inl v"
  shows "\<not> is_open_conflict v"
proof -
  have n: "\<not> reopenable project kind pid ext r" if "r \<in> set rows" for r using assms(1) that by (simp add: get_reopenable_None)
  have "\<not> clash_on cr_profile rows r" "\<not> clash_on cr_external rows r"
    if "cr_project r = project" "cr_kind r = kind" "cr_profile r = optional_text pid" "cr_external r = optional_text ext" for r
    using that n by (fastforce simp: clash_on_def list_ex_iff reopenable_def optional_text_def is_open_status_def split: if_splits)+
  then show ?thesis using assms(2)
    by (auto simp: create_request_def Let_def open_clash_def is_open_conflict_def split: if_splits)
qed

text \<open>A request for a person without one: a new row of both ids, the profile hidden, the aliases as they were.\<close>

lemma fresh_external_request:
  assumes "ledger_ok (sb_requests s)" "get_person_by_external (sb_people s) project ext = Some p" "pf_id p \<noteq> []" "ext \<noteq> []"
    and "get_reopenable (sb_requests s) project kind_erase (pf_id p) ext = None"
    and "request_by_external flt now rid0 project ext by s = (s', rid, st, None)"
  shows "sb_aliases s' = sb_aliases s \<and> sb_people s' = soft_delete_person now project (pf_id p) (sb_people s) \<and> ledger_ok (sb_requests s') \<and> (\<exists>r. get_erase_request (sb_requests s') project rid = Some r
    \<and> cr_profile r = Some (pf_id p) \<and> cr_external r = Some ext \<and> cr_status r = ''pending'' \<and> cr_distinct r = [])"
proof -
  have ok: "ledger_ok (sb_requests s')" using request_by_external_kept [OF assms(6)] assms(1) by (simp add: books_kept_def)
  have "get_reopenable (sb_requests s) project kind_erase [] ext = None"
    using assms(5) by (auto simp: get_reopenable_None reopenable_def)
  then have "reopen_erasure flt 3 project [] ext s = (s, [], None, False, None)"
    using assms(4,6) by (auto simp: request_by_external_def reopen_erasure_def or_else_request_def split: if_splits)
  then have q: "request_erasure flt now rid0 project ext (pf_id p) by s = (s', rid, st, None)"
    using assms(2,4,6) by (auto simp: request_by_external_def or_else_request_def erase_fails_def split: if_splits)
  obtain s1 where tx: "request_tx flt now rid0 project ext (pf_id p) by s = Inr s1"
    and p: "publish_erase flt 0 project rid0 (pf_id p) ext s1 = (s', None)" "rid = rid0"
  proof (cases "request_tx flt now rid0 project ext (pf_id p) by s")
    case (Inl be)
    have "\<not> fst be" using Inl create_request_fresh [OF assms(5)]
      by (auto simp: request_tx_def Let_def split: if_splits sum.splits)
    then have False using q Inl by (cases be) (simp add: request_erasure_def erase_fails_def)
    then show thesis ..
  next
    case (Inr s1)
    then show thesis using that q by (auto simp: request_erasure_def split: prod.splits)
  qed
  let ?r = "\<lparr>cr_id = rid0, cr_project = project, cr_kind = kind_erase, cr_profile = Some (pf_id p), cr_external = Some ext,
     cr_status = ''pending'', cr_distinct = [], cr_events = 0, cr_requested_by = optional_text by, cr_requested_at = now,
     cr_completed_at = None, cr_error = None\<rparr>"
  have c: "sb_aliases s1 = sb_aliases s" "sb_people s1 = soft_delete_person now project (pf_id p) (sb_people s)" "?r \<in> set (sb_requests s1)"
    using tx assms(3,4) by (auto simp: request_tx_def Let_def create_request_def optional_text_def split: if_splits sum.splits option.splits)
  have q': "sb_aliases s' = sb_aliases s1" "sb_people s' = sb_people s1" "sb_requests s' = sb_requests s1"
    using p(1) by (auto simp: publish_erase_def Let_def split: if_splits)
  have "get_erase_request (sb_requests s') project rid = Some ?r"
    unfolding get_erase_request_iff [OF ok] using c(3) p(2) q'(3) by simp
  then show ?thesis using ok c(1,2) q'(1,2) by auto
qed

text \<open>
  C39. A visitor identified with an anonymous id, whose alias has reached ClickHouse, and then
  erased by external id, is erased as all three: no event, activity state or ClickHouse profile
  is left under the external id, the profile's id or the anonymous id, and in Postgres neither
  the profile nor its devices. The anonymous profile's own Postgres row, where it had one, is
  hidden but not removed: of the Postgres profiles only the canonical one goes. The way is four
  handlers, any of whose calls may have failed before they were redelivered.
\<close>

theorem identified_person_is_erased:
  assumes "people_ok (sb_people s)" "ledger_ok (sb_requests s)"
    and "handle_identify f1 t1 nid (Some m) s = (s1, IdAck)" "im_anonymous m \<noteq> []"
    and "get_person_by_external (sb_people s1) (im_project m) (im_external m) = Some p" "im_anonymous m \<noteq> pf_id p"
    and "a = \<lparr>am_alias = im_anonymous m, am_profile = pf_id p, am_external = im_external m, am_project = im_project m\<rparr>"
    and "handle_alias f2 t2 (Some a) s1 = (s2, IdAck)"
    and "get_reopenable (sb_requests s2) (im_project m) kind_erase (pf_id p) (im_external m) = None"
    and "request_by_external f3 t3 rid0 (im_project m) (im_external m) by s2 = (s3, rid, st, None)"
    and "execute_erasure f4 t4 (im_project m) rid s3 = (s4, None)"
  shows "a \<in> set (sb_alias_queue s1) \<and> (\<exists>ids. {im_external m, pf_id p, im_anonymous m} \<subseteq> set ids \<and> stores_cleared (im_project m) (pf_id p) ids s4)
    \<and> sb_people s4 = filter (\<lambda>q. \<not> person_is (im_project m) (pf_id p) q) (soft_delete_person t3 (im_project m) (pf_id p) (sb_people s1))
    \<and> get_person (sb_people s4) (im_project m) (im_anonymous m) = None"
proof -
  have queued: "a \<in> set (sb_alias_queue s1)" and hidden: "get_person (sb_people s1) (im_project m) (im_anonymous m) = None"
    using handle_identify_leaves [OF assms(1,3)] assms(4-7) by (auto simp: identified_def)
  have ne: "pf_id p \<noteq> []" "im_external m \<noteq> []"
    and s2: "sb_people s2 = sb_people s1" "sb_requests s2 = sb_requests s"
      "\<exists>r\<in>set (sb_aliases s2). aliases_to (im_project m) (pf_id p) r \<and> al_alias r = im_anonymous m"
    using assms(7,8) handle_identify_books [of f1 t1 nid "Some m" s] assms(3)
    by (auto simp: handle_alias_def valid_alias_msg_def aliases_to_def Let_def split: if_splits)
  have p2: "get_person_by_external (sb_people s2) (im_project m) (im_external m) = Some p" using assms(5) s2(1) by simp
  have ok2: "ledger_ok (sb_requests s2)" using assms(2) s2(2) by simp
  obtain r where r: "sb_aliases s3 = sb_aliases s2" "ledger_ok (sb_requests s3)" "get_erase_request (sb_requests s3) (im_project m) rid = Some r"
      "cr_profile r = Some (pf_id p)" "cr_external r = Some (im_external m)" "cr_status r = ''pending''" "cr_distinct r = []"
    and people3: "sb_people s3 = soft_delete_person t3 (im_project m) (pf_id p) (sb_people s1)"
    using fresh_external_request [OF ok2 p2 ne assms(9,10)] s2(1) by auto
  have ids: "subject_ids r s3 \<supseteq> {im_external m, pf_id p, im_anonymous m}"
    using s2(3) ne r(1,4,5) get_erase_request_Some [OF r(3)] assms(4) by (auto simp: subject_ids_def text_or_empty_def image_iff)
  have "erase_loaded f4 t4 r s3 = (s4, None)" using execute_erasure_loaded [OF r(3) assms(11)] by simp
  then obtain ks where cleared: "set ks = subject_ids r s3" "stores_cleared (im_project m) (pf_id p) ks s4"
    and people4: "sb_people s4 = filter (\<lambda>q. \<not> person_is (im_project m) (pf_id p) q) (sb_people s3)"
    using erase_loaded_completes [OF r(2,3), of f4 t4 s4] r(4,6,7) ne by (auto simp: text_or_empty_def people_after_def)
  have "get_person (sb_people s4) (im_project m) (im_anonymous m) = None"
    using hidden unfolding people4 people3 by (auto simp: get_person_def find_None_iff soft_delete_person_def live_at_def)
  then show ?thesis using queued ids cleared people4 people3 by auto
qed

theorem identified_person_is_erased_witness:
  "(\<exists>ids. ''u1'' \<in> set ids \<and> ''P1'' \<in> set ids \<and> ''anon-1'' \<in> set ids \<and> stores_cleared demo_project ''P1'' ids demo_erased)
    \<and> get_person (sb_people demo_erased) demo_project ''anon-1'' = None"
proof -
  have o: "people_ok (sb_people demo_store)" "ledger_ok (sb_requests demo_store)"
    by (simp_all add: people_ok_def demo_store_def ledger_ok_def apart_def)
  have an: "im_anonymous (demo_identify ''anon-1'') \<noteq> []" by (simp add: demo_identify_def)
  have "map_option pf_id (get_person_by_external (sb_people demo_identified) demo_project ''u1'') = Some ''P1''" by code_simp
  then obtain p where p: "get_person_by_external (sb_people demo_identified) demo_project ''u1'' = Some p" "pf_id p = ''P1''" by auto
  have "sb_requests demo_aliased = []" by code_simp
  then have r: "get_reopenable (sb_requests demo_aliased) demo_project kind_erase ''P1'' ''u1'' = None" by (simp add: get_reopenable_def)
  have m: "im_project (demo_identify ''anon-1'') = demo_project" "im_external (demo_identify ''anon-1'') = ''u1''"
      "im_anonymous (demo_identify ''anon-1'') = ''anon-1''" by (simp_all add: demo_identify_def)
  show ?thesis
    using identified_person_is_erased [OF o demo_identified_ack an, unfolded m, OF p(1), unfolded p(2), OF _ refl, folded demo_alias_def,
        OF _ demo_aliased_ack r demo_requested_ok demo_erased_ok] by auto
qed

end
