(* ===== verification/Worker_Frame.thy ===== *)
theory Worker_Frame
  imports Go_Decimal Go_Time
begin

text \<open>
  The consumer every NATS worker runs in, \<open>internal/deps/nats/worker.go\<close>: its configuration and
  what it does with a message once the processor has spoken. A message is acknowledged, sent
  back with a delay, or copied to the dead-letter subject and terminated. The stream delivers
  a message again with its delivery count raised by one.
\<close>

section \<open>Configuration\<close>

record worker_config =
  wc_stream :: string
  wc_consumer :: string
  wc_durable :: string
  wc_filter :: string
  wc_concurrency :: int
  wc_timeout :: duration
  wc_max_deliver :: int
  wc_ack_wait :: duration
  wc_backoff :: "duration list"
  wc_dlq :: string

datatype config_error = StreamRequired | ConsumerRequired | DurableRequired | ProcessorNil | DlqRequired | BackOffNotPositive nat

definition default_concurrency :: int where "default_concurrency = 1"
definition default_timeout :: duration where "default_timeout = 30 * second"
definition default_max_deliver :: int where "default_max_deliver = 3"
definition default_ack_wait :: duration where "default_ack_wait = 30 * second"

definition default_backoff :: "duration list" where
  "default_backoff = [1 * second, 5 * second, 15 * second, 30 * second]"

fun first_not_positive :: "nat \<Rightarrow> duration list \<Rightarrow> nat option" where
  "first_not_positive i [] = None"
| "first_not_positive i (d # ds) = (if d \<le> 0 then Some i else first_not_positive (Suc i) ds)"

definition new_worker :: "bool \<Rightarrow> worker_config \<Rightarrow> (config_error, worker_config) result" where
  "new_worker has_processor c =
     (if wc_stream c = [] then Inl StreamRequired
      else if wc_consumer c = [] then Inl ConsumerRequired
      else if wc_durable c = [] then Inl DurableRequired
      else if \<not> has_processor then Inl ProcessorNil
      else if wc_dlq c = [] then Inl DlqRequired
      else case first_not_positive 0 (wc_backoff c) of
        Some i \<Rightarrow> Inl (BackOffNotPositive i)
      | None \<Rightarrow> Inr (c\<lparr>wc_concurrency := (if wc_concurrency c \<le> 0 then default_concurrency else wc_concurrency c),
                      wc_timeout := (if wc_timeout c \<le> 0 then default_timeout else wc_timeout c),
                      wc_max_deliver := (if wc_max_deliver c \<le> 0 then default_max_deliver else wc_max_deliver c),
                      wc_ack_wait := (if wc_ack_wait c \<le> 0 then default_ack_wait else wc_ack_wait c),
                      wc_backoff := (if wc_backoff c = [] then default_backoff else wc_backoff c)\<rparr>))"

section \<open>One delivery\<close>

text \<open>What the processor returned: nothing, a permanent error with its metadata, another error.\<close>

datatype proc_result = ProcOk | ProcPermanent string "(string \<times> string) list" | ProcErr string

record stream_msg =
  sm_subject :: string
  sm_data :: string
  sm_headers :: "string \<Rightarrow> string option"

record msg_meta =
  mm_delivered :: nat
  mm_stream_seq :: nat

record dlq_msg =
  dq_subject :: string
  dq_data :: string
  dq_headers :: "string \<Rightarrow> string option"

datatype worker_call = WcDlqPublish | WcTerm | WcNak | WcAck

datatype signal = SigAck | SigNak duration | SigTerm
datatype dlq_disposition = DispositionPermanent | DispositionExhausted | DispositionMetadataUnavailable
datatype dlq_outcome = OutcomePublished | OutcomeDropped

definition outcome_label :: "bool \<Rightarrow> dlq_outcome" where
  "outcome_label published = (if published then OutcomePublished else OutcomeDropped)"

text \<open>The fate of a delivery: the dead letter, the metric, the signal meant and whether it was sent.\<close>

record msg_fate =
  mf_dead :: "dlq_msg option"
  mf_metric :: "(dlq_disposition \<times> dlq_outcome) option"
  mf_signal :: signal
  mf_sent :: bool

definition is_last_delivery :: "worker_config \<Rightarrow> nat \<Rightarrow> bool \<Rightarrow> bool" where
  "is_last_delivery c delivered meta_ok = (\<not> meta_ok \<or> wc_max_deliver c \<le> int delivered)"

definition nak_backoff :: "worker_config \<Rightarrow> nat \<Rightarrow> duration" where
  "nak_backoff c delivered =
     (if wc_backoff c = [] then 0
      else let idx = max (int delivered - 1) 0; idx = min idx (int (length (wc_backoff c)) - 1) in wc_backoff c ! nat idx)"

definition header_set :: "string \<Rightarrow> string \<Rightarrow> (string \<Rightarrow> string option) \<Rightarrow> string \<Rightarrow> string option" where
  "header_set k v h = h(k \<mapsto> v)"

definition error_headers :: "proc_result \<Rightarrow> (string \<Rightarrow> string option) \<Rightarrow> string \<Rightarrow> string option" where
  "error_headers r h =
     (case r of
        ProcOk \<Rightarrow> h
      | ProcErr e \<Rightarrow> header_set ''error_reason'' e h
      | ProcPermanent e md \<Rightarrow> foldl (\<lambda>h (k, v). header_set k v h) (header_set ''error_reason'' e h) md)"

definition dlq_headers :: "worker_config \<Rightarrow> string \<Rightarrow> stream_msg \<Rightarrow> msg_meta option \<Rightarrow> proc_result \<Rightarrow> string \<Rightarrow> string option" where
  "dlq_headers c stamp m meta r =
     (let h = error_headers r (header_set ''original_consumer'' (wc_consumer c) (header_set ''original_stream'' (wc_stream c)
                (header_set ''original_subject'' (sm_subject m) (sm_headers m))));
          h = header_set ''dlq_timestamp'' stamp h
      in case meta of
           None \<Rightarrow> h
         | Some mt \<Rightarrow> header_set ''stream_sequence'' (format_int (int (mm_stream_seq mt)))
                      (header_set ''delivery_count'' (format_int (int (mm_delivered mt))) h))"

definition publish_to_dlq :: "(worker_call \<Rightarrow> bool) \<Rightarrow> worker_config \<Rightarrow> string \<Rightarrow> stream_msg \<Rightarrow> msg_meta option \<Rightarrow> proc_result \<Rightarrow> dlq_msg option" where
  "publish_to_dlq flt c stamp m meta r =
     (if wc_dlq c = [] \<or> flt WcDlqPublish then None
      else Some \<lparr>dq_subject = wc_dlq c, dq_data = sm_data m, dq_headers = dlq_headers c stamp m meta r\<rparr>)"

definition dead_letter :: "(worker_call \<Rightarrow> bool) \<Rightarrow> worker_config \<Rightarrow> string \<Rightarrow> stream_msg \<Rightarrow> msg_meta option \<Rightarrow> proc_result \<Rightarrow> dlq_disposition \<Rightarrow> msg_fate" where
  "dead_letter flt c stamp m meta r d =
     (let p = publish_to_dlq flt c stamp m meta r
      in \<lparr>mf_dead = p, mf_metric = Some (d, outcome_label (p \<noteq> None)), mf_signal = SigTerm, mf_sent = (\<not> flt WcTerm)\<rparr>)"

definition handle_message :: "(worker_call \<Rightarrow> bool) \<Rightarrow> worker_config \<Rightarrow> string \<Rightarrow> stream_msg \<Rightarrow> msg_meta option \<Rightarrow> proc_result \<Rightarrow> msg_fate" where
  "handle_message flt c stamp m meta r =
     (let delivered = (case meta of None \<Rightarrow> 0 | Some mt \<Rightarrow> mm_delivered mt); meta_ok = (meta \<noteq> None)
      in case r of
           ProcPermanent e md \<Rightarrow> dead_letter flt c stamp m meta r DispositionPermanent
         | ProcErr e \<Rightarrow>
             if is_last_delivery c delivered meta_ok
             then dead_letter flt c stamp m meta r (if meta_ok then DispositionExhausted else DispositionMetadataUnavailable)
             else \<lparr>mf_dead = None, mf_metric = None, mf_signal = SigNak (nak_backoff c delivered), mf_sent = (\<not> flt WcNak)\<rparr>
         | ProcOk \<Rightarrow> \<lparr>mf_dead = None, mf_metric = None, mf_signal = SigAck, mf_sent = (\<not> flt WcAck)\<rparr>)"

lemma handle_message_signal:
  "mf_signal (handle_message flt c stamp m meta r) =
     (case r of
        ProcOk \<Rightarrow> SigAck
      | ProcPermanent e md \<Rightarrow> SigTerm
      | ProcErr e \<Rightarrow> (case meta of
            None \<Rightarrow> SigTerm
          | Some mt \<Rightarrow> if int (mm_delivered mt) < wc_max_deliver c then SigNak (nak_backoff c (mm_delivered mt)) else SigTerm))"
  by (auto simp: handle_message_def dead_letter_def is_last_delivery_def Let_def split: proc_result.splits option.splits)

lemma terminated_is_dead_or_dropped:
  "mf_signal (handle_message flt c stamp m meta r) = SigTerm \<Longrightarrow>
     (\<exists>l. mf_dead (handle_message flt c stamp m meta r) = Some l \<and> dq_data l = sm_data m \<and> dq_subject l = wc_dlq c)
     \<or> (\<exists>x. mf_metric (handle_message flt c stamp m meta r) = Some (x, OutcomeDropped))"
  by (auto simp: handle_message_def dead_letter_def publish_to_dlq_def Let_def outcome_label_def split: proc_result.splits if_splits option.splits)

lemma first_not_positive_None: "first_not_positive i ds = None \<Longrightarrow> \<forall>d\<in>set ds. 0 < d"
  by (induction i ds rule: first_not_positive.induct) (auto split: if_splits)

lemma new_worker_limits:
  assumes "new_worker has c0 = Inr c"
  shows "0 < wc_max_deliver c" "wc_backoff c \<noteq> []" "\<forall>d\<in>set (wc_backoff c). 0 < d"
  using assms by (auto simp: new_worker_def default_max_deliver_def default_backoff_def second_def
      dest!: first_not_positive_None split: if_splits option.splits)

lemma nak_backoff_positive:
  assumes "new_worker has c0 = Inr c"
  shows "0 < nak_backoff c n"
proof -
  let ?i = "min (max (int n - 1) 0) (int (length (wc_backoff c)) - 1)"
  have "wc_backoff c \<noteq> []" by (rule new_worker_limits(2) [OF assms])
  then have "0 < length (wc_backoff c)" by simp
  then have "nat ?i < length (wc_backoff c)" by linarith
  then show ?thesis using new_worker_limits(2,3) [OF assms] by (auto simp: nak_backoff_def Let_def)
qed

section \<open>Deliveries\<close>

text \<open>
  The stream's side. The worker creates its consumer with explicit acknowledgement, the limit
  and the wait of its configuration (\<open>Start\<close>), so a message whose acknowledgement or
  termination did not reach the stream, or that was sent back, is delivered again with its
  count raised by one until the limit is reached. A processor that steps a state, and what
  other writers do to that state between two deliveries, are arguments; \<open>known n\<close> says whether
  the metadata of the \<open>n\<close>-th delivery could be read. The result has one entry per delivery.
\<close>

record delivery =
  dl_count :: nat
  dl_result :: proc_result
  dl_fate :: msg_fate

definition settled :: "msg_fate \<Rightarrow> bool" where
  "settled f = (mf_sent f \<and> (case mf_signal f of SigNak _ \<Rightarrow> False | _ \<Rightarrow> True))"

lemma settled_iff: "settled f = (mf_sent f \<and> mf_signal f \<in> {SigAck, SigTerm})"
  by (auto simp: settled_def split: signal.splits)

lemma unsettled_sent: "\<not> settled f \<Longrightarrow> mf_sent f \<Longrightarrow> \<exists>delay. mf_signal f = SigNak delay"
  by (auto simp: settled_def split: signal.splits)

definition meta_of :: "(nat \<Rightarrow> bool) \<Rightarrow> nat \<Rightarrow> nat \<Rightarrow> msg_meta option" where
  "meta_of known seq n = (if known n then Some \<lparr>mm_delivered = n, mm_stream_seq = seq\<rparr> else None)"

function deliver_from :: "(nat \<Rightarrow> worker_call \<Rightarrow> bool) \<Rightarrow> worker_config \<Rightarrow> string \<Rightarrow> nat \<Rightarrow> (nat \<Rightarrow> bool) \<Rightarrow> stream_msg \<Rightarrow> (nat \<Rightarrow> 's \<Rightarrow> 's \<times> proc_result)
    \<Rightarrow> (nat \<Rightarrow> 's \<Rightarrow> 's) \<Rightarrow> nat \<Rightarrow> 's \<Rightarrow> 's \<times> delivery list" where
  "deliver_from flt c stamp seq known m proc between n s =
     (case proc n s of (s1, r) \<Rightarrow>
        (let f = handle_message (flt n) c stamp m (meta_of known seq n) r; d = \<lparr>dl_count = n, dl_result = r, dl_fate = f\<rparr>
         in if \<not> settled f \<and> int n < wc_max_deliver c
            then case deliver_from flt c stamp seq known m proc between (Suc n) (between n s1) of (s2, ds) \<Rightarrow> (s2, d # ds)
            else (s1, [d])))"
  by pat_completeness auto

termination
  by (relation "measure (\<lambda>(flt, c, stamp, seq, known, m, proc, between, n, s). nat (wc_max_deliver c - int n))") auto

declare deliver_from.simps [simp del]

text \<open>One delivery is handled as the worker's rule says.\<close>

definition delivery_ruled :: "worker_config \<Rightarrow> (nat \<Rightarrow> bool) \<Rightarrow> stream_msg \<Rightarrow> delivery \<Rightarrow> bool" where
  "delivery_ruled c known m d =
     ((case dl_result d of
         ProcOk \<Rightarrow> mf_signal (dl_fate d) = SigAck
       | ProcPermanent e md \<Rightarrow> mf_signal (dl_fate d) = SigTerm
       | ProcErr e \<Rightarrow> mf_signal (dl_fate d) =
           (if known (dl_count d) \<and> int (dl_count d) < wc_max_deliver c then SigNak (nak_backoff c (dl_count d)) else SigTerm))
      \<and> (mf_signal (dl_fate d) = SigTerm \<longrightarrow>
           (\<exists>l. mf_dead (dl_fate d) = Some l \<and> dq_data l = sm_data m \<and> dq_subject l = wc_dlq c)
           \<or> (\<exists>x. mf_metric (dl_fate d) = Some (x, OutcomeDropped))))"

lemma handle_message_ruled:
  "delivery_ruled c known m \<lparr>dl_count = n, dl_result = r, dl_fate = handle_message flt c stamp m (meta_of known seq n) r\<rparr>"
  using terminated_is_dead_or_dropped [of flt c stamp m "meta_of known seq n" r]
  by (auto simp: delivery_ruled_def handle_message_signal meta_of_def split: proc_result.splits)

lemma deliver_from_trace:
  assumes "deliver_from flt c stamp seq known m proc between n s = (s', ds)"
  shows "ds \<noteq> [] \<and> map dl_count ds = [n..<n + length ds] \<and> (\<forall>d\<in>set ds. delivery_ruled c known m d)
    \<and> (\<forall>d\<in>set (butlast ds). \<not> settled (dl_fate d) \<and> int (dl_count d) < wc_max_deliver c)
    \<and> (settled (dl_fate (last ds)) \<or> wc_max_deliver c \<le> int (dl_count (last ds)))"
  using assms
proof (induction flt c stamp seq known m proc between n s arbitrary: ds rule: deliver_from.induct)
  case (1 flt c stamp seq known m proc between n s)
  obtain s1 r where p: "proc n s = (s1, r)" by fastforce
  let ?f = "handle_message (flt n) c stamp m (meta_of known seq n) r"
  let ?d = "\<lparr>dl_count = n, dl_result = r, dl_fate = ?f\<rparr>"
  show ?case
  proof (cases "\<not> settled ?f \<and> int n < wc_max_deliver c")
    case True
    obtain s2 rest where d: "deliver_from flt c stamp seq known m proc between (Suc n) (between n s1) = (s2, rest)" by fastforce
    have e: "ds = ?d # rest" and s2: "s2 = s'"
      using "1.prems" True d by (auto simp: deliver_from.simps [of flt c stamp seq known m proc between n s] p Let_def)
    note ih = "1.IH" [OF p [symmetric] refl refl True d [unfolded s2]]
    show ?thesis using ih True handle_message_ruled by (auto simp: e upt_rec)
  next
    case False
    then have "ds = [?d]" using "1.prems" by (auto simp: deliver_from.simps [of flt c stamp seq known m proc between n s] p Let_def)
    then show ?thesis using False handle_message_ruled by auto
  qed
qed

text \<open>
  C40. A worker built from any configuration handles every message by one rule. The deliveries of
  a message are numbered from 1, at least one and at most the limit. At each of them a success
  is acknowledged, a permanent error terminated, and another error sent back with the positive
  delay of the schedule below the limit and terminated at the limit or when the delivery count
  cannot be read; a terminated message is on the dead-letter subject or counted as dropped. A
  message is delivered again exactly when its acknowledgement or termination did not reach the
  stream or it was sent back, so at the end it is settled or has used up its deliveries.
\<close>

theorem message_is_settled:
  assumes "new_worker has c0 = Inr c"
    and "deliver_from flt c stamp seq known m proc between 1 s = (s', ds)"
  shows "map dl_count ds = [1..<Suc (length ds)] \<and> 1 \<le> length ds \<and> int (length ds) \<le> wc_max_deliver c
    \<and> (\<forall>d\<in>set ds.
         (case dl_result d of
            ProcOk \<Rightarrow> mf_signal (dl_fate d) = SigAck
          | ProcPermanent e md \<Rightarrow> mf_signal (dl_fate d) = SigTerm
          | ProcErr e \<Rightarrow> if known (dl_count d) \<and> int (dl_count d) < wc_max_deliver c
              then \<exists>delay > 0. delay = nak_backoff c (dl_count d) \<and> mf_signal (dl_fate d) = SigNak delay
              else mf_signal (dl_fate d) = SigTerm)
       \<and> (mf_signal (dl_fate d) = SigTerm \<longrightarrow>
            (\<exists>l. mf_dead (dl_fate d) = Some l \<and> dq_data l = sm_data m \<and> dq_subject l = wc_dlq c)
            \<or> (\<exists>x. mf_metric (dl_fate d) = Some (x, OutcomeDropped))))
    \<and> (\<forall>d\<in>set (butlast ds). mf_sent (dl_fate d) \<longrightarrow> (\<exists>delay. mf_signal (dl_fate d) = SigNak delay))
    \<and> (mf_sent (dl_fate (last ds)) \<and> mf_signal (dl_fate (last ds)) \<in> {SigAck, SigTerm} \<or> int (length ds) = wc_max_deliver c)"
proof -
  note t = deliver_from_trace [OF assms(2)]
  have len: "map dl_count ds = [1..<Suc (length ds)]" "1 \<le> length ds" using t by (simp_all add: Suc_le_eq)
  have cnt: "dl_count (ds ! i) = Suc i" if "i < length ds" for i
    using arg_cong [OF len(1), of "\<lambda>xs. xs ! i"] that by (simp del: upt_Suc)
  have lst: "dl_count (last ds) = length ds" using cnt [of "length ds - 1"] len(2) t by (simp add: last_conv_nth)
  have bound: "int (length ds) \<le> wc_max_deliver c"
  proof (cases "length ds = 1")
    case True then show ?thesis using new_worker_limits(1) [OF assms(1)] by simp
  next
    case False
    then have l: "length ds - 2 < length ds" "length ds - 2 < length (butlast ds)" "Suc (length ds - 2) = length ds - 1" using len(2) by simp_all
    then have "ds ! (length ds - 2) \<in> set (butlast ds)" by (metis nth_butlast nth_mem)
    then show ?thesis using t cnt [OF l(1)] l(3) len(2) by fastforce
  qed
  have last_ok: "mf_sent (dl_fate (last ds)) \<and> mf_signal (dl_fate (last ds)) \<in> {SigAck, SigTerm} \<or> int (length ds) = wc_max_deliver c"
    using t lst bound settled_iff [of "dl_fate (last ds)"] by auto
  have again: "\<forall>d\<in>set (butlast ds). mf_sent (dl_fate d) \<longrightarrow> (\<exists>delay. mf_signal (dl_fate d) = SigNak delay)"
    using t unsettled_sent by blast
  have ruled: "\<forall>d\<in>set ds. delivery_ruled c known m d" using t by blast
  show ?thesis
    using len bound last_ok again ruled nak_backoff_positive [OF assms(1)]
    by (auto simp: delivery_ruled_def split: proc_result.splits if_splits)
qed

definition demo_config :: worker_config where
  "demo_config = \<lparr>wc_stream = ''COMPLIANCE'', wc_consumer = ''erase'', wc_durable = ''erase'', wc_filter = ''compliance.erase'', wc_concurrency = 2, wc_timeout = 300 * second,
     wc_max_deliver = 5, wc_ack_wait = 300 * second, wc_backoff = default_backoff, wc_dlq = ''dlq.compliance.erase''\<rparr>"

definition demo_stream_msg :: stream_msg where
  "demo_stream_msg = \<lparr>sm_subject = ''compliance.erase'', sm_data = ''payload'', sm_headers = (\<lambda>_. None)\<rparr>"

lemma demo_new_worker: "new_worker True demo_config = Inr demo_config"
  by (simp add: new_worker_def demo_config_def default_backoff_def second_def)

text \<open>A processor that fails twice and then succeeds; the acknowledgement of the third delivery is lost.\<close>

definition demo_deliveries :: "nat \<times> delivery list" where
  "demo_deliveries = deliver_from (\<lambda>n call. n = 3 \<and> call = WcAck) demo_config ''now'' 7 (\<lambda>_. True) demo_stream_msg
     (\<lambda>n s. (s + 1, if n < 3 then ProcErr ''down'' else ProcOk)) (\<lambda>_ s. s) 1 0"

theorem message_is_settled_witness:
  "map (\<lambda>d. (dl_count d, mf_signal (dl_fate d), mf_sent (dl_fate d))) (snd demo_deliveries)
     = [(1, SigNak (1 * second), True), (2, SigNak (5 * second), True), (3, SigAck, False), (4, SigAck, True)]
   \<and> int (length (snd demo_deliveries)) \<le> 5"
proof -
  obtain s ds where d: "deliver_from (\<lambda>n call. n = 3 \<and> call = WcAck) demo_config ''now'' 7 (\<lambda>_. True) demo_stream_msg
     (\<lambda>n s. (s + 1, if n < 3 then ProcErr ''down'' else ProcOk)) (\<lambda>_ s. s) 1 (0::nat) = (s, ds)" by fastforce
  have len: "int (length ds) \<le> wc_max_deliver demo_config" using message_is_settled [OF demo_new_worker d] by blast
  have run: "map (\<lambda>d. (dl_count d, mf_signal (dl_fate d), mf_sent (dl_fate d))) (snd demo_deliveries)
     = [(1, SigNak (1 * second), True), (2, SigNak (5 * second), True), (3, SigAck, False), (4, SigAck, True)]"
    by (simp add: demo_deliveries_def deliver_from.simps handle_message_def meta_of_def settled_def is_last_delivery_def demo_config_def
        nak_backoff_def default_backoff_def Let_def)
  show ?thesis using run len d by (simp add: demo_deliveries_def demo_config_def)
qed

text \<open>
  A message that is not acknowledged is not lost silently: when the worker terminates it, the
  dead-letter subject has its data with the reason and where it came from, or the metric
  counts it as dropped.
\<close>

theorem dead_letter_or_counted:
  assumes "mf_signal (handle_message flt c stamp m meta r) = SigTerm"
  shows "(\<exists>d. mf_dead (handle_message flt c stamp m meta r) = Some d \<and> dq_data d = sm_data m \<and> dq_subject d = wc_dlq c
       \<and> (\<forall>e md. r = ProcErr e \<or> r = ProcPermanent e md \<and> md = [] \<longrightarrow> dq_headers d ''error_reason'' = Some e \<and> dq_headers d ''original_subject'' = Some (sm_subject m)))
    \<or> (\<exists>d. mf_metric (handle_message flt c stamp m meta r) = Some (d, OutcomeDropped))"
  using assms
  by (auto simp: handle_message_def dead_letter_def publish_to_dlq_def Let_def outcome_label_def dlq_headers_def error_headers_def
      header_set_def split: proc_result.splits if_splits option.splits)

theorem dead_letter_or_counted_witness:
  "let f = handle_message (\<lambda>_. False) demo_config ''now'' demo_stream_msg (Some \<lparr>mm_delivered = 5, mm_stream_seq = 7\<rparr>) (ProcErr ''down'')
   in \<exists>d. mf_dead f = Some d \<and> dq_data d = ''payload'' \<and> dq_subject d = ''dlq.compliance.erase''"
proof -
  let ?f = "handle_message (\<lambda>_. False) demo_config ''now'' demo_stream_msg (Some \<lparr>mm_delivered = 5, mm_stream_seq = 7\<rparr>) (ProcErr ''down'')"
  have f: "mf_signal ?f = SigTerm" "mf_metric ?f = Some (DispositionExhausted, OutcomePublished)" by code_simp+
  show ?thesis using dead_letter_or_counted [OF f(1)] f(2) by (auto simp: demo_stream_msg_def demo_config_def Let_def)
qed

end
