(* ===== verification/Erase_Worker.thy ===== *)
theory Erase_Worker
  imports Erasure_Claims Worker_Frame
begin

text \<open>
  The erase consumer: the handler of \<open>internal/app/workers/compliance\<close> run by the worker of
  \<open>internal/deps/nats\<close>, over all deliveries of one message with anything happening in between.
\<close>

text \<open>
  The processor the consumer is built with; \<open>cfg\<close> is the configuration before the worker fills
  its defaults and \<open>known n\<close> whether the metadata of the \<open>n\<close>-th delivery can be read.
\<close>

definition erase_processor :: "(nat \<Rightarrow> erase_call \<Rightarrow> bool) \<Rightarrow> (erase_error \<Rightarrow> string) \<Rightarrow> (nat \<Rightarrow> time) \<Rightarrow> worker_config \<Rightarrow> (nat \<Rightarrow> bool) \<Rightarrow> erase_msg option
    \<Rightarrow> nat \<Rightarrow> subject_store \<Rightarrow> subject_store \<times> proc_result" where
  "erase_processor flt msg now cfg known m n s =
     (case handle_erase (flt n) msg (now n) (is_last_erase_delivery (if known n then Some n else None) (wc_max_deliver cfg)) m s of
        (s', EraseAck) \<Rightarrow> (s', ProcOk)
      | (s', ErasePermanent) \<Rightarrow> (s', ProcPermanent ''erase'' [(''worker'', ''compliance-erase'')])
      | (s', EraseRetry e) \<Rightarrow> (s', ProcErr (msg e)))"

text \<open>
  The handler's idea of the last delivery is the worker's own, as long as the configuration
  names a positive limit.
\<close>

theorem last_delivery_agrees:
  assumes "new_worker True cfg = Inr c" "0 < wc_max_deliver cfg"
  shows "is_last_erase_delivery delivered (wc_max_deliver cfg)
    = is_last_delivery c (case delivered of None \<Rightarrow> 0 | Some n \<Rightarrow> n) (delivered \<noteq> None)"
  using assms
  by (auto simp: new_worker_def is_last_erase_delivery_def is_last_delivery_def split: if_splits option.splits)

text \<open>Without one the worker retries what the handler has already called failed.\<close>

lemma unset_limit_disagrees:
  "new_worker True (demo_config\<lparr>wc_max_deliver := 0\<rparr>) = Inr (demo_config\<lparr>wc_max_deliver := 3\<rparr>)
   \<and> is_last_erase_delivery (Some 1) 0 \<and> \<not> is_last_delivery (demo_config\<lparr>wc_max_deliver := 3\<rparr>) 1 True"
  by (simp add: new_worker_def demo_config_def is_last_erase_delivery_def is_last_delivery_def default_max_deliver_def
      default_backoff_def second_def)

lemma erase_kept_row:
  assumes "ledger_ok (sb_requests s)" "get_erase_request (sb_requests s) project rid = Some req" "books_kept s s'"
  shows "ledger_ok (sb_requests s') \<and> (\<exists>r. get_erase_request (sb_requests s') project rid = Some r \<and> same_subject req r)"
proof -
  have k: "ledger_ok (sb_requests s')" "ledger_le (sb_requests s) (sb_requests s')" using assms(1,3) by (simp_all add: books_kept_def)
  have req: "req \<in> set (sb_requests s)" "cr_id req = rid" "cr_project req = project" "cr_kind req = kind_erase"
    using get_erase_request_Some [OF assms(2)] by blast+
  obtain r where "r \<in> set (sb_requests s')" "row_le req r" using k(2) req(1) by (auto simp: ledger_le_def)
  then show ?thesis using k(1) req by (auto simp: get_erase_request_iff row_le_def same_subject_def)
qed

lemma run_books_kept: "books_kept s (run_events subject_step s es)"
  using subjects.run_mono [of s es] subjects.run_inv [of s es] by (simp add: books_kept_def)

text \<open>
  C34. When a message about a recorded erase request is delivered for the last time, the ledger and
  the signal agree: the request is completed and the message acknowledged, or the message is
  terminated and the request failed. The exception is stated: where the update that records the
  failure itself fails at that delivery, because the call does or because Postgres refuses the
  error's text cut at 1024 bytes, the message is terminated and the row says what it said. Any other call of any delivery may fail, the acknowledgements included, the
  metadata may be unreadable, and anything may happen between deliveries. The configuration
  has to name a positive limit: with none the handler and the worker disagree about the last
  delivery (\<open>unset_limit_disagrees\<close>).
\<close>

theorem settled_message_is_on_the_ledger:
  assumes "deliver_from wflt c stamp seq known sm (erase_processor eflt msg now cfg known (Some m)) (\<lambda>n s. run_events subject_step s (between n)) n s = (s', ds)"
    and "new_worker True cfg = Inr c" "0 < wc_max_deliver cfg"
    and "ledger_ok (sb_requests s)" "valid_erase_msg m" "get_erase_request (sb_requests s) (em_project m) (em_request m) = Some req"
  shows "\<exists>r. get_erase_request (sb_requests s') (em_project m) (em_request m) = Some r \<and> same_subject req r
    \<and> (mf_signal (dl_fate (last ds)) = SigAck \<and> cr_status r = ''completed''
      \<or> mf_signal (dl_fate (last ds)) = SigTerm \<and> (cr_status r = ''failed''
          \<or> (\<exists>e. (dl_result (last ds) = ProcErr (msg e) \<or> e = ErrNoErasableIdentifiers)
              \<and> failure_unrecorded (eflt (dl_count (last ds))) msg e)))"
  using assms(1,4,6)
proof (induction "nat (wc_max_deliver c - int n)" arbitrary: n s req ds rule: less_induct)
  case less
  let ?last = "is_last_erase_delivery (if known n then Some n else None) (wc_max_deliver cfg)"
  obtain s1 v where h: "handle_erase (eflt n) msg (now n) ?last (Some m) s = (s1, v)" by fastforce
  obtain r1 where r1: "get_erase_request (sb_requests s1) (em_project m) (em_request m) = Some r1" "same_subject req r1"
      "v = EraseAck \<Longrightarrow> cr_status r1 = ''completed''"
      "v \<noteq> EraseAck \<Longrightarrow> ?last \<or> v = ErasePermanent \<Longrightarrow> cr_status r1 = ''failed''
        \<or> (\<exists>e. (v = ErasePermanent \<and> e = ErrNoErasableIdentifiers \<or> v = EraseRetry e) \<and> failure_unrecorded (eflt n) msg e)"
    using handle_erase_verdict [OF less.prems(2) assms(5) less.prems(3) h] by blast
  have ok1: "ledger_ok (sb_requests s1)" using handle_erase_kept [OF h] less.prems(2) by (simp add: books_kept_def)
  obtain res where p: "erase_processor eflt msg now cfg known (Some m) n s = (s1, res)"
      "v = EraseAck \<Longrightarrow> res = ProcOk" "v = ErasePermanent \<Longrightarrow> \<exists>e md. res = ProcPermanent e md" "\<And>e. v = EraseRetry e \<Longrightarrow> res = ProcErr (msg e)"
    by (cases v) (simp_all add: erase_processor_def h)
  let ?f = "handle_message (wflt n) c stamp sm (meta_of known seq n) res"
  have last_is: "?last = (\<not> known n \<or> wc_max_deliver c \<le> int n)"
    using assms(2,3) by (auto simp: new_worker_def is_last_erase_delivery_def split: if_splits option.splits)
  show ?case
  proof (cases "\<not> settled ?f \<and> int n < wc_max_deliver c")
    case True
    let ?s2 = "run_events subject_step s1 (between n)"
    obtain r2 where r2: "ledger_ok (sb_requests ?s2)" "get_erase_request (sb_requests ?s2) (em_project m) (em_request m) = Some r2" "same_subject r1 r2"
      using erase_kept_row [OF ok1 r1(1) run_books_kept] by blast
    obtain rest where rest: "deliver_from wflt c stamp seq known sm (erase_processor eflt msg now cfg known (Some m)) (\<lambda>n s. run_events subject_step s (between n))
        (Suc n) ?s2 = (s', rest)" "rest \<noteq> []" "last ds = last rest"
      using less.prems(1) True deliver_from_trace
      by (fastforce simp: deliver_from.simps [of wflt c stamp seq known sm _ _ n s] p(1) Let_def split: prod.splits)
    have "nat (wc_max_deliver c - int (Suc n)) < nat (wc_max_deliver c - int n)" using True by simp
    from less.hyps [OF this rest(1) r2(1,2)] show ?thesis using r1(2) r2(3) rest(3) by (auto simp: same_subject_def)
  next
    case False
    then have e: "s' = s1" "last ds = \<lparr>dl_count = n, dl_result = res, dl_fate = ?f\<rparr>"
      using less.prems(1) by (auto simp: deliver_from.simps [of wflt c stamp seq known sm _ _ n s] p(1) Let_def)
    have "mf_signal ?f = SigAck \<and> v = EraseAck \<or> mf_signal ?f = SigTerm \<and> v \<noteq> EraseAck \<and> (?last \<or> v = ErasePermanent)"
      using False p(2-4) last_is by (cases v) (auto simp: handle_message_signal meta_of_def settled_iff split: if_splits)
    then show ?thesis using r1 e p(4) by auto
  qed
qed

theorem last_delivery_agrees_witness:
  "is_last_erase_delivery (Some 5) (wc_max_deliver demo_config) = is_last_delivery demo_config 5 True"
  using last_delivery_agrees [OF demo_new_worker, of "Some 5"] by (simp add: demo_config_def)

theorem settled_message_is_on_the_ledger_witness:
  "\<exists>s ds r. deliver_from (\<lambda>_ _. False) demo_config ''now'' 7 (\<lambda>_. True) demo_stream_msg
      (erase_processor (\<lambda>_. demo_fault) demo_text (\<lambda>_. 40) demo_config (\<lambda>_. True) (Some (demo_erase_msg ''R1'')))
      (\<lambda>n s. run_events subject_step s []) 4 demo_requested = (s, ds)
    \<and> get_erase_request (sb_requests s) demo_project ''R1'' = Some r
    \<and> (mf_signal (dl_fate (last ds)) = SigAck \<and> cr_status r = ''completed'' \<or> mf_signal (dl_fate (last ds)) = SigTerm \<and> cr_status r = ''failed'')"
proof -
  obtain s ds where d: "deliver_from (\<lambda>_ _. False) demo_config ''now'' 7 (\<lambda>_. True) demo_stream_msg
      (erase_processor (\<lambda>_. demo_fault) demo_text (\<lambda>_. 40) demo_config (\<lambda>_. True) (Some (demo_erase_msg ''R1'')))
      (\<lambda>n s. run_events subject_step s ((\<lambda>_. []) n)) 4 demo_requested = (s, ds)"
    by (metis surj_pair)
  have l: "ledger_ok (sb_requests demo_requested)" by (simp add: demo_request_rows demo_ledger_ok parse_compliance_status_def)
  have g: "get_erase_request (sb_requests demo_requested) (em_project (demo_erase_msg ''R1'')) (em_request (demo_erase_msg ''R1''))
      = Some (demo_request [] ''pending'')"
    by (simp add: demo_request_rows get_erase_request_def demo_request_def kind_erase_def demo_erase_msg_def)
  have v: "valid_erase_msg (demo_erase_msg ''R1'')" by (simp add: valid_erase_msg_def demo_erase_msg_def demo_project_def)
  have x: "0 < wc_max_deliver demo_config" by (simp add: demo_config_def)
  show ?thesis
    using settled_message_is_on_the_ledger [OF d demo_new_worker x l v g] d demo_recorded by (auto simp: demo_erase_msg_def)
qed

end
