(* ===== verification/Spec2Isabelle.thy ===== *)
theory Spec2Isabelle
  imports Usage_Pass Dodo_Normalize Inbox_Laws Meter_Claims Permission Invite_Laws Role_Cache Retention_Claims Purge_Claims Domain_Claims Session_Claims Request_Claims Attribution_Claims Ingest_Claims Identify_Claims Erase_Worker
begin

text \<open>
  pug is a product-analytics service written in Go: SDKs send events, NATS workers store
  them in ClickHouse, and a dashboard queries them. Around that pipeline stand the parts
  that decide something about an organization's money, data and access, and these are what
  this development models, in the order money and data flow through them.

  \<^bold>\<open>Counting.\<close> \<open>internal/core/usage\<close> counts an org's events per UTC day and quota window,
  \<open>internal/app/cron/usage\<close> runs the hourly pass that refreshes the counts from
  ClickHouse, under the lock and the task stamps of \<open>internal/app/cron\<close>.
  \<open>Usage_Period\<close> has the calendar of the windows (\<open>usage.go\<close>), \<open>Usage_Store\<close> the tables and
  every query of \<open>usage.go\<close> and \<open>metering.go\<close>, \<open>Cron\<close> the lock and stamps, and \<open>Usage_Pass\<close> the
  pass with its properties.

  \<^bold>\<open>Entitlement.\<close> \<open>internal/core/billing/entitlement\<close> decides from a plan catalog, a stored row and
  a live subscription what an org may send: \<open>Provider\<close> (vocabulary, \<open>provider.go\<close>), \<open>Plans\<close>
  (\<open>plans.go\<close>), \<open>Entitlement\<close> (\<open>resolve.go\<close>, \<open>subscription.go\<close>), \<open>Billing_Tables\<close> (the tables of
  the billing migrations), \<open>Entitlement_Store\<close> (\<open>entitlement.go\<close>: the operator's writes and
  their history).

  \<^bold>\<open>Subscriptions.\<close> \<open>internal/core/billing/subscription\<close> stores what the payment provider says:
  \<open>Dodo_Normalize\<close> (\<open>internal/deps/dodo/normalize.go\<close>), \<open>Subscription_Store\<close> (the one
  compare-and-set statement that writes a subscription), \<open>Webhook\<close> (the inbox), \<open>Checkout\<close>,
  \<open>Reconcile\<close>. \<open>Subscription_Laws\<close> and \<open>Inbox_Laws\<close> prove what all writers keep together.

  \<^bold>\<open>The bill.\<close> \<open>internal/core/billing/meter\<close> states each live subscription's period to the
  provider: \<open>Meter_Split\<close> (\<open>split.go\<close>, \<open>window.go\<close>, \<open>statement.go\<close>), \<open>Meter_Ledger\<close> (\<open>ledger.go\<close> and
  its SQL), \<open>Meter_Pass\<close> (\<open>meter.go\<close>), \<open>Meter_Laws\<close> and \<open>Meter_Claims\<close> (its invariants over runs
  of passes with any faults).

  \<^bold>\<open>Keeping and erasing.\<close> \<open>internal/core/retention\<close> deletes events older than the length an
  entitlement grants, \<open>internal/core/purge\<close> erases what a project deleted through
  \<open>internal/core/projects\<close> stored. Both queue deletes on the ClickHouse tables of \<open>Event_Store\<close>:
  \<open>Retention\<close>, \<open>Retention_Laws\<close>, \<open>Retention_Claims\<close>, and \<open>Purge\<close>, \<open>Purge_Laws\<close>, \<open>Purge_Claims\<close>.

  \<^bold>\<open>Access.\<close> \<open>internal/core/orgs\<close> and \<open>internal/core/authz\<close> decide who may do what: \<open>Roles\<close>
  (\<open>role.go\<close>, \<open>policy.go\<close>, \<open>authorizer.go\<close>), \<open>Permission\<close> (the registry of procedures and the
  interceptor of \<open>internal/app/server/rpc\<close>), \<open>Membership\<close>, \<open>Membership_Laws\<close>, \<open>Invite_Laws\<close>
  (members, invitations and their mails, \<open>service.go\<close> and \<open>invite_accept.go\<close>), \<open>Role_Cache\<close> (the
  Redis cache of a member's role).

  \<^bold>\<open>Domains, sign-in and sessions.\<close> \<open>internal/domainname\<close> and the domain and connection halves of
  \<open>internal/core/orgs\<close>: \<open>Domain_Name\<close> (normalization), \<open>Domains\<close> (claiming, checking and removing a
  domain), \<open>Sso_Connections\<close> (an org's identity providers and the domains they are attached
  to), \<open>Domain_Laws\<close> and \<open>Domain_Claims\<close> (over any run: connections and required single sign-on only
  on verified claims, no domain with two connections, no org with two claims of one domain).
  \<open>internal/core/auth\<close>: \<open>Sign_Up\<close> (customers and their verification), \<open>Sessions\<close> (refresh tokens
  and their families), \<open>Sign_In\<close> (passwords and magic links), \<open>Oidc\<close> and \<open>External_Sign_In\<close>
  (the providers' tokens and the accounts they reach), composed in \<open>Auth_Machine\<close>, with
  \<open>Session_Laws\<close>, \<open>Account_Laws\<close>, \<open>Sign_In_Claims\<close> and \<open>Session_Claims\<close> over runs of it.

  \<^bold>\<open>Keys and requests.\<close> \<open>Api_Keys\<close> has the keys and projects of \<open>internal/core/projects\<close> and the
  Redis cache in front of them, \<open>Key_Cache\<close> the machine of readers, revocations and cache
  calls, \<open>Request_Auth\<close> the authentication of \<open>internal/app/server/rpc/auth.go\<close>. \<open>Request_Claims\<close>
  joins them with the minting side, and the section below joins them with the gate.

  \<^bold>\<open>Ingestion.\<close> An SDK's batch passes the handler of \<open>internal/app/server/rpc/sdk/events\<close>: \<open>Cookieless\<close>
  has the daily salts, the hashed visitor identity and the session keys of
  \<open>internal/cookieless\<close> (\<open>Go_Decimal\<close> is the \<open>strconv\<close> it stores them with), \<open>Salt_Laws\<close> and
  \<open>Cookieless_Claims\<close> prove them over runs of concurrent callers; \<open>Attribution\<close> and
  \<open>Attribution_Claims\<close> classify a referrer and its parameters (\<open>internal/attribution\<close>);
  \<open>Enrichment\<close> writes the values only the server may set
  (\<open>internal/autoprop\<close>, \<open>botdetect\<close>, \<open>geo\<close>, \<open>useragent\<close> and the handler that calls them); \<open>Ingest\<close> is
  the handler and the publisher it hands the batch to, with its properties in \<open>Ingest_Claims\<close>.

  \<^bold>\<open>Persons and their erasure.\<close> \<open>Person_Store\<close> has the tables that hold a person's data in Postgres
  and ClickHouse, with their statements; \<open>Identify\<close> the workers of \<open>internal/app/workers/profiles\<close>,
  which write an identified profile and merge an anonymous one into it; \<open>Erasure\<close> the requests
  and the worker's pass of \<open>internal/core/profiles/erasure.go\<close> with the handler of
  \<open>internal/app/workers/compliance\<close>; \<open>Worker_Frame\<close> the consumer of \<open>internal/deps/nats\<close> and the
  stream that delivers a message to it until it is settled. \<open>Erasure_Laws\<close> says what the deletes remove and leave,
  \<open>Ledger_Laws\<close> what the ledger keeps under its statements, \<open>Subject_Machine\<close> what it keeps under
  all writers together; \<open>Erasure_Claims\<close>, \<open>Erase_Worker\<close>, \<open>Subject_Claims\<close> and \<open>Identify_Claims\<close>
  hold the properties, over the examples of \<open>Subject_Demo\<close>.

  \<^bold>\<open>How the code is modelled.\<close> A table is a list or a map in a record, each SQL statement a
  definition mapped to its \<open>.sql\<close> file, with its conflict clauses, guards and constraint
  violations. A transaction is one step; a failed or uncommitted one leaves the tables as
  they were. Every call that can fail asks a fault function (\<open>flt\<close>, one constructor per call
  site), so a theorem over all fault functions covers every order of failures. Errors are
  values of a datatype per package. Services outside the repository (ClickHouse's counting
  query, the payment provider, casbin's enforcer, SHA-256, random tokens, JSON validity) are
  arguments; what a theorem needs of one is a named hypothesis. Instants are nanoseconds
  as \<open>int\<close>, calendar functions follow Go's normalization (\<open>Go_Time\<close>), strings are bytes
  (\<open>Go_String\<close>). Counts are \<open>int\<close>; the places where the code converts to a narrower integer
  have the range check written out. Concurrency is the interleaving of whole
  transactions, and for the role, key and salt caches of the single Redis and database calls. Two
  handlers are coarser than that: one delivery of an identification (\<open>handle_identify\<close>, three
  commits) and one of an erasure (\<open>execute_erasure\<close>, a pass over all stores) are single steps, with
  a fault possible at every call; what two of them at once can do is shown by example where it
  differs (\<open>late_freeze_shrinks_ids\<close>).

  \<^bold>\<open>Bounds and fuel.\<close> The loops over pages and batches recurse on what is left
  (\<open>batch_loop\<close>, \<open>chunks\<close>, \<open>for_each_batch\<close>) and terminate by a measure, the deliveries of a
  message on what its limit leaves (\<open>deliver_from\<close>, the stream's redelivery); the reconcile walk takes one unit of fuel
  per page and \<open>reconcile_walk_complete\<close> shows the number of rows over the page size is
  enough. No other definition has fuel.

  \<^bold>\<open>What the lemmas show.\<close> Calendar laws and the partition of time into windows; what one
  pass leaves in the usage tables; that resolution is total on a valid catalog and which
  source outranks which; that operator writes read back, keep deals and history; that a
  stored subscription never moves back and is single per org; that a delivery is settled
  once; that a bill's statements equal the split of the counted days, never go down, and are
  covered by the ledger; that retention waits and spares what counting re-reads; that a
  deletion is done only over nothing left and touches no live project; that the policy is the
  documented matrix, gated calls need a role, an org keeps an admin, invitations are bounded,
  and a cached role is the stored one; that a domain has one connection at most, on a verified claim, and sign-in by password is
  closed where single sign-on is required; that a refresh token is exchanged once and its
  replay ends the family; that a revoked key authenticates nobody once its entry is gone, on conditions stated with it, and
  a dashboard call is made with a role its caller holds, or held when it was cached, in the
  org it is about; that a day has one salt and
  a visit one session however the callers interleave, that what a client sends under a
  server-only name never reaches the store, and that each event of a batch is published or
  reported, under the identity the server gave it and without the visitor's address; that a
  completed erasure cleared ClickHouse of the ids on its row and Postgres of the one profile it
  names and touched nothing else, also when it was interrupted, that a message is acknowledged,
  sent back or dead-lettered by one rule until the stream has its answer, that a subject has one open request, that the ledger says how each
  message ended, and that a person identified under several ids is erased from ClickHouse under all
  of them. What these do not cover is said with each: a merged anonymous profile keeps its hidden
  row in Postgres, and a person who came back during an erasure keeps the new profile.

  \<^bold>\<open>Interfaces.\<close> \<open>Prelude\<close> states the contracts shared by several components as locales
  (machines with an invariant or a monotone relation) and each component interprets them
  on its own step; the keyed upserts of the SQL tables have one of their own.

  \<^bold>\<open>Not modelled.\<close> The insights queries, the event reader, the queries that list profiles, and
  dashboards and campaigns (their logic is mostly SQL text for ClickHouse and their results
  depend on it), mail rendering and sending, the workers that only batch messages into tables,
  the RPC handlers that only convert messages, migrations, seed data, the command-line tools,
  generated code, and the process set-up of every binary. Logging, telemetry and timeouts are
  left out of the modelled functions. \<open>PROJECT.json\<close> lists each part with its reason.
\<close>

section \<open>A whole call\<close>

text \<open>
  The role lookup of the gate: \<open>GetMemberRole\<close> on the state of the member's cache entry and of
  the replica. Its answer is what the entry holds or else what the replica has.
\<close>

definition cached_lookup :: "(cache_call \<Rightarrow> bool) \<Rightarrow> (string \<Rightarrow> string \<Rightarrow> cache_state) \<Rightarrow> role_lookup" where
  "cached_lookup flt st org c =
     (let s = st org c
      in case fst (get_member_role flt (rc_gen s) (rc_replica s) (rc_value s)) of
           Inl e \<Rightarrow> Inl (if e = ErrMemberNotFound then MemberNotFound else LookupFailed)
         | Inr r \<Rightarrow> Inr r)"

lemma cached_lookup_ok:
  assumes "cached_lookup flt st org c = Inr r"
  obtains v where "get_member_role flt (rc_gen (st org c)) (rc_replica (st org c)) (rc_value (st org c)) = (Inr r, v)"
  using assms by (cases "get_member_role flt (rc_gen (st org c)) (rc_replica (st org c)) (rc_value (st org c))")
    (auto simp: cached_lookup_def Let_def split: sum.splits)

text \<open>
  C23. A dashboard call that reaches a role-gated handler was made by a signed-in member: its
  bearer token verifies and has not expired, its subject is an existing customer, and the role
  that let it pass, a viewer's for a demo account, permits the procedure's action in the
  organization the call is about. That role is the one the member's cache entry holds or else the one
  read from the replica, so a member removed or demoted may still pass until the entry is
  invalidated or expires; it is the role now in the database when the entry's history is a
  careful one (invalidations land, no counter expires under a reader, no reader's row was behind)
  with no invalidation due and the replica caught up. Where the organization is the
  project's, the project is live and the customer is a member of its organization in the very
  rows that authentication read.
\<close>

theorem dashboard_call_needs_member:
  assumes "casbin_spec enforce" "registry_spec proc = Some s" "is_role_gated s" "hr_api_key req = []"
    and "with_dual_auth flt hash jwt now req us db r = (r', Inr p)"
    and "intercept enforce uni (cached_lookup cflt st) proc (Some (gate_principal p)) message_org = None"
  shows "\<exists>c u org stored res act. jwt (drop (length bearer_prefix) (hr_authorization req)) = Some c \<and> jwt_accepted now c
    \<and> jc_sub c = Some (cu_id u) \<and> u \<in> set us
    \<and> (rc_value (st org (cu_id u)) = Some (role_string stored) \<or> rc_replica (st org (cu_id u)) = Some (role_string stored))
    \<and> (\<forall>u0 h0 db0. cache_reach careful u0 h0 org (cu_id u) (fresh_cache org (cu_id u) db0) (st org (cu_id u))
         \<and> rc_pending (st org (cu_id u)) = 0 \<and> rc_log (st org (cu_id u)) = []
         \<longrightarrow> roles_of (ot_members (rc_tables (st org (cu_id u)))) org (cu_id u) = Some (role_string stored))
    \<and> sp_resource s = Some res \<and> sp_action s = Some act
    \<and> permitted (if is_demo_account uni (cu_email u) then RoleViewer else stored) res act
    \<and> (if sp_source s = Some OrgFromProject
       then (\<exists>x. live_project db (hr_project req) = Some x \<and> ap_org x = org) \<and> find_member (kt_members db) org (cu_id u) \<noteq> None
       else message_org = Some org)"
proof -
  have "with_jwt_auth flt jwt now req us db = Inr p" using assms(4,5) by (simp add: with_dual_auth_def)
  then obtain c u where who: "jwt (drop (length bearer_prefix) (hr_authorization req)) = Some c" "jwt_accepted now c"
    "jc_sub c = Some (cu_id u)" "u \<in> set us" "rp_customer p = Some u"
    "\<And>x. rp_project p = Some x \<Longrightarrow> project_for_member db (hr_project req) (cu_id u) = Some x" by (rule jwt_auth_ok) blast
  have "pn_customer (gate_principal p) = Some (cu_id u, cu_email u)" by (simp add: gate_principal_def who(5))
  from gate_needs_role [OF assms(1-3) refl this assms(6)] obtain org stored res act where gate:
    "resolve_org_id message_org (gate_principal p) (sp_source s) = Inr org" "cached_lookup cflt st org (cu_id u) = Inr stored"
    "sp_resource s = Some res" "sp_action s = Some act" "permitted (if is_demo_account uni (cu_email u) then RoleViewer else stored) res act"
    by blast
  let ?m = "st org (cu_id u)"
  obtain v where answer: "get_member_role cflt (rc_gen ?m) (rc_replica ?m) (rc_value ?m) = (Inr stored, v)"
    using cached_lookup_ok [OF gate(2)] by blast
  have held: "rc_value ?m = Some (role_string stored) \<or> rc_replica ?m = Some (role_string stored)"
    using get_member_role_answers [OF answer] by blast
  have current: "\<forall>u0 h0 db0. cache_reach careful u0 h0 org (cu_id u) (fresh_cache org (cu_id u) db0) ?m \<and> rc_pending ?m = 0 \<and> rc_log ?m = []
      \<longrightarrow> roles_of (ot_members (rc_tables ?m)) org (cu_id u) = Some (role_string stored)"
    using careful_answer_is_current [OF _ _ _ answer] unfolding role_now_def by blast
  have place: "if sp_source s = Some OrgFromProject
      then (\<exists>x. live_project db (hr_project req) = Some x \<and> ap_org x = org) \<and> find_member (kt_members db) org (cu_id u) \<noteq> None
      else message_org = Some org"
  proof (cases "sp_source s = Some OrgFromProject")
    case True
    then obtain x where x: "rp_project p = Some x" "ap_org x = org" using gate(1) by (auto simp: resolve_org_id_def gate_principal_def split: option.splits)
    have "live_project db (hr_project req) = Some x \<and> find_member (kt_members db) (ap_org x) (cu_id u) \<noteq> None"
      using who(6) [OF x(1)] by (auto simp: project_for_member_def split: option.splits if_splits)
    with x(2) True show ?thesis by auto
  next
    case False
    then show ?thesis using gate(1) by (auto simp: resolve_org_id_def split: option.splits org_source.splits)
  qed
  show ?thesis using who(1-4) held current gate(3-5) place by blast
qed

definition demo_office :: org_tables where
  "demo_office = \<lparr>ot_customers = [], ot_members = [\<lparr>mb_org = ''o'', mb_customer = ''c'', mb_role = ''ORG_ROLE_ADMIN''\<rparr>],
     ot_invitations = [], ot_tokens = []\<rparr>"

definition demo_rows :: key_tables where
  "demo_rows = \<lparr>kt_projects = [], kt_keys = [], kt_members = ot_members demo_office\<rparr>"

definition demo_caches :: "string \<Rightarrow> string \<Rightarrow> cache_state" where
  "demo_caches org c = fresh_cache org c demo_office"

definition demo_call :: http_request where
  "demo_call = \<lparr>hr_api_key = [], hr_query_key = [], hr_authorization = ''Bearer t'', hr_project = []\<rparr>"

lemma jo_is_no_demo: "\<not> is_demo_account id ''jo@acme.co''"
proof -
  have "runes ''jo@acme.co'' = map of_char ''jo@acme.co''" by (rule runes_ascii) (simp add: ascii_def)
  show ?thesis unfolding is_demo_account_def equal_fold_def runes_mail \<open>runes ''jo@acme.co'' = map of_char ''jo@acme.co''\<close>
    by (simp add: fold_rune_def demo_viewer_email_def demo_user_email_def)
qed

lemma dashboard_call_needs_member_witness:
  "\<exists>u stored. u \<in> set [demo_account] \<and> roles_of (ot_members demo_office) ''o'' (cu_id u) = Some (role_string stored)"
proof -
  let ?p = "\<lparr>rp_auth = AuthTypeJWT, rp_customer = Some demo_account, rp_project = None, rp_jti = ''j'', rp_masked = []\<rparr>"
  let ?proc = "''/dashboard.billing.v1.BillingService/CreateCheckoutSession''"
  have auth: "with_dual_auth (\<lambda>_. False) demo_digest demo_jwt (8 * hour) demo_call [demo_account] demo_rows (\<lambda>_. None) = ((\<lambda>_. None), Inr ?p)"
    by (simp add: with_dual_auth_def with_jwt_auth_def demo_call_def demo_jwt_def signed_claims_def jwt_accepted_def customer_by_id_def bearer_prefix_def
        starts_with_def access_token_ttl_def hour_def minute_def second_def Let_def)
  have role: "cached_lookup (\<lambda>_. False) demo_caches ''o'' ''c'' = Inr RoleAdmin"
    by (simp add: cached_lookup_def demo_caches_def fresh_cache_def get_member_role_def begin_read_def read_role_def roles_of_def find_member_def
        member_at_def demo_office_def parse_role_def role_string_def role_is_valid_def Let_def)
  have allowed: "intercept answering id (cached_lookup (\<lambda>_. False) demo_caches) ?proc (Some (gate_principal ?p)) (Some ''o'') = None"
    using jo_is_no_demo role
    by (simp add: intercept_def demo_proc is_role_gated_def org_gated_def authorize_role_gated_def gate_principal_def resolve_org_id_def
        require_permission_def principal_with_customer_def authorize_def answering_def policy_is_matrix permitted_def project_data_def
        admin_only_def Let_def)
  have gated: "is_role_gated (org_gated ResourceBilling ActionCreate)" by (simp add: is_role_gated_def org_gated_def)
  have key: "hr_api_key demo_call = []" by (simp add: demo_call_def)
  have tables: "rc_tables (demo_caches org c) = demo_office" "rc_pending (demo_caches org c) = 0" "rc_log (demo_caches org c) = []" for org c
    by (simp_all add: demo_caches_def fresh_cache_def)
  have reach: "cache_reach careful id id org c (fresh_cache org c demo_office) (demo_caches org c)" for org c
    unfolding demo_caches_def by (rule cache_reach.start)
  show ?thesis using dashboard_call_needs_member [OF answering_follows demo_proc gated key auth allowed] reach
    by (fastforce simp: org_gated_def tables)
qed

end
